(* ===== verification/Prelude.thy ===== *)
theory Prelude
  imports Main "HOL-Library.Monad_Syntax" "HOL-Library.Sublist"
begin

text \<open>
  Generic material shared by every component: list-level counterparts of the operations of
  Rust's \<open>str\<close> and slices (splitting, joining, trimming, prefix stripping), the type of
  JSON values (\<open>serde_json::Value\<close>) with its accessors, and the lemma collections the
  component theories extend.

  Two representations of Rust's \<open>String\<close> are used. Most components treat a string as the
  list of its UTF-8 bytes (HOL's \<open>string\<close>), so that \<open>len()\<close> is \<open>length\<close>. The terminal
  interface works on characters and grapheme clusters; there a string is the list of its
  Unicode scalar values (\<open>ustring\<close>, theory UText). The functions here are polymorphic
  in the element type and serve both.
\<close>

named_theorems total_intros \<open>facts that an operation returns, used to discharge absence of panics\<close>
named_theorems inv_intros \<open>preservation of the component invariants\<close>

section \<open>Options\<close>

lemma bind_Some_iff: "Option.bind m f = Some y \<longleftrightarrow> (\<exists>x. m = Some x \<and> f x = Some y)"
  by (cases m) auto

section \<open>Splitting and joining\<close>

text \<open>\<open>s.split(c)\<close>: the pieces between the separators; the empty string has one piece.\<close>

fun split_on :: "'a \<Rightarrow> 'a list \<Rightarrow> 'a list list" where
  "split_on c [] = [[]]"
| "split_on c (x # xs) =
     (if x = c then [] # split_on c xs
      else (case split_on c xs of [] \<Rightarrow> [[x]] | y # ys \<Rightarrow> (x # y) # ys))"

text \<open>\<open>v.join(sep)\<close> for a one-character separator.\<close>

fun join_with :: "'a \<Rightarrow> 'a list list \<Rightarrow> 'a list" where
  "join_with c [] = []"
| "join_with c [x] = x"
| "join_with c (x # y # zs) = x @ c # join_with c (y # zs)"

lemma split_on_nonempty [simp]: "split_on c xs \<noteq> []"
  by (induction xs) (auto split: list.splits)

lemma join_with_Cons:
  "ys \<noteq> [] \<Longrightarrow> join_with c (x # ys) = x @ c # join_with c ys"
  by (cases ys) auto

lemma join_split_on [simp]: "join_with c (split_on c xs) = xs"
proof (induction xs)
  case Nil
  show ?case by simp
next
  case (Cons x xs)
  obtain y ys where y: "split_on c xs = y # ys"
    using split_on_nonempty [of c xs] by (cases "split_on c xs") auto
  show ?case
  proof (cases "x = c")
    case True
    with Cons.IH show ?thesis by (simp add: join_with_Cons)
  next
    case False
    with Cons.IH y show ?thesis by (cases ys) auto
  qed
qed

lemma split_on_no_sep: "p \<in> set (split_on c xs) \<Longrightarrow> c \<notin> set p"
  by (induction xs arbitrary: p) (auto split: if_splits list.splits)

lemma split_on_append_sep:
  "c \<notin> set x \<Longrightarrow> split_on c (x @ c # ys) = x # split_on c ys"
  by (induction x) auto

lemma split_on_single: "c \<notin> set x \<Longrightarrow> split_on c x = [x]"
  by (induction x) auto

lemma split_join_with:
  "xs \<noteq> [] \<Longrightarrow> \<forall>x \<in> set xs. c \<notin> set x \<Longrightarrow> split_on c (join_with c xs) = xs"
  by (induction c xs rule: join_with.induct) (auto simp: split_on_single split_on_append_sep)

lemma join_with_append:
  "xs \<noteq> [] \<Longrightarrow> ys \<noteq> [] \<Longrightarrow> join_with c (xs @ ys) = join_with c xs @ c # join_with c ys"
  by (induction c xs rule: join_with.induct) (auto simp: join_with_Cons)

lemma join_with_glue:
  "join_with c (xs @ (a @ b) # ys) = join_with c (xs @ [a]) @ join_with c (b # ys)"
proof (induction xs)
  case Nil
  show ?case by (cases ys) simp_all
next
  case (Cons x xs)
  then show ?case by (simp add: join_with_Cons)
qed

text \<open>\<open>s.split_once(c)\<close>: the parts before and after the first separator.\<close>

fun split_once :: "'a \<Rightarrow> 'a list \<Rightarrow> ('a list \<times> 'a list) option" where
  "split_once c [] = None"
| "split_once c (x # xs) =
     (if x = c then Some ([], xs)
      else map_option (\<lambda>(a, b). (x # a, b)) (split_once c xs))"

lemma split_once_Some: "split_once c xs = Some (a, b) \<Longrightarrow> xs = a @ c # b \<and> c \<notin> set a"
  by (induction xs arbitrary: a b) (auto split: if_splits)

lemma split_once_None: "split_once c xs = None \<longleftrightarrow> c \<notin> set xs"
  by (induction xs) auto

lemma split_once_append: "c \<notin> set a \<Longrightarrow> split_once c (a @ c # b) = Some (a, b)"
  by (induction a) auto

text \<open>\<open>s.rsplit_once(c)\<close>: around the last separator.\<close>

definition rsplit_once :: "'a \<Rightarrow> 'a list \<Rightarrow> ('a list \<times> 'a list) option" where
  "rsplit_once c xs =
     map_option (\<lambda>(a, b). (rev b, rev a)) (split_once c (rev xs))"

lemma rsplit_once_Some:
  "rsplit_once c xs = Some (a, b) \<Longrightarrow> xs = a @ c # b \<and> c \<notin> set b"
  by (auto simp: rsplit_once_def dest!: split_once_Some) (metis append.assoc append_Cons append_Nil rev.simps(2) rev_append rev_rev_ident)

section \<open>Prefixes, suffixes, substrings, trimming\<close>

text \<open>\<open>s.strip_prefix(p)\<close>, \<open>s.starts_with(p)\<close> (\<open>prefix\<close>), \<open>s.contains(p)\<close>.\<close>

fun strip_prefix :: "'a list \<Rightarrow> 'a list \<Rightarrow> 'a list option" where
  "strip_prefix [] xs = Some xs"
| "strip_prefix (p # ps) [] = None"
| "strip_prefix (p # ps) (x # xs) = (if p = x then strip_prefix ps xs else None)"

lemma strip_prefix_Some_iff: "strip_prefix p xs = Some r \<longleftrightarrow> xs = p @ r"
  by (induction p xs rule: strip_prefix.induct) auto

lemma strip_prefix_append [simp]: "strip_prefix p (p @ r) = Some r"
  by (simp add: strip_prefix_Some_iff)

definition strip_suffix :: "'a list \<Rightarrow> 'a list \<Rightarrow> 'a list option" where
  "strip_suffix s xs = map_option rev (strip_prefix (rev s) (rev xs))"

lemma strip_suffix_Some_iff: "strip_suffix s xs = Some r \<longleftrightarrow> xs = r @ s"
  by (auto simp: strip_suffix_def strip_prefix_Some_iff) (metis rev_append rev_rev_ident)

fun has_infix :: "'a list \<Rightarrow> 'a list \<Rightarrow> bool" where
  "has_infix p [] = (p = [])"
| "has_infix p (x # xs) = (strip_prefix p (x # xs) \<noteq> None \<or> has_infix p xs)"

lemma has_infix_iff: "has_infix p xs \<longleftrightarrow> (\<exists>a b. xs = a @ p @ b)"
proof (induction xs)
  case Nil
  show ?case by auto
next
  case (Cons x xs)
  have "strip_prefix p (x # xs) \<noteq> None \<longleftrightarrow> (\<exists>b. x # xs = p @ b)"
    using strip_prefix_Some_iff [of p "x # xs"] by auto
  then show ?case
    using Cons.IH by (metis append_Cons append_Nil has_infix.simps(2) neq_Nil_conv list.inject)
qed

text \<open>Trimming both ends by a predicate, as \<open>str::trim\<close> does for white space.\<close>

definition trim_end_by :: "('a \<Rightarrow> bool) \<Rightarrow> 'a list \<Rightarrow> 'a list" where
  "trim_end_by P xs = rev (dropWhile P (rev xs))"

definition trim_by :: "('a \<Rightarrow> bool) \<Rightarrow> 'a list \<Rightarrow> 'a list" where
  "trim_by P xs = trim_end_by P (dropWhile P xs)"

lemma trim_end_by_Nil_iff: "trim_end_by P xs = [] \<longleftrightarrow> (\<forall>x \<in> set xs. P x)"
  by (simp add: trim_end_by_def)

lemma all_dropWhile_iff: "(\<forall>x \<in> set (dropWhile P xs). P x) \<longleftrightarrow> (\<forall>x \<in> set xs. P x)"
  by (induction xs) auto

lemma trim_by_Nil_iff: "trim_by P xs = [] \<longleftrightarrow> (\<forall>x \<in> set xs. P x)"
  by (simp add: trim_by_def trim_end_by_Nil_iff all_dropWhile_iff)

lemma set_trim_by: "set (trim_by P xs) \<subseteq> set xs"
proof -
  have "set (dropWhile P (rev (dropWhile P xs))) \<subseteq> set xs"
    using set_dropWhileD [of _ P "rev (dropWhile P xs)"] set_dropWhileD [of _ P xs] by auto
  then show ?thesis by (simp add: trim_by_def trim_end_by_def)
qed

lemma trim_by_ends:
  assumes "trim_by P xs \<noteq> []"
  shows "\<not> P (hd (trim_by P xs)) \<and> \<not> P (last (trim_by P xs))"
proof -
  let ?d = "dropWhile P xs"
  have ne: "\<not> (\<forall>x \<in> set ?d. P x)"
    using assms by (simp add: trim_by_def trim_end_by_Nil_iff)
  then have d: "?d \<noteq> []" by (metis empty_iff empty_set)
  obtain y ys where y: "?d = y # ys" using d by (cases ?d) auto
  have ny: "\<not> P y" using y hd_dropWhile [of P xs] d by simp
  have "rev (dropWhile P (rev ys @ [y])) = y # rev (dropWhile P (rev ys))"
    using ny by (induction ys rule: rev_induct) (auto simp: dropWhile_append)
  then have "hd (trim_by P xs) = y"
    by (simp add: trim_by_def trim_end_by_def y)
  moreover have "\<not> P (last (trim_by P xs))"
    unfolding trim_by_def trim_end_by_def
    using ne by (simp add: last_rev hd_dropWhile)
  ultimately show ?thesis using ny by simp
qed

section \<open>Bytes\<close>

definition is_ascii_alnum :: "char \<Rightarrow> bool" where
  "is_ascii_alnum c \<longleftrightarrow> (48 \<le> (of_char c :: nat) \<and> (of_char c :: nat) \<le> 57)
     \<or> (65 \<le> (of_char c :: nat) \<and> (of_char c :: nat) \<le> 90)
     \<or> (97 \<le> (of_char c :: nat) \<and> (of_char c :: nat) \<le> 122)"

section \<open>JSON values\<close>

text \<open>
  \<open>serde_json::Value\<close>. An object keeps its members in a list (the crate's map iterates in a
  fixed order); \<open>get\<close> on a value that is no object is \<open>None\<close>. Numbers: integers and, for
  numbers written with a fraction or an exponent, a separate constructor with no arithmetic.
\<close>

datatype 's json =
    JNull
  | JBool bool
  | JInt int
  | JFloat int int \<comment> \<open>mantissa and decimal exponent\<close>
  | JStr 's
  | JArr "'s json list"
  | JObj "('s \<times> 's json) list"

fun jget :: "'s \<Rightarrow> 's json \<Rightarrow> 's json option" where
  "jget k (JObj ms) = map_of ms k"
| "jget k _ = None"

fun as_str :: "'s json \<Rightarrow> 's option" where
  "as_str (JStr s) = Some s"
| "as_str _ = None"

fun as_arr :: "'s json \<Rightarrow> 's json list option" where
  "as_arr (JArr xs) = Some xs"
| "as_arr _ = None"

fun as_obj :: "'s json \<Rightarrow> ('s \<times> 's json) list option" where
  "as_obj (JObj ms) = Some ms"
| "as_obj _ = None"

fun as_bool :: "'s json \<Rightarrow> bool option" where
  "as_bool (JBool b) = Some b"
| "as_bool _ = None"

text \<open>\<open>as_u64\<close> and \<open>as_i64\<close>: integers in range, nothing else.\<close>

fun as_u64 :: "'s json \<Rightarrow> nat option" where
  "as_u64 (JInt i) = (if 0 \<le> i \<and> i < 2 ^ 64 then Some (nat i) else None)"
| "as_u64 _ = None"

fun as_i64 :: "'s json \<Rightarrow> int option" where
  "as_i64 (JInt i) = (if - (2 ^ 63) \<le> i \<and> i < 2 ^ 63 then Some i else None)"
| "as_i64 _ = None"

end
