(* ===== verification/UText.thy ===== *)
theory UText
  imports Prelude
begin

text \<open>
  Text as a list of Unicode scalar values: the character classes of Rust's \<open>char\<close> that
  the terminal interface consults, and literals.
\<close>

type_synonym uchar = nat
type_synonym ustring = "uchar list"

text \<open>An ASCII literal of the source.\<close>

definition utf :: "string \<Rightarrow> ustring" where
  "utf s = map of_char s"

lemma utf_inj [simp]: "utf s = utf t \<longleftrightarrow> s = t"
  by (simp add: utf_def inj_map_eq_map inj_of_char)

lemma utf_Nil_iff [simp]: "utf s = [] \<longleftrightarrow> s = []"
  by (simp add: utf_def)

lemma utf_append: "utf (s @ t) = utf s @ utf t"
  by (simp add: utf_def)

text \<open>\<open>char::is_whitespace\<close>: the code points with the property White\_Space.\<close>

definition is_white :: "uchar \<Rightarrow> bool" where
  "is_white c \<longleftrightarrow>
     (9 \<le> c \<and> c \<le> 13) \<or> c = 32 \<or> c = 0x85 \<or> c = 0xA0 \<or> c = 0x1680 \<or>
     (0x2000 \<le> c \<and> c \<le> 0x200A) \<or> c = 0x2028 \<or> c = 0x2029 \<or> c = 0x202F \<or>
     c = 0x205F \<or> c = 0x3000"

text \<open>\<open>char::is_control\<close>: general category Cc.\<close>

definition is_control :: "uchar \<Rightarrow> bool" where
  "is_control c \<longleftrightarrow> c \<le> 31 \<or> (127 \<le> c \<and> c \<le> 159)"

definition newline :: uchar where
  "newline = 10"

lemma is_control_newline [simp]: "is_control newline"
  by (simp add: is_control_def newline_def)

lemma is_white_newline [simp]: "is_white newline"
  by (simp add: is_white_def newline_def)

abbreviation utrim :: "ustring \<Rightarrow> ustring" where
  "utrim \<equiv> trim_by is_white"

end
