(* ===== verification/Graphemes.thy ===== *)
theory Graphemes
  imports UText
begin

text \<open>
  The grapheme clusters the input area of the terminal chat counts its columns in
  (\<open>cli/src/tui/editor.rs\<close>, \<open>Graphemes\<close>, \<open>grapheme_offset\<close>): the cluster iterator, and the
  translation from a column to an offset into the line.

  A Rust byte offset into a line is represented by the number of characters before it; the
  source only uses offsets that lie on character boundaries, and only to slice the line.
\<close>

section \<open>Grapheme clusters\<close>

definition is_joiner :: "uchar \<Rightarrow> bool" where
  "is_joiner c \<longleftrightarrow> c = 0x200D \<or> c = 0x200C"

definition is_regional :: "uchar \<Rightarrow> bool" where
  "is_regional c \<longleftrightarrow> 0x1F1E6 \<le> c \<and> c \<le> 0x1F1FF"

definition is_combiner :: "uchar \<Rightarrow> bool" where
  "is_combiner c \<longleftrightarrow>
     (0xFE00 \<le> c \<and> c \<le> 0xFE0F) \<or> (0x0300 \<le> c \<and> c \<le> 0x036F) \<or>
     (0x1AB0 \<le> c \<and> c \<le> 0x1AFF) \<or> (0x1F3FB \<le> c \<and> c \<le> 0x1F3FF)"

text \<open>
  The loop of \<open>Graphemes::next\<close> after the first character of the cluster: how many further
  characters it absorbs. \<open>fresh\<close> says that nothing has been absorbed yet
  (\<open>end == start + first.len_utf8()\<close>).
\<close>

fun cluster_tail :: "uchar \<Rightarrow> bool \<Rightarrow> ustring \<Rightarrow> nat" where
  "cluster_tail first fresh [] = 0"
| "cluster_tail first fresh (c # cs) =
     (if is_joiner c then
        (case cs of
           [] \<Rightarrow> 1
         | c2 # cs' \<Rightarrow> Suc (Suc (cluster_tail first False cs')))
      else if is_combiner c \<or> (is_regional c \<and> is_regional first \<and> fresh) then
        Suc (cluster_tail first False cs)
      else 0)"

fun next_cluster :: "ustring \<Rightarrow> (ustring \<times> ustring) option" where
  "next_cluster [] = None"
| "next_cluster (c # cs) =
     (let n = cluster_tail c True cs in Some (c # take n cs, drop n cs))"

function graphemes :: "ustring \<Rightarrow> ustring list" where
  "graphemes s =
     (case next_cluster s of None \<Rightarrow> [] | Some (g, rest) \<Rightarrow> g # graphemes rest)"
  by pat_completeness auto
termination
proof (relation "measure length")
  fix s x g rest
  assume "next_cluster s = Some x" and "(g, rest) = x"
  then show "(rest, s) \<in> measure length"
    by (cases s) (auto simp: Let_def)
qed simp

declare graphemes.simps [simp del]

lemma graphemes_Nil [simp]: "graphemes [] = []"
  by (simp add: graphemes.simps)

lemma graphemes_Cons:
  "graphemes (c # cs) =
     (c # take (cluster_tail c True cs) cs) # graphemes (drop (cluster_tail c True cs) cs)"
  by (subst graphemes.simps) (simp add: Let_def)

lemma graphemes_Nil_iff [simp]: "graphemes s = [] \<longleftrightarrow> s = []"
  by (cases s) (simp_all add: graphemes_Cons)

lemma graphemes_induct [case_names Nil Cons]:
  assumes "P []"
    and "\<And>c cs. P (drop (cluster_tail c True cs) cs) \<Longrightarrow> P (c # cs)"
  shows "P s"
proof (induction s rule: length_induct)
  case (1 s)
  then show ?case
    by (cases s) (auto intro!: assms)
qed

lemma concat_graphemes [simp]: "concat (graphemes s) = s"
  by (induction s rule: graphemes_induct) (simp_all add: graphemes_Cons)

lemma graphemes_nonempty: "g \<in> set (graphemes s) \<Longrightarrow> g \<noteq> []"
  by (induction s rule: graphemes_induct) (auto simp: graphemes_Cons)

text \<open>
  Cutting a string at a cluster boundary does not change the clusters before it: a cluster
  is decided by its own characters and, at most, the one that follows.
\<close>

lemma cluster_tail_le: "cluster_tail f b cs \<le> length cs"
  by (induction f b cs rule: cluster_tail.induct) (auto split: list.splits)

lemma cluster_tail_cut:
  "prefix rest (drop (cluster_tail f b cs) cs) \<Longrightarrow>
     cluster_tail f b (take (cluster_tail f b cs) cs @ rest) = cluster_tail f b cs"
proof (induction f b cs rule: cluster_tail.induct)
  case (1 f b)
  then show ?case by simp
next
  case (2 f b c cs)
  consider (joiner) "is_joiner c"
    | (absorbed) "\<not> is_joiner c" "is_combiner c \<or> (is_regional c \<and> is_regional f \<and> b)"
    | (stop) "\<not> is_joiner c" "\<not> (is_combiner c \<or> (is_regional c \<and> is_regional f \<and> b))"
    by blast
  then show ?case
  proof cases
    case joiner
    show ?thesis
    proof (cases cs)
      case Nil
      with joiner "2.prems" show ?thesis by simp
    next
      case (Cons c2 cs')
      with joiner 2 show ?thesis by simp
    qed
  next
    case absorbed
    with "2.IH"(2) "2.prems" show ?thesis by simp
  next
    case stop
    then have z: "cluster_tail f b (c # cs) = 0" by simp
    with "2.prems" have "rest = [] \<or> (\<exists>r. rest = c # r)" by (cases rest) auto
    with stop z show ?thesis by auto
  qed
qed

lemma graphemes_cut: "graphemes (concat (take n (graphemes s))) = take n (graphemes s)"
proof (induction s arbitrary: n rule: graphemes_induct)
  case Nil
  show ?case by simp
next
  case (Cons c cs)
  let ?k = "cluster_tail c True cs"
  show ?case
  proof (cases n)
    case 0
    then show ?thesis by simp
  next
    case (Suc m)
    let ?rest = "concat (take m (graphemes (drop ?k cs)))"
    have "?rest @ concat (drop m (graphemes (drop ?k cs))) = drop ?k cs"
      by (metis append_take_drop_id concat_append concat_graphemes)
    then have "prefix ?rest (drop ?k cs)" by (metis prefixI)
    then have tl: "cluster_tail c True (take ?k cs @ ?rest) = ?k"
      by (rule cluster_tail_cut)
    have "graphemes (c # take ?k cs @ ?rest) = (c # take ?k cs) # graphemes ?rest"
      by (subst graphemes_Cons) (simp add: tl cluster_tail_le)
    then show ?thesis by (simp add: Suc graphemes_Cons Cons.IH)
  qed
qed

section \<open>Columns and offsets\<close>

definition grapheme_count :: "ustring \<Rightarrow> nat" where
  "grapheme_count line = length (graphemes line)"

text \<open>
  \<open>grapheme_offset\<close> walks the clusters of the line and, for each, measures the first cluster
  of what remains after the current offset.
\<close>

fun offset_loop :: "ustring \<Rightarrow> nat \<Rightarrow> nat \<Rightarrow> nat \<Rightarrow> ustring list \<Rightarrow> nat" where
  "offset_loop line col i off [] = length line"
| "offset_loop line col i off (g # gs) =
     (if col \<le> i then off
      else offset_loop line col (Suc i)
             (off + (case graphemes (drop off line) of [] \<Rightarrow> 0 | h # _ \<Rightarrow> length h)) gs)"

definition grapheme_offset :: "ustring \<Rightarrow> nat \<Rightarrow> nat" where
  "grapheme_offset line col = offset_loop line col 0 0 (graphemes line)"

lemma drop_graphemes:
  "graphemes (drop (length (concat (take n (graphemes s)))) s) = drop n (graphemes s)"
proof (induction s arbitrary: n rule: graphemes_induct)
  case Nil
  show ?case by simp
next
  case (Cons c cs)
  then show ?case
    by (cases n) (simp_all add: graphemes_Cons min_absorb2 cluster_tail_le add.commute)
qed

lemma offset_loop_eq:
  assumes "gs = drop i (graphemes line)" and "i \<le> col"
    and "off = length (concat (take i (graphemes line)))"
  shows "offset_loop line col i off gs = length (concat (take col (graphemes line)))"
  using assms
proof (induction gs arbitrary: i off)
  case Nil
  then have "take col (graphemes line) = graphemes line" by simp
  then show ?case by simp
next
  case (Cons g gs)
  have i: "i < length (graphemes line)" and g: "graphemes line ! i = g"
    using Cons.prems(1) by (metis drop_all list.distinct(1) not_less, metis drop_eq_Nil hd_drop_conv_nth list.sel(1) list.distinct(1) not_le)
  have gs: "gs = drop (Suc i) (graphemes line)"
    using Cons.prems(1) by (metis drop_Suc list.sel(3) tl_drop)
  have here: "graphemes (drop off line) = g # gs"
    using Cons.prems by (simp add: drop_graphemes)
  show ?case
  proof (cases "col \<le> i")
    case True
    with Cons.prems(2) have "i = col" by simp
    with Cons.prems(3) show ?thesis by simp
  next
    case False
    have "offset_loop line col (Suc i) (off + length g) gs
        = length (concat (take col (graphemes line)))"
      by (rule Cons.IH) (use gs False i g Cons.prems(3) in \<open>simp_all add: take_Suc_conv_app_nth\<close>)
    with False here show ?thesis by simp
  qed
qed

lemma grapheme_offset_eq:
  "grapheme_offset line col = length (concat (take col (graphemes line)))"
  unfolding grapheme_offset_def by (rule offset_loop_eq) simp_all

lemma take_grapheme_offset:
  "take (grapheme_offset line col) line = concat (take col (graphemes line))"
proof -
  have "line = concat (take col (graphemes line)) @ concat (drop col (graphemes line))"
    by (metis append_take_drop_id concat_append concat_graphemes)
  then show ?thesis by (metis append_eq_conv_conj grapheme_offset_eq)
qed

lemma drop_grapheme_offset:
  "drop (grapheme_offset line col) line = concat (drop col (graphemes line))"
proof -
  have "line = concat (take col (graphemes line)) @ concat (drop col (graphemes line))"
    by (metis append_take_drop_id concat_append concat_graphemes)
  then show ?thesis by (metis append_eq_conv_conj grapheme_offset_eq)
qed

lemma grapheme_offset_le: "grapheme_offset line col \<le> length line"
  by (metis grapheme_offset_eq take_grapheme_offset length_take min.cobounded1)

lemma grapheme_offset_mono: "a \<le> b \<Longrightarrow> grapheme_offset line a \<le> grapheme_offset line b"
  by (metis concat_append grapheme_offset_eq le_add1 le_add_diff_inverse length_append take_add)

section \<open>Properties\<close>

text \<open>
  the clusters of a string partition it, in order and without an empty piece, so a cursor
  counted in clusters can stand anywhere in it and never inside one; and cutting the string at
  a cluster boundary leaves the clusters before the cut as they were.
\<close>

theorem graphemes_partition:
  "concat (graphemes s) = s \<and> [] \<notin> set (graphemes s)
   \<and> graphemes (concat (take n (graphemes s))) = take n (graphemes s)"
  using graphemes_nonempty [of "[]" s] graphemes_cut [of n s] by auto

text \<open>
  the offset loop, which measures the first cluster of what remains in every round, computes
  the length of the clusters before the column (the whole line for a column past its end).
\<close>

theorem grapheme_offset_correct:
  "take (grapheme_offset line c) line = concat (take c (graphemes line))
   \<and> drop (grapheme_offset line c) line = concat (drop c (graphemes line))
   \<and> grapheme_offset line c \<le> length line"
  by (simp add: take_grapheme_offset drop_grapheme_offset grapheme_offset_le)

end
