(* ===== verification/Editor.thy ===== *)
theory Editor
  imports Graphemes
begin

text \<open>
  The multi-line input area of the terminal chat, \<open>cli/src/tui/editor.rs\<close>: its buffer and
  cursor, the editing commands and the history of sent messages. The window that is
  displayed is in theory EditorView.

  Every line index the code uses comes from the cursor it has just clamped. The one index
  that depends on the caller's state is the position in the history: reading past its end
  is a panic, the value \<open>None\<close> of \<open>apply_cmd\<close>.
\<close>

section \<open>State and commands\<close>

record editor_state =
  lines :: "ustring list"
  cursor :: "nat \<times> nat"
  history :: "ustring list"
  history_pos :: "nat option"
  draft :: "ustring option"

datatype edit_command =
    Insert uchar
  | InsertStr ustring
  | Newline
  | Backspace
  | Delete
  | CLeft
  | CRight
  | CUp
  | CDown
  | WordLeft
  | WordRight
  | Home
  | End
  | KillLine
  | KillToStart
  | DeleteWord
  | Clear
  | HistoryPrev
  | HistoryNext

definition editor_new :: editor_state where
  "editor_new = \<lparr>lines = [[]], cursor = (0, 0), history = [], history_pos = None, draft = None\<rparr>"

abbreviation row :: "editor_state \<Rightarrow> nat" where "row st \<equiv> fst (cursor st)"
abbreviation col :: "editor_state \<Rightarrow> nat" where "col st \<equiv> snd (cursor st)"

definition cur_line :: "editor_state \<Rightarrow> ustring" where
  "cur_line st = lines st ! row st"

definition put_line :: "editor_state \<Rightarrow> ustring \<Rightarrow> editor_state" where
  "put_line st l = st\<lparr>lines := (lines st)[row st := l]\<rparr>"

definition put_col :: "editor_state \<Rightarrow> nat \<Rightarrow> editor_state" where
  "put_col st c = st\<lparr>cursor := (row st, c)\<rparr>"

definition editor_text :: "editor_state \<Rightarrow> ustring" where
  "editor_text st = join_with newline (lines st)"

definition is_blank :: "editor_state \<Rightarrow> bool" where
  "is_blank st \<longleftrightarrow> list_all (\<lambda>l. utrim l = []) (lines st)"

definition set_text :: "editor_state \<Rightarrow> ustring \<Rightarrow> editor_state" where
  "set_text st entry =
     (let ls = split_on newline entry;
          ls = (if ls = [] then [[]] else ls);
          r = length ls - 1
      in st\<lparr>lines := ls, cursor := (r, grapheme_count (ls ! r))\<rparr>)"

section \<open>The editing commands\<close>

text \<open>The normalisation at the head of \<open>apply\<close>: at least one line, the cursor in range.\<close>

definition clamp :: "editor_state \<Rightarrow> editor_state" where
  "clamp st =
     (let ls = (if lines st = [] then [[]] else lines st);
          r = min (row st) (length ls - 1);
          c = min (col st) (grapheme_count (ls ! r))
      in st\<lparr>lines := ls, cursor := (r, c)\<rparr>)"

text \<open>\<open>replace_range(off..off, g)\<close> at the cursor, and the cursor one column on.\<close>

definition splice :: "editor_state \<Rightarrow> ustring \<Rightarrow> editor_state" where
  "splice st g =
     (let off = grapheme_offset (cur_line st) (col st)
      in put_col (put_line st (take off (cur_line st) @ g @ drop off (cur_line st)))
           (col st + 1))"

definition ed_newline :: "editor_state \<Rightarrow> editor_state" where
  "ed_newline st =
     (let off = grapheme_offset (cur_line st) (col st);
          tail = drop off (cur_line st);
          ls = (lines st)[row st := take off (cur_line st)]
      in st\<lparr>lines := take (row st + 1) ls @ tail # drop (row st + 1) ls,
            cursor := (row st + 1, 0)\<rparr>)"

definition ed_insert :: "editor_state \<Rightarrow> uchar \<Rightarrow> editor_state" where
  "ed_insert st c =
     (if c = newline then ed_newline (clamp st)
      else if is_control c then st
      else splice st [c])"

text \<open>One cluster of a pasted string.\<close>

fun insert_cluster :: "editor_state \<Rightarrow> ustring \<Rightarrow> editor_state" where
  "insert_cluster st [] = st"
| "insert_cluster st (c # cs) =
     (if c = newline then ed_newline (clamp st)
      else if is_control c then
        (let clean = filter (\<lambda>x. \<not> is_control x) (c # cs)
         in if clean = [] then st else splice st clean)
      else splice st (c # cs))"

definition ed_insert_str :: "editor_state \<Rightarrow> ustring \<Rightarrow> editor_state" where
  "ed_insert_str st s = fold (\<lambda>g st. insert_cluster st g) (graphemes s) st"

text \<open>\<open>replace_range(start..end, "")\<close> in the current line.\<close>

definition cut_cols :: "editor_state \<Rightarrow> nat \<Rightarrow> nat \<Rightarrow> editor_state" where
  "cut_cols st a b =
     (let s = grapheme_offset (cur_line st) a; e = grapheme_offset (cur_line st) b
      in put_line st (take s (cur_line st) @ drop e (cur_line st)))"

text \<open>\<open>lines.remove(i)\<close> followed by \<open>push_str\<close> on the line before it.\<close>

definition merge_into_prev :: "ustring list \<Rightarrow> nat \<Rightarrow> ustring list" where
  "merge_into_prev ls i =
     (let tail = ls ! i; ls' = take i ls @ drop (Suc i) ls
      in ls'[i - 1 := ls' ! (i - 1) @ tail])"

definition ed_backspace :: "editor_state \<Rightarrow> editor_state" where
  "ed_backspace st =
     (if 0 < col st then put_col (cut_cols st (col st - 1) (col st)) (col st - 1)
      else if 0 < row st then
        st\<lparr>lines := merge_into_prev (lines st) (row st),
           cursor := (row st - 1, grapheme_count (lines st ! (row st - 1)))\<rparr>
      else st)"

definition ed_delete :: "editor_state \<Rightarrow> editor_state" where
  "ed_delete st =
     (if col st < grapheme_count (cur_line st) then cut_cols st (col st) (col st + 1)
      else if row st + 1 < length (lines st) then
        st\<lparr>lines := merge_into_prev (lines st) (row st + 1)\<rparr>
      else st)"

definition ed_left :: "editor_state \<Rightarrow> editor_state" where
  "ed_left st =
     (if 0 < col st then put_col st (col st - 1)
      else if 0 < row st then
        st\<lparr>cursor := (row st - 1, grapheme_count (lines st ! (row st - 1)))\<rparr>
      else st)"

definition ed_right :: "editor_state \<Rightarrow> editor_state" where
  "ed_right st =
     (if col st < grapheme_count (cur_line st) then put_col st (col st + 1)
      else if row st + 1 < length (lines st) then st\<lparr>cursor := (row st + 1, 0)\<rparr>
      else st)"

definition ed_up :: "editor_state \<Rightarrow> editor_state" where
  "ed_up st =
     (let r = row st - 1 in st\<lparr>cursor := (r, min (col st) (grapheme_count (lines st ! r)))\<rparr>)"

definition ed_down :: "editor_state \<Rightarrow> editor_state" where
  "ed_down st =
     (let r = min (row st + 1) (length (lines st) - 1)
      in st\<lparr>cursor := (r, min (col st) (grapheme_count (lines st ! r)))\<rparr>)"

text \<open>
  The scanning loops of the word commands: \<open>back_while\<close> moves \<open>i\<close> left while the cluster
  before it satisfies the predicate, \<open>fwd_while\<close> moves it right while the cluster at it does.
\<close>

fun back_while :: "('a \<Rightarrow> bool) \<Rightarrow> 'a list \<Rightarrow> nat \<Rightarrow> nat" where
  "back_while P gs 0 = 0"
| "back_while P gs (Suc i) = (if P (gs ! i) then back_while P gs i else Suc i)"

function fwd_while :: "('a \<Rightarrow> bool) \<Rightarrow> 'a list \<Rightarrow> nat \<Rightarrow> nat" where
  "fwd_while P gs i = (if i < length gs \<and> P (gs ! i) then fwd_while P gs (Suc i) else i)"
  by pat_completeness auto
termination by (relation "measure (\<lambda>(P, gs, i). length gs - i)") auto

declare fwd_while.simps [simp del]

definition blank_cluster :: "ustring \<Rightarrow> bool" where
  "blank_cluster g \<longleftrightarrow> utrim g = []"

definition ed_word_left :: "editor_state \<Rightarrow> editor_state" where
  "ed_word_left st =
     (let gs = take (col st) (graphemes (cur_line st));
          i = back_while blank_cluster gs (length gs);
          i = back_while (\<lambda>g. \<not> blank_cluster g) gs i
      in put_col st i)"

definition ed_word_right :: "editor_state \<Rightarrow> editor_state" where
  "ed_word_right st =
     (let gs = graphemes (cur_line st);
          i = fwd_while (\<lambda>g. \<not> blank_cluster g) gs (min (col st) (length gs));
          i = fwd_while blank_cluster gs i
      in put_col st i)"

definition ed_kill_line :: "editor_state \<Rightarrow> editor_state" where
  "ed_kill_line st = put_line st (take (grapheme_offset (cur_line st) (col st)) (cur_line st))"

definition ed_kill_to_start :: "editor_state \<Rightarrow> editor_state" where
  "ed_kill_to_start st =
     put_col (put_line st (drop (grapheme_offset (cur_line st) (col st)) (cur_line st))) 0"

definition ed_delete_word :: "editor_state \<Rightarrow> editor_state" where
  "ed_delete_word st =
     (let gs = take (col st) (graphemes (cur_line st));
          i = back_while (\<lambda>g. \<not> blank_cluster g) gs (length gs)
      in put_col (cut_cols st i (col st)) i)"

definition ed_clear :: "editor_state \<Rightarrow> editor_state" where
  "ed_clear st = st\<lparr>lines := [[]], cursor := (0, 0), history_pos := None, draft := None\<rparr>"

text \<open>\<open>history[pos]\<close> panics past the end.\<close>

definition recall :: "editor_state \<Rightarrow> nat \<Rightarrow> editor_state option" where
  "recall st pos =
     (if pos < length (history st)
      then Some (set_text (st\<lparr>history_pos := Some pos\<rparr>) (history st ! pos))
      else None)"

definition ed_history_prev :: "editor_state \<Rightarrow> editor_state option" where
  "ed_history_prev st =
     (if history st = [] then Some st
      else (case history_pos st of
              None \<Rightarrow>
                recall (st\<lparr>draft := Some (editor_text st)\<rparr>) (length (history st) - 1)
            | Some pos \<Rightarrow> if 0 < pos then recall st (pos - 1) else Some st))"

definition ed_history_next :: "editor_state \<Rightarrow> editor_state option" where
  "ed_history_next st =
     (case history_pos st of
        None \<Rightarrow> Some st
      | Some pos \<Rightarrow>
          if pos + 1 < length (history st) then recall st (pos + 1)
          else Some (set_text (st\<lparr>history_pos := None, draft := None\<rparr>)
                       (case draft st of None \<Rightarrow> [] | Some d \<Rightarrow> d)))"

definition apply_cmd :: "editor_state \<Rightarrow> edit_command \<Rightarrow> editor_state option" where
  "apply_cmd st0 cmd =
     (let st = clamp st0 in
      case cmd of
        Insert c \<Rightarrow> Some (ed_insert st c)
      | InsertStr s \<Rightarrow> Some (ed_insert_str st s)
      | Newline \<Rightarrow> Some (ed_newline st)
      | Backspace \<Rightarrow> Some (ed_backspace st)
      | Delete \<Rightarrow> Some (ed_delete st)
      | CLeft \<Rightarrow> Some (ed_left st)
      | CRight \<Rightarrow> Some (ed_right st)
      | CUp \<Rightarrow> Some (ed_up st)
      | CDown \<Rightarrow> Some (ed_down st)
      | WordLeft \<Rightarrow> Some (ed_word_left st)
      | WordRight \<Rightarrow> Some (ed_word_right st)
      | Home \<Rightarrow> Some (put_col st 0)
      | End \<Rightarrow> Some (put_col st (grapheme_count (cur_line st)))
      | KillLine \<Rightarrow> Some (ed_kill_line st)
      | KillToStart \<Rightarrow> Some (ed_kill_to_start st)
      | DeleteWord \<Rightarrow> Some (ed_delete_word st)
      | Clear \<Rightarrow> Some (ed_clear st)
      | HistoryPrev \<Rightarrow> ed_history_prev st
      | HistoryNext \<Rightarrow> ed_history_next st)"

text \<open>\<open>push_history\<close>: no consecutive duplicate, at most 500 entries, the oldest dropped.\<close>

fun trim_history :: "ustring list \<Rightarrow> ustring list" where
  "trim_history [] = []"
| "trim_history (h # hs) = (if 500 < length (h # hs) then trim_history hs else h # hs)"

definition push_history :: "editor_state \<Rightarrow> ustring \<Rightarrow> editor_state" where
  "push_history st0 entry =
     (let st = st0\<lparr>history_pos := None, draft := None\<rparr>
      in if entry = [] then st
         else if history st \<noteq> [] \<and> last (history st) = entry then st
         else st\<lparr>history := trim_history (history st @ [entry])\<rparr>)"

section \<open>Invariant and totality\<close>

text \<open>
  \<open>buffer_ok\<close>: there is a current line. \<open>hist_ok\<close>: a recall in progress points into the
  history. The clamp establishes the first for any state; the second is what the caller
  must keep, and every operation keeps it.
\<close>

definition buffer_ok :: "editor_state \<Rightarrow> bool" where
  "buffer_ok st \<longleftrightarrow> row st < length (lines st)"

definition hist_ok :: "editor_state \<Rightarrow> bool" where
  "hist_ok st \<longleftrightarrow> (\<forall>p. history_pos st = Some p \<longrightarrow> p < length (history st))"

definition editor_wf :: "editor_state \<Rightarrow> bool" where
  "editor_wf st \<longleftrightarrow> buffer_ok st \<and> hist_ok st"

lemma clamp_frame [simp]:
  "history (clamp st) = history st" "history_pos (clamp st) = history_pos st"
  "draft (clamp st) = draft st"
  by (simp_all add: clamp_def Let_def)

lemma clamp_buffer_ok [simp]: "buffer_ok (clamp st)"
  by (cases "lines st") (auto simp: buffer_ok_def clamp_def Let_def min_def)

lemma clamp_hist_ok [simp]: "hist_ok (clamp st) = hist_ok st"
  by (simp add: hist_ok_def)

lemma clamp_col: "col (clamp st) \<le> grapheme_count (cur_line (clamp st))"
  by (simp add: clamp_def cur_line_def Let_def)

lemma clamp_id: "buffer_ok st \<Longrightarrow> col st \<le> grapheme_count (cur_line st) \<Longrightarrow> clamp st = st"
  by (cases st) (auto simp: buffer_ok_def clamp_def cur_line_def Let_def min_def)

lemma clamp_idem [simp]: "clamp (clamp st) = clamp st"
  by (rule clamp_id) (simp_all add: clamp_col)

lemma length_merge_into_prev:
  "i < length ls \<Longrightarrow> length (merge_into_prev ls i) = length ls - 1"
  by (simp add: merge_into_prev_def Let_def)

lemmas ed_step_defs =
  cut_cols_def splice_def put_line_def put_col_def Let_def

text \<open>What the commands other than a recall leave alone.\<close>

definition same_history :: "editor_state \<Rightarrow> editor_state \<Rightarrow> bool" where
  "same_history st st' \<longleftrightarrow>
     history st' = history st \<and> (history_pos st' = history_pos st \<or> history_pos st' = None)"

lemma same_history_refl [intro, simp]: "same_history st st"
  by (simp add: same_history_def)

lemma same_history_trans:
  "same_history a b \<Longrightarrow> same_history b c \<Longrightarrow> same_history a c"
  by (auto simp: same_history_def)

lemma same_history_hist_ok: "same_history st st' \<Longrightarrow> hist_ok st \<Longrightarrow> hist_ok st'"
  by (auto simp: same_history_def hist_ok_def)

lemma ed_newline_ok: "buffer_ok st \<Longrightarrow> buffer_ok (ed_newline st) \<and> same_history st (ed_newline st)"
  by (auto simp: ed_newline_def buffer_ok_def same_history_def Let_def)

lemma splice_ok: "buffer_ok st \<Longrightarrow> buffer_ok (splice st g) \<and> same_history st (splice st g)"
  by (simp add: ed_step_defs buffer_ok_def same_history_def)

lemma same_history_clamp [simp]: "same_history st (ed_newline (clamp st))"
  using ed_newline_ok [OF clamp_buffer_ok, of st] by (simp add: same_history_def)

lemma insert_cluster_ok:
  "buffer_ok st \<Longrightarrow> buffer_ok (insert_cluster st g) \<and> same_history st (insert_cluster st g)"
  by (cases g) (simp_all add: splice_ok ed_newline_ok Let_def)

lemma fold_insert_cluster_ok:
  "buffer_ok st \<Longrightarrow> buffer_ok (fold (\<lambda>g st. insert_cluster st g) gs st) \<and>
     same_history st (fold (\<lambda>g st. insert_cluster st g) gs st)"
proof (induction gs arbitrary: st)
  case Nil
  then show ?case by simp
next
  case (Cons g gs)
  note one = insert_cluster_ok [OF Cons.prems, of g]
  note rest = Cons.IH [OF one [THEN conjunct1]]
  show ?case
    using rest same_history_trans [OF one [THEN conjunct2] rest [THEN conjunct2]] by simp
qed

lemma ed_insert_str_ok:
  "buffer_ok st \<Longrightarrow> buffer_ok (ed_insert_str st s) \<and> same_history st (ed_insert_str st s)"
  unfolding ed_insert_str_def by (rule fold_insert_cluster_ok)

lemma ed_insert_ok: "buffer_ok st \<Longrightarrow> buffer_ok (ed_insert st c) \<and> same_history st (ed_insert st c)"
  by (simp add: ed_insert_def splice_ok ed_newline_ok)

lemma ed_local_ok:
  assumes "buffer_ok st"
  shows "buffer_ok (ed_backspace st) \<and> same_history st (ed_backspace st)"
    and "buffer_ok (ed_delete st) \<and> same_history st (ed_delete st)"
    and "buffer_ok (ed_left st) \<and> same_history st (ed_left st)"
    and "buffer_ok (ed_right st) \<and> same_history st (ed_right st)"
    and "buffer_ok (ed_up st) \<and> same_history st (ed_up st)"
    and "buffer_ok (ed_down st) \<and> same_history st (ed_down st)"
    and "buffer_ok (ed_word_left st) \<and> same_history st (ed_word_left st)"
    and "buffer_ok (ed_word_right st) \<and> same_history st (ed_word_right st)"
    and "buffer_ok (ed_kill_line st) \<and> same_history st (ed_kill_line st)"
    and "buffer_ok (ed_kill_to_start st) \<and> same_history st (ed_kill_to_start st)"
    and "buffer_ok (ed_delete_word st) \<and> same_history st (ed_delete_word st)"
    and "buffer_ok (put_col st c) \<and> same_history st (put_col st c)"
    and "buffer_ok (ed_clear st) \<and> same_history st (ed_clear st)"
  using assms
  by (simp_all add: ed_backspace_def ed_delete_def ed_left_def ed_right_def ed_up_def ed_down_def
      ed_word_left_def ed_word_right_def ed_kill_line_def ed_kill_to_start_def
      ed_delete_word_def ed_clear_def ed_step_defs buffer_ok_def same_history_def
      length_merge_into_prev)
    (linarith | auto)+

lemma set_text_ok [simp]:
  "buffer_ok (set_text st s)" "history (set_text st s) = history st"
  "history_pos (set_text st s) = history_pos st" "draft (set_text st s) = draft st"
  by (simp_all add: set_text_def buffer_ok_def Let_def)

lemma editor_text_set_text [simp]: "editor_text (set_text st s) = s"
  by (simp add: set_text_def editor_text_def Let_def)

lemma recall_Some:
  "pos < length (history st) \<Longrightarrow>
     recall st pos = Some (set_text (st\<lparr>history_pos := Some pos\<rparr>) (history st ! pos))"
  by (simp add: recall_def)

lemma recall_total:
  "pos < length (history st) \<Longrightarrow>
     \<exists>st'. recall st pos = Some st' \<and> editor_wf st' \<and> history st' = history st"
  by (simp add: recall_def editor_wf_def hist_ok_def)

lemma ed_history_total:
  assumes "buffer_ok st" and "hist_ok st"
  shows "\<exists>st'. ed_history_prev st = Some st' \<and> editor_wf st' \<and> history st' = history st"
    and "\<exists>st'. ed_history_next st = Some st' \<and> editor_wf st' \<and> history st' = history st"
  using assms
  by (auto simp: ed_history_prev_def ed_history_next_def recall_Some editor_wf_def hist_ok_def
      split: option.split)

lemma apply_cmd_total:
  assumes "hist_ok st"
  shows "\<exists>st'. apply_cmd st cmd = Some st' \<and> editor_wf st' \<and> history st' = history st"
proof -
  let ?s = "clamp st"
  have h: "hist_ok ?s" using assms by simp
  have step: "editor_wf s' \<and> history s' = history st"
    if "buffer_ok s' \<and> same_history ?s s'" for s'
    using that h same_history_hist_ok [of ?s s'] by (simp add: editor_wf_def same_history_def)
  note ok = ed_local_ok [OF clamp_buffer_ok, THEN step] ed_insert_ok [OF clamp_buffer_ok, THEN step]
    ed_insert_str_ok [OF clamp_buffer_ok, THEN step] ed_newline_ok [OF clamp_buffer_ok, THEN step]
  show ?thesis
    using ed_history_total [OF clamp_buffer_ok h]
    by (cases cmd) (simp_all add: apply_cmd_def ok Let_def)
qed

end
