(* ===== verification/EditorSpec.thy ===== *)
theory EditorSpec
  imports Editor
begin

text \<open>
  What the editing commands do to the text, seen as one string with a cursor in it: the
  text before the cursor and the text after it. Each command of theory Editor, which works
  on lines, columns and cluster offsets, is related to its effect on these two strings.
\<close>

definition text_before :: "editor_state \<Rightarrow> ustring" where
  "text_before st =
     join_with newline
       (take (row st) (lines st) @ [take (grapheme_offset (cur_line st) (col st)) (cur_line st)])"

definition text_after :: "editor_state \<Rightarrow> ustring" where
  "text_after st =
     join_with newline
       (drop (grapheme_offset (cur_line st) (col st)) (cur_line st) # drop (row st + 1) (lines st))"

lemma lines_split:
  "buffer_ok st \<Longrightarrow> lines st = take (row st) (lines st) @ cur_line st # drop (row st + 1) (lines st)"
  by (simp add: buffer_ok_def cur_line_def id_take_nth_drop)

lemma text_split: "buffer_ok st \<Longrightarrow> editor_text st = text_before st @ text_after st"
  using lines_split [of st] join_with_glue [of newline "take (row st) (lines st)"
      "take (grapheme_offset (cur_line st) (col st)) (cur_line st)"
      "drop (grapheme_offset (cur_line st) (col st)) (cur_line st)" "drop (row st + 1) (lines st)"]
  by (simp add: editor_text_def text_before_def text_after_def)

lemma put_line_text:
  assumes "buffer_ok st"
  shows "editor_text (put_line st (a @ b)) =
    join_with newline (take (row st) (lines st) @ [a])
      @ join_with newline (b # drop (row st + 1) (lines st))"
proof -
  have "(lines st)[row st := a @ b] = take (row st) (lines st) @ (a @ b) # drop (row st + 1) (lines st)"
    using assms by (simp add: buffer_ok_def upd_conv_take_nth_drop)
  then show ?thesis by (simp add: editor_text_def put_line_def join_with_glue)
qed

lemma editor_text_put_col [simp]: "editor_text (put_col st c) = editor_text st"
  by (simp add: editor_text_def put_col_def)

lemma splice_text:
  assumes "buffer_ok st"
  shows "editor_text (splice st g) = text_before st @ g @ text_after st"
proof -
  let ?off = "grapheme_offset (cur_line st) (col st)"
  have "join_with newline (take (row st) (lines st) @ [take ?off (cur_line st) @ g])
      = text_before st @ g"
    using join_with_glue [of newline "take (row st) (lines st)" "take ?off (cur_line st)" g "[]"]
    by (simp add: text_before_def)
  moreover have "editor_text (splice st g)
      = editor_text (put_line st ((take ?off (cur_line st) @ g) @ drop ?off (cur_line st)))"
    by (simp add: splice_def Let_def)
  ultimately show ?thesis
    using put_line_text [OF assms, of "take ?off (cur_line st) @ g" "drop ?off (cur_line st)"]
    by (simp add: text_after_def)
qed

lemma newline_before_after:
  assumes "buffer_ok st"
  shows "text_before (ed_newline st) = text_before st @ [newline]"
    and "text_after (ed_newline st) = text_after st"
proof -
  let ?off = "grapheme_offset (cur_line st) (col st)"
  let ?l = "take (row st) (lines st)"
  have r: "row st < length (lines st)" using assms by (simp add: buffer_ok_def)
  have ls: "lines (ed_newline st)
      = (?l @ [take ?off (cur_line st)]) @ drop ?off (cur_line st) # drop (row st + 1) (lines st)"
    using r by (simp add: ed_newline_def Let_def upd_conv_take_nth_drop min_absorb2)
  have row: "row (ed_newline st) = length (?l @ [take ?off (cur_line st)])" and "col (ed_newline st) = 0"
    using r by (simp_all add: ed_newline_def Let_def)
  then have cl: "cur_line (ed_newline st) = drop ?off (cur_line st)"
    using r by (simp add: cur_line_def ls nth_append min_absorb2)
  have z: "grapheme_offset (cur_line (ed_newline st)) (col (ed_newline st)) = 0"
    using \<open>col (ed_newline st) = 0\<close> by (simp add: grapheme_offset_eq)
  show "text_before (ed_newline st) = text_before st @ [newline]"
    unfolding text_before_def z using row r
      join_with_append [of "?l @ [take ?off (cur_line st)]" "[[]]" newline]
    by (simp add: ls min_absorb2)
  show "text_after (ed_newline st) = text_after st"
    unfolding text_after_def z using row
    by (simp add: cl ls)
qed

text \<open>The last cluster before the cursor, as Backspace removes it: a cluster or a line break.\<close>

definition erased :: "editor_state \<Rightarrow> nat" where
  "erased st =
     (if 0 < col st \<and> col st \<le> grapheme_count (cur_line st)
      then length (graphemes (cur_line st) ! (col st - 1))
      else if 0 < col st then 0
      else if 0 < row st then 1 else 0)"

lemma cut_cols_text:
  assumes "buffer_ok st" and "a \<le> col st"
  shows "editor_text (cut_cols st a (col st)) =
    take (length (text_before st) - (grapheme_offset (cur_line st) (col st) - grapheme_offset (cur_line st) a))
      (text_before st) @ text_after st"
proof -
  let ?o = "grapheme_offset (cur_line st) (col st)" and ?p = "grapheme_offset (cur_line st) a"
  let ?l = "take (row st) (lines st)"
  have le: "?p \<le> ?o" using assms(2) by (rule grapheme_offset_mono)
  then have s: "take ?o (cur_line st) = take ?p (cur_line st) @ drop ?p (take ?o (cur_line st))"
    by (metis append_take_drop_id min_def take_take)
  have "text_before st = join_with newline (?l @ [take ?p (cur_line st)]) @ drop ?p (take ?o (cur_line st))"
    using join_with_glue [of newline ?l "take ?p (cur_line st)" "drop ?p (take ?o (cur_line st))" "[]"] s
    by (simp add: text_before_def)
  moreover have "length (drop ?p (take ?o (cur_line st))) = ?o - ?p"
    using grapheme_offset_le [of "cur_line st" "col st"] by (simp add: min_absorb2)
  ultimately have "take (length (text_before st) - (?o - ?p)) (text_before st)
      = join_with newline (?l @ [take ?p (cur_line st)])"
    by simp
  then show ?thesis
    using put_line_text [OF assms(1), of "take ?p (cur_line st)" "drop ?o (cur_line st)"]
    by (simp add: cut_cols_def Let_def text_after_def)
qed

lemma merge_into_prev_text:
  assumes "0 < i" and "i < length ls"
  shows "join_with newline (merge_into_prev ls i)
    = join_with newline (take i ls) @ join_with newline (drop i ls)"
proof -
  have hd: "drop i ls = ls ! i # drop (Suc i) ls" using assms(2) by (simp add: Cons_nth_drop_Suc)
  have tk: "take i ls = take (i - 1) ls @ [ls ! (i - 1)]"
    using assms by (metis One_nat_def Suc_pred less_imp_diff_less take_Suc_conv_app_nth)
  have n: "(take i ls @ drop (Suc i) ls) ! (i - 1) = ls ! (i - 1)"
    using assms by (simp add: nth_append)
  have "merge_into_prev ls i = (take i ls @ drop (Suc i) ls)[i - 1 := ls ! (i - 1) @ ls ! i]"
    by (simp only: merge_into_prev_def Let_def n)
  also have "\<dots> = take (i - 1) ls @ (ls ! (i - 1) @ ls ! i) # drop (Suc i) ls"
    using assms by (subst tk) (simp add: list_update_append)
  finally show ?thesis by (simp add: join_with_glue tk hd)
qed

lemma grapheme_offset_pred:
  assumes "0 < c" and "c \<le> grapheme_count l"
  shows "grapheme_offset l c - grapheme_offset l (c - 1) = length (graphemes l ! (c - 1))"
proof -
  have "take c (graphemes l) = take (c - 1) (graphemes l) @ [graphemes l ! (c - 1)]"
    using assms by (metis One_nat_def Suc_le_lessD Suc_pred grapheme_count_def take_Suc_conv_app_nth)
  then show ?thesis by (simp add: grapheme_offset_eq)
qed

lemma backspace_text:
  assumes "buffer_ok st" and "col st \<le> grapheme_count (cur_line st)"
  shows "editor_text (ed_backspace st) =
    take (length (text_before st) - erased st) (text_before st) @ text_after st"
proof -
  consider "0 < col st" | "col st = 0" "0 < row st" | "col st = 0" "row st = 0" by auto
  then show ?thesis
  proof cases
    case 1
    with assms show ?thesis
      using cut_cols_text [OF assms(1), of "col st - 1"]
        grapheme_offset_pred [of "col st" "cur_line st"]
      by (simp add: ed_backspace_def erased_def)
  next
    case 2
    have r: "row st < length (lines st)" using assms(1) by (simp add: buffer_ok_def)
    then have ne: "take (row st) (lines st) \<noteq> []" using 2 by auto
    have z: "grapheme_offset (cur_line st) (col st) = 0" using 2 by (simp add: grapheme_offset_eq)
    have b: "text_before st = join_with newline (take (row st) (lines st)) @ [newline]"
      using ne by (simp add: text_before_def z join_with_append)
    have a: "text_after st = join_with newline (drop (row st) (lines st))"
      using r by (simp only: text_after_def z) (simp add: cur_line_def Cons_nth_drop_Suc)
    show ?thesis
      using 2 r by (simp add: ed_backspace_def erased_def b a editor_text_def merge_into_prev_text)
  next
    case 3
    with assms(1) show ?thesis
      by (simp add: ed_backspace_def erased_def text_split)
  qed
qed

text \<open>Undoing a line break: the lines and the cursor are those before it.\<close>

lemma newline_backspace:
  assumes "buffer_ok st" and "col st \<le> grapheme_count (cur_line st)"
  shows "ed_backspace (ed_newline st) = st"
proof -
  let ?off = "grapheme_offset (cur_line st) (col st)"
  let ?l = "take (row st) (lines st)"
  have r: "row st < length (lines st)" using assms by (simp add: buffer_ok_def)
  have n: "ed_newline st = st\<lparr>lines := ?l @ take ?off (cur_line st) # drop ?off (cur_line st) # drop (Suc (row st)) (lines st), cursor := (Suc (row st), 0)\<rparr>"
    using r by (simp add: ed_newline_def Let_def upd_conv_take_nth_drop min_absorb2)
  have g: "grapheme_count (take ?off (cur_line st)) = col st"
    using assms(2) by (simp add: grapheme_count_def take_grapheme_offset graphemes_cut)
  have m: "merge_into_prev (?l @ take ?off (cur_line st) # drop ?off (cur_line st) # drop (Suc (row st)) (lines st)) (Suc (row st))
      = lines st"
    using r lines_split [OF assms(1)]
    by (simp add: merge_into_prev_def Let_def nth_append list_update_append min_absorb2)
  have "ed_backspace (ed_newline st) = st\<lparr>lines := lines st, cursor := cursor st\<rparr>"
    using r by (simp add: ed_backspace_def n m g nth_append)
  then show ?thesis by simp
qed

section \<open>History\<close>

lemma trim_history_eq: "trim_history hs = drop (length hs - 500) hs"
proof (induction hs)
  case Nil
  show ?case by simp
next
  case (Cons h hs)
  show ?case
  proof (cases "500 < length (h # hs)")
    case True
    then have "length (h # hs) - 500 = Suc (length hs - 500)" by simp
    with True Cons.IH show ?thesis by simp
  next
    case False
    then show ?thesis by simp
  qed
qed

lemma length_push_history: "length (history st) \<le> 500 \<Longrightarrow> length (history (push_history st e)) \<le> 500"
  by (simp add: push_history_def Let_def trim_history_eq) linarith

text \<open>The states of an input area: a fresh one, changed by commands and by sent messages.\<close>

inductive editor_reach :: "editor_state \<Rightarrow> bool" where
  new: "editor_reach editor_new"
| cmd: "editor_reach st \<Longrightarrow> apply_cmd st c = Some st' \<Longrightarrow> editor_reach st'"
| sent: "editor_reach st \<Longrightarrow> editor_reach (push_history st e)"

lemma push_history_buffer: "buffer_ok (push_history st e) = buffer_ok st"
  by (simp add: push_history_def buffer_ok_def Let_def)

lemma editor_reach_inv: "editor_reach st \<Longrightarrow> editor_wf st \<and> length (history st) \<le> 500"
proof (induction rule: editor_reach.induct)
  case new
  show ?case by (simp add: editor_new_def editor_wf_def buffer_ok_def hist_ok_def)
next
  case (cmd st c st')
  then show ?case using apply_cmd_total [of st c] by (auto simp: editor_wf_def)
next
  case (sent st e)
  then show ?case
    by (auto simp: editor_wf_def push_history_buffer length_push_history)
      (simp add: hist_ok_def push_history_def Let_def)
qed

section \<open>Properties\<close>

text \<open>
  in every state the input area can reach, by editing commands (any characters, pasted or
  typed) and sent messages, the cursor is on a line of the buffer, a recall in progress points
  into the history, the history holds at most 500 entries, and no command panics.
\<close>

theorem editor_never_panics:
  assumes "editor_reach st"
  shows "editor_wf st \<and> length (history st) \<le> 500 \<and> apply_cmd st c \<noteq> None"
  using editor_reach_inv [OF assms] apply_cmd_total [of st c] by (auto simp: editor_wf_def)

theorem editor_never_panics_witness:
  "editor_wf (push_history editor_new [104]) \<and> apply_cmd (push_history editor_new [104]) HistoryPrev \<noteq> None"
  using editor_never_panics [OF editor_reach.sent [OF editor_reach.new, of "[104]"], of HistoryPrev] by simp

text \<open>
  C37: seen as one text with a cursor in it, a line break splits the text at the cursor, an
  inserted cluster goes in at the cursor, and Backspace removes the cluster (or the line break)
  before the cursor and nothing else.
\<close>

theorem editor_edits_text:
  assumes "buffer_ok st" and "col st \<le> grapheme_count (cur_line st)"
  shows "editor_text st = text_before st @ text_after st
    \<and> text_before (ed_newline st) = text_before st @ [newline]
    \<and> text_after (ed_newline st) = text_after st
    \<and> editor_text (splice st g) = text_before st @ g @ text_after st
    \<and> editor_text (ed_backspace st) =
        take (length (text_before st) - erased st) (text_before st) @ text_after st"
  using newline_before_after [OF assms(1)] splice_text [OF assms(1)] backspace_text [OF assms]
    text_split [OF assms(1)]
  by simp

theorem editor_edits_text_witness:
  "editor_text (splice editor_new [104]) = text_before editor_new @ [104] @ text_after editor_new"
  using editor_edits_text [of editor_new "[104]"]
  by (simp add: editor_new_def buffer_ok_def cur_line_def grapheme_count_def)

text \<open>
  Backspace undoes a line break, wherever the cursor is: buffer, cursor and history are those
  of the (normalised) state before.
\<close>

theorem editor_newline_backspace:
  "Option.bind (apply_cmd st Newline) (\<lambda>s. apply_cmd s Backspace) = Some (clamp st)"
proof -
  have n: "buffer_ok (ed_newline (clamp st))" using ed_newline_ok [OF clamp_buffer_ok] by simp
  have "col (ed_newline (clamp st)) = 0" by (simp add: ed_newline_def Let_def)
  then have "clamp (ed_newline (clamp st)) = ed_newline (clamp st)"
    using n by (intro clamp_id) simp_all
  then show ?thesis
    using newline_backspace [OF clamp_buffer_ok clamp_col, of st]
    by (simp add: apply_cmd_def Let_def)
qed

text \<open>
  looking at the most recent sent message and coming back restores the text being written,
  and ends the recall.
\<close>

theorem editor_recall_roundtrip:
  assumes "history st \<noteq> []" and "history_pos st = None"
  shows "\<exists>s1 s2. apply_cmd st HistoryPrev = Some s1 \<and> editor_text s1 = last (history st)
    \<and> apply_cmd s1 HistoryNext = Some s2 \<and> editor_text s2 = editor_text (clamp st)
    \<and> history_pos s2 = None \<and> history s2 = history st"
proof -
  let ?c = "clamp st" and ?n = "length (history st) - 1"
  let ?s1 = "set_text (?c\<lparr>draft := Some (editor_text ?c), history_pos := Some ?n\<rparr>) (history st ! ?n)"
  let ?c1 = "clamp ?s1"
  let ?s2 = "set_text (?c1\<lparr>history_pos := None, draft := None\<rparr>) (editor_text ?c)"
  have n: "?n < length (history st)" using assms(1) by simp
  have "apply_cmd st HistoryPrev = Some ?s1"
    using assms n by (simp add: apply_cmd_def ed_history_prev_def recall_def Let_def)
  moreover have "apply_cmd ?s1 HistoryNext = Some ?s2"
    using assms(1) by (cases "history st") (simp_all add: apply_cmd_def ed_history_next_def Let_def)
  moreover have "editor_text ?s1 = last (history st)"
    using assms(1) by (simp add: last_conv_nth)
  ultimately show ?thesis by (intro exI [of _ ?s1] exI [of _ ?s2]) simp
qed

theorem editor_recall_roundtrip_witness:
  "\<exists>s1 s2. apply_cmd (push_history editor_new [104]) HistoryPrev = Some s1
    \<and> apply_cmd s1 HistoryNext = Some s2 \<and> history_pos s2 = None"
proof -
  have "history (push_history editor_new [104]) \<noteq> []" "history_pos (push_history editor_new [104]) = None"
    by (simp_all add: push_history_def editor_new_def)
  from editor_recall_roundtrip [OF this] show ?thesis by blast
qed

text \<open>
  sending a message appends it to the history unless it is empty or repeats the last entry,
  and keeps the 500 most recent entries, in order.
\<close>

theorem push_history_spec:
  "history (push_history st e) =
     (if e = [] \<or> (history st \<noteq> [] \<and> last (history st) = e) then history st
      else drop (length (history st) + 1 - 500) (history st @ [e]))
   \<and> history_pos (push_history st e) = None \<and> lines (push_history st e) = lines st"
  by (simp add: push_history_def Let_def trim_history_eq)

section \<open>Two inputs the code mishandles\<close>

text \<open>
  A pasted cluster is kept whole when its first character is no control character, so a line
  feed that a joiner has absorbed ends up inside a line of the buffer; and a typed combining
  character joins the cluster before the cursor, but the cursor still moves on by one cluster,
  past the one that follows.
\<close>

lemma paste_joiner_newline:
  "lines (ed_insert_str editor_new [97, 0x200D, newline, 98]) = [[97, 0x200D, newline, 98]]"
  by (simp add: ed_insert_str_def graphemes_Cons is_joiner_def is_combiner_def is_regional_def
      newline_def editor_new_def splice_def put_line_def put_col_def cur_line_def
      is_control_def grapheme_offset_eq Let_def)

lemma typed_combiner_skips:
  "lines (ed_insert (editor_new\<lparr>lines := [[97, 98]], cursor := (0, 1)\<rparr>) 0x301) = [[97, 0x301, 98]]
   \<and> cursor (ed_insert (editor_new\<lparr>lines := [[97, 98]], cursor := (0, 1)\<rparr>) 0x301) = (0, 2)
   \<and> graphemes [97, 0x301, 98] = [[97, 0x301], [98]]"
  by (simp add: ed_insert_def graphemes_Cons is_joiner_def is_combiner_def is_regional_def
      newline_def editor_new_def splice_def put_line_def put_col_def cur_line_def
      is_control_def grapheme_offset_eq Let_def)

end
