(* ===== verification/EditorView.thy ===== *)
theory EditorView
  imports Editor
begin

text \<open>
  The window of the input area that is displayed, \<open>display_cursor\<close> and \<open>render_view\<close> of
  \<open>cli/src/tui/editor.rs\<close>. The width of a character is what the crate \<open>unicode-width\<close>
  answers (\<open>UnicodeWidthChar::width\<close>): the parameter \<open>cw\<close>, about which nothing is assumed.
\<close>

definition display_width :: "(uchar \<Rightarrow> nat option) \<Rightarrow> ustring \<Rightarrow> nat" where
  "display_width cw s = sum_list (map (\<lambda>c. case cw c of None \<Rightarrow> 0 | Some w \<Rightarrow> w) s)"

definition wrapped_rows :: "nat \<Rightarrow> nat \<Rightarrow> nat" where
  "wrapped_rows w width =
     (if width = 0 then 1 else if w = 0 then 1 else (w + width - 1) div width)"

text \<open>The position after the clusters left of the cursor, breaking rows like the display.\<close>

fun walk_row :: "(uchar \<Rightarrow> nat option) \<Rightarrow> nat \<Rightarrow> ustring list \<Rightarrow> nat \<times> nat \<Rightarrow> nat \<times> nat" where
  "walk_row cw width [] (x, y) = (x, y)"
| "walk_row cw width (g # gs) (x, y) =
     (let gw = display_width cw g
      in if width < x + gw then walk_row cw width gs (gw, y + 1)
         else walk_row cw width gs (x + gw, y))"

definition rows_above :: "(uchar \<Rightarrow> nat option) \<Rightarrow> nat \<Rightarrow> ustring list \<Rightarrow> nat" where
  "rows_above cw width ls = sum_list (map (\<lambda>l. wrapped_rows (display_width cw l) width) ls)"

definition display_cursor :: "(uchar \<Rightarrow> nat option) \<Rightarrow> editor_state \<Rightarrow> nat \<Rightarrow> nat \<times> nat" where
  "display_cursor cw st width =
     (if width = 0 then (0, 0)
      else let y = rows_above cw width (take (row st) (lines st))
           in if row st < length (lines st)
              then walk_row cw width (take (col st) (graphemes (lines st ! row st))) (0, y)
              else (0, y))"

text \<open>The display rows of one line, as \<open>render_view\<close> fills them.\<close>

fun wrap_clusters :: "(uchar \<Rightarrow> nat option) \<Rightarrow> nat \<Rightarrow> ustring \<Rightarrow> nat \<Rightarrow> ustring list \<Rightarrow> ustring list" where
  "wrap_clusters cw width cur cur_w [] = [cur]"
| "wrap_clusters cw width cur cur_w (g # gs) =
     (let gw = display_width cw g
      in if width < cur_w + gw then cur # wrap_clusters cw width g gw gs
         else wrap_clusters cw width (cur @ g) (cur_w + gw) gs)"

definition wrap_line :: "(uchar \<Rightarrow> nat option) \<Rightarrow> nat \<Rightarrow> ustring \<Rightarrow> ustring list" where
  "wrap_line cw width line =
     (if width = 0 \<or> display_width cw line \<le> width then [line]
      else wrap_clusters cw width [] 0 (graphemes line))"

definition render_view ::
  "(uchar \<Rightarrow> nat option) \<Rightarrow> editor_state \<Rightarrow> nat \<Rightarrow> nat \<Rightarrow> ustring list \<times> (nat \<times> nat)" where
  "render_view cw st width height =
     (if height = 0 then ([], (0, 0))
      else
        let wrapped = concat (map (wrap_line cw width) (lines st));
            wrapped = (if wrapped = [] then [[]] else wrapped);
            (x, cy) = display_cursor cw st width;
            first = (if height \<le> cy then cy - (height - 1) else 0);
            first = min first (length wrapped - 1);
            last = min (first + height) (length wrapped)
        in (take (last - first) (drop first wrapped), (x, cy - first)))"

section \<open>Facts about rows\<close>

lemma display_width_append [simp]: "display_width cw (a @ b) = display_width cw a + display_width cw b"
  by (simp add: display_width_def)

lemma display_width_Nil [simp]: "display_width cw [] = 0"
  by (simp add: display_width_def)

lemma display_width_concat: "display_width cw (concat gs) = sum_list (map (display_width cw) gs)"
  by (induction gs) auto

lemma concat_wrap_clusters: "concat (wrap_clusters cw width cur w gs) = cur @ concat gs"
  by (induction gs arbitrary: cur w) (auto simp: Let_def)

lemma concat_wrap_line [simp]: "concat (wrap_line cw width line) = line"
  by (simp add: wrap_line_def concat_wrap_clusters)

lemma wrap_clusters_nonempty [simp]: "wrap_clusters cw width cur w gs \<noteq> []"
  by (induction gs arbitrary: cur w) (auto simp: Let_def)

lemma wrap_line_nonempty [simp]: "wrap_line cw width line \<noteq> []"
  by (simp add: wrap_line_def)

lemma walk_row_prefix:
  "snd (walk_row cw width (take n gs) (w, y)) < y + length (wrap_clusters cw width cur w gs)"
proof (induction gs arbitrary: n cur w y)
  case Nil
  show ?case by simp
next
  case (Cons g gs)
  show ?case
  proof (cases n)
    case 0
    have "0 < length (wrap_clusters cw width cur w (g # gs))"
      by (metis length_greater_0_conv wrap_clusters_nonempty)
    with 0 show ?thesis by simp
  next
    case (Suc m)
    show ?thesis
    proof (cases "width < w + display_width cw g")
      case True
      with Cons.IH [of m "display_width cw g" "y + 1" g] Suc show ?thesis
        by (simp add: Let_def)
    next
      case False
      with Cons.IH [of m "w + display_width cw g" y "cur @ g"] Suc show ?thesis
        by (simp add: Let_def)
    qed
  qed
qed

lemma walk_row_fits:
  "x + sum_list (map (display_width cw) gs) \<le> width \<Longrightarrow> snd (walk_row cw width gs (x, y)) = y"
  by (induction gs arbitrary: x) (auto simp: Let_def)

text \<open>The cursor stays within the rows of its own line.\<close>

lemma walk_row_wrap_line:
  assumes "width \<noteq> 0"
  shows "snd (walk_row cw width (take n (graphemes line)) (0, y)) < y + length (wrap_line cw width line)"
proof (cases "display_width cw line \<le> width")
  case True
  have "display_width cw line =
      sum_list (map (display_width cw) (take n (graphemes line)))
      + sum_list (map (display_width cw) (drop n (graphemes line)))"
    by (metis append_take_drop_id concat_graphemes display_width_concat map_append sum_list_append)
  with True have "snd (walk_row cw width (take n (graphemes line)) (0, y)) = y"
    by (intro walk_row_fits) simp
  with True show ?thesis by (simp add: wrap_line_def)
next
  case False
  with assms show ?thesis by (simp add: wrap_line_def walk_row_prefix)
qed

text \<open>
  When every cluster fits into a row, a line takes at least as many rows as its width
  divided by the width of the area.
\<close>

lemma wrap_clusters_rows:
  assumes "\<forall>g \<in> set gs. display_width cw g \<le> width" and "w \<le> width"
  shows "w + sum_list (map (display_width cw) gs)
    \<le> width * length (wrap_clusters cw width cur w gs)"
  using assms
proof (induction gs arbitrary: cur w)
  case Nil
  then show ?case by simp
next
  case (Cons g gs)
  show ?case
  proof (cases "width < w + display_width cw g")
    case True
    from Cons.prems have "display_width cw g + sum_list (map (display_width cw) gs)
        \<le> width * length (wrap_clusters cw width g (display_width cw g) gs)"
      by (intro Cons.IH) auto
    with True Cons.prems(2) show ?thesis by (simp add: Let_def)
  next
    case False
    with Cons.prems have "(w + display_width cw g) + sum_list (map (display_width cw) gs)
        \<le> width * length (wrap_clusters cw width (cur @ g) (w + display_width cw g) gs)"
      by (intro Cons.IH) auto
    with False show ?thesis by (simp add: Let_def add.assoc)
  qed
qed

lemma ceil_div_le:
  assumes "w \<le> width * n" and "0 < width"
  shows "(w + width - 1) div width \<le> (n::nat)"
proof -
  have "(w + width - 1) div width \<le> (width * n + (width - 1)) div width"
    using assms by (intro div_le_mono) simp
  also have "\<dots> = n + (width - 1) div width"
    using assms(2) by (simp only: div_mult_self4)
  also have "\<dots> = n" using assms(2) by simp
  finally show ?thesis .
qed

lemma wrapped_rows_le:
  assumes "width \<noteq> 0" and "\<forall>g \<in> set (graphemes line). display_width cw g \<le> width"
  shows "wrapped_rows (display_width cw line) width \<le> length (wrap_line cw width line)"
proof -
  have one: "1 \<le> length (wrap_line cw width line)"
    by (metis One_nat_def Suc_leI length_greater_0_conv wrap_line_nonempty)
  show ?thesis
  proof (cases "display_width cw line \<le> width")
    case True
    have "(display_width cw line + width - 1) div width \<le> 1"
      by (rule ceil_div_le) (use True assms(1) in simp_all)
    with one assms(1) show ?thesis by (simp add: wrapped_rows_def)
  next
    case False
    have "display_width cw line
        \<le> width * length (wrap_clusters cw width [] 0 (graphemes line))"
      using wrap_clusters_rows [OF assms(2), of 0 "[]"] display_width_concat [of cw "graphemes line"]
      by simp
    then have "(display_width cw line + width - 1) div width
        \<le> length (wrap_clusters cw width [] 0 (graphemes line))"
      using assms(1) by (intro ceil_div_le) simp_all
    with False assms(1) one show ?thesis by (simp add: wrapped_rows_def wrap_line_def)
  qed
qed

lemma rows_above_le:
  assumes "width \<noteq> 0"
    and "\<forall>l \<in> set ls. \<forall>g \<in> set (graphemes l). display_width cw g \<le> width"
  shows "rows_above cw width ls \<le> length (concat (map (wrap_line cw width) ls))"
  using assms(2)
proof (induction ls)
  case Nil
  show ?case by (simp add: rows_above_def)
next
  case (Cons l ls)
  with wrapped_rows_le [OF assms(1), of l cw] show ?case
    by (simp add: rows_above_def)
qed

lemma display_cursor_row:
  assumes "buffer_ok st" and "width \<noteq> 0"
    and "\<forall>l \<in> set (lines st). \<forall>g \<in> set (graphemes l). display_width cw g \<le> width"
  shows "snd (display_cursor cw st width) < length (concat (map (wrap_line cw width) (lines st)))"
proof -
  have r: "row st < length (lines st)" using assms(1) by (simp add: buffer_ok_def)
  let ?f = "wrap_line cw width" and ?y = "rows_above cw width (take (row st) (lines st))"
  have "\<forall>l \<in> set (take (row st) (lines st)). \<forall>g \<in> set (graphemes l). display_width cw g \<le> width"
    using assms(3) by (auto dest: in_set_takeD)
  then have y: "?y \<le> length (concat (map ?f (take (row st) (lines st))))"
    by (rule rows_above_le [OF assms(2)])
  have "length (concat (map ?f (lines st)))
      = length (concat (map ?f (take (row st) (lines st)))) + length (?f (lines st ! row st))
        + length (concat (map ?f (drop (Suc (row st)) (lines st))))"
    by (subst id_take_nth_drop [OF r]) simp
  with y show ?thesis
    using walk_row_wrap_line [OF assms(2), of cw "col st" "lines st ! row st" ?y] r assms(2)
    by (simp add: display_cursor_def Let_def)
qed

section \<open>Properties\<close>

text \<open>
  the window never exceeds the height of the area, and the cursor's row lies in the window,
  whatever the buffer, provided every cluster fits into a row of the area.
\<close>

theorem render_view_cursor_visible:
  assumes "buffer_ok st" and "height \<noteq> 0" and "width \<noteq> 0"
    and "\<forall>l \<in> set (lines st). \<forall>g \<in> set (graphemes l). display_width cw g \<le> width"
  shows "length (fst (render_view cw st width height)) \<le> height
    \<and> snd (snd (render_view cw st width height)) < length (fst (render_view cw st width height))"
proof -
  define w where "w = concat (map (wrap_line cw width) (lines st))"
  obtain x cy where d: "display_cursor cw st width = (x, cy)" by force
  have cy: "cy < length w" using display_cursor_row [OF assms(1,3,4)] d by (simp add: w_def)
  then have ne: "w \<noteq> []" by auto
  define f where "f = min (if height \<le> cy then cy - (height - 1) else 0) (length w - 1)"
  define l where "l = min (f + height) (length w)"
  have f: "f \<le> cy" "cy - f < height"
    using cy assms(2) by (auto simp: f_def min_def)
  have "render_view cw st width height = (take (l - f) (drop f w), (x, cy - f))"
    using assms(2) ne d by (simp add: render_view_def Let_def w_def f_def l_def)
  moreover have "length (take (l - f) (drop f w)) = l - f"
    by (simp add: l_def)
  moreover have "cy < l" and "l \<le> f + height"
    using f cy unfolding l_def by linarith+
  moreover have "l - f \<le> height" and "cy - f < l - f"
    using \<open>cy < l\<close> \<open>l \<le> f + height\<close> f(1) by linarith+
  ultimately show ?thesis by simp
qed

theorem render_view_cursor_visible_witness:
  "snd (snd (render_view (\<lambda>_. Some 1) editor_new 10 3)) < length (fst (render_view (\<lambda>_. Some 1) editor_new 10 3))"
  using render_view_cursor_visible [of editor_new 3 10 "\<lambda>_. Some 1"]
  by (simp add: editor_new_def buffer_ok_def)

section \<open>Wide characters\<close>

text \<open>
  The rows above the cursor are counted by dividing widths, the rows that are displayed by
  filling them with whole clusters. With characters two columns wide in an area three columns
  wide the two disagree: the line of three such characters takes three rows and counts for
  two, and the cursor on the next line is placed one row too high.
\<close>

lemma wide_rows_counted:
  "wrapped_rows (display_width (\<lambda>_. Some 2) [0x4E00, 0x4E01, 0x4E02]) 3 = 2
   \<and> length (wrap_line (\<lambda>_. Some 2) 3 [0x4E00, 0x4E01, 0x4E02]) = 3"
  by (simp add: wrapped_rows_def wrap_line_def display_width_def graphemes_Cons is_joiner_def
      is_combiner_def is_regional_def Let_def)

end
