(* ===== verification/ChatEvent.thy ===== *)
theory ChatEvent
  imports Prelude "HOL-Library.Word"
begin

text \<open>
  The session event \<open>ChatEvent\<close> of \<open>lib/src/event.rs\<close>, which the session engine emits and
  every client consumes. It is polymorphic in the representation of strings.
\<close>

type_synonym u64 = "64 word"

datatype 's chat_event =
    Token (content: 's)
  | ReasoningDelta (content: 's)
  | ToolCallEv (ev_id: 's) (ev_name: 's) (ev_args: "'s json")
  | ToolResultEv (ev_id: 's) (ev_name: 's) (ev_result: 's) (ev_is_error: bool)
  | SkillLoaded (ev_name: 's)
  | SubagentStart (ev_id: 's) (ev_agent: 's) (ev_task: 's)
  | SubagentEvent (ev_id: 's) (ev_event: "'s chat_event")
  | SubagentEnd (ev_id: 's) (ev_result: 's)
  | UsageEv u64 u64
  | Done
  | ErrorEv 's 's
  | ToolUnavailable 's 's

text \<open>\<open>u64::saturating_add\<close>.\<close>

definition sat_add64 :: "u64 \<Rightarrow> u64 \<Rightarrow> u64" where
  "sat_add64 a b = (if unat a + unat b < 2 ^ 64 then a + b else - 1)"

lemma unat_sat_add64: "unat (sat_add64 a b) = min (unat a + unat b) (2 ^ 64 - 1)"
proof (cases "unat a + unat b < 2 ^ 64")
  case True
  then have "unat (a + b) = unat a + unat b"
    by (simp add: unat_word_ariths)
  with True show ?thesis by (simp add: sat_add64_def)
next
  case False
  then show ?thesis by (simp add: sat_add64_def unsigned_minus_1_eq_mask mask_eq_exp_minus_1)
qed

end
