(* ===== verification/TuiState.thy ===== *)
theory TuiState
  imports Editor ChatEvent
begin

text \<open>
  The model of the interactive chat, \<open>cli/src/tui/state.rs\<close>: the state of the application,
  the pure function \<open>update\<close> from a state and an action to a state and a list of effects, and
  its parts. A panic (of the input area, theory Editor) is \<open>None\<close>.

  \<open>jtext\<close> stands for \<open>serde_json\<close>'s compact rendering of a value (\<open>Value::to_string\<close>), used
  for the arguments of a tool call that the transcript shows. The error of a failed turn is
  its message. Of a key event, the code and the two modifiers that are read are kept.
\<close>

section \<open>State\<close>

datatype notice_level = Info | Warn | Error

datatype transcript_item =
    User ustring
  | Assistant ustring bool
  | Reasoning ustring bool
  | ToolCall ustring ustring ustring "ustring option" bool bool
      \<comment> \<open>id, name, arguments, result, is\_error, expanded\<close>
  | Subagent ustring ustring ustring "transcript_item list" bool
      \<comment> \<open>id, agent, task, items, done\<close>
  | Notice notice_level ustring
  | Interrupted

datatype status = Idle | Running u64

record scroll_state =
  follow :: bool
  offset :: nat
  pending :: bool

definition scroll_default :: scroll_state where
  "scroll_default = \<lparr>follow = True, offset = 0, pending = False\<rparr>"

datatype todo_item = TodoItem (todo_content: ustring) (todo_status: ustring)

record usage_count =
  used_input :: u64
  used_output :: u64

record app_state =
  transcript :: "transcript_item list"
  status :: status
  input :: editor_state
  scroll :: scroll_state
  todo :: "todo_item list"
  todo_visible :: bool
  usage :: usage_count
  agent_name :: ustring
  conversation_id :: ustring
  title :: "ustring option"
  git_summary :: "ustring option"
  quit_armed :: bool
  term_size :: "nat \<times> nat"
  tick :: u64
  selected :: "nat option"
  revision :: u64

definition app_new :: "ustring \<Rightarrow> ustring \<Rightarrow> ustring option \<Rightarrow> nat \<times> nat \<Rightarrow> app_state" where
  "app_new ag cid ttl sz =
     \<lparr>transcript = [], status = Idle, input = editor_new, scroll = scroll_default, todo = [],
      todo_visible = False, usage = \<lparr>used_input = 0, used_output = 0\<rparr>, agent_name = ag,
      conversation_id = cid, title = ttl, git_summary = None, quit_armed = False,
      term_size = sz, tick = 0, selected = None, revision = 0\<rparr>"

datatype key_code =
    KChar uchar | KEnter | KTab | KBackTab | KPageUp | KPageDown | KEnd | KHome
  | KUp | KDown | KLeft | KRight | KBackspace | KDelete | KOther

record key_event =
  code :: key_code
  ctrl :: bool
  alt :: bool

datatype mouse_kind = ScrollUp | ScrollDown | MouseOther

datatype action =
    Key key_event
  | Paste ustring
  | Resize nat nat
  | Mouse mouse_kind
  | Tick
  | Agent "ustring chat_event"
  | TurnFinished "ustring option" \<comment> \<open>the message of the error, if it failed\<close>
  | GitSummary "ustring option"

datatype effect =
    StartTurn ustring
  | CancelTurn
  | Save
  | Quit
  | RefreshGit
  | NewConversation
  | SwitchAgent ustring

section \<open>Transcript and scrolling\<close>

definition mark_new_content :: "app_state \<Rightarrow> app_state" where
  "mark_new_content s =
     (if follow (scroll s) then s else s\<lparr>scroll := (scroll s)\<lparr>pending := True\<rparr>\<rparr>)"

definition bump :: "app_state \<Rightarrow> app_state" where
  "bump s = s\<lparr>revision := revision s + 1\<rparr>"

definition push_item :: "app_state \<Rightarrow> transcript_item \<Rightarrow> app_state" where
  "push_item s i = s\<lparr>transcript := transcript s @ [i]\<rparr>"

definition push_notice :: "app_state \<Rightarrow> notice_level \<Rightarrow> ustring \<Rightarrow> app_state" where
  "push_notice s level text = mark_new_content (bump (push_item s (Notice level text)))"

definition usize_max :: nat where
  "usize_max = 2 ^ 64 - 1"

definition scroll_by :: "app_state \<Rightarrow> nat \<Rightarrow> bool \<Rightarrow> app_state" where
  "scroll_by s n up =
     (let sc = scroll s in
      if up then s\<lparr>scroll := sc\<lparr>follow := False, offset := min usize_max (offset sc + n)\<rparr>\<rparr>
      else (let sc = sc\<lparr>offset := offset sc - n\<rparr>
            in s\<lparr>scroll := (if offset sc = 0 then sc\<lparr>follow := True, pending := False\<rparr> else sc)\<rparr>))"

definition scroll_page :: "app_state \<Rightarrow> nat \<Rightarrow> bool \<Rightarrow> app_state" where
  "scroll_page s page up = scroll_by s (max page 1) up"

definition scroll_follow :: "app_state \<Rightarrow> app_state" where
  "scroll_follow s = s\<lparr>scroll := \<lparr>follow = True, offset = 0, pending = False\<rparr>\<rparr>"

fun collapsible :: "transcript_item \<Rightarrow> bool" where
  "collapsible (Reasoning _ _) = True"
| "collapsible (ToolCall _ _ _ _ _ _) = True"
| "collapsible _ = False"

definition collapsible_indices :: "transcript_item list \<Rightarrow> nat list" where
  "collapsible_indices ts = map fst (filter (\<lambda>(i, t). collapsible t) (enumerate 0 ts))"

fun position :: "('a \<Rightarrow> bool) \<Rightarrow> 'a list \<Rightarrow> nat option" where
  "position P [] = None"
| "position P (x # xs) = (if P x then Some 0 else map_option Suc (position P xs))"

definition move_selection :: "app_state \<Rightarrow> bool \<Rightarrow> app_state" where
  "move_selection s forward =
     (let cs = collapsible_indices (transcript s) in
      if cs = [] then s\<lparr>selected := None\<rparr>
      else
        let pos = Option.bind (selected s) (\<lambda>sel. position (\<lambda>i. i = sel) cs);
            nxt = (case (pos, forward) of
                     (Some p, True) \<Rightarrow> min (p + 1) (length cs - 1)
                   | (Some p, False) \<Rightarrow> p - 1
                   | (None, True) \<Rightarrow> 0
                   | (None, False) \<Rightarrow> length cs - 1)
        in s\<lparr>selected := (if nxt < length cs then Some (cs ! nxt) else None)\<rparr>)"

fun toggle_item :: "transcript_item \<Rightarrow> transcript_item" where
  "toggle_item (Reasoning t e) = Reasoning t (\<not> e)"
| "toggle_item (ToolCall i n a r er e) = ToolCall i n a r er (\<not> e)"
| "toggle_item t = t"

definition toggle_selected :: "app_state \<Rightarrow> app_state" where
  "toggle_selected s =
     (case selected s of
        None \<Rightarrow> s
      | Some idx \<Rightarrow>
          if idx < length (transcript s) \<and> collapsible (transcript s ! idx)
          then bump (s\<lparr>transcript := (transcript s)[idx := toggle_item (transcript s ! idx)]\<rparr>)
          else s)"

fun open_reasoning :: "transcript_item \<Rightarrow> bool" where
  "open_reasoning (Reasoning _ e) = e"
| "open_reasoning _ = False"

fun set_reasoning :: "bool \<Rightarrow> transcript_item \<Rightarrow> transcript_item" where
  "set_reasoning e (Reasoning t _) = Reasoning t e"
| "set_reasoning e t = t"

definition toggle_all_reasoning :: "app_state \<Rightarrow> app_state" where
  "toggle_all_reasoning s =
     (let any_open = list_ex open_reasoning (transcript s)
      in bump (s\<lparr>transcript := map (set_reasoning (\<not> any_open)) (transcript s)\<rparr>))"

section \<open>Events of the agent\<close>

text \<open>The last item, rewritten if it is an open block, a new block otherwise.\<close>

definition push_token :: "transcript_item list \<Rightarrow> ustring \<Rightarrow> transcript_item list" where
  "push_token items c =
     (case rev items of
        Assistant text False # before \<Rightarrow> rev before @ [Assistant (text @ c) False]
      | _ \<Rightarrow> items @ [Assistant c False])"

definition push_reasoning :: "transcript_item list \<Rightarrow> ustring \<Rightarrow> transcript_item list" where
  "push_reasoning items c =
     (case rev items of
        Reasoning text e # before \<Rightarrow> rev before @ [Reasoning (text @ c) e]
      | _ \<Rightarrow> items @ [Reasoning c False])"

definition close_open_blocks :: "transcript_item list \<Rightarrow> transcript_item list" where
  "close_open_blocks items =
     (case rev items of
        Assistant text _ # before \<Rightarrow> rev before @ [Assistant text True]
      | _ \<Rightarrow> items)"

text \<open>
  A result is attached to the first call of its id at this level, where the loop returns;
  the sub-agents met on the way are searched too, and the loop goes on after them.
\<close>

fun attach_result ::
  "transcript_item list \<Rightarrow> ustring \<Rightarrow> ustring \<Rightarrow> bool \<Rightarrow> transcript_item list" where
  "attach_result [] eid result is_error = []"
| "attach_result (ToolCall tid n a r er e # ts) eid result is_error =
     (if tid = eid then ToolCall tid n a (Some result) is_error e # ts
      else ToolCall tid n a r er e # attach_result ts eid result is_error)"
| "attach_result (Subagent sid ag tk inner dn # ts) eid result is_error =
     Subagent sid ag tk (attach_result inner eid result is_error) dn
       # attach_result ts eid result is_error"
| "attach_result (t # ts) eid result is_error = t # attach_result ts eid result is_error"

text \<open>
  \<open>find_subagent_items\<close> returns a mutable reference to the items of the first sub-agent of
  that id in depth-first order; its model applies the caller's change to them.
\<close>

fun with_subagent_items ::
  "ustring \<Rightarrow> (transcript_item list \<Rightarrow> transcript_item list) \<Rightarrow> transcript_item list
     \<Rightarrow> transcript_item list option" where
  "with_subagent_items eid f [] = None"
| "with_subagent_items eid f (Subagent sid ag tk inner dn # ts) =
     (if sid = eid then Some (Subagent sid ag tk (f inner) dn # ts)
      else (case with_subagent_items eid f inner of
              Some inner' \<Rightarrow> Some (Subagent sid ag tk inner' dn # ts)
            | None \<Rightarrow> map_option (\<lambda>r. Subagent sid ag tk inner dn # r) (with_subagent_items eid f ts)))"
| "with_subagent_items eid f (t # ts) = map_option (\<lambda>r. t # r) (with_subagent_items eid f ts)"

text \<open>The number of sub-agents at any depth, the termination measure of \<open>mark_subagent_done\<close>.\<close>

fun subagents :: "transcript_item list \<Rightarrow> nat" where
  "subagents [] = 0"
| "subagents (Subagent sid ag tk inner dn # ts) = Suc (subagents inner + subagents ts)"
| "subagents (t # ts) = subagents ts"

lemma subagents_append [simp]: "subagents (xs @ ys) = subagents xs + subagents ys"
proof (induction xs)
  case Nil
  then show ?case by simp
next
  case (Cons x xs)
  then show ?case by (cases x) auto
qed

lemma subagents_rev [simp]: "subagents (rev xs) = subagents xs"
proof (induction xs)
  case Nil
  then show ?case by simp
next
  case (Cons x xs)
  then show ?case by (cases x) auto
qed

lemma last_block_cases:
  obtains (none) "\<And>t b before. rev items \<noteq> Assistant t b # before"
  | (block) t b before where "rev items = Assistant t b # before" "items = rev before @ [Assistant t b]"
  by (metis rev.simps(2) rev_rev_ident)

lemma subagents_push_token [simp]: "subagents (push_token items c) = subagents items"
proof -
  have "subagents items = subagents (rev items)" by simp
  then show ?thesis
    unfolding push_token_def
    by (cases "rev items") (auto split: transcript_item.split bool.split)
qed

lemma subagents_close [simp]: "subagents (close_open_blocks items) = subagents items"
proof -
  have "subagents items = subagents (rev items)" by simp
  then show ?thesis
    unfolding close_open_blocks_def
    by (cases "rev items") (auto split: transcript_item.split)
qed

function mark_subagent_done ::
  "transcript_item list \<Rightarrow> ustring \<Rightarrow> ustring \<Rightarrow> transcript_item list" where
  "mark_subagent_done [] eid result = []"
| "mark_subagent_done (Subagent sid ag tk inner dn # ts) eid result =
     (let hit = (sid = eid);
          inner1 = (if hit \<and> result \<noteq> [] then push_token (close_open_blocks inner) result else inner)
      in Subagent sid ag tk (mark_subagent_done inner1 eid result) (hit \<or> dn)
           # mark_subagent_done ts eid result)"
| "mark_subagent_done (User x # ts) eid result = User x # mark_subagent_done ts eid result"
| "mark_subagent_done (Assistant x b # ts) eid result = Assistant x b # mark_subagent_done ts eid result"
| "mark_subagent_done (Reasoning x b # ts) eid result = Reasoning x b # mark_subagent_done ts eid result"
| "mark_subagent_done (ToolCall i n a r er e # ts) eid result =
     ToolCall i n a r er e # mark_subagent_done ts eid result"
| "mark_subagent_done (Notice l x # ts) eid result = Notice l x # mark_subagent_done ts eid result"
| "mark_subagent_done (Interrupted # ts) eid result = Interrupted # mark_subagent_done ts eid result"
  by pat_completeness auto
termination
  by (relation "measures [\<lambda>(ts, eid, r). subagents ts, \<lambda>(ts, eid, r). length ts]") auto

text \<open>In a nested turn, the end of a sub-agent only marks the ones at this level.\<close>

fun mark_done_flat :: "ustring \<Rightarrow> transcript_item \<Rightarrow> transcript_item" where
  "mark_done_flat eid (Subagent sid ag tk inner dn) =
     Subagent sid ag tk inner (sid = eid \<or> dn)"
| "mark_done_flat eid t = t"

text \<open>\<open>format!("[{code}] {message}")\<close> and the notice for a server that cannot be reached.\<close>

definition error_notice :: "ustring \<Rightarrow> ustring \<Rightarrow> ustring" where
  "error_notice cd message = utf ''['' @ cd @ utf ''] '' @ message"

definition unavailable_notice :: "ustring \<Rightarrow> ustring \<Rightarrow> ustring" where
  "unavailable_notice server reason =
     utf ''serveur MCP indisponible : '' @ server @ utf '' ('' @ reason @ utf '')''"

fun apply_nested ::
  "(ustring json \<Rightarrow> ustring) \<Rightarrow> ustring chat_event \<Rightarrow> transcript_item list \<Rightarrow> transcript_item list" where
  "apply_nested jtext (Token c) items = push_token items c"
| "apply_nested jtext (ReasoningDelta c) items = push_reasoning items c"
| "apply_nested jtext (ToolCallEv eid name args) items =
     items @ [ToolCall eid name (jtext args) None False False]"
| "apply_nested jtext (ToolResultEv eid name result is_error) items =
     attach_result items eid result is_error"
| "apply_nested jtext (SubagentStart eid ag tk) items = items @ [Subagent eid ag tk [] False]"
| "apply_nested jtext (SubagentEvent eid ev) items =
     (case with_subagent_items eid (apply_nested jtext ev) items of
        Some items' \<Rightarrow> items' | None \<Rightarrow> items)"
| "apply_nested jtext (SubagentEnd eid result) items = map (mark_done_flat eid) items"
| "apply_nested jtext Done items = close_open_blocks items"
| "apply_nested jtext (ErrorEv cd message) items = items @ [Notice Error (error_notice cd message)]"
| "apply_nested jtext (ToolUnavailable server reason) items =
     items @ [Notice Warn (unavailable_notice server reason)]"
| "apply_nested jtext (UsageEv a b) items = items"
| "apply_nested jtext (SkillLoaded n) items = items"

definition TODO_TOOL :: ustring where
  "TODO_TOOL = utf ''todowrite''"

definition todo_of_json :: "ustring json \<Rightarrow> todo_item option" where
  "todo_of_json t = do {
     c \<leftarrow> jget (utf ''content'') t;
     content \<leftarrow> as_str c;
     let st = (case Option.bind (jget (utf ''status'') t) as_str of
                 Some x \<Rightarrow> x | None \<Rightarrow> utf ''pending'');
     Some (TodoItem content st)
   }"

definition reload_todo :: "app_state \<Rightarrow> ustring json \<Rightarrow> app_state" where
  "reload_todo s args =
     (case Option.bind (jget (utf ''todos'') args) as_arr of
        None \<Rightarrow> s
      | Some todos \<Rightarrow> s\<lparr>todo := List.map_filter todo_of_json todos\<rparr>)"

definition set_transcript :: "app_state \<Rightarrow> transcript_item list \<Rightarrow> app_state" where
  "set_transcript s ts = s\<lparr>transcript := ts\<rparr>"

fun agent_update ::
  "(ustring json \<Rightarrow> ustring) \<Rightarrow> app_state \<Rightarrow> ustring chat_event \<Rightarrow> app_state" where
  "agent_update jtext s (Token c) =
     mark_new_content (bump (set_transcript s (push_token (transcript s) c)))"
| "agent_update jtext s (ReasoningDelta c) =
     mark_new_content (bump (set_transcript s (push_reasoning (transcript s) c)))"
| "agent_update jtext s (ToolCallEv eid name args) =
     (let s1 = (if name = TODO_TOOL then reload_todo s args else s)
      in mark_new_content (bump (push_item s1 (ToolCall eid name (jtext args) None False False))))"
| "agent_update jtext s (ToolResultEv eid name result is_error) =
     bump (set_transcript s (attach_result (transcript s) eid result is_error))"
| "agent_update jtext s (SubagentStart eid ag tk) =
     mark_new_content (bump (push_item s (Subagent eid ag tk [] False)))"
| "agent_update jtext s (SubagentEvent eid ev) =
     mark_new_content (bump
       (case with_subagent_items eid (apply_nested jtext ev) (transcript s) of
          Some ts \<Rightarrow> set_transcript s ts | None \<Rightarrow> s))"
| "agent_update jtext s (SubagentEnd eid result) =
     bump (set_transcript s (mark_subagent_done (transcript s) eid result))"
| "agent_update jtext s (UsageEv a b) =
     s\<lparr>usage := \<lparr>used_input = sat_add64 (used_input (usage s)) a,
                 used_output = sat_add64 (used_output (usage s)) b\<rparr>\<rparr>"
| "agent_update jtext s (ToolUnavailable server reason) =
     push_notice s Warn (unavailable_notice server reason)"
| "agent_update jtext s (ErrorEv cd message) = push_notice s Error (error_notice cd message)"
| "agent_update jtext s Done = bump (set_transcript s (close_open_blocks (transcript s)))"
| "agent_update jtext s (SkillLoaded n) = s"

section \<open>Submitting the input\<close>

definition edit :: "app_state \<Rightarrow> edit_command \<Rightarrow> app_state option" where
  "edit s c = map_option (\<lambda>i. s\<lparr>input := i\<rparr>) (apply_cmd (input s) c)"

definition disarm :: "app_state \<Rightarrow> app_state" where
  "disarm s = s\<lparr>quit_armed := False\<rparr>"

text \<open>The effects of a step, with no effect.\<close>

definition quiet :: "app_state option \<Rightarrow> (app_state \<times> effect list) option" where
  "quiet r = map_option (\<lambda>s. (s, [])) r"

definition send_message :: "app_state \<Rightarrow> ustring \<Rightarrow> (app_state \<times> effect list) option" where
  "send_message s text = do {
     let s1 = scroll_follow (bump (push_item s (User text)));
     i \<leftarrow> apply_cmd (input s1) Clear;
     Some (s1\<lparr>input := push_history i text, status := Running (tick s1), quit_armed := False,
              selected := None\<rparr>, [StartTurn text])
   }"

definition help_text :: ustring where
  "help_text =
     utf ''Entr'' @ [0xE9] @ utf ''e envoyer '' @ [0xB7] @ utf '' Alt+Entr'' @ [0xE9]
     @ utf ''e/Ctrl+J nouvelle ligne '' @ [0xB7] @ utf '' Ctrl+C annuler/vider ''
     @ [0xB7] @ utf '' Ctrl+D quitter '' @ [0xB7] @ utf '' PgUp/PgDn/molette d'' @ [0xE9]
     @ utf ''filer '' @ [0xB7] @ utf '' Fin suit la fin '' @ [0xB7] @ utf '' Tab s'' @ [0xE9]
     @ utf ''lection '' @ [0xB7] @ utf '' Espace replier '' @ [0xB7]
     @ utf '' Ctrl+R raisonnements '' @ [0xB7] @ utf '' Ctrl+T t'' @ [0xE2]
     @ utf ''ches '' @ [0xB7] @ utf '' /new /agent <nom> /todo /quit''"

definition slash_command :: "app_state \<Rightarrow> ustring \<Rightarrow> (app_state \<times> effect list) option" where
  "slash_command s line =
     (let (cmd, arg) = (case split_once 32 line of
                          Some (c, a) \<Rightarrow> (c, utrim a) | None \<Rightarrow> (line, []))
      in if cmd = utf ''/help'' then
           quiet (map_option (\<lambda>s. push_notice s Info help_text) (edit s Clear))
         else if cmd = utf ''/new'' then
           map_option (\<lambda>s. (s, [NewConversation])) (edit s Clear)
         else if cmd = utf ''/agent'' then
           (if arg = [] then Some (push_notice s Warn (utf ''usage : /agent <nom>''), [])
            else map_option (\<lambda>s. (s\<lparr>agent_name := arg\<rparr>, [SwitchAgent arg])) (edit s Clear))
         else if cmd = utf ''/todo'' then
           quiet (map_option (\<lambda>s. s\<lparr>todo_visible := \<not> todo_visible s\<rparr>) (edit s Clear))
         else if cmd = utf ''/quit'' then
           map_option (\<lambda>s. (s, [Quit])) (edit s Clear)
         else
           quiet (map_option
             (\<lambda>s. push_notice s Warn (utf ''commande inconnue : '' @ cmd @ utf '' (voir /help)''))
             (edit s Clear)))"

definition busy_notice :: ustring where
  "busy_notice = utf ''tour en cours '' @ [0x2014] @ utf '' patientez''"

fun is_running :: "status \<Rightarrow> bool" where
  "is_running (Running _) = True"
| "is_running Idle = False"

definition submit :: "app_state \<Rightarrow> (app_state \<times> effect list) option" where
  "submit s =
     (if is_running (status s) then Some (push_notice s Warn busy_notice, [])
      else
        let trimmed = utrim (editor_text (input s))
        in if trimmed = [] then Some (s, [])
           else (case strip_prefix (utf ''//'') trimmed of
                   Some rest \<Rightarrow> send_message s (utf ''/'' @ rest)
                 | None \<Rightarrow>
                     if prefix (utf ''/'') trimmed \<and> newline \<notin> set trimmed
                     then slash_command s trimmed
                     else send_message s trimmed))"

section \<open>Keys and actions\<close>

definition ctrl_c :: "app_state \<Rightarrow> (app_state \<times> effect list) option" where
  "ctrl_c s =
     (if is_running (status s) then
        Some ((bump (push_item s Interrupted))\<lparr>status := Idle\<rparr>, [CancelTurn])
      else if \<not> is_blank (input s) then quiet (map_option disarm (edit s Clear))
      else if quit_armed s then Some (s, [Quit])
      else Some (s\<lparr>quit_armed := True\<rparr>, []))"

definition ctrl_d :: "app_state \<Rightarrow> (app_state \<times> effect list) option" where
  "ctrl_d s =
     (if lines (input s) = [[]] then Some (s, [Quit]) else quiet (edit s Delete))"

definition page_size :: "app_state \<Rightarrow> nat" where
  "page_size s = max (snd (term_size s) - 4) 1"

definition ch :: "char \<Rightarrow> uchar" where
  "ch c = of_char c"

definition key_char :: "app_state \<Rightarrow> bool \<Rightarrow> uchar \<Rightarrow> (app_state \<times> effect list) option" where
  "key_char s ctl c =
     (if ctl \<and> c = ch (CHR ''c'') then ctrl_c s
      else if ctl \<and> c = ch (CHR ''d'') then ctrl_d s
      else if ctl \<and> c = ch (CHR ''j'') then quiet (edit s Newline)
      else if ctl \<and> c = ch (CHR ''l'') then Some (s, [])
      else if ctl \<and> c = ch (CHR ''r'') then Some (toggle_all_reasoning s, [])
      else if ctl \<and> c = ch (CHR ''t'') then Some (s\<lparr>todo_visible := \<not> todo_visible s\<rparr>, [])
      else if c = ch (CHR '' '') \<and> selected s \<noteq> None \<and> is_blank (input s) then
        Some (toggle_selected s, [])
      else if \<not> ctl then quiet (map_option disarm (edit s (Insert c)))
      else Some (s, []))"

definition key_update :: "app_state \<Rightarrow> key_event \<Rightarrow> (app_state \<times> effect list) option" where
  "key_update s key =
     (case code key of
        KChar c \<Rightarrow> key_char s (ctrl key) c
      | KEnter \<Rightarrow> if alt key then quiet (edit s Newline) else submit s
      | KTab \<Rightarrow> Some (move_selection s True, [])
      | KBackTab \<Rightarrow> Some (move_selection s False, [])
      | KPageUp \<Rightarrow> Some (scroll_page s (page_size s) True, [])
      | KPageDown \<Rightarrow> Some (scroll_page s (page_size s) False, [])
      | KEnd \<Rightarrow> quiet (edit (scroll_follow s) End)
      | KHome \<Rightarrow> quiet (edit s Home)
      | KUp \<Rightarrow> quiet (edit s (if row (input s) = 0 then HistoryPrev else CUp))
      | KDown \<Rightarrow>
          quiet (edit s (if length (lines (input s)) \<le> row (input s) + 1 then HistoryNext else CDown))
      | KLeft \<Rightarrow> quiet (edit s CLeft)
      | KRight \<Rightarrow> quiet (edit s CRight)
      | KBackspace \<Rightarrow> quiet (map_option disarm (edit s Backspace))
      | KDelete \<Rightarrow> quiet (edit s Delete)
      | KOther \<Rightarrow> Some (s, []))"

fun update ::
  "(ustring json \<Rightarrow> ustring) \<Rightarrow> app_state \<Rightarrow> action \<Rightarrow> (app_state \<times> effect list) option" where
  "update jtext s (Key k) = key_update s k"
| "update jtext s (Paste text) = quiet (map_option disarm (edit s (InsertStr text)))"
| "update jtext s (Resize w h) = Some (s\<lparr>term_size := (w, h)\<rparr>, [])"
| "update jtext s (Mouse kind) =
     Some (case kind of
             ScrollUp \<Rightarrow> scroll_by s 3 True
           | ScrollDown \<Rightarrow> scroll_by s 3 False
           | MouseOther \<Rightarrow> s, [])"
| "update jtext s Tick = Some (s\<lparr>tick := tick s + 1\<rparr>, [])"
| "update jtext s (Agent ev) = Some (agent_update jtext s ev, [])"
| "update jtext s (TurnFinished result) =
     (let s1 = s\<lparr>status := Idle\<rparr>
      in case result of
           None \<Rightarrow> Some (s1, [Save, RefreshGit])
         | Some message \<Rightarrow> Some (push_notice s1 Error message, []))"
| "update jtext s (GitSummary g) = Some (s\<lparr>git_summary := g\<rparr>, [])"

end
