(* ===== verification/TuiInvariant.thy ===== *)
theory TuiInvariant
  imports TuiState
begin

text \<open>
  Invariants of the chat model (theory TuiState): the input area never panics, the scroll
  position and the follow mode agree, the selection points at a foldable item. They hold
  after any sequence of actions, so \<open>update\<close> is total, as its contract says.
\<close>

section \<open>The invariant\<close>

definition scroll_ok :: "scroll_state \<Rightarrow> bool" where
  "scroll_ok sc \<longleftrightarrow> follow sc = (offset sc = 0) \<and> (follow sc \<longrightarrow> \<not> pending sc)"

definition sel_ok :: "nat option \<Rightarrow> transcript_item list \<Rightarrow> bool" where
  "sel_ok sel ts \<longleftrightarrow> (\<forall>i. sel = Some i \<longrightarrow> i < length ts \<and> collapsible (ts ! i))"

definition app_inv :: "app_state \<Rightarrow> bool" where
  "app_inv s \<longleftrightarrow> hist_ok (input s) \<and> scroll_ok (scroll s) \<and> sel_ok (selected s) (transcript s)"

text \<open>The kinds of the items already there are kept; the transcript only grows.\<close>

definition keeps :: "transcript_item list \<Rightarrow> transcript_item list \<Rightarrow> bool" where
  "keeps ts ts' \<longleftrightarrow> prefix (map collapsible ts) (map collapsible ts')"

lemma keeps_refl [intro, simp]: "keeps ts ts"
  by (simp add: keeps_def)

lemma keeps_append [intro, simp]: "keeps ts (ts @ xs)"
  by (simp add: keeps_def)

lemma keeps_eq: "map collapsible ts' = map collapsible ts \<Longrightarrow> keeps ts ts'"
  by (simp add: keeps_def)

lemma sel_ok_keeps:
  assumes "keeps ts ts'" and "sel_ok sel ts"
  shows "sel_ok sel ts'"
proof -
  obtain zs where z: "map collapsible ts' = map collapsible ts @ zs"
    using assms(1) by (auto simp: keeps_def prefix_def)
  have "i < length ts' \<and> collapsible (ts' ! i)" if "i < length ts" "collapsible (ts ! i)" for i
  proof -
    have l: "i < length ts'" using z that(1) by (metis length_append length_map trans_less_add1)
    have "map collapsible ts' ! i = map collapsible ts ! i" using z that(1) by (simp add: nth_append)
    with l that show ?thesis by simp
  qed
  with assms(2) show ?thesis by (simp add: sel_ok_def)
qed

section \<open>The transcript operations keep the kinds\<close>

lemma push_token_cases:
  "(\<exists>xs t. items = xs @ [Assistant t False] \<and> push_token items c = xs @ [Assistant (t @ c) False])
   \<or> push_token items c = items @ [Assistant c False]"
proof (cases "rev items")
  case Nil
  then show ?thesis by (simp add: push_token_def)
next
  case (Cons i rest)
  then have "items = rev rest @ [i]" by (metis rev.simps(2) rev_rev_ident)
  with Cons show ?thesis
    by (auto simp: push_token_def split: transcript_item.split bool.split)
qed

lemma push_reasoning_cases:
  "(\<exists>xs t e. items = xs @ [Reasoning t e] \<and> push_reasoning items c = xs @ [Reasoning (t @ c) e])
   \<or> push_reasoning items c = items @ [Reasoning c False]"
proof (cases "rev items")
  case Nil
  then show ?thesis by (simp add: push_reasoning_def)
next
  case (Cons i rest)
  then have "items = rev rest @ [i]" by (metis rev.simps(2) rev_rev_ident)
  with Cons show ?thesis
    by (auto simp: push_reasoning_def split: transcript_item.split)
qed

lemma close_cases:
  "(\<exists>xs t b. items = xs @ [Assistant t b] \<and> close_open_blocks items = xs @ [Assistant t True])
   \<or> close_open_blocks items = items"
proof (cases "rev items")
  case Nil
  then show ?thesis by (simp add: close_open_blocks_def)
next
  case (Cons i rest)
  then have "items = rev rest @ [i]" by (metis rev.simps(2) rev_rev_ident)
  with Cons show ?thesis
    by (auto simp: close_open_blocks_def split: transcript_item.split)
qed

lemma keeps_push_token [simp]: "keeps ts (push_token ts c)"
  using push_token_cases [of ts c] by (auto simp: keeps_def)

lemma keeps_push_reasoning [simp]: "keeps ts (push_reasoning ts c)"
  using push_reasoning_cases [of ts c] by (auto simp: keeps_def)

lemma keeps_close [simp]: "keeps ts (close_open_blocks ts)"
  using close_cases [of ts] by (auto simp: keeps_def)

lemma kinds_attach [simp]: "map collapsible (attach_result ts i r e) = map collapsible ts"
  by (induction ts i r e rule: attach_result.induct) auto

lemma kinds_with_subagent:
  "with_subagent_items i f ts = Some ts' \<Longrightarrow> map collapsible ts' = map collapsible ts"
  by (induction i f ts arbitrary: ts' rule: with_subagent_items.induct)
    (auto split: if_splits option.splits)

lemma kinds_mark_done [simp]: "map collapsible (mark_subagent_done ts i r) = map collapsible ts"
  by (induction ts i r rule: mark_subagent_done.induct) (auto simp: Let_def)

lemma collapsible_toggle [simp]: "collapsible (toggle_item t) = collapsible t"
  by (cases t) auto

lemma collapsible_set_reasoning [simp]: "collapsible (set_reasoning e t) = collapsible t"
  by (cases t) auto

section \<open>The state operations keep the invariant\<close>

lemma scroll_ok_mark [simp]: "scroll_ok (scroll (mark_new_content s)) = scroll_ok (scroll s)"
  by (auto simp: mark_new_content_def scroll_ok_def)

lemma mark_frame [simp]:
  "input (mark_new_content s) = input s" "transcript (mark_new_content s) = transcript s"
  "selected (mark_new_content s) = selected s" "status (mark_new_content s) = status s"
  "revision (mark_new_content s) = revision s"
  by (simp_all add: mark_new_content_def)

lemma bump_frame [simp]:
  "input (bump s) = input s" "transcript (bump s) = transcript s" "scroll (bump s) = scroll s"
  "selected (bump s) = selected s" "status (bump s) = status s" "revision (bump s) = revision s + 1"
  "tick (bump s) = tick s"
  by (simp_all add: bump_def)

lemma push_item_frame [simp]:
  "input (push_item s i) = input s" "transcript (push_item s i) = transcript s @ [i]"
  "scroll (push_item s i) = scroll s" "selected (push_item s i) = selected s"
  "status (push_item s i) = status s" "revision (push_item s i) = revision s"
  by (simp_all add: push_item_def)

lemma set_transcript_frame [simp]:
  "input (set_transcript s ts) = input s" "transcript (set_transcript s ts) = ts"
  "scroll (set_transcript s ts) = scroll s" "selected (set_transcript s ts) = selected s"
  "status (set_transcript s ts) = status s" "revision (set_transcript s ts) = revision s"
  by (simp_all add: set_transcript_def)

lemma reload_todo_frame [simp]:
  "input (reload_todo s a) = input s" "transcript (reload_todo s a) = transcript s"
  "scroll (reload_todo s a) = scroll s" "selected (reload_todo s a) = selected s"
  "status (reload_todo s a) = status s" "revision (reload_todo s a) = revision s"
  by (simp_all add: reload_todo_def split: option.split)

lemma push_notice_frame [simp]:
  "input (push_notice s l x) = input s" "transcript (push_notice s l x) = transcript s @ [Notice l x]"
  "selected (push_notice s l x) = selected s" "status (push_notice s l x) = status s"
  "revision (push_notice s l x) = revision s + 1"
  "scroll_ok (scroll (push_notice s l x)) = scroll_ok (scroll s)"
  by (simp_all add: push_notice_def)

lemma app_inv_step:
  assumes "app_inv s" and "hist_ok (input s')" and "scroll_ok (scroll s')"
    and "selected s' = selected s" and "keeps (transcript s) (transcript s')"
  shows "app_inv s'"
  using assms sel_ok_keeps by (auto simp: app_inv_def)

lemma app_inv_push_notice [inv_intros]: "app_inv s \<Longrightarrow> app_inv (push_notice s l x)"
  by (rule app_inv_step, assumption) (auto simp: app_inv_def)

lemma app_inv_agent_update [inv_intros]:
  assumes "app_inv s"
  shows "app_inv (agent_update jtext s ev)"
proof (rule app_inv_step [OF assms])
  show "hist_ok (input (agent_update jtext s ev))"
    using assms by (cases ev) (auto simp: app_inv_def Let_def split: option.split)
  show "scroll_ok (scroll (agent_update jtext s ev))"
    using assms by (cases ev) (auto simp: app_inv_def Let_def split: option.split)
  show "selected (agent_update jtext s ev) = selected s"
    by (cases ev) (auto simp: Let_def split: option.split)
  show "keeps (transcript s) (transcript (agent_update jtext s ev))"
    by (cases ev) (auto simp: Let_def keeps_eq kinds_with_subagent split: option.split)
qed

lemma scroll_ok_scroll_by:
  "0 < n \<Longrightarrow> scroll_ok (scroll s) \<Longrightarrow> scroll_ok (scroll (scroll_by s n up))"
  by (auto simp: scroll_by_def scroll_ok_def Let_def usize_max_def min_def)

lemma app_inv_scroll_by: "0 < n \<Longrightarrow> app_inv s \<Longrightarrow> app_inv (scroll_by s n up)"
  using scroll_ok_scroll_by [of n s up]
  by (auto simp: app_inv_def scroll_by_def Let_def)

lemma app_inv_scroll_page [inv_intros]: "app_inv s \<Longrightarrow> app_inv (scroll_page s p up)"
  by (simp add: scroll_page_def app_inv_scroll_by)

lemma app_inv_scroll_follow [inv_intros]: "app_inv s \<Longrightarrow> app_inv (scroll_follow s)"
  by (simp add: app_inv_def scroll_follow_def scroll_ok_def)

lemma set_collapsible_indices:
  "i \<in> set (collapsible_indices ts) \<longleftrightarrow> i < length ts \<and> collapsible (ts ! i)"
  by (force simp: collapsible_indices_def in_set_enumerate_eq)

lemma sel_ok_None [simp]: "sel_ok None ts"
  by (simp add: sel_ok_def)

lemma sel_ok_collapsible_nth:
  "n < length (collapsible_indices ts) \<Longrightarrow> sel_ok (Some (collapsible_indices ts ! n)) ts"
  using set_collapsible_indices [of "collapsible_indices ts ! n" ts] nth_mem
  by (auto simp: sel_ok_def)

lemma app_inv_move_selection [inv_intros]:
  assumes "app_inv s"
  shows "app_inv (move_selection s forward)"
proof -
  have "sel_ok (selected (move_selection s forward)) (transcript s)"
    by (simp add: move_selection_def Let_def sel_ok_collapsible_nth)
  moreover have "input (move_selection s forward) = input s"
    "scroll (move_selection s forward) = scroll s"
    "transcript (move_selection s forward) = transcript s"
    by (simp_all add: move_selection_def Let_def)
  ultimately show ?thesis using assms by (simp add: app_inv_def)
qed

lemma keeps_update:
  assumes "collapsible t = collapsible (ts ! i)" and "i < length ts"
  shows "keeps ts (ts[i := t])"
proof (rule keeps_eq)
  have "map collapsible (ts[i := t]) = (map collapsible ts)[i := map collapsible ts ! i]"
    using assms by (simp add: map_update)
  then show "map collapsible (ts[i := t]) = map collapsible ts" by simp
qed

lemma app_inv_toggle_selected [inv_intros]:
  assumes "app_inv s"
  shows "app_inv (toggle_selected s)"
proof (cases "selected s")
  case None
  with assms show ?thesis by (simp add: toggle_selected_def)
next
  case (Some idx)
  with assms have "idx < length (transcript s)" by (simp add: app_inv_def sel_ok_def)
  then have "keeps (transcript s) ((transcript s)[idx := toggle_item (transcript s ! idx)])"
    by (intro keeps_update) simp_all
  then have "sel_ok (selected s) ((transcript s)[idx := toggle_item (transcript s ! idx)])"
    using assms by (auto simp: app_inv_def intro: sel_ok_keeps)
  with assms Some show ?thesis by (simp add: toggle_selected_def app_inv_def)
qed

lemma app_inv_toggle_all [inv_intros]: "app_inv s \<Longrightarrow> app_inv (toggle_all_reasoning s)"
  by (rule app_inv_step, assumption)
    (auto simp: toggle_all_reasoning_def app_inv_def Let_def comp_def intro!: keeps_eq)

lemma edit_total:
  assumes "app_inv s"
  shows "\<exists>s'. edit s c = Some s' \<and> app_inv s' \<and> transcript s' = transcript s
    \<and> revision s' = revision s \<and> status s' = status s"
proof -
  have "hist_ok (input s)" using assms by (simp add: app_inv_def)
  then obtain i where "apply_cmd (input s) c = Some i" and "hist_ok i"
    using apply_cmd_total [of "input s" c] by (auto simp: editor_wf_def)
  with assms show ?thesis by (simp add: edit_def app_inv_def)
qed

lemma hist_ok_push_history [simp]: "hist_ok (push_history i x)"
  by (simp add: hist_ok_def push_history_def Let_def)

section \<open>Totality of \<open>update\<close>\<close>

text \<open>A step that returns, and keeps the invariant.\<close>

definition good_step :: "(app_state \<times> effect list) option \<Rightarrow> bool" where
  "good_step r \<longleftrightarrow> (\<exists>s es. r = Some (s, es) \<and> app_inv s)"

lemma good_stepI [intro]: "app_inv s \<Longrightarrow> good_step (Some (s, es))"
  by (simp add: good_step_def)

lemma good_edit:
  assumes "app_inv s" and "\<And>s'. app_inv s' \<Longrightarrow> app_inv (f s')"
  shows "good_step (map_option (\<lambda>s. (f s, es)) (edit s c))"
  using edit_total [OF assms(1), of c] assms(2) by (auto simp: good_step_def)

lemma good_quiet:
  assumes "app_inv s" and "\<And>s'. app_inv s' \<Longrightarrow> app_inv (f s')"
  shows "good_step (quiet (map_option f (edit s c)))"
  using edit_total [OF assms(1), of c] assms(2) by (auto simp: good_step_def quiet_def)

lemma good_quiet_plain: "app_inv s \<Longrightarrow> good_step (quiet (edit s c))"
  using edit_total [of s c] by (auto simp: good_step_def quiet_def)

lemma app_inv_fields [intro, simp]:
  "app_inv s \<Longrightarrow> app_inv (disarm s)"
  "app_inv s \<Longrightarrow> app_inv (s\<lparr>agent_name := ag\<rparr>)"
  "app_inv s \<Longrightarrow> app_inv (s\<lparr>todo_visible := v\<rparr>)"
  "app_inv s \<Longrightarrow> app_inv (s\<lparr>quit_armed := v\<rparr>)"
  "app_inv s \<Longrightarrow> app_inv (s\<lparr>term_size := sz\<rparr>)"
  "app_inv s \<Longrightarrow> app_inv (s\<lparr>tick := t\<rparr>)"
  "app_inv s \<Longrightarrow> app_inv (s\<lparr>status := st\<rparr>)"
  "app_inv s \<Longrightarrow> app_inv (s\<lparr>git_summary := g\<rparr>)"
  by (simp_all add: app_inv_def disarm_def)

lemma good_send_message:
  assumes "app_inv s"
  shows "good_step (send_message s text)"
proof -
  let ?s1 = "scroll_follow (bump (push_item s (User text)))"
  have "app_inv (bump (push_item s (User text)))"
    using assms by (rule app_inv_step) (use assms in \<open>auto simp: app_inv_def\<close>)
  then have i: "app_inv ?s1" by (rule app_inv_scroll_follow)
  then obtain e where "apply_cmd (input ?s1) Clear = Some e"
    using apply_cmd_total [of "input ?s1" Clear] by (auto simp: app_inv_def)
  with i show ?thesis
    by (auto simp: send_message_def good_step_def app_inv_def sel_ok_def Let_def)
qed

lemma good_slash_command:
  assumes "app_inv s"
  shows "good_step (slash_command s line)"
  using assms
  by (auto simp: slash_command_def Let_def split: option.split prod.split
      intro!: good_edit good_quiet good_edit [where f = "\<lambda>s. s"] inv_intros)

lemma good_submit: "app_inv s \<Longrightarrow> good_step (submit s)"
  by (auto simp: submit_def Let_def intro!: good_send_message good_slash_command inv_intros
      split: option.split)

lemma good_ctrl_c: "app_inv s \<Longrightarrow> good_step (ctrl_c s)"
proof -
  assume s: "app_inv s"
  have "app_inv (bump (push_item s Interrupted))"
    using s by (rule app_inv_step) (use s in \<open>auto simp: app_inv_def\<close>)
  with s show ?thesis
    by (auto simp: ctrl_c_def intro!: good_quiet)
qed

lemma good_key_char: "app_inv s \<Longrightarrow> good_step (key_char s ctl c)"
  by (auto simp: key_char_def ctrl_d_def
      intro!: good_ctrl_c good_quiet good_quiet_plain inv_intros)

lemma good_key_update: "app_inv s \<Longrightarrow> good_step (key_update s key)"
  by (cases "code key")
    (auto simp: key_update_def intro!: good_key_char good_submit good_quiet good_quiet_plain inv_intros)

lemma good_update: "app_inv s \<Longrightarrow> good_step (update jtext s a)"
  by (cases a)
    (auto simp: Let_def app_inv_scroll_by
      intro!: good_key_update good_quiet inv_intros split: mouse_kind.split option.split)

text \<open>A run: a sequence of actions, the state threaded through and the effects collected.\<close>

fun run ::
  "(ustring json \<Rightarrow> ustring) \<Rightarrow> app_state \<Rightarrow> action list \<Rightarrow> (app_state \<times> effect list) option" where
  "run jtext s [] = Some (s, [])"
| "run jtext s (a # as) = do {
     (s1, es1) \<leftarrow> update jtext s a;
     (s2, es2) \<leftarrow> run jtext s1 as;
     Some (s2, es1 @ es2)
   }"

lemma app_inv_new: "app_inv (app_new ag cid ttl sz)"
  by (simp add: app_inv_def app_new_def hist_ok_def editor_new_def scroll_ok_def
      scroll_default_def sel_ok_def)

lemma run_good: "app_inv s \<Longrightarrow> good_step (run jtext s as)"
proof (induction as arbitrary: s)
  case Nil
  then show ?case by auto
next
  case (Cons a as)
  obtain s1 es1 where u: "update jtext s a = Some (s1, es1)" and "app_inv s1"
    using good_update [OF Cons.prems, of jtext a] by (auto simp: good_step_def)
  with Cons.IH [of s1] show ?case by (auto simp: good_step_def)
qed

end
