(* ===== verification/TuiProps.thy ===== *)
theory TuiProps
  imports TuiInvariant
begin

text \<open>
  What a step of the chat model guarantees to the loop that executes its effects
  (\<open>cli/src/tui/mod.rs\<close>) and to the view: the turn discipline, the revision number that keys
  the view's cache of lines, and what the events of the agent do to the transcript.
\<close>

section \<open>Steps\<close>

definition rev_ok :: "app_state \<Rightarrow> app_state \<Rightarrow> bool" where
  "rev_ok s s' \<longleftrightarrow>
     (transcript s' = transcript s \<and> revision s' = revision s) \<or> revision s' = revision s + 1"

fun is_start :: "effect \<Rightarrow> bool" where
  "is_start (StartTurn _) = True"
| "is_start _ = False"

fun is_finish :: "action \<Rightarrow> bool" where
  "is_finish (TurnFinished _) = True"
| "is_finish _ = False"

text \<open>
  The status after a step is determined by its effects: a turn runs exactly if it was
  started in this step, or was running and neither cancelled nor reported as finished.
\<close>

definition turn_ok :: "bool \<Rightarrow> app_state \<Rightarrow> app_state \<Rightarrow> effect list \<Rightarrow> bool" where
  "turn_ok fin s s' es \<longleftrightarrow>
     is_running (status s') =
       (list_ex is_start es \<or> (is_running (status s) \<and> CancelTurn \<notin> set es \<and> \<not> fin))
     \<and> (list_ex is_start es \<longrightarrow> \<not> is_running (status s))
     \<and> (CancelTurn \<in> set es \<longrightarrow> is_running (status s))"

definition step_ok :: "bool \<Rightarrow> app_state \<Rightarrow> (app_state \<times> effect list) option \<Rightarrow> bool" where
  "step_ok fin s r \<longleftrightarrow>
     (\<forall>s' es. r = Some (s', es) \<longrightarrow> rev_ok s s' \<and> turn_ok fin s s' es \<and> (\<not> fin \<longrightarrow> Save \<notin> set es))"

lemma step_ok_Some:
  "step_ok fin s (Some (s', es)) \<longleftrightarrow>
     rev_ok s s' \<and> turn_ok fin s s' es \<and> (\<not> fin \<longrightarrow> Save \<notin> set es)"
  by (simp add: step_ok_def)

lemma step_ok_None [simp]: "step_ok fin s None"
  by (simp add: step_ok_def)

text \<open>A step without turn effects that keeps the status.\<close>

lemma step_ok_plain:
  assumes "rev_ok s s'" and "status s' = status s"
    and "\<not> list_ex is_start es" and "CancelTurn \<notin> set es" and "Save \<notin> set es"
  shows "step_ok False s (Some (s', es))"
  using assms by (simp add: step_ok_Some turn_ok_def)

lemma edit_frame:
  "edit s c = Some s' \<Longrightarrow> transcript s' = transcript s \<and> revision s' = revision s
     \<and> status s' = status s \<and> selected s' = selected s"
  by (auto simp: edit_def)

lemma step_ok_edit:
  assumes "\<And>s'. transcript s' = transcript s \<Longrightarrow> revision s' = revision s \<Longrightarrow> status s' = status s \<Longrightarrow>
      rev_ok s (f s') \<and> status (f s') = status s"
    and "\<not> list_ex is_start es" and "CancelTurn \<notin> set es" and "Save \<notin> set es"
  shows "step_ok False s (map_option (\<lambda>s. (f s, es)) (edit s c))"
proof (cases "edit s c")
  case None
  then show ?thesis by simp
next
  case (Some s')
  with edit_frame [OF Some] assms show ?thesis by (auto intro!: step_ok_plain)
qed

lemma quiet_map [simp]: "quiet (map_option f x) = map_option (\<lambda>s. (f s, [])) x"
  by (simp add: quiet_def option.map_comp comp_def)

lemma step_ok_quiet_edit: "step_ok False s (quiet (edit s c))"
  using step_ok_edit [of s "\<lambda>s. s" "[]" c] by (simp add: quiet_def rev_ok_def)

lemma rev_ok_simps [simp]:
  "rev_ok s (disarm s') = rev_ok s s'"
  "rev_ok s (s'\<lparr>agent_name := ag\<rparr>) = rev_ok s s'"
  "rev_ok s (s'\<lparr>todo_visible := v\<rparr>) = rev_ok s s'"
  "rev_ok s (s'\<lparr>quit_armed := v\<rparr>) = rev_ok s s'"
  "rev_ok s (s'\<lparr>term_size := sz\<rparr>) = rev_ok s s'"
  "rev_ok s (s'\<lparr>tick := t\<rparr>) = rev_ok s s'"
  "rev_ok s (s'\<lparr>status := st\<rparr>) = rev_ok s s'"
  "rev_ok s (s'\<lparr>git_summary := g\<rparr>) = rev_ok s s'"
  "rev_ok s (s'\<lparr>selected := x\<rparr>) = rev_ok s s'"
  "rev_ok s (s'\<lparr>scroll := x'\<rparr>) = rev_ok s s'"
  by (simp_all add: rev_ok_def disarm_def)

lemma status_disarm [simp]: "status (disarm s) = status s"
  by (simp add: disarm_def)

lemma rev_ok_refl [simp]: "rev_ok s s"
  by (simp add: rev_ok_def)

lemma rev_ok_same: "transcript s' = transcript s \<Longrightarrow> revision s' = revision s \<Longrightarrow> rev_ok s s'"
  by (simp add: rev_ok_def)

lemma rev_ok_next: "revision s' = revision s + 1 \<Longrightarrow> rev_ok s s'"
  by (simp add: rev_ok_def)

lemma scroll_frame [simp]:
  "rev_ok s (scroll_by s n up)" "status (scroll_by s n up) = status s"
  "rev_ok s (scroll_page s n up)" "status (scroll_page s n up) = status s"
  "rev_ok s (scroll_follow s)" "status (scroll_follow s) = status s"
  "transcript (scroll_follow s) = transcript s" "revision (scroll_follow s) = revision s"
  by (simp_all add: scroll_page_def scroll_by_def scroll_follow_def Let_def)

lemma selection_frame [simp]:
  "rev_ok s (move_selection s f)" "status (move_selection s f) = status s"
  "rev_ok s (toggle_selected s)" "status (toggle_selected s) = status s"
  "rev_ok s (toggle_all_reasoning s)" "status (toggle_all_reasoning s) = status s"
  by (simp_all add: move_selection_def toggle_selected_def toggle_all_reasoning_def rev_ok_def
      Let_def split: option.split)

lemma step_ok_send: "\<not> is_running (status s) \<Longrightarrow> step_ok False s (send_message s text)"
  by (auto simp: send_message_def step_ok_def turn_ok_def rev_ok_def Let_def bind_Some_iff)

lemma step_ok_slash: "step_ok False s (slash_command s line)"
  by (auto simp: slash_command_def Let_def rev_ok_same rev_ok_next split: option.split prod.split
      intro!: step_ok_edit step_ok_edit [where f = "\<lambda>s. s"] step_ok_plain)

lemma step_ok_submit: "step_ok False s (submit s)"
  by (auto simp: submit_def Let_def rev_ok_next intro!: step_ok_send step_ok_slash step_ok_plain
      split: option.split)

lemma step_ok_ctrl_c: "step_ok False s (ctrl_c s)"
  by (auto simp: ctrl_c_def step_ok_Some turn_ok_def rev_ok_next rev_ok_same intro!: step_ok_edit)

lemma step_ok_key_char: "step_ok False s (key_char s ctl c)"
  by (auto simp: key_char_def ctrl_d_def rev_ok_same
      intro!: step_ok_ctrl_c step_ok_quiet_edit step_ok_edit step_ok_plain)

lemma step_ok_key: "step_ok False s (key_update s key)"
proof (cases "code key")
  case KEnd
  have "step_ok False (scroll_follow s) (quiet (edit (scroll_follow s) End))"
    by (rule step_ok_quiet_edit)
  with KEnd show ?thesis
    by (simp add: key_update_def step_ok_def rev_ok_def turn_ok_def)
qed (auto simp: key_update_def rev_ok_same
      intro!: step_ok_key_char step_ok_submit step_ok_quiet_edit step_ok_edit step_ok_plain)

lemma agent_update_frame:
  "rev_ok s (agent_update jtext s ev) \<and> status (agent_update jtext s ev) = status s"
  by (cases ev) (auto simp: Let_def rev_ok_next rev_ok_same split: option.split)

lemma step_ok_update: "step_ok (is_finish a) s (update jtext s a)"
proof (cases a)
  case (Key k)
  then show ?thesis by (simp add: step_ok_key)
next
  case (TurnFinished r)
  then show ?thesis
    by (cases r) (auto simp: Let_def step_ok_Some turn_ok_def rev_ok_same rev_ok_next)
qed (auto simp: agent_update_frame rev_ok_same intro!: step_ok_plain step_ok_edit
      split: mouse_kind.split)

lemma save_only_after_success:
  "update jtext s a = Some (s', es) \<Longrightarrow> Save \<in> set es \<longleftrightarrow> a = TurnFinished None"
  using step_ok_update [of a s jtext]
  by (cases a) (auto simp: step_ok_def Let_def split: option.splits)

section \<open>Effects of agent events on the transcript\<close>

fun is_call :: "ustring \<Rightarrow> transcript_item \<Rightarrow> bool" where
  "is_call eid (ToolCall tid _ _ _ _ _) = (tid = eid)"
| "is_call eid _ = False"

fun with_result :: "ustring \<Rightarrow> bool \<Rightarrow> transcript_item \<Rightarrow> transcript_item" where
  "with_result r er (ToolCall tid n a _ _ e) = ToolCall tid n a (Some r) er e"
| "with_result r er t = t"

text \<open>An item with the results of the calls of one id removed, at any depth.\<close>

fun forget_result :: "ustring \<Rightarrow> transcript_item \<Rightarrow> transcript_item" where
  "forget_result eid (ToolCall tid n a r er e) =
     (if tid = eid then ToolCall tid n a None False e else ToolCall tid n a r er e)"
| "forget_result eid (Subagent sid ag tk inner dn) =
     Subagent sid ag tk (map (forget_result eid) inner) dn"
| "forget_result eid t = t"

lemma attach_result_frame:
  "map (forget_result eid) (attach_result ts eid r er) = map (forget_result eid) ts"
  by (induction ts eid r er rule: attach_result.induct) auto

lemma attach_result_first:
  "find (is_call eid) (attach_result ts eid r er) = map_option (with_result r er) (find (is_call eid) ts)"
  by (induction ts eid r er rule: attach_result.induct) auto

text \<open>The sub-agents of an id, at any depth, that are not marked as done.\<close>

fun undone :: "ustring \<Rightarrow> transcript_item list \<Rightarrow> nat" where
  "undone eid [] = 0"
| "undone eid (Subagent sid ag tk inner dn # ts) =
     (if sid = eid \<and> \<not> dn then 1 else 0) + undone eid inner + undone eid ts"
| "undone eid (t # ts) = undone eid ts"

lemma mark_subagent_done_all: "undone eid (mark_subagent_done ts eid r) = 0"
  by (induction ts eid r rule: mark_subagent_done.induct) (auto simp: Let_def)

lemma push_token_closed:
  "push_token (close_open_blocks items) c = close_open_blocks items @ [Assistant c False]"
  using close_cases [of items]
  by (auto simp: push_token_def close_open_blocks_def split: list.split transcript_item.split bool.split)

section \<open>Properties\<close>


text \<open>
  C30: turn discipline. A step asks to start a turn only when none runs, and to cancel one only
  when one runs; and a turn runs after the step exactly if the step started it, or it ran
  before and the step neither cancelled it nor was the report of its end.
\<close>

theorem tui_turn_discipline:
  assumes "update jtext s a = Some (s', es)"
  shows "(is_running (status s') \<longleftrightarrow>
        list_ex is_start es \<or> (is_running (status s) \<and> CancelTurn \<notin> set es \<and> \<not> is_finish a))
    \<and> \<not> (list_ex is_start es \<and> is_running (status s))
    \<and> \<not> (CancelTurn \<in> set es \<and> \<not> is_running (status s))
    \<and> (Save \<in> set es \<longleftrightarrow> a = TurnFinished None)"
  using step_ok_update [of a s jtext] save_only_after_success [OF assms] assms
  by (auto simp: step_ok_def turn_ok_def)

definition demo_app :: app_state where
  "demo_app = (app_new [] [] None (80, 24))\<lparr>input := editor_new\<lparr>lines := [[104, 105]], cursor := (0, 2)\<rparr>\<rparr>"

definition enter_key :: key_event where
  "enter_key = \<lparr>code = KEnter, ctrl = False, alt = False\<rparr>"

lemma demo_submit:
  "update jtext demo_app (Key enter_key) =
     Some (demo_app\<lparr>transcript := [User [104, 105]],
             input := editor_new\<lparr>history := [[104, 105]]\<rparr>,
             status := Running 0, revision := 1\<rparr>, [StartTurn [104, 105]])"
proof -
  have t: "utrim [104, 105] = [104, 105]"
    by (simp add: trim_by_def trim_end_by_def is_white_def)
  have a: "apply_cmd (editor_new\<lparr>lines := [[104, 105]], cursor := (0, 2)\<rparr>) Clear = Some editor_new"
    by (simp add: apply_cmd_def ed_clear_def editor_new_def clamp_def Let_def)
  have u: "utf ''//'' = [47, 47]" "utf ''/'' = [47]"
    by (simp_all add: utf_def)
  show ?thesis
    by (simp add: key_update_def enter_key_def submit_def demo_app_def app_new_def editor_text_def
        t u send_message_def Let_def bump_def push_item_def scroll_follow_def scroll_default_def a
        push_history_def)
      (simp add: editor_new_def)
qed

theorem tui_turn_discipline_witness:
  "is_running (status (demo_app\<lparr>transcript := [User [104, 105]],
     input := editor_new\<lparr>history := [[104, 105]]\<rparr>, status := Running 0, revision := 1\<rparr>))"
  using tui_turn_discipline [OF demo_submit [of "\<lambda>_. []"]] by simp

text \<open>
  the revision number is a sound key for a cache of rendered lines: a step that changes the
  transcript, anywhere, advances it by one (modulo \<open>2 ^ 64\<close>), and a step never advances it by
  more.
\<close>

theorem tui_revision_tracks_transcript:
  assumes "update jtext s a = Some (s', es)"
  shows "revision s' = revision s + 1 \<or> (revision s' = revision s \<and> transcript s' = transcript s)"
  using step_ok_update [of a s jtext] assms
  by (auto simp: step_ok_def rev_ok_def)

theorem tui_revision_tracks_transcript_witness:
  "revision (demo_app\<lparr>transcript := [User [104, 105]],
     input := editor_new\<lparr>history := [[104, 105]]\<rparr>, status := Running 0, revision := 1\<rparr>)
   = revision demo_app + 1"
  using tui_revision_tracks_transcript [OF demo_submit [of "\<lambda>_. []"]]
  by (simp add: demo_app_def app_new_def)

text \<open>
  a tool result reaches the first call of its id at the level where it arrives, as its
  result and error flag, and changes nothing else than results of calls of that id, however
  deep the transcript is nested and whatever other calls it holds.
\<close>

theorem tui_attach_result:
  "find (is_call eid) (attach_result ts eid r er) = map_option (with_result r er) (find (is_call eid) ts)
   \<and> map (forget_result eid) (attach_result ts eid r er) = map (forget_result eid) ts
   \<and> length (attach_result ts eid r er) = length ts"
proof -
  have "length (map collapsible (attach_result ts eid r er)) = length (map collapsible ts)"
    by (simp only: kinds_attach)
  then show ?thesis
    using attach_result_first attach_result_frame by (simp only: length_map)
qed

text \<open>
  when a sub-agent ends, no sub-agent of its id, at any depth, is left running, the number of
  sub-agents is unchanged, and a non-empty result forms a block of its own after the blocks the
  sub-agent had produced, the last of them closed.
\<close>

theorem tui_subagent_end:
  "undone eid (mark_subagent_done ts eid r) = 0
   \<and> map collapsible (mark_subagent_done ts eid r) = map collapsible ts
   \<and> push_token (close_open_blocks inner) r = close_open_blocks inner @ [Assistant r False]"
  by (simp add: mark_subagent_done_all push_token_closed)

end
