(* ===== verification/CfgStore.thy ===== *)
theory CfgStore
  imports Prelude
begin

text \<open>
  The configuration domain of \<open>cfgstore/src/domain.rs\<close>, the errors of
  \<open>cfgstore/src/error.rs\<close>, the name rule of \<open>cfgstore/src/fs_store.rs\<close> and the helpers
  of \<open>cfgstore/src/store.rs\<close> that read JSON patches. Strings are byte strings. A temperature
  is kept as the JSON number it was given as; its rounding to \<open>f64\<close> is not modelled.
\<close>

section \<open>Layers and errors\<close>

datatype layer = Global | Workspace

datatype cfg_error =
    Config string
  | DuplicateName string string
  | UnknownReference string string
  | Io string
  | InvalidName string
  | NotFound string string layer
  | NameConflict string string layer
  | WriteError string
  | ReadOnly
  | Validation string

fun layer_debug :: "layer \<Rightarrow> string" where
  "layer_debug Global = ''Global''"
| "layer_debug Workspace = ''Workspace''"

definition squote :: "string \<Rightarrow> string" where
  "squote s = CHR 0x27 # s @ [CHR 0x27]"

fun cfg_error_display :: "cfg_error \<Rightarrow> string" where
  "cfg_error_display (Config m) = ''VNL-CFG-001: Configuration error: '' @ m"
| "cfg_error_display (DuplicateName k n) = ''VNL-CFG-002: Duplicate name '' @ squote n @ '' for '' @ k"
| "cfg_error_display (UnknownReference k n) = ''VNL-CFG-003: Unknown '' @ k @ '' reference: '' @ squote n"
| "cfg_error_display (Io m) = ''VNL-CFG-004: I/O error: '' @ m"
| "cfg_error_display (InvalidName n) = ''VNL-CFG-005: Invalid name: '' @ n"
| "cfg_error_display (NotFound k n l) =
     ''VNL-CFG-006: '' @ k @ '' '' @ squote n @ '' not found in '' @ layer_debug l @ '' layer''"
| "cfg_error_display (NameConflict k n l) =
     ''VNL-CFG-007: '' @ k @ '' '' @ squote n @ '' already exists in '' @ layer_debug l @ '' layer''"
| "cfg_error_display (WriteError m) = ''VNL-CFG-008: Write error: '' @ m"
| "cfg_error_display ReadOnly = ''VNL-CFG-009: Config store is read-only''"
| "cfg_error_display (Validation m) = ''VNL-CFG-010: Invalid value: '' @ m"

section \<open>Entities\<close>

datatype provider_type = Ollama | OpenaiCompatible

record provider =
  prov_name :: string
  prov_type :: provider_type
  prov_endpoint :: string
  prov_api_key :: "string option"

record model_profile =
  mp_name :: string
  mp_provider :: string
  mp_model :: string
  mp_temperature :: "string json option"
  mp_max_tokens :: "nat option"
  mp_options :: "(string \<times> string json) list"

datatype mcp_transport = HttpStreamable | Sse

record mcp_server =
  srv_name :: string
  srv_transport :: mcp_transport
  srv_url :: string
  srv_headers :: "(string \<times> string) list"

record mcp_selection =
  sel_server :: string
  sel_tools :: "string list"

record toolset =
  ts_name :: string
  ts_description :: "string option"
  ts_prompt :: "string option"
  ts_local_tools :: "string list"
  ts_mcp :: "mcp_selection list"

record skill_meta =
  sk_name :: string
  sk_description :: string

datatype agent_mode = Primary | Subagent | AllModes

datatype skill_selection = AutoSkills | NoSkills | NamedSkills "string list"

record agent =
  ag_name :: string
  ag_description :: "string option"
  ag_mode :: agent_mode
  ag_model :: string
  ag_toolsets :: "string list"
  ag_skills :: skill_selection
  ag_system_prompt :: string

section \<open>The wire form of a skill selection\<close>

fun skill_selection_ser :: "skill_selection \<Rightarrow> string json" where
  "skill_selection_ser AutoSkills = JStr ''auto''"
| "skill_selection_ser NoSkills = JStr ''none''"
| "skill_selection_ser (NamedSkills ns) = JArr (map JStr ns)"

text \<open>The visitor accepts a string or a sequence of strings; \<open>None\<close> is its error.\<close>

fun visit_names :: "string json list \<Rightarrow> string list option" where
  "visit_names [] = Some []"
| "visit_names (v # vs) =
     (case as_str v of None \<Rightarrow> None | Some s \<Rightarrow> map_option ((#) s) (visit_names vs))"

fun skill_selection_de :: "string json \<Rightarrow> skill_selection option" where
  "skill_selection_de (JStr s) =
     (if s = ''auto'' then Some AutoSkills else if s = ''none'' then Some NoSkills else None)"
| "skill_selection_de (JArr vs) = map_option NamedSkills (visit_names vs)"
| "skill_selection_de _ = None"

lemma visit_names_strings [simp]: "visit_names (map JStr ns) = Some ns"
  by (induction ns) auto

lemma visit_names_Some: "visit_names vs = Some ns \<Longrightarrow> vs = map JStr ns"
proof (induction vs arbitrary: ns)
  case (Cons v vs)
  then show ?case by (cases v) (auto split: option.splits)
qed simp

text \<open>
  A skill selection survives the wire: reading back what was written gives the same
  selection, and conversely every JSON value the reader accepts is exactly the one the writer
  produces for the selection read, so no two wire forms denote the same selection.
\<close>

theorem skill_selection_roundtrip:
  "skill_selection_de (skill_selection_ser s) = Some s
   \<and> (skill_selection_de j = Some t \<longleftrightarrow> j = skill_selection_ser t)"
proof -
  have r: "skill_selection_de (skill_selection_ser u) = Some u" for u by (cases u) auto
  have "skill_selection_de j = Some t \<Longrightarrow> j = skill_selection_ser t"
    by (cases j) (auto split: if_splits dest: visit_names_Some)
  with r show ?thesis by auto
qed

section \<open>Names\<close>

definition valid_name :: "string \<Rightarrow> bool" where
  "valid_name n \<longleftrightarrow> n \<noteq> [] \<and> length n \<le> 64 \<and> is_ascii_alnum (hd n)
     \<and> list_all (\<lambda>c. is_ascii_alnum c \<or> c = CHR ''.'' \<or> c = CHR ''_'' \<or> c = CHR ''-'') n
     \<and> \<not> has_infix ''..'' n"

definition validate_name :: "string \<Rightarrow> cfg_error + unit" where
  "validate_name n = (if valid_name n then Inr () else Inl (InvalidName n))"

text \<open>
  A name that passes \<open>validate_name\<close> is a single path component: it holds no slash, no
  backslash and no NUL byte, is neither \<open>.\<close> nor \<open>..\<close>, does not start with a dot and is
  between 1 and 64 bytes long, so joining it to a directory never leaves that directory.
\<close>

theorem validate_name_no_traversal:
  "validate_name n = Inr () \<Longrightarrow>
   CHR ''/'' \<notin> set n \<and> CHR 0x5C \<notin> set n \<and> CHR 0x00 \<notin> set n \<and> hd n \<noteq> CHR ''.''
   \<and> \<not> has_infix ''..'' n \<and> n \<noteq> [] \<and> length n \<le> 64"
  by (auto simp: validate_name_def valid_name_def is_ascii_alnum_def list_all_iff split: if_splits)

theorem validate_name_no_traversal_witness:
  "CHR ''/'' \<notin> set ''build.v2'' \<and> \<not> has_infix ''..'' ''build.v2''"
proof -
  have "validate_name ''build.v2'' = Inr ()" by code_simp
  then show ?thesis using validate_name_no_traversal [of "''build.v2''"] by simp
qed

section \<open>The store in memory\<close>

text \<open>
  The in-memory configuration store of \<open>cfgstore/src/store.rs\<close>. Every operation returns its
  result and the store it leaves, so that what an operation has already changed when it fails
  is visible. The three shapes the code repeats for each kind of entity (create, update,
  delete) are one function each, applied to the list of the kind.
\<close>

section \<open>Reading patches\<close>

definition must_be :: "string \<Rightarrow> string \<Rightarrow> string \<Rightarrow> cfg_error" where
  "must_be kind f what = Validation (kind @ '': '' @ squote f @ '' must be '' @ what)"

definition req_str :: "cfg_error \<Rightarrow> string json \<Rightarrow> cfg_error + string" where
  "req_str e v = (case as_str v of Some s \<Rightarrow> Inr s | None \<Rightarrow> Inl e)"

definition patch_str :: "string json \<Rightarrow> string \<Rightarrow> cfg_error + string" where
  "patch_str v ctx = req_str (Validation (ctx @ '' must be a string'')) v"

fun patch_names :: "string json list \<Rightarrow> string \<Rightarrow> cfg_error + string list" where
  "patch_names [] ctx = Inr []"
| "patch_names (x # xs) ctx =
     (case as_str x of
        None \<Rightarrow> Inl (Validation (ctx @ '' entries must be strings''))
      | Some s \<Rightarrow> map_sum id ((#) s) (patch_names xs ctx))"

definition patch_array_names :: "string json \<Rightarrow> string \<Rightarrow> cfg_error + string list" where
  "patch_array_names v ctx =
     (case as_arr v of
        None \<Rightarrow> Inl (Validation (ctx @ '' must be an array''))
      | Some xs \<Rightarrow> patch_names xs ctx)"

definition nullable :: "'a \<Rightarrow> (string json \<Rightarrow> cfg_error + 'a) \<Rightarrow> string json \<Rightarrow> cfg_error + 'a" where
  "nullable d f v = (if v = JNull then Inr d else f v)"

fun as_f64 :: "string json \<Rightarrow> string json option" where
  "as_f64 (JInt i) = Some (JInt i)"
| "as_f64 (JFloat m e) = Some (JFloat m e)"
| "as_f64 _ = None"

definition ok_or :: "'e \<Rightarrow> 'a option \<Rightarrow> 'e + 'a" where
  "ok_or e x = (case x of None \<Rightarrow> Inl e | Some y \<Rightarrow> Inr y)"

section \<open>The fields of each kind of entity\<close>

definition provider_field :: "string \<Rightarrow> string json \<Rightarrow> provider \<Rightarrow> cfg_error + provider" where
  "provider_field k v p =
     (if k = ''type'' then
        (case req_str (must_be ''provider'' k ''a string'') v of
           Inl e \<Rightarrow> Inl e
         | Inr t \<Rightarrow>
             if t = ''ollama'' then Inr (p\<lparr>prov_type := Ollama\<rparr>)
             else if t = ''openai-compatible'' then Inr (p\<lparr>prov_type := OpenaiCompatible\<rparr>)
             else Inl (Validation (''provider: unknown provider_type '' @ squote t)))
      else if k = ''endpoint'' then
        map_sum id (\<lambda>s. p\<lparr>prov_endpoint := s\<rparr>) (req_str (must_be ''provider'' k ''a string'') v)
      else if k = ''api_key'' then
        map_sum id (\<lambda>s. p\<lparr>prov_api_key := s\<rparr>)
          (nullable None (\<lambda>v. map_sum id Some (req_str (must_be ''provider'' k ''a string'') v)) v)
      else Inr p)"

definition model_field :: "string \<Rightarrow> string json \<Rightarrow> model_profile \<Rightarrow> cfg_error + model_profile" where
  "model_field k v m =
     (if k = ''provider'' then
        map_sum id (\<lambda>s. m\<lparr>mp_provider := s\<rparr>) (req_str (must_be ''model'' k ''a string'') v)
      else if k = ''model'' then
        map_sum id (\<lambda>s. m\<lparr>mp_model := s\<rparr>) (req_str (must_be ''model'' k ''a string'') v)
      else if k = ''temperature'' then
        map_sum id (\<lambda>t. m\<lparr>mp_temperature := t\<rparr>)
          (nullable None (\<lambda>v. map_sum id Some (ok_or (must_be ''model'' k ''a number'') (as_f64 v))) v)
      else if k = ''max_tokens'' then
        map_sum id (\<lambda>t. m\<lparr>mp_max_tokens := t\<rparr>)
          (nullable None (\<lambda>v. map_sum id Some (ok_or (must_be ''model'' k ''an integer'') (as_u64 v))) v)
      else if k = ''options'' then
        map_sum id (\<lambda>t. m\<lparr>mp_options := t\<rparr>)
          (nullable [] (\<lambda>v. ok_or (must_be ''model'' k ''an object'') (as_obj v)) v)
      else Inr m)"

definition string_members :: "(string \<times> string json) list \<Rightarrow> (string \<times> string) list" where
  "string_members ms = List.map_filter (\<lambda>(k, v). map_option (Pair k) (as_str v)) ms"

definition mcp_server_field :: "string \<Rightarrow> string json \<Rightarrow> mcp_server \<Rightarrow> cfg_error + mcp_server" where
  "mcp_server_field k v s =
     (if k = ''type'' then
        (case req_str (must_be ''mcp_server'' k ''a string'') v of
           Inl e \<Rightarrow> Inl e
         | Inr t \<Rightarrow>
             if t = ''http-streamable'' then Inr (s\<lparr>srv_transport := HttpStreamable\<rparr>)
             else if t = ''sse'' then Inr (s\<lparr>srv_transport := Sse\<rparr>)
             else Inl (Validation (''mcp_server: unknown transport '' @ squote t)))
      else if k = ''url'' then
        map_sum id (\<lambda>u. s\<lparr>srv_url := u\<rparr>) (req_str (must_be ''mcp_server'' k ''a string'') v)
      else if k = ''headers'' then
        map_sum id (\<lambda>h. s\<lparr>srv_headers := h\<rparr>)
          (nullable [] (\<lambda>v. map_sum id string_members
             (ok_or (must_be ''mcp_server'' k ''an object'') (as_obj v))) v)
      else Inr s)"

definition patch_selection :: "string json \<Rightarrow> cfg_error + mcp_selection" where
  "patch_selection item =
     (case Option.bind (jget ''server'' item) as_str of
        None \<Rightarrow> Inl (Validation (''toolset: '' @ squote ''mcp'' @ '' entry must have a string '' @ squote ''server''))
      | Some server \<Rightarrow>
          map_sum id (\<lambda>ts. \<lparr>sel_server = server, sel_tools = ts\<rparr>)
            (case jget ''tools'' item of
               None \<Rightarrow> Inr []
             | Some JNull \<Rightarrow> Inr []
             | Some t \<Rightarrow>
                 (case as_arr t of
                    None \<Rightarrow> Inl (Validation (''toolset: '' @ squote ''mcp'' @ '' entry '' @ squote ''tools'' @ '' must be an array''))
                  | Some xs \<Rightarrow> patch_names xs (''toolset: '' @ squote ''mcp'' @ '' entry tools''))))"

fun patch_selections :: "string json list \<Rightarrow> cfg_error + mcp_selection list" where
  "patch_selections [] = Inr []"
| "patch_selections (x # xs) =
     (case patch_selection x of
        Inl e \<Rightarrow> Inl e
      | Inr s \<Rightarrow> map_sum id ((#) s) (patch_selections xs))"

definition toolset_field :: "string \<Rightarrow> string json \<Rightarrow> toolset \<Rightarrow> cfg_error + toolset" where
  "toolset_field k v t =
     (let ctx = ''toolset: '' @ squote k in
      if k = ''description'' then
        map_sum id (\<lambda>d. t\<lparr>ts_description := d\<rparr>) (nullable None (\<lambda>v. map_sum id Some (patch_str v ctx)) v)
      else if k = ''prompt'' then
        map_sum id (\<lambda>d. t\<lparr>ts_prompt := d\<rparr>) (nullable None (\<lambda>v. map_sum id Some (patch_str v ctx)) v)
      else if k = ''local_tools'' then
        map_sum id (\<lambda>d. t\<lparr>ts_local_tools := d\<rparr>) (nullable [] (\<lambda>v. patch_array_names v ctx) v)
      else if k = ''mcp'' then
        map_sum id (\<lambda>d. t\<lparr>ts_mcp := d\<rparr>)
          (nullable [] (\<lambda>v. case ok_or (must_be ''toolset'' k ''an array'') (as_arr v) of
             Inl e \<Rightarrow> Inl e | Inr xs \<Rightarrow> patch_selections xs) v)
      else Inr t)"

definition patch_skills :: "string json \<Rightarrow> cfg_error + skill_selection" where
  "patch_skills v =
     (if v = JStr ''auto'' then Inr AutoSkills
      else if v = JStr ''none'' then Inr NoSkills
      else case as_arr v of
        Some xs \<Rightarrow> map_sum id NamedSkills (patch_names xs (''agent: '' @ squote ''skills''))
      | None \<Rightarrow> Inl (Validation (''agent: '' @ squote ''skills'' @ '' must be '' @ squote ''auto''
                 @ '', '' @ squote ''none'' @ '' or an array'')))"

definition agent_field :: "string \<Rightarrow> string json \<Rightarrow> agent \<Rightarrow> cfg_error + agent" where
  "agent_field k v a =
     (let ctx = ''agent: '' @ squote k in
      if k = ''description'' then
        map_sum id (\<lambda>d. a\<lparr>ag_description := d\<rparr>) (nullable None (\<lambda>v. map_sum id Some (patch_str v ctx)) v)
      else if k = ''mode'' then
        (case patch_str v ctx of
           Inl e \<Rightarrow> Inl e
         | Inr m \<Rightarrow>
             if m = ''primary'' then Inr (a\<lparr>ag_mode := Primary\<rparr>)
             else if m = ''subagent'' then Inr (a\<lparr>ag_mode := Subagent\<rparr>)
             else if m = ''all'' then Inr (a\<lparr>ag_mode := AllModes\<rparr>)
             else Inl (Validation (''agent: unknown mode '' @ squote m)))
      else if k = ''model'' then map_sum id (\<lambda>s. a\<lparr>ag_model := s\<rparr>) (patch_str v ctx)
      else if k = ''toolsets'' then
        map_sum id (\<lambda>d. a\<lparr>ag_toolsets := d\<rparr>) (nullable [] (\<lambda>v. patch_array_names v ctx) v)
      else if k = ''skills'' then
        map_sum id (\<lambda>d. a\<lparr>ag_skills := d\<rparr>) (nullable AutoSkills patch_skills v)
      else if k = ''system_prompt'' then map_sum id (\<lambda>s. a\<lparr>ag_system_prompt := s\<rparr>) (patch_str v ctx)
      else Inr a)"

text \<open>A skill's patch reaches its description and its body, kept in another map.\<close>

definition skill_field :: "string \<Rightarrow> string json \<Rightarrow> skill_meta \<times> string option \<Rightarrow> cfg_error + skill_meta \<times> string option" where
  "skill_field k v s =
     (if k = ''description'' then
        map_sum id (\<lambda>d. ((fst s)\<lparr>sk_description := d\<rparr>, snd s)) (req_str (must_be ''skill'' k ''a string'') v)
      else if k = ''body'' then
        map_sum id (\<lambda>b. (fst s, Some b)) (req_str (must_be ''skill'' k ''a string'') v)
      else Inr s)"

section \<open>The shapes of the operations\<close>

text \<open>
  The members of a patch are applied one after the other to the item in place: an error stops
  the loop and what the earlier members changed stays.
\<close>

fun patch_fields :: "(string \<Rightarrow> string json \<Rightarrow> 'a \<Rightarrow> cfg_error + 'a) \<Rightarrow> (string \<times> string json) list \<Rightarrow> 'a
    \<Rightarrow> (cfg_error + unit) \<times> 'a" where
  "patch_fields f [] x = (Inr (), x)"
| "patch_fields f ((k, v) # ms) x =
     (case f k v x of Inl e \<Rightarrow> (Inl e, x) | Inr y \<Rightarrow> patch_fields f ms y)"

definition create_in :: "('a \<Rightarrow> string) \<Rightarrow> string \<Rightarrow> layer \<Rightarrow> 'a \<Rightarrow> 'a list \<Rightarrow> (cfg_error + unit) \<times> 'a list" where
  "create_in nm kind l x xs =
     (case validate_name (nm x) of
        Inl e \<Rightarrow> (Inl e, xs)
      | Inr _ \<Rightarrow>
          if list_ex (\<lambda>y. nm y = nm x) xs then (Inl (NameConflict kind (nm x) l), xs)
          else (Inr (), xs @ [x]))"

fun update_first :: "('a \<Rightarrow> bool) \<Rightarrow> ('a \<Rightarrow> (cfg_error + unit) \<times> 'a) \<Rightarrow> cfg_error \<Rightarrow> 'a list
    \<Rightarrow> (cfg_error + unit) \<times> 'a list" where
  "update_first P f e [] = (Inl e, [])"
| "update_first P f e (x # xs) =
     (if P x then (case f x of (r, y) \<Rightarrow> (r, y # xs))
      else (case update_first P f e xs of (r, ys) \<Rightarrow> (r, x # ys)))"

definition patch_item :: "(string \<Rightarrow> string json \<Rightarrow> 'a \<Rightarrow> cfg_error + 'a) \<Rightarrow> string json \<Rightarrow> 'a \<Rightarrow> (cfg_error + unit) \<times> 'a" where
  "patch_item f patch x =
     (case as_obj patch of
        None \<Rightarrow> (Inl (Config ''update patch must be a JSON object''), x)
      | Some ms \<Rightarrow> patch_fields f ms x)"

definition update_in :: "('a \<Rightarrow> string) \<Rightarrow> string \<Rightarrow> (string \<Rightarrow> string json \<Rightarrow> 'a \<Rightarrow> cfg_error + 'a) \<Rightarrow> layer
    \<Rightarrow> string \<Rightarrow> string json \<Rightarrow> 'a list \<Rightarrow> (cfg_error + unit) \<times> 'a list" where
  "update_in nm kind f l n patch xs =
     (case validate_name n of
        Inl e \<Rightarrow> (Inl e, xs)
      | Inr _ \<Rightarrow> update_first (\<lambda>x. nm x = n) (patch_item f patch) (NotFound kind n l) xs)"

fun remove_first :: "('a \<Rightarrow> bool) \<Rightarrow> 'a list \<Rightarrow> 'a list" where
  "remove_first P [] = []"
| "remove_first P (x # xs) = (if P x then xs else x # remove_first P xs)"

definition delete_in :: "('a \<Rightarrow> string) \<Rightarrow> string \<Rightarrow> layer \<Rightarrow> string \<Rightarrow> 'a list \<Rightarrow> (cfg_error + unit) \<times> 'a list" where
  "delete_in nm kind l n xs =
     (case validate_name n of
        Inl e \<Rightarrow> (Inl e, xs)
      | Inr _ \<Rightarrow>
          if list_ex (\<lambda>x. nm x = n) xs then (Inr (), remove_first (\<lambda>x. nm x = n) xs)
          else (Inl (NotFound kind n l), xs))"

text \<open>\<open>resolve_by_name\<close>: none is an unknown reference, two are a duplicate.\<close>

definition resolve_by_name :: "('a \<Rightarrow> string) \<Rightarrow> 'a list \<Rightarrow> string \<Rightarrow> string \<Rightarrow> cfg_error + 'a" where
  "resolve_by_name nm xs kind n =
     (case filter (\<lambda>x. nm x = n) xs of
        [] \<Rightarrow> Inl (UnknownReference kind n)
      | [x] \<Rightarrow> Inr x
      | _ \<Rightarrow> Inl (DuplicateName kind n))"

section \<open>The store\<close>

record cfg_store =
  cs_providers :: "provider list"
  cs_models :: "model_profile list"
  cs_mcp_servers :: "mcp_server list"
  cs_toolsets :: "toolset list"
  cs_agents :: "agent list"
  cs_skills :: "skill_meta list"
  cs_skill_bodies :: "string \<Rightarrow> string option"
  cs_default_agent :: "string option"

type_synonym cfg_result = "(cfg_error + unit) \<times> cfg_store"

definition cfg_new :: cfg_store where
  "cfg_new = \<lparr>cs_providers = [], cs_models = [], cs_mcp_servers = [], cs_toolsets = [],
     cs_agents = [], cs_skills = [], cs_skill_bodies = (\<lambda>_. None), cs_default_agent = None\<rparr>"

definition get_provider :: "cfg_store \<Rightarrow> string \<Rightarrow> cfg_error + provider" where
  "get_provider s n = resolve_by_name prov_name (cs_providers s) ''provider'' n"

definition get_model :: "cfg_store \<Rightarrow> string \<Rightarrow> cfg_error + model_profile" where
  "get_model s n = resolve_by_name mp_name (cs_models s) ''model'' n"

definition get_mcp_server :: "cfg_store \<Rightarrow> string \<Rightarrow> cfg_error + mcp_server" where
  "get_mcp_server s n = resolve_by_name srv_name (cs_mcp_servers s) ''mcp_server'' n"

definition get_toolset :: "cfg_store \<Rightarrow> string \<Rightarrow> cfg_error + toolset" where
  "get_toolset s n = resolve_by_name ts_name (cs_toolsets s) ''toolset'' n"

definition get_agent :: "cfg_store \<Rightarrow> string \<Rightarrow> cfg_error + agent" where
  "get_agent s n = resolve_by_name ag_name (cs_agents s) ''agent'' n"

definition get_skill :: "cfg_store \<Rightarrow> string \<Rightarrow> cfg_error + skill_meta" where
  "get_skill s n = resolve_by_name sk_name (cs_skills s) ''skill'' n"

definition load_skill :: "cfg_store \<Rightarrow> string \<Rightarrow> cfg_error + string" where
  "load_skill s n = ok_or (UnknownReference ''skill'' n) (cs_skill_bodies s n)"

definition create_provider :: "layer \<Rightarrow> provider \<Rightarrow> cfg_store \<Rightarrow> cfg_result" where
  "create_provider l x s =
     (case create_in prov_name ''provider'' l x (cs_providers s) of (r, xs) \<Rightarrow> (r, s\<lparr>cs_providers := xs\<rparr>))"

definition update_provider :: "layer \<Rightarrow> string \<Rightarrow> string json \<Rightarrow> cfg_store \<Rightarrow> cfg_result" where
  "update_provider l n patch s =
     (case update_in prov_name ''provider'' provider_field l n patch (cs_providers s) of (r, xs) \<Rightarrow> (r, s\<lparr>cs_providers := xs\<rparr>))"

definition delete_provider :: "layer \<Rightarrow> string \<Rightarrow> cfg_store \<Rightarrow> cfg_result" where
  "delete_provider l n s =
     (case delete_in prov_name ''provider'' l n (cs_providers s) of (r, xs) \<Rightarrow> (r, s\<lparr>cs_providers := xs\<rparr>))"

definition create_model :: "layer \<Rightarrow> model_profile \<Rightarrow> cfg_store \<Rightarrow> cfg_result" where
  "create_model l x s =
     (case create_in mp_name ''model'' l x (cs_models s) of (r, xs) \<Rightarrow> (r, s\<lparr>cs_models := xs\<rparr>))"

definition update_model :: "layer \<Rightarrow> string \<Rightarrow> string json \<Rightarrow> cfg_store \<Rightarrow> cfg_result" where
  "update_model l n patch s =
     (case update_in mp_name ''model'' model_field l n patch (cs_models s) of (r, xs) \<Rightarrow> (r, s\<lparr>cs_models := xs\<rparr>))"

definition delete_model :: "layer \<Rightarrow> string \<Rightarrow> cfg_store \<Rightarrow> cfg_result" where
  "delete_model l n s =
     (case delete_in mp_name ''model'' l n (cs_models s) of (r, xs) \<Rightarrow> (r, s\<lparr>cs_models := xs\<rparr>))"

definition create_mcp_server :: "layer \<Rightarrow> mcp_server \<Rightarrow> cfg_store \<Rightarrow> cfg_result" where
  "create_mcp_server l x s =
     (case create_in srv_name ''mcp_server'' l x (cs_mcp_servers s) of (r, xs) \<Rightarrow> (r, s\<lparr>cs_mcp_servers := xs\<rparr>))"

definition update_mcp_server :: "layer \<Rightarrow> string \<Rightarrow> string json \<Rightarrow> cfg_store \<Rightarrow> cfg_result" where
  "update_mcp_server l n patch s =
     (case update_in srv_name ''mcp_server'' mcp_server_field l n patch (cs_mcp_servers s) of (r, xs) \<Rightarrow> (r, s\<lparr>cs_mcp_servers := xs\<rparr>))"

definition delete_mcp_server :: "layer \<Rightarrow> string \<Rightarrow> cfg_store \<Rightarrow> cfg_result" where
  "delete_mcp_server l n s =
     (case delete_in srv_name ''mcp_server'' l n (cs_mcp_servers s) of (r, xs) \<Rightarrow> (r, s\<lparr>cs_mcp_servers := xs\<rparr>))"

definition create_toolset :: "layer \<Rightarrow> toolset \<Rightarrow> cfg_store \<Rightarrow> cfg_result" where
  "create_toolset l x s =
     (case create_in ts_name ''toolset'' l x (cs_toolsets s) of (r, xs) \<Rightarrow> (r, s\<lparr>cs_toolsets := xs\<rparr>))"

definition update_toolset :: "layer \<Rightarrow> string \<Rightarrow> string json \<Rightarrow> cfg_store \<Rightarrow> cfg_result" where
  "update_toolset l n patch s =
     (case update_in ts_name ''toolset'' toolset_field l n patch (cs_toolsets s) of (r, xs) \<Rightarrow> (r, s\<lparr>cs_toolsets := xs\<rparr>))"

definition delete_toolset :: "layer \<Rightarrow> string \<Rightarrow> cfg_store \<Rightarrow> cfg_result" where
  "delete_toolset l n s =
     (case delete_in ts_name ''toolset'' l n (cs_toolsets s) of (r, xs) \<Rightarrow> (r, s\<lparr>cs_toolsets := xs\<rparr>))"

definition create_agent :: "layer \<Rightarrow> agent \<Rightarrow> cfg_store \<Rightarrow> cfg_result" where
  "create_agent l x s =
     (case create_in ag_name ''agent'' l x (cs_agents s) of (r, xs) \<Rightarrow> (r, s\<lparr>cs_agents := xs\<rparr>))"

definition update_agent :: "layer \<Rightarrow> string \<Rightarrow> string json \<Rightarrow> cfg_store \<Rightarrow> cfg_result" where
  "update_agent l n patch s =
     (case update_in ag_name ''agent'' agent_field l n patch (cs_agents s) of (r, xs) \<Rightarrow> (r, s\<lparr>cs_agents := xs\<rparr>))"

definition delete_agent :: "layer \<Rightarrow> string \<Rightarrow> cfg_store \<Rightarrow> cfg_result" where
  "delete_agent l n s =
     (case delete_in ag_name ''agent'' l n (cs_agents s) of (r, xs) \<Rightarrow> (r, s\<lparr>cs_agents := xs\<rparr>))"

text \<open>Skills: the index and the bodies. The patch is checked to be an object before the skill is looked up.\<close>

definition create_skill :: "layer \<Rightarrow> skill_meta \<Rightarrow> string \<Rightarrow> cfg_store \<Rightarrow> cfg_result" where
  "create_skill l m body s =
     (case create_in sk_name ''skill'' l m (cs_skills s) of
        (Inl e, _) \<Rightarrow> (Inl e, s)
      | (Inr _, xs) \<Rightarrow>
          (Inr (), s\<lparr>cs_skills := xs, cs_skill_bodies := (cs_skill_bodies s)(sk_name m \<mapsto> body)\<rparr>))"

fun update_skill_items :: "string \<Rightarrow> (string \<times> string json) list \<Rightarrow> cfg_error \<Rightarrow> string option \<Rightarrow> skill_meta list
    \<Rightarrow> (cfg_error + unit) \<times> string option \<times> skill_meta list" where
  "update_skill_items n ms e b [] = (Inl e, b, [])"
| "update_skill_items n ms e b (x # xs) =
     (if sk_name x = n
      then (case patch_fields skill_field ms (x, b) of (r, y, b') \<Rightarrow> (r, b', y # xs))
      else (case update_skill_items n ms e b xs of (r, b', ys) \<Rightarrow> (r, b', x # ys)))"

definition update_skill :: "layer \<Rightarrow> string \<Rightarrow> string json \<Rightarrow> cfg_store \<Rightarrow> cfg_result" where
  "update_skill l n patch s =
     (case validate_name n of
        Inl e \<Rightarrow> (Inl e, s)
      | Inr _ \<Rightarrow>
          (case as_obj patch of
             None \<Rightarrow> (Inl (Config ''update patch must be a JSON object''), s)
           | Some ms \<Rightarrow>
               (case update_skill_items n ms (NotFound ''skill'' n l) (cs_skill_bodies s n) (cs_skills s) of
                  (r, b, xs) \<Rightarrow>
                    (r, s\<lparr>cs_skills := xs, cs_skill_bodies := (cs_skill_bodies s)(n := b)\<rparr>))))"

definition delete_skill :: "layer \<Rightarrow> string \<Rightarrow> cfg_store \<Rightarrow> cfg_result" where
  "delete_skill l n s =
     (case delete_in sk_name ''skill'' l n (cs_skills s) of
        (Inl e, _) \<Rightarrow> (Inl e, s)
      | (Inr _, xs) \<Rightarrow>
          (Inr (), s\<lparr>cs_skills := xs, cs_skill_bodies := (cs_skill_bodies s)(n := None)\<rparr>))"

definition set_default_agent :: "layer \<Rightarrow> string \<Rightarrow> cfg_store \<Rightarrow> cfg_result" where
  "set_default_agent l n s = (Inr (), s\<lparr>cs_default_agent := Some n\<rparr>)"

end
