(* ===== verification/CfgStoreProps.thy ===== *)
theory CfgStoreProps
  imports CfgStore
begin

text \<open>
  The contract of a collection of named items, as a locale over the three operations and the
  list they change, its consequences for lookups by name, the interpretation of the contract on
  each of the six kinds of entity of the store, and the invariant of the whole store.
\<close>

section \<open>The contract of a named collection\<close>

locale named_store =
  fixes items :: "'s \<Rightarrow> 'a list"
    and nm :: "'a \<Rightarrow> string"
    and kind :: string
    and mk :: "layer \<Rightarrow> 'a \<Rightarrow> 's \<Rightarrow> (cfg_error + unit) \<times> 's"
    and upd :: "layer \<Rightarrow> string \<Rightarrow> string json \<Rightarrow> 's \<Rightarrow> (cfg_error + unit) \<times> 's"
    and del :: "layer \<Rightarrow> string \<Rightarrow> 's \<Rightarrow> (cfg_error + unit) \<times> 's"
  assumes mk_result: "fst (mk l x s) =
      (if \<not> valid_name (nm x) then Inl (InvalidName (nm x))
       else if nm x \<in> nm ` set (items s) then Inl (NameConflict kind (nm x) l) else Inr ())"
    and mk_items: "items (snd (mk l x s)) =
      (if fst (mk l x s) = Inr () then items s @ [x] else items s)"
    and upd_names: "map nm (items (snd (upd l n p s))) = map nm (items s)"
    and upd_others: "filter (\<lambda>y. nm y \<noteq> n) (items (snd (upd l n p s))) = filter (\<lambda>y. nm y \<noteq> n) (items s)"
    and upd_ok: "fst (upd l n p s) = Inr () \<Longrightarrow> n \<in> nm ` set (items s)"
    and del_result: "fst (del l n s) =
      (if \<not> valid_name n then Inl (InvalidName n)
       else if n \<in> nm ` set (items s) then Inr () else Inl (NotFound kind n l))"
    and del_items: "items (snd (del l n s)) =
      (if fst (del l n s) = Inr () then remove_first (\<lambda>y. nm y = n) (items s) else items s)"
begin

definition names_ok :: "'s \<Rightarrow> bool" where
  "names_ok s \<longleftrightarrow> distinct (map nm (items s)) \<and> list_all valid_name (map nm (items s))"

definition lookup :: "'s \<Rightarrow> string \<Rightarrow> cfg_error + 'a" where
  "lookup s n = resolve_by_name nm (items s) kind n"

lemma filter_all_names: "n \<notin> nm ` set xs \<Longrightarrow> filter (\<lambda>y. nm y = n) xs = []"
  by (auto simp: filter_empty_conv)

lemma filter_one_name: "distinct (map nm xs) \<Longrightarrow> x \<in> set xs \<Longrightarrow> filter (\<lambda>y. nm y = nm x) xs = [x]"
proof (induction xs)
  case (Cons y ys)
  then show ?case
    by (cases "x = y") (auto simp: filter_empty_conv rev_image_eqI)
qed simp

lemma lookup_filter_cong:
  "filter (\<lambda>y. nm y = m) (items s) = filter (\<lambda>y. nm y = m) (items t) \<Longrightarrow> lookup s m = lookup t m"
  by (simp add: lookup_def resolve_by_name_def)

lemma lookup_absent: "n \<notin> nm ` set (items s) \<Longrightarrow> lookup s n = Inl (UnknownReference kind n)"
  by (simp add: lookup_def resolve_by_name_def filter_all_names)

lemma lookup_present:
  "names_ok s \<Longrightarrow> x \<in> set (items s) \<Longrightarrow> nm x = n \<Longrightarrow> lookup s n = Inr x"
  using filter_one_name [of "items s" x] by (simp add: names_ok_def lookup_def resolve_by_name_def)

lemma lookup_cases:
  assumes "names_ok s"
  shows "lookup s n = (if n \<in> nm ` set (items s) then lookup s n else Inl (UnknownReference kind n))
    \<and> (n \<in> nm ` set (items s) \<longleftrightarrow> (\<exists>x. lookup s n = Inr x))"
  using lookup_present [OF assms] lookup_absent by fastforce

lemma lookup_never_duplicate: "names_ok s \<Longrightarrow> lookup s n \<noteq> Inl (DuplicateName k m)"
  using lookup_present [of s] lookup_absent [of n s] by fastforce

lemma mk_names_ok: "names_ok s \<Longrightarrow> names_ok (snd (mk l x s))"
  by (auto simp: names_ok_def mk_items mk_result)

lemma upd_names_ok: "names_ok s \<Longrightarrow> names_ok (snd (upd l n p s))"
  by (simp add: names_ok_def upd_names)

lemma remove_first_map: "map nm (remove_first (\<lambda>y. nm y = n) xs) = remove1 n (map nm xs)"
  by (induction xs) auto

lemma del_names_ok: "names_ok s \<Longrightarrow> names_ok (snd (del l n s))"
  unfolding names_ok_def del_items list_all_iff
  by (cases "fst (del l n s) = Inr ()") (auto simp: remove_first_map simp del: set_map dest: notin_set_remove1)

lemma mk_lookup:
  assumes "names_ok s" and "fst (mk l x s) = Inr ()"
  shows "lookup (snd (mk l x s)) (nm x) = Inr x"
    and "lookup s (nm x) = Inl (UnknownReference kind (nm x))"
    and "m \<noteq> nm x \<Longrightarrow> lookup (snd (mk l x s)) m = lookup s m"
proof -
  have i: "items (snd (mk l x s)) = items s @ [x]" and n: "nm x \<notin> nm ` set (items s)"
    using assms(2) by (auto simp: mk_items mk_result split: if_splits)
  show "lookup (snd (mk l x s)) (nm x) = Inr x"
    using lookup_present [OF mk_names_ok [OF assms(1)], of x l x] i by simp
  show "lookup s (nm x) = Inl (UnknownReference kind (nm x))"
    by (rule lookup_absent [OF n])
  show "m \<noteq> nm x \<Longrightarrow> lookup (snd (mk l x s)) m = lookup s m"
    by (rule lookup_filter_cong) (simp add: i)
qed

lemma remove_first_filter:
  "filter (\<lambda>y. nm y = m) (remove_first (\<lambda>y. nm y = n) xs) =
     (if m = n then remove_first (\<lambda>y. nm y = n) (filter (\<lambda>y. nm y = m) xs) else filter (\<lambda>y. nm y = m) xs)"
  by (induction xs) auto

lemma del_lookup:
  assumes "names_ok s" and "fst (del l n s) = Inr ()"
  shows "lookup (snd (del l n s)) n = Inl (UnknownReference kind n)"
    and "m \<noteq> n \<Longrightarrow> lookup (snd (del l n s)) m = lookup s m"
proof -
  have i: "items (snd (del l n s)) = remove_first (\<lambda>y. nm y = n) (items s)"
    using assms(2) by (simp add: del_items)
  have "n \<notin> set (remove1 n (map nm (items s)))"
    using assms(1) by (simp add: names_ok_def)
  then show "lookup (snd (del l n s)) n = Inl (UnknownReference kind n)"
    by (intro lookup_absent) (metis i remove_first_map list.set_map)
  show "m \<noteq> n \<Longrightarrow> lookup (snd (del l n s)) m = lookup s m"
    by (rule lookup_filter_cong) (simp add: i remove_first_filter)
qed

lemma upd_lookup_other:
  assumes "m \<noteq> n" shows "lookup (snd (upd l n p s)) m = lookup s m"
proof (rule lookup_filter_cong)
  have f: "filter (\<lambda>y. nm y = m) xs = filter (\<lambda>y. nm y = m) (filter (\<lambda>y. nm y \<noteq> n) xs)" for xs
    using assms by (auto intro!: filter_cong)
  show "filter (\<lambda>y. nm y = m) (items (snd (upd l n p s))) = filter (\<lambda>y. nm y = m) (items s)"
    using upd_others f by metis
qed

lemma failed_mk_del:
  "fst (mk l x s) = Inl e \<Longrightarrow> items (snd (mk l x s)) = items s"
  "fst (del l n s) = Inl e \<Longrightarrow> items (snd (del l n s)) = items s"
  by (simp_all add: mk_items del_items)

end

section \<open>The shapes of the operations satisfy the contract\<close>

lemma create_in_result:
  "fst (create_in nm kind l x xs) =
     (if \<not> valid_name (nm x) then Inl (InvalidName (nm x))
      else if nm x \<in> nm ` set xs then Inl (NameConflict kind (nm x) l) else Inr ())"
  "snd (create_in nm kind l x xs) = (if fst (create_in nm kind l x xs) = Inr () then xs @ [x] else xs)"
  by (auto simp: create_in_def validate_name_def list_ex_iff image_iff)

lemma delete_in_result:
  "fst (delete_in nm kind l n xs) =
     (if \<not> valid_name n then Inl (InvalidName n)
      else if n \<in> nm ` set xs then Inr () else Inl (NotFound kind n l))"
  "snd (delete_in nm kind l n xs) =
     (if fst (delete_in nm kind l n xs) = Inr () then remove_first (\<lambda>y. nm y = n) xs else xs)"
  by (auto simp: delete_in_def validate_name_def list_ex_iff image_iff)

text \<open>A field function that never touches the name.\<close>

definition keeps_name :: "('a \<Rightarrow> string) \<Rightarrow> (string \<Rightarrow> string json \<Rightarrow> 'a \<Rightarrow> cfg_error + 'a) \<Rightarrow> bool" where
  "keeps_name nm f \<longleftrightarrow> (\<forall>k v x y. f k v x = Inr y \<longrightarrow> nm y = nm x)"

lemma patch_fields_name: "keeps_name nm f \<Longrightarrow> nm (snd (patch_fields f ms x)) = nm x"
  by (induction f ms x rule: patch_fields.induct) (auto simp: keeps_name_def split: sum.splits)

lemma patch_item_name: "keeps_name nm f \<Longrightarrow> nm (snd (patch_item f p x)) = nm x"
  by (simp add: patch_item_def patch_fields_name split: option.split)

lemma update_first_names:
  "(\<And>x. nm (snd (g x)) = nm x) \<Longrightarrow> map nm (snd (update_first P g e xs)) = map nm xs"
  by (induction xs) (auto split: prod.splits, metis snd_conv)

lemma update_first_others:
  "(\<And>x. nm (snd (g x)) = nm x) \<Longrightarrow>
   filter (\<lambda>y. nm y \<noteq> n) (snd (update_first (\<lambda>x. nm x = n) g e xs)) = filter (\<lambda>y. nm y \<noteq> n) xs"
  by (induction xs) (auto split: prod.splits, (metis snd_conv)+)

lemma update_first_ok:
  "fst (update_first P g (NotFound k n l) xs) = Inr () \<Longrightarrow> \<exists>x \<in> set xs. P x"
  by (induction xs) (auto split: prod.splits if_splits)

lemma update_in_laws:
  assumes "keeps_name nm f"
  shows "map nm (snd (update_in nm kind f l n p xs)) = map nm xs"
    and "filter (\<lambda>y. nm y \<noteq> n) (snd (update_in nm kind f l n p xs)) = filter (\<lambda>y. nm y \<noteq> n) xs"
    and "fst (update_in nm kind f l n p xs) = Inr () \<Longrightarrow> n \<in> nm ` set xs"
  using update_first_names [of nm "patch_item f p", OF patch_item_name [OF assms]]
    update_first_others [of nm "patch_item f p", OF patch_item_name [OF assms]]
    update_first_ok [of "\<lambda>x. nm x = n" "patch_item f p" kind n l xs]
  by (auto simp: update_in_def validate_name_def split: if_splits)

lemma map_sum_id_Inr [simp]: "map_sum id f r = Inr y \<longleftrightarrow> (\<exists>x. r = Inr x \<and> y = f x)"
  by (cases r) auto

lemma keeps_name_if:
  "(c \<Longrightarrow> r = Inr y \<Longrightarrow> nm y = nm x) \<Longrightarrow> (\<not> c \<Longrightarrow> r' = Inr y \<Longrightarrow> nm y = nm x)
   \<Longrightarrow> (if c then r else r') = Inr y \<Longrightarrow> nm y = nm x"
  by (simp split: if_splits)

lemma provider_keeps_name: "keeps_name prov_name provider_field"
  unfolding keeps_name_def provider_field_def
  by (intro allI impI, elim keeps_name_if [rotated 2]; auto split: sum.splits if_splits)

lemma model_keeps_name: "keeps_name mp_name model_field"
  unfolding keeps_name_def model_field_def
  by (intro allI impI, elim keeps_name_if [rotated 2]; auto)

lemma mcp_server_keeps_name: "keeps_name srv_name mcp_server_field"
  unfolding keeps_name_def mcp_server_field_def
  by (intro allI impI, elim keeps_name_if [rotated 2]; auto split: sum.splits if_splits)

lemma toolset_keeps_name: "keeps_name ts_name toolset_field"
  unfolding keeps_name_def toolset_field_def Let_def
  by (intro allI impI, elim keeps_name_if [rotated 2]; auto)

lemma agent_keeps_name: "keeps_name ag_name agent_field"
  unfolding keeps_name_def agent_field_def Let_def
  by (intro allI impI, elim keeps_name_if [rotated 2]; auto split: sum.splits if_splits)

section \<open>The six collections of the store\<close>

lemma provider_ops:
  "fst (create_provider l x s) = fst (create_in prov_name ''provider'' l x (cs_providers s))"
  "cs_providers (snd (create_provider l x s)) = snd (create_in prov_name ''provider'' l x (cs_providers s))"
  "fst (update_provider l n p s) = fst (update_in prov_name ''provider'' provider_field l n p (cs_providers s))"
  "cs_providers (snd (update_provider l n p s)) = snd (update_in prov_name ''provider'' provider_field l n p (cs_providers s))"
  "fst (delete_provider l n s) = fst (delete_in prov_name ''provider'' l n (cs_providers s))"
  "cs_providers (snd (delete_provider l n s)) = snd (delete_in prov_name ''provider'' l n (cs_providers s))"
  by (simp_all add: create_provider_def update_provider_def delete_provider_def split: prod.split)

interpretation provs: named_store cs_providers prov_name "''provider''" create_provider update_provider delete_provider
proof unfold_locales
  fix l n s p assume "fst (update_provider l n p s) = Inr ()"
  then show "n \<in> prov_name ` set (cs_providers s)"
    unfolding provider_ops by (rule update_in_laws(3) [OF provider_keeps_name])
qed (unfold provider_ops, (rule create_in_result delete_in_result update_in_laws [OF provider_keeps_name])+)

lemma model_ops:
  "fst (create_model l x s) = fst (create_in mp_name ''model'' l x (cs_models s))"
  "cs_models (snd (create_model l x s)) = snd (create_in mp_name ''model'' l x (cs_models s))"
  "fst (update_model l n p s) = fst (update_in mp_name ''model'' model_field l n p (cs_models s))"
  "cs_models (snd (update_model l n p s)) = snd (update_in mp_name ''model'' model_field l n p (cs_models s))"
  "fst (delete_model l n s) = fst (delete_in mp_name ''model'' l n (cs_models s))"
  "cs_models (snd (delete_model l n s)) = snd (delete_in mp_name ''model'' l n (cs_models s))"
  by (simp_all add: create_model_def update_model_def delete_model_def split: prod.split)

interpretation mods: named_store cs_models mp_name "''model''" create_model update_model delete_model
proof unfold_locales
  fix l n s p assume "fst (update_model l n p s) = Inr ()"
  then show "n \<in> mp_name ` set (cs_models s)"
    unfolding model_ops by (rule update_in_laws(3) [OF model_keeps_name])
qed (unfold model_ops, (rule create_in_result delete_in_result update_in_laws [OF model_keeps_name])+)

lemma mcp_server_ops:
  "fst (create_mcp_server l x s) = fst (create_in srv_name ''mcp_server'' l x (cs_mcp_servers s))"
  "cs_mcp_servers (snd (create_mcp_server l x s)) = snd (create_in srv_name ''mcp_server'' l x (cs_mcp_servers s))"
  "fst (update_mcp_server l n p s) = fst (update_in srv_name ''mcp_server'' mcp_server_field l n p (cs_mcp_servers s))"
  "cs_mcp_servers (snd (update_mcp_server l n p s)) = snd (update_in srv_name ''mcp_server'' mcp_server_field l n p (cs_mcp_servers s))"
  "fst (delete_mcp_server l n s) = fst (delete_in srv_name ''mcp_server'' l n (cs_mcp_servers s))"
  "cs_mcp_servers (snd (delete_mcp_server l n s)) = snd (delete_in srv_name ''mcp_server'' l n (cs_mcp_servers s))"
  by (simp_all add: create_mcp_server_def update_mcp_server_def delete_mcp_server_def split: prod.split)

interpretation srvs: named_store cs_mcp_servers srv_name "''mcp_server''" create_mcp_server update_mcp_server delete_mcp_server
proof unfold_locales
  fix l n s p assume "fst (update_mcp_server l n p s) = Inr ()"
  then show "n \<in> srv_name ` set (cs_mcp_servers s)"
    unfolding mcp_server_ops by (rule update_in_laws(3) [OF mcp_server_keeps_name])
qed (unfold mcp_server_ops, (rule create_in_result delete_in_result update_in_laws [OF mcp_server_keeps_name])+)

lemma toolset_ops:
  "fst (create_toolset l x s) = fst (create_in ts_name ''toolset'' l x (cs_toolsets s))"
  "cs_toolsets (snd (create_toolset l x s)) = snd (create_in ts_name ''toolset'' l x (cs_toolsets s))"
  "fst (update_toolset l n p s) = fst (update_in ts_name ''toolset'' toolset_field l n p (cs_toolsets s))"
  "cs_toolsets (snd (update_toolset l n p s)) = snd (update_in ts_name ''toolset'' toolset_field l n p (cs_toolsets s))"
  "fst (delete_toolset l n s) = fst (delete_in ts_name ''toolset'' l n (cs_toolsets s))"
  "cs_toolsets (snd (delete_toolset l n s)) = snd (delete_in ts_name ''toolset'' l n (cs_toolsets s))"
  by (simp_all add: create_toolset_def update_toolset_def delete_toolset_def split: prod.split)

interpretation tsets: named_store cs_toolsets ts_name "''toolset''" create_toolset update_toolset delete_toolset
proof unfold_locales
  fix l n s p assume "fst (update_toolset l n p s) = Inr ()"
  then show "n \<in> ts_name ` set (cs_toolsets s)"
    unfolding toolset_ops by (rule update_in_laws(3) [OF toolset_keeps_name])
qed (unfold toolset_ops, (rule create_in_result delete_in_result update_in_laws [OF toolset_keeps_name])+)

lemma agent_ops:
  "fst (create_agent l x s) = fst (create_in ag_name ''agent'' l x (cs_agents s))"
  "cs_agents (snd (create_agent l x s)) = snd (create_in ag_name ''agent'' l x (cs_agents s))"
  "fst (update_agent l n p s) = fst (update_in ag_name ''agent'' agent_field l n p (cs_agents s))"
  "cs_agents (snd (update_agent l n p s)) = snd (update_in ag_name ''agent'' agent_field l n p (cs_agents s))"
  "fst (delete_agent l n s) = fst (delete_in ag_name ''agent'' l n (cs_agents s))"
  "cs_agents (snd (delete_agent l n s)) = snd (delete_in ag_name ''agent'' l n (cs_agents s))"
  by (simp_all add: create_agent_def update_agent_def delete_agent_def split: prod.split)

interpretation ags: named_store cs_agents ag_name "''agent''" create_agent update_agent delete_agent
proof unfold_locales
  fix l n s p assume "fst (update_agent l n p s) = Inr ()"
  then show "n \<in> ag_name ` set (cs_agents s)"
    unfolding agent_ops by (rule update_in_laws(3) [OF agent_keeps_name])
qed (unfold agent_ops, (rule create_in_result delete_in_result update_in_laws [OF agent_keeps_name])+)

lemma skill_field_name: "skill_field k v s = Inr t \<Longrightarrow> sk_name (fst t) = sk_name (fst s)"
  by (auto simp: skill_field_def split: if_splits)

lemma skill_patch_name: "sk_name (fst (snd (patch_fields skill_field ms x))) = sk_name (fst x)"
  by (induction skill_field ms x rule: patch_fields.induct) (auto simp: skill_field_name split: sum.splits)

lemma skill_patch_body: "snd x \<noteq> None \<Longrightarrow> snd (snd (patch_fields skill_field ms x)) \<noteq> None"
proof (induction skill_field ms x rule: patch_fields.induct)
  case (2 k v ms x)
  have "skill_field k v x = Inr y \<Longrightarrow> snd y \<noteq> None" for y
    using 2(2) by (auto simp: skill_field_def split: if_splits)
  then show ?case using 2 by (auto split: sum.split)
qed simp

lemma update_skill_items_names:
  "map sk_name (snd (snd (update_skill_items n ms e b xs))) = map sk_name xs"
  by (induction xs) (use skill_patch_name in \<open>auto split: prod.splits, metis fst_conv snd_conv\<close>)

lemma update_skill_items_others:
  "filter (\<lambda>y. sk_name y \<noteq> n) (snd (snd (update_skill_items n ms e b xs))) = filter (\<lambda>y. sk_name y \<noteq> n) xs"
  by (induction xs) (use skill_patch_name in \<open>auto split: prod.splits, (metis fst_conv snd_conv)+\<close>)

lemma update_skill_items_ok:
  "fst (update_skill_items n ms (NotFound k n l) b xs) = Inr () \<Longrightarrow> n \<in> sk_name ` set xs"
  by (induction xs) (auto split: prod.splits if_splits)

lemma update_skill_items_body:
  "n \<in> sk_name ` set xs \<Longrightarrow> b \<noteq> None \<Longrightarrow> fst (snd (update_skill_items n ms e b xs)) \<noteq> None"
  "n \<notin> sk_name ` set xs \<Longrightarrow> fst (snd (update_skill_items n ms e b xs)) = b"
proof -
  have "patch_fields skill_field ms (x, Some c) = (r, y, d) \<Longrightarrow> d \<noteq> None" for x c r y d
    using skill_patch_body [of "(x, Some c)" ms] by simp
  then show "n \<in> sk_name ` set xs \<Longrightarrow> b \<noteq> None \<Longrightarrow> fst (snd (update_skill_items n ms e b xs)) \<noteq> None"
    by (induction xs) (auto split: prod.splits)
  show "n \<notin> sk_name ` set xs \<Longrightarrow> fst (snd (update_skill_items n ms e b xs)) = b"
    by (induction xs) (auto split: prod.splits)
qed

lemma skill_ops:
  "fst (create_skill l m body s) = fst (create_in sk_name ''skill'' l m (cs_skills s))"
  "cs_skills (snd (create_skill l m body s)) = snd (create_in sk_name ''skill'' l m (cs_skills s))"
  "fst (delete_skill l n s) = fst (delete_in sk_name ''skill'' l n (cs_skills s))"
  "cs_skills (snd (delete_skill l n s)) = snd (delete_in sk_name ''skill'' l n (cs_skills s))"
  by (auto simp: create_skill_def delete_skill_def create_in_def delete_in_def split: sum.split)

lemma update_skill_laws:
  "map sk_name (cs_skills (snd (update_skill l n p s))) = map sk_name (cs_skills s)"
  "filter (\<lambda>y. sk_name y \<noteq> n) (cs_skills (snd (update_skill l n p s))) = filter (\<lambda>y. sk_name y \<noteq> n) (cs_skills s)"
  "fst (update_skill l n p s) = Inr () \<Longrightarrow> n \<in> sk_name ` set (cs_skills s)"
proof -
  note split = sum.split option.split prod.split
  show "map sk_name (cs_skills (snd (update_skill l n p s))) = map sk_name (cs_skills s)"
    using update_skill_items_names by (auto simp: update_skill_def split: split) (metis snd_conv)
  show "filter (\<lambda>y. sk_name y \<noteq> n) (cs_skills (snd (update_skill l n p s))) = filter (\<lambda>y. sk_name y \<noteq> n) (cs_skills s)"
    using update_skill_items_others by (auto simp: update_skill_def split: split) (metis snd_conv)
  show "fst (update_skill l n p s) = Inr () \<Longrightarrow> n \<in> sk_name ` set (cs_skills s)"
    using update_skill_items_ok [of n _ "''skill''" l "cs_skill_bodies s n" "cs_skills s"]
    by (auto simp: update_skill_def split: sum.splits option.splits prod.splits) (metis fst_conv)
qed

interpretation sks: named_store cs_skills sk_name "''skill''" "\<lambda>l m. create_skill l m body" update_skill delete_skill
  for body
  by unfold_locales (unfold skill_ops, (rule create_in_result delete_in_result update_skill_laws, assumption?)+)

end
