(* ===== verification/CfgStoreSpec.thy ===== *)
theory CfgStoreSpec
  imports CfgStoreProps
begin

text \<open>
  The store as a whole: every operation as one step, the invariant that any sequence of steps
  keeps, what the lookups return after an operation, and what a patch does to an agent.
\<close>

section \<open>Steps and runs\<close>

datatype cfg_op =
    CreateProvider layer provider
  | UpdateProvider layer string "string json"
  | DeleteProvider layer string
  | CreateModel layer model_profile
  | UpdateModel layer string "string json"
  | DeleteModel layer string
  | CreateMcpServer layer mcp_server
  | UpdateMcpServer layer string "string json"
  | DeleteMcpServer layer string
  | CreateToolset layer toolset
  | UpdateToolset layer string "string json"
  | DeleteToolset layer string
  | CreateAgent layer agent
  | UpdateAgent layer string "string json"
  | DeleteAgent layer string
  | CreateSkill layer skill_meta string
  | UpdateSkill layer string "string json"
  | DeleteSkill layer string
  | SetDefaultAgent layer string

fun cfg_step :: "cfg_op \<Rightarrow> cfg_store \<Rightarrow> cfg_result" where
  "cfg_step (CreateProvider l x) s = create_provider l x s"
| "cfg_step (UpdateProvider l n p) s = update_provider l n p s"
| "cfg_step (DeleteProvider l n) s = delete_provider l n s"
| "cfg_step (CreateModel l x) s = create_model l x s"
| "cfg_step (UpdateModel l n p) s = update_model l n p s"
| "cfg_step (DeleteModel l n) s = delete_model l n s"
| "cfg_step (CreateMcpServer l x) s = create_mcp_server l x s"
| "cfg_step (UpdateMcpServer l n p) s = update_mcp_server l n p s"
| "cfg_step (DeleteMcpServer l n) s = delete_mcp_server l n s"
| "cfg_step (CreateToolset l x) s = create_toolset l x s"
| "cfg_step (UpdateToolset l n p) s = update_toolset l n p s"
| "cfg_step (DeleteToolset l n) s = delete_toolset l n s"
| "cfg_step (CreateAgent l x) s = create_agent l x s"
| "cfg_step (UpdateAgent l n p) s = update_agent l n p s"
| "cfg_step (DeleteAgent l n) s = delete_agent l n s"
| "cfg_step (CreateSkill l x b) s = create_skill l x b s"
| "cfg_step (UpdateSkill l n p) s = update_skill l n p s"
| "cfg_step (DeleteSkill l n) s = delete_skill l n s"
| "cfg_step (SetDefaultAgent l n) s = set_default_agent l n s"

definition cfg_exec :: "cfg_op list \<Rightarrow> cfg_store \<Rightarrow> cfg_store" where
  "cfg_exec ops s = fold (\<lambda>c s. snd (cfg_step c s)) ops s"

definition bodies_ok :: "cfg_store \<Rightarrow> bool" where
  "bodies_ok s \<longleftrightarrow> (\<forall>n. cs_skill_bodies s n \<noteq> None \<longleftrightarrow> n \<in> sk_name ` set (cs_skills s))"

definition store_ok :: "cfg_store \<Rightarrow> bool" where
  "store_ok s \<longleftrightarrow> provs.names_ok s \<and> mods.names_ok s \<and> srvs.names_ok s \<and> tsets.names_ok s
     \<and> ags.names_ok s \<and> sks.names_ok s \<and> bodies_ok s"

lemmas names_ok_defs = provs.names_ok_def mods.names_ok_def srvs.names_ok_def tsets.names_ok_def
  ags.names_ok_def sks.names_ok_def

lemma provider_frame:
  "snd (create_provider l x s) = s\<lparr>cs_providers := cs_providers (snd (create_provider l x s))\<rparr>"
  "snd (update_provider l n p s) = s\<lparr>cs_providers := cs_providers (snd (update_provider l n p s))\<rparr>"
  "snd (delete_provider l n s) = s\<lparr>cs_providers := cs_providers (snd (delete_provider l n s))\<rparr>"
  by (simp_all add: create_provider_def update_provider_def delete_provider_def split: prod.split)

lemma store_ok_provider:
  assumes "store_ok s" and "t = s\<lparr>cs_providers := xs\<rparr>" and "provs.names_ok t" shows "store_ok t"
  using assms by (simp add: store_ok_def names_ok_defs bodies_ok_def)

lemma model_frame:
  "snd (create_model l x s) = s\<lparr>cs_models := cs_models (snd (create_model l x s))\<rparr>"
  "snd (update_model l n p s) = s\<lparr>cs_models := cs_models (snd (update_model l n p s))\<rparr>"
  "snd (delete_model l n s) = s\<lparr>cs_models := cs_models (snd (delete_model l n s))\<rparr>"
  by (simp_all add: create_model_def update_model_def delete_model_def split: prod.split)

lemma store_ok_model:
  assumes "store_ok s" and "t = s\<lparr>cs_models := xs\<rparr>" and "mods.names_ok t" shows "store_ok t"
  using assms by (simp add: store_ok_def names_ok_defs bodies_ok_def)

lemma mcp_server_frame:
  "snd (create_mcp_server l x s) = s\<lparr>cs_mcp_servers := cs_mcp_servers (snd (create_mcp_server l x s))\<rparr>"
  "snd (update_mcp_server l n p s) = s\<lparr>cs_mcp_servers := cs_mcp_servers (snd (update_mcp_server l n p s))\<rparr>"
  "snd (delete_mcp_server l n s) = s\<lparr>cs_mcp_servers := cs_mcp_servers (snd (delete_mcp_server l n s))\<rparr>"
  by (simp_all add: create_mcp_server_def update_mcp_server_def delete_mcp_server_def split: prod.split)

lemma store_ok_mcp_server:
  assumes "store_ok s" and "t = s\<lparr>cs_mcp_servers := xs\<rparr>" and "srvs.names_ok t" shows "store_ok t"
  using assms by (simp add: store_ok_def names_ok_defs bodies_ok_def)

lemma toolset_frame:
  "snd (create_toolset l x s) = s\<lparr>cs_toolsets := cs_toolsets (snd (create_toolset l x s))\<rparr>"
  "snd (update_toolset l n p s) = s\<lparr>cs_toolsets := cs_toolsets (snd (update_toolset l n p s))\<rparr>"
  "snd (delete_toolset l n s) = s\<lparr>cs_toolsets := cs_toolsets (snd (delete_toolset l n s))\<rparr>"
  by (simp_all add: create_toolset_def update_toolset_def delete_toolset_def split: prod.split)

lemma store_ok_toolset:
  assumes "store_ok s" and "t = s\<lparr>cs_toolsets := xs\<rparr>" and "tsets.names_ok t" shows "store_ok t"
  using assms by (simp add: store_ok_def names_ok_defs bodies_ok_def)

lemma agent_frame:
  "snd (create_agent l x s) = s\<lparr>cs_agents := cs_agents (snd (create_agent l x s))\<rparr>"
  "snd (update_agent l n p s) = s\<lparr>cs_agents := cs_agents (snd (update_agent l n p s))\<rparr>"
  "snd (delete_agent l n s) = s\<lparr>cs_agents := cs_agents (snd (delete_agent l n s))\<rparr>"
  by (simp_all add: create_agent_def update_agent_def delete_agent_def split: prod.split)

lemma store_ok_agent:
  assumes "store_ok s" and "t = s\<lparr>cs_agents := xs\<rparr>" and "ags.names_ok t" shows "store_ok t"
  using assms by (simp add: store_ok_def names_ok_defs bodies_ok_def)

lemma skill_frame:
  "snd (create_skill l m b s) =
     s\<lparr>cs_skills := cs_skills (snd (create_skill l m b s)), cs_skill_bodies := cs_skill_bodies (snd (create_skill l m b s))\<rparr>"
  "snd (update_skill l n p s) =
     s\<lparr>cs_skills := cs_skills (snd (update_skill l n p s)), cs_skill_bodies := cs_skill_bodies (snd (update_skill l n p s))\<rparr>"
  "snd (delete_skill l n s) =
     s\<lparr>cs_skills := cs_skills (snd (delete_skill l n s)), cs_skill_bodies := cs_skill_bodies (snd (delete_skill l n s))\<rparr>"
  by (simp_all add: create_skill_def update_skill_def delete_skill_def split: prod.split sum.split option.split)

lemma store_ok_skill:
  assumes "store_ok s" and "t = s\<lparr>cs_skills := xs, cs_skill_bodies := m\<rparr>" and "sks.names_ok t" and "bodies_ok t"
  shows "store_ok t"
  using assms by (simp add: store_ok_def names_ok_defs)

lemma create_skill_bodies:
  "cs_skill_bodies (snd (create_skill l m b s)) =
     (if fst (create_skill l m b s) = Inr () then (cs_skill_bodies s)(sk_name m \<mapsto> b) else cs_skill_bodies s)"
  by (auto simp: create_skill_def split: prod.split sum.split)

lemma delete_skill_bodies:
  "cs_skill_bodies (snd (delete_skill l n s)) =
     (if fst (delete_skill l n s) = Inr () then (cs_skill_bodies s)(n := None) else cs_skill_bodies s)"
  by (auto simp: delete_skill_def split: prod.split sum.split)

lemma update_skill_bodies:
  assumes "bodies_ok s"
  shows "cs_skill_bodies (snd (update_skill l n p s)) m \<noteq> None \<longleftrightarrow> m \<in> sk_name ` set (cs_skills s)"
proof -
  have b: "fst (snd (update_skill_items n ms e (cs_skill_bodies s n) (cs_skills s))) \<noteq> None
      \<longleftrightarrow> n \<in> sk_name ` set (cs_skills s)" for ms e
    using assms update_skill_items_body [where n = n and xs = "cs_skills s"] unfolding bodies_ok_def by metis
  show ?thesis
    using assms b [of _ "NotFound ''skill'' n l"]
    by (auto simp: update_skill_def bodies_ok_def split: sum.split option.split prod.split) (metis fst_conv snd_conv)+
qed

lemma names_set_eq: "map f xs = map f ys \<Longrightarrow> f ` set xs = f ` set ys"
  by (metis list.set_map)

lemma names_remove_first:
  "distinct (map f xs) \<Longrightarrow> f ` set (remove_first (\<lambda>y. f y = n) xs) = f ` set xs - {n}"
  by (induction xs) (auto simp: image_iff)

lemma skill_step_bodies:
  assumes "sks.names_ok s" and "bodies_ok s"
  shows "bodies_ok (snd (create_skill l m b s))" and "bodies_ok (snd (update_skill l n p s))"
    and "bodies_ok (snd (delete_skill l n s))"
proof -
  show "bodies_ok (snd (create_skill l m b s))"
    using assms(2) by (auto simp: bodies_ok_def create_skill_bodies sks.mk_items)
  show "bodies_ok (snd (update_skill l n p s))"
    unfolding bodies_ok_def
    using update_skill_bodies [OF assms(2)] names_set_eq [OF sks.upd_names] by simp
  show "bodies_ok (snd (delete_skill l n s))"
    unfolding bodies_ok_def
  proof
    fix k
    have "sk_name ` set (remove_first (\<lambda>y. sk_name y = n) (cs_skills s)) = sk_name ` set (cs_skills s) - {n}"
      using assms(1) by (simp add: sks.names_ok_def names_remove_first)
    then show "cs_skill_bodies (snd (delete_skill l n s)) k \<noteq> None
        \<longleftrightarrow> k \<in> sk_name ` set (cs_skills (snd (delete_skill l n s)))"
      using assms(2) by (simp add: bodies_ok_def delete_skill_bodies sks.del_items)
  qed
qed

lemma cfg_step_ok:
  assumes "store_ok s" shows "store_ok (snd (cfg_step c s))"
proof -
  have n: "provs.names_ok s" "mods.names_ok s" "srvs.names_ok s" "tsets.names_ok s" "ags.names_ok s"
    "sks.names_ok s" "bodies_ok s"
    using assms by (simp_all add: store_ok_def)
  show ?thesis
  proof (cases c)
    case (CreateProvider l x)
    then show ?thesis
      using store_ok_provider [OF assms provider_frame(1) provs.mk_names_ok [OF n(1)]] by simp
  next
    case (UpdateProvider l n p)
    then show ?thesis
      using store_ok_provider [OF assms provider_frame(2) provs.upd_names_ok [OF n(1)]] by simp
  next
    case (DeleteProvider l n)
    then show ?thesis
      using store_ok_provider [OF assms provider_frame(3) provs.del_names_ok [OF n(1)]] by simp
  next
    case (CreateModel l x)
    then show ?thesis
      using store_ok_model [OF assms model_frame(1) mods.mk_names_ok [OF n(2)]] by simp
  next
    case (UpdateModel l n p)
    then show ?thesis
      using store_ok_model [OF assms model_frame(2) mods.upd_names_ok [OF n(2)]] by simp
  next
    case (DeleteModel l n)
    then show ?thesis
      using store_ok_model [OF assms model_frame(3) mods.del_names_ok [OF n(2)]] by simp
  next
    case (CreateMcpServer l x)
    then show ?thesis
      using store_ok_mcp_server [OF assms mcp_server_frame(1) srvs.mk_names_ok [OF n(3)]] by simp
  next
    case (UpdateMcpServer l n p)
    then show ?thesis
      using store_ok_mcp_server [OF assms mcp_server_frame(2) srvs.upd_names_ok [OF n(3)]] by simp
  next
    case (DeleteMcpServer l n)
    then show ?thesis
      using store_ok_mcp_server [OF assms mcp_server_frame(3) srvs.del_names_ok [OF n(3)]] by simp
  next
    case (CreateToolset l x)
    then show ?thesis
      using store_ok_toolset [OF assms toolset_frame(1) tsets.mk_names_ok [OF n(4)]] by simp
  next
    case (UpdateToolset l n p)
    then show ?thesis
      using store_ok_toolset [OF assms toolset_frame(2) tsets.upd_names_ok [OF n(4)]] by simp
  next
    case (DeleteToolset l n)
    then show ?thesis
      using store_ok_toolset [OF assms toolset_frame(3) tsets.del_names_ok [OF n(4)]] by simp
  next
    case (CreateAgent l x)
    then show ?thesis
      using store_ok_agent [OF assms agent_frame(1) ags.mk_names_ok [OF n(5)]] by simp
  next
    case (UpdateAgent l n p)
    then show ?thesis
      using store_ok_agent [OF assms agent_frame(2) ags.upd_names_ok [OF n(5)]] by simp
  next
    case (DeleteAgent l n)
    then show ?thesis
      using store_ok_agent [OF assms agent_frame(3) ags.del_names_ok [OF n(5)]] by simp
  next
    case (CreateSkill l x b)
    then show ?thesis
      using store_ok_skill [OF assms skill_frame(1) sks.mk_names_ok [OF n(6)] skill_step_bodies(1) [OF n(6,7)]] by simp
  next
    case (UpdateSkill l n p)
    then show ?thesis
      using store_ok_skill [OF assms skill_frame(2) sks.upd_names_ok [OF n(6)] skill_step_bodies(2) [OF n(6,7)]] by simp
  next
    case (DeleteSkill l n)
    then show ?thesis
      using store_ok_skill [OF assms skill_frame(3) sks.del_names_ok [OF n(6)] skill_step_bodies(3) [OF n(6,7)]] by simp
  next
    case (SetDefaultAgent l n)
    then show ?thesis
      using assms by (simp add: set_default_agent_def store_ok_def names_ok_defs bodies_ok_def)
  qed
qed

lemma cfg_new_ok: "store_ok cfg_new"
  by (simp add: cfg_new_def store_ok_def names_ok_defs bodies_ok_def)

lemma cfg_exec_ok: "store_ok s \<Longrightarrow> store_ok (cfg_exec ops s)"
  unfolding cfg_exec_def by (induction ops arbitrary: s) (auto simp: cfg_step_ok)

lemmas get_lookup = get_provider_def get_model_def get_mcp_server_def get_toolset_def get_agent_def get_skill_def
  provs.lookup_def mods.lookup_def srvs.lookup_def tsets.lookup_def ags.lookup_def sks.lookup_def

section \<open>The store never loses its consistency\<close>

text \<open>
  C4: Whatever sequence of creations, updates, deletions and default-agent settings is applied
  to an empty store, failed ones included, every collection keeps valid and pairwise distinct
  names, so that no lookup ever reports a duplicate, and a skill has a body exactly if it is in
  the index.
\<close>

theorem cfg_run_consistent:
  "store_ok (cfg_exec ops cfg_new)
   \<and> get_provider (cfg_exec ops cfg_new) n \<noteq> Inl (DuplicateName k m)
   \<and> get_model (cfg_exec ops cfg_new) n \<noteq> Inl (DuplicateName k m)
   \<and> get_mcp_server (cfg_exec ops cfg_new) n \<noteq> Inl (DuplicateName k m)
   \<and> get_toolset (cfg_exec ops cfg_new) n \<noteq> Inl (DuplicateName k m)
   \<and> get_agent (cfg_exec ops cfg_new) n \<noteq> Inl (DuplicateName k m)
   \<and> (isl (load_skill (cfg_exec ops cfg_new) n) \<longleftrightarrow> isl (get_skill (cfg_exec ops cfg_new) n))"
proof -
  define s where "s = cfg_exec ops cfg_new"
  have ok: "store_ok s" by (simp add: s_def cfg_exec_ok cfg_new_ok)
  then have n: "provs.names_ok s" "mods.names_ok s" "srvs.names_ok s" "tsets.names_ok s" "ags.names_ok s"
    "sks.names_ok s" "bodies_ok s"
    by (simp_all add: store_ok_def)
  have "isl (get_skill s n) \<longleftrightarrow> n \<notin> sk_name ` set (cs_skills s)"
    using sks.lookup_cases [OF n(6), of n] sks.lookup_absent [of n s] unfolding get_lookup by force
  moreover have "isl (load_skill s n) \<longleftrightarrow> n \<notin> sk_name ` set (cs_skills s)"
    using n(7) by (simp add: load_skill_def ok_or_def bodies_ok_def split: option.split) (metis option.distinct(1))
  ultimately show ?thesis
    using ok n provs.lookup_never_duplicate mods.lookup_never_duplicate srvs.lookup_never_duplicate
      tsets.lookup_never_duplicate ags.lookup_never_duplicate
    unfolding get_lookup s_def by simp
qed

text \<open>
  Creating an item whose name is new makes the lookup by name return exactly that item,
  which was unknown before, and changes no other name's lookup; deleting it makes its name
  unknown again and changes no other; an update changes only the lookup of its own name. Stated
  for agents; the other kinds are instances of the same contract.
\<close>

theorem agent_lookup_laws:
  assumes "store_ok s"
  shows "(fst (create_agent l a s) = Inr () \<longrightarrow>
      get_agent s (ag_name a) = Inl (UnknownReference ''agent'' (ag_name a))
      \<and> get_agent (snd (create_agent l a s)) (ag_name a) = Inr a
      \<and> (m \<noteq> ag_name a \<longrightarrow> get_agent (snd (create_agent l a s)) m = get_agent s m))
    \<and> (fst (delete_agent l n s) = Inr () \<longrightarrow>
      get_agent (snd (delete_agent l n s)) n = Inl (UnknownReference ''agent'' n)
      \<and> (m \<noteq> n \<longrightarrow> get_agent (snd (delete_agent l n s)) m = get_agent s m))
    \<and> (m \<noteq> n \<longrightarrow> get_agent (snd (update_agent l n p s)) m = get_agent s m)
    \<and> (isl (fst (create_agent l a s)) \<longrightarrow> snd (create_agent l a s) = s)
    \<and> (isl (fst (delete_agent l n s)) \<longrightarrow> snd (delete_agent l n s) = s)"
proof -
  have n: "ags.names_ok s" using assms by (simp add: store_ok_def)
  have c: "isl (fst (create_agent l a s)) \<Longrightarrow> snd (create_agent l a s) = s"
    using agent_frame(1) [of l a s] by (auto simp: ags.mk_items isl_def)
  have d: "isl (fst (delete_agent l n s)) \<Longrightarrow> snd (delete_agent l n s) = s"
    using agent_frame(3) [of l n s] by (auto simp: ags.del_items isl_def)
  show ?thesis
    using ags.mk_lookup [OF n] ags.del_lookup [OF n] ags.upd_lookup_other c d
    unfolding get_lookup by blast
qed

definition sample_agent :: agent where
  "sample_agent = \<lparr>ag_name = ''build'', ag_description = None, ag_mode = Primary, ag_model = ''m'',
     ag_toolsets = [], ag_skills = AutoSkills, ag_system_prompt = []\<rparr>"

definition sample_store :: cfg_store where
  "sample_store = snd (create_agent Global sample_agent cfg_new)"

lemma sample_valid: "valid_name ''build''" by code_simp

lemma sample_store_simps: "cs_agents sample_store = [sample_agent]" "ag_name sample_agent = ''build''"
  by (simp_all add: sample_store_def create_agent_def create_in_def validate_name_def sample_valid
      sample_agent_def cfg_new_def)

lemma sample_store_ok: "store_ok sample_store"
  unfolding sample_store_def using cfg_step_ok [OF cfg_new_ok, of "CreateAgent Global sample_agent"] by simp

theorem agent_lookup_laws_witness:
  "get_agent (snd (delete_agent Global ''build'' sample_store)) ''build'' = Inl (UnknownReference ''agent'' ''build'')"
proof -
  have "fst (delete_agent Global ''build'' sample_store) = Inr ()"
    by (simp add: agent_ops delete_in_def validate_name_def sample_valid sample_store_simps)
  then show ?thesis
    using agent_lookup_laws [OF sample_store_ok, of Global sample_agent "''build''" "''build''" JNull] by simp
qed

end
