(* ===== verification/CfgPatch.thy ===== *)
theory CfgPatch
  imports CfgStoreSpec
begin

text \<open>
  What a patch does to an agent: the fields of the result against the members of the patch, and
  the state a failing patch leaves behind.
\<close>

section \<open>Patches member by member\<close>

lemma patch_fields_append:
  "patch_fields f (xs @ ys) a =
     (case patch_fields f xs a of (Inl e, b) \<Rightarrow> (Inl e, b) | (Inr _, b) \<Rightarrow> patch_fields f ys b)"
  by (induction f xs a rule: patch_fields.induct) (auto split: sum.split)

lemma patch_fields_stop:
  "patch_fields f ms a = (Inl e, b) \<Longrightarrow>
   \<exists>pre k v post. ms = pre @ (k, v) # post \<and> patch_fields f pre a = (Inr (), b) \<and> f k v b = Inl e"
proof (induction f ms a rule: patch_fields.induct)
  case (2 f k v ms x)
  show ?case
  proof (cases "f k v x")
    case (Inl e')
    then have "(k, v) # ms = [] @ (k, v) # ms" and "patch_fields f [] x = (Inr (), b)" and "f k v b = Inl e"
      using 2(2) by auto
    then show ?thesis by blast
  next
    case (Inr y)
    from 2(1) [OF Inr] 2(2) Inr obtain pre k' v' post where
      "ms = pre @ (k', v') # post" "patch_fields f pre y = (Inr (), b)" "f k' v' b = Inl e" by auto
    with Inr show ?thesis by (intro exI [of _ "(k, v) # pre"]) auto
  qed
qed simp

text \<open>
  A field \<open>g\<close> of the result, when the field function changes \<open>g\<close> for one key only: it is what
  that key's member set, or what it was.
\<close>

lemma patch_fields_field:
  assumes "\<And>k v x y. f k v x = Inr y \<Longrightarrow> k \<noteq> key \<Longrightarrow> g y = g x"
    and "\<And>v x y. f key v x = Inr y \<Longrightarrow> R v (g y)"
    and "distinct (map fst ms)" and "patch_fields f ms a = (Inr (), b)"
  shows "case map_of ms key of None \<Rightarrow> g b = g a | Some v \<Rightarrow> R v (g b)"
  using assms(3,4)
proof (induction ms arbitrary: a)
  case (Cons m ms)
  obtain k v where m: "m = (k, v)" by force
  from Cons.prems(2) m obtain y where y: "f k v a = Inr y" and p: "patch_fields f ms y = (Inr (), b)"
    by (auto split: sum.splits)
  have ih: "case map_of ms key of None \<Rightarrow> g b = g y | Some v \<Rightarrow> R v (g b)"
    using Cons.IH [OF _ p] Cons.prems(1) by simp
  show ?case
  proof (cases "k = key")
    case True
    then have "map_of ms key = None" using Cons.prems(1) m by (simp add: map_of_eq_None_iff)
    then show ?thesis using ih assms(2) [of v a y] y m True by simp
  next
    case False
    then show ?thesis using ih assms(1) [OF y False] m by (auto split: option.splits)
  qed
qed simp

section \<open>The members of an agent's patch\<close>

lemma patch_names_Inr: "patch_names xs ctx = Inr ns \<longleftrightarrow> xs = map JStr ns"
proof (induction xs arbitrary: ns)
  case (Cons x xs)
  show ?case by (cases x; cases ns) (auto simp: Cons.IH)
qed auto

lemma patch_str_Inr: "patch_str v ctx = Inr t \<longleftrightarrow> v = JStr t"
  by (cases v) (auto simp: patch_str_def req_str_def)

lemma patch_array_names_Inr: "patch_array_names v ctx = Inr ns \<longleftrightarrow> v = JArr (map JStr ns)"
  by (cases v) (auto simp: patch_array_names_def patch_names_Inr)

lemma patch_skills_Inr: "patch_skills v = Inr t \<longleftrightarrow> v = skill_selection_ser t"
  by (cases v; cases t) (auto simp: patch_skills_def patch_names_Inr)

fun mode_wire :: "agent_mode \<Rightarrow> string" where
  "mode_wire Primary = ''primary''"
| "mode_wire Subagent = ''subagent''"
| "mode_wire AllModes = ''all''"

lemma agent_field_other:
  assumes "agent_field k v x = Inr y"
  shows "k \<noteq> ''model'' \<Longrightarrow> ag_model y = ag_model x"
    and "k \<noteq> ''mode'' \<Longrightarrow> ag_mode y = ag_mode x"
    and "k \<noteq> ''description'' \<Longrightarrow> ag_description y = ag_description x"
    and "k \<noteq> ''toolsets'' \<Longrightarrow> ag_toolsets y = ag_toolsets x"
    and "k \<noteq> ''skills'' \<Longrightarrow> ag_skills y = ag_skills x"
    and "k \<noteq> ''system_prompt'' \<Longrightarrow> ag_system_prompt y = ag_system_prompt x"
  using assms unfolding agent_field_def Let_def by (auto split: if_split_asm sum.split_asm)

lemma agent_field_key:
  "agent_field ''model'' v x = Inr y \<Longrightarrow> v = JStr (ag_model y)"
  "agent_field ''mode'' v x = Inr y \<Longrightarrow> v = JStr (mode_wire (ag_mode y))"
  "agent_field ''description'' v x = Inr y \<Longrightarrow>
     v = (case ag_description y of None \<Rightarrow> JNull | Some d \<Rightarrow> JStr d)"
  "agent_field ''toolsets'' v x = Inr y \<Longrightarrow>
     v = JArr (map JStr (ag_toolsets y)) \<or> v = JNull \<and> ag_toolsets y = []"
  "agent_field ''skills'' v x = Inr y \<Longrightarrow>
     v = skill_selection_ser (ag_skills y) \<or> v = JNull \<and> ag_skills y = AutoSkills"
  "agent_field ''system_prompt'' v x = Inr y \<Longrightarrow> v = JStr (ag_system_prompt y)"
  by (auto simp: agent_field_def Let_def nullable_def patch_str_Inr patch_array_names_Inr patch_skills_Inr
      split: if_splits sum.splits)

lemma update_agent_item:
  assumes "store_ok s" and "get_agent s n = Inr a" and "valid_name n"
  shows "fst (update_agent l n p s) = fst (patch_item agent_field p a)"
    and "get_agent (snd (update_agent l n p s)) n = Inr (snd (patch_item agent_field p a))"
proof -
  obtain pre post where i: "cs_agents s = pre @ a # post" and m: "ag_name a = n" and np: "n \<notin> ag_name ` set pre"
  proof -
    have ok: "ags.names_ok s" using assms(1) by (simp add: store_ok_def)
    have "n \<in> ag_name ` set (cs_agents s)"
      using assms(2) ags.lookup_cases [OF ok, of n] unfolding get_lookup by auto
    then obtain x where x: "x \<in> set (cs_agents s)" "ag_name x = n" by auto
    then have "x = a" using ags.lookup_present [OF ok x] assms(2) unfolding get_lookup by simp
    with x obtain pre post where e: "cs_agents s = pre @ a # post" by (auto dest: split_list)
    have "n \<notin> ag_name ` set pre" using ok x \<open>x = a\<close> e by (auto simp: ags.names_ok_def)
    with e x \<open>x = a\<close> that show thesis by blast
  qed
  have u: "update_first (\<lambda>x. ag_name x = n) g e (pre @ a # post) = (fst (g a), pre @ snd (g a) # post)" for g e
    using np m by (induction pre) (auto split: prod.split)
  have st: "update_agent l n p s =
      (fst (patch_item agent_field p a), s\<lparr>cs_agents := pre @ snd (patch_item agent_field p a) # post\<rparr>)"
    using assms(3) by (simp add: update_agent_def update_in_def validate_name_def i u)
  then show "fst (update_agent l n p s) = fst (patch_item agent_field p a)" by simp
  have "store_ok (snd (update_agent l n p s))"
    using cfg_step_ok [OF assms(1), of "UpdateAgent l n p"] by simp
  then have "ags.names_ok (snd (update_agent l n p s))" by (simp add: store_ok_def)
  then show "get_agent (snd (update_agent l n p s)) n = Inr (snd (patch_item agent_field p a))"
    unfolding get_agent_def ags.lookup_def [symmetric]
    by (intro ags.lookup_present) (simp_all add: st patch_item_name [OF agent_keeps_name] m)
qed

text \<open>
  A patch with distinct keys that an agent's update accepts sets each field to what the
  member of that name says and leaves every field without a member as it was: a null
  description, toolset list or skill selection means the default, a mode is one of the three
  wire words, and the name never changes.
\<close>

theorem update_agent_sets_fields:
  assumes "store_ok s" and "valid_name n" and "get_agent s n = Inr a" and "distinct (map fst ms)"
    and "fst (update_agent l n (JObj ms) s) = Inr ()"
  shows "\<exists>b. get_agent (snd (update_agent l n (JObj ms) s)) n = Inr b \<and> ag_name b = ag_name a
    \<and> (case map_of ms ''model'' of None \<Rightarrow> ag_model b = ag_model a | Some v \<Rightarrow> v = JStr (ag_model b))
    \<and> (case map_of ms ''mode'' of None \<Rightarrow> ag_mode b = ag_mode a | Some v \<Rightarrow> v = JStr (mode_wire (ag_mode b)))
    \<and> (case map_of ms ''description'' of None \<Rightarrow> ag_description b = ag_description a
        | Some v \<Rightarrow> v = (case ag_description b of None \<Rightarrow> JNull | Some d \<Rightarrow> JStr d))
    \<and> (case map_of ms ''toolsets'' of None \<Rightarrow> ag_toolsets b = ag_toolsets a
        | Some v \<Rightarrow> v = JArr (map JStr (ag_toolsets b)) \<or> v = JNull \<and> ag_toolsets b = [])
    \<and> (case map_of ms ''skills'' of None \<Rightarrow> ag_skills b = ag_skills a
        | Some v \<Rightarrow> v = skill_selection_ser (ag_skills b) \<or> v = JNull \<and> ag_skills b = AutoSkills)
    \<and> (case map_of ms ''system_prompt'' of None \<Rightarrow> ag_system_prompt b = ag_system_prompt a
        | Some v \<Rightarrow> v = JStr (ag_system_prompt b))"
proof -
  note u = update_agent_item [OF assms(1,3,2), of l "JObj ms"]
  define b where "b = snd (patch_fields agent_field ms a)"
  have pf: "patch_fields agent_field ms a = (Inr (), b)"
    using u(1) assms(5) by (simp add: patch_item_def b_def prod_eq_iff)
  have g: "get_agent (snd (update_agent l n (JObj ms) s)) n = Inr b"
    using u(2) by (simp add: patch_item_def b_def)
  have nm: "ag_name b = ag_name a"
    using patch_fields_name [OF agent_keeps_name] by (simp add: b_def)
  note F = patch_fields_field [of agent_field, OF _ _ assms(4) pf]
  have f1: "case map_of ms ''model'' of None \<Rightarrow> ag_model b = ag_model a | Some v \<Rightarrow> v = JStr (ag_model b)"
    by (rule F [where R = "\<lambda>v t. v = JStr t"], erule (1) agent_field_other(1), drule agent_field_key(1), assumption)
  have f2: "case map_of ms ''mode'' of None \<Rightarrow> ag_mode b = ag_mode a | Some v \<Rightarrow> v = JStr (mode_wire (ag_mode b))"
    by (rule F [where R = "\<lambda>v t. v = JStr (mode_wire t)"], erule (1) agent_field_other(2), drule agent_field_key(2), assumption)
  have f3: "case map_of ms ''description'' of None \<Rightarrow> ag_description b = ag_description a | Some v \<Rightarrow> v = (case ag_description b of None \<Rightarrow> JNull | Some d \<Rightarrow> JStr d)"
    by (rule F [where R = "\<lambda>v t. v = (case t of None \<Rightarrow> JNull | Some d \<Rightarrow> JStr d)"], erule (1) agent_field_other(3), drule agent_field_key(3), assumption)
  have f4: "case map_of ms ''toolsets'' of None \<Rightarrow> ag_toolsets b = ag_toolsets a | Some v \<Rightarrow> v = JArr (map JStr (ag_toolsets b)) \<or> v = JNull \<and> ag_toolsets b = []"
    by (rule F [where R = "\<lambda>v t. v = JArr (map JStr t) \<or> v = JNull \<and> t = []"], erule (1) agent_field_other(4), drule agent_field_key(4), assumption)
  have f5: "case map_of ms ''skills'' of None \<Rightarrow> ag_skills b = ag_skills a | Some v \<Rightarrow> v = skill_selection_ser (ag_skills b) \<or> v = JNull \<and> ag_skills b = AutoSkills"
    by (rule F [where R = "\<lambda>v t. v = skill_selection_ser t \<or> v = JNull \<and> t = AutoSkills"], erule (1) agent_field_other(5), drule agent_field_key(5), assumption)
  have f6: "case map_of ms ''system_prompt'' of None \<Rightarrow> ag_system_prompt b = ag_system_prompt a | Some v \<Rightarrow> v = JStr (ag_system_prompt b)"
    by (rule F [where R = "\<lambda>v t. v = JStr t"], erule (1) agent_field_other(6), drule agent_field_key(6), assumption)
  show ?thesis by (intro exI [of _ b] conjI g nm f1 f2 f3 f4 f5 f6)
qed

lemma sample_item:
  "get_agent sample_store ''build'' = Inr sample_agent"
  by (simp add: sample_store_simps get_agent_def resolve_by_name_def)

lemma sample_update:
  "fst (update_agent Global ''build'' (JObj [(''model'', JStr ''x''), (''skills'', JNull)]) sample_store) = Inr ()"
  unfolding update_agent_item(1) [OF sample_store_ok sample_item sample_valid] sample_agent_def
  by code_simp

theorem update_agent_sets_fields_witness:
  "\<exists>b. get_agent (snd (update_agent Global ''build'' (JObj [(''model'', JStr ''x''), (''skills'', JNull)]) sample_store))
      ''build'' = Inr b \<and> ag_model b = ''x'' \<and> ag_skills b = AutoSkills \<and> ag_mode b = ag_mode sample_agent"
proof -
  define ms :: "(string \<times> string json) list" where "ms = [(''model'', JStr ''x''), (''skills'', JNull)]"
  have d: "distinct (map fst ms)" by (simp add: ms_def)
  have m: "map_of ms ''model'' = Some (JStr ''x'')" "map_of ms ''mode'' = None" "map_of ms ''skills'' = Some JNull"
    by (simp_all add: ms_def)
  have n: "JNull \<noteq> skill_selection_ser t" for t by (cases t) auto
  note w = update_agent_sets_fields [OF sample_store_ok sample_valid sample_item d, folded ms_def,
      OF sample_update [folded ms_def], unfolded m option.case]
  show ?thesis
    unfolding ms_def [symmetric]
    by (insert w, elim exE conjE, intro exI conjI, assumption) (simp_all add: n)
qed

section \<open>A patch that fails\<close>

text \<open>
  An update that fails on an agent that exists has still applied the members before the one
  that was refused: the store it leaves is the one a successful update with exactly those
  members gives, so a failed update is not always without effect.
\<close>

theorem update_agent_failure_prefix:
  assumes "store_ok s" and "valid_name n" and "get_agent s n = Inr a"
    and "fst (update_agent l n (JObj ms) s) = Inl e"
  shows "\<exists>pre k v post. ms = pre @ (k, v) # post
    \<and> fst (update_agent l n (JObj pre) s) = Inr ()
    \<and> get_agent (snd (update_agent l n (JObj ms) s)) n = get_agent (snd (update_agent l n (JObj pre) s)) n
    \<and> fst (update_agent l n (JObj [(k, v)]) (snd (update_agent l n (JObj pre) s))) = Inl e"
proof -
  note u = update_agent_item [OF assms(1,3,2)]
  define b where "b = snd (patch_fields agent_field ms a)"
  have "patch_fields agent_field ms a = (Inl e, b)"
    using u(1) [of l "JObj ms"] assms(4) by (simp add: patch_item_def b_def prod_eq_iff)
  from patch_fields_stop [OF this] obtain pre k v post where p: "ms = pre @ (k, v) # post"
    "patch_fields agent_field pre a = (Inr (), b)" "agent_field k v b = Inl e" by blast
  define t where "t = snd (update_agent l n (JObj pre) s)"
  have t: "get_agent t n = Inr b" using u(2) [of l "JObj pre"] p(2) by (simp add: t_def patch_item_def)
  have "store_ok t" using cfg_step_ok [OF assms(1), of "UpdateAgent l n (JObj pre)"] by (simp add: t_def)
  from update_agent_item(1) [OF this t assms(2), of l "JObj [(k, v)]"]
  have e: "fst (update_agent l n (JObj [(k, v)]) t) = Inl e" using p(3) by (simp add: patch_item_def)
  have f: "fst (update_agent l n (JObj pre) s) = Inr ()"
    using u(1) [of l "JObj pre"] p(2) by (simp add: patch_item_def)
  have g: "get_agent (snd (update_agent l n (JObj ms) s)) n = get_agent t n"
    using t u(2) [of l "JObj ms"] by (simp add: patch_item_def b_def)
  show ?thesis
    by (rule exI [of _ pre], rule exI [of _ k], rule exI [of _ v], rule exI [of _ post])
      (use p(1) e f g in \<open>simp add: t_def\<close>)
qed

lemma sample_failed_update:
  "fst (update_agent Global ''build'' (JObj [(''model'', JStr ''x''), (''skills'', JBool True)]) sample_store) =
     Inl (Validation (''agent: '' @ squote ''skills'' @ '' must be '' @ squote ''auto'' @ '', '' @ squote ''none''
       @ '' or an array''))"
  unfolding update_agent_item(1) [OF sample_store_ok sample_item sample_valid] sample_agent_def
  by code_simp

theorem update_agent_failure_prefix_witness:
  "\<exists>pre k v post. [(''model'', JStr ''x''), (''skills'', JBool True)] = pre @ (k, v) # post
    \<and> fst (update_agent Global ''build'' (JObj pre) sample_store) = Inr ()"
  using update_agent_failure_prefix [OF sample_store_ok sample_valid sample_item sample_failed_update] by blast

lemma failed_update_changes_model:
  "map_sum id ag_model (get_agent (snd (update_agent Global ''build''
     (JObj [(''model'', JStr ''x''), (''skills'', JBool True)]) sample_store)) ''build'') = Inr ''x''"
  unfolding update_agent_item(2) [OF sample_store_ok sample_item sample_valid] sample_agent_def
  by code_simp

end
