(* ===== verification/BTree.thy ===== *)
theory BTree
  imports Prelude "HOL-Library.List_Lexorder" "HOL-Library.Char_ord"
begin

text \<open>
  \<open>BTreeMap\<close> as a list of entries in increasing key order: \<open>insert\<close>, \<open>remove\<close>,
  \<open>extend\<close>, and their meaning as finite maps. Strings are ordered byte by byte. The object
  of \<open>serde_json\<close> is such a map too.
\<close>

fun bt_insert :: "'k::linorder \<Rightarrow> 'v \<Rightarrow> ('k \<times> 'v) list \<Rightarrow> ('k \<times> 'v) list" where
  "bt_insert k v [] = [(k, v)]"
| "bt_insert k v (e # m) =
     (if k < fst e then (k, v) # e # m
      else if k = fst e then (k, v) # m
      else e # bt_insert k v m)"

definition bt_remove :: "'k \<Rightarrow> ('k \<times> 'v) list \<Rightarrow> ('k \<times> 'v) list" where
  "bt_remove k m = filter (\<lambda>e. fst e \<noteq> k) m"

definition bt_extend :: "('k::linorder \<times> 'v) list \<Rightarrow> ('k \<times> 'v) list \<Rightarrow> ('k \<times> 'v) list" where
  "bt_extend m es = fold (\<lambda>(k, v). bt_insert k v) es m"

definition bt_of_list :: "('k::linorder \<times> 'v) list \<Rightarrow> ('k \<times> 'v) list" where
  "bt_of_list es = bt_extend [] es"

definition bt_ok :: "('k::linorder \<times> 'v) list \<Rightarrow> bool" where
  "bt_ok m \<longleftrightarrow> sorted_wrt (<) (map fst m)"

lemma map_of_bt_insert [simp]: "map_of (bt_insert k v m) = (map_of m)(k \<mapsto> v)"
  by (induction m) (auto simp: fun_eq_iff)

lemma map_of_bt_remove [simp]: "map_of (bt_remove k m) = (map_of m)(k := None)"
  by (induction m) (auto simp: bt_remove_def fun_eq_iff)

lemma map_of_bt_extend_rev: "map_of (bt_extend m es) = map_of m ++ map_of (rev es)"
  by (induction es arbitrary: m) (auto simp: bt_extend_def)

lemma map_of_rev_distinct: "distinct (map fst es) \<Longrightarrow> map_of (rev es) = map_of es"
  by (rule map_of_inject_set [THEN iffD2]) (auto simp: rev_map [symmetric])

lemma bt_ok_distinct: "bt_ok m \<Longrightarrow> distinct (map fst m)"
  by (simp add: bt_ok_def strict_sorted_iff)

lemma map_of_bt_extend: "bt_ok es \<Longrightarrow> map_of (bt_extend m es) = map_of m ++ map_of es"
  by (simp add: map_of_bt_extend_rev map_of_rev_distinct bt_ok_distinct)

lemma set_fst_bt_insert: "fst ` set (bt_insert k v m) = insert k (fst ` set m)"
  by (induction m) auto

lemma set_bt_insert: "set (bt_insert k v m) \<subseteq> insert (k, v) (set m)"
  by (induction m) auto

lemma bt_ok_Nil [simp]: "bt_ok []"
  by (simp add: bt_ok_def)

lemma bt_ok_Cons [simp]: "bt_ok (e # m) \<longleftrightarrow> (\<forall>k \<in> fst ` set m. fst e < k) \<and> bt_ok m"
  by (auto simp: bt_ok_def)

lemma bt_ok_insert [simp, intro]: "bt_ok m \<Longrightarrow> bt_ok (bt_insert k v m)"
proof (induction m)
  case (Cons e m)
  then show ?case
    by (auto simp: set_fst_bt_insert simp del: ball_simps intro: less_trans)
qed simp

lemma bt_ok_remove [simp, intro]: "bt_ok m \<Longrightarrow> bt_ok (bt_remove k m)"
  by (induction m) (auto simp: bt_remove_def)

lemma bt_ok_extend [simp, intro]: "bt_ok m \<Longrightarrow> bt_ok (bt_extend m es)"
  by (induction es arbitrary: m) (auto simp: bt_extend_def)

lemma bt_ok_of_list [simp, intro]: "bt_ok (bt_of_list es)"
  by (simp add: bt_of_list_def bt_ok_extend)

lemma set_bt_remove: "set (bt_remove k m) \<subseteq> set m"
  by (auto simp: bt_remove_def)

lemma set_bt_extend: "set (bt_extend m es) \<subseteq> set m \<union> set es"
proof (induction es arbitrary: m)
  case (Cons e es)
  have "bt_extend m (e # es) = bt_extend (bt_insert (fst e) (snd e) m) es"
    by (simp add: bt_extend_def case_prod_beta)
  then show ?case using Cons [of "bt_insert (fst e) (snd e) m"] set_bt_insert [of "fst e" "snd e" m] by auto
qed (simp add: bt_extend_def)

end
