(* ===== verification/FsConfig.thy ===== *)
theory FsConfig
  imports CfgStore BTree
begin

text \<open>
  The part of the file store (\<open>cfgstore/src/fs_store.rs\<close>) that lives in \<open>config.yaml\<close>, over the
  layers of \<open>cfgstore/src/layers.rs\<close>. The text format and the typed readers of \<open>yaml_serde\<close> are
  parameters, bundled in a \<open>codec\<close>: reading a file into its raw maps, writing them, and reading one
  entry as a provider, a model or a server. A raw value is a JSON value. An error text of the
  library is part of the reader's result. Reads and writes that fail for reasons of the
  operating system are not modelled.
\<close>

section \<open>Layers of files\<close>

record raw_config =
  rc_providers :: "(string \<times> string json) list"
  rc_models :: "(string \<times> string json) list"
  rc_mcp :: "(string \<times> string json) list"
  rc_defaults :: "(string \<times> string json) list"

definition raw_config_default :: raw_config where
  "raw_config_default = \<lparr>rc_providers = [], rc_models = [], rc_mcp = [], rc_defaults = []\<rparr>"

record 't layer_files =
  lf_dir :: string
  lf_config :: "'t option"
  lf_toolsets :: "(string \<times> string) list"
  lf_agents :: "(string \<times> string) list"
  lf_skills :: "(string \<times> string) list"

record 't layers =
  lay_global :: "'t layer_files"
  lay_workspace :: "'t layer_files option"

record raw_provider =
  rp_type :: provider_type
  rp_endpoint :: string
  rp_api_key :: "string option"

record raw_model =
  rm_provider :: string
  rm_model :: string
  rm_temperature :: "string json option"
  rm_max_tokens :: "nat option"
  rm_options :: "(string \<times> string json) list"

record raw_mcp =
  rs_transport :: mcp_transport
  rs_url :: string
  rs_headers :: "(string \<times> string) list"

record 't codec =
  cd_read :: "'t \<Rightarrow> string + raw_config"
  cd_write :: "raw_config \<Rightarrow> 't"
  cd_provider :: "string json \<Rightarrow> string + raw_provider"
  cd_model :: "string json \<Rightarrow> string + raw_model"
  cd_mcp :: "string json \<Rightarrow> string + raw_mcp"

definition load_config_layer :: "'t codec \<Rightarrow> 't layer_files \<Rightarrow> cfg_error + raw_config" where
  "load_config_layer c d =
     (case lf_config d of
        None \<Rightarrow> Inr raw_config_default
      | Some t \<Rightarrow>
          (case cd_read c t of
             Inr r \<Rightarrow> Inr r
           | Inl e \<Rightarrow> Inl (Config (''Failed to parse '' @ lf_dir d @ ''/config.yaml: '' @ e))))"

definition merge_config_layers :: "raw_config \<Rightarrow> raw_config option \<Rightarrow> raw_config" where
  "merge_config_layers g w =
     (case w of
        None \<Rightarrow> g
      | Some ws \<Rightarrow>
          \<lparr>rc_providers = bt_extend (rc_providers g) (rc_providers ws),
           rc_models = bt_extend (rc_models g) (rc_models ws),
           rc_mcp = bt_extend (rc_mcp g) (rc_mcp ws),
           rc_defaults = bt_extend (rc_defaults g) (rc_defaults ws)\<rparr>)"

definition load_merged_config :: "'t codec \<Rightarrow> 't layers \<Rightarrow> cfg_error + raw_config" where
  "load_merged_config c ls =
     (case load_config_layer c (lay_global ls) of
        Inl e \<Rightarrow> Inl e
      | Inr g \<Rightarrow>
          (case lay_workspace ls of
             None \<Rightarrow> Inr (merge_config_layers g None)
           | Some d \<Rightarrow>
               (case load_config_layer c d of
                  Inl e \<Rightarrow> Inl e
                | Inr w \<Rightarrow> Inr (merge_config_layers g (Some w)))))"

definition config_entry_source :: "'t codec \<Rightarrow> 't layers \<Rightarrow> string \<Rightarrow> (raw_config \<Rightarrow> (string \<times> string json) list) \<Rightarrow> string" where
  "config_entry_source c ls n pick =
     (case lay_workspace ls of
        None \<Rightarrow> ''global''
      | Some d \<Rightarrow>
          (case load_config_layer c d of
             Inl e \<Rightarrow> ''global''
           | Inr raw \<Rightarrow> if map_of (pick raw) n = None then ''global'' else ''workspace''))"

definition layer_dir :: "'t layers \<Rightarrow> layer \<Rightarrow> cfg_error + 't layer_files" where
  "layer_dir ls l =
     (case l of
        Global \<Rightarrow> Inr (lay_global ls)
      | Workspace \<Rightarrow> ok_or (Config ''no workspace layer configured'') (lay_workspace ls))"

definition set_layer :: "layer \<Rightarrow> 't layer_files \<Rightarrow> 't layers \<Rightarrow> 't layers" where
  "set_layer l d ls =
     (case l of Global \<Rightarrow> ls\<lparr>lay_global := d\<rparr> | Workspace \<Rightarrow> ls\<lparr>lay_workspace := Some d\<rparr>)"

definition write_config_layer :: "'t codec \<Rightarrow> raw_config \<Rightarrow> 't layer_files \<Rightarrow> 't layer_files" where
  "write_config_layer c raw d = d\<lparr>lf_config := Some (cd_write c raw)\<rparr>"

section \<open>Reading the entities\<close>

fun read_entries :: "string \<Rightarrow> (string json \<Rightarrow> string + 'r) \<Rightarrow> (string \<Rightarrow> 'r \<Rightarrow> 'a) \<Rightarrow> (string \<times> string json) list
    \<Rightarrow> cfg_error + 'a list" where
  "read_entries label de mk [] = Inr []"
| "read_entries label de mk ((n, v) # es) =
     (case de v of
        Inl e \<Rightarrow> Inl (Config (label @ '' '' @ squote n @ '': '' @ e))
      | Inr r \<Rightarrow> map_sum id ((#) (mk n r)) (read_entries label de mk es))"

definition mk_provider :: "string \<Rightarrow> raw_provider \<Rightarrow> provider" where
  "mk_provider n r = \<lparr>prov_name = n, prov_type = rp_type r, prov_endpoint = rp_endpoint r, prov_api_key = rp_api_key r\<rparr>"

definition mk_model :: "string \<Rightarrow> raw_model \<Rightarrow> model_profile" where
  "mk_model n r = \<lparr>mp_name = n, mp_provider = rm_provider r, mp_model = rm_model r, mp_temperature = rm_temperature r,
     mp_max_tokens = rm_max_tokens r, mp_options = rm_options r\<rparr>"

definition mk_mcp_server :: "string \<Rightarrow> raw_mcp \<Rightarrow> mcp_server" where
  "mk_mcp_server n r = \<lparr>srv_name = n, srv_transport = rs_transport r, srv_url = rs_url r, srv_headers = rs_headers r\<rparr>"

definition fs_list_providers :: "'t codec \<Rightarrow> 't layers \<Rightarrow> cfg_error + provider list" where
  "fs_list_providers c ls =
     (case load_merged_config c ls of
        Inl e \<Rightarrow> Inl e
      | Inr r \<Rightarrow> read_entries ''provider'' (cd_provider c) mk_provider (rc_providers r))"

definition fs_list_models :: "'t codec \<Rightarrow> 't layers \<Rightarrow> cfg_error + model_profile list" where
  "fs_list_models c ls =
     (case load_merged_config c ls of
        Inl e \<Rightarrow> Inl e
      | Inr r \<Rightarrow> read_entries ''model'' (cd_model c) mk_model (rc_models r))"

definition fs_list_mcp_servers :: "'t codec \<Rightarrow> 't layers \<Rightarrow> cfg_error + mcp_server list" where
  "fs_list_mcp_servers c ls =
     (case load_merged_config c ls of
        Inl e \<Rightarrow> Inl e
      | Inr r \<Rightarrow> read_entries ''mcp server'' (cd_mcp c) mk_mcp_server (rc_mcp r))"

definition fs_default_agent :: "'t codec \<Rightarrow> 't layers \<Rightarrow> cfg_error + string option" where
  "fs_default_agent c ls =
     (case load_merged_config c ls of
        Inl e \<Rightarrow> Inl e
      | Inr r \<Rightarrow>
          (case map_of (rc_defaults r) ''agent'' of
             None \<Rightarrow> Inr None
           | Some v \<Rightarrow> ok_or (Config ''defaults.agent must be a string'') (map_option Some (as_str v))))"

section \<open>Writing an entity\<close>

text \<open>The object \<open>serde_json::to_value\<close> gives for an entity, without its \<open>name\<close>; keys in order.\<close>

definition provider_type_wire :: "provider_type \<Rightarrow> string" where
  "provider_type_wire t = (case t of Ollama \<Rightarrow> ''ollama'' | OpenaiCompatible \<Rightarrow> ''openai-compatible'')"

definition transport_wire :: "mcp_transport \<Rightarrow> string" where
  "transport_wire t = (case t of HttpStreamable \<Rightarrow> ''http-streamable'' | Sse \<Rightarrow> ''sse'')"

definition opt_member :: "string \<Rightarrow> ('a \<Rightarrow> string json) \<Rightarrow> 'a option \<Rightarrow> (string \<times> string json) list" where
  "opt_member k f x = (case x of None \<Rightarrow> [] | Some v \<Rightarrow> [(k, f v)])"

definition provider_entry :: "provider \<Rightarrow> string json" where
  "provider_entry p = JObj (opt_member ''api_key'' JStr (prov_api_key p)
     @ [(''endpoint'', JStr (prov_endpoint p)), (''type'', JStr (provider_type_wire (prov_type p)))])"

definition model_entry :: "model_profile \<Rightarrow> string json" where
  "model_entry m = JObj (opt_member ''max_tokens'' (\<lambda>n. JInt (int n)) (mp_max_tokens m)
     @ [(''model'', JStr (mp_model m))]
     @ (if mp_options m = [] then [] else [(''options'', JObj (mp_options m))])
     @ [(''provider'', JStr (mp_provider m))]
     @ opt_member ''temperature'' id (mp_temperature m))"

definition mcp_server_entry :: "mcp_server \<Rightarrow> string json" where
  "mcp_server_entry s = JObj [(''headers'', JObj (map (\<lambda>(k, v). (k, JStr v)) (srv_headers s))),
     (''type'', JStr (transport_wire (srv_transport s))), (''url'', JStr (srv_url s))]"

text \<open>Load a layer, change its raw maps, write it: nothing is written when the change fails.\<close>

definition with_config :: "'t codec \<Rightarrow> layer \<Rightarrow> (raw_config \<Rightarrow> cfg_error + raw_config) \<Rightarrow> 't layers
    \<Rightarrow> (cfg_error + unit) \<times> 't layers" where
  "with_config c l f ls =
     (case layer_dir ls l of
        Inl e \<Rightarrow> (Inl e, ls)
      | Inr d \<Rightarrow>
          (case load_config_layer c d of
             Inl e \<Rightarrow> (Inl e, ls)
           | Inr raw \<Rightarrow>
               (case f raw of
                  Inl e \<Rightarrow> (Inl e, ls)
                | Inr raw' \<Rightarrow> (Inr (), set_layer l (write_config_layer c raw' d) ls))))"

definition named :: "string \<Rightarrow> ((cfg_error + unit) \<times> 's) \<Rightarrow> 's \<Rightarrow> (cfg_error + unit) \<times> 's" where
  "named n r s = (case validate_name n of Inl e \<Rightarrow> (Inl e, s) | Inr _ \<Rightarrow> r)"

definition entry_create :: "string \<Rightarrow> layer \<Rightarrow> string \<Rightarrow> string json \<Rightarrow> (string \<times> string json) list
    \<Rightarrow> cfg_error + (string \<times> string json) list" where
  "entry_create kind l n v es =
     (if map_of es n \<noteq> None then Inl (NameConflict kind n l) else Inr (bt_insert n v es))"

definition entry_delete :: "string \<Rightarrow> layer \<Rightarrow> string \<Rightarrow> (string \<times> string json) list
    \<Rightarrow> cfg_error + (string \<times> string json) list" where
  "entry_delete kind l n es =
     (if map_of es n = None then Inl (NotFound kind n l) else Inr (bt_remove n es))"

text \<open>A null for a required key is refused before anything is changed.\<close>

fun cleared_required :: "string list \<Rightarrow> (string \<times> string json) list \<Rightarrow> string option" where
  "cleared_required req [] = None"
| "cleared_required req ((k, v) # ms) =
     (if k \<in> set req \<and> v = JNull then Some k else cleared_required req ms)"

definition patch_object :: "string list \<Rightarrow> (string \<times> string json) list \<Rightarrow> (string \<times> string json) list
    \<Rightarrow> (string \<times> string json) list" where
  "patch_object known ms obj =
     fold (\<lambda>(k, v) ob. if k \<notin> set known then ob else if v = JNull then bt_remove k ob else bt_insert k v ob) ms obj"

text \<open>The check of an enumerated \<open>type\<close> after the patch; models have none.\<close>

definition check_type :: "string \<Rightarrow> string \<Rightarrow> string \<Rightarrow> string list \<Rightarrow> (string \<times> string json) list \<Rightarrow> cfg_error option" where
  "check_type label n what allowed obj =
     (case map_of obj ''type'' of
        None \<Rightarrow> None
      | Some v \<Rightarrow>
          (case as_str v of
             None \<Rightarrow> Some (Validation (label @ '' '' @ squote n @ '': '' @ squote ''type'' @ '' must be a string''))
           | Some t \<Rightarrow>
               if t \<in> set allowed then None
               else Some (Validation (label @ '' '' @ squote n @ '': unknown '' @ what @ '' '' @ squote t))))"

definition entry_update :: "string \<Rightarrow> string \<Rightarrow> string list \<Rightarrow> string list \<Rightarrow> ((string \<times> string json) list \<Rightarrow> cfg_error option)
    \<Rightarrow> (string json \<Rightarrow> string + 'r) \<Rightarrow> layer \<Rightarrow> string \<Rightarrow> string json \<Rightarrow> (string \<times> string json) list
    \<Rightarrow> cfg_error + (string \<times> string json) list" where
  "entry_update kind label req known check de l n patch es =
     (case map_of es n of
        None \<Rightarrow> Inl (NotFound kind n l)
      | Some entry \<Rightarrow>
      (case as_obj entry of
         None \<Rightarrow> Inl (Config (label @ '' '' @ squote n @ '': config.yaml entry is not a mapping''))
       | Some obj \<Rightarrow>
      (case as_obj patch of
         None \<Rightarrow> Inl (Config ''update patch must be a JSON object'')
       | Some ms \<Rightarrow>
      (case cleared_required req ms of
         Some k \<Rightarrow> Inl (Validation (label @ '' '' @ squote n @ '': required field '' @ squote k @ '' cannot be cleared''))
       | None \<Rightarrow>
          (let obj' = patch_object known ms obj in
           case check obj' of
             Some e \<Rightarrow> Inl e
           | None \<Rightarrow>
               (case de (JObj obj') of
                  Inl e \<Rightarrow> Inl (Validation (label @ '' '' @ squote n @ '': '' @ e))
                | Inr _ \<Rightarrow> Inr (bt_insert n (JObj obj') es)))))))"

definition fs_create_provider :: "'t codec \<Rightarrow> layer \<Rightarrow> provider \<Rightarrow> 't layers \<Rightarrow> (cfg_error + unit) \<times> 't layers" where
  "fs_create_provider c l x ls = named (prov_name x)
     (with_config c l (\<lambda>raw. map_sum id (\<lambda>es. raw\<lparr>rc_providers := es\<rparr>)
        (entry_create ''provider'' l (prov_name x) (provider_entry x) (rc_providers raw))) ls) ls"

definition fs_update_provider :: "'t codec \<Rightarrow> layer \<Rightarrow> string \<Rightarrow> string json \<Rightarrow> 't layers \<Rightarrow> (cfg_error + unit) \<times> 't layers" where
  "fs_update_provider c l n patch ls = named n
     (with_config c l (\<lambda>raw. map_sum id (\<lambda>es. raw\<lparr>rc_providers := es\<rparr>)
        (entry_update ''provider'' ''provider'' [''type'', ''endpoint'']
           [''type'', ''endpoint'', ''api_key''] (check_type ''provider'' n ''provider_type'' [''ollama'', ''openai-compatible''])
           (cd_provider c) l n patch (rc_providers raw))) ls) ls"

definition fs_delete_provider :: "'t codec \<Rightarrow> layer \<Rightarrow> string \<Rightarrow> 't layers \<Rightarrow> (cfg_error + unit) \<times> 't layers" where
  "fs_delete_provider c l n ls = named n
     (with_config c l (\<lambda>raw. map_sum id (\<lambda>es. raw\<lparr>rc_providers := es\<rparr>) (entry_delete ''provider'' l n (rc_providers raw))) ls) ls"

definition fs_create_model :: "'t codec \<Rightarrow> layer \<Rightarrow> model_profile \<Rightarrow> 't layers \<Rightarrow> (cfg_error + unit) \<times> 't layers" where
  "fs_create_model c l x ls = named (mp_name x)
     (with_config c l (\<lambda>raw. map_sum id (\<lambda>es. raw\<lparr>rc_models := es\<rparr>)
        (entry_create ''model'' l (mp_name x) (model_entry x) (rc_models raw))) ls) ls"

definition fs_update_model :: "'t codec \<Rightarrow> layer \<Rightarrow> string \<Rightarrow> string json \<Rightarrow> 't layers \<Rightarrow> (cfg_error + unit) \<times> 't layers" where
  "fs_update_model c l n patch ls = named n
     (with_config c l (\<lambda>raw. map_sum id (\<lambda>es. raw\<lparr>rc_models := es\<rparr>)
        (entry_update ''model'' ''model'' [''provider'', ''model'']
           [''provider'', ''model'', ''temperature'', ''max_tokens'', ''options''] (\<lambda>_. None)
           (cd_model c) l n patch (rc_models raw))) ls) ls"

definition fs_delete_model :: "'t codec \<Rightarrow> layer \<Rightarrow> string \<Rightarrow> 't layers \<Rightarrow> (cfg_error + unit) \<times> 't layers" where
  "fs_delete_model c l n ls = named n
     (with_config c l (\<lambda>raw. map_sum id (\<lambda>es. raw\<lparr>rc_models := es\<rparr>) (entry_delete ''model'' l n (rc_models raw))) ls) ls"

definition fs_create_mcp_server :: "'t codec \<Rightarrow> layer \<Rightarrow> mcp_server \<Rightarrow> 't layers \<Rightarrow> (cfg_error + unit) \<times> 't layers" where
  "fs_create_mcp_server c l x ls = named (srv_name x)
     (with_config c l (\<lambda>raw. map_sum id (\<lambda>es. raw\<lparr>rc_mcp := es\<rparr>)
        (entry_create ''mcp_server'' l (srv_name x) (mcp_server_entry x) (rc_mcp raw))) ls) ls"

definition fs_update_mcp_server :: "'t codec \<Rightarrow> layer \<Rightarrow> string \<Rightarrow> string json \<Rightarrow> 't layers \<Rightarrow> (cfg_error + unit) \<times> 't layers" where
  "fs_update_mcp_server c l n patch ls = named n
     (with_config c l (\<lambda>raw. map_sum id (\<lambda>es. raw\<lparr>rc_mcp := es\<rparr>)
        (entry_update ''mcp_server'' ''mcp server'' [''type'', ''url'']
           [''type'', ''url'', ''headers''] (check_type ''mcp server'' n ''transport'' [''http-streamable'', ''sse''])
           (cd_mcp c) l n patch (rc_mcp raw))) ls) ls"

definition fs_delete_mcp_server :: "'t codec \<Rightarrow> layer \<Rightarrow> string \<Rightarrow> 't layers \<Rightarrow> (cfg_error + unit) \<times> 't layers" where
  "fs_delete_mcp_server c l n ls = named n
     (with_config c l (\<lambda>raw. map_sum id (\<lambda>es. raw\<lparr>rc_mcp := es\<rparr>) (entry_delete ''mcp_server'' l n (rc_mcp raw))) ls) ls"

definition fs_set_default_agent :: "'t codec \<Rightarrow> layer \<Rightarrow> string \<Rightarrow> 't layers \<Rightarrow> (cfg_error + unit) \<times> 't layers" where
  "fs_set_default_agent c l n ls =
     with_config c l (\<lambda>raw. Inr (raw\<lparr>rc_defaults := bt_insert ''agent'' (JStr n) (rc_defaults raw)\<rparr>)) ls"

end
