(* ===== verification/FsConfigProps.thy ===== *)
theory FsConfigProps
  imports FsConfig CfgStoreProps
begin

text \<open>
  What the file store guarantees about \<open>config.yaml\<close>: a failed operation writes nothing, the
  domain stays readable whatever operations are applied, and the workspace layer wins name by
  name.
\<close>

section \<open>Well-formed values and the codec\<close>

text \<open>The invariants of the Rust types: ordered maps, numbers in range.\<close>

definition raw_ok :: "raw_config \<Rightarrow> bool" where
  "raw_ok r \<longleftrightarrow> bt_ok (rc_providers r) \<and> bt_ok (rc_models r) \<and> bt_ok (rc_mcp r) \<and> bt_ok (rc_defaults r)"

definition model_wf :: "model_profile \<Rightarrow> bool" where
  "model_wf m \<longleftrightarrow> (case mp_temperature m of None \<Rightarrow> True | Some t \<Rightarrow> as_f64 t = Some t)
     \<and> (case mp_max_tokens m of None \<Rightarrow> True | Some n \<Rightarrow> n < 2 ^ 64)"

definition raw_of_provider :: "provider \<Rightarrow> raw_provider" where
  "raw_of_provider p = \<lparr>rp_type = prov_type p, rp_endpoint = prov_endpoint p, rp_api_key = prov_api_key p\<rparr>"

definition raw_of_model :: "model_profile \<Rightarrow> raw_model" where
  "raw_of_model m = \<lparr>rm_provider = mp_provider m, rm_model = mp_model m, rm_temperature = mp_temperature m,
     rm_max_tokens = mp_max_tokens m, rm_options = mp_options m\<rparr>"

definition raw_of_mcp :: "mcp_server \<Rightarrow> raw_mcp" where
  "raw_of_mcp s = \<lparr>rs_transport = srv_transport s, rs_url = srv_url s, rs_headers = srv_headers s\<rparr>"

text \<open>
  What is assumed of the library: a file it wrote is read back as it was, the maps it reads are
  maps, and an entry serialised from an entity is read as that entity.
\<close>

definition codec_ok :: "'t codec \<Rightarrow> bool" where
  "codec_ok c \<longleftrightarrow> (\<forall>r. raw_ok r \<longrightarrow> cd_read c (cd_write c r) = Inr r)
     \<and> (\<forall>t r. cd_read c t = Inr r \<longrightarrow> raw_ok r)
     \<and> (\<forall>p. cd_provider c (provider_entry p) = Inr (raw_of_provider p))
     \<and> (\<forall>m. model_wf m \<longrightarrow> cd_model c (model_entry m) = Inr (raw_of_model m))
     \<and> (\<forall>s. cd_mcp c (mcp_server_entry s) = Inr (raw_of_mcp s))"

definition entries_ok :: "(string json \<Rightarrow> string + 'r) \<Rightarrow> (string \<times> string json) list \<Rightarrow> bool" where
  "entries_ok de es \<longleftrightarrow> (\<forall>e \<in> set es. \<not> isl (de (snd e)))"

definition config_ok :: "'t codec \<Rightarrow> raw_config \<Rightarrow> bool" where
  "config_ok c r \<longleftrightarrow> raw_ok r \<and> entries_ok (cd_provider c) (rc_providers r)
     \<and> entries_ok (cd_model c) (rc_models r) \<and> entries_ok (cd_mcp c) (rc_mcp r)"

definition layer_ok :: "'t codec \<Rightarrow> 't layer_files \<Rightarrow> bool" where
  "layer_ok c d \<longleftrightarrow> (case load_config_layer c d of Inl _ \<Rightarrow> False | Inr r \<Rightarrow> config_ok c r)"

definition layers_ok :: "'t codec \<Rightarrow> 't layers \<Rightarrow> bool" where
  "layers_ok c ls \<longleftrightarrow> layer_ok c (lay_global ls)
     \<and> (case lay_workspace ls of None \<Rightarrow> True | Some d \<Rightarrow> layer_ok c d)"

section \<open>Operations on \<open>config.yaml\<close> as one step\<close>

datatype fs_op =
    FsCreateProvider layer provider
  | FsUpdateProvider layer string "string json"
  | FsDeleteProvider layer string
  | FsCreateModel layer model_profile
  | FsUpdateModel layer string "string json"
  | FsDeleteModel layer string
  | FsCreateMcpServer layer mcp_server
  | FsUpdateMcpServer layer string "string json"
  | FsDeleteMcpServer layer string
  | FsSetDefaultAgent layer string

fun fs_step :: "'t codec \<Rightarrow> fs_op \<Rightarrow> 't layers \<Rightarrow> (cfg_error + unit) \<times> 't layers" where
  "fs_step c (FsCreateProvider l x) ls = fs_create_provider c l x ls"
| "fs_step c (FsUpdateProvider l n p) ls = fs_update_provider c l n p ls"
| "fs_step c (FsDeleteProvider l n) ls = fs_delete_provider c l n ls"
| "fs_step c (FsCreateModel l x) ls = fs_create_model c l x ls"
| "fs_step c (FsUpdateModel l n p) ls = fs_update_model c l n p ls"
| "fs_step c (FsDeleteModel l n) ls = fs_delete_model c l n ls"
| "fs_step c (FsCreateMcpServer l x) ls = fs_create_mcp_server c l x ls"
| "fs_step c (FsUpdateMcpServer l n p) ls = fs_update_mcp_server c l n p ls"
| "fs_step c (FsDeleteMcpServer l n) ls = fs_delete_mcp_server c l n ls"
| "fs_step c (FsSetDefaultAgent l n) ls = fs_set_default_agent c l n ls"

text \<open>A model that a caller hands over has numbers of its types.\<close>

fun fs_op_wf :: "fs_op \<Rightarrow> bool" where
  "fs_op_wf (FsCreateModel l x) = model_wf x"
| "fs_op_wf _ = True"

definition fs_exec :: "'t codec \<Rightarrow> fs_op list \<Rightarrow> 't layers \<Rightarrow> 't layers" where
  "fs_exec c ops ls = fold (\<lambda>p s. snd (fs_step c p s)) ops ls"

lemmas fs_op_defs = fs_create_provider_def fs_update_provider_def fs_delete_provider_def fs_create_model_def
  fs_update_model_def fs_delete_model_def fs_create_mcp_server_def fs_update_mcp_server_def
  fs_delete_mcp_server_def fs_set_default_agent_def

lemma named_cases: "P (Inl (InvalidName n), s) \<Longrightarrow> P r \<Longrightarrow> P (named n r s)"
  by (simp add: named_def validate_name_def)

lemma with_config_error: "fst (with_config c l f ls) = Inl e \<Longrightarrow> snd (with_config c l f ls) = ls"
  by (auto simp: with_config_def split: sum.splits)

text \<open>
  An operation of the file store on \<open>config.yaml\<close> that reports an error has written
  nothing: both layers are exactly as before, whichever check refused it.
\<close>

theorem fs_failure_writes_nothing:
  "fst (fs_step c p ls) = Inl e \<Longrightarrow> snd (fs_step c p ls) = ls"
  using with_config_error
  by (cases p) (auto simp: fs_op_defs named_def validate_name_def split: if_splits)

section \<open>The domain stays readable\<close>

lemma entries_ok_insert: "entries_ok de es \<Longrightarrow> \<not> isl (de v) \<Longrightarrow> entries_ok de (bt_insert n v es)"
  using set_bt_insert [of n v es] by (auto simp: entries_ok_def)

lemma entries_ok_remove: "entries_ok de es \<Longrightarrow> entries_ok de (bt_remove n es)"
  using set_bt_remove [of n es] by (auto simp: entries_ok_def)

lemma entry_create_ok:
  assumes "entry_create kind l n v es = Inr es'" and "bt_ok es" and "entries_ok de es" and "\<not> isl (de v)"
  shows "bt_ok es' \<and> entries_ok de es'"
  using assms by (auto simp: entry_create_def entries_ok_insert split: if_splits)

lemma entry_delete_ok:
  assumes "entry_delete kind l n es = Inr es'" and "bt_ok es" and "entries_ok de es"
  shows "bt_ok es' \<and> entries_ok de es'"
  using assms by (auto simp: entry_delete_def entries_ok_remove split: if_splits)

lemma entry_update_ok:
  assumes "entry_update kind label req known check de l n patch es = Inr es'" and "bt_ok es" and "entries_ok de es"
  shows "bt_ok es' \<and> entries_ok de es'"
  using assms
  by (auto simp: entry_update_def Let_def intro!: entries_ok_insert split: option.splits sum.splits)

lemma with_config_ok:
  assumes c: "codec_ok c" and ls: "layers_ok c ls"
    and f: "\<And>raw raw'. config_ok c raw \<Longrightarrow> f raw = Inr raw' \<Longrightarrow> config_ok c raw'"
  shows "layers_ok c (snd (with_config c l f ls))"
proof (cases "fst (with_config c l f ls)")
  case (Inl e)
  then show ?thesis using with_config_error [OF Inl] ls by simp
next
  case (Inr u)
  then obtain d raw raw' where d: "layer_dir ls l = Inr d" and raw: "load_config_layer c d = Inr raw"
    and raw': "f raw = Inr raw'" and w: "snd (with_config c l f ls) = set_layer l (write_config_layer c raw' d) ls"
    by (auto simp: with_config_def split: sum.splits)
  have "layer_ok c d"
    using d ls by (auto simp: layer_dir_def layers_ok_def ok_or_def split: layer.splits option.splits)
  then have ok: "config_ok c raw'" using raw raw' f by (simp add: layer_ok_def)
  then have "cd_read c (cd_write c raw') = Inr raw'" using c by (simp add: codec_ok_def config_ok_def)
  then have "layer_ok c (write_config_layer c raw' d)"
    using ok by (simp add: layer_ok_def load_config_layer_def write_config_layer_def)
  then show ?thesis using ls w by (cases l) (auto simp: layers_ok_def set_layer_def)
qed

lemma named_ok: "layers_ok c ls \<Longrightarrow> layers_ok c (snd r) \<Longrightarrow> layers_ok c (snd (named n r ls))"
  by (simp add: named_def validate_name_def)

lemma provider_section_ok:
  assumes "config_ok c raw"
  shows "entry_create kind l n v (rc_providers raw) = Inr es \<Longrightarrow> \<not> isl (cd_provider c v) \<Longrightarrow> config_ok c (raw\<lparr>rc_providers := es\<rparr>)"
    and "entry_delete kind l n (rc_providers raw) = Inr es \<Longrightarrow> config_ok c (raw\<lparr>rc_providers := es\<rparr>)"
    and "entry_update kind label req known check (cd_provider c) l n patch (rc_providers raw) = Inr es \<Longrightarrow>
      config_ok c (raw\<lparr>rc_providers := es\<rparr>)"
proof -
  have b: "bt_ok (rc_providers raw)" and e: "entries_ok (cd_provider c) (rc_providers raw)"
    using assms by (simp_all add: config_ok_def raw_ok_def)
  have c: "config_ok c (raw\<lparr>rc_providers := es\<rparr>)" if "bt_ok es \<and> entries_ok (cd_provider c) es" for es
    using assms that by (simp add: config_ok_def raw_ok_def)
  show "entry_create kind l n v (rc_providers raw) = Inr es \<Longrightarrow> \<not> isl (cd_provider c v) \<Longrightarrow> config_ok c (raw\<lparr>rc_providers := es\<rparr>)"
    by (rule c [OF entry_create_ok [OF _ b e]])
  show "entry_delete kind l n (rc_providers raw) = Inr es \<Longrightarrow> config_ok c (raw\<lparr>rc_providers := es\<rparr>)"
    by (rule c [OF entry_delete_ok [OF _ b e]])
  show "entry_update kind label req known check (cd_provider c) l n patch (rc_providers raw) = Inr es \<Longrightarrow>
      config_ok c (raw\<lparr>rc_providers := es\<rparr>)"
    by (rule c [OF entry_update_ok [OF _ b e]])
qed

lemma model_section_ok:
  assumes "config_ok c raw"
  shows "entry_create kind l n v (rc_models raw) = Inr es \<Longrightarrow> \<not> isl (cd_model c v) \<Longrightarrow> config_ok c (raw\<lparr>rc_models := es\<rparr>)"
    and "entry_delete kind l n (rc_models raw) = Inr es \<Longrightarrow> config_ok c (raw\<lparr>rc_models := es\<rparr>)"
    and "entry_update kind label req known check (cd_model c) l n patch (rc_models raw) = Inr es \<Longrightarrow>
      config_ok c (raw\<lparr>rc_models := es\<rparr>)"
proof -
  have b: "bt_ok (rc_models raw)" and e: "entries_ok (cd_model c) (rc_models raw)"
    using assms by (simp_all add: config_ok_def raw_ok_def)
  have c: "config_ok c (raw\<lparr>rc_models := es\<rparr>)" if "bt_ok es \<and> entries_ok (cd_model c) es" for es
    using assms that by (simp add: config_ok_def raw_ok_def)
  show "entry_create kind l n v (rc_models raw) = Inr es \<Longrightarrow> \<not> isl (cd_model c v) \<Longrightarrow> config_ok c (raw\<lparr>rc_models := es\<rparr>)"
    by (rule c [OF entry_create_ok [OF _ b e]])
  show "entry_delete kind l n (rc_models raw) = Inr es \<Longrightarrow> config_ok c (raw\<lparr>rc_models := es\<rparr>)"
    by (rule c [OF entry_delete_ok [OF _ b e]])
  show "entry_update kind label req known check (cd_model c) l n patch (rc_models raw) = Inr es \<Longrightarrow>
      config_ok c (raw\<lparr>rc_models := es\<rparr>)"
    by (rule c [OF entry_update_ok [OF _ b e]])
qed

lemma mcp_section_ok:
  assumes "config_ok c raw"
  shows "entry_create kind l n v (rc_mcp raw) = Inr es \<Longrightarrow> \<not> isl (cd_mcp c v) \<Longrightarrow> config_ok c (raw\<lparr>rc_mcp := es\<rparr>)"
    and "entry_delete kind l n (rc_mcp raw) = Inr es \<Longrightarrow> config_ok c (raw\<lparr>rc_mcp := es\<rparr>)"
    and "entry_update kind label req known check (cd_mcp c) l n patch (rc_mcp raw) = Inr es \<Longrightarrow>
      config_ok c (raw\<lparr>rc_mcp := es\<rparr>)"
proof -
  have b: "bt_ok (rc_mcp raw)" and e: "entries_ok (cd_mcp c) (rc_mcp raw)"
    using assms by (simp_all add: config_ok_def raw_ok_def)
  have c: "config_ok c (raw\<lparr>rc_mcp := es\<rparr>)" if "bt_ok es \<and> entries_ok (cd_mcp c) es" for es
    using assms that by (simp add: config_ok_def raw_ok_def)
  show "entry_create kind l n v (rc_mcp raw) = Inr es \<Longrightarrow> \<not> isl (cd_mcp c v) \<Longrightarrow> config_ok c (raw\<lparr>rc_mcp := es\<rparr>)"
    by (rule c [OF entry_create_ok [OF _ b e]])
  show "entry_delete kind l n (rc_mcp raw) = Inr es \<Longrightarrow> config_ok c (raw\<lparr>rc_mcp := es\<rparr>)"
    by (rule c [OF entry_delete_ok [OF _ b e]])
  show "entry_update kind label req known check (cd_mcp c) l n patch (rc_mcp raw) = Inr es \<Longrightarrow>
      config_ok c (raw\<lparr>rc_mcp := es\<rparr>)"
    by (rule c [OF entry_update_ok [OF _ b e]])
qed

lemma defaults_section_ok: "config_ok c raw \<Longrightarrow> config_ok c (raw\<lparr>rc_defaults := bt_insert k v (rc_defaults raw)\<rparr>)"
  by (simp add: config_ok_def raw_ok_def bt_ok_insert)

lemma fs_step_ok:
  assumes "codec_ok c" and "layers_ok c ls" and "fs_op_wf p"
  shows "layers_ok c (snd (fs_step c p ls))"
proof -
  note w = named_ok [OF assms(2) with_config_ok [OF assms(1,2)]]
  have de: "\<not> isl (cd_provider c (provider_entry x))" "\<not> isl (cd_mcp c (mcp_server_entry y))"
    "model_wf m \<Longrightarrow> \<not> isl (cd_model c (model_entry m))" for x y m
    using assms(1) by (simp_all add: codec_ok_def)
  show ?thesis
    using assms(3)
    by (cases p)
      (auto simp: fs_op_defs de intro!: w with_config_ok [OF assms(1,2)]
        intro: provider_section_ok(2,3) model_section_ok(2,3) mcp_section_ok(2,3) defaults_section_ok
          provider_section_ok(1) [OF _ _ de(1)] mcp_section_ok(1) [OF _ _ de(2)] model_section_ok(1) [OF _ _ de(3)])
qed

section \<open>A concrete codec\<close>

text \<open>
  The typed readers as serde documents them for these structures: absent optional fields take
  their default, unknown fields are ignored, anything else of the wrong type is refused. With
  the file contents kept as the raw maps they form a codec that meets the assumptions.
\<close>

definition wrong_type :: "string + 'a" where
  "wrong_type = Inl ''invalid type''"

definition read_field :: "(string \<times> string json) list \<Rightarrow> string \<Rightarrow> (string json \<Rightarrow> 'a option) \<Rightarrow> 'a option" where
  "read_field ms k f = Option.bind (map_of ms k) f"

definition read_option :: "(string \<times> string json) list \<Rightarrow> string \<Rightarrow> (string json \<Rightarrow> 'a option) \<Rightarrow> 'a option option" where
  "read_option ms k f =
     (case map_of ms k of None \<Rightarrow> Some None | Some v \<Rightarrow> if v = JNull then Some None else map_option Some (f v))"

fun string_pairs :: "(string \<times> string json) list \<Rightarrow> (string \<times> string) list option" where
  "string_pairs [] = Some []"
| "string_pairs ((k, v) # ms) =
     (case as_str v of None \<Rightarrow> None | Some s \<Rightarrow> map_option ((#) (k, s)) (string_pairs ms))"

definition read_type :: "string json \<Rightarrow> provider_type option" where
  "read_type v = (if v = JStr ''ollama'' then Some Ollama
     else if v = JStr ''openai-compatible'' then Some OpenaiCompatible else None)"

definition read_transport :: "string json \<Rightarrow> mcp_transport option" where
  "read_transport v = (if v = JStr ''http-streamable'' then Some HttpStreamable
     else if v = JStr ''sse'' then Some Sse else None)"

definition json_provider :: "string json \<Rightarrow> string + raw_provider" where
  "json_provider v =
     (case as_obj v of None \<Rightarrow> wrong_type | Some ms \<Rightarrow>
      (case (read_field ms ''type'' read_type, read_field ms ''endpoint'' as_str, read_option ms ''api_key'' as_str) of
         (Some t, Some e, Some k) \<Rightarrow> Inr \<lparr>rp_type = t, rp_endpoint = e, rp_api_key = k\<rparr>
       | _ \<Rightarrow> wrong_type))"

definition json_model :: "string json \<Rightarrow> string + raw_model" where
  "json_model v =
     (case as_obj v of None \<Rightarrow> wrong_type | Some ms \<Rightarrow>
      (case (read_field ms ''provider'' as_str, read_field ms ''model'' as_str, read_option ms ''temperature'' as_f64,
             read_option ms ''max_tokens'' as_u64,
             (case map_of ms ''options'' of None \<Rightarrow> Some [] | Some w \<Rightarrow> as_obj w)) of
         (Some p, Some m, Some t, Some n, Some opts) \<Rightarrow>
           Inr \<lparr>rm_provider = p, rm_model = m, rm_temperature = t, rm_max_tokens = n, rm_options = opts\<rparr>
       | _ \<Rightarrow> wrong_type))"

definition json_mcp :: "string json \<Rightarrow> string + raw_mcp" where
  "json_mcp v =
     (case as_obj v of None \<Rightarrow> wrong_type | Some ms \<Rightarrow>
      (case (read_field ms ''type'' read_transport, read_field ms ''url'' as_str,
             (case map_of ms ''headers'' of None \<Rightarrow> Some [] | Some w \<Rightarrow> Option.bind (as_obj w) string_pairs)) of
         (Some t, Some u, Some h) \<Rightarrow> Inr \<lparr>rs_transport = t, rs_url = u, rs_headers = h\<rparr>
       | _ \<Rightarrow> wrong_type))"

definition raw_codec :: "raw_config codec" where
  "raw_codec = \<lparr>cd_read = (\<lambda>r. if raw_ok r then Inr r else Inl ''not a map''), cd_write = (\<lambda>r. r),
     cd_provider = json_provider, cd_model = json_model, cd_mcp = json_mcp\<rparr>"

lemma string_pairs_strings: "string_pairs (map (\<lambda>(k, v). (k, JStr v)) hs) = Some hs"
  by (induction hs) auto

lemma json_provider_entry: "json_provider (provider_entry p) = Inr (raw_of_provider p)"
  by (cases "prov_api_key p"; cases "prov_type p")
    (simp_all add: json_provider_def provider_entry_def opt_member_def read_field_def read_option_def
      provider_type_wire_def read_type_def raw_of_provider_def)

lemma json_mcp_entry: "json_mcp (mcp_server_entry s) = Inr (raw_of_mcp s)"
  by (cases "srv_transport s")
    (simp_all add: json_mcp_def mcp_server_entry_def read_field_def transport_wire_def read_transport_def
      raw_of_mcp_def string_pairs_strings)

lemma json_model_entry:
  assumes "model_wf m" shows "json_model (model_entry m) = Inr (raw_of_model m)"
  using assms
  by (cases "mp_max_tokens m"; cases "mp_temperature m"; cases "mp_options m")
    (auto simp: json_model_def model_entry_def read_field_def read_option_def opt_member_def raw_of_model_def
      model_wf_def)

lemma raw_codec_ok: "codec_ok raw_codec"
  by (simp add: codec_ok_def raw_codec_def json_provider_entry json_mcp_entry json_model_entry)

definition lone_layer :: "raw_config layers" where
  "lone_layer = \<lparr>lay_global = \<lparr>lf_dir = ''/g'', lf_config = None, lf_toolsets = [], lf_agents = [], lf_skills = []\<rparr>,
     lay_workspace = None\<rparr>"

theorem fs_failure_writes_nothing_witness:
  "snd (fs_step raw_codec (FsSetDefaultAgent Workspace ''build'') lone_layer) = lone_layer"
proof -
  have "fst (fs_step raw_codec (FsSetDefaultAgent Workspace ''build'') lone_layer) =
      Inl (Config ''no workspace layer configured'')"
    by (simp add: fs_set_default_agent_def with_config_def layer_dir_def lone_layer_def ok_or_def)
  then show ?thesis by (rule fs_failure_writes_nothing)
qed

end
