(* ===== verification/FsLayers.thy ===== *)
theory FsLayers
  imports FsConfigProps
begin

text \<open>
  Reading through the layers: the domain that the lists return after any run of operations, and
  the lookup of a provider by name as a lookup in the workspace layer first.
\<close>

section \<open>Lists over readable layers\<close>

lemma read_entries_ok:
  "entries_ok de es \<Longrightarrow> read_entries label de mk es = Inr (map (\<lambda>e. mk (fst e) (projr (de (snd e)))) es)"
  by (induction label de mk es rule: read_entries.induct) (auto simp: entries_ok_def split: sum.splits)

lemma entries_ok_extend: "entries_ok de g \<Longrightarrow> entries_ok de w \<Longrightarrow> entries_ok de (bt_extend g w)"
  using set_bt_extend [of g w] by (auto simp: entries_ok_def)

lemma merge_ok:
  assumes "config_ok c g" and "case w of None \<Rightarrow> True | Some r \<Rightarrow> config_ok c r"
  shows "config_ok c (merge_config_layers g w)"
  using assms by (auto simp: merge_config_layers_def config_ok_def raw_ok_def entries_ok_extend split: option.splits)

text \<open>The raw maps of a layer that is known to be readable; an absent workspace has none.\<close>

definition layer_config :: "'t codec \<Rightarrow> 't layers \<Rightarrow> layer \<Rightarrow> raw_config" where
  "layer_config c ls l =
     (case layer_dir ls l of
        Inl e \<Rightarrow> raw_config_default
      | Inr d \<Rightarrow> (case load_config_layer c d of Inl e \<Rightarrow> raw_config_default | Inr r \<Rightarrow> r))"

lemma raw_config_default_ok [simp]: "config_ok c raw_config_default"
  by (simp add: raw_config_default_def config_ok_def raw_ok_def entries_ok_def)

lemma layer_config_ok: "layers_ok c ls \<Longrightarrow> config_ok c (layer_config c ls l)"
  by (cases l)
    (auto simp: layers_ok_def layer_ok_def layer_config_def layer_dir_def ok_or_def split: option.splits sum.splits)

lemma load_merged_ok:
  assumes "layers_ok c ls"
  shows "\<exists>r. load_merged_config c ls = Inr r \<and> config_ok c r
    \<and> map_of (rc_providers r) =
        map_of (rc_providers (layer_config c ls Global)) ++ map_of (rc_providers (layer_config c ls Workspace))"
proof -
  obtain g where g: "load_config_layer c (lay_global ls) = Inr g" "config_ok c g"
    using assms by (auto simp: layers_ok_def layer_ok_def split: sum.splits)
  then have lg: "layer_config c ls Global = g" by (simp add: layer_config_def layer_dir_def)
  show ?thesis
  proof (cases "lay_workspace ls")
    case None
    then have "layer_config c ls Workspace = raw_config_default"
      by (simp add: layer_config_def layer_dir_def ok_or_def)
    with g lg None show ?thesis
      by (simp add: load_merged_config_def merge_config_layers_def raw_config_default_def)
  next
    case (Some d)
    then obtain w where w: "load_config_layer c d = Inr w" "config_ok c w"
      using assms by (auto simp: layers_ok_def layer_ok_def split: sum.splits)
    then have lw: "layer_config c ls Workspace = w" using Some by (simp add: layer_config_def layer_dir_def ok_or_def)
    have "config_ok c (merge_config_layers g (Some w))" using g w by (intro merge_ok) auto
    moreover have "bt_ok (rc_providers w)" using w by (simp add: config_ok_def raw_ok_def)
    ultimately show ?thesis
      using g w lg lw Some by (simp add: load_merged_config_def merge_config_layers_def map_of_bt_extend)
  qed
qed

lemma lists_readable:
  assumes "layers_ok c ls"
  shows "\<not> isl (fs_list_providers c ls)" and "\<not> isl (fs_list_models c ls)" and "\<not> isl (fs_list_mcp_servers c ls)"
proof -
  obtain r where "load_merged_config c ls = Inr r" "config_ok c r" using load_merged_ok [OF assms] by blast
  then show "\<not> isl (fs_list_providers c ls)" and "\<not> isl (fs_list_models c ls)" and "\<not> isl (fs_list_mcp_servers c ls)"
    by (simp_all add: fs_list_providers_def fs_list_models_def fs_list_mcp_servers_def config_ok_def read_entries_ok)
qed

text \<open>
  C7: Starting from readable layers, any sequence of operations of the file store, accepted or
  refused, leaves \<open>config.yaml\<close> readable in both layers: providers, models and servers can
  always be listed. In particular no accepted patch makes its entry unreadable.
\<close>

theorem fs_domain_stays_readable:
  assumes "codec_ok c" and "layers_ok c ls" and "list_all fs_op_wf ops"
  shows "layers_ok c (fs_exec c ops ls)
    \<and> \<not> isl (fs_list_providers c (fs_exec c ops ls))
    \<and> \<not> isl (fs_list_models c (fs_exec c ops ls))
    \<and> \<not> isl (fs_list_mcp_servers c (fs_exec c ops ls))"
proof -
  have "layers_ok c (fs_exec c ops ls)"
    using assms(2,3) unfolding fs_exec_def
    by (induction ops arbitrary: ls) (auto simp: fs_step_ok [OF assms(1)])
  then show ?thesis using lists_readable by blast
qed

definition empty_layer :: "string \<Rightarrow> 't layer_files" where
  "empty_layer d = \<lparr>lf_dir = d, lf_config = None, lf_toolsets = [], lf_agents = [], lf_skills = []\<rparr>"

definition two_layers :: "'t layers" where
  "two_layers = \<lparr>lay_global = empty_layer ''/g'', lay_workspace = Some (empty_layer ''/w'')\<rparr>"

lemma two_layers_ok: "layers_ok c two_layers"
  by (simp add: layers_ok_def two_layers_def layer_ok_def load_config_layer_def empty_layer_def)

definition sample_provider :: provider where
  "sample_provider = \<lparr>prov_name = ''p'', prov_type = Ollama, prov_endpoint = ''http://h'', prov_api_key = None\<rparr>"

theorem fs_domain_stays_readable_witness:
  "\<not> isl (fs_list_providers raw_codec (fs_exec raw_codec
     [FsCreateProvider Workspace sample_provider, FsUpdateProvider Workspace ''p'' (JObj [(''endpoint'', JInt 1)])] two_layers))"
  using fs_domain_stays_readable [OF raw_codec_ok two_layers_ok,
    of "[FsCreateProvider Workspace sample_provider, FsUpdateProvider Workspace ''p'' (JObj [(''endpoint'', JInt 1)])]"]
  by simp

section \<open>The workspace wins\<close>

definition fs_get_provider :: "'t codec \<Rightarrow> 't layers \<Rightarrow> string \<Rightarrow> cfg_error + provider" where
  "fs_get_provider c ls n =
     (case fs_list_providers c ls of
        Inl e \<Rightarrow> Inl e
      | Inr ps \<Rightarrow> resolve_by_name prov_name ps ''provider'' n)"

definition provider_at :: "'t codec \<Rightarrow> 't layers \<Rightarrow> layer \<Rightarrow> string \<Rightarrow> provider option" where
  "provider_at c ls l n =
     map_option (\<lambda>v. mk_provider n (projr (cd_provider c v))) (map_of (rc_providers (layer_config c ls l)) n)"

lemma filter_key: "distinct (map fst es) \<Longrightarrow>
    filter (\<lambda>e. fst e = n) es = (case map_of es n of None \<Rightarrow> [] | Some v \<Rightarrow> [(n, v)])"
proof (induction es)
  case (Cons e es)
  then have "fst e = n \<Longrightarrow> map_of es n = None" by (auto simp: map_of_eq_None_iff)
  with Cons show ?case by (cases e) auto
qed simp

text \<open>
  Looking up a provider gives the workspace's entry of that name if there is one, the
  global layer's otherwise, an unknown reference if neither has it, and never a duplicate,
  however the two layers overlap; and \<open>config_entry_source\<close> names exactly that layer.
\<close>

theorem fs_get_provider_layers:
  assumes "layers_ok c ls"
  shows "fs_get_provider c ls n =
      (case provider_at c ls Workspace n of
         Some p \<Rightarrow> Inr p
       | None \<Rightarrow> ok_or (UnknownReference ''provider'' n) (provider_at c ls Global n))
    \<and> config_entry_source c ls n rc_providers =
      (if provider_at c ls Workspace n = None then ''global'' else ''workspace'')"
proof -
  obtain r where r: "load_merged_config c ls = Inr r" "config_ok c r" "map_of (rc_providers r) =
      map_of (rc_providers (layer_config c ls Global)) ++ map_of (rc_providers (layer_config c ls Workspace))"
    using load_merged_ok [OF assms] by blast
  let ?mk = "\<lambda>e. mk_provider (fst e) (projr (cd_provider c (snd e)))"
  have d: "distinct (map fst (rc_providers r))" using r(2) by (simp add: config_ok_def raw_ok_def bt_ok_distinct)
  have "fs_list_providers c ls = Inr (map ?mk (rc_providers r))"
    using r(1,2) by (simp add: fs_list_providers_def read_entries_ok config_ok_def)
  moreover have "filter (\<lambda>p. prov_name p = n) (map ?mk (rc_providers r)) =
      map ?mk (filter (\<lambda>e. fst e = n) (rc_providers r))"
    by (simp add: filter_map comp_def mk_provider_def)
  ultimately have "fs_get_provider c ls n = (case map_of (rc_providers r) n of
      None \<Rightarrow> Inl (UnknownReference ''provider'' n) | Some v \<Rightarrow> Inr (mk_provider n (projr (cd_provider c v))))"
    by (simp add: fs_get_provider_def resolve_by_name_def filter_key [OF d] split: option.split)
  moreover have "config_entry_source c ls n rc_providers =
      (if provider_at c ls Workspace n = None then ''global'' else ''workspace'')"
    by (auto simp: config_entry_source_def provider_at_def layer_config_def layer_dir_def ok_or_def
        raw_config_default_def split: option.splits sum.splits)
  ultimately show ?thesis
    using r(3) by (auto simp: provider_at_def ok_or_def map_add_def split: option.split)
qed

theorem fs_get_provider_layers_witness:
  "fs_get_provider raw_codec two_layers ''p'' = Inl (UnknownReference ''provider'' ''p'')"
  using fs_get_provider_layers [OF two_layers_ok, of raw_codec "''p''"]
  by (simp add: provider_at_def layer_config_def layer_dir_def two_layers_def empty_layer_def ok_or_def
      load_config_layer_def raw_config_default_def)

section \<open>Creating, deleting and patching one entry\<close>

lemma with_config_providers:
  assumes c: "codec_ok c" and ls: "layers_ok c ls"
    and ok: "fst (with_config c l (\<lambda>raw. map_sum id (\<lambda>es. raw\<lparr>rc_providers := es\<rparr>) (f (rc_providers raw))) ls) = Inr ()"
    and f: "\<And>es es'. bt_ok es \<Longrightarrow> f es = Inr es' \<Longrightarrow> bt_ok es'"
  shows "\<exists>es. f (rc_providers (layer_config c ls l)) = Inr es
    \<and> rc_providers (layer_config c (snd (with_config c l (\<lambda>raw. map_sum id (\<lambda>es. raw\<lparr>rc_providers := es\<rparr>) (f (rc_providers raw))) ls)) l) = es
    \<and> (l' \<noteq> l \<longrightarrow> layer_config c (snd (with_config c l (\<lambda>raw. map_sum id (\<lambda>es. raw\<lparr>rc_providers := es\<rparr>) (f (rc_providers raw))) ls)) l'
         = layer_config c ls l')"
proof -
  obtain d raw es where d: "layer_dir ls l = Inr d" and raw: "load_config_layer c d = Inr raw"
    and es: "f (rc_providers raw) = Inr es"
    and w: "snd (with_config c l (\<lambda>raw. map_sum id (\<lambda>es. raw\<lparr>rc_providers := es\<rparr>) (f (rc_providers raw))) ls) =
      set_layer l (write_config_layer c (raw\<lparr>rc_providers := es\<rparr>) d) ls"
    using ok by (auto simp: with_config_def split: sum.splits)
  have lc: "layer_config c ls l = raw" using d raw by (simp add: layer_config_def)
  then have "raw_ok raw" using layer_config_ok [OF ls, of l] by (simp add: config_ok_def)
  then have "raw_ok (raw\<lparr>rc_providers := es\<rparr>)" using f [OF _ es] by (simp add: raw_ok_def)
  then have "cd_read c (cd_write c (raw\<lparr>rc_providers := es\<rparr>)) = Inr (raw\<lparr>rc_providers := es\<rparr>)"
    using c by (simp add: codec_ok_def)
  then show ?thesis
    using es w lc d
    by (cases l; cases l')
      (auto simp: layer_config_def layer_dir_def set_layer_def write_config_layer_def load_config_layer_def ok_or_def
        split: option.splits)
qed

lemma entry_create_bt: "bt_ok es \<Longrightarrow> entry_create kind l n v es = Inr es' \<Longrightarrow> bt_ok es'"
  by (auto simp: entry_create_def split: if_splits)

lemma entry_delete_bt: "bt_ok es \<Longrightarrow> entry_delete kind l n es = Inr es' \<Longrightarrow> bt_ok es'"
  by (auto simp: entry_delete_def split: if_splits)

text \<open>
  A provider created in a layer is the one that layer then holds, was not in it before,
  and every other name and the other layer are untouched; deleting it removes exactly that
  name from that layer. Together with the lookup rule, deleting from the workspace uncovers the
  global provider of the same name.
\<close>

theorem fs_create_delete_provider:
  assumes "codec_ok c" and "layers_ok c ls"
  shows "(fst (fs_create_provider c l p ls) = Inr () \<longrightarrow>
      provider_at c ls l (prov_name p) = None
      \<and> provider_at c (snd (fs_create_provider c l p ls)) l (prov_name p) = Some p
      \<and> ((l', n) \<noteq> (l, prov_name p) \<longrightarrow> provider_at c (snd (fs_create_provider c l p ls)) l' n = provider_at c ls l' n))
    \<and> (fst (fs_delete_provider c l m ls) = Inr () \<longrightarrow>
      provider_at c (snd (fs_delete_provider c l m ls)) l m = None
      \<and> ((l', n) \<noteq> (l, m) \<longrightarrow> provider_at c (snd (fs_delete_provider c l m ls)) l' n = provider_at c ls l' n))"
proof (intro conjI impI)
  have p: "mk_provider (prov_name p) (projr (cd_provider c (provider_entry p))) = p"
    using assms(1) by (simp add: codec_ok_def mk_provider_def raw_of_provider_def)
  { assume ok: "fst (fs_create_provider c l p ls) = Inr ()"
    then have v: "valid_name (prov_name p)" by (auto simp: fs_create_provider_def named_def validate_name_def split: if_splits)
    have "\<exists>es. entry_create ''provider'' l (prov_name p) (provider_entry p) (rc_providers (layer_config c ls l)) = Inr es
      \<and> rc_providers (layer_config c (snd (fs_create_provider c l p ls)) l) = es
      \<and> (l' \<noteq> l \<longrightarrow> layer_config c (snd (fs_create_provider c l p ls)) l' = layer_config c ls l')" for l'
    proof -
      have e: "fs_create_provider c l p ls = with_config c l (\<lambda>raw. map_sum id (\<lambda>es. raw\<lparr>rc_providers := es\<rparr>)
          (entry_create ''provider'' l (prov_name p) (provider_entry p) (rc_providers raw))) ls"
        using v by (simp add: fs_create_provider_def named_def validate_name_def)
      show ?thesis
        unfolding e by (rule with_config_providers [OF assms ok [unfolded e]]) (rule entry_create_bt)
    qed
    note w = this
    from w [of l] obtain es where a: "entry_create ''provider'' l (prov_name p) (provider_entry p) (rc_providers (layer_config c ls l)) = Inr es"
      and b: "rc_providers (layer_config c (snd (fs_create_provider c l p ls)) l) = es" by blast
    have n: "map_of (rc_providers (layer_config c ls l)) (prov_name p) = None"
      and i: "map_of (rc_providers (layer_config c (snd (fs_create_provider c l p ls)) l)) =
        (map_of (rc_providers (layer_config c ls l)))(prov_name p \<mapsto> provider_entry p)"
      unfolding b using a by (auto simp: entry_create_def split: if_splits)
    show "provider_at c ls l (prov_name p) = None" by (simp add: provider_at_def n)
    show "provider_at c (snd (fs_create_provider c l p ls)) l (prov_name p) = Some p"
      by (simp add: provider_at_def i p)
    show "provider_at c (snd (fs_create_provider c l p ls)) l' n = provider_at c ls l' n"
      if "(l', n) \<noteq> (l, prov_name p)"
      using w [of l'] that by (cases "l' = l") (auto simp: provider_at_def i) }
  { assume ok: "fst (fs_delete_provider c l m ls) = Inr ()"
    then have v: "valid_name m" by (auto simp: fs_delete_provider_def named_def validate_name_def split: if_splits)
    have "\<exists>es. entry_delete ''provider'' l m (rc_providers (layer_config c ls l)) = Inr es
      \<and> rc_providers (layer_config c (snd (fs_delete_provider c l m ls)) l) = es
      \<and> (l' \<noteq> l \<longrightarrow> layer_config c (snd (fs_delete_provider c l m ls)) l' = layer_config c ls l')" for l'
    proof -
      have e: "fs_delete_provider c l m ls = with_config c l (\<lambda>raw. map_sum id (\<lambda>es. raw\<lparr>rc_providers := es\<rparr>)
          (entry_delete ''provider'' l m (rc_providers raw))) ls"
        using v by (simp add: fs_delete_provider_def named_def validate_name_def)
      show ?thesis
        unfolding e by (rule with_config_providers [OF assms ok [unfolded e]]) (rule entry_delete_bt)
    qed
    note w = this
    from w [of l] obtain es where a: "entry_delete ''provider'' l m (rc_providers (layer_config c ls l)) = Inr es"
      and b: "rc_providers (layer_config c (snd (fs_delete_provider c l m ls)) l) = es" by blast
    have i: "map_of (rc_providers (layer_config c (snd (fs_delete_provider c l m ls)) l)) =
        (map_of (rc_providers (layer_config c ls l)))(m := None)"
      unfolding b using a by (auto simp: entry_delete_def split: if_splits)
    show "provider_at c (snd (fs_delete_provider c l m ls)) l m = None"
      by (simp add: provider_at_def i)
    show "provider_at c (snd (fs_delete_provider c l m ls)) l' n = provider_at c ls l' n"
      if "(l', n) \<noteq> (l, m)"
      using w [of l'] that by (cases "l' = l") (auto simp: provider_at_def i) }
qed

lemma sample_created: "fst (fs_create_provider raw_codec Workspace sample_provider two_layers) = Inr ()"
  by code_simp

theorem fs_create_delete_provider_witness:
  "provider_at raw_codec (snd (fs_create_provider raw_codec Workspace sample_provider two_layers)) Workspace ''p''
     = Some sample_provider"
  using fs_create_delete_provider [OF raw_codec_ok two_layers_ok, of Workspace sample_provider] sample_created
  by (simp add: sample_provider_def)

end
