(* ===== verification/StrText.thy ===== *)
theory StrText
  imports Prelude
begin

text \<open>
  Rust's \<open>str::lines\<close>, \<open>str::trim\<close> and number formatting on byte strings. White space is
  Unicode's: the six ASCII characters and the UTF-8 encodings of the nineteen others.
\<close>

section \<open>Lines\<close>

abbreviation nl :: char where "nl \<equiv> CHR 0x0A"
abbreviation cr :: char where "cr \<equiv> CHR 0x0D"

definition strip_cr :: "string \<Rightarrow> string" where
  "strip_cr l = (if l \<noteq> [] \<and> last l = cr then butlast l else l)"

definition str_lines :: "string \<Rightarrow> string list" where
  "str_lines s =
     (let ps = split_on nl s in
      map strip_cr (butlast ps) @ (if last ps = [] then [] else [last ps]))"

lemma strip_cr_id [simp]: "cr \<notin> set l \<Longrightarrow> strip_cr l = l"
  by (auto simp: strip_cr_def dest: last_in_set)

lemma str_lines_Nil [simp]: "str_lines [] = []"
  by (simp add: str_lines_def)

lemma str_lines_line: "nl \<notin> set l \<Longrightarrow> str_lines (l @ nl # s) = strip_cr l # str_lines s"
  by (simp add: str_lines_def split_on_append_sep Let_def)

lemma str_lines_last: "nl \<notin> set l \<Longrightarrow> l \<noteq> [] \<Longrightarrow> str_lines l = [l]"
  by (simp add: str_lines_def split_on_single)

lemma map_strip_cr_id: "cr \<notin> set (concat ls) \<Longrightarrow> map strip_cr ls = ls"
  by (induction ls) auto

lemma set_join_with: "set (join_with c xs) \<subseteq> insert c (\<Union> (set ` set xs))"
  by (induction c xs rule: join_with.induct) auto

lemma set_split_on: "p \<in> set (split_on c xs) \<Longrightarrow> set p \<subseteq> set xs"
proof (induction xs arbitrary: p)
  case (Cons x xs)
  obtain y ys where "split_on c xs = y # ys" using split_on_nonempty by (cases "split_on c xs") auto
  with Cons show ?case by (fastforce split: if_splits)
qed simp

text \<open>\<open>join\<close> with a separator of several bytes.\<close>

fun join_str :: "string \<Rightarrow> string list \<Rightarrow> string" where
  "join_str sep [] = []"
| "join_str sep [x] = x"
| "join_str sep (x # y # zs) = x @ sep @ join_str sep (y # zs)"

text \<open>\<open>trim_end_matches\<close> of slashes.\<close>

definition trim_slashes :: "string \<Rightarrow> string" where
  "trim_slashes url = trim_end_by ((=) (CHR 0x2F)) url"

text \<open>\<open>to_ascii_lowercase\<close> of one byte.\<close>

definition ascii_lower :: "char \<Rightarrow> char" where
  "ascii_lower c =
     (if 65 \<le> (of_char c :: nat) \<and> (of_char c :: nat) \<le> 90 then char_of (of_char c + 32 :: nat) else c)"

text \<open>Joining the lines of a text without carriage returns that does not end in a line feed gives it back.\<close>

lemma join_str_lines:
  assumes "cr \<notin> set s" and "s \<noteq> [] \<Longrightarrow> last s \<noteq> nl"
  shows "join_with nl (str_lines s) = s"
proof -
  define ps where "ps = split_on nl s"
  have ne: "ps \<noteq> []" and j: "join_with nl ps = s" by (simp_all add: ps_def)
  have "cr \<notin> set (concat (butlast ps))"
    using assms(1) set_split_on [of _ nl s] by (auto simp: ps_def dest!: in_set_butlastD)
  then have m: "map strip_cr (butlast ps) = butlast ps" by (rule map_strip_cr_id)
  show ?thesis
  proof (cases "last ps = []")
    case True
    show ?thesis
    proof (cases "butlast ps = []")
      case True
      then have "ps = [[]]" using ne \<open>last ps = []\<close> by (metis append_butlast_last_id append_Nil)
      with j have "s = []" by simp
      then show ?thesis by simp
    next
      case False
      have "s = join_with nl (butlast ps @ [last ps])" using ne j by simp
      also have "\<dots> = join_with nl (butlast ps) @ [nl]"
        using False True by (subst join_with_append) simp_all
      finally show ?thesis using assms(2) by simp
    qed
  next
    case False
    then show ?thesis
      using ne j m by (simp add: str_lines_def Let_def flip: ps_def)
  qed
qed

text \<open>A text of lines, each ended by a line feed, followed by a rest.\<close>

definition unlines :: "string list \<Rightarrow> string" where
  "unlines ls = concat (map (\<lambda>l. l @ [nl]) ls)"

lemma str_lines_unlines:
  "\<forall>l \<in> set ls. nl \<notin> set l \<and> cr \<notin> set l \<Longrightarrow> str_lines (unlines ls @ s) = ls @ str_lines s"
  by (induction ls) (simp_all add: unlines_def str_lines_line)

section \<open>Trimming\<close>

definition white_seqs :: "string list" where
  "white_seqs = [[CHR 0x09], [CHR 0x0A], [CHR 0x0B], [CHR 0x0C], [CHR 0x0D], [CHR 0x20]] @ map (map char_of)
     [[0xC2, 0x85], [0xC2, 0xA0], [0xE1, 0x9A, 0x80],
      [0xE2, 0x80, 0x80], [0xE2, 0x80, 0x81], [0xE2, 0x80, 0x82], [0xE2, 0x80, 0x83], [0xE2, 0x80, 0x84],
      [0xE2, 0x80, 0x85], [0xE2, 0x80, 0x86], [0xE2, 0x80, 0x87], [0xE2, 0x80, 0x88], [0xE2, 0x80, 0x89],
      [0xE2, 0x80, 0x8A], [0xE2, 0x80, 0xA8], [0xE2, 0x80, 0xA9], [0xE2, 0x80, 0xAF], [0xE2, 0x81, 0x9F],
      [0xE3, 0x80, 0x80 :: nat]]"

fun strip_any :: "'a list list \<Rightarrow> 'a list \<Rightarrow> 'a list option" where
  "strip_any [] s = None"
| "strip_any (w # ws) s =
     (case strip_prefix w s of Some r \<Rightarrow> if w = [] then strip_any ws s else Some r | None \<Rightarrow> strip_any ws s)"

lemma strip_any_Some: "strip_any ws s = Some r \<Longrightarrow> \<exists>w \<in> set ws. w \<noteq> [] \<and> s = w @ r"
  by (induction ws) (auto simp: strip_prefix_Some_iff split: option.splits if_splits)

lemma strip_any_None: "strip_any ws s = None \<longleftrightarrow> (\<forall>w \<in> set ws. \<forall>r. w \<noteq> [] \<longrightarrow> s \<noteq> w @ r)"
  by (induction ws) (auto simp: strip_prefix_Some_iff split: option.splits)

function trim_start_seqs :: "'a list list \<Rightarrow> 'a list \<Rightarrow> 'a list" where
  "trim_start_seqs ws s = (case strip_any ws s of None \<Rightarrow> s | Some r \<Rightarrow> trim_start_seqs ws r)"
  by auto
termination
  by (relation "measure (\<lambda>(ws, s). length s)") (auto dest!: strip_any_Some)

declare trim_start_seqs.simps [simp del]

definition str_trim_start :: "string \<Rightarrow> string" where
  "str_trim_start s = trim_start_seqs white_seqs s"

definition str_trim_end :: "string \<Rightarrow> string" where
  "str_trim_end s = rev (trim_start_seqs (map rev white_seqs) (rev s))"

definition str_trim :: "string \<Rightarrow> string" where
  "str_trim s = str_trim_end (str_trim_start s)"

lemma trim_start_fix: "strip_any ws (trim_start_seqs ws s) = None"
proof (induction ws s rule: trim_start_seqs.induct)
  case (1 ws s)
  then show ?case
    by (cases "strip_any ws s") (simp_all add: trim_start_seqs.simps [of ws s])
qed

lemma trim_start_id: "strip_any ws s = None \<Longrightarrow> trim_start_seqs ws s = s"
  by (subst trim_start_seqs.simps) simp

lemma trim_start_suffix: "\<exists>p. s = p @ trim_start_seqs ws s"
proof (induction ws s rule: trim_start_seqs.induct)
  case (1 ws s)
  show ?case
  proof (cases "strip_any ws s")
    case None
    then show ?thesis by (simp add: trim_start_id)
  next
    case (Some r)
    from strip_any_Some [OF Some] obtain w where "s = w @ r" by auto
    moreover from 1 [OF Some] obtain p where "r = p @ trim_start_seqs ws r" by auto
    moreover have "trim_start_seqs ws s = trim_start_seqs ws r"
      by (subst trim_start_seqs.simps) (simp add: Some)
    ultimately have "s = (w @ p) @ trim_start_seqs ws s" by simp
    then show ?thesis by blast
  qed
qed

lemma strip_any_prefix: "strip_any ws (a @ b) = None \<Longrightarrow> strip_any ws a = None"
  by (simp add: strip_any_None) (metis append.assoc)

lemma str_trim_end_prefix: "\<exists>p. s = str_trim_end s @ p"
proof -
  obtain q where "rev s = q @ trim_start_seqs (map rev white_seqs) (rev s)" using trim_start_suffix by blast
  then have "s = rev (trim_start_seqs (map rev white_seqs) (rev s)) @ rev q" by (metis rev_append rev_rev_ident)
  then show ?thesis by (auto simp: str_trim_end_def)
qed

lemma str_trim_end_idem [simp]: "str_trim_end (str_trim_end s) = str_trim_end s"
  by (simp add: str_trim_end_def trim_start_id trim_start_fix)

lemma str_trim_idem [simp]: "str_trim (str_trim s) = str_trim s"
proof -
  obtain p where "str_trim_start s = str_trim s @ p"
    using str_trim_end_prefix [of "str_trim_start s"] by (auto simp: str_trim_def)
  moreover have "strip_any white_seqs (str_trim_start s) = None"
    by (simp add: str_trim_start_def trim_start_fix)
  ultimately have "strip_any white_seqs (str_trim s) = None" by (metis strip_any_prefix)
  then have "str_trim_start (str_trim s) = str_trim s" by (simp add: str_trim_start_def trim_start_id)
  then show ?thesis by (simp add: str_trim_def)
qed

lemma str_trim_Nil [simp]: "str_trim [] = []"
  using str_trim_end_prefix [of "[]"] trim_start_suffix [of "[]" white_seqs]
  by (simp add: str_trim_def str_trim_start_def)

lemma set_str_trim: "set (str_trim s) \<subseteq> set s"
  using str_trim_end_prefix [of "str_trim_start s"] trim_start_suffix [of s white_seqs]
  by (metis Un_iff set_append str_trim_def str_trim_start_def subsetI)

lemma str_trim_last: "str_trim s \<noteq> [] \<Longrightarrow> last (str_trim s) \<noteq> nl"
proof
  assume ne: "str_trim s \<noteq> []" and l: "last (str_trim s) = nl"
  have f: "strip_any (map rev white_seqs) (rev (str_trim s)) = None"
    by (simp add: str_trim_def str_trim_end_def trim_start_fix)
  have "rev (str_trim s) = [nl] @ rev (butlast (str_trim s))"
    using ne l by (metis append_Cons append_Nil append_butlast_last_id rev.simps(2) rev_append rev_singleton_conv)
  moreover have "[nl] \<in> set (map rev white_seqs)" by (simp add: white_seqs_def)
  ultimately show False using f unfolding strip_any_None by blast
qed

end
