(* ===== verification/FsFiles.thy ===== *)
theory FsFiles
  imports FsConfigProps StrText
begin

text \<open>
  The part of the file store (\<open>cfgstore/src/fs_store.rs\<close>) kept one file per entity: agents and
  skills as markdown with a YAML front matter, toolsets as YAML. The YAML parser and printer are
  parameters (\<open>yp\<close>, \<open>yw\<close>) between texts and JSON values; what serde reads out of a value is
  written out from the attributes of the structures. A layer's directory is the map from the
  file's stem (the skill's directory) to its text.
\<close>

section \<open>Front matter\<close>

definition frontmatter_open :: "string \<Rightarrow> cfg_error" where
  "frontmatter_open path = Config (path @ '': must start with '' @ squote ''---'' @ '' frontmatter delimiter'')"

definition frontmatter_close :: "string \<Rightarrow> cfg_error" where
  "frontmatter_close path = Config (path @ '': missing closing '' @ squote ''---'' @ '' for frontmatter'')"

fun until_rule :: "string list \<Rightarrow> (string list \<times> string list) option" where
  "until_rule [] = None"
| "until_rule (l # ls) =
     (if l = ''---'' then Some ([], ls)
      else map_option (\<lambda>(f, b). (l # f, b)) (until_rule ls))"

definition split_frontmatter :: "string \<Rightarrow> string \<Rightarrow> cfg_error + (string \<times> string)" where
  "split_frontmatter path content =
     (case str_lines content of
        [] \<Rightarrow> Inl (frontmatter_open path)
      | l # ls \<Rightarrow>
          if l \<noteq> ''---'' then Inl (frontmatter_open path)
          else (case until_rule ls of
                  None \<Rightarrow> Inl (frontmatter_close path)
                | Some (f, b) \<Rightarrow> Inr (join_with nl f, join_with nl b)))"

section \<open>What serde reads\<close>

definition read_strings :: "string json \<Rightarrow> string list option" where
  "read_strings v = Option.bind (as_arr v) visit_names"

definition read_default :: "(string \<times> string json) list \<Rightarrow> string \<Rightarrow> 'a \<Rightarrow> (string json \<Rightarrow> 'a option) \<Rightarrow> 'a option" where
  "read_default ms k d f = (case map_of ms k of None \<Rightarrow> Some d | Some v \<Rightarrow> f v)"

definition read_mode :: "string json \<Rightarrow> agent_mode option" where
  "read_mode v = (if v = JStr ''primary'' then Some Primary else if v = JStr ''subagent'' then Some Subagent
     else if v = JStr ''all'' then Some AllModes else None)"

text \<open>\<open>RawAgentFrontmatter\<close>: the agent but for its name and its prompt.\<close>

definition json_agent :: "string \<Rightarrow> string \<Rightarrow> string json \<Rightarrow> string + agent" where
  "json_agent name prompt v =
     (case as_obj v of None \<Rightarrow> wrong_type | Some ms \<Rightarrow>
      (case (read_option ms ''description'' as_str, read_default ms ''mode'' Primary read_mode,
             read_field ms ''model'' as_str, read_default ms ''toolsets'' [] read_strings,
             read_default ms ''skills'' AutoSkills skill_selection_de) of
         (Some d, Some md, Some m, Some ts, Some sk) \<Rightarrow>
           Inr \<lparr>ag_name = name, ag_description = d, ag_mode = md, ag_model = m, ag_toolsets = ts,
             ag_skills = sk, ag_system_prompt = prompt\<rparr>
       | _ \<Rightarrow> wrong_type))"

fun string_lists :: "(string \<times> string json) list \<Rightarrow> (string \<times> string list) list option" where
  "string_lists [] = Some []"
| "string_lists ((k, v) # ms) =
     (case read_strings v of None \<Rightarrow> None | Some s \<Rightarrow> map_option ((#) (k, s)) (string_lists ms))"

text \<open>\<open>RawToolsetFile\<close> with its \<open>RawToolsSection\<close>.\<close>

definition json_tools :: "string json \<Rightarrow> (string list \<times> (string \<times> string list) list) option" where
  "json_tools v =
     (case as_obj v of None \<Rightarrow> None | Some ms \<Rightarrow>
      (case (read_default ms ''local'' [] read_strings,
             read_default ms ''mcp'' [] (\<lambda>w. Option.bind (as_obj w) string_lists)) of
         (Some l, Some m) \<Rightarrow> Some (l, m)
       | _ \<Rightarrow> None))"

definition json_toolset :: "string \<Rightarrow> string json \<Rightarrow> string + toolset" where
  "json_toolset name v =
     (case as_obj v of None \<Rightarrow> wrong_type | Some ms \<Rightarrow>
      (case (read_option ms ''description'' as_str, read_option ms ''prompt'' as_str,
             read_default ms ''tools'' ([], []) json_tools) of
         (Some d, Some p, Some (l, m)) \<Rightarrow>
           Inr \<lparr>ts_name = name, ts_description = d, ts_prompt = p, ts_local_tools = l,
             ts_mcp = map (\<lambda>(s, t). \<lparr>sel_server = s, sel_tools = t\<rparr>) m\<rparr>
       | _ \<Rightarrow> wrong_type))"

definition json_skill :: "string \<Rightarrow> string json \<Rightarrow> string + skill_meta" where
  "json_skill name v =
     (case as_obj v of None \<Rightarrow> wrong_type | Some ms \<Rightarrow>
      (case read_field ms ''description'' as_str of
         Some d \<Rightarrow> Inr \<lparr>sk_name = name, sk_description = d\<rparr>
       | None \<Rightarrow> wrong_type))"

section \<open>Files to entities and back\<close>

definition cfg_at :: "string \<Rightarrow> string + 'a \<Rightarrow> cfg_error + 'a" where
  "cfg_at path r = (case r of Inl e \<Rightarrow> Inl (Config (path @ '': '' @ e)) | Inr x \<Rightarrow> Inr x)"

definition bind_sum :: "'e + 'a \<Rightarrow> ('a \<Rightarrow> 'e + 'b) \<Rightarrow> 'e + 'b" where
  "bind_sum r f = (case r of Inl e \<Rightarrow> Inl e | Inr x \<Rightarrow> f x)"

definition parse_agent_file :: "(string \<Rightarrow> string + string json) \<Rightarrow> string \<Rightarrow> string \<Rightarrow> string \<Rightarrow> cfg_error + agent" where
  "parse_agent_file yp name path content =
     (case split_frontmatter path content of
        Inl e \<Rightarrow> Inl e
      | Inr (front, body) \<Rightarrow> cfg_at path (bind_sum (yp front) (json_agent name (str_trim body))))"

definition parse_toolset_file :: "(string \<Rightarrow> string + string json) \<Rightarrow> string \<Rightarrow> string \<Rightarrow> string \<Rightarrow> cfg_error + toolset" where
  "parse_toolset_file yp name path content = cfg_at path (bind_sum (yp content) (json_toolset name))"

definition parse_skill_file :: "(string \<Rightarrow> string + string json) \<Rightarrow> string \<Rightarrow> string \<Rightarrow> string \<Rightarrow> cfg_error + skill_meta \<times> string" where
  "parse_skill_file yp name path content =
     (case split_frontmatter path content of
        Inl e \<Rightarrow> Inl e
      | Inr (front, body) \<Rightarrow>
          map_sum id (\<lambda>m. (m, str_trim body)) (cfg_at path (bind_sum (yp front) (json_skill name))))"

definition agent_front :: "agent \<Rightarrow> string json" where
  "agent_front a = JObj (opt_member ''description'' JStr (ag_description a)
     @ [(''mode'', JStr (case ag_mode a of Primary \<Rightarrow> ''primary'' | Subagent \<Rightarrow> ''subagent'' | AllModes \<Rightarrow> ''all'')),
        (''model'', JStr (ag_model a)),
        (''skills'', skill_selection_ser (ag_skills a))]
     @ (if ag_toolsets a = [] then [] else [(''toolsets'', JArr (map JStr (ag_toolsets a)))]))"

definition agent_to_md :: "(string json \<Rightarrow> string) \<Rightarrow> agent \<Rightarrow> string" where
  "agent_to_md yw a =
     ''---'' @ [nl] @ yw (agent_front a) @ ''---'' @ [nl] @ str_trim (ag_system_prompt a)"

definition skill_front :: "skill_meta \<Rightarrow> string json" where
  "skill_front m = JObj [(''description'', JStr (sk_description m)), (''name'', JStr (sk_name m))]"

definition skill_to_md :: "(string json \<Rightarrow> string) \<Rightarrow> skill_meta \<Rightarrow> string \<Rightarrow> string" where
  "skill_to_md yw m body = ''---'' @ [nl] @ yw (skill_front m) @ ''---'' @ [nl] @ str_trim body"

text \<open>The servers of a toolset become the keys of a map: a second selection of a server replaces the first.\<close>

definition toolset_to_yaml_json :: "toolset \<Rightarrow> string json" where
  "toolset_to_yaml_json t =
     JObj (opt_member ''description'' JStr (ts_description t)
       @ opt_member ''prompt'' JStr (ts_prompt t)
       @ [(''tools'', JObj
            ((if ts_local_tools t = [] then [] else [(''local'', JArr (map JStr (ts_local_tools t)))])
             @ (if ts_mcp t = [] then []
                else [(''mcp'', JObj (bt_of_list (map (\<lambda>s. (sel_server s, JArr (map JStr (sel_tools s)))) (ts_mcp t))))])))])"

section \<open>The operations on files\<close>

definition stem_path :: "'t layer_files \<Rightarrow> string \<Rightarrow> string \<Rightarrow> string \<Rightarrow> string" where
  "stem_path d sub n ext = lf_dir d @ ''/'' @ sub @ ''/'' @ n @ ext"

definition merge_layer_files :: "(string \<times> 'p) list \<Rightarrow> (string \<times> 'p) list option \<Rightarrow> (string \<times> 'p) list" where
  "merge_layer_files g w = (case w of None \<Rightarrow> g | Some ws \<Rightarrow> bt_extend g ws)"

text \<open>The files of a directory of both layers, each with its path.\<close>

definition with_paths :: "string \<Rightarrow> string \<Rightarrow> ('t layer_files \<Rightarrow> (string \<times> string) list) \<Rightarrow> 't layer_files
    \<Rightarrow> (string \<times> string \<times> string) list" where
  "with_paths sub ext get d = map (\<lambda>(n, t). (n, stem_path d sub n ext, t)) (get d)"

definition resolve_named_files :: "'t layers \<Rightarrow> string \<Rightarrow> string \<Rightarrow> ('t layer_files \<Rightarrow> (string \<times> string) list)
    \<Rightarrow> (string \<times> string \<times> string) list" where
  "resolve_named_files ls sub ext get =
     merge_layer_files (with_paths sub ext get (lay_global ls))
       (map_option (with_paths sub ext get) (lay_workspace ls))"

fun parse_files :: "(string \<Rightarrow> string \<Rightarrow> string \<Rightarrow> cfg_error + 'a) \<Rightarrow> (string \<times> string \<times> string) list \<Rightarrow> cfg_error + 'a list" where
  "parse_files f [] = Inr []"
| "parse_files f ((n, p, t) # fs) =
     (case f n p t of Inl e \<Rightarrow> Inl e | Inr x \<Rightarrow> map_sum id ((#) x) (parse_files f fs))"

definition fs_list_agents :: "(string \<Rightarrow> string + string json) \<Rightarrow> 't layers \<Rightarrow> cfg_error + agent list" where
  "fs_list_agents yp ls = parse_files (parse_agent_file yp) (resolve_named_files ls ''agents'' ''.md'' lf_agents)"

definition fs_list_toolsets :: "(string \<Rightarrow> string + string json) \<Rightarrow> 't layers \<Rightarrow> cfg_error + toolset list" where
  "fs_list_toolsets yp ls = parse_files (parse_toolset_file yp) (resolve_named_files ls ''toolsets'' ''.yaml'' lf_toolsets)"

definition fs_list_skills :: "(string \<Rightarrow> string + string json) \<Rightarrow> 't layers \<Rightarrow> cfg_error + skill_meta list" where
  "fs_list_skills yp ls =
     parse_files (\<lambda>n p t. map_sum id fst (parse_skill_file yp n p t)) (resolve_named_files ls ''skills'' ''/SKILL.md'' lf_skills)"

definition fs_load_skill :: "'t layers \<Rightarrow> string \<Rightarrow> cfg_error + string" where
  "fs_load_skill ls n =
     (case map_of (resolve_named_files ls ''skills'' ''/SKILL.md'' lf_skills) n of
        None \<Rightarrow> Inl (UnknownReference ''skill'' n)
      | Some (path, content) \<Rightarrow> map_sum id (\<lambda>fb. str_trim (snd fb)) (split_frontmatter path content))"

text \<open>
  The common course of the writes: the name, the layer, then the change of the layer's files.
\<close>

definition with_files :: "string \<Rightarrow> layer \<Rightarrow> ('t layer_files \<Rightarrow> cfg_error + 't layer_files) \<Rightarrow> 't layers
    \<Rightarrow> (cfg_error + unit) \<times> 't layers" where
  "with_files n l f ls = named n
     (case layer_dir ls l of
        Inl e \<Rightarrow> (Inl e, ls)
      | Inr d \<Rightarrow> (case f d of Inl e \<Rightarrow> (Inl e, ls) | Inr d' \<Rightarrow> (Inr (), set_layer l d' ls))) ls"

definition file_create :: "string \<Rightarrow> layer \<Rightarrow> string \<Rightarrow> string \<Rightarrow> (string \<times> string) list \<Rightarrow> cfg_error + (string \<times> string) list" where
  "file_create kind l n text fs =
     (if map_of fs n \<noteq> None then Inl (NameConflict kind n l) else Inr (bt_insert n text fs))"

definition file_delete :: "string \<Rightarrow> layer \<Rightarrow> string \<Rightarrow> (string \<times> string) list \<Rightarrow> cfg_error + (string \<times> string) list" where
  "file_delete kind l n fs =
     (if map_of fs n = None then Inl (NotFound kind n l) else Inr (bt_remove n fs))"

text \<open>Parse the file, apply the patch to the entity, write it back.\<close>

definition file_update :: "string \<Rightarrow> layer \<Rightarrow> string \<Rightarrow> (string \<Rightarrow> cfg_error + 'a)
    \<Rightarrow> (string \<Rightarrow> string json \<Rightarrow> 'a \<Rightarrow> cfg_error + 'a) \<Rightarrow> ('a \<Rightarrow> string) \<Rightarrow> string json
    \<Rightarrow> (string \<times> string) list \<Rightarrow> cfg_error + (string \<times> string) list" where
  "file_update kind l n parse field render patch fs =
     (case map_of fs n of
        None \<Rightarrow> Inl (NotFound kind n l)
      | Some text \<Rightarrow>
          (case parse text of
             Inl e \<Rightarrow> Inl e
           | Inr x \<Rightarrow>
               (case patch_item field patch x of
                  (Inl e, _) \<Rightarrow> Inl e
                | (Inr _, y) \<Rightarrow> Inr (bt_insert n (render y) fs))))"

definition fs_create_agent :: "(string json \<Rightarrow> string) \<Rightarrow> layer \<Rightarrow> agent \<Rightarrow> 't layers \<Rightarrow> (cfg_error + unit) \<times> 't layers" where
  "fs_create_agent yw l a ls = with_files (ag_name a) l
     (\<lambda>d. map_sum id (\<lambda>fs. d\<lparr>lf_agents := fs\<rparr>) (file_create ''agent'' l (ag_name a) (agent_to_md yw a) (lf_agents d))) ls"

definition fs_delete_agent :: "layer \<Rightarrow> string \<Rightarrow> 't layers \<Rightarrow> (cfg_error + unit) \<times> 't layers" where
  "fs_delete_agent l n ls = with_files n l
     (\<lambda>d. map_sum id (\<lambda>fs. d\<lparr>lf_agents := fs\<rparr>) (file_delete ''agent'' l n (lf_agents d))) ls"

definition fs_update_agent :: "(string \<Rightarrow> string + string json) \<Rightarrow> (string json \<Rightarrow> string) \<Rightarrow> layer \<Rightarrow> string \<Rightarrow> string json
    \<Rightarrow> 't layers \<Rightarrow> (cfg_error + unit) \<times> 't layers" where
  "fs_update_agent yp yw l n patch ls = with_files n l
     (\<lambda>d. map_sum id (\<lambda>fs. d\<lparr>lf_agents := fs\<rparr>)
        (file_update ''agent'' l n (parse_agent_file yp n (stem_path d ''agents'' n ''.md'')) agent_field
           (agent_to_md yw) patch (lf_agents d))) ls"

definition fs_create_toolset :: "(string json \<Rightarrow> string) \<Rightarrow> layer \<Rightarrow> toolset \<Rightarrow> 't layers \<Rightarrow> (cfg_error + unit) \<times> 't layers" where
  "fs_create_toolset yw l t ls = with_files (ts_name t) l
     (\<lambda>d. map_sum id (\<lambda>fs. d\<lparr>lf_toolsets := fs\<rparr>)
        (file_create ''toolset'' l (ts_name t) (yw (toolset_to_yaml_json t)) (lf_toolsets d))) ls"

definition fs_delete_toolset :: "layer \<Rightarrow> string \<Rightarrow> 't layers \<Rightarrow> (cfg_error + unit) \<times> 't layers" where
  "fs_delete_toolset l n ls = with_files n l
     (\<lambda>d. map_sum id (\<lambda>fs. d\<lparr>lf_toolsets := fs\<rparr>) (file_delete ''toolset'' l n (lf_toolsets d))) ls"

definition fs_update_toolset :: "(string \<Rightarrow> string + string json) \<Rightarrow> (string json \<Rightarrow> string) \<Rightarrow> layer \<Rightarrow> string \<Rightarrow> string json
    \<Rightarrow> 't layers \<Rightarrow> (cfg_error + unit) \<times> 't layers" where
  "fs_update_toolset yp yw l n patch ls = with_files n l
     (\<lambda>d. map_sum id (\<lambda>fs. d\<lparr>lf_toolsets := fs\<rparr>)
        (file_update ''toolset'' l n (parse_toolset_file yp n (stem_path d ''toolsets'' n ''.yaml'')) toolset_field
           (\<lambda>t. yw (toolset_to_yaml_json t)) patch (lf_toolsets d))) ls"

definition fs_create_skill :: "(string json \<Rightarrow> string) \<Rightarrow> layer \<Rightarrow> skill_meta \<Rightarrow> string \<Rightarrow> 't layers \<Rightarrow> (cfg_error + unit) \<times> 't layers" where
  "fs_create_skill yw l m body ls = with_files (sk_name m) l
     (\<lambda>d. map_sum id (\<lambda>fs. d\<lparr>lf_skills := fs\<rparr>) (file_create ''skill'' l (sk_name m) (skill_to_md yw m body) (lf_skills d))) ls"

definition fs_delete_skill :: "layer \<Rightarrow> string \<Rightarrow> 't layers \<Rightarrow> (cfg_error + unit) \<times> 't layers" where
  "fs_delete_skill l n ls = with_files n l
     (\<lambda>d. map_sum id (\<lambda>fs. d\<lparr>lf_skills := fs\<rparr>) (file_delete ''skill'' l n (lf_skills d))) ls"

definition fs_update_skill :: "(string \<Rightarrow> string + string json) \<Rightarrow> (string json \<Rightarrow> string) \<Rightarrow> layer \<Rightarrow> string \<Rightarrow> string json
    \<Rightarrow> 't layers \<Rightarrow> (cfg_error + unit) \<times> 't layers" where
  "fs_update_skill yp yw l n patch ls = with_files n l
     (\<lambda>d. map_sum id (\<lambda>fs. d\<lparr>lf_skills := fs\<rparr>)
        (file_update ''skill'' l n
           (\<lambda>t. map_sum id (\<lambda>(m, b). (m, Some b)) (parse_skill_file yp n (stem_path d ''skills'' n ''/SKILL.md'') t))
           skill_field (\<lambda>(m, b). skill_to_md yw m (the b)) patch (lf_skills d))) ls"

end
