(* ===== verification/FsFilesProps.thy ===== *)
theory FsFilesProps
  imports FsFiles CfgPatch
begin

text \<open>
  Files and entities: what the store writes for an agent or a toolset is what it reads back, up
  to the normalisations of the format, and an accepted update of a file is the in-memory patch
  of the entity it holds.
\<close>

section \<open>Front matter\<close>

lemma until_rule_Some: "until_rule ls = Some (f, b) \<longleftrightarrow> ls = f @ ''---'' # b \<and> ''---'' \<notin> set f"
proof (induction ls arbitrary: f b)
  case (Cons l ls)
  show ?case by (cases f) (auto simp: Cons.IH)
qed simp

lemma until_rule_None: "until_rule ls = None \<longleftrightarrow> ''---'' \<notin> set ls"
  by (induction ls) auto

text \<open>
  The split of a markdown file succeeds exactly if its first line is the rule \<open>---\<close> and
  another line after it is; the front matter is then the lines up to the first such line, the
  body all lines after it, and each kind of malformed file is reported by its own error.
\<close>

theorem split_frontmatter_spec:
  "(split_frontmatter path content = Inr r \<longleftrightarrow>
      (\<exists>f b. str_lines content = ''---'' # f @ ''---'' # b \<and> ''---'' \<notin> set f
         \<and> r = (join_with nl f, join_with nl b)))
   \<and> (split_frontmatter path content = Inl e \<longleftrightarrow>
      (if take 1 (str_lines content) \<noteq> [''---''] then e = frontmatter_open path
       else ''---'' \<notin> set (tl (str_lines content)) \<and> e = frontmatter_close path))"
proof (cases "str_lines content")
  case Nil
  then show ?thesis by (auto simp: split_frontmatter_def)
next
  case (Cons l ls)
  show ?thesis
  proof (cases "until_rule ls")
    case None
    then have "''---'' \<notin> set ls" by (simp add: until_rule_None)
    then show ?thesis using Cons None by (auto simp: split_frontmatter_def)
  next
    case (Some fb)
    obtain f b where fb: "fb = (f, b)" by force
    have i: "''---'' \<in> set ls" using Some fb by (simp add: until_rule_Some)
    have u: "ls = f' @ ''---'' # b' \<and> ''---'' \<notin> set f' \<longleftrightarrow> f' = f \<and> b' = b" for f' b'
      using Some fb until_rule_Some [of ls f' b'] by auto
    have "(\<exists>f b. str_lines content = ''---'' # f @ ''---'' # b \<and> ''---'' \<notin> set f
         \<and> r = (join_with nl f, join_with nl b)) \<longleftrightarrow> l = ''---'' \<and> r = (join_with nl f, join_with nl b)"
      unfolding Cons using u by blast
    then show ?thesis using i Cons Some fb by (simp add: split_frontmatter_def) auto
  qed
qed

lemma split_written:
  assumes "yw v = unlines fs" and "''---'' \<notin> set fs" and "\<forall>l \<in> set fs. nl \<notin> set l \<and> cr \<notin> set l"
    and "cr \<notin> set p" and "str_trim p = p"
  shows "split_frontmatter path (''---'' @ [nl] @ yw v @ ''---'' @ [nl] @ p) = Inr (join_with nl fs, p)"
proof -
  have "''---'' @ [nl] @ yw v @ ''---'' @ [nl] @ p = unlines (''---'' # fs @ [''---'']) @ p"
    by (simp add: assms(1) unlines_def)
  moreover have "str_lines (unlines (''---'' # fs @ [''---'']) @ p) = ''---'' # fs @ ''---'' # str_lines p"
    using assms(3) by (subst str_lines_unlines) auto
  ultimately have sl: "str_lines (''---'' @ [nl] @ yw v @ ''---'' @ [nl] @ p) = ''---'' # fs @ ''---'' # str_lines p"
    by metis
  have "join_with nl (str_lines p) = p"
    using assms(4) str_trim_last [of p] by (intro join_str_lines) (simp_all add: assms(5))
  moreover have "until_rule (fs @ ''---'' # str_lines p) = Some (fs, str_lines p)"
    using assms(2) by (simp add: until_rule_Some)
  ultimately show ?thesis unfolding split_frontmatter_def sl by simp
qed

section \<open>Agents\<close>

lemma read_strings_JArr [simp]: "read_strings (JArr (map JStr ns)) = Some ns"
  by (simp add: read_strings_def)

lemma skill_selection_de_ser [simp]: "skill_selection_de (skill_selection_ser s) = Some s"
  by (cases s) auto

lemma json_agent_front:
  "json_agent (ag_name a) p (agent_front a) = Inr (a\<lparr>ag_system_prompt := p\<rparr>)"
  by (cases "ag_description a"; cases "ag_mode a"; cases "ag_toolsets a = []")
    (simp_all add: json_agent_def agent_front_def opt_member_def read_option_def read_default_def read_field_def
      read_mode_def)

text \<open>What is assumed of the YAML printer and parser about one value: the printer gives whole lines
  without a rule among them, and the parser reads them back.\<close>

definition yaml_front_ok :: "(string \<Rightarrow> string + string json) \<Rightarrow> (string json \<Rightarrow> string) \<Rightarrow> string json \<Rightarrow> bool" where
  "yaml_front_ok yp yw v \<longleftrightarrow> (\<exists>fs. yw v = unlines fs \<and> ''---'' \<notin> set fs
     \<and> (\<forall>l \<in> set fs. nl \<notin> set l \<and> cr \<notin> set l) \<and> yp (join_with nl fs) = Inr v)"

text \<open>
  C39: The file written for an agent reads back as that agent with its prompt trimmed, provided
  the prompt holds no carriage return; so reading, writing and reading again is stable.
\<close>

theorem agent_file_roundtrip:
  assumes "yaml_front_ok yp yw (agent_front a)" and "cr \<notin> set (ag_system_prompt a)"
  shows "parse_agent_file yp (ag_name a) path (agent_to_md yw a) =
    Inr (a\<lparr>ag_system_prompt := str_trim (ag_system_prompt a)\<rparr>)"
proof -
  obtain fs where fs: "yw (agent_front a) = unlines fs" "''---'' \<notin> set fs"
    "\<forall>l \<in> set fs. nl \<notin> set l \<and> cr \<notin> set l" "yp (join_with nl fs) = Inr (agent_front a)"
    using assms(1) by (auto simp: yaml_front_ok_def)
  have "cr \<notin> set (str_trim (ag_system_prompt a))" using assms(2) set_str_trim by blast
  then have "split_frontmatter path (agent_to_md yw a) = Inr (join_with nl fs, str_trim (ag_system_prompt a))"
    unfolding agent_to_md_def by (intro split_written fs) simp_all
  then show ?thesis
    by (simp add: parse_agent_file_def fs(4) bind_sum_def cfg_at_def json_agent_front)
qed

definition sample_yw :: "string json \<Rightarrow> string" where
  "sample_yw v = ''x'' @ [nl]"

definition sample_yp :: "string json \<Rightarrow> string \<Rightarrow> string + string json" where
  "sample_yp v t = (if t = ''x'' then Inr v else Inl ''bad'')"

lemma sample_yaml_ok: "yaml_front_ok (sample_yp v) sample_yw v"
  unfolding yaml_front_ok_def sample_yw_def sample_yp_def
  by (intro exI [of _ "[''x'']"]) (simp add: unlines_def)

theorem agent_file_roundtrip_witness:
  "parse_agent_file (sample_yp (agent_front sample_agent)) ''build'' ''f'' (agent_to_md sample_yw sample_agent) =
     Inr (sample_agent\<lparr>ag_system_prompt := []\<rparr>)"
  using agent_file_roundtrip [OF sample_yaml_ok, of sample_agent "''f''"] by (simp add: sample_agent_def)

text \<open>With a carriage return the body does not survive: the line ending is rewritten.\<close>

lemma crlf_body_changed:
  "split_frontmatter path (''---'' @ [nl] @ ''---'' @ [nl] @ ''a'' @ [cr, nl] @ ''b'') = Inr ([], ''a'' @ [nl] @ ''b'')"
proof -
  have "str_lines (''---'' @ [nl] @ ''---'' @ [nl] @ ''a'' @ [cr, nl] @ ''b'') = [''---'', ''---'', ''a'', ''b'']"
    by (simp add: str_lines_def strip_cr_def)
  then show ?thesis by (simp add: split_frontmatter_def)
qed

section \<open>Updating a file is patching its entity\<close>

text \<open>
  An update of an agent's file that is accepted has parsed the file, applied to the agent
  exactly the in-memory patch, and written a file that holds the patched agent; an update that
  is refused, for the patch or for anything else, has written nothing.
\<close>

theorem fs_update_agent_refines:
  assumes "map_of (lf_agents d) n = Some text" and "layer_dir ls l = Inr d" and "valid_name n"
    and "parse_agent_file yp n (stem_path d ''agents'' n ''.md'') text = Inr a"
  shows "fst (fs_update_agent yp yw l n patch ls) = fst (patch_item agent_field patch a)
    \<and> snd (fs_update_agent yp yw l n patch ls) =
      (case patch_item agent_field patch a of
         (Inl e, _) \<Rightarrow> ls
       | (Inr _, b) \<Rightarrow> set_layer l (d\<lparr>lf_agents := bt_insert n (agent_to_md yw b) (lf_agents d)\<rparr>) ls)"
  using assms
  by (simp add: fs_update_agent_def with_files_def named_def validate_name_def file_update_def
      split: prod.split sum.split)

definition sample_layers :: "unit layers" where
  "sample_layers = \<lparr>lay_global = \<lparr>lf_dir = ''/g'', lf_config = None, lf_toolsets = [],
     lf_agents = [(''build'', agent_to_md sample_yw sample_agent)], lf_skills = []\<rparr>, lay_workspace = None\<rparr>"

lemma sample_agent_parse:
  "parse_agent_file (sample_yp (agent_front sample_agent)) ''build'' path (agent_to_md sample_yw sample_agent) =
     Inr sample_agent"
proof -
  have "split_frontmatter path (agent_to_md sample_yw sample_agent) = Inr (''x'', [])"
    using split_written [of sample_yw "agent_front sample_agent" "[''x'']" "[]" path]
    by (simp add: agent_to_md_def sample_yw_def unlines_def sample_agent_def)
  then show ?thesis
    using json_agent_front [of sample_agent "[]"]
    by (simp add: parse_agent_file_def bind_sum_def cfg_at_def sample_yp_def sample_agent_def)
qed

theorem fs_update_agent_refines_witness:
  "snd (fs_update_agent (sample_yp (agent_front sample_agent)) sample_yw Global ''build'' (JBool True) sample_layers)
     = sample_layers"
proof -
  have p: "patch_item agent_field (JBool True) sample_agent =
      (Inl (Config ''update patch must be a JSON object''), sample_agent)"
    by (simp add: patch_item_def)
  have "map_of (lf_agents (lay_global sample_layers)) ''build'' = Some (agent_to_md sample_yw sample_agent)"
    and "layer_dir sample_layers Global = Inr (lay_global sample_layers)"
    by (simp_all add: sample_layers_def layer_dir_def)
  from fs_update_agent_refines [OF this sample_valid sample_agent_parse] show ?thesis by (simp add: p)
qed

section \<open>Toolsets\<close>

lemma string_lists_map:
  "string_lists (map (\<lambda>(k, ts). (k, JArr (map JStr ts))) ms) = Some ms"
  by (induction ms) auto

lemma bt_insert_map: "bt_insert k (f v) (map (\<lambda>(k, v). (k, f v)) m) = map (\<lambda>(k, v). (k, f v)) (bt_insert k v m)"
  by (induction m) auto

lemma bt_of_list_map: "bt_of_list (map (\<lambda>(k, v). (k, f v)) es) = map (\<lambda>(k, v). (k, f v)) (bt_of_list es)"
proof -
  have "bt_extend (map (\<lambda>(k, v). (k, f v)) m) (map (\<lambda>(k, v). (k, f v)) es) =
      map (\<lambda>(k, v). (k, f v)) (bt_extend m es)" for m
    by (induction es arbitrary: m) (auto simp: bt_extend_def bt_insert_map)
  from this [of "[]"] show ?thesis by (simp add: bt_of_list_def)
qed

text \<open>The selections as the file keeps them: one per server, ordered, the last one given.\<close>

definition selections_by_server :: "mcp_selection list \<Rightarrow> mcp_selection list" where
  "selections_by_server ss =
     map (\<lambda>(s, t). \<lparr>sel_server = s, sel_tools = t\<rparr>) (bt_of_list (map (\<lambda>s. (sel_server s, sel_tools s)) ss))"

text \<open>
  The YAML value written for a toolset reads back as the toolset whose server selections
  are one per server in order of name, each the last one given for that server; the two agree
  exactly if the selections were already distinct and ordered.
\<close>

theorem toolset_value_roundtrip:
  "json_toolset (ts_name t) (toolset_to_yaml_json t) = Inr (t\<lparr>ts_mcp := selections_by_server (ts_mcp t)\<rparr>)
   \<and> (sorted_wrt (<) (map sel_server (ts_mcp t)) \<longleftrightarrow> selections_by_server (ts_mcp t) = ts_mcp t)"
proof
  let ?kv = "map (\<lambda>s. (sel_server s, sel_tools s)) (ts_mcp t)"
  have m: "bt_of_list (map (\<lambda>s. (sel_server s, JArr (map JStr (sel_tools s)))) (ts_mcp t)) =
      map (\<lambda>(k, ts). (k, JArr (map JStr ts))) (bt_of_list ?kv)"
    using bt_of_list_map [of "\<lambda>ts. JArr (map JStr ts)" ?kv] by (simp add: comp_def)
  have s: "Option.bind (as_obj (JObj (bt_of_list (map (\<lambda>s. (sel_server s, JArr (map JStr (sel_tools s)))) (ts_mcp t)))))
      string_lists = Some (bt_of_list ?kv)"
    by (simp add: m string_lists_map)
  show "json_toolset (ts_name t) (toolset_to_yaml_json t) = Inr (t\<lparr>ts_mcp := selections_by_server (ts_mcp t)\<rparr>)"
    using s
    by (cases "ts_description t"; cases "ts_prompt t"; cases "ts_local_tools t = []"; cases "ts_mcp t = []")
      (simp_all add: json_toolset_def toolset_to_yaml_json_def opt_member_def read_option_def read_default_def
        json_tools_def selections_by_server_def bt_of_list_def bt_extend_def)
  have i: "bt_insert k v (m @ []) = m @ [(k, v)]" if "\<forall>e \<in> set m. fst e < k" for k :: string and v :: "string list" and m
    using that by (induction m) auto
  have e: "bt_extend m es = m @ es" if "sorted_wrt (<) (map fst (m @ es))" for m es :: "(string \<times> string list) list"
    using that
  proof (induction es arbitrary: m)
    case (Cons x es)
    have "\<forall>e \<in> set m. fst e < fst x" using Cons.prems by (simp add: sorted_wrt_append)
    then have "bt_extend m (x # es) = bt_extend (m @ [x]) es"
      using i [of m "fst x" "snd x"] by (simp add: bt_extend_def case_prod_beta)
    with Cons show ?case by simp
  qed (simp add: bt_extend_def)
  show "sorted_wrt (<) (map sel_server (ts_mcp t)) \<longleftrightarrow> selections_by_server (ts_mcp t) = ts_mcp t"
  proof
    assume "sorted_wrt (<) (map sel_server (ts_mcp t))"
    then have "bt_of_list ?kv = ?kv" using e [of "[]" ?kv] by (simp add: bt_of_list_def comp_def)
    moreover have "map (\<lambda>x. \<lparr>sel_server = sel_server x, sel_tools = sel_tools x\<rparr>) (ts_mcp t) = ts_mcp t"
      by (rule map_idI) simp
    ultimately show "selections_by_server (ts_mcp t) = ts_mcp t"
      by (simp add: selections_by_server_def comp_def)
  next
    assume a: "selections_by_server (ts_mcp t) = ts_mcp t"
    have "map sel_server (selections_by_server (ts_mcp t)) = map fst (bt_of_list ?kv)"
      by (simp add: selections_by_server_def comp_def case_prod_beta)
    then show "sorted_wrt (<) (map sel_server (ts_mcp t))"
      using bt_ok_of_list [of ?kv] a by (simp add: bt_ok_def)
  qed
qed

end
