(* ===== verification/Jobs.thy ===== *)
theory Jobs
  imports Prelude "HOL-Library.AList"
begin

text \<open>
  The job registry of the sandbox (\<open>sandbox/src/jobs.rs\<close>): the records, every critical section
  of the registry's lock as one function, the replies of the routes, the log pages and the URL
  encoding of the callback. The registry is an association list with distinct keys (the hash
  map's order is immaterial: sequence numbers are distinct). Log files are kept in the state,
  as the bytes under each job's name. Times are seconds. The sequence counter is a natural
  number; its wrap-around at \<open>2 ^ 64\<close> is out of reach.
\<close>

section \<open>Records and limits\<close>

datatype job_state = JRunning | JSucceeded | JFailed | JTimedOut | JCancelled

definition is_terminal :: "job_state \<Rightarrow> bool" where
  "is_terminal s \<longleftrightarrow> s \<noteq> JRunning"

definition DEFAULT_TIMEOUT_SECS :: nat where "DEFAULT_TIMEOUT_SECS = 3600"
definition MAX_TIMEOUT_SECS :: nat where "MAX_TIMEOUT_SECS = 24 * 3600"
definition MAX_RUNNING_JOBS :: nat where "MAX_RUNNING_JOBS = 4"
definition MAX_FINISHED_KEPT :: nat where "MAX_FINISHED_KEPT = 20"
definition LOG_PAGE_MAX_BYTES :: nat where "LOG_PAGE_MAX_BYTES = 64 * 1024"
definition LOG_TAIL_MAX_BYTES :: nat where "LOG_TAIL_MAX_BYTES = 4 * 1024"
definition JOB_ID_MAX_LEN :: nat where "JOB_ID_MAX_LEN = 128"

record job_record =
  jr_state :: job_state
  jr_exit :: "int option"
  jr_started :: nat
  jr_ended :: "nat option"
  jr_pgid :: "int option"
  jr_cancel :: bool
  jr_timed_out :: bool
  jr_awakeable :: "string option"
  jr_seq :: nat

record job_status =
  js_job_id :: string
  js_state :: job_state
  js_exit :: "int option"
  js_started :: nat
  js_ended :: "nat option"
  js_log_size :: nat
  js_log_tail :: string

type_synonym registry = "(string \<times> job_record) list"

record jobs =
  jb_reg :: registry
  jb_next :: nat
  jb_logs :: "string \<Rightarrow> string option"

definition jobs_new :: jobs where
  "jobs_new = \<lparr>jb_reg = [], jb_next = 1, jb_logs = (\<lambda>_. None)\<rparr>"

section \<open>Logs\<close>

definition read_log_slice :: "string \<Rightarrow> nat \<Rightarrow> nat \<Rightarrow> string" where
  "read_log_slice log offset len =
     (if length log \<le> offset \<or> len = 0 then []
      else take (min len (length log - offset)) (drop offset log))"

definition read_log_size_and_tail :: "string option \<Rightarrow> nat \<times> string" where
  "read_log_size_and_tail log =
     (case log of
        None \<Rightarrow> (0, [])
      | Some l \<Rightarrow> (length l, read_log_slice l (length l - LOG_TAIL_MAX_BYTES) LOG_TAIL_MAX_BYTES))"

definition snapshot_of :: "jobs \<Rightarrow> string \<Rightarrow> job_record \<Rightarrow> job_status" where
  "snapshot_of js i r =
     (let (size, tail) = read_log_size_and_tail (jb_logs js i) in
      \<lparr>js_job_id = i, js_state = jr_state r, js_exit = jr_exit r, js_started = jr_started r,
       js_ended = jr_ended r, js_log_size = size, js_log_tail = tail\<rparr>)"

definition job_status_of :: "jobs \<Rightarrow> string \<Rightarrow> job_status option" where
  "job_status_of js i = map_option (snapshot_of js i) (map_of (jb_reg js) i)"

section \<open>Eviction\<close>

text \<open>One pass: the finished record with the smallest sequence number, and how many there are.\<close>

fun oldest_finished :: "registry \<Rightarrow> (nat \<times> string) option \<times> nat \<Rightarrow> (nat \<times> string) option \<times> nat" where
  "oldest_finished [] acc = acc"
| "oldest_finished ((i, r) # reg) (oldest, n) =
     (if is_terminal (jr_state r)
      then oldest_finished reg
        (if (case oldest of None \<Rightarrow> True | Some (s, _) \<Rightarrow> jr_seq r < s) then Some (jr_seq r, i) else oldest, n + 1)
      else oldest_finished reg (oldest, n))"

lemma oldest_finished_mem:
  "fst (oldest_finished reg (old, n)) = Some (s, i) \<Longrightarrow> old = Some (s, i) \<or> i \<in> fst ` set reg"
  by (induction reg "(old, n)" arbitrary: old n rule: oldest_finished.induct) (auto split: if_splits)

lemma length_delete_mem: "i \<in> fst ` set reg \<Longrightarrow> length (AList.delete i reg) < length reg"
  unfolding AList.delete_eq by (auto intro!: length_filter_less)

lemma oldest_finished_shrinks:
  "oldest_finished reg (None, 0) = (Some (s, i), n) \<Longrightarrow> length (AList.delete i reg) < length reg"
  using oldest_finished_mem [of reg None 0 s i] length_delete_mem by simp

text \<open>The loop removes the oldest until at most the limit are left; each removed job's log goes with it.\<close>

function evict_finished :: "registry \<times> (string \<Rightarrow> string option) \<Rightarrow> registry \<times> (string \<Rightarrow> string option)" where
  "evict_finished (reg, logs) =
     (case oldest_finished reg (None, 0) of (oldest, finished) \<Rightarrow>
        if finished \<le> MAX_FINISHED_KEPT then (reg, logs)
        else (case oldest of
                None \<Rightarrow> (reg, logs)
              | Some (_, i) \<Rightarrow> evict_finished (AList.delete i reg, logs(i := None))))"
  by pat_completeness auto
termination
  by (relation "measure (\<lambda>(reg, logs). length reg)") (auto dest: oldest_finished_shrinks [OF sym])

declare evict_finished.simps [simp del]

section \<open>The critical sections of the registry\<close>

definition running_count :: "registry \<Rightarrow> nat" where
  "running_count reg = length (filter (\<lambda>e. jr_state (snd e) = JRunning) reg)"

definition finished_count :: "registry \<Rightarrow> nat" where
  "finished_count reg = length (filter (\<lambda>e. is_terminal (jr_state (snd e))) reg)"

definition new_record :: "nat \<Rightarrow> string option \<Rightarrow> nat \<Rightarrow> job_record" where
  "new_record now awk seq = \<lparr>jr_state = JRunning, jr_exit = None, jr_started = now, jr_ended = None,
     jr_pgid = None, jr_cancel = False, jr_timed_out = False, jr_awakeable = awk, jr_seq = seq\<rparr>"

datatype create_outcome = Replayed job_record | LimitReached | Inserted nat

text \<open>The locked block of \<open>handle_create\<close>: a known job first, then the limit, then the insertion.\<close>

definition begin_create :: "string \<Rightarrow> string option \<Rightarrow> nat \<Rightarrow> jobs \<Rightarrow> create_outcome \<times> jobs" where
  "begin_create i awk now js =
     (case map_of (jb_reg js) i of
        Some r \<Rightarrow> (Replayed r, js)
      | None \<Rightarrow>
          if MAX_RUNNING_JOBS \<le> running_count (jb_reg js) then (LimitReached, js)
          else (Inserted (jb_next js),
                js\<lparr>jb_reg := AList.update i (new_record now awk (jb_next js)) (jb_reg js), jb_next := jb_next js + 1\<rparr>))"

definition mark_spawned :: "string \<Rightarrow> int option \<Rightarrow> jobs \<Rightarrow> bool \<times> jobs" where
  "mark_spawned i pgid js =
     (case map_of (jb_reg js) i of
        Some r \<Rightarrow> (jr_cancel r, js\<lparr>jb_reg := AList.map_entry i (\<lambda>r. r\<lparr>jr_pgid := pgid\<rparr>) (jb_reg js)\<rparr>)
      | None \<Rightarrow> (False, js))"

definition request_cancel :: "string \<Rightarrow> jobs \<Rightarrow> (bool \<times> int option) \<times> jobs" where
  "request_cancel i js =
     (case map_of (jb_reg js) i of
        None \<Rightarrow> ((False, None), js)
      | Some r \<Rightarrow>
          if is_terminal (jr_state r) then ((True, None), js)
          else ((True, jr_pgid r), js\<lparr>jb_reg := AList.map_entry i (\<lambda>r. r\<lparr>jr_cancel := True\<rparr>) (jb_reg js)\<rparr>))"

text \<open>The locked block of \<open>handle_cancel_prefix\<close>: every running job of the prefix, with its group.\<close>

definition cancel_targets :: "string \<Rightarrow> registry \<Rightarrow> (string \<times> int option) list" where
  "cancel_targets p reg =
     map (\<lambda>(i, r). (i, jr_pgid r))
       (filter (\<lambda>(i, r). strip_prefix p i \<noteq> None \<and> \<not> is_terminal (jr_state r)) reg)"

definition request_cancel_prefix :: "string \<Rightarrow> jobs \<Rightarrow> (string \<times> int option) list \<times> jobs" where
  "request_cancel_prefix p js =
     (cancel_targets p (jb_reg js),
      js\<lparr>jb_reg := map (\<lambda>(i, r). (i, if strip_prefix p i \<noteq> None \<and> \<not> is_terminal (jr_state r)
           then r\<lparr>jr_cancel := True\<rparr> else r)) (jb_reg js)\<rparr>)"

definition job_is_running :: "string \<Rightarrow> jobs \<Rightarrow> bool" where
  "job_is_running i js = (case map_of (jb_reg js) i of None \<Rightarrow> False | Some r \<Rightarrow> jr_state r = JRunning)"

definition cause_flags :: "string \<Rightarrow> jobs \<Rightarrow> bool \<times> bool" where
  "cause_flags i js =
     (case map_of (jb_reg js) i of None \<Rightarrow> (False, False) | Some r \<Rightarrow> (jr_cancel r, jr_timed_out r))"

definition mark_timed_out :: "string \<Rightarrow> jobs \<Rightarrow> int option \<times> jobs" where
  "mark_timed_out i js =
     (case map_of (jb_reg js) i of
        Some r \<Rightarrow> (jr_pgid r, js\<lparr>jb_reg := AList.map_entry i (\<lambda>r. r\<lparr>jr_timed_out := True\<rparr>) (jb_reg js)\<rparr>)
      | None \<Rightarrow> (None, js))"

definition finish_job :: "string \<Rightarrow> job_state \<Rightarrow> int option \<Rightarrow> nat \<Rightarrow> jobs \<Rightarrow> (job_status \<times> string option) \<times> jobs" where
  "finish_job i st code now js =
     (case map_of (jb_reg js) i of
        None \<Rightarrow>
          ((\<lparr>js_job_id = i, js_state = st, js_exit = code, js_started = 0, js_ended = Some now,
             js_log_size = 0, js_log_tail = []\<rparr>, None), js)
      | Some r \<Rightarrow>
          (let r' = r\<lparr>jr_state := st, jr_exit := code, jr_ended := Some now\<rparr>;
               (reg, logs) = evict_finished (AList.map_entry i (\<lambda>_. r') (jb_reg js), jb_logs js);
               js' = js\<lparr>jb_reg := reg, jb_logs := logs\<rparr>
           in ((snapshot_of js' i r', jr_awakeable r), js')))"

definition forget_job :: "string \<Rightarrow> jobs \<Rightarrow> jobs" where
  "forget_job i js = js\<lparr>jb_reg := AList.delete i (jb_reg js)\<rparr>"

text \<open>The state a supervisor publishes: how the wait ended and the flags it then reads.\<close>

datatype wait_outcome = Exited "int option" | WaitFailed | Elapsed "int option"

fun terminal_of :: "wait_outcome \<Rightarrow> bool \<times> bool \<Rightarrow> job_state \<times> int option" where
  "terminal_of (Exited code) (cancel, timed_out) =
     (if cancel then (JCancelled, code)
      else if timed_out then (JTimedOut, code)
      else if code = Some 0 then (JSucceeded, code)
      else (JFailed, code))"
| "terminal_of WaitFailed _ = (JFailed, None)"
| "terminal_of (Elapsed code) _ = (JTimedOut, code)"

section \<open>Requests\<close>

definition is_job_id_byte :: "char \<Rightarrow> bool" where
  "is_job_id_byte c \<longleftrightarrow> is_ascii_alnum c \<or> c = CHR ''.'' \<or> c = CHR ''_'' \<or> c = CHR ''-'' \<or> c = CHR '':''"

definition valid_job_id :: "string \<Rightarrow> bool" where
  "valid_job_id i \<longleftrightarrow> i \<noteq> [] \<and> i \<noteq> ''.'' \<and> i \<noteq> ''..'' \<and> length i \<le> JOB_ID_MAX_LEN \<and> list_all is_job_id_byte i"

record create_body =
  cb_job_id :: string
  cb_script :: string
  cb_timeout_secs :: "nat option"
  cb_awakeable :: "string option"

text \<open>
  The checks of a creation, in order; \<open>cwd\<close> is what resolving the working directory gave. The
  result is the code of the 400 reply, if any.
\<close>

definition validate_creation :: "bool \<Rightarrow> string + unit \<Rightarrow> create_body \<Rightarrow> string option" where
  "validate_creation has_ingress cwd body =
     (if \<not> valid_job_id (cb_job_id body) then Some ''VNL-SBX-JOBS-001''
      else if cb_script body = [] then Some ''VNL-SBX-JOBS-002''
      else if cb_awakeable body \<noteq> None \<and> \<not> has_ingress then Some ''VNL-SBX-JOBS-003''
      else case cwd of Inl e \<Rightarrow> Some ''VNL-SBX-JOBS-004'' | Inr _ \<Rightarrow> None)"

definition effective_timeout :: "create_body \<Rightarrow> nat" where
  "effective_timeout body =
     min (case cb_timeout_secs body of None \<Rightarrow> DEFAULT_TIMEOUT_SECS | Some t \<Rightarrow> t) MAX_TIMEOUT_SECS"

text \<open>A page of the log: the bytes from \<open>offset\<close> on, at most the limit, and the size of the log.\<close>

definition handle_logs :: "jobs \<Rightarrow> string \<Rightarrow> nat option \<Rightarrow> nat option \<Rightarrow> (string \<times> nat) option" where
  "handle_logs js i offset limit =
     (case job_status_of js i of
        None \<Rightarrow> None
      | Some _ \<Rightarrow>
          (let off = (case offset of None \<Rightarrow> 0 | Some n \<Rightarrow> n);
               lim = min (case limit of None \<Rightarrow> LOG_PAGE_MAX_BYTES | Some n \<Rightarrow> n) LOG_PAGE_MAX_BYTES
           in case jb_logs js i of
                None \<Rightarrow> Some ([], 0)
              | Some log \<Rightarrow> Some (read_log_slice log off lim, length log)))"

section \<open>The callback's address\<close>

definition hex_digit :: "nat \<Rightarrow> char" where
  "hex_digit n = char_of (if n < 10 then 48 + n else 55 + n)"

definition url_safe :: "char \<Rightarrow> bool" where
  "url_safe c \<longleftrightarrow> is_ascii_alnum c \<or> c = CHR ''-'' \<or> c = CHR ''_'' \<or> c = CHR ''.''"

fun encode_url_component :: "string \<Rightarrow> string" where
  "encode_url_component [] = []"
| "encode_url_component (c # s) =
     (if url_safe c then c # encode_url_component s
      else CHR 0x25 # hex_digit (of_char c div 16) # hex_digit (of_char c mod 16) # encode_url_component s)"

definition callback_url :: "string \<Rightarrow> string \<Rightarrow> string" where
  "callback_url base awk =
     trim_end_by (\<lambda>c. c = CHR ''/'') base @ ''/restate/awakeables/'' @ encode_url_component awk @ ''/resolve''"

end
