(* ===== verification/JobsEvict.thy ===== *)
theory JobsEvict
  imports Jobs
begin

text \<open>
  The eviction loop against its closed form, the pages of a log, and the encoding of the
  callback's address.
\<close>

section \<open>Eviction in closed form\<close>

text \<open>How many finished jobs are newer than a record, and whether it survives.\<close>

definition newer_finished :: "registry \<Rightarrow> job_record \<Rightarrow> nat" where
  "newer_finished reg r =
     length (filter (\<lambda>e. is_terminal (jr_state (snd e)) \<and> jr_seq r < jr_seq (snd e)) reg)"

definition survives :: "registry \<Rightarrow> job_record \<Rightarrow> bool" where
  "survives reg r \<longleftrightarrow> \<not> is_terminal (jr_state r) \<or> newer_finished reg r < MAX_FINISHED_KEPT"

definition reg_ok :: "registry \<Rightarrow> bool" where
  "reg_ok reg \<longleftrightarrow> distinct (map fst reg) \<and> distinct (map (\<lambda>e. jr_seq (snd e)) reg)"

lemma oldest_finished_acc:
  "oldest_finished reg (old, n) = (old', n') \<Longrightarrow>
     n' = n + finished_count reg
     \<and> (case old' of
          None \<Rightarrow> old = None \<and> finished_count reg = 0
        | Some (s, i) \<Rightarrow>
            (old = Some (s, i) \<or> (\<exists>r. (i, r) \<in> set reg \<and> is_terminal (jr_state r) \<and> jr_seq r = s))
            \<and> (\<forall>e \<in> set reg. is_terminal (jr_state (snd e)) \<longrightarrow> s \<le> jr_seq (snd e))
            \<and> (case old of None \<Rightarrow> True | Some (s', _) \<Rightarrow> s \<le> s'))"
proof (induction reg arbitrary: old n)
  case Nil
  then show ?case by (auto simp: finished_count_def split: option.splits)
next
  case (Cons e reg)
  obtain i r where e: "e = (i, r)" by force
  show ?case
  proof (cases "is_terminal (jr_state r)")
    case False
    then have "oldest_finished reg (old, n) = (old', n')" using Cons.prems e by simp
    from Cons.IH [OF this] False e show ?thesis
      by (auto simp: finished_count_def split: option.splits)
  next
    case True
    define o2 where "o2 = (if (case old of None \<Rightarrow> True | Some (s, _) \<Rightarrow> jr_seq r < s) then Some (jr_seq r, i) else old)"
    have "oldest_finished reg (o2, n + 1) = (old', n')" using Cons.prems e True by (simp add: o2_def)
    from Cons.IH [OF this] have ih: "n' = n + 1 + finished_count reg"
      "case old' of None \<Rightarrow> o2 = None \<and> finished_count reg = 0 | Some (s, i) \<Rightarrow>
         (o2 = Some (s, i) \<or> (\<exists>r. (i, r) \<in> set reg \<and> is_terminal (jr_state r) \<and> jr_seq r = s))
         \<and> (\<forall>e \<in> set reg. is_terminal (jr_state (snd e)) \<longrightarrow> s \<le> jr_seq (snd e))
         \<and> (case o2 of None \<Rightarrow> True | Some (s', _) \<Rightarrow> s \<le> s')" by auto
    have c: "finished_count (e # reg) = Suc (finished_count reg)" using True e by (simp add: finished_count_def)
    have o2: "o2 \<noteq> None" "case o2 of None \<Rightarrow> True | Some (s, _) \<Rightarrow> s \<le> jr_seq r"
      "case old of None \<Rightarrow> True | Some (s', _) \<Rightarrow> (case o2 of None \<Rightarrow> True | Some (s, _) \<Rightarrow> s \<le> s')"
      by (auto simp: o2_def split: option.splits)
    obtain s j where old': "old' = Some (s, j)" using ih(2) o2(1) by (cases old') auto
    have "o2 = Some (s, j) \<Longrightarrow> old = Some (s, j) \<or> j = i \<and> s = jr_seq r"
      by (auto simp: o2_def split: if_splits)
    then show ?thesis
      using ih o2 c True e old' by (auto split: option.splits)
  qed
qed

lemma oldest_finished_spec:
  assumes "oldest_finished reg (None, 0) = (oldest, n)"
  shows "n = finished_count reg"
    and "n \<noteq> 0 \<Longrightarrow> \<exists>i r. oldest = Some (jr_seq r, i) \<and> (i, r) \<in> set reg \<and> is_terminal (jr_state r)
      \<and> (\<forall>e \<in> set reg. is_terminal (jr_state (snd e)) \<longrightarrow> jr_seq r \<le> jr_seq (snd e))"
proof -
  note a = oldest_finished_acc [OF assms]
  show "n = finished_count reg" using a by simp
  show "n \<noteq> 0 \<Longrightarrow> \<exists>i r. oldest = Some (jr_seq r, i) \<and> (i, r) \<in> set reg \<and> is_terminal (jr_state r)
      \<and> (\<forall>e \<in> set reg. is_terminal (jr_state (snd e)) \<longrightarrow> jr_seq r \<le> jr_seq (snd e))"
    using a by (auto split: option.splits)
qed

lemma newer_less_finished:
  assumes "(i, r) \<in> set reg" and "is_terminal (jr_state r)"
  shows "newer_finished reg r < finished_count reg"
proof -
  have "newer_finished reg r =
      length (filter (\<lambda>e. jr_seq r < jr_seq (snd e)) (filter (\<lambda>e. is_terminal (jr_state (snd e))) reg))"
    by (simp add: newer_finished_def conj_commute)
  also have "\<dots> < finished_count reg"
    unfolding finished_count_def using assms by (intro length_filter_less [of "(i, r)"]) auto
  finally show ?thesis .
qed

lemma newer_of_oldest:
  assumes "reg_ok reg" and "(i, r) \<in> set reg" and "is_terminal (jr_state r)"
    and "\<forall>e \<in> set reg. is_terminal (jr_state (snd e)) \<longrightarrow> jr_seq r \<le> jr_seq (snd e)"
  shows "newer_finished reg r = finished_count reg - 1"
proof -
  obtain xs ys where s: "reg = xs @ (i, r) # ys" using assms(2) by (auto dest: split_list)
  have "\<forall>e \<in> set xs \<union> set ys. jr_seq (snd e) \<noteq> jr_seq r"
    using assms(1) s by (force simp: reg_ok_def image_iff)
  then have "\<forall>e \<in> set xs \<union> set ys. is_terminal (jr_state (snd e)) \<and> jr_seq r < jr_seq (snd e) \<longleftrightarrow> is_terminal (jr_state (snd e))"
    using assms(4) unfolding s by (metis UnCI Un_insert_right insertCI le_neq_implies_less list.simps(15) set_append)
  then have f: "filter (\<lambda>e. is_terminal (jr_state (snd e)) \<and> jr_seq r < jr_seq (snd e)) zs =
      filter (\<lambda>e. is_terminal (jr_state (snd e))) zs" if "set zs \<subseteq> set xs \<union> set ys" for zs
    using that by (intro filter_cong) auto
  show ?thesis
    using s assms(3) f [of xs] f [of ys] by (simp add: newer_finished_def finished_count_def)
qed

lemma survives_delete:
  assumes "reg_ok reg" and "(i, r) \<in> set reg"
    and "\<forall>e \<in> set reg. is_terminal (jr_state (snd e)) \<longrightarrow> jr_seq r \<le> jr_seq (snd e)"
    and "e \<in> set reg"
  shows "survives (AList.delete i reg) (snd e) \<longleftrightarrow> survives reg (snd e)"
proof (cases "is_terminal (jr_state (snd e))")
  case True
  have "x \<in> set reg \<Longrightarrow> fst x = i \<Longrightarrow> x = (i, r)" for x
    using assms(1,2) by (cases x) (auto simp: reg_ok_def dest: eq_key_imp_eq_value)
  then have "filter (\<lambda>x. is_terminal (jr_state (snd x)) \<and> jr_seq (snd e) < jr_seq (snd x)) (AList.delete i reg) =
      filter (\<lambda>x. is_terminal (jr_state (snd x)) \<and> jr_seq (snd e) < jr_seq (snd x)) reg"
    using assms(3,4) True unfolding AList.delete_eq filter_filter by (intro filter_cong) force+
  then show ?thesis by (simp add: survives_def newer_finished_def)
qed (simp add: survives_def)

lemma reg_ok_filter: "reg_ok reg \<Longrightarrow> reg_ok (filter P reg)"
  by (simp add: reg_ok_def distinct_map_filter)

lemma evict_finished_closed:
  assumes "reg_ok reg"
  shows "evict_finished (reg, logs) =
    (filter (\<lambda>e. survives reg (snd e)) reg,
     \<lambda>i. if \<exists>r. (i, r) \<in> set reg \<and> \<not> survives reg r then None else logs i)"
  using assms
proof (induction "(reg, logs)" arbitrary: reg logs rule: evict_finished.induct)
  case (1 reg logs)
  obtain oldest n where o: "oldest_finished reg (None, 0) = (oldest, n)" by force
  note spec = oldest_finished_spec [OF o]
  show ?case
  proof (cases "n \<le> MAX_FINISHED_KEPT")
    case True
    then have all: "survives reg (snd e)" if "e \<in> set reg" for e
      using newer_less_finished [of "fst e" "snd e" reg] that spec(1) by (auto simp: survives_def)
    then have "filter (\<lambda>e. survives reg (snd e)) reg = reg" by (simp add: filter_id_conv)
    moreover have "(\<lambda>i. if \<exists>r. (i, r) \<in> set reg \<and> \<not> survives reg r then None else logs i) = logs"
      using all by (intro ext) force
    ultimately show ?thesis using True o by (subst evict_finished.simps) simp
  next
    case False
    then have "n \<noteq> 0" by simp
    from spec(2) [OF this] obtain i r where i: "oldest = Some (jr_seq r, i)" "(i, r) \<in> set reg" "is_terminal (jr_state r)"
      "\<forall>e \<in> set reg. is_terminal (jr_state (snd e)) \<longrightarrow> jr_seq r \<le> jr_seq (snd e)" by blast
    let ?d = "AList.delete i reg"
    have d: "reg_ok ?d" using 1(2) by (simp add: AList.delete_eq reg_ok_filter)
    have key: "(i, r') \<in> set reg \<Longrightarrow> r' = r" for r'
      using 1(2) i(2) by (auto simp: reg_ok_def dest: eq_key_imp_eq_value)
    have dead: "\<not> survives reg r"
      using False spec(1) newer_of_oldest [OF 1(2) i(2-4)] i(3) by (simp add: survives_def)
    note sd = survives_delete [OF 1(2) i(2,4)]
    have "evict_finished (reg, logs) = evict_finished (?d, logs(i := None))"
      using False o i(1) by (subst evict_finished.simps) simp
    also have "\<dots> = (filter (\<lambda>e. survives ?d (snd e)) ?d,
        \<lambda>j. if \<exists>r. (j, r) \<in> set ?d \<and> \<not> survives ?d r then None else (logs(i := None)) j)"
      using 1(1) [OF o [symmetric] False i(1) refl d] .
    also have "filter (\<lambda>e. survives ?d (snd e)) ?d = filter (\<lambda>e. survives reg (snd e)) reg"
      unfolding AList.delete_eq filter_filter
      using sd dead key by (intro filter_cong) (auto simp: AList.delete_eq)
    also have "(\<lambda>j. if \<exists>r. (j, r) \<in> set ?d \<and> \<not> survives ?d r then None else (logs(i := None)) j) =
        (\<lambda>j. if \<exists>r. (j, r) \<in> set reg \<and> \<not> survives reg r then None else logs j)"
    proof
      fix j
      have "(\<exists>r. (j, r) \<in> set ?d \<and> \<not> survives ?d r) \<longleftrightarrow> j \<noteq> i \<and> (\<exists>r. (j, r) \<in> set reg \<and> \<not> survives reg r)"
        using sd [of "(j, _)"] by (auto simp: AList.delete_eq)
      then show "(if \<exists>r. (j, r) \<in> set ?d \<and> \<not> survives ?d r then None else (logs(i := None)) j) =
        (if \<exists>r. (j, r) \<in> set reg \<and> \<not> survives reg r then None else logs j)"
        using dead i(2) by auto
    qed
    finally show ?thesis .
  qed
qed

lemma survivors_bounded:
  assumes "reg_ok reg"
  shows "finished_count (filter (\<lambda>e. survives reg (snd e)) reg) \<le> MAX_FINISHED_KEPT"
proof -
  let ?r = "filter (\<lambda>e. survives reg (snd e)) reg"
  obtain oldest n where o: "oldest_finished ?r (None, 0) = (oldest, n)" by force
  show ?thesis
  proof (cases "n = 0")
    case True
    then show ?thesis using oldest_finished_spec(1) [OF o] by simp
  next
    case False
    from oldest_finished_spec(2) [OF o False] obtain i r where i: "(i, r) \<in> set ?r" "is_terminal (jr_state r)"
      "\<forall>e \<in> set ?r. is_terminal (jr_state (snd e)) \<longrightarrow> jr_seq r \<le> jr_seq (snd e)" by blast
    have "newer_finished ?r r = finished_count ?r - 1"
      by (rule newer_of_oldest [OF reg_ok_filter [OF assms] i])
    moreover have "newer_finished ?r r \<le> newer_finished reg r"
    proof -
      have "length (filter P (filter Q xs)) \<le> length (filter P xs)" for P and Q :: "string \<times> job_record \<Rightarrow> bool" and xs
        by (induction xs) auto
      then show ?thesis by (simp add: newer_finished_def)
    qed
    moreover have "newer_finished reg r < MAX_FINISHED_KEPT" using i by (auto simp: survives_def)
    ultimately show ?thesis by linarith
  qed
qed

text \<open>
  Eviction keeps every running job and, of the finished ones, exactly those with fewer than
  twenty finished jobs started after them; the log of each dropped job goes with it, no other
  log does, and at most twenty finished jobs are left.
\<close>

theorem evict_finished_spec:
  assumes "reg_ok reg"
  shows "evict_finished (reg, logs) =
      (filter (\<lambda>e. \<not> is_terminal (jr_state (snd e)) \<or> newer_finished reg (snd e) < 20) reg,
       \<lambda>i. if \<exists>r. (i, r) \<in> set reg \<and> is_terminal (jr_state r) \<and> 20 \<le> newer_finished reg r then None else logs i)
    \<and> finished_count (fst (evict_finished (reg, logs))) \<le> 20"
  using evict_finished_closed [OF assms] survivors_bounded [OF assms]
  by (simp add: survives_def MAX_FINISHED_KEPT_def not_less)

theorem evict_finished_spec_witness:
  "evict_finished ([(''a'', new_record 0 None 1)], \<lambda>_. None) = ([(''a'', new_record 0 None 1)], \<lambda>_. None)"
  using evict_finished_spec [of "[(''a'', new_record 0 None 1)]" "\<lambda>_. None"]
  by (simp add: reg_ok_def new_record_def is_terminal_def)

section \<open>Pages of a log\<close>

lemma read_log_slice_eq: "read_log_slice log off len = take len (drop off log)"
  by (auto simp: read_log_slice_def min_def)

text \<open>
  A page of a known job's log starts at the requested offset, holds at most 64 KiB whatever
  limit was asked for, is empty only at or beyond the end (for a limit that is not zero), comes
  with the size of the whole log, and extends what precedes the offset: reading page after page,
  each from the end of the one before, yields the log.
\<close>

theorem handle_logs_page:
  assumes "job_status_of js i \<noteq> None" and "jb_logs js i = Some log" and "limit \<noteq> Some 0"
  shows "\<exists>page. handle_logs js i (Some off) limit = Some (page, length log)
    \<and> length page \<le> 64 * 1024 \<and> (page = [] \<longleftrightarrow> length log \<le> off)
    \<and> take off log @ page = take (off + length page) log"
proof -
  define lim where "lim = min (case limit of None \<Rightarrow> LOG_PAGE_MAX_BYTES | Some n \<Rightarrow> n) LOG_PAGE_MAX_BYTES"
  have lim: "lim \<noteq> 0" "lim \<le> 64 * 1024"
    using assms(3) by (auto simp: lim_def LOG_PAGE_MAX_BYTES_def split: option.split)
  let ?p = "take lim (drop off log)"
  have "handle_logs js i (Some off) limit = Some (?p, length log)"
    using assms(1,2) by (auto simp: handle_logs_def read_log_slice_eq lim_def Let_def)
  moreover have "length ?p \<le> 64 * 1024" using lim(2) by simp
  moreover have "?p = [] \<longleftrightarrow> length log \<le> off" using lim(1) by simp
  moreover have "take off log @ ?p = take (off + length ?p) log"
    by (cases "off \<le> length log") (simp_all add: take_add min_def)
  ultimately show ?thesis by blast
qed

definition sample_jobs :: jobs where
  "sample_jobs = \<lparr>jb_reg = [(''r:1'', new_record 0 None 1)], jb_next = 2, jb_logs = (\<lambda>_. Some ''out'')\<rparr>"

theorem handle_logs_page_witness:
  "\<exists>page. handle_logs sample_jobs ''r:1'' (Some 1) None = Some (page, 3) \<and> page \<noteq> []"
  using handle_logs_page [of sample_jobs "''r:1''" "''out''" None 1]
  by (auto simp: sample_jobs_def job_status_of_def)

section \<open>The callback's address\<close>

lemma of_hex_digit: "n < 16 \<Longrightarrow> of_char (hex_digit n) = (if n < 10 then 48 + n else 55 + n)"
  by (simp add: hex_digit_def)

lemma hex_digit_inj: "m < 16 \<Longrightarrow> n < 16 \<Longrightarrow> hex_digit m = hex_digit n \<Longrightarrow> m = n"
proof -
  assume a: "m < 16" "n < 16" "hex_digit m = hex_digit n"
  then have "(if m < 10 then 48 + m else 55 + m) = (if n < 10 then 48 + n else 55 + n)"
    by (metis of_hex_digit)
  then show "m = n" using a(1,2) by (simp split: if_split_asm)
qed

lemma of_char_hex_bounds: "(of_char c :: nat) div 16 < 16" "(of_char c :: nat) mod 16 < 16"
  using nat_of_char_less_256 [of c] by (simp_all add: less_mult_imp_div_less)

lemma hex_pair_inj:
  assumes "hex_digit (of_char c div 16) = hex_digit (of_char d div 16)"
    and "hex_digit (of_char c mod 16) = hex_digit (of_char d mod 16)"
  shows "c = d"
proof -
  have "(of_char c :: nat) div 16 = of_char d div 16" "(of_char c :: nat) mod 16 = of_char d mod 16"
    using assms hex_digit_inj of_char_hex_bounds by blast+
  then have "(of_char c :: nat) = of_char d" by (metis div_mult_mod_eq)
  then show ?thesis by (simp add: of_char_eq_iff)
qed

lemma percent_not_safe [simp]: "\<not> url_safe CHR 0x25"
  by (simp add: url_safe_def is_ascii_alnum_def)

lemma encode_inj: "encode_url_component a = encode_url_component b \<Longrightarrow> a = b"
proof (induction a arbitrary: b)
  case Nil
  then show ?case by (cases b) (auto split: if_splits)
next
  case (Cons c s)
  then obtain d t where b: "b = d # t" by (cases b) (auto split: if_splits)
  show ?case using Cons b hex_pair_inj [of c d] by (auto split: if_splits)
qed

lemma hex_digit_alnum: "n < 16 \<Longrightarrow> is_ascii_alnum (hex_digit n)"
  using of_hex_digit [of n] by (simp add: is_ascii_alnum_def)

lemma encode_safe: "list_all (\<lambda>c. url_safe c \<or> c = CHR 0x25) (encode_url_component a)"
  using hex_digit_alnum of_char_hex_bounds
  by (induction a) (auto simp: url_safe_def)

text \<open>
  The address of a callback determines the awakeable: two different identifiers never give
  the same address. What the caller supplies adds neither a slash, a question mark nor a hash to
  the address, so it stays one path component below the configured ingress.
\<close>

theorem callback_url_component:
  "(callback_url base a = callback_url base b \<longleftrightarrow> a = b)
   \<and> CHR ''/'' \<notin> set (encode_url_component a) \<and> CHR ''?'' \<notin> set (encode_url_component a)
   \<and> CHR ''#'' \<notin> set (encode_url_component a)"
proof -
  have "list_all (\<lambda>c. c \<noteq> CHR ''/'' \<and> c \<noteq> CHR ''?'' \<and> c \<noteq> CHR ''#'') (encode_url_component a)"
    using encode_safe [of a]
    by (rule list.pred_mono_strong) (auto simp: url_safe_def is_ascii_alnum_def)
  then show ?thesis
    by (auto simp: callback_url_def list_all_iff dest: encode_inj)
qed

text \<open>Dots pass unchanged: an identifier of two dots is the parent component.\<close>

lemma dot_dot_unchanged: "encode_url_component ''..'' = ''..''"
  by (simp add: url_safe_def)

end
