(* ===== verification/JobsRun.thy ===== *)
theory JobsRun
  imports JobsEvict
begin

text \<open>
  The sandbox's jobs as a state machine: the registry, one supervisor per spawned job, and the
  groups that were sent SIGTERM. Each event is one critical section of the registry or one step
  of a supervisor, so that a run is any interleaving of requests and supervisors.
\<close>

section \<open>Steps\<close>

datatype supervisor =
    Spawning
  | Waiting
  | Killing
  | Publishing job_state "int option"

record job_world =
  wd_jobs :: jobs
  wd_sup :: "(string \<times> supervisor) list"
  wd_signalled :: "int list"

definition world_new :: job_world where
  "world_new = \<lparr>wd_jobs = jobs_new, wd_sup = [], wd_signalled = []\<rparr>"

datatype job_event =
    EvCreate string "string option" nat
  | EvSpawned string "int option"
  | EvSpawnFailed string
  | EvOutput string string
  | EvCancel string
  | EvCancelPrefix string
  | EvElapsed string
  | EvExited string "int option"
  | EvWaitFailed string
  | EvKilled string "int option"
  | EvPublish string nat

definition signal_group :: "int option \<Rightarrow> job_world \<Rightarrow> job_world" where
  "signal_group pgid w = (case pgid of None \<Rightarrow> w | Some g \<Rightarrow> w\<lparr>wd_signalled := g # wd_signalled w\<rparr>)"

definition set_log :: "string \<Rightarrow> string option \<Rightarrow> jobs \<Rightarrow> jobs" where
  "set_log i l js = js\<lparr>jb_logs := (jb_logs js)(i := l)\<rparr>"

text \<open>A step that no supervisor is in the phase for is not enabled.\<close>

fun world_step :: "job_event \<Rightarrow> job_world \<Rightarrow> job_world option" where
  "world_step (EvCreate i awk now) w =
     (case begin_create i awk now (wd_jobs w) of
        (Inserted _, js) \<Rightarrow> Some (w\<lparr>wd_jobs := js, wd_sup := AList.update i Spawning (wd_sup w)\<rparr>)
      | (_, js) \<Rightarrow> Some (w\<lparr>wd_jobs := js\<rparr>))"
| "world_step (EvSpawned i pgid) w =
     (if map_of (wd_sup w) i = Some Spawning
      then (case mark_spawned i pgid (set_log i (Some []) (wd_jobs w)) of (raced, js) \<Rightarrow>
        Some (signal_group (if raced then pgid else None)
          (w\<lparr>wd_jobs := js, wd_sup := AList.update i Waiting (wd_sup w)\<rparr>)))
      else None)"
| "world_step (EvSpawnFailed i) w =
     (if map_of (wd_sup w) i = Some Spawning
      then Some (w\<lparr>wd_jobs := set_log i None (forget_job i (wd_jobs w)), wd_sup := AList.delete i (wd_sup w)\<rparr>)
      else None)"
| "world_step (EvOutput i bytes) w =
     (case jb_logs (wd_jobs w) i of
        None \<Rightarrow> None
      | Some l \<Rightarrow> Some (w\<lparr>wd_jobs := set_log i (Some (l @ bytes)) (wd_jobs w)\<rparr>))"
| "world_step (EvCancel i) w =
     (case request_cancel i (wd_jobs w) of ((known, pgid), js) \<Rightarrow>
        Some (signal_group pgid (w\<lparr>wd_jobs := js\<rparr>)))"
| "world_step (EvCancelPrefix p) w =
     (if p = [] then None
      else (case request_cancel_prefix p (wd_jobs w) of (targets, js) \<Rightarrow>
        Some (fold (\<lambda>(i, pgid). signal_group pgid) targets (w\<lparr>wd_jobs := js\<rparr>))))"
| "world_step (EvElapsed i) w =
     (if map_of (wd_sup w) i = Some Waiting
      then (case mark_timed_out i (wd_jobs w) of (pgid, js) \<Rightarrow>
        Some (signal_group pgid (w\<lparr>wd_jobs := js, wd_sup := AList.update i Killing (wd_sup w)\<rparr>)))
      else None)"
| "world_step (EvExited i code) w =
     (if map_of (wd_sup w) i = Some Waiting
      then (case terminal_of (Exited code) (cause_flags i (wd_jobs w)) of (st, c) \<Rightarrow>
        Some (w\<lparr>wd_sup := AList.update i (Publishing st c) (wd_sup w)\<rparr>))
      else None)"
| "world_step (EvWaitFailed i) w =
     (if map_of (wd_sup w) i = Some Waiting
      then (case terminal_of WaitFailed (cause_flags i (wd_jobs w)) of (st, c) \<Rightarrow>
        Some (w\<lparr>wd_sup := AList.update i (Publishing st c) (wd_sup w)\<rparr>))
      else None)"
| "world_step (EvKilled i code) w =
     (if map_of (wd_sup w) i = Some Killing
      then (case terminal_of (Elapsed code) (cause_flags i (wd_jobs w)) of (st, c) \<Rightarrow>
        Some (w\<lparr>wd_sup := AList.update i (Publishing st c) (wd_sup w)\<rparr>))
      else None)"
| "world_step (EvPublish i now) w =
     (case map_of (wd_sup w) i of
        Some (Publishing st code) \<Rightarrow>
          (case finish_job i st code now (wd_jobs w) of (_, js) \<Rightarrow>
            Some (w\<lparr>wd_jobs := js, wd_sup := AList.delete i (wd_sup w)\<rparr>))
      | _ \<Rightarrow> None)"

inductive job_reach :: "job_world \<Rightarrow> bool" where
  reach_new: "job_reach world_new"
| reach_step: "job_reach w \<Longrightarrow> world_step e w = Some w' \<Longrightarrow> job_reach w'"

inductive_cases reach_stepE: "job_reach w"

section \<open>The invariant\<close>

fun consistent :: "supervisor \<Rightarrow> job_record \<Rightarrow> int list \<Rightarrow> bool" where
  "consistent Spawning r sig \<longleftrightarrow> jr_pgid r = None \<and> \<not> jr_timed_out r"
| "consistent Waiting r sig \<longleftrightarrow> \<not> jr_timed_out r
     \<and> (jr_cancel r \<longrightarrow> (case jr_pgid r of None \<Rightarrow> True | Some g \<Rightarrow> g \<in> set sig))"
| "consistent Killing r sig \<longleftrightarrow> jr_timed_out r
     \<and> (case jr_pgid r of None \<Rightarrow> True | Some g \<Rightarrow> g \<in> set sig)"
| "consistent (Publishing st code) r sig \<longleftrightarrow> is_terminal st \<and> (st = JCancelled \<longrightarrow> jr_cancel r)
     \<and> (st = JTimedOut \<longleftrightarrow> jr_timed_out r) \<and> (st = JSucceeded \<longrightarrow> code = Some 0)"

definition linked :: "supervisor option \<Rightarrow> job_record option \<Rightarrow> int list \<Rightarrow> bool" where
  "linked s r sig =
     (case r of
        None \<Rightarrow> s = None
      | Some r \<Rightarrow>
          (case s of
             None \<Rightarrow> is_terminal (jr_state r)
           | Some s \<Rightarrow> jr_state r = JRunning \<and> consistent s r sig))"

definition job_inv :: "job_world \<Rightarrow> bool" where
  "job_inv w \<longleftrightarrow> reg_ok (jb_reg (wd_jobs w))
     \<and> (\<forall>e \<in> set (jb_reg (wd_jobs w)). jr_seq (snd e) < jb_next (wd_jobs w))
     \<and> running_count (jb_reg (wd_jobs w)) \<le> MAX_RUNNING_JOBS
     \<and> finished_count (jb_reg (wd_jobs w)) \<le> MAX_FINISHED_KEPT
     \<and> (\<forall>i. linked (map_of (wd_sup w) i) (map_of (jb_reg (wd_jobs w)) i) (wd_signalled w))"

lemma consistent_mono: "consistent s r sig \<Longrightarrow> set sig \<subseteq> set sig' \<Longrightarrow> consistent s r sig'"
  by (cases s) (auto split: option.splits)

lemma linked_mono: "linked s r sig \<Longrightarrow> set sig \<subseteq> set sig' \<Longrightarrow> linked s r sig'"
  by (auto simp: linked_def consistent_mono split: option.splits)

text \<open>Changing records in place, keeping their states and sequence numbers.\<close>

definition map_recs :: "(string \<Rightarrow> job_record \<Rightarrow> job_record) \<Rightarrow> registry \<Rightarrow> registry" where
  "map_recs g reg = map (\<lambda>(i, r). (i, g i r)) reg"

lemma map_of_map_recs: "map_of (map_recs g reg) i = map_option (g i) (map_of reg i)"
  by (induction reg) (auto simp: map_recs_def)

lemma map_entry_map_recs:
  "distinct (map fst reg) \<Longrightarrow> AList.map_entry i f reg = map_recs (\<lambda>j r. if j = i then f r else r) reg"
proof (induction reg)
  case (Cons e reg)
  have "map_recs (\<lambda>j r. if j = i then f r else r) reg = reg" if "i \<notin> fst ` set reg"
    using that unfolding map_recs_def by (intro map_idI) (force split: prod.split)
  with Cons show ?case by (cases e) (auto simp: map_recs_def)
qed (simp add: map_recs_def)

lemma reg_ok_map_recs:
  assumes "reg_ok reg" and "\<And>i r. jr_seq (g i r) = jr_seq r" shows "reg_ok (map_recs g reg)"
proof -
  have "map fst (map_recs g reg) = map fst reg" "map (\<lambda>e. jr_seq (snd e)) (map_recs g reg) = map (\<lambda>e. jr_seq (snd e)) reg"
    using assms(2) by (auto simp: map_recs_def comp_def case_prod_beta)
  with assms(1) show ?thesis by (simp add: reg_ok_def)
qed

lemma counts_map_recs:
  assumes "\<And>i r. jr_state (g i r) = jr_state r"
  shows "running_count (map_recs g reg) = running_count reg" and "finished_count (map_recs g reg) = finished_count reg"
  using assms
  by (simp_all add: running_count_def finished_count_def map_recs_def filter_map comp_def case_prod_beta)

lemma job_inv_map_recs:
  assumes inv: "job_inv w" and keep: "\<And>i r. jr_seq (g i r) = jr_seq r" "\<And>i r. jr_state (g i r) = jr_state r"
    and reg: "jb_reg (wd_jobs w') = map_recs g (jb_reg (wd_jobs w))" "jb_next (wd_jobs w') = jb_next (wd_jobs w)"
    and link: "\<And>i. linked (map_of (wd_sup w) i) (map_of (jb_reg (wd_jobs w)) i) (wd_signalled w) \<Longrightarrow>
      linked (map_of (wd_sup w') i) (map_option (g i) (map_of (jb_reg (wd_jobs w)) i)) (wd_signalled w')"
  shows "job_inv w'"
proof -
  have "\<forall>e \<in> set (map_recs g (jb_reg (wd_jobs w))). jr_seq (snd e) < jb_next (wd_jobs w)"
    using inv keep(1) by (auto simp: job_inv_def map_recs_def)
  then show ?thesis
    using inv link unfolding job_inv_def reg map_of_map_recs counts_map_recs [of g, OF keep(2)]
    by (simp add: reg_ok_map_recs keep(1))
qed

lemma fold_signal:
  "wd_jobs (fold (\<lambda>(i, pgid). signal_group pgid) ts w) = wd_jobs w"
  "wd_sup (fold (\<lambda>(i, pgid). signal_group pgid) ts w) = wd_sup w"
  "set (wd_signalled (fold (\<lambda>(i, pgid). signal_group pgid) ts w)) = set (wd_signalled w) \<union> {g. \<exists>i. (i, Some g) \<in> set ts}"
  by (induction ts arbitrary: w) (auto simp: signal_group_def split: option.splits prod.splits)

lemma signal_group_simps [simp]:
  "wd_jobs (signal_group p w) = wd_jobs w" "wd_sup (signal_group p w) = wd_sup w"
  "wd_signalled (signal_group p w) = (case p of None \<Rightarrow> wd_signalled w | Some g \<Rightarrow> g # wd_signalled w)"
  by (auto simp: signal_group_def split: option.split)

lemma map_recs_id [simp]: "map_recs (\<lambda>_ r. r) reg = reg"
  by (simp add: map_recs_def)

section \<open>Every step keeps the invariant\<close>

lemma inv_keys: "job_inv w \<Longrightarrow> distinct (map fst (jb_reg (wd_jobs w)))"
  by (simp add: job_inv_def reg_ok_def)

lemma inv_linked: "job_inv w \<Longrightarrow> linked (map_of (wd_sup w) i) (map_of (jb_reg (wd_jobs w)) i) (wd_signalled w)"
  by (simp add: job_inv_def)

text \<open>A supervisor's job is in the registry, running.\<close>

lemma inv_supervised:
  "job_inv w \<Longrightarrow> map_of (wd_sup w) i = Some s \<Longrightarrow>
   \<exists>r. map_of (jb_reg (wd_jobs w)) i = Some r \<and> jr_state r = JRunning \<and> consistent s r (wd_signalled w)"
  using inv_linked [of w i] by (auto simp: linked_def split: option.splits)

text \<open>A step that changes one job's record and supervisor.\<close>

lemma job_inv_one:
  assumes inv: "job_inv w" and i: "map_of (jb_reg (wd_jobs w)) i = Some r"
    and keep: "\<And>r. jr_seq (f r) = jr_seq r" "\<And>r. jr_state (f r) = jr_state r"
    and reg: "jb_reg (wd_jobs w') = AList.map_entry i f (jb_reg (wd_jobs w))" "jb_next (wd_jobs w') = jb_next (wd_jobs w)"
    and sup: "\<And>j. j \<noteq> i \<Longrightarrow> map_of (wd_sup w') j = map_of (wd_sup w) j"
    and sig: "set (wd_signalled w) \<subseteq> set (wd_signalled w')"
    and link: "linked (map_of (wd_sup w') i) (Some (f r)) (wd_signalled w')"
  shows "job_inv w'"
proof (rule job_inv_map_recs [OF inv, where g = "\<lambda>j r. if j = i then f r else r"])
  show "jb_reg (wd_jobs w') = map_recs (\<lambda>j r. if j = i then f r else r) (jb_reg (wd_jobs w))"
    using reg(1) map_entry_map_recs [OF inv_keys [OF inv]] by simp
  show "linked (map_of (wd_sup w') j) (map_option ((\<lambda>r. if j = i then f r else r)) (map_of (jb_reg (wd_jobs w)) j)) (wd_signalled w')"
    if "linked (map_of (wd_sup w) j) (map_of (jb_reg (wd_jobs w)) j) (wd_signalled w)" for j
    using that link sup [of j] i linked_mono [OF that sig] by (cases "j = i") (simp_all add: option.map_ident)
qed (use keep reg in simp_all)

lemma map_entry_same: "AList.map_entry i (\<lambda>r. r) al = al"
  by (induction al) auto

text \<open>A step of a supervisor that leaves the registry alone.\<close>

lemma job_inv_sup:
  assumes "job_inv w" and "map_of (jb_reg (wd_jobs w)) i = Some r" and "jr_state r = JRunning"
    and "consistent s r (wd_signalled w)"
  shows "job_inv (w\<lparr>wd_sup := AList.update i s (wd_sup w)\<rparr>)"
  by (rule job_inv_one [OF assms(1,2), where f = "\<lambda>r. r"])
    (use assms in \<open>simp_all add: map_entry_same update_conv' linked_def\<close>)

lemma update_fresh: "i \<notin> fst ` set al \<Longrightarrow> AList.update i v al = al @ [(i, v)]"
  by (induction al) auto

lemma job_inv_create:
  assumes "job_inv w" and "begin_create i awk now (wd_jobs w) = (Inserted n, js)"
  shows "job_inv (w\<lparr>wd_jobs := js, wd_sup := AList.update i Spawning (wd_sup w)\<rparr>)"
proof -
  let ?reg = "jb_reg (wd_jobs w)"
  have i: "map_of ?reg i = None" and c: "running_count ?reg < MAX_RUNNING_JOBS"
    and js: "js = (wd_jobs w)\<lparr>jb_reg := AList.update i (new_record now awk (jb_next (wd_jobs w))) ?reg,
      jb_next := jb_next (wd_jobs w) + 1\<rparr>"
    using assms(2) by (auto simp: begin_create_def split: option.splits if_splits)
  have fresh: "i \<notin> fst ` set ?reg" using i by (simp add: map_of_eq_None_iff)
  have inv: "reg_ok ?reg" "\<forall>e \<in> set ?reg. jr_seq (snd e) < jb_next (wd_jobs w)" "finished_count ?reg \<le> MAX_FINISHED_KEPT"
    "\<And>j. linked (map_of (wd_sup w) j) (map_of ?reg j) (wd_signalled w)"
    using assms(1) by (simp_all add: job_inv_def)
  have "reg_ok (?reg @ [(i, new_record now awk (jb_next (wd_jobs w)))])"
    using inv(1,2) fresh by (auto simp: reg_ok_def new_record_def)
  moreover have "running_count (?reg @ [(i, new_record now awk (jb_next (wd_jobs w)))]) \<le> MAX_RUNNING_JOBS"
    using c by (simp add: running_count_def new_record_def)
  moreover have "finished_count (?reg @ [(i, new_record now awk (jb_next (wd_jobs w)))]) \<le> MAX_FINISHED_KEPT"
    using inv(3) by (simp add: finished_count_def new_record_def is_terminal_def)
  moreover have "linked (map_of (AList.update i Spawning (wd_sup w)) j)
      (map_of (AList.update i (new_record now awk (jb_next (wd_jobs w))) ?reg) j) (wd_signalled w)" for j
    using inv(4) [of j] by (simp add: update_conv' linked_def new_record_def)
  ultimately show ?thesis
    using inv(2) by (auto simp: job_inv_def js update_fresh [OF fresh] new_record_def less_Suc_eq)
qed

lemma counts_filter:
  "running_count (filter P reg) \<le> running_count reg" "finished_count (filter P reg) \<le> finished_count reg"
  by (induction reg) (auto simp: running_count_def finished_count_def)

lemma job_inv_forget:
  assumes "job_inv w"
  shows "job_inv (w\<lparr>wd_jobs := set_log i None (forget_job i (wd_jobs w)), wd_sup := AList.delete i (wd_sup w)\<rparr>)"
proof -
  let ?reg = "jb_reg (wd_jobs w)"
  have "running_count (AList.delete i ?reg) \<le> running_count ?reg" "finished_count (AList.delete i ?reg) \<le> finished_count ?reg"
    unfolding AList.delete_eq by (rule counts_filter)+
  moreover have "reg_ok (AList.delete i ?reg)" using assms by (simp add: AList.delete_eq reg_ok_filter job_inv_def)
  moreover have "\<forall>e \<in> set (AList.delete i ?reg). jr_seq (snd e) < jb_next (wd_jobs w)"
    using assms by (auto simp: job_inv_def AList.delete_eq)
  moreover have "linked (map_of (AList.delete i (wd_sup w)) j) (map_of (AList.delete i ?reg) j) (wd_signalled w)" for j
    using inv_linked [OF assms, of j] by (simp add: delete_conv' linked_def)
  ultimately show ?thesis using assms by (simp add: job_inv_def set_log_def forget_job_def)
qed

lemma map_of_filter_distinct:
  "distinct (map fst al) \<Longrightarrow> map_of (filter P al) i =
     (case map_of al i of None \<Rightarrow> None | Some v \<Rightarrow> if P (i, v) then Some v else None)"
proof (induction al)
  case (Cons e al)
  have "i \<notin> fst ` set al \<Longrightarrow> map_of (filter P al) i = None" by (auto simp: map_of_eq_None_iff)
  with Cons show ?case by (cases e) (auto split: option.splits simp: map_of_eq_None_iff)
qed simp

lemma map_entry_cong: "map_of al i = Some v \<Longrightarrow> f v = g v \<Longrightarrow> AList.map_entry i f al = AList.map_entry i g al"
  by (induction al) (auto split: if_splits)

lemma running_map_recs:
  "(\<And>i r. jr_state (g i r) = JRunning \<Longrightarrow> jr_state r = JRunning) \<Longrightarrow> running_count (map_recs g reg) \<le> running_count reg"
  by (induction reg) (auto simp: running_count_def map_recs_def)

definition finished_record :: "job_state \<Rightarrow> int option \<Rightarrow> nat \<Rightarrow> job_record \<Rightarrow> job_record" where
  "finished_record st code now r = r\<lparr>jr_state := st, jr_exit := code, jr_ended := Some now\<rparr>"

text \<open>What publishing does to the registry, in closed form.\<close>

lemma finish_job_reg:
  assumes "reg_ok (jb_reg js)" and "map_of (jb_reg js) i = Some r"
    and "reg' = map_recs (\<lambda>j x. if j = i then finished_record st code now x else x) (jb_reg js)"
  shows "jb_reg (snd (finish_job i st code now js)) = filter (\<lambda>e. survives reg' (snd e)) reg'"
    and "jb_next (snd (finish_job i st code now js)) = jb_next js"
    and "reg_ok reg'"
proof -
  have e: "AList.map_entry i (\<lambda>_. finished_record st code now r) (jb_reg js) = reg'"
    using map_entry_cong [OF assms(2), of "\<lambda>_. finished_record st code now r" "finished_record st code now"]
      map_entry_map_recs [of "jb_reg js"] assms(1,3) by (simp add: reg_ok_def)
  show ok: "reg_ok reg'"
    using assms(1,3) by (simp add: reg_ok_map_recs finished_record_def)
  note c = evict_finished_closed [OF ok, of "jb_logs js"]
  show "jb_reg (snd (finish_job i st code now js)) = filter (\<lambda>e. survives reg' (snd e)) reg'"
    "jb_next (snd (finish_job i st code now js)) = jb_next js"
    using assms(2) e c by (simp_all add: finish_job_def finished_record_def Let_def split: prod.split)
qed

lemma job_inv_publish:
  assumes inv: "job_inv w" and p: "map_of (wd_sup w) i = Some (Publishing st code)"
  shows "job_inv (w\<lparr>wd_jobs := snd (finish_job i st code now (wd_jobs w)), wd_sup := AList.delete i (wd_sup w)\<rparr>)"
proof -
  let ?reg = "jb_reg (wd_jobs w)"
  from inv_supervised [OF inv p] obtain r where r: "map_of ?reg i = Some r" "is_terminal st" by auto
  define reg' where "reg' = map_recs (\<lambda>j x. if j = i then finished_record st code now x else x) ?reg"
  have ok: "reg_ok ?reg" using inv by (simp add: job_inv_def)
  note f = finish_job_reg [OF ok r(1) reg'_def]
  have "running_count reg' \<le> running_count ?reg"
    unfolding reg'_def using r(2) by (intro running_map_recs) (auto simp: finished_record_def is_terminal_def split: if_splits)
  then have c: "running_count (filter (\<lambda>e. survives reg' (snd e)) reg') \<le> MAX_RUNNING_JOBS"
    using counts_filter(1) [of "\<lambda>e. survives reg' (snd e)" reg'] inv by (auto simp: job_inv_def)
  have q: "\<forall>e \<in> set reg'. jr_seq (snd e) < jb_next (wd_jobs w)"
    using inv by (auto simp: reg'_def map_recs_def finished_record_def job_inv_def)
  have "linked (map_of (AList.delete i (wd_sup w)) j) (map_of (filter (\<lambda>e. survives reg' (snd e)) reg') j) (wd_signalled w)" for j
  proof -
    have m: "map_of (filter (\<lambda>e. survives reg' (snd e)) reg') j =
        (case map_option (\<lambda>x. if j = i then finished_record st code now x else x) (map_of ?reg j) of
           None \<Rightarrow> None | Some v \<Rightarrow> if survives reg' v then Some v else None)"
      using f(3) map_of_map_recs [of "\<lambda>j x. if j = i then finished_record st code now x else x" ?reg j]
      by (simp add: map_of_filter_distinct reg_ok_def flip: reg'_def split: option.split)
    show ?thesis
      using inv_linked [OF inv, of j] r unfolding m
      by (cases "j = i")
        (auto simp: linked_def delete_conv' finished_record_def survives_def is_terminal_def split: option.splits)
  qed
  then show ?thesis
    using c q survivors_bounded [OF f(3)] by (auto simp: job_inv_def f reg_ok_filter)
qed

lemma inv_flags:
  "job_inv w \<Longrightarrow> map_of (wd_sup w) i = Some s \<Longrightarrow> map_of (jb_reg (wd_jobs w)) i = Some r \<Longrightarrow>
   cause_flags i (wd_jobs w) = (jr_cancel r, jr_timed_out r)"
  by (simp add: cause_flags_def)

lemma job_inv_cancel_prefix:
  assumes inv: "job_inv w"
  shows "job_inv (fold (\<lambda>(i, pgid). signal_group pgid) (fst (request_cancel_prefix p (wd_jobs w)))
    (w\<lparr>wd_jobs := snd (request_cancel_prefix p (wd_jobs w))\<rparr>))" (is "job_inv ?w'")
proof (rule job_inv_map_recs [OF inv, where g = "\<lambda>i r. if strip_prefix p i \<noteq> None \<and> \<not> is_terminal (jr_state r)
    then r\<lparr>jr_cancel := True\<rparr> else r"])
  show "jb_reg (wd_jobs ?w') = map_recs (\<lambda>i r. if strip_prefix p i \<noteq> None \<and> \<not> is_terminal (jr_state r)
    then r\<lparr>jr_cancel := True\<rparr> else r) (jb_reg (wd_jobs w))"
    by (simp add: fold_signal request_cancel_prefix_def map_recs_def)
  fix i
  assume l: "linked (map_of (wd_sup w) i) (map_of (jb_reg (wd_jobs w)) i) (wd_signalled w)"
  have sig: "set (wd_signalled w) \<subseteq> set (wd_signalled ?w')" by (auto simp: fold_signal)
  have g: "g \<in> set (wd_signalled ?w')" if "map_of (jb_reg (wd_jobs w)) i = Some r" "jr_pgid r = Some g"
      "strip_prefix p i \<noteq> None" "\<not> is_terminal (jr_state r)" for g r
    using map_of_SomeD [OF that(1)] that(2-4)
    by (force simp: fold_signal request_cancel_prefix_def cancel_targets_def)
  show "linked (map_of (wd_sup ?w') i) (map_option (\<lambda>r. if strip_prefix p i \<noteq> None \<and> \<not> is_terminal (jr_state r)
    then r\<lparr>jr_cancel := True\<rparr> else r) (map_of (jb_reg (wd_jobs w)) i)) (wd_signalled ?w')"
  proof (cases "map_of (jb_reg (wd_jobs w)) i")
    case None
    then show ?thesis using l by (simp add: linked_def fold_signal)
  next
    case (Some r)
    show ?thesis
    proof (cases "strip_prefix p i \<noteq> None \<and> \<not> is_terminal (jr_state r)")
      case False
      then show ?thesis using linked_mono [OF l sig] Some by (auto simp: fold_signal)
    next
      case True
      from linked_mono [OF l sig] Some True obtain s where s: "map_of (wd_sup w) i = Some s" "jr_state r = JRunning"
        "consistent s r (wd_signalled ?w')" by (auto simp: linked_def split: option.splits)
      have "consistent s (r\<lparr>jr_cancel := True\<rparr>) (wd_signalled ?w')"
        using s(3) g [OF Some _ True [THEN conjunct1] True [THEN conjunct2]]
        by (cases s) (auto split: option.splits)
      then show ?thesis using s Some True by (simp add: linked_def fold_signal)
    qed
  qed
qed (simp_all add: fold_signal request_cancel_prefix_def)

lemma job_inv_step:
  assumes inv: "job_inv w" and step: "world_step e w = Some w'"
  shows "job_inv w'"
proof (cases e)
  case (EvCreate i awk now)
  then show ?thesis
    using step inv job_inv_create [OF inv, of i awk now]
    by (auto simp: begin_create_def split: option.splits if_splits prod.splits)
next
  case (EvSpawned i pgid)
  then have s: "map_of (wd_sup w) i = Some Spawning" using step by (auto split: if_splits)
  from inv_supervised [OF inv s] obtain r where r: "map_of (jb_reg (wd_jobs w)) i = Some r" "jr_state r = JRunning"
    "consistent Spawning r (wd_signalled w)" by auto
  show ?thesis
    by (rule job_inv_one [OF inv r(1), where f = "\<lambda>r. r\<lparr>jr_pgid := pgid\<rparr>"])
      (use EvSpawned step s r in \<open>auto simp: mark_spawned_def set_log_def update_conv' linked_def split: option.splits\<close>)
next
  case (EvSpawnFailed i)
  then show ?thesis using step job_inv_forget [OF inv] by (auto split: if_splits)
next
  case (EvOutput i bytes)
  then show ?thesis using step inv by (fastforce simp: set_log_def job_inv_def split: option.splits)
next
  case (EvCancel i)
  show ?thesis
  proof (cases "map_of (jb_reg (wd_jobs w)) i")
    case None
    then show ?thesis using EvCancel step inv by (simp add: request_cancel_def signal_group_def)
  next
    case (Some r)
    show ?thesis
    proof (cases "is_terminal (jr_state r)")
      case True
      then show ?thesis using EvCancel step inv Some by (simp add: request_cancel_def signal_group_def)
    next
      case False
      from inv_linked [OF inv, of i] Some False obtain s where s: "map_of (wd_sup w) i = Some s" "jr_state r = JRunning"
        "consistent s r (wd_signalled w)" by (auto simp: linked_def split: option.splits)
      have w': "w' = signal_group (jr_pgid r) (w\<lparr>wd_jobs := (wd_jobs w)\<lparr>jb_reg :=
          AList.map_entry i (\<lambda>r. r\<lparr>jr_cancel := True\<rparr>) (jb_reg (wd_jobs w))\<rparr>\<rparr>)"
        using EvCancel step Some False by (simp add: request_cancel_def)
      have "consistent s (r\<lparr>jr_cancel := True\<rparr>) (wd_signalled w')"
        using s(3) by (cases s) (auto simp: w' split: option.splits)
      then show ?thesis
        using s by (intro job_inv_one [OF inv Some, where f = "\<lambda>r. r\<lparr>jr_cancel := True\<rparr>"])
          (auto simp: w' linked_def split: option.splits)
    qed
  qed
next
  case (EvCancelPrefix p)
  then show ?thesis
    using step job_inv_cancel_prefix [OF inv, of p] by (auto split: if_splits prod.splits)
next
  case (EvElapsed i)
  then have s: "map_of (wd_sup w) i = Some Waiting" using step by (auto split: if_splits)
  from inv_supervised [OF inv s] obtain r where r: "map_of (jb_reg (wd_jobs w)) i = Some r" "jr_state r = JRunning" by auto
  show ?thesis
    by (rule job_inv_one [OF inv r(1), where f = "\<lambda>r. r\<lparr>jr_timed_out := True\<rparr>"])
      (use EvElapsed step s r in \<open>auto simp: mark_timed_out_def update_conv' linked_def split: option.splits\<close>)
next
  case (EvExited i code)
  then have s: "map_of (wd_sup w) i = Some Waiting" using step by (auto split: if_splits prod.splits)
  from inv_supervised [OF inv s] obtain r where r: "map_of (jb_reg (wd_jobs w)) i = Some r" "jr_state r = JRunning"
    "consistent Waiting r (wd_signalled w)" by auto
  show ?thesis
    using EvExited step s r inv_flags [OF inv s r(1)] job_inv_sup [OF inv r(1,2)]
    by (auto simp: is_terminal_def split: if_splits)
next
  case (EvWaitFailed i)
  then have s: "map_of (wd_sup w) i = Some Waiting" using step by (auto split: if_splits)
  from inv_supervised [OF inv s] obtain r where r: "map_of (jb_reg (wd_jobs w)) i = Some r" "jr_state r = JRunning"
    "consistent Waiting r (wd_signalled w)" by auto
  show ?thesis
    using EvWaitFailed step s r job_inv_sup [OF inv r(1,2), of "Publishing JFailed None"] by (simp add: is_terminal_def)
next
  case (EvKilled i code)
  then have s: "map_of (wd_sup w) i = Some Killing" using step by (auto split: if_splits)
  from inv_supervised [OF inv s] obtain r where r: "map_of (jb_reg (wd_jobs w)) i = Some r" "jr_state r = JRunning"
    "consistent Killing r (wd_signalled w)" by auto
  show ?thesis
    using EvKilled step s r job_inv_sup [OF inv r(1,2), of "Publishing JTimedOut code"] by (simp add: is_terminal_def)
next
  case (EvPublish i now)
  then show ?thesis
    using step job_inv_publish [OF inv, of i]
    by (auto simp: case_prod_beta split: option.splits supervisor.splits)
qed

lemma job_inv_new: "job_inv world_new"
  by (simp add: job_inv_def world_new_def jobs_new_def reg_ok_def running_count_def finished_count_def linked_def)

lemma job_reach_inv: "job_reach w \<Longrightarrow> job_inv w"
  by (induction rule: job_reach.induct) (auto intro: job_inv_new job_inv_step)

end
