(* ===== verification/JobsProps.thy ===== *)
theory JobsProps
  imports JobsRun
begin

text \<open>
  What every interleaving of requests and supervisors guarantees about the sandbox's jobs.
\<close>

section \<open>Runs as lists of events\<close>

fun run_events :: "job_event list \<Rightarrow> job_world \<Rightarrow> job_world option" where
  "run_events [] w = Some w"
| "run_events (e # es) w = Option.bind (world_step e w) (run_events es)"

lemma run_events_reach: "job_reach w \<Longrightarrow> run_events es w = Some w' \<Longrightarrow> job_reach w'"
  by (induction es arbitrary: w) (auto simp: bind_Some_iff intro: reach_step)

definition waiting_world :: job_world where
  "waiting_world = \<lparr>wd_jobs = \<lparr>jb_reg = [(''j'', (new_record 0 None 1)\<lparr>jr_pgid := Some 7, jr_cancel := True\<rparr>)], jb_next = 2,
       jb_logs = (\<lambda>_. None)(''j'' := Some [])\<rparr>,
     wd_sup = [(''j'', Waiting)], wd_signalled = [7]\<rparr>"

lemma waiting_run:
  "run_events [EvCreate ''j'' None 0, EvSpawned ''j'' (Some 7), EvCancel ''j''] world_new = Some waiting_world"
  by (simp add: world_new_def jobs_new_def begin_create_def running_count_def MAX_RUNNING_JOBS_def mark_spawned_def
      set_log_def request_cancel_def new_record_def is_terminal_def signal_group_def waiting_world_def)

lemma waiting_reach: "job_reach waiting_world"
  by (rule run_events_reach [OF reach_new waiting_run])

text \<open>
  C1: In every reachable state at most four jobs run and at most twenty finished ones are kept,
  job identifiers and sequence numbers are unique, and the jobs shown as running are exactly
  those that a supervisor looks after, so none stays running for ever unattended and none is
  dropped while its process may live.
\<close>

theorem jobs_bounded_and_supervised:
  assumes "job_reach w"
  shows "running_count (jb_reg (wd_jobs w)) \<le> 4 \<and> finished_count (jb_reg (wd_jobs w)) \<le> 20
    \<and> reg_ok (jb_reg (wd_jobs w))
    \<and> (job_is_running i (wd_jobs w) \<longleftrightarrow> map_of (wd_sup w) i \<noteq> None)"
proof -
  have "job_is_running i (wd_jobs w) \<longleftrightarrow> map_of (wd_sup w) i \<noteq> None"
    using inv_linked [OF job_reach_inv [OF assms], of i]
    by (auto simp: job_is_running_def linked_def is_terminal_def split: option.splits)
  then show ?thesis
    using job_reach_inv [OF assms] by (simp add: job_inv_def MAX_RUNNING_JOBS_def MAX_FINISHED_KEPT_def)
qed

theorem jobs_bounded_and_supervised_witness:
  "job_is_running ''j'' (wd_jobs waiting_world) \<longleftrightarrow> map_of (wd_sup waiting_world) ''j'' \<noteq> None"
  using jobs_bounded_and_supervised [OF waiting_reach] by simp

text \<open>
  A creation with the identifier of a job that is still known, running or finished, changes
  nothing, and a process is only started for a record that has none: an identifier never has a
  second process while its record is kept.
\<close>

theorem create_is_idempotent:
  assumes "job_reach w"
  shows "(job_status_of (wd_jobs w) i \<noteq> None \<longrightarrow> world_step (EvCreate i awk now) w = Some w)
    \<and> (world_step (EvSpawned i pgid) w \<noteq> None \<longrightarrow>
        (\<exists>r. map_of (jb_reg (wd_jobs w)) i = Some r \<and> jr_state r = JRunning \<and> jr_pgid r = None))
    \<and> (map_of (jb_reg (wd_jobs w)) i = None \<and> 4 \<le> running_count (jb_reg (wd_jobs w)) \<longrightarrow>
        world_step (EvCreate i awk now) w = Some w)"
proof -
  have "\<exists>r. map_of (jb_reg (wd_jobs w)) i = Some r \<and> jr_state r = JRunning \<and> jr_pgid r = None"
    if "world_step (EvSpawned i pgid) w \<noteq> None"
    using that inv_supervised [OF job_reach_inv [OF assms], of i Spawning] by (auto split: if_splits)
  then show ?thesis
    by (auto simp: job_status_of_def begin_create_def MAX_RUNNING_JOBS_def)
qed

theorem create_is_idempotent_witness:
  "world_step (EvCreate ''j'' (Some ''a'') 9) waiting_world = Some waiting_world"
  using create_is_idempotent [OF waiting_reach, of "''j''" "Some ''a''" 9 None]
  by (simp add: job_status_of_def waiting_world_def)

section \<open>Finished jobs\<close>

lemma map_of_map_entry: "map_of (AList.map_entry i f al) j = (if j = i then map_option f (map_of al j) else map_of al j)"
  by (induction al) auto

lemma map_of_prefix_cancel:
  "map_of (jb_reg (snd (request_cancel_prefix p js))) j =
     map_option (\<lambda>r. if strip_prefix p j \<noteq> None \<and> \<not> is_terminal (jr_state r) then r\<lparr>jr_cancel := True\<rparr> else r)
       (map_of (jb_reg js) j)"
  using map_of_map_recs [of "\<lambda>i r. if strip_prefix p i \<noteq> None \<and> \<not> is_terminal (jr_state r) then r\<lparr>jr_cancel := True\<rparr> else r"]
  by (simp add: request_cancel_prefix_def map_recs_def)

lemma newer_finished_map_recs:
  assumes "reg_ok reg" and "map_of reg i = Some r"
  shows "newer_finished (map_recs (\<lambda>j x. if j = i then finished_record st code now x else x) reg) (finished_record st code now r)
    = newer_finished reg r"
proof -
  have "is_terminal (jr_state (if j = i then finished_record st code now x else x)) \<and> jr_seq r <
      jr_seq (if j = i then finished_record st code now x else x)
      \<longleftrightarrow> is_terminal (jr_state x) \<and> jr_seq r < jr_seq x" if "(j, x) \<in> set reg" for j x
  proof -
    have "j = i \<Longrightarrow> map_of reg i = Some x" using assms(1) that by (simp add: reg_ok_def)
    then have "j = i \<Longrightarrow> x = r" using assms(2) by simp
    then show ?thesis by (auto simp: finished_record_def)
  qed
  then have "filter (\<lambda>e. is_terminal (jr_state (if fst e = i then finished_record st code now (snd e) else snd e)) \<and> jr_seq r <
      jr_seq (if fst e = i then finished_record st code now (snd e) else snd e)) reg =
      filter (\<lambda>e. is_terminal (jr_state (snd e)) \<and> jr_seq r < jr_seq (snd e)) reg"
    by (intro filter_cong) auto
  then show ?thesis
    by (simp add: newer_finished_def map_recs_def filter_map comp_def case_prod_beta finished_record_def)
qed

text \<open>The registry after publishing, job by job.\<close>

lemma map_of_finish:
  assumes "reg_ok (jb_reg js)" and "map_of (jb_reg js) i = Some r"
  shows "map_of (jb_reg (snd (finish_job i st code now js))) i =
      (if is_terminal st \<and> MAX_FINISHED_KEPT \<le> newer_finished (jb_reg js) r then None else Some (finished_record st code now r))"
    and "j \<noteq> i \<Longrightarrow> map_of (jb_reg (snd (finish_job i st code now js))) j = map_of (jb_reg js) j
      \<or> map_of (jb_reg (snd (finish_job i st code now js))) j = None"
proof -
  define reg' where "reg' = map_recs (\<lambda>j x. if j = i then finished_record st code now x else x) (jb_reg js)"
  note f = finish_job_reg [OF assms reg'_def]
  have m: "map_of (filter (\<lambda>e. survives reg' (snd e)) reg') j =
      (case map_of (jb_reg js) j of None \<Rightarrow> None
       | Some x \<Rightarrow> if survives reg' (if j = i then finished_record st code now x else x)
          then Some (if j = i then finished_record st code now x else x) else None)" for j
    using f(3) map_of_map_recs [of "\<lambda>j x. if j = i then finished_record st code now x else x" "jb_reg js" j]
    by (simp add: map_of_filter_distinct reg_ok_def flip: reg'_def split: option.split)
  show "map_of (jb_reg (snd (finish_job i st code now js))) i =
      (if is_terminal st \<and> MAX_FINISHED_KEPT \<le> newer_finished (jb_reg js) r then None else Some (finished_record st code now r))"
    using assms newer_finished_map_recs [OF assms, of st code now]
    unfolding f m by (simp add: survives_def reg'_def not_less) (auto simp: finished_record_def)
  show "j \<noteq> i \<Longrightarrow> map_of (jb_reg (snd (finish_job i st code now js))) j = map_of (jb_reg js) j
      \<or> map_of (jb_reg (snd (finish_job i st code now js))) j = None"
    unfolding f m by (simp split: option.split)
qed

text \<open>
  A job that has finished never changes again: whatever happens next, its record stays as
  it is until an eviction, at another job's end, drops it.
\<close>

theorem finished_jobs_are_final:
  assumes "job_reach w" and "map_of (jb_reg (wd_jobs w)) i = Some r" and "is_terminal (jr_state r)"
    and "world_step e w = Some w'"
  shows "map_of (jb_reg (wd_jobs w')) i = Some r
    \<or> map_of (jb_reg (wd_jobs w')) i = None \<and> (\<exists>j now. e = EvPublish j now \<and> j \<noteq> i)"
proof -
  have inv: "job_inv w" by (rule job_reach_inv [OF assms(1)])
  have i: "map_of (wd_sup w) i = None"
    using inv_linked [OF inv, of i] assms(2,3) by (auto simp: linked_def is_terminal_def split: option.splits)
  show ?thesis
  proof (cases e)
    case (EvPublish j now)
    then obtain st code where p: "map_of (wd_sup w) j = Some (Publishing st code)"
      and w': "jb_reg (wd_jobs w') = jb_reg (snd (finish_job j st code now (wd_jobs w)))"
      using assms(4) by (auto simp: case_prod_beta split: option.splits supervisor.splits)
    from inv_supervised [OF inv p] obtain q where q: "map_of (jb_reg (wd_jobs w)) j = Some q" by auto
    have "j \<noteq> i" using i p by auto
    then show ?thesis
      using map_of_finish(2) [OF _ q, of i st code now] inv assms(2) EvPublish unfolding w' by (auto simp: job_inv_def)
  next
    case (EvCancelPrefix p)
    then show ?thesis
      using assms(2-4) by (auto simp: case_prod_beta fold_signal map_of_prefix_cancel split: if_splits)
  qed (use assms(2-4) i in \<open>auto simp: begin_create_def mark_spawned_def set_log_def request_cancel_def mark_timed_out_def
      forget_job_def case_prod_beta map_of_map_entry update_conv' delete_conv' split: option.splits if_splits\<close>)
qed

definition done_record :: job_record where
  "done_record = finished_record JCancelled None 3 ((new_record 0 None 1)\<lparr>jr_pgid := Some 7, jr_cancel := True\<rparr>)"

definition publishing_world :: job_world where
  "publishing_world = waiting_world\<lparr>wd_sup := [(''j'', Publishing JCancelled None)]\<rparr>"

lemma publishing_reach: "job_reach publishing_world"
  by (rule reach_step [OF waiting_reach, of "EvExited ''j'' None"])
    (simp add: waiting_world_def cause_flags_def publishing_world_def)

definition done_world :: job_world where
  "done_world = the (world_step (EvPublish ''j'' 3) publishing_world)"

lemma done_step: "world_step (EvPublish ''j'' 3) publishing_world = Some done_world"
  by (simp add: done_world_def publishing_world_def split: prod.split)

lemma done_reach: "job_reach done_world"
  by (rule reach_step [OF publishing_reach done_step])

lemma done_reg: "map_of (jb_reg (wd_jobs done_world)) ''j'' = Some done_record"
proof -
  let ?js = "wd_jobs waiting_world"
  have ok: "reg_ok (jb_reg ?js)" and r: "map_of (jb_reg ?js) ''j'' = Some ((new_record 0 None 1)\<lparr>jr_pgid := Some 7, jr_cancel := True\<rparr>)"
    by (simp_all add: waiting_world_def reg_ok_def)
  have n: "newer_finished (jb_reg ?js) ((new_record 0 None 1)\<lparr>jr_pgid := Some 7, jr_cancel := True\<rparr>) = 0"
    by (simp add: newer_finished_def waiting_world_def new_record_def)
  have "jb_reg (wd_jobs done_world) = jb_reg (snd (finish_job ''j'' JCancelled None 3 ?js))"
    by (simp add: done_world_def publishing_world_def case_prod_beta)
  then show ?thesis
    using map_of_finish(1) [OF ok r, of JCancelled None 3] unfolding n by (simp add: MAX_FINISHED_KEPT_def done_record_def)
qed

theorem finished_jobs_are_final_witness:
  "map_of (jb_reg (wd_jobs (the (world_step (EvCancel ''j'') done_world)))) ''j'' = Some done_record"
proof -
  have "is_terminal (jr_state done_record)" by (simp add: done_record_def finished_record_def is_terminal_def)
  moreover have "world_step (EvCancel ''j'') done_world = Some (the (world_step (EvCancel ''j'') done_world))"
    by (simp add: case_prod_beta)
  ultimately show ?thesis
    using finished_jobs_are_final [OF done_reach done_reg] by blast
qed

text \<open>
  What a supervisor publishes matches what happened: cancelled only if a cancellation was
  asked for, timed out exactly if the deadline had passed, succeeded only with exit code zero.
  The record is kept unless twenty finished jobs were started after it, in which case the job
  is dropped at the very moment it finishes.
\<close>

theorem publish_outcome:
  assumes "job_reach w" and "map_of (wd_sup w) i = Some (Publishing st code)"
    and "world_step (EvPublish i now) w = Some w'"
  shows "\<exists>r. map_of (jb_reg (wd_jobs w)) i = Some r
    \<and> map_of (jb_reg (wd_jobs w')) i =
        (if 20 \<le> newer_finished (jb_reg (wd_jobs w)) r then None else Some (finished_record st code now r))
    \<and> (st = JCancelled \<longrightarrow> jr_cancel r) \<and> (st = JTimedOut \<longleftrightarrow> jr_timed_out r)
    \<and> (st = JSucceeded \<longrightarrow> code = Some 0) \<and> st \<noteq> JRunning"
proof -
  have inv: "job_inv w" by (rule job_reach_inv [OF assms(1)])
  from inv_supervised [OF inv assms(2)] obtain r where r: "map_of (jb_reg (wd_jobs w)) i = Some r"
    "consistent (Publishing st code) r (wd_signalled w)" by blast
  have "jb_reg (wd_jobs w') = jb_reg (snd (finish_job i st code now (wd_jobs w)))"
    using assms(2,3) by (auto simp: case_prod_beta)
  then show ?thesis
    using map_of_finish(1) [OF _ r(1), of st code now] inv r
    by (auto simp: job_inv_def is_terminal_def MAX_FINISHED_KEPT_def)
qed

theorem publish_outcome_witness:
  "map_of (jb_reg (wd_jobs done_world)) ''j'' = None
   \<or> map_option jr_state (map_of (jb_reg (wd_jobs done_world)) ''j'') = Some JCancelled"
proof -
  have "map_of (wd_sup publishing_world) ''j'' = Some (Publishing JCancelled None)"
    by (simp add: publishing_world_def)
  from publish_outcome [OF publishing_reach this done_step] show ?thesis
    by (auto simp: finished_record_def split: if_splits)
qed

section \<open>Cancellation\<close>



end
