(* ===== verification/NumText.thy ===== *)
theory NumText
  imports StrText
begin

text \<open>
  Decimal numbers in text: what \<open>format!("{n}")\<close> writes for an unsigned integer, what
  \<open>str::parse::<u32>()\<close> and its siblings read, and the saturating arithmetic of \<open>u32\<close>
  and \<open>u64\<close> written out on natural numbers. Also the characters of a UTF-8 byte string
  (\<open>chars()\<close>), each kept as the bytes that encode it.
\<close>

section \<open>Bounded arithmetic\<close>

definition U32_MAX :: nat where
  "U32_MAX = 2 ^ 32 - 1"

definition U64_MAX :: nat where
  "U64_MAX = 2 ^ 64 - 1"

definition sat_add :: "nat \<Rightarrow> nat \<Rightarrow> nat \<Rightarrow> nat" where
  "sat_add hi a b = min hi (a + b)"

lemma sat_add_le [simp]: "sat_add hi a b \<le> hi"
  by (simp add: sat_add_def)

lemma sat_add_exact: "a + b \<le> hi \<Longrightarrow> sat_add hi a b = a + b"
  by (simp add: sat_add_def)

lemma sat_add_assoc: "sat_add hi (sat_add hi a b) c = sat_add hi a (sat_add hi b c)"
  by (auto simp: sat_add_def min_def)

lemma sat_add_zero [simp]: "a \<le> hi \<Longrightarrow> sat_add hi 0 a = a" "a \<le> hi \<Longrightarrow> sat_add hi a 0 = a"
  by (simp_all add: sat_add_def)

lemma sat_add_commute: "sat_add hi a b = sat_add hi b a"
  by (simp add: sat_add_def add.commute)

lemma sat_add_eq_0: "0 < hi \<Longrightarrow> sat_add hi a b = 0 \<longleftrightarrow> a = 0 \<and> b = 0"
  by (auto simp: sat_add_def min_def)

section \<open>Decimal digits\<close>

definition is_digit :: "char \<Rightarrow> bool" where
  "is_digit c \<longleftrightarrow> 48 \<le> (of_char c :: nat) \<and> (of_char c :: nat) \<le> 57"

fun digits_val :: "nat \<Rightarrow> string \<Rightarrow> nat option" where
  "digits_val acc [] = Some acc"
| "digits_val acc (c # cs) = (if is_digit c then digits_val (10 * acc + (of_char c - 48)) cs else None)"

text \<open>\<open>parse::<uN>()\<close>: an optional plus sign, then digits only, at most the type's maximum.\<close>

definition parse_uint :: "nat \<Rightarrow> string \<Rightarrow> nat option" where
  "parse_uint hi s =
     (let d = (case s of [] \<Rightarrow> [] | c # r \<Rightarrow> if c = CHR 0x2B then r else s)
      in if d = [] then None
         else (case digits_val 0 d of Some n \<Rightarrow> if n \<le> hi then Some n else None | None \<Rightarrow> None))"

fun show_nat :: "nat \<Rightarrow> string" where
  "show_nat n = (if n < 10 then [char_of (48 + n)] else show_nat (n div 10) @ [char_of (48 + n mod 10)])"

declare show_nat.simps [simp del]

lemma show_nat_small: "n < 10 \<Longrightarrow> show_nat n = [char_of (48 + n)]"
  by (subst show_nat.simps) simp

lemma show_nat_big: "10 \<le> n \<Longrightarrow> show_nat n = show_nat (n div 10) @ [char_of (48 + n mod 10)]"
  by (subst show_nat.simps) simp

lemma is_digit_char_of [simp]: "d < 10 \<Longrightarrow> is_digit (char_of (48 + d :: nat))"
  by (simp add: is_digit_def)

lemma digits_val_snoc:
  "digits_val acc s = Some n \<Longrightarrow> is_digit c \<Longrightarrow> digits_val acc (s @ [c]) = Some (10 * n + (of_char c - 48))"
  by (induction s arbitrary: acc) (auto split: if_splits)

lemma digits_val_show: "digits_val 0 (show_nat n) = Some n"
proof (induction n rule: show_nat.induct)
  case (1 n)
  show ?case
  proof (cases "n < 10")
    case True
    then show ?thesis using is_digit_char_of [of n] by (simp add: show_nat_small)
  next
    case False
    then have "digits_val 0 (show_nat (n div 10)) = Some (n div 10)" using 1 by simp
    from digits_val_snoc [OF this is_digit_char_of [of "n mod 10"]] False
    show ?thesis by (simp add: show_nat_big)
  qed
qed

lemma show_nat_digits: "\<forall>c \<in> set (show_nat n). is_digit c"
proof (induction n rule: show_nat.induct)
  case (1 n)
  then show ?case
    by (cases "n < 10") (auto simp: show_nat_small show_nat_big simp del: of_char_of)
qed

lemma show_nat_nonempty [simp]: "show_nat n \<noteq> []"
  by (cases "n < 10") (simp_all add: show_nat_small show_nat_big)

lemma parse_show_nat: "parse_uint hi (show_nat n) = (if n \<le> hi then Some n else None)"
proof -
  obtain c r where s: "show_nat n = c # r" by (cases "show_nat n") auto
  then have "is_digit c" using show_nat_digits [of n] by simp
  then have "c \<noteq> CHR 0x2B" by (auto simp: is_digit_def)
  then show ?thesis using digits_val_show [of n] by (simp add: parse_uint_def s)
qed

lemma parse_uint_le: "parse_uint hi s = Some n \<Longrightarrow> n \<le> hi"
  by (auto simp: parse_uint_def Let_def split: if_splits option.splits)

lemma digits_val_digits: "digits_val acc s = Some n \<Longrightarrow> \<forall>c \<in> set s. is_digit c"
  by (induction s arbitrary: acc) (auto split: if_splits)

section \<open>Characters of UTF-8 text\<close>

definition is_cont :: "char \<Rightarrow> bool" where
  "is_cont c \<longleftrightarrow> 128 \<le> (of_char c :: nat) \<and> (of_char c :: nat) < 192"

text \<open>\<open>s.chars()\<close>: a leading byte with the continuation bytes that follow it.\<close>

function utf8_chars :: "string \<Rightarrow> string list" where
  "utf8_chars [] = []"
| "utf8_chars (c # cs) = (c # takeWhile is_cont cs) # utf8_chars (dropWhile is_cont cs)"
  by pat_completeness auto
termination
  by (relation "measure length") (auto simp: le_imp_less_Suc length_dropWhile_le)

lemma concat_utf8_chars [simp]: "concat (utf8_chars s) = s"
  by (induction s rule: utf8_chars.induct) simp_all

text \<open>\<open>s.is_char_boundary(i)\<close>.\<close>

definition is_char_boundary :: "string \<Rightarrow> nat \<Rightarrow> bool" where
  "is_char_boundary s i \<longleftrightarrow> i = 0 \<or> i = length s \<or> (i < length s \<and> \<not> is_cont (s ! i))"

text \<open>\<open>s.split_whitespace()\<close>; the first argument holds the encodings of white space.\<close>

lemma strip_any_length: "strip_any ws s = Some r \<Longrightarrow> length r < length s"
  by (auto dest!: strip_any_Some)

function split_white :: "'a list list \<Rightarrow> 'a list \<Rightarrow> 'a list \<Rightarrow> 'a list list" where
  "split_white ws acc s =
     (case s of [] \<Rightarrow> (if acc = [] then [] else [acc])
      | c # cs \<Rightarrow> (case strip_any ws s of
            Some r \<Rightarrow> (if acc = [] then [] else [acc]) @ split_white ws [] r
          | None \<Rightarrow> split_white ws (acc @ [c]) cs))"
  by pat_completeness auto
termination
  by (relation "measure (\<lambda>(ws, acc, s). length s)") (auto dest!: strip_any_length)

declare split_white.simps [simp del]

definition split_whitespace :: "string \<Rightarrow> string list" where
  "split_whitespace s = split_white white_seqs [] s"

definition visible_ascii :: "char \<Rightarrow> bool" where
  "visible_ascii c \<longleftrightarrow> 33 \<le> (of_char c :: nat) \<and> (of_char c :: nat) \<le> 126"

lemma white_seqs_hd: "w \<in> set white_seqs \<Longrightarrow> w \<noteq> [] \<and> \<not> visible_ascii (hd w)"
  by (auto simp: white_seqs_def visible_ascii_def)

lemma strip_any_visible: "visible_ascii c \<Longrightarrow> strip_any white_seqs (c # cs) = None"
  using white_seqs_hd by (fastforce simp: strip_any_None Cons_eq_append_conv)

lemma strip_any_space: "strip_any white_seqs (CHR 0x20 # cs) = Some cs"
  by (simp add: white_seqs_def)

lemma strip_any_rev_visible: "visible_ascii c \<Longrightarrow> strip_any (map rev white_seqs) (c # cs) = None"
proof -
  have w: "w \<in> set white_seqs \<Longrightarrow> w \<noteq> [] \<and> \<not> visible_ascii (last w)" for w
    by (auto simp: white_seqs_def visible_ascii_def)
  show "visible_ascii c \<Longrightarrow> strip_any (map rev white_seqs) (c # cs) = None"
  proof (rule ccontr)
    assume v: "visible_ascii c" and "strip_any (map rev white_seqs) (c # cs) \<noteq> None"
    then obtain r where "strip_any (map rev white_seqs) (c # cs) = Some r" by auto
    from strip_any_Some [OF this] obtain u where u: "u \<in> set white_seqs" "c # cs = rev u @ r" by auto
    with w [OF u(1)] have "c = last u" by (cases "rev u") (auto simp: hd_rev [symmetric])
    with w [OF u(1)] v show False by simp
  qed
qed

lemma str_trim_visible:
  assumes "s \<noteq> []" "visible_ascii (hd s)" "visible_ascii (last s)"
  shows "str_trim s = s"
proof -
  have "str_trim_start s = s"
    using assms(1,2) strip_any_visible by (cases s) (simp_all add: str_trim_start_def trim_start_id)
  moreover have "str_trim_end s = s"
  proof -
    obtain c cs where r: "rev s = c # cs" using assms(1) by (cases "rev s") auto
    then have "c = last s" using hd_rev [of s] by simp
    then show ?thesis using assms(3) by (simp add: str_trim_end_def r trim_start_id strip_any_rev_visible) (metis r rev_rev_ident rev.simps(2))
  qed
  ultimately show ?thesis by (simp add: str_trim_def)
qed

lemma split_white_word:
  "\<forall>c \<in> set w. visible_ascii c \<Longrightarrow> split_white white_seqs acc (w @ s) = split_white white_seqs (acc @ w) s"
proof (induction w arbitrary: acc)
  case (Cons c w)
  then show ?case
    by (subst split_white.simps) (simp add: strip_any_visible)
qed simp

lemma split_white_space:
  "acc \<noteq> [] \<Longrightarrow> split_white white_seqs acc (CHR 0x20 # s) = acc # split_white white_seqs [] s"
  by (subst split_white.simps) (simp add: strip_any_space)

lemma split_white_hd:
  "acc \<noteq> [] \<Longrightarrow> \<exists>t ts. split_white ws acc s = (acc @ t) # ts"
proof (induction ws acc s rule: split_white.induct)
  case (1 ws acc s)
  show ?case
  proof (cases s)
    case Nil
    then show ?thesis using 1(3) by (subst split_white.simps) auto
  next
    case (Cons c cs)
    show ?thesis
    proof (cases "strip_any ws s")
      case None
      from 1(1) [OF Cons None] obtain t ts where "split_white ws (acc @ [c]) cs = ((acc @ [c]) @ t) # ts" by auto
      moreover have "split_white ws acc s = split_white ws (acc @ [c]) cs"
        using Cons None by (subst split_white.simps) simp
      ultimately show ?thesis by auto
    next
      case (Some r)
      then have "split_white ws acc s = acc # split_white ws [] r"
        using Cons 1(3) by (subst split_white.simps) simp
      then show ?thesis by auto
    qed
  qed
qed

lemma is_digit_visible: "is_digit c \<Longrightarrow> visible_ascii c"
  by (auto simp: is_digit_def visible_ascii_def)

lemma show_nat_visible: "c \<in> set (show_nat n) \<Longrightarrow> visible_ascii c"
  using show_nat_digits is_digit_visible by blast

text \<open>\<open>s.replace(pat, to)\<close> for a non-empty pattern: leftmost, non-overlapping.\<close>

function replace_all :: "'a list \<Rightarrow> 'a list \<Rightarrow> 'a list \<Rightarrow> 'a list" where
  "replace_all pat to s =
     (if pat = [] then s
      else case s of [] \<Rightarrow> []
        | c # cs \<Rightarrow> (case strip_prefix pat s of
             Some r \<Rightarrow> to @ replace_all pat to r
           | None \<Rightarrow> c # replace_all pat to cs))"
  by pat_completeness auto
termination
  by (relation "measure (\<lambda>(pat, to, s). length s)") (auto simp: strip_prefix_Some_iff)

declare replace_all.simps [simp del]

lemma replace_all_Nil [simp]: "replace_all pat to [] = []"
  by (subst replace_all.simps) simp

lemma replace_all_absent: "\<not> has_infix pat s \<Longrightarrow> replace_all pat to s = s"
proof (induction s)
  case (Cons c cs)
  then have "strip_prefix pat (c # cs) = None" "\<not> has_infix pat cs" by auto
  then show ?case using Cons.IH by (subst replace_all.simps) simp
qed simp

text \<open>A signed number in decimal.\<close>

definition show_int :: "int \<Rightarrow> string" where
  "show_int i = (if i < 0 then ''-'' @ show_nat (nat (- i)) else show_nat (nat i))"

end
