(* ===== verification/HlReport.thy ===== *)
theory HlReport
  imports NumText BTree "HOL-Library.Product_Lexorder" "HOL-Library.Option_ord"
begin

text \<open>
  The report of a health run (\<open>health/src/report.rs\<close>), the errors of the crate
  (\<open>health/src/error.rs\<close>), and what its four diagnostic parsers share: making a reported path
  relative to the repository, and sorting and deduplicating diagnostics. \<open>u32\<close> and \<open>u64\<close>
  values are natural numbers with the saturation written out. Percentages are left out: they
  are floating point.
\<close>

section \<open>The report\<close>

record line_range =
  lr_start :: nat
  lr_end :: nat

datatype check_kind = Format | Lint | Tests | Coverage | NewCode

datatype check_status = Passed | Failed | Errored | Skipped

datatype severity = SevError | SevWarning

record check_result =
  cr_id :: string
  cr_kind :: check_kind
  cr_status :: check_status
  cr_exit_code :: "int option"
  cr_duration_ms :: nat
  cr_output_tail :: string

record issue =
  is_check_id :: string
  is_path :: string
  is_line :: nat
  is_column :: nat
  is_severity :: severity
  is_code :: "string option"
  is_message :: string

record file_coverage =
  fc_path :: string
  fc_lines_found :: nat
  fc_lines_hit :: nat
  fc_uncovered :: "line_range list"

record coverage_totals =
  ct_lines_found :: nat
  ct_lines_hit :: nat

type_synonym coverage_report = "file_coverage list"

record new_code =
  nc_base :: string
  nc_coverage :: coverage_report
  nc_issues :: "issue list"

record health_report =
  hr_revision :: "string option"
  hr_checks :: "check_result list"
  hr_coverage :: "coverage_report option"
  hr_issues :: "issue list"
  hr_new_code :: "new_code option"
  hr_unchecked :: "string list"

definition totals :: "coverage_report \<Rightarrow> coverage_totals" where
  "totals files = foldl (\<lambda>t f. \<lparr>ct_lines_found = sat_add U32_MAX (ct_lines_found t) (fc_lines_found f),
                              ct_lines_hit = sat_add U32_MAX (ct_lines_hit t) (fc_lines_hit f)\<rparr>)
     \<lparr>ct_lines_found = 0, ct_lines_hit = 0\<rparr> files"

definition report_status :: "health_report \<Rightarrow> check_status" where
  "report_status r =
     (if \<exists>c \<in> set (hr_checks r). cr_status c = Failed then Failed
      else if \<exists>c \<in> set (hr_checks r). cr_status c = Errored then Errored
      else Passed)"

lemma totals_hit_le:
  assumes "\<forall>f \<in> set files. fc_lines_hit f \<le> fc_lines_found f"
  shows "ct_lines_hit (totals files) \<le> ct_lines_found (totals files)"
proof -
  have "ct_lines_hit t \<le> ct_lines_found t \<Longrightarrow> \<forall>f \<in> set fs. fc_lines_hit f \<le> fc_lines_found f \<Longrightarrow>
      (let u = foldl (\<lambda>t f. \<lparr>ct_lines_found = sat_add U32_MAX (ct_lines_found t) (fc_lines_found f),
                              ct_lines_hit = sat_add U32_MAX (ct_lines_hit t) (fc_lines_hit f)\<rparr>) t fs
       in ct_lines_hit u \<le> ct_lines_found u)" for t fs
    by (induction fs arbitrary: t) (auto simp: Let_def sat_add_def min_def)
  from this [of "\<lparr>ct_lines_found = 0, ct_lines_hit = 0\<rparr>" files] assms
  show ?thesis by (simp add: totals_def Let_def)
qed

section \<open>Errors\<close>

text \<open>The error of the operating system inside a variant is its text.\<close>

datatype health_error =
    InvalidLcov nat string
  | InvalidDiff string
  | InvalidCheck string string
  | Spawn string string
  | Timeout string nat
  | ReportIo string string
  | InvalidRef string
  | Git string

fun health_error_text :: "health_error \<Rightarrow> string" where
  "health_error_text (InvalidLcov line reason) = ''VNL-HLT-001: invalid lcov at line '' @ show_nat line @ '': '' @ reason"
| "health_error_text (InvalidDiff reason) = ''VNL-HLT-002: invalid diff: '' @ reason"
| "health_error_text (InvalidCheck i reason) = ''VNL-HLT-003: invalid check '' @ [CHR 0x27] @ i @ [CHR 0x27] @ '': '' @ reason"
| "health_error_text (Spawn i src) = ''VNL-HLT-004: cannot start check '' @ [CHR 0x27] @ i @ [CHR 0x27] @ '': '' @ src"
| "health_error_text (Timeout i secs) = ''VNL-HLT-005: check '' @ [CHR 0x27] @ i @ [CHR 0x27] @ '' timed out after '' @ show_nat secs @ ''s''"
| "health_error_text (ReportIo path src) = ''VNL-HLT-006: report I/O error on '' @ path @ '': '' @ src"
| "health_error_text (InvalidRef v) = ''VNL-HLT-007: invalid git ref: '' @ v"
| "health_error_text (Git reason) = ''VNL-HLT-008: git failed: '' @ reason"

section \<open>Paths of diagnostics\<close>

abbreviation slash :: char where "slash \<equiv> CHR ''/''"

text \<open>
  \<open>Path::components\<close>: empty components and dots are dropped, except a dot that opens a
  relative path. The root directory is the component ''/'', which no other component equals.
\<close>

definition path_comps :: "string \<Rightarrow> string list" where
  "path_comps p =
     (if prefix ''/'' p then [slash] # filter (\<lambda>c. c \<noteq> [] \<and> c \<noteq> ''.'') (split_on slash p)
      else (case split_on slash p of
              [] \<Rightarrow> []
            | c # cs \<Rightarrow> (if c = [] then [] else [c]) @ filter (\<lambda>c. c \<noteq> [] \<and> c \<noteq> ''.'') cs))"

text \<open>\<open>Path::new(raw).strip_prefix(root)\<close>, the remaining components written with separators.\<close>

definition strip_root :: "string \<Rightarrow> string \<Rightarrow> string option" where
  "strip_root root raw = map_option (join_with slash) (strip_prefix (path_comps root) (path_comps raw))"

text \<open>The loop over the components with its stack of parts, and the final join.\<close>

fun resolve_dots :: "string list \<Rightarrow> string list \<Rightarrow> string list option" where
  "resolve_dots parts [] = Some parts"
| "resolve_dots parts (c # cs) =
     (if c = [] \<or> c = ''.'' then resolve_dots parts cs
      else if c = ''..'' then (if parts = [] then None else resolve_dots (butlast parts) cs)
      else resolve_dots (parts @ [c]) cs)"

definition normalize_path :: "string \<Rightarrow> string option" where
  "normalize_path joined =
     Option.bind (resolve_dots [] (split_on slash joined))
       (\<lambda>parts. if parts = [] then None else Some (join_with slash parts))"

text \<open>\<open>relativize\<close> of the cargo, ruff and hadolint parsers.\<close>

definition relativize :: "string \<Rightarrow> string \<Rightarrow> string option" where
  "relativize file root =
     (if file = [] then None
      else Option.bind (if prefix ''/'' file then strip_root root file else Some file) normalize_path)"

text \<open>What a path inside the repository looks like: plain components joined by separators.\<close>

definition inside_path :: "string \<Rightarrow> bool" where
  "inside_path p \<longleftrightarrow> p \<noteq> [] \<and> (\<forall>c \<in> set (split_on slash p). c \<noteq> [] \<and> c \<noteq> ''.'' \<and> c \<noteq> ''..'')"

lemma resolve_dots_parts:
  "resolve_dots parts cs = Some out \<Longrightarrow> set out \<subseteq> set parts \<union> {c \<in> set cs. c \<noteq> [] \<and> c \<noteq> ''.'' \<and> c \<noteq> ''..''}"
proof (induction parts cs rule: resolve_dots.induct)
  case (2 parts c cs)
  then show ?case by (auto split: if_splits dest: in_set_butlastD)
qed auto

lemma normalize_path_inside: "normalize_path j = Some p \<Longrightarrow> inside_path p"
proof -
  assume "normalize_path j = Some p"
  then obtain parts where r: "resolve_dots [] (split_on slash j) = Some parts" and ne: "parts \<noteq> []"
    and p: "p = join_with slash parts"
    by (auto simp: normalize_path_def bind_Some_iff split: if_splits)
  have ok: "\<forall>c \<in> set parts. c \<noteq> [] \<and> c \<noteq> ''.'' \<and> c \<noteq> ''..'' \<and> slash \<notin> set c"
  proof
    fix c
    assume "c \<in> set parts"
    with resolve_dots_parts [OF r] have c: "c \<in> set (split_on slash j)" "c \<noteq> []" "c \<noteq> ''.''" "c \<noteq> ''..''"
      by auto
    from split_on_no_sep [OF c(1)] c(2-) show "c \<noteq> [] \<and> c \<noteq> ''.'' \<and> c \<noteq> ''..'' \<and> slash \<notin> set c" by simp
  qed
  then have s: "split_on slash p = parts" using ne by (simp add: p split_join_with)
  have "p \<noteq> []"
  proof
    assume "p = []"
    with s have "parts = [[]]" by simp
    with ok show False by simp
  qed
  with ok s show ?thesis by (simp add: inside_path_def)
qed

lemma relativize_inside: "relativize f root = Some p \<Longrightarrow> inside_path p"
  by (auto simp: relativize_def bind_Some_iff split: if_splits dest: normalize_path_inside)

lemma inside_path_relative: "inside_path p \<Longrightarrow> \<not> prefix ''/'' p"
proof
  assume i: "inside_path p" and "prefix ''/'' p"
  then obtain r where "p = [] @ slash # r" by (auto simp: prefix_def)
  then have "[] \<in> set (split_on slash p)" by simp
  with i show False by (auto simp: inside_path_def)
qed

lemma resolve_dots_plain:
  "\<forall>c \<in> set cs. c \<noteq> [] \<and> c \<noteq> ''.'' \<and> c \<noteq> ''..'' \<Longrightarrow> resolve_dots parts cs = Some (parts @ cs)"
  by (induction cs arbitrary: parts) auto

lemma normalize_path_id: "inside_path p \<Longrightarrow> normalize_path p = Some p"
  by (auto simp: normalize_path_def inside_path_def resolve_dots_plain)

lemma relativize_id: "inside_path p \<Longrightarrow> relativize p root = Some p"
proof -
  assume i: "inside_path p"
  then have "p \<noteq> []" by (simp add: inside_path_def)
  with inside_path_relative [OF i] normalize_path_id [OF i] show ?thesis by (simp add: relativize_def)
qed

section \<open>Sorting and deduplicating diagnostics\<close>

definition issue_key :: "issue \<Rightarrow> string \<times> nat \<times> nat \<times> string option" where
  "issue_key i = (is_path i, is_line i, is_column i, is_code i)"

definition same_issue :: "issue \<Rightarrow> issue \<Rightarrow> bool" where
  "same_issue a b \<longleftrightarrow> is_path a = is_path b \<and> is_line a = is_line b \<and> is_column a = is_column b
     \<and> is_code a = is_code b \<and> is_message a = is_message b"

text \<open>\<open>Vec::dedup_by\<close>: an element goes when it is the same as the last one kept.\<close>

fun dedup_by :: "('a \<Rightarrow> 'a \<Rightarrow> bool) \<Rightarrow> 'a list \<Rightarrow> 'a list" where
  "dedup_by same [] = []"
| "dedup_by same [x] = [x]"
| "dedup_by same (x # y # zs) = (if same y x then dedup_by same (x # zs) else x # dedup_by same (y # zs))"

definition sort_dedup :: "issue list \<Rightarrow> issue list" where
  "sort_dedup issues = dedup_by same_issue (sort_key issue_key issues)"

lemma same_issue_key: "same_issue a b \<longleftrightarrow> issue_key a = issue_key b \<and> is_message a = is_message b"
  by (auto simp: same_issue_def issue_key_def)

lemma set_dedup_by: "set (dedup_by same xs) \<subseteq> set xs"
  by (induction same xs rule: dedup_by.induct) auto

lemma hd_dedup_by: "xs \<noteq> [] \<Longrightarrow> hd (dedup_by same xs) = hd xs \<and> dedup_by same xs \<noteq> []"
  by (induction same xs rule: dedup_by.induct) auto

lemma dedup_by_keeps:
  assumes "equivp same" and "x \<in> set xs"
  shows "\<exists>y \<in> set (dedup_by same xs). same x y"
  using assms
proof (induction same xs arbitrary: x rule: dedup_by.induct)
  case (2 same a)
  then show ?case by (auto intro: equivp_reflp)
next
  case (3 same a b zs)
  show ?case
  proof (cases "same b a")
    case True
    show ?thesis
    proof (cases "x = b")
      case xb: True
      obtain y where "y \<in> set (dedup_by same (a # zs))" "same a y" using 3(1) [OF True 3(3), of a] by auto
      then have "same x y" using True xb equivp_transp [OF 3(3)] by blast
      then show ?thesis using True \<open>y \<in> _\<close> by auto
    next
      case False
      then show ?thesis using 3(1) [OF True 3(3), of x] 3(4) True by auto
    qed
  next
    case False
    then show ?thesis using 3 equivp_reflp [OF 3(3)] by auto
  qed
qed auto

lemma equivp_same_issue: "equivp same_issue"
  by (intro equivpI reflpI sympI transpI) (auto simp: same_issue_def)

lemma sorted_dedup_by: "sorted (map f xs) \<Longrightarrow> sorted (map f (dedup_by same xs))"
proof (induction same xs rule: dedup_by.induct)
  case (3 same x y zs)
  then show ?case using set_dedup_by [of same "y # zs"] by (auto simp: subset_iff)
qed auto

text \<open>
  The result is sorted by path, line, column and code, holds reported diagnostics only, and no
  diagnostic is lost: one that is the same up to its severity and check stays.
\<close>

lemma sort_dedup_spec:
  "sorted (map issue_key (sort_dedup is))"
  "set (sort_dedup is) \<subseteq> set is"
  "i \<in> set is \<Longrightarrow> \<exists>j \<in> set (sort_dedup is). same_issue i j"
  using set_dedup_by [of same_issue "sort_key issue_key is"] dedup_by_keeps [OF equivp_same_issue, of i "sort_key issue_key is"]
  by (auto simp: sort_dedup_def sorted_dedup_by)

text \<open>Equal diagnostics that another one of the same place separates are both kept.\<close>

definition sample_issue :: "string \<Rightarrow> issue" where
  "sample_issue m = \<lparr>is_check_id = ''c'', is_path = ''a'', is_line = 1, is_column = 1, is_severity = SevError,
                     is_code = None, is_message = m\<rparr>"

lemma sort_dedup_keeps_duplicates:
  "sort_dedup [sample_issue ''x'', sample_issue ''y'', sample_issue ''x''] =
     [sample_issue ''x'', sample_issue ''y'', sample_issue ''x'']"
  by (simp add: sort_dedup_def sample_issue_def issue_key_def same_issue_def)

end
