(* ===== verification/HlParsers.thy ===== *)
theory HlParsers
  imports HlReport
begin

text \<open>
  The four diagnostic parsers of the health crate: the JSON messages of cargo
  (\<open>health/src/cargo_messages.rs\<close>), the text of tsc (\<open>tsc_text.rs\<close>), and the JSON of ruff and
  hadolint (\<open>ruff_json.rs\<close>, \<open>hadolint_json.rs\<close>). Reading JSON text and the texts of its errors
  belong to \<open>serde_json\<close> and are a parameter. The contract the four share is the locale
  \<open>diagnostics\<close>.
\<close>

section \<open>JSON text, a parameter\<close>

record json_lib =
  jl_parse :: "string \<Rightarrow> string + string json"
  jl_mismatch :: "string json \<Rightarrow> string"

text \<open>\<open>Value::as_u64\<close> followed by \<open>try_into::<u32>\<close>.\<close>

definition json_u32 :: "string json \<Rightarrow> nat option" where
  "json_u32 v = Option.bind (as_u64 v) (\<lambda>n. if n \<le> U32_MAX then Some n else None)"

definition member :: "string \<Rightarrow> string json \<Rightarrow> (string json \<Rightarrow> 'b option) \<Rightarrow> 'b option" where
  "member k v read = Option.bind (jget k v) read"

text \<open>A field of type \<open>Option<String>\<close>: absent and null are \<open>None\<close>, another type fails.\<close>

definition opt_string :: "string \<Rightarrow> string json \<Rightarrow> string option option" where
  "opt_string k v = (case jget k v of None \<Rightarrow> Some None | Some JNull \<Rightarrow> Some None | Some w \<Rightarrow> map_option Some (as_str w))"

fun read_all :: "('a \<Rightarrow> 'b option) \<Rightarrow> 'a list \<Rightarrow> 'b list option" where
  "read_all f [] = Some []"
| "read_all f (x # xs) = Option.bind (f x) (\<lambda>y. map_option ((#) y) (read_all f xs))"

section \<open>cargo\<close>

definition cargo_severity :: "string \<Rightarrow> severity option" where
  "cargo_severity level = (if level = ''error'' then Some SevError else if level = ''warning'' then Some SevWarning else None)"

definition primary_span :: "string json \<Rightarrow> string json option" where
  "primary_span message =
     Option.bind (member ''spans'' message as_arr) (find (\<lambda>s. member ''is_primary'' s as_bool = Some True))"

definition cargo_value :: "string \<Rightarrow> string \<Rightarrow> string json \<Rightarrow> issue option" where
  "cargo_value root check_id v =
     (if member ''reason'' v as_str \<noteq> Some ''compiler-message'' then None
      else Option.bind (jget ''message'' v) (\<lambda>message.
        Option.bind (Option.bind (member ''level'' message as_str) cargo_severity) (\<lambda>sev.
        Option.bind (primary_span message) (\<lambda>span.
        Option.bind (Option.bind (member ''file_name'' span as_str) (\<lambda>f. relativize f root)) (\<lambda>path.
        Option.bind (member ''line_start'' span json_u32) (\<lambda>line.
        Option.bind (member ''column_start'' span json_u32) (\<lambda>column.
          Some \<lparr>is_check_id = check_id, is_path = path, is_line = line, is_column = column, is_severity = sev,
                is_code = Option.bind (jget ''code'' message) (\<lambda>c. member ''code'' c as_str),
                is_message = (case member ''message'' message as_str of None \<Rightarrow> [] | Some m \<Rightarrow> m)\<rparr>)))))))"

definition cargo_raw :: "json_lib \<Rightarrow> string \<Rightarrow> string \<Rightarrow> string \<Rightarrow> issue list" where
  "cargo_raw J root check_id stdout = List.map_filter (\<lambda>line.
     case jl_parse J line of Inl _ \<Rightarrow> None | Inr v \<Rightarrow> cargo_value root check_id v) (str_lines stdout)"

definition parse_cargo_messages :: "json_lib \<Rightarrow> string \<Rightarrow> string \<Rightarrow> string \<Rightarrow> issue list" where
  "parse_cargo_messages J root check_id stdout = sort_dedup (cargo_raw J root check_id stdout)"

section \<open>ruff and hadolint\<close>

record ruff_diagnostic =
  rd_code :: "string option"
  rd_message :: string
  rd_filename :: string
  rd_row :: nat
  rd_column :: nat

definition ruff_of_json :: "string json \<Rightarrow> ruff_diagnostic option" where
  "ruff_of_json v =
     Option.bind (opt_string ''code'' v) (\<lambda>code.
     Option.bind (member ''message'' v as_str) (\<lambda>message.
     Option.bind (member ''filename'' v as_str) (\<lambda>filename.
     Option.bind (jget ''location'' v) (\<lambda>loc.
     Option.bind (member ''row'' loc json_u32) (\<lambda>row.
     Option.bind (member ''column'' loc json_u32) (\<lambda>column.
       Some \<lparr>rd_code = code, rd_message = message, rd_filename = filename, rd_row = row, rd_column = column\<rparr>))))))"

definition ruff_issue :: "string \<Rightarrow> string \<Rightarrow> ruff_diagnostic \<Rightarrow> issue option" where
  "ruff_issue root check_id d = map_option (\<lambda>path.
     \<lparr>is_check_id = check_id, is_path = path, is_line = rd_row d, is_column = rd_column d, is_severity = SevError,
      is_code = rd_code d, is_message = rd_message d\<rparr>) (relativize (rd_filename d) root)"

record hadolint_diagnostic =
  hd_code :: "string option"
  hd_message :: string
  hd_file :: string
  hd_line :: nat
  hd_column :: nat
  hd_level :: string

definition hadolint_of_json :: "string json \<Rightarrow> hadolint_diagnostic option" where
  "hadolint_of_json v =
     Option.bind (opt_string ''code'' v) (\<lambda>code.
     Option.bind (member ''message'' v as_str) (\<lambda>message.
     Option.bind (member ''file'' v as_str) (\<lambda>file.
     Option.bind (member ''line'' v json_u32) (\<lambda>line.
     Option.bind (member ''column'' v json_u32) (\<lambda>column.
     Option.bind (member ''level'' v as_str) (\<lambda>level.
       Some \<lparr>hd_code = code, hd_message = message, hd_file = file, hd_line = line, hd_column = column, hd_level = level\<rparr>))))))"

definition hadolint_issue :: "string \<Rightarrow> string \<Rightarrow> hadolint_diagnostic \<Rightarrow> issue option" where
  "hadolint_issue root check_id d =
     Option.bind (cargo_severity (hd_level d)) (\<lambda>sev. map_option (\<lambda>path.
       \<lparr>is_check_id = check_id, is_path = path, is_line = hd_line d, is_column = hd_column d, is_severity = sev,
        is_code = hd_code d, is_message = hd_message d\<rparr>) (relativize (hd_file d) root))"

text \<open>\<open>serde_json::from_str::<Vec<T>>\<close>: the text, then the array, then every element.\<close>

definition read_array :: "json_lib \<Rightarrow> (string json \<Rightarrow> 'b option) \<Rightarrow> string \<Rightarrow> string + 'b list" where
  "read_array J read text =
     (case jl_parse J text of Inl e \<Rightarrow> Inl e
      | Inr v \<Rightarrow> (case Option.bind (as_arr v) (read_all read) of None \<Rightarrow> Inl (jl_mismatch J v) | Some ds \<Rightarrow> Inr ds))"

definition parse_array_issues ::
  "json_lib \<Rightarrow> (string json \<Rightarrow> 'b option) \<Rightarrow> ('b \<Rightarrow> issue option) \<Rightarrow> string \<Rightarrow> string \<Rightarrow> health_error + issue list" where
  "parse_array_issues J read mk check_id stdout =
     (let trimmed = str_trim stdout in
      if trimmed = [] then Inr []
      else case read_array J read trimmed of
          Inl e \<Rightarrow> Inl (InvalidCheck check_id e)
        | Inr ds \<Rightarrow> Inr (sort_dedup (List.map_filter mk ds)))"

definition parse_ruff_json :: "json_lib \<Rightarrow> string \<Rightarrow> string \<Rightarrow> string \<Rightarrow> health_error + issue list" where
  "parse_ruff_json J root check_id = parse_array_issues J ruff_of_json (ruff_issue root check_id) check_id"

definition parse_hadolint_json :: "json_lib \<Rightarrow> string \<Rightarrow> string \<Rightarrow> string \<Rightarrow> health_error + issue list" where
  "parse_hadolint_json J root check_id = parse_array_issues J hadolint_of_json (hadolint_issue root check_id) check_id"

section \<open>tsc\<close>

abbreviation esc :: char where "esc \<equiv> CHR 0x1B"

text \<open>The two inner loops: to the final byte of a CSI sequence, to the end of an OSC sequence.\<close>

fun skip_csi :: "string \<Rightarrow> string" where
  "skip_csi [] = []"
| "skip_csi (c # cs) = (if 0x40 \<le> (of_char c :: nat) \<and> (of_char c :: nat) \<le> 0x7E then cs else skip_csi cs)"

fun skip_osc :: "string \<Rightarrow> string" where
  "skip_osc [] = []"
| "skip_osc (c # cs) =
     (if c = CHR 0x07 then cs
      else if c = esc \<and> (case cs of [] \<Rightarrow> False | d # _ \<Rightarrow> d = CHR 0x5C) then tl cs
      else skip_osc cs)"

lemma length_skip_csi: "length (skip_csi s) \<le> length s"
  by (induction s) auto

lemma length_skip_osc: "length (skip_osc s) \<le> length s"
  by (induction s) (auto simp: le_SucI split: list.splits)

function strip_ansi :: "string \<Rightarrow> string" where
  "strip_ansi [] = []"
| "strip_ansi (c # cs) =
     (if c \<noteq> esc then c # strip_ansi cs
      else case cs of
          [] \<Rightarrow> []
        | d # ds \<Rightarrow> (if d = CHR ''['' then strip_ansi (skip_csi ds)
                    else if d = CHR '']'' then strip_ansi (skip_osc ds)
                    else strip_ansi cs))"
  by pat_completeness auto
termination
  by (relation "measure length") (auto simp: less_Suc_eq_le length_skip_csi length_skip_osc le_SucI)

text \<open>\<open>s.find(pat)\<close> with the text before and after the match.\<close>

fun split_infix :: "'a list \<Rightarrow> 'a list \<Rightarrow> ('a list \<times> 'a list) option" where
  "split_infix pat [] = (if pat = [] then Some ([], []) else None)"
| "split_infix pat (c # cs) =
     (case strip_prefix pat (c # cs) of
        Some r \<Rightarrow> Some ([], r)
      | None \<Rightarrow> map_option (\<lambda>(a, b). (c # a, b)) (split_infix pat cs))"

definition tsc_join :: "string \<Rightarrow> string \<Rightarrow> string option" where
  "tsc_join pre path =
     (if path = [] \<or> prefix ''/'' path then None
      else normalize_path (if pre = [] then path else pre @ ''/'' @ path))"

definition tsc_position :: "string \<Rightarrow> (nat \<times> nat) option" where
  "tsc_position t =
     (case split_on CHR '','' t of
        [a, b] \<Rightarrow> Option.bind (parse_uint U32_MAX (str_trim a)) (\<lambda>l.
                  map_option (Pair l) (parse_uint U32_MAX (str_trim b)))
      | _ \<Rightarrow> None)"

definition tsc_code_ok :: "string \<Rightarrow> bool" where
  "tsc_code_ok code = (case strip_prefix ''TS'' code of None \<Rightarrow> False | Some ds \<Rightarrow> ds \<noteq> [] \<and> (\<forall>c \<in> set ds. is_digit c))"

definition parse_diagnostic :: "string \<Rightarrow> string \<Rightarrow> string \<Rightarrow> issue option" where
  "parse_diagnostic pre check_id line =
     Option.bind (split_once CHR ''('' line) (\<lambda>(path_raw, after_open).
     Option.bind (split_infix ''): '' after_open) (\<lambda>(inner, rest).
     Option.bind (tsc_position inner) (\<lambda>(line_no, column_no).
     Option.bind (split_once CHR '' '' rest) (\<lambda>(severity_token, rest').
     Option.bind (cargo_severity severity_token) (\<lambda>sev.
     Option.bind (split_infix '': '' rest') (\<lambda>(code, message).
       if \<not> tsc_code_ok code then None
       else map_option (\<lambda>path.
         \<lparr>is_check_id = check_id, is_path = path, is_line = line_no, is_column = column_no, is_severity = sev,
          is_code = Some code, is_message = message\<rparr>) (tsc_join pre path_raw)))))))"

definition tsc_line :: "string \<Rightarrow> string \<Rightarrow> issue list \<Rightarrow> string \<Rightarrow> issue list" where
  "tsc_line pre check_id issues line =
     (if line \<noteq> [] \<and> (hd line = CHR '' '' \<or> hd line = CHR 0x09)
      then (let detail = str_trim line in
            if issues = [] \<or> detail = [] then issues
            else butlast issues @ [(last issues)\<lparr>is_message := is_message (last issues) @ '' '' @ detail\<rparr>])
      else (case parse_diagnostic pre check_id line of None \<Rightarrow> issues | Some i \<Rightarrow> issues @ [i]))"

definition tsc_raw :: "string \<Rightarrow> string \<Rightarrow> string \<Rightarrow> issue list" where
  "tsc_raw pre check_id stdout = foldl (tsc_line pre check_id) [] (str_lines (strip_ansi stdout))"

definition parse_tsc_text :: "string \<Rightarrow> string \<Rightarrow> string \<Rightarrow> issue list" where
  "parse_tsc_text pre check_id stdout = sort_dedup (tsc_raw pre check_id stdout)"

section \<open>The contract of the parsers\<close>

text \<open>
  The contract the four diagnostic parsers share, stated once as a locale and discharged for
  each of them; the tsc line format read back; the errors of the JSON parsers.
\<close>

section \<open>The shared contract\<close>

locale diagnostics =
  fixes raw :: "string \<Rightarrow> issue list"
    and parse :: "string \<Rightarrow> issue list"
    and check_id :: string
  assumes parse_sorts: "parse s = sort_dedup (raw s)"
    and raw_inside: "i \<in> set (raw s) \<Longrightarrow> inside_path (is_path i) \<and> is_check_id i = check_id"
begin

lemma reported_inside: "i \<in> set (parse s) \<Longrightarrow> inside_path (is_path i) \<and> is_check_id i = check_id"
  using sort_dedup_spec(2) [of "raw s"] raw_inside by (auto simp: parse_sorts)

lemma reported_sorted: "sorted (map issue_key (parse s))"
  by (simp add: parse_sorts sort_dedup_spec)

lemma reported_sound: "set (parse s) \<subseteq> set (raw s)"
  by (simp add: parse_sorts sort_dedup_spec)

lemma reported_complete: "i \<in> set (raw s) \<Longrightarrow> \<exists>j \<in> set (parse s). same_issue i j"
  by (simp add: parse_sorts sort_dedup_spec)

lemma reported_contract:
  "sorted (map issue_key (parse s)) \<and> set (parse s) \<subseteq> set (raw s) \<and>
   (\<forall>i \<in> set (parse s). inside_path (is_path i) \<and> is_check_id i = check_id) \<and>
   (\<forall>i \<in> set (raw s). \<exists>j \<in> set (parse s). same_issue i j)"
  using reported_sorted reported_sound reported_inside reported_complete by blast

end

lemma map_filter_mem: "y \<in> set (List.map_filter f xs) \<longleftrightarrow> (\<exists>x \<in> set xs. f x = Some y)"
  by (force simp: map_filter_def)

lemma cargo_value_inside:
  "cargo_value root check_id v = Some i \<Longrightarrow> inside_path (is_path i) \<and> is_check_id i = check_id"
  by (auto simp: cargo_value_def bind_Some_iff relativize_inside split: if_splits)

lemma cargo_raw_inside:
  assumes "i \<in> set (cargo_raw J root check_id s)"
  shows "inside_path (is_path i) \<and> is_check_id i = check_id"
proof -
  from assms obtain l where "(case jl_parse J l of Inl _ \<Rightarrow> None | Inr v \<Rightarrow> cargo_value root check_id v) = Some i"
    by (auto simp: cargo_raw_def map_filter_mem)
  then show ?thesis by (cases "jl_parse J l") (auto dest: cargo_value_inside)
qed

lemma tsc_join_inside: "tsc_join pre p = Some q \<Longrightarrow> inside_path q"
  by (auto simp: tsc_join_def split: if_splits dest: normalize_path_inside)

lemma parse_diagnostic_inside:
  "parse_diagnostic pre check_id l = Some i \<Longrightarrow> inside_path (is_path i) \<and> is_check_id i = check_id"
  by (auto simp: parse_diagnostic_def bind_Some_iff tsc_join_inside split: if_splits)

lemma tsc_raw_inside:
  "i \<in> set (tsc_raw pre check_id s) \<Longrightarrow> inside_path (is_path i) \<and> is_check_id i = check_id"
proof -
  let ?ok = "\<lambda>is. \<forall>i \<in> set is. inside_path (is_path i) \<and> is_check_id i = check_id"
  have "?ok (tsc_line pre check_id is l)" if ok: "?ok is" for "is" l
  proof (cases "is" rule: rev_cases)
    case Nil
    then show ?thesis using parse_diagnostic_inside [of pre check_id l]
      by (simp add: tsc_line_def Let_def split: option.split)
  next
    case (snoc xs x)
    then show ?thesis using ok parse_diagnostic_inside [of pre check_id l]
      by (simp add: tsc_line_def Let_def ball_Un split: option.split)
  qed
  then have step: "P is \<Longrightarrow> P (tsc_line pre check_id is l)" if "P = ?ok" for "is" l P using that by blast
  have "P is \<Longrightarrow> P (foldl (tsc_line pre check_id) is ls)" if "P = ?ok" for "is" ls P
    using step [OF that] by (induction ls arbitrary: "is") simp_all
  from this [OF refl, of "[]" "str_lines (strip_ansi s)"]
  show "i \<in> set (tsc_raw pre check_id s) \<Longrightarrow> inside_path (is_path i) \<and> is_check_id i = check_id"
    by (simp add: tsc_raw_def)
qed

interpretation cargo: diagnostics "cargo_raw J root check_id" "parse_cargo_messages J root check_id" check_id
  for J root check_id
  by unfold_locales
    (simp_all add: parse_cargo_messages_def cargo_raw_inside)

interpretation tsc: diagnostics "tsc_raw pre check_id" "parse_tsc_text pre check_id" check_id
  for pre check_id
  by unfold_locales (simp_all add: parse_tsc_text_def tsc_raw_inside)

text \<open>The two JSON arrays: the diagnostics of a text that reads, none of one that does not.\<close>

definition array_raw :: "json_lib \<Rightarrow> (string json \<Rightarrow> 'b option) \<Rightarrow> ('b \<Rightarrow> issue option) \<Rightarrow> string \<Rightarrow> issue list" where
  "array_raw J read mk s =
     (if str_trim s = [] then [] else case read_array J read (str_trim s) of Inl _ \<Rightarrow> [] | Inr ds \<Rightarrow> List.map_filter mk ds)"

definition accepted :: "health_error + issue list \<Rightarrow> issue list" where
  "accepted r = (case r of Inl _ \<Rightarrow> [] | Inr is \<Rightarrow> is)"

lemma array_parse: "accepted (parse_array_issues J read mk check_id s) = sort_dedup (array_raw J read mk s)"
  by (auto simp: accepted_def parse_array_issues_def array_raw_def sort_dedup_def Let_def split: sum.splits)

lemma ruff_issue_inside: "ruff_issue root check_id d = Some i \<Longrightarrow> inside_path (is_path i) \<and> is_check_id i = check_id"
  by (auto simp: ruff_issue_def relativize_inside)

lemma hadolint_issue_inside:
  "hadolint_issue root check_id d = Some i \<Longrightarrow> inside_path (is_path i) \<and> is_check_id i = check_id"
  by (auto simp: hadolint_issue_def bind_Some_iff relativize_inside)

interpretation ruff: diagnostics "array_raw J ruff_of_json (ruff_issue root check_id)"
    "\<lambda>s. accepted (parse_ruff_json J root check_id s)" check_id
  for J root check_id
  by unfold_locales
    (auto simp: parse_ruff_json_def array_parse array_raw_def map_filter_mem
      dest!: ruff_issue_inside split: sum.splits if_splits)

interpretation hadolint: diagnostics "array_raw J hadolint_of_json (hadolint_issue root check_id)"
    "\<lambda>s. accepted (parse_hadolint_json J root check_id s)" check_id
  for J root check_id
  by unfold_locales
    (auto simp: parse_hadolint_json_def array_parse array_raw_def map_filter_mem
      dest!: hadolint_issue_inside split: sum.splits if_splits)

section \<open>tsc lines\<close>

definition tsc_severity_text :: "severity \<Rightarrow> string" where
  "tsc_severity_text s = (case s of SevError \<Rightarrow> ''error'' | SevWarning \<Rightarrow> ''warning'')"

definition tsc_text :: "string \<Rightarrow> nat \<Rightarrow> nat \<Rightarrow> severity \<Rightarrow> string \<Rightarrow> string \<Rightarrow> string" where
  "tsc_text path line column sev digits message =
     path @ ''('' @ show_nat line @ '','' @ show_nat column @ ''): '' @ tsc_severity_text sev @ '' TS'' @ digits @ '': '' @ message"

lemma split_infix_found: "set pat \<inter> set a \<inter> {hd pat} = {} \<Longrightarrow> pat \<noteq> [] \<Longrightarrow> split_infix pat (a @ pat @ b) = Some (a, b)"
proof (induction a)
  case Nil
  then obtain p ps where "pat = p # ps" by (cases pat) auto
  then show ?case using strip_prefix_append [of pat b] by (auto simp del: strip_prefix_append)
next
  case (Cons c a)
  then have ne: "hd pat \<noteq> c" by (cases pat) auto
  with Cons have "strip_prefix pat ((c # a) @ pat @ b) = None" by (cases pat) auto
  moreover have "split_infix pat (a @ pat @ b) = Some (a, b)" using Cons by auto
  ultimately show ?case by simp
qed

lemma str_trim_show_nat: "str_trim (show_nat n) = show_nat n"
proof (rule str_trim_visible)
  show "show_nat n \<noteq> []" by simp
  then show "visible_ascii (hd (show_nat n))" "visible_ascii (last (show_nat n))"
    using show_nat_visible hd_in_set last_in_set by blast+
qed

lemma tsc_position_show:
  assumes "l \<le> U32_MAX" "c \<le> U32_MAX"
  shows "tsc_position (show_nat l @ '','' @ show_nat c) = Some (l, c)"
proof -
  have d: "CHR '','' \<notin> set (show_nat n)" for n using show_nat_digits [of n] by (auto simp: is_digit_def)
  have "split_on CHR '','' (show_nat l @ '','' @ show_nat c) = [show_nat l, show_nat c]"
    using split_on_append_sep [OF d, of l "show_nat c"] split_on_single [OF d] by simp
  with assms show ?thesis by (simp add: tsc_position_def str_trim_show_nat parse_show_nat)
qed

text \<open>
  A diagnostic line of tsc is read exactly. For a path of the repository without an opening
  parenthesis, a position, a severity, the digits of a code and any message, the line reads as
  a diagnostic with that path below the workspace, that position, severity, code and message.
\<close>

theorem tsc_line_roundtrip:
  assumes "inside_path path" "CHR ''('' \<notin> set path" "l \<le> U32_MAX" "c \<le> U32_MAX"
    and "digits \<noteq> []" "\<forall>d \<in> set digits. is_digit d" "inside_path pre"
  shows "parse_diagnostic pre check_id (tsc_text path l c sev digits message) =
    Some \<lparr>is_check_id = check_id, is_path = pre @ ''/'' @ path, is_line = l, is_column = c, is_severity = sev,
          is_code = Some (''TS'' @ digits), is_message = message\<rparr>"
proof -
  let ?pos = "show_nat l @ '','' @ show_nat c"
  let ?sev = "tsc_severity_text sev"
  have o: "split_once CHR ''('' (tsc_text path l c sev digits message) =
      Some (path, ?pos @ ''): '' @ (?sev @ '' TS'' @ digits @ '': '' @ message))"
    using split_once_append [OF assms(2)] by (simp add: tsc_text_def)
  have "CHR '')'' \<notin> set ?pos"
    using show_nat_digits [of l] show_nat_digits [of c] by (auto simp: is_digit_def)
  then have i: "split_infix ''): '' (?pos @ ''): '' @ (?sev @ '' TS'' @ digits @ '': '' @ message)) =
      Some (?pos, ?sev @ '' TS'' @ digits @ '': '' @ message)"
    by (intro split_infix_found) auto
  have s: "split_once CHR '' '' (?sev @ '' TS'' @ digits @ '': '' @ message) = Some (?sev, ''TS'' @ digits @ '': '' @ message)"
    using split_once_append [of "CHR '' ''" ?sev] by (cases sev) (simp_all add: tsc_severity_text_def)
  have "CHR '':'' \<notin> set (''TS'' @ digits)" using assms(6) by (auto simp: is_digit_def)
  then have k: "split_infix '': '' ((''TS'' @ digits) @ '': '' @ message) = Some (''TS'' @ digits, message)"
    by (intro split_infix_found) auto
  have code: "tsc_code_ok (''TS'' @ digits)" using assms(5,6) by (simp add: tsc_code_ok_def)
  have sv: "cargo_severity ?sev = Some sev" by (cases sev) (simp_all add: cargo_severity_def tsc_severity_text_def)
  have "split_on slash (pre @ ''/'' @ path) = split_on slash pre @ split_on slash path"
  proof -
    have "pre @ ''/'' @ path = join_with slash (split_on slash pre @ split_on slash path)"
      by (simp add: join_with_append)
    then show ?thesis using split_join_with [of "split_on slash pre @ split_on slash path" slash] split_on_no_sep by fastforce
  qed
  then have "inside_path (pre @ ''/'' @ path)" using assms(1,7) by (auto simp: inside_path_def)
  moreover have "\<not> prefix ''/'' path" "path \<noteq> []" "pre \<noteq> []"
    using assms(1,7) inside_path_relative by (auto simp: inside_path_def)
  ultimately have j: "tsc_join pre path = Some (pre @ ''/'' @ path)"
    by (simp only: tsc_join_def normalize_path_id if_False simp_thms)
  show ?thesis
    unfolding parse_diagnostic_def o Option.bind.bind_lunit prod.case i tsc_position_show [OF assms(3,4)] s sv
    using k code j by simp
qed

theorem tsc_line_roundtrip_witness:
  "parse_diagnostic ''w'' ''t'' (tsc_text ''a.ts'' 3 7 SevError ''2322'' ''no: (x)'') =
    Some \<lparr>is_check_id = ''t'', is_path = ''w/a.ts'', is_line = 3, is_column = 7, is_severity = SevError,
          is_code = Some ''TS2322'', is_message = ''no: (x)''\<rparr>"
  using tsc_line_roundtrip [of "''a.ts''" 3 7 "''2322''" "''w''" "''t''" SevError "''no: (x)''"]
  by (simp add: inside_path_def U32_MAX_def is_digit_def)

text \<open>Removing terminal escapes leaves none behind and changes no text without them.\<close>

lemma strip_ansi_clean: "esc \<notin> set (strip_ansi s)"
  by (induction s rule: strip_ansi.induct) (auto split: list.splits)

lemma strip_ansi_id: "esc \<notin> set s \<Longrightarrow> strip_ansi s = s"
  by (induction s) auto

section \<open>Errors\<close>

text \<open>
  A non-empty output that is not the expected JSON array is an error of the check, never an
  empty list of diagnostics: the ruff and hadolint parsers succeed exactly on blank output and
  on arrays all of whose elements read.
\<close>

theorem json_parsers_reject_garbage:
  "(\<exists>is. parse_ruff_json J root check_id s = Inr is) \<longleftrightarrow>
     str_trim s = [] \<or> (\<exists>v ds. jl_parse J (str_trim s) = Inr v \<and> Option.bind (as_arr v) (read_all ruff_of_json) = Some ds)"
  "(\<exists>is. parse_hadolint_json J root check_id s = Inr is) \<longleftrightarrow>
     str_trim s = [] \<or> (\<exists>v ds. jl_parse J (str_trim s) = Inr v \<and> Option.bind (as_arr v) (read_all hadolint_of_json) = Some ds)"
  by (auto simp: parse_ruff_json_def parse_hadolint_json_def parse_array_issues_def read_array_def Let_def
      split: sum.splits option.splits)

end
