(* ===== verification/HlChecks.thy ===== *)
theory HlChecks
  imports HlReport
begin

text \<open>
  The checks the health crate declares for a language (\<open>health/src/checks.rs\<close>): argument
  vectors, never shell strings, how their output is read, how one declaration becomes several
  checks, and which check waits for which.
\<close>

datatype output_kind = NoOutput | Lcov string | CargoMessages | TscText | RuffJson | HadolintJson

datatype expand_kind = NpmWorkspaces | Files "string list"

record check_decl =
  ck_id :: string
  ck_kind :: check_kind
  ck_argv :: "string list"
  ck_cwd :: string
  ck_output :: output_kind
  ck_expand :: "expand_kind option"
  ck_group :: "string option"
  ck_after :: "string option"

definition OUT_DIR_TOKEN :: string where
  "OUT_DIR_TOKEN = ''{out_dir}''"

definition mk_check ::
  "string \<Rightarrow> check_kind \<Rightarrow> string list \<Rightarrow> output_kind \<Rightarrow> expand_kind option \<Rightarrow> string option \<Rightarrow> string option \<Rightarrow> check_decl" where
  "mk_check i kind argv out ex grp aft =
     \<lparr>ck_id = i, ck_kind = kind, ck_argv = argv, ck_cwd = [], ck_output = out, ck_expand = ex, ck_group = grp, ck_after = aft\<rparr>"

definition PRESET_ORDER :: "string list" where
  "PRESET_ORDER = [''rust'', ''js-ts'', ''python'', ''dockerfile'']"

definition rust_preset :: "check_decl list" where
  "rust_preset =
    [mk_check ''rust-fmt'' Format [''cargo'', ''fmt'', ''--all'', ''--'', ''--check''] NoOutput None (Some ''fmt'') None,
     mk_check ''rust-clippy'' Lint
       [''cargo'', ''clippy'', ''--workspace'', ''--all-targets'', ''--message-format=json'', ''--'', ''-D'', ''warnings'']
       CargoMessages None (Some ''cargo-debug'') None,
     mk_check ''rust-coverage'' Coverage
       [''cargo'', ''llvm-cov'', ''--workspace'', ''--lcov'', ''--output-path'', ''{out_dir}/rust.lcov'']
       (Lcov ''rust.lcov'') None (Some ''cargo-llvm-cov'') None]"

definition ts_preset :: "check_decl list" where
  "ts_preset =
    [mk_check ''ts-check'' Lint [''npm'', ''run'', ''check'', ''--workspace={workspace}'', ''--if-present'']
       TscText (Some NpmWorkspaces) None None,
     mk_check ''ts-coverage-provider'' Tests
       [''npm'', ''install'', ''--no-save'', ''--no-audit'', ''--no-fund'', ''@vitest/coverage-v8@'' @ ''{vitest_version}'']
       NoOutput (Some NpmWorkspaces) None None,
     mk_check ''ts-coverage'' Coverage
       [''npm'', ''run'', ''test'', ''--workspace={workspace}'', ''--if-present'', ''--'', ''--coverage'',
        ''--coverage.reporter=lcov'', ''--coverage.reportsDirectory={out_dir}/ts-cov/{workspace_slug}'']
       (Lcov ''ts-cov/{workspace_slug}/lcov.info'') (Some NpmWorkspaces) None (Some ''ts-coverage-provider'')]"

definition python_preset :: "check_decl list" where
  "python_preset =
    [mk_check ''py-ruff'' Lint [''ruff'', ''check'', ''--output-format'', ''json'', ''.''] RuffJson None None None,
     mk_check ''py-tests'' Tests [''coverage'', ''run'', ''-m'', ''pytest''] NoOutput None None None,
     mk_check ''py-coverage'' Coverage [''coverage'', ''lcov'', ''-o'', ''{out_dir}/py.lcov''] (Lcov ''py.lcov'')
       None None (Some ''py-tests'')]"

definition dockerfile_preset :: "check_decl list" where
  "dockerfile_preset =
    [mk_check ''docker-hadolint'' Lint [''hadolint'', ''--format'', ''json'', ''{files}''] HadolintJson
       (Some (Files [''Dockerfile'', ''**/Dockerfile'', ''**/Dockerfile.*'', ''**/*.Dockerfile'', ''**/Containerfile'']))
       None None]"

definition preset_checks :: "string \<Rightarrow> check_decl list" where
  "preset_checks lang =
     (if lang = ''rust'' then rust_preset
      else if lang = ''js-ts'' \<or> lang = ''vue'' then ts_preset
      else if lang = ''python'' then python_preset
      else if lang = ''dockerfile'' then dockerfile_preset
      else [])"

text \<open>The set \<open>seen\<close> holds the ids pushed so far, so it is read off the list.\<close>

definition push_check :: "check_decl list \<Rightarrow> check_decl \<Rightarrow> check_decl list" where
  "push_check out c = (if ck_id c \<in> ck_id ` set out then out else out @ [c])"

definition checks_for_languages :: "string list \<Rightarrow> check_decl list" where
  "checks_for_languages langs = foldl (\<lambda>out preset.
     if preset \<in> set langs \<or> (preset = ''js-ts'' \<and> ''vue'' \<in> set langs)
     then foldl push_check out (preset_checks preset) else out) [] PRESET_ORDER"

definition push_new :: "'a list \<Rightarrow> 'a \<Rightarrow> 'a list" where
  "push_new out x = (if x \<in> set out then out else out @ [x])"

definition unchecked_languages :: "string list \<Rightarrow> string list" where
  "unchecked_languages langs = foldl push_new [] (filter (\<lambda>l. preset_checks l = []) langs)"

definition validate :: "check_decl \<Rightarrow> health_error + unit" where
  "validate c =
     (if ck_id c = [] then Inl (InvalidCheck (ck_id c) ''empty id'')
      else case ck_argv c of
        [] \<Rightarrow> Inl (InvalidCheck (ck_id c) ''empty argv'')
      | first # _ \<Rightarrow>
          (if first = [] then Inl (InvalidCheck (ck_id c) ''empty argv[0]'')
           else if prefix ''/'' (ck_cwd c) \<or> ''..'' \<in> set (split_on slash (ck_cwd c))
             then Inl (InvalidCheck (ck_id c) (''cwd escapes the repository: '' @ ck_cwd c))
           else Inr ()))"

section \<open>What the presets promise\<close>

lemma foldl_push_check_fresh:
  "distinct (map ck_id cs) \<Longrightarrow> ck_id ` set cs \<inter> ck_id ` set out = {} \<Longrightarrow> foldl push_check out cs = out @ cs"
proof (induction cs arbitrary: out)
  case (Cons c cs)
  then have "push_check out c = out @ [c]" by (auto simp: push_check_def)
  moreover have "ck_id ` set cs \<inter> ck_id ` set (out @ [c]) = {}" using Cons.prems by auto
  ultimately show ?case using Cons.IH Cons.prems by auto
qed simp

lemmas presets = rust_preset_def ts_preset_def python_preset_def dockerfile_preset_def mk_check_def

definition selected :: "string list \<Rightarrow> string \<Rightarrow> check_decl list" where
  "selected langs preset =
     (if preset \<in> set langs \<or> (preset = ''js-ts'' \<and> ''vue'' \<in> set langs) then preset_checks preset else [])"

lemma checks_for_languages_concat:
  "checks_for_languages langs = concat (map (selected langs) PRESET_ORDER)"
proof -
  have f: "(if P then foldl push_check out cs else out) = foldl push_check out (if P then cs else [])" for P out cs
    by simp
  have s: "foldl push_check out (selected langs p) = out @ selected langs p"
    if "ck_id ` set (selected langs p) \<inter> ck_id ` set out = {}" for out p
  proof (rule foldl_push_check_fresh [OF _ that])
    show "distinct (map ck_id (selected langs p))"
      by (auto simp: selected_def preset_checks_def presets)
  qed
  have d: "ck_id ` set (selected langs p) \<subseteq> ck_id ` set (preset_checks p)" for p by (auto simp: selected_def)
  have e: "checks_for_languages langs = foldl (\<lambda>out p. foldl push_check out (selected langs p)) [] PRESET_ORDER"
    unfolding checks_for_languages_def f selected_def ..
  have i: "ck_id ` set (preset_checks ''rust'') = {''rust-fmt'', ''rust-clippy'', ''rust-coverage''}"
    "ck_id ` set (preset_checks ''js-ts'') = {''ts-check'', ''ts-coverage-provider'', ''ts-coverage''}"
    "ck_id ` set (preset_checks ''python'') = {''py-ruff'', ''py-tests'', ''py-coverage''}"
    "ck_id ` set (preset_checks ''dockerfile'') = {''docker-hadolint''}"
    by (auto simp: preset_checks_def presets)
  have dj: "A \<inter> B = {}" if "A \<subseteq> X" "B \<subseteq> Y" "X \<inter> Y = {}" for A B X Y :: "string set" using that by blast
  note sub = d [of "''rust''", unfolded i] d [of "''js-ts''", unfolded i] d [of "''python''", unfolded i] d [of "''dockerfile''", unfolded i]
  have "foldl push_check [] (selected langs ''rust'') = selected langs ''rust''" using s by force
  moreover have "foldl push_check (selected langs ''rust'') (selected langs ''js-ts'') = selected langs ''rust'' @ selected langs ''js-ts''"
    by (rule s, rule dj [OF sub(2) sub(1)]) simp
  moreover have "foldl push_check (selected langs ''rust'' @ selected langs ''js-ts'') (selected langs ''python'') =
      (selected langs ''rust'' @ selected langs ''js-ts'') @ selected langs ''python''"
    by (rule s, simp only: set_append image_Un Int_Un_distrib Un_empty, intro conjI dj [OF sub(3) sub(1)] dj [OF sub(3) sub(2)]) simp_all
  moreover have "foldl push_check ((selected langs ''rust'' @ selected langs ''js-ts'') @ selected langs ''python'') (selected langs ''dockerfile'') =
      ((selected langs ''rust'' @ selected langs ''js-ts'') @ selected langs ''python'') @ selected langs ''dockerfile''"
    by (rule s, simp only: set_append image_Un Int_Un_distrib Un_empty,
        intro conjI dj [OF sub(4) sub(1)] dj [OF sub(4) sub(2)] dj [OF sub(4) sub(3)]) simp_all
  ultimately show ?thesis unfolding e PRESET_ORDER_def by simp
qed

text \<open>A list of declarations in which every prerequisite is declared before the check that waits for it.\<close>

fun after_ok :: "string list \<Rightarrow> check_decl list \<Rightarrow> bool" where
  "after_ok seen [] = True"
| "after_ok seen (c # cs) =
     ((case ck_after c of None \<Rightarrow> True | Some a \<Rightarrow> a \<in> set seen) \<and> after_ok (ck_id c # seen) cs)"

lemma after_ok_mono: "after_ok seen cs \<Longrightarrow> set seen \<subseteq> set seen' \<Longrightarrow> after_ok seen' cs"
proof (induction seen cs arbitrary: seen' rule: after_ok.induct)
  case (2 seen c cs)
  have "set (ck_id c # seen) \<subseteq> set (ck_id c # seen')" using 2(3) by auto
  from 2(1) [OF _ this] 2(2,3) show ?case by (auto split: option.splits)
qed simp

lemma after_ok_append:
  "after_ok seen xs \<Longrightarrow> after_ok [] ys \<Longrightarrow> after_ok seen (xs @ ys)"
  by (induction seen xs rule: after_ok.induct) (auto intro: after_ok_mono)

lemma presets_well_formed:
  "distinct (map ck_id (checks_for_languages langs)) \<and>
   (\<forall>c \<in> set (checks_for_languages langs). validate c = Inr ()) \<and>
   after_ok [] (checks_for_languages langs) \<and>
   set (unchecked_languages langs) = {l \<in> set langs. preset_checks l = []} \<and>
   distinct (unchecked_languages langs)"
proof -
  have sel: "selected langs p = [] \<or> selected langs p = preset_checks p" for p by (simp add: selected_def)
  have "distinct (map ck_id (a @ b @ c @ d)) \<and> (\<forall>x \<in> set (a @ b @ c @ d). validate x = Inr ())"
    if "a = [] \<or> a = rust_preset" "b = [] \<or> b = ts_preset" "c = [] \<or> c = python_preset" "d = [] \<or> d = dockerfile_preset"
    for a b c d
    using that by (elim disjE) (simp_all add: presets validate_def)
  moreover have p: "preset_checks ''rust'' = rust_preset" "preset_checks ''js-ts'' = ts_preset"
    "preset_checks ''python'' = python_preset" "preset_checks ''dockerfile'' = dockerfile_preset"
    by (simp_all add: preset_checks_def)
  ultimately have "distinct (map ck_id (checks_for_languages langs)) \<and> (\<forall>x \<in> set (checks_for_languages langs). validate x = Inr ())"
    using sel [of "''rust''"] sel [of "''js-ts''"] sel [of "''python''"] sel [of "''dockerfile''"]
    by (simp add: checks_for_languages_concat PRESET_ORDER_def)
  moreover have "after_ok [] (selected langs q)" for q
    by (auto simp: selected_def preset_checks_def presets)
  then have "after_ok [] (checks_for_languages langs)"
    by (simp add: checks_for_languages_concat PRESET_ORDER_def after_ok_append)
  moreover have "set (foldl push_new out xs) = set out \<union> set xs \<and> (distinct out \<longrightarrow> distinct (foldl push_new out xs))"
    for out xs :: "string list"
    by (induction xs arbitrary: out) (auto simp: push_new_def)
  then have "set (unchecked_languages langs) = {l \<in> set langs. preset_checks l = []} \<and> distinct (unchecked_languages langs)"
    by (auto simp: unchecked_languages_def)
  ultimately show ?thesis by blast
qed

text \<open>
  Whatever the languages, the selected checks are well formed: their ids are distinct, every
  one passes the validation the runner applies, and a check that waits for another is declared
  after it, so the prerequisites have no cycle. A language is reported as unchecked exactly when
  no check is selected for it.
\<close>

theorem selected_checks_well_formed:
  "distinct (map ck_id (checks_for_languages langs)) \<and>
   (\<forall>c \<in> set (checks_for_languages langs). validate c = Inr ()) \<and>
   after_ok [] (checks_for_languages langs) \<and>
   set (unchecked_languages langs) = {l \<in> set langs. preset_checks l = []} \<and>
   distinct (unchecked_languages langs)"
  by (rule presets_well_formed)

theorem selected_checks_well_formed_witness:
  "ck_id (last (checks_for_languages [''vue'', ''rust''])) = ''ts-coverage'' \<and>
   distinct (map ck_id (checks_for_languages [''vue'', ''rust'']))"
  using selected_checks_well_formed [of "[''vue'', ''rust'']"]
  by (simp add: checks_for_languages_concat PRESET_ORDER_def selected_def preset_checks_def presets)

end
