(* ===== verification/HlSched.thy ===== *)
theory HlSched
  imports HlChecks
begin

text \<open>
  The scheduler of a health run (\<open>spawn_jobs\<close>, \<open>resolve_dep\<close>, \<open>run_job\<close> and \<open>acquire\<close> in
  \<open>health/src/runner.rs\<close>): one task per slot, which waits for its prerequisite, takes the flag of
  its serial group, then one of the concurrency tokens, executes, and releases both. Every load,
  store and compare-and-exchange on the shared atomics is a step of its own, and the tasks
  interleave freely. A poll that finds nothing to do leaves the state as it is. A task that
  panics is not modelled.
\<close>

definition ST_PENDING :: nat where "ST_PENDING = 0"
definition ST_PASSED :: nat where "ST_PASSED = 1"
definition ST_FAILED :: nat where "ST_FAILED = 2"
definition ST_ERRORED :: nat where "ST_ERRORED = 3"
definition ST_SKIPPED :: nat where "ST_SKIPPED = 4"

definition status_code :: "check_status \<Rightarrow> nat" where
  "status_code s = (case s of Passed \<Rightarrow> ST_PASSED | Failed \<Rightarrow> ST_FAILED | Errored \<Rightarrow> ST_ERRORED | Skipped \<Rightarrow> ST_SKIPPED)"

lemmas st_codes = ST_PENDING_def ST_PASSED_def ST_FAILED_def ST_ERRORED_def ST_SKIPPED_def

section \<open>Slots and prerequisites\<close>

record ready =
  rdy_id :: string
  rdy_kind :: check_kind
  rdy_argv :: "string list"
  rdy_cwd :: string
  rdy_prefix :: string
  rdy_output :: output_kind
  rdy_group :: string
  rdy_after :: "string option"

datatype slot = Ready ready | Done check_result

definition slot_id :: "slot \<Rightarrow> string" where
  "slot_id s = (case s of Ready r \<Rightarrow> rdy_id r | Done c \<Rightarrow> cr_id c)"

text \<open>\<open>by_id\<close>: a later slot with the same id replaces an earlier one.\<close>

definition by_id :: "slot list \<Rightarrow> string \<Rightarrow> nat option" where
  "by_id slots = map_of (rev (zip (map slot_id slots) [0..<length slots]))"

definition resolve_dep :: "string \<Rightarrow> string \<Rightarrow> (string \<Rightarrow> nat option) \<Rightarrow> nat \<Rightarrow> nat option" where
  "resolve_dep i aft ids self_index =
     (case ids aft of
        Some index \<Rightarrow> (if index \<noteq> self_index then Some index else None)
      | None \<Rightarrow> (case split_once CHR '':'' i of
            None \<Rightarrow> None
          | Some (_, workspace) \<Rightarrow>
              (case ids (aft @ '':'' @ workspace) of
                 None \<Rightarrow> None
               | Some index \<Rightarrow> if index \<noteq> self_index then Some index else None)))"

definition slot_dep :: "slot list \<Rightarrow> nat \<Rightarrow> nat option" where
  "slot_dep slots k =
     (case slots ! k of Done _ \<Rightarrow> None
      | Ready r \<Rightarrow> Option.bind (rdy_after r) (\<lambda>a. resolve_dep (rdy_id r) a (by_id slots) k))"

definition slot_group :: "slot list \<Rightarrow> nat \<Rightarrow> string" where
  "slot_group slots k = (case slots ! k of Done _ \<Rightarrow> [] | Ready r \<Rightarrow> rdy_group r)"

section \<open>The tasks\<close>

text \<open>Where a task is in its code.\<close>

datatype phase =
    Waiting
  | Cascading             \<comment> \<open>the prerequisite errored: about to store \<open>ST_ERRORED\<close>\<close>
  | TakingFlag            \<comment> \<open>\<open>while flag.compare_exchange(false, true)\<close>\<close>
  | ReadingToken          \<comment> \<open>has the flag: \<open>inflight.load\<close>\<close>
  | TakingToken nat       \<comment> \<open>\<open>inflight.compare_exchange(current, current + 1)\<close>\<close>
  | BackingOff            \<comment> \<open>no token: about to clear the flag\<close>
  | Executing
  | ClearingFlag check_status
  | ReturningToken check_status
  | Storing check_status
  | Finished

record sched =
  sc_phase :: "nat \<Rightarrow> phase"
  sc_status :: "nat \<Rightarrow> nat"
  sc_flag :: "string \<Rightarrow> bool"
  sc_inflight :: nat

definition sched_init :: "slot list \<Rightarrow> sched" where
  "sched_init slots =
     \<lparr>sc_phase = (\<lambda>k. case slots ! k of Ready _ \<Rightarrow> Waiting | Done _ \<Rightarrow> Finished),
      sc_status = (\<lambda>k. case slots ! k of Ready _ \<Rightarrow> ST_PENDING | Done c \<Rightarrow> status_code (cr_status c)),
      sc_flag = (\<lambda>_. False), sc_inflight = 0\<rparr>"

definition at_phase :: "nat \<Rightarrow> phase \<Rightarrow> sched \<Rightarrow> sched" where
  "at_phase k p s = s\<lparr>sc_phase := (sc_phase s)(k := p)\<rparr>"

definition set_flag :: "string \<Rightarrow> bool \<Rightarrow> sched \<Rightarrow> sched" where
  "set_flag g b s = s\<lparr>sc_flag := (sc_flag s)(g := b)\<rparr>"

text \<open>The next atomic operation of task \<open>k\<close>; \<open>result\<close> is what executing its check gives.\<close>

definition task_step :: "slot list \<Rightarrow> nat \<Rightarrow> nat \<Rightarrow> check_status \<Rightarrow> sched \<Rightarrow> sched" where
  "task_step slots max_parallel k result s =
     (let g = slot_group slots k in
      case sc_phase s k of
        Waiting \<Rightarrow>
          (case slot_dep slots k of
             None \<Rightarrow> at_phase k TakingFlag s
           | Some d \<Rightarrow>
              (if sc_status s d \<ge> ST_PASSED
               then (if sc_status s d = ST_ERRORED then at_phase k Cascading s else at_phase k TakingFlag s)
               else s))
      | Cascading \<Rightarrow> at_phase k Finished (s\<lparr>sc_status := (sc_status s)(k := ST_ERRORED)\<rparr>)
      | TakingFlag \<Rightarrow> (if sc_flag s g then s else at_phase k ReadingToken (set_flag g True s))
      | ReadingToken \<Rightarrow>
          (if sc_inflight s < max_parallel then at_phase k (TakingToken (sc_inflight s)) s else at_phase k BackingOff s)
      | TakingToken current \<Rightarrow>
          (if sc_inflight s = current then at_phase k Executing (s\<lparr>sc_inflight := current + 1\<rparr>)
           else at_phase k BackingOff s)
      | BackingOff \<Rightarrow> at_phase k TakingFlag (set_flag g False s)
      | Executing \<Rightarrow> at_phase k (ClearingFlag result) s
      | ClearingFlag st \<Rightarrow> at_phase k (ReturningToken st) (set_flag g False s)
      | ReturningToken st \<Rightarrow> at_phase k (Storing st) (s\<lparr>sc_inflight := sc_inflight s - 1\<rparr>)
      | Storing st \<Rightarrow> at_phase k Finished (s\<lparr>sc_status := (sc_status s)(k := status_code st)\<rparr>)
      | Finished \<Rightarrow> s)"

inductive sched_reach :: "slot list \<Rightarrow> nat \<Rightarrow> sched \<Rightarrow> bool" for slots max_parallel where
  start: "sched_reach slots max_parallel (sched_init slots)"
| step: "sched_reach slots max_parallel s \<Longrightarrow> k < length slots \<Longrightarrow> sched_reach slots max_parallel (task_step slots max_parallel k result s)"

section \<open>Invariants\<close>

fun holds_flag :: "phase \<Rightarrow> bool" where
  "holds_flag ReadingToken = True"
| "holds_flag (TakingToken _) = True"
| "holds_flag BackingOff = True"
| "holds_flag Executing = True"
| "holds_flag (ClearingFlag _) = True"
| "holds_flag _ = False"

fun holds_token :: "phase \<Rightarrow> bool" where
  "holds_token Executing = True"
| "holds_token (ClearingFlag _) = True"
| "holds_token (ReturningToken _) = True"
| "holds_token _ = False"

fun started :: "phase \<Rightarrow> bool" where
  "started Waiting = False"
| "started Cascading = False"
| "started Finished = False"
| "started _ = True"

definition flag_holders :: "slot list \<Rightarrow> sched \<Rightarrow> string \<Rightarrow> nat set" where
  "flag_holders slots s g = {k. k < length slots \<and> slot_group slots k = g \<and> holds_flag (sc_phase s k)}"

definition token_holders :: "slot list \<Rightarrow> sched \<Rightarrow> nat set" where
  "token_holders slots s = {k. k < length slots \<and> holds_token (sc_phase s k)}"

definition flags_inv :: "slot list \<Rightarrow> sched \<Rightarrow> bool" where
  "flags_inv slots s \<longleftrightarrow> (\<forall>g. card (flag_holders slots s g) = (if sc_flag s g then 1 else 0))"

definition tokens_inv :: "slot list \<Rightarrow> nat \<Rightarrow> sched \<Rightarrow> bool" where
  "tokens_inv slots max_parallel s \<longleftrightarrow>
     card (token_holders slots s) = sc_inflight s \<and> sc_inflight s \<le> max_parallel \<and>
     (\<forall>k < length slots. \<forall>c. sc_phase s k = TakingToken c \<longrightarrow> c < max_parallel)"

definition status_inv :: "slot list \<Rightarrow> sched \<Rightarrow> bool" where
  "status_inv slots s \<longleftrightarrow> (\<forall>k < length slots. sc_phase s k = Finished \<longleftrightarrow> ST_PASSED \<le> sc_status s k)"

definition deps_inv :: "slot list \<Rightarrow> sched \<Rightarrow> bool" where
  "deps_inv slots s \<longleftrightarrow> (\<forall>k < length slots. \<forall>d. started (sc_phase s k) \<longrightarrow> slot_dep slots k = Some d \<longrightarrow>
     ST_PASSED \<le> sc_status s d \<and> sc_status s d \<noteq> ST_ERRORED)"

definition sched_inv :: "slot list \<Rightarrow> nat \<Rightarrow> sched \<Rightarrow> bool" where
  "sched_inv slots max_parallel s \<longleftrightarrow>
     flags_inv slots s \<and> tokens_inv slots max_parallel s \<and> status_inv slots s \<and> deps_inv slots s"

lemma finite_holders [simp]: "finite (flag_holders slots s g)" "finite (token_holders slots s)"
  by (simp_all add: flag_holders_def token_holders_def)

lemma sc_updates [simp]:
  "sc_phase (at_phase k p s) = (sc_phase s)(k := p)" "sc_status (at_phase k p s) = sc_status s"
  "sc_flag (at_phase k p s) = sc_flag s" "sc_inflight (at_phase k p s) = sc_inflight s"
  "sc_phase (set_flag g b s) = sc_phase s" "sc_status (set_flag g b s) = sc_status s"
  "sc_flag (set_flag g b s) = (sc_flag s)(g := b)" "sc_inflight (set_flag g b s) = sc_inflight s"
  by (simp_all add: at_phase_def set_flag_def)

lemma holders_at_phase:
  assumes "k < length slots" and "sc_phase s' = (sc_phase s)(k := p)"
  shows "flag_holders slots s' g =
      (if slot_group slots k = g \<and> holds_flag p then insert k (flag_holders slots s g) else flag_holders slots s g - {k})"
    and "token_holders slots s' = (if holds_token p then insert k (token_holders slots s) else token_holders slots s - {k})"
  using assms by (auto simp: flag_holders_def token_holders_def)

lemma card_insert_remove:
  "finite A \<Longrightarrow> card (insert k A) = (if k \<in> A then card A else card A + 1)"
  "finite A \<Longrightarrow> card (A - {k}) = (if k \<in> A then card A - 1 else card A)"
  by (simp_all add: insert_absorb)

lemma holder_iff:
  "k < length slots \<Longrightarrow> k \<in> flag_holders slots s g \<longleftrightarrow> slot_group slots k = g \<and> holds_flag (sc_phase s k)"
  "k < length slots \<Longrightarrow> k \<in> token_holders slots s \<longleftrightarrow> holds_token (sc_phase s k)"
  by (auto simp: flag_holders_def token_holders_def)

lemma flags_inv_held:
  assumes "flags_inv slots s" "k < length slots" "holds_flag (sc_phase s k)"
  shows "sc_flag s (slot_group slots k)"
proof -
  have "k \<in> flag_holders slots s (slot_group slots k)" using assms by (simp add: flag_holders_def)
  then have "card (flag_holders slots s (slot_group slots k)) \<noteq> 0" by auto
  with assms(1) show ?thesis by (auto simp: flags_inv_def split: if_splits)
qed

text \<open>A task that moves to a phase, with the group flag set to what the phase needs.\<close>

lemma flags_inv_move:
  assumes "flags_inv slots s" "k < length slots" "sc_phase s0 = sc_phase s"
    and "sc_flag s0 = (if holds_flag p = holds_flag (sc_phase s k) then sc_flag s
                       else (sc_flag s)(slot_group slots k := holds_flag p))"
    and "holds_flag p \<Longrightarrow> \<not> holds_flag (sc_phase s k) \<Longrightarrow> \<not> sc_flag s (slot_group slots k)"
  shows "flags_inv slots (at_phase k p s0)"
proof -
  let ?s = "at_phase k p s0"
  have ph: "sc_phase ?s = (sc_phase s)(k := p)" and fl: "sc_flag ?s = sc_flag s0" using assms(3) by simp_all
  have c: "card (flag_holders slots s g) = (if sc_flag s g then 1 else 0)" for g
    using assms(1) by (simp add: flags_inv_def)
  have h: "holds_flag (sc_phase s k) \<Longrightarrow> sc_flag s (slot_group slots k)" using flags_inv_held assms(1,2) by blast
  have "card (flag_holders slots ?s g) = (if sc_flag ?s g then 1 else 0)" for g
    using h assms(5) c [of g] unfolding fl assms(4)
    by (cases "holds_flag p"; cases "holds_flag (sc_phase s k)"; cases "slot_group slots k = g")
      (simp_all add: holders_at_phase [OF assms(2) ph] card_insert_remove holder_iff [OF assms(2)])
  then show ?thesis by (simp add: flags_inv_def)
qed

lemma tokens_inv_move:
  assumes "tokens_inv slots m s" "k < length slots" "sc_phase s0 = sc_phase s"
    and "sc_inflight s0 + (if holds_token (sc_phase s k) then 1 else 0) = sc_inflight s + (if holds_token p then 1 else 0)"
    and "sc_inflight s0 \<le> m" and "\<And>c. p = TakingToken c \<Longrightarrow> c < m"
  shows "tokens_inv slots m (at_phase k p s0)"
proof -
  let ?s = "at_phase k p s0"
  have ph: "sc_phase ?s = (sc_phase s)(k := p)" using assms(3) by simp
  have "k \<in> token_holders slots s \<Longrightarrow> 0 < card (token_holders slots s)" by (auto simp: card_gt_0_iff)
  then have "card (token_holders slots ?s) = sc_inflight ?s"
    using assms(1,4) by (auto simp: tokens_inv_def holders_at_phase [OF assms(2) ph] card_insert_remove
        holder_iff [OF assms(2)] split: if_splits)
  with assms show ?thesis by (auto simp: tokens_inv_def)
qed

lemma flags_inv_step:
  assumes "flags_inv slots s" "k < length slots"
  shows "flags_inv slots (task_step slots m k result s)"
  using assms flags_inv_held [OF assms]
  by (cases "sc_phase s k")
    (auto simp: task_step_def Let_def intro!: flags_inv_move [OF assms] split: option.split)

lemma tokens_held_pos:
  "tokens_inv slots m s \<Longrightarrow> k < length slots \<Longrightarrow> holds_token (sc_phase s k) \<Longrightarrow> 0 < sc_inflight s"
proof -
  assume a: "tokens_inv slots m s" "k < length slots" "holds_token (sc_phase s k)"
  then have "k \<in> token_holders slots s" by (simp add: token_holders_def)
  then have "0 < card (token_holders slots s)" by (auto simp: card_gt_0_iff)
  with a(1) show ?thesis by (simp add: tokens_inv_def)
qed

lemma tokens_inv_step:
  assumes "tokens_inv slots m s" "k < length slots"
  shows "tokens_inv slots m (task_step slots m k result s)"
proof -
  have m: "sc_inflight s \<le> m" "\<And>c. sc_phase s k = TakingToken c \<Longrightarrow> c < m"
    using assms by (auto simp: tokens_inv_def)
  have r: "tokens_inv slots m (at_phase k BackingOff s)" if "\<not> holds_token (sc_phase s k)"
    using that m(1) by (intro tokens_inv_move [OF assms]) simp_all
  show ?thesis
    using assms m r tokens_held_pos [OF assms]
    by (cases "sc_phase s k")
      (auto simp: task_step_def Let_def intro!: tokens_inv_move [OF assms] split: option.split)
qed

lemma status_code_pos: "ST_PASSED \<le> status_code st"
  by (cases st) (simp_all add: status_code_def st_codes)

lemma status_inv_step:
  assumes "status_inv slots s"
  shows "status_inv slots (task_step slots m k result s)"
  using assms status_code_pos
  by (cases "sc_phase s k")
    (auto simp: task_step_def Let_def status_inv_def st_codes split: option.split)

text \<open>A stored status never changes again.\<close>

lemma status_stable:
  assumes "status_inv slots s" "k < length slots" "d < length slots" "ST_PASSED \<le> sc_status s d"
  shows "sc_status (task_step slots m k result s) d = sc_status s d"
proof -
  have "sc_phase s d = Finished" using assms by (simp add: status_inv_def)
  then show ?thesis
    by (cases "sc_phase s k") (auto simp: task_step_def Let_def split: option.split)
qed

lemma by_id_bound: "by_id slots i = Some d \<Longrightarrow> d < length slots"
  by (auto simp: by_id_def dest!: map_of_SomeD in_set_zipE)

lemma slot_dep_bound: "slot_dep slots k = Some d \<Longrightarrow> d < length slots \<and> d \<noteq> k"
  by (auto simp: slot_dep_def resolve_dep_def bind_Some_iff dest: by_id_bound split: slot.splits option.splits if_splits)

lemma deps_inv_step:
  assumes "deps_inv slots s" "status_inv slots s" "k < length slots"
  shows "deps_inv slots (task_step slots m k result s)"
proof -
  let ?s = "task_step slots m k result s"
  have new: "ST_PASSED \<le> sc_status s d \<and> sc_status s d \<noteq> ST_ERRORED"
    if "j < length slots" "started (sc_phase ?s j)" "slot_dep slots j = Some d" for j d
  proof (cases "started (sc_phase s j)")
    case True
    then show ?thesis using assms(1) that by (auto simp: deps_inv_def)
  next
    case False
    then have "j = k" using that(2)
      by (cases "sc_phase s k") (auto simp: task_step_def Let_def split: option.splits if_splits)
    with False that show ?thesis
      by (cases "sc_phase s k") (auto simp: task_step_def Let_def split: option.splits if_splits)
  qed
  show ?thesis
    unfolding deps_inv_def
  proof (intro allI impI)
    fix j d
    assume "j < length slots" "started (sc_phase ?s j)" "slot_dep slots j = Some d"
    with new [of j d] status_stable [OF assms(2,3)] slot_dep_bound [of slots j d]
    show "ST_PASSED \<le> sc_status ?s d \<and> sc_status ?s d \<noteq> ST_ERRORED" by metis
  qed
qed

lemma sched_inv_init: "sched_inv slots m (sched_init slots)"
proof -
  have "flag_holders slots (sched_init slots) g = {}" "token_holders slots (sched_init slots) = {}" for g
    by (auto simp: flag_holders_def token_holders_def sched_init_def split: slot.splits)
  then show ?thesis
    using status_code_pos
    by (auto simp: sched_inv_def flags_inv_def tokens_inv_def status_inv_def deps_inv_def sched_init_def st_codes
        split: slot.splits)
qed

lemma sched_reach_inv: "sched_reach slots m s \<Longrightarrow> sched_inv slots m s"
proof (induction rule: sched_reach.induct)
  case start
  show ?case by (rule sched_inv_init)
next
  case (step s k result)
  then show ?case
    by (auto simp: sched_inv_def intro: flags_inv_step tokens_inv_step status_inv_step deps_inv_step)
qed

end
