(* ===== verification/HlSchedLive.thy ===== *)
theory HlSchedLive
  imports HlSched
begin

text \<open>
  The scheduler never deadlocks: as long as the prerequisites have no cycle, from every
  reachable state the tasks can be run to the end. A weight of the phases decreases along the
  way.
\<close>

definition run_tasks :: "slot list \<Rightarrow> nat \<Rightarrow> (nat \<times> check_status) list \<Rightarrow> sched \<Rightarrow> sched" where
  "run_tasks slots m evs s = foldl (\<lambda>s (k, result). task_step slots m k result s) s evs"

definition of_tasks :: "slot list \<Rightarrow> (nat \<times> check_status) list \<Rightarrow> bool" where
  "of_tasks slots evs \<longleftrightarrow> (\<forall>e \<in> set evs. fst e < length slots)"

definition all_finished :: "slot list \<Rightarrow> sched \<Rightarrow> bool" where
  "all_finished slots s \<longleftrightarrow> (\<forall>k < length slots. sc_phase s k = Finished)"

fun weight :: "phase \<Rightarrow> nat" where
  "weight Finished = 0"
| "weight (Storing _) = 1"
| "weight Cascading = 1"
| "weight (ReturningToken _) = 2"
| "weight (ClearingFlag _) = 3"
| "weight Executing = 4"
| "weight (TakingToken _) = 5"
| "weight ReadingToken = 6"
| "weight TakingFlag = 7"
| "weight BackingOff = 8"
| "weight Waiting = 9"

definition work :: "slot list \<Rightarrow> sched \<Rightarrow> nat" where
  "work slots s = (\<Sum>k < length slots. weight (sc_phase s k))"

lemma run_tasks_simps [simp]:
  "run_tasks slots m [] s = s"
  "run_tasks slots m ((k, r) # evs) s = run_tasks slots m evs (task_step slots m k r s)"
  by (simp_all add: run_tasks_def)

lemma run_tasks_append: "run_tasks slots m (xs @ ys) s = run_tasks slots m ys (run_tasks slots m xs s)"
  by (simp add: run_tasks_def)

lemma sched_reach_run:
  "sched_reach slots m s \<Longrightarrow> of_tasks slots evs \<Longrightarrow> sched_reach slots m (run_tasks slots m evs s)"
  by (induction evs arbitrary: s) (auto simp: of_tasks_def sched_reach.step)

lemma work_less:
  assumes "k < length slots" "sc_phase s' = (sc_phase s)(k := p)" "weight p < weight (sc_phase s k)"
  shows "work slots s' < work slots s"
proof -
  have k: "k \<in> {..<length slots}" using assms(1) by simp
  have "(\<Sum>j \<in> {..<length slots} - {k}. weight (sc_phase s' j)) = (\<Sum>j \<in> {..<length slots} - {k}. weight (sc_phase s j))"
    by (intro sum.cong) (auto simp: assms(2))
  with assms(2,3) show ?thesis
    unfolding work_def by (simp add: sum.remove [OF _ k])
qed

lemma acquire_runs:
  assumes "sc_inflight s < m"
    and "(\<exists>c. sc_phase s k = TakingToken c) \<or> sc_phase s k = ReadingToken \<or> sc_phase s k = BackingOff \<or>
      (sc_phase s k = TakingFlag \<and> \<not> sc_flag s (slot_group slots k))"
  shows "\<exists>n. sc_phase (run_tasks slots m (replicate n (k, r)) s) = (sc_phase s)(k := Executing)"
proof -
  note d = task_step_def Let_def numeral_eq_Suc
  consider c where "sc_phase s k = TakingToken c" "c = sc_inflight s" | c where "sc_phase s k = TakingToken c" "c \<noteq> sc_inflight s"
    | "sc_phase s k = ReadingToken" | "sc_phase s k = BackingOff"
    | "sc_phase s k = TakingFlag" "\<not> sc_flag s (slot_group slots k)" using assms(2) by blast
  then show ?thesis
  proof cases
    case 1
    then show ?thesis by (intro exI [of _ 1]) (simp add: d)
  next
    case 2
    then show ?thesis using assms(1) by (intro exI [of _ 5]) (simp add: d)
  next
    case 3
    then show ?thesis using assms(1) by (intro exI [of _ 2]) (simp add: d)
  next
    case 4
    then show ?thesis using assms(1) by (intro exI [of _ 4]) (simp add: d)
  next
    case 5
    then show ?thesis using assms(1) by (intro exI [of _ 3]) (simp add: d)
  qed
qed

text \<open>One step of a task that is past its acquisition, or that waits for a finished check.\<close>

lemma moving_step:
  assumes "holds_token (sc_phase s k) \<or> sc_phase s k = Cascading \<or> (\<exists>st. sc_phase s k = Storing st)"
  shows "\<exists>p. sc_phase (task_step slots m k r s) = (sc_phase s)(k := p) \<and> weight p < weight (sc_phase s k)"
  using assms by (cases "sc_phase s k") (auto simp: task_step_def Let_def)

lemma waiting_step:
  assumes "sc_phase s k = Waiting" "\<And>d. slot_dep slots k = Some d \<Longrightarrow> ST_PASSED \<le> sc_status s d"
  shows "\<exists>p. sc_phase (task_step slots m k r s) = (sc_phase s)(k := p) \<and> weight p < weight (sc_phase s k)"
  using assms by (cases "slot_dep slots k") (auto simp: task_step_def)

lemma progress:
  assumes inv: "sched_inv slots m s" and m: "0 < m" and rank: "\<forall>k < length slots. \<forall>d. slot_dep slots k = Some d \<longrightarrow> rank d < (rank k :: nat)"
    and "\<not> all_finished slots s"
  shows "\<exists>evs. of_tasks slots evs \<and> work slots (run_tasks slots m evs s) < work slots s"
proof -
  define busy where "busy k \<longleftrightarrow> holds_token (sc_phase s k) \<or> sc_phase s k = Cascading \<or> (\<exists>st. sc_phase s k = Storing st)" for k
  have one: "\<exists>evs. of_tasks slots evs \<and> work slots (run_tasks slots m evs s) < work slots s"
    if "k < length slots" "\<exists>p. sc_phase (task_step slots m k Passed s) = (sc_phase s)(k := p) \<and> weight p < weight (sc_phase s k)" for k
    using that work_less [of k slots "task_step slots m k Passed s" s]
    by (intro exI [of _ "[(k, Passed)]"]) (auto simp: of_tasks_def)
  have acq: "\<exists>evs. of_tasks slots evs \<and> work slots (run_tasks slots m evs s) < work slots s"
    if "k < length slots" "\<exists>n. sc_phase (run_tasks slots m (replicate n (k, Passed)) s) = (sc_phase s)(k := Executing)"
      "4 < weight (sc_phase s k)" for k
    using that work_less [of k slots _ s Executing] by (force simp: of_tasks_def)
  show ?thesis
  proof (cases "\<exists>k < length slots. busy k")
    case True
    then show ?thesis using one moving_step unfolding busy_def by blast
  next
    case idle: False
    then have "token_holders slots s = {}" by (auto simp: token_holders_def busy_def)
    then have z: "sc_inflight s < m" using inv m by (auto simp: sched_inv_def tokens_inv_def)
    show ?thesis
    proof (cases "\<exists>k < length slots. holds_flag (sc_phase s k)")
      case True
      then obtain k where k: "k < length slots" "holds_flag (sc_phase s k)" by blast
      then have p: "(\<exists>c. sc_phase s k = TakingToken c) \<or> sc_phase s k = ReadingToken \<or> sc_phase s k = BackingOff"
        using idle by (cases "sc_phase s k") (auto simp: busy_def)
      then show ?thesis using acq [OF k(1)] acquire_runs [OF z, of k slots Passed] by (auto; force)
    next
      case False
      then have "flag_holders slots s g = {}" for g by (auto simp: flag_holders_def)
      then have free: "\<not> sc_flag s g" for g
        using inv by (auto simp: sched_inv_def flags_inv_def dest!: spec [of _ g] split: if_splits)
      show ?thesis
      proof (cases "\<exists>k < length slots. sc_phase s k = TakingFlag")
        case True
        then show ?thesis using acq acquire_runs [OF z, of _ slots Passed] free by force
      next
        case nf: False
        have only: "sc_phase s k = Waiting \<or> sc_phase s k = Finished" if "k < length slots" for k
          using idle False nf that by (cases "sc_phase s k") (auto simp: busy_def)
        obtain k where k: "k < length slots" "sc_phase s k = Waiting"
          and least: "\<And>j. j < length slots \<and> sc_phase s j = Waiting \<Longrightarrow> rank k \<le> rank j"
          using assms(4) only ex_has_least_nat [of "\<lambda>k. k < length slots \<and> sc_phase s k = Waiting" _ rank]
          unfolding all_finished_def by metis
        have "ST_PASSED \<le> sc_status s d" if "slot_dep slots k = Some d" for d
        proof -
          have d: "d < length slots" "rank d < rank k" using slot_dep_bound [OF that] rank k(1) that by auto
          then have "sc_phase s d = Finished" using only [OF d(1)] least [of d] by auto
          then show ?thesis using inv d(1) by (auto simp: sched_inv_def status_inv_def)
        qed
        from waiting_step [OF k(2) this] show ?thesis using one [OF k(1)] by blast
      qed
    qed
  qed
qed

text \<open>
  However the tasks of a run interleave, no two checks of one serial group ever execute at
  the same time, never more checks execute than the concurrency limit allows, and a check only
  executes once its prerequisite has finished without being in error.
\<close>

theorem sched_exclusion:
  assumes "sched_reach slots max_parallel s"
  shows "(\<forall>j < length slots. \<forall>k < length slots.
      sc_phase s j = Executing \<longrightarrow> sc_phase s k = Executing \<longrightarrow> slot_group slots j = slot_group slots k \<longrightarrow> j = k) \<and>
    card {k. k < length slots \<and> sc_phase s k = Executing} \<le> max_parallel \<and>
    (\<forall>k < length slots. \<forall>d. sc_phase s k = Executing \<longrightarrow> slot_dep slots k = Some d \<longrightarrow>
       sc_phase s d = Finished \<and> sc_status s d \<noteq> ST_ERRORED)"
proof -
  note inv = sched_reach_inv [OF assms]
  have "j = k" if "j < length slots" "k < length slots" "sc_phase s j = Executing" "sc_phase s k = Executing"
    "slot_group slots j = slot_group slots k" for j k
  proof -
    have "{j, k} \<subseteq> flag_holders slots s (slot_group slots k)" using that by (auto simp: flag_holders_def)
    moreover have "card (flag_holders slots s (slot_group slots k)) \<le> 1"
      using inv by (auto simp: sched_inv_def flags_inv_def)
    ultimately have "card {j, k} \<le> 1" by (meson card_mono finite_holders(1) order_trans)
    then show ?thesis by (auto simp: card_insert_if split: if_splits)
  qed
  moreover have "{k. k < length slots \<and> sc_phase s k = Executing} \<subseteq> token_holders slots s"
    by (auto simp: token_holders_def)
  then have "card {k. k < length slots \<and> sc_phase s k = Executing} \<le> card (token_holders slots s)"
    by (intro card_mono) auto
  then have "card {k. k < length slots \<and> sc_phase s k = Executing} \<le> max_parallel"
    using inv by (auto simp: sched_inv_def tokens_inv_def)
  moreover have "sc_phase s d = Finished \<and> sc_status s d \<noteq> ST_ERRORED"
    if "k < length slots" "sc_phase s k = Executing" "slot_dep slots k = Some d" for k d
    using inv that slot_dep_bound [OF that(3)] by (auto simp: sched_inv_def deps_inv_def status_inv_def)
  ultimately show ?thesis by blast
qed

lemma sched_runs_out:
  assumes "sched_reach slots max_parallel s" and "0 < max_parallel"
    and "\<forall>k < length slots. \<forall>d. slot_dep slots k = Some d \<longrightarrow> rank d < (rank k :: nat)"
  shows "\<exists>evs. of_tasks slots evs \<and> all_finished slots (run_tasks slots max_parallel evs s) \<and>
    (\<forall>k < length slots. ST_PASSED \<le> sc_status (run_tasks slots max_parallel evs s) k)"
  using assms(1)
proof (induction "work slots s" arbitrary: s rule: less_induct)
  case less
  show ?case
  proof (cases "all_finished slots s")
    case True
    then show ?thesis
      using sched_reach_inv [OF less.prems]
      by (intro exI [of _ "[]"]) (auto simp: of_tasks_def all_finished_def sched_inv_def status_inv_def)
  next
    case False
    from progress [OF sched_reach_inv [OF less.prems] assms(2,3) False]
    obtain evs where evs: "of_tasks slots evs" "work slots (run_tasks slots max_parallel evs s) < work slots s" by blast
    from less.hyps [OF evs(2) sched_reach_run [OF less.prems evs(1)]]
    obtain evs' where "of_tasks slots evs'" "all_finished slots (run_tasks slots max_parallel evs' (run_tasks slots max_parallel evs s))"
      "\<forall>k < length slots. ST_PASSED \<le> sc_status (run_tasks slots max_parallel evs' (run_tasks slots max_parallel evs s)) k" by blast
    with evs(1) show ?thesis
      by (intro exI [of _ "evs @ evs'"]) (auto simp: of_tasks_def run_tasks_append)
  qed
qed

definition ready_of :: "string \<Rightarrow> string option \<Rightarrow> ready" where
  "ready_of i aft = \<lparr>rdy_id = i, rdy_kind = Tests, rdy_argv = [''x''], rdy_cwd = [], rdy_prefix = [], rdy_output = NoOutput,
     rdy_group = ''g'', rdy_after = aft\<rparr>"

definition sample_slots :: "slot list" where
  "sample_slots = [Ready (ready_of ''a'' None), Ready (ready_of ''b'' (Some ''a''))]"

lemma sample_deps: "slot_dep sample_slots 0 = None" "slot_dep sample_slots 1 = Some 0"
  by (simp_all add: slot_dep_def sample_slots_def ready_of_def resolve_dep_def by_id_def slot_id_def)

definition sample_run :: sched where
  "sample_run = run_tasks sample_slots 1 [(0, Passed), (0, Passed), (0, Passed), (0, Passed)] (sched_init sample_slots)"

lemma sample_run_executes: "sc_phase sample_run 0 = Executing"
proof -
  have i: "sc_phase (sched_init sample_slots) 0 = Waiting" "sc_flag (sched_init sample_slots) g = False"
    "sc_inflight (sched_init sample_slots) = 0" for g
    by (simp_all add: sched_init_def sample_slots_def)
  show ?thesis by (simp add: sample_run_def task_step_def Let_def i sample_deps)
qed

theorem sched_exclusion_witness:
  "sc_phase sample_run 0 = Executing \<and> card {k. k < length sample_slots \<and> sc_phase sample_run k = Executing} \<le> 1"
proof -
  have "of_tasks sample_slots [(0, Passed), (0, Passed), (0, Passed), (0, Passed)]"
    by (simp add: of_tasks_def sample_slots_def)
  from sched_exclusion [OF sched_reach_run [OF sched_reach.start this, of 1], folded sample_run_def] sample_run_executes
  show ?thesis by blast
qed

text \<open>Two checks that wait for each other: none of their tasks ever takes a step.\<close>

lemma cycle_deadlocks:
  assumes "sched_reach [Ready (ready_of ''a'' (Some ''b'')), Ready (ready_of ''b'' (Some ''a''))] m s"
  shows "s = sched_init [Ready (ready_of ''a'' (Some ''b'')), Ready (ready_of ''b'' (Some ''a''))]"
  using assms
proof (induction rule: sched_reach.induct)
  case (step s k result)
  let ?slots = "[Ready (ready_of ''a'' (Some ''b'')), Ready (ready_of ''b'' (Some ''a''))]"
  have "slot_dep ?slots 0 = Some 1" "slot_dep ?slots 1 = Some 0"
    by (simp_all add: slot_dep_def ready_of_def resolve_dep_def by_id_def slot_id_def)
  moreover from step(2) have "k = 0 \<or> k = 1" by auto
  ultimately have "task_step ?slots m k result (sched_init ?slots) = sched_init ?slots"
    by (elim disjE) (simp_all add: task_step_def sched_init_def st_codes)
  then show ?case by (simp add: step(3))
qed simp

end
