(* ===== verification/HlDiff.thy ===== *)
theory HlDiff
  imports HlReport
begin

text \<open>
  The lines a merge request changes (\<open>health/src/diff.rs\<close>): reading the output of
  \<open>git diff -U0\<close>, keeping sets of lines as normalised ranges, and restricting coverage and
  diagnostics to them.
\<close>

section \<open>Ranges of lines\<close>

definition push_range :: "line_range list \<Rightarrow> line_range \<Rightarrow> line_range list" where
  "push_range out r =
     (if out \<noteq> [] \<and> lr_start r \<le> sat_add U32_MAX (lr_end (last out)) 1
      then (if lr_end r > lr_end (last out) then butlast out @ [(last out)\<lparr>lr_end := lr_end r\<rparr>] else out)
      else out @ [r])"

definition normalize_ranges :: "line_range list \<Rightarrow> line_range list" where
  "normalize_ranges rs = foldl push_range [] (sort_key (\<lambda>r. (lr_start r, lr_end r)) rs)"

definition count_lines :: "line_range list \<Rightarrow> nat" where
  "count_lines rs = foldl (sat_add U32_MAX) 0 (map (\<lambda>r. sat_add U32_MAX (lr_end r - lr_start r) 1) rs)"

definition intersect :: "line_range list \<Rightarrow> line_range list \<Rightarrow> line_range list" where
  "intersect a b = normalize_ranges (concat (map (\<lambda>left. concat (map (\<lambda>right.
     (let s = max (lr_start left) (lr_start right); e = min (lr_end left) (lr_end right)
      in if s \<le> e then [\<lparr>lr_start = s, lr_end = e\<rparr>] else [])) b)) a))"

text \<open>The lines a list of ranges stands for, and the normal form.\<close>

definition lines_of :: "line_range list \<Rightarrow> nat set" where
  "lines_of rs = (\<Union>r \<in> set rs. {lr_start r..lr_end r})"

definition ranges_wf :: "line_range list \<Rightarrow> bool" where
  "ranges_wf rs \<longleftrightarrow> (\<forall>r \<in> set rs. lr_start r \<le> lr_end r \<and> lr_end r \<le> U32_MAX)"

definition ranges_ok :: "line_range list \<Rightarrow> bool" where
  "ranges_ok rs \<longleftrightarrow> ranges_wf rs \<and> successively (\<lambda>a b. lr_end a + 1 < lr_start b) rs"

lemma lines_of_simps [simp]:
  "lines_of [] = {}"
  "lines_of (r # rs) = {lr_start r..lr_end r} \<union> lines_of rs"
  "lines_of (xs @ ys) = lines_of xs \<union> lines_of ys"
  by (auto simp: lines_of_def)

lemma ranges_wf_simps [simp]:
  "ranges_wf []"
  "ranges_wf (r # rs) \<longleftrightarrow> lr_start r \<le> lr_end r \<and> lr_end r \<le> U32_MAX \<and> ranges_wf rs"
  "ranges_wf (xs @ ys) \<longleftrightarrow> ranges_wf xs \<and> ranges_wf ys"
  by (auto simp: ranges_wf_def)

lemma ranges_ok_Nil [simp]: "ranges_ok []"
  by (simp add: ranges_ok_def)

lemma ranges_ok_snoc:
  "ranges_ok (xs @ [r]) \<longleftrightarrow> ranges_ok xs \<and> lr_start r \<le> lr_end r \<and> lr_end r \<le> U32_MAX
     \<and> (xs \<noteq> [] \<longrightarrow> lr_end (last xs) + 1 < lr_start r)"
  by (auto simp: ranges_ok_def successively_append_iff)

lemma push_range_ok:
  assumes "ranges_ok out" and "lr_start r \<le> lr_end r" "lr_end r \<le> U32_MAX"
    and "out \<noteq> [] \<Longrightarrow> lr_start (last out) \<le> lr_start r"
  shows "ranges_ok (push_range out r) \<and> lines_of (push_range out r) = lines_of out \<union> {lr_start r..lr_end r} \<and>
    push_range out r \<noteq> [] \<and> lr_start (last (push_range out r)) \<le> lr_start r"
proof (cases out rule: rev_cases)
  case Nil
  with assms show ?thesis by (simp add: push_range_def ranges_ok_def)
next
  case (snoc xs l)
  from assms(1) have l: "ranges_ok xs" "lr_start l \<le> lr_end l" "lr_end l \<le> U32_MAX"
    "xs \<noteq> [] \<longrightarrow> lr_end (last xs) + 1 < lr_start l"
    by (auto simp: snoc ranges_ok_snoc)
  have le: "lr_start l \<le> lr_start r" using assms(4) by (simp add: snoc)
  show ?thesis
  proof (cases "lr_start r \<le> sat_add U32_MAX (lr_end l) 1")
    case True
    then have "lr_start r \<le> lr_end l + 1" by (simp add: sat_add_def)
    then have "{lr_start l..lr_end l} \<union> {lr_start r..lr_end r} = {lr_start l..max (lr_end l) (lr_end r)}"
      using l(2) le assms(2) by auto
    with True l le assms show ?thesis
      by (cases "lr_end l < lr_end r") (auto simp: push_range_def snoc ranges_ok_snoc max_def)
  next
    case False
    then have "lr_end l + 1 < lr_start r" using assms(2,3) by (auto simp: sat_add_def min_def split: if_splits)
    with False assms show ?thesis
      using ranges_ok_snoc [of "xs @ [l]" r] by (auto simp: push_range_def snoc)
  qed
qed

lemma foldl_push_range:
  assumes "ranges_ok out" "ranges_wf rs" "sorted (map lr_start rs)"
    and "out \<noteq> [] \<longrightarrow> (\<forall>r \<in> set rs. lr_start (last out) \<le> lr_start r)"
  shows "ranges_ok (foldl push_range out rs) \<and> lines_of (foldl push_range out rs) = lines_of out \<union> lines_of rs"
  using assms
proof (induction rs arbitrary: out)
  case (Cons r rs)
  have p: "ranges_ok (push_range out r) \<and> lines_of (push_range out r) = lines_of out \<union> {lr_start r..lr_end r} \<and>
    push_range out r \<noteq> [] \<and> lr_start (last (push_range out r)) \<le> lr_start r"
    using Cons.prems by (intro push_range_ok) auto
  have "ranges_ok (foldl push_range (push_range out r) rs) \<and>
      lines_of (foldl push_range (push_range out r) rs) = lines_of (push_range out r) \<union> lines_of rs"
    using p Cons.prems by (intro Cons.IH) (auto intro: order_trans)
  with p show ?case by auto
qed simp

lemma sorted_starts: "sorted (map lr_start (sort_key (\<lambda>r. (lr_start r, lr_end r)) rs))"
proof -
  have "sorted_wrt (\<lambda>a b. (lr_start a, lr_end a) \<le> (lr_start b, lr_end b)) (sort_key (\<lambda>r. (lr_start r, lr_end r)) rs)"
    using sorted_sort_key [of "\<lambda>r. (lr_start r, lr_end r)" rs] by (simp add: sorted_map)
  then have "sorted_wrt (\<lambda>a b. lr_start a \<le> lr_start b) (sort_key (\<lambda>r. (lr_start r, lr_end r)) rs)"
    by (rule sorted_wrt_mono_rel [rotated]) auto
  then show ?thesis by (simp add: sorted_map)
qed

lemma normalize_ranges_spec:
  assumes "ranges_wf rs"
  shows "ranges_ok (normalize_ranges rs)" and "lines_of (normalize_ranges rs) = lines_of rs"
proof -
  let ?s = "sort_key (\<lambda>r. (lr_start r, lr_end r)) rs"
  have "ranges_wf ?s" "lines_of ?s = lines_of rs" using assms by (simp_all add: ranges_wf_def lines_of_def)
  with foldl_push_range [of "[]" ?s] sorted_starts [of rs]
  show "ranges_ok (normalize_ranges rs)" and "lines_of (normalize_ranges rs) = lines_of rs"
    by (simp_all add: normalize_ranges_def)
qed

text \<open>The normal form is determined by the lines it stands for.\<close>

lemma ranges_ok_Cons:
  "ranges_ok (r # rs) \<longleftrightarrow> lr_start r \<le> lr_end r \<and> lr_end r \<le> U32_MAX \<and> ranges_ok rs
     \<and> (rs \<noteq> [] \<longrightarrow> lr_end r + 1 < lr_start (hd rs))"
  by (auto simp: ranges_ok_def successively_Cons)

lemma ranges_ok_above:
  "ranges_ok (r # rs) \<Longrightarrow> n \<in> lines_of rs \<Longrightarrow> lr_end r + 1 < n"
proof (induction rs arbitrary: r)
  case (Cons q rs)
  then have "lr_end r + 1 < lr_start q" "lr_start q \<le> lr_end q" "ranges_ok (q # rs)"
    by (auto simp: ranges_ok_Cons)
  with Cons.IH [of q] Cons.prems(2) show ?case by fastforce
qed simp

lemma ranges_ok_ext:
  "ranges_ok rs \<Longrightarrow> ranges_ok qs \<Longrightarrow> lines_of rs = lines_of qs \<Longrightarrow> rs = qs"
proof (induction rs arbitrary: qs)
  case Nil
  then show ?case by (cases qs) (auto simp: ranges_ok_Cons)
next
  case (Cons r rs)
  then obtain q qs' where qs: "qs = q # qs'" by (cases qs) (auto simp: ranges_ok_Cons)
  note r = Cons.prems(1) and q = Cons.prems(2) [unfolded qs]
  have same: "n \<in> lines_of (r # rs) \<longleftrightarrow> n \<in> lines_of (q # qs')" for n using Cons.prems(3) qs by simp
  have bounds: "lr_start r \<le> lr_end r" "lr_start q \<le> lr_end q" using r q by (auto simp: ranges_ok_Cons)
  have above: "n \<in> lines_of rs \<Longrightarrow> lr_end r + 1 < n" "n \<in> lines_of qs' \<Longrightarrow> lr_end q + 1 < n" for n
    using ranges_ok_above [OF r] ranges_ok_above [OF q] by auto
  have s: "lr_start r = lr_start q"
    using same [of "lr_start r"] same [of "lr_start q"] bounds above by fastforce
  have e: "lr_end r = lr_end q"
  proof (rule ccontr)
    assume "lr_end r \<noteq> lr_end q"
    then consider "lr_end r < lr_end q" | "lr_end q < lr_end r" by linarith
    then show False
    proof cases
      case 1
      then have "lr_end r + 1 \<in> lines_of (q # qs')" using s bounds by auto
      then show False using same [of "lr_end r + 1"] above(1) [of "lr_end r + 1"] by auto
    next
      case 2
      then have "lr_end q + 1 \<in> lines_of (r # rs)" using s bounds by auto
      then show False using same [of "lr_end q + 1"] above(2) [of "lr_end q + 1"] by auto
    qed
  qed
  have "n \<in> lines_of rs \<longleftrightarrow> n \<in> lines_of qs'" for n
    using same [of n] above [of n] s e by auto
  then have "rs = qs'" using Cons.IH r q by (auto simp: ranges_ok_Cons)
  with s e qs show ?case by simp
qed

lemma normalize_ranges_id: "ranges_ok rs \<Longrightarrow> normalize_ranges rs = rs"
  using normalize_ranges_spec [of rs] ranges_ok_ext by (auto simp: ranges_ok_def)

lemma finite_lines_of [simp]: "finite (lines_of rs)"
  by (simp add: lines_of_def)

lemma foldl_sat_add: "foldl (sat_add U32_MAX) a xs = (if xs = [] then a else min U32_MAX (a + sum_list xs))"
  by (induction xs arbitrary: a) (auto simp: sat_add_def min_def)

lemma count_lines_card:
  assumes "ranges_ok rs"
  shows "count_lines rs = min U32_MAX (card (lines_of rs))"
proof -
  have "min U32_MAX (sum_list (map (\<lambda>r. sat_add U32_MAX (lr_end r - lr_start r) 1) rs)) = min U32_MAX (card (lines_of rs))"
    using assms
  proof (induction rs)
    case (Cons r rs)
    have "{lr_start r..lr_end r} \<inter> lines_of rs = {}" using ranges_ok_above [OF Cons.prems] by fastforce
    then have c: "card (lines_of (r # rs)) = Suc (lr_end r) - lr_start r + card (lines_of rs)"
      by (simp add: card_Un_disjoint)
    have "lr_start r \<le> lr_end r" "ranges_ok rs" using Cons.prems by (auto simp: ranges_ok_Cons)
    moreover have "min u (sat_add u x 1 + s) = min u (x + 1 + t)" if "min u s = min u t" for u x s t :: nat
      using that by (auto simp: sat_add_def min_def split: if_splits)
    ultimately show ?case using Cons.IH unfolding c by (simp add: Suc_diff_le)
  qed simp
  then show ?thesis by (cases "rs = []") (simp_all add: count_lines_def foldl_sat_add)
qed

lemma intersect_spec:
  assumes "ranges_wf a" "ranges_wf b"
  shows "ranges_ok (intersect a b)" and "lines_of (intersect a b) = lines_of a \<inter> lines_of b"
proof -
  let ?rs = "concat (map (\<lambda>left. concat (map (\<lambda>right.
     (let s = max (lr_start left) (lr_start right); e = min (lr_end left) (lr_end right)
      in if s \<le> e then [\<lparr>lr_start = s, lr_end = e\<rparr>] else [])) b)) a)"
  have wf: "ranges_wf ?rs" using assms by (auto simp: ranges_wf_def Let_def split: if_splits)
  have l: "lines_of ?rs = lines_of a \<inter> lines_of b"
    by (force simp: lines_of_def Let_def split: if_splits)
  show "ranges_ok (intersect a b)" and "lines_of (intersect a b) = lines_of a \<inter> lines_of b"
    using normalize_ranges_spec [OF wf] l unfolding intersect_def by auto
qed

section \<open>Reading a diff\<close>

type_synonym changed_lines = "(string \<times> line_range list) list"

text \<open>\<open>a\<close> or \<open>a,b\<close>; the empty text reads as zero lines.\<close>

definition parse_range :: "string \<Rightarrow> (nat \<times> nat option) option" where
  "parse_range t =
     (if t = [] then Some (0, Some 0)
      else let (st, cnt) = (case split_once CHR '','' t of Some (s, c) \<Rightarrow> (s, Some c) | None \<Rightarrow> (t, None))
        in Option.bind (parse_uint U32_MAX st) (\<lambda>start.
             case cnt of None \<Rightarrow> Some (start, None)
             | Some c \<Rightarrow> map_option (\<lambda>n. (start, Some n)) (parse_uint U32_MAX c)))"

definition malformed :: "string \<Rightarrow> health_error" where
  "malformed reason = InvalidDiff (''malformed hunk header: '' @ reason)"

text \<open>The end of the range saturates: \<open>start.saturating_add(count).saturating_sub(1)\<close>.\<close>

definition parse_hunk_new_side :: "string \<Rightarrow> health_error + line_range option" where
  "parse_hunk_new_side header =
     (case split_whitespace header of
        [] \<Rightarrow> Inl (malformed ''missing old range'')
      | [_] \<Rightarrow> Inl (malformed ''missing new range'')
      | old # new # others \<Rightarrow>
          (if \<not> (case others of [] \<Rightarrow> False | t # _ \<Rightarrow> prefix ''@@'' t) then Inl (malformed ''missing closing @@'')
           else case strip_prefix ''-'' old of
             None \<Rightarrow> Inl (malformed ''old range must start with -'')
           | Some old_start \<Rightarrow>
              (case parse_range old_start of
                 None \<Rightarrow> Inl (malformed ''old range is not numeric'')
               | Some _ \<Rightarrow>
                  (case strip_prefix ''+'' new of
                     None \<Rightarrow> Inl (malformed ''new range must start with +'')
                   | Some new_start \<Rightarrow>
                      (case parse_range new_start of
                         None \<Rightarrow> Inl (malformed ''new range is not numeric'')
                       | Some (start, count) \<Rightarrow>
                          (let n = (case count of None \<Rightarrow> 1 | Some n \<Rightarrow> n)
                           in if n = 0 then Inr None
                              else if start = 0 then Inl (malformed ''new range starts at 0 with added lines'')
                              else Inr (Some \<lparr>lr_start = start, lr_end = sat_add U32_MAX start n - 1\<rparr>)))))))"

text \<open>
  The state of the loop: the current target file (none seen yet, a deleted file, or a path)
  and the ranges collected so far. \<open>entry(path).or_default()\<close> is \<open>collect\<close>.
\<close>

type_synonym diff_state = "string option option \<times> changed_lines"

definition collect :: "string \<Rightarrow> line_range list \<Rightarrow> changed_lines \<Rightarrow> changed_lines" where
  "collect path rs m = bt_insert path ((case map_of m path of None \<Rightarrow> [] | Some old \<Rightarrow> old) @ rs) m"

definition diff_target :: "string \<Rightarrow> health_error + string option" where
  "diff_target target =
     (if target = ''/dev/null'' then Inr None
      else if prefix [CHR 0x22] target then Inl (InvalidDiff (''quoted file name in diff: '' @ target))
      else case strip_prefix ''b/'' target of
          Some path \<Rightarrow> Inr (Some path)
        | None \<Rightarrow> Inl (InvalidDiff (''unexpected +++ target: '' @ target)))"

definition diff_line :: "string \<Rightarrow> diff_state \<Rightarrow> health_error + diff_state" where
  "diff_line line st =
     (case strip_prefix ''+++ '' line of
        Some rest \<Rightarrow>
          (case diff_target (case strip_suffix [cr] rest of Some t \<Rightarrow> t | None \<Rightarrow> rest) of
             Inl e \<Rightarrow> Inl e
           | Inr None \<Rightarrow> Inr (Some None, snd st)
           | Inr (Some path) \<Rightarrow> Inr (Some (Some path), collect path [] (snd st)))
      | None \<Rightarrow>
          (case strip_prefix ''@@ '' line of
             None \<Rightarrow> Inr st
           | Some header \<Rightarrow>
              (case fst st of
                 None \<Rightarrow> Inl (InvalidDiff ''hunk before any +++ file header'')
               | Some None \<Rightarrow> Inr st
               | Some (Some path) \<Rightarrow>
                  (case parse_hunk_new_side header of
                     Inl e \<Rightarrow> Inl e
                   | Inr None \<Rightarrow> Inr st
                   | Inr (Some r) \<Rightarrow> Inr (fst st, collect path [r] (snd st))))))"

fun diff_lines :: "string list \<Rightarrow> diff_state \<Rightarrow> health_error + diff_state" where
  "diff_lines [] st = Inr st"
| "diff_lines (l # ls) st = (case diff_line l st of Inl e \<Rightarrow> Inl e | Inr st' \<Rightarrow> diff_lines ls st')"

definition settle :: "changed_lines \<Rightarrow> changed_lines" where
  "settle collected = foldl (\<lambda>m (path, rs).
     let n = normalize_ranges rs in if n = [] then m else bt_insert path n m) [] collected"

definition parse_changed_lines :: "string \<Rightarrow> health_error + changed_lines" where
  "parse_changed_lines diff = map_sum id (settle \<circ> snd) (diff_lines (str_lines diff) (None, []))"

section \<open>Restricting a report to the changed lines\<close>

definition span_end :: "file_coverage \<Rightarrow> nat" where
  "span_end f = max (foldl max 0 (map lr_end (fc_uncovered f))) (fc_lines_found f)"

definition clipped :: "file_coverage \<Rightarrow> line_range list \<Rightarrow> line_range list" where
  "clipped f ranges = normalize_ranges (List.map_filter (\<lambda>r.
     let e = min (lr_end r) (span_end f)
     in if e < lr_start r then None else Some \<lparr>lr_start = lr_start r, lr_end = e\<rparr>) ranges)"

definition restrict_file :: "file_coverage \<Rightarrow> line_range list \<Rightarrow> file_coverage option" where
  "restrict_file f ranges =
     (let c = clipped f ranges
      in if c = [] then None
         else let modified = count_lines c; uncovered = intersect (fc_uncovered f) c
           in Some \<lparr>fc_path = fc_path f, fc_lines_found = modified,
                    fc_lines_hit = modified - count_lines uncovered, fc_uncovered = uncovered\<rparr>)"

definition restrict_coverage :: "coverage_report \<Rightarrow> changed_lines \<Rightarrow> coverage_report" where
  "restrict_coverage report changed = List.map_filter (\<lambda>f.
     Option.bind (map_of changed (fc_path f)) (restrict_file f)) report"

definition restrict_issues :: "issue list \<Rightarrow> changed_lines \<Rightarrow> issue list" where
  "restrict_issues issues changed = filter (\<lambda>i.
     case map_of changed (is_path i) of None \<Rightarrow> False
     | Some ranges \<Rightarrow> \<exists>r \<in> set ranges. lr_start r \<le> is_line i \<and> is_line i \<le> lr_end r) issues"

end
