(* ===== verification/HlLcov.thy ===== *)
theory HlLcov
  imports HlDiff
begin

text \<open>
  Reading line coverage in the \<open>lcov\<close> format (\<open>health/src/lcov.rs\<close>): the hit counters of
  every file, added up over its records, and the report computed from them.
\<close>

section \<open>The parser\<close>

type_synonym lcov_files = "(string \<times> (nat \<times> nat) list) list"

text \<open>The open record (none, one outside the repository, or a path) and the counters.\<close>

type_synonym lcov_state = "string option option \<times> lcov_files"

definition lcov_relativize :: "string \<Rightarrow> string \<Rightarrow> string \<Rightarrow> string option" where
  "lcov_relativize raw root pre =
     (if raw = [] then None
      else Option.bind (if prefix ''/'' raw then strip_root root raw
                        else if pre = [] then Some raw else Some (pre @ ''/'' @ raw)) normalize_path)"

text \<open>\<open>*slot = slot.saturating_add(hits)\<close> in the nested maps.\<close>

definition add_hits :: "string \<Rightarrow> nat \<Rightarrow> nat \<Rightarrow> lcov_files \<Rightarrow> lcov_files" where
  "add_hits path number hits files =
     (let lines = (case map_of files path of None \<Rightarrow> [] | Some l \<Rightarrow> l);
          old = (case map_of lines number of None \<Rightarrow> 0 | Some h \<Rightarrow> h)
      in bt_insert path (bt_insert number (sat_add U64_MAX old hits) lines) files)"

definition da_field :: "string list \<Rightarrow> nat \<Rightarrow> string option" where
  "da_field fs i = (if i < length fs \<and> str_trim (fs ! i) \<noteq> [] then Some (fs ! i) else None)"

definition da_line :: "nat \<Rightarrow> string \<Rightarrow> lcov_state \<Rightarrow> health_error + lcov_state" where
  "da_line n rest st =
     (case fst st of
        None \<Rightarrow> Inl (InvalidLcov n ''DA before any SF'')
      | Some current \<Rightarrow>
          (let fs = split_on CHR '','' rest in
           case da_field fs 0 of None \<Rightarrow> Inl (InvalidLcov n ''DA: missing line number'')
           | Some number_field \<Rightarrow>
             (case da_field fs 1 of None \<Rightarrow> Inl (InvalidLcov n ''DA: missing hit count'')
              | Some hits_field \<Rightarrow>
                (case parse_uint U32_MAX (str_trim number_field) of
                   None \<Rightarrow> Inl (InvalidLcov n ''DA: line number is not a number'')
                 | Some number \<Rightarrow>
                    (if number = 0 then Inl (InvalidLcov n ''DA: line number 0'')
                     else case parse_uint U64_MAX (str_trim hits_field) of
                       None \<Rightarrow> Inl (InvalidLcov n ''DA: hit count is not a number'')
                     | Some hits \<Rightarrow>
                        (case current of None \<Rightarrow> Inr st
                         | Some path \<Rightarrow> Inr (fst st, add_hits path number hits (snd st))))))))"

definition lcov_line :: "string \<Rightarrow> string \<Rightarrow> nat \<Rightarrow> string \<Rightarrow> lcov_state \<Rightarrow> health_error + lcov_state" where
  "lcov_line root pre n raw st =
     (let line = str_trim raw in
      if line = ''end_of_record'' then Inr (None, snd st)
      else case strip_prefix ''SF:'' line of
        Some raw_path \<Rightarrow>
          (if fst st \<noteq> None then Inl (InvalidLcov n ''duplicate SF: without end_of_record'')
           else Inr (Some (lcov_relativize (str_trim raw_path) root pre), snd st))
      | None \<Rightarrow> (case strip_prefix ''DA:'' line of None \<Rightarrow> Inr st | Some rest \<Rightarrow> da_line n rest st))"

fun lcov_lines :: "string \<Rightarrow> string \<Rightarrow> nat \<Rightarrow> string list \<Rightarrow> lcov_state \<Rightarrow> health_error + lcov_state" where
  "lcov_lines root pre n [] st = Inr st"
| "lcov_lines root pre n (l # ls) st =
     (case lcov_line root pre n l st of Inl e \<Rightarrow> Inl e | Inr st' \<Rightarrow> lcov_lines root pre (n + 1) ls st')"

definition push_uncovered :: "line_range list \<Rightarrow> nat \<times> nat \<Rightarrow> line_range list" where
  "push_uncovered out e =
     (if snd e \<noteq> 0 then out
      else if out \<noteq> [] \<and> lr_end (last out) < U32_MAX \<and> lr_end (last out) + 1 = fst e
        then butlast out @ [(last out)\<lparr>lr_end := fst e\<rparr>]
        else out @ [\<lparr>lr_start = fst e, lr_end = fst e\<rparr>])"

definition lcov_file :: "string \<Rightarrow> (nat \<times> nat) list \<Rightarrow> file_coverage" where
  "lcov_file path lines =
     \<lparr>fc_path = path, fc_lines_found = min U32_MAX (length lines),
      fc_lines_hit = min U32_MAX (length (filter (\<lambda>e. snd e \<noteq> 0) lines)),
      fc_uncovered = foldl push_uncovered [] lines\<rparr>"

definition parse_lcov :: "string \<Rightarrow> string \<Rightarrow> string \<Rightarrow> health_error + coverage_report" where
  "parse_lcov input root pre =
     (case lcov_lines root pre 1 (str_lines input) (None, []) of
        Inl e \<Rightarrow> Inl e
      | Inr (open, files) \<Rightarrow>
          (if open \<noteq> None
           then Inl (InvalidLcov (max (length (str_lines input)) 1) ''unterminated lcov record (truncated report)'')
           else Inr (map (\<lambda>(path, lines). lcov_file path lines) files)))"

section \<open>The counters\<close>

definition hits_at :: "lcov_files \<Rightarrow> string \<Rightarrow> nat \<Rightarrow> nat option" where
  "hits_at files p n = Option.bind (map_of files p) (\<lambda>lines. map_of lines n)"

text \<open>Files sorted by path, lines by number; numbers start at 1 and fit their type.\<close>

definition lines_ok :: "(nat \<times> nat) list \<Rightarrow> bool" where
  "lines_ok lines \<longleftrightarrow> bt_ok lines \<and> (\<forall>(n, h) \<in> set lines. 1 \<le> n \<and> n \<le> U32_MAX \<and> h \<le> U64_MAX)"

definition lcov_ok :: "lcov_files \<Rightarrow> bool" where
  "lcov_ok files \<longleftrightarrow> bt_ok files \<and> (\<forall>(p, lines) \<in> set files. inside_path p \<and> lines \<noteq> [] \<and> lines_ok lines)"

lemma hits_at_add:
  "hits_at (add_hits p n h files) q m =
     (if q = p \<and> m = n then Some (sat_add U64_MAX (case hits_at files p n of None \<Rightarrow> 0 | Some old \<Rightarrow> old) h)
      else hits_at files q m)"
  by (auto simp: hits_at_def add_hits_def Let_def split: option.splits)

lemma bt_insert_nonempty [simp]: "bt_insert k v m \<noteq> []"
  by (cases m) auto

lemma lcov_ok_add:
  assumes "lcov_ok files" "inside_path p" "1 \<le> n" "n \<le> U32_MAX" "h \<le> U64_MAX"
  shows "lcov_ok (add_hits p n h files)"
proof -
  define lines where "lines = (case map_of files p of None \<Rightarrow> [] | Some l \<Rightarrow> l)"
  define v where "v = sat_add U64_MAX (case map_of lines n of None \<Rightarrow> 0 | Some h \<Rightarrow> h) h"
  have add: "add_hits p n h files = bt_insert p (bt_insert n v lines) files"
    by (simp add: add_hits_def lines_def v_def Let_def)
  have "lines_ok lines"
  proof (cases "map_of files p")
    case None
    then show ?thesis by (simp add: lines_def lines_ok_def)
  next
    case (Some l)
    from map_of_SomeD [OF this] assms(1) show ?thesis by (auto simp: lines_def lcov_ok_def Some)
  qed
  then have "lines_ok (bt_insert n v lines)"
    using set_bt_insert [of n v lines] assms(3,4) by (auto simp: lines_ok_def v_def)
  then have "\<forall>(q, l) \<in> insert (p, bt_insert n v lines) (set files). inside_path q \<and> l \<noteq> [] \<and> lines_ok l"
    using assms(1,2) by (auto simp: lcov_ok_def)
  then have "\<forall>(q, l) \<in> set (add_hits p n h files). inside_path q \<and> l \<noteq> [] \<and> lines_ok l"
    unfolding add by (rule ballI [OF bspec [OF _ subsetD [OF set_bt_insert]]])
  moreover have "bt_ok (add_hits p n h files)" using assms(1) by (simp add: add lcov_ok_def)
  ultimately show ?thesis by (simp add: lcov_ok_def)
qed

definition open_ok :: "string option option \<Rightarrow> bool" where
  "open_ok op \<longleftrightarrow> (case op of Some (Some p) \<Rightarrow> inside_path p | _ \<Rightarrow> True)"

lemma lcov_relativize_inside: "lcov_relativize raw root pre = Some p \<Longrightarrow> inside_path p"
  by (auto simp: lcov_relativize_def bind_Some_iff split: if_splits dest: normalize_path_inside)

lemma lcov_line_ok:
  assumes "lcov_line root pre n l st = Inr st'" "open_ok (fst st)" "lcov_ok (snd st)"
  shows "open_ok (fst st') \<and> lcov_ok (snd st')"
  using assms lcov_relativize_inside
  by (auto simp: lcov_line_def da_line_def open_ok_def Let_def split: if_splits option.splits
      intro!: lcov_ok_add dest: parse_uint_le)

lemma lcov_lines_ok:
  "lcov_lines root pre n ls st = Inr st' \<Longrightarrow> open_ok (fst st) \<Longrightarrow> lcov_ok (snd st) \<Longrightarrow> lcov_ok (snd st')"
proof (induction root pre n ls st rule: lcov_lines.induct)
  case (2 root pre n l ls st)
  then show ?case using lcov_line_ok [of root pre n l st] by (auto split: sum.splits)
qed simp

section \<open>The report\<close>

lemma push_uncovered_fold:
  assumes "bt_ok lines" "\<forall>(n, h) \<in> set lines. n \<le> U32_MAX"
    and "ranges_ok out" "\<forall>m \<in> lines_of out. \<forall>e \<in> set lines. m < fst e"
  shows "ranges_ok (foldl push_uncovered out lines) \<and>
    lines_of (foldl push_uncovered out lines) = lines_of out \<union> {n. (n, 0) \<in> set lines}"
  using assms
proof (induction lines arbitrary: out)
  case (Cons e lines)
  obtain n h where e: "e = (n, h)" by (cases e)
  have p: "ranges_ok (push_uncovered out e) \<and> lines_of (push_uncovered out e) = lines_of out \<union> (if h = 0 then {n} else {})"
  proof (cases out rule: rev_cases)
    case Nil
    then show ?thesis using Cons.prems by (auto simp: push_uncovered_def e ranges_ok_def)
  next
    case (snoc xs l)
    have l: "lr_start l \<le> lr_end l" "lr_end l \<le> U32_MAX" "ranges_ok xs" "xs \<noteq> [] \<longrightarrow> lr_end (last xs) + 1 < lr_start l"
      using Cons.prems(3) by (auto simp: snoc ranges_ok_snoc)
    then have "lr_end l \<in> lines_of out" by (simp add: snoc)
    then have lt: "lr_end l < n" using Cons.prems(4) by (auto simp: e)
    have n: "n \<le> U32_MAX" using Cons.prems(2) by (auto simp: e)
    show ?thesis
    proof (cases "lr_end l + 1 = n")
      case True
      then have "{lr_start l..n} = {lr_start l..lr_end l} \<union> {n}" using l(1) by auto
      with True l n show ?thesis by (auto simp: push_uncovered_def e snoc ranges_ok_snoc)
    next
      case False
      with l lt n Cons.prems(3) show ?thesis
        using ranges_ok_snoc [of "xs @ [l]" "\<lparr>lr_start = n, lr_end = n\<rparr>"]
        by (auto simp: push_uncovered_def e snoc)
    qed
  qed
  have "\<forall>m \<in> lines_of (push_uncovered out e). \<forall>e \<in> set lines. m < fst e"
    using p Cons.prems(1,4) by (auto simp: e split: if_splits)
  with Cons.IH [of "push_uncovered out e"] p Cons.prems
  have "ranges_ok (foldl push_uncovered (push_uncovered out e) lines) \<and>
    lines_of (foldl push_uncovered (push_uncovered out e) lines) = lines_of (push_uncovered out e) \<union> {n. (n, 0) \<in> set lines}"
    by auto
  with p show ?case by (auto simp: e)
qed simp

lemma lcov_file_spec:
  assumes "lines_ok lines"
  shows "ranges_ok (fc_uncovered (lcov_file p lines))"
    "lines_of (fc_uncovered (lcov_file p lines)) = {n. map_of lines n = Some 0}"
    "fc_lines_found (lcov_file p lines) = card (dom (map_of lines))"
    "fc_lines_hit (lcov_file p lines) = card {n. \<exists>h. map_of lines n = Some h \<and> h \<noteq> 0}"
proof -
  have bt: "bt_ok lines" and d: "distinct (map fst lines)" using assms bt_ok_distinct by (auto simp: lines_ok_def)
  have mem: "(n, h) \<in> set lines \<longleftrightarrow> map_of lines n = Some h" for n h using d by simp
  show "ranges_ok (fc_uncovered (lcov_file p lines))"
    "lines_of (fc_uncovered (lcov_file p lines)) = {n. map_of lines n = Some 0}"
    using push_uncovered_fold [OF bt, of "[]"] assms by (auto simp: lcov_file_def lines_ok_def mem)
  have sub: "fst ` set lines \<subseteq> {1..U32_MAX}" using assms by (auto simp: lines_ok_def)
  have len: "length lines = card (fst ` set lines)" using distinct_card [OF d] by simp
  then have le: "length lines \<le> U32_MAX" using card_mono [OF _ sub] by simp
  show "fc_lines_found (lcov_file p lines) = card (dom (map_of lines))"
    using le len by (simp add: lcov_file_def dom_map_of_conv_image_fst)
  have "length (filter (\<lambda>e. snd e \<noteq> 0) lines) \<le> length lines" by simp
  moreover have "length (filter (\<lambda>e. snd e \<noteq> 0) lines) = card (fst ` set (filter (\<lambda>e. snd e \<noteq> 0) lines))"
    using distinct_card [of "map fst (filter (\<lambda>e. snd e \<noteq> 0) lines)"] d by (simp add: distinct_map_filter)
  moreover have "fst ` set (filter (\<lambda>e. snd e \<noteq> 0) lines) = {n. \<exists>h. map_of lines n = Some h \<and> h \<noteq> 0}"
    by (force simp: mem [symmetric])
  ultimately show "fc_lines_hit (lcov_file p lines) = card {n. \<exists>h. map_of lines n = Some h \<and> h \<noteq> 0}"
    using le by (metis (no_types, lifting) file_coverage.select_convs(3) lcov_file_def min.absorb2 order_trans)
qed

definition lcov_counters :: "string \<Rightarrow> string \<Rightarrow> string list \<Rightarrow> lcov_files option" where
  "lcov_counters root pre ls =
     (case lcov_lines root pre 1 ls (None, []) of Inr (None, files) \<Rightarrow> Some files | _ \<Rightarrow> None)"

lemma parse_lcov_counters:
  "parse_lcov input root pre = Inr report \<longleftrightarrow>
     (\<exists>files. lcov_counters root pre (str_lines input) = Some files \<and> report = map (\<lambda>(p, ls). lcov_file p ls) files)"
  by (auto simp: parse_lcov_def lcov_counters_def split: sum.splits option.splits)

lemma lcov_counters_ok: "lcov_counters root pre ls = Some files \<Longrightarrow> lcov_ok files"
  using lcov_lines_ok [of root pre 1 ls "(None, [])"]
  by (auto simp: lcov_counters_def open_ok_def lcov_ok_def split: sum.splits option.splits)

text \<open>
  A report read from an lcov file is consistent. Its files are in increasing order of their
  paths, all of them inside the repository; of every file the uncovered lines are in normal
  form, and the instrumented lines are exactly the lines hit and the uncovered ones together,
  so the totals never depend on the summary records of the file.
\<close>

theorem lcov_report_exact:
  assumes "parse_lcov input root pre = Inr report"
  shows "sorted_wrt (<) (map fc_path report) \<and>
    (\<forall>f \<in> set report. inside_path (fc_path f) \<and> ranges_ok (fc_uncovered f) \<and>
       lines_of (fc_uncovered f) \<subseteq> {1..U32_MAX} \<and> 0 < fc_lines_found f \<and>
       fc_lines_found f = fc_lines_hit f + card (lines_of (fc_uncovered f)))"
proof -
  obtain files where c: "lcov_counters root pre (str_lines input) = Some files"
    and r: "report = map (\<lambda>(p, ls). lcov_file p ls) files"
    using assms parse_lcov_counters by blast
  note ok = lcov_counters_ok [OF c]
  have "map fc_path report = map fst files" by (auto simp: r lcov_file_def)
  then have s: "sorted_wrt (<) (map fc_path report)" using ok by (simp add: lcov_ok_def bt_ok_def)
  have "inside_path (fc_path f) \<and> ranges_ok (fc_uncovered f) \<and> lines_of (fc_uncovered f) \<subseteq> {1..U32_MAX} \<and>
       0 < fc_lines_found f \<and> fc_lines_found f = fc_lines_hit f + card (lines_of (fc_uncovered f))"
    if fr: "f \<in> set report" for f
  proof -
    obtain p lines where f: "f = lcov_file p lines" and m: "(p, lines) \<in> set files" using fr unfolding r by force
    have l: "inside_path p" "lines \<noteq> []" "lines_ok lines" using ok m by (auto simp: lcov_ok_def)
    define hit where "hit = {n. \<exists>h. map_of lines n = Some h \<and> h \<noteq> 0}"
    define miss where "miss = {n. map_of lines n = Some 0}"
    have un: "dom (map_of lines) = hit \<union> miss" and "hit \<inter> miss = {}" by (auto simp: hit_def miss_def)
    moreover have "finite (hit \<union> miss)" using finite_dom_map_of [of lines] by (simp add: un)
    ultimately have d: "card (dom (map_of lines)) = card hit + card miss" by (simp add: card_Un_disjoint)
    have "fst ` set lines \<noteq> {}" using l(2) by simp
    then have "0 < card (dom (map_of lines))" by (simp add: dom_map_of_conv_image_fst card_gt_0_iff)
    moreover have "lines_of (fc_uncovered f) \<subseteq> {1..U32_MAX}"
      using l(3) by (auto simp: f lcov_file_spec lines_ok_def dest!: map_of_SomeD)
    ultimately show ?thesis using l d lcov_file_spec [OF l(3), of p]
      unfolding hit_def miss_def by (simp add: f) (simp add: lcov_file_def)
  qed
  with s show ?thesis by blast
qed

definition sample_lcov :: string where
  "sample_lcov = unlines [''SF:a'', ''DA:3,0'', ''DA:4,7'', ''end_of_record'']"

lemma sample_lcov_report:
  "parse_lcov sample_lcov ''/r'' [] = Inr [\<lparr>fc_path = ''a'', fc_lines_found = 2, fc_lines_hit = 1,
     fc_uncovered = [\<lparr>lr_start = 3, lr_end = 3\<rparr>]\<rparr>]"
proof -
  have l: "str_lines sample_lcov = [''SF:a'', ''DA:3,0'', ''DA:4,7'', ''end_of_record'']"
    by (simp add: sample_lcov_def unlines_def str_lines_def Let_def strip_cr_def)
  have t: "str_trim ''SF:a'' = ''SF:a''" "str_trim ''a'' = ''a''" "str_trim ''DA:3,0'' = ''DA:3,0''" "str_trim ''3'' = ''3''"
    "str_trim ''0'' = ''0''" "str_trim ''DA:4,7'' = ''DA:4,7''" "str_trim ''4'' = ''4''" "str_trim ''7'' = ''7''"
    "str_trim ''end_of_record'' = ''end_of_record''"
    by (rule str_trim_visible; simp add: visible_ascii_def)+
  show ?thesis
    by (simp add: parse_lcov_def l lcov_line_def t lcov_relativize_def normalize_path_def da_line_def da_field_def
        parse_uint_def is_digit_def U32_MAX_def U64_MAX_def add_hits_def sat_add_def lcov_file_def push_uncovered_def)
qed

theorem lcov_report_exact_witness:
  "sorted_wrt (<) [''a''] \<and> inside_path ''a'' \<and> (2 :: nat) = 1 + card (lines_of [\<lparr>lr_start = 3, lr_end = 3\<rparr>])"
  using lcov_report_exact [OF sample_lcov_report] by simp

section \<open>Adding up several reports\<close>

definition hit_sum :: "nat option \<Rightarrow> nat option \<Rightarrow> nat option" where
  "hit_sum a b = (case a of None \<Rightarrow> b | Some x \<Rightarrow> (case b of None \<Rightarrow> a | Some y \<Rightarrow> Some (sat_add U64_MAX x y)))"

definition adds_to :: "lcov_files \<Rightarrow> lcov_files \<Rightarrow> lcov_files \<Rightarrow> bool" where
  "adds_to m0 d m \<longleftrightarrow> (\<forall>p n. hits_at m p n = hit_sum (hits_at m0 p n) (hits_at d p n))"

definition small_hits :: "lcov_files \<Rightarrow> bool" where
  "small_hits m \<longleftrightarrow> (\<forall>p n h. hits_at m p n = Some h \<longrightarrow> h \<le> U64_MAX)"

lemma adds_to_add:
  assumes "adds_to m0 d m" "small_hits m0" "h \<le> U64_MAX"
  shows "adds_to m0 (add_hits p n h d) (add_hits p n h m)"
proof -
  have s: "x \<le> U64_MAX" if "hits_at m0 p n = Some x" for x using assms(2) that by (auto simp: small_hits_def)
  have "hit_sum (hits_at m0 p n) (Some (sat_add U64_MAX (case hits_at d p n of None \<Rightarrow> 0 | Some x \<Rightarrow> x) h)) =
      Some (sat_add U64_MAX (case hit_sum (hits_at m0 p n) (hits_at d p n) of None \<Rightarrow> 0 | Some x \<Rightarrow> x) h)"
    using s assms(3)
    by (cases "hits_at m0 p n"; cases "hits_at d p n") (simp_all add: hit_sum_def sat_add_assoc)
  with assms(1) show ?thesis by (simp add: adds_to_def hits_at_add)
qed

lemma lcov_line_adds:
  assumes "adds_to m0 d m" "small_hits m0" "lcov_line root pre n l (op, d) = Inr (op', d')"
  shows "\<exists>m'. lcov_line root pre k l (op, m) = Inr (op', m') \<and> adds_to m0 d' m'"
  using assms
  by (auto simp: lcov_line_def da_line_def Let_def adds_to_add parse_uint_le split: if_splits option.splits)

lemma lcov_lines_adds:
  assumes "adds_to m0 d m" "small_hits m0" "lcov_lines root pre n ls (op, d) = Inr (op', d')"
  shows "\<exists>m'. lcov_lines root pre k ls (op, m) = Inr (op', m') \<and> adds_to m0 d' m'"
  using assms
proof (induction ls arbitrary: n k op d m)
  case (Cons l ls)
  then obtain op1 d1 where l: "lcov_line root pre n l (op, d) = Inr (op1, d1)"
    and ls: "lcov_lines root pre (n + 1) ls (op1, d1) = Inr (op', d')"
    by (auto split: sum.splits)
  from lcov_line_adds [OF Cons.prems(1,2) l] obtain m1 where
    "lcov_line root pre k l (op, m) = Inr (op1, m1)" "adds_to m0 d1 m1" by blast
  with Cons.IH [OF _ Cons.prems(2) ls, of m1 "k + 1"] show ?case by auto
qed auto

lemma lcov_lines_append:
  "lcov_lines root pre n (xs @ ys) st =
     (case lcov_lines root pre n xs st of Inl e \<Rightarrow> Inl e | Inr st' \<Rightarrow> lcov_lines root pre (n + length xs) ys st')"
  by (induction xs arbitrary: n st) (auto split: sum.splits)

lemma small_hits_ok: "lcov_ok files \<Longrightarrow> small_hits files"
  by (fastforce simp: lcov_ok_def lines_ok_def small_hits_def hits_at_def bind_Some_iff dest!: map_of_SomeD)

lemma lcov_counters_append:
  assumes "lcov_counters root pre xs = Some m1" "lcov_counters root pre ys = Some m2"
  shows "\<exists>m. lcov_counters root pre (xs @ ys) = Some m \<and> adds_to m1 m2 m"
proof -
  have x: "lcov_lines root pre 1 xs (None, []) = Inr (None, m1)" and y: "lcov_lines root pre 1 ys (None, []) = Inr (None, m2)"
    using assms by (auto simp: lcov_counters_def split: sum.splits option.splits)
  have "adds_to m1 [] m1" by (auto simp: adds_to_def hits_at_def hit_sum_def split: option.split)
  from lcov_lines_adds [OF this small_hits_ok [OF lcov_counters_ok [OF assms(1)]] y, of "1 + length xs"] x
  show ?thesis by (auto simp: lcov_counters_def lcov_lines_append)
qed

lemma lcov_counters_empty: "lcov_counters root pre [[]] = Some []"
  by (simp add: lcov_counters_def lcov_line_def Let_def)

end
