(* ===== verification/HlRunner.thy ===== *)
theory HlRunner
  imports HlSchedLive HlLcov HlParsers
begin

text \<open>
  The rest of the runner (\<open>health/src/runner.rs\<close>): glob matching, turning declarations into
  slots, copying a bounded part of a command's output, reading that output, merging coverage
  and assembling the report. What the operating system, git and the commands answer is a
  parameter.
\<close>

section \<open>Bounded text\<close>

definition DEFAULT_TAIL_BYTES :: nat where "DEFAULT_TAIL_BYTES = 4096"
definition DEFAULT_OUTPUT_CAP_BYTES :: nat where "DEFAULT_OUTPUT_CAP_BYTES = 64 * 1024 * 1024"

text \<open>\<open>cap_bytes\<close>: the loop that moves the start to a character boundary.\<close>

fun to_boundary :: "string \<Rightarrow> string" where
  "to_boundary [] = []"
| "to_boundary (c # cs) = (if is_cont c then to_boundary cs else c # cs)"

definition cap_bytes :: "string \<Rightarrow> nat \<Rightarrow> string" where
  "cap_bytes text max_bytes =
     (if length text \<le> max_bytes then text else to_boundary (drop (length text - max_bytes) text))"

text \<open>A file name for an id: one dash for every other character.\<close>

definition sanitize_id :: "string \<Rightarrow> string" where
  "sanitize_id i = concat (map (\<lambda>c. case c of
     [b] \<Rightarrow> (if is_ascii_alnum b \<or> b \<in> {CHR ''-'', CHR ''_'', CHR ''.''} then [b] else ''-'')
   | _ \<Rightarrow> ''-'') (utf8_chars i))"

text \<open>
  \<open>write_capped\<close>: one step per chunk read; the state is what has been written, how much of it
  counts against the cap, and whether the stream was cut.
\<close>

definition cap_marker :: "nat \<Rightarrow> string" where
  "cap_marker cap = [nl] @ ''[TRONQU'' @ map char_of [0xC3, 0x89 :: nat] @ '' '' @ map char_of [0xE2, 0x80, 0x94 :: nat] @
     '' sortie plafonn'' @ map char_of [0xC3, 0xA9 :: nat] @ ''e '' @ map char_of [0xC3, 0xA0 :: nat] @ '' '' @
     show_nat cap @ '' octets]'' @ [nl]"

definition capped_chunk :: "nat \<Rightarrow> string \<times> nat \<times> bool \<Rightarrow> string \<Rightarrow> string \<times> nat \<times> bool" where
  "capped_chunk cap st chunk =
     (case st of (file, written, truncated) \<Rightarrow>
        if truncated then st
        else (let over = written + length chunk - cap;
                  keep = length chunk - over
              in (file @ take keep chunk @ (if over > 0 then cap_marker cap else []), written + keep, over > 0)))"

definition write_capped :: "nat \<Rightarrow> string list \<Rightarrow> string" where
  "write_capped cap chunks = fst (foldl (capped_chunk cap) ([], 0, False) chunks)"

section \<open>Globs\<close>

text \<open>Within a segment; the characters are those of \<open>chars()\<close>.\<close>

function seg_match_chars :: "string list \<Rightarrow> string list \<Rightarrow> bool" where
  "seg_match_chars [] t = (t = [])"
| "seg_match_chars (f # r) t =
     (if f = ''*'' then seg_match_chars r t \<or> (if t = [] then False else seg_match_chars (f # r) (tl t))
      else if t = [] then False
      else if f = ''?'' then seg_match_chars r (tl t)
      else hd t = f \<and> seg_match_chars r (tl t))"
  by pat_completeness auto
termination
  by (relation "measure (\<lambda>(p, t). length p + length t)") auto

definition segment_match :: "string \<Rightarrow> string \<Rightarrow> bool" where
  "segment_match p t = seg_match_chars (utf8_chars p) (utf8_chars t)"

function glob_segments :: "string list \<Rightarrow> string list \<Rightarrow> bool" where
  "glob_segments [] t = (t = [])"
| "glob_segments (f # r) t =
     (if f = ''**'' then glob_segments r t \<or> (if t = [] then False else glob_segments (f # r) (tl t))
      else if t = [] then False
      else segment_match f (hd t) \<and> glob_segments r (tl t))"
  by pat_completeness auto
termination
  by (relation "measure (\<lambda>(p, t). length p + length t)") auto

definition glob_match :: "string \<Rightarrow> string \<Rightarrow> bool" where
  "glob_match pattern text = glob_segments (split_on slash pattern) (split_on slash text)"

section \<open>From declarations to slots\<close>

text \<open>
  What the environment answers: the bytes of a file or an error text, the names of the
  directories in a directory, the output of a git command.
\<close>

record run_env =
  re_read :: "string \<Rightarrow> string + string"
  re_dirs :: "string \<Rightarrow> string list option"
  re_git :: "string list \<Rightarrow> health_error + string"
  re_json :: json_lib

record run_ctx =
  rc_root :: string
  rc_out_dir :: string
  rc_tail :: nat
  rc_nice :: "int option"

definition path_join :: "string \<Rightarrow> string \<Rightarrow> string" where
  "path_join a b = (if prefix ''/'' b then b else if a = [] \<or> last a = slash then a @ b else a @ ''/'' @ b)"

definition plain_result :: "string \<Rightarrow> check_kind \<Rightarrow> check_status \<Rightarrow> string \<Rightarrow> nat \<Rightarrow> check_result" where
  "plain_result i kind st reason tail_bytes =
     \<lparr>cr_id = i, cr_kind = kind, cr_status = st, cr_exit_code = None, cr_duration_ms = 0,
      cr_output_tail = cap_bytes reason tail_bytes\<rparr>"

definition default_group :: "check_decl \<Rightarrow> string" where
  "default_group c = (case ck_argv c of [] \<Rightarrow> [] | a # _ \<Rightarrow> a) @ [CHR 0x01] @ ck_cwd c"

definition ready_single :: "check_decl \<Rightarrow> string \<Rightarrow> string list \<Rightarrow> string \<Rightarrow> ready" where
  "ready_single c i argv pre =
     \<lparr>rdy_id = i, rdy_kind = ck_kind c, rdy_argv = argv, rdy_cwd = ck_cwd c, rdy_prefix = pre, rdy_output = ck_output c,
      rdy_group = (case ck_group c of Some g \<Rightarrow> g | None \<Rightarrow> default_group c), rdy_after = ck_after c\<rparr>"

definition substitute :: "string \<Rightarrow> string \<Rightarrow> string \<Rightarrow> string" where
  "substitute workspace slug s = replace_all ''{workspace}'' workspace (replace_all ''{workspace_slug}'' slug s)"

definition substitute_output :: "output_kind \<Rightarrow> string \<Rightarrow> string \<Rightarrow> output_kind" where
  "substitute_output out workspace slug = (case out of Lcov path \<Rightarrow> Lcov (substitute workspace slug path) | _ \<Rightarrow> out)"

definition join_rel :: "string \<Rightarrow> string \<Rightarrow> string" where
  "join_rel cwd workspace =
     join_with slash (map (trim_by (\<lambda>c. c = slash)) (filter (\<lambda>p. p \<noteq> [] \<and> p \<noteq> ''.'') [cwd, workspace]))"

definition expand_glob_dirs :: "run_env \<Rightarrow> string \<Rightarrow> string \<Rightarrow> string list" where
  "expand_glob_dirs E base pattern =
     filter (\<lambda>p. p \<noteq> []) (foldl (\<lambda>current segment.
       if segment = [] then current
       else concat (map (\<lambda>pre.
         case re_dirs E (if pre = [] then base else path_join base pre) of
           None \<Rightarrow> []
         | Some names \<Rightarrow> map (\<lambda>name. if pre = [] then name else pre @ ''/'' @ name)
             (filter (segment_match segment) (sort names))) current))
       [[]] (split_on slash pattern))"

fun workspace_entries :: "run_env \<Rightarrow> string \<Rightarrow> string json list \<Rightarrow> string list \<Rightarrow> string + string list" where
  "workspace_entries E base [] out = Inr out"
| "workspace_entries E base (e # es) out =
     (case as_str e of
        None \<Rightarrow> Inl (''entr'' @ map char_of [0xC3, 0xA9 :: nat] @ ''e de workspaces non textuelle'')
      | Some pattern \<Rightarrow>
          workspace_entries E base es
            (foldl push_new out
              (if CHR ''*'' \<in> set pattern \<or> CHR ''?'' \<in> set pattern then expand_glob_dirs E base pattern else [pattern])))"

text \<open>The directory of the manifest: \<open>manifest.parent()\<close> is the directory it was joined to.\<close>

definition read_npm_workspaces :: "run_env \<Rightarrow> string \<Rightarrow> string + string list option" where
  "read_npm_workspaces E dir =
     (let manifest = path_join dir ''package.json'' in
      case re_read E manifest of
        Inl err \<Rightarrow> Inl (''package.json illisible ('' @ manifest @ ''): '' @ err)
      | Inr bytes \<Rightarrow>
         (case jl_parse (re_json E) bytes of
            Inl err \<Rightarrow> Inl (''package.json invalide ('' @ manifest @ ''): '' @ err)
          | Inr v \<Rightarrow>
             (case jget ''workspaces'' v of
                None \<Rightarrow> Inr None
              | Some JNull \<Rightarrow> Inr None
              | Some (JArr items) \<Rightarrow> map_sum id Some (workspace_entries E dir items [])
              | Some (JObj ms) \<Rightarrow>
                  (case map_of ms ''packages'' of
                     Some (JArr items) \<Rightarrow> map_sum id Some (workspace_entries E dir items [])
                   | _ \<Rightarrow> Inr None)
              | Some _ \<Rightarrow> Inl ''champ workspaces ni tableau ni {packages}'')))"

definition expand_npm_workspaces :: "run_env \<Rightarrow> run_ctx \<Rightarrow> check_decl \<Rightarrow> slot list" where
  "expand_npm_workspaces E C c =
     (case read_npm_workspaces E (path_join (rc_root C) (ck_cwd c)) of
        Inl reason \<Rightarrow> [Done (plain_result (ck_id c) (ck_kind c) Errored reason (rc_tail C))]
      | Inr None \<Rightarrow>
          [Ready (ready_single c (ck_id c @ '':.'')
             (filter (\<lambda>a. a \<noteq> ''--workspace=.'') (map (substitute ''.'' ''.'') (ck_argv c)))
             (join_rel (ck_cwd c) ''.''))]
      | Inr (Some workspaces) \<Rightarrow>
          map (\<lambda>w. let slug = map (\<lambda>b. if b = slash then CHR ''-'' else b) w in
            Ready ((ready_single c (ck_id c @ '':'' @ w) (map (substitute w slug) (ck_argv c)) (join_rel (ck_cwd c) w))
              \<lparr>rdy_output := substitute_output (ck_output c) w slug\<rparr>)) workspaces)"

definition expand_files :: "run_env \<Rightarrow> run_ctx \<Rightarrow> check_decl \<Rightarrow> string list \<Rightarrow> slot list" where
  "expand_files E C c globs =
     (case re_git E [''ls-files''] of
        Inl err \<Rightarrow> [Done (plain_result (ck_id c) (ck_kind c) Errored (health_error_text err) (rc_tail C))]
      | Inr listing \<Rightarrow>
          (let matched = filter (\<lambda>f. \<exists>g \<in> set globs. glob_match g f) (str_lines listing) in
           if matched = [] then [Done (plain_result (ck_id c) (ck_kind c) Skipped
             (''aucun fichier suivi '' @ map char_of [0xC3, 0xA0 :: nat] @ '' v'' @ map char_of [0xC3, 0xA9 :: nat] @ ''rifier'') (rc_tail C))]
           else [Ready (ready_single c (ck_id c)
             (concat (map (\<lambda>a. if a = ''{files}'' then matched else [a]) (ck_argv c))) (ck_cwd c))]))"

definition expand_one :: "run_env \<Rightarrow> run_ctx \<Rightarrow> check_decl \<Rightarrow> slot list" where
  "expand_one E C c =
     (case validate c of
        Inl err \<Rightarrow> [Done (plain_result (ck_id c) (ck_kind c) Errored (health_error_text err) (rc_tail C))]
      | Inr _ \<Rightarrow>
          (case ck_expand c of
             None \<Rightarrow> [Ready (ready_single c (ck_id c) (ck_argv c) (ck_cwd c))]
           | Some NpmWorkspaces \<Rightarrow> expand_npm_workspaces E C c
           | Some (Files globs) \<Rightarrow> expand_files E C c globs))"

definition expand_all :: "run_env \<Rightarrow> run_ctx \<Rightarrow> check_decl list \<Rightarrow> slot list" where
  "expand_all E C checks = concat (map (expand_one E C) checks)"

section \<open>One check\<close>

text \<open>\<open>vitest_version\<close> and \<open>prepare_argv\<close>.\<close>

definition vitest_version :: "run_env \<Rightarrow> run_ctx \<Rightarrow> string \<Rightarrow> string option" where
  "vitest_version E C pre =
     (let version = (\<lambda>dir. case re_read E (path_join (path_join (path_join dir ''node_modules'') ''vitest'') ''package.json'') of
            Inl _ \<Rightarrow> None
          | Inr bytes \<Rightarrow> (case jl_parse (re_json E) bytes of Inl _ \<Rightarrow> None | Inr v \<Rightarrow> member ''version'' v as_str))
      in case (if pre = [] then None else version (path_join (rc_root C) pre)) of
           Some v \<Rightarrow> Some v
         | None \<Rightarrow> version (rc_root C))"

definition prepare_argv :: "run_env \<Rightarrow> run_ctx \<Rightarrow> ready \<Rightarrow> string + string list" where
  "prepare_argv E C r =
     (let finish = (\<lambda>argv. let argv' = map (replace_all OUT_DIR_TOKEN (rc_out_dir C)) argv in
            (case rc_nice C of Some n \<Rightarrow> [''nice'', ''-n'', show_int n] @ argv' | None \<Rightarrow> argv'))
      in if \<exists>a \<in> set (rdy_argv r). has_infix ''{vitest_version}'' a
         then (case vitest_version E C (rdy_prefix r) of
                 None \<Rightarrow> Inl (''version de vitest introuvable dans node_modules (fournisseur @vitest/coverage-v8 impossible '' @
                     map char_of [0xC3, 0xA0 :: nat] @ '' '' @ map char_of [0xC3, 0xA9 :: nat] @ ''pingler) pour '' @
                     [CHR 0x27] @ rdy_prefix r @ [CHR 0x27])
               | Some v \<Rightarrow> Inr (finish (map (replace_all ''{vitest_version}'' v) (rdy_argv r))))
         else Inr (finish (rdy_argv r)))"

record exec_result =
  ex_status :: check_status
  ex_code :: "int option"
  ex_reason :: "string option"

record slot_outcome =
  so_result :: check_result
  so_issues :: "issue list"
  so_lcov :: "string option"

definition solo :: "check_result \<Rightarrow> slot_outcome" where
  "solo r = \<lparr>so_result = r, so_issues = [], so_lcov = None\<rparr>"

definition absolutize_sf :: "string \<Rightarrow> string \<Rightarrow> string" where
  "absolutize_sf text exec_dir = unlines (map (\<lambda>line.
     case strip_prefix ''SF:'' line of
       None \<Rightarrow> line
     | Some raw0 \<Rightarrow> (let raw = str_trim raw0 in
         if prefix ''/'' raw then line else ''SF:'' @ path_join exec_dir raw)) (str_lines text))"

definition no_coverage :: "check_status \<Rightarrow> string \<Rightarrow> issue list \<times> string option \<times> string option" where
  "no_coverage st reason = ([], None, if st = Passed then Some reason else None)"

text \<open>\<open>interpret_output\<close>: the diagnostics, the lcov text, and a reason to turn the check into an error.\<close>

definition interpret_output ::
  "run_env \<Rightarrow> run_ctx \<Rightarrow> ready \<Rightarrow> string \<Rightarrow> check_status \<Rightarrow> issue list \<times> string option \<times> string option" where
  "interpret_output E C r stdout st =
     (case rdy_output r of
        NoOutput \<Rightarrow> ([], None, None)
      | CargoMessages \<Rightarrow> (parse_cargo_messages (re_json E) (rc_root C) (rdy_id r) stdout, None, None)
      | TscText \<Rightarrow> (parse_tsc_text (rdy_prefix r) (rdy_id r) stdout, None, None)
      | RuffJson \<Rightarrow> (case parse_ruff_json (re_json E) (rc_root C) (rdy_id r) stdout of
            Inl err \<Rightarrow> ([], None, Some (health_error_text err)) | Inr issues \<Rightarrow> (issues, None, None))
      | HadolintJson \<Rightarrow> (case parse_hadolint_json (re_json E) (rc_root C) (rdy_id r) stdout of
            Inl err \<Rightarrow> ([], None, Some (health_error_text err)) | Inr issues \<Rightarrow> (issues, None, None))
      | Lcov path \<Rightarrow>
          (let text = (case re_read E (path_join (rc_out_dir C) path) of Inl _ \<Rightarrow> [] | Inr t \<Rightarrow> t) in
           if str_trim text = [] then no_coverage st
             (''couverture exig'' @ map char_of [0xC3, 0xA9 :: nat] @ ''e non produite (lcov absent ou vide)'')
           else (let absolute = absolutize_sf text (path_join (rc_root C) (rdy_prefix r)) in
             case parse_lcov absolute (rc_root C) [] of
               Inl err \<Rightarrow> ([], None, Some (health_error_text err))
             | Inr files \<Rightarrow>
                 (if files = [] then no_coverage st
                    (''couverture exig'' @ map char_of [0xC3, 0xA9 :: nat] @ ''e vide (aucun fichier du d'' @
                     map char_of [0xC3, 0xA9 :: nat] @ ''p'' @ map char_of [0xC3, 0xB4 :: nat] @ ''t instrument'' @
                     map char_of [0xC3, 0xA9 :: nat] @ '')'')
                  else ([], Some absolute, None)))))"

text \<open>
  \<open>execute\<close> once the command has run: \<open>exec\<close> is how it ended, then what was read back of its
  two output files and the time it took.
\<close>

definition finish_check ::
  "run_env \<Rightarrow> run_ctx \<Rightarrow> ready \<Rightarrow> exec_result \<Rightarrow> string \<Rightarrow> string \<Rightarrow> string \<Rightarrow> nat \<Rightarrow> slot_outcome" where
  "finish_check E C r exec stdout stdout_tail stderr_tail duration =
     (let tail1 = (case ex_reason exec of
            None \<Rightarrow> stderr_tail
          | Some reason \<Rightarrow> if stderr_tail = [] then reason else reason @ [nl] @ stderr_tail);
          tail2 = (if rdy_output r = NoOutput \<and> tail1 = [] then stdout_tail else tail1);
          (issues, lcov_text, escalate) =
            (if ex_status exec = Errored then ([], None, None) else interpret_output E C r stdout (ex_status exec));
          st = (if escalate \<noteq> None then Errored else ex_status exec);
          tail3 = (case escalate of None \<Rightarrow> tail2 | Some reason \<Rightarrow> if tail2 = [] then reason else tail2)
      in \<lparr>so_result = \<lparr>cr_id = rdy_id r, cr_kind = rdy_kind r, cr_status = st, cr_exit_code = ex_code exec,
                       cr_duration_ms = duration, cr_output_tail = cap_bytes tail3 (rc_tail C)\<rparr>,
          so_issues = issues, so_lcov = lcov_text\<rparr>)"

text \<open>
  What the task of a slot returns: the cascade of a prerequisite in error, a command that cannot
  be prepared, or what executing the prepared command gives.
\<close>

definition run_job_outcome ::
  "run_env \<Rightarrow> run_ctx \<Rightarrow> ready \<Rightarrow> nat option \<Rightarrow> (string list \<Rightarrow> slot_outcome) \<Rightarrow> slot_outcome" where
  "run_job_outcome E C r dep_status executed =
     (if dep_status = Some ST_ERRORED
      then solo (plain_result (rdy_id r) (rdy_kind r) Errored
        (''pr'' @ map char_of [0xC3, 0xA9 :: nat] @ ''alable '' @ [CHR 0x27] @ (case rdy_after r of None \<Rightarrow> [] | Some a \<Rightarrow> a) @
         [CHR 0x27] @ '' en erreur : v'' @ map char_of [0xC3, 0xA9 :: nat] @ ''rification non lanc'' @
         map char_of [0xC3, 0xA9 :: nat] @ ''e'') (rc_tail C))
      else case prepare_argv E C r of
          Inl reason \<Rightarrow> solo (plain_result (rdy_id r) (rdy_kind r) Errored reason (rc_tail C))
        | Inr argv \<Rightarrow> executed argv)"

section \<open>The report\<close>

definition validate_base :: "string \<Rightarrow> health_error + unit" where
  "validate_base base =
     (if base = [] \<or> prefix ''-'' base \<or> CHR '' '' \<in> set base \<or> CHR 0x00 \<in> set base \<or> nl \<in> set base
      then Inl (InvalidRef base) else Inr ())"

definition merge_lcov :: "string list \<Rightarrow> string \<Rightarrow> coverage_report option" where
  "merge_lcov texts root =
     (if texts = [] then None
      else case parse_lcov (join_with nl texts) root [] of
          Inl _ \<Rightarrow> None
        | Inr files \<Rightarrow> if files = [] then None else Some files)"

definition compute_new_code ::
  "run_env \<Rightarrow> string \<Rightarrow> coverage_report option \<Rightarrow> issue list \<Rightarrow> string + new_code" where
  "compute_new_code E base coverage issues =
     (case re_git E [''merge-base'', base, ''HEAD''] of
        Inl err \<Rightarrow> Inl (health_error_text err)
      | Inr merge_base \<Rightarrow>
          (case re_git E [''-c'', ''core.quotepath=off'', ''diff'', ''-U0'', ''--no-color'', ''--no-ext-diff'', merge_base, ''--''] of
             Inl err \<Rightarrow> Inl (health_error_text err)
           | Inr diff \<Rightarrow>
              (case parse_changed_lines diff of
                 Inl err \<Rightarrow> Inl (health_error_text err)
               | Inr changed \<Rightarrow> Inr \<lparr>nc_base = base,
                   nc_coverage = (case coverage of None \<Rightarrow> [] | Some report \<Rightarrow> restrict_coverage report changed),
                   nc_issues = restrict_issues issues changed\<rparr>)))"

record run_options =
  ro_base :: "string option"
  ro_unchecked :: "string list"
  ro_preliminary :: "issue list"
  ro_max_parallel :: nat

definition lsp_result :: "issue list \<Rightarrow> check_result list" where
  "lsp_result issues =
     (if issues = [] then []
      else [\<lparr>cr_id = ''lsp'', cr_kind = Lint,
             cr_status = (if \<exists>i \<in> set issues. is_severity i = SevError then Failed else Passed),
             cr_exit_code = None, cr_duration_ms = 0, cr_output_tail = []\<rparr>])"

text \<open>
  \<open>run_checks\<close>; \<open>out_dir\<close> is what creating the output directory answers, \<open>outcomes\<close> what the
  tasks of the slots return, in the order of the slots.
\<close>

definition run_checks ::
  "run_env \<Rightarrow> run_ctx \<Rightarrow> run_options \<Rightarrow> (health_error + unit) \<Rightarrow> (slot list \<Rightarrow> slot_outcome list) \<Rightarrow> check_decl list \<Rightarrow>
     health_error + health_report" where
  "run_checks E C opts out_dir outcomes checks =
     (case (case ro_base opts of None \<Rightarrow> Inr () | Some base \<Rightarrow> validate_base base) of
        Inl err \<Rightarrow> Inl err
      | Inr _ \<Rightarrow>
         (case out_dir of
            Inl err \<Rightarrow> Inl err
          | Inr _ \<Rightarrow>
             (let revision = (case re_git E [''rev-parse'', ''HEAD''] of Inl _ \<Rightarrow> None | Inr h \<Rightarrow> Some h);
                  outs = outcomes (expand_all E C checks);
                  checks_out = lsp_result (ro_preliminary opts) @ map so_result outs;
                  issues = ro_preliminary opts @ concat (map so_issues outs);
                  coverage = merge_lcov (List.map_filter so_lcov outs) (rc_root C);
                  report = \<lparr>hr_revision = revision, hr_checks = checks_out, hr_coverage = coverage, hr_issues = issues,
                            hr_new_code = None, hr_unchecked = ro_unchecked opts\<rparr>
              in Inr (case ro_base opts of
                   None \<Rightarrow> report
                 | Some base \<Rightarrow>
                     (case compute_new_code E base coverage issues of
                        Inr new_code \<Rightarrow> report\<lparr>hr_new_code := Some new_code\<rparr>
                      | Inl reason \<Rightarrow> report\<lparr>hr_checks := checks_out @
                          [\<lparr>cr_id = ''new-code'', cr_kind = NewCode, cr_status = Errored, cr_exit_code = None,
                            cr_duration_ms = 0, cr_output_tail = cap_bytes reason (rc_tail C)\<rparr>]\<rparr>)))))"

end
