(* ===== verification/HlDiffProps.thy ===== *)
theory HlDiffProps
  imports HlDiff
begin

text \<open>
  What the diff reader and the restriction promise: the ranges read from a diff are exactly
  the lines its hunks add, in normal form; a restricted report speaks of changed lines only
  and its counts agree with the lines it lists.
\<close>

section \<open>The text of a diff\<close>

record hunk =
  hk_old_start :: nat
  hk_old_count :: nat
  hk_start :: nat
  hk_count :: nat
  hk_context :: string
  hk_body :: "string list"

record diff_section =
  ds_noise :: "string list"
  ds_target :: "string option"
  ds_hunks :: "hunk list"

definition hunk_header :: "hunk \<Rightarrow> string" where
  "hunk_header h = ''-'' @ show_nat (hk_old_start h) @ '','' @ show_nat (hk_old_count h) @ '' +'' @
     show_nat (hk_start h) @ '','' @ show_nat (hk_count h) @ '' @@'' @ hk_context h"

definition render_hunk :: "hunk \<Rightarrow> string list" where
  "render_hunk h = (''@@ '' @ hunk_header h) # hk_body h"

definition target_line :: "string option \<Rightarrow> string" where
  "target_line target = ''+++ '' @ (case target of None \<Rightarrow> ''/dev/null'' | Some p \<Rightarrow> ''b/'' @ p)"

definition render_section :: "diff_section \<Rightarrow> string list" where
  "render_section s = ds_noise s @
     target_line (ds_target s) #
     concat (map render_hunk (ds_hunks s))"

definition quiet_line :: "string \<Rightarrow> bool" where
  "quiet_line l \<longleftrightarrow> nl \<notin> set l \<and> cr \<notin> set l \<and> \<not> prefix ''+++ '' l \<and> \<not> prefix ''@@ '' l"

definition valid_hunk :: "hunk \<Rightarrow> bool" where
  "valid_hunk h \<longleftrightarrow> hk_old_start h \<le> U32_MAX \<and> hk_old_count h \<le> U32_MAX \<and> hk_start h + hk_count h \<le> U32_MAX
     \<and> (0 < hk_count h \<longrightarrow> 0 < hk_start h) \<and> nl \<notin> set (hk_context h) \<and> cr \<notin> set (hk_context h)
     \<and> (\<forall>l \<in> set (hk_body h). quiet_line l)"

definition valid_section :: "diff_section \<Rightarrow> bool" where
  "valid_section s \<longleftrightarrow> (\<forall>l \<in> set (ds_noise s). quiet_line l) \<and> (\<forall>h \<in> set (ds_hunks s). valid_hunk h)
     \<and> (case ds_target s of None \<Rightarrow> True | Some p \<Rightarrow> nl \<notin> set p \<and> cr \<notin> set p)"

definition hunk_lines :: "hunk \<Rightarrow> nat set" where
  "hunk_lines h = {hk_start h..<hk_start h + hk_count h}"

definition added_lines :: "diff_section list \<Rightarrow> string \<Rightarrow> nat set" where
  "added_lines secs p = (\<Union>s \<in> {s \<in> set secs. ds_target s = Some p}. \<Union>h \<in> set (ds_hunks s). hunk_lines h)"

section \<open>One hunk header\<close>

lemma comma_not_digit: "CHR '','' \<notin> set (show_nat n)"
  using show_nat_digits [of n] by (auto simp: is_digit_def)

lemma parse_range_show:
  assumes "a \<le> U32_MAX" "b \<le> U32_MAX"
  shows "parse_range (show_nat a @ CHR '','' # show_nat b) = Some (a, Some b)"
  using assms split_once_append [OF comma_not_digit, of a "show_nat b"]
  by (simp add: parse_range_def parse_show_nat)

lemma split_header:
  "\<exists>t ts. split_whitespace (hunk_header h) =
     (''-'' @ show_nat (hk_old_start h) @ '','' @ show_nat (hk_old_count h)) #
     (''+'' @ show_nat (hk_start h) @ '','' @ show_nat (hk_count h)) # (''@@'' @ t) # ts"
proof -
  let ?a = "''-'' @ show_nat (hk_old_start h) @ '','' @ show_nat (hk_old_count h)"
  let ?b = "''+'' @ show_nat (hk_start h) @ '','' @ show_nat (hk_count h)"
  have v: "\<forall>c \<in> set ?a. visible_ascii c" "\<forall>c \<in> set ?b. visible_ascii c" "\<forall>c \<in> set ''@@''. visible_ascii c"
    by (auto simp: show_nat_visible) (simp_all add: visible_ascii_def)
  have "split_whitespace (hunk_header h) = split_white white_seqs [] (?a @ CHR 0x20 # (?b @ CHR 0x20 # (''@@'' @ hk_context h)))"
    by (simp add: split_whitespace_def hunk_header_def)
  also have "\<dots> = ?a # ?b # split_white white_seqs ''@@'' (hk_context h)"
    unfolding split_white_word [OF v(1)] split_white_word [OF v(2)] split_white_word [OF v(3)] append_Nil
    by (subst split_white_space, simp, unfold split_white_word [OF v(2)] append_Nil, subst split_white_space, simp)
      (unfold split_white_word [OF v(3)] append_Nil, simp)
  finally show ?thesis using split_white_hd [of "''@@''" white_seqs "hk_context h"] by auto
qed

lemma parse_hunk_header:
  assumes "valid_hunk h"
  shows "parse_hunk_new_side (hunk_header h) =
    Inr (if hk_count h = 0 then None
         else Some \<lparr>lr_start = hk_start h, lr_end = hk_start h + hk_count h - 1\<rparr>)"
proof -
  obtain t ts where s: "split_whitespace (hunk_header h) =
     (''-'' @ show_nat (hk_old_start h) @ '','' @ show_nat (hk_old_count h)) #
     (''+'' @ show_nat (hk_start h) @ '','' @ show_nat (hk_count h)) # (''@@'' @ t) # ts"
    using split_header by blast
  show ?thesis
    using assms parse_range_show [of "hk_old_start h" "hk_old_count h"] parse_range_show [of "hk_start h" "hk_count h"]
    by (auto simp: parse_hunk_new_side_def s valid_hunk_def sat_add_exact)
qed

section \<open>The whole diff\<close>

definition denotes :: "changed_lines \<Rightarrow> string \<Rightarrow> nat set" where
  "denotes m p = (case map_of m p of None \<Rightarrow> {} | Some rs \<Rightarrow> lines_of rs)"

definition collected_ok :: "changed_lines \<Rightarrow> bool" where
  "collected_ok m \<longleftrightarrow> bt_ok m \<and> (\<forall>p rs. map_of m p = Some rs \<longrightarrow> ranges_wf rs)"

lemma collect_ok:
  assumes "collected_ok m" "ranges_wf rs"
  shows "collected_ok (collect p rs m)"
    and "denotes (collect p rs m) q = denotes m q \<union> (if q = p then lines_of rs else {})"
  using assms by (auto simp: collected_ok_def collect_def denotes_def split: option.splits)

lemma diff_lines_append:
  "diff_lines (xs @ ys) st = (case diff_lines xs st of Inl e \<Rightarrow> Inl e | Inr st' \<Rightarrow> diff_lines ys st')"
  by (induction xs arbitrary: st) (auto split: sum.splits)

lemma diff_line_quiet: "quiet_line l \<Longrightarrow> diff_line l st = Inr st"
  using strip_prefix_Some_iff [of "''+++ ''" l] strip_prefix_Some_iff [of "''@@ ''" l]
  by (auto simp: quiet_line_def diff_line_def prefix_def split: option.splits)

lemma diff_lines_quiet: "\<forall>l \<in> set ls. quiet_line l \<Longrightarrow> diff_lines ls st = Inr st"
  by (induction ls) (simp_all add: diff_line_quiet)

lemma strip_plus [simp]: "strip_prefix ''+++ '' (CHR ''@'' # l) = None"
  by simp

text \<open>Collecting a hunk: one range, or none when it only removes lines.\<close>

definition hunk_ranges :: "hunk \<Rightarrow> line_range list" where
  "hunk_ranges h = (if hk_count h = 0 then [] else [\<lparr>lr_start = hk_start h, lr_end = hk_start h + hk_count h - 1\<rparr>])"

lemma hunk_ranges_spec:
  "valid_hunk h \<Longrightarrow> ranges_wf (hunk_ranges h)" "lines_of (hunk_ranges h) = hunk_lines h"
  by (auto simp: hunk_ranges_def valid_hunk_def hunk_lines_def)

definition add_hunk :: "string option \<Rightarrow> hunk \<Rightarrow> changed_lines \<Rightarrow> changed_lines" where
  "add_hunk target h m = (case target of None \<Rightarrow> m
     | Some p \<Rightarrow> if hk_count h = 0 then m else collect p (hunk_ranges h) m)"

lemma diff_lines_hunk:
  assumes "valid_hunk h"
  shows "diff_lines (render_hunk h) (Some target, m) = Inr (Some target, add_hunk target h m)"
proof -
  have "strip_prefix ''@@ '' (''@@ '' @ hunk_header h) = Some (hunk_header h)" by (simp only: strip_prefix_append)
  then have "diff_line (''@@ '' @ hunk_header h) (Some target, m) = Inr (Some target, add_hunk target h m)"
    using parse_hunk_header [OF assms]
    by (cases target) (simp_all add: diff_line_def add_hunk_def hunk_ranges_def)
  moreover have "diff_lines (hk_body h) st = Inr st" for st
    using assms by (intro diff_lines_quiet) (simp add: valid_hunk_def)
  ultimately show ?thesis by (simp only: render_hunk_def diff_lines.simps sum.case)
qed

lemma add_hunk_ok:
  assumes "collected_ok m" "valid_hunk h"
  shows "collected_ok (add_hunk target h m)"
    and "denotes (add_hunk target h m) q = denotes m q \<union> (if target = Some q then hunk_lines h else {})"
  using assms collect_ok [of m "hunk_ranges h"] hunk_ranges_spec [of h]
  by (auto simp: add_hunk_def hunk_lines_def split: option.splits)

lemma diff_lines_hunks:
  assumes "\<forall>h \<in> set hs. valid_hunk h" and "collected_ok m"
  shows "\<exists>m'. diff_lines (concat (map render_hunk hs)) (Some target, m) = Inr (Some target, m') \<and> collected_ok m' \<and>
    (\<forall>q. denotes m' q = denotes m q \<union> (if target = Some q then \<Union>h \<in> set hs. hunk_lines h else {}))"
  using assms
proof (induction hs arbitrary: m)
  case (Cons h hs)
  from Cons.IH [of "add_hunk target h m"] Cons.prems add_hunk_ok [of m h target]
  obtain m' where "diff_lines (concat (map render_hunk hs)) (Some target, add_hunk target h m) = Inr (Some target, m')"
    "collected_ok m'"
    "\<forall>q. denotes m' q = denotes (add_hunk target h m) q \<union> (if target = Some q then \<Union>h \<in> set hs. hunk_lines h else {})"
    by auto
  with Cons.prems add_hunk_ok [of m h target] show ?case
    by (intro exI [of _ m']) (auto simp: diff_lines_append diff_lines_hunk)
qed auto

lemma strip_suffix_cr: "cr \<notin> set t \<Longrightarrow> strip_suffix [cr] t = None"
proof (rule ccontr)
  assume cr: "cr \<notin> set t" and "strip_suffix [cr] t \<noteq> None"
  then obtain r where "t = r @ [cr]" by (auto simp: strip_suffix_Some_iff)
  then have "cr \<in> set t" by simp
  with cr show False by contradiction
qed

lemma diff_line_target:
  assumes "case target of None \<Rightarrow> True | Some p \<Rightarrow> cr \<notin> set p" and "collected_ok m"
  shows "\<exists>m'. diff_line (target_line target) (c, m) = Inr (Some target, m') \<and>
    collected_ok m' \<and> (\<forall>q. denotes m' q = denotes m q)"
proof -
  let ?t = "case target of None \<Rightarrow> ''/dev/null'' | Some p \<Rightarrow> ''b/'' @ p"
  have s: "strip_prefix ''+++ '' (target_line target) = Some ?t" unfolding target_line_def by (rule strip_prefix_append)
  have c: "strip_suffix [cr] ?t = None" using assms(1) by (intro strip_suffix_cr) (auto split: option.splits)
  have "diff_line (target_line target) (c, m) = (case diff_target ?t of
       Inl e \<Rightarrow> Inl e | Inr None \<Rightarrow> Inr (Some None, m) | Inr (Some path) \<Rightarrow> Inr (Some (Some path), collect path [] m))"
    unfolding diff_line_def s by (simp only: option.case c snd_conv)
  moreover have "diff_target ?t = Inr target" by (cases target) (simp_all add: diff_target_def)
  ultimately show ?thesis using assms(2) collect_ok [of m "[]"] by (cases target) simp_all
qed

lemma diff_lines_section:
  assumes "valid_section s" and "collected_ok m"
  shows "\<exists>m'. diff_lines (render_section s) (c, m) = Inr (Some (ds_target s), m') \<and> collected_ok m' \<and>
    (\<forall>q. denotes m' q = denotes m q \<union> (if ds_target s = Some q then \<Union>h \<in> set (ds_hunks s). hunk_lines h else {}))"
proof -
  have t: "case ds_target s of None \<Rightarrow> True | Some p \<Rightarrow> cr \<notin> set p"
    using assms(1) by (auto simp: valid_section_def split: option.splits)
  obtain m1 where m1: "diff_line (target_line (ds_target s)) (c, m) =
      Inr (Some (ds_target s), m1)" "collected_ok m1" "\<forall>q. denotes m1 q = denotes m q"
    using diff_line_target [OF t assms(2)] by blast
  obtain m2 where "diff_lines (concat (map render_hunk (ds_hunks s))) (Some (ds_target s), m1) = Inr (Some (ds_target s), m2)"
    "collected_ok m2"
    "\<forall>q. denotes m2 q = denotes m1 q \<union> (if ds_target s = Some q then \<Union>h \<in> set (ds_hunks s). hunk_lines h else {})"
    using diff_lines_hunks [OF _ m1(2), of "ds_hunks s" "ds_target s"] assms(1) by (auto simp: valid_section_def)
  with m1 diff_lines_quiet [of "ds_noise s" "(c, m)"] assms(1) show ?thesis
    by (intro exI [of _ m2]) (simp add: render_section_def diff_lines_append valid_section_def)
qed

lemma diff_lines_sections:
  assumes "\<forall>s \<in> set secs. valid_section s" and "collected_ok m"
  shows "\<exists>st. diff_lines (concat (map render_section secs)) (c, m) = Inr st \<and> collected_ok (snd st) \<and>
    (\<forall>q. denotes (snd st) q = denotes m q \<union> added_lines secs q)"
  using assms
proof (induction secs arbitrary: c m)
  case (Cons s secs)
  obtain m1 where m1: "diff_lines (render_section s) (c, m) = Inr (Some (ds_target s), m1)" "collected_ok m1"
    "\<forall>q. denotes m1 q = denotes m q \<union> (if ds_target s = Some q then \<Union>h \<in> set (ds_hunks s). hunk_lines h else {})"
    using diff_lines_section [of s m c] Cons.prems by auto
  obtain st where "diff_lines (concat (map render_section secs)) (Some (ds_target s), m1) = Inr st" "collected_ok (snd st)"
    "\<forall>q. denotes (snd st) q = denotes m1 q \<union> added_lines secs q"
    using Cons.IH [OF _ m1(2), of "Some (ds_target s)"] Cons.prems(1) by (metis list.set_intros(2))
  with m1 show ?case
    by (intro exI [of _ st]) (auto simp: diff_lines_append added_lines_def)
qed (auto simp: added_lines_def)

text \<open>Normalising at the end keeps the lines and drops the files with none.\<close>

definition settled :: "line_range list option \<Rightarrow> line_range list option" where
  "settled v = (case v of None \<Rightarrow> None | Some rs \<Rightarrow> let n = normalize_ranges rs in if n = [] then None else Some n)"

lemma settle_foldl:
  assumes "distinct (map fst c)" "bt_ok m" "\<forall>p \<in> fst ` set c. map_of m p = None"
  shows "let r = foldl (\<lambda>m (path, rs). let n = normalize_ranges rs in if n = [] then m else bt_insert path n m) m c
    in bt_ok r \<and> (\<forall>p. map_of r p = (if p \<in> fst ` set c then settled (map_of c p) else map_of m p))"
  using assms
proof (induction c arbitrary: m)
  case (Cons e c)
  obtain p rs where e: "e = (p, rs)" by (cases e)
  let ?m = "let n = normalize_ranges rs in if n = [] then m else bt_insert p n m"
  have "bt_ok ?m" "\<forall>q \<in> fst ` set c. map_of ?m q = None"
    using Cons.prems by (auto simp: e Let_def)
  from Cons.IH [OF _ this] Cons.prems show ?case
    by (auto simp: e Let_def settled_def image_iff split: if_splits)
qed simp

lemma settle_spec:
  assumes "bt_ok c"
  shows "bt_ok (settle c)" "map_of (settle c) p = settled (map_of c p)"
proof -
  have "bt_ok (settle c) \<and> map_of (settle c) p = (if p \<in> fst ` set c then settled (map_of c p) else None)"
    using settle_foldl [of c "[]"] bt_ok_distinct [OF assms] by (simp add: settle_def Let_def)
  then show "bt_ok (settle c)" "map_of (settle c) p = settled (map_of c p)"
    using map_of_eq_None_iff [of c p] by (auto simp: settled_def split: if_splits)
qed

lemma render_no_nl:
  assumes "valid_section s" "l \<in> set (render_section s)"
  shows "nl \<notin> set l \<and> cr \<notin> set l"
proof -
  have d: "nl \<notin> set (show_nat n) \<and> cr \<notin> set (show_nat n)" for n
    using show_nat_digits [of n] by (auto simp: is_digit_def)
  have h: "nl \<notin> set l \<and> cr \<notin> set l" if "valid_hunk h" "l \<in> set (render_hunk h)" for h l
    using that d by (auto simp: render_hunk_def valid_hunk_def hunk_header_def quiet_line_def)
  consider "l \<in> set (ds_noise s)" | "l = target_line (ds_target s)"
    | h where "h \<in> set (ds_hunks s)" "l \<in> set (render_hunk h)"
    using assms(2) by (auto simp: render_section_def)
  then show ?thesis
  proof cases
    case 1
    then show ?thesis using assms(1) by (auto simp: valid_section_def quiet_line_def)
  next
    case 2
    then show ?thesis using assms(1) by (auto simp: valid_section_def target_line_def split: option.splits)
  next
    case 3
    then show ?thesis using assms(1) h by (auto simp: valid_section_def)
  qed
qed

lemma parse_diff:
  assumes "\<forall>s \<in> set secs. valid_section s"
  shows "\<exists>m. parse_changed_lines (unlines (concat (map render_section secs))) = Inr m \<and> bt_ok m \<and>
    (\<forall>p. (case map_of m p of
            None \<Rightarrow> added_lines secs p = {}
          | Some rs \<Rightarrow> rs \<noteq> [] \<and> ranges_ok rs \<and> lines_of rs = added_lines secs p))"
proof -
  have lines: "str_lines (unlines (concat (map render_section secs))) = concat (map render_section secs)"
    using str_lines_unlines [of "concat (map render_section secs)" "[]"] render_no_nl assms by auto
  have "collected_ok []" by (simp add: collected_ok_def)
  from diff_lines_sections [OF assms this, of None]
  obtain st where st: "diff_lines (concat (map render_section secs)) (None, []) = Inr st" "collected_ok (snd st)"
    "\<forall>q. denotes (snd st) q = added_lines secs q" by (auto simp: denotes_def)
  let ?m = "settle (snd st)"
  have "case map_of ?m p of None \<Rightarrow> added_lines secs p = {}
      | Some rs \<Rightarrow> rs \<noteq> [] \<and> ranges_ok rs \<and> lines_of rs = added_lines secs p" for p
  proof -
    have m: "map_of ?m p = settled (map_of (snd st) p)" using st(2) by (simp add: settle_spec collected_ok_def)
    have d: "denotes (snd st) p = added_lines secs p" using st(3) by simp
    show ?thesis
    proof (cases "map_of (snd st) p")
      case None
      with m d show ?thesis by (simp add: settled_def denotes_def)
    next
      case (Some rs)
      then have "ranges_wf rs" using st(2) by (auto simp: collected_ok_def)
      from normalize_ranges_spec [OF this] m d Some show ?thesis
        by (auto simp: settled_def denotes_def Let_def)
    qed
  qed
  with st settle_spec(1) [of "snd st"] lines show ?thesis
    by (intro exI [of _ ?m]) (simp add: parse_changed_lines_def collected_ok_def)
qed


definition sample_sections :: "diff_section list" where
  "sample_sections =
    [\<lparr>ds_noise = [''index 1..2''], ds_target = Some ''a'', ds_hunks =
       [\<lparr>hk_old_start = 3, hk_old_count = 0, hk_start = 4, hk_count = 2, hk_context = '' f'', hk_body = [''+x'', ''+y'']\<rparr>]\<rparr>]"


section \<open>Lines of a file the reader misreads\<close>

text \<open>
  Git ends the target of a file whose name holds a space with a tab, and the reader keeps it:
  the changed lines are filed under a path no report uses.
\<close>

lemma target_keeps_tab: "diff_target (''b/a b'' @ [CHR 0x09]) = Inr (Some (''a b'' @ [CHR 0x09]))"
  by (simp add: diff_target_def)

text \<open>An added line whose own text opens with two plus signs and a space is read as a file header.\<close>

lemma added_line_as_target:
  assumes "\<not> prefix ''b/'' t" "\<not> prefix [CHR 0x22] t" "t \<noteq> ''/dev/null''" "cr \<notin> set t"
  shows "diff_line (CHR ''+'' # (''++ '' @ t)) st = Inl (InvalidDiff (''unexpected +++ target: '' @ t))"
proof -
  have p: "strip_prefix ''+++ '' (CHR ''+'' # (''++ '' @ t)) = Some t"
    using strip_prefix_append [of "''+++ ''" t] by simp
  have "strip_prefix ''b/'' t = None"
    using assms(1) strip_prefix_Some_iff [of "''b/''" t] unfolding prefix_def by (cases "strip_prefix ''b/'' t") auto
  then have "diff_target t = Inl (InvalidDiff (''unexpected +++ target: '' @ t))"
    using assms by (simp add: diff_target_def)
  then show ?thesis unfolding diff_line_def p by (simp only: option.case strip_suffix_cr [OF assms(4)] sum.case)
qed

section \<open>Restriction\<close>

lemma foldl_max_ge: "(a :: nat) \<le> foldl max a xs" "x \<in> set xs \<Longrightarrow> x \<le> foldl max a xs"
proof -
  have *: "(a :: nat) \<le> foldl max a xs" for a xs
    by (induction xs arbitrary: a) (auto intro: order_trans [OF max.cobounded1])
  show "a \<le> foldl max a xs" by (rule *)
  show "x \<in> set xs \<Longrightarrow> x \<le> foldl max a xs"
    by (induction xs arbitrary: a) (auto intro: order_trans [OF max.cobounded2 *])
qed

lemma span_end_covers: "n \<in> lines_of (fc_uncovered f) \<Longrightarrow> n \<le> span_end f"
proof -
  assume "n \<in> lines_of (fc_uncovered f)"
  then obtain r where r: "r \<in> set (fc_uncovered f)" "n \<le> lr_end r" by (auto simp: lines_of_def)
  then have "lr_end r \<in> set (map lr_end (fc_uncovered f))" by simp
  from foldl_max_ge(2) [OF this, of 0] r(2) show ?thesis by (simp add: span_end_def)
qed

lemma clipped_spec:
  assumes "ranges_wf ranges"
  shows "ranges_ok (clipped f ranges)" "lines_of (clipped f ranges) = lines_of ranges \<inter> {..span_end f}"
proof -
  let ?rs = "List.map_filter (\<lambda>r. let e = min (lr_end r) (span_end f)
     in if e < lr_start r then None else Some \<lparr>lr_start = lr_start r, lr_end = e\<rparr>) ranges"
  have "(ranges_wf ranges \<longrightarrow> ranges_wf ?rs) \<and> lines_of ?rs = lines_of ranges \<inter> {..span_end f}"
  proof (induction ranges)
    case (Cons r rs)
    let ?e = "min (lr_end r) (span_end f)"
    show ?case
    proof (cases "?e < lr_start r")
      case True
      then have "{lr_start r..lr_end r} \<inter> {..span_end f} = {}" by (auto simp: min_def split: if_splits)
      with True Cons show ?thesis by (simp add: List.map_filter_simps Let_def Int_Un_distrib2)
    next
      case False
      then have "{lr_start r..lr_end r} \<inter> {..span_end f} = {lr_start r..?e}" by auto
      moreover have "lr_start r \<le> ?e" "lr_end r \<le> U32_MAX \<longrightarrow> ?e \<le> U32_MAX" using False by auto
      ultimately show ?thesis using False Cons by (simp add: List.map_filter_simps Let_def Int_Un_distrib2)
    qed
  qed (simp add: List.map_filter_simps)
  with assms have wf: "ranges_wf ?rs" and "lines_of ?rs = lines_of ranges \<inter> {..span_end f}" by auto
  with normalize_ranges_spec [OF wf]
  show "ranges_ok (clipped f ranges)" "lines_of (clipped f ranges) = lines_of ranges \<inter> {..span_end f}"
    by (simp_all add: clipped_def)
qed

lemma restrict_file_spec:
  assumes "restrict_file f ranges = Some f'" and "ranges_wf (fc_uncovered f)" "ranges_wf ranges"
  shows "fc_path f' = fc_path f" "ranges_ok (fc_uncovered f')"
    "lines_of (fc_uncovered f') = lines_of (fc_uncovered f) \<inter> lines_of ranges"
    "fc_lines_found f' = min U32_MAX (card (lines_of ranges \<inter> {..span_end f}))"
    "fc_lines_hit f' = fc_lines_found f' - min U32_MAX (card (lines_of (fc_uncovered f')))"
proof -
  note c = clipped_spec [OF assms(3), of f]
  have wf: "ranges_wf (clipped f ranges)" using c by (simp add: ranges_ok_def)
  note i = intersect_spec [OF assms(2) wf]
  have u: "lines_of (intersect (fc_uncovered f) (clipped f ranges)) = lines_of (fc_uncovered f) \<inter> lines_of ranges"
    using span_end_covers [of _ f] unfolding i c by auto
  from assms(1) have f': "f' = \<lparr>fc_path = fc_path f, fc_lines_found = count_lines (clipped f ranges),
      fc_lines_hit = count_lines (clipped f ranges) - count_lines (intersect (fc_uncovered f) (clipped f ranges)),
      fc_uncovered = intersect (fc_uncovered f) (clipped f ranges)\<rparr>"
    by (simp add: restrict_file_def Let_def split: if_splits)
  show "fc_path f' = fc_path f" "ranges_ok (fc_uncovered f')"
    "lines_of (fc_uncovered f') = lines_of (fc_uncovered f) \<inter> lines_of ranges"
    "fc_lines_found f' = min U32_MAX (card (lines_of ranges \<inter> {..span_end f}))"
    "fc_lines_hit f' = fc_lines_found f' - min U32_MAX (card (lines_of (fc_uncovered f')))"
    using i(1) u c count_lines_card by (simp_all add: f')
qed

text \<open>
  A coverage report restricted to the changed lines speaks of them only. Every file it
  lists is one of the report with changed lines; the lines it calls uncovered are exactly the
  uncovered lines of that file which changed, in normal form; and the lines it counts as found
  are those of them and of the other changed lines up to the last known one.
\<close>

theorem restrict_coverage_exact:
  assumes "\<forall>f \<in> set report. ranges_wf (fc_uncovered f)"
    and "\<forall>p rs. map_of changed p = Some rs \<longrightarrow> ranges_wf rs"
    and "f' \<in> set (restrict_coverage report changed)"
  shows "\<exists>f rs. f \<in> set report \<and> map_of changed (fc_path f) = Some rs \<and> fc_path f' = fc_path f \<and>
    ranges_ok (fc_uncovered f') \<and> lines_of (fc_uncovered f') = lines_of (fc_uncovered f) \<inter> lines_of rs \<and>
    fc_lines_found f' = min U32_MAX (card (lines_of rs \<inter> {..span_end f})) \<and>
    fc_lines_hit f' = fc_lines_found f' - min U32_MAX (card (lines_of (fc_uncovered f')))"
proof -
  from assms(3) obtain f rs where f: "f \<in> set report" "map_of changed (fc_path f) = Some rs" "restrict_file f rs = Some f'"
    by (auto simp: restrict_coverage_def map_filter_def bind_Some_iff)
  with assms have "ranges_wf (fc_uncovered f)" "ranges_wf rs" by blast+
  from restrict_file_spec [OF f(3) this] f show ?thesis by blast
qed

theorem restrict_coverage_exact_witness:
  "\<exists>f rs. f \<in> set [\<lparr>fc_path = ''a'', fc_lines_found = 9, fc_lines_hit = 8, fc_uncovered = [\<lparr>lr_start = 2, lr_end = 2\<rparr>]\<rparr>] \<and>
    map_of [(''a'', [\<lparr>lr_start = 1, lr_end = 3\<rparr>])] (fc_path f) = Some rs \<and>
    fc_lines_found \<lparr>fc_path = ''a'', fc_lines_found = 3, fc_lines_hit = 2, fc_uncovered = [\<lparr>lr_start = 2, lr_end = 2\<rparr>]\<rparr> =
      min U32_MAX (card (lines_of rs \<inter> {..span_end f}))"
  using restrict_coverage_exact [of "[\<lparr>fc_path = ''a'', fc_lines_found = 9, fc_lines_hit = 8, fc_uncovered = [\<lparr>lr_start = 2, lr_end = 2\<rparr>]\<rparr>]"
     "[(''a'', [\<lparr>lr_start = 1, lr_end = 3\<rparr>])]"
     "\<lparr>fc_path = ''a'', fc_lines_found = 3, fc_lines_hit = 2, fc_uncovered = [\<lparr>lr_start = 2, lr_end = 2\<rparr>]\<rparr>"]
  by (force simp: restrict_coverage_def map_filter_def restrict_file_def clipped_def span_end_def normalize_ranges_def
      push_range_def intersect_def count_lines_def sat_add_def U32_MAX_def split: if_splits)

lemma restrict_issues_lines:
  "restrict_issues issues changed =
     filter (\<lambda>i. case map_of changed (is_path i) of None \<Rightarrow> False | Some rs \<Rightarrow> is_line i \<in> lines_of rs) issues"
  unfolding restrict_issues_def by (rule filter_cong) (auto simp: lines_of_def split: option.splits)

end
