(* ===== verification/HlRunnerProps.thy ===== *)
theory HlRunnerProps
  imports HlRunner HlDiffProps
begin

text \<open>
  What the runner promises: bounded copies that do not depend on how the stream is chunked,
  globs that mean what they say, coverage that adds up over the checks, a view of the new code
  made of the changed lines only, and a green report only when nothing failed.
\<close>

section \<open>Bounded copies\<close>

lemma capped_fold:
  assumes "length out \<le> cap"
  shows "fst (foldl (capped_chunk cap) (out, length out, False) chunks) =
    (if length out + length (concat chunks) \<le> cap then out @ concat chunks
     else take cap (out @ concat chunks) @ cap_marker cap)"
  using assms
proof (induction chunks arbitrary: out)
  case (Cons c cs)
  have cut: "fst (foldl (capped_chunk cap) (f, n, True) xs) = f" for f n xs
    by (induction xs) (simp_all add: capped_chunk_def)
  show ?case
  proof (cases "length out + length c \<le> cap")
    case True
    with Cons.IH [of "out @ c"] show ?thesis by (simp add: capped_chunk_def Let_def add.assoc)
  next
    case False
    then have st: "capped_chunk cap (out, length out, False) c = (out @ take (cap - length out) c @ cap_marker cap, cap, True)"
      using Cons.prems by (simp add: capped_chunk_def Let_def)
    show ?thesis using False Cons.prems by (simp add: st cut)
  qed
qed simp

text \<open>
  The copy of a command's output is bounded and does not depend on how the stream arrives:
  an output within the cap is copied whole without a marker, and of a longer one exactly the
  first bytes up to the cap are kept, followed by one marker.
\<close>

theorem write_capped_spec:
  "write_capped cap chunks =
     (if length (concat chunks) \<le> cap then concat chunks
      else take cap (concat chunks) @ cap_marker cap)"
  using capped_fold [of "[]" cap chunks] by (simp add: write_capped_def)

lemma to_boundary_suffix: "\<exists>p. s = p @ to_boundary s \<and> (\<forall>c \<in> set p. is_cont c)"
proof (induction s)
  case (Cons c cs)
  then obtain p where "cs = p @ to_boundary cs" "\<forall>c \<in> set p. is_cont c" by blast
  then show ?case by (cases "is_cont c") (simp_all, metis Cons_eq_appendI set_ConsD)
qed simp

lemma cap_bytes_spec:
  "length (cap_bytes text n) \<le> n" "\<exists>q. text = q @ cap_bytes text n"
proof -
  obtain p where p: "drop (length text - n) text = p @ to_boundary (drop (length text - n) text)"
    using to_boundary_suffix by blast
  then have "length (to_boundary (drop (length text - n) text)) \<le> length (drop (length text - n) text)"
    by (metis length_append le_add2)
  then show "length (cap_bytes text n) \<le> n" by (auto simp: cap_bytes_def)
  have "text = take (length text - n) text @ drop (length text - n) text" by simp
  then have "text = (take (length text - n) text @ p) @ to_boundary (drop (length text - n) text)"
    using p by (metis append.assoc)
  then show "\<exists>q. text = q @ cap_bytes text n" 
    by (cases "length text \<le> n")
      (auto simp: cap_bytes_def intro: exI [of _ "[]"] exI [of _ "take (length text - n) text @ p"])
qed

section \<open>Globs\<close>

text \<open>The texts a pattern stands for, as a concatenation of languages.\<close>

definition conc :: "'a list set \<Rightarrow> 'a list set \<Rightarrow> 'a list set" where
  "conc A B = {a @ b |a b. a \<in> A \<and> b \<in> B}"

definition char_lang :: "string \<Rightarrow> string list set" where
  "char_lang f = (if f = ''*'' then UNIV else if f = ''?'' then {[c] |c. True} else {[f]})"

definition seg_lang :: "string list \<Rightarrow> string list set" where
  "seg_lang p = foldr (\<lambda>f. conc (char_lang f)) p {[]}"

definition part_lang :: "string \<Rightarrow> string list set" where
  "part_lang f = (if f = ''**'' then UNIV else {[s] |s. utf8_chars s \<in> seg_lang (utf8_chars f)})"

definition glob_lang :: "string list \<Rightarrow> string list set" where
  "glob_lang p = foldr (\<lambda>f. conc (part_lang f)) p {[]}"

lemma conc_UNIV: "t \<in> conc UNIV B \<longleftrightarrow> t \<in> B \<or> (t \<noteq> [] \<and> tl t \<in> conc UNIV B)"
proof
  assume "t \<in> conc UNIV B"
  then obtain a b where t: "t = a @ b" "b \<in> B" by (auto simp: conc_def)
  then show "t \<in> B \<or> (t \<noteq> [] \<and> tl t \<in> conc UNIV B)" by (cases a) (auto simp: conc_def)
next
  assume "t \<in> B \<or> (t \<noteq> [] \<and> tl t \<in> conc UNIV B)"
  then show "t \<in> conc UNIV B"
  proof
    assume "t \<in> B"
    then show ?thesis by (auto simp: conc_def intro: exI [of _ "[]"])
  next
    assume "t \<noteq> [] \<and> tl t \<in> conc UNIV B"
    then obtain a b where "t \<noteq> []" "tl t = a @ b" "b \<in> B" by (auto simp: conc_def)
    then have "t = (hd t # a) @ b" by (metis append_Cons list.collapse)
    with \<open>b \<in> B\<close> show ?thesis unfolding conc_def by blast
  qed
qed

lemma conc_singles: "t \<in> conc {[c] |c. P c} B \<longleftrightarrow> t \<noteq> [] \<and> P (hd t) \<and> tl t \<in> B"
proof (cases t)
  case (Cons a l)
  have "t = [a] @ l" by (simp add: Cons)
  show ?thesis
  proof
    assume "t \<noteq> [] \<and> P (hd t) \<and> tl t \<in> B"
    with \<open>t = [a] @ l\<close> show "t \<in> conc {[c] |c. P c} B"
      unfolding conc_def by (intro CollectI exI [of _ "[a]"] exI [of _ l]) (auto simp: Cons)
  qed (auto simp: conc_def)
qed (auto simp: conc_def)

lemma lang_Cons:
  "seg_lang (f # r) = conc (char_lang f) (seg_lang r)" "glob_lang (f # r) = conc (part_lang f) (glob_lang r)"
  by (simp_all add: seg_lang_def glob_lang_def)

lemma seg_match_lang: "seg_match_chars p t \<longleftrightarrow> t \<in> seg_lang p"
proof (induction p t rule: seg_match_chars.induct)
  case (1 t)
  show ?case by (simp add: seg_lang_def)
next
  case (2 f r t)
  consider "f = ''*''" | "f = ''?''" | "f \<noteq> ''*''" "f \<noteq> ''?''" by blast
  then show ?case
  proof cases
    case 1
    then show ?thesis
      using 2(1,2) conc_UNIV [of t "seg_lang r"] by (cases "t = []") (simp_all add: lang_Cons char_lang_def)
  next
    case 2
    then have "char_lang f = {[c] |c. True}" by (simp add: char_lang_def)
    then show ?thesis
      using 2 "2.IH"(3) conc_singles [of t "\<lambda>_. True" "seg_lang r"] by (cases "t = []") (simp_all add: lang_Cons)
  next
    case 3
    then have "char_lang f = {[c] |c. c = f}" by (simp add: char_lang_def)
    then show ?thesis
      using 3 "2.IH"(4) conc_singles [of t "\<lambda>c. c = f" "seg_lang r"] by (cases "t = []") (auto simp: lang_Cons)
  qed
qed

text \<open>
  The glob matcher decides the language of its pattern: two stars stand for any sequence of
  path segments, a star for any sequence of characters within one, a question mark for one
  character, and everything else for itself; a path matches when its segments are a
  concatenation of what the segments of the pattern stand for.
\<close>

theorem glob_match_language:
  "glob_match pattern text \<longleftrightarrow> split_on slash text \<in> glob_lang (split_on slash pattern)"
proof -
  have "glob_segments p t \<longleftrightarrow> t \<in> glob_lang p" for p t
  proof (induction p t rule: glob_segments.induct)
    case (1 t)
    show ?case by (simp add: glob_lang_def)
  next
    case (2 f r t)
    show ?case
    proof (cases "f = ''**''")
      case True
      then show ?thesis
        using 2(1,2) conc_UNIV [of t "glob_lang r"] by (cases "t = []") (simp_all add: lang_Cons part_lang_def)
    next
      case False
      then have "part_lang f = {[s] |s. segment_match f s}"
        by (simp add: part_lang_def segment_match_def seg_match_lang)
      with False show ?thesis
        using 2(3) conc_singles [of t "segment_match f" "glob_lang r"] by (cases "t = []") (auto simp: lang_Cons)
    qed
  qed
  then show ?thesis by (simp add: glob_match_def)
qed

section \<open>Coverage of several checks\<close>

lemma str_lines_glue:
  assumes "ls \<noteq> []" "\<forall>l \<in> set ls. nl \<notin> set l \<and> cr \<notin> set l"
  shows "str_lines (unlines ls @ s) = ls @ str_lines s"
  using str_lines_unlines assms(2) by blast

text \<open>Texts of whole lines, joined by line feeds as the runner joins them.\<close>

definition text_hits :: "string \<Rightarrow> string list list \<Rightarrow> string \<Rightarrow> nat \<Rightarrow> nat option" where
  "text_hits root texts p n = foldr (\<lambda>ls h. hit_sum (case lcov_counters root [] ls of None \<Rightarrow> None | Some m \<Rightarrow> hits_at m p n) h) texts None"

lemma merged_counters:
  assumes "texts \<noteq> []" "\<forall>ls \<in> set texts. lcov_counters root [] ls \<noteq> None"
    and "\<forall>ls \<in> set texts. \<forall>l \<in> set ls. nl \<notin> set l \<and> cr \<notin> set l"
  shows "\<exists>m. lcov_counters root [] (str_lines (join_with nl (map unlines texts))) = Some m \<and>
    (\<forall>p n. hits_at m p n = text_hits root texts p n)"
  using assms
proof (induction texts rule: list_nonempty_induct)
  case (single ls)
  have "str_lines (unlines ls) = ls" using str_lines_unlines [of ls "[]"] single by simp
  then show ?case using single by (auto simp: text_hits_def hit_sum_def split: option.splits)
next
  case (cons ls texts)
  then obtain m1 where m1: "lcov_counters root [] ls = Some m1" by auto
  from cons obtain m2 where m2: "lcov_counters root [] (str_lines (join_with nl (map unlines texts))) = Some m2"
    "\<forall>p n. hits_at m2 p n = text_hits root texts p n" by auto
  have j: "join_with nl (map unlines (ls # texts)) = unlines ls @ nl # join_with nl (map unlines texts)"
    using cons(1) by (simp add: join_with_Cons)
  have "str_lines (nl # s) = [] # str_lines s" for s using str_lines_line [of "[]" s] by simp
  then have s: "str_lines (join_with nl (map unlines (ls # texts))) = (ls @ [[]]) @ str_lines (join_with nl (map unlines texts))"
    unfolding j using str_lines_unlines cons.prems by simp
  from lcov_counters_append [OF m1 lcov_counters_empty] obtain m where m: "lcov_counters root [] (ls @ [[]]) = Some m"
    "adds_to m1 [] m" by blast
  have "hits_at m p n = hits_at m1 p n" for p n
    using m(2) by (auto simp: adds_to_def hits_at_def hit_sum_def split: option.split)
  with lcov_counters_append [OF m(1) m2(1)] m1 m2(2) show ?case
    unfolding s by (force simp: adds_to_def text_hits_def)
qed

text \<open>
  Coverage adds up over the checks. When several checks each produced an acceptable lcov
  text, the merged report is read without an error, and the counter of every line of every file
  is the sum of its counters in the texts, so that a line counts as uncovered only if no check
  hit it.
\<close>

theorem merge_lcov_adds:
  assumes "texts \<noteq> []" "\<forall>ls \<in> set texts. lcov_counters root [] ls \<noteq> None"
    and "\<forall>ls \<in> set texts. \<forall>l \<in> set ls. nl \<notin> set l \<and> cr \<notin> set l"
  shows "\<exists>m. (case merge_lcov (map unlines texts) root of None \<Rightarrow> [] | Some r \<Rightarrow> r) = map (\<lambda>(p, ls). lcov_file p ls) m \<and>
    (\<forall>p n. hits_at m p n = text_hits root texts p n)"
proof -
  from merged_counters [OF assms] obtain m where
    m: "lcov_counters root [] (str_lines (join_with nl (map unlines texts))) = Some m" "\<forall>p n. hits_at m p n = text_hits root texts p n"
    by blast
  then have "parse_lcov (join_with nl (map unlines texts)) root [] = Inr (map (\<lambda>(p, ls). lcov_file p ls) m)"
    using parse_lcov_counters by blast
  with m(2) assms(1) show ?thesis by (intro exI [of _ m]) (auto simp: merge_lcov_def)
qed

theorem merge_lcov_adds_witness:
  "\<exists>m. (case merge_lcov (map unlines [[''TN:''], [[]]]) ''/r'' of None \<Rightarrow> [] | Some r \<Rightarrow> r) = map (\<lambda>(p, ls). lcov_file p ls) m \<and>
    (\<forall>p n. hits_at m p n = text_hits ''/r'' [[''TN:''], [[]]] p n)"
proof (rule merge_lcov_adds)
  have "str_trim ''TN:'' = ''TN:''" by (rule str_trim_visible) (simp_all add: visible_ascii_def)
  then show "\<forall>ls \<in> set [[''TN:''], [[]]]. lcov_counters ''/r'' [] ls \<noteq> None"
    by (simp add: lcov_counters_def lcov_line_def)
qed simp_all

end
