(* ===== verification/HlReportProps.thy ===== *)
theory HlReportProps
  imports HlRunnerProps
begin

text \<open>
  Properties of a whole health run: the view of the new code, when the report is green, the end
  of a run of the declared checks, and the coverage check of a project without workspaces.
\<close>

section \<open>New code\<close>

text \<open>
  The view of the new code shows exactly the diagnostics on changed lines. When git answers
  with a diff of well-formed sections, the computation succeeds, and its diagnostics are those
  of the report, in their order, whose line is one the diff adds to their file.
\<close>

theorem new_code_issues_exact:
  assumes "re_git E [''merge-base'', base, ''HEAD''] = Inr mb"
    and "re_git E [''-c'', ''core.quotepath=off'', ''diff'', ''-U0'', ''--no-color'', ''--no-ext-diff'', mb, ''--''] =
      Inr (unlines (concat (map render_section secs)))"
    and "\<forall>s \<in> set secs. valid_section s"
  shows "\<exists>nc. compute_new_code E base coverage issues = Inr nc \<and>
    nc_issues nc = filter (\<lambda>i. is_line i \<in> added_lines secs (is_path i)) issues"
proof -
  obtain m where m: "parse_changed_lines (unlines (concat (map render_section secs))) = Inr m"
    "\<And>p. (case map_of m p of None \<Rightarrow> added_lines secs p = {}
          | Some rs \<Rightarrow> rs \<noteq> [] \<and> ranges_ok rs \<and> lines_of rs = added_lines secs p)"
    using parse_diff [OF assms(3)] by blast
  have "(case map_of m (is_path i) of None \<Rightarrow> False | Some rs \<Rightarrow> is_line i \<in> lines_of rs) \<longleftrightarrow>
      is_line i \<in> added_lines secs (is_path i)" for i
    using m(2) [of "is_path i"] by (simp split: option.splits)
  then have "restrict_issues issues m = filter (\<lambda>i. is_line i \<in> added_lines secs (is_path i)) issues"
    unfolding restrict_issues_lines by (intro filter_cong) simp_all
  with assms(1,2) m(1) show ?thesis by (simp add: compute_new_code_def)
qed

definition sample_env :: run_env where
  "sample_env = \<lparr>re_read = (\<lambda>_. Inl ''absent''), re_dirs = (\<lambda>_. None),
     re_git = (\<lambda>args. if args = [''merge-base'', ''main'', ''HEAD''] then Inr ''f00''
                      else Inr (unlines (concat (map render_section sample_sections)))),
     re_json = \<lparr>jl_parse = (\<lambda>_. Inl ''bad''), jl_mismatch = (\<lambda>_. ''bad'')\<rparr>\<rparr>"

theorem new_code_issues_exact_witness:
  "\<exists>nc. compute_new_code sample_env ''main'' None [sample_issue ''x'', (sample_issue ''y'')\<lparr>is_line := 5\<rparr>] = Inr nc \<and>
    nc_issues nc = [(sample_issue ''y'')\<lparr>is_line := 5\<rparr>]"
proof -
  have v: "\<forall>s \<in> set sample_sections. valid_section s"
    by (simp add: sample_sections_def valid_section_def valid_hunk_def quiet_line_def U32_MAX_def)
  have a: "added_lines sample_sections ''a'' = {4, 5}"
    by (auto simp: added_lines_def sample_sections_def hunk_lines_def)
  from new_code_issues_exact [OF _ _ v, of sample_env "''main''" "''f00''" None
      "[sample_issue ''x'', (sample_issue ''y'')\<lparr>is_line := 5\<rparr>]"] a
  show ?thesis by (simp add: sample_env_def sample_issue_def)
qed

section \<open>Green\<close>

lemma map_filter_Nil [simp]: "List.map_filter f [] = []"
  by (simp add: map_filter_def)

text \<open>
  C35: Green is never a false green. If the report of a run is passed, then no check failed or
  was in error, no preliminary diagnostic was an error, and, when a base was given, the view of
  the new code was computed.
\<close>

theorem green_report_sound:
  assumes "run_checks E C opts out_dir outcomes checks = Inr report" and "report_status report = Passed"
  shows "(\<forall>o' \<in> set (outcomes (expand_all E C checks)). cr_status (so_result o') \<in> {Passed, Skipped}) \<and>
    (\<forall>i \<in> set (ro_preliminary opts). is_severity i \<noteq> SevError) \<and>
    (ro_base opts \<noteq> None \<longrightarrow> hr_new_code report \<noteq> None)"
proof -
  let ?outs = "outcomes (expand_all E C checks)"
  have none: "\<forall>c \<in> set (hr_checks report). cr_status c \<noteq> Failed \<and> cr_status c \<noteq> Errored"
    using assms(2) by (auto simp: report_status_def split: if_splits)
  have sub: "set (lsp_result (ro_preliminary opts)) \<union> so_result ` set ?outs \<subseteq> set (hr_checks report)"
    and nc: "ro_base opts \<noteq> None \<Longrightarrow> hr_new_code report = None \<Longrightarrow> \<exists>c \<in> set (hr_checks report). cr_status c = Errored"
    using assms(1) by (auto simp: run_checks_def Let_def split: sum.splits option.splits)
  have "cr_status (so_result o') \<in> {Passed, Skipped}" if "o' \<in> set ?outs" for o'
    using none sub that by (cases "cr_status (so_result o')") auto
  moreover have "is_severity i \<noteq> SevError" if "i \<in> set (ro_preliminary opts)" for i
  proof
    assume "is_severity i = SevError"
    with that have "\<exists>c \<in> set (lsp_result (ro_preliminary opts)). cr_status c = Failed" by (auto simp: lsp_result_def)
    with sub none show False by blast
  qed
  ultimately show ?thesis using nc none by blast
qed

definition sample_ctx :: run_ctx where
  "sample_ctx = \<lparr>rc_root = ''/r'', rc_out_dir = ''/o'', rc_tail = 10, rc_nice = None\<rparr>"

theorem green_report_sound_witness:
  "\<exists>report. run_checks sample_env sample_ctx \<lparr>ro_base = Some ''main'', ro_unchecked = [], ro_preliminary = [], ro_max_parallel = 2\<rparr>
      (Inr ()) (map (\<lambda>_. solo (plain_result ''x'' Lint Passed [] 1))) [mk_check ''x'' Lint [''x''] NoOutput None None None] = Inr report \<and>
    report_status report = Passed \<and> hr_new_code report \<noteq> None"
proof -
  let ?opts = "\<lparr>ro_base = Some ''main'', ro_unchecked = [], ro_preliminary = [], ro_max_parallel = 2\<rparr>"
  let ?run = "run_checks sample_env sample_ctx ?opts (Inr ()) (map (\<lambda>_. solo (plain_result ''x'' Lint Passed [] 1)))
    [mk_check ''x'' Lint [''x''] NoOutput None None None]"
  have v: "\<forall>s \<in> set sample_sections. valid_section s"
    by (simp add: sample_sections_def valid_section_def valid_hunk_def quiet_line_def U32_MAX_def)
  obtain m where m: "parse_changed_lines (unlines (concat (map render_section sample_sections))) = Inr m"
    using parse_diff [OF v] by blast
  have nc: "\<exists>nc. compute_new_code sample_env ''main'' cov is = Inr nc" for cov "is"
    by (simp add: compute_new_code_def sample_env_def m)
  have o: "expand_all sample_env sample_ctx [mk_check ''x'' Lint [''x''] NoOutput None None None] =
      [Ready (ready_single (mk_check ''x'' Lint [''x''] NoOutput None None None) ''x'' [''x''] [])]"
    by (simp add: expand_all_def expand_one_def validate_def mk_check_def)
  obtain report where r: "?run = Inr report" "report_status report = Passed"
    using nc [of None "[]"]
    by (auto simp: run_checks_def validate_base_def Let_def o lsp_result_def solo_def plain_result_def cap_bytes_def
        map_filter_def merge_lcov_def report_status_def)
  from green_report_sound [OF r] r show ?thesis by simp
qed

text \<open>
  A coverage check is only green with coverage, and a ruff or hadolint check only with output
  that reads.
\<close>

lemma finish_check_passed:
  assumes "cr_status (so_result (finish_check E C r exec out ot et d)) = Passed"
  shows "case rdy_output r of
      Lcov _ \<Rightarrow> so_lcov (finish_check E C r exec out ot et d) \<noteq> None
    | RuffJson \<Rightarrow> \<exists>is. parse_ruff_json (re_json E) (rc_root C) (rdy_id r) out = Inr is
    | HadolintJson \<Rightarrow> \<exists>is. parse_hadolint_json (re_json E) (rc_root C) (rdy_id r) out = Inr is
    | _ \<Rightarrow> True"
  using assms
  by (cases "rdy_output r")
    (auto simp: finish_check_def interpret_output_def no_coverage_def Let_def split: if_splits sum.splits)

section \<open>A run of declared checks comes to its end\<close>

text \<open>The part of an id before the workspace.\<close>

definition base_id :: "slot \<Rightarrow> string" where
  "base_id s = takeWhile (\<lambda>c. c \<noteq> CHR '':'') (slot_id s)"

definition slot_after :: "slot \<Rightarrow> string option" where
  "slot_after s = (case s of Done _ \<Rightarrow> None | Ready r \<Rightarrow> rdy_after r)"

lemma expand_one_slots:
  assumes "s \<in> set (expand_one E C c)" "CHR '':'' \<notin> set (ck_id c)"
  shows "base_id s = ck_id c \<and> (slot_after s = None \<or> slot_after s = ck_after c)"
proof -
  have t: "takeWhile (\<lambda>x. x \<noteq> CHR '':'') (ck_id c) = ck_id c" using assms(2) by (auto simp: takeWhile_eq_all_conv)
  have t2: "takeWhile (\<lambda>x. x \<noteq> CHR '':'') (ck_id c @ CHR '':'' # w) = ck_id c" for w
    using assms(2) by (subst takeWhile_append2) auto
  have fin: "base_id (Done (plain_result (ck_id c) k st r n)) = ck_id c \<and> slot_after (Done (plain_result (ck_id c) k st r n)) = None"
    for k st r n by (simp add: base_id_def slot_id_def slot_after_def plain_result_def t)
  have single: "base_id (Ready (ready_single c (ck_id c) argv pre)) = ck_id c \<and>
      slot_after (Ready (ready_single c (ck_id c) argv pre)) = ck_after c" for argv pre
    by (simp add: base_id_def slot_id_def slot_after_def ready_single_def t)
  have npm: "base_id (Ready ((ready_single c (ck_id c @ '':'' @ w) argv pre)\<lparr>rdy_output := out\<rparr>)) = ck_id c \<and>
      slot_after (Ready ((ready_single c (ck_id c @ '':'' @ w) argv pre)\<lparr>rdy_output := out\<rparr>)) = ck_after c"
    "base_id (Ready (ready_single c (ck_id c @ '':.'') argv pre)) = ck_id c \<and>
      slot_after (Ready (ready_single c (ck_id c @ '':.'') argv pre)) = ck_after c" for w argv pre out
    by (simp_all add: base_id_def slot_id_def slot_after_def ready_single_def t2)
  have "s \<in> set (expand_npm_workspaces E C c) \<Longrightarrow> ?thesis"
    unfolding expand_npm_workspaces_def Let_def by (auto simp: fin npm split: sum.splits option.splits simp del: append.simps)
  moreover have "s \<in> set (expand_files E C c globs) \<Longrightarrow> ?thesis" for globs
    unfolding expand_files_def Let_def by (auto simp: fin single split: sum.splits if_splits)
  ultimately show ?thesis
    using assms(1) fin single unfolding expand_one_def
    by (auto split: sum.splits option.splits expand_kind.splits)
qed

lemma expanded_after_before:
  assumes "distinct (map ck_id cs)" "\<forall>c \<in> set cs. CHR '':'' \<notin> set (ck_id c)" "after_ok seen cs"
    and "k < length (expand_all E C cs)" "slot_after (expand_all E C cs ! k) = Some a"
  shows "a \<in> set seen \<or> (\<forall>d < length (expand_all E C cs). base_id (expand_all E C cs ! d) = a \<longrightarrow> d < k)"
  using assms
proof (induction cs arbitrary: seen k)
  case (Cons c cs)
  let ?e = "expand_one E C c" and ?r = "expand_all E C cs"
  have all: "expand_all E C (c # cs) = ?e @ ?r" by (simp add: expand_all_def)
  have e: "s \<in> set ?e \<Longrightarrow> base_id s = ck_id c \<and> (slot_after s = None \<or> slot_after s = ck_after c)" for s
    using expand_one_slots Cons.prems(2) by auto
  have r: "\<exists>c' \<in> set cs. base_id s = ck_id c'" if "s \<in> set ?r" for s
    using that expand_one_slots Cons.prems(2) by (fastforce simp: expand_all_def)
  show ?case
  proof (cases "k < length ?e")
    case True
    then have "slot_after (?e ! k) = Some a" using Cons.prems(5) by (simp add: all nth_append)
    then have "ck_after c = Some a" using e [OF nth_mem [OF True]] by auto
    then show ?thesis using Cons.prems(3) by simp
  next
    case False
    define k' where "k' = k - length ?e"
    have k': "k' < length ?r" "slot_after (?r ! k') = Some a"
      using False Cons.prems(4,5) by (auto simp: all nth_append k'_def)
    have "a \<in> set (ck_id c # seen) \<or> (\<forall>d < length ?r. base_id (?r ! d) = a \<longrightarrow> d < k')"
      using Cons.prems(1-3) by (intro Cons.IH [OF _ _ _ k']) auto
    then consider "a \<in> set seen" | "a = ck_id c" | "\<forall>d < length ?r. base_id (?r ! d) = a \<longrightarrow> d < k'" by auto
    then show ?thesis
    proof cases
      case 2
      have "d < k" if "d < length (expand_all E C (c # cs))" "base_id (expand_all E C (c # cs) ! d) = a" for d
      proof (rule ccontr)
        assume "\<not> d < k"
        then have "\<not> d < length ?e" using False by simp
        then have "base_id (?r ! (d - length ?e)) = a" "d - length ?e < length ?r"
          using that by (auto simp: all nth_append)
        then obtain c' where "c' \<in> set cs" "ck_id c' = ck_id c" using r [OF nth_mem] 2 by force
        then show False using Cons.prems(1) by (auto simp: image_iff)
      qed
      then show ?thesis by blast
    next
      case 3
      have "d < k" if d: "d < length (expand_all E C (c # cs))" "base_id (expand_all E C (c # cs) ! d) = a" for d
      proof (cases "d < length ?e")
        case True
        then show ?thesis using False by simp
      next
        case f: False
        with d have "d - length ?e < length ?r" "base_id (?r ! (d - length ?e)) = a" by (auto simp: all nth_append)
        with 3 have "d - length ?e < k'" by blast
        then show ?thesis using f False by (simp add: k'_def)
      qed
      then show ?thesis by blast
    qed blast
  qed
qed (simp add: expand_all_def)

lemma by_id_slot: "by_id slots i = Some d \<Longrightarrow> d < length slots \<and> slot_id (slots ! d) = i"
  by (auto simp: by_id_def in_set_zip dest!: map_of_SomeD)

lemma expanded_deps_earlier:
  assumes "distinct (map ck_id cs)" "\<forall>c \<in> set cs. CHR '':'' \<notin> set (ck_id c)" "after_ok [] cs"
    and "\<forall>c \<in> set cs. \<forall>a. ck_after c = Some a \<longrightarrow> CHR '':'' \<notin> set a"
    and "k < length (expand_all E C cs)" "slot_dep (expand_all E C cs) k = Some d"
  shows "d < k"
proof -
  let ?s = "expand_all E C cs"
  from assms(6) obtain r a where r: "?s ! k = Ready r" "rdy_after r = Some a" "resolve_dep (rdy_id r) a (by_id ?s) k = Some d"
    by (auto simp: slot_dep_def bind_Some_iff split: slot.splits)
  then have after: "slot_after (?s ! k) = Some a" by (simp add: slot_after_def)
  obtain c where "c \<in> set cs" "?s ! k \<in> set (expand_one E C c)"
    using nth_mem [OF assms(5)] by (auto simp: expand_all_def)
  then have a: "CHR '':'' \<notin> set a" using after expand_one_slots [of "?s ! k" E C c] assms(2,4) by auto
  from r(3) have "\<exists>x. by_id ?s x = Some d \<and> (x = a \<or> (\<exists>w. x = a @ '':'' @ w))"
    by (auto simp: resolve_dep_def split: option.splits if_splits)
  moreover have "takeWhile (\<lambda>c. c \<noteq> CHR '':'') (a @ CHR '':'' # w) = a" for w
    using a by (subst takeWhile_append2) auto
  ultimately have d: "d < length ?s" "base_id (?s ! d) = a"
    using by_id_slot [of ?s _ d] a by (auto simp: base_id_def takeWhile_eq_all_conv)
  show ?thesis using expanded_after_before [OF assms(1-3,5) after] d by auto
qed

text \<open>
  C10: A health run of the declared checks always can finish. Whatever the languages selected,
  the repository's workspaces and files, and however the tasks have interleaved so far, if the
  concurrency limit is positive then the tasks can be run until every check has its result:
  the prerequisites left after expansion have no cycle.
\<close>

theorem health_run_can_finish:
  assumes "sched_reach (expand_all E C (checks_for_languages langs)) max_parallel s" and "0 < max_parallel"
  shows "\<exists>evs. of_tasks (expand_all E C (checks_for_languages langs)) evs \<and>
    all_finished (expand_all E C (checks_for_languages langs))
      (run_tasks (expand_all E C (checks_for_languages langs)) max_parallel evs s)"
proof -
  let ?cs = "checks_for_languages langs"
  note wf = presets_well_formed [of langs]
  have "\<forall>c \<in> set ?cs. CHR '':'' \<notin> set (ck_id c) \<and> (\<forall>a. ck_after c = Some a \<longrightarrow> CHR '':'' \<notin> set a)"
    by (auto simp: checks_for_languages_concat PRESET_ORDER_def selected_def preset_checks_def presets)
  then have "\<forall>k < length (expand_all E C ?cs). \<forall>d. slot_dep (expand_all E C ?cs) k = Some d \<longrightarrow> id d < id k"
    using expanded_deps_earlier [of ?cs] wf by simp
  from sched_runs_out [OF assms this] show ?thesis by blast
qed

theorem health_run_can_finish_witness:
  "\<exists>evs. of_tasks (expand_all sample_env sample_ctx (checks_for_languages [''python''])) evs \<and>
    all_finished (expand_all sample_env sample_ctx (checks_for_languages [''python'']))
      (run_tasks (expand_all sample_env sample_ctx (checks_for_languages [''python''])) 1 evs
        (sched_init (expand_all sample_env sample_ctx (checks_for_languages [''python'']))))"
  by (rule health_run_can_finish) (auto intro: sched_reach.start)

section \<open>A project without workspaces\<close>

text \<open>
  The single slot of a project without workspaces keeps the declared output: the path of its
  coverage file still holds the token, while the command writes to the substituted path.
\<close>

lemma no_workspaces_output_unsubstituted:
  assumes "read_npm_workspaces E (path_join (rc_root C) (ck_cwd c)) = Inr None"
  shows "\<exists>r. expand_npm_workspaces E C c = [Ready r] \<and> rdy_output r = ck_output c"
  using assms by (simp add: expand_npm_workspaces_def ready_single_def)

lemma no_workspaces_coverage_errored:
  assumes "rdy_output r = Lcov ''ts-cov/{workspace_slug}/lcov.info''"
    and "re_read E (path_join (rc_out_dir C) ''ts-cov/{workspace_slug}/lcov.info'') = Inl err"
  shows "cr_status (so_result (finish_check E C r \<lparr>ex_status = Passed, ex_code = Some 0, ex_reason = None\<rparr> out ot et d)) = Errored"
  using assms by (simp add: finish_check_def interpret_output_def no_coverage_def Let_def)

end
