(* ===== verification/Confine.thy ===== *)
theory Confine
  imports HlReport
begin

text \<open>
  Confinement of the paths agents give to the sandbox's tools (\<open>confine_path\<close> and
  \<open>join_lexical\<close> in \<open>sandbox/src/tools_impl.rs\<close>), over a model of a POSIX file system with
  symbolic links: what \<open>canonicalize\<close>, \<open>exists\<close> and opening a path for creation resolve to.
  Permissions and changes between two calls are not modelled. Paths are absolute lists of
  components, without dots.
\<close>

type_synonym path = "string list"

datatype node = Dir | File | Link bool path \<comment> \<open>absolute?, components of the target\<close>

type_synonym fs = "path \<Rightarrow> node option"

definition dotdot :: string where "dotdot = ''..''"

section \<open>Resolution by the system\<close>

text \<open>
  Walking the components from a resolved directory; the number bounds the links followed
  (\<open>MAXSYMLINKS\<close>).
\<close>

function walk :: "fs \<Rightarrow> nat \<Rightarrow> path \<Rightarrow> path \<Rightarrow> path option" where
  "walk F n cur [] = Some cur"
| "walk F n cur (c # cs) =
     (if c = dotdot then walk F n (butlast cur) cs
      else case F (cur @ [c]) of
          None \<Rightarrow> None
        | Some Dir \<Rightarrow> walk F n (cur @ [c]) cs
        | Some File \<Rightarrow> (if cs = [] then Some (cur @ [c]) else None)
        | Some (Link ab target) \<Rightarrow>
            (case n of 0 \<Rightarrow> None | Suc m \<Rightarrow> walk F m (if ab then [] else cur) (target @ cs)))"
  by pat_completeness auto
termination
  by (relation "measures [\<lambda>(F, n, cur, cs). n, \<lambda>(F, n, cur, cs). length cs]") auto

definition MAXSYMLINKS :: nat where "MAXSYMLINKS = 40"

definition canonicalize :: "fs \<Rightarrow> path \<Rightarrow> path option" where
  "canonicalize F p = walk F MAXSYMLINKS [] p"

definition path_exists :: "fs \<Rightarrow> path \<Rightarrow> bool" where
  "path_exists F p \<longleftrightarrow> canonicalize F p \<noteq> None"

text \<open>Where a file is created when a path is opened for writing: a missing last component is allowed.\<close>

function create_at :: "fs \<Rightarrow> nat \<Rightarrow> path \<Rightarrow> path \<Rightarrow> path option" where
  "create_at F n cur [] = Some cur"
| "create_at F n cur (c # cs) =
     (if c = dotdot then create_at F n (butlast cur) cs
      else case F (cur @ [c]) of
          None \<Rightarrow> (if cs = [] then Some (cur @ [c]) else None)
        | Some Dir \<Rightarrow> create_at F n (cur @ [c]) cs
        | Some File \<Rightarrow> (if cs = [] then Some (cur @ [c]) else None)
        | Some (Link ab target) \<Rightarrow>
            (case n of 0 \<Rightarrow> None | Suc m \<Rightarrow> create_at F m (if ab then [] else cur) (target @ cs)))"
  by pat_completeness auto
termination
  by (relation "measures [\<lambda>(F, n, cur, cs). n, \<lambda>(F, n, cur, cs). length cs]") auto

declare walk.simps(2) [simp del] create_at.simps(2) [simp del]

section \<open>Confinement\<close>

datatype sandbox_error =
    InvalidRoot path
  | AncestorResolutionFailed path
  | PathEscape string path

definition join_lexical :: "path \<Rightarrow> path \<Rightarrow> path" where
  "join_lexical base rest = foldl (\<lambda>r c. if c = dotdot then butlast r else r @ [c]) base rest"

text \<open>\<open>trim_end_matches('/')\<close>, then the components of the text: empty ones and dots go.\<close>

definition user_comps :: "string \<Rightarrow> path" where
  "user_comps t = filter (\<lambda>c. c \<noteq> [] \<and> c \<noteq> ''.'') (split_on slash t)"

text \<open>The loop over \<open>ancestor.parent()\<close>: the deepest ancestor that exists.\<close>

function deepest_existing :: "fs \<Rightarrow> path \<Rightarrow> path option" where
  "deepest_existing F p =
     (if path_exists F p then Some p else if p = [] then None else deepest_existing F (butlast p))"
  by pat_completeness auto
termination
  by (relation "measure (\<lambda>(F, p). length p)") auto

declare deepest_existing.simps [simp del]

definition candidate_of :: "path \<Rightarrow> string \<Rightarrow> path" where
  "candidate_of sandbox_root trimmed =
     (if prefix ''/'' trimmed then user_comps trimmed else sandbox_root @ user_comps trimmed)"

definition confine_path :: "fs \<Rightarrow> path \<Rightarrow> string \<Rightarrow> sandbox_error + path" where
  "confine_path F sandbox_root user_path =
     (case canonicalize F sandbox_root of
        None \<Rightarrow> Inl (InvalidRoot sandbox_root)
      | Some root \<Rightarrow>
          (let trimmed = trim_end_by (\<lambda>c. c = slash) user_path in
           if trimmed = [] then Inr root
           else
             let candidate = candidate_of sandbox_root trimmed;
                 resolved = (case deepest_existing F candidate of
                     Some d \<Rightarrow>
                       (case (if d = sandbox_root then Some root else canonicalize F d) of
                          None \<Rightarrow> Inl (AncestorResolutionFailed d)
                        | Some canon \<Rightarrow> Inr (join_lexical canon (drop (length d) candidate)))
                   | None \<Rightarrow> Inr candidate)
             in case resolved of
                  Inl e \<Rightarrow> Inl e
                | Inr p \<Rightarrow> if prefix root p then Inr p else Inl (PathEscape user_path root)))"

section \<open>Resolution, by lemmas\<close>

lemma walk_mono: "walk F n cur cs = Some q \<Longrightarrow> n \<le> m \<Longrightarrow> walk F m cur cs = Some q"
proof (induction F n cur cs arbitrary: m rule: walk.induct)
  case (2 F n cur c cs)
  show ?case
  proof (cases "c = dotdot")
    case True
    then show ?thesis using 2 by (simp add: walk.simps(2))
  next
    case False
    show ?thesis
    proof (cases "F (cur @ [c])")
      case None
      then show ?thesis using 2(4) False by (simp add: walk.simps(2))
    next
      case (Some nd)
      show ?thesis
      proof (cases nd)
        case (Link ab target)
        then obtain k where k: "n = Suc k" using 2(4) Some False by (cases n) (simp_all add: walk.simps(2))
        then obtain j where j: "m = Suc j" "k \<le> j" using 2(5) by (cases m) auto
        have "walk F k (if ab then [] else cur) (target @ cs) = Some q"
          using 2(4) Some Link False k by (simp add: walk.simps(2))
        from 2(3) [OF False Some Link k this j(2)] show ?thesis
          using Some Link False j by (simp add: walk.simps(2))
      next
        case Dir
        with 2(4) Some False have "walk F n (cur @ [c]) cs = Some q" by (simp add: walk.simps(2))
        from 2(2) [OF False Some Dir this 2(5)] Some Dir False show ?thesis by (simp add: walk.simps(2))
      next
        case File
        with 2(4) Some False show ?thesis by (simp add: walk.simps(2))
      qed
    qed
  qed
qed simp

lemma walk_append:
  "walk F n cur xs = Some p \<Longrightarrow> walk F m p ys = Some q \<Longrightarrow> (p \<noteq> [] \<and> F p = Some File \<longrightarrow> ys = []) \<Longrightarrow>
   walk F (n + m) cur (xs @ ys) = Some q"
proof (induction F n cur xs rule: walk.induct)
  case (1 F n cur)
  have "walk F (n + m) p ys = Some q" by (rule walk_mono [OF 1(2)]) simp
  moreover have "p = cur" using 1(1) by simp
  ultimately show ?case by simp
next
  case (2 F n cur c cs)
  show ?case
  proof (cases "c = dotdot")
    case True
    with 2(4) have "walk F n (butlast cur) cs = Some p" by (simp add: walk.simps(2))
    from 2(1) [OF True this 2(5,6)] True show ?thesis by (simp add: walk.simps(2))
  next
    case False
    show ?thesis
    proof (cases "F (cur @ [c])")
      case None
      then show ?thesis using 2(4) False by (simp add: walk.simps(2))
    next
      case (Some nd)
      show ?thesis
      proof (cases nd)
        case Dir
        with 2(4) Some False have "walk F n (cur @ [c]) cs = Some p" by (simp add: walk.simps(2))
        from 2(2) [OF False Some Dir this 2(5,6)] Some Dir False show ?thesis by (simp add: walk.simps(2))
      next
        case File
        then have p: "cs = []" "p = cur @ [c]" using 2(4) Some False by (auto simp: walk.simps(2) split: if_splits)
        then have "ys = []" using 2(6) Some File by auto
        then show ?thesis using p 2(5) Some File False by (simp add: walk.simps(2))
      next
        case (Link ab target)
        then obtain k where k: "n = Suc k" using 2(4) Some False by (cases n) (simp_all add: walk.simps(2))
        with 2(4) Some False Link have "walk F k (if ab then [] else cur) (target @ cs) = Some p" by (simp add: walk.simps(2))
        from 2(3) [OF False Some Link k this 2(5,6)] Some Link False k show ?thesis by (simp add: walk.simps(2))
      qed
    qed
  qed
qed

lemma walk_prefix: "walk F n cur (xs @ ys) = Some q \<Longrightarrow> \<exists>p. walk F n cur xs = Some p"
proof (induction F n cur xs rule: walk.induct)
  case (2 F n cur c cs)
  show ?case
  proof (cases "c = dotdot")
    case True
    then show ?thesis using 2 by (simp add: walk.simps(2))
  next
    case False
    show ?thesis
    proof (cases "F (cur @ [c])")
      case None
      then show ?thesis using 2(4) False by (simp add: walk.simps(2))
    next
      case (Some nd)
      then show ?thesis
        using 2 False by (cases nd; cases n) (auto simp: walk.simps(2) split: if_splits)
    qed
  qed
qed simp

text \<open>Real paths: every component is a directory, none is a link or a parent.\<close>

definition real_dir :: "fs \<Rightarrow> path \<Rightarrow> bool" where
  "real_dir F q \<longleftrightarrow> (\<forall>r c. prefix (r @ [c]) q \<longrightarrow> F (r @ [c]) = Some Dir \<and> c \<noteq> dotdot)"

definition real_path :: "fs \<Rightarrow> path \<Rightarrow> bool" where
  "real_path F q \<longleftrightarrow> real_dir F q \<or> (\<exists>r c. q = r @ [c] \<and> real_dir F r \<and> F q = Some File \<and> c \<noteq> dotdot)"

lemma real_dir_Nil [simp]: "real_dir F []"
  by (simp add: real_dir_def)

lemma real_dir_snoc: "real_dir F (q @ [c]) \<longleftrightarrow> real_dir F q \<and> F (q @ [c]) = Some Dir \<and> c \<noteq> dotdot"
  by (auto simp: real_dir_def prefix_snoc)

lemma real_dir_butlast: "real_dir F q \<Longrightarrow> real_dir F (butlast q)"
  by (cases q rule: rev_cases) (auto simp: real_dir_snoc)

lemma walk_real: "walk F n cur cs = Some q \<Longrightarrow> real_dir F cur \<Longrightarrow> real_path F q"
proof (induction F n cur cs rule: walk.induct)
  case (1 F n cur)
  then show ?case by (simp add: real_path_def)
next
  case (2 F n cur c cs)
  show ?case
  proof (cases "c = dotdot")
    case True
    then show ?thesis using 2 real_dir_butlast by (simp add: walk.simps(2))
  next
    case False
    show ?thesis
    proof (cases "F (cur @ [c])")
      case None
      then show ?thesis using 2(4) False by (simp add: walk.simps(2))
    next
      case (Some nd)
      show ?thesis
      proof (cases nd)
        case Dir
        then show ?thesis using 2 Some False by (simp add: walk.simps(2) real_dir_snoc)
      next
        case File
        then show ?thesis using 2 Some False by (auto simp: walk.simps(2) real_path_def split: if_splits)
      next
        case (Link ab target)
        then show ?thesis using 2 Some False by (cases n) (auto simp: walk.simps(2) split: if_splits)
      qed
    qed
  qed
qed

lemma walk_real_dir: "real_dir F (a @ q) \<Longrightarrow> walk F n a (q @ cs) = walk F n (a @ q) cs"
proof (induction q arbitrary: a)
  case (Cons c q)
  then have "real_dir F ((a @ [c]) @ q)" by simp
  moreover have "prefix (a @ [c]) (a @ c # q)" by simp
  then have "F (a @ [c]) = Some Dir" "c \<noteq> dotdot" using Cons.prems unfolding real_dir_def by blast+
  ultimately show ?case using Cons.IH [of "a @ [c]"] by (simp add: walk.simps(2))
qed simp

lemma canonicalize_real_dir: "real_dir F q \<Longrightarrow> canonicalize F (q @ cs) = walk F MAXSYMLINKS q cs"
  using walk_real_dir [of F "[]" q MAXSYMLINKS cs] by (simp add: canonicalize_def)

lemma canonicalize_real: "real_path F q \<Longrightarrow> canonicalize F q = Some q"
proof (cases "real_dir F q")
  case True
  then show ?thesis using canonicalize_real_dir [of F q "[]"] by simp
next
  case False
  assume "real_path F q"
  with False obtain r c where q: "q = r @ [c]" "real_dir F r" "F q = Some File" "c \<noteq> dotdot" by (auto simp: real_path_def)
  then show ?thesis using canonicalize_real_dir [OF q(2), of "[c]"] by (simp add: walk.simps(2))
qed

lemma real_path_no_dotdot: "real_path F q \<Longrightarrow> dotdot \<notin> set q"
proof -
  have d: "real_dir F q \<Longrightarrow> dotdot \<notin> set q" for q
    by (induction q rule: rev_induct) (auto simp: real_dir_snoc)
  show "real_path F q \<Longrightarrow> dotdot \<notin> set q" using d by (auto simp: real_path_def)
qed

section \<open>What confinement gives\<close>

lemma deepest_existing_spec:
  "deepest_existing F p = Some d \<Longrightarrow> prefix d p \<and> path_exists F d \<and> (\<forall>e. prefix e p \<and> length d < length e \<longrightarrow> \<not> path_exists F e)"
proof (induction F p rule: deepest_existing.induct)
  case (1 F p)
  show ?case
  proof (cases "path_exists F p")
    case True
    then have "d = p" using 1(2) by (simp add: deepest_existing.simps [of F p])
    with True show ?thesis using prefix_length_le by fastforce
  next
    case False
    then have p: "p \<noteq> []" "deepest_existing F (butlast p) = Some d"
      using 1(2) by (auto simp: deepest_existing.simps [of F p] split: if_splits)
    from 1(1) [OF False p] have d: "prefix d (butlast p)" "path_exists F d"
      "\<forall>e. prefix e (butlast p) \<and> length d < length e \<longrightarrow> \<not> path_exists F e" by auto
    have "prefix e p \<Longrightarrow> e = p \<or> prefix e (butlast p)" for e
      using p(1) by (metis append_butlast_last_id prefix_snoc)
    moreover have "prefix d p" using d(1) p(1) by (metis append_butlast_last_id prefix_order.dual_order.trans prefixI)
    ultimately show ?thesis using d False by blast
  qed
qed

lemma join_lexical_plain: "dotdot \<notin> set rest \<Longrightarrow> join_lexical base rest = base @ rest"
  unfolding join_lexical_def by (induction rest arbitrary: base) auto

lemma join_lexical_no_dotdot: "dotdot \<notin> set base \<Longrightarrow> dotdot \<notin> set (join_lexical base rest)"
  unfolding join_lexical_def by (induction rest arbitrary: base) (auto dest: in_set_butlastD)

lemma deepest_existing_some: "\<exists>d. deepest_existing F c = Some d"
proof (induction F c rule: deepest_existing.induct)
  case (1 F p)
  have "path_exists F []" by (simp add: path_exists_def canonicalize_def)
  then show ?case using 1 by (subst deepest_existing.simps) auto
qed

lemma confine_path_cases:
  assumes "confine_path F sandbox_root user_path = Inr p" and "canonicalize F sandbox_root = Some root"
  shows "prefix root p \<and> (p = root \<or> (\<exists>d canon.
    deepest_existing F (candidate_of sandbox_root (trim_end_by (\<lambda>c. c = slash) user_path)) = Some d \<and> canonicalize F d = Some canon \<and>
    p = join_lexical canon (drop (length d) (candidate_of sandbox_root (trim_end_by (\<lambda>c. c = slash) user_path)))))"
proof -
  let ?t = "trim_end_by (\<lambda>c. c = slash) user_path"
  obtain d where "deepest_existing F (candidate_of sandbox_root ?t) = Some d" using deepest_existing_some by blast
  then show ?thesis
    using assms by (auto simp: confine_path_def Let_def split: if_splits option.splits)
qed

text \<open>
  What confinement always gives. Whatever the path an agent asks for and whatever the file
  system, an accepted path lies textually below the resolved root of the sandbox and has no
  parent component left.
\<close>

theorem confine_path_below_root:
  assumes "confine_path F sandbox_root user_path = Inr p"
  shows "\<exists>root. canonicalize F sandbox_root = Some root \<and> prefix root p \<and> dotdot \<notin> set p"
proof -
  obtain root where root: "canonicalize F sandbox_root = Some root"
    using assms by (auto simp: confine_path_def split: option.splits)
  have r: "canonicalize F x = Some y \<Longrightarrow> dotdot \<notin> set y" for x y
    using walk_real [of F MAXSYMLINKS "[]" x y] real_path_no_dotdot by (auto simp: canonicalize_def)
  from confine_path_cases [OF assms root] r [OF root] r join_lexical_no_dotdot show ?thesis
    using root by blast
qed


section \<open>Two ways around it\<close>

text \<open>
  A small file system: the sandbox \<open>/w\<close> with a link \<open>l\<close> to \<open>/e\<close> outside and a dangling
  link \<open>n\<close> to \<open>/e/n\<close>, and a file \<open>/e/p\<close>.
\<close>

definition sample_fs :: fs where
  "sample_fs = [[''w''] \<mapsto> Dir, [''e''] \<mapsto> Dir, [''e'', ''p''] \<mapsto> File, [''w'', ''a''] \<mapsto> File,
     [''w'', ''l''] \<mapsto> Link True [''e''], [''w'', ''n''] \<mapsto> Link True [''e'', ''n'']]"

lemmas walk_eval = walk.simps(2) create_at.simps(2) sample_fs_def dotdot_def MAXSYMLINKS_def numeral_eq_Suc

text \<open>
  A parent component after a missing one is resolved textually, and what follows it is not
  resolved again: the request \<open>x/../l/p\<close> is accepted and opens \<open>/e/p\<close>.
\<close>

lemma escape_through_missing_component:
  "confine_path sample_fs [''w''] ''x/../l/p'' = Inr [''w'', ''l'', ''p'']"
  "canonicalize sample_fs [''w'', ''l'', ''p''] = Some [''e'', ''p'']"
proof -
  have c: "canonicalize sample_fs [''w''] = Some [''w'']" "canonicalize sample_fs [''w'', ''x''] = None"
    "canonicalize sample_fs [''w'', ''x'', ''..''] = None" "canonicalize sample_fs [''w'', ''x'', ''..'', ''l''] = None"
    "canonicalize sample_fs [''w'', ''x'', ''..'', ''l'', ''p''] = None"
    by (simp_all add: canonicalize_def walk_eval)
  have "deepest_existing sample_fs [''w'', ''x'', ''..'', ''l'', ''p''] = Some [''w'']"
    by (simp add: deepest_existing.simps path_exists_def c)
  then show "confine_path sample_fs [''w''] ''x/../l/p'' = Inr [''w'', ''l'', ''p'']"
    by (simp add: confine_path_def c trim_end_by_def candidate_of_def user_comps_def join_lexical_def dotdot_def)
  show "canonicalize sample_fs [''w'', ''l'', ''p''] = Some [''e'', ''p'']"
    by (simp add: canonicalize_def walk_eval)
qed

text \<open>A dangling link counts as missing, so it is accepted as the place of a new file.\<close>

lemma escape_through_dangling_link:
  "confine_path sample_fs [''w''] ''n'' = Inr [''w'', ''n'']"
  "create_at sample_fs MAXSYMLINKS [] [''w'', ''n''] = Some [''e'', ''n'']"
proof -
  have c: "canonicalize sample_fs [''w''] = Some [''w'']" "canonicalize sample_fs [''w'', ''n''] = None"
    by (simp_all add: canonicalize_def walk_eval)
  have "deepest_existing sample_fs [''w'', ''n''] = Some [''w'']"
    by (simp add: deepest_existing.simps path_exists_def c)
  then show "confine_path sample_fs [''w''] ''n'' = Inr [''w'', ''n'']"
    by (simp add: confine_path_def c trim_end_by_def candidate_of_def user_comps_def join_lexical_def dotdot_def)
  show "create_at sample_fs MAXSYMLINKS [] [''w'', ''n''] = Some [''e'', ''n'']"
    by (simp add: walk_eval)
qed

section \<open>Witnesses\<close>

definition plain_fs :: fs where
  "plain_fs = [[''w''] \<mapsto> Dir, [''w'', ''a''] \<mapsto> File]"

lemma plain_confine: "confine_path plain_fs [''w''] ''a'' = Inr [''w'', ''a'']"
  "canonicalize plain_fs [''w''] = Some [''w'']" "canonicalize plain_fs [''w'', ''a''] = Some [''w'', ''a'']"
proof -
  show c: "canonicalize plain_fs [''w''] = Some [''w'']" "canonicalize plain_fs [''w'', ''a''] = Some [''w'', ''a'']"
    by (simp_all add: canonicalize_def walk.simps(2) plain_fs_def dotdot_def)
  have "deepest_existing plain_fs [''w'', ''a''] = Some [''w'', ''a'']"
    by (simp add: deepest_existing.simps path_exists_def c)
  then show "confine_path plain_fs [''w''] ''a'' = Inr [''w'', ''a'']"
    by (simp add: confine_path_def c trim_end_by_def candidate_of_def user_comps_def join_lexical_def)
qed

lemma plain_no_links: "walk plain_fs n cur cs = walk plain_fs m cur cs"
proof (induction plain_fs n cur cs rule: walk.induct)
  case (2 n cur c cs)
  have "plain_fs (cur @ [c]) \<noteq> Some (Link ab t)" for ab t by (simp add: plain_fs_def)
  with 2 show ?case by (auto simp: walk.simps(2) split: option.split node.split)
qed simp

theorem confine_path_below_root_witness:
  "\<exists>root. canonicalize plain_fs [''w''] = Some root \<and> prefix root [''w'', ''a''] \<and> dotdot \<notin> set [''w'', ''a'']"
  by (rule confine_path_below_root [OF plain_confine(1)])


end
