(* ===== verification/LspText.thy ===== *)
theory LspText
  imports NumText "HOL-Library.Multiset"
begin

text \<open>
  The text side of the sandbox's language-server tools (\<open>sandbox/src/tools_impl.rs\<close>): finding
  the position a request means, turning positions into offsets, applying the edits of a
  workspace edit, comparing diagnostics before and after an edit, and finding the symbol around
  a reference. JSON values are those of the prelude.
\<close>

section \<open>Positions\<close>

record symbol_target =
  st_path :: string
  st_line :: nat
  st_symbol :: "string option"
  st_character :: "nat option"

datatype position_resolution = Unique nat nat | Ambiguous nat nat nat nat

definition is_ident_char :: "string \<Rightarrow> bool" where
  "is_ident_char c = (case c of [b] \<Rightarrow> is_ascii_alnum b \<or> b = CHR ''_'' | _ \<Rightarrow> False)"

definition delimited :: "string list \<Rightarrow> string list \<Rightarrow> nat \<Rightarrow> bool" where
  "delimited chars smb start \<longleftrightarrow>
     take (length smb) (drop start chars) = smb \<and>
     (start = 0 \<or> \<not> is_ident_char (chars ! (start - 1))) \<and>
     (start + length smb = length chars \<or> \<not> is_ident_char (chars ! (start + length smb)))"

text \<open>The loop over the start positions.\<close>

function symbol_hits :: "string list \<Rightarrow> string list \<Rightarrow> nat \<Rightarrow> nat list" where
  "symbol_hits chars smb start =
     (if start + length smb \<le> length chars
      then (if delimited chars smb start then [start] else []) @ symbol_hits chars smb (start + 1)
      else [])"
  by pat_completeness auto
termination
  by (relation "measure (\<lambda>(chars, smb, start). Suc (length chars) - start)") auto

declare symbol_hits.simps [simp del]

definition out_of_range :: "nat \<Rightarrow> nat \<Rightarrow> string" where
  "out_of_range line n = ''VNL-SBX-LSP-007: line '' @ show_nat line @ '' out of range ('' @ show_nat n @ '' lines)''"

definition resolve_position :: "string \<Rightarrow> symbol_target \<Rightarrow> string + position_resolution" where
  "resolve_position content target =
     (let ls = str_lines content in
      if st_line target = 0 \<or> length ls < st_line target then Inl (out_of_range (st_line target) (length ls))
      else let line0 = st_line target - 1; chars = utf8_chars (ls ! line0) in
        case st_symbol target of
          Some (c # cs) \<Rightarrow>
            (case symbol_hits chars (utf8_chars (c # cs)) 0 of
               [] \<Rightarrow> Inl (''VNL-SBX-LSP-010: symbol '' @ [CHR 0x22] @ (c # cs) @ [CHR 0x22] @
                        '' not found as identifier on line '' @ show_nat (st_line target) @ '' of '' @ st_path target)
             | [h] \<Rightarrow> Inr (Unique line0 h)
             | h # h2 # hs \<Rightarrow> Inr (Ambiguous line0 h (length (h # h2 # hs)) (h2 + 1)))
        | _ \<Rightarrow> Inr (Unique line0 ((case st_character target of None \<Rightarrow> 0 | Some c \<Rightarrow> c) - 1)))"

definition line_snippet :: "string \<Rightarrow> nat \<Rightarrow> string option" where
  "line_snippet content line0 =
     (if line0 < length (str_lines content) then Some (str_trim (str_lines content ! line0)) else None)"

definition position_to_offset :: "string \<Rightarrow> nat \<Rightarrow> nat \<Rightarrow> string + nat" where
  "position_to_offset content line character =
     (let ls = str_lines content in
      if length ls \<le> line then Inl (out_of_range line (length ls))
      else let chars = utf8_chars (ls ! line); clamped = min character (length chars)
        in Inr (sum_list (map (\<lambda>l. length l + 1) (take line ls)) + sum_list (map length (take clamped chars))))"

section \<open>Edits\<close>

text \<open>Reading through members: \<open>v.get(a).and_then(|w| w.get(b))\<close> and so on.\<close>

fun jpath :: "string list \<Rightarrow> string json \<Rightarrow> string json option" where
  "jpath [] v = Some v"
| "jpath (k # ks) v = Option.bind (jget k v) (jpath ks)"

definition edit_error :: "string \<Rightarrow> string" where
  "edit_error reason = ''VNL-SBX-LSP-008: '' @ reason"

definition edit_end :: "string \<Rightarrow> string \<Rightarrow> string json \<Rightarrow> string + nat" where
  "edit_end content which rng =
     (case Option.bind (jpath [which, ''line''] rng) as_u64 of
        None \<Rightarrow> Inl (edit_error (''TextEdit range missing '' @ [CHR 0x27] @ which @ [CHR 0x27] @ '' line''))
      | Some line \<Rightarrow>
          (case Option.bind (jpath [which, ''character''] rng) as_u64 of
             None \<Rightarrow> Inl (edit_error (''TextEdit range missing '' @ [CHR 0x27] @ which @ [CHR 0x27] @ '' character''))
           | Some c \<Rightarrow>
               (case position_to_offset content line c of
                  Inl _ \<Rightarrow> Inl (edit_error (''invalid '' @ which @ '' position in TextEdit''))
                | Inr offset \<Rightarrow> Inr offset)))"

record parsed_edit =
  pe_start :: nat
  pe_end :: nat
  pe_text :: string

definition parse_edit :: "string \<Rightarrow> string json \<Rightarrow> string + parsed_edit" where
  "parse_edit content edit =
     (case jget ''range'' edit of
        None \<Rightarrow> Inl (edit_error (''TextEdit missing '' @ [CHR 0x27] @ ''range'' @ [CHR 0x27]))
      | Some rng \<Rightarrow>
          (case edit_end content ''start'' rng of
             Inl e \<Rightarrow> Inl e
           | Inr s \<Rightarrow>
               (case edit_end content ''end'' rng of
                  Inl e \<Rightarrow> Inl e
                | Inr e \<Rightarrow>
                   (if e < s then Inl (edit_error (''TextEdit range start > end ('' @ show_nat s @ '' > '' @ show_nat e @ '')''))
                    else Inr \<lparr>pe_start = s, pe_end = e,
                      pe_text = (case Option.bind (jget ''newText'' edit) as_str of None \<Rightarrow> [] | Some t \<Rightarrow> t)\<rparr>))))"

fun parse_edits :: "string \<Rightarrow> string json list \<Rightarrow> string + parsed_edit list" where
  "parse_edits content [] = Inr []"
| "parse_edits content (e # es) =
     (case parse_edit content e of
        Inl err \<Rightarrow> Inl err
      | Inr p \<Rightarrow> map_sum id ((#) p) (parse_edits content es))"

text \<open>\<open>String::replace_range\<close>, which panics outside the text and inside a character.\<close>

definition replace_range :: "parsed_edit \<Rightarrow> string \<Rightarrow> string option" where
  "replace_range e s =
     (if pe_start e \<le> pe_end e \<and> pe_end e \<le> length s \<and> is_char_boundary s (pe_start e) \<and> is_char_boundary s (pe_end e)
      then Some (take (pe_start e) s @ pe_text e @ drop (pe_end e) s) else None)"

text \<open>\<open>sort_by_key(Reverse(start))\<close> is stable: edits with one start keep their order.\<close>

definition descending :: "parsed_edit list \<Rightarrow> parsed_edit list" where
  "descending es = rev (sort_key pe_start (rev es))"

fun replace_ranges :: "parsed_edit list \<Rightarrow> string \<Rightarrow> string option" where
  "replace_ranges [] s = Some s"
| "replace_ranges (e # es) s = Option.bind (replace_range e s) (replace_ranges es)"

text \<open>\<open>None\<close> is a panic, \<open>Inl\<close> an error.\<close>

definition apply_text_edits :: "string \<Rightarrow> string json list \<Rightarrow> (string + string) option" where
  "apply_text_edits content edits =
     (case parse_edits content edits of
        Inl e \<Rightarrow> Some (Inl e)
      | Inr parsed \<Rightarrow> map_option Inr (replace_ranges (descending parsed) content))"

text \<open>The files of a workspace edit: \<open>changes\<close> first, then \<open>documentChanges\<close>, merged by URI.\<close>

definition change_entries :: "string json \<Rightarrow> (string \<times> string json list) list" where
  "change_entries edit =
     (case Option.bind (jget ''changes'' edit) as_obj of
        None \<Rightarrow> []
      | Some ms \<Rightarrow> List.map_filter (\<lambda>(uri, es). map_option (Pair uri) (as_arr es)) ms)"

definition doc_change :: "string json \<Rightarrow> (string \<times> string json list) option" where
  "doc_change dc =
     Option.bind (Option.bind (jpath [''textDocument'', ''uri''] dc) as_str) (\<lambda>uri.
       map_option (Pair uri) (Option.bind (jget ''edits'' dc) as_arr))"

fun merge_file :: "string \<times> string json list \<Rightarrow> (string \<times> string json list) list \<Rightarrow> (string \<times> string json list) list" where
  "merge_file (uri, es) [] = [(uri, es)]"
| "merge_file (uri, es) ((u, old) # rest) =
     (if u = uri then (u, old @ es) # rest else (u, old) # merge_file (uri, es) rest)"

definition workspace_edit_files :: "string json \<Rightarrow> (string \<times> string json list) list" where
  "workspace_edit_files edit =
     foldl (\<lambda>out dc. case doc_change dc of None \<Rightarrow> out | Some f \<Rightarrow> merge_file f out) (change_entries edit)
       (case Option.bind (jget ''documentChanges'' edit) as_arr of None \<Rightarrow> [] | Some ds \<Rightarrow> ds)"

section \<open>Diagnostics before and after\<close>

definition I64_MAX :: int where "I64_MAX = 2 ^ 63 - 1"

text \<open>\<open>saturating_add(1)\<close> on \<open>i64\<close>.\<close>

definition succ_i64 :: "int \<Rightarrow> int" where
  "succ_i64 i = (if i < I64_MAX then i + 1 else I64_MAX)"

type_synonym diag_ident = "int \<times> int \<times> int \<times> string"

definition i64_at :: "string list \<Rightarrow> string json \<Rightarrow> int option" where
  "i64_at ks v = Option.bind (jpath ks v) as_i64"

definition or_else :: "'a option \<Rightarrow> 'a \<Rightarrow> 'a" where
  "or_else v d = (case v of None \<Rightarrow> d | Some x \<Rightarrow> x)"

definition diag_key :: "string json \<Rightarrow> diag_ident" where
  "diag_key d = (succ_i64 (or_else (i64_at [''range'', ''start'', ''line''] d) 0),
                 succ_i64 (or_else (i64_at [''range'', ''start'', ''character''] d) 0),
                 or_else (i64_at [''severity''] d) 1,
                 or_else (Option.bind (jget ''message'' d) as_str) [])"

record diagnostics_diff =
  dd_appeared :: "diag_ident list"
  dd_gone :: "diag_ident list"
  dd_unchanged :: nat

definition count_diag_keys :: "string json list \<Rightarrow> diag_ident \<Rightarrow> nat" where
  "count_diag_keys diags = foldl (\<lambda>counts d. counts(diag_key d := counts (diag_key d) + 1)) (\<lambda>_. 0) diags"

text \<open>One of the two pairing loops: the diagnostics of a stream left over by the other side's counts.\<close>

definition unpaired :: "(diag_ident \<Rightarrow> nat) \<Rightarrow> string json list \<Rightarrow> diag_ident list" where
  "unpaired available diags = snd (foldl (\<lambda>(paired, out) d.
     let key = diag_key d in
     if paired key < available key then (paired(key := paired key + 1), out) else (paired, out @ [key]))
     (\<lambda>_. 0 :: nat, []) diags)"

definition diff_diagnostics :: "string json list \<Rightarrow> string json list \<Rightarrow> diagnostics_diff" where
  "diff_diagnostics before after =
     (let b = count_diag_keys before; a = count_diag_keys after
      in \<lparr>dd_appeared = unpaired b after, dd_gone = unpaired a before,
          dd_unchanged = sum_list (map (\<lambda>k. min (a k) (b k)) (remdups (map diag_key after)))\<rparr>)"

section \<open>Symbols around a line\<close>

definition flat_enclosing :: "string json list \<Rightarrow> int \<Rightarrow> string json option" where
  "flat_enclosing symbols ref_line0 = map_option snd (foldl (\<lambda>best smb.
     case i64_at [''location'', ''range'', ''start'', ''line''] smb of
       None \<Rightarrow> best
     | Some line0 \<Rightarrow>
         (if ref_line0 < line0 then best
          else case best of
              None \<Rightarrow> Some (line0, smb)
            | Some (best_line, _) \<Rightarrow> if best_line < line0 then Some (line0, smb) else best)) None symbols)"

definition symbol_lines :: "string json \<Rightarrow> (int \<times> int) option" where
  "symbol_lines smb =
     (case jget ''range'' smb of
        Some (JObj r) \<Rightarrow> Option.bind (i64_at [''start'', ''line''] (JObj r)) (\<lambda>s.
          map_option (Pair s) (i64_at [''end'', ''line''] (JObj r)))
      | _ \<Rightarrow> None)"

definition covers_line :: "string json \<Rightarrow> int \<Rightarrow> bool" where
  "covers_line smb l = (case symbol_lines smb of None \<Rightarrow> False | Some (s, e) \<Rightarrow> s \<le> l \<and> l \<le> e)"

definition children :: "string json \<Rightarrow> string json list" where
  "children smb = (case Option.bind (jget ''children'' smb) as_arr of None \<Rightarrow> [] | Some cs \<Rightarrow> cs)"

lemma size_map_of: "map_of ms k = Some w \<Longrightarrow> size w < size_list (size_prod (\<lambda>_. 0) size) ms"
  by (induction ms) (auto split: if_splits)

lemma size_jget: "jget k v = Some w \<Longrightarrow> size (w :: string json) < size v"
  by (cases v) (auto dest!: size_map_of simp: less_Suc_eq_le)

lemma size_as_arr: "as_arr v = Some xs \<Longrightarrow> size_list size xs < size v"
  by (cases v) auto

lemma size_children: "size_list size (children smb) \<le> size (smb :: string json)"
  by (auto simp: children_def bind_Some_iff split: option.split dest!: size_jget size_as_arr)

function deepest_containing :: "string json list \<Rightarrow> int \<Rightarrow> string json option" where
  "deepest_containing [] l = None"
| "deepest_containing (smb # syms) l =
     (if covers_line smb l
      then (case deepest_containing (children smb) l of Some deeper \<Rightarrow> Some deeper | None \<Rightarrow> Some smb)
      else deepest_containing syms l)"
  by pat_completeness auto
termination
  by (relation "measure (\<lambda>(syms, l). size_list size syms)") (auto simp: le_imp_less_Suc size_children trans_le_add1)

section \<open>What the operations promise\<close>

text \<open>
  What the text operations of the language-server tools promise: a symbol is found where it
  stands as an identifier, disjoint edits are applied as if at once, diagnostics are compared as
  multisets, and the symbol found around a line is the innermost one.
\<close>

section \<open>Finding a symbol\<close>

lemma symbol_hits_spec:
  "symbol_hits chars smb start = filter (delimited chars smb) [start..<Suc (length chars) - length smb]"
proof (induction chars smb start rule: symbol_hits.induct)
  case (1 chars smb start)
  show ?case
  proof (cases "start + length smb \<le> length chars")
    case True
    then have "[start..<Suc (length chars) - length smb] = start # [start + 1..<Suc (length chars) - length smb]"
      by (simp add: upt_rec)
    with 1 True show ?thesis by (subst symbol_hits.simps) simp
  next
    case False
    then show ?thesis by (subst symbol_hits.simps) simp
  qed
qed

text \<open>
  In symbol mode the resolved column is the first place on the line where the symbol stands
  as a whole identifier: it occurs there with no identifier character on either side, it does so
  at no smaller column, and the request fails exactly when it occurs so nowhere.
\<close>

theorem resolve_position_symbol:
  assumes "st_symbol target = Some s" "s \<noteq> []" "0 < st_line target" "st_line target \<le> length (str_lines content)"
  defines "chars \<equiv> utf8_chars (str_lines content ! (st_line target - 1))"
  shows "(case resolve_position content target of
      Inl _ \<Rightarrow> \<forall>i. i + length (utf8_chars s) \<le> length chars \<longrightarrow> \<not> delimited chars (utf8_chars s) i
    | Inr (Unique l c) \<Rightarrow> l = st_line target - 1 \<and>
        {i. i + length (utf8_chars s) \<le> length chars \<and> delimited chars (utf8_chars s) i} = {c}
    | Inr (Ambiguous l c n d) \<Rightarrow> l = st_line target - 1 \<and> 2 \<le> n \<and>
        n = card {i. i + length (utf8_chars s) \<le> length chars \<and> delimited chars (utf8_chars s) i} \<and>
        (\<forall>i. i + length (utf8_chars s) \<le> length chars \<and> delimited chars (utf8_chars s) i \<longrightarrow> i = c \<or> (c < d - 1 \<and> d - 1 \<le> i)))"
proof -
  define hits where "hits = symbol_hits chars (utf8_chars s) 0"
  define P where "P i \<longleftrightarrow> i + length (utf8_chars s) \<le> length chars \<and> delimited chars (utf8_chars s) i" for i
  have h: "hits = filter (delimited chars (utf8_chars s)) [0..<Suc (length chars) - length (utf8_chars s)]"
    by (simp add: hits_def symbol_hits_spec)
  have set: "set hits = {i. P i}" by (auto simp: h P_def)
  have st: "sorted_wrt (<) hits" "distinct hits" unfolding h by (simp_all add: sorted_wrt_filter)
  obtain c cs where s: "s = c # cs" using assms(2) by (cases s) auto
  have r: "resolve_position content target = (case hits of
       [] \<Rightarrow> resolve_position content target | [x] \<Rightarrow> Inr (Unique (st_line target - 1) x)
     | x # y # zs \<Rightarrow> Inr (Ambiguous (st_line target - 1) x (length hits) (y + 1)))"
    "hits = [] \<Longrightarrow> \<exists>e. resolve_position content target = Inl e"
    using assms(1,3,4) by (auto simp: resolve_position_def s Let_def hits_def chars_def split: list.split)
  show ?thesis
  proof (cases hits)
    case Nil
    then obtain e where "resolve_position content target = Inl e" using r(2) by blast
    then show ?thesis using set Nil by (auto simp: P_def)
  next
    case (Cons x xs)
    show ?thesis
    proof (cases xs)
      case Nil
      then have "resolve_position content target = Inr (Unique (st_line target - 1) x)" using r(1) Cons by simp
      moreover have "{i. P i} = {x}" using set Cons Nil by simp
      ultimately show ?thesis by (simp add: P_def)
    next
      case (Cons y ys)
      note hits = \<open>hits = x # xs\<close> [unfolded Cons]
      then have q: "resolve_position content target = Inr (Ambiguous (st_line target - 1) x (length hits) (y + 1))" using r(1) by simp
      have "card {i. P i} = length hits" using st(2) set distinct_card by fastforce
      moreover have "i = x \<or> (x < y \<and> y \<le> i)" if "P i" for i
      proof -
        have "i \<in> insert x (insert y (List.set ys))" using set hits that by auto
        moreover have "x < y" "\<forall>z \<in> List.set ys. y < z" using st(1) hits by auto
        ultimately show ?thesis by fastforce
      qed
      ultimately show ?thesis unfolding q using hits by (simp add: P_def)
    qed
  qed
qed

theorem resolve_position_symbol_witness:
  "resolve_position ''xa a'' \<lparr>st_path = ''f'', st_line = 1, st_symbol = Some ''a'', st_character = None\<rparr> = Inr (Unique 0 3) \<and>
   {i. i + 1 \<le> 4 \<and> delimited [''x'', ''a'', '' '', ''a''] [''a''] i} = {3}"
proof -
  let ?t = "\<lparr>st_path = ''f'', st_line = 1, st_symbol = Some ''a'', st_character = None\<rparr>"
  have l: "str_lines ''xa a'' = [''xa a'']" by (simp add: str_lines_def)
  have c: "utf8_chars ''xa a'' = [''x'', ''a'', '' '', ''a'']" "utf8_chars ''a'' = [''a'']" by (simp_all add: is_cont_def)
  have h: "symbol_hits [''x'', ''a'', '' '', ''a''] [''a''] 0 = [3]"
    by (simp add: symbol_hits_spec upt_rec delimited_def is_ident_char_def is_ascii_alnum_def)
  have r: "resolve_position ''xa a'' ?t = Inr (Unique 0 3)"
    by (simp add: resolve_position_def l h is_cont_def Let_def)
  from resolve_position_symbol [of ?t "''a''" "''xa a''"] show ?thesis
    by (simp add: l r [unfolded One_nat_def] is_cont_def numeral_3_eq_3)
qed

text \<open>An empty file has no line at all: its line 1 is refused.\<close>

lemma empty_file_has_no_line:
  "resolve_position [] \<lparr>st_path = f, st_line = 1, st_symbol = s, st_character = c\<rparr> = Inl (out_of_range 1 0)"
  by (simp add: resolve_position_def str_lines_def)

section \<open>Offsets\<close>

text \<open>On text with carriage returns the offset forgets one byte for every line above.\<close>

lemma offset_forgets_cr:
  "position_to_offset (''a'' @ [cr, nl] @ ''b'') 1 0 = Inr 2"
  "(''a'' @ [cr, nl] @ ''b'') ! 2 = nl"
  by (simp_all add: position_to_offset_def str_lines_def strip_cr_def Let_def)

text \<open>On text without carriage returns it is where the line starts, plus the characters before it.\<close>

lemma offset_of_line:
  assumes "\<forall>l \<in> set pre. nl \<notin> set l \<and> cr \<notin> set l" "nl \<notin> set line" "cr \<notin> set line"
  shows "position_to_offset (unlines pre @ line @ nl # rest) (length pre) c =
    Inr (length (unlines pre) + length (concat (take c (utf8_chars line))))"
proof -
  have l: "str_lines (unlines pre @ line @ nl # rest) = pre @ line # str_lines rest"
    using str_lines_unlines [OF assms(1)] str_lines_line [OF assms(2)] assms(3) by simp
  have "sum_list (map (\<lambda>l. length l + 1) pre) = length (unlines pre)"
    by (induction pre) (simp_all add: unlines_def)
  then show ?thesis
    by (simp add: position_to_offset_def l Let_def length_concat nth_append min_def)
qed

section \<open>Disjoint edits\<close>

text \<open>All edits at once: the untouched stretches of the text with the new texts between them.\<close>

fun spliced :: "nat \<Rightarrow> string \<Rightarrow> parsed_edit list \<Rightarrow> string" where
  "spliced pos s [] = drop pos s"
| "spliced pos s (e # es) = take (pe_start e - pos) (drop pos s) @ pe_text e @ spliced (pe_end e) s es"

text \<open>In increasing order, disjoint, at character boundaries, and with texts that are UTF-8.\<close>

fun edits_ok :: "string \<Rightarrow> nat \<Rightarrow> parsed_edit list \<Rightarrow> bool" where
  "edits_ok s pos [] = True"
| "edits_ok s pos (e # es) \<longleftrightarrow>
     pos \<le> pe_start e \<and> pe_start e \<le> pe_end e \<and> pe_end e \<le> length s \<and>
     is_char_boundary s (pe_start e) \<and> is_char_boundary s (pe_end e) \<and>
     (pe_text e = [] \<or> \<not> is_cont (hd (pe_text e))) \<and>
     (\<forall>f \<in> set es. pe_start e < pe_start f) \<and> edits_ok s (pe_end e) es"

lemma spliced_starts:
  assumes "edits_ok s pos es" "pos \<le> length s" "is_char_boundary s pos" "pos \<noteq> 0"
  shows "spliced pos s es = [] \<or> \<not> is_cont (hd (spliced pos s es))"
  using assms
proof (induction es arbitrary: pos)
  case Nil
  then show ?case by (auto simp: is_char_boundary_def hd_drop_conv_nth)
next
  case (Cons e es)
  show ?case
  proof (cases "pe_start e = pos")
    case True
    then have "spliced pos s (e # es) = pe_text e @ spliced (pe_end e) s es" by simp
    moreover have "spliced (pe_end e) s es = [] \<or> \<not> is_cont (hd (spliced (pe_end e) s es))"
      using Cons.prems True by (intro Cons.IH) (auto simp: le_zero_eq)
    ultimately show ?thesis using Cons.prems(1) by (cases "pe_text e") auto
  next
    case False
    then have lt: "pos < pe_start e" "pos < length s" using Cons.prems by auto
    then have "take (pe_start e - pos) (drop pos s) = s ! pos # take (pe_start e - pos - 1) (drop (pos + 1) s)"
      by (simp add: Cons_nth_drop_Suc [symmetric] take_Cons')
    then show ?thesis using Cons.prems(3,4) lt by (simp add: is_char_boundary_def)
  qed
qed

lemma boundary_prefix:
  assumes "is_char_boundary s i" "i \<le> length s" "i \<noteq> 0 \<Longrightarrow> r = [] \<or> \<not> is_cont (hd r)" "j \<le> i" "is_char_boundary s j"
  shows "is_char_boundary (take i s @ r) i" "is_char_boundary (take i s @ r) j"
proof -
  show "is_char_boundary (take i s @ r) i"
    using assms(2,3) by (cases r) (auto simp: is_char_boundary_def nth_append)
  then show "is_char_boundary (take i s @ r) j"
    using assms(2,4,5) by (cases "j = i") (auto simp: is_char_boundary_def nth_append)
qed

lemma replace_ranges_rev:
  "edits_ok s pos es \<Longrightarrow> pos \<le> length s \<Longrightarrow> replace_ranges (rev es) s = Some (take pos s @ spliced pos s es)"
proof (induction es arbitrary: pos)
  case (Cons e es)
  have app: "replace_ranges (xs @ ys) t = Option.bind (replace_ranges xs t) (replace_ranges ys)" for xs ys t
    by (induction xs arbitrary: t) (auto split: bind_splits)
  have le: "pe_start e \<le> pe_end e" "pe_end e \<le> length s" "pos \<le> pe_start e" using Cons.prems by auto
  let ?r = "spliced (pe_end e) s es"
  have ih: "replace_ranges (rev es) s = Some (take (pe_end e) s @ ?r)" using Cons by simp
  have "pe_end e \<noteq> 0 \<Longrightarrow> ?r = [] \<or> \<not> is_cont (hd ?r)"
    using spliced_starts [of s "pe_end e" es] Cons.prems by simp
  then have b: "is_char_boundary (take (pe_end e) s @ ?r) (pe_end e)" "is_char_boundary (take (pe_end e) s @ ?r) (pe_start e)"
    using boundary_prefix [of s "pe_end e" ?r "pe_start e"] Cons.prems by auto
  have "replace_range e (take (pe_end e) s @ ?r) = Some (take (pe_start e) s @ pe_text e @ ?r)"
    using b le by (simp add: replace_range_def)
  moreover have "take (pe_start e) s = take pos s @ take (pe_start e - pos) (drop pos s)"
    using le(3) by (metis le_add_diff_inverse take_add)
  ultimately show ?case by (simp add: app ih)
qed simp

lemma edits_ok_starts: "edits_ok s pos es \<Longrightarrow> sorted_wrt (<) (map pe_start es)"
  by (induction es arbitrary: pos) auto

lemma descending_rev:
  assumes "sorted_wrt (<) (map pe_start (sort_key pe_start es))"
  shows "descending es = rev (sort_key pe_start es)"
proof -
  have "distinct (map pe_start (sort_key pe_start es))" using assms strict_sorted_iff by blast
  then have "inj_on pe_start (set (rev es))" by (simp add: distinct_map)
  then have "sort_key pe_start (rev es) = sort_key pe_start es"
    by (intro sort_key_inj_key_eq) simp_all
  then show ?thesis by (simp add: descending_def)
qed

text \<open>
  C36: Disjoint edits are applied as if at once. If the ranges of the edits, in whatever order
  they come, do not overlap, no two start at one place, and all lie at character boundaries of
  the text, then applying them neither fails nor panics, and gives the text in which every range
  is replaced by its new text and everything between them is unchanged.
\<close>

theorem apply_text_edits_at_once:
  assumes "parse_edits content edits = Inr parsed" and "edits_ok content 0 (sort_key pe_start parsed)"
  shows "apply_text_edits content edits = Some (Inr (spliced 0 content (sort_key pe_start parsed)))"
  using assms descending_rev [OF edits_ok_starts [OF assms(2)]] replace_ranges_rev [OF assms(2)]
  by (simp add: apply_text_edits_def)

definition mk_edit :: "int \<Rightarrow> int \<Rightarrow> int \<Rightarrow> int \<Rightarrow> string \<Rightarrow> string json" where
  "mk_edit l c l' c' t = JObj [(''range'', JObj [(''start'', JObj [(''line'', JInt l), (''character'', JInt c)]),
      (''end'', JObj [(''line'', JInt l'), (''character'', JInt c')])]), (''newText'', JStr t)]"

lemma parse_two_edits:
  "parse_edits (''ab'' @ [nl] @ ''cd'') [mk_edit 1 0 1 1 ''X'', mk_edit 0 1 0 2 ''YZ''] =
     Inr [\<lparr>pe_start = 3, pe_end = 4, pe_text = ''X''\<rparr>, \<lparr>pe_start = 1, pe_end = 2, pe_text = ''YZ''\<rparr>]"
  by (simp add: mk_edit_def parse_edit_def edit_end_def position_to_offset_def str_lines_def Let_def is_cont_def strip_cr_def)

theorem apply_text_edits_at_once_witness:
  "apply_text_edits (''ab'' @ [nl] @ ''cd'') [mk_edit 1 0 1 1 ''X'', mk_edit 0 1 0 2 ''YZ''] = Some (Inr (''aYZ'' @ [nl] @ ''Xd''))"
  using apply_text_edits_at_once [OF parse_two_edits]
  by (simp add: is_char_boundary_def is_cont_def)

text \<open>
  Two insertions at one place come out in the opposite order of the list, where the protocol
  asks for the order of the list.
\<close>

lemma same_place_insertions_reversed:
  "apply_text_edits ''x'' [mk_edit 0 0 0 0 ''A'', mk_edit 0 0 0 0 ''B''] = Some (Inr ''BAx'')"
  by (simp add: apply_text_edits_def mk_edit_def parse_edit_def edit_end_def position_to_offset_def str_lines_def Let_def
      is_cont_def descending_def replace_range_def is_char_boundary_def)

section \<open>Diagnostics\<close>

lemma count_diag_keys_mset: "count_diag_keys ds k = count (mset (map diag_key ds)) k"
proof -
  have "foldl (\<lambda>counts d. counts(diag_key d := counts (diag_key d) + 1)) f ds k = f k + count (mset (map diag_key ds)) k"
    for f :: "diag_ident \<Rightarrow> nat"
    by (induction ds arbitrary: f) auto
  then show ?thesis by (simp add: count_diag_keys_def)
qed

lemma unpaired_mset:
  assumes "\<forall>k. available k = count B k"
  shows "mset (unpaired available ds) = mset (map diag_key ds) - B"
proof -
  let ?step = "\<lambda>(paired, out) d. let key = diag_key d in
     if paired key < available key then (paired(key := paired key + 1), out) else (paired, out @ [key])"
  have "snd (foldl ?step (paired, out) ds) = r \<Longrightarrow> \<forall>k. paired k \<le> count B k \<Longrightarrow>
      \<forall>k. count (mset r) k = count (mset out) k + (count (mset (map diag_key ds)) k - (count B k - paired k))"
    for paired :: "diag_ident \<Rightarrow> nat" and out r
  proof (induction ds arbitrary: paired out)
    case (Cons d ds)
    show ?case
    proof (cases "paired (diag_key d) < available (diag_key d)")
      case True
      then have le: "\<forall>k. (paired(diag_key d := paired (diag_key d) + 1)) k \<le> count B k" using Cons.prems(2) assms by auto
      have "snd (foldl ?step (paired(diag_key d := paired (diag_key d) + 1), out) ds) = r"
        using Cons.prems(1) True by (simp add: Let_def)
      from Cons.IH [OF this le] show ?thesis using True assms by auto
    next
      case False
      have "snd (foldl ?step (paired, out @ [diag_key d]) ds) = r" using Cons.prems(1) False by (simp add: Let_def)
      from Cons.IH [OF this Cons.prems(2)] show ?thesis using False assms Cons.prems(2) by (auto simp: le_antisym not_less)
    qed
  qed simp
  from this [of "\<lambda>_. 0" "[]" "unpaired available ds"] show ?thesis
    by (auto simp: unpaired_def intro!: multiset_eqI)
qed

text \<open>
  Comparing diagnostics respects their multiplicities. Those that appeared are the later
  ones less the earlier ones, those that are gone the earlier ones less the later ones, as
  multisets, and the number left unchanged is the size of what both have in common; so the two
  numbers add up to the totals before and after.
\<close>

theorem diff_diagnostics_multisets:
  "mset (dd_appeared (diff_diagnostics before after)) = mset (map diag_key after) - mset (map diag_key before) \<and>
   mset (dd_gone (diff_diagnostics before after)) = mset (map diag_key before) - mset (map diag_key after) \<and>
   dd_unchanged (diff_diagnostics before after) = size (mset (map diag_key before) \<inter># mset (map diag_key after)) \<and>
   length (dd_appeared (diff_diagnostics before after)) + dd_unchanged (diff_diagnostics before after) = length after \<and>
   length (dd_gone (diff_diagnostics before after)) + dd_unchanged (diff_diagnostics before after) = length before"
proof -
  let ?A = "mset (map diag_key after)" and ?B = "mset (map diag_key before)"
  have ap: "mset (dd_appeared (diff_diagnostics before after)) = ?A - ?B"
    by (simp add: diff_diagnostics_def Let_def unpaired_mset [of _ ?B] count_diag_keys_mset)
  have go: "mset (dd_gone (diff_diagnostics before after)) = ?B - ?A"
    by (simp add: diff_diagnostics_def Let_def unpaired_mset [of _ ?A] count_diag_keys_mset)
  have "dd_unchanged (diff_diagnostics before after) = (\<Sum>k \<in> set (map diag_key after). min (count ?A k) (count ?B k))"
    by (simp only: diff_diagnostics_def Let_def diagnostics_diff.select_convs count_diag_keys_mset
        sum_list_distinct_conv_sum_set [OF distinct_remdups] set_remdups)
  also have "\<dots> = (\<Sum>k \<in> set_mset (?B \<inter># ?A). count (?B \<inter># ?A) k)"
    by (intro sum.mono_neutral_cong_right) (auto simp: min.commute not_in_iff)
  finally have un: "dd_unchanged (diff_diagnostics before after) = size (?B \<inter># ?A)" by (simp add: size_multiset_overloaded_eq)
  have la: "length (dd_appeared (diff_diagnostics before after)) = size (?A - ?B)" using ap by (metis size_mset)
  have lg: "length (dd_gone (diff_diagnostics before after)) = size (?B - ?A)" using go by (metis size_mset)
  have common: "?A \<inter># ?B = ?B \<inter># ?A" by (rule subset_mset.inf_commute)
  have "size (?A - ?B) + size (?B \<inter># ?A) = size ?A"
    unfolding size_Diff_subset_Int common by (intro le_add_diff_inverse2 size_mset_mono subset_mset.inf_le2)
  moreover have "size (?B - ?A) + size (?B \<inter># ?A) = size ?B"
    unfolding size_Diff_subset_Int by (intro le_add_diff_inverse2 size_mset_mono subset_mset.inf_le1)
  ultimately show ?thesis using ap go un la lg by simp
qed

section \<open>Symbols around a line\<close>

text \<open>A symbol reached from the list through children.\<close>

inductive nested :: "string json list \<Rightarrow> string json \<Rightarrow> bool" where
  "s \<in> set syms \<Longrightarrow> nested syms s"
| "s \<in> set syms \<Longrightarrow> nested (children s) t \<Longrightarrow> nested syms t"

lemma nested_later: "nested syms s \<Longrightarrow> nested (x # syms) s"
  by (cases rule: nested.cases, assumption) (auto intro: nested.intros)

lemma deepest_containing_None: "deepest_containing syms l = None \<longleftrightarrow> (\<forall>s \<in> set syms. \<not> covers_line s l)"
  by (induction syms l rule: deepest_containing.induct) (auto split: option.splits)

text \<open>
  The symbol found around a line covers it, is reached through children, and none of its
  children covers the line.
\<close>

lemma deepest_containing_spec:
  "deepest_containing syms l = Some s \<Longrightarrow>
     nested syms s \<and> covers_line s l \<and> (\<forall>c \<in> set (children s). \<not> covers_line c l)"
proof (induction syms l rule: deepest_containing.induct)
  case (2 smb syms l)
  show ?case
  proof (cases "covers_line smb l")
    case True
    show ?thesis
    proof (cases "deepest_containing (children smb) l")
      case None
      then have "s = smb" using 2(3) True by simp
      then show ?thesis using True None deepest_containing_None by (auto intro: nested.intros)
    next
      case (Some t)
      then have "t = s" using 2(3) True by simp
      then have "nested (children smb) s" "covers_line s l" "\<forall>c \<in> set (children s). \<not> covers_line c l"
        using 2(1) [OF True] Some by simp_all
      moreover from this(1) have "nested (smb # syms) s" using nested.intros(2) [of smb "smb # syms" s] by simp
      ultimately show ?thesis by blast
    qed
  next
    case False
    then have "nested syms s \<and> covers_line s l \<and> (\<forall>c \<in> set (children s). \<not> covers_line c l)" using 2(2) [OF False] 2(3) False by simp
    then show ?thesis using nested_later by simp
  qed
qed simp

end
