(* ===== verification/CodeHealth.thy ===== *)
theory CodeHealth
  imports HlReport Complex_Main
begin

text \<open>
  The state of code health a sandbox keeps at any time (\<open>sandbox/src/health.rs\<close>): the fields
  behind the lock with their critical sections, the fingerprint of the worktree, the requests,
  and the background task that alternates waiting and cycles, as a state machine. A step is one
  critical section, one receive or one read of the worktree; writes, notifications and requests
  come between any two of them. Times are milliseconds.

  The floating-point rounding of a percentage is a parameter: a function from exact rationals to
  the values of \<open>f64\<close>.
\<close>

section \<open>Percentages and the summary\<close>

definition percent :: "(rat \<Rightarrow> rat) \<Rightarrow> coverage_totals \<Rightarrow> rat" where
  "percent rnd t =
     (if ct_lines_found t = 0 then 100
      else rnd (rnd (of_nat (ct_lines_hit t) / of_nat (ct_lines_found t)) * 100))"

record health_file_summary =
  hfs_path :: string
  hfs_percent :: rat

record health_summary =
  hsu_status :: check_status
  hsu_coverage_percent :: "rat option"
  hsu_files :: "health_file_summary list"

definition file_summary :: "(rat \<Rightarrow> rat) \<Rightarrow> file_coverage \<Rightarrow> health_file_summary" where
  "file_summary rnd f = \<lparr>hfs_path = fc_path f,
     hfs_percent = percent rnd \<lparr>ct_lines_found = fc_lines_found f, ct_lines_hit = fc_lines_hit f\<rparr>\<rparr>"

definition summarize :: "(rat \<Rightarrow> rat) \<Rightarrow> health_report \<Rightarrow> health_summary" where
  "summarize rnd report =
     \<lparr>hsu_status = report_status report,
      hsu_coverage_percent = map_option (\<lambda>c. percent rnd (totals c)) (hr_coverage report),
      hsu_files = (case hr_coverage report of None \<Rightarrow> []
        | Some c \<Rightarrow> sort_key (\<lambda>s. (hfs_percent s, hfs_path s)) (map (file_summary rnd) c))\<rparr>"

section \<open>The fields behind the lock\<close>

datatype health_phase = Computing | Fresh | Stale

record health_fields =
  hf_phase :: health_phase
  hf_report :: "health_report option"
  hf_computed_at :: "nat option"
  hf_stale_since :: "nat option"
  hf_base :: "string option"
  hf_languages :: "string list option"
  hf_last_fingerprint :: "string option"
  hf_computing :: bool
  hf_dirty :: bool
  hf_attempted :: bool

definition initial_base :: "string option \<Rightarrow> string option" where
  "initial_base configured = (case configured of Some (c # cs) \<Rightarrow> Some (c # cs) | _ \<Rightarrow> None)"

definition initial_fields :: "string option \<Rightarrow> health_fields" where
  "initial_fields configured =
     \<lparr>hf_phase = Computing, hf_report = None, hf_computed_at = None, hf_stale_since = None,
      hf_base = initial_base configured, hf_languages = None, hf_last_fingerprint = None,
      hf_computing = False, hf_dirty = False, hf_attempted = False\<rparr>"

definition mark_stale :: "nat \<Rightarrow> health_fields \<Rightarrow> health_fields" where
  "mark_stale now f =
     (if hf_phase f = Stale then f else f\<lparr>hf_phase := Stale, hf_stale_since := Some now\<rparr>)"

definition mark_fresh :: "health_fields \<Rightarrow> health_fields" where
  "mark_fresh f = (if hf_computing f then f else f\<lparr>hf_phase := Fresh, hf_stale_since := None\<rparr>)"

definition notify_fields :: "nat \<Rightarrow> health_fields \<Rightarrow> health_fields" where
  "notify_fields now f =
     (let f = (if hf_computing f then f\<lparr>hf_dirty := True\<rparr> else f)
      in if hf_phase f = Stale then f else f\<lparr>hf_phase := Stale, hf_stale_since := Some now\<rparr>)"

definition refresh_fields :: "string option option \<Rightarrow> string list option \<Rightarrow> health_fields \<Rightarrow> health_fields" where
  "refresh_fields base languages f =
     f\<lparr>hf_base := (case base of None \<Rightarrow> hf_base f | Some b \<Rightarrow> b),
       hf_languages := (if languages = None then hf_languages f else languages)\<rparr>"

definition begin_compute :: "health_fields \<Rightarrow> health_fields" where
  "begin_compute f = f\<lparr>hf_computing := True, hf_attempted := True, hf_dirty := False,
     hf_phase := (if hf_phase f = Stale then Stale else Computing)\<rparr>"

text \<open>The end of a computation: \<open>Inr\<close> the report, \<open>Inl\<close> the error of the runner.\<close>

definition publish :: "nat \<Rightarrow> string option \<Rightarrow> string + health_report \<Rightarrow> health_fields \<Rightarrow> health_fields" where
  "publish now fingerprint result f =
     (case result of
        Inr report \<Rightarrow>
          f\<lparr>hf_report := Some report, hf_computed_at := Some now, hf_last_fingerprint := fingerprint,
            hf_computing := False, hf_phase := (if hf_dirty f then Stale else Fresh),
            hf_stale_since := (if hf_dirty f then hf_stale_since f else None)\<rparr>
      | Inl _ \<Rightarrow>
          (let f = f\<lparr>hf_computing := False\<rparr>
           in if (fingerprint \<noteq> None \<and> hf_report f \<noteq> None \<and> hf_last_fingerprint f = fingerprint) \<and> \<not> hf_dirty f
              then f\<lparr>hf_phase := Fresh, hf_stale_since := None\<rparr>
              else if hf_phase f = Stale then f
              else f\<lparr>hf_phase := Stale, hf_stale_since := Some now\<rparr>))"

record health_state =
  hst_phase :: health_phase
  hst_report :: "health_report option"
  hst_computed_at :: "nat option"
  hst_stale_since :: "nat option"
  hst_base :: "string option"
  hst_summary :: "health_summary option"

definition snapshot :: "(rat \<Rightarrow> rat) \<Rightarrow> health_fields \<Rightarrow> health_state" where
  "snapshot rnd f =
     \<lparr>hst_phase = hf_phase f, hst_report = hf_report f, hst_computed_at = hf_computed_at f,
      hst_stale_since = hf_stale_since f, hst_base = hf_base f,
      hst_summary = map_option (summarize rnd) (hf_report f)\<rparr>"

section \<open>Git\<close>

text \<open>Running git with arguments in the worktree: an error or the trimmed output.\<close>

datatype git_run = GitSpawn string | GitFailed string

type_synonym git = "string list \<Rightarrow> git_run + string"

abbreviation unit_sep :: string where "unit_sep \<equiv> [CHR 0x1F]"

definition fingerprint :: "git \<Rightarrow> string option" where
  "fingerprint git =
     (case git [''rev-parse'', ''HEAD''] of Inl _ \<Rightarrow> None | Inr head \<Rightarrow>
       (case git [''-c'', ''core.quotepath=off'', ''diff'', ''HEAD''] of Inl _ \<Rightarrow> None | Inr diff \<Rightarrow>
         (case git [''ls-files'', ''--others'', ''--exclude-standard''] of Inl _ \<Rightarrow> None | Inr untracked \<Rightarrow>
           Some (''head'' @ unit_sep @ head @ unit_sep @ ''diff'' @ unit_sep @ diff @ unit_sep @
                 ''untracked'' @ unit_sep @ untracked))))"

datatype code_health_error = InvalidBaseRef string | RefCheckUnavailable string

fun code_health_error_text :: "code_health_error \<Rightarrow> string" where
  "code_health_error_text (InvalidBaseRef v) = ''VNL-SBX-CH-001: invalid git base ref: '' @ v"
| "code_health_error_text (RefCheckUnavailable r) = ''VNL-SBX-CH-002: cannot validate base ref: '' @ r"

definition validate_health_base :: "git \<Rightarrow> string \<Rightarrow> code_health_error + unit" where
  "validate_health_base git base =
     (if base = [] \<or> prefix ''-'' base \<or> CHR 0x20 \<in> set base \<or> CHR 0x00 \<in> set base \<or> CHR 0x0A \<in> set base
      then Inl (InvalidBaseRef base)
      else case git [''rev-parse'', ''--verify'', base] of
          Inr _ \<Rightarrow> Inr ()
        | Inl (GitSpawn reason) \<Rightarrow> Inl (RefCheckUnavailable reason)
        | Inl (GitFailed _) \<Rightarrow> Inl (InvalidBaseRef base))"

section \<open>Diagnostics of the language servers\<close>

definition u32_of :: "string json \<Rightarrow> nat option" where
  "u32_of v = Option.bind (as_u64 v) (\<lambda>n. if n \<le> U32_MAX then Some n else None)"

definition diagnostic_code :: "string json \<Rightarrow> string option" where
  "diagnostic_code c = (case as_str c of Some s \<Rightarrow> Some s
     | None \<Rightarrow> map_option (\<lambda>i. (if i < 0 then ''-'' else []) @ show_nat (nat \<bar>i\<bar>)) (as_i64 c))"

definition lsp_issue :: "string \<Rightarrow> string \<Rightarrow> string json \<Rightarrow> issue option" where
  "lsp_issue sandbox_root uri diagnostic =
     do {
       path \<leftarrow> strip_prefix (''file://'' @ sandbox_root @ ''/'') uri;
       _ \<leftarrow> (if path = [] then None else Some ());
       message \<leftarrow> Option.bind (jget ''message'' diagnostic) as_str;
       start \<leftarrow> Option.bind (jget ''range'' diagnostic) (jget ''start'');
       line \<leftarrow> Option.bind (jget ''line'' start) u32_of;
       column \<leftarrow> Option.bind (jget ''character'' start) u32_of;
       Some \<lparr>is_check_id = ''lsp'', is_path = path,
         is_line = sat_add U32_MAX line 1, is_column = sat_add U32_MAX column 1,
         is_severity = (if Option.bind (jget ''severity'' diagnostic) as_u64 = Some 1 then SevError else SevWarning),
         is_code = Option.bind (jget ''code'' diagnostic) diagnostic_code, is_message = message\<rparr>
     }"

definition lsp_preliminary :: "string \<Rightarrow> (string \<times> string json list) list \<Rightarrow> issue list" where
  "lsp_preliminary sandbox_root cached =
     concat (map (\<lambda>(uri, diagnostics). List.map_filter (lsp_issue sandbox_root uri) diagnostics) cached)"

section \<open>The body of a refresh request\<close>

text \<open>
  The derived reader of the two fields: an object with each at most once, or an array of both.
  \<open>None\<close> for \<open>base\<close> when the field is absent, \<open>Some None\<close> when it is null.
\<close>

fun sticky_base :: "string json \<Rightarrow> string option option" where
  "sticky_base JNull = Some None"
| "sticky_base (JStr s) = Some (Some s)"
| "sticky_base _ = None"

fun string_list :: "string json list \<Rightarrow> string list option" where
  "string_list [] = Some []"
| "string_list (JStr s # js) = map_option ((#) s) (string_list js)"
| "string_list (_ # js) = None"

fun languages_field :: "string json \<Rightarrow> string list option option" where
  "languages_field JNull = Some None"
| "languages_field (JArr js) = map_option Some (string_list js)"
| "languages_field _ = None"

definition members_named :: "string \<Rightarrow> (string \<times> string json) list \<Rightarrow> string json list" where
  "members_named k ms = map snd (filter (\<lambda>m. fst m = k) ms)"

fun refresh_body :: "string json \<Rightarrow> (string option option \<times> string list option) option" where
  "refresh_body (JObj ms) =
     (case (members_named ''base'' ms, members_named ''languages'' ms) of
        ([], []) \<Rightarrow> Some (None, None)
      | ([b], []) \<Rightarrow> map_option (\<lambda>b. (Some b, None)) (sticky_base b)
      | ([], [l]) \<Rightarrow> map_option (Pair None) (languages_field l)
      | ([b], [l]) \<Rightarrow> Option.bind (sticky_base b) (\<lambda>b. map_option (Pair (Some b)) (languages_field l))
      | _ \<Rightarrow> None)"
| "refresh_body (JArr [b, l]) =
     Option.bind (sticky_base b) (\<lambda>b. map_option (Pair (Some b)) (languages_field l))"
| "refresh_body _ = None"

section \<open>The background task\<close>

datatype health_event = Modified | Refresh

datatype health_pc =
    Starting
  | Idle
  | Polling
  | MarkingStale
  | Calming
  | Fingerprinting bool \<comment> \<open>forced?\<close>
  | MarkingFresh
  | StartingCompute "string option"
  | RunningChecks "string option" "string option" "string list option" \<comment> \<open>fingerprint, base, languages\<close>
  | Publishing "string option" "string + health_report"

text \<open>What the process runs in. A cooldown or a poll period of zero switches it off.\<close>

record 'w health_env =
  he_git :: "'w \<Rightarrow> git"
  he_exists :: "'w \<Rightarrow> bool"
  he_checks :: "'w \<Rightarrow> string option \<Rightarrow> string list option \<Rightarrow> string + health_report"
  he_cooldown :: nat
  he_poll :: nat

text \<open>
  \<open>hs_owed\<close> counts the writes to the worktree whose notification is still to come: every
  writing tool first writes and then notifies.
\<close>

record 'w health_sys =
  hs_fields :: health_fields
  hs_queue :: "health_event list"
  hs_pc :: health_pc
  hs_tree :: 'w
  hs_owed :: nat
  hs_clock :: nat

definition health_start :: "string option \<Rightarrow> 'w \<Rightarrow> nat \<Rightarrow> 'w health_sys" where
  "health_start configured w now =
     \<lparr>hs_fields = initial_fields configured, hs_queue = [], hs_pc = Starting, hs_tree = w, hs_owed = 0,
      hs_clock = now\<rparr>"

definition worktree_fp :: "'w health_env \<Rightarrow> 'w health_sys \<Rightarrow> string option" where
  "worktree_fp E s = fingerprint (he_git E (hs_tree s))"

definition after_stale :: "'w health_env \<Rightarrow> health_pc" where
  "after_stale E = (if he_cooldown E = 0 then Fingerprinting False else Calming)"

definition begin_cycle :: "'w health_env \<Rightarrow> health_event \<Rightarrow> health_pc" where
  "begin_cycle E ev = (case ev of Refresh \<Rightarrow> Fingerprinting True | Modified \<Rightarrow> after_stale E)"

definition advance :: "'w health_env \<Rightarrow> 'w health_sys \<Rightarrow> 'w health_sys" where
  "advance E s =
     (case hs_pc s of
        Starting \<Rightarrow> s\<lparr>hs_pc := (if he_exists E (hs_tree s) then begin_cycle E Refresh else Idle)\<rparr>
      | Idle \<Rightarrow> (case hs_queue s of [] \<Rightarrow> s | ev # q \<Rightarrow> s\<lparr>hs_queue := q, hs_pc := begin_cycle E ev\<rparr>)
      | Polling \<Rightarrow>
          s\<lparr>hs_pc := (if worktree_fp E s \<noteq> None \<and> worktree_fp E s = hf_last_fingerprint (hs_fields s) then Idle
                      else if \<not> he_exists E (hs_tree s) then Idle else MarkingStale)\<rparr>
      | MarkingStale \<Rightarrow> s\<lparr>hs_fields := mark_stale (hs_clock s) (hs_fields s), hs_pc := after_stale E\<rparr>
      | Calming \<Rightarrow>
          (case hs_queue s of
             [] \<Rightarrow> s\<lparr>hs_pc := Fingerprinting False\<rparr>
           | Modified # q \<Rightarrow> s\<lparr>hs_queue := q\<rparr>
           | Refresh # q \<Rightarrow> s\<lparr>hs_queue := q, hs_pc := Fingerprinting True\<rparr>)
      | Fingerprinting forced \<Rightarrow>
          s\<lparr>hs_pc := (if \<not> forced \<and> worktree_fp E s \<noteq> None \<and> worktree_fp E s = hf_last_fingerprint (hs_fields s)
                      then MarkingFresh else StartingCompute (worktree_fp E s))\<rparr>
      | MarkingFresh \<Rightarrow> s\<lparr>hs_fields := mark_fresh (hs_fields s), hs_pc := Idle\<rparr>
      | StartingCompute fp \<Rightarrow>
          s\<lparr>hs_fields := begin_compute (hs_fields s),
            hs_pc := RunningChecks fp (hf_base (hs_fields s)) (hf_languages (hs_fields s))\<rparr>
      | RunningChecks fp base languages \<Rightarrow> s\<lparr>hs_pc := Publishing fp (he_checks E (hs_tree s) base languages)\<rparr>
      | Publishing fp result \<Rightarrow> s\<lparr>hs_fields := publish (hs_clock s) fp result (hs_fields s), hs_pc := Idle\<rparr>)"

section \<open>The whole system\<close>

datatype 'w health_label =
    Write 'w
  | Notify
  | Request "string option option" "string list option"
  | PollTick
  | Tick
  | Advance

definition notify_modified :: "'w health_sys \<Rightarrow> 'w health_sys" where
  "notify_modified s = s\<lparr>hs_fields := notify_fields (hs_clock s) (hs_fields s),
     hs_queue := hs_queue s @ [Modified], hs_owed := hs_owed s - 1\<rparr>"

definition accept_refresh :: "string option option \<Rightarrow> string list option \<Rightarrow> 'w health_sys \<Rightarrow> 'w health_sys" where
  "accept_refresh base languages s =
     s\<lparr>hs_fields := refresh_fields base languages (hs_fields s), hs_queue := hs_queue s @ [Refresh]\<rparr>"

definition refresh :: "'w health_env \<Rightarrow> string option option \<Rightarrow> string list option \<Rightarrow> 'w health_sys
    \<Rightarrow> (code_health_error + unit) \<times> 'w health_sys" where
  "refresh E base languages s =
     (case (case base of Some (Some candidate) \<Rightarrow> validate_health_base (he_git E (hs_tree s)) candidate | _ \<Rightarrow> Inr ()) of
        Inl e \<Rightarrow> (Inl e, s)
      | Inr _ \<Rightarrow> (Inr (), accept_refresh base languages s))"

text \<open>The answer of \<open>POST /code-health/refresh\<close>; \<open>Inl\<close> a body that is not JSON.\<close>

definition handle_refresh :: "'w health_env \<Rightarrow> (string + string json) option \<Rightarrow> 'w health_sys \<Rightarrow> nat \<times> 'w health_sys" where
  "handle_refresh E body s =
     (case (case body of None \<Rightarrow> Some (None, None) | Some (Inl _) \<Rightarrow> None | Some (Inr v) \<Rightarrow> refresh_body v) of
        None \<Rightarrow> (400, s)
      | Some (base, languages) \<Rightarrow>
          (case refresh E base languages s of
             (Inr _, s') \<Rightarrow> (202, s')
           | (Inl (InvalidBaseRef _), s') \<Rightarrow> (400, s')
           | (Inl (RefCheckUnavailable _), s') \<Rightarrow> (500, s')))"

fun health_step :: "'w health_env \<Rightarrow> 'w health_label \<Rightarrow> 'w health_sys \<Rightarrow> 'w health_sys" where
  "health_step E (Write w) s = s\<lparr>hs_tree := w, hs_owed := hs_owed s + 1\<rparr>"
| "health_step E Notify s = notify_modified s"
| "health_step E (Request base languages) s = snd (refresh E base languages s)"
| "health_step E PollTick s = (if hs_pc s = Idle \<and> he_poll E \<noteq> 0 then s\<lparr>hs_pc := Polling\<rparr> else s)"
| "health_step E Tick s = s\<lparr>hs_clock := hs_clock s + 1\<rparr>"
| "health_step E Advance s = advance E s"

definition health_run :: "'w health_env \<Rightarrow> 'w health_label list \<Rightarrow> 'w health_sys \<Rightarrow> 'w health_sys" where
  "health_run E ls s = foldl (\<lambda>s l. health_step E l s) s ls"

inductive health_reach :: "'w health_env \<Rightarrow> 'w health_sys \<Rightarrow> bool" for E where
  start: "health_reach E (health_start configured w now)"
| step: "health_reach E s \<Longrightarrow> health_reach E (health_step E l s)"

inductive_cases health_reachE: "health_reach E s"

lemma health_run_simps [simp]:
  "health_run E [] s = s"
  "health_run E (l # ls) s = health_run E ls (health_step E l s)"
  by (simp_all add: health_run_def)

lemma health_reach_run: "health_reach E s \<Longrightarrow> health_reach E (health_run E ls s)"
  by (induction ls arbitrary: s) (simp_all add: health_reach.step)

end
