(* ===== verification/CodeHealthProps.thy ===== *)
theory CodeHealthProps
  imports CodeHealth
begin

text \<open>
  What the state of code health promises: its fields are consistent at any time, a state shown
  as fresh carries the fingerprint of the worktree once every notification has been taken, and a
  refresh request settles on the report of the requested base. The last section shows the
  interleavings in which a fresh state is not one.
\<close>

section \<open>Consistency of the fields\<close>

fun computing_at :: "health_pc \<Rightarrow> bool" where
  "computing_at (RunningChecks _ _ _) = True"
| "computing_at (Publishing _ _) = True"
| "computing_at _ = False"

definition fields_ok :: "health_fields \<Rightarrow> bool" where
  "fields_ok f \<longleftrightarrow>
     (hf_phase f = Stale \<longleftrightarrow> hf_stale_since f \<noteq> None) \<and>
     (hf_report f \<noteq> None \<longleftrightarrow> hf_computed_at f \<noteq> None) \<and>
     (hf_phase f = Fresh \<longrightarrow> hf_report f \<noteq> None) \<and>
     (hf_last_fingerprint f \<noteq> None \<longrightarrow> hf_report f \<noteq> None) \<and>
     (hf_dirty f \<and> hf_computing f \<longrightarrow> hf_phase f = Stale)"

definition sys_ok :: "'w health_env \<Rightarrow> 'w health_sys \<Rightarrow> bool" where
  "sys_ok E s \<longleftrightarrow> fields_ok (hs_fields s) \<and> (hf_computing (hs_fields s) \<longleftrightarrow> computing_at (hs_pc s)) \<and>
     (hs_pc s = MarkingFresh \<longrightarrow> hf_report (hs_fields s) \<noteq> None) \<and>
     (hs_pc s = Starting \<longrightarrow> hf_phase (hs_fields s) \<noteq> Fresh)"

lemmas field_defs = mark_stale_def mark_fresh_def notify_fields_def refresh_fields_def begin_compute_def publish_def Let_def

lemma fields_ok_ops:
  assumes "fields_ok f"
  shows "fields_ok (mark_stale now f)" "fields_ok (notify_fields now f)" "fields_ok (refresh_fields b l f)"
    "fields_ok (begin_compute f)" "hf_computing f \<Longrightarrow> fields_ok (publish now fp r f)"
    "hf_report f \<noteq> None \<Longrightarrow> \<not> hf_computing f \<Longrightarrow> fields_ok (mark_fresh f)"
  using assms by (auto simp: fields_ok_def field_defs split: sum.split)

lemma refresh_cases:
  "snd (refresh E base languages s) = s \<or> snd (refresh E base languages s) = accept_refresh base languages s"
  by (auto simp: refresh_def split: sum.split option.split)

lemma computing_at_begin [simp]: "\<not> computing_at (begin_cycle E ev)" "\<not> computing_at (after_stale E)"
  "begin_cycle E ev \<noteq> MarkingFresh" "after_stale E \<noteq> MarkingFresh"
  "begin_cycle E ev \<noteq> Starting" "after_stale E \<noteq> Starting"
  by (auto simp: begin_cycle_def after_stale_def split: health_event.split)

lemma computing_ops [simp]:
  "hf_computing (mark_stale now f) = hf_computing f" "hf_computing (mark_fresh f) = hf_computing f"
  "hf_computing (notify_fields now f) = hf_computing f" "hf_computing (refresh_fields b l f) = hf_computing f"
  "hf_computing (begin_compute f)" "\<not> hf_computing (publish now fp r f)"
  "hf_report (mark_stale now f) = hf_report f" "hf_report (notify_fields now f) = hf_report f"
  "hf_report (refresh_fields b l f) = hf_report f" "hf_phase (refresh_fields b l f) = hf_phase f"
  "hf_phase (notify_fields now f) = Stale"
  by (auto simp: field_defs split: sum.split)

lemma fields_ok_report: "fields_ok f \<Longrightarrow> hf_last_fingerprint f \<noteq> None \<Longrightarrow> hf_report f \<noteq> None"
  unfolding fields_ok_def by blast

lemma sys_ok_advance:
  assumes "sys_ok E s"
  shows "sys_ok E (advance E s)"
proof (cases "hs_pc s")
  case (Fingerprinting forced)
  show ?thesis
  proof (cases "\<not> forced \<and> worktree_fp E s \<noteq> None \<and> worktree_fp E s = hf_last_fingerprint (hs_fields s)")
    case True
    then have "hf_last_fingerprint (hs_fields s) \<noteq> None" by metis
    then have "hf_report (hs_fields s) \<noteq> None" using assms by (intro fields_ok_report) (simp_all add: sys_ok_def)
    with True Fingerprinting assms show ?thesis by (simp add: sys_ok_def advance_def)
  next
    case False
    with Fingerprinting assms show ?thesis by (auto simp: sys_ok_def advance_def)
  qed
next
  case Calming
  then show ?thesis using assms by (simp add: sys_ok_def advance_def split: list.split health_event.split)
next
  case Idle
  then show ?thesis using assms by (simp add: sys_ok_def advance_def split: list.split)
qed (use assms in \<open>simp_all add: sys_ok_def advance_def fields_ok_ops\<close>)

lemma sys_ok_step: "sys_ok E s \<Longrightarrow> sys_ok E (health_step E l s)"
proof (cases l)
  case (Request b ls)
  assume "sys_ok E s"
  then show ?thesis
    using refresh_cases [of E b ls s] Request by (auto simp: sys_ok_def accept_refresh_def fields_ok_ops)
qed (auto simp: sys_ok_def notify_modified_def fields_ok_ops sys_ok_advance [unfolded sys_ok_def])

lemma reach_sys_ok: "health_reach E s \<Longrightarrow> sys_ok E s"
proof (induction rule: health_reach.induct)
  case (start configured w now)
  then show ?case by (simp add: sys_ok_def health_start_def initial_fields_def fields_ok_def)
qed (rule sys_ok_step)

text \<open>
  C19: In every reachable state of code health, whatever writes, notifications, requests, polls
  and steps of the background task came before, the fields agree: a computation is under way
  exactly while the task runs or publishes one, the time of staleness is set exactly while the
  phase is stale, the time of computation exactly when there is a report, and a fresh phase
  never stands without a report.
\<close>

theorem health_fields_consistent:
  assumes "health_reach E s"
  defines "f \<equiv> hs_fields s"
  shows "(hf_computing f \<longleftrightarrow> computing_at (hs_pc s)) \<and> (hf_phase f = Stale \<longleftrightarrow> hf_stale_since f \<noteq> None) \<and>
    (hf_report f \<noteq> None \<longleftrightarrow> hf_computed_at f \<noteq> None) \<and> (hf_phase f = Fresh \<longrightarrow> hf_report f \<noteq> None)"
  using reach_sys_ok [OF assms(1)] unfolding f_def sys_ok_def fields_ok_def by blast

section \<open>Freshness\<close>

text \<open>
  Unless a write is owed its notification or a notification waits in the queue, the worktree has
  the fingerprint.
\<close>

definition covers :: "'w health_env \<Rightarrow> 'w health_sys \<Rightarrow> string option \<Rightarrow> bool" where
  "covers E s fp \<longleftrightarrow> (hs_owed s = 0 \<and> Modified \<notin> set (hs_queue s) \<longrightarrow> worktree_fp E s = fp)"

definition fresh_ok :: "'w health_env \<Rightarrow> 'w health_sys \<Rightarrow> bool" where
  "fresh_ok E s \<longleftrightarrow>
     (case hs_pc s of
        Starting \<Rightarrow> hf_phase (hs_fields s) \<noteq> Fresh
      | Idle \<Rightarrow> hf_phase (hs_fields s) = Fresh \<longrightarrow> covers E s (hf_last_fingerprint (hs_fields s))
      | Polling \<Rightarrow> hf_phase (hs_fields s) = Fresh \<longrightarrow> covers E s (hf_last_fingerprint (hs_fields s))
      | MarkingFresh \<Rightarrow> covers E s (hf_last_fingerprint (hs_fields s))
      | StartingCompute fp \<Rightarrow> covers E s fp
      | RunningChecks fp _ _ \<Rightarrow> covers E s fp \<and> hf_phase (hs_fields s) \<noteq> Fresh
      | Publishing fp _ \<Rightarrow> covers E s fp \<and> hf_phase (hs_fields s) \<noteq> Fresh
      | _ \<Rightarrow> True)"

lemma worktree_fp_fields [simp]:
  "worktree_fp E (s\<lparr>hs_pc := p\<rparr>) = worktree_fp E s" "worktree_fp E (s\<lparr>hs_fields := f\<rparr>) = worktree_fp E s"
  "worktree_fp E (s\<lparr>hs_queue := q\<rparr>) = worktree_fp E s" "worktree_fp E (s\<lparr>hs_owed := n\<rparr>) = worktree_fp E s"
  "worktree_fp E (s\<lparr>hs_clock := n\<rparr>) = worktree_fp E s"
  by (simp_all add: worktree_fp_def)

lemma last_fingerprint_ops [simp]:
  "hf_last_fingerprint (mark_stale now f) = hf_last_fingerprint f" "hf_last_fingerprint (mark_fresh f) = hf_last_fingerprint f"
  "hf_last_fingerprint (notify_fields now f) = hf_last_fingerprint f"
  "hf_last_fingerprint (refresh_fields b l f) = hf_last_fingerprint f"
  "hf_last_fingerprint (begin_compute f) = hf_last_fingerprint f"
  "hf_phase (begin_compute f) \<noteq> Fresh"
  "hf_phase (publish now fp r f) = Fresh \<Longrightarrow> hf_phase f \<noteq> Fresh \<Longrightarrow> hf_last_fingerprint (publish now fp r f) = fp"
  by (auto simp: field_defs split: sum.split if_splits)

lemma fresh_ok_advance:
  assumes "fresh_ok E s"
  shows "fresh_ok E (advance E s)"
proof (cases "hs_pc s")
  case Idle
  then show ?thesis using assms
    by (auto simp: advance_def fresh_ok_def covers_def begin_cycle_def after_stale_def
        split: list.split health_event.split health_pc.split)
next
  case Calming
  then show ?thesis by (simp add: fresh_ok_def advance_def split: list.split health_event.split)
next
  case Starting
  then show ?thesis using assms by (simp add: fresh_ok_def advance_def begin_cycle_def)
next
  case (Publishing fp r)
  then show ?thesis using assms by (simp add: fresh_ok_def advance_def covers_def)
qed (use assms in \<open>auto simp: fresh_ok_def advance_def covers_def after_stale_def\<close>)

lemma fresh_ok_step:
  assumes "fresh_ok E s"
  shows "fresh_ok E (health_step E l s)"
proof (cases l)
  case (Request b ls)
  have "fresh_ok E (accept_refresh b ls s)"
    using assms by (cases "hs_pc s") (simp_all add: fresh_ok_def covers_def accept_refresh_def)
  with assms refresh_cases [of E b ls s] Request show ?thesis by auto
next
  case (Write w)
  then show ?thesis using assms by (cases "hs_pc s") (simp_all add: fresh_ok_def covers_def)
next
  case Notify
  then show ?thesis using assms by (cases "hs_pc s") (simp_all add: fresh_ok_def covers_def notify_modified_def)
next
  case PollTick
  then show ?thesis using assms by (cases "hs_pc s") (simp_all add: fresh_ok_def covers_def)
next
  case Tick
  then show ?thesis using assms by (cases "hs_pc s") (simp_all add: fresh_ok_def covers_def)
qed (simp add: assms fresh_ok_advance)

lemma reach_fresh_ok: "health_reach E s \<Longrightarrow> fresh_ok E s"
proof (induction rule: health_reach.induct)
  case (start configured w now)
  then show ?case by (simp add: fresh_ok_def health_start_def initial_fields_def)
qed (rule fresh_ok_step)


section \<open>A refresh settles\<close>

fun pc_rank :: "health_pc \<Rightarrow> nat" where
  "pc_rank Idle = 0"
| "pc_rank (Publishing _ _) = 1"
| "pc_rank MarkingFresh = 1"
| "pc_rank (RunningChecks _ _ _) = 2"
| "pc_rank (StartingCompute _) = 3"
| "pc_rank (Fingerprinting _) = 4"
| "pc_rank Calming = 5"
| "pc_rank Starting = 5"
| "pc_rank MarkingStale = 6"
| "pc_rank Polling = 7"

definition health_rank :: "'w health_sys \<Rightarrow> nat" where
  "health_rank s = 7 * length (hs_queue s) + pc_rank (hs_pc s)"

definition at_rest :: "'w health_sys \<Rightarrow> bool" where
  "at_rest s \<longleftrightarrow> hs_pc s = Idle \<and> hs_queue s = []"

lemma advance_at_rest: "at_rest s \<Longrightarrow> advance E s = s"
  by (simp add: at_rest_def advance_def)

lemma advance_rank: "\<not> at_rest s \<Longrightarrow> health_rank (advance E s) < health_rank s"
  by (cases "hs_pc s")
     (auto simp: at_rest_def health_rank_def advance_def begin_cycle_def after_stale_def
       split: list.split health_event.split)

lemma advance_comes_to_rest: "\<exists>n. \<forall>m \<ge> n. at_rest ((advance E ^^ m) s)"
proof (induction "health_rank s" arbitrary: s rule: less_induct)
  case less
  show ?case
  proof (cases "at_rest s")
    case True
    then have "(advance E ^^ m) s = s" for m by (induction m) (simp_all add: advance_at_rest)
    with True show ?thesis by auto
  next
    case False
    from less [OF advance_rank [OF this]] obtain n where n: "\<forall>m \<ge> n. at_rest ((advance E ^^ m) (advance E s))" by blast
    have "at_rest ((advance E ^^ m) s)" if "m \<ge> Suc n" for m
    proof -
      from that obtain k where "m = Suc k" "k \<ge> n" by (cases m) auto
      with n show ?thesis by (simp add: funpow_swap1)
    qed
    then show ?thesis by blast
  qed
qed

text \<open>The request is still to be served, being served, or served.\<close>

definition settled :: "'w health_env \<Rightarrow> health_report \<Rightarrow> 'w health_sys \<Rightarrow> bool" where
  "settled E r s \<longleftrightarrow> hf_report (hs_fields s) = Some r \<and> hf_last_fingerprint (hs_fields s) = worktree_fp E s \<and>
     hf_phase (hs_fields s) = Fresh"

definition serving :: "'w health_env \<Rightarrow> string option \<Rightarrow> string list option \<Rightarrow> health_report \<Rightarrow> 'w health_sys \<Rightarrow> bool" where
  "serving E b l r s \<longleftrightarrow> hf_base (hs_fields s) = b \<and> hf_languages (hs_fields s) = l \<and>
     (Refresh \<in> set (hs_queue s) \<or>
      (case hs_pc s of
         Fingerprinting True \<Rightarrow> True
       | StartingCompute fp \<Rightarrow> fp = worktree_fp E s
       | RunningChecks fp b' l' \<Rightarrow> fp = worktree_fp E s \<and> b' = b \<and> l' = l \<and> \<not> hf_dirty (hs_fields s)
       | Publishing fp res \<Rightarrow> fp = worktree_fp E s \<and> res = Inr r \<and> \<not> hf_dirty (hs_fields s)
       | Idle \<Rightarrow> settled E r s
       | Calming \<Rightarrow> settled E r s
       | Fingerprinting False \<Rightarrow> settled E r s
       | MarkingFresh \<Rightarrow> settled E r s
       | _ \<Rightarrow> False))"

lemma base_ops [simp]:
  "hf_base (mark_stale now f) = hf_base f" "hf_languages (mark_stale now f) = hf_languages f"
  "hf_base (mark_fresh f) = hf_base f" "hf_languages (mark_fresh f) = hf_languages f"
  "hf_base (begin_compute f) = hf_base f" "hf_languages (begin_compute f) = hf_languages f"
  "hf_base (publish now fp r f) = hf_base f" "hf_languages (publish now fp r f) = hf_languages f"
  "\<not> hf_dirty (begin_compute f)"
  by (auto simp: field_defs split: sum.split)

lemma publish_report:
  "\<not> hf_dirty f \<Longrightarrow> hf_report (publish now fp (Inr r) f) = Some r \<and> hf_phase (publish now fp (Inr r) f) = Fresh \<and>
     hf_last_fingerprint (publish now fp (Inr r) f) = fp"
  by (simp add: publish_def)

lemma mark_fresh_settled: "hf_phase f = Fresh \<Longrightarrow> hf_phase (mark_fresh f) = Fresh \<and> hf_report (mark_fresh f) = hf_report f"
  by (simp add: mark_fresh_def)

lemma serving_advance:
  assumes "serving E b l r s" and "he_checks E (hs_tree s) b l = Inr r"
  shows "serving E b l r (advance E s)"
proof (cases "hs_pc s")
  case Idle
  then show ?thesis using assms
    by (auto simp: serving_def settled_def advance_def begin_cycle_def after_stale_def split: list.split health_event.split)
next
  case Calming
  then show ?thesis using assms
    by (auto simp: serving_def settled_def advance_def split: list.split health_event.split)
next
  case (Fingerprinting forced)
  then show ?thesis using assms by (cases forced) (auto simp: serving_def settled_def advance_def)
next
  case (Publishing fp res)
  then show ?thesis using assms by (auto simp: serving_def settled_def advance_def publish_report)
next
  case MarkingFresh
  then show ?thesis using assms by (auto simp: serving_def settled_def advance_def mark_fresh_settled)
qed (use assms in \<open>auto simp: serving_def advance_def\<close>)

lemma hs_tree_advance [simp]: "hs_tree (advance E s) = hs_tree s"
  by (simp add: advance_def split: health_pc.split list.split health_event.split)

lemma serving_advances:
  assumes "serving E b l r s" and "he_checks E (hs_tree s) b l = Inr r"
  shows "serving E b l r ((advance E ^^ n) s) \<and> hs_tree ((advance E ^^ n) s) = hs_tree s"
  by (induction n) (simp_all add: assms serving_advance)

text \<open>
  C31: An accepted refresh request is served with its own base. Whatever the task was doing and
  whatever waited in the queue, if from then on nothing but the task moves and the checks of the
  worktree with the base and languages now in force give a report, the task comes to rest after
  finitely many steps, and then shows exactly that report, as fresh, with the fingerprint of the
  worktree.
\<close>

theorem refresh_is_served:
  assumes "refresh E base languages s = (Inr (), s1)"
    and "he_checks E (hs_tree s) (hf_base (hs_fields s1)) (hf_languages (hs_fields s1)) = Inr report"
  shows "\<exists>n. \<forall>m \<ge> n. let s2 = (advance E ^^ m) s1 in
    hs_pc s2 = Idle \<and> hs_queue s2 = [] \<and> hf_phase (hs_fields s2) = Fresh \<and>
    hf_report (hs_fields s2) = Some report \<and> hf_last_fingerprint (hs_fields s2) = worktree_fp E s2"
proof -
  have s1: "s1 = accept_refresh base languages s" using assms(1) by (auto simp: refresh_def split: sum.splits)
  have "serving E (hf_base (hs_fields s1)) (hf_languages (hs_fields s1)) report s1"
    by (simp add: serving_def s1 accept_refresh_def)
  moreover have "hs_tree s1 = hs_tree s" by (simp add: s1 accept_refresh_def)
  ultimately have sv: "serving E (hf_base (hs_fields s1)) (hf_languages (hs_fields s1)) report ((advance E ^^ m) s1)" for m
    using serving_advances assms(2) by metis
  from advance_comes_to_rest [of E s1] obtain n where n: "\<forall>m \<ge> n. at_rest ((advance E ^^ m) s1)" by blast
  show ?thesis
  proof (intro exI [of _ n] allI impI)
    fix m
    assume "n \<le> m"
    with n have "at_rest ((advance E ^^ m) s1)" by blast
    with sv [of m] show "let s2 = (advance E ^^ m) s1 in hs_pc s2 = Idle \<and> hs_queue s2 = [] \<and>
        hf_phase (hs_fields s2) = Fresh \<and> hf_report (hs_fields s2) = Some report \<and>
        hf_last_fingerprint (hs_fields s2) = worktree_fp E s2"
      by (simp add: serving_def settled_def at_rest_def Let_def)
  qed
qed

section \<open>A worktree\<close>

text \<open>A worktree as git sees it: the commit, the difference of the tracked files, the files it does not track.\<close>

record worktree =
  wt_head :: string
  wt_diff :: string
  wt_untracked :: "(string \<times> string) list"

definition worktree_git :: "worktree \<Rightarrow> git" where
  "worktree_git w args =
     (if args = [''rev-parse'', ''HEAD''] then Inr (wt_head w)
      else if args = [''-c'', ''core.quotepath=off'', ''diff'', ''HEAD''] then Inr (wt_diff w)
      else if args = [''ls-files'', ''--others'', ''--exclude-standard''] then Inr (join_with (CHR 0x0A) (map fst (wt_untracked w)))
      else if args = [''rev-parse'', ''--verify'', ''main''] then Inr ''c0''
      else Inl (GitFailed ''fatal''))"

text \<open>Checks whose report shows what they read: the base, and the contents of the files.\<close>

definition worktree_checks :: "worktree \<Rightarrow> string option \<Rightarrow> string list option \<Rightarrow> string + health_report" where
  "worktree_checks w base languages = Inr \<lparr>hr_revision = base, hr_checks = [], hr_coverage = None, hr_issues = [],
     hr_new_code = None, hr_unchecked = wt_diff w # map snd (wt_untracked w)\<rparr>"

definition worktree_env :: "worktree health_env" where
  "worktree_env = \<lparr>he_git = worktree_git, he_exists = (\<lambda>_. True), he_checks = worktree_checks, he_cooldown = 5, he_poll = 0\<rparr>"

definition tree_a :: worktree where "tree_a = \<lparr>wt_head = ''c'', wt_diff = ''d'', wt_untracked = [(''n'', ''x'')]\<rparr>"
definition tree_b :: worktree where "tree_b = tree_a\<lparr>wt_diff := ''e''\<rparr>"
definition tree_c :: worktree where "tree_c = tree_a\<lparr>wt_untracked := [(''n'', ''y'')]\<rparr>"

lemma tree_fps:
  "fingerprint (worktree_git tree_b) \<noteq> fingerprint (worktree_git tree_a)"
  "fingerprint (worktree_git tree_c) = fingerprint (worktree_git tree_a)"
  "\<exists>fp. fingerprint (worktree_git tree_a) = Some fp"
  by (simp_all add: fingerprint_def worktree_git_def tree_a_def tree_b_def tree_c_def)

text \<open>The first computation of a sandbox, from its start to rest.\<close>

definition first_labels :: "worktree health_label list" where
  "first_labels = [Advance, Advance, Advance, Advance, Advance]"

definition first_fields :: health_fields where
  "first_fields = \<lparr>hf_phase = Fresh, hf_report = Some (projr (worktree_checks tree_a None None)), hf_computed_at = Some 7,
     hf_stale_since = None, hf_base = None, hf_languages = None,
     hf_last_fingerprint = fingerprint (worktree_git tree_a), hf_computing = False, hf_dirty = False, hf_attempted = True\<rparr>"

definition first_state :: "worktree health_sys" where
  "first_state = \<lparr>hs_fields = first_fields, hs_queue = [], hs_pc = Idle, hs_tree = tree_a, hs_owed = 0, hs_clock = 7\<rparr>"

lemmas env_simps = worktree_env_def advance_def worktree_fp_def begin_cycle_def after_stale_def notify_modified_def

lemma first_run: "health_run worktree_env first_labels (health_start None tree_a 7) = first_state"
  by (simp add: first_labels_def first_state_def first_fields_def health_start_def env_simps initial_fields_def
      initial_base_def begin_compute_def publish_def worktree_checks_def)

lemma first_reach: "health_reach worktree_env first_state"
  using health_reach_run [OF health_reach.start] first_run by metis

theorem health_fields_consistent_witness:
  "health_reach worktree_env first_state \<and> hf_phase (hs_fields first_state) = Fresh \<and> hf_report (hs_fields first_state) \<noteq> None"
  using health_fields_consistent [OF first_reach] first_reach by (auto simp: first_state_def first_fields_def)


theorem refresh_is_served_witness:
  "\<exists>n. hf_report (hs_fields ((advance worktree_env ^^ n) (accept_refresh (Some (Some ''main'')) None first_state))) =
     Some (projr (worktree_checks tree_a (Some ''main'') None))"
proof -
  have "refresh worktree_env (Some (Some ''main'')) None first_state =
      (Inr (), accept_refresh (Some (Some ''main'')) None first_state)"
    by (simp add: refresh_def validate_health_base_def worktree_env_def worktree_git_def)
  from refresh_is_served [OF this, of "projr (worktree_checks tree_a (Some ''main'') None)"]
  show ?thesis
    by (auto simp: first_state_def first_fields_def accept_refresh_def refresh_fields_def worktree_env_def
        worktree_checks_def Let_def)
qed

section \<open>Fresh, but not\<close>

text \<open>
  The fingerprint holds the names of untracked files, not their contents: rewriting such a file
  is taken for no change at all, and the report of the old contents is shown as fresh, at rest.
\<close>

lemma untracked_edit_missed:
  "let s = health_run worktree_env [Write tree_c, Notify, Advance, Advance, Advance, Advance] first_state in
     at_rest s \<and> hf_phase (hs_fields s) = Fresh \<and> hs_tree s = tree_c \<and>
     hf_report (hs_fields s) \<noteq> Some (projr (worktree_checks tree_c None None))"
  using tree_fps
  by (auto simp: first_state_def first_fields_def env_simps notify_fields_def mark_fresh_def at_rest_def Let_def
      worktree_checks_def tree_c_def tree_a_def)

text \<open>
  A write and its notification that come between the comparison of the fingerprints and
  \<open>mark_fresh\<close> are overwritten: the phase is fresh although the worktree has another fingerprint
  than the report, until the notification is taken from the queue and the delay of calm is over.
\<close>

lemma notification_overwritten:
  "let s = health_run worktree_env [Notify, Advance, Advance, Advance, Write tree_b, Notify, Advance] first_state in
     hf_phase (hs_fields s) = Fresh \<and> hs_owed s = 0 \<and>
     hf_last_fingerprint (hs_fields s) \<noteq> fingerprint (worktree_git (hs_tree s))"
  using tree_fps
  by (auto simp: first_state_def first_fields_def env_simps notify_fields_def mark_fresh_def Let_def tree_b_def)

text \<open>
  A report computed while the worktree was changed is stored with the fingerprint of before.
  When the change is undone, the next cycle finds that fingerprint again and shows the report of
  the intermediate state as fresh, at rest.
\<close>

lemma undone_change_keeps_report:
  "let s = health_run worktree_env [Request None None, Advance, Advance, Advance, Write tree_b, Notify, Advance, Write tree_a, Notify,
        Advance, Advance, Advance, Advance, Advance, Advance] first_state in
     at_rest s \<and> hf_phase (hs_fields s) = Fresh \<and> hs_tree s = tree_a \<and>
     hf_report (hs_fields s) = Some (projr (worktree_checks tree_b None None))"
  using tree_fps
  by (auto simp: first_state_def first_fields_def env_simps notify_fields_def mark_fresh_def at_rest_def Let_def
      refresh_def accept_refresh_def refresh_fields_def begin_compute_def publish_def worktree_checks_def)

text \<open>
  A computation already running when a refresh with a base is accepted publishes, after the
  request, a fresh report of the former base.
\<close>

lemma refresh_overtaken:
  "let s = health_run worktree_env [Request None None, Advance, Advance, Advance] first_state;
       s' = health_run worktree_env [Request (Some (Some ''main'')) None, Tick, Advance, Advance] s
   in hf_phase (hs_fields s') = Fresh \<and> hf_computed_at (hs_fields s') = Some (hs_clock s + 1) \<and>
     hf_base (hs_fields s') = Some ''main'' \<and>
     hf_report (hs_fields s') = Some (projr (worktree_checks tree_a None None))"
  by (simp add: first_state_def first_fields_def env_simps Let_def refresh_def accept_refresh_def refresh_fields_def
      begin_compute_def publish_def worktree_checks_def validate_health_base_def worktree_git_def)

end
