(* ===== verification/WfRun.thy ===== *)
theory WfRun
  imports BTree HlReport
begin

text \<open>
  The graph of one workflow run (\<open>app/src/workflow/run_context.rs\<close>): which step kinds a scope
  allows, the context of the run that is written into every step, and how a step reads it back
  (\<open>RunInfo::from_config\<close> in \<open>app/src/workflow/steps/mod.rs\<close>). The step type is that of the engine
  crate, of which the code uses the identifier, the kind and the configuration; what else it
  holds is the type parameter.
\<close>

text \<open>The accented letter and the quotation marks of the messages, in UTF-8.\<close>

abbreviation e_acute :: string where "e_acute \<equiv> [CHR 0xC3, CHR 0xA9]"
abbreviation laquo :: string where "laquo \<equiv> [CHR 0xC2, CHR 0xAB]"
abbreviation raquo :: string where "raquo \<equiv> [CHR 0xC2, CHR 0xBB]"

definition quoted :: "string \<Rightarrow> string" where
  "quoted s = laquo @ '' '' @ s @ '' '' @ raquo"

datatype run_scope = ProjectScope | SandboxScope

record run_context =
  rc_run_id :: string
  rc_user :: string
  rc_user_id :: int
  rc_owner :: string
  rc_project :: string
  rc_sandbox :: "string option"
  rc_triggered_by :: string
  rc_definition :: string

record 'x wf_step =
  sd_id :: string
  sd_kind :: string
  sd_config :: "string json"
  sd_rest :: 'x

text \<open>The errors of the engine crate the code tells apart; the others carry their message.\<close>

datatype workflow_error =
    RestateUnreachable string
  | RestateRejected nat string
  | Serialization string
  | InvalidDag string
  | InvalidConfig string

definition allowed_kinds :: "run_scope \<Rightarrow> string list" where
  "allowed_kinds scope = (case scope of
     ProjectScope \<Rightarrow> [''agent'', ''rhai'']
   | SandboxScope \<Rightarrow> [''agent'', ''rhai'', ''shell'', ''gate''])"

definition libelle_portee :: "run_scope \<Rightarrow> string" where
  "libelle_portee scope = (case scope of ProjectScope \<Rightarrow> ''projet'' | SandboxScope \<Rightarrow> ''sandbox'')"

definition validate_scope :: "run_scope \<Rightarrow> run_context \<Rightarrow> workflow_error + unit" where
  "validate_scope scope ctx =
     (case (scope, rc_sandbox ctx) of
        (SandboxScope, None) \<Rightarrow> Inl (InvalidDag (''port'' @ e_acute @ ''e '' @ libelle_portee scope @ '' exige une sandbox : le contexte du run '' @
            rc_run_id ctx @ '' n'' @ [CHR 0x27] @ ''en porte aucune''))
      | (ProjectScope, Some sandbox) \<Rightarrow>
          Inl (InvalidDag (''port'' @ e_acute @ ''e '' @ libelle_portee scope @ '' exclut toute sandbox : le contexte du run '' @
            rc_run_id ctx @ '' en porte une ('' @ sandbox @ '')''))
      | _ \<Rightarrow> Inr ())"

text \<open>The derived writer; the members of an object are in the order of their names.\<close>

definition run_context_ser :: "run_context \<Rightarrow> string json" where
  "run_context_ser ctx = JObj (bt_of_list
     [(''run_id'', JStr (rc_run_id ctx)), (''user'', JStr (rc_user ctx)), (''user_id'', JInt (rc_user_id ctx)),
      (''owner'', JStr (rc_owner ctx)), (''project'', JStr (rc_project ctx)),
      (''sandbox'', (case rc_sandbox ctx of None \<Rightarrow> JNull | Some s \<Rightarrow> JStr s)),
      (''triggered_by'', JStr (rc_triggered_by ctx)), (''definition'', JStr (rc_definition ctx))])"

text \<open>
  The derived reader: an object in which only \<open>sandbox\<close> may be missing, or an array of the eight
  fields in their order. The value of a map has every name once.
\<close>

fun as_i32 :: "string json \<Rightarrow> int option" where
  "as_i32 (JInt i) = (if - (2 ^ 31) \<le> i \<and> i < 2 ^ 31 then Some i else None)"
| "as_i32 _ = None"

fun opt_str :: "string json \<Rightarrow> string option option" where
  "opt_str JNull = Some None"
| "opt_str (JStr s) = Some (Some s)"
| "opt_str _ = None"

text \<open>A field with a default.\<close>

definition defaulted :: "'a \<Rightarrow> (string json \<Rightarrow> 'a option) \<Rightarrow> string json option \<Rightarrow> 'a option" where
  "defaulted d read v = (case v of None \<Rightarrow> Some d | Some w \<Rightarrow> read w)"

definition run_context_of :: "string json \<Rightarrow> string json \<Rightarrow> string json \<Rightarrow> string json \<Rightarrow> string json
    \<Rightarrow> string json \<Rightarrow> string json \<Rightarrow> string json \<Rightarrow> run_context option" where
  "run_context_of a b c d e f g h =
     do {
       run_id \<leftarrow> as_str a; user \<leftarrow> as_str b; user_id \<leftarrow> as_i32 c; owner \<leftarrow> as_str d; project \<leftarrow> as_str e;
       sandbox \<leftarrow> opt_str f; triggered_by \<leftarrow> as_str g; definition' \<leftarrow> as_str h;
       Some \<lparr>rc_run_id = run_id, rc_user = user, rc_user_id = user_id, rc_owner = owner, rc_project = project,
         rc_sandbox = sandbox, rc_triggered_by = triggered_by, rc_definition = definition'\<rparr>
     }"

fun run_context_de :: "string json \<Rightarrow> run_context option" where
  "run_context_de (JObj ms) =
     do {
       a \<leftarrow> map_of ms ''run_id''; b \<leftarrow> map_of ms ''user''; c \<leftarrow> map_of ms ''user_id'';
       d \<leftarrow> map_of ms ''owner''; e \<leftarrow> map_of ms ''project'';
       g \<leftarrow> map_of ms ''triggered_by''; h \<leftarrow> map_of ms ''definition'';
       run_context_of a b c d e (case map_of ms ''sandbox'' of None \<Rightarrow> JNull | Some f \<Rightarrow> f) g h
     }"
| "run_context_de (JArr [a, b, c, d, e, f, g, h]) = run_context_of a b c d e f g h"
| "run_context_de _ = None"

record step_error =
  se_message :: string
  se_retryable :: bool

text \<open>Of the two messages only the beginning is modelled.\<close>

definition run_info :: "string json \<Rightarrow> step_error + run_context" where
  "run_info config =
     (case jget ''_run'' config of
        None \<Rightarrow> Inl \<lparr>se_message = ''contexte d'' @ [CHR 0x27] @ ''ex'' @ e_acute @ ''cution absent'', se_retryable = False\<rparr>
      | Some raw \<Rightarrow>
          (case run_context_de raw of
             None \<Rightarrow> Inl \<lparr>se_message = ''contexte d'' @ [CHR 0x27] @ ''ex'' @ e_acute @ ''cution mal form'' @ e_acute, se_retryable = False\<rparr>
           | Some ctx \<Rightarrow> Inr ctx))"

definition inject_run :: "string json \<Rightarrow> string json \<Rightarrow> string json" where
  "inject_run run config =
     (case config of JObj ms \<Rightarrow> JObj (bt_insert ''_run'' run ms) | _ \<Rightarrow> JObj [(''_run'', run)])"

definition kind_error :: "run_scope \<Rightarrow> 'x wf_step \<Rightarrow> string" where
  "kind_error scope s = ''step '' @ sd_id s @ '' : kind '' @ quoted (sd_kind s) @ '' non autoris'' @ e_acute @ '' pour la port'' @ e_acute @ ''e '' @
     libelle_portee scope @ '' (autoris'' @ e_acute @ ''s : '' @ join_str '', '' (allowed_kinds scope) @ '')''"

definition materialize :: "'x wf_step list \<Rightarrow> run_scope \<Rightarrow> run_context \<Rightarrow> workflow_error + 'x wf_step list" where
  "materialize definition' scope ctx =
     (case validate_scope scope ctx of
        Inl e \<Rightarrow> Inl e
      | Inr _ \<Rightarrow>
          (case List.find (\<lambda>s. sd_kind s \<notin> set (allowed_kinds scope)) definition' of
             Some s \<Rightarrow> Inl (InvalidDag (kind_error scope s))
           | None \<Rightarrow> Inr (map (\<lambda>s. s\<lparr>sd_config := inject_run (run_context_ser ctx) (sd_config s)\<rparr>) definition')))"

section \<open>The context every step reads\<close>

definition ctx_ok :: "run_context \<Rightarrow> bool" where
  "ctx_ok ctx \<longleftrightarrow> - (2 ^ 31) \<le> rc_user_id ctx \<and> rc_user_id ctx < 2 ^ 31"

lemma run_context_roundtrip: "ctx_ok ctx \<Longrightarrow> run_context_de (run_context_ser ctx) = Some ctx"
  by (simp add: run_context_ser_def bt_of_list_def map_of_bt_extend_rev run_context_of_def ctx_ok_def
      split: option.split)

lemma jget_inject_run:
  "jget k (inject_run run config) = (if k = ''_run'' then Some run else jget k config)"
  by (cases config) (simp_all add: inject_run_def)

lemma run_info_inject: "ctx_ok ctx \<Longrightarrow> run_info (inject_run (run_context_ser ctx) config) = Inr ctx"
  by (simp add: run_info_def jget_inject_run run_context_roundtrip)

lemma validate_scope_ok:
  "validate_scope scope ctx = Inr () \<longleftrightarrow> (scope = SandboxScope \<longleftrightarrow> rc_sandbox ctx \<noteq> None)"
  by (cases scope; cases "rc_sandbox ctx") (simp_all add: validate_scope_def)

lemma materialize_ok:
  "materialize steps scope ctx = Inr dag \<longleftrightarrow>
     (scope = SandboxScope \<longleftrightarrow> rc_sandbox ctx \<noteq> None) \<and> (\<forall>s \<in> set steps. sd_kind s \<in> set (allowed_kinds scope)) \<and>
     dag = map (\<lambda>s. s\<lparr>sd_config := inject_run (run_context_ser ctx) (sd_config s)\<rparr>) steps"
proof (cases "validate_scope scope ctx")
  case (Inl e)
  then show ?thesis using validate_scope_ok [of scope ctx] by (simp add: materialize_def)
next
  case (Inr u)
  then show ?thesis using validate_scope_ok [of scope ctx]
    by (auto simp: materialize_def find_None_iff find_Some_iff split: option.split)
qed

definition allowed_in :: "run_scope \<Rightarrow> run_context \<Rightarrow> 'x wf_step list \<Rightarrow> bool" where
  "allowed_in scope ctx steps \<longleftrightarrow> (scope = SandboxScope \<longleftrightarrow> rc_sandbox ctx \<noteq> None) \<and>
     (\<forall>s \<in> set steps. sd_kind s \<in> set (allowed_kinds scope))"

text \<open>
  C32: A run executes the definition under its own context and nothing else. A graph is
  materialised exactly when the context names a sandbox for a sandbox scope and none for a
  project scope and every kind is allowed in the scope, so a project run never holds a shell or
  gate step. Every step then keeps its identifier, kind, dependencies and all other
  configuration, and reads back exactly the context of this run, even when the author of the
  workflow wrote a context of another user into it.
\<close>

theorem materialize_binds_context:
  assumes "ctx_ok ctx"
  shows "case materialize steps scope ctx of
      Inl _ \<Rightarrow> \<not> allowed_in scope ctx steps
    | Inr dag \<Rightarrow> allowed_in scope ctx steps \<and> length dag = length steps \<and>
        (\<forall>i < length steps. sd_id (dag ! i) = sd_id (steps ! i) \<and> sd_kind (dag ! i) = sd_kind (steps ! i) \<and>
           sd_rest (dag ! i) = sd_rest (steps ! i) \<and> run_info (sd_config (dag ! i)) = Inr ctx \<and>
           (\<forall>k. k \<noteq> ''_run'' \<longrightarrow> jget k (sd_config (dag ! i)) = jget k (sd_config (steps ! i))))"
proof (cases "materialize steps scope ctx")
  case (Inl e)
  then have "\<not> allowed_in scope ctx steps" using materialize_ok [of steps scope ctx] unfolding allowed_in_def by auto
  then show ?thesis using Inl by simp
next
  case (Inr dag)
  then have ok: "allowed_in scope ctx steps"
      "dag = map (\<lambda>s. s\<lparr>sd_config := inject_run (run_context_ser ctx) (sd_config s)\<rparr>) steps"
    by (simp_all add: materialize_ok allowed_in_def)
  with assms Inr show ?thesis by (simp add: run_info_inject jget_inject_run)
qed

definition sample_run :: run_context where
  "sample_run = \<lparr>rc_run_id = ''r1'', rc_user = ''alice'', rc_user_id = 3, rc_owner = ''alice'', rc_project = ''demo'',
     rc_sandbox = None, rc_triggered_by = ''ui'', rc_definition = ''alice/demo/ci''\<rparr>"

text \<open>A step whose author wrote a context of another user.\<close>

definition forged_step :: "unit wf_step" where
  "forged_step = \<lparr>sd_id = ''a'', sd_kind = ''rhai'',
     sd_config = JObj [(''_run'', run_context_ser (sample_run\<lparr>rc_user := ''eve'', rc_user_id := 1\<rparr>)), (''script'', JStr ''1'')],
     sd_rest = ()\<rparr>"

theorem materialize_binds_context_witness:
  "\<exists>dag. materialize [forged_step] ProjectScope sample_run = Inr dag \<and> run_info (sd_config (dag ! 0)) = Inr sample_run"
proof -
  have ok: "ctx_ok sample_run" by (simp add: ctx_ok_def sample_run_def)
  have "\<exists>dag. materialize [forged_step] ProjectScope sample_run = Inr dag"
    by (simp add: materialize_ok forged_step_def sample_run_def allowed_kinds_def)
  with materialize_binds_context [OF ok, of ProjectScope "[forged_step]"] show ?thesis by auto
qed

end
