(* ===== verification/WfSteps.thy ===== *)
theory WfSteps
  imports WfRun
begin

text \<open>
  Access to the sandbox of a run (\<open>SandboxAccess\<close> in \<open>app/src/workflow/steps/mod.rs\<close>) and the
  step kind \<open>shell\<close> (\<open>app/src/workflow/steps/shell.rs\<close>), which starts a job in the sandbox under
  an identifier of the run and asks for its state until it has ended. The cluster client, the
  transport and the JSON reader are parameters. Durations are milliseconds.
\<close>

section \<open>Access to the sandbox\<close>

text \<open>What the cluster answers for a run, and the requests made to it, in order.\<close>

datatype access_request = AskPhase | AskToken | AskBaseUrl

record locator =
  lo_phase :: "step_error + string option"
  lo_token :: "step_error + string"
  lo_base_url :: "step_error + string"

record sandbox_access =
  sa_owner :: string
  sa_base :: string

definition fatal :: "string \<Rightarrow> step_error" where
  "fatal m = \<lparr>se_message = m, se_retryable = False\<rparr>"

definition transient :: "string \<Rightarrow> step_error" where
  "transient m = \<lparr>se_message = m, se_retryable = True\<rparr>"

definition not_started :: "string \<Rightarrow> string" where
  "not_started detail = ''sandbox non d'' @ e_acute @ ''marr'' @ e_acute @ ''e : '' @ detail"

definition open_with :: "locator \<Rightarrow> run_context \<Rightarrow> (step_error + sandbox_access) \<times> access_request list" where
  "open_with lo run =
     (case rc_sandbox run of
        None \<Rightarrow> (Inl (fatal (not_started (''le run '' @ quoted (rc_run_id run) @ '' est de port'' @ e_acute @
                  ''e projet, aucune sandbox''))), [])
      | Some sandbox \<Rightarrow>
          (case lo_phase lo of
             Inl e \<Rightarrow> (Inl e, [AskPhase])
           | Inr phase \<Rightarrow>
               if phase \<noteq> Some ''Running''
               then (Inl (fatal (not_started (quoted sandbox @ '' en phase '' @
                       quoted (case phase of None \<Rightarrow> ''inconnue'' | Some p \<Rightarrow> p)))), [AskPhase])
               else (case lo_token lo of
                   Inl e \<Rightarrow> (Inl e, [AskPhase, AskToken])
                 | Inr _ \<Rightarrow>
                     (case lo_base_url lo of
                        Inl e \<Rightarrow> (Inl e, [AskPhase, AskToken, AskBaseUrl])
                      | Inr base \<Rightarrow> (Inr \<lparr>sa_owner = rc_owner run, sa_base = base\<rparr>, [AskPhase, AskToken, AskBaseUrl])))))"

text \<open>The internal address without the suffix of the tool route.\<close>

definition base_of_mcp_url :: "string \<Rightarrow> string" where
  "base_of_mcp_url url = (case strip_suffix ''/mcp'' url of None \<Rightarrow> url | Some b \<Rightarrow> b)"

text \<open>
  An answer of the transport: failed, or a status with the text of the body, which may break off.
  \<open>Inl\<close> of a body is the error of reading it.
\<close>

type_synonym http_answer = "string + nat \<times> (string + string)"

definition is_success :: "nat \<Rightarrow> bool" where
  "is_success code \<longleftrightarrow> 200 \<le> code \<and> code < 300"

definition read_json :: "(string \<Rightarrow> string + string json) \<Rightarrow> string \<Rightarrow> string \<Rightarrow> step_error + string json" where
  "read_json parse url text =
     (case parse text of
        Inl e \<Rightarrow> Inl (fatal (''r'' @ e_acute @ ''ponse JSON invalide de '' @ url @ '' : '' @ e))
      | Inr v \<Rightarrow> Inr v)"

definition unreachable :: "sandbox_access \<Rightarrow> string \<Rightarrow> string \<Rightarrow> step_error" where
  "unreachable a url e = transient (''sandbox '' @ quoted (sa_owner a) @ '' injoignable sur '' @ url @ '' : '' @ e)"

text \<open>\<open>send\<close> asks for the token anew; \<open>call\<close> and \<open>get_json_status\<close> read its answer.\<close>

definition send :: "sandbox_access \<Rightarrow> step_error + string \<Rightarrow> http_answer \<Rightarrow> string \<Rightarrow> step_error + nat \<times> (string + string)" where
  "send a token answer path =
     (case token of
        Inl e \<Rightarrow> Inl e
      | Inr _ \<Rightarrow>
          (case answer of
             Inl e \<Rightarrow> Inl (unreachable a (sa_base a @ path) e)
           | Inr r \<Rightarrow> Inr r))"

definition call :: "(string \<Rightarrow> string + string json) \<Rightarrow> sandbox_access \<Rightarrow> step_error + string \<Rightarrow> http_answer \<Rightarrow> string
    \<Rightarrow> step_error + string json" where
  "call parse a token answer path =
     (case send a token answer path of
        Inl e \<Rightarrow> Inl e
      | Inr (code, body) \<Rightarrow>
          if \<not> is_success code
          then Inl (fatal (''sandbox '' @ quoted (sa_owner a) @ '' : HTTP '' @ (sa_base a @ path) @ '' '' @ show_nat code @ '' : '' @
                 concat (take 200 (utf8_chars (case body of Inl _ \<Rightarrow> [] | Inr t \<Rightarrow> t)))))
          else (case body of
              Inl e \<Rightarrow> Inl (transient (''lecture de la r'' @ e_acute @ ''ponse de '' @ (sa_base a @ path) @ '' interrompue : '' @ e))
            | Inr text \<Rightarrow> if text = [] then Inr JNull else read_json parse (sa_base a @ path) text))"

definition get_json_status :: "(string \<Rightarrow> string + string json) \<Rightarrow> sandbox_access \<Rightarrow> step_error + string \<Rightarrow> http_answer \<Rightarrow> string
    \<Rightarrow> step_error + nat \<times> string json option" where
  "get_json_status parse a token answer path =
     (case send a token answer path of
        Inl e \<Rightarrow> Inl e
      | Inr (code, body) \<Rightarrow>
          (case body of
             Inl e \<Rightarrow> Inl (transient (''lecture de la r'' @ e_acute @ ''ponse de '' @ (sa_base a @ path) @ '' interrompue : '' @ e))
           | Inr text \<Rightarrow>
               if text = [] then Inr (code, None)
               else if is_success code then map_sum id (\<lambda>v. (code, Some v)) (read_json parse (sa_base a @ path) text)
               else Inr (code, (case parse text of Inl _ \<Rightarrow> None | Inr v \<Rightarrow> Some v))))"

section \<open>The shell step\<close>

record shell_config =
  sh_script :: string
  sh_cwd :: "string option"
  sh_env :: "(string \<times> string) list option"
  sh_timeout_secs :: "nat option"
  sh_allow_failure :: bool

text \<open>
  The derived reader of the configuration and the check of the script. Unknown members, the
  context among them, are ignored. An array is refused here; the source reads its fields by place
  and then refuses it for the missing context.
\<close>

fun str_members :: "(string \<times> string json) list \<Rightarrow> (string \<times> string) list option" where
  "str_members [] = Some []"
| "str_members ((k, JStr v) # ms) = map_option ((#) (k, v)) (str_members ms)"
| "str_members _ = None"

definition optional :: "(string json \<Rightarrow> 'a option) \<Rightarrow> string json option \<Rightarrow> 'a option option" where
  "optional read v = (case v of None \<Rightarrow> Some None | Some JNull \<Rightarrow> Some None | Some w \<Rightarrow> map_option Some (read w))"

definition shell_config_de :: "string json \<Rightarrow> shell_config option" where
  "shell_config_de config =
     (case config of
        JObj ms \<Rightarrow> do {
          script \<leftarrow> Option.bind (map_of ms ''script'') as_str;
          cwd \<leftarrow> optional as_str (map_of ms ''cwd'');
          env \<leftarrow> optional (\<lambda>v. Option.bind (as_obj v) str_members) (map_of ms ''env'');
          timeout \<leftarrow> optional as_u64 (map_of ms ''timeout_secs'');
          allow \<leftarrow> (case map_of ms ''allow_failure'' of None \<Rightarrow> Some False | Some v \<Rightarrow> as_bool v);
          Some \<lparr>sh_script = script, sh_cwd = cwd, sh_env = env, sh_timeout_secs = timeout, sh_allow_failure = allow\<rparr>
        }
      | _ \<Rightarrow> None)"

definition parse_shell_config :: "string json \<Rightarrow> step_error + shell_config" where
  "parse_shell_config config =
     (case shell_config_de config of
        None \<Rightarrow> Inl (fatal (''config du step `shell` invalide''))
      | Some cfg \<Rightarrow>
          if str_trim (sh_script cfg) = [] then Inl (fatal (''config du step `shell` invalide : `script` est vide''))
          else Inr cfg)"

text \<open>The state of a job as its status names it.\<close>

definition state_of :: "string json \<Rightarrow> string option" where
  "state_of status = Option.bind (jget ''state'' status) as_str"

definition JOB_LOST_STATUS :: nat where "JOB_LOST_STATUS = 404"

definition shell_terminal :: "string option \<Rightarrow> bool" where
  "shell_terminal state \<longleftrightarrow> state \<noteq> Some ''running''"

abbreviation unknown_state :: string where "unknown_state \<equiv> ''inconnu''"

definition or_member :: "string \<Rightarrow> string json \<Rightarrow> string json \<Rightarrow> string json" where
  "or_member k d v = (case jget k v of None \<Rightarrow> d | Some w \<Rightarrow> w)"

definition output_of :: "string json \<Rightarrow> string json" where
  "output_of status =
     (let started = (case Option.bind (jget ''started_at'' status) as_u64 of None \<Rightarrow> 0 | Some n \<Rightarrow> n);
          ended = (case Option.bind (jget ''ended_at'' status) as_u64 of None \<Rightarrow> started | Some n \<Rightarrow> n)
      in JObj (bt_of_list
        [(''state'', JStr (case state_of status of None \<Rightarrow> unknown_state | Some s \<Rightarrow> s)),
         (''exit_code'', or_member ''exit_code'' JNull status),
         (''log_tail'', or_member ''log_tail'' (JStr []) status),
         (''duration_ms'', JInt (int (min U64_MAX ((ended - started) * 1000))))]))"

definition shell_job_id :: "run_context \<Rightarrow> string \<Rightarrow> string" where
  "shell_job_id run step_id = rc_run_id run @ '':'' @ step_id"

definition shell_body :: "string \<Rightarrow> shell_config \<Rightarrow> string json" where
  "shell_body job_id cfg = JObj (bt_of_list
     ([(''job_id'', JStr job_id), (''script'', JStr (sh_script cfg))] @
      (case sh_cwd cfg of None \<Rightarrow> [] | Some c \<Rightarrow> [(''cwd'', JStr c)]) @
      (case sh_env cfg of None \<Rightarrow> [] | Some e \<Rightarrow> [(''env'', JObj (map (\<lambda>(k, v). (k, JStr v)) e))]) @
      (case sh_timeout_secs cfg of None \<Rightarrow> [] | Some t \<Rightarrow> [(''timeout_secs'', JInt (int t))])))"

definition FIRST_DELAY :: nat where "FIRST_DELAY = 2000"
definition MAX_DELAY :: nat where "MAX_DELAY = 10000"

definition next_delay :: "nat \<Rightarrow> nat" where
  "next_delay delay = (if delay < MAX_DELAY then min (delay * 2) MAX_DELAY else delay)"

text \<open>
  The loop: the \<open>k\<close>-th answer is asked for after the delay has been waited for. It need not end,
  so not returning is \<open>None\<close>; the number is the time waited so far.
\<close>

partial_function (option) shell_poll
  :: "(nat \<Rightarrow> step_error + nat \<times> string json option) \<Rightarrow> string \<Rightarrow> nat \<Rightarrow> nat \<Rightarrow> nat \<Rightarrow> string json
      \<Rightarrow> (nat \<times> (step_error + string json)) option" where
  "shell_poll answers job_id k delay waited status =
     (if shell_terminal (state_of status) then Some (waited, Inr status)
      else (case answers k of
          Inl e \<Rightarrow> Some (waited + delay, Inl \<lparr>se_message = ''interrogation du job '' @ job_id @ '' impossible : '' @ se_message e,
                      se_retryable = se_retryable e\<rparr>)
        | Inr (code, body) \<Rightarrow>
            if code = JOB_LOST_STATUS
            then Some (waited + delay, Inl (fatal (''job perdu : la sandbox a oubli'' @ e_acute @ '' le job '' @ job_id)))
            else if \<not> is_success code
            then Some (waited + delay, Inl (fatal (''interrogation du job '' @ job_id @ '' : HTTP '' @ show_nat code)))
            else shell_poll answers job_id (k + 1) (next_delay delay) (waited + delay)
                   (case body of None \<Rightarrow> JNull | Some v \<Rightarrow> v)))"

text \<open>The message goes on with the exit code and the end of the log.\<close>

definition shell_refused :: "(string json \<Rightarrow> string) \<Rightarrow> string \<Rightarrow> string \<Rightarrow> string json \<Rightarrow> step_error" where
  "shell_refused to_string job_id state status =
     fatal (''job '' @ job_id @ '' : '' @ e_acute @ ''tat '' @ quoted state @ '', code de sortie '' @
       (case jget ''exit_code'' status of None \<Rightarrow> ''aucun'' | Some v \<Rightarrow> to_string v) @ '', fin du log : '' @
       (case Option.bind (jget ''log_tail'' status) as_str of None \<Rightarrow> [] | Some t \<Rightarrow> t))"

text \<open>\<open>to_string\<close> writes a JSON value as text.\<close>

definition shell_verdict :: "(string json \<Rightarrow> string) \<Rightarrow> shell_config \<Rightarrow> string \<Rightarrow> string json \<Rightarrow> step_error + string json" where
  "shell_verdict to_string cfg job_id status =
     (let state = (case state_of status of None \<Rightarrow> unknown_state | Some s \<Rightarrow> s) in
      if state \<noteq> ''succeeded'' \<and> \<not> sh_allow_failure cfg then Inl (shell_refused to_string job_id state status)
      else Inr (output_of status))"

text \<open>The whole step: the answer to the creation, then the loop, then the verdict.\<close>

definition shell_execute :: "(string json \<Rightarrow> string) \<Rightarrow> step_error + string json \<Rightarrow> (nat \<Rightarrow> step_error + nat \<times> string json option)
    \<Rightarrow> run_context \<Rightarrow> string \<Rightarrow> shell_config \<Rightarrow> (step_error + string json) option" where
  "shell_execute to_string created answers run step_id cfg =
     (let job_id = shell_job_id run step_id in
      case created of
        Inl e \<Rightarrow> Some (Inl \<lparr>se_message = ''d'' @ e_acute @ ''marrage du job '' @ job_id @ '' refus'' @ e_acute @ '' : '' @ se_message e,
                     se_retryable = se_retryable e\<rparr>)
      | Inr status \<Rightarrow>
          (case shell_poll answers job_id 0 FIRST_DELAY 0 status of
             None \<Rightarrow> None
           | Some (_, Inl e) \<Rightarrow> Some (Inl e)
           | Some (_, Inr final) \<Rightarrow> Some (shell_verdict to_string cfg job_id final)))"

end
