(* ===== verification/JobsApi.thy ===== *)
theory JobsApi
  imports JobsProps WfSteps
begin

text \<open>
  What a client of the sandbox's jobs sees: the status of a job as JSON, the answers of
  \<open>GET /jobs/{job_id}\<close> and \<open>POST /jobs\<close> (\<open>sandbox/src/jobs.rs\<close>), and the contract of that
  service as a locale, in which the shell step of the workflows is verified. The job registry
  discharges it.
\<close>

section \<open>The answers\<close>

definition job_state_name :: "job_state \<Rightarrow> string" where
  "job_state_name st = (case st of JRunning \<Rightarrow> ''running'' | JSucceeded \<Rightarrow> ''succeeded'' | JFailed \<Rightarrow> ''failed''
     | JTimedOut \<Rightarrow> ''timed_out'' | JCancelled \<Rightarrow> ''cancelled'')"

definition job_status_ser :: "job_status \<Rightarrow> string json" where
  "job_status_ser st = JObj
     [(''job_id'', JStr (js_job_id st)), (''state'', JStr (job_state_name (js_state st))),
      (''exit_code'', (case js_exit st of None \<Rightarrow> JNull | Some c \<Rightarrow> JInt c)),
      (''started_at'', JInt (int (js_started st))),
      (''ended_at'', (case js_ended st of None \<Rightarrow> JNull | Some n \<Rightarrow> JInt (int n))),
      (''log_size'', JInt (int (js_log_size st))), (''log_tail'', JStr (js_log_tail st))]"

definition job_error :: "string \<Rightarrow> string \<Rightarrow> string json" where
  "job_error code detail = JObj [(''error'', JStr (code @ '': '' @ detail))]"

definition handle_get :: "jobs \<Rightarrow> string \<Rightarrow> nat \<times> string json option" where
  "handle_get js job_id =
     (case job_status_of js job_id of
        Some st \<Rightarrow> (200, Some (job_status_ser st))
      | None \<Rightarrow> (404, Some (job_error ''VNL-SBX-JOBS-014'' ''job not found'')))"

lemma job_status_ser_gets [simp]:
  "jget ''state'' (job_status_ser st) = Some (JStr (job_state_name (js_state st)))"
  "jget ''exit_code'' (job_status_ser st) = Some (case js_exit st of None \<Rightarrow> JNull | Some c \<Rightarrow> JInt c)"
  by (simp_all add: job_status_ser_def)

lemma state_of_ser [simp]: "state_of (job_status_ser st) = Some (job_state_name (js_state st))"
  by (simp add: state_of_def)

lemma job_state_name_eq [simp]:
  "job_state_name st = ''succeeded'' \<longleftrightarrow> st = JSucceeded" "job_state_name st = ''running'' \<longleftrightarrow> st = JRunning"
  by (cases st; simp add: job_state_name_def)+

section \<open>Success means exit code zero\<close>

definition exits_ok :: "jobs \<Rightarrow> bool" where
  "exits_ok js \<longleftrightarrow> (\<forall>i r. map_of (jb_reg js) i = Some r \<longrightarrow> jr_state r = JSucceeded \<longrightarrow> jr_exit r = Some 0)"

lemma exits_ok_step:
  assumes "job_inv w" "exits_ok (wd_jobs w)" "world_step e w = Some w'"
  shows "exits_ok (wd_jobs w')"
proof (cases e)
  case (EvPublish j now)
  then obtain st code where p: "map_of (wd_sup w) j = Some (Publishing st code)"
    and w': "jb_reg (wd_jobs w') = jb_reg (snd (finish_job j st code now (wd_jobs w)))"
    using assms(3) by (auto simp: case_prod_beta split: option.splits supervisor.splits)
  from inv_supervised [OF assms(1) p] obtain q where q: "map_of (jb_reg (wd_jobs w)) j = Some q"
    "consistent (Publishing st code) q (wd_signalled w)" by blast
  have ok: "reg_ok (jb_reg (wd_jobs w))" using assms(1) by (simp add: job_inv_def)
  show ?thesis
    unfolding exits_ok_def w'
  proof (intro allI impI)
    fix i r
    assume r: "map_of (jb_reg (snd (finish_job j st code now (wd_jobs w)))) i = Some r" "jr_state r = JSucceeded"
    show "jr_exit r = Some 0"
    proof (cases "i = j")
      case True
      then show ?thesis using r q map_of_finish(1) [OF ok q(1), of st code now]
        by (auto simp: finished_record_def split: if_splits)
    next
      case False
      then show ?thesis using r assms(2) map_of_finish(2) [OF ok q(1) False, of st code now] by (auto simp: exits_ok_def)
    qed
  qed
next
  case (EvCancelPrefix p)
  then show ?thesis
    using assms(2,3) by (auto simp: exits_ok_def case_prod_beta fold_signal map_of_prefix_cancel split: if_splits)
qed (use assms(2,3) in \<open>auto simp: exits_ok_def begin_create_def mark_spawned_def set_log_def request_cancel_def
    mark_timed_out_def forget_job_def case_prod_beta map_of_map_entry update_conv' delete_conv' new_record_def
    split: option.splits if_splits\<close>)

lemma reach_exits_ok: "job_reach w \<Longrightarrow> exits_ok (wd_jobs w)"
proof (induction rule: job_reach.induct)
  case reach_new
  then show ?case by (simp add: exits_ok_def world_new_def jobs_new_def)
next
  case (reach_step w e w')
  then show ?case using exits_ok_step job_reach_inv by blast
qed

lemma status_exit:
  "job_reach w \<Longrightarrow> job_status_of (wd_jobs w) i = Some st \<Longrightarrow> js_state st = JSucceeded \<Longrightarrow> js_exit st = Some 0"
  using reach_exits_ok [of w] by (auto simp: job_status_of_def snapshot_of_def exits_ok_def case_prod_beta)

end
