(* ===== verification/WfStepsProps.thy ===== *)
theory WfStepsProps
  imports JobsApi
begin

text \<open>
  The workflow's access to a sandbox and its shell step: no token is asked for unless the
  sandbox runs, the loop of the shell step ends with the first answer that is not running, and
  over the job service of the sandbox a step that succeeds has seen its process exit with zero.
\<close>

section \<open>Opening\<close>

text \<open>
  No credential is asked for, and no address, unless the run has a sandbox and the cluster
  says that it is running; access is given exactly when, besides, a token and an address are
  there, and it is access for the owner of the run.
\<close>

theorem open_needs_running_sandbox:
  "(AskToken \<in> set (snd (open_with lo run)) \<longleftrightarrow> rc_sandbox run \<noteq> None \<and> lo_phase lo = Inr (Some ''Running'')) \<and>
   (\<exists>a. fst (open_with lo run) = Inr a) = (rc_sandbox run \<noteq> None \<and> lo_phase lo = Inr (Some ''Running'') \<and>
      (\<exists>t. lo_token lo = Inr t) \<and> (\<exists>u. lo_base_url lo = Inr u)) \<and>
   (case fst (open_with lo run) of Inl _ \<Rightarrow> True | Inr a \<Rightarrow> sa_owner a = rc_owner run)"
  by (auto simp: open_with_def split: option.splits sum.splits)

section \<open>The loop of the shell step\<close>

definition running_answer :: "step_error + nat \<times> string json option \<Rightarrow> bool" where
  "running_answer a \<longleftrightarrow> (\<exists>code v. a = Inr (code, Some v) \<and> is_success code \<and> state_of v = Some ''running'')"

text \<open>What the first other answer makes of the loop.\<close>

fun poll_result :: "string \<Rightarrow> step_error + nat \<times> string json option \<Rightarrow> step_error + string json" where
  "poll_result job_id (Inl e) = Inl \<lparr>se_message = ''interrogation du job '' @ job_id @ '' impossible : '' @ se_message e,
     se_retryable = se_retryable e\<rparr>"
| "poll_result job_id (Inr (code, body)) =
     (if code = JOB_LOST_STATUS then Inl (fatal (''job perdu : la sandbox a oubli'' @ e_acute @ '' le job '' @ job_id))
      else if \<not> is_success code then Inl (fatal (''interrogation du job '' @ job_id @ '' : HTTP '' @ show_nat code))
      else Inr (case body of None \<Rightarrow> JNull | Some v \<Rightarrow> v))"

definition delay_at :: "nat \<Rightarrow> nat" where
  "delay_at k = min (FIRST_DELAY * 2 ^ k) MAX_DELAY"

lemma next_delay_at [simp]: "next_delay (delay_at k) = delay_at (Suc k)"
  by (auto simp: next_delay_def delay_at_def min_def)

lemma lost_not_success: "is_success code \<Longrightarrow> code \<noteq> JOB_LOST_STATUS"
  by (simp add: is_success_def JOB_LOST_STATUS_def)

lemma poll_running:
  assumes "state_of status = Some ''running''" "running_answer (answers k)"
  shows "\<exists>v. state_of v = Some ''running'' \<and>
    shell_poll answers i k d w status = shell_poll answers i (k + 1) (next_delay d) (w + d) v"
proof -
  from assms(2) obtain code v where a: "answers k = Inr (code, Some v)" "is_success code" "state_of v = Some ''running''"
    by (auto simp: running_answer_def)
  show ?thesis
    using assms(1) a lost_not_success [OF a(2)]
    by (intro exI [of _ v]) (subst shell_poll.simps, simp add: shell_terminal_def)
qed

lemma poll_stops:
  assumes "state_of status = Some ''running''" "\<not> running_answer (answers k)"
  shows "shell_poll answers i k d w status = Some (w + d, poll_result i (answers k))"
proof (cases "answers k")
  case (Inl e)
  then show ?thesis using assms(1) by (subst shell_poll.simps) (simp add: shell_terminal_def)
next
  case (Inr a)
  obtain code body where ab: "a = (code, body)" by (cases a)
  show ?thesis
  proof (cases "is_success code")
    case True
    have nt: "state_of (case body of None \<Rightarrow> JNull | Some v \<Rightarrow> v) \<noteq> Some ''running''"
      using assms(2) True Inr ab by (cases body) (auto simp: running_answer_def state_of_def)
    have "shell_poll answers i k d w status = shell_poll answers i (k + 1) (next_delay d) (w + d) (case body of None \<Rightarrow> JNull | Some v \<Rightarrow> v)"
      using assms(1) True Inr ab lost_not_success [OF True] by (subst shell_poll.simps) (simp add: shell_terminal_def)
    also have "\<dots> = Some (w + d, Inr (case body of None \<Rightarrow> JNull | Some v \<Rightarrow> v))"
      using nt by (subst shell_poll.simps) (simp add: shell_terminal_def)
    finally show ?thesis using True Inr ab lost_not_success [OF True] by simp
  next
    case False
    then show ?thesis using assms(1) Inr ab by (subst shell_poll.simps) (simp add: shell_terminal_def)
  qed
qed

lemma poll_ends:
  assumes "\<forall>j < n. running_answer (answers (k + j))" "\<not> running_answer (answers (k + n))" "state_of status = Some ''running''"
  shows "shell_poll answers i k (delay_at k) w status = Some (w + (\<Sum>j \<le> n. delay_at (k + j)), poll_result i (answers (k + n)))"
  using assms
proof (induction n arbitrary: k w status)
  case 0
  then show ?case using poll_stops by simp
next
  case (Suc n)
  then have "running_answer (answers k)" by force
  with Suc.prems obtain v where v: "state_of v = Some ''running''"
      "shell_poll answers i k (delay_at k) w status = shell_poll answers i (k + 1) (delay_at (k + 1)) (w + delay_at k) v"
    using poll_running [of status answers k i "delay_at k" w] by auto
  have "shell_poll answers i (k + 1) (delay_at (k + 1)) (w + delay_at k) v =
      Some (w + delay_at k + (\<Sum>j \<le> n. delay_at (k + 1 + j)), poll_result i (answers (k + 1 + n)))"
    using Suc.prems v(1) by (intro Suc.IH) (auto dest: spec [of _ "Suc _"])
  moreover have "delay_at k + (\<Sum>j \<le> n. delay_at (k + 1 + j)) = (\<Sum>j \<le> Suc n. delay_at (k + j))"
    by (simp add: sum.atMost_Suc_shift del: sum.atMost_Suc)
  ultimately show ?case by (simp add: v(2))
qed

lemma poll_returns_only:
  assumes "shell_poll answers i k d w status = Some r" "state_of status = Some ''running''"
  shows "\<exists>j \<ge> k. \<not> running_answer (answers j)"
proof -
  have "state_of status = Some ''running'' \<longrightarrow> (\<exists>j \<ge> k. \<not> running_answer (answers j))"
  proof (rule shell_poll.raw_induct [where P = "\<lambda>answers i k d w status r.
      state_of status = Some ''running'' \<longrightarrow> (\<exists>j \<ge> k. \<not> running_answer (answers j))", OF _ assms(1)], intro impI)
    fix poll answers i status r and k d w :: nat
    assume ih: "\<And>answers i (k :: nat) d w status r. poll answers i k d w status = Some r \<Longrightarrow>
        state_of status = Some ''running'' \<longrightarrow> (\<exists>j \<ge> k. \<not> running_answer (answers j))"
      and eq: "(if shell_terminal (state_of status) then Some (w, Inr status)
        else case answers k of
          Inl e \<Rightarrow> Some (w + d, Inl \<lparr>se_message = ''interrogation du job '' @ i @ '' impossible : '' @ se_message e,
                     se_retryable = se_retryable e\<rparr>)
        | Inr (code, body) \<Rightarrow>
            if code = JOB_LOST_STATUS
            then Some (w + d, Inl (fatal (''job perdu : la sandbox a oubli'' @ e_acute @ '' le job '' @ i)))
            else if \<not> is_success code
            then Some (w + d, Inl (fatal (''interrogation du job '' @ i @ '' : HTTP '' @ show_nat code)))
            else poll answers i (k + 1) (next_delay d) (w + d) (case body of None \<Rightarrow> JNull | Some v \<Rightarrow> v)) = Some r"
      and st: "state_of status = Some ''running''"
    show "\<exists>j \<ge> k. \<not> running_answer (answers j)"
    proof (rule ccontr)
      assume "\<not> (\<exists>j \<ge> k. \<not> running_answer (answers j))"
      then have all: "\<forall>j \<ge> k. running_answer (answers j)" by blast
      have "running_answer (answers k)" using spec [OF all, of k] by simp
      then obtain code v where a: "answers k = Inr (code, Some v)" "is_success code" "state_of v = Some ''running''"
        by (auto simp: running_answer_def)
      have "poll answers i (k + 1) (next_delay d) (w + d) v = Some r"
        using eq st a lost_not_success [OF a(2)] by (simp add: shell_terminal_def)
      from ih [OF this] a(3) all show False by force
    qed
  qed
  with assms(2) show ?thesis by blast
qed

text \<open>
  C27: The loop of the shell step ends exactly when some answer is not a running job, and then
  with the first such answer: an error if the transport failed, the job is unknown or the status
  is none of success, the state of the job otherwise. The time waited before the answer number
  \<open>n\<close> is the sum of delays that double from two seconds up to ten.
\<close>

theorem shell_loop_ends:
  assumes "state_of status = Some ''running''"
  shows "(shell_poll answers i 0 FIRST_DELAY 0 status \<noteq> None \<longleftrightarrow> (\<exists>n. \<not> running_answer (answers n))) \<and>
    (\<forall>n. (\<forall>j < n. running_answer (answers j)) \<and> \<not> running_answer (answers n) \<longrightarrow>
      shell_poll answers i 0 FIRST_DELAY 0 status = Some (\<Sum>j \<le> n. min (2000 * 2 ^ j) 10000, poll_result i (answers n)))"
proof -
  have d: "delay_at 0 = FIRST_DELAY" by (simp add: delay_at_def FIRST_DELAY_def MAX_DELAY_def)
  have ends: "shell_poll answers i 0 FIRST_DELAY 0 status = Some (\<Sum>j \<le> n. min (2000 * 2 ^ j) 10000, poll_result i (answers n))"
    if "\<forall>j < n. running_answer (answers j)" "\<not> running_answer (answers n)" for n
    using poll_ends [of n answers 0 status i 0] that assms d
    by (simp add: delay_at_def FIRST_DELAY_def MAX_DELAY_def)
  moreover have "shell_poll answers i 0 FIRST_DELAY 0 status \<noteq> None" if "\<not> running_answer (answers n)" for n
    using ends [of "LEAST n. \<not> running_answer (answers n)"] that not_less_Least LeastI
    by (metis (mono_tags, lifting) option.distinct(1))
  moreover have "\<exists>n. \<not> running_answer (answers n)" if "shell_poll answers i 0 FIRST_DELAY 0 status \<noteq> None"
    using that poll_returns_only assms by fastforce
  ultimately show ?thesis by blast
qed

section \<open>The job service as the step relies on it\<close>

text \<open>
  What a client of the job service relies on: a job is known or not, a known one has a state, and
  one that succeeded has the exit code zero.
\<close>

locale job_service =
  fixes reached :: "'w \<Rightarrow> bool"
    and get_job :: "'w \<Rightarrow> string \<Rightarrow> nat \<times> string json option"
  assumes known_or_not: "reached w \<Longrightarrow> get_job w i = (code, body) \<Longrightarrow> code = 404 \<or> code = 200 \<and> (\<exists>v. body = Some v \<and> state_of v \<noteq> None)"
    and success_exit: "reached w \<Longrightarrow> get_job w i = (200, Some v) \<Longrightarrow> state_of v = Some ''succeeded'' \<Longrightarrow>
          jget ''exit_code'' v = Some (JInt 0)"
begin

text \<open>The state a step ends with was read from the service.\<close>

lemma poll_result_read:
  assumes "\<forall>k. reached (W k)" "\<forall>k. (\<exists>e. answers k = Inl e) \<or> answers k = Inr (get_job (W k) i)"
    and "shell_poll answers i 0 FIRST_DELAY 0 status = Some (t, Inr final)"
  shows "final = status \<or> (\<exists>k. get_job (W k) i = (200, Some final))"
proof (cases "state_of status = Some ''running''")
  case True
  note ends = poll_ends [of _ answers 0 status i 0]
  from assms(3) True obtain n where "\<not> running_answer (answers n)" using poll_returns_only by blast
  then have "\<exists>n. \<not> running_answer (answers n) \<and> (\<forall>j < n. running_answer (answers j))"
    using LeastI [of "\<lambda>n. \<not> running_answer (answers n)"] not_less_Least by blast
  then obtain m where m: "\<not> running_answer (answers m)" "\<forall>j < m. running_answer (answers j)" by blast
  have "delay_at 0 = FIRST_DELAY" by (simp add: delay_at_def FIRST_DELAY_def MAX_DELAY_def)
  with ends [of m] m True assms(3) have r: "poll_result i (answers m) = Inr final" by simp
  have "answers m = Inr (get_job (W m) i)" using r spec [OF assms(2), of m] by auto
  moreover obtain code body where gb: "get_job (W m) i = (code, body)" by fastforce
  ultimately have "code \<noteq> JOB_LOST_STATUS" "final = (case body of None \<Rightarrow> JNull | Some v \<Rightarrow> v)"
    using r by (auto split: if_splits)
  with known_or_not [of "W m", OF _ gb] assms(1) gb show ?thesis by (auto simp: JOB_LOST_STATUS_def)
next
  case False
  then have "final = status" using assms(3) by (subst (asm) shell_poll.simps) (simp add: shell_terminal_def)
  then show ?thesis by simp
qed

lemma step_success:
  assumes "\<forall>k. reached (W k)" "\<forall>k. (\<exists>e. answers k = Inl e) \<or> answers k = Inr (get_job (W k) (shell_job_id run step_id))"
    and "reached w0" "get_job w0 (shell_job_id run step_id) = (200, Some status)"
    and "shell_execute to_string (Inr status) answers run step_id cfg = Some (Inr out)" "\<not> sh_allow_failure cfg"
  shows "jget ''state'' out = Some (JStr ''succeeded'') \<and> jget ''exit_code'' out = Some (JInt 0) \<and>
    (\<exists>w v. reached w \<and> get_job w (shell_job_id run step_id) = (200, Some v) \<and> state_of v = Some ''succeeded'' \<and> out = output_of v)"
proof -
  let ?i = "shell_job_id run step_id"
  from assms(5) obtain t final where p: "shell_poll answers ?i 0 FIRST_DELAY 0 status = Some (t, Inr final)"
    and v: "shell_verdict to_string cfg ?i final = Inr out"
    by (auto simp: shell_execute_def Let_def split: option.splits sum.splits)
  from poll_result_read [OF assms(1,2) p] assms(1,3,4) obtain w where w: "reached w" "get_job w ?i = (200, Some final)" by blast
  have s: "state_of final = Some ''succeeded''" "out = output_of final"
    using v assms(6) by (auto simp: shell_verdict_def Let_def split: option.splits if_splits)
  have "jget ''exit_code'' final = Some (JInt 0)" by (rule success_exit [OF w s(1)])
  then have "jget ''state'' out = Some (JStr ''succeeded'')" "jget ''exit_code'' out = Some (JInt 0)"
    using s by (simp_all add: output_of_def Let_def bt_of_list_def map_of_bt_extend_rev or_member_def)
  with w s show ?thesis by blast
qed

text \<open>Once the job is no longer running, the next answer that comes through ends the loop.\<close>

lemma step_returns:
  assumes "reached (W k)" "answers k = Inr (get_job (W k) (shell_job_id run step_id))"
    and "\<not> (\<exists>v. get_job (W k) (shell_job_id run step_id) = (200, Some v) \<and> state_of v = Some ''running'')"
  shows "shell_execute to_string (Inr status) answers run step_id cfg \<noteq> None"
proof -
  let ?i = "shell_job_id run step_id"
  have "shell_poll answers ?i 0 FIRST_DELAY 0 status \<noteq> None"
  proof (cases "state_of status = Some ''running''")
    case True
    obtain code body where gb: "get_job (W k) ?i = (code, body)" by fastforce
    have nr: "\<not> running_answer (answers k)"
      using assms(2,3) gb known_or_not [OF assms(1) gb] by (auto simp: running_answer_def is_success_def)
    then have "\<exists>n. \<not> running_answer (answers n) \<and> (\<forall>j < n. running_answer (answers j))"
      using LeastI [of "\<lambda>n. \<not> running_answer (answers n)"] not_less_Least by blast
    then obtain m where "\<not> running_answer (answers m)" "\<forall>j < m. running_answer (answers j)" by blast
    moreover have "delay_at 0 = FIRST_DELAY" by (simp add: delay_at_def FIRST_DELAY_def MAX_DELAY_def)
    ultimately show ?thesis using poll_ends [of m answers 0 status ?i 0] True by simp
  next
    case False
    then show ?thesis by (subst shell_poll.simps) (simp add: shell_terminal_def)
  qed
  then show ?thesis by (auto simp: shell_execute_def Let_def split: sum.split)
qed

end

text \<open>The jobs of the sandbox are such a service.\<close>

interpretation sandbox_jobs: job_service job_reach "\<lambda>w. handle_get (wd_jobs w)"
proof unfold_locales
  fix w i code body
  show "handle_get (wd_jobs w) i = (code, body) \<Longrightarrow> code = 404 \<or> code = 200 \<and> (\<exists>v. body = Some v \<and> state_of v \<noteq> None)"
    by (auto simp: handle_get_def split: option.splits)
next
  fix w i v
  assume "job_reach w" "handle_get (wd_jobs w) i = (200, Some v)" "state_of v = Some ''succeeded''"
  then show "jget ''exit_code'' v = Some (JInt 0)"
    using status_exit [of w i] by (auto simp: handle_get_def split: option.splits)
qed


text \<open>A job \<open>r:s\<close> that exits with zero while its step waits.\<close>

definition step_run :: run_context where
  "step_run = sample_run\<lparr>rc_run_id := ''r'', rc_sandbox := Some ''sb''\<rparr>"

definition plain_shell :: shell_config where
  "plain_shell = \<lparr>sh_script = ''true'', sh_cwd = None, sh_env = None, sh_timeout_secs = None, sh_allow_failure = False\<rparr>"

definition started_world :: job_world where
  "started_world = the (run_events [EvCreate ''r:s'' None 1, EvSpawned ''r:s'' (Some 7)] world_new)"

definition ended_world :: job_world where
  "ended_world = the (run_events [EvExited ''r:s'' (Some 0), EvPublish ''r:s'' 4] started_world)"

lemma started_run:
  "run_events [EvCreate ''r:s'' None 1, EvSpawned ''r:s'' (Some 7)] world_new = Some started_world"
  "started_world = \<lparr>wd_jobs = \<lparr>jb_reg = [(''r:s'', (new_record 1 None 1)\<lparr>jr_pgid := Some 7\<rparr>)], jb_next = 2,
      jb_logs = (\<lambda>_. None)(''r:s'' := Some [])\<rparr>, wd_sup = [(''r:s'', Waiting)], wd_signalled = []\<rparr>"
  by (simp_all add: started_world_def world_new_def jobs_new_def begin_create_def running_count_def MAX_RUNNING_JOBS_def
      mark_spawned_def set_log_def new_record_def signal_group_def)

lemma ended_run:
  "run_events [EvExited ''r:s'' (Some 0), EvPublish ''r:s'' 4] started_world = Some ended_world"
  by (simp add: ended_world_def started_run cause_flags_def new_record_def split: prod.split)

lemma worlds_reach: "job_reach started_world" "job_reach ended_world"
  using run_events_reach [OF reach_new started_run(1)] run_events_reach [OF _ ended_run] by blast+

lemma worlds_answer:
  "\<exists>v. handle_get (wd_jobs started_world) ''r:s'' = (200, Some v) \<and> state_of v = Some ''running''"
  "\<exists>v. handle_get (wd_jobs ended_world) ''r:s'' = (200, Some v) \<and> state_of v = Some ''succeeded''"
proof -
  show "\<exists>v. handle_get (wd_jobs started_world) ''r:s'' = (200, Some v) \<and> state_of v = Some ''running''"
    by (simp add: handle_get_def started_run(2) job_status_of_def snapshot_of_def case_prod_beta new_record_def)
  let ?r = "(new_record 1 None 1)\<lparr>jr_pgid := Some 7\<rparr>"
  have ok: "reg_ok (jb_reg (wd_jobs started_world))" and r: "map_of (jb_reg (wd_jobs started_world)) ''r:s'' = Some ?r"
    by (simp_all add: started_run(2) reg_ok_def)
  have n: "newer_finished (jb_reg (wd_jobs started_world)) ?r = 0"
    by (simp add: newer_finished_def started_run(2) new_record_def)
  have "jb_reg (wd_jobs ended_world) = jb_reg (snd (finish_job ''r:s'' JSucceeded (Some 0) 4 (wd_jobs started_world)))"
    using arg_cong [OF ended_run, of "\<lambda>x. jb_reg (wd_jobs (the x))"] by (simp add: started_run(2) cause_flags_def new_record_def case_prod_beta)
  then have "map_of (jb_reg (wd_jobs ended_world)) ''r:s'' = Some (finished_record JSucceeded (Some 0) 4 ?r)"
    using map_of_finish(1) [OF ok r, of JSucceeded "Some 0" 4] unfolding n by (simp add: MAX_FINISHED_KEPT_def)
  then show "\<exists>v. handle_get (wd_jobs ended_world) ''r:s'' = (200, Some v) \<and> state_of v = Some ''succeeded''"
    by (simp add: handle_get_def job_status_of_def snapshot_of_def case_prod_beta finished_record_def)
qed


theorem shell_loop_ends_witness:
  "shell_poll (\<lambda>k. if k < 3 then Inr (200, Some (JObj [(''state'', JStr ''running'')])) else Inr (404, None)) ''j'' 0 FIRST_DELAY 0
      (JObj [(''state'', JStr ''running'')]) = Some (24000, poll_result ''j'' (Inr (404, None)))"
proof -
  let ?a = "\<lambda>k :: nat. if k < 3 then Inr (200, Some (JObj [(''state'', JStr ''running'')])) else Inr (404, None)"
  have s: "state_of (JObj [(''state'', JStr ''running'')]) = Some ''running''" by (simp add: state_of_def)
  have "\<forall>j < 3. running_answer (?a j)" "\<not> running_answer (?a 3)"
    by (auto simp: running_answer_def is_success_def state_of_def)
  with shell_loop_ends [OF s, of ?a "''j''"] have "shell_poll ?a ''j'' 0 FIRST_DELAY 0 (JObj [(''state'', JStr ''running'')]) =
      Some (\<Sum>j \<le> 3. min (2000 * 2 ^ j) 10000, poll_result ''j'' (?a 3))" by blast
  then show ?thesis by (simp add: numeral_3_eq_3)
qed

text \<open>
  A job that ends after twenty jobs started later have ended is dropped at that very moment: the
  waiting step finds it unknown and fails as if the sandbox had lost it, although the command
  succeeded.
\<close>

lemma succeeded_job_reported_lost:
  assumes "job_reach w" "map_of (wd_sup w) (shell_job_id run step_id) = Some (Publishing JSucceeded (Some 0))"
    and "map_of (jb_reg (wd_jobs w)) (shell_job_id run step_id) = Some r" "20 \<le> newer_finished (jb_reg (wd_jobs w)) r"
    and "world_step (EvPublish (shell_job_id run step_id) now) w = Some w'" "state_of status = Some ''running''"
  shows "shell_execute to_string (Inr status) (\<lambda>_. Inr (handle_get (wd_jobs w') (shell_job_id run step_id))) run step_id cfg =
    Some (Inl (fatal (''job perdu : la sandbox a oubli'' @ e_acute @ '' le job '' @ shell_job_id run step_id)))"
proof -
  let ?i = "shell_job_id run step_id"
  have ok: "reg_ok (jb_reg (wd_jobs w))" using job_reach_inv [OF assms(1)] by (simp add: job_inv_def)
  have "jb_reg (wd_jobs w') = jb_reg (snd (finish_job ?i JSucceeded (Some 0) now (wd_jobs w)))"
    using assms(2,5) by (auto simp: case_prod_beta)
  then have "map_of (jb_reg (wd_jobs w')) ?i = None"
    using map_of_finish(1) [OF ok assms(3), of JSucceeded "Some 0" now] assms(4) by (simp add: MAX_FINISHED_KEPT_def is_terminal_def)
  then have g: "handle_get (wd_jobs w') ?i = (404, Some (job_error ''VNL-SBX-JOBS-014'' ''job not found''))"
    by (simp add: handle_get_def job_status_of_def)
  let ?a = "\<lambda>_ :: nat. Inr (handle_get (wd_jobs w') ?i) :: step_error + nat \<times> string json option"
  have "shell_poll ?a ?i 0 FIRST_DELAY 0 status = Some (0 + FIRST_DELAY, poll_result ?i (?a 0))"
    by (rule poll_stops [OF assms(6)]) (simp add: g running_answer_def is_success_def)
  then show ?thesis by (simp add: shell_execute_def Let_def g JOB_LOST_STATUS_def)
qed

end
