(* ===== verification/WfGate.thy ===== *)
theory WfGate
  imports WfSteps CodeHealthProps
begin

text \<open>
  The step kind \<open>gate\<close> (\<open>app/src/workflow/steps/gate.rs\<close>): it asks the sandbox for a fresh
  computation of code health, waits for it and judges the report by five rules that can be
  switched off one by one. Thresholds and percentages are the exact values of \<open>f64\<close>; rounding
  of a division, reading a JSON number, and writing one as text or JSON are parameters.
\<close>

section \<open>Configuration\<close>

record gate_config =
  gc_min_coverage :: "rat option"
  gc_min_new_code_coverage :: "rat option"
  gc_base :: "string option"
  gc_max_errors :: "int option"
  gc_ignore_checks :: "string list"
  gc_fail_on_unchecked :: bool
  gc_enforce :: bool
  gc_wait_timeout_secs :: nat

definition default_max_errors :: "int option" where "default_max_errors = Some 0"
definition default_enforce :: bool where "default_enforce = True"
definition default_wait :: nat where "default_wait = 900"

definition gate_config_de :: "(string json \<Rightarrow> rat option) \<Rightarrow> string json \<Rightarrow> gate_config option" where
  "gate_config_de as_f64 config =
     (case config of
        JObj ms \<Rightarrow> do {
          cov \<leftarrow> optional as_f64 (map_of ms ''min_coverage'');
          new_cov \<leftarrow> optional as_f64 (map_of ms ''min_new_code_coverage'');
          base \<leftarrow> optional as_str (map_of ms ''base'');
          max_errors \<leftarrow> defaulted default_max_errors (\<lambda>v. optional as_i64 (Some v)) (map_of ms ''max_errors'');
          ignore_checks \<leftarrow> defaulted [] (\<lambda>v. Option.bind (as_arr v) string_list) (map_of ms ''ignore_checks'');
          unchecked \<leftarrow> defaulted False as_bool (map_of ms ''fail_on_unchecked'');
          enforce \<leftarrow> defaulted default_enforce as_bool (map_of ms ''enforce'');
          wait \<leftarrow> defaulted default_wait as_u64 (map_of ms ''wait_timeout_secs'');
          Some \<lparr>gc_min_coverage = cov, gc_min_new_code_coverage = new_cov, gc_base = base, gc_max_errors = max_errors,
            gc_ignore_checks = ignore_checks, gc_fail_on_unchecked = unchecked, gc_enforce = enforce,
            gc_wait_timeout_secs = wait\<rparr>
        }
      | _ \<Rightarrow> None)"

definition parse_gate_config :: "(string json \<Rightarrow> rat option) \<Rightarrow> string json \<Rightarrow> step_error + gate_config" where
  "parse_gate_config as_f64 config =
     (case gate_config_de as_f64 config of
        None \<Rightarrow> Inl (fatal ''config du step `gate` invalide'')
      | Some cfg \<Rightarrow> Inr cfg)"

definition validate_config :: "gate_config \<Rightarrow> step_error + unit" where
  "validate_config cfg =
     (if gc_min_new_code_coverage cfg \<noteq> None \<and> gc_base cfg = None
      then Inl (fatal (''config du step `gate` invalide : `min_new_code_coverage` exige `base` (la ref git de comparaison)''))
      else Inr ())"

section \<open>The judgement\<close>

definition status_str :: "check_status \<Rightarrow> string" where
  "status_str st = (case st of Passed \<Rightarrow> ''passed'' | Failed \<Rightarrow> ''failed'' | Errored \<Rightarrow> ''errored'' | Skipped \<Rightarrow> ''skipped'')"

definition kind_str :: "check_kind \<Rightarrow> string" where
  "kind_str k = (case k of Format \<Rightarrow> ''format'' | Lint \<Rightarrow> ''lint'' | Tests \<Rightarrow> ''tests'' | Coverage \<Rightarrow> ''coverage'' | NewCode \<Rightarrow> ''new_code'')"

definition check_result_ser :: "check_result \<Rightarrow> string json" where
  "check_result_ser c = JObj (bt_of_list
     [(''id'', JStr (cr_id c)), (''kind'', JStr (kind_str (cr_kind c))), (''status'', JStr (status_str (cr_status c))),
      (''exit_code'', (case cr_exit_code c of None \<Rightarrow> JNull | Some i \<Rightarrow> JInt i)),
      (''duration_ms'', JInt (int (cr_duration_ms c))), (''output_tail'', JStr (cr_output_tail c))])"

text \<open>What the model takes of floating point: rounding, text and JSON of a value.\<close>

record f64_ops =
  fo_round :: "rat \<Rightarrow> rat"
  fo_show :: "rat \<Rightarrow> string"
  fo_json :: "rat \<Rightarrow> string json"

definition evaluated_status :: "health_report \<Rightarrow> gate_config \<Rightarrow> check_status" where
  "evaluated_status report cfg =
     report_status (report\<lparr>hr_checks := filter (\<lambda>c. cr_id c \<notin> set (gc_ignore_checks cfg)) (hr_checks report)\<rparr>)"

definition error_count :: "health_report \<Rightarrow> nat" where
  "error_count report = length (filter (\<lambda>i. is_severity i = SevError) (hr_issues report))"

definition threshold_reason :: "f64_ops \<Rightarrow> string \<Rightarrow> rat option \<Rightarrow> rat option \<Rightarrow> string list" where
  "threshold_reason F what measured threshold =
     (case threshold of
        None \<Rightarrow> []
      | Some t \<Rightarrow>
          (case measured of
             Some p \<Rightarrow> if p < t then [what @ '' '' @ fo_show F p @ '' < seuil '' @ fo_show F t] else []
           | None \<Rightarrow> [what @ '' non mesur'' @ e_acute @ ''e alors que le seuil est d'' @ e_acute @ ''fini'']))"

definition gate_reasons :: "f64_ops \<Rightarrow> health_report \<Rightarrow> gate_config \<Rightarrow> string list" where
  "gate_reasons F report cfg =
     (let status = evaluated_status report cfg;
          errors = error_count report in
      (if status \<noteq> Passed then [''v'' @ e_acute @ ''rifications en '' @ e_acute @ ''chec : statut '' @ e_acute @ ''valu'' @ e_acute @ '' '' @
           quoted (status_str status)] else []) @
      threshold_reason F ''couverture'' (map_option (\<lambda>c. percent (fo_round F) (totals c)) (hr_coverage report)) (gc_min_coverage cfg) @
      threshold_reason F ''couverture du code neuf''
        (map_option (\<lambda>n. percent (fo_round F) (totals (nc_coverage n))) (hr_new_code report)) (gc_min_new_code_coverage cfg) @
      (case gc_max_errors cfg of
         None \<Rightarrow> []
       | Some m \<Rightarrow> if m < min (int errors) (2 ^ 63 - 1)
           then [show_nat errors @ '' issues de gravit'' @ e_acute @ '' '' @ quoted ''error'' @ '' au-del'' @ [CHR 0xC3, CHR 0xA0] @ '' du plafond '' @
                 (if m < 0 then ''-'' else []) @ show_nat (nat \<bar>m\<bar>)] else []) @
      (if gc_fail_on_unchecked cfg \<and> hr_unchecked report \<noteq> []
       then [''langages non v'' @ e_acute @ ''rifi'' @ e_acute @ ''s : '' @ join_str '', '' (hr_unchecked report)] else []))"

definition opt_json :: "f64_ops \<Rightarrow> rat option \<Rightarrow> string json" where
  "opt_json F v = (case v of None \<Rightarrow> JNull | Some p \<Rightarrow> fo_json F p)"

definition evaluate :: "f64_ops \<Rightarrow> health_report \<Rightarrow> gate_config \<Rightarrow> string list \<times> string json" where
  "evaluate F report cfg =
     (let reasons = gate_reasons F report cfg;
          errors = error_count report in
      (reasons, JObj (bt_of_list
        [(''passed'', JBool (reasons = [])),
         (''status'', JStr (status_str (evaluated_status report cfg))),
         (''coverage_percent'', opt_json F (map_option (\<lambda>c. percent (fo_round F) (totals c)) (hr_coverage report))),
         (''new_code_percent'', opt_json F (map_option (\<lambda>n. percent (fo_round F) (totals (nc_coverage n))) (hr_new_code report))),
         (''issues'', JObj [(''error'', JInt (int errors)), (''warning'', JInt (int (length (hr_issues report) - errors)))]),
         (''checks'', JArr (map check_result_ser (hr_checks report))),
         (''unchecked_languages'', JArr (map JStr (hr_unchecked report))),
         (''reasons'', JArr (map JStr reasons))])))"

section \<open>Waiting for the fresh state\<close>

text \<open>The state as the step reads it back.\<close>

record gate_state =
  gs_phase :: string
  gs_report :: "health_report option"
  gs_computed_at :: "nat option"

definition acceptable :: "nat \<Rightarrow> gate_state \<Rightarrow> bool" where
  "acceptable t0 s \<longleftrightarrow> gs_phase s = ''fresh'' \<and> gs_report s \<noteq> None \<and> (case gs_computed_at s of None \<Rightarrow> False | Some ms \<Rightarrow> t0 < ms)"

definition refresh_request :: "gate_config \<Rightarrow> string json" where
  "refresh_request cfg = JObj (case gc_base cfg of None \<Rightarrow> [] | Some b \<Rightarrow> [(''base'', JStr b)])"

definition overdue :: "gate_config \<Rightarrow> gate_state \<Rightarrow> step_error" where
  "overdue cfg s = fatal (''d'' @ e_acute @ ''lai d'' @ e_acute @ ''pass'' @ e_acute @ '' : la sant'' @ e_acute @
     '' du code n'' @ [CHR 0x27] @ ''est pas revenue fra'' @ [CHR 0xC3, CHR 0xAE] @ ''che (phase '' @ quoted (gs_phase s) @ '') en '' @
     show_nat (gc_wait_timeout_secs cfg) @ '' s'')"

text \<open>
  The loop: the \<open>k\<close>-th answer is an error of reading it or the state; \<open>elapsed k\<close> are the
  milliseconds since the start when it has come.
\<close>

partial_function (option) gate_wait
  :: "(nat \<Rightarrow> step_error + gate_state) \<Rightarrow> (nat \<Rightarrow> nat) \<Rightarrow> nat \<Rightarrow> gate_config \<Rightarrow> nat \<Rightarrow> (step_error + gate_state) option" where
  "gate_wait answers elapsed t0 cfg k =
     (case answers k of
        Inl e \<Rightarrow> Some (Inl e)
      | Inr s \<Rightarrow>
          if acceptable t0 s then Some (Inr s)
          else if gc_wait_timeout_secs cfg * 1000 < elapsed k then Some (Inl (overdue cfg s))
          else gate_wait answers elapsed t0 cfg (k + 1))"

definition gate_verdict :: "f64_ops \<Rightarrow> gate_config \<Rightarrow> health_report \<Rightarrow> step_error + string json" where
  "gate_verdict F cfg report =
     (let (reasons, out) = evaluate F report cfg in
      if reasons \<noteq> [] \<and> gc_enforce cfg then Inl (fatal (''gate non passante : '' @ join_str '' ; '' reasons)) else Inr out)"

definition gate_execute :: "f64_ops \<Rightarrow> step_error + string json \<Rightarrow> (nat \<Rightarrow> step_error + gate_state) \<Rightarrow> (nat \<Rightarrow> nat)
    \<Rightarrow> nat \<Rightarrow> gate_config \<Rightarrow> (step_error + string json) option" where
  "gate_execute F refreshed answers elapsed t0 cfg =
     (case refreshed of
        Inl e \<Rightarrow> Some (Inl \<lparr>se_message = ''demande de recalcul refus'' @ e_acute @ ''e : '' @ se_message e, se_retryable = se_retryable e\<rparr>)
      | Inr _ \<Rightarrow>
          (case gate_wait answers elapsed t0 cfg 0 of
             None \<Rightarrow> None
           | Some (Inl e) \<Rightarrow> Some (Inl e)
           | Some (Inr s) \<Rightarrow>
               (case gs_report s of
                  None \<Rightarrow> Some (Inl (fatal (e_acute @ ''tat frais sans rapport'')))
                | Some report \<Rightarrow> Some (gate_verdict F cfg report))))"

section \<open>What a passed gate means\<close>

text \<open>
  The gate lets a run pass only on a fresh report that satisfies every rule switched on, and it
  always comes to a verdict within its delay. Over the state machine of code health, one
  interleaving shows it judging a report of a former base.
\<close>

section \<open>The rules\<close>

definition at_least :: "rat option \<Rightarrow> rat option \<Rightarrow> bool" where
  "at_least threshold measured = (case threshold of None \<Rightarrow> True | Some t \<Rightarrow> (case measured of None \<Rightarrow> False | Some p \<Rightarrow> t \<le> p))"

definition gate_ok :: "f64_ops \<Rightarrow> health_report \<Rightarrow> gate_config \<Rightarrow> bool" where
  "gate_ok F report cfg \<longleftrightarrow>
     (\<forall>c \<in> set (hr_checks report). cr_id c \<notin> set (gc_ignore_checks cfg) \<longrightarrow> cr_status c \<in> {Passed, Skipped}) \<and>
     at_least (gc_min_coverage cfg) (map_option (\<lambda>c. percent (fo_round F) (totals c)) (hr_coverage report)) \<and>
     at_least (gc_min_new_code_coverage cfg) (map_option (\<lambda>n. percent (fo_round F) (totals (nc_coverage n))) (hr_new_code report)) \<and>
     (case gc_max_errors cfg of None \<Rightarrow> True | Some m \<Rightarrow> min (int (error_count report)) (2 ^ 63 - 1) \<le> m) \<and>
     (gc_fail_on_unchecked cfg \<longrightarrow> hr_unchecked report = [])"

lemma evaluated_status_passed:
  "evaluated_status report cfg = Passed \<longleftrightarrow>
     (\<forall>c \<in> set (hr_checks report). cr_id c \<notin> set (gc_ignore_checks cfg) \<longrightarrow> cr_status c \<in> {Passed, Skipped})"
proof -
  have "cr_status c \<noteq> Failed \<and> cr_status c \<noteq> Errored \<longleftrightarrow> cr_status c \<in> {Passed, Skipped}" for c :: check_result
    by (cases "cr_status c") auto
  then show ?thesis by (auto simp: evaluated_status_def report_status_def)
qed

lemma threshold_reason_none: "threshold_reason F what measured threshold = [] \<longleftrightarrow> at_least threshold measured"
  by (auto simp: threshold_reason_def at_least_def split: option.split)

lemma gate_reasons_none: "gate_reasons F report cfg = [] \<longleftrightarrow> gate_ok F report cfg"
  by (auto simp: gate_reasons_def gate_ok_def Let_def threshold_reason_none evaluated_status_passed not_less
      split: option.split)

lemma evaluate_passed: "jget ''passed'' (snd (evaluate F report cfg)) = Some (JBool (gate_ok F report cfg))"
  by (simp add: evaluate_def Let_def bt_of_list_def map_of_bt_extend_rev gate_reasons_none)

section \<open>Waiting\<close>

lemma gate_wait_read:
  assumes "gate_wait answers elapsed t0 cfg k = Some r"
  shows "\<forall>s. r = Inr s \<longrightarrow> acceptable t0 s \<and> (\<exists>j. answers j = Inr s)"
proof (rule gate_wait.raw_induct [where P = "\<lambda>answers elapsed t0 cfg k r.
    \<forall>s. r = Inr s \<longrightarrow> acceptable t0 s \<and> (\<exists>j. answers j = Inr s)", OF _ assms])
  fix wait answers elapsed t0 cfg r and k :: nat
  assume ih: "\<And>answers elapsed t0 cfg (k :: nat) r. wait answers elapsed t0 cfg k = Some r \<Longrightarrow>
      \<forall>s. r = Inr s \<longrightarrow> acceptable t0 s \<and> (\<exists>j. answers j = Inr s)"
    and eq: "(case answers k of Inl e \<Rightarrow> Some (Inl e)
      | Inr s \<Rightarrow> if acceptable t0 s then Some (Inr s)
          else if gc_wait_timeout_secs cfg * 1000 < elapsed k then Some (Inl (overdue cfg s))
          else wait answers elapsed t0 cfg (k + 1)) = Some r"
  show "\<forall>s. r = Inr s \<longrightarrow> acceptable t0 s \<and> (\<exists>j. answers j = Inr s)"
  proof (cases "answers k")
    case (Inl e)
    with eq show ?thesis by auto
  next
    case (Inr s)
    show ?thesis
    proof (cases "acceptable t0 s \<or> gc_wait_timeout_secs cfg * 1000 < elapsed k")
      case True
      with eq Inr show ?thesis by (auto split: if_splits)
    next
      case False
      with eq Inr have "wait answers elapsed t0 cfg (k + 1) = Some r" by simp
      from ih [OF this] show ?thesis .
    qed
  qed
qed

definition max_polls :: "gate_config \<Rightarrow> nat" where
  "max_polls cfg = gc_wait_timeout_secs cfg * 1000 div 2000 + 1"

lemma below_next_multiple: "x < 2000 * Suc (x div 2000)" for x :: nat
  by (metis div_less_iff_less_mult lessI mult.commute zero_less_numeral)

lemma gate_wait_returns:
  assumes "\<forall>j. 2000 * j \<le> elapsed j" "k \<le> max_polls cfg"
  shows "\<exists>r. \<forall>answers'. (\<forall>j \<le> max_polls cfg. answers' j = answers j) \<longrightarrow> gate_wait answers' elapsed t0 cfg k = Some r"
  using assms(2)
proof (induction "max_polls cfg - k" arbitrary: k)
  case 0
  then have k: "k = max_polls cfg" by simp
  have "gc_wait_timeout_secs cfg * 1000 < 2000 * max_polls cfg"
    using below_next_multiple [of "gc_wait_timeout_secs cfg * 1000"] by (simp only: max_polls_def Suc_eq_plus1)
  with assms(1) k have "gc_wait_timeout_secs cfg * 1000 < elapsed k" using order.strict_trans2 by blast
  then have *: "gate_wait answers' elapsed t0 cfg k =
      Some (case answers k of Inl e \<Rightarrow> Inl e | Inr s \<Rightarrow> if acceptable t0 s then Inr s else Inl (overdue cfg s))"
    if "answers' k = answers k" for answers'
    using that gate_wait.simps [of answers' elapsed t0 cfg k] by (cases "answers k") simp_all
  show ?case by (intro exI allI impI, rule *) (simp add: k)
next
  case (Suc n)
  then have "n = max_polls cfg - (k + 1)" "k + 1 \<le> max_polls cfg" by auto
  from Suc.hyps(1) [OF this] obtain r where
    r: "\<forall>answers'. (\<forall>j \<le> max_polls cfg. answers' j = answers j) \<longrightarrow> gate_wait answers' elapsed t0 cfg (k + 1) = Some r" by blast
  have *: "gate_wait answers' elapsed t0 cfg k =
      Some (case answers k of Inl e \<Rightarrow> Inl e | Inr s \<Rightarrow> if acceptable t0 s then Inr s
        else if gc_wait_timeout_secs cfg * 1000 < elapsed k then Inl (overdue cfg s) else r)"
    if "\<forall>j \<le> max_polls cfg. answers' j = answers j" for answers'
  proof -
    from r that have "gate_wait answers' elapsed t0 cfg (k + 1) = Some r" by blast
    moreover have "answers' k = answers k" using that Suc.prems by blast
    ultimately show ?thesis using gate_wait.simps [of answers' elapsed t0 cfg k] by (cases "answers k") simp_all
  qed
  show ?case by (intro exI allI impI, rule *) simp
qed

text \<open>
  The gate always comes to an end: as it sleeps two seconds between two readings, it has its
  verdict, or gives up, after at most one reading more than there are two-second steps in its
  delay, whatever the sandbox answers and however long it stays unfresh.
\<close>

theorem gate_ends:
  assumes "\<forall>j. 2000 * j \<le> elapsed j"
  shows "\<exists>r. \<forall>answers'. (\<forall>j \<le> gc_wait_timeout_secs cfg div 2 + 1. answers' j = answers j) \<longrightarrow>
    gate_execute F refreshed answers' elapsed t0 cfg = Some r"
proof -
  have "max_polls cfg = gc_wait_timeout_secs cfg div 2 + 1" by (simp add: max_polls_def)
  with gate_wait_returns [OF assms, of 0 cfg answers t0] obtain r where
    "\<forall>answers'. (\<forall>j \<le> gc_wait_timeout_secs cfg div 2 + 1. answers' j = answers j) \<longrightarrow> gate_wait answers' elapsed t0 cfg 0 = Some r"
    by auto
  then show ?thesis
    by (cases refreshed; cases r) (auto simp: gate_execute_def split: option.splits)
qed

definition plain_f64 :: f64_ops where
  "plain_f64 = \<lparr>fo_round = id, fo_show = \<lambda>_. [], fo_json = \<lambda>_. JNull\<rparr>"

definition short_gate :: gate_config where
  "short_gate = \<lparr>gc_min_coverage = None, gc_min_new_code_coverage = None, gc_base = None, gc_max_errors = Some 0,
     gc_ignore_checks = [], gc_fail_on_unchecked = True, gc_enforce = True, gc_wait_timeout_secs = 4\<rparr>"

theorem gate_ends_witness:
  "\<exists>r. gate_execute plain_f64 (Inr JNull) (\<lambda>_. Inr \<lparr>gs_phase = ''stale'', gs_report = None, gs_computed_at = None\<rparr>)
     (\<lambda>j. 2000 * j) 0 short_gate = Some r"
proof -
  have "\<forall>j :: nat. 2000 * j \<le> 2000 * j" by simp
  from gate_ends [OF this, of short_gate "\<lambda>_. Inr \<lparr>gs_phase = ''stale'', gs_report = None, gs_computed_at = None\<rparr>" plain_f64 "Inr JNull" 0]
  show ?thesis by (elim exE) (intro exI, erule allE, erule mp, simp)
qed

text \<open>
  C22: A gate that enforces its rules lets a run pass only on a report that was read as fresh and
  published after the request, in which every check that is not ignored passed or was skipped,
  every threshold set is reached by a measure that is there, errors stay within the limit and,
  if asked, no language is unchecked. Without enforcement the output says whether all of this
  holds.
\<close>

theorem gate_pass_sound:
  assumes "gate_execute F refreshed answers elapsed t0 cfg = Some (Inr out)"
  shows "\<exists>k s report. answers k = Inr s \<and> gs_phase s = ''fresh'' \<and> gs_report s = Some report \<and>
    (\<exists>ms > t0. gs_computed_at s = Some ms) \<and>
    jget ''passed'' out = Some (JBool (gate_ok F report cfg)) \<and> (gc_enforce cfg \<longrightarrow> gate_ok F report cfg)"
proof -
  from assms obtain s report where w: "gate_wait answers elapsed t0 cfg 0 = Some (Inr s)"
    and r: "gs_report s = Some report" "gate_verdict F cfg report = Inr out"
    by (auto simp: gate_execute_def split: sum.splits option.splits)
  from gate_wait_read [OF w] obtain k where "answers k = Inr s" "acceptable t0 s" by auto
  moreover have "out = snd (evaluate F report cfg)" "gc_enforce cfg \<longrightarrow> gate_reasons F report cfg = []"
    using r(2) by (auto simp: gate_verdict_def case_prod_beta evaluate_def Let_def split: if_splits)
  ultimately show ?thesis
    using r(1) evaluate_passed [of F report cfg] by (auto simp: acceptable_def gate_reasons_none split: option.splits)
qed

definition clean_report :: health_report where
  "clean_report = \<lparr>hr_revision = None, hr_checks = [], hr_coverage = None, hr_issues = [], hr_new_code = None, hr_unchecked = []\<rparr>"

definition fresh_answer :: gate_state where
  "fresh_answer = \<lparr>gs_phase = ''fresh'', gs_report = Some clean_report, gs_computed_at = Some 7\<rparr>"

lemma clean_reasons: "gate_reasons plain_f64 clean_report short_gate = []"
  by (simp add: gate_reasons_none gate_ok_def clean_report_def short_gate_def at_least_def error_count_def)

theorem gate_pass_sound_witness:
  "\<exists>out. gate_execute plain_f64 (Inr JNull) (\<lambda>_. Inr fresh_answer) (\<lambda>j. 2000 * j) 5 short_gate = Some (Inr out) \<and>
     jget ''passed'' out = Some (JBool True)"
proof -
  have w: "gate_wait (\<lambda>_. Inr fresh_answer) (\<lambda>j. 2000 * j) 5 short_gate 0 = Some (Inr fresh_answer)"
    by (subst gate_wait.simps) (simp add: acceptable_def fresh_answer_def)
  obtain out where e: "gate_execute plain_f64 (Inr JNull) (\<lambda>_. Inr fresh_answer) (\<lambda>j. 2000 * j) 5 short_gate = Some (Inr out)"
    using w clean_reasons
    by (simp add: gate_execute_def gate_verdict_def evaluate_def Let_def fresh_answer_def)
  have "gate_ok plain_f64 clean_report short_gate" using clean_reasons by (simp add: gate_reasons_none)
  then show ?thesis
    using gate_pass_sound [OF e] e by (auto simp: fresh_answer_def short_gate_def)
qed

end
