(* ===== verification/AppErrors.thy ===== *)
theory AppErrors
  imports Prelude
begin

text \<open>
  The errors of the application server (\<open>app/src/error.rs\<close>), their text and HTTP status, and the
  errors of the library it maps to them. The text of an error of a third party is part of the
  value that carries it.
\<close>

text \<open>Of the errors of the library (\<open>lib/src/error.rs\<close>): those of the cluster, and the others by their text.\<close>

datatype vny_error =
    VnyK8sConfig string
  | VnyK8sApi string
  | VnyOther string

fun vny_error_text :: "vny_error \<Rightarrow> string" where
  "vny_error_text (VnyK8sConfig s) = ''VNL-K8S-001: Cannot reach Kubernetes cluster: '' @ s"
| "vny_error_text (VnyK8sApi s) = ''VNL-K8S-002: Kubernetes API error: '' @ s"
| "vny_error_text (VnyOther s) = s"

datatype app_error =
    Forbidden
  | LlmError string
  | LlmProviderNotFound
  | McpError string
  | AgentNotFound
  | UnprocessableReference vny_error
  | ConversationNotFound
  | ConversationAccessDenied
  | RequestError string
  | InternalError string
  | K8sConfigError string
  | K8sApiError string
  | K8sNotFound string
  | SandboxNotExposed
  | SandboxBranchEmpty
  | GitPathInvalid
  | SandboxRelayUnavailable
  | WorkflowNotFound
  | WorkflowNameTaken string
  | WorkflowDagInvalid string
  | WorkflowKindForbidden string
  | WorkflowEngineNotConfigured
  | WorkflowUnknownScope string
  | WorkflowScopeNotEditable
  | WorkflowSandboxNotFound
  | WorkflowRunNotFound
  | WorkflowSandboxForeignProject string
  | WorkflowSandboxNotRunning string
  | WorkflowSandboxRequired
  | WorkflowSandboxNotAllowed
  | WorkflowEngineUnavailable string

fun app_error_text :: "app_error \<Rightarrow> string" where
  "app_error_text Forbidden = ''VNL-AUTH-004: Forbidden''"
| "app_error_text (LlmError s) = ''VNL-LLM-001: LLM provider error: '' @ s"
| "app_error_text LlmProviderNotFound = ''VNL-LLM-002: LLM provider not found''"
| "app_error_text (McpError s) = ''VNL-MCP-001: MCP server error: '' @ s"
| "app_error_text AgentNotFound = ''VNL-AGT-001: Agent not found''"
| "app_error_text (UnprocessableReference e) = vny_error_text e"
| "app_error_text ConversationNotFound = ''VNL-CNV-001: Conversation not found''"
| "app_error_text ConversationAccessDenied = ''VNL-CNV-002: Access denied to conversation''"
| "app_error_text (RequestError s) = ''VNL-REQ-001: Request error: '' @ s"
| "app_error_text (InternalError s) = ''VNL-INT-001: Internal error: '' @ s"
| "app_error_text (K8sConfigError s) = ''VNL-K8S-001: Kubernetes config error: '' @ s"
| "app_error_text (K8sApiError s) = ''VNL-K8S-002: Kubernetes API error: '' @ s"
| "app_error_text (K8sNotFound s) = ''VNL-K8S-003: Kubernetes resource not found: '' @ s"
| "app_error_text SandboxNotExposed = ''VNL-SBX-001: sandbox has no public endpoint (owner has no application_ref)''"
| "app_error_text SandboxBranchEmpty = ''VNL-SBX-002: branch must not be empty''"
| "app_error_text GitPathInvalid = ''VNL-SBX-003: invalid git path segment''"
| "app_error_text SandboxRelayUnavailable = ''VNL-SBX-017: sandbox unavailable''"
| "app_error_text WorkflowNotFound = ''VNL-WFA-002: workflow not found''"
| "app_error_text (WorkflowNameTaken s) = ''VNL-WFA-003: workflow name already taken: '' @ s"
| "app_error_text (WorkflowDagInvalid s) = ''VNL-WFA-004: MRD-WORKFLOW-004: '' @ s"
| "app_error_text (WorkflowKindForbidden s) = ''VNL-WFA-005: '' @ s"
| "app_error_text WorkflowEngineNotConfigured = ''VNL-WFA-006: workflow engine not configured''"
| "app_error_text (WorkflowUnknownScope s) = ''VNL-WFA-007: unknown scope: '' @ s"
| "app_error_text WorkflowScopeNotEditable = ''VNL-WFA-008: scope is not editable; create a new workflow instead''"
| "app_error_text WorkflowSandboxNotFound = ''VNL-WFA-011: sandbox not found''"
| "app_error_text WorkflowRunNotFound = ''VNL-WFA-012: run not found''"
| "app_error_text (WorkflowSandboxForeignProject s) = ''VNL-WFA-013: sandbox does not belong to the project: '' @ s"
| "app_error_text (WorkflowSandboxNotRunning s) = ''VNL-WFA-014: sandbox not running: '' @ s"
| "app_error_text WorkflowSandboxRequired = ''VNL-WFA-015: sandbox-scoped workflow requires a sandbox''"
| "app_error_text WorkflowSandboxNotAllowed = ''VNL-WFA-016: sandbox is not allowed for a project-scoped workflow''"
| "app_error_text (WorkflowEngineUnavailable s) = ''VNL-WFA-017: workflow engine unavailable: '' @ s"

text \<open>The status of the response, and its body.\<close>

definition app_error_status :: "app_error \<Rightarrow> nat" where
  "app_error_status e = (case e of
     Forbidden \<Rightarrow> 403 | ConversationAccessDenied \<Rightarrow> 403
   | LlmError _ \<Rightarrow> 502 | McpError _ \<Rightarrow> 502 | RequestError _ \<Rightarrow> 502 | K8sConfigError _ \<Rightarrow> 502 | SandboxRelayUnavailable \<Rightarrow> 502
   | LlmProviderNotFound \<Rightarrow> 404 | AgentNotFound \<Rightarrow> 404 | ConversationNotFound \<Rightarrow> 404 | K8sNotFound _ \<Rightarrow> 404
   | WorkflowSandboxNotFound \<Rightarrow> 404 | WorkflowRunNotFound \<Rightarrow> 404 | WorkflowNotFound \<Rightarrow> 404
   | UnprocessableReference _ \<Rightarrow> 422 | SandboxBranchEmpty \<Rightarrow> 422 | WorkflowKindForbidden _ \<Rightarrow> 422
   | InternalError _ \<Rightarrow> 500 | K8sApiError _ \<Rightarrow> 500
   | SandboxNotExposed \<Rightarrow> 409 | WorkflowNameTaken _ \<Rightarrow> 409 | WorkflowSandboxForeignProject _ \<Rightarrow> 409
   | WorkflowSandboxNotRunning _ \<Rightarrow> 409 | WorkflowSandboxRequired \<Rightarrow> 409
   | GitPathInvalid \<Rightarrow> 400 | WorkflowDagInvalid _ \<Rightarrow> 400 | WorkflowUnknownScope _ \<Rightarrow> 400
   | WorkflowSandboxNotAllowed \<Rightarrow> 400 | WorkflowScopeNotEditable \<Rightarrow> 400
   | WorkflowEngineNotConfigured \<Rightarrow> 503 | WorkflowEngineUnavailable _ \<Rightarrow> 503)"

definition error_response :: "app_error \<Rightarrow> nat \<times> string json" where
  "error_response e = (app_error_status e, JObj [(''error'', JStr (app_error_text e))])"

text \<open>What the errors of the database and of the library become.\<close>

definition db_error :: "string \<Rightarrow> app_error" where
  "db_error e = InternalError (''VNL-DB-006: '' @ e)"

definition app_error_of_vny :: "vny_error \<Rightarrow> app_error" where
  "app_error_of_vny e =
     (case e of
        VnyK8sConfig _ \<Rightarrow> K8sConfigError (vny_error_text e)
      | VnyK8sApi s \<Rightarrow>
          if has_infix ''404'' s \<or> has_infix ''NotFound'' s \<or> has_infix ''not found'' s then K8sNotFound (vny_error_text e)
          else K8sApiError (vny_error_text e)
      | VnyOther _ \<Rightarrow> InternalError (vny_error_text e))"

text \<open>Every response of an error is one of the statuses of clients' mistakes, the server and its parts.\<close>

lemma app_error_status_range: "app_error_status e \<in> {400, 403, 404, 409, 422, 500, 502, 503}"
  by (cases e) (simp_all add: app_error_status_def)

end
