(* ===== verification/AppOwners.thy ===== *)
theory AppOwners
  imports AppErrors UText
begin

text \<open>
  The link from a user to the Owner resource of the cluster (\<open>app/src/api/owners.rs\<close>): the name
  derived from the login, the plan, and the creation on demand. Lower-casing a character beyond
  ASCII is a parameter; it may give several characters. The cluster and the outcome of its calls
  are part of the environment.
\<close>

section \<open>The name\<close>

definition is_lower_alnum :: "uchar \<Rightarrow> bool" where
  "is_lower_alnum c \<longleftrightarrow> (97 \<le> c \<and> c \<le> 122) \<or> (48 \<le> c \<and> c \<le> 57)"

abbreviation hyphen :: uchar where "hyphen \<equiv> 45"

definition lower_char :: "(uchar \<Rightarrow> ustring) \<Rightarrow> uchar \<Rightarrow> ustring" where
  "lower_char lower c = (if 128 \<le> c then lower c else if 65 \<le> c \<and> c \<le> 90 then [c + 32] else [c])"

definition to_lowercase :: "(uchar \<Rightarrow> ustring) \<Rightarrow> ustring \<Rightarrow> ustring" where
  "to_lowercase lower s = concat (map (lower_char lower) s)"

definition label_char :: "uchar \<Rightarrow> uchar" where
  "label_char c = (if is_lower_alnum c \<or> c = hyphen then c else hyphen)"

fun label_chars :: "ustring \<Rightarrow> ustring" where
  "label_chars [] = []"
| "label_chars (c # cs) = (if is_lower_alnum (label_char c) then label_char c else 97) # map label_char cs"

definition sanitize_owner_name :: "(uchar \<Rightarrow> ustring) \<Rightarrow> ustring \<Rightarrow> ustring" where
  "sanitize_owner_name lower raw =
     (let local = hd (split_on 64 raw);
          out = label_chars (to_lowercase lower local);
          trimmed = trim_by ((=) hyphen) out;
          label = trim_end_by ((=) hyphen) (take 63 trimmed)
      in if label = [] then utf ''owner'' else label)"

record principal =
  pr_subject :: ustring
  pr_preferred_username :: "ustring option"

definition owner_raw_source :: "principal \<Rightarrow> ustring" where
  "owner_raw_source p =
     (case pr_preferred_username p of
        Some preferred \<Rightarrow> if utrim preferred \<noteq> [] then preferred else pr_subject p
      | None \<Rightarrow> pr_subject p)"

section \<open>The plan\<close>

datatype owner_plan = Reuse ustring | Create ustring

definition plan_owner :: "ustring option \<Rightarrow> ustring \<Rightarrow> bool \<Rightarrow> owner_plan" where
  "plan_owner link computed exists =
     (case link of Some name \<Rightarrow> if exists then Reuse name else Create name | None \<Rightarrow> Create computed)"

fun planned_name :: "owner_plan \<Rightarrow> ustring" where
  "planned_name (Reuse n) = n"
| "planned_name (Create n) = n"

section \<open>Links and the cluster\<close>

text \<open>
  The links by user, \<open>None\<close> where there is no row and \<open>Some None\<close> where its column is null; the
  owners of the cluster with the specification they were created with.
\<close>

record project_defaults =
  pd_storage_class :: "string option"
  pd_storage_access_mode :: "string option"

record owner_spec =
  os_home_storage_class :: "string option"
  os_home_access_mode :: "string option"
  os_project_defaults :: "project_defaults option"
  os_application_ref :: "string option"

record owners_state =
  ow_links :: "int \<Rightarrow> ustring option option"
  ow_cluster :: "ustring \<Rightarrow> owner_spec option"

record app_config =
  ac_application_name :: "string option"
  ac_home_storage_class :: "string option"
  ac_home_access_mode :: "string option"
  ac_project_storage_class :: "string option"
  ac_project_access_mode :: "string option"

text \<open>
  What may go wrong in one call: reading the links, finding the cluster, reading the owner, its
  creation and the final write.
\<close>

record owners_env =
  oe_read_links :: "app_error option"
  oe_client :: "app_error option"
  oe_get_fails :: bool
  oe_create_fails :: "vny_error option"
  oe_write_links :: "app_error option"

definition resolve_owner_name :: "owners_env \<Rightarrow> owners_state \<Rightarrow> int \<Rightarrow> app_error + ustring option" where
  "resolve_owner_name E s user_id =
     (case oe_read_links E of
        Some e \<Rightarrow> Inl e
      | None \<Rightarrow> Inr (case ow_links s user_id of None \<Rightarrow> None | Some name \<Rightarrow> name))"

definition new_owner_spec :: "app_config \<Rightarrow> owner_spec" where
  "new_owner_spec cfg =
     \<lparr>os_home_storage_class = ac_home_storage_class cfg, os_home_access_mode = ac_home_access_mode cfg,
      os_project_defaults =
        (if ac_project_storage_class cfg \<noteq> None \<or> ac_project_access_mode cfg \<noteq> None
         then Some \<lparr>pd_storage_class = ac_project_storage_class cfg, pd_storage_access_mode = ac_project_access_mode cfg\<rparr>
         else None),
      os_application_ref = ac_application_name cfg\<rparr>"

definition write_link :: "owners_env \<Rightarrow> int \<Rightarrow> ustring \<Rightarrow> owners_state \<Rightarrow> (app_error + ustring) \<times> owners_state" where
  "write_link E user_id name s =
     (case oe_write_links E of
        Some e \<Rightarrow> (Inl e, s)
      | None \<Rightarrow> (Inr name, s\<lparr>ow_links := (ow_links s)(user_id := Some (Some name))\<rparr>))"

definition ensure_owner :: "(uchar \<Rightarrow> ustring) \<Rightarrow> app_config \<Rightarrow> owners_env \<Rightarrow> int \<Rightarrow> principal \<Rightarrow> owners_state
    \<Rightarrow> (app_error + ustring) \<times> owners_state" where
  "ensure_owner lower cfg E user_id p s =
     (case resolve_owner_name E s user_id of
        Inl e \<Rightarrow> (Inl e, s)
      | Inr link \<Rightarrow>
          (let computed = sanitize_owner_name lower (owner_raw_source p) in
           case oe_client E of
             Some e \<Rightarrow> (Inl e, s)
           | None \<Rightarrow>
               (let probe = (case link of Some n \<Rightarrow> n | None \<Rightarrow> computed);
                    exists = (\<not> oe_get_fails E \<and> ow_cluster s probe \<noteq> None);
                    name = planned_name (plan_owner link computed exists)
                in if exists then write_link E user_id name s
                   else (case oe_create_fails E of
                       Some e \<Rightarrow> (Inl (app_error_of_vny e), s)
                     | None \<Rightarrow> write_link E user_id name
                         (s\<lparr>ow_cluster := (ow_cluster s)(name \<mapsto> new_owner_spec cfg)\<rparr>)))))"

section \<open>What the names promise\<close>

text \<open>
  The name of an Owner is a DNS label whatever the login, and deriving it again changes nothing;
  but distinct logins may have one name, and then the second user is bound to the Owner of the
  first.
\<close>

section \<open>Labels\<close>

definition label_ok :: "ustring \<Rightarrow> bool" where
  "label_ok s \<longleftrightarrow> s \<noteq> [] \<and> length s \<le> 63 \<and> (\<forall>c \<in> set s. is_lower_alnum c \<or> c = hyphen) \<and>
     is_lower_alnum (hd s) \<and> is_lower_alnum (last s)"

lemma hyphen_not_alnum [simp]: "\<not> is_lower_alnum hyphen"
  by (simp add: is_lower_alnum_def)

lemma label_char_cases: "is_lower_alnum (label_char c) \<or> label_char c = hyphen"
  by (simp add: label_char_def)

lemma label_char_id: "is_lower_alnum c \<or> c = hyphen \<Longrightarrow> label_char c = c"
  by (auto simp: label_char_def)

lemma label_chars_set: "\<forall>c \<in> set (label_chars s). is_lower_alnum c \<or> c = hyphen"
  using label_char_cases by (cases s) (auto simp: is_lower_alnum_def)

lemma label_chars_hd: "s \<noteq> [] \<Longrightarrow> is_lower_alnum (hd (label_chars s))"
  by (cases s) (auto simp: is_lower_alnum_def)

lemma label_chars_id: "label_ok s \<Longrightarrow> label_chars s = s"
  by (cases s) (auto simp: label_ok_def label_char_id intro: map_idI)

lemma trim_end_last: "trim_end_by P s \<noteq> [] \<Longrightarrow> \<not> P (last (trim_end_by P s))"
  by (simp add: trim_end_by_def last_rev hd_dropWhile)

lemma trim_end_prefix: "\<exists>t. s = trim_end_by P s @ t"
proof -
  have "rev s = takeWhile P (rev s) @ dropWhile P (rev s)" by simp
  then have "s = rev (dropWhile P (rev s)) @ rev (takeWhile P (rev s))" by (metis rev_append rev_rev_ident)
  then show ?thesis by (auto simp: trim_end_by_def)
qed

lemma trim_end_id: "s \<noteq> [] \<Longrightarrow> \<not> P (last s) \<Longrightarrow> trim_end_by P s = s"
  by (cases s rule: rev_cases) (simp_all add: trim_end_by_def)

lemma trim_by_id: "s \<noteq> [] \<Longrightarrow> \<not> P (hd s) \<Longrightarrow> \<not> P (last s) \<Longrightarrow> trim_by P s = s"
  by (cases s) (simp_all add: trim_by_def trim_end_id)

lemma cut_label:
  assumes "\<forall>c \<in> set s. is_lower_alnum c \<or> c = hyphen" "trim_end_by ((=) hyphen) (take 63 (trim_by ((=) hyphen) s)) \<noteq> []"
  shows "label_ok (trim_end_by ((=) hyphen) (take 63 (trim_by ((=) hyphen) s)))"
proof -
  let ?t = "trim_by ((=) hyphen) s"
  let ?l = "trim_end_by ((=) hyphen) (take 63 ?t)"
  obtain u where u: "take 63 ?t = ?l @ u" using trim_end_prefix by metis
  have "length ?l \<le> length (take 63 ?t)" using arg_cong [OF u, of length] by simp
  then have len: "length ?l \<le> 63" by simp
  have "set ?l \<subseteq> set (take 63 ?t)" using arg_cong [OF u, of set] by auto
  also have "\<dots> \<subseteq> set ?t" by (rule set_take_subset)
  also have "\<dots> \<subseteq> set s" by (rule set_trim_by)
  finally have sub: "set ?l \<subseteq> set s" .
  have t: "?t \<noteq> []" using assms(2) by (auto simp: trim_end_by_def)
  have "hd ?l = hd ?t" using assms(2) u t by (metis hd_append2 hd_take zero_less_numeral)
  moreover have "hd ?t \<noteq> hyphen" using trim_by_ends [of "(=) hyphen" s] t by auto
  moreover have "last ?l \<noteq> hyphen" using trim_end_last [OF assms(2)] by auto
  moreover have "\<forall>c \<in> set ?l. is_lower_alnum c \<or> c = hyphen" using sub assms(1) by blast
  moreover have "hd ?l \<in> set ?l" "last ?l \<in> set ?l" using assms(2) by simp_all
  ultimately show ?thesis using assms(2) len unfolding label_ok_def by metis
qed

lemma owner_label_ok: "label_ok (utf ''owner'')"
  by (simp add: label_ok_def utf_def is_lower_alnum_def)

text \<open>
  C33: The name derived from a login is a DNS label that Kubernetes accepts, whatever the login
  and however its letters are lowered: not empty, at most 63 characters, all of them lower-case
  letters, digits and hyphens, with a letter or digit at both ends; and the name of a name is the
  name itself.
\<close>

theorem owner_name_is_label:
  "label_ok (sanitize_owner_name lower raw) \<and>
   sanitize_owner_name lower (sanitize_owner_name lower raw) = sanitize_owner_name lower raw"
proof -
  have ok: "label_ok (sanitize_owner_name lower raw)" for raw
    using cut_label [OF label_chars_set] owner_label_ok by (simp add: sanitize_owner_name_def Let_def)
  have fixed: "sanitize_owner_name lower s = s" if s: "label_ok s" for s
  proof -
    have ends: "hyphen \<noteq> hd s" "hyphen \<noteq> last s" using s hyphen_not_alnum by (auto simp only: label_ok_def)
    have "64 \<notin> set s" using s by (auto simp: label_ok_def is_lower_alnum_def)
    then have "hd (split_on 64 s) = s" using split_on_single [of 64 s] by simp
    moreover have "to_lowercase lower s = s"
    proof -
      have "map (lower_char lower) s = map (\<lambda>c. [c]) s"
        using s by (auto simp: label_ok_def lower_char_def is_lower_alnum_def)
      then show ?thesis by (simp only: to_lowercase_def concat_map_singleton map_ident)
    qed
    moreover have "trim_by ((=) hyphen) s = s" "trim_end_by ((=) hyphen) s = s" "take 63 s = s" "s \<noteq> []"
      using s ends trim_by_id [of s "(=) hyphen"] trim_end_id [of s "(=) hyphen"] by (auto simp: label_ok_def)
    ultimately show ?thesis using label_chars_id [OF s] by (simp add: sanitize_owner_name_def)
  qed
  show ?thesis using ok fixed by blast
qed

section \<open>Binding a user\<close>

text \<open>
  Binding a user to an Owner gives the name the user is linked to, or else the one derived
  from the login; on success that Owner is in the cluster, is the one linked, and binding the
  user again changes nothing. Nobody else's link changes and no other Owner, in any case.
\<close>

theorem ensure_owner_binds:
  "case ensure_owner lower cfg E user_id p s of (r, s') \<Rightarrow>
     ow_links s' = (ow_links s)(user_id := ow_links s' user_id) \<and>
     (case r of
        Inl _ \<Rightarrow> ow_links s' = ow_links s \<and> dom (ow_cluster s) \<subseteq> dom (ow_cluster s')
      | Inr name \<Rightarrow>
          name = (case ow_links s user_id of Some (Some n) \<Rightarrow> n | _ \<Rightarrow> sanitize_owner_name lower (owner_raw_source p)) \<and>
          ow_links s' user_id = Some (Some name) \<and> name \<in> dom (ow_cluster s') \<and>
          ow_cluster s' = (ow_cluster s)(name := ow_cluster s' name) \<and>
          ensure_owner lower cfg (E\<lparr>oe_get_fails := False\<rparr>) user_id p s' = (Inr name, s'))"
proof -
  have upd: "(ow_links s)(user_id \<mapsto> Some n) = ow_links s" if "ow_links s user_id = Some (Some n)" for n and s :: owners_state
    using that by auto
  have same: "s\<lparr>ow_links := ow_links s\<rparr> = s" for s :: owners_state by simp
  show ?thesis
    by (auto simp: ensure_owner_def resolve_owner_name_def write_link_def plan_owner_def Let_def upd same
        split: option.splits if_splits)
qed

text \<open>
  Two logins with one name: the user who comes second is bound to the Owner of the first, which
  is there already, without anything created.
\<close>

definition all_well :: owners_env where
  "all_well = \<lparr>oe_read_links = None, oe_client = None, oe_get_fails = False, oe_create_fails = None, oe_write_links = None\<rparr>"

lemma homonym_adopts_owner:
  assumes "sanitize_owner_name lower (owner_raw_source p) = sanitize_owner_name lower (owner_raw_source q)"
    and "ow_links s u = None" "ow_links s v = None" "u \<noteq> v"
    and "ensure_owner lower cfg all_well u p s = (Inr name, s')"
  shows "fst (ensure_owner lower cfg all_well v q s') = Inr name \<and>
    ow_cluster (snd (ensure_owner lower cfg all_well v q s')) = ow_cluster s' \<and>
    ow_links (snd (ensure_owner lower cfg all_well v q s')) u = ow_links (snd (ensure_owner lower cfg all_well v q s')) v"
  using assms
  by (auto simp: ensure_owner_def resolve_owner_name_def write_link_def plan_owner_def Let_def all_well_def
      split: option.splits if_splits)

lemma distinct_logins_one_name:
  "sanitize_owner_name lower (utf ''jean.dupont'') = utf ''jean-dupont''"
  "sanitize_owner_name lower (utf ''jean-dupont'') = utf ''jean-dupont''"
  "sanitize_owner_name lower (utf ''Jean_Dupont@example.org'') = utf ''jean-dupont''"
  by (simp_all add: sanitize_owner_name_def utf_def to_lowercase_def lower_char_def label_char_def is_lower_alnum_def
      trim_by_def trim_end_by_def)

end
