(* ===== verification/WfStatus.thy ===== *)
theory WfStatus
  imports WfSteps CodeHealth
begin

text \<open>
  Status and cancellation of runs, read from the workflow engine over its administration
  interface (\<open>app/src/workflow/status.rs\<close>): the SQL text of the queries, the rows, the projection
  of an invocation, and the steps of its journal. The transport, the parser of JSON and the
  reader of RFC 3339 dates are parameters; times are milliseconds.
\<close>

section \<open>States\<close>

datatype run_state = Pending | RunRunning | Suspended | BackingOff | RunSucceeded | RunFailed | RunCancelled | Unknown

record step_status =
  ss_step_id :: string
  ss_state :: run_state
  ss_started_at :: "int option"
  ss_ended_at :: "int option"
  ss_error :: "string option"

record run_status =
  rs_invocation_id :: string
  rs_state :: run_state
  rs_started_at :: "int option"
  rs_ended_at :: "int option"
  rs_error :: "string option"
  rs_steps :: "step_status list"

record invocation_row =
  ir_id :: string
  ir_status :: string
  ir_created_at :: "int option"
  ir_completed_at :: "int option"
  ir_completion_result :: "string option"
  ir_completion_failure :: "string option"
  ir_last_failure :: "string option"

record journal_row =
  jo_name :: "string option"
  jo_completed :: "bool option"
  jo_appended_at :: "int option"

definition state_from :: "string \<Rightarrow> string option \<Rightarrow> run_state" where
  "state_from status completion_result =
     (if status \<in> {''pending'', ''scheduled'', ''ready''} then Pending
      else if status = ''running'' then RunRunning
      else if status \<in> {''suspended'', ''paused''} then Suspended
      else if status = ''backing-off'' then BackingOff
      else if status = ''completed'' \<and> completion_result = Some ''failure'' \<or> status = ''killed'' then RunFailed
      else if status = ''completed'' then RunSucceeded
      else if status = ''cancelled'' then RunCancelled
      else Unknown)"

definition unknown_status :: "string \<Rightarrow> run_status" where
  "unknown_status invocation_id =
     \<lparr>rs_invocation_id = invocation_id, rs_state = Unknown, rs_started_at = None, rs_ended_at = None,
      rs_error = None, rs_steps = []\<rparr>"

definition run_status_from :: "invocation_row \<Rightarrow> step_status list \<Rightarrow> run_status" where
  "run_status_from row steps =
     (let state = state_from (ir_status row) (ir_completion_result row) in
      \<lparr>rs_invocation_id = ir_id row, rs_state = state, rs_started_at = ir_created_at row,
       rs_ended_at = ir_completed_at row,
       rs_error = (if state = RunFailed
                   then (case ir_completion_failure row of None \<Rightarrow> ir_last_failure row | Some e \<Rightarrow> Some e) else None),
       rs_steps = steps\<rparr>)"

section \<open>Queries\<close>

abbreviation quote :: char where "quote \<equiv> CHR 0x27"

fun double_quotes :: "string \<Rightarrow> string" where
  "double_quotes [] = []"
| "double_quotes (c # cs) = (if c = quote then [quote, quote] else [c]) @ double_quotes cs"

definition quote_sql :: "string \<Rightarrow> string" where
  "quote_sql i = [quote] @ double_quotes i @ [quote]"

definition MAX_IDS_PER_QUERY :: nat where "MAX_IDS_PER_QUERY = 50"

fun chunks :: "nat \<Rightarrow> 'a list \<Rightarrow> 'a list list" where
  "chunks n [] = []"
| "chunks n (x # xs) = (if n = 0 then [x # xs] else take n (x # xs) # chunks n (drop (n - 1) xs))"

definition invocation_columns :: string where
  "invocation_columns =
     ''SELECT id, status, created_at, completed_at, completion_result, completion_failure, last_failure FROM sys_invocation WHERE id ''"

definition statuses_query :: "string list \<Rightarrow> string" where
  "statuses_query ids = invocation_columns @ ''IN ('' @ join_str '', '' (map quote_sql ids) @ '')''"

definition status_query :: "string \<Rightarrow> string" where
  "status_query i = invocation_columns @ ''= '' @ quote_sql i"

definition journal_query :: "string \<Rightarrow> string" where
  "journal_query i = ''SELECT name, completed, appended_at FROM sys_journal WHERE id = '' @ quote_sql i"

text \<open>An error of the HTTP client: of reading the body or of the transport.\<close>

datatype http_fault = BodyFault string | TransportFault string

fun classify_transport_error :: "http_fault \<Rightarrow> workflow_error" where
  "classify_transport_error (BodyFault e) = Serialization e"
| "classify_transport_error (TransportFault e) = RestateUnreachable e"

type_synonym http_reply = "http_fault + nat \<times> (http_fault + string)"

text \<open>
  The derived readers. A structure is an object whose known members come at most once, or an
  array of its fields from the first on; \<open>Default\<close> fills what is missing. \<open>reader\<close> turns a
  member into the value of its field.
\<close>

definition struct_members :: "string list \<Rightarrow> string json \<Rightarrow> (string \<times> string json) list option" where
  "struct_members names v =
     (case v of
        JObj ms \<Rightarrow> if list_all (\<lambda>n. length (members_named n ms) \<le> 1) names then Some ms else None
      | JArr vs \<Rightarrow> if length vs \<le> length names then Some (zip names vs) else None
      | _ \<Rightarrow> None)"

fun opt_bool :: "string json \<Rightarrow> bool option option" where
  "opt_bool JNull = Some None"
| "opt_bool (JBool b) = Some (Some b)"
| "opt_bool _ = None"

text \<open>
  A timestamp: text of RFC 3339 or a signed number of milliseconds; \<open>dates\<close> reads the first and
  \<open>millis\<close> the second, neither need succeed.
\<close>

definition de_opt_ts :: "(string \<Rightarrow> int option) \<Rightarrow> (int \<Rightarrow> int option) \<Rightarrow> string json \<Rightarrow> int option option" where
  "de_opt_ts dates millis v =
     (case v of
        JNull \<Rightarrow> Some None
      | JStr s \<Rightarrow> Some (dates s)
      | _ \<Rightarrow> map_option millis (as_i64 v))"

definition invocation_row_de :: "(string \<Rightarrow> int option) \<Rightarrow> (int \<Rightarrow> int option) \<Rightarrow> string json \<Rightarrow> invocation_row option" where
  "invocation_row_de dates millis v =
     do {
       ms \<leftarrow> struct_members [''id'', ''status'', ''created_at'', ''completed_at'', ''completion_result'',
          ''completion_failure'', ''last_failure''] v;
       i \<leftarrow> defaulted [] as_str (map_of ms ''id'');
       status \<leftarrow> defaulted [] as_str (map_of ms ''status'');
       created \<leftarrow> defaulted None (de_opt_ts dates millis) (map_of ms ''created_at'');
       completed \<leftarrow> defaulted None (de_opt_ts dates millis) (map_of ms ''completed_at'');
       result \<leftarrow> defaulted None opt_str (map_of ms ''completion_result'');
       failure \<leftarrow> defaulted None opt_str (map_of ms ''completion_failure'');
       last_failure \<leftarrow> defaulted None opt_str (map_of ms ''last_failure'');
       Some \<lparr>ir_id = i, ir_status = status, ir_created_at = created, ir_completed_at = completed,
         ir_completion_result = result, ir_completion_failure = failure, ir_last_failure = last_failure\<rparr>
     }"

definition journal_row_de :: "(string \<Rightarrow> int option) \<Rightarrow> (int \<Rightarrow> int option) \<Rightarrow> string json \<Rightarrow> journal_row option" where
  "journal_row_de dates millis v =
     do {
       ms \<leftarrow> struct_members [''name'', ''completed'', ''appended_at''] v;
       name \<leftarrow> defaulted None opt_str (map_of ms ''name'');
       completed \<leftarrow> defaulted None opt_bool (map_of ms ''completed'');
       appended \<leftarrow> defaulted None (de_opt_ts dates millis) (map_of ms ''appended_at'');
       Some \<lparr>jo_name = name, jo_completed = completed, jo_appended_at = appended\<rparr>
     }"

fun all_rows :: "(string json \<Rightarrow> 'r option) \<Rightarrow> string json list \<Rightarrow> 'r list option" where
  "all_rows row [] = Some []"
| "all_rows row (v # vs) = Option.bind (row v) (\<lambda>r. map_option ((#) r) (all_rows row vs))"

definition query_response :: "(string json \<Rightarrow> 'r option) \<Rightarrow> string json \<Rightarrow> 'r list option" where
  "query_response row v =
     do { ms \<leftarrow> struct_members [''rows''] v; rows \<leftarrow> map_of ms ''rows''; vs \<leftarrow> as_arr rows; all_rows row vs }"

text \<open>What the code takes of the engine: the address, the client, the parser.\<close>

record restate_admin =
  ra_admin_url :: string
  ra_post :: "string \<Rightarrow> string \<Rightarrow> http_reply" \<comment> \<open>address and query\<close>
  ra_patch :: "string \<Rightarrow> http_reply"
  ra_parse :: "string \<Rightarrow> string json option"
  ra_dates :: "string \<Rightarrow> int option"
  ra_millis :: "int \<Rightarrow> int option"

definition query_rows :: "restate_admin \<Rightarrow> (string json \<Rightarrow> 'r option) \<Rightarrow> string \<Rightarrow> workflow_error + 'r list" where
  "query_rows A row q =
     (case ra_post A (trim_slashes (ra_admin_url A) @ ''/query'') q of
        Inl e \<Rightarrow> Inl (classify_transport_error e)
      | Inr (code, body) \<Rightarrow>
          (case body of
             Inl e \<Rightarrow> Inl (classify_transport_error e)
           | Inr text \<Rightarrow>
               if \<not> is_success code then Inl (RestateRejected code text)
               else (case Option.bind (ra_parse A text) (query_response row) of
                   None \<Rightarrow> Inl (Serialization text)
                 | Some rows \<Rightarrow> Inr rows)))"

definition invocation_rows :: "restate_admin \<Rightarrow> string \<Rightarrow> workflow_error + invocation_row list" where
  "invocation_rows A q = query_rows A (invocation_row_de (ra_dates A) (ra_millis A)) q"

definition journal_rows :: "restate_admin \<Rightarrow> string \<Rightarrow> workflow_error + journal_row list" where
  "journal_rows A q = query_rows A (journal_row_de (ra_dates A) (ra_millis A)) q"

section \<open>Reading statuses\<close>

definition add_row :: "(string \<rightharpoonup> run_status) \<Rightarrow> invocation_row \<Rightarrow> (string \<rightharpoonup> run_status)" where
  "add_row m row = m(ir_id row \<mapsto> run_status_from row [])"

fun read_groups :: "restate_admin \<Rightarrow> string list list \<Rightarrow> (string \<rightharpoonup> run_status) \<Rightarrow> workflow_error + (string \<rightharpoonup> run_status)" where
  "read_groups A [] m = Inr m"
| "read_groups A (g # gs) m =
     (case invocation_rows A (statuses_query g) of
        Inl e \<Rightarrow> Inl e
      | Inr rows \<Rightarrow> read_groups A gs (foldl add_row m rows))"

definition all_unknown :: "string list \<Rightarrow> (string \<rightharpoonup> run_status)" where
  "all_unknown ids = foldl (\<lambda>m i. m(i \<mapsto> unknown_status i)) Map.empty ids"

definition fetch_statuses :: "restate_admin \<Rightarrow> string list \<Rightarrow> workflow_error + (string \<rightharpoonup> run_status)" where
  "fetch_statuses A ids = read_groups A (chunks MAX_IDS_PER_QUERY ids) (all_unknown ids)"

section \<open>Steps of the journal\<close>

definition group_rows :: "journal_row list \<Rightarrow> (string \<times> journal_row list) list" where
  "group_rows rows =
     foldl (\<lambda>m row. case jo_name row of None \<Rightarrow> m
       | Some n \<Rightarrow> bt_insert n ((case map_of m n of None \<Rightarrow> [] | Some rs \<Rightarrow> rs) @ [row]) m) [] rows"

definition opt_min :: "int list \<Rightarrow> int option" where
  "opt_min ts = (if ts = [] then None else Some (foldl min (hd ts) ts))"

definition opt_max :: "int list \<Rightarrow> int option" where
  "opt_max ts = (if ts = [] then None else Some (foldl max (hd ts) ts))"

definition step_of :: "string \<times> journal_row list \<Rightarrow> step_status" where
  "step_of g =
     (let ts = List.map_filter jo_appended_at (snd g);
          ended = (\<exists>r \<in> set (snd g). jo_completed r = Some True)
      in \<lparr>ss_step_id = fst g, ss_state = (if ended then RunSucceeded else RunRunning), ss_started_at = opt_min ts,
          ss_ended_at = (if ended then opt_max ts else None), ss_error = None\<rparr>)"

definition derive_steps :: "journal_row list \<Rightarrow> step_status list" where
  "derive_steps rows = map step_of (group_rows rows)"

definition fetch_status :: "restate_admin \<Rightarrow> string \<Rightarrow> workflow_error + run_status" where
  "fetch_status A i =
     (case (case invocation_rows A (status_query i) of
              Inl (RestateRejected code body) \<Rightarrow> if code = 404 then Inr [] else Inl (RestateRejected code body)
            | r \<Rightarrow> r) of
        Inl e \<Rightarrow> Inl e
      | Inr [] \<Rightarrow> Inr (unknown_status i)
      | Inr (row # _) \<Rightarrow>
          (case (case journal_rows A (journal_query i) of
                   Inl (RestateRejected code body) \<Rightarrow> if code = 404 then Inr [] else Inl (RestateRejected code body)
                 | Inl e \<Rightarrow> Inl e
                 | Inr rows \<Rightarrow> Inr (derive_steps rows)) of
             Inl e \<Rightarrow> Inl e
           | Inr steps \<Rightarrow> Inr (run_status_from row steps)))"

definition cancel :: "restate_admin \<Rightarrow> string \<Rightarrow> workflow_error + unit" where
  "cancel A i =
     (case ra_patch A (trim_slashes (ra_admin_url A) @ ''/invocations/'' @ i @ ''/cancel'') of
        Inl e \<Rightarrow> Inl (classify_transport_error e)
      | Inr (code, body) \<Rightarrow>
          if is_success code then Inr ()
          else (case body of Inl e \<Rightarrow> Inl (classify_transport_error e) | Inr text \<Rightarrow> Inl (RestateRejected code text)))"

end
