(* ===== verification/WfApi.thy ===== *)
theory WfApi
  imports WfStatus AppErrors
begin

text \<open>
  The tables behind the workflow routes (\<open>app/src/db/entities/project_workflows.rs\<close>,
  \<open>workflow_runs.rs\<close> and their migrations, and the definitions of the engine crate), the
  statements the routes send, and transactions. Every statement may fail for a reason of its own;
  the failures to come are part of the state. A statement that fails changes nothing; a
  transaction whose body or commit fails leaves the tables as they were before it.
\<close>

section \<open>Tables\<close>

record 'x definition_row =
  df_id :: int
  df_name :: string
  df_steps :: "'x wf_step list"
  df_owner :: "int option"

record project_workflow =
  pw_id :: int
  pw_owner :: int
  pw_project :: string
  pw_definition :: int
  pw_scope :: string
  pw_description :: "string option"

record workflow_run =
  wr_id :: int
  wr_owner :: int
  wr_project :: string
  wr_sandbox :: "string option"
  wr_definition :: "int option"
  wr_definition_name :: string
  wr_run_id :: string
  wr_run_key :: string
  wr_invocation_id :: string
  wr_scope :: string
  wr_triggered_by :: string
  wr_started_at :: int

text \<open>The counters are the next identifiers.\<close>

record 'x wf_tables =
  tb_definitions :: "'x definition_row list"
  tb_workflows :: "project_workflow list"
  tb_runs :: "workflow_run list"
  tb_next_definition :: int
  tb_next_workflow :: int
  tb_next_run :: int

record 'x wf_db =
  db_tables :: "'x wf_tables"
  db_faults :: "string option list"

text \<open>
  The state of an attachment's scope when it is created through the generic resource
  (\<open>before_create\<close>); \<open>None\<close> stands for a field that is not set.
\<close>

definition before_create_workflow :: "string option \<Rightarrow> (string \<times> string) + unit" where
  "before_create_workflow scope =
     (let s = (case scope of None \<Rightarrow> [] | Some s \<Rightarrow> s) in
      if s \<noteq> ''project'' \<and> s \<noteq> ''sandbox''
      then Inl (''VNL-WFA-001'', ''scope must be '' @ [CHR 0x27] @ ''project'' @ [CHR 0x27] @ '' or '' @ [CHR 0x27] @ ''sandbox'' @
             [CHR 0x27] @ '', got: '' @ s)
      else Inr ())"

section \<open>Statements and transactions\<close>

type_synonym ('x, 'a) statement = "'x wf_tables \<Rightarrow> string + 'a \<times> 'x wf_tables"
type_synonym ('x, 'a) db_action = "'x wf_db \<Rightarrow> (app_error + 'a) \<times> 'x wf_db"

definition execute :: "('x, 'a) statement \<Rightarrow> 'x wf_db \<Rightarrow> (string + 'a) \<times> 'x wf_db" where
  "execute f d =
     (let d' = d\<lparr>db_faults := tl (db_faults d)\<rparr> in
      case db_faults d of
        Some e # _ \<Rightarrow> (Inl e, d')
      | _ \<Rightarrow> (case f (db_tables d) of Inl e \<Rightarrow> (Inl e, d') | Inr (a, t) \<Rightarrow> (Inr a, d'\<lparr>db_tables := t\<rparr>)))"

text \<open>An error of a statement is an internal error of the server.\<close>

definition query :: "('x, 'a) statement \<Rightarrow> ('x, 'a) db_action" where
  "query f d = map_prod (map_sum db_error id) id (execute f d)"

definition reading :: "('x wf_tables \<Rightarrow> 'a) \<Rightarrow> ('x, 'a) statement" where
  "reading g t = Inr (g t, t)"

definition give :: "app_error + 'a \<Rightarrow> ('x, 'a) db_action" where
  "give r d = (r, d)"

definition and_then :: "('x, 'a) db_action \<Rightarrow> ('a \<Rightarrow> ('x, 'b) db_action) \<Rightarrow> ('x, 'b) db_action" where
  "and_then m f d = (case m d of (Inl e, d') \<Rightarrow> (Inl e, d') | (Inr a, d') \<Rightarrow> f a d')"

definition transaction :: "('x, 'a) db_action \<Rightarrow> ('x, 'a) db_action" where
  "transaction body d =
     (case query (reading (\<lambda>_. ())) d of
        (Inl e, d1) \<Rightarrow> (Inl e, d1)
      | (Inr _, d1) \<Rightarrow>
          (case body d1 of
             (Inl e, d2) \<Rightarrow> (Inl e, d2\<lparr>db_tables := db_tables d1\<rparr>)
           | (Inr a, d2) \<Rightarrow>
               (case query (reading (\<lambda>_. ())) d2 of
                  (Inl e, d3) \<Rightarrow> (Inl e, d3\<lparr>db_tables := db_tables d1\<rparr>)
                | (Inr _, d3) \<Rightarrow> (Inr a, d3))))"

section \<open>The statements of the routes\<close>

text \<open>
  Names of definitions are unique over all owners, attachments in the triple of owner, project
  and definition, runs in their identifier and in their invocation; foreign keys hold.
\<close>

definition insert_definition :: "string \<Rightarrow> 'x wf_step list \<Rightarrow> int option \<Rightarrow> ('x, 'x definition_row) statement" where
  "insert_definition name steps owner t =
     (if \<exists>d \<in> set (tb_definitions t). df_name d = name then Inl ''unique constraint''
      else let row = \<lparr>df_id = tb_next_definition t, df_name = name, df_steps = steps, df_owner = owner\<rparr>
           in Inr (row, t\<lparr>tb_definitions := tb_definitions t @ [row], tb_next_definition := tb_next_definition t + 1\<rparr>))"

definition insert_workflow :: "int \<Rightarrow> string \<Rightarrow> int \<Rightarrow> string \<Rightarrow> string option \<Rightarrow> ('x, int) statement" where
  "insert_workflow owner project definition' scope description t =
     (if definition' \<notin> df_id ` set (tb_definitions t) then Inl ''foreign key constraint''
      else if \<exists>w \<in> set (tb_workflows t). pw_owner w = owner \<and> pw_project w = project \<and> pw_definition w = definition'
      then Inl ''unique constraint''
      else Inr (tb_next_workflow t, t\<lparr>tb_workflows := tb_workflows t @
            [\<lparr>pw_id = tb_next_workflow t, pw_owner = owner, pw_project = project, pw_definition = definition', pw_scope = scope,
              pw_description = description\<rparr>], tb_next_workflow := tb_next_workflow t + 1\<rparr>))"

definition insert_run :: "workflow_run \<Rightarrow> ('x, unit) statement" where
  "insert_run r t =
     (if \<exists>q \<in> set (tb_runs t). wr_run_id q = wr_run_id r \<or> wr_invocation_id q = wr_invocation_id r then Inl ''unique constraint''
      else if \<not> (case wr_definition r of None \<Rightarrow> True | Some i \<Rightarrow> i \<in> df_id ` set (tb_definitions t)) then Inl ''foreign key constraint''
      else Inr ((), t\<lparr>tb_runs := tb_runs t @ [r\<lparr>wr_id := tb_next_run t\<rparr>], tb_next_run := tb_next_run t + 1\<rparr>))"

text \<open>Updating a row: the row as it then is, or an error if it is gone. \<open>None\<close> sets nothing.\<close>

definition set_steps :: "int \<Rightarrow> 'x wf_step list option \<Rightarrow> 'x definition_row \<Rightarrow> 'x definition_row" where
  "set_steps i steps d = (if df_id d = i then (case steps of None \<Rightarrow> d | Some ss \<Rightarrow> d\<lparr>df_steps := ss\<rparr>) else d)"

definition set_description :: "int \<Rightarrow> string option \<Rightarrow> project_workflow \<Rightarrow> project_workflow" where
  "set_description i description w =
     (if pw_id w = i then (case description of None \<Rightarrow> w | Some s \<Rightarrow> w\<lparr>pw_description := Some s\<rparr>) else w)"

definition update_definition :: "int \<Rightarrow> 'x wf_step list option \<Rightarrow> ('x, 'x definition_row) statement" where
  "update_definition i steps t =
     (let t' = t\<lparr>tb_definitions := map (set_steps i steps) (tb_definitions t)\<rparr>
      in case List.find (\<lambda>d. df_id d = i) (tb_definitions t') of None \<Rightarrow> Inl ''no row'' | Some d \<Rightarrow> Inr (d, t'))"

definition update_workflow_row :: "int \<Rightarrow> string option \<Rightarrow> ('x, project_workflow) statement" where
  "update_workflow_row i description t =
     (let t' = t\<lparr>tb_workflows := map (set_description i description) (tb_workflows t)\<rparr>
      in case List.find (\<lambda>w. pw_id w = i) (tb_workflows t') of None \<Rightarrow> Inl ''no row'' | Some w \<Rightarrow> Inr (w, t'))"

definition delete_workflow_row :: "int \<Rightarrow> ('x, unit) statement" where
  "delete_workflow_row i t = Inr ((), t\<lparr>tb_workflows := filter (\<lambda>w. pw_id w \<noteq> i) (tb_workflows t)\<rparr>)"

definition forget_definition :: "int \<Rightarrow> workflow_run \<Rightarrow> workflow_run" where
  "forget_definition i r = (if wr_definition r = Some i then r\<lparr>wr_definition := None\<rparr> else r)"

text \<open>Deleting a definition deletes its attachments and empties the reference of its runs.\<close>

definition delete_definition :: "int \<Rightarrow> ('x, unit) statement" where
  "delete_definition i t =
     Inr ((), t\<lparr>tb_definitions := filter (\<lambda>d. df_id d \<noteq> i) (tb_definitions t),
                tb_workflows := filter (\<lambda>w. pw_definition w \<noteq> i) (tb_workflows t),
                tb_runs := map (forget_definition i) (tb_runs t)\<rparr>)"

definition clear_definition :: "int \<Rightarrow> ('x, unit) statement" where
  "clear_definition i t = Inr ((), t\<lparr>tb_runs := map (forget_definition i) (tb_runs t)\<rparr>)"

definition delete_runs_before :: "int \<Rightarrow> ('x, nat) statement" where
  "delete_runs_before cutoff t =
     Inr (length (filter (\<lambda>r. wr_started_at r < cutoff) (tb_runs t)),
          t\<lparr>tb_runs := filter (\<lambda>r. \<not> wr_started_at r < cutoff) (tb_runs t)\<rparr>)"

text \<open>
  Removing what is older than some days (\<open>purge_older_than\<close>); \<open>minus_days\<close> is the date so many
  days before now, if there is one. Its own error comes as text like those of the database.
\<close>

definition purge_older_than :: "(int \<Rightarrow> int option) \<Rightarrow> int \<Rightarrow> 'x wf_db \<Rightarrow> (string + nat) \<times> 'x wf_db" where
  "purge_older_than minus_days days d =
     (case minus_days days of
        None \<Rightarrow> (Inl (''VNL-WFR-001: purge window out of range: '' @ show_int days @ '' days''), d)
      | Some cutoff \<Rightarrow> execute (delete_runs_before cutoff) d)"

section \<open>Laws\<close>

lemma execute_cases:
  "execute f d = (r, d') \<Longrightarrow> (case r of Inl _ \<Rightarrow> db_tables d' = db_tables d | Inr a \<Rightarrow> f (db_tables d) = Inr (a, db_tables d'))"
  by (auto simp: execute_def Let_def split: list.splits option.splits sum.splits)

lemma query_cases:
  "query f d = (r, d') \<Longrightarrow> (case r of Inl _ \<Rightarrow> db_tables d' = db_tables d | Inr a \<Rightarrow> f (db_tables d) = Inr (a, db_tables d'))"
  using execute_cases [of f d] by (cases "execute f d") (auto simp: query_def split: sum.splits)

lemma query_reading:
  "query (reading g) d = (r, d') \<Longrightarrow> db_tables d' = db_tables d \<and> (\<forall>a. r = Inr a \<longrightarrow> a = g (db_tables d))"
  using query_cases [of "reading g" d r d'] by (auto simp: reading_def split: sum.splits)

lemma transaction_cases:
  assumes "transaction body d = (r, d')"
  shows "case r of Inl _ \<Rightarrow> db_tables d' = db_tables d
    | Inr a \<Rightarrow> \<exists>d1 d2. db_tables d1 = db_tables d \<and> body d1 = (Inr a, d2) \<and> db_tables d' = db_tables d2"
  using assms
  by (auto simp: transaction_def split: prod.splits sum.splits dest!: query_reading)

lemma and_then_Inr:
  "and_then m f d = (Inr b, d') \<longleftrightarrow> (\<exists>a d1. m d = (Inr a, d1) \<and> f a d1 = (Inr b, d'))"
  by (auto simp: and_then_def split: prod.splits sum.splits)

lemma and_then_Inl:
  "and_then m f d = (Inl e, d') \<longleftrightarrow> m d = (Inl e, d') \<or> (\<exists>a d1. m d = (Inr a, d1) \<and> f a d1 = (Inl e, d'))"
  by (auto simp: and_then_def split: prod.splits sum.splits)

lemma give_iff [simp]: "give r d = (r', d') \<longleftrightarrow> r = r' \<and> d = d'"
  by (auto simp: give_def)

section \<open>The routes\<close>

text \<open>
  The routes of the workflows of a project and of their runs (\<open>app/src/api/workflows.rs\<close>). A
  handler takes the environment of its request, the user and the state of the server: the tables
  and, in order, the requests made to the workflow engine and to sandboxes. The environment
  gives what other parts answer: the resolution of the user and of the Owner, the graph check and
  the trigger of the engine crate, the cluster, the clock and the new identifier.
\<close>

section \<open>Bodies and views\<close>

record app_user =
  au_subject :: string
  au_email :: "string option"

record 'x create_workflow_body =
  cb_name :: string
  cb_scope :: string
  cb_description :: "string option"
  cb_steps :: "'x wf_step list"

record 'x update_workflow_body =
  ub_description :: "string option"
  ub_steps :: "'x wf_step list option"
  ub_scope :: "string json option"

record 'x workflow_detail =
  wd_id :: int
  wd_name :: string
  wd_scope :: string
  wd_description :: "string option"
  wd_steps :: "'x wf_step list"

record workflow_list_item =
  wl_id :: int
  wl_name :: string
  wl_scope :: string
  wl_description :: "string option"
  wl_kinds :: "string list"
  wl_steps_count :: nat

record run_list_query =
  lq_limit :: "nat option"
  lq_since :: "int option"

record run_launch =
  ru_run_id :: string
  ru_invocation_id :: string

record run_status_view =
  sv_state :: string
  sv_started_at :: "int option"
  sv_ended_at :: "int option"
  sv_error :: "string option"

record run_list_item =
  rl_run_id :: string
  rl_workflow :: string
  rl_scope :: string
  rl_sandbox :: "string option"
  rl_triggered_by :: string
  rl_started_at :: int
  rl_status :: run_status_view

record step_status_view =
  tv_step_id :: string
  tv_state :: string
  tv_started_at :: "int option"
  tv_ended_at :: "int option"
  tv_error :: "string option"

record run_status_detail =
  de_state :: string
  de_started_at :: "int option"
  de_ended_at :: "int option"
  de_error :: "string option"
  de_steps :: "step_status_view list"

record run_detail =
  rd_run_id :: string
  rd_workflow :: string
  rd_scope :: string
  rd_sandbox :: "string option"
  rd_triggered_by :: string
  rd_started_at :: int
  rd_status :: run_status_detail

section \<open>The server and the environment of a request\<close>

record run_handle =
  rh_run_key :: string
  rh_invocation_id :: string

record sandbox_cr_state =
  cr_project :: string
  cr_phase :: "string option"

record 'x wf_env =
  en_engine :: "restate_admin option"
  en_user_id :: "app_user \<Rightarrow> app_error + int"
  en_owner :: "int \<Rightarrow> app_error + string option"
  en_check_dag :: "'x wf_step list \<Rightarrow> app_user \<Rightarrow> string + unit"
  en_cluster :: "app_error + unit"
  en_get_sandbox :: "string \<Rightarrow> string \<Rightarrow> vny_error + sandbox_cr_state"
  en_locator :: "string \<Rightarrow> string \<Rightarrow> locator"
  en_delete :: "string \<Rightarrow> http_answer" \<comment> \<open>by address\<close>
  en_parse :: "string \<Rightarrow> string + string json"
  en_trigger :: "'x wf_step list \<Rightarrow> workflow_error + run_handle"
  en_show_error :: "workflow_error \<Rightarrow> string"
  en_new_uuid :: string
  en_now :: int
  en_minus_days :: "int \<Rightarrow> string + int"

datatype 'x engine_call =
    Triggered "'x wf_step list" run_handle
  | CancelAsked string
  | JobsDeleted string string \<comment> \<open>address of the sandbox, identifier of the run\<close>

record 'x wf_world =
  ww_db :: "'x wf_db"
  ww_calls :: "'x engine_call list"

type_synonym ('x, 'a) handler = "'x wf_world \<Rightarrow> (app_error + 'a) \<times> 'x wf_world"

definition on_db :: "('x, 'a) db_action \<Rightarrow> ('x, 'a) handler" where
  "on_db m w = (let (r, d) = m (ww_db w) in (r, w\<lparr>ww_db := d\<rparr>))"

definition call_made :: "'x engine_call \<Rightarrow> 'x wf_world \<Rightarrow> 'x wf_world" where
  "call_made c w = w\<lparr>ww_calls := ww_calls w @ [c]\<rparr>"

section \<open>Ownership and the engine\<close>

definition engine :: "'x wf_env \<Rightarrow> app_error + restate_admin" where
  "engine E = (case en_engine E of None \<Rightarrow> Inl WorkflowEngineNotConfigured | Some a \<Rightarrow> Inr a)"

definition owner_context :: "'x wf_env \<Rightarrow> app_user \<Rightarrow> app_error + (int \<times> string) option" where
  "owner_context E user =
     (case en_user_id E user of
        Inl e \<Rightarrow> Inl e
      | Inr i \<Rightarrow> (case en_owner E i of Inl e \<Rightarrow> Inl e | Inr name \<Rightarrow> Inr (map_option (Pair i) name)))"

text \<open>Engine first, then the owner; \<open>missing\<close> is the answer to a user without one.\<close>

definition as_owner :: "'x wf_env \<Rightarrow> app_user \<Rightarrow> app_error + 'a \<Rightarrow> (restate_admin \<Rightarrow> int \<Rightarrow> string \<Rightarrow> ('x, 'a) handler) \<Rightarrow> ('x, 'a) handler" where
  "as_owner E user missing f w =
     (case engine E of
        Inl e \<Rightarrow> (Inl e, w)
      | Inr runtime \<Rightarrow>
          (case owner_context E user of
             Inl e \<Rightarrow> (Inl e, w)
           | Inr None \<Rightarrow> (missing, w)
           | Inr (Some (i, owner)) \<Rightarrow> f runtime i owner w))"

definition missing_definition :: "int \<Rightarrow> int \<Rightarrow> app_error" where
  "missing_definition i j = InternalError (''VNL-WFA-010: rattachement '' @ show_int i @ '' r'' @ e_acute @ ''f'' @ e_acute @
     ''rence la d'' @ e_acute @ ''finition absente '' @ show_int j)"

definition find_workflow :: "int \<Rightarrow> string \<Rightarrow> int \<Rightarrow> 'x wf_tables \<Rightarrow> project_workflow option" where
  "find_workflow user_id project i t =
     List.find (\<lambda>a. pw_id a = i \<and> pw_owner a = user_id \<and> pw_project a = project) (tb_workflows t)"

definition find_definition :: "int \<Rightarrow> 'x wf_tables \<Rightarrow> 'x definition_row option" where
  "find_definition i t = List.find (\<lambda>d. df_id d = i) (tb_definitions t)"

definition load_owned :: "int \<Rightarrow> string \<Rightarrow> int \<Rightarrow> ('x, project_workflow \<times> 'x definition_row) db_action" where
  "load_owned user_id project i =
     and_then (query (reading (find_workflow user_id project i))) (\<lambda>attach.
       case attach of
         None \<Rightarrow> give (Inl WorkflowNotFound)
       | Some a \<Rightarrow>
           and_then (query (reading (find_definition (pw_definition a)))) (\<lambda>definition'.
             give (case definition' of None \<Rightarrow> Inl (missing_definition i (pw_definition a)) | Some d \<Rightarrow> Inr (a, d))))"

definition parse_scope :: "string \<Rightarrow> app_error + run_scope" where
  "parse_scope scope =
     (if scope = ''project'' then Inr ProjectScope
      else if scope = ''sandbox'' then Inr SandboxScope
      else Inl (WorkflowUnknownScope scope))"

definition validate_dag :: "'x wf_env \<Rightarrow> 'x wf_step list \<Rightarrow> app_user \<Rightarrow> app_error + unit" where
  "validate_dag E steps user = map_sum WorkflowDagInvalid id (en_check_dag E steps user)"

definition validate_kinds :: "'x wf_step list \<Rightarrow> run_scope \<Rightarrow> app_error + unit" where
  "validate_kinds steps scope =
     (case List.find (\<lambda>s. sd_kind s \<notin> set (allowed_kinds scope)) steps of
        Some s \<Rightarrow> Inl (WorkflowKindForbidden (kind_error scope s))
      | None \<Rightarrow> Inr ())"

definition full_name :: "string \<Rightarrow> string \<Rightarrow> string \<Rightarrow> string" where
  "full_name owner project name = owner @ ''/'' @ project @ ''/'' @ name"

definition bare_name :: "string \<Rightarrow> string \<Rightarrow> string \<Rightarrow> string" where
  "bare_name stored owner project =
     (case strip_prefix (owner @ ''/'' @ project @ ''/'') stored of None \<Rightarrow> stored | Some name \<Rightarrow> name)"

fun distinct_kinds_from :: "string list \<Rightarrow> 'x wf_step list \<Rightarrow> string list" where
  "distinct_kinds_from kinds [] = kinds"
| "distinct_kinds_from kinds (s # ss) =
     distinct_kinds_from (if sd_kind s \<in> set kinds then kinds else kinds @ [sd_kind s]) ss"

definition distinct_kinds :: "'x wf_step list \<Rightarrow> string list" where
  "distinct_kinds steps = distinct_kinds_from [] steps"

definition detail :: "project_workflow \<Rightarrow> 'x definition_row \<Rightarrow> string \<Rightarrow> string \<Rightarrow> 'x workflow_detail" where
  "detail attach definition' owner project =
     \<lparr>wd_id = pw_id attach, wd_name = bare_name (df_name definition') owner project, wd_scope = pw_scope attach,
      wd_description = pw_description attach, wd_steps = df_steps definition'\<rparr>"

section \<open>Definitions: the handlers\<close>

definition list_item :: "'x definition_row list \<Rightarrow> string \<Rightarrow> string \<Rightarrow> project_workflow \<Rightarrow> app_error + workflow_list_item" where
  "list_item definitions owner project a =
     (case List.find (\<lambda>d. df_id d = pw_definition a) definitions of
        None \<Rightarrow> Inl (missing_definition (pw_id a) (pw_definition a))
      | Some d \<Rightarrow> Inr \<lparr>wl_id = pw_id a, wl_name = bare_name (df_name d) owner project, wl_scope = pw_scope a,
          wl_description = pw_description a, wl_kinds = distinct_kinds (df_steps d), wl_steps_count = length (df_steps d)\<rparr>)"

fun list_items :: "(project_workflow \<Rightarrow> app_error + workflow_list_item) \<Rightarrow> project_workflow list \<Rightarrow> app_error + workflow_list_item list" where
  "list_items f [] = Inr []"
| "list_items f (a # as) =
     (case f a of Inl e \<Rightarrow> Inl e | Inr i \<Rightarrow> (case list_items f as of Inl e \<Rightarrow> Inl e | Inr is \<Rightarrow> Inr (i # is)))"

definition workflows_of :: "int \<Rightarrow> string \<Rightarrow> 'x wf_tables \<Rightarrow> project_workflow list" where
  "workflows_of user_id project t =
     sort_key pw_id (filter (\<lambda>a. pw_owner a = user_id \<and> pw_project a = project) (tb_workflows t))"

definition list_workflows :: "'x wf_env \<Rightarrow> app_user \<Rightarrow> string \<Rightarrow> ('x, workflow_list_item list) handler" where
  "list_workflows E user project =
     as_owner E user (Inr []) (\<lambda>_ user_id owner. on_db
       (and_then (query (reading (workflows_of user_id project))) (\<lambda>attachs.
          and_then (query (reading (\<lambda>t. filter (\<lambda>d. df_id d \<in> pw_definition ` set attachs) (tb_definitions t)))) (\<lambda>definitions.
            give (list_items (list_item definitions owner project) attachs)))))"

definition create_workflow_db :: "'x wf_env \<Rightarrow> app_user \<Rightarrow> int \<Rightarrow> string \<Rightarrow> string \<Rightarrow> 'x create_workflow_body
    \<Rightarrow> ('x, 'x workflow_detail) db_action" where
  "create_workflow_db E user user_id owner project body =
     and_then (give (parse_scope (cb_scope body))) (\<lambda>scope.
     and_then (give (validate_dag E (cb_steps body) user)) (\<lambda>_.
     and_then (give (validate_kinds (cb_steps body) scope)) (\<lambda>_.
       let stored_name = full_name owner project (cb_name body) in
       transaction
         (and_then (query (reading (\<lambda>t. \<exists>d \<in> set (tb_definitions t). df_owner d = Some user_id \<and> df_name d = stored_name))) (\<lambda>taken.
            if taken then give (Inl (WorkflowNameTaken (cb_name body)))
            else and_then (query (insert_definition stored_name (cb_steps body) (Some user_id))) (\<lambda>definition'.
              and_then (query (insert_workflow user_id project (df_id definition') (cb_scope body) (cb_description body))) (\<lambda>attach_id.
                give (Inr (detail \<lparr>pw_id = attach_id, pw_owner = user_id, pw_project = project, pw_definition = df_id definition',
                    pw_scope = cb_scope body, pw_description = cb_description body\<rparr> definition' owner project)))))))))"

definition create_workflow :: "'x wf_env \<Rightarrow> app_user \<Rightarrow> string \<Rightarrow> 'x create_workflow_body \<Rightarrow> ('x, 'x workflow_detail) handler" where
  "create_workflow E user project body =
     as_owner E user (Inl WorkflowNotFound) (\<lambda>_ user_id owner. on_db (create_workflow_db E user user_id owner project body))"

definition get_workflow :: "'x wf_env \<Rightarrow> app_user \<Rightarrow> string \<Rightarrow> int \<Rightarrow> ('x, 'x workflow_detail) handler" where
  "get_workflow E user project i =
     as_owner E user (Inl WorkflowNotFound) (\<lambda>_ user_id owner. on_db
       (and_then (load_owned user_id project i) (\<lambda>(a, d). give (Inr (detail a d owner project)))))"

definition update_workflow :: "'x wf_env \<Rightarrow> app_user \<Rightarrow> string \<Rightarrow> int \<Rightarrow> 'x update_workflow_body \<Rightarrow> ('x, 'x workflow_detail) handler" where
  "update_workflow E user project i body =
     as_owner E user (Inl WorkflowNotFound) (\<lambda>_ user_id owner. on_db
       (and_then (load_owned user_id project i) (\<lambda>(a, d).
          if ub_scope body \<noteq> None then give (Inl WorkflowScopeNotEditable)
          else and_then (give (parse_scope (pw_scope a))) (\<lambda>scope.
            and_then (give (case ub_steps body of None \<Rightarrow> Inr ()
                | Some steps \<Rightarrow> (case validate_dag E steps user of Inl e \<Rightarrow> Inl e | Inr _ \<Rightarrow> validate_kinds steps scope))) (\<lambda>_.
              transaction
                (and_then (query (update_definition (df_id d) (ub_steps body))) (\<lambda>d'.
                 and_then (query (update_workflow_row (pw_id a) (ub_description body))) (\<lambda>a'.
                   give (Inr (detail a' d' owner project)))))))))) "

definition delete_workflow :: "'x wf_env \<Rightarrow> app_user \<Rightarrow> string \<Rightarrow> int \<Rightarrow> ('x, unit) handler" where
  "delete_workflow E user project i =
     as_owner E user (Inl WorkflowNotFound) (\<lambda>_ user_id owner. on_db
       (and_then (load_owned user_id project i) (\<lambda>(a, d).
          transaction
            (and_then (query (delete_workflow_row (pw_id a))) (\<lambda>_.
             and_then (query (delete_definition (df_id d))) (\<lambda>_.
               query (clear_definition (df_id d))))))))"

end
