(* ===== verification/WfRunsApi.thy ===== *)
theory WfRunsApi
  imports WfApi
begin

text \<open>
  The routes of runs (\<open>app/src/api/workflows.rs\<close>): launching, the bounded lists, the detail and
  the cancellation; and the server as a whole, a sequence of requests of any users.
\<close>

section \<open>Views\<close>

definition RUNS_MAX_LIMIT :: nat where "RUNS_MAX_LIMIT = 50"
definition RUNS_MAX_SINCE_DAYS :: int where "RUNS_MAX_SINCE_DAYS = 14"

definition bounded_list :: "run_list_query \<Rightarrow> nat \<times> int" where
  "bounded_list q =
     (min (max (case lq_limit q of None \<Rightarrow> RUNS_MAX_LIMIT | Some l \<Rightarrow> l) 1) RUNS_MAX_LIMIT,
      min (max (case lq_since q of None \<Rightarrow> RUNS_MAX_SINCE_DAYS | Some s \<Rightarrow> s) 1) RUNS_MAX_SINCE_DAYS)"

definition state_str :: "run_state \<Rightarrow> string" where
  "state_str s = (case s of
     Pending \<Rightarrow> ''Pending'' | RunRunning \<Rightarrow> ''Running'' | Suspended \<Rightarrow> ''Suspended'' | BackingOff \<Rightarrow> ''BackingOff''
   | RunSucceeded \<Rightarrow> ''Succeeded'' | RunFailed \<Rightarrow> ''Failed'' | RunCancelled \<Rightarrow> ''Cancelled'' | Unknown \<Rightarrow> ''Unknown'')"

definition status_view :: "run_status option \<Rightarrow> run_status_view" where
  "status_view s = (case s of
     Some s \<Rightarrow> \<lparr>sv_state = state_str (rs_state s), sv_started_at = rs_started_at s, sv_ended_at = rs_ended_at s, sv_error = rs_error s\<rparr>
   | None \<Rightarrow> \<lparr>sv_state = ''Unknown'', sv_started_at = None, sv_ended_at = None, sv_error = None\<rparr>)"

definition step_view :: "step_status \<Rightarrow> step_status_view" where
  "step_view s = \<lparr>tv_step_id = ss_step_id s, tv_state = state_str (ss_state s), tv_started_at = ss_started_at s,
     tv_ended_at = ss_ended_at s, tv_error = ss_error s\<rparr>"

definition status_detail :: "run_status \<Rightarrow> run_status_detail" where
  "status_detail s = \<lparr>de_state = state_str (rs_state s), de_started_at = rs_started_at s, de_ended_at = rs_ended_at s,
     de_error = rs_error s, de_steps = map step_view (rs_steps s)\<rparr>"

definition engine_unavailable :: "'x wf_env \<Rightarrow> workflow_error \<Rightarrow> app_error" where
  "engine_unavailable E e = WorkflowEngineUnavailable (en_show_error E e)"

section \<open>The sandbox of a run\<close>

definition inspect_sandbox :: "'x wf_env \<Rightarrow> string \<Rightarrow> string \<Rightarrow> app_error + sandbox_cr_state option" where
  "inspect_sandbox E owner sandbox =
     (case en_get_sandbox E owner sandbox of
        Inr box \<Rightarrow> Inr (Some box)
      | Inl (VnyK8sApi s) \<Rightarrow>
          (let msg = vny_error_text (VnyK8sApi s) in
           if has_infix ''404'' msg \<or> has_infix ''not found'' (map ascii_lower msg) then Inr None
           else Inl (app_error_of_vny (VnyK8sApi s)))
      | Inl e \<Rightarrow> Inl (app_error_of_vny e))"

definition run_context_of_row :: "string \<Rightarrow> string \<Rightarrow> string \<Rightarrow> workflow_run \<Rightarrow> run_context" where
  "run_context_of_row owner user sandbox r =
     \<lparr>rc_run_id = wr_run_id r, rc_user = user, rc_user_id = wr_owner r, rc_owner = owner, rc_project = wr_project r,
      rc_sandbox = Some sandbox, rc_triggered_by = wr_triggered_by r, rc_definition = wr_definition_name r\<rparr>"

definition vnl_020 :: "string \<Rightarrow> app_error" where
  "vnl_020 m = InternalError (''VNL-WFA-020: '' @ m)"

definition delete_run_jobs :: "'x wf_env \<Rightarrow> string \<Rightarrow> string \<Rightarrow> workflow_run \<Rightarrow> ('x, unit) handler" where
  "delete_run_jobs E owner user r w =
     (case wr_sandbox r of
        None \<Rightarrow> (Inl (vnl_020 (''suppression de jobs demand'' @ e_acute @ ''e pour le run '' @ wr_run_id r @ '' sans sandbox'')), w)
      | Some sandbox \<Rightarrow>
          (case run_info (JObj [(''_run'', run_context_ser (run_context_of_row owner user sandbox r))]) of
             Inl e \<Rightarrow> (Inl (InternalError (se_message e)), w)
           | Inr info \<Rightarrow>
               (case fst (open_with (en_locator E (rc_owner info) sandbox) info) of
                  Inl e \<Rightarrow> (Inl (vnl_020 (se_message e)), w)
                | Inr access \<Rightarrow>
                    (let path = ''/jobs?prefix='' @ wr_run_id r @ '':'';
                         token = lo_token (en_locator E (rc_owner info) sandbox);
                         answer = call (en_parse E) access token (en_delete E (sa_base access @ path)) path
                     in (map_sum (\<lambda>e. vnl_020 (se_message e)) (\<lambda>_. ()) answer,
                         if isl token then w else call_made (JobsDeleted (sa_base access) (wr_run_id r)) w)))))"

section \<open>Launching\<close>

definition launch_sandbox :: "run_scope \<Rightarrow> string option \<Rightarrow> app_error + string option" where
  "launch_sandbox scope sandbox =
     (case (scope, sandbox) of
        (ProjectScope, Some _) \<Rightarrow> Inl WorkflowSandboxNotAllowed
      | (ProjectScope, None) \<Rightarrow> Inr None
      | (SandboxScope, None) \<Rightarrow> Inl WorkflowSandboxRequired
      | (SandboxScope, Some name) \<Rightarrow> Inr (Some name))"

definition check_sandbox :: "'x wf_env \<Rightarrow> string \<Rightarrow> string \<Rightarrow> string option \<Rightarrow> app_error + unit" where
  "check_sandbox E owner project sandbox =
     (case sandbox of
        None \<Rightarrow> Inr ()
      | Some name \<Rightarrow>
          (case en_cluster E of
             Inl e \<Rightarrow> Inl e
           | Inr _ \<Rightarrow>
               (case inspect_sandbox E owner name of
                  Inl e \<Rightarrow> Inl e
                | Inr None \<Rightarrow> Inl WorkflowSandboxNotFound
                | Inr (Some box) \<Rightarrow>
                    if cr_project box \<noteq> project then Inl (WorkflowSandboxForeignProject name)
                    else if cr_phase box \<noteq> Some ''Running''
                    then Inl (WorkflowSandboxNotRunning (name @ '' : phase '' @ (case cr_phase box of None \<Rightarrow> ''inconnue'' | Some p \<Rightarrow> p)))
                    else Inr ())))"

text \<open>What precedes the trigger: all that is checked, and the graph to run.\<close>

definition prepare_launch :: "'x wf_env \<Rightarrow> app_user \<Rightarrow> int \<Rightarrow> string \<Rightarrow> string \<Rightarrow> string option \<Rightarrow> string
    \<Rightarrow> project_workflow \<times> 'x definition_row \<Rightarrow> app_error + string option \<times> 'x wf_step list" where
  "prepare_launch E user user_id owner project requested triggered_by ad =
     (case ad of (a, d) \<Rightarrow>
     (case parse_scope (pw_scope a) of Inl e \<Rightarrow> Inl e | Inr scope \<Rightarrow>
     (case launch_sandbox scope requested of Inl e \<Rightarrow> Inl e | Inr sandbox \<Rightarrow>
     (case validate_kinds (df_steps d) scope of Inl e \<Rightarrow> Inl e | Inr _ \<Rightarrow>
     (case check_sandbox E owner project sandbox of Inl e \<Rightarrow> Inl e | Inr _ \<Rightarrow>
       (case materialize (df_steps d) scope
          \<lparr>rc_run_id = en_new_uuid E, rc_user = au_subject user, rc_user_id = user_id, rc_owner = owner, rc_project = project,
           rc_sandbox = sandbox, rc_triggered_by = triggered_by, rc_definition = df_name d\<rparr> of
          Inl (InvalidDag msg) \<Rightarrow> Inl (WorkflowDagInvalid msg)
        | Inl e \<Rightarrow> Inl (engine_unavailable E e)
        | Inr dag \<Rightarrow> Inr (sandbox, dag)))))))"

definition not_indexed :: "string \<Rightarrow> string \<Rightarrow> app_error" where
  "not_indexed run_id e = InternalError (''VNL-WFA-018: '' @ e_acute @ ''chec d'' @ [CHR 0x27] @ ''indexation du run '' @ run_id @ '': '' @ e)"

text \<open>The trigger, the line of the index, and the cancellation if it cannot be written.\<close>

definition trigger_and_index :: "'x wf_env \<Rightarrow> int \<Rightarrow> string \<Rightarrow> string \<Rightarrow> project_workflow \<times> 'x definition_row
    \<Rightarrow> string option \<times> 'x wf_step list \<Rightarrow> ('x, run_launch) handler" where
  "trigger_and_index E user_id project triggered_by ad sd w =
     (case en_trigger E (snd sd) of
        Inl e \<Rightarrow> (Inl (engine_unavailable E e), w)
      | Inr handle \<Rightarrow>
          (let row = \<lparr>wr_id = 0, wr_owner = user_id, wr_project = project, wr_sandbox = fst sd,
                 wr_definition = Some (pw_definition (fst ad)), wr_definition_name = df_name (snd ad),
                 wr_run_id = en_new_uuid E, wr_run_key = rh_run_key handle, wr_invocation_id = rh_invocation_id handle,
                 wr_scope = pw_scope (fst ad), wr_triggered_by = triggered_by, wr_started_at = en_now E\<rparr>;
               w = call_made (Triggered (snd sd) handle) w;
               (r, d) = execute (insert_run row) (ww_db w);
               w = w\<lparr>ww_db := d\<rparr>
           in case r of
                Inl e \<Rightarrow> (Inl (not_indexed (en_new_uuid E) e), call_made (CancelAsked (rh_invocation_id handle)) w)
              | Inr _ \<Rightarrow> (Inr \<lparr>ru_run_id = en_new_uuid E, ru_invocation_id = rh_invocation_id handle\<rparr>, w)))"

definition launch_workflow :: "'x wf_env \<Rightarrow> app_user \<Rightarrow> string \<Rightarrow> int \<Rightarrow> string option \<Rightarrow> string \<Rightarrow> ('x, run_launch) handler" where
  "launch_workflow E user project i sandbox triggered_by =
     as_owner E user (Inl WorkflowNotFound) (\<lambda>_ user_id owner w.
       case load_owned user_id project i (ww_db w) of
         (Inl e, d) \<Rightarrow> (Inl e, w\<lparr>ww_db := d\<rparr>)
       | (Inr ad, d) \<Rightarrow>
           (case prepare_launch E user user_id owner project sandbox triggered_by ad of
              Inl e \<Rightarrow> (Inl e, w\<lparr>ww_db := d\<rparr>)
            | Inr sd \<Rightarrow> trigger_and_index E user_id project triggered_by ad sd (w\<lparr>ww_db := d\<rparr>)))"

definition create_run :: "'x wf_env \<Rightarrow> app_user \<Rightarrow> string \<Rightarrow> int \<Rightarrow> string option \<Rightarrow> ('x, run_launch) handler" where
  "create_run E user project i sandbox = launch_workflow E user project i sandbox ''ui''"

section \<open>Reading runs\<close>

definition runs_in_window :: "int \<Rightarrow> int \<Rightarrow> string option \<Rightarrow> string option \<Rightarrow> nat \<Rightarrow> 'x wf_tables \<Rightarrow> workflow_run list" where
  "runs_in_window user_id cutoff project sandbox limit t =
     take limit (sort_key (\<lambda>r. - wr_started_at r)
       (filter (\<lambda>r. wr_owner r = user_id \<and> cutoff \<le> wr_started_at r \<and>
                 (case project of None \<Rightarrow> True | Some p \<Rightarrow> wr_project r = p) \<and>
                 (case sandbox of None \<Rightarrow> True | Some s \<Rightarrow> wr_sandbox r = Some s)) (tb_runs t)))"

definition run_item :: "(string \<rightharpoonup> run_status) \<Rightarrow> workflow_run \<Rightarrow> run_list_item" where
  "run_item statuses r =
     \<lparr>rl_run_id = wr_run_id r, rl_workflow = wr_definition_name r, rl_scope = wr_scope r, rl_sandbox = wr_sandbox r,
      rl_triggered_by = wr_triggered_by r, rl_started_at = wr_started_at r,
      rl_status = status_view (statuses (wr_invocation_id r))\<rparr>"

definition list_runs :: "'x wf_env \<Rightarrow> int \<Rightarrow> string option \<Rightarrow> string option \<Rightarrow> nat \<Rightarrow> int \<Rightarrow> ('x, run_list_item list) db_action" where
  "list_runs E user_id project sandbox limit since_days d =
     (case engine E of
        Inl e \<Rightarrow> (Inl e, d)
      | Inr runtime \<Rightarrow>
          (case en_minus_days E since_days of
             Inl e \<Rightarrow> (Inl (InternalError (''VNL-WFA-019: '' @ e)), d)
           | Inr cutoff \<Rightarrow>
               and_then (query (reading (runs_in_window user_id cutoff project sandbox limit))) (\<lambda>rows.
                 give (case fetch_statuses runtime (map wr_invocation_id rows) of
                     Inl e \<Rightarrow> Inl (engine_unavailable E e)
                   | Inr statuses \<Rightarrow> Inr (map (run_item statuses) rows))) d))"

definition list_project_runs :: "'x wf_env \<Rightarrow> app_user \<Rightarrow> string \<Rightarrow> run_list_query \<Rightarrow> ('x, run_list_item list) handler" where
  "list_project_runs E user project q =
     as_owner E user (Inr []) (\<lambda>_ user_id _.
       let (limit, since) = bounded_list q in on_db (list_runs E user_id (Some project) None limit since))"

definition list_sandbox_runs :: "'x wf_env \<Rightarrow> app_user \<Rightarrow> string \<Rightarrow> run_list_query \<Rightarrow> ('x, run_list_item list) handler" where
  "list_sandbox_runs E user sandbox q =
     as_owner E user (Inr []) (\<lambda>_ user_id _.
       let (limit, since) = bounded_list q in on_db (list_runs E user_id None (Some sandbox) limit since))"

definition find_run :: "int \<Rightarrow> string \<Rightarrow> ('x, workflow_run) db_action" where
  "find_run user_id run_id =
     and_then (query (reading (\<lambda>t. List.find (\<lambda>r. wr_run_id r = run_id \<and> wr_owner r = user_id) (tb_runs t)))) (\<lambda>r.
       give (case r of None \<Rightarrow> Inl WorkflowRunNotFound | Some r \<Rightarrow> Inr r))"

definition get_run :: "'x wf_env \<Rightarrow> app_user \<Rightarrow> string \<Rightarrow> ('x, run_detail) handler" where
  "get_run E user run_id =
     as_owner E user (Inl WorkflowRunNotFound) (\<lambda>runtime user_id _. on_db
       (and_then (find_run user_id run_id) (\<lambda>r.
          give (case fetch_status runtime (wr_invocation_id r) of
              Inl e \<Rightarrow> Inl (engine_unavailable E e)
            | Inr s \<Rightarrow> Inr \<lparr>rd_run_id = wr_run_id r, rd_workflow = wr_definition_name r, rd_scope = wr_scope r,
                rd_sandbox = wr_sandbox r, rd_triggered_by = wr_triggered_by r, rd_started_at = wr_started_at r,
                rd_status = status_detail s\<rparr>))))"

definition cancel_run :: "'x wf_env \<Rightarrow> app_user \<Rightarrow> string \<Rightarrow> ('x, unit) handler" where
  "cancel_run E user run_id =
     as_owner E user (Inl WorkflowRunNotFound) (\<lambda>runtime user_id owner w.
       case find_run user_id run_id (ww_db w) of
         (Inl e, d) \<Rightarrow> (Inl e, w\<lparr>ww_db := d\<rparr>)
       | (Inr r, d) \<Rightarrow>
           (let w = call_made (CancelAsked (wr_invocation_id r)) (w\<lparr>ww_db := d\<rparr>) in
            case cancel runtime (wr_invocation_id r) of
              Inl e \<Rightarrow> (Inl (engine_unavailable E e), w)
            | Inr _ \<Rightarrow>
                if wr_sandbox r = None then (Inr (), w)
                else (case en_cluster E of
                    Inl e \<Rightarrow> (Inl e, w)
                  | Inr _ \<Rightarrow> (Inr (), snd (delete_run_jobs E owner (au_subject user) r w)))))"

section \<open>The server\<close>

datatype 'x wf_request =
    ListWorkflows string
  | CreateWorkflow string "'x create_workflow_body"
  | GetWorkflow string int
  | UpdateWorkflow string int "'x update_workflow_body"
  | DeleteWorkflow string int
  | CreateRun string int "string option"
  | ListProjectRuns string run_list_query
  | ListSandboxRuns string run_list_query
  | GetRun string
  | CancelRun string

datatype 'x wf_reply =
    Workflows "workflow_list_item list"
  | Created "'x workflow_detail"
  | Workflow "'x workflow_detail"
  | NoContent
  | Launched run_launch
  | Runs "run_list_item list"
  | Run run_detail
  | Accepted

fun reply_status :: "app_error + 'x wf_reply \<Rightarrow> nat" where
  "reply_status (Inl e) = app_error_status e"
| "reply_status (Inr (Created _)) = 201"
| "reply_status (Inr (Launched _)) = 202"
| "reply_status (Inr Accepted) = 202"
| "reply_status (Inr NoContent) = 204"
| "reply_status (Inr _) = 200"

definition replying :: "('a \<Rightarrow> 'x wf_reply) \<Rightarrow> ('x, 'a) handler \<Rightarrow> ('x, 'x wf_reply) handler" where
  "replying f h w = map_prod (map_sum id f) id (h w)"

fun handle_request :: "'x wf_env \<Rightarrow> app_user \<Rightarrow> 'x wf_request \<Rightarrow> ('x, 'x wf_reply) handler" where
  "handle_request E u (ListWorkflows p) = replying Workflows (list_workflows E u p)"
| "handle_request E u (CreateWorkflow p b) = replying Created (create_workflow E u p b)"
| "handle_request E u (GetWorkflow p i) = replying Workflow (get_workflow E u p i)"
| "handle_request E u (UpdateWorkflow p i b) = replying Workflow (update_workflow E u p i b)"
| "handle_request E u (DeleteWorkflow p i) = replying (\<lambda>_. NoContent) (delete_workflow E u p i)"
| "handle_request E u (CreateRun p i s) = replying Launched (create_run E u p i s)"
| "handle_request E u (ListProjectRuns p q) = replying Runs (list_project_runs E u p q)"
| "handle_request E u (ListSandboxRuns s q) = replying Runs (list_sandbox_runs E u s q)"
| "handle_request E u (GetRun i) = replying Run (get_run E u i)"
| "handle_request E u (CancelRun i) = replying (\<lambda>_. Accepted) (cancel_run E u i)"

text \<open>
  From empty tables, any requests of any users in any environments, new failures of the database
  to come, and the daily purge.
\<close>

definition empty_tables :: "'x wf_tables" where
  "empty_tables = \<lparr>tb_definitions = [], tb_workflows = [], tb_runs = [], tb_next_definition = 1, tb_next_workflow = 1, tb_next_run = 1\<rparr>"

inductive wf_reach :: "'x wf_world \<Rightarrow> bool" where
  empty: "wf_reach \<lparr>ww_db = \<lparr>db_tables = empty_tables, db_faults = fs\<rparr>, ww_calls = []\<rparr>"
| request: "wf_reach w \<Longrightarrow> wf_reach (snd (handle_request E u q w))"
| faults: "wf_reach w \<Longrightarrow> wf_reach (w\<lparr>ww_db := (ww_db w)\<lparr>db_faults := fs\<rparr>\<rparr>)"
| purge: "wf_reach w \<Longrightarrow> wf_reach (w\<lparr>ww_db := snd (purge_older_than minus_days days (ww_db w))\<rparr>)"

end
