(* ===== verification/WfStatusProps.thy ===== *)
theory WfStatusProps
  imports WfStatus
begin

text \<open>
  Identifiers cannot leave their literal in the SQL text, the grouped reading gives every run
  the status its own row gives, and the steps of a journal are its names with their entries.
\<close>

section \<open>The text of the queries\<close>

text \<open>
  How SQL reads a literal after its first quotation mark: a doubled mark stands for one, a single
  one ends it. Then a list of literals up to the closing parenthesis.
\<close>

fun sql_body :: "string \<Rightarrow> (string \<times> string) option" where
  "sql_body [] = None"
| "sql_body [c] = (if c = quote then Some ([], []) else None)"
| "sql_body (c # d # cs) =
     (if c \<noteq> quote then map_option (apfst ((#) c)) (sql_body (d # cs))
      else if d = quote then map_option (apfst ((#) quote)) (sql_body cs)
      else Some ([], d # cs))"

lemma sql_body_shorter: "sql_body s = Some (v, r) \<Longrightarrow> length r < length s"
  by (induction s arbitrary: v r rule: sql_body.induct) (auto split: if_splits simp: less_SucI)

function sql_values :: "string \<Rightarrow> string list option" where
  "sql_values s =
     (case strip_prefix [quote] s of
        None \<Rightarrow> None
      | Some t \<Rightarrow>
          (case sql_body t of
             None \<Rightarrow> None
           | Some (v, r) \<Rightarrow>
               if r = '')'' then Some [v]
               else (case strip_prefix '', '' r of None \<Rightarrow> None | Some u \<Rightarrow> map_option ((#) v) (sql_values u))))"
  by pat_completeness auto
termination
proof (relation "measure length", simp, clarsimp)
  fix s t v r u
  assume "strip_prefix [quote] s = Some t" "sql_body t = Some (v, r)" "strip_prefix '', '' r = Some u"
  then show "length u < length s" using sql_body_shorter [of t v r] by (auto simp: strip_prefix_Some_iff)
qed

declare sql_values.simps [simp del]

lemma sql_body_doubled:
  "hd (r @ [CHR ''x'']) \<noteq> quote \<Longrightarrow> sql_body (double_quotes i @ quote # r) = Some (i, r)"
proof (induction i)
  case Nil
  then show ?case by (cases r) auto
next
  case (Cons c i)
  show ?case
  proof (cases "c = quote")
    case True
    with Cons show ?thesis by simp
  next
    case False
    obtain d cs where "double_quotes i @ quote # r = d # cs" by (cases "double_quotes i") auto
    with Cons False show ?thesis by simp
  qed
qed

lemma sql_values_join: "sql_values (join_str '', '' (map quote_sql (i # ids)) @ '')'') = Some (i # ids)"
proof (induction ids arbitrary: i)
  case Nil
  show ?case using sql_body_doubled [of "'')''" i] by (subst sql_values.simps) (simp add: quote_sql_def)
next
  case (Cons j ids)
  have r: "sql_body (double_quotes i @ quote # CHR '','' # CHR '' '' # x) = Some (i, CHR '','' # CHR '' '' # x)" for x
    by (rule sql_body_doubled) simp
  have "sql_values (join_str '', '' (map quote_sql (i # j # ids)) @ '')'') =
    sql_values (quote # double_quotes i @ quote # '', '' @ join_str '', '' (map quote_sql (j # ids)) @ '')'')"
    by (simp add: quote_sql_def)
  also have "\<dots> = map_option ((#) i) (sql_values (join_str '', '' (map quote_sql (j # ids)) @ '')''))"
    by (subst sql_values.simps) (simp add: r del: join_str.simps list.map)
  finally show ?case using Cons by simp
qed

text \<open>
  No identifier can leave its place in a query. Whatever characters the identifiers hold, SQL
  reads the list of a grouped query as exactly these identifiers, in order, and the literal of a
  single query as the identifier.
\<close>

theorem sql_reads_identifiers:
  "statuses_query (i # ids) = invocation_columns @ ''IN ('' @ drop (length invocation_columns + 4) (statuses_query (i # ids)) \<and>
   sql_values (drop (length invocation_columns + 4) (statuses_query (i # ids))) = Some (i # ids) \<and>
   sql_body (tl (quote_sql i)) = Some (i, [])"
proof -
  have s: "statuses_query (i # ids) = invocation_columns @ ''IN ('' @ join_str '', '' (map quote_sql (i # ids)) @ '')''"
    by (simp only: statuses_query_def)
  have d: "drop (length invocation_columns + 4) (statuses_query (i # ids)) = join_str '', '' (map quote_sql (i # ids)) @ '')''"
    unfolding s by simp
  show ?thesis
    unfolding d using s sql_values_join [of i ids] sql_body_doubled [of "[]" i] by (simp add: quote_sql_def)
qed

section \<open>Grouped reading\<close>

lemma concat_chunks: "concat (chunks n xs) = xs"
proof (induction n xs rule: chunks.induct)
  case (2 n x xs)
  then show ?case by (cases n) (simp_all add: drop_Cons')
qed simp

lemma chunks_bounded: "0 < n \<Longrightarrow> g \<in> set (chunks n xs) \<Longrightarrow> g \<noteq> [] \<and> length g \<le> n"
proof (induction n xs rule: chunks.induct)
  case (2 n x xs)
  then show ?case by (auto simp: take_Cons' split: if_splits)
qed simp

lemma all_unknown_eq: "all_unknown ids = (\<lambda>i. if i \<in> set ids then Some (unknown_status i) else None)"
  unfolding all_unknown_def by (induction ids rule: rev_induct) auto

lemma foldl_add_row:
  "foldl add_row m rows i = (case List.find (\<lambda>r. ir_id r = i) (rev rows) of None \<Rightarrow> m i | Some r \<Rightarrow> Some (run_status_from r []))"
  by (induction rows rule: rev_induct) (auto simp: add_row_def)

lemma read_groups_error:
  "read_groups A gs m = Inl e \<Longrightarrow> \<exists>g \<in> set gs. invocation_rows A (statuses_query g) = Inl e"
  by (induction gs arbitrary: m) (auto split: sum.splits)

lemma foldl_add_row_dom: "dom m \<subseteq> dom (foldl add_row m rows)"
  by (auto simp: foldl_add_row split: option.split)

lemma read_groups_dom: "read_groups A gs m = Inr m' \<Longrightarrow> dom m \<subseteq> dom m'"
proof (induction gs arbitrary: m)
  case (Cons g gs)
  then obtain rows where "invocation_rows A (statuses_query g) = Inr rows" "read_groups A gs (foldl add_row m rows) = Inr m'"
    by (auto split: sum.splits)
  then show ?case using Cons.IH foldl_add_row_dom [of m rows] by blast
qed simp

text \<open>A table the engine answers from: the rows of a group are those of its identifiers.\<close>

definition answers_from :: "restate_admin \<Rightarrow> (string \<rightharpoonup> invocation_row) \<Rightarrow> string list \<Rightarrow> bool" where
  "answers_from A T g \<longleftrightarrow>
     (\<exists>rows. invocation_rows A (statuses_query g) = Inr rows \<and> set rows = {r. \<exists>i \<in> set g. T i = Some r})"

definition status_in :: "(string \<rightharpoonup> invocation_row) \<Rightarrow> string \<Rightarrow> run_status" where
  "status_in T i = (case T i of None \<Rightarrow> unknown_status i | Some r \<Rightarrow> run_status_from r [])"

lemma add_rows_of_table:
  assumes "\<forall>i r. T i = Some r \<longrightarrow> ir_id r = i" "set rows = {r. \<exists>i \<in> set g. T i = Some r}"
  shows "foldl add_row m rows i = (if i \<in> set g \<and> T i \<noteq> None then Some (status_in T i) else m i)"
proof (cases "List.find (\<lambda>r. ir_id r = i) (rev rows)")
  case None
  have "T i = None" if "i \<in> set g"
  proof (cases "T i")
    case (Some r)
    with assms that have "r \<in> set rows" "ir_id r = i" by auto
    with None show ?thesis by (auto simp: find_None_iff)
  qed
  then show ?thesis by (auto simp: foldl_add_row None)
next
  case (Some r)
  then obtain k where "k < length (rev rows)" "r = rev rows ! k" "ir_id r = i" by (auto simp: find_Some_iff)
  then have "r \<in> set rows" "ir_id r = i" using nth_mem [of k "rev rows"] by auto
  with assms have "i \<in> set g" "T i = Some r" by auto
  then show ?thesis by (simp add: foldl_add_row Some status_in_def)
qed

lemma read_groups_of_table:
  assumes "\<forall>i r. T i = Some r \<longrightarrow> ir_id r = i" "\<forall>g \<in> set gs. answers_from A T g"
  shows "read_groups A gs m = Inr (\<lambda>i. if i \<in> set (concat gs) \<and> T i \<noteq> None then Some (status_in T i) else m i)"
  using assms(2)
proof (induction gs arbitrary: m)
  case (Cons g gs)
  then obtain rows where rows: "invocation_rows A (statuses_query g) = Inr rows" "set rows = {r. \<exists>i \<in> set g. T i = Some r}"
    by (auto simp: answers_from_def)
  then show ?case using Cons add_rows_of_table [OF assms(1) rows(2)] by (auto simp: fun_eq_iff)
qed simp

text \<open>
  Reading the status of many runs at once is reading each of them. When the engine answers
  every group from one table, each identifier asked for gets what its own row says, or unknown
  if it has none, and no other identifier gets anything; groups hold at most fifty.
\<close>

theorem fetch_statuses_pointwise:
  assumes "\<forall>i r. T i = Some r \<longrightarrow> ir_id r = i" "\<forall>g \<in> set (chunks MAX_IDS_PER_QUERY ids). answers_from A T g"
  shows "(\<exists>m. fetch_statuses A ids = Inr m \<and> dom m = set ids \<and> (\<forall>i \<in> set ids. m i = Some (status_in T i))) \<and>
    (\<forall>g \<in> set (chunks MAX_IDS_PER_QUERY ids). length g \<le> 50) \<and> concat (chunks MAX_IDS_PER_QUERY ids) = ids"
proof -
  have "fetch_statuses A ids = Inr (\<lambda>i. if i \<in> set ids then Some (status_in T i) else None)"
    unfolding fetch_statuses_def read_groups_of_table [OF assms] concat_chunks
    by (auto simp: all_unknown_eq fun_eq_iff status_in_def)
  moreover have "dom (\<lambda>i. if i \<in> set ids then Some (status_in T i) else None) = set ids" by (auto split: if_splits)
  ultimately show ?thesis
    using chunks_bounded [of MAX_IDS_PER_QUERY _ ids] by (auto simp: concat_chunks MAX_IDS_PER_QUERY_def)
qed

definition no_rows :: restate_admin where
  "no_rows = \<lparr>ra_admin_url = ''http://restate:9070/'', ra_post = (\<lambda>url q. Inr (200, Inr [])), ra_patch = (\<lambda>_. Inr (202, Inr [])),
     ra_parse = (\<lambda>_. Some (JObj [(''rows'', JArr [JObj [(''id'', JStr ''a''), (''status'', JStr ''running'')]])])),
     ra_dates = (\<lambda>_. None), ra_millis = Some\<rparr>"

definition running_row :: invocation_row where
  "running_row = \<lparr>ir_id = ''a'', ir_status = ''running'', ir_created_at = None, ir_completed_at = None,
     ir_completion_result = None, ir_completion_failure = None, ir_last_failure = None\<rparr>"

theorem fetch_statuses_pointwise_witness:
  "\<exists>m. fetch_statuses no_rows [''a'', ''b''] = Inr m \<and>
     m ''a'' = Some (run_status_from running_row []) \<and> m ''b'' = Some (unknown_status ''b'')"
proof -
  let ?T = "[''a'' \<mapsto> running_row]"
  have T: "\<forall>i r. ?T i = Some r \<longrightarrow> ir_id r = i" by (auto simp: running_row_def split: if_splits)
  have c: "chunks MAX_IDS_PER_QUERY [''a'', ''b''] = [[''a'', ''b'']]" by (simp add: MAX_IDS_PER_QUERY_def)
  have "invocation_rows no_rows (statuses_query [''a'', ''b'']) = Inr [running_row]"
    by (simp add: invocation_rows_def query_rows_def no_rows_def is_success_def query_response_def struct_members_def
        members_named_def invocation_row_de_def defaulted_def running_row_def)
  then have "\<forall>g \<in> set (chunks MAX_IDS_PER_QUERY [''a'', ''b'']). answers_from no_rows ?T g"
    unfolding c by (auto simp: answers_from_def)
  from fetch_statuses_pointwise [OF T this] show ?thesis by (auto simp: status_in_def)
qed

text \<open>Without any assumption: an answer covers every run asked for, and an error is that of a query.\<close>

lemma fetch_statuses_total:
  "case fetch_statuses A ids of
     Inl e \<Rightarrow> \<exists>g \<in> set (chunks MAX_IDS_PER_QUERY ids). invocation_rows A (statuses_query g) = Inl e
   | Inr m \<Rightarrow> set ids \<subseteq> dom m"
proof (cases "fetch_statuses A ids")
  case (Inl e)
  then show ?thesis using read_groups_error by (auto simp: fetch_statuses_def)
next
  case (Inr m)
  then have "dom (all_unknown ids) \<subseteq> dom m" using read_groups_dom by (auto simp: fetch_statuses_def)
  then show ?thesis using Inr by (auto simp: all_unknown_eq split: if_splits)
qed

section \<open>Steps\<close>

lemma group_rows_snoc:
  "group_rows (rows @ [r]) = (case jo_name r of None \<Rightarrow> group_rows rows
     | Some n \<Rightarrow> bt_insert n ((case map_of (group_rows rows) n of None \<Rightarrow> [] | Some rs \<Rightarrow> rs) @ [r]) (group_rows rows))"
  unfolding group_rows_def by (simp split: option.split)

lemma group_rows_ok: "bt_ok (group_rows rows)"
  by (induction rows rule: rev_induct) (auto simp: group_rows_snoc group_rows_def split: option.split)

lemma group_rows_lookup:
  "map_of (group_rows rows) n =
     (let rs = filter (\<lambda>r. jo_name r = Some n) rows in if rs = [] then None else Some rs)"
  by (induction rows arbitrary: n rule: rev_induct) (auto simp: group_rows_snoc Let_def group_rows_def split: option.split)

lemma group_rows_names: "map fst (group_rows rows) = sorted_list_of_set {n. \<exists>r \<in> set rows. jo_name r = Some n}"
proof -
  have "fst ` set (group_rows rows) = dom (map_of (group_rows rows))" by (simp add: dom_map_of_conv_image_fst)
  also have "\<dots> = {n. \<exists>r \<in> set rows. jo_name r = Some n}"
    by (auto simp: group_rows_lookup Let_def filter_empty_conv split: if_splits)
  finally have "set (map fst (group_rows rows)) = {n. \<exists>r \<in> set rows. jo_name r = Some n}" by simp
  moreover have "sorted_list_of_set (set (map fst (group_rows rows))) = map fst (group_rows rows)"
    using group_rows_ok [of rows] by (intro sorted_list_of_set.idem_if_sorted_distinct) (auto simp: bt_ok_def strict_sorted_iff)
  ultimately show ?thesis by simp
qed

lemma foldl_min_Min: "ts \<noteq> [] \<Longrightarrow> foldl min (hd ts) ts = Min (set ts)" for ts :: "int list"
proof -
  have "(\<lambda>x s. min s x) = (min :: int \<Rightarrow> int \<Rightarrow> int)" by (auto simp: fun_eq_iff min.commute)
  then have "foldl min a ts = Min (set (a # ts))" for a by (simp only: foldl_conv_fold Min.set_eq_fold)
  then show "ts \<noteq> [] \<Longrightarrow> ?thesis" by (simp add: insert_absorb)
qed

lemma foldl_max_Max: "ts \<noteq> [] \<Longrightarrow> foldl max (hd ts) ts = Max (set ts)" for ts :: "int list"
proof -
  have "(\<lambda>x s. max s x) = (max :: int \<Rightarrow> int \<Rightarrow> int)" by (auto simp: fun_eq_iff max.commute)
  then have "foldl max a ts = Max (set (a # ts))" for a by (simp only: foldl_conv_fold Max.set_eq_fold)
  then show "ts \<noteq> [] \<Longrightarrow> ?thesis" by (simp add: insert_absorb)
qed

text \<open>
  The steps of a run are the names of its journal, each once and in order; a step has succeeded
  if one of its entries is completed, else it runs; it begins with its first entry and, when
  completed, ends with its last.
\<close>

definition times_of :: "string \<Rightarrow> journal_row list \<Rightarrow> int set" where
  "times_of n rows = {t. \<exists>r \<in> set rows. jo_name r = Some n \<and> jo_appended_at r = Some t}"

lemma derive_steps_names: "map ss_step_id (derive_steps rows) = sorted_list_of_set {n. \<exists>r \<in> set rows. jo_name r = Some n}"
  using group_rows_names [of rows] by (simp add: derive_steps_def step_of_def Let_def comp_def)

lemma derive_steps_fields:
  assumes "s \<in> set (derive_steps rows)"
  shows "ss_state s = (if \<exists>r \<in> set rows. jo_name r = Some (ss_step_id s) \<and> jo_completed r = Some True then RunSucceeded else RunRunning) \<and>
    ss_started_at s = (if times_of (ss_step_id s) rows = {} then None else Some (Min (times_of (ss_step_id s) rows))) \<and>
    ss_ended_at s = (if ss_state s = RunRunning \<or> times_of (ss_step_id s) rows = {} then None
      else Some (Max (times_of (ss_step_id s) rows)))"
proof -
  from assms obtain n rs where s: "s = step_of (n, rs)" "(n, rs) \<in> set (group_rows rows)" by (auto simp: derive_steps_def)
  then have rs: "rs = filter (\<lambda>r. jo_name r = Some n) rows"
    using group_rows_lookup [of rows n] bt_ok_distinct [OF group_rows_ok [of rows]] by (auto simp: Let_def split: if_splits)
  have t: "set (List.map_filter jo_appended_at rs) = times_of n rows"
    by (auto simp: rs times_of_def List.map_filter_def intro: rev_image_eqI)
  then have "List.map_filter jo_appended_at rs = [] \<longleftrightarrow> times_of n rows = {}" by (metis set_empty)
  with t show ?thesis
    by (simp add: s(1) step_of_def Let_def opt_min_def opt_max_def foldl_min_Min foldl_max_Max)
      (auto simp: rs)
qed

text \<open>
  A timestamp that is neither text nor a signed integer is an error of the whole answer: one such
  row takes the statuses of all runs asked for with it.
\<close>

lemma odd_timestamp_fails:
  assumes "ra_post A (trim_slashes (ra_admin_url A) @ ''/query'') (statuses_query ids) = Inr (200, Inr text)"
    and "ra_parse A text = Some (JObj [(''rows'', JArr [JObj [(''id'', JStr i), (''created_at'', JBool b)]])])"
    and "ids \<noteq> []" "length ids \<le> 50"
  shows "fetch_statuses A ids = Inl (Serialization text)"
proof -
  have "chunks MAX_IDS_PER_QUERY ids = [ids]" using assms(3,4) by (cases ids) (simp_all add: MAX_IDS_PER_QUERY_def)
  then show ?thesis
    using assms(1,2)
    by (simp add: fetch_statuses_def invocation_rows_def query_rows_def is_success_def query_response_def struct_members_def
        members_named_def invocation_row_de_def defaulted_def de_opt_ts_def)
qed

end
