(* ===== verification/WfTables.thy ===== *)
theory WfTables
  imports WfRunsApi WfStatusProps
begin

text \<open>
  What the requests make of the tables: each request of a user is one abstract step on the rows
  of that user or none at all, and the steps keep the invariant of the tables.
\<close>

section \<open>Abstract steps\<close>

definition kinds_allowed :: "'x wf_step list \<Rightarrow> run_scope \<Rightarrow> bool" where
  "kinds_allowed steps scope \<longleftrightarrow> (\<forall>s \<in> set steps. sd_kind s \<in> set (allowed_kinds scope))"

definition scope_ok :: "string \<Rightarrow> 'x wf_step list \<Rightarrow> bool" where
  "scope_ok scope steps \<longleftrightarrow> (\<exists>s. parse_scope scope = Inr s \<and> kinds_allowed steps s)"

definition add_workflow :: "int \<Rightarrow> string \<Rightarrow> string \<Rightarrow> string \<Rightarrow> string option \<Rightarrow> 'x wf_step list \<Rightarrow> 'x wf_tables \<Rightarrow> 'x wf_tables" where
  "add_workflow u project name scope description steps t =
     t\<lparr>tb_definitions := tb_definitions t @
         [\<lparr>df_id = tb_next_definition t, df_name = name, df_steps = steps, df_owner = Some u\<rparr>],
       tb_next_definition := tb_next_definition t + 1,
       tb_workflows := tb_workflows t @
         [\<lparr>pw_id = tb_next_workflow t, pw_owner = u, pw_project = project, pw_definition = tb_next_definition t,
           pw_scope = scope, pw_description = description\<rparr>],
       tb_next_workflow := tb_next_workflow t + 1\<rparr>"

definition change_workflow :: "project_workflow \<Rightarrow> 'x wf_step list option \<Rightarrow> string option \<Rightarrow> 'x wf_tables \<Rightarrow> 'x wf_tables" where
  "change_workflow a steps description t =
     t\<lparr>tb_definitions := map (set_steps (pw_definition a) steps) (tb_definitions t),
       tb_workflows := map (set_description (pw_id a) description) (tb_workflows t)\<rparr>"

definition remove_workflow :: "project_workflow \<Rightarrow> 'x wf_tables \<Rightarrow> 'x wf_tables" where
  "remove_workflow a t =
     t\<lparr>tb_definitions := filter (\<lambda>d. df_id d \<noteq> pw_definition a) (tb_definitions t),
       tb_workflows := filter (\<lambda>w. pw_id w \<noteq> pw_id a \<and> pw_definition w \<noteq> pw_definition a) (tb_workflows t),
       tb_runs := map (forget_definition (pw_definition a)) (tb_runs t)\<rparr>"

definition add_run :: "workflow_run \<Rightarrow> 'x wf_tables \<Rightarrow> 'x wf_tables" where
  "add_run r t = t\<lparr>tb_runs := tb_runs t @ [r\<lparr>wr_id := tb_next_run t\<rparr>], tb_next_run := tb_next_run t + 1\<rparr>"

inductive tables_step :: "int \<Rightarrow> 'x wf_tables \<Rightarrow> 'x wf_tables \<Rightarrow> bool" for u where
  same: "tables_step u t t"
| created: "name \<notin> df_name ` set (tb_definitions t) \<Longrightarrow> scope_ok scope steps \<Longrightarrow>
    tables_step u t (add_workflow u project name scope description steps t)"
| changed: "find_workflow u project i t = Some a \<Longrightarrow> (\<forall>ss. steps = Some ss \<longrightarrow> scope_ok (pw_scope a) ss) \<Longrightarrow>
    tables_step u t (change_workflow a steps description t)"
| removed: "find_workflow u project i t = Some a \<Longrightarrow> tables_step u t (remove_workflow a t)"
| launched: "find_workflow u project i t = Some a \<Longrightarrow> find_definition (pw_definition a) t = Some d \<Longrightarrow>
    wr_run_id r \<notin> wr_run_id ` set (tb_runs t) \<Longrightarrow> wr_invocation_id r \<notin> wr_invocation_id ` set (tb_runs t) \<Longrightarrow>
    wr_owner r = u \<Longrightarrow> wr_definition r = Some (pw_definition a) \<Longrightarrow> wr_scope r = pw_scope a \<Longrightarrow>
    launch_sandbox s req = Inr (wr_sandbox r) \<Longrightarrow> parse_scope (pw_scope a) = Inr s \<Longrightarrow>
    tables_step u t (add_run r t)"

inductive_cases tables_stepE: "tables_step u t t'"

section \<open>Every request is such a step\<close>

lemma validate_kinds_ok: "validate_kinds steps scope = Inr () \<longleftrightarrow> kinds_allowed steps scope"
  by (auto simp: validate_kinds_def kinds_allowed_def find_None_iff find_Some_iff split: option.split)

lemma as_owner_cases:
  assumes "as_owner E user missing f w = (r, w')"
  obtains (refused) e where "r = Inl e" "w' = w"
  | (without_owner) "r = missing" "w' = w"
  | (owner) runtime u owner where "engine E = Inr runtime" "owner_context E user = Inr (Some (u, owner))" "f runtime u owner w = (r, w')"
  using assms by (auto simp: as_owner_def split: sum.splits option.splits prod.splits)

lemma owner_context_id: "owner_context E user = Inr (Some (u, owner)) \<Longrightarrow> en_user_id E user = Inr u"
  by (auto simp: owner_context_def split: sum.splits)

lemma on_db_eq: "on_db m w = (r, w') \<longleftrightarrow> (\<exists>d. m (ww_db w) = (r, d) \<and> w' = w\<lparr>ww_db := d\<rparr>)"
  by (auto simp: on_db_def split: prod.splits)

definition keeps_tables :: "('x, 'a) db_action \<Rightarrow> bool" where
  "keeps_tables m \<longleftrightarrow> (\<forall>d. db_tables (snd (m d)) = db_tables d)"

lemma keeps_tables_reading [simp, intro]: "keeps_tables (query (reading g))"
  by (auto simp: keeps_tables_def) (metis prod.collapse query_reading)

lemma keeps_tables_give [simp, intro]: "keeps_tables (give r)"
  by (simp add: keeps_tables_def give_def)

lemma keeps_tables_and_then [intro]: "keeps_tables m \<Longrightarrow> (\<And>a. keeps_tables (f a)) \<Longrightarrow> keeps_tables (and_then m f)"
  by (auto simp: keeps_tables_def and_then_def split: prod.split sum.split) (metis snd_conv)+

lemma keeps_tablesD: "keeps_tables m \<Longrightarrow> m d = (r, d') \<Longrightarrow> db_tables d' = db_tables d"
  by (metis keeps_tables_def snd_conv)

lemma load_owned_keeps [simp]: "keeps_tables (load_owned u p i)"
  unfolding load_owned_def by (intro keeps_tables_and_then) (auto split: option.split intro!: keeps_tables_and_then)

lemma load_owned_Inr:
  assumes "load_owned u p i d = (Inr (a, df), d')"
  shows "find_workflow u p i (db_tables d) = Some a" "find_definition (pw_definition a) (db_tables d) = Some df"
  using assms unfolding load_owned_def
  by (auto simp: and_then_Inr split: option.splits dest!: query_reading)

lemma find_workflow_Some:
  "find_workflow u p i t = Some a \<Longrightarrow> a \<in> set (tb_workflows t) \<and> pw_id a = i \<and> pw_owner a = u \<and> pw_project a = p"
  by (auto simp: find_workflow_def find_Some_iff)

lemma find_definition_Some: "find_definition i t = Some d \<Longrightarrow> d \<in> set (tb_definitions t) \<and> df_id d = i"
  by (auto simp: find_definition_def find_Some_iff)

lemma create_db_step:
  assumes "create_workflow_db E user u owner project body d = (r, d')"
  shows "case r of Inl _ \<Rightarrow> db_tables d' = db_tables d
    | Inr v \<Rightarrow> full_name owner project (cb_name body) \<notin> df_name ` set (tb_definitions (db_tables d)) \<and>
        scope_ok (cb_scope body) (cb_steps body) \<and>
        db_tables d' = add_workflow u project (full_name owner project (cb_name body)) (cb_scope body) (cb_description body)
          (cb_steps body) (db_tables d) \<and>
        v = detail (last (tb_workflows (db_tables d'))) (last (tb_definitions (db_tables d'))) owner project"
proof (cases r)
  case (Inl e)
  with assms show ?thesis
    unfolding create_workflow_db_def Let_def
    by (auto simp: and_then_Inl dest!: transaction_cases)
next
  case (Inr v)
  with assms obtain s d1 where s: "parse_scope (cb_scope body) = Inr s" "validate_kinds (cb_steps body) s = Inr ()"
    and t: "transaction
         (and_then (query (reading (\<lambda>t. \<exists>d \<in> set (tb_definitions t). df_owner d = Some u \<and>
              df_name d = full_name owner project (cb_name body)))) (\<lambda>taken.
            if taken then give (Inl (WorkflowNameTaken (cb_name body)))
            else and_then (query (insert_definition (full_name owner project (cb_name body)) (cb_steps body) (Some u))) (\<lambda>definition'.
              and_then (query (insert_workflow u project (df_id definition') (cb_scope body) (cb_description body))) (\<lambda>attach_id.
                give (Inr (detail \<lparr>pw_id = attach_id, pw_owner = u, pw_project = project, pw_definition = df_id definition',
                    pw_scope = cb_scope body, pw_description = cb_description body\<rparr> definition' owner project)))))) d = (Inr v, d')"
    unfolding create_workflow_db_def Let_def by (auto simp: and_then_Inr)
  let ?name = "full_name owner project (cb_name body)"
  let ?t = "db_tables d"
  from transaction_cases [OF t] obtain d1 d2 where d: "db_tables d1 = ?t" "db_tables d' = db_tables d2" and
    b: "and_then (query (reading (\<lambda>t. \<exists>d \<in> set (tb_definitions t). df_owner d = Some u \<and> df_name d = ?name))) (\<lambda>taken.
            if taken then give (Inl (WorkflowNameTaken (cb_name body)))
            else and_then (query (insert_definition ?name (cb_steps body) (Some u))) (\<lambda>definition'.
              and_then (query (insert_workflow u project (df_id definition') (cb_scope body) (cb_description body))) (\<lambda>attach_id.
                give (Inr (detail \<lparr>pw_id = attach_id, pw_owner = u, pw_project = project, pw_definition = df_id definition',
                    pw_scope = cb_scope body, pw_description = cb_description body\<rparr> definition' owner project))))) d1 = (Inr v, d2)"
    by auto
  from b obtain d3 d4 row aid where
    q: "query (reading (\<lambda>t. \<exists>d \<in> set (tb_definitions t). df_owner d = Some u \<and> df_name d = ?name)) d1 = (Inr False, d3)"
      "query (insert_definition ?name (cb_steps body) (Some u)) d3 = (Inr row, d4)"
      "query (insert_workflow u project (df_id row) (cb_scope body) (cb_description body)) d4 = (Inr aid, d2)"
    and v: "v = detail \<lparr>pw_id = aid, pw_owner = u, pw_project = project, pw_definition = df_id row,
        pw_scope = cb_scope body, pw_description = cb_description body\<rparr> row owner project"
    by (auto simp: and_then_Inr split: if_splits)
  have t3: "db_tables d3 = ?t" using query_reading [OF q(1)] d(1) by simp
  from query_cases [OF q(2)] have row: "?name \<notin> df_name ` set (tb_definitions ?t)"
      "row = \<lparr>df_id = tb_next_definition ?t, df_name = ?name, df_steps = cb_steps body, df_owner = Some u\<rparr>"
      "db_tables d4 = ?t\<lparr>tb_definitions := tb_definitions ?t @ [row], tb_next_definition := tb_next_definition ?t + 1\<rparr>"
    by (auto simp: t3 insert_definition_def Let_def split: if_splits)
  from query_cases [OF q(3)] have at: "aid = tb_next_workflow ?t"
      "db_tables d2 = add_workflow u project ?name (cb_scope body) (cb_description body) (cb_steps body) ?t"
    by (auto simp: row insert_workflow_def add_workflow_def split: if_splits)
  have "scope_ok (cb_scope body) (cb_steps body)" using s validate_kinds_ok by (auto simp: scope_ok_def)
  then show ?thesis by (simp add: Inr d(2) at row v) (simp add: add_workflow_def)
qed

text \<open>The others, as far as the tables go; \<open>r\<close> is the reply and \<open>t'\<close> the tables after it.\<close>

definition tables_effect :: "int \<Rightarrow> 'x wf_tables \<Rightarrow> app_error + 'a \<Rightarrow> 'x wf_tables \<Rightarrow> bool" where
  "tables_effect u t r t' \<longleftrightarrow> (case r of Inl _ \<Rightarrow> t' = t | Inr _ \<Rightarrow> tables_step u t t')"

lemma tables_effect_same [simp]: "tables_effect u t r t"
  by (simp add: tables_effect_def same split: sum.split)

lemma tables_effect_keeps: "keeps_tables m \<Longrightarrow> m d = (r, d') \<Longrightarrow> tables_effect u (db_tables d) r (db_tables d')"
  using keeps_tablesD by fastforce

lemma load_then:
  assumes "and_then (load_owned u p i) f d = (r, d')"
    and "\<And>a df d1. find_workflow u p i (db_tables d) = Some a \<Longrightarrow> find_definition (pw_definition a) (db_tables d) = Some df \<Longrightarrow>
      db_tables d1 = db_tables d \<Longrightarrow> f (a, df) d1 = (r, d') \<Longrightarrow> tables_effect u (db_tables d) r (db_tables d')"
  shows "tables_effect u (db_tables d) r (db_tables d')"
proof (cases "load_owned u p i d")
  case (Pair lr d1)
  have t: "db_tables d1 = db_tables d" using keeps_tablesD [OF load_owned_keeps Pair] .
  show ?thesis
  proof (cases lr)
    case (Inl e)
    with Pair assms(1) t show ?thesis by (auto simp: and_then_def)
  next
    case (Inr ad)
    obtain a df where ad: "ad = (a, df)" by (cases ad)
    with Pair Inr have l: "load_owned u p i d = (Inr (a, df), d1)" by simp
    from assms(2) [OF load_owned_Inr [OF l] t] assms(1) l show ?thesis by (simp add: and_then_def)
  qed
qed

lemma transaction_effect:
  assumes "transaction body d = (r, d')"
    and "\<And>v d1 d2. db_tables d1 = db_tables d \<Longrightarrow> body d1 = (Inr v, d2) \<Longrightarrow> tables_step u (db_tables d) (db_tables d2)"
  shows "tables_effect u (db_tables d) r (db_tables d')"
  using transaction_cases [OF assms(1)] assms(2) by (auto simp: tables_effect_def split: sum.splits)

lemma update_effect:
  assumes "and_then (load_owned u p i) (\<lambda>(a, d).
          if ub_scope body \<noteq> None then give (Inl WorkflowScopeNotEditable)
          else and_then (give (parse_scope (pw_scope a))) (\<lambda>scope.
            and_then (give (case ub_steps body of None \<Rightarrow> Inr ()
                | Some steps \<Rightarrow> (case validate_dag E steps user of Inl e \<Rightarrow> Inl e | Inr _ \<Rightarrow> validate_kinds steps scope))) (\<lambda>_.
              transaction
                (and_then (query (update_definition (df_id d) (ub_steps body))) (\<lambda>d'.
                 and_then (query (update_workflow_row (pw_id a) (ub_description body))) (\<lambda>a'.
                   give (Inr (detail a' d' owner project)))))))) d = (r, d')"
  shows "tables_effect u (db_tables d) r (db_tables d')"
proof (rule load_then [OF assms])
  fix a df and d1 :: "'a wf_db"
  let ?t = "db_tables d"
  assume a: "find_workflow u p i ?t = Some a" and df: "find_definition (pw_definition a) ?t = Some df" and t: "db_tables d1 = ?t"
  let ?body = "and_then (query (update_definition (df_id df) (ub_steps body))) (\<lambda>d'.
                 and_then (query (update_workflow_row (pw_id a) (ub_description body))) (\<lambda>a'.
                   give (Inr (detail a' d' owner project))))"
  assume "(case (a, df) of (a, d) \<Rightarrow>
          if ub_scope body \<noteq> None then give (Inl WorkflowScopeNotEditable)
          else and_then (give (parse_scope (pw_scope a))) (\<lambda>scope.
            and_then (give (case ub_steps body of None \<Rightarrow> Inr ()
                | Some steps \<Rightarrow> (case validate_dag E steps user of Inl e \<Rightarrow> Inl e | Inr _ \<Rightarrow> validate_kinds steps scope))) (\<lambda>_.
              transaction
                (and_then (query (update_definition (df_id d) (ub_steps body))) (\<lambda>d'.
                 and_then (query (update_workflow_row (pw_id a) (ub_description body))) (\<lambda>a'.
                   give (Inr (detail a' d' owner project)))))))) d1 = (r, d')"
  then consider "d' = d1" | s where "parse_scope (pw_scope a) = Inr s" "transaction ?body d1 = (r, d')"
      "\<forall>ss. ub_steps body = Some ss \<longrightarrow> validate_kinds ss s = Inr ()"
    by (auto simp: and_then_def give_def split: if_splits sum.splits option.splits)
  then show "tables_effect u ?t r (db_tables d')"
  proof cases
    case 1
    with t show ?thesis by simp
  next
    case 2
    have i: "df_id df = pw_definition a" using find_definition_Some [OF df] by simp
    show ?thesis unfolding t [symmetric]
    proof (rule transaction_effect [OF 2(2)])
      fix v e1 e2
      assume e1: "db_tables e1 = db_tables d1" and "?body e1 = (Inr v, e2)"
      then obtain x y e3 where q: "query (update_definition (df_id df) (ub_steps body)) e1 = (Inr x, e3)"
        "query (update_workflow_row (pw_id a) (ub_description body)) e3 = (Inr y, e2)"
        by (auto simp: and_then_Inr)
      have e3: "db_tables e3 = ?t\<lparr>tb_definitions := map (set_steps (pw_definition a) (ub_steps body)) (tb_definitions ?t)\<rparr>"
        using query_cases [OF q(1)] by (auto simp: update_definition_def Let_def e1 t i split: option.splits)
      have "db_tables e2 = change_workflow a (ub_steps body) (ub_description body) ?t"
        using query_cases [OF q(2)]
        by (auto simp: update_workflow_row_def Let_def e3 change_workflow_def split: option.splits)
      moreover have "\<forall>ss. ub_steps body = Some ss \<longrightarrow> scope_ok (pw_scope a) ss"
        using 2(1,3) by (auto simp: scope_ok_def validate_kinds_ok)
      ultimately show "tables_step u (db_tables d1) (db_tables e2)" using changed [OF a] by (simp add: t)
    qed
  qed
qed

lemma delete_effect:
  assumes "and_then (load_owned u p i) (\<lambda>(a, d).
          transaction
            (and_then (query (delete_workflow_row (pw_id a))) (\<lambda>_.
             and_then (query (delete_definition (df_id d))) (\<lambda>_.
               query (clear_definition (df_id d)))))) d = (r, d')"
  shows "tables_effect u (db_tables d) r (db_tables d')"
proof (rule load_then [OF assms])
  fix a df and d1 :: "'a wf_db"
  let ?t = "db_tables d"
  assume a: "find_workflow u p i ?t = Some a" and df: "find_definition (pw_definition a) ?t = Some df" and t: "db_tables d1 = ?t"
  let ?body = "and_then (query (delete_workflow_row (pw_id a))) (\<lambda>_.
             and_then (query (delete_definition (df_id df))) (\<lambda>_. query (clear_definition (df_id df))))"
  assume "(case (a, df) of (a, d) \<Rightarrow>
          transaction
            (and_then (query (delete_workflow_row (pw_id a))) (\<lambda>_.
             and_then (query (delete_definition (df_id d))) (\<lambda>_.
               query (clear_definition (df_id d)))))) d1 = (r, d')"
  then have tr: "transaction ?body d1 = (r, d')" by simp
  have i: "df_id df = pw_definition a" using find_definition_Some [OF df] by simp
  show "tables_effect u ?t r (db_tables d')" unfolding t [symmetric]
  proof (rule transaction_effect [OF tr])
    fix v e1 e2
    assume e1: "db_tables e1 = db_tables d1" and "?body e1 = (Inr v, e2)"
    then obtain x y e3 e4 where q: "query (delete_workflow_row (pw_id a)) e1 = (Inr x, e3)"
      "query (delete_definition (df_id df)) e3 = (Inr y, e4)" "query (clear_definition (df_id df)) e4 = (Inr v, e2)"
      by (auto simp: and_then_Inr)
    have twice: "forget_definition j \<circ> forget_definition j = forget_definition j" for j
      by (auto simp: forget_definition_def fun_eq_iff)
    have e3: "db_tables e3 = ?t\<lparr>tb_workflows := filter (\<lambda>w. pw_id w \<noteq> pw_id a) (tb_workflows ?t)\<rparr>"
      using query_cases [OF q(1)] by (simp add: delete_workflow_row_def e1 t)
    have e4: "db_tables e4 = remove_workflow a ?t"
      using query_cases [OF q(2)] by (simp add: delete_definition_def e3 i remove_workflow_def conj_commute)
    have "db_tables e2 = db_tables e4\<lparr>tb_runs := map (forget_definition (pw_definition a)) (tb_runs (db_tables e4))\<rparr>"
      using query_cases [OF q(3)] by (simp add: clear_definition_def i)
    then have "db_tables e2 = remove_workflow a ?t"
      unfolding e4 remove_workflow_def by (simp add: twice)
    then show "tables_step u (db_tables d1) (db_tables e2)" using removed [OF a] by (simp add: t)
  qed
qed

lemma keeps_tables_case: "(\<And>a. keeps_tables (f a)) \<Longrightarrow> keeps_tables (\<lambda>d. case r of Inl e \<Rightarrow> (Inl (h e), d) | Inr a \<Rightarrow> f a d)"
  by (auto simp: keeps_tables_def split: sum.split)

lemma list_runs_keeps: "keeps_tables (list_runs E u project sandbox limit since)"
proof -
  have "keeps_tables (\<lambda>d. list_runs E u project sandbox limit since d)"
    unfolding list_runs_def
    by (rule keeps_tables_case [where h = "\<lambda>e. e"], rule keeps_tables_case,
        intro keeps_tables_and_then keeps_tables_reading keeps_tables_give)
  then show ?thesis by simp
qed

lemma find_run_keeps: "keeps_tables (find_run u run_id)"
  unfolding find_run_def by (intro keeps_tables_and_then keeps_tables_reading keeps_tables_give)

lemma delete_run_jobs_db: "ww_db (snd (delete_run_jobs E owner user r w)) = ww_db w"
  by (simp add: delete_run_jobs_def call_made_def Let_def split: option.split sum.split)

lemma call_made_db [simp]: "ww_db (call_made c w) = ww_db w"
  by (simp add: call_made_def)

lemma launch_effect:
  assumes "launch_workflow E user project i sandbox triggered_by w = (r, w')"
  shows "db_tables (ww_db w') = db_tables (ww_db w) \<or>
    (\<exists>u v. en_user_id E user = Inr u \<and> r = Inr v \<and> tables_step u (db_tables (ww_db w)) (db_tables (ww_db w')))"
  using assms unfolding launch_workflow_def
proof (cases rule: as_owner_cases)
  case (owner runtime u owner)
  let ?t = "db_tables (ww_db w)"
  obtain lr d where l: "load_owned u project i (ww_db w) = (lr, d)" by fastforce
  have t: "db_tables d = ?t" using keeps_tablesD [OF load_owned_keeps l] .
  show ?thesis
  proof (cases lr)
    case (Inl e)
    with owner(3) l t show ?thesis by auto
  next
    case (Inr ad)
    obtain a df where ad: "ad = (a, df)" by (cases ad)
    with l Inr have l': "load_owned u project i (ww_db w) = (Inr (a, df), d)" by simp
    note found = load_owned_Inr [OF l']
    show ?thesis
    proof (cases "prepare_launch E user u owner project sandbox triggered_by (a, df)")
      case (Inl e)
      with owner(3) l' t show ?thesis by auto
    next
      case (Inr sd)
      then obtain s where s: "parse_scope (pw_scope a) = Inr s" "launch_sandbox s sandbox = Inr (fst sd)"
        by (auto simp: prepare_launch_def split: sum.splits workflow_error.splits)
      have tr: "trigger_and_index E u project triggered_by (a, df) sd (w\<lparr>ww_db := d\<rparr>) = (r, w')"
        using owner(3) l' Inr by simp
      show ?thesis
      proof (cases "en_trigger E (snd sd)")
        case (Inl e)
        with tr t show ?thesis by (auto simp: trigger_and_index_def)
      next
        case (Inr handle)
        let ?row = "\<lparr>wr_id = 0, wr_owner = u, wr_project = project, wr_sandbox = fst sd,
                 wr_definition = Some (pw_definition a), wr_definition_name = df_name df,
                 wr_run_id = en_new_uuid E, wr_run_key = rh_run_key handle, wr_invocation_id = rh_invocation_id handle,
                 wr_scope = pw_scope a, wr_triggered_by = triggered_by, wr_started_at = en_now E\<rparr>"
        obtain x d' where x: "execute (insert_run ?row) d = (x, d')" by fastforce
        show ?thesis
        proof (cases x)
          case (Inl e)
          then have "db_tables d' = ?t" using execute_cases [OF x] t by simp
          with tr Inr x Inl show ?thesis by (auto simp: trigger_and_index_def Let_def call_made_def)
        next
          case xr: (Inr y)
          have f: "wr_run_id ?row \<notin> wr_run_id ` set (tb_runs ?t)" "wr_invocation_id ?row \<notin> wr_invocation_id ` set (tb_runs ?t)"
            and d': "db_tables d' = add_run ?row ?t"
            using execute_cases [OF x] xr t by (auto simp: insert_run_def add_run_def split: if_splits)
          have "tables_step u ?t (add_run ?row ?t)"
            by (rule launched [OF found f, where s = s and req = sandbox]) (simp_all add: s)
          moreover have "w' = (call_made (Triggered (snd sd) handle) (w\<lparr>ww_db := d\<rparr>))\<lparr>ww_db := d'\<rparr>" "\<exists>v. r = Inr v"
            using tr Inr x xr by (auto simp: trigger_and_index_def Let_def call_made_def)
          ultimately show ?thesis using owner_context_id [OF owner(2)] d' by auto
        qed
      qed
    qed
  qed
qed auto

lemma on_db_effect:
  assumes "as_owner E user missing (\<lambda>rt u owner. on_db (m rt u owner)) w = (r, w')"
    and "\<And>rt u owner d. engine E = Inr rt \<Longrightarrow> m rt u owner (ww_db w) = (r, d) \<Longrightarrow> tables_effect u (db_tables (ww_db w)) r (db_tables d)"
  shows "db_tables (ww_db w') = db_tables (ww_db w) \<or>
    (\<exists>u v. en_user_id E user = Inr u \<and> r = Inr v \<and> tables_step u (db_tables (ww_db w)) (db_tables (ww_db w')))"
  using assms(1)
proof (cases rule: as_owner_cases)
  case (owner rt u owner)
  then obtain d where d: "m rt u owner (ww_db w) = (r, d)" "w' = w\<lparr>ww_db := d\<rparr>" by (auto simp: on_db_eq)
  from assms(2) [OF owner(1) d(1)] d(2) owner_context_id [OF owner(2)] show ?thesis
    by (auto simp: tables_effect_def split: sum.splits)
qed auto

lemma on_db_keeps:
  assumes "as_owner E user missing (\<lambda>rt u owner. on_db (m rt u owner)) w = (r, w')"
    and "\<And>rt u owner. keeps_tables (m rt u owner)"
  shows "db_tables (ww_db w') = db_tables (ww_db w)"
  using assms(1)
proof (cases rule: as_owner_cases)
  case (owner rt u owner)
  then show ?thesis using keeps_tablesD [OF assms(2)] by (auto simp: on_db_eq)
qed auto

lemma cancel_keeps:
  assumes "cancel_run E user run_id w = (r, w')"
  shows "db_tables (ww_db w') = db_tables (ww_db w)"
  using assms unfolding cancel_run_def
proof (cases rule: as_owner_cases)
  case (owner rt u owner)
  obtain x d where x: "find_run u run_id (ww_db w) = (x, d)" by fastforce
  then have "db_tables d = db_tables (ww_db w)" using keeps_tablesD [OF find_run_keeps] by blast
  moreover have "ww_db w' = d"
    using owner(3) x
    by (auto simp: Let_def delete_run_jobs_db split: sum.splits if_splits)
  ultimately show ?thesis by simp
qed auto

lemma replying_eq: "replying f h w = (r, w') \<longleftrightarrow> (\<exists>x. h w = (x, w') \<and> r = map_sum id f x)"
  by (cases "h w") (auto simp: replying_def)

lemma handle_request_step:
  assumes "handle_request E user q w = (r, w')"
  shows "db_tables (ww_db w') = db_tables (ww_db w) \<or>
    (\<exists>u v. en_user_id E user = Inr u \<and> r = Inr v \<and> tables_step u (db_tables (ww_db w)) (db_tables (ww_db w')))"
proof (cases q)
  case (ListWorkflows p)
  with assms obtain x where x: "list_workflows E user p w = (x, w')" "r = map_sum id Workflows x" by (auto simp: replying_eq)
  from on_db_keeps [OF x(1) [unfolded list_workflows_def]] show ?thesis
    by (blast intro: keeps_tables_and_then keeps_tables_reading keeps_tables_give)
next
  case (CreateWorkflow p b)
  with assms obtain x where x: "create_workflow E user p b w = (x, w')" "r = map_sum id Created x" by (auto simp: replying_eq)
  have eff: "tables_effect u (db_tables (ww_db w)) x (db_tables d)" if "create_workflow_db E user u owner p b (ww_db w) = (x, d)" for u owner d
    using create_db_step [OF that] by (auto simp: tables_effect_def intro: created split: sum.splits)
  have "db_tables (ww_db w') = db_tables (ww_db w) \<or>
    (\<exists>u v. en_user_id E user = Inr u \<and> x = Inr v \<and> tables_step u (db_tables (ww_db w)) (db_tables (ww_db w')))"
    by (rule on_db_effect [OF x(1) [unfolded create_workflow_def]]) (rule eff)
  then show ?thesis using x(2) by auto
next
  case (GetWorkflow p i)
  with assms obtain x where x: "get_workflow E user p i w = (x, w')" "r = map_sum id Workflow x" by (auto simp: replying_eq)
  have "keeps_tables (and_then (load_owned u p i) (\<lambda>(a, d). give (g a d)))" for u g
    by (rule keeps_tables_and_then) (auto split: prod.split)
  from on_db_keeps [OF x(1) [unfolded get_workflow_def], OF this] show ?thesis by blast
next
  case (UpdateWorkflow p i b)
  with assms obtain x where x: "update_workflow E user p i b w = (x, w')" "r = map_sum id Workflow x" by (auto simp: replying_eq)
  have "db_tables (ww_db w') = db_tables (ww_db w) \<or>
    (\<exists>u v. en_user_id E user = Inr u \<and> x = Inr v \<and> tables_step u (db_tables (ww_db w)) (db_tables (ww_db w')))"
    by (rule on_db_effect [OF x(1) [unfolded update_workflow_def]]) (rule update_effect)
  then show ?thesis using x(2) by auto
next
  case (DeleteWorkflow p i)
  with assms obtain x where x: "delete_workflow E user p i w = (x, w')" "r = map_sum id (\<lambda>_. NoContent) x" by (auto simp: replying_eq)
  have "db_tables (ww_db w') = db_tables (ww_db w) \<or>
    (\<exists>u v. en_user_id E user = Inr u \<and> x = Inr v \<and> tables_step u (db_tables (ww_db w)) (db_tables (ww_db w')))"
    by (rule on_db_effect [OF x(1) [unfolded delete_workflow_def]]) (rule delete_effect)
  then show ?thesis using x(2) by auto
next
  case (CreateRun p i s)
  with assms obtain x where x: "create_run E user p i s w = (x, w')" "r = map_sum id Launched x" by (auto simp: replying_eq)
  from launch_effect [OF x(1) [unfolded create_run_def]] x(2) show ?thesis by auto
next
  case (ListProjectRuns p lq)
  with assms obtain x where x: "list_project_runs E user p lq w = (x, w')" "r = map_sum id Runs x" by (auto simp: replying_eq)
  from on_db_keeps [OF x(1) [unfolded list_project_runs_def case_prod_beta Let_def], OF list_runs_keeps] show ?thesis by blast
next
  case (ListSandboxRuns p lq)
  with assms obtain x where x: "list_sandbox_runs E user p lq w = (x, w')" "r = map_sum id Runs x" by (auto simp: replying_eq)
  from on_db_keeps [OF x(1) [unfolded list_sandbox_runs_def case_prod_beta Let_def], OF list_runs_keeps] show ?thesis by blast
next
  case (GetRun i)
  with assms obtain x where x: "get_run E user i w = (x, w')" "r = map_sum id Run x" by (auto simp: replying_eq)
  have "keeps_tables (and_then (find_run u i) (\<lambda>r. give (g r)))" for u and g :: "workflow_run \<Rightarrow> app_error + run_detail"
    by (intro keeps_tables_and_then find_run_keeps keeps_tables_give)
  from on_db_keeps [OF x(1) [unfolded get_run_def], OF this] show ?thesis by blast
next
  case (CancelRun i)
  with assms obtain x where "cancel_run E user i w = (x, w')" by (auto simp: replying_eq)
  from cancel_keeps [OF this] show ?thesis by blast
qed

section \<open>A server with one workflow\<close>

definition sample_env :: "unit wf_env" where
  "sample_env = \<lparr>en_engine = Some no_rows, en_user_id = (\<lambda>u. Inr (if au_subject u = ''alice'' then 1 else 2)),
     en_owner = (\<lambda>i. Inr (Some (if i = 1 then ''alice'' else ''bob''))), en_check_dag = (\<lambda>_ _. Inr ()), en_cluster = Inr (),
     en_get_sandbox = (\<lambda>_ _. Inr \<lparr>cr_project = ''demo'', cr_phase = Some ''Running''\<rparr>),
     en_locator = (\<lambda>_ _. \<lparr>lo_phase = Inr (Some ''Running''), lo_token = Inr ''t'', lo_base_url = Inr ''http://sb''\<rparr>),
     en_delete = (\<lambda>_. Inr (200, Inr [])), en_parse = (\<lambda>_. Inl []),
     en_trigger = (\<lambda>_. Inr \<lparr>rh_run_key = ''k'', rh_invocation_id = ''inv''\<rparr>), en_show_error = (\<lambda>_. []),
     en_new_uuid = ''r1'', en_now = 1000, en_minus_days = (\<lambda>d. Inr (1000 - d))\<rparr>"

definition alice :: app_user where "alice = \<lparr>au_subject = ''alice'', au_email = None\<rparr>"
definition bob :: app_user where "bob = \<lparr>au_subject = ''bob'', au_email = None\<rparr>"

definition ci_body :: "unit create_workflow_body" where
  "ci_body = \<lparr>cb_name = ''ci'', cb_scope = ''project'', cb_description = None, cb_steps = [forged_step]\<rparr>"

definition start_world :: "unit wf_world" where
  "start_world = \<lparr>ww_db = \<lparr>db_tables = empty_tables, db_faults = []\<rparr>, ww_calls = []\<rparr>"

definition alice_world :: "unit wf_world" where
  "alice_world = snd (handle_request sample_env alice (CreateWorkflow ''demo'' ci_body) start_world)"

definition ci_row :: "unit definition_row" where
  "ci_row = \<lparr>df_id = 1, df_name = ''alice/demo/ci'', df_steps = [forged_step], df_owner = Some 1\<rparr>"

definition ci_attached :: project_workflow where
  "ci_attached = \<lparr>pw_id = 1, pw_owner = 1, pw_project = ''demo'', pw_definition = 1, pw_scope = ''project'', pw_description = None\<rparr>"

definition ci_detail :: "unit workflow_detail" where
  "ci_detail = \<lparr>wd_id = 1, wd_name = ''ci'', wd_scope = ''project'', wd_description = None, wd_steps = [forged_step]\<rparr>"

lemma alice_creates:
  "create_workflow sample_env alice ''demo'' ci_body start_world = (Inr ci_detail,
     \<lparr>ww_db = \<lparr>db_tables = \<lparr>tb_definitions = [ci_row], tb_workflows = [ci_attached], tb_runs = [], tb_next_definition = 2,
        tb_next_workflow = 2, tb_next_run = 1\<rparr>, db_faults = []\<rparr>, ww_calls = []\<rparr>)"
  by (simp add: create_workflow_def as_owner_def engine_def owner_context_def sample_env_def alice_def ci_body_def start_world_def
      on_db_def create_workflow_db_def and_then_def give_def parse_scope_def validate_dag_def validate_kinds_def forged_step_def
      allowed_kinds_def transaction_def query_def execute_def reading_def empty_tables_def insert_definition_def
      insert_workflow_def full_name_def bare_name_def detail_def ci_row_def ci_attached_def ci_detail_def Let_def)

lemma alice_world_eq:
  "alice_world = \<lparr>ww_db = \<lparr>db_tables = \<lparr>tb_definitions = [ci_row], tb_workflows = [ci_attached], tb_runs = [], tb_next_definition = 2,
        tb_next_workflow = 2, tb_next_run = 1\<rparr>, db_faults = []\<rparr>, ww_calls = []\<rparr>"
  by (simp add: alice_world_def replying_def alice_creates)

lemma start_reach: "wf_reach start_world"
  unfolding start_world_def by (rule wf_reach.empty)

lemma alice_reach: "wf_reach alice_world"
  unfolding alice_world_def using wf_reach.request [OF start_reach] by blast

end
