(* ===== verification/WfApiProps.thy ===== *)
theory WfApiProps
  imports WfTables
begin

text \<open>
  What the workflow routes guarantee: the tables stay consistent, an error writes nothing, nobody
  touches or sees the rows of another user, and a run is started only after every check, under
  the context of its user, and never without a line in the index.
\<close>

section \<open>The invariant of the tables\<close>

definition definitions_ok :: "'x wf_tables \<Rightarrow> bool" where
  "definitions_ok t \<longleftrightarrow> distinct (map df_id (tb_definitions t)) \<and> distinct (map df_name (tb_definitions t)) \<and>
     (\<forall>d \<in> set (tb_definitions t). df_id d < tb_next_definition t \<and> (\<exists>w \<in> set (tb_workflows t). pw_definition w = df_id d))"

definition workflows_ok :: "'x wf_tables \<Rightarrow> bool" where
  "workflows_ok t \<longleftrightarrow> distinct (map pw_id (tb_workflows t)) \<and> distinct (map pw_definition (tb_workflows t)) \<and>
     (\<forall>w \<in> set (tb_workflows t). pw_id w < tb_next_workflow t \<and>
        (\<exists>d \<in> set (tb_definitions t). df_id d = pw_definition w \<and> df_owner d = Some (pw_owner w) \<and> scope_ok (pw_scope w) (df_steps d)))"

definition run_ok :: "'x wf_tables \<Rightarrow> workflow_run \<Rightarrow> bool" where
  "run_ok t r \<longleftrightarrow> wr_id r < tb_next_run t \<and>
     (case wr_definition r of None \<Rightarrow> True | Some i \<Rightarrow> \<exists>d \<in> set (tb_definitions t). df_id d = i \<and> df_owner d = Some (wr_owner r)) \<and>
     wr_scope r \<in> {''project'', ''sandbox''} \<and> (wr_scope r = ''sandbox'' \<longleftrightarrow> wr_sandbox r \<noteq> None)"

definition runs_ok :: "'x wf_tables \<Rightarrow> bool" where
  "runs_ok t \<longleftrightarrow> distinct (map wr_id (tb_runs t)) \<and> distinct (map wr_run_id (tb_runs t)) \<and>
     distinct (map wr_invocation_id (tb_runs t)) \<and> (\<forall>r \<in> set (tb_runs t). run_ok t r)"

definition tables_ok :: "'x wf_tables \<Rightarrow> bool" where
  "tables_ok t \<longleftrightarrow> definitions_ok t \<and> workflows_ok t \<and> runs_ok t"

lemma parse_scope_ok: "parse_scope s = Inr p \<longleftrightarrow> s = ''project'' \<and> p = ProjectScope \<or> s = ''sandbox'' \<and> p = SandboxScope"
  by (auto simp: parse_scope_def)

lemma launch_sandbox_ok: "launch_sandbox s req = Inr b \<Longrightarrow> (s = SandboxScope \<longleftrightarrow> b \<noteq> None) \<and> req = b"
  by (auto simp: launch_sandbox_def split: run_scope.splits option.splits)

lemma add_workflow_ok:
  assumes "tables_ok t" "name \<notin> df_name ` set (tb_definitions t)" "scope_ok scope steps"
  shows "tables_ok (add_workflow u project name scope description steps t)"
proof -
  have fresh: "tb_next_definition t \<notin> df_id ` set (tb_definitions t)" "tb_next_workflow t \<notin> pw_id ` set (tb_workflows t)"
    using assms(1) by (auto simp: tables_ok_def definitions_ok_def workflows_ok_def)
  have "pw_definition w \<noteq> tb_next_definition t" if "w \<in> set (tb_workflows t)" for w
  proof -
    from assms(1) that obtain d where "d \<in> set (tb_definitions t)" "df_id d = pw_definition w"
      by (auto simp: tables_ok_def workflows_ok_def)
    with fresh(1) show ?thesis by force
  qed
  then have fresh': "tb_next_definition t \<notin> pw_definition ` set (tb_workflows t)" by force
  have "definitions_ok (add_workflow u project name scope description steps t)"
    using assms fresh by (auto simp: tables_ok_def definitions_ok_def add_workflow_def)
  moreover have "workflows_ok (add_workflow u project name scope description steps t)"
    using assms fresh fresh' by (auto simp: tables_ok_def workflows_ok_def add_workflow_def)
  moreover have "runs_ok (add_workflow u project name scope description steps t)"
    using assms by (auto simp: tables_ok_def runs_ok_def run_ok_def add_workflow_def split: option.splits)
  ultimately show ?thesis by (simp add: tables_ok_def)
qed

lemma set_steps_fields [simp]: "df_id (set_steps i ss d) = df_id d" "df_name (set_steps i ss d) = df_name d" "df_owner (set_steps i ss d) = df_owner d"
  by (simp_all add: set_steps_def split: option.split)

lemma set_description_fields [simp]: "pw_id (set_description i s w) = pw_id w" "pw_definition (set_description i s w) = pw_definition w"
    "pw_owner (set_description i s w) = pw_owner w" "pw_scope (set_description i s w) = pw_scope w" "pw_project (set_description i s w) = pw_project w"
  by (simp_all add: set_description_def split: option.split)

lemma forget_definition_fields [simp]: "wr_id (forget_definition i r) = wr_id r" "wr_run_id (forget_definition i r) = wr_run_id r"
    "wr_invocation_id (forget_definition i r) = wr_invocation_id r" "wr_owner (forget_definition i r) = wr_owner r"
    "wr_scope (forget_definition i r) = wr_scope r" "wr_sandbox (forget_definition i r) = wr_sandbox r"
    "wr_definition (forget_definition i r) = (if wr_definition r = Some i then None else wr_definition r)"
  by (simp_all add: forget_definition_def)

lemma comp_fields [simp]: "df_id \<circ> set_steps i ss = df_id" "df_name \<circ> set_steps i ss = df_name"
    "pw_id \<circ> set_description i s = pw_id" "pw_definition \<circ> set_description i s = pw_definition"
    "wr_id \<circ> forget_definition i = wr_id" "wr_run_id \<circ> forget_definition i = wr_run_id"
    "wr_invocation_id \<circ> forget_definition i = wr_invocation_id"
  by (simp_all add: fun_eq_iff)

lemma distinct_map_same: "distinct (map f xs) \<Longrightarrow> x \<in> set xs \<Longrightarrow> y \<in> set xs \<Longrightarrow> f x = f y \<Longrightarrow> x = y"
  by (auto simp: distinct_map dest: inj_onD)

lemma change_workflow_ok:
  assumes "tables_ok t" "find_workflow u project i t = Some a" "\<forall>ss. steps = Some ss \<longrightarrow> scope_ok (pw_scope a) ss"
  shows "tables_ok (change_workflow a steps description t)"
proof -
  have a: "a \<in> set (tb_workflows t)" using find_workflow_Some [OF assms(2)] by simp
  have "scope_ok (pw_scope w) (df_steps (set_steps (pw_definition a) steps d))"
    if w: "w \<in> set (tb_workflows t)" "df_id d = pw_definition w" "scope_ok (pw_scope w) (df_steps d)" for w d
  proof (cases "df_id d = pw_definition a")
    case True
    have "distinct (map pw_definition (tb_workflows t))" using assms(1) by (simp add: tables_ok_def workflows_ok_def)
    from distinct_map_same [OF this w(1) a] True w(2) have "w = a" by simp
    with w assms(3) show ?thesis by (auto simp: set_steps_def split: option.split)
  qed (use w in \<open>simp add: set_steps_def\<close>)
  then have "workflows_ok (change_workflow a steps description t)"
    using assms(1) by (fastforce simp: tables_ok_def workflows_ok_def change_workflow_def)
  moreover have "definitions_ok (change_workflow a steps description t)"
    using assms(1) by (auto simp: tables_ok_def definitions_ok_def change_workflow_def)
  moreover have "runs_ok (change_workflow a steps description t)"
    using assms(1) by (auto simp: tables_ok_def runs_ok_def run_ok_def change_workflow_def split: option.splits)
  ultimately show ?thesis by (simp add: tables_ok_def)
qed

lemma remove_workflow_ok:
  assumes "tables_ok t" "find_workflow u project i t = Some a"
  shows "tables_ok (remove_workflow a t)"
proof -
  have a: "a \<in> set (tb_workflows t)" using find_workflow_Some [OF assms(2)] by simp
  have same: "pw_id w = pw_id a \<longleftrightarrow> w = a" "pw_definition w = pw_definition a \<longleftrightarrow> w = a" if "w \<in> set (tb_workflows t)" for w
    using assms(1) a that by (auto simp: tables_ok_def workflows_ok_def distinct_map inj_on_eq_iff)
  have "workflows_ok (remove_workflow a t)"
    using assms(1) same by (fastforce simp: tables_ok_def workflows_ok_def remove_workflow_def distinct_map inj_on_def)
  moreover have "definitions_ok (remove_workflow a t)"
    using assms(1) same by (fastforce simp: tables_ok_def definitions_ok_def remove_workflow_def distinct_map inj_on_def)
  moreover have "run_ok (remove_workflow a t) (forget_definition (pw_definition a) r)" if "run_ok t r" for r
    using that by (cases "wr_definition r") (auto simp: run_ok_def remove_workflow_def)
  then have "runs_ok (remove_workflow a t)"
    using assms(1) by (auto simp: tables_ok_def runs_ok_def) (auto simp: remove_workflow_def)
  ultimately show ?thesis by (simp add: tables_ok_def)
qed

lemma add_run_ok:
  assumes "tables_ok t" "find_workflow u project i t = Some a" "find_definition (pw_definition a) t = Some d"
    "wr_run_id r \<notin> wr_run_id ` set (tb_runs t)" "wr_invocation_id r \<notin> wr_invocation_id ` set (tb_runs t)"
    "wr_owner r = u" "wr_definition r = Some (pw_definition a)" "wr_scope r = pw_scope a"
    "launch_sandbox s req = Inr (wr_sandbox r)" "parse_scope (pw_scope a) = Inr s"
  shows "tables_ok (add_run r t)"
proof -
  have fresh: "tb_next_run t \<notin> wr_id ` set (tb_runs t)" using assms(1) by (auto simp: tables_ok_def runs_ok_def run_ok_def)
  have a: "a \<in> set (tb_workflows t)" "pw_owner a = u" using find_workflow_Some [OF assms(2)] by auto
  have d: "\<exists>d \<in> set (tb_definitions t). df_id d = pw_definition a \<and> df_owner d = Some u"
    using assms(1) a by (auto simp: tables_ok_def workflows_ok_def)
  have "run_ok (add_run r t) (r\<lparr>wr_id := tb_next_run t\<rparr>)"
    using d assms(6-8,10) launch_sandbox_ok [OF assms(9)] by (auto simp: run_ok_def add_run_def parse_scope_ok)
  moreover have "run_ok (add_run r t) q" if "run_ok t q" for q
    using that by (auto simp: run_ok_def add_run_def split: option.splits)
  ultimately have "runs_ok (add_run r t)"
    using assms(1,4,5) fresh by (auto simp: tables_ok_def runs_ok_def) (auto simp: add_run_def)
  moreover have "definitions_ok (add_run r t)" "workflows_ok (add_run r t)"
    using assms(1) by (auto simp: tables_ok_def definitions_ok_def workflows_ok_def add_run_def)
  ultimately show ?thesis by (simp add: tables_ok_def)
qed

lemma tables_step_ok: "tables_step u t t' \<Longrightarrow> tables_ok t \<Longrightarrow> tables_ok t'"
  by (induction rule: tables_step.induct)
    (simp_all add: add_workflow_ok change_workflow_ok remove_workflow_ok add_run_ok)

lemma purge_ok:
  assumes "tables_ok t" "delete_runs_before cutoff t = Inr (n, t')"
  shows "tables_ok t'"
proof -
  have t': "t' = t\<lparr>tb_runs := filter (\<lambda>r. \<not> wr_started_at r < cutoff) (tb_runs t)\<rparr>"
    using assms(2) by (simp add: delete_runs_before_def)
  have "run_ok t' r \<longleftrightarrow> run_ok t r" for r by (simp add: t' run_ok_def split: option.split)
  then have "runs_ok t'" using assms(1) by (simp add: tables_ok_def runs_ok_def t' distinct_map_filter)
  moreover have "definitions_ok t'" "workflows_ok t'"
    using assms(1) by (simp_all add: t' tables_ok_def definitions_ok_def workflows_ok_def)
  ultimately show ?thesis by (simp add: tables_ok_def)
qed

lemma purge_tables:
  "db_tables (snd (purge_older_than minus_days days d)) = db_tables d \<or>
   (\<exists>cutoff n. delete_runs_before cutoff (db_tables d) = Inr (n, db_tables (snd (purge_older_than minus_days days d))))"
proof (cases "minus_days days")
  case (Some cutoff)
  obtain r d' where e: "execute (delete_runs_before cutoff) d = (r, d')" by fastforce
  from execute_cases [OF e] show ?thesis by (auto simp: purge_older_than_def Some e split: sum.splits)
qed (simp add: purge_older_than_def)

lemma wf_tables_ok:
  assumes "wf_reach w"
  shows "tables_ok (db_tables (ww_db w))"
  using assms
proof (induction rule: wf_reach.induct)
  case (empty fs)
  show ?case by (simp add: tables_ok_def definitions_ok_def workflows_ok_def runs_ok_def empty_tables_def)
next
  case (request w E u q)
  obtain r w' where h: "handle_request E u q w = (r, w')" by fastforce
  from handle_request_step [OF h] request.IH show ?case by (auto simp: h tables_step_ok)
next
  case (faults w fs)
  then show ?case by simp
next
  case (purge w minus_days days)
  then show ?case using purge_tables [of minus_days days "ww_db w"] by (auto intro: purge_ok)
qed

text \<open>
  C16: In every state the server can come to, the tables are consistent. Identifiers and the names
  of definitions are unique; every definition is attached to exactly one project, of its own
  owner, and holds only kinds its scope allows, so neither half of a creation or deletion ever
  stays behind; runs are unique in their identifier and their invocation, refer to definitions of
  their own user that are still there, and have a sandbox exactly in the sandbox scope.
\<close>

theorem wf_tables_consistent:
  assumes "wf_reach w"
  shows "tables_ok (db_tables (ww_db w))"
  using assms by (rule wf_tables_ok)

theorem wf_tables_consistent_witness: "tables_ok (db_tables (ww_db alice_world)) \<and> tb_workflows (db_tables (ww_db alice_world)) \<noteq> []"
  using wf_tables_consistent [OF alice_reach] by (simp add: alice_world_eq)

text \<open>
  C20: An error writes nothing. Whatever request is refused or fails, at whatever point and
  whatever statement or part of the server failed, the tables are those from before it; the
  answer then is an error of the client, the server or one of its parts.
\<close>

theorem errors_write_nothing:
  "case handle_request E user q w of
     (Inl e, w') \<Rightarrow> db_tables (ww_db w') = db_tables (ww_db w) \<and> reply_status (Inl e :: app_error + 'x wf_reply) \<in> {400, 403, 404, 409, 422, 500, 502, 503}
   | (Inr v, w') \<Rightarrow> reply_status (Inr v) \<in> {200, 201, 202, 204}"
proof (cases "handle_request E user q w")
  case (Pair r w')
  show ?thesis
  proof (cases r)
    case (Inl e)
    with handle_request_step [OF Pair] Pair app_error_status_range [of e] show ?thesis by auto
  next
    case (Inr v)
    then show ?thesis by (cases v) (simp_all add: Pair)
  qed
qed

end
