(* ===== verification/WfIsolation.thy ===== *)
theory WfIsolation
  imports WfApiProps
begin

text \<open>
  Isolation of users: a request changes no row of anybody else, and its answer depends on the
  rows of its own user alone.
\<close>

section \<open>Changing\<close>

definition own_tables :: "int \<Rightarrow> 'x wf_tables \<Rightarrow> 'x wf_tables" where
  "own_tables v t = t\<lparr>tb_definitions := filter (\<lambda>d. df_owner d = Some v) (tb_definitions t),
     tb_workflows := filter (\<lambda>w. pw_owner w = v) (tb_workflows t),
     tb_runs := filter (\<lambda>r. wr_owner r = v) (tb_runs t)\<rparr>"

definition rows_of :: "int \<Rightarrow> 'x wf_tables \<Rightarrow> 'x definition_row list \<times> project_workflow list \<times> workflow_run list" where
  "rows_of v t = (tb_definitions (own_tables v t), tb_workflows (own_tables v t), tb_runs (own_tables v t))"

lemma filter_map_other:
  assumes "\<forall>x \<in> set xs. P (f x) = P x" "\<forall>x \<in> set xs. P x \<longrightarrow> f x = x"
  shows "filter P (map f xs) = filter P xs"
  using assms by (induction xs) auto

lemma filter_filter_other: "\<forall>x \<in> set xs. P x \<longrightarrow> Q x \<Longrightarrow> filter P (filter Q xs) = filter P xs"
  by (induction xs) auto

lemma attached_owner:
  assumes "tables_ok t" "w \<in> set (tb_workflows t)" "d \<in> set (tb_definitions t)" "df_id d = pw_definition w"
  shows "df_owner d = Some (pw_owner w)"
proof -
  from assms(1,2) obtain d' where d': "d' \<in> set (tb_definitions t)" "df_id d' = pw_definition w" "df_owner d' = Some (pw_owner w)"
    by (auto simp: tables_ok_def workflows_ok_def)
  have "distinct (map df_id (tb_definitions t))" using assms(1) by (simp add: tables_ok_def definitions_ok_def)
  from distinct_map_same [OF this d'(1) assms(3)] d' assms(4) show ?thesis by simp
qed

lemma run_definition_owner:
  assumes "tables_ok t" "r \<in> set (tb_runs t)" "w \<in> set (tb_workflows t)" "wr_definition r = Some (pw_definition w)"
  shows "wr_owner r = pw_owner w"
proof -
  from assms(1,2,4) obtain d where "d \<in> set (tb_definitions t)" "df_id d = pw_definition w" "df_owner d = Some (wr_owner r)"
  proof -
    have "run_ok t r" using assms(1,2) by (simp add: tables_ok_def runs_ok_def)
    then show thesis using assms(4) that by (auto simp: run_ok_def)
  qed
  with attached_owner [OF assms(1,3)] show ?thesis by force
qed

lemma tables_step_others:
  assumes "tables_step u t t'" "tables_ok t" "u \<noteq> v"
  shows "rows_of v t' = rows_of v t"
  using assms(1)
proof cases
  case (changed project i a steps description)
  note a = find_workflow_Some [OF changed(2)]
  have "set_steps (pw_definition a) steps d = d" if "d \<in> set (tb_definitions t)" "df_owner d = Some v" for d
    using attached_owner [OF assms(2) _ that(1)] a that assms(3) by (force simp: set_steps_def)
  moreover have "set_description (pw_id a) description w = w" if "w \<in> set (tb_workflows t)" "pw_owner w = v" for w
  proof -
    have "distinct (map pw_id (tb_workflows t))" using assms(2) by (simp add: tables_ok_def workflows_ok_def)
    then have "pw_id w \<noteq> pw_id a" using distinct_map_same [of pw_id "tb_workflows t" w a] that a assms(3) by auto
    then show ?thesis by (simp add: set_description_def)
  qed
  ultimately show ?thesis
    by (simp add: changed(1) rows_of_def own_tables_def change_workflow_def filter_map_other)
next
  case (removed project i a)
  note a = find_workflow_Some [OF removed(2)]
  have d: "df_id d \<noteq> pw_definition a" if "d \<in> set (tb_definitions t)" "df_owner d = Some v" for d
    using attached_owner [OF assms(2) _ that(1)] a that assms(3) by force
  have w: "pw_id w \<noteq> pw_id a \<and> pw_definition w \<noteq> pw_definition a" if "w \<in> set (tb_workflows t)" "pw_owner w = v" for w
  proof -
    have "distinct (map pw_id (tb_workflows t))" "distinct (map pw_definition (tb_workflows t))"
      using assms(2) by (simp_all add: tables_ok_def workflows_ok_def)
    then show ?thesis
      using distinct_map_same [of pw_id "tb_workflows t" w a] distinct_map_same [of pw_definition "tb_workflows t" w a] that a assms(3)
      by auto
  qed
  have r: "forget_definition (pw_definition a) r = r" if "r \<in> set (tb_runs t)" "wr_owner r = v" for r
    using run_definition_owner [OF assms(2) that(1), of a] a that assms(3) by (auto simp: forget_definition_def)
  show ?thesis
    using d w r by (auto simp: removed(1) rows_of_def own_tables_def remove_workflow_def filter_map_other intro!: filter_filter_other
        simp del: filter_filter)
qed (use assms(3) in \<open>simp_all add: rows_of_def own_tables_def add_workflow_def add_run_def\<close>)

text \<open>
  C18: No request changes a row of another user. In any state the server can come to and whatever
  is asked, the definitions, attachments and runs of every user other than the one the request is
  resolved to are the same before and after it.
\<close>

theorem requests_touch_own_rows:
  assumes "wf_reach w" "en_user_id E user \<noteq> Inr v"
  shows "rows_of v (db_tables (ww_db (snd (handle_request E user q w)))) = rows_of v (db_tables (ww_db w))"
proof -
  obtain r w' where h: "handle_request E user q w = (r, w')" by fastforce
  from handle_request_step [OF h] show ?thesis
  proof
    assume "\<exists>u x. en_user_id E user = Inr u \<and> r = Inr x \<and> tables_step u (db_tables (ww_db w)) (db_tables (ww_db w'))"
    with assms(2) obtain u where "u \<noteq> v" "tables_step u (db_tables (ww_db w)) (db_tables (ww_db w'))" by auto
    then show ?thesis using tables_step_others [OF _ wf_tables_ok [OF assms(1)]] by (simp add: h)
  qed (simp add: h)
qed

theorem requests_touch_own_rows_witness:
  "rows_of 1 (db_tables (ww_db (snd (handle_request sample_env bob (DeleteWorkflow ''demo'' 1) alice_world)))) = ([ci_row], [ci_attached], [])"
proof -
  have "en_user_id sample_env bob \<noteq> Inr 1" by (simp add: sample_env_def bob_def)
  from requests_touch_own_rows [OF alice_reach this, of "DeleteWorkflow ''demo'' 1"] show ?thesis
    by (simp add: rows_of_def own_tables_def alice_world_eq ci_row_def ci_attached_def)
qed

section \<open>Seeing\<close>

definition own_db :: "int \<Rightarrow> 'x wf_db \<Rightarrow> 'x wf_db" where
  "own_db u d = d\<lparr>db_tables := own_tables u (db_tables d)\<rparr>"

definition only_rows :: "int \<Rightarrow> 'x wf_world \<Rightarrow> 'x wf_world" where
  "only_rows u w = w\<lparr>ww_db := own_db u (ww_db w)\<rparr>"

definition sees :: "int \<Rightarrow> ('x, 'a) db_action \<Rightarrow> 'x wf_db \<Rightarrow> bool" where
  "sees u m d \<longleftrightarrow> m (own_db u d) = map_prod id (own_db u) (m d)"

lemma find_filter: "\<forall>x \<in> set xs. P x \<longrightarrow> Q x \<Longrightarrow> List.find P (filter Q xs) = List.find P xs"
  by (induction xs) auto

lemma own_db_simps [simp]: "db_tables (own_db u d) = own_tables u (db_tables d)" "db_faults (own_db u d) = db_faults d"
  by (simp_all add: own_db_def)

lemma sees_query:
  assumes "f (own_tables u (db_tables d)) = map_sum id (map_prod id (own_tables u)) (f (db_tables d))"
  shows "sees u (query f) d"
  using assms
  by (auto simp: sees_def query_def execute_def Let_def own_db_def split: list.split option.split sum.split)

lemma sees_reading: "g (own_tables u (db_tables d)) = g (db_tables d) \<Longrightarrow> sees u (query (reading g)) d"
  by (rule sees_query) (simp add: reading_def)

lemma sees_give [simp]: "sees u (give r) d"
  by (simp add: sees_def give_def)

lemma sees_and_then:
  assumes "sees u m d" "\<And>a d1. m d = (Inr a, d1) \<Longrightarrow> sees u (f a) d1"
  shows "sees u (and_then m f) d"
  using assms by (cases "m d") (auto simp: sees_def and_then_def split: sum.split)

lemma sees_transaction:
  assumes "\<And>d1. db_tables d1 = db_tables d \<Longrightarrow> sees u body d1"
  shows "sees u (transaction body) d"
proof -
  have q: "query (reading (\<lambda>_. ())) (own_db u d) = map_prod id (own_db u) (query (reading (\<lambda>_. ())) d)" for d :: "'a wf_db"
    using sees_reading [of "\<lambda>_. ()" u d] by (simp add: sees_def)
  obtain r d1 where d1: "query (reading (\<lambda>_. ())) d = (r, d1)" by fastforce
  have t1: "db_tables d1 = db_tables d" using query_reading [OF d1] by simp
  obtain r2 d2 where d2: "body d1 = (r2, d2)" by fastforce
  have b: "body (own_db u d1) = (r2, own_db u d2)" using assms [OF t1] d2 by (simp add: sees_def)
  obtain r3 d3 where d3: "query (reading (\<lambda>_. ())) d2 = (r3, d3)" by fastforce
  have restored: "(own_db u x)\<lparr>db_tables := own_tables u y\<rparr> = own_db u (x\<lparr>db_tables := y\<rparr>)" for x :: "'a wf_db" and y
    by (simp add: own_db_def)
  show ?thesis
    by (simp add: sees_def transaction_def q d1 b d2 d3 restored split: sum.split)
qed

lemma sees_load_owned:
  assumes "tables_ok (db_tables d)"
  shows "sees u (load_owned u p i) d"
  unfolding load_owned_def
proof (rule sees_and_then)
  have "find_workflow u p i (own_tables u t) = find_workflow u p i t" for t :: "'a wf_tables"
    by (auto simp: find_workflow_def own_tables_def intro!: find_filter)
  then show "sees u (query (reading (find_workflow u p i))) d" by (intro sees_reading)
  fix a d1
  assume q: "query (reading (find_workflow u p i)) d = (Inr a, d1)"
  then have a: "a = find_workflow u p i (db_tables d)" and t1: "db_tables d1 = db_tables d" using query_reading [OF q] by auto
  have "find_definition (pw_definition w) (own_tables u (db_tables d1)) = find_definition (pw_definition w) (db_tables d1)"
    if "a = Some w" for w
    unfolding find_definition_def own_tables_def
    using find_workflow_Some [of u p i "db_tables d" w] that a t1 attached_owner [OF assms, of w]
    by (auto intro!: find_filter)
  then show "sees u (case a of None \<Rightarrow> give (Inl WorkflowNotFound)
       | Some a \<Rightarrow> and_then (query (reading (find_definition (pw_definition a)))) (\<lambda>definition'.
             give (case definition' of None \<Rightarrow> Inl (missing_definition i (pw_definition a)) | Some d \<Rightarrow> Inr (a, d)))) d1"
    by (auto split: option.split intro!: sees_and_then sees_reading)
qed

lemma sees_load_then:
  assumes "tables_ok (db_tables d)"
    and "\<And>a df d1. find_workflow u p i (db_tables d) = Some a \<Longrightarrow> find_definition (pw_definition a) (db_tables d) = Some df \<Longrightarrow>
      db_tables d1 = db_tables d \<Longrightarrow> sees u (f (a, df)) d1"
  shows "sees u (and_then (load_owned u p i) f) d"
proof (rule sees_and_then [OF sees_load_owned [OF assms(1)]])
  fix ad d1
  assume l: "load_owned u p i d = (Inr ad, d1)"
  obtain a df where ad: "ad = (a, df)" by (cases ad)
  show "sees u (f ad) d1"
    unfolding ad using load_owned_Inr [OF l [unfolded ad]] keeps_tablesD [OF load_owned_keeps l] by (rule assms(2))
qed

lemma sees_on_db:
  assumes "\<And>rt owner. sees u (m rt u owner) (ww_db w)" "en_user_id E user = Inr u"
  shows "as_owner E user missing (\<lambda>rt u owner. on_db (m rt u owner)) (only_rows u w) =
    map_prod id (only_rows u) (as_owner E user missing (\<lambda>rt u owner. on_db (m rt u owner)) w)"
  using assms by (auto simp: as_owner_def owner_context_def on_db_def only_rows_def sees_def Let_def case_prod_beta split: sum.split option.split)

text \<open>The statements of updates and deletions on the rows of the user.\<close>

lemma filter_map_same: "(\<And>x. P (f x) = P x) \<Longrightarrow> filter P (map f xs) = map f (filter P xs)"
  by (induction xs) auto

lemma sees_update_definition:
  assumes "\<forall>d' \<in> set (tb_definitions (db_tables d)). df_id d' = i \<longrightarrow> df_owner d' = Some u"
  shows "sees u (query (update_definition i steps)) d"
proof (rule sees_query)
  let ?t = "db_tables d" and ?P = "\<lambda>d'. df_owner d' = Some u"
  have m: "map (set_steps i steps) (filter ?P ds) = filter ?P (map (set_steps i steps) ds)" for ds :: "'a definition_row list"
    by (simp add: filter_map_same)
  have "List.find (\<lambda>d'. df_id d' = i) (filter ?P (map (set_steps i steps) (tb_definitions ?t))) =
      List.find (\<lambda>d'. df_id d' = i) (map (set_steps i steps) (tb_definitions ?t))"
    using assms by (intro find_filter) simp
  then show "update_definition i steps (own_tables u ?t) = map_sum id (map_prod id (own_tables u)) (update_definition i steps ?t)"
    by (simp add: update_definition_def Let_def own_tables_def m split: option.split)
qed

lemma sees_update_workflow_row:
  assumes "\<forall>w \<in> set (tb_workflows (db_tables d)). pw_id w = i \<longrightarrow> pw_owner w = u"
  shows "sees u (query (update_workflow_row i description)) d"
proof (rule sees_query)
  let ?t = "db_tables d" and ?P = "\<lambda>w. pw_owner w = u"
  have m: "map (set_description i description) (filter ?P ws) = filter ?P (map (set_description i description) ws)" for ws
    by (simp add: filter_map_same)
  have "List.find (\<lambda>w. pw_id w = i) (filter ?P (map (set_description i description) (tb_workflows ?t))) =
      List.find (\<lambda>w. pw_id w = i) (map (set_description i description) (tb_workflows ?t))"
    using assms by (intro find_filter) simp
  then show "update_workflow_row i description (own_tables u ?t) = map_sum id (map_prod id (own_tables u)) (update_workflow_row i description ?t)"
    by (simp add: update_workflow_row_def Let_def own_tables_def m split: option.split)
qed

lemma sees_deletes:
  "sees u (query (delete_workflow_row i)) d" "sees u (query (delete_definition i)) d" "sees u (query (clear_definition i)) d"
  by (auto intro!: sees_query simp: delete_workflow_row_def delete_definition_def clear_definition_def own_tables_def
      conj_commute filter_map_same)

lemma sees_update:
  assumes "tables_ok (db_tables d)"
  shows "sees u (and_then (load_owned u p i) (\<lambda>(a, d).
          if ub_scope body \<noteq> None then give (Inl WorkflowScopeNotEditable)
          else and_then (give (parse_scope (pw_scope a))) (\<lambda>scope.
            and_then (give (case ub_steps body of None \<Rightarrow> Inr ()
                | Some steps \<Rightarrow> (case validate_dag E steps user of Inl e \<Rightarrow> Inl e | Inr _ \<Rightarrow> validate_kinds steps scope))) (\<lambda>_.
              transaction
                (and_then (query (update_definition (df_id d) (ub_steps body))) (\<lambda>d'.
                 and_then (query (update_workflow_row (pw_id a) (ub_description body))) (\<lambda>a'.
                   give (Inr (detail a' d' owner project))))))))) d"
proof (rule sees_load_then [OF assms])
  fix a df and d1 :: "'a wf_db"
  let ?t = "db_tables d"
  assume a: "find_workflow u p i ?t = Some a" and df: "find_definition (pw_definition a) ?t = Some df" and t1: "db_tables d1 = ?t"
  note a' = find_workflow_Some [OF a] and df' = find_definition_Some [OF df]
  have w: "\<forall>w \<in> set (tb_workflows ?t). pw_id w = pw_id a \<longrightarrow> pw_owner w = u"
  proof -
    have "distinct (map pw_id (tb_workflows ?t))" using assms by (simp add: tables_ok_def workflows_ok_def)
    then show ?thesis using distinct_map_same [of pw_id "tb_workflows ?t" _ a] a' by auto
  qed
  have dd: "\<forall>d' \<in> set (tb_definitions ?t). df_id d' = df_id df \<longrightarrow> df_owner d' = Some u"
    using attached_owner [OF assms, of a] a' df' by auto
  have "sees u (and_then (query (update_definition (df_id df) (ub_steps body))) (\<lambda>d'.
                 and_then (query (update_workflow_row (pw_id a) (ub_description body))) (\<lambda>a'.
                   give (Inr (detail a' d' owner project))))) e" if e: "db_tables e = ?t" for e
  proof (rule sees_and_then)
    show "sees u (query (update_definition (df_id df) (ub_steps body))) e" using dd e by (intro sees_update_definition) simp
    fix x e1
    assume q: "query (update_definition (df_id df) (ub_steps body)) e = (Inr x, e1)"
    have "db_tables e1 = ?t\<lparr>tb_definitions := map (set_steps (df_id df) (ub_steps body)) (tb_definitions ?t)\<rparr>"
      using query_cases [OF q] e by (auto simp: update_definition_def Let_def split: option.splits)
    then have "tb_workflows (db_tables e1) = tb_workflows ?t" by simp
    then show "sees u (and_then (query (update_workflow_row (pw_id a) (ub_description body))) (\<lambda>a'. give (Inr (detail a' x owner project)))) e1"
      using w by (intro sees_and_then sees_update_workflow_row sees_give) simp
  qed
  then have "sees u (transaction (and_then (query (update_definition (df_id df) (ub_steps body))) (\<lambda>d'.
                 and_then (query (update_workflow_row (pw_id a) (ub_description body))) (\<lambda>a'.
                   give (Inr (detail a' d' owner project)))))) e" if "db_tables e = ?t" for e
    using that by (intro sees_transaction) simp
  then show "sees u (case (a, df) of (a, d) \<Rightarrow>
          if ub_scope body \<noteq> None then give (Inl WorkflowScopeNotEditable)
          else and_then (give (parse_scope (pw_scope a))) (\<lambda>scope.
            and_then (give (case ub_steps body of None \<Rightarrow> Inr ()
                | Some steps \<Rightarrow> (case validate_dag E steps user of Inl e \<Rightarrow> Inl e | Inr _ \<Rightarrow> validate_kinds steps scope))) (\<lambda>_.
              transaction
                (and_then (query (update_definition (df_id d) (ub_steps body))) (\<lambda>d'.
                 and_then (query (update_workflow_row (pw_id a) (ub_description body))) (\<lambda>a'.
                   give (Inr (detail a' d' owner project)))))))) d1"
    using t1 by (auto intro!: sees_and_then)
qed

lemma sees_list:
  assumes "tables_ok (db_tables d)"
  shows "sees u (and_then (query (reading (workflows_of u p))) (\<lambda>attachs.
          and_then (query (reading (\<lambda>t. filter (\<lambda>d. df_id d \<in> pw_definition ` set attachs) (tb_definitions t)))) (\<lambda>definitions.
            give (list_items (list_item definitions owner p) attachs)))) d"
proof (rule sees_and_then)
  have "workflows_of u p (own_tables u t) = workflows_of u p t" for t :: "'a wf_tables"
  proof -
    have "(\<lambda>a. pw_owner a = u \<and> pw_owner a = u \<and> pw_project a = p) = (\<lambda>a. pw_owner a = u \<and> pw_project a = p)" by auto
    then show ?thesis by (simp add: workflows_of_def own_tables_def conj_assoc conj_left_commute)
  qed
  then show "sees u (query (reading (workflows_of u p))) d" by (intro sees_reading)
  fix attachs d1
  assume q: "query (reading (workflows_of u p)) d = (Inr attachs, d1)"
  then have a: "set attachs \<subseteq> {w \<in> set (tb_workflows (db_tables d)). pw_owner w = u}" and t1: "db_tables d1 = db_tables d"
    using query_reading [OF q] by (auto simp: workflows_of_def)
  have "df_owner d' = Some u" if "d' \<in> set (tb_definitions (db_tables d))" "df_id d' \<in> pw_definition ` set attachs" for d'
    using that a attached_owner [OF assms _ that(1)] by auto
  then have "filter (\<lambda>d. df_id d \<in> pw_definition ` set attachs) (tb_definitions (own_tables u (db_tables d1))) =
      filter (\<lambda>d. df_id d \<in> pw_definition ` set attachs) (tb_definitions (db_tables d1))"
    unfolding own_tables_def t1 by (auto intro!: filter_cong)
  then show "sees u (and_then (query (reading (\<lambda>t. filter (\<lambda>d. df_id d \<in> pw_definition ` set attachs) (tb_definitions t)))) (\<lambda>definitions.
            give (list_items (list_item definitions owner p) attachs))) d1"
    by (intro sees_and_then sees_reading sees_give)
qed

lemma sees_find_run: "sees u (find_run u run_id) d"
  unfolding find_run_def
  by (intro sees_and_then sees_reading sees_give) (auto simp: own_tables_def intro!: find_filter)

lemma sees_list_runs: "sees u (list_runs E u project sandbox limit since) d"
proof -
  have "runs_in_window u cutoff project sandbox limit (own_tables u t) = runs_in_window u cutoff project sandbox limit t" for cutoff t
    unfolding runs_in_window_def own_tables_def by (auto intro!: arg_cong [where f = "\<lambda>xs. take limit (sort_key _ xs)"] filter_cong)
  then have "sees u (and_then (query (reading (runs_in_window u cutoff project sandbox limit))) (\<lambda>rows. give (g rows))) d"
    for cutoff and g :: "workflow_run list \<Rightarrow> app_error + run_list_item list"
    by (intro sees_and_then sees_reading sees_give)
  then show ?thesis
    by (auto simp: sees_def list_runs_def split: sum.split)
qed

definition creates :: "'x wf_request \<Rightarrow> bool" where
  "creates q = (case q of CreateWorkflow _ _ \<Rightarrow> True | CreateRun _ _ _ \<Rightarrow> True | _ \<Rightarrow> False)"

lemma replying_only: "h (only_rows u w) = map_prod id (only_rows u) (h w) \<Longrightarrow>
    replying f h (only_rows u w) = map_prod id (only_rows u) (replying f h w)"
  by (cases "h w") (simp add: replying_def)

lemma call_made_only [simp]: "call_made c (only_rows u w) = only_rows u (call_made c w)"
  by (simp add: call_made_def only_rows_def)

lemma delete_run_jobs_only: "snd (delete_run_jobs E owner user r (only_rows u w)) = only_rows u (snd (delete_run_jobs E owner user r w))"
  by (simp add: delete_run_jobs_def Let_def split: option.split sum.split)

lemma cancel_run_only:
  assumes "en_user_id E user = Inr u"
  shows "cancel_run E user i (only_rows u w) = map_prod id (only_rows u) (cancel_run E user i w)"
proof -
  obtain r d where f: "find_run u i (ww_db w) = (r, d)" by fastforce
  have f': "find_run u i (own_db u (ww_db w)) = (r, own_db u d)" using sees_find_run [of u i "ww_db w"] f by (simp add: sees_def)
  have upd: "(only_rows u w)\<lparr>ww_db := own_db u d\<rparr> = only_rows u (w\<lparr>ww_db := d\<rparr>)" by (simp add: only_rows_def)
  have db: "ww_db (only_rows u w) = own_db u (ww_db w)" by (simp add: only_rows_def)
  show ?thesis
    using assms
    by (auto simp: cancel_run_def as_owner_def owner_context_def f db f' upd Let_def delete_run_jobs_only split: sum.split option.split)
qed

text \<open>
  C17: A request that creates nothing behaves as if its user were alone. For a reachable state, on
  the tables with all rows of everybody else removed it gives the same answer, makes the same
  requests to the engine and the sandboxes, and leaves the same tables with those rows removed.
  So nothing tells an identifier of another user from one that does not exist.
\<close>

theorem requests_see_own_rows:
  assumes "wf_reach w" "en_user_id E user = Inr u" "\<not> creates q"
  shows "handle_request E user q (only_rows u w) = map_prod id (only_rows u) (handle_request E user q w)"
proof -
  have ok: "tables_ok (db_tables (ww_db w))" by (rule wf_tables_ok [OF assms(1)])
  note on = sees_on_db [OF _ assms(2)]
  show ?thesis
  proof (cases q)
    case (ListWorkflows p)
    then show ?thesis unfolding ListWorkflows handle_request.simps list_workflows_def
      by (intro replying_only on sees_list ok)
  next
    case (GetWorkflow p i)
    show ?thesis unfolding GetWorkflow handle_request.simps get_workflow_def
      by (intro replying_only on sees_load_then ok) simp
  next
    case (UpdateWorkflow p i b)
    show ?thesis unfolding UpdateWorkflow handle_request.simps update_workflow_def
      by (intro replying_only on sees_update ok)
  next
    case (DeleteWorkflow p i)
    show ?thesis unfolding DeleteWorkflow handle_request.simps delete_workflow_def
      by (intro replying_only on sees_load_then ok) (simp add: sees_transaction sees_and_then sees_deletes)
  next
    case (ListProjectRuns p lq)
    show ?thesis unfolding ListProjectRuns handle_request.simps list_project_runs_def Let_def case_prod_beta
      by (intro replying_only on sees_list_runs)
  next
    case (ListSandboxRuns p lq)
    show ?thesis unfolding ListSandboxRuns handle_request.simps list_sandbox_runs_def Let_def case_prod_beta
      by (intro replying_only on sees_list_runs)
  next
    case (GetRun i)
    show ?thesis unfolding GetRun handle_request.simps get_run_def
      by (intro replying_only on sees_and_then sees_find_run sees_give)
  next
    case (CancelRun i)
    show ?thesis unfolding CancelRun handle_request.simps
      by (intro replying_only cancel_run_only assms(2))
  qed (use assms(3) in \<open>simp_all add: creates_def\<close>)
qed

text \<open>Bob asks for the workflow of Alice: the answer is that of a server without it.\<close>

theorem requests_see_own_rows_witness:
  "handle_request sample_env bob (GetWorkflow ''demo'' 1) alice_world = (Inl WorkflowNotFound, alice_world)"
proof -
  have u: "en_user_id sample_env bob = Inr 2" by (simp add: sample_env_def bob_def)
  have "\<not> creates (GetWorkflow ''demo'' 1 :: unit wf_request)" by (simp add: creates_def)
  from requests_see_own_rows [OF alice_reach u this]
  have s: "map_prod id (only_rows 2) (handle_request sample_env bob (GetWorkflow ''demo'' 1) alice_world) =
      handle_request sample_env bob (GetWorkflow ''demo'' 1) (only_rows 2 alice_world)" by simp
  have "fst (handle_request sample_env bob (GetWorkflow ''demo'' 1) (only_rows 2 alice_world)) = Inl WorkflowNotFound"
    by (simp add: replying_def get_workflow_def as_owner_def engine_def owner_context_def sample_env_def bob_def on_db_def
        and_then_def load_owned_def query_def execute_def reading_def give_def only_rows_def own_db_def own_tables_def alice_world_eq
        ci_row_def ci_attached_def find_workflow_def Let_def)
  with s have "fst (handle_request sample_env bob (GetWorkflow ''demo'' 1) alice_world) = Inl WorkflowNotFound"
    by (metis fst_map_prod id_apply)
  moreover have "snd (handle_request sample_env bob (GetWorkflow ''demo'' 1) alice_world) = alice_world"
    by (simp add: replying_def get_workflow_def as_owner_def engine_def owner_context_def sample_env_def bob_def on_db_def
        and_then_def load_owned_def query_def execute_def reading_def give_def alice_world_eq
        ci_row_def ci_attached_def find_workflow_def Let_def)
  ultimately show ?thesis by (metis prod.collapse)
qed

end
