(* ===== verification/WfLaunch.thy ===== *)
theory WfLaunch
  imports WfIsolation
begin

text \<open>
  Launching a run, what is created is what is read, the bounds of the lists, instances of the
  theorems on concrete requests, and the cases in which the routes do not keep their promises.
\<close>

section \<open>Launching\<close>

definition ready_sandbox :: "'x wf_env \<Rightarrow> string \<Rightarrow> string \<Rightarrow> string \<Rightarrow> string option \<Rightarrow> bool" where
  "ready_sandbox E owner project scope sandbox =
     (case sandbox of
        None \<Rightarrow> scope = ''project''
      | Some n \<Rightarrow> scope = ''sandbox'' \<and> (\<exists>box. inspect_sandbox E owner n = Inr (Some box) \<and>
          cr_project box = project \<and> cr_phase box = Some ''Running''))"

definition launch_context :: "'x wf_env \<Rightarrow> app_user \<Rightarrow> int \<Rightarrow> string \<Rightarrow> string \<Rightarrow> string option \<Rightarrow> string \<Rightarrow> 'x definition_row \<Rightarrow> run_context" where
  "launch_context E user u owner project sandbox triggered_by d =
     \<lparr>rc_run_id = en_new_uuid E, rc_user = au_subject user, rc_user_id = u, rc_owner = owner, rc_project = project,
      rc_sandbox = sandbox, rc_triggered_by = triggered_by, rc_definition = df_name d\<rparr>"

definition runs_as :: "run_context \<Rightarrow> 'x wf_step list \<Rightarrow> 'x wf_step list \<Rightarrow> bool" where
  "runs_as ctx steps dag \<longleftrightarrow> map sd_id dag = map sd_id steps \<and> map sd_kind dag = map sd_kind steps \<and>
     (\<forall>s \<in> set dag. run_info (sd_config s) = Inr ctx)"

lemma check_sandbox_ok:
  assumes "check_sandbox E owner project sandbox = Inr ()" "launch_sandbox s sandbox = Inr b" "parse_scope scope = Inr s"
  shows "ready_sandbox E owner project scope sandbox"
  using assms
  by (cases sandbox) (auto simp: check_sandbox_def ready_sandbox_def launch_sandbox_def parse_scope_ok
      split: sum.splits option.splits if_splits run_scope.splits)

lemma prepare_launch_ok:
  assumes "prepare_launch E user u owner project req triggered_by (a, d) = Inr (b, dag)" "- (2 ^ 31) \<le> u" "u < 2 ^ 31"
  shows "b = req \<and> ready_sandbox E owner project (pw_scope a) req \<and> scope_ok (pw_scope a) (df_steps d) \<and>
    runs_as (launch_context E user u owner project req triggered_by d) (df_steps d) dag"
proof -
  from assms(1) obtain s where s: "parse_scope (pw_scope a) = Inr s" "launch_sandbox s req = Inr b"
      "validate_kinds (df_steps d) s = Inr ()" "check_sandbox E owner project b = Inr ()"
    and m: "materialize (df_steps d) s (launch_context E user u owner project b triggered_by d) = Inr dag"
    by (auto simp: prepare_launch_def launch_context_def split: sum.splits workflow_error.splits)
  have b: "b = req" using launch_sandbox_ok [OF s(2)] by simp
  have "ctx_ok (launch_context E user u owner project b triggered_by d)" using assms(2,3) by (simp add: ctx_ok_def launch_context_def)
  with m have "runs_as (launch_context E user u owner project b triggered_by d) (df_steps d) dag"
    by (auto simp: materialize_ok runs_as_def run_info_inject comp_def)
  moreover have "scope_ok (pw_scope a) (df_steps d)" using s(1,3) by (auto simp: scope_ok_def validate_kinds_ok)
  moreover have "ready_sandbox E owner project (pw_scope a) req" using check_sandbox_ok [OF s(4) _ s(1)] s(2) b by simp
  ultimately show ?thesis using b by simp
qed

text \<open>What a launch that reached the engine leaves: a line of the index, or a cancellation.\<close>

definition launch_outcome :: "app_error + run_launch \<Rightarrow> 'x engine_call list \<Rightarrow> run_handle \<Rightarrow> int \<Rightarrow> 'x wf_tables \<Rightarrow> 'x wf_tables \<Rightarrow> bool" where
  "launch_outcome r rest h u t t' =
     (case r of
        Inr l \<Rightarrow> rest = [] \<and> ru_invocation_id l = rh_invocation_id h \<and>
          (\<exists>row \<in> set (tb_runs t'). wr_run_id row = ru_run_id l \<and> wr_invocation_id row = rh_invocation_id h \<and> wr_owner row = u)
      | Inl e \<Rightarrow> rest = [CancelAsked (rh_invocation_id h)] \<and> app_error_status e = 500 \<and> t' = t)"

lemma trigger_outcome:
  assumes "trigger_and_index E u project triggered_by (a, d) (b, dag) w = (r, w')" "en_trigger E dag = Inr h"
  shows "\<exists>rest. ww_calls w' = ww_calls w @ Triggered dag h # rest \<and>
    launch_outcome r rest h u (db_tables (ww_db w)) (db_tables (ww_db w'))"
proof -
  let ?row = "\<lparr>wr_id = 0, wr_owner = u, wr_project = project, wr_sandbox = b,
                 wr_definition = Some (pw_definition a), wr_definition_name = df_name d,
                 wr_run_id = en_new_uuid E, wr_run_key = rh_run_key h, wr_invocation_id = rh_invocation_id h,
                 wr_scope = pw_scope a, wr_triggered_by = triggered_by, wr_started_at = en_now E\<rparr>"
  obtain x e where x: "execute (insert_run ?row) (ww_db w) = (x, e)" by fastforce
  show ?thesis
  proof (cases x)
    case (Inl y)
    then have "db_tables e = db_tables (ww_db w)" using execute_cases [OF x] by simp
    with assms x Inl show ?thesis
      by (auto simp: trigger_and_index_def Let_def call_made_def launch_outcome_def not_indexed_def app_error_status_def)
  next
    case (Inr y)
    then have "db_tables e = add_run ?row (db_tables (ww_db w))"
      using execute_cases [OF x] by (auto simp: insert_run_def add_run_def split: if_splits)
    with assms x Inr show ?thesis
      by (auto simp: trigger_and_index_def Let_def call_made_def launch_outcome_def add_run_def)
  qed
qed



section \<open>Creating and reading\<close>

lemma bare_full_name [simp]: "bare_name (full_name owner project name) owner project = name"
  using strip_prefix_append [of "owner @ ''/'' @ project @ ''/''" name] by (simp add: bare_name_def full_name_def)

lemma find_append_None: "List.find P (xs @ ys) = (case List.find P xs of None \<Rightarrow> List.find P ys | Some x \<Rightarrow> Some x)"
  by (induction xs) auto

lemma query_no_fault: "db_faults d = [] \<Longrightarrow> query (reading g) d = (Inr (g (db_tables d)), d)"
  by (simp add: query_def execute_def reading_def Let_def)

text \<open>
  What is created is what is read. A workflow that was created has the name, scope,
  description and steps of the request, although its definition is stored under a name with the
  owner and the project in front; and reading it under its identifier gives exactly the answer of
  the creation.
\<close>

theorem created_workflow_is_read_back:
  assumes "wf_reach w" "create_workflow E user project body w = (Inr v, w')" "db_faults (ww_db w') = []"
  shows "wd_name v = cb_name body \<and> wd_scope v = cb_scope body \<and> wd_description v = cb_description body \<and>
    wd_steps v = cb_steps body \<and> get_workflow E user project (wd_id v) w' = (Inr v, w')"
proof -
  let ?t = "db_tables (ww_db w)" and ?t' = "db_tables (ww_db w')"
  from assms(2) obtain rt u owner where o: "engine E = Inr rt" "owner_context E user = Inr (Some (u, owner))"
    and c: "on_db (create_workflow_db E user u owner project body) w = (Inr v, w')"
    by (auto simp: create_workflow_def as_owner_def split: sum.splits option.splits)
  from c obtain d' where d': "create_workflow_db E user u owner project body (ww_db w) = (Inr v, d')" "w' = w\<lparr>ww_db := d'\<rparr>"
    by (auto simp: on_db_eq)
  let ?row = "\<lparr>df_id = tb_next_definition ?t, df_name = full_name owner project (cb_name body), df_steps = cb_steps body, df_owner = Some u\<rparr>"
  let ?at = "\<lparr>pw_id = tb_next_workflow ?t, pw_owner = u, pw_project = project, pw_definition = tb_next_definition ?t,
           pw_scope = cb_scope body, pw_description = cb_description body\<rparr>"
  from create_db_step [OF d'(1)] d'(2) have
    t': "?t' = add_workflow u project (full_name owner project (cb_name body)) (cb_scope body) (cb_description body) (cb_steps body) ?t"
    and v: "v = detail ?at ?row owner project" by (auto simp: add_workflow_def)
  have ok: "tables_ok ?t" by (rule wf_tables_ok [OF assms(1)])
  have "List.find (\<lambda>a. pw_id a = tb_next_workflow ?t \<and> pw_owner a = u \<and> pw_project a = project) (tb_workflows ?t) = None"
    using ok by (auto simp: find_None_iff tables_ok_def workflows_ok_def)
  then have "find_workflow u project (tb_next_workflow ?t) ?t' = Some ?at"
    by (simp add: find_workflow_def t' add_workflow_def find_append_None)
  moreover have "List.find (\<lambda>d. df_id d = tb_next_definition ?t) (tb_definitions ?t) = None"
    using ok by (auto simp: find_None_iff tables_ok_def definitions_ok_def)
  then have "find_definition (tb_next_definition ?t) ?t' = Some ?row"
    by (simp add: find_definition_def t' add_workflow_def find_append_None)
  ultimately have "load_owned u project (tb_next_workflow ?t) (ww_db w') = (Inr (?at, ?row), ww_db w')"
    by (simp add: load_owned_def and_then_def query_no_fault assms(3) give_def)
  then have "get_workflow E user project (tb_next_workflow ?t) w' = (Inr v, w')"
    by (simp add: get_workflow_def as_owner_def o on_db_def and_then_def give_def v)
  then show ?thesis by (simp add: v detail_def)
qed

theorem created_workflow_is_read_back_witness:
  "get_workflow sample_env alice ''demo'' 1 alice_world = (Inr ci_detail, alice_world)"
proof -
  have c: "create_workflow sample_env alice ''demo'' ci_body start_world = (Inr ci_detail, alice_world)"
    by (simp add: alice_creates alice_world_eq)
  have "db_faults (ww_db alice_world) = []" by (simp add: alice_world_eq)
  from created_workflow_is_read_back [OF start_reach c this] show ?thesis by (simp add: ci_detail_def)
qed

section \<open>Bounds of the lists\<close>

text \<open>
  The list of the runs of a project is bounded whatever its parameters: at most fifty runs,
  from the latest to the earliest, none from before a window of at least one and at most fourteen
  days.
\<close>

theorem project_runs_bounded:
  "case fst (list_project_runs E user project q w) of
     Inl _ \<Rightarrow> True
   | Inr items \<Rightarrow> length items \<le> 50 \<and> sorted_wrt (\<lambda>a b. rl_started_at b \<le> rl_started_at a) items \<and>
       (items = [] \<or> (\<exists>days \<in> {1..14}. \<exists>cutoff. en_minus_days E days = Inr cutoff \<and> list_all (\<lambda>x. cutoff \<le> rl_started_at x) items))"
proof (cases "list_project_runs E user project q w")
  case (Pair r w')
  obtain limit since where b: "bounded_list q = (limit, since)" by fastforce
  then have bounds: "limit \<le> 50" "since \<in> {1..14}"
    by (auto simp: bounded_list_def RUNS_MAX_LIMIT_def RUNS_MAX_SINCE_DAYS_def split: option.splits)
  from Pair have "as_owner E user (Inr []) (\<lambda>_ u _. on_db (list_runs E u (Some project) None limit since)) w = (r, w')"
    by (simp add: list_project_runs_def b)
  then show ?thesis
  proof (cases rule: as_owner_cases)
    case (owner rt u owner)
    then obtain d where "list_runs E u (Some project) None limit since (ww_db w) = (r, d)" by (auto simp: on_db_eq)
    moreover have "length rows \<le> 50 \<and> sorted_wrt (\<lambda>a b. wr_started_at b \<le> wr_started_at a) rows \<and> list_all (\<lambda>x. cutoff \<le> wr_started_at x) rows"
      if "rows = runs_in_window u cutoff (Some project) None limit t" for rows cutoff and t :: "'a wf_tables"
    proof -
      let ?xs = "filter (\<lambda>r. wr_owner r = u \<and> cutoff \<le> wr_started_at r \<and> wr_project r = project) (tb_runs t)"
      have "sorted (map (\<lambda>r. - wr_started_at r) (sort_key (\<lambda>r. - wr_started_at r) ?xs))" by simp
      then have "sorted_wrt (\<lambda>a b. wr_started_at b \<le> wr_started_at a) (sort_key (\<lambda>r. - wr_started_at r) ?xs)"
        by (simp add: sorted_wrt_map)
      then have "sorted_wrt (\<lambda>a b. wr_started_at b \<le> wr_started_at a) rows"
        unfolding that by (simp add: runs_in_window_def sorted_wrt_take)
      moreover have "list_all (\<lambda>x. cutoff \<le> wr_started_at x) rows"
        unfolding that list_all_iff by (auto simp: runs_in_window_def dest!: in_set_takeD)
      moreover have "length rows \<le> 50" using bounds(1) by (simp add: that runs_in_window_def)
      ultimately show ?thesis by simp
    qed
    moreover have "\<exists>cutoff statuses. en_minus_days E since = Inr cutoff \<and>
        items = map (run_item statuses) (runs_in_window u cutoff (Some project) None limit (db_tables (ww_db w)))"
      if "list_runs E u (Some project) None limit since (ww_db w) = (Inr items, d)" for items
      using that
      by (auto simp: list_runs_def and_then_def give_def split: sum.splits prod.splits dest!: query_reading)
    ultimately show ?thesis
      using bounds(2) unfolding Pair fst_conv
      by (cases r) (fastforce simp: run_item_def sorted_wrt_map list_all_iff)+
  qed (auto simp: Pair)
qed

section \<open>Promises not kept\<close>

text \<open>
  Cancelling a run of a sandbox answers with an error when the cluster client cannot be built,
  although the invocation has been cancelled by then.
\<close>

lemma cancelled_but_refused:
  assumes "engine E = Inr rt" "owner_context E user = Inr (Some (u, owner))" "find_run u i (ww_db w) = (Inr r, d)"
    and "cancel rt (wr_invocation_id r) = Inr ()" "wr_sandbox r \<noteq> None" "en_cluster E = Inl e"
  shows "cancel_run E user i w = (Inl e, call_made (CancelAsked (wr_invocation_id r)) (w\<lparr>ww_db := d\<rparr>))"
  using assms by (auto simp: cancel_run_def as_owner_def Let_def)

text \<open>
  A name that is taken by another user of the same Owner is an internal error, not a conflict:
  the check looks at the definitions of the user, the table is unique over all.
\<close>

lemma homonym_owner_name_is_internal:
  "\<exists>e. fst (create_workflow (sample_env\<lparr>en_owner := \<lambda>_. Inr (Some ''alice'')\<rparr>) bob ''demo'' ci_body alice_world) = Inl e \<and>
     app_error_status e = 500"
  by (simp add: create_workflow_def as_owner_def engine_def owner_context_def sample_env_def bob_def ci_body_def alice_world_eq
      on_db_def create_workflow_db_def and_then_def give_def parse_scope_def validate_dag_def validate_kinds_def forged_step_def
      allowed_kinds_def transaction_def query_def execute_def reading_def insert_definition_def full_name_def ci_row_def
      db_error_def app_error_status_def Let_def)

text \<open>Two workflows of one owner in different projects may have one stored name.\<close>

lemma full_name_ambiguous: "full_name owner ''a'' ''b/c'' = full_name owner ''a/b'' ''c''"
  by (simp add: full_name_def)

text \<open>A failure of the cluster whose text holds 404 anywhere is answered as a sandbox that does not exist.\<close>

lemma failure_taken_for_absence:
  assumes "en_get_sandbox E owner n = Inl (VnyK8sApi (p @ ''404'' @ s))"
  shows "inspect_sandbox E owner n = Inr None"
proof -
  have "\<exists>a b. vny_error_text (VnyK8sApi (p @ ''404'' @ s)) = a @ ''404'' @ b"
    by (intro exI [of _ "''VNL-K8S-002: Kubernetes API error: '' @ p"] exI [of _ s]) simp
  then have "has_infix ''404'' (vny_error_text (VnyK8sApi (p @ ''404'' @ s)))" by (simp only: has_infix_iff)
  then show ?thesis by (simp add: inspect_sandbox_def assms Let_def del: vny_error_text.simps)
qed

end
