(* ===== verification/ToolsRead.thy ===== *)
theory ToolsRead
  imports NumText
begin

text \<open>
  What the tools of the agents answer, cut to size: \<open>tools/src/output.rs\<close> and the errors of
  \<open>tools/src/error.rs\<close>. Texts are UTF-8 bytes, sizes are numbers of bytes.
\<close>

section \<open>Errors\<close>

datatype tools_error =
    FileNotFound string string
  | NotAFile string
  | NotADirectory string
  | PermissionDenied string
  | InvalidArgument string string
  | EditNoMatch string string
  | EditAmbiguous string nat
  | CommandTimeout nat
  | IoError string string

definition em_dash :: string where
  "em_dash = map char_of [0xE2, 0x80, 0x94 :: nat]"

fun tools_error_text :: "tools_error \<Rightarrow> string" where
  "tools_error_text (FileNotFound p hint) = ''VNL-TLS-001: file not found: '' @ p @ hint"
| "tools_error_text (NotAFile p) = ''VNL-TLS-002: not a file: '' @ p @ '' (it is a directory '' @ em_dash @ '' use list_directory)''"
| "tools_error_text (NotADirectory p) = ''VNL-TLS-003: not a directory: '' @ p @ '' (it is a file '' @ em_dash @ '' use read_file)''"
| "tools_error_text (PermissionDenied p) = ''VNL-TLS-004: permission denied: '' @ p"
| "tools_error_text (InvalidArgument n reason) = ''VNL-TLS-005: invalid argument '' @ n @ '': '' @ reason"
| "tools_error_text (EditNoMatch p hint) =
     ''VNL-TLS-006: string not found in '' @ p @ '': no occurrence of the provided old_string'' @ hint"
| "tools_error_text (EditAmbiguous p count) =
     ''VNL-TLS-007: '' @ show_nat count @ '' occurrences of old_string in '' @ p @ '' '' @ em_dash @
     '' pass replace_all=true or provide a more specific old_string''"
| "tools_error_text (CommandTimeout s) =
     ''VNL-TLS-008: command timed out after '' @ show_nat s @ ''s (partial output kept)''"
| "tools_error_text (IoError p source) = ''VNL-TLS-009: I/O error on '' @ p @ '': '' @ source"

section \<open>Bounds\<close>

definition READ_MAX_LINES :: nat where "READ_MAX_LINES = 200"
definition READ_MAX_BYTES :: nat where "READ_MAX_BYTES = 16 * 1024"
definition LIST_MAX_ENTRIES :: nat where "LIST_MAX_ENTRIES = 200"
definition SEARCH_MAX_MATCHES :: nat where "SEARCH_MAX_MATCHES = 50"
definition COMMAND_MAX_BYTES :: nat where "COMMAND_MAX_BYTES = 8 * 1024"

section \<open>Lines of a reading\<close>

text \<open>The loop that drops lines from the end; the number counts its turns.\<close>

fun shrink :: "nat \<Rightarrow> nat \<Rightarrow> string \<Rightarrow> string" where
  "shrink 0 max_bytes r = r"
| "shrink (Suc k) max_bytes r =
     (let r' = (case rsplit_once nl r of Some (a, b) \<Rightarrow> a | None \<Rightarrow> r)
      in if length r' \<le> max_bytes then r' else shrink k max_bytes r')"

text \<open>What is returned, and if something was cut, how many lines are missing and where to go on.\<close>

definition cut_lines :: "string \<Rightarrow> nat \<Rightarrow> nat \<Rightarrow> nat \<Rightarrow> string \<times> (nat \<times> nat) option" where
  "cut_lines text offset max_lines max_bytes =
     (if text = [] then ([], None)
      else
        let lines = str_lines text;
            total_lines = length lines;
            line_limit = min total_lines max_lines;
            r = join_with nl (take line_limit lines);
            result = (if max_bytes < length r then shrink line_limit max_bytes r else r);
            returned = (if result = [] then 0 else length (str_lines result))
        in (result, if returned < total_lines then Some (total_lines - returned, sat_add U64_MAX offset returned) else None))"

definition truncated_marker :: "nat \<Rightarrow> nat \<Rightarrow> string" where
  "truncated_marker remaining next_offset =
     [nl] @ ''[truncated '' @ em_dash @ '' '' @ show_nat remaining @ '' more lines, call again with offset='' @
     show_nat next_offset @ '']''"

definition bound_lines :: "string \<Rightarrow> nat \<Rightarrow> nat \<Rightarrow> nat \<Rightarrow> string" where
  "bound_lines text offset max_lines max_bytes =
     (case cut_lines text offset max_lines max_bytes of
        (result, None) \<Rightarrow> result
      | (result, Some (remaining, next_offset)) \<Rightarrow> result @ truncated_marker remaining next_offset)"

text \<open>A number right-aligned in five columns, a tabulator, the line.\<close>

definition pad5 :: "nat \<Rightarrow> string" where
  "pad5 n = replicate (5 - length (show_nat n)) CHR 0x20 @ show_nat n"

definition numbered :: "nat \<Rightarrow> string \<Rightarrow> string" where
  "numbered n line = pad5 n @ CHR 0x09 # line"

definition number_lines :: "string \<Rightarrow> nat \<Rightarrow> string" where
  "number_lines text start_line =
     (if text = [] then []
      else join_with nl (map (\<lambda>(i, line). numbered (sat_add U64_MAX start_line i) line)
             (List.enumerate 0 (str_lines text))))"

section \<open>Head and tail of a command's output\<close>

text \<open>\<open>n\<close> is what the loop has added up, \<open>first\<close> whether no line was taken yet.\<close>

fun lines_within :: "nat \<Rightarrow> nat \<Rightarrow> bool \<Rightarrow> string list \<Rightarrow> nat" where
  "lines_within max_bytes n first [] = 0"
| "lines_within max_bytes n first (l # ls) =
     (let next_len = sat_add U64_MAX n (if first then length l else sat_add U64_MAX (length l) 1)
      in if max_bytes < next_len then 0 else Suc (lines_within max_bytes next_len False ls))"

definition find_split :: "string list \<Rightarrow> nat \<Rightarrow> nat" where
  "find_split lines max_bytes = lines_within max_bytes 0 True lines"

definition find_count_from_end :: "string list \<Rightarrow> nat \<Rightarrow> nat" where
  "find_count_from_end lines max_bytes = lines_within max_bytes 0 True (rev lines)"

definition bytes_marker :: "nat \<Rightarrow> string" where
  "bytes_marker n = ''[... '' @ show_nat n @ '' bytes truncated ...]''"

definition around :: "string \<Rightarrow> string \<Rightarrow> string \<Rightarrow> string" where
  "around header marker footer = header @ [nl] @ marker @ [nl] @ footer"

text \<open>The last loop: the footer recedes until the text fits or one line of it is left.\<close>

function recede :: "string list \<Rightarrow> string \<Rightarrow> string \<Rightarrow> nat \<Rightarrow> nat \<Rightarrow> string" where
  "recede lines header marker max_bytes start =
     (let r = around header marker (join_with nl (drop start lines))
      in if length r \<le> max_bytes \<or> length lines - 1 \<le> start then r
         else recede lines header marker max_bytes (Suc start))"
  by pat_completeness auto
termination
  by (relation "measure (\<lambda>(lines, h, m, b, start). length lines - start)") auto

declare recede.simps [simp del]

definition bound_head_tail :: "string \<Rightarrow> nat \<Rightarrow> string" where
  "bound_head_tail text max_bytes =
     (if text = [] \<or> length text \<le> max_bytes then text
      else
        let lines = str_lines text;
            marker = bytes_marker (length text - max_bytes);
            budget = max_bytes - sat_add U64_MAX (length marker) 2;
            half = budget div 2;
            split_point = find_split lines half;
            footer_len = min (find_count_from_end lines half) (length lines - split_point);
            header = join_with nl (take split_point lines);
            footer_start = length lines - footer_len;
            result = around header marker (join_with nl (drop footer_start lines))
        in if max_bytes < length result then recede lines header marker max_bytes footer_start else result)"

section \<open>Reading and replacing\<close>

text \<open>
  What \<open>read_file\<close> and \<open>edit_file\<close> (\<open>tools/src/filesystem.rs\<close>) do with the content of a file:
  the window of numbered lines, the replacement, and the closest line an unsuccessful edit names.
\<close>

section \<open>Reading\<close>

record read_options =
  ro_path :: string
  ro_offset :: nat
  ro_limit :: nat
  ro_raw :: bool

definition effective_limit :: "nat \<Rightarrow> nat" where
  "effective_limit limit = (if limit = 0 then READ_MAX_LINES else limit)"

text \<open>The numbered text from a line on, before it is cut.\<close>

definition numbered_from :: "string \<Rightarrow> nat \<Rightarrow> string" where
  "numbered_from content offset =
     number_lines (join_with nl (drop offset (str_lines content))) (sat_add U64_MAX offset 1)"

definition read_text :: "string \<Rightarrow> read_options \<Rightarrow> tools_error + string" where
  "read_text content opts =
     (let offset = ro_offset opts; total = length (str_lines content) in
      if ro_raw opts then Inr content
      else if total = 0 then
        (if offset = 0 then Inr [] else Inl (InvalidArgument ''offset'' ''file is empty''))
      else if total \<le> offset then
        Inl (InvalidArgument ''offset''
          (''file has '' @ show_nat total @ '' lines, offset '' @ show_nat offset @ '' is out of range''))
      else Inr (bound_lines (numbered_from content offset) offset (effective_limit (ro_limit opts)) READ_MAX_BYTES))"

section \<open>Editing\<close>

record edit_options =
  eo_path :: string
  eo_old :: string
  eo_new :: string
  eo_all :: bool

text \<open>\<open>content.matches(p).count()\<close>: non-overlapping occurrences, from the left.\<close>

function match_count :: "string \<Rightarrow> string \<Rightarrow> nat" where
  "match_count p s =
     (if p = [] then 0
      else case s of [] \<Rightarrow> 0
        | c # cs \<Rightarrow> (case strip_prefix p s of Some r \<Rightarrow> Suc (match_count p r) | None \<Rightarrow> match_count p cs))"
  by pat_completeness auto
termination
  by (relation "measure (\<lambda>(p, s). length s)") (auto simp: strip_prefix_Some_iff)

declare match_count.simps [simp del]

text \<open>\<open>content.replacen(p, to, 1)\<close>.\<close>

fun replace_first :: "string \<Rightarrow> string \<Rightarrow> string \<Rightarrow> string" where
  "replace_first p to [] = (if p = [] then to else [])"
| "replace_first p to (c # cs) =
     (case strip_prefix p (c # cs) of Some r \<Rightarrow> to @ r | None \<Rightarrow> c # replace_first p to cs)"

text \<open>One row of the table from the one above it: the left neighbour is \<open>l\<close>, the one above it \<open>d\<close>.\<close>

fun next_row :: "char \<Rightarrow> nat \<Rightarrow> string \<Rightarrow> nat \<Rightarrow> nat list \<Rightarrow> nat list" where
  "next_row x l (y # ys) d (u # us) =
     (let v = min (min (u + 1) (l + 1)) (d + (if x \<noteq> y then 1 else 0)) in v # next_row x v ys u us)"
| "next_row x l ys d us = []"

text \<open>The rows, from the empty prefix on: \<open>i\<close> characters were read.\<close>

fun rows_from :: "nat \<Rightarrow> string \<Rightarrow> string \<Rightarrow> nat list \<Rightarrow> nat list" where
  "rows_from i [] b prev = prev"
| "rows_from i (x # xs) b prev = rows_from (Suc i) xs b (Suc i # next_row x (Suc i) b (hd prev) (tl prev))"

definition levenshtein_distance :: "string \<Rightarrow> string \<Rightarrow> nat" where
  "levenshtein_distance a b =
     (if a = [] then length b else if b = [] then length a else rows_from 0 a b [0..<length b + 1] ! length b)"

fun closest_line :: "string \<Rightarrow> string list \<Rightarrow> string \<Rightarrow> nat \<Rightarrow> string" where
  "closest_line needle [] best best_dist = best"
| "closest_line needle (l # ls) best best_dist =
     (let t = str_trim l; dist = levenshtein_distance needle t
      in if dist < best_dist then closest_line needle ls t dist else closest_line needle ls best best_dist)"

definition closest_line_hint :: "string \<Rightarrow> string \<Rightarrow> string" where
  "closest_line_hint content needle =
     (case str_lines content of
        [] \<Rightarrow> []
      | l # ls \<Rightarrow>
          (let needle = str_trim needle; best = str_trim l
           in ''. Closest line in file: '' @ [CHR 0x27] @
              closest_line needle ls best (levenshtein_distance needle best) @ [CHR 0x27]))"

text \<open>The new content and the number of replacements.\<close>

definition edit_text :: "string \<Rightarrow> edit_options \<Rightarrow> tools_error + string \<times> nat" where
  "edit_text content opts =
     (let count = match_count (eo_old opts) content in
      if count = 0 then Inl (EditNoMatch (eo_path opts) (closest_line_hint content (eo_old opts)))
      else if 1 < count \<and> \<not> eo_all opts then Inl (EditAmbiguous (eo_path opts) count)
      else if eo_all opts then Inr (replace_all (eo_old opts) (eo_new opts) content, count)
      else Inr (replace_first (eo_old opts) (eo_new opts) content, 1))"

definition edited_message :: "string \<Rightarrow> nat \<Rightarrow> string" where
  "edited_message p n = ''edited '' @ p @ '': '' @ show_nat n @ '' replacement(s)''"

end
