(* ===== verification/ToolsReadProps.thy ===== *)
theory ToolsReadProps
  imports ToolsRead
begin

text \<open>
  Properties of the texts of the tools: reading a file page by page, the size of a command's
  output, the exactness of an edit, and the edit distance.
\<close>

section \<open>Joined lines\<close>

definition no_breaks :: "string list \<Rightarrow> bool" where
  "no_breaks ls \<longleftrightarrow> (\<forall>l \<in> set ls. nl \<notin> set l \<and> cr \<notin> set l)"

definition no_blank :: "string list \<Rightarrow> bool" where
  "no_blank ls \<longleftrightarrow> [] \<notin> set ls"

text \<open>Lines read again: a last line that is blank is lost.\<close>

definition reread :: "string list \<Rightarrow> string list" where
  "reread ls = (if ls \<noteq> [] \<and> last ls = [] then butlast ls else ls)"

lemma split_on_join:
  "no_breaks ls \<Longrightarrow> ls \<noteq> [] \<Longrightarrow> split_on nl (join_with nl ls) = ls"
  by (rule split_join_with) (auto simp: no_breaks_def)

lemma str_lines_join:
  assumes "no_breaks ls"
  shows "str_lines (join_with nl ls) = reread ls"
proof (cases "ls = []")
  case False
  have "map strip_cr (butlast ls) = butlast ls"
    using assms by (intro map_idI strip_cr_id) (auto simp: no_breaks_def dest: in_set_butlastD)
  then show ?thesis
    using False by (simp add: str_lines_def split_on_join assms reread_def)
qed (simp add: reread_def)

lemma no_breaks_take: "no_breaks ls \<Longrightarrow> no_breaks (take n ls)"
  by (auto simp: no_breaks_def dest: in_set_takeD)

lemma no_breaks_drop: "no_breaks ls \<Longrightarrow> no_breaks (drop n ls)"
  by (auto simp: no_breaks_def dest: in_set_dropD)

lemma no_breaks_reread: "no_breaks ls \<Longrightarrow> no_breaks (reread ls)"
  by (auto simp: no_breaks_def reread_def dest: in_set_butlastD)

lemma reread_no_blank: "no_blank ls \<Longrightarrow> reread ls = ls"
  by (auto simp: no_blank_def reread_def) (metis last_in_set)

lemma join_Nil_iff: "join_with nl ls = [] \<longleftrightarrow> ls = [] \<or> ls = [[]]"
  by (cases ls rule: list.exhaust; cases "tl ls") (auto simp: join_with_Cons)

lemma str_lines_no_breaks: "cr \<notin> set s \<Longrightarrow> no_breaks (str_lines s)"
proof -
  assume a: "cr \<notin> set s"
  have *: "nl \<notin> set p \<and> cr \<notin> set p" if "p \<in> set (split_on nl s)" for p
    using that a split_on_no_sep [of p nl s] set_split_on [of p nl s] by auto
  then have "map strip_cr (butlast (split_on nl s)) = butlast (split_on nl s)"
    by (intro map_idI strip_cr_id) (auto dest: in_set_butlastD)
  then show ?thesis
    using * by (auto simp: str_lines_def Let_def no_breaks_def dest: in_set_butlastD)
qed

lemma rsplit_once_join:
  assumes "nl \<notin> set x" "ls \<noteq> []"
  shows "rsplit_once nl (join_with nl (ls @ [x])) = Some (join_with nl ls, x)"
proof -
  have "rev (join_with nl (ls @ [x])) = rev x @ nl # rev (join_with nl ls)"
    using assms(2) by (simp add: join_with_append)
  then show ?thesis
    using split_once_append [of nl "rev x" "rev (join_with nl ls)"] assms(1) by (simp add: rsplit_once_def)
qed

lemma rsplit_once_absent: "nl \<notin> set x \<Longrightarrow> rsplit_once nl x = None"
  using split_once_None [of nl "rev x"] by (simp add: rsplit_once_def)

section \<open>Cutting lines\<close>

lemma shrink_line: "nl \<notin> set x \<Longrightarrow> shrink k m x = x"
  by (induction k) (simp_all add: rsplit_once_absent Let_def)

lemma shrink_join:
  assumes "no_breaks ls" "ls \<noteq> []" "length ls \<le> k"
  shows "\<exists>j. 1 \<le> j \<and> j \<le> length ls \<and> shrink k m (join_with nl ls) = join_with nl (take j ls) \<and>
    (length (join_with nl (take j ls)) \<le> m \<or> j = 1)"
  using assms
proof (induction ls arbitrary: k rule: rev_induct)
  case (snoc x ls)
  then obtain k' where k: "k = Suc k'" by (cases k) auto
  have x: "nl \<notin> set x" and ls: "no_breaks ls" using snoc.prems(1) by (auto simp: no_breaks_def)
  show ?case
  proof (cases "ls = []")
    case True
    then show ?thesis using x by (intro exI [of _ 1]) (simp add: shrink_line)
  next
    case False
    note step = rsplit_once_join [OF x False]
    show ?thesis
    proof (cases "length (join_with nl ls) \<le> m")
      case True
      then show ?thesis using False
        by (intro exI [of _ "length ls"]) (auto simp: k step Suc_le_eq)
    next
      case False2: False
      from snoc.IH [OF ls False, of k'] snoc.prems(3) obtain j where
        "1 \<le> j" "j \<le> length ls" "shrink k' m (join_with nl ls) = join_with nl (take j ls)"
        "length (join_with nl (take j ls)) \<le> m \<or> j = 1" by (auto simp: k)
      then show ?thesis using False2 by (intro exI [of _ j]) (auto simp: k step)
    qed
  qed
qed simp

lemma cut_lines_join:
  assumes "no_breaks ls" "no_blank ls" "ls \<noteq> []" "1 \<le> n"
  shows "\<exists>j. 1 \<le> j \<and> j \<le> length ls \<and> j \<le> n \<and>
    (length (join_with nl (take j ls)) \<le> m \<or> j = 1) \<and>
    cut_lines (join_with nl ls) off n m =
      (join_with nl (take j ls), if j < length ls then Some (length ls - j, sat_add U64_MAX off j) else None)"
proof -
  have lines: "str_lines (join_with nl (take j ls)) = take j ls" for j
    using assms(2) by (simp add: str_lines_join no_breaks_take assms(1) reread_no_blank no_blank_def) (metis in_set_takeD reread_no_blank no_blank_def)
  have ne: "join_with nl (take j ls) \<noteq> []" if "1 \<le> j" for j
    using that assms(2,3) by (cases ls) (auto simp: join_Nil_iff no_blank_def take_Cons')
  have all: "join_with nl ls \<noteq> []" "str_lines (join_with nl ls) = ls"
    using ne [of "length ls"] lines [of "length ls"] assms(3) by (auto simp: Suc_le_eq)
  define i where "i = min (length ls) n"
  have i: "1 \<le> i" "i \<le> length ls" "i \<le> n" using assms(3,4) by (auto simp: i_def Suc_le_eq)
  have "\<exists>j. 1 \<le> j \<and> j \<le> i \<and> (length (join_with nl (take j ls)) \<le> m \<or> j = 1) \<and>
      (if m < length (join_with nl (take i ls)) then shrink i m (join_with nl (take i ls)) else join_with nl (take i ls)) =
        join_with nl (take j ls)"
  proof (cases "m < length (join_with nl (take i ls))")
    case True
    have len: "length (take i ls) = i" using i by simp
    obtain j where j: "1 \<le> j" "j \<le> i" "shrink i m (join_with nl (take i ls)) = join_with nl (take j (take i ls))"
      "length (join_with nl (take j (take i ls))) \<le> m \<or> j = 1"
    proof -
      have "no_breaks (take i ls)" "take i ls \<noteq> []" "length (take i ls) \<le> i"
        using i assms(3) by (simp_all add: no_breaks_take assms(1) len)
      from shrink_join [OF this, of m] show thesis using that unfolding len by blast
    qed
    have "take j (take i ls) = take j ls" using j(2) by (simp add: min_def)
    then show ?thesis using True j by (intro exI [of _ j]) simp
  next
    case False
    then show ?thesis using i by (intro exI [of _ i]) auto
  qed
  then obtain j where j: "1 \<le> j" "j \<le> i" "length (join_with nl (take j ls)) \<le> m \<or> j = 1"
    "(if m < length (join_with nl (take i ls)) then shrink i m (join_with nl (take i ls)) else join_with nl (take i ls)) =
        join_with nl (take j ls)" by blast
  have len: "length (take j ls) = j" using j i by simp
  have "cut_lines (join_with nl ls) off n m =
      (join_with nl (take j ls), if length (take j ls) < length ls
        then Some (length ls - length (take j ls), sat_add U64_MAX off (length (take j ls))) else None)"
    by (simp only: cut_lines_def Let_def all if_False i_def [symmetric] j(4) ne [OF j(1)] lines)
  then show ?thesis
    using j(1-3) i unfolding len by (intro exI [of _ j]) simp
qed

section \<open>Reading page by page\<close>

text \<open>The lines a reading shows, and the numbered lines from \<open>a\<close> up to \<open>b\<close>.\<close>

definition shown_lines :: "string \<Rightarrow> string list" where
  "shown_lines content = reread (str_lines content)"

definition page :: "string \<Rightarrow> nat \<Rightarrow> nat \<Rightarrow> string list" where
  "page content a b = map (\<lambda>i. numbered (Suc i) (shown_lines content ! i)) [a..<b]"

lemma page_append: "a \<le> b \<Longrightarrow> b \<le> c \<Longrightarrow> page content a b @ page content b c = page content a c"
  using upt_add_eq_append [of a b "c - b"] by (simp add: page_def flip: map_append)

lemma length_page [simp]: "length (page content a b) = b - a"
  by (simp add: page_def)

lemma join_page_Nil: "join_with nl (page content a b) = [] \<longleftrightarrow> b \<le> a"
proof -
  have "page content a b \<noteq> [[]]"
  proof
    assume "page content a b = [[]]"
    then have "[] \<in> set (page content a b)" by simp
    then show False by (auto simp: page_def numbered_def)
  qed
  then show ?thesis by (simp add: join_Nil_iff) (auto simp: page_def)
qed

lemma take_page: "a + j \<le> b \<Longrightarrow> take j (page content a b) = page content a (a + j)"
  by (simp add: page_def take_map)

lemma numbered_breaks: "nl \<notin> set l \<and> cr \<notin> set l \<Longrightarrow> nl \<notin> set (numbered n l) \<and> cr \<notin> set (numbered n l)"
  using show_nat_digits [of n] by (auto simp: numbered_def pad5_def is_digit_def)

lemma numbered_ne [simp]: "numbered n l \<noteq> []"
  by (simp add: numbered_def)

lemma reread_drop:
  "n < length ls \<Longrightarrow> reread (drop n ls) = drop n (reread ls)"
  by (auto simp: reread_def butlast_drop)

lemma length_split_on: "length (split_on c s) \<le> Suc (length s)"
proof (induction s)
  case (Cons x s)
  obtain y ys where "split_on c s = y # ys" using split_on_nonempty by (cases "split_on c s") auto
  with Cons show ?case by auto
qed simp

lemma length_str_lines: "length (str_lines s) \<le> length s"
proof (cases "last (split_on nl s) = []")
  case True
  then show ?thesis using length_split_on [of nl s] by (simp add: str_lines_def)
next
  case False
  have "length (split_on nl s) \<le> length s"
  proof (rule ccontr)
    assume "\<not> length (split_on nl s) \<le> length s"
    then have eq: "length (split_on nl s) = Suc (length s)" using length_split_on [of nl s] by simp
    have "\<forall>x \<in> set s. x = nl" using eq
    proof (induction s)
      case (Cons x s)
      obtain y ys where y: "split_on nl s = y # ys" using split_on_nonempty by (cases "split_on nl s") auto
      with Cons.prems have "x = nl" using length_split_on [of nl s] by (auto split: if_splits)
      with Cons y show ?case by simp
    qed simp
    moreover have "last (split_on nl s) \<noteq> []" by (rule False)
    moreover have "set (last (split_on nl s)) \<subseteq> set s" by (rule set_split_on [of _ nl]) simp
    moreover have "nl \<notin> set (last (split_on nl s))" by (rule split_on_no_sep [of _ nl s]) (simp add: last_in_set)
    ultimately show False by (metis last_in_set subsetD)
  qed
  then show ?thesis using False by (simp add: str_lines_def Let_def)
qed

lemma length_shown_lines: "length (shown_lines s) \<le> length (str_lines s)"
  by (simp add: shown_lines_def reread_def)

lemma length_shown: "length (shown_lines s) \<le> length s"
  using length_shown_lines length_str_lines by (rule order_trans)

lemma enumerate_numbered:
  assumes "a + length ls < U64_MAX"
  shows "map (\<lambda>(i, l). numbered (sat_add U64_MAX (sat_add U64_MAX a 1) i) l) (List.enumerate 0 ls) =
    map (\<lambda>i. numbered (Suc (a + i)) (ls ! i)) [0..<length ls]"
proof (rule nth_equalityI)
  fix i assume i: "i < length (map (\<lambda>(i, l). numbered (sat_add U64_MAX (sat_add U64_MAX a 1) i) l) (List.enumerate 0 ls))"
  then have "sat_add U64_MAX (sat_add U64_MAX a 1) i = Suc (a + i)" using assms by (simp add: sat_add_def)
  then show "map (\<lambda>(i, l). numbered (sat_add U64_MAX (sat_add U64_MAX a 1) i) l) (List.enumerate 0 ls) ! i =
      map (\<lambda>i. numbered (Suc (a + i)) (ls ! i)) [0..<length ls] ! i"
    using i by (simp add: nth_enumerate_eq)
qed simp

lemma numbered_from_page:
  assumes "cr \<notin> set content" "length content < U64_MAX" "offset < length (str_lines content)"
  shows "numbered_from content offset = join_with nl (page content offset (length (shown_lines content)))"
proof -
  let ?ls = "str_lines content" and ?ss = "shown_lines content"
  have nb: "no_breaks (drop offset ?ls)" by (intro no_breaks_drop str_lines_no_breaks assms)
  have re: "reread (drop offset ?ls) = drop offset ?ss"
    by (simp add: reread_drop assms(3) shown_lines_def)
  have le: "length ?ss \<le> length ?ls" by (simp add: shown_lines_def reread_def)
  have small: "offset + length (drop offset ?ss) < U64_MAX"
    using assms(2,3) le length_str_lines [of content] by simp
  have sat: "sat_add U64_MAX offset 1 = sat_add U64_MAX offset 1" ..
  have eq: "map (\<lambda>i. numbered (Suc (offset + i)) (drop offset ?ss ! i)) [0..<length (drop offset ?ss)] =
      page content offset (length ?ss)"
    by (rule nth_equalityI) (auto simp: page_def)
  show ?thesis
  proof (cases "join_with nl (drop offset ?ls) = []")
    case True
    then have "reread (drop offset ?ls) = []" by (auto simp: join_Nil_iff reread_def)
    then have "page content offset (length ?ss) = []" unfolding re by (simp add: page_def)
    then show ?thesis by (simp add: numbered_from_def number_lines_def True)
  next
    case False
    then show ?thesis
      unfolding numbered_from_def number_lines_def str_lines_join [OF nb] re enumerate_numbered [OF small] eq by simp
  qed
qed

lemma page_lines:
  assumes "cr \<notin> set content" "b \<le> length (shown_lines content)"
  shows "no_breaks (page content a b)" "no_blank (page content a b)"
proof -
  have "no_breaks (shown_lines content)"
    by (simp add: shown_lines_def no_breaks_reread str_lines_no_breaks assms(1))
  then have "nl \<notin> set (shown_lines content ! i) \<and> cr \<notin> set (shown_lines content ! i)" if "i < b" for i
    using that assms(2) by (simp add: no_breaks_def)
  then show "no_breaks (page content a b)" using numbered_breaks by (auto simp: no_breaks_def page_def)
  show "no_blank (page content a b)" by (auto simp: no_blank_def page_def dest!: sym [of "[]"])
qed

lemma effective_limit_pos: "1 \<le> effective_limit limit"
  by (simp add: effective_limit_def READ_MAX_LINES_def)

lemma cut_page:
  assumes "cr \<notin> set content" "length content < U64_MAX" "offset < length (str_lines content)" "1 \<le> n"
  shows "\<exists>k. cut_lines (numbered_from content offset) offset n m =
        (join_with nl (page content offset (offset + k)),
         if offset + k < length (shown_lines content) then Some (length (shown_lines content) - (offset + k), offset + k) else None)
      \<and> k \<le> n \<and> (offset < length (shown_lines content) \<longrightarrow> 1 \<le> k \<and> offset + k \<le> length (shown_lines content))
      \<and> (length (join_with nl (page content offset (offset + k))) \<le> m \<or> k = 1)"
proof (cases "offset < length (shown_lines content)")
  case False
  then have "numbered_from content offset = []"
    by (simp add: numbered_from_page assms page_def)
  then show ?thesis using False by (intro exI [of _ 0]) (simp add: cut_lines_def page_def)
next
  case True
  let ?e = "length (shown_lines content)"
  have "?e \<le> length (str_lines content)" by (simp add: shown_lines_def reread_def)
  then have small: "?e \<le> U64_MAX" using length_str_lines [of content] assms(2) by simp
  have ne: "page content offset ?e \<noteq> []" using True length_page [of content offset ?e] by fastforce
  obtain j where j: "1 \<le> j" "j \<le> ?e - offset" "j \<le> n"
    "length (join_with nl (take j (page content offset ?e))) \<le> m \<or> j = 1"
    "cut_lines (numbered_from content offset) offset n m =
      (join_with nl (take j (page content offset ?e)),
       if j < ?e - offset then Some (?e - offset - j, sat_add U64_MAX offset j) else None)"
    using cut_lines_join [OF page_lines(1) [OF assms(1) order_refl] page_lines(2) [OF assms(1) order_refl] ne assms(4), of m offset]
    unfolding numbered_from_page [OF assms(1,2,3)] length_page by blast
  have "sat_add U64_MAX offset j = offset + j" using j(2) True small by (simp add: sat_add_def)
  moreover have "take j (page content offset ?e) = page content offset (offset + j)"
    using j(2) True by (intro take_page) simp
  ultimately show ?thesis using j True by (intro exI [of _ j]) auto
qed

text \<open>One reading of \<open>read_file\<close>: from its offset, numbered lines without a gap, at least one if one is left to show, at most as many as asked for and at most 16384 bytes unless it is a single line, and the marker gives the lines that are left and the place to go on, or is absent exactly if none is left.\<close>

theorem read_shows_lines:
  assumes "cr \<notin> set content" and "length content < U64_MAX"
    and "ro_offset opts < length (str_lines content)" and "\<not> ro_raw opts"
  shows "\<exists>k. let o1 = ro_offset opts; o2 = o1 + k; n = length (shown_lines content); body = join_with nl (page content o1 o2) in
    read_text content opts = Inr (body @ (if o2 < n then truncated_marker (n - o2) o2 else []))
    \<and> k \<le> effective_limit (ro_limit opts) \<and> (o1 < n \<longrightarrow> 1 \<le> k \<and> o2 \<le> n)
    \<and> (length body \<le> READ_MAX_BYTES \<or> k = 1)"
proof -
  note c = cut_page [OF assms(1-3) effective_limit_pos, of "ro_limit opts" READ_MAX_BYTES]
  then obtain k where k: "cut_lines (numbered_from content (ro_offset opts)) (ro_offset opts) (effective_limit (ro_limit opts)) READ_MAX_BYTES =
        (join_with nl (page content (ro_offset opts) (ro_offset opts + k)),
         if ro_offset opts + k < length (shown_lines content)
         then Some (length (shown_lines content) - (ro_offset opts + k), ro_offset opts + k) else None)"
      "k \<le> effective_limit (ro_limit opts)"
      "ro_offset opts < length (shown_lines content) \<longrightarrow> 1 \<le> k \<and> ro_offset opts + k \<le> length (shown_lines content)"
      "length (join_with nl (page content (ro_offset opts) (ro_offset opts + k))) \<le> READ_MAX_BYTES \<or> k = 1"
    by blast
  then show ?thesis
    using assms(3,4) by (intro exI [of _ k]) (auto simp: read_text_def Let_def bound_lines_def)
qed

section \<open>Following the markers\<close>

text \<open>A reader that starts at a line and goes on where the marker says, as often as the fuel allows.\<close>

fun read_through :: "nat \<Rightarrow> string \<Rightarrow> nat \<Rightarrow> nat \<Rightarrow> string list option" where
  "read_through 0 content limit offset = None"
| "read_through (Suc f) content limit offset =
     (case cut_lines (numbered_from content offset) offset (effective_limit limit) READ_MAX_BYTES of
        (body, None) \<Rightarrow> Some [body]
      | (body, Some (remaining, next_offset)) \<Rightarrow> map_option (Cons body) (read_through f content limit next_offset))"

lemma read_through_from:
  assumes "cr \<notin> set content" "length content < U64_MAX" "offset < length (str_lines content)"
    "length (shown_lines content) - offset < f"
  shows "\<exists>ps. read_through f content limit offset = Some ps \<and> ps \<noteq> [] \<and>
    join_with nl ps = join_with nl (page content offset (length (shown_lines content)))"
  using assms(3,4)
proof (induction f arbitrary: offset)
  case (Suc f)
  let ?n = "length (shown_lines content)"
  obtain k where k: "cut_lines (numbered_from content offset) offset (effective_limit limit) READ_MAX_BYTES =
        (join_with nl (page content offset (offset + k)),
         if offset + k < ?n then Some (?n - (offset + k), offset + k) else None)"
      "offset < ?n \<longrightarrow> 1 \<le> k \<and> offset + k \<le> ?n"
    using cut_page [OF assms(1,2) Suc.prems(1) effective_limit_pos, of limit READ_MAX_BYTES] by blast
  have le: "?n \<le> length (str_lines content)" by (simp add: shown_lines_def reread_def)
  show ?case
  proof (cases "offset + k < ?n")
    case True
    then have k1: "1 \<le> k" using k(2) by simp
    from True le have "offset + k < length (str_lines content)" by simp
    moreover have "?n - (offset + k) < f" using Suc.prems(2) True k1 by linarith
    ultimately obtain ps where ps: "read_through f content limit (offset + k) = Some ps" "ps \<noteq> []"
        "join_with nl ps = join_with nl (page content (offset + k) ?n)"
      using Suc.IH by blast
    have a: "page content offset (offset + k) \<noteq> []" "page content (offset + k) ?n \<noteq> []"
      using k1 True length_page [of content offset "offset + k"] length_page [of content "offset + k" ?n]
      by (auto simp del: length_page)
    have "join_with nl (page content offset ?n) =
        join_with nl (page content offset (offset + k)) @ nl # join_with nl (page content (offset + k) ?n)"
      using True page_append [of offset "offset + k" ?n content] join_with_append [OF a, of nl] by simp
    then show ?thesis using k True ps by (auto simp: join_with_Cons)
  next
    case False
    then have "page content offset (offset + k) = page content offset ?n"
    proof (cases "offset < ?n")
      case True
      then show ?thesis using False k(2) by (metis le_antisym not_le)
    next
      case out: False
      have "numbered_from content offset = []"
        using out by (simp add: numbered_from_page [OF assms(1,2) Suc.prems(1)] page_def)
      then have "join_with nl (page content offset (offset + k)) = []" using k out by (simp add: cut_lines_def)
      then show ?thesis using out by (simp add: join_page_Nil) (simp add: page_def)
    qed
    then show ?thesis using k False by simp
  qed
qed simp

text \<open>Reading a file from its start and going on where each marker says ends, whatever limit is asked for, and the answers together are the numbered lines of the file, each once and in order.\<close>

theorem reading_through_ends:
  assumes "cr \<notin> set content" and "length content < U64_MAX"
  shows "\<exists>ps. read_through (length content + 1) content limit 0 = Some ps \<and>
    join_with nl ps = join_with nl (page content 0 (length (shown_lines content)))"
proof (cases "str_lines content = []")
  case True
  then show ?thesis
    by (simp add: numbered_from_def number_lines_def cut_lines_def shown_lines_def reread_def page_def)
next
  case False
  show ?thesis
    using read_through_from [OF assms, of 0 "length content + 1" limit] False length_shown [of content] by auto
qed

text \<open>A last line that is blank is not shown, though it counts: a file of one blank line reads as empty.\<close>

lemma last_blank_line_lost:
  "str_lines [CHR 0x61, nl, nl] = [[CHR 0x61], []]" "shown_lines [CHR 0x61, nl, nl] = [[CHR 0x61]]"
  "read_text [nl] \<lparr>ro_path = p, ro_offset = 0, ro_limit = 0, ro_raw = False\<rparr> = Inr []"
  by (simp_all add: str_lines_def shown_lines_def reread_def read_text_def numbered_from_def number_lines_def bound_lines_def cut_lines_def strip_cr_def)

section \<open>Witnesses\<close>

definition two_lines :: string where
  "two_lines = ''ab'' @ [nl] @ ''c''"

lemma two_lines_lines: "str_lines two_lines = [''ab'', ''c'']" "shown_lines two_lines = [''ab'', ''c'']"
  by (simp_all add: two_lines_def str_lines_def strip_cr_def shown_lines_def reread_def)

definition second_line :: read_options where
  "second_line = \<lparr>ro_path = ''f'', ro_offset = 1, ro_limit = 0, ro_raw = False\<rparr>"

theorem read_shows_lines_witness:
  "\<exists>k. let o1 = ro_offset second_line; o2 = o1 + k; n = length (shown_lines two_lines);
      body = join_with nl (page two_lines o1 o2) in
    read_text two_lines second_line = Inr (body @ (if o2 < n then truncated_marker (n - o2) o2 else []))
    \<and> k \<le> effective_limit (ro_limit second_line) \<and> (o1 < n \<longrightarrow> 1 \<le> k \<and> o2 \<le> n)
    \<and> (length body \<le> READ_MAX_BYTES \<or> k = 1)"
proof (rule read_shows_lines)
  show "cr \<notin> set two_lines" "length two_lines < U64_MAX" by (simp_all add: two_lines_def U64_MAX_def)
qed (simp_all add: two_lines_lines second_line_def)

theorem reading_through_ends_witness:
  "\<exists>ps. read_through 5 two_lines 1 0 = Some ps \<and> join_with nl ps = join_with nl (page two_lines 0 2)"
proof -
  have a: "cr \<notin> set two_lines" "length two_lines < U64_MAX" by (simp_all add: two_lines_def U64_MAX_def)
  have l: "length two_lines + 1 = 5" by (simp add: two_lines_def)
  show ?thesis
    using reading_through_ends [OF a, of 1] unfolding l two_lines_lines by (simp add: numeral_2_eq_2)
qed

end
