(* ===== verification/ToolsEditProps.thy ===== *)
theory ToolsEditProps
  imports ToolsReadProps "HOL-Library.Sublist"
begin

text \<open>
  The output of a command is cut to its bound, an edit replaces exactly what it was asked to,
  and the table of the edit distance computes the recursive distance.
\<close>

section \<open>Head and tail\<close>

lemma lines_within_le: "lines_within m n f ls \<le> length ls"
  by (induction m n f ls rule: lines_within.induct) (simp_all add: Let_def)

lemma lines_within_False:
  "m < U64_MAX \<Longrightarrow> n \<le> m \<Longrightarrow> n + length (concat (map ((#) nl) (take (lines_within m n False ls) ls))) \<le> m"
proof (induction m n False ls rule: lines_within.induct)
  case (2 m n l ls)
  have "\<not> m < sat_add U64_MAX n (sat_add U64_MAX (length l) 1) \<Longrightarrow>
      sat_add U64_MAX n (sat_add U64_MAX (length l) 1) = n + length l + 1"
    using 2(2) by (auto simp: sat_add_def)
  with 2 show ?case by (auto simp: Let_def)
qed simp

lemma join_concat: "ls \<noteq> [] \<Longrightarrow> length (join_with nl ls) + 1 = length (concat (map ((#) nl) ls))"
  by (induction ls rule: list_nonempty_induct) (auto simp: join_with_Cons)

lemma join_take_within:
  assumes "m < U64_MAX"
  shows "length (join_with nl (take (lines_within m 0 True ls) ls)) \<le> m"
proof (cases ls)
  case (Cons l xs)
  let ?k = "lines_within m (length l) False xs"
  show ?thesis
  proof (cases "m < sat_add U64_MAX 0 (length l)")
    case False
    then have l: "sat_add U64_MAX 0 (length l) = length l" "length l \<le> m" using assms by (auto simp: sat_add_def)
    have "length l + length (concat (map ((#) nl) (take ?k xs))) \<le> m"
      using lines_within_False [OF assms l(2), of xs] .
    moreover have "length (join_with nl (l # take ?k xs)) = length l + length (concat (map ((#) nl) (take ?k xs)))"
      using join_concat [of "l # take ?k xs"] by simp
    ultimately show ?thesis using False l by (simp add: Cons)
  qed (simp add: Cons)
qed simp

lemma join_rev_length: "length (join_with nl (rev ls)) = length (join_with nl ls)"
proof (cases "ls = []")
  case False
  have "length (concat (map f (rev ls))) = length (concat (map f ls))" for f :: "string \<Rightarrow> string"
    by (induction ls) simp_all
  then show ?thesis using join_concat [OF False] join_concat [of "rev ls"] False by simp
qed simp

lemma join_drop_within:
  assumes "m < U64_MAX"
  shows "length (join_with nl (drop (length ls - lines_within m 0 True (rev ls)) ls)) \<le> m"
proof -
  let ?k = "lines_within m 0 True (rev ls)"
  have "drop (length ls - ?k) ls = rev (take ?k (rev ls))" by (simp add: rev_take)
  then show ?thesis using join_take_within [OF assms, of "rev ls"] by (simp add: join_rev_length)
qed

lemma join_drop_mono: "a \<le> b \<Longrightarrow> length (join_with nl (drop b ls)) \<le> length (join_with nl (drop a ls))"
proof (induction ls arbitrary: a b)
  case (Cons l ls)
  show ?case
  proof (cases a)
    case 0
    show ?thesis
    proof (cases b)
      case (Suc b')
      have "length (join_with nl (drop b' ls)) \<le> length (join_with nl ls)" using Cons.IH [of 0 b'] by simp
      then show ?thesis using 0 Suc by (cases ls) (auto simp: join_with_Cons)
    qed (simp add: 0)
  next
    case (Suc a')
    then show ?thesis using Cons by (cases b) auto
  qed
qed simp

lemma show_nat_length: "n < 10 ^ k \<Longrightarrow> 0 < k \<Longrightarrow> length (show_nat n) \<le> k"
proof (induction k arbitrary: n)
  case (Suc k)
  show ?case
  proof (cases "n < 10")
    case False
    then have "0 < k" using Suc.prems(1) by (cases k) auto
    moreover have "n div 10 < 10 ^ k" using Suc.prems(1) by (simp add: less_mult_imp_div_less mult.commute)
    ultimately show ?thesis using Suc.IH [of "n div 10"] False by (simp add: show_nat_big)
  qed (simp add: show_nat_small)
qed simp

text \<open>C25: What a command answers of one of its outputs is at most 8192 bytes, and is the output itself or some of its first lines, a marker and some of its last lines, none of them twice.\<close>

theorem command_output_bounded:
  assumes "length text \<le> U64_MAX"
  shows "length (bound_head_tail text COMMAND_MAX_BYTES) \<le> COMMAND_MAX_BYTES
    \<and> (bound_head_tail text COMMAND_MAX_BYTES = text \<or>
       (\<exists>i j. i \<le> j \<and> bound_head_tail text COMMAND_MAX_BYTES =
          around (join_with nl (take i (str_lines text))) (bytes_marker (length text - COMMAND_MAX_BYTES))
            (join_with nl (drop j (str_lines text)))))"
proof (cases "text = [] \<or> length text \<le> COMMAND_MAX_BYTES")
  case False
  define ls where "ls = str_lines text"
  define mk where "mk = bytes_marker (length text - COMMAND_MAX_BYTES)"
  define half where "half = (COMMAND_MAX_BYTES - sat_add U64_MAX (length mk) 2) div 2"
  define i where "i = find_split ls half"
  define c where "c = find_count_from_end ls half"
  define j where "j = length ls - min c (length ls - i)"
  have "length text - COMMAND_MAX_BYTES < 10 ^ 20" using assms by (simp add: U64_MAX_def)
  then have "length (show_nat (length text - COMMAND_MAX_BYTES)) \<le> 20" by (rule show_nat_length) simp
  then have mk: "length mk \<le> 46" by (simp add: mk_def bytes_marker_def)
  then have sat: "sat_add U64_MAX (length mk) 2 = length mk + 2" by (simp add: sat_add_def U64_MAX_def)
  have half: "half + half + length mk + 2 \<le> COMMAND_MAX_BYTES" "half < U64_MAX"
    using mk unfolding half_def sat by (simp_all add: COMMAND_MAX_BYTES_def U64_MAX_def)
  have il: "i \<le> length ls" by (simp add: i_def find_split_def lines_within_le)
  then have ij: "i \<le> j" by (auto simp: j_def)
  have "length (join_with nl (take i ls)) \<le> half"
    unfolding i_def find_split_def by (rule join_take_within [OF half(2)])
  moreover have "length (join_with nl (drop j ls)) \<le> length (join_with nl (drop (length ls - c) ls))"
    by (rule join_drop_mono) (simp add: j_def)
  moreover have "length (join_with nl (drop (length ls - c) ls)) \<le> half"
    unfolding c_def find_count_from_end_def by (rule join_drop_within [OF half(2)])
  ultimately have fits: "length (around (join_with nl (take i ls)) mk (join_with nl (drop j ls))) \<le> COMMAND_MAX_BYTES"
    using half(1) by (simp add: around_def)
  then have "bound_head_tail text COMMAND_MAX_BYTES = around (join_with nl (take i ls)) mk (join_with nl (drop j ls))"
    using False unfolding bound_head_tail_def Let_def ls_def [symmetric] mk_def [symmetric] half_def [symmetric]
      i_def [symmetric] c_def [symmetric] j_def [symmetric] by (simp only: if_False not_less split: if_split) simp
  then show ?thesis using fits ij unfolding ls_def mk_def by auto
qed (auto simp: bound_head_tail_def)

theorem command_output_bounded_witness:
  "length (bound_head_tail (replicate 9000 (CHR ''a'')) COMMAND_MAX_BYTES) \<le> COMMAND_MAX_BYTES"
  using command_output_bounded [of "replicate 9000 (CHR ''a'')"] by (simp add: U64_MAX_def)

text \<open>
  The marker counts the bytes over the bound, not those left out: of a single line that is too
  long nothing is shown.
\<close>

lemma long_line_lost:
  assumes "nl \<notin> set text" "COMMAND_MAX_BYTES < length text"
  shows "bound_head_tail text COMMAND_MAX_BYTES = [nl] @ bytes_marker (length text - COMMAND_MAX_BYTES) @ [nl]"
proof -
  define mk where "mk = bytes_marker (length text - COMMAND_MAX_BYTES)"
  define half where "half = (COMMAND_MAX_BYTES - sat_add U64_MAX (length mk) 2) div 2"
  have "half \<le> COMMAND_MAX_BYTES div 2" unfolding half_def by (intro div_le_mono) simp
  then have h: "half < sat_add U64_MAX 0 (length text)"
    using assms(2) by (simp add: COMMAND_MAX_BYTES_def sat_add_def U64_MAX_def)
  have ne: "text \<noteq> []" using assms(2) by auto
  have lines: "str_lines text = [text]" using assms(1) ne by (intro str_lines_last)
  have split: "find_split [text] half = 0" "find_count_from_end [text] half = 0"
    using h by (simp_all add: find_split_def find_count_from_end_def)
  have "bound_head_tail text COMMAND_MAX_BYTES =
      (let result = around [] mk [] in
       if COMMAND_MAX_BYTES < length result then recede [text] [] mk COMMAND_MAX_BYTES 1 else result)"
    using assms(2) ne unfolding bound_head_tail_def lines Let_def mk_def [symmetric] half_def [symmetric] split by simp
  also have "\<dots> = around [] mk []"
    by (simp add: recede.simps Let_def)
  finally show ?thesis by (simp add: around_def mk_def)
qed

section \<open>Edits\<close>

fun glue :: "string \<Rightarrow> string list \<Rightarrow> string" where
  "glue sep [] = []"
| "glue sep [x] = x"
| "glue sep (x # y # xs) = x @ sep @ glue sep (y # xs)"

lemma glue_Cons: "xs \<noteq> [] \<Longrightarrow> glue sep (x # xs) = x @ sep @ glue sep xs"
  by (cases xs) auto

lemma glue_char: "glue sep ((c # x) # xs) = c # glue sep (x # xs)"
  by (cases xs) auto

text \<open>The pieces around the occurrences that are replaced.\<close>

lemma pieces:
  assumes "p \<noteq> []"
  shows "\<exists>x xs. s = glue p (x # xs) \<and> (\<forall>to. replace_all p to s = glue to (x # xs)) \<and> match_count p s = length xs \<and>
    (\<forall>y \<in> set (x # xs). \<not> has_infix p y) \<and> (xs \<noteq> [] \<longrightarrow> (\<forall>to. replace_first p to s = x @ to @ glue p xs))"
  using assms
proof (induction p s rule: match_count.induct)
  case (1 p s)
  show ?case
  proof (cases s)
    case Nil
    then show ?thesis using 1(3) by (intro exI [of _ "[]"]) (simp add: match_count.simps)
  next
    case (Cons c cs)
    show ?thesis
    proof (cases "strip_prefix p s")
      case None
      then obtain x xs where x: "cs = glue p (x # xs)" "\<forall>to. replace_all p to cs = glue to (x # xs)"
          "match_count p cs = length xs" "\<forall>y \<in> set (x # xs). \<not> has_infix p y"
          "xs \<noteq> [] \<longrightarrow> (\<forall>to. replace_first p to cs = x @ to @ glue p xs)"
        using 1(1) [OF 1(3) Cons None 1(3)] by blast
      have "\<not> prefix p (c # x)"
      proof
        assume "prefix p (c # x)"
        then obtain r where "c # x = p @ r" by (auto simp: prefix_def)
        moreover have "\<exists>t. cs = x @ t" using x(1) by (cases xs) auto
        ultimately have "\<exists>r. s = p @ r" using Cons by (metis append_Cons append_assoc)
        then show False using None by (auto simp: strip_prefix_append)
      qed
      then have "\<not> has_infix p (c # x)"
        using x(4) 1(3) by (auto simp: has_infix_iff prefix_def) (metis append_Cons append_Nil list.sel(3) neq_Nil_conv tl_append2)
      moreover have "match_count p s = length xs" "replace_all p to s = c # replace_all p to cs"
          "replace_first p to s = c # replace_first p to cs" for to
        using None Cons x(3) 1(3) by (simp_all add: match_count.simps [of p "c # cs"] replace_all.simps [of p to "c # cs"])
      ultimately show ?thesis
        using x Cons by (intro exI [of _ "c # x"] exI [of _ xs]) (auto simp: glue_char)
    next
      case (Some r)
      then obtain x xs where x: "r = glue p (x # xs)" "\<forall>to. replace_all p to r = glue to (x # xs)"
          "match_count p r = length xs" "\<forall>y \<in> set (x # xs). \<not> has_infix p y"
        using 1(2) [OF 1(3) Cons Some 1(3)] by blast
      have s: "s = p @ r" using Some by (simp add: strip_prefix_Some_iff)
      have "\<not> has_infix p []" using 1(3) by (simp add: has_infix_iff)
      moreover have "match_count p s = Suc (length xs)" "replace_all p to s = to @ replace_all p to r"
          "replace_first p to s = to @ r" for to
        using Some Cons x(3) 1(3) by (simp_all add: match_count.simps [of p "c # cs"] replace_all.simps [of p to "c # cs"])
      ultimately show ?thesis
        using x s by (intro exI [of _ "[]"] exI [of _ "x # xs"]) auto
    qed
  qed
qed

text \<open>C24: The outcome of an edit, for every content and a non-empty text to replace: it is not found exactly if it does not occur; otherwise the content is made of pieces that do not hold it, joined by it, and the edit is refused for being ambiguous exactly if there is more than one such joint and not all are to be replaced, or else gives the same pieces joined by the new text, with the number of joints.\<close>

theorem edit_replaces_exactly:
  assumes "eo_old opts \<noteq> []"
  shows "\<exists>ps. ps \<noteq> [] \<and> content = glue (eo_old opts) ps \<and> (\<forall>x \<in> set ps. \<not> has_infix (eo_old opts) x) \<and>
    edit_text content opts =
      (if length ps = 1 then Inl (EditNoMatch (eo_path opts) (closest_line_hint content (eo_old opts)))
       else if 2 < length ps \<and> \<not> eo_all opts then Inl (EditAmbiguous (eo_path opts) (length ps - 1))
       else Inr (glue (eo_new opts) ps, length ps - 1))"
proof -
  obtain x xs where x: "content = glue (eo_old opts) (x # xs)"
      "\<forall>to. replace_all (eo_old opts) to content = glue to (x # xs)"
      "match_count (eo_old opts) content = length xs" "\<forall>y \<in> set (x # xs). \<not> has_infix (eo_old opts) y"
      "xs \<noteq> [] \<longrightarrow> (\<forall>to. replace_first (eo_old opts) to content = x @ to @ glue (eo_old opts) xs)"
    using pieces [OF assms] by blast
  have one: "length xs = 1 \<Longrightarrow> glue a xs = glue b xs" for a b by (cases xs) auto
  have "xs \<noteq> [] \<Longrightarrow> \<not> 1 < length xs \<Longrightarrow> length xs = 1" by (cases xs) auto
  then show ?thesis
    using x one [of "eo_old opts" "eo_new opts"]
    by (intro exI [of _ "x # xs"]) (auto simp: edit_text_def Let_def glue_Cons)
qed

definition dots_edit :: edit_options where
  "dots_edit = \<lparr>eo_path = ''f'', eo_old = ''.'', eo_new = ''--'', eo_all = True\<rparr>"

theorem edit_replaces_exactly_witness:
  "\<exists>ps. ps \<noteq> [] \<and> ''a.b.c'' = glue (eo_old dots_edit) ps \<and> (\<forall>x \<in> set ps. \<not> has_infix (eo_old dots_edit) x) \<and>
    edit_text ''a.b.c'' dots_edit =
      (if length ps = 1 then Inl (EditNoMatch (eo_path dots_edit) (closest_line_hint ''a.b.c'' (eo_old dots_edit)))
       else if 2 < length ps \<and> \<not> eo_all dots_edit then Inl (EditAmbiguous (eo_path dots_edit) (length ps - 1))
       else Inr (glue (eo_new dots_edit) ps, length ps - 1))"
  by (rule edit_replaces_exactly) (simp add: dots_edit_def)

text \<open>Occurrences that overlap are counted once: the text is taken for unique.\<close>

lemma overlapping_taken_for_unique:
  "edit_text ''aaa'' \<lparr>eo_path = p, eo_old = ''aa'', eo_new = ''b'', eo_all = False\<rparr> = Inr (''ba'', 1)"
  by (simp add: edit_text_def match_count.simps)

section \<open>The edit distance\<close>

text \<open>A script that turns one text into the other, with the number of its changes.\<close>

inductive script :: "nat \<Rightarrow> string \<Rightarrow> string \<Rightarrow> bool" where
  empty_script: "script 0 [] []"
| keep: "script n a b \<Longrightarrow> script n (a @ [x]) (b @ [x])"
| subst: "script n a b \<Longrightarrow> script (Suc n) (a @ [x]) (b @ [y])"
| delete: "script n a b \<Longrightarrow> script (Suc n) (a @ [x]) b"
| insert: "script n a b \<Longrightarrow> script (Suc n) a (b @ [y])"

definition is_dist :: "nat \<Rightarrow> string \<Rightarrow> string \<Rightarrow> bool" where
  "is_dist d a b \<longleftrightarrow> script d a b \<and> (\<forall>n. script n a b \<longrightarrow> d \<le> n)"

lemma script_diff: "script n a b \<Longrightarrow> length a \<le> n + length b \<and> length b \<le> n + length a"
  by (induction rule: script.induct) auto

lemma script_to_Nil: "script (length a) a []" "script (length b) [] b"
  by (induction a rule: rev_induct, auto intro: script.intros)
    (induction b rule: rev_induct, auto intro: script.intros)

lemma is_dist_Nil: "is_dist (length a) a []" "is_dist (length b) [] b"
  using script_to_Nil script_diff by (fastforce simp: is_dist_def)+

lemma script_snoc:
  assumes "script n (a @ [x]) (b @ [y])"
  shows "(x = y \<and> script n a b) \<or> (\<exists>m. n = Suc m \<and> (script m a b \<or> script m a (b @ [y]) \<or> script m (a @ [x]) b))"
  using assms by (cases rule: script.cases) auto

lemma is_dist_step:
  assumes u: "is_dist u a (b @ [y])" and l: "is_dist l (a @ [x]) b" and d: "is_dist d a b"
  shows "is_dist (min (min (u + 1) (l + 1)) (d + (if x \<noteq> y then 1 else 0))) (a @ [x]) (b @ [y])"
proof -
  have "script (u + 1) (a @ [x]) (b @ [y])" "script (l + 1) (a @ [x]) (b @ [y])"
      "script (d + (if x \<noteq> y then 1 else 0)) (a @ [x]) (b @ [y])"
    using u l d by (auto simp: is_dist_def intro: script.intros)
  then have "script (min (min (u + 1) (l + 1)) (d + (if x \<noteq> y then 1 else 0))) (a @ [x]) (b @ [y])"
    by (auto simp: min_def)
  moreover have "min (min (u + 1) (l + 1)) (d + (if x \<noteq> y then 1 else 0)) \<le> n" if "script n (a @ [x]) (b @ [y])" for n
    using script_snoc [OF that] u l d by (fastforce simp: is_dist_def min_def)
  ultimately show ?thesis by (simp add: is_dist_def)
qed

lemma next_row_dist:
  assumes "length us = length ys" "is_dist d a bs" "is_dist l (a @ [x]) bs"
    "\<forall>i < length ys. is_dist (us ! i) a (bs @ take (Suc i) ys)"
  shows "length (next_row x l ys d us) = length ys \<and>
    (\<forall>i < length ys. is_dist (next_row x l ys d us ! i) (a @ [x]) (bs @ take (Suc i) ys))"
  using assms
proof (induction ys arbitrary: us d bs l)
  case (Cons y ys)
  obtain u us' where us: "us = u # us'" using Cons.prems(1) by (cases us) auto
  let ?v = "min (min (u + 1) (l + 1)) (d + (if x \<noteq> y then 1 else 0))"
  have u: "is_dist u a (bs @ [y])" using Cons.prems(4) us by fastforce
  have v: "is_dist ?v (a @ [x]) (bs @ [y])" using is_dist_step [OF u Cons.prems(3,2)] .
  have "\<forall>i < length ys. is_dist (us' ! i) a ((bs @ [y]) @ take (Suc i) ys)"
    using Cons.prems(4) us by fastforce
  with Cons.IH [of us' u "bs @ [y]" ?v] Cons.prems(1) us u v
  have ih: "length (next_row x ?v ys u us') = length ys"
    "\<forall>i < length ys. is_dist (next_row x ?v ys u us' ! i) (a @ [x]) ((bs @ [y]) @ take (Suc i) ys)" by simp_all
  show ?case
    using ih v by (auto simp: us Let_def nth_Cons split: nat.split)
qed simp

definition row_of :: "string \<Rightarrow> string \<Rightarrow> nat list \<Rightarrow> bool" where
  "row_of a b r \<longleftrightarrow> length r = length b + 1 \<and> (\<forall>j \<le> length b. is_dist (r ! j) a (take j b))"

lemma rows_from_dist:
  "row_of a b prev \<Longrightarrow> row_of (a @ xs) b (rows_from (length a) xs b prev)"
proof (induction xs arbitrary: a prev)
  case (Cons x xs)
  obtain p ps where prev: "prev = p # ps" using Cons.prems by (cases prev) (auto simp: row_of_def)
  have len: "length ps = length b" using Cons.prems by (simp add: row_of_def prev)
  have p: "is_dist p a []" using Cons.prems by (auto simp: row_of_def prev)
  have us: "\<forall>i < length b. is_dist (ps ! i) a ([] @ take (Suc i) b)"
    using Cons.prems by (auto simp: row_of_def prev Suc_le_eq dest: spec [of _ "Suc _"])
  have l: "is_dist (Suc (length a)) (a @ [x]) []" using is_dist_Nil(1) [of "a @ [x]"] by simp
  note n = next_row_dist [OF len p l us]
  have "row_of (a @ [x]) b (Suc (length a) # next_row x (Suc (length a)) b p ps)"
    using n l by (auto simp: row_of_def nth_Cons split: nat.split)
  from Cons.IH [OF this] show ?case by (simp add: prev)
qed simp

text \<open>C38: The edit distance computed row by row is the least number of insertions, deletions and substitutions that turn one text into the other.\<close>

theorem levenshtein_is_least:
  "script (levenshtein_distance a b) a b \<and> (\<forall>n. script n a b \<longrightarrow> levenshtein_distance a b \<le> n)"
proof -
  have "row_of [] b [0..<length b + 1]"
    using is_dist_Nil(2) [of "take j b" for j] by (auto simp: row_of_def simp del: upt_Suc) (metis length_take min.absorb2)
  from rows_from_dist [OF this, of a] have "is_dist (rows_from 0 a b [0..<length b + 1] ! length b) a b"
    by (auto simp: row_of_def simp del: upt_Suc dest: spec [of _ "length b"])
  then have "is_dist (levenshtein_distance a b) a b"
    using is_dist_Nil by (simp add: levenshtein_distance_def del: upt_Suc)
  then show ?thesis by (simp add: is_dist_def)
qed

text \<open>The line an unsuccessful edit names is one of the file, trimmed, and none is closer.\<close>

lemma closest_line_least:
  "closest_line needle ls best (levenshtein_distance needle best) \<in> set (best # map str_trim ls) \<and>
   (\<forall>l \<in> set (best # map str_trim ls).
      levenshtein_distance needle (closest_line needle ls best (levenshtein_distance needle best)) \<le> levenshtein_distance needle l)"
proof (induction ls arbitrary: best)
  case (Cons l ls)
  show ?case
  proof (cases "levenshtein_distance needle (str_trim l) < levenshtein_distance needle best")
    case True
    with Cons [of "str_trim l"] show ?thesis by (auto simp: Let_def intro: order_trans less_imp_le)
  next
    case False
    with Cons [of best] show ?thesis by (auto simp: Let_def intro: order_trans)
  qed
qed simp

theorem levenshtein_is_least_witness: "levenshtein_distance ''ab'' ''ac'' \<le> 1"
proof -
  have "script 1 (''a'' @ ''b'') (''a'' @ ''c'')"
    using script.subst [OF script.keep [OF script.empty_script, of "CHR ''a''"], of "CHR ''b''" "CHR ''c''"] by simp
  then show ?thesis using levenshtein_is_least [of "''ab''" "''ac''"] by simp
qed

end
