(* ===== verification/ToolsOs.thy ===== *)
theory ToolsOs
  imports ToolsRead Confine BTree
begin

text \<open>
  The calls of the operating system the file tools make, on a tree of directories, files and
  symbolic links. Paths are absolute and without dots, as \<open>confine_path\<close> gives them. Each call
  may fail instead of being done (\<open>faults\<close>), a write after some of its bytes; every state the
  tree goes through is kept (\<open>trail\<close>): a crash leaves one of them. Permissions only show as
  faults.
\<close>

section \<open>The tree\<close>

datatype tnode = TDir | TFile string nat | TLink bool path \<comment> \<open>content and mode; absolute?, target\<close>

type_synonym tree = "(path \<times> tnode) list"

fun plain_node :: "tnode \<Rightarrow> node" where
  "plain_node TDir = Dir"
| "plain_node (TFile c m) = File"
| "plain_node (TLink ab t) = Link ab t"

definition shape :: "tree \<Rightarrow> fs" where
  "shape T p = map_option plain_node (map_of T p)"

definition set_node :: "path \<Rightarrow> tnode \<Rightarrow> tree \<Rightarrow> tree" where
  "set_node p n T = (p, n) # filter (\<lambda>e. fst e \<noteq> p) T"

definition del_node :: "path \<Rightarrow> tree \<Rightarrow> tree" where
  "del_node p T = filter (\<lambda>e. fst e \<noteq> p) T"

definition children :: "tree \<Rightarrow> path \<Rightarrow> string list" where
  "children T p = map (last \<circ> fst) (filter (\<lambda>e. fst e \<noteq> [] \<and> butlast (fst e) = p) T)"

section \<open>Errors\<close>

datatype io_kind = KNotFound | KPermission | KExists | KNotEmpty | KOther

type_synonym io_error = "io_kind \<times> string"

definition enoent :: io_error where "enoent = (KNotFound, ''No such file or directory (os error 2)'')"
definition eexist :: io_error where "eexist = (KExists, ''File exists (os error 17)'')"
definition enotdir :: io_error where "enotdir = (KOther, ''Not a directory (os error 20)'')"
definition eisdir :: io_error where "eisdir = (KOther, ''Is a directory (os error 21)'')"
definition einval :: io_error where "einval = (KOther, ''Invalid argument (os error 22)'')"
definition enotempty :: io_error where "enotempty = (KNotEmpty, ''Directory not empty (os error 39)'')"
definition eloop :: io_error where "eloop = (KOther, ''Too many levels of symbolic links (os error 40)'')"
definition bad_utf8 :: io_error where "bad_utf8 = (KOther, ''stream did not contain valid UTF-8'')"
definition no_file_name :: io_error where "no_file_name = (KOther, ''path has no file name'')"

section \<open>Resolution\<close>

text \<open>As \<open>walk\<close>, with the reason of a failure.\<close>

function walk_e :: "fs \<Rightarrow> nat \<Rightarrow> path \<Rightarrow> path \<Rightarrow> io_error + path" where
  "walk_e F n cur [] = Inr cur"
| "walk_e F n cur (c # cs) =
     (if c = dotdot then walk_e F n (butlast cur) cs
      else case F (cur @ [c]) of
          None \<Rightarrow> Inl enoent
        | Some Dir \<Rightarrow> walk_e F n (cur @ [c]) cs
        | Some File \<Rightarrow> (if cs = [] then Inr (cur @ [c]) else Inl enotdir)
        | Some (Link ab target) \<Rightarrow>
            (case n of 0 \<Rightarrow> Inl eloop | Suc m \<Rightarrow> walk_e F m (if ab then [] else cur) (target @ cs)))"
  by pat_completeness auto
termination
  by (relation "measures [\<lambda>(F, n, cur, cs). n, \<lambda>(F, n, cur, cs). length cs]") auto

declare walk_e.simps(2) [simp del]

lemma walk_e_walk: "(case walk_e F n cur cs of Inl e \<Rightarrow> None | Inr q \<Rightarrow> Some q) = walk F n cur cs"
proof (induction F n cur cs rule: walk_e.induct)
  case (2 F n cur c cs)
  then show ?case by (auto simp: walk_e.simps(2) walk.simps(2) split: option.split node.split nat.split)
qed simp

definition resolve :: "tree \<Rightarrow> path \<Rightarrow> io_error + path" where
  "resolve T p = walk_e (shape T) MAXSYMLINKS [] p"

text \<open>The node at a resolved place; the root is a directory.\<close>

definition node_at :: "tree \<Rightarrow> path \<Rightarrow> tnode option" where
  "node_at T q = (if q = [] then Some TDir else map_of T q)"

definition stat :: "tree \<Rightarrow> path \<Rightarrow> io_error + path \<times> tnode" where
  "stat T p =
     (case resolve T p of
        Inl e \<Rightarrow> Inl e
      | Inr q \<Rightarrow> (case node_at T q of None \<Rightarrow> Inl enoent | Some n \<Rightarrow> Inr (q, n)))"

text \<open>The place of the last component itself, links before it followed.\<close>

definition place :: "tree \<Rightarrow> path \<Rightarrow> io_error + path" where
  "place T p =
     (if p = [] then Inl eexist
      else case stat T (butlast p) of
          Inl e \<Rightarrow> Inl e
        | Inr (d, n) \<Rightarrow> if n = TDir then Inr (d @ [last p]) else Inl enotdir)"

text \<open>Where a file opened for writing is, a missing one included.\<close>

definition open_place :: "tree \<Rightarrow> path \<Rightarrow> io_error + path" where
  "open_place T p =
     (case resolve T p of
        Inr q \<Rightarrow> Inr q
      | Inl e \<Rightarrow> (case create_at (shape T) MAXSYMLINKS [] p of None \<Rightarrow> Inl e | Some q \<Rightarrow> Inr q))"

section \<open>Calls\<close>

record fs_world =
  fw_tree :: tree
  fw_faults :: "(io_error \<times> nat) option list"
  fw_trail :: "tree list"
  fw_pid :: nat
  fw_new_mode :: nat

type_synonym 'a os = "fs_world \<Rightarrow> (io_error + 'a) \<times> fs_world"

definition put_tree :: "tree \<Rightarrow> fs_world \<Rightarrow> fs_world" where
  "put_tree T w = w\<lparr>fw_tree := T, fw_trail := T # fw_trail w\<rparr>"

text \<open>A call, or the fault that comes instead of it.\<close>

definition syscall :: "'a os \<Rightarrow> 'a os" where
  "syscall act w =
     (case fw_faults w of
        [] \<Rightarrow> act w
      | None # fs \<Rightarrow> act (w\<lparr>fw_faults := fs\<rparr>)
      | Some (e, k) # fs \<Rightarrow> (Inl e, w\<lparr>fw_faults := fs\<rparr>))"

definition metadata :: "path \<Rightarrow> tnode os" where
  "metadata p = syscall (\<lambda>w. (map_sum id snd (stat (fw_tree w) p), w))"

text \<open>\<open>std::str::from_utf8\<close>: how many bytes the character at the front has, if it is well-formed.\<close>

definition in_span :: "nat \<Rightarrow> nat \<Rightarrow> char \<Rightarrow> bool" where
  "in_span lo hi c \<longleftrightarrow> lo \<le> of_char c \<and> of_char c \<le> hi"

fun utf8_width :: "string \<Rightarrow> nat option" where
  "utf8_width (a # s) =
     (if in_span 0 0x7F a then Some 1
      else case s of
          [] \<Rightarrow> None
        | b # s1 \<Rightarrow>
            (if in_span 0xC2 0xDF a \<and> in_span 0x80 0xBF b then Some 2
             else case s1 of
                 [] \<Rightarrow> None
               | c # s2 \<Rightarrow>
                   (if in_span 0x80 0xBF c \<and>
                       (in_span 0xE0 0xE0 a \<and> in_span 0xA0 0xBF b \<or> in_span 0xE1 0xEC a \<and> in_span 0x80 0xBF b
                        \<or> in_span 0xED 0xED a \<and> in_span 0x80 0x9F b \<or> in_span 0xEE 0xEF a \<and> in_span 0x80 0xBF b) then Some 3
                    else case s2 of
                        [] \<Rightarrow> None
                      | d # s3 \<Rightarrow>
                          (if in_span 0x80 0xBF c \<and> in_span 0x80 0xBF d \<and>
                              (in_span 0xF0 0xF0 a \<and> in_span 0x90 0xBF b \<or> in_span 0xF1 0xF3 a \<and> in_span 0x80 0xBF b
                               \<or> in_span 0xF4 0xF4 a \<and> in_span 0x80 0x8F b) then Some 4 else None))))"
| "utf8_width [] = None"

lemma utf8_width_pos: "utf8_width s = Some n \<Longrightarrow> 0 < n \<and> s \<noteq> []"
  by (cases s) (auto split: if_splits list.splits)

function is_utf8 :: "string \<Rightarrow> bool" where
  "is_utf8 s \<longleftrightarrow> s = [] \<or> (case utf8_width s of None \<Rightarrow> False | Some n \<Rightarrow> is_utf8 (drop n s))"
  by auto
termination
  by (relation "measure length") (auto dest!: utf8_width_pos)

declare is_utf8.simps [simp del] utf8_width.simps [simp del]

definition read_to_string :: "path \<Rightarrow> string os" where
  "read_to_string p = syscall (\<lambda>w.
     (case stat (fw_tree w) p of
        Inl e \<Rightarrow> Inl e
      | Inr (q, TFile c m) \<Rightarrow> if is_utf8 c then Inr c else Inl bad_utf8
      | Inr (q, n) \<Rightarrow> Inl eisdir, w))"

text \<open>The names in a directory, in the order the system has them.\<close>

definition read_dir :: "path \<Rightarrow> string list os" where
  "read_dir p = syscall (\<lambda>w.
     (case stat (fw_tree w) p of
        Inl e \<Rightarrow> Inl e
      | Inr (q, n) \<Rightarrow> if n = TDir then Inr (children (fw_tree w) q) else Inl enotdir, w))"

definition make_dir :: "path \<Rightarrow> unit os" where
  "make_dir p = syscall (\<lambda>w.
     case place (fw_tree w) p of
       Inl e \<Rightarrow> (Inl e, w)
     | Inr q \<Rightarrow> if map_of (fw_tree w) q \<noteq> None then (Inl eexist, w)
         else (Inr (), put_tree (set_node q TDir (fw_tree w)) w))"

text \<open>
  \<open>fs::write\<close>: the file is opened and emptied, then its bytes arrive, here one by one. A fault
  with the number 0 is one of opening; \<open>Suc k\<close> comes after \<open>k\<close> bytes.
\<close>

fun put_all :: "tree list \<Rightarrow> fs_world \<Rightarrow> fs_world" where
  "put_all [] w = w"
| "put_all (T # Ts) w = put_all Ts (put_tree T w)"

definition mode_at :: "fs_world \<Rightarrow> path \<Rightarrow> nat" where
  "mode_at w q = (case map_of (fw_tree w) q of Some (TFile c m) \<Rightarrow> m | _ \<Rightarrow> fw_new_mode w)"

definition write_bytes :: "path \<Rightarrow> string \<Rightarrow> nat \<Rightarrow> fs_world \<Rightarrow> fs_world" where
  "write_bytes q c k w = put_all (map (\<lambda>i. set_node q (TFile (take i c) (mode_at w q)) (fw_tree w)) [0..<Suc k]) w"

definition write_call :: "path \<Rightarrow> string \<Rightarrow> (io_error \<times> nat) option \<Rightarrow> unit os" where
  "write_call p c fault w =
     (case fault of
        Some (e, 0) \<Rightarrow> (Inl e, w)
      | _ \<Rightarrow> (case open_place (fw_tree w) p of
            Inl e \<Rightarrow> (Inl e, w)
          | Inr q \<Rightarrow> if node_at (fw_tree w) q = Some TDir then (Inl eisdir, w)
              else (case fault of
                  Some (e, Suc k) \<Rightarrow> (Inl e, write_bytes q c (min k (length c)) w)
                | _ \<Rightarrow> (Inr (), write_bytes q c (length c) w))))"

definition write_file_call :: "path \<Rightarrow> string \<Rightarrow> unit os" where
  "write_file_call p c w =
     (case fw_faults w of
        [] \<Rightarrow> write_call p c None w
      | f # fs \<Rightarrow> write_call p c f (w\<lparr>fw_faults := fs\<rparr>))"

definition mode_of :: "tnode \<Rightarrow> nat" where
  "mode_of n = (case n of TFile c m \<Rightarrow> m | _ \<Rightarrow> 493)"

definition set_permissions :: "path \<Rightarrow> nat \<Rightarrow> unit os" where
  "set_permissions p m = syscall (\<lambda>w.
     case stat (fw_tree w) p of
       Inl e \<Rightarrow> (Inl e, w)
     | Inr (q, TFile c m') \<Rightarrow> (Inr (), put_tree (set_node q (TFile c m) (fw_tree w)) w)
     | Inr (q, n) \<Rightarrow> (Inr (), w))"

definition move_tree :: "path \<Rightarrow> path \<Rightarrow> tree \<Rightarrow> tree" where
  "move_tree a b T =
     map (\<lambda>(p, n). if prefix a p then (b @ drop (length a) p, n) else (p, n)) (del_node b T)"

definition rename :: "path \<Rightarrow> path \<Rightarrow> unit os" where
  "rename a b = syscall (\<lambda>w.
     let T = fw_tree w in
     case place T a of
       Inl e \<Rightarrow> (Inl e, w)
     | Inr q1 \<Rightarrow>
         (case place T b of
            Inl e \<Rightarrow> (Inl e, w)
          | Inr q2 \<Rightarrow>
              (case map_of T q1 of
                 None \<Rightarrow> (Inl enoent, w)
               | Some n \<Rightarrow>
                   if q1 = q2 then (Inr (), w)
                   else if n = TDir then
                     (if prefix q1 q2 then (Inl einval, w)
                      else if map_of T q2 \<noteq> None \<and> map_of T q2 \<noteq> Some TDir then (Inl enotdir, w)
                      else if children T q2 \<noteq> [] then (Inl enotempty, w)
                      else (Inr (), put_tree (move_tree q1 q2 T) w))
                   else if map_of T q2 = Some TDir then (Inl eisdir, w)
                   else (Inr (), put_tree (set_node q2 n (del_node q1 T)) w))))"

definition remove_file_call :: "path \<Rightarrow> unit os" where
  "remove_file_call p = syscall (\<lambda>w.
     case place (fw_tree w) p of
       Inl e \<Rightarrow> (Inl e, w)
     | Inr q \<Rightarrow>
         (case map_of (fw_tree w) q of
            None \<Rightarrow> (Inl enoent, w)
          | Some n \<Rightarrow> if n = TDir then (Inl eisdir, w) else (Inr (), put_tree (del_node q (fw_tree w)) w)))"

definition remove_dir_call :: "path \<Rightarrow> unit os" where
  "remove_dir_call p = syscall (\<lambda>w.
     case place (fw_tree w) p of
       Inl e \<Rightarrow> (Inl e, w)
     | Inr q \<Rightarrow>
         (case map_of (fw_tree w) q of
            None \<Rightarrow> (Inl enoent, w)
          | Some n \<Rightarrow> if n \<noteq> TDir then (Inl enotdir, w)
              else if children (fw_tree w) q \<noteq> [] then (Inl enotempty, w)
              else (Inr (), put_tree (del_node q (fw_tree w)) w)))"

definition is_dir :: "path \<Rightarrow> fs_world \<Rightarrow> bool \<times> fs_world" where
  "is_dir p w = (case metadata p w of (r, w) \<Rightarrow> (r = Inr TDir, w))"

text \<open>\<open>create_dir_all\<close> of the standard library.\<close>

definition mkdir_or_dir :: "path \<Rightarrow> (io_error \<Rightarrow> unit os) \<Rightarrow> unit os" where
  "mkdir_or_dir p otherwise w =
     (case make_dir p w of
        (Inr _, w) \<Rightarrow> (Inr (), w)
      | (Inl e, w) \<Rightarrow> if fst e = KNotFound then otherwise e w
          else (case is_dir p w of (True, w) \<Rightarrow> (Inr (), w) | (False, w) \<Rightarrow> (Inl e, w)))"

function create_dir_all :: "path \<Rightarrow> unit os" where
  "create_dir_all p w =
     mkdir_or_dir p (\<lambda>e w.
       if p = [] then (Inl (KOther, ''failed to create whole tree''), w)
       else (case create_dir_all (butlast p) w of
           (Inl e, w) \<Rightarrow> (Inl e, w)
         | (Inr _, w) \<Rightarrow>
             (case make_dir p w of
                (Inr _, w) \<Rightarrow> (Inr (), w)
              | (Inl e, w) \<Rightarrow> (case is_dir p w of (True, w) \<Rightarrow> (Inr (), w) | (False, w) \<Rightarrow> (Inl e, w))))) w"
  by auto
termination
  by (relation "measure (\<lambda>(p, w). length p)") auto

declare create_dir_all.simps [simp del]

end
