(* ===== verification/ToolsFs.thy ===== *)
theory ToolsFs
  imports ToolsOs
begin

text \<open>
  The file tools (\<open>tools/src/filesystem.rs\<close>) and the searches (\<open>tools/src/search.rs\<close>), call by
  call. A path is its list of components; in answers it is written out. The walk over a tree with
  its ignore rules, glob patterns and regular expressions are libraries: parameters here.
\<close>

type_synonym 'a tool = "fs_world \<Rightarrow> (tools_error + 'a) \<times> fs_world"

definition show_path :: "path \<Rightarrow> string" where
  "show_path p = slash # join_with slash p"

section \<open>Shared steps\<close>

definition file_not_found_hint :: "path \<Rightarrow> fs_world \<Rightarrow> string \<times> fs_world" where
  "file_not_found_hint p w =
     (if p = [] then ([], w)
      else case read_dir (butlast p) w of
          (Inr names, w) \<Rightarrow> ('', parent directory contains: ['' @ join_str '', '' (sort names) @ '']'', w)
        | (Inl e, w) \<Rightarrow> ('', parent directory does not exist either'', w))"

definition look :: "path \<Rightarrow> tnode tool" where
  "look p w =
     (case metadata p w of
        (Inr n, w) \<Rightarrow> (Inr n, w)
      | (Inl e, w) \<Rightarrow>
          if fst e = KNotFound then (case file_not_found_hint p w of (hint, w) \<Rightarrow> (Inl (FileNotFound (show_path p) hint), w))
          else (Inl (IoError (show_path p) (snd e)), w))"

definition denied_or_io :: "path \<Rightarrow> io_error \<Rightarrow> tools_error" where
  "denied_or_io p e = (if fst e = KPermission then PermissionDenied (show_path p) else IoError (show_path p) (snd e))"

definition read_content :: "path \<Rightarrow> string tool" where
  "read_content p w =
     (case look p w of
        (Inl e, w) \<Rightarrow> (Inl e, w)
      | (Inr n, w) \<Rightarrow>
          if n = TDir then (Inl (NotAFile (show_path p)), w)
          else (case read_to_string p w of
              (Inl e, w) \<Rightarrow> (Inl (denied_or_io p e), w)
            | (Inr c, w) \<Rightarrow> (Inr c, w)))"

section \<open>Reading and writing\<close>

definition read_file :: "path \<Rightarrow> read_options \<Rightarrow> string tool" where
  "read_file p opts w =
     (case read_content p w of
        (Inl e, w) \<Rightarrow> (Inl e, w)
      | (Inr c, w) \<Rightarrow> (read_text c opts, w))"

definition tmp_name :: "nat \<Rightarrow> string \<Rightarrow> string" where
  "tmp_name pid name = ''.'' @ name @ ''.vny-tmp-'' @ show_nat pid"

definition give_up :: "path \<Rightarrow> io_error \<Rightarrow> unit os" where
  "give_up tmp e w = (case remove_file_call tmp w of (r, w) \<Rightarrow> (Inl e, w))"

definition atomic_write :: "path \<Rightarrow> string \<Rightarrow> unit os" where
  "atomic_write p content w =
     (if p = [] then (Inl no_file_name, w)
      else
        let tmp = butlast p @ [tmp_name (fw_pid w) (last p)] in
        case write_file_call tmp content w of
          (Inl e, w) \<Rightarrow> give_up tmp e w
        | (Inr _, w) \<Rightarrow>
            (case (case metadata p w of
                     (Inl e, w) \<Rightarrow> (Inr (), w)
                   | (Inr n, w) \<Rightarrow> set_permissions tmp (mode_of n) w) of
               (Inl e, w) \<Rightarrow> give_up tmp e w
             | (Inr _, w) \<Rightarrow>
                 (case rename tmp p w of
                    (Inl e, w) \<Rightarrow> give_up tmp e w
                  | (Inr _, w) \<Rightarrow> (Inr (), w))))"

definition store :: "path \<Rightarrow> string \<Rightarrow> unit tool" where
  "store p content w =
     (case atomic_write p content w of
        (Inl e, w) \<Rightarrow> (Inl (denied_or_io p e), w)
      | (Inr _, w) \<Rightarrow> (Inr (), w))"

definition write_file :: "path \<Rightarrow> string \<Rightarrow> unit tool" where
  "write_file p content w =
     (case (if p = [] then (Inr (), w) else create_dir_all (butlast p) w) of
        (Inl e, w) \<Rightarrow> (Inl (denied_or_io (butlast p) e), w)
      | (Inr _, w) \<Rightarrow>
          (case metadata p w of
             (Inr TDir, w) \<Rightarrow> (Inl (NotAFile (show_path p)), w)
           | (_, w) \<Rightarrow> store p content w))"

definition edit_file :: "path \<Rightarrow> edit_options \<Rightarrow> string tool" where
  "edit_file p opts w =
     (if eo_old opts = [] then (Inl (InvalidArgument ''old_string'' ''must not be empty''), w)
      else case read_content p w of
          (Inl e, w) \<Rightarrow> (Inl e, w)
        | (Inr c, w) \<Rightarrow>
            (case edit_text c (opts\<lparr>eo_path := show_path p\<rparr>) of
               Inl e \<Rightarrow> (Inl e, w)
             | Inr (new, n) \<Rightarrow>
                 (case store p new w of
                    (Inl e, w) \<Rightarrow> (Inl e, w)
                  | (Inr _, w) \<Rightarrow> (Inr (edited_message (show_path p) n), w))))"

section \<open>Listing\<close>

record listing =
  li_out :: "string list"
  li_full :: bool

definition list_entry :: "(path \<Rightarrow> listing \<times> fs_world \<Rightarrow> listing \<times> fs_world) option \<Rightarrow> path \<Rightarrow> nat \<Rightarrow> string
    \<Rightarrow> listing \<times> fs_world \<Rightarrow> listing \<times> fs_world" where
  "list_entry sub dir indent name s =
     (case s of (st, w) \<Rightarrow>
        if li_full st then (st, w)
        else (case is_dir (dir @ [name]) w of (d, w) \<Rightarrow>
            let st = st\<lparr>li_out := li_out st @ [replicate (2 * indent) CHR 0x20 @ name @ (if d then ''/'' else [])]\<rparr>
            in if LIST_MAX_ENTRIES \<le> length (li_out st) then (st\<lparr>li_full := True\<rparr>, w)
               else (case sub of Some f \<Rightarrow> if d then f (dir @ [name]) (st, w) else (st, w) | None \<Rightarrow> (st, w))))"

definition list_level :: "(path \<Rightarrow> listing \<times> fs_world \<Rightarrow> listing \<times> fs_world) option \<Rightarrow> path \<Rightarrow> nat
    \<Rightarrow> listing \<times> fs_world \<Rightarrow> listing \<times> fs_world" where
  "list_level sub dir indent s =
     (case s of (st, w) \<Rightarrow>
        if li_full st \<or> LIST_MAX_ENTRIES \<le> length (li_out st) then (st, w)
        else (case read_dir dir w of
            (Inl e, w) \<Rightarrow> (st, w)
          | (Inr names, w) \<Rightarrow> fold (list_entry sub dir indent) (sort names) (st, w)))"

text \<open>The first argument is the number of levels left; below the last one nothing is descended into.\<close>

primrec recurse :: "nat \<Rightarrow> nat \<Rightarrow> path \<Rightarrow> listing \<times> fs_world \<Rightarrow> listing \<times> fs_world" where
  "recurse 0 indent dir = list_level None dir indent"
| "recurse (Suc k) indent dir = list_level (if k = 0 then None else Some (recurse k (Suc indent))) dir indent"

definition list_directory :: "path \<Rightarrow> nat \<Rightarrow> string tool" where
  "list_directory p depth w =
     (case look p w of
        (Inl e, w) \<Rightarrow> (Inl e, w)
      | (Inr n, w) \<Rightarrow>
          if n \<noteq> TDir then (Inl (NotADirectory (show_path p)), w)
          else (case recurse (if depth = 0 then 1 else depth) 0 p (\<lparr>li_out = [], li_full = False\<rparr>, w) of
              (st, w) \<Rightarrow>
                (Inr (if li_out st = [] then show_path p @ '' is empty''
                   else join_with nl (li_out st) @
                     (if li_full st then [nl] @ ''[truncated at '' @ show_nat LIST_MAX_ENTRIES @ '' entries '' @ em_dash @
                        '' narrow the path or reduce depth]'' else [])), w)))"

section \<open>Deleting, creating, renaming\<close>

definition delete_file :: "path \<Rightarrow> unit tool" where
  "delete_file p w =
     (case look p w of
        (Inl e, w) \<Rightarrow> (Inl e, w)
      | (Inr n, w) \<Rightarrow>
          if n = TDir then
            (case remove_dir_call p w of
               (Inr _, w) \<Rightarrow> (Inr (), w)
             | (Inl e, w) \<Rightarrow>
                 if fst e = KNotEmpty then (Inl (InvalidArgument ''path'' ''directory is not empty''), w)
                 else (Inl (IoError (show_path p) (snd e)), w))
          else
            (case remove_file_call p w of
               (Inr _, w) \<Rightarrow> (Inr (), w)
             | (Inl e, w) \<Rightarrow> (Inl (denied_or_io p e), w)))"

definition mkdir :: "path \<Rightarrow> unit tool" where
  "mkdir p w =
     (case create_dir_all p w of
        (Inr _, w) \<Rightarrow> (Inr (), w)
      | (Inl e, w) \<Rightarrow>
          (Inl (if fst e = KExists then NotADirectory (show_path p) else denied_or_io p e), w))"

definition quoted_parent :: "path \<Rightarrow> string \<Rightarrow> string" where
  "quoted_parent to tail = ''parent of '' @ [CHR 0x27] @ show_path to @ [CHR 0x27] @ tail"

text \<open>The two tests of the parent of the destination, each with its own call.\<close>

definition check_parent :: "path \<Rightarrow> unit tool" where
  "check_parent to w =
     (if to = [] then (Inr (), w)
      else case metadata (butlast to) w of
          (Inr (TFile c m), w) \<Rightarrow> (Inl (InvalidArgument ''to'' (quoted_parent to '' is a file, not a directory'')), w)
        | (_, w) \<Rightarrow>
            (case metadata (butlast to) w of
               (Inr n, w) \<Rightarrow> (Inr (), w)
             | (Inl e, w) \<Rightarrow>
                 if fst e = KNotFound
                 then (Inl (InvalidArgument ''to'' (quoted_parent to '' does not exist or is not a directory'')), w)
                 else if fst e = KPermission then (Inl (PermissionDenied (show_path (butlast to))), w)
                 else (Inr (), w)))"

definition rename_file :: "path \<Rightarrow> path \<Rightarrow> unit tool" where
  "rename_file p to w =
     (case look p w of
        (Inl e, w) \<Rightarrow> (Inl e, w)
      | (Inr n, w) \<Rightarrow>
          (case check_parent to w of
             (Inl e, w) \<Rightarrow> (Inl e, w)
           | (Inr _, w) \<Rightarrow>
               (case rename p to w of
                  (Inr _, w) \<Rightarrow> (Inr (), w)
                | (Inl e, w) \<Rightarrow> (Inl (denied_or_io p e), w))))"

section \<open>Searching\<close>

text \<open>An entry the walk yields: its path below the root, whether it is a file, what reading it as text gives.\<close>

record walk_entry =
  we_rel :: string
  we_file :: bool
  we_text :: "string option"

record search_env =
  se_walk :: "(string \<Rightarrow> bool) \<Rightarrow> path \<Rightarrow> walk_entry list"
  se_glob :: "string \<Rightarrow> string + (string \<Rightarrow> bool)"
  se_regex :: "string \<Rightarrow> string + (string \<Rightarrow> bool)"

definition walked :: "string \<Rightarrow> bool" where
  "walked name \<longleftrightarrow> name \<noteq> ''.git'' \<and> name \<noteq> ''target'' \<and> name \<noteq> ''node_modules''"

definition look_dir :: "path \<Rightarrow> unit tool" where
  "look_dir p w =
     (case look p w of
        (Inl e, w) \<Rightarrow> (Inl e, w)
      | (Inr n, w) \<Rightarrow> if n \<noteq> TDir then (Inl (NotADirectory (show_path p)), w) else (Inr (), w))"

definition truncated_note :: "nat \<Rightarrow> string \<Rightarrow> string" where
  "truncated_note n what = [nl] @ ''[truncated at '' @ show_nat n @ '' matches '' @ em_dash @ what @ '']''"

definition quoted :: "string \<Rightarrow> string" where
  "quoted s = [CHR 0x27] @ s @ [CHR 0x27]"

definition find_files :: "search_env \<Rightarrow> string \<Rightarrow> path \<Rightarrow> string tool" where
  "find_files S pattern p w =
     (case look_dir p w of
        (Inl e, w) \<Rightarrow> (Inl e, w)
      | (Inr _, w) \<Rightarrow>
          (case se_glob S pattern of
             Inl e \<Rightarrow> (Inl (InvalidArgument ''pattern'' e), w)
           | Inr m \<Rightarrow>
               (let hits = map we_rel (filter (\<lambda>e. we_file e \<and> m (we_rel e)) (se_walk S walked p));
                    results = sort (take LIST_MAX_ENTRIES hits)
                in (Inr (if results = [] then ''no files matching '' @ quoted pattern @ '' under '' @ show_path p
                     else join_with nl results @
                       (if LIST_MAX_ENTRIES \<le> length hits then truncated_note LIST_MAX_ENTRIES '' narrow the pattern or path'' else [])), w))))"

text \<open>The lines of one file: the bound is tested before each line. The results, and whether it was reached.\<close>

fun search_lines :: "(string \<Rightarrow> bool) \<Rightarrow> string \<Rightarrow> nat \<Rightarrow> string list \<Rightarrow> string list \<Rightarrow> string list \<times> bool" where
  "search_lines m rel n [] acc = (acc, False)"
| "search_lines m rel n (l # ls) acc =
     (if SEARCH_MAX_MATCHES \<le> length acc then (acc, True)
      else search_lines m rel (Suc n) ls (if m l then acc @ [rel @ '':'' @ show_nat (sat_add U64_MAX n 1) @ '': '' @ l] else acc))"

fun search_entries :: "(string \<Rightarrow> bool) \<Rightarrow> (string \<Rightarrow> bool) option \<Rightarrow> walk_entry list \<Rightarrow> string list \<Rightarrow> string list \<times> bool" where
  "search_entries m g [] acc = (acc, False)"
| "search_entries m g (e # es) acc =
     (if \<not> we_file e \<or> (case g of None \<Rightarrow> False | Some f \<Rightarrow> \<not> f (we_rel e)) then search_entries m g es acc
      else case we_text e of
          None \<Rightarrow> search_entries m g es acc
        | Some c \<Rightarrow> (case search_lines m (we_rel e) 0 (str_lines c) acc of
              (acc, True) \<Rightarrow> (acc, True)
            | (acc, False) \<Rightarrow> search_entries m g es acc))"

definition compile_glob_filter :: "search_env \<Rightarrow> string \<Rightarrow> tools_error + (string \<Rightarrow> bool) option" where
  "compile_glob_filter S glob =
     (if glob = [] then Inr None
      else case se_glob S glob of Inl e \<Rightarrow> Inl (InvalidArgument ''glob'' e) | Inr m \<Rightarrow> Inr (Some m))"

definition search :: "search_env \<Rightarrow> string \<Rightarrow> string \<Rightarrow> path \<Rightarrow> string tool" where
  "search S pattern glob p w =
     (case look_dir p w of
        (Inl e, w) \<Rightarrow> (Inl e, w)
      | (Inr _, w) \<Rightarrow>
          (case se_regex S pattern of
             Inl e \<Rightarrow> (Inl (InvalidArgument ''pattern'' e), w)
           | Inr m \<Rightarrow>
               (case compile_glob_filter S glob of
                  Inl e \<Rightarrow> (Inl e, w)
                | Inr g \<Rightarrow>
                    (case search_entries m g (se_walk S walked p) [] of (results, full) \<Rightarrow>
                       (Inr (if results = [] then ''no matches for '' @ quoted pattern @ '' under '' @ show_path p
                          else join_with nl results @
                            (if full then truncated_note SEARCH_MAX_MATCHES '' narrow the pattern, path, or glob'' else [])), w)))))"

end
