(* ===== verification/ToolArgs.thy ===== *)
theory ToolArgs
  imports NumText
begin

text \<open>
  The arguments of a call of a tool, read as serde reads the fields of a record from a JSON value.
\<close>

section \<open>Arguments\<close>

text \<open>
  Reading the arguments of a call: a required field, one with a default, numbers, flags. Unknown
  members are ignored. The library's wording of an error is a parameter.
\<close>

datatype arg_error =
    MissingField string
  | WrongType string "string json"
  | NotAnObject "string json"
  | TooShort string "string json"
  | TooLong "string json"

definition field_string :: "string json \<Rightarrow> string \<Rightarrow> arg_error + string" where
  "field_string v k =
     (case jget k v of None \<Rightarrow> Inl (MissingField k) | Some (JStr s) \<Rightarrow> Inr s | Some x \<Rightarrow> Inl (WrongType k x))"

definition field_string_or :: "string json \<Rightarrow> string \<Rightarrow> arg_error + string" where
  "field_string_or v k = (if jget k v = None then Inr [] else field_string v k)"

definition field_nat :: "string json \<Rightarrow> string \<Rightarrow> arg_error + nat" where
  "field_nat v k =
     (case jget k v of
        None \<Rightarrow> Inr 0
      | Some (JInt i) \<Rightarrow> if 0 \<le> i \<and> i \<le> int U64_MAX then Inr (nat i) else Inl (WrongType k (JInt i))
      | Some x \<Rightarrow> Inl (WrongType k x))"

definition field_bool :: "string json \<Rightarrow> string \<Rightarrow> arg_error + bool" where
  "field_bool v k =
     (case jget k v of None \<Rightarrow> Inr False | Some (JBool b) \<Rightarrow> Inr b | Some x \<Rightarrow> Inl (WrongType k x))"

text \<open>The library also reads the fields of a record from an array, in their order.\<close>

definition obj_args :: "string list \<Rightarrow> string json \<Rightarrow> (string json \<Rightarrow> arg_error + 'a) \<Rightarrow> arg_error + 'a" where
  "obj_args names v f =
     (case v of
        JObj ms \<Rightarrow> f v
      | JArr xs \<Rightarrow>
          (case f (JObj (zip names xs)) of
             Inl (MissingField k) \<Rightarrow> Inl (TooShort k v)
           | Inl e \<Rightarrow> Inl e
           | Inr a \<Rightarrow> if length names < length xs then Inl (TooLong v) else Inr a)
      | _ \<Rightarrow> Inl (NotAnObject v))"

text \<open>\<open>?\<close>: the first error ends the reading.\<close>

definition arg_bind :: "arg_error + 'a \<Rightarrow> ('a \<Rightarrow> arg_error + 'b) \<Rightarrow> arg_error + 'b" where
  "arg_bind m f = (case m of Inl e \<Rightarrow> Inl e | Inr x \<Rightarrow> f x)"

end
