(* ===== verification/ToolsMcp.thy ===== *)
theory ToolsMcp
  imports ToolsFs ToolArgs
begin

text \<open>
  The tools of a sandbox as agents call them: commands (\<open>tools/src/command.rs\<close>), the Python
  environment of the workspace (\<open>sandbox/src/venv.rs\<close>), the dispatch of a call after confining its
  path (\<open>sandbox/src/tools_impl.rs\<close>), and the MCP server in front of it (\<open>sandbox/src/mcp.rs\<close>).
  Texts of the system and of the JSON library, the processes and the tools of other theories are
  parameters.
\<close>

section \<open>Arguments of the tools\<close>

definition read_args :: "string json \<Rightarrow> arg_error + read_options" where
  "read_args v = obj_args [''path'', ''offset'', ''limit'', ''raw''] v (\<lambda>v. 
     arg_bind (field_string v ''path'') (\<lambda>p. arg_bind (field_nat v ''offset'') (\<lambda>off.
     arg_bind (field_nat v ''limit'') (\<lambda>lim. arg_bind (field_bool v ''raw'') (\<lambda>raw.
       Inr \<lparr>ro_path = p, ro_offset = off, ro_limit = lim, ro_raw = raw\<rparr>)))))"

definition write_args :: "string json \<Rightarrow> arg_error + string \<times> string" where
  "write_args v = obj_args [''path'', ''content''] v (\<lambda>v. 
     arg_bind (field_string v ''path'') (\<lambda>p. arg_bind (field_string v ''content'') (\<lambda>c. Inr (p, c))))"

definition edit_args :: "string json \<Rightarrow> arg_error + edit_options" where
  "edit_args v = obj_args [''path'', ''old_string'', ''new_string'', ''replace_all''] v (\<lambda>v. 
     arg_bind (field_string v ''path'') (\<lambda>p. arg_bind (field_string v ''old_string'') (\<lambda>old.
     arg_bind (field_string v ''new_string'') (\<lambda>new. arg_bind (field_bool v ''replace_all'') (\<lambda>al.
       Inr \<lparr>eo_path = p, eo_old = old, eo_new = new, eo_all = al\<rparr>)))))"

definition delete_args :: "string json \<Rightarrow> arg_error + string" where
  "delete_args v = obj_args [''path''] v (\<lambda>v. field_string v ''path'')"

definition list_args :: "string json \<Rightarrow> arg_error + string \<times> nat" where
  "list_args v = obj_args [''path'', ''depth''] v (\<lambda>v. 
     arg_bind (field_string v ''path'') (\<lambda>p. arg_bind (field_nat v ''depth'') (\<lambda>n. Inr (p, n))))"

definition find_args :: "string json \<Rightarrow> arg_error + string \<times> string" where
  "find_args v = obj_args [''pattern'', ''path''] v (\<lambda>v. 
     arg_bind (field_string v ''pattern'') (\<lambda>m. arg_bind (field_string_or v ''path'') (\<lambda>p. Inr (m, p))))"

definition search_args :: "string json \<Rightarrow> arg_error + string \<times> string \<times> string" where
  "search_args v = obj_args [''pattern'', ''path'', ''glob''] v (\<lambda>v. 
     arg_bind (field_string v ''pattern'') (\<lambda>m. arg_bind (field_string_or v ''path'') (\<lambda>p.
     arg_bind (field_string_or v ''glob'') (\<lambda>g. Inr (m, p, g)))))"

record command_options =
  co_command :: string
  co_timeout :: nat
  co_cwd :: string

definition command_args :: "string json \<Rightarrow> arg_error + command_options" where
  "command_args v = obj_args [''command'', ''timeout_secs'', ''cwd''] v (\<lambda>v. 
     arg_bind (field_string v ''command'') (\<lambda>c. arg_bind (field_nat v ''timeout_secs'') (\<lambda>t.
     arg_bind (field_string_or v ''cwd'') (\<lambda>d. Inr \<lparr>co_command = c, co_timeout = t, co_cwd = d\<rparr>))))"

section \<open>Commands\<close>

text \<open>How a process ends: it is not started, waiting for it fails, it goes on beyond a limit in seconds, or it is done.\<close>

datatype process_end =
    NotStarted string
  | WaitFailed string
  | Done nat "int option" string string string \<comment> \<open>seconds it took, exit code, the time as text, its two outputs as text\<close>
  | Endless

record process_env =
  pe_run :: "string \<Rightarrow> path \<Rightarrow> (string \<times> string) list \<Rightarrow> process_end"
  pe_path :: string

definition command_output :: "int option \<Rightarrow> string \<Rightarrow> string \<Rightarrow> string \<Rightarrow> string" where
  "command_output code dur out err =
     ''exit code: '' @ show_int (case code of Some c \<Rightarrow> c | None \<Rightarrow> - 1) @ [nl] @ ''duration: '' @ dur @ ''s'' @ [nl] @ ''stdout:'' @ [nl] @
     bound_head_tail out COMMAND_MAX_BYTES @ [nl] @ ''stderr:'' @ [nl] @ bound_head_tail err COMMAND_MAX_BYTES"

text \<open>The answer, or \<open>None\<close> for a command without limit that does not end.\<close>

definition finish_command :: "string \<Rightarrow> nat \<Rightarrow> process_end \<Rightarrow> (tools_error + string) option" where
  "finish_command command limit e =
     (case e of
        NotStarted s \<Rightarrow> Some (Inl (IoError (''command: '' @ command) s))
      | WaitFailed s \<Rightarrow> Some (Inl (IoError (''command: '' @ command) s))
      | Done secs code dur out err \<Rightarrow>
          if limit = 0 \<or> secs < limit then Some (Inr (command_output code dur out err)) else Some (Inl (CommandTimeout limit))
      | Endless \<Rightarrow> if limit = 0 then None else Some (Inl (CommandTimeout limit)))"

definition execute_command :: "process_env \<Rightarrow> string \<Rightarrow> nat \<Rightarrow> path \<Rightarrow> (string \<times> string) list \<Rightarrow> fs_world
    \<Rightarrow> (tools_error + string) option \<times> fs_world" where
  "execute_command P command limit cwd envs w =
     (if command = [] then (Some (Inl (InvalidArgument ''command'' ''must not be empty'')), w)
      else case look_dir cwd w of
          (Inl e, w) \<Rightarrow> (Some (Inl e), w)
        | (Inr _, w) \<Rightarrow> (finish_command command limit (pe_run P command cwd envs), w))"

definition venv_overlay :: "process_env \<Rightarrow> path \<Rightarrow> fs_world \<Rightarrow> (string \<times> string) list \<times> fs_world" where
  "venv_overlay P sandbox_root w =
     (let venv = sandbox_root @ [''.venv''] in
      case metadata (venv @ [''pyvenv.cfg'']) w of
        (Inr (TFile c m), w) \<Rightarrow>
          ([(''VIRTUAL_ENV'', show_path venv), (''PATH'', show_path (venv @ [''bin'']) @ '':'' @ pe_path P)], w)
      | (_, w) \<Rightarrow> ([], w))"

section \<open>Dispatch\<close>

definition result_json :: "bool \<Rightarrow> string \<Rightarrow> string json" where
  "result_json err text =
     JObj [(''content'', JArr [JObj [(''text'', JStr text), (''type'', JStr ''text'')]]), (''isError'', JBool err)]"

definition ok_result :: "string \<Rightarrow> string json" where "ok_result text = result_json False text"
definition err_result :: "string \<Rightarrow> string json" where "err_result text = result_json True text"

fun sandbox_error_text :: "(path \<Rightarrow> string) \<Rightarrow> sandbox_error \<Rightarrow> string" where
  "sandbox_error_text why (InvalidRoot p) = ''VNL-SBX-002: invalid sandbox root: '' @ show_path p"
| "sandbox_error_text why (AncestorResolutionFailed p) =
     ''VNL-SBX-003: failed to resolve path ancestor '' @ show_path p @ '': '' @ why p"
| "sandbox_error_text why (PathEscape p r) =
     ''VNL-SBX-001: path escapes sandbox root: '' @ p @ '' (resolved outside '' @ show_path r @ '')''"

record tools_env =
  te_root :: path
  te_search :: search_env
  te_process :: process_env
  te_arg_text :: "arg_error \<Rightarrow> string"
  te_why :: "path \<Rightarrow> string"

record tools_state =
  tz_world :: fs_world
  tz_notified :: nat \<comment> \<open>how often the health of the code was told of a change\<close>

definition bad_args :: "tools_env \<Rightarrow> string \<Rightarrow> arg_error \<Rightarrow> string json" where
  "bad_args E name e = err_result (''invalid arguments for '' @ name @ '': '' @ te_arg_text E e)"

text \<open>Confine the path, do the tool's work on it, answer; a change that succeeded is announced.\<close>

definition confined :: "tools_env \<Rightarrow> string \<Rightarrow> (path \<Rightarrow> tools_state \<Rightarrow> string json \<times> tools_state) \<Rightarrow> tools_state
    \<Rightarrow> string json \<times> tools_state" where
  "confined E raw body z =
     (case confine_path (shape (fw_tree (tz_world z))) (te_root E) raw of
        Inl e \<Rightarrow> (err_result (sandbox_error_text (te_why E) e), z)
      | Inr p \<Rightarrow> body p z)"

definition reading :: "string tool \<Rightarrow> tools_state \<Rightarrow> string json \<times> tools_state" where
  "reading act z =
     (case act (tz_world z) of
        (Inl e, w) \<Rightarrow> (err_result (tools_error_text e), z\<lparr>tz_world := w\<rparr>)
      | (Inr text, w) \<Rightarrow> (ok_result text, z\<lparr>tz_world := w\<rparr>))"

definition changing :: "'a tool \<Rightarrow> ('a \<Rightarrow> string) \<Rightarrow> tools_state \<Rightarrow> string json \<times> tools_state" where
  "changing act text z =
     (case act (tz_world z) of
        (Inl e, w) \<Rightarrow> (err_result (tools_error_text e), z\<lparr>tz_world := w\<rparr>)
      | (Inr a, w) \<Rightarrow> (ok_result (text a), z\<lparr>tz_world := w, tz_notified := tz_notified z + 1\<rparr>))"

text \<open>The arguments or the answer that they are wrong.\<close>

definition with_args :: "tools_env \<Rightarrow> string \<Rightarrow> (arg_error + 'a) \<Rightarrow> ('a \<Rightarrow> tools_state \<Rightarrow> string json \<times> tools_state) \<Rightarrow> tools_state
    \<Rightarrow> (string json \<times> tools_state) option" where
  "with_args E name r body z = Some (case r of Inl e \<Rightarrow> (bad_args E name e, z) | Inr a \<Rightarrow> body a z)"

definition dispatch_filesystem :: "tools_env \<Rightarrow> string \<Rightarrow> string json \<Rightarrow> tools_state \<Rightarrow> (string json \<times> tools_state) option" where
  "dispatch_filesystem E name v z =
     (if name = ''read_file'' then
        with_args E name (read_args v) (\<lambda>o'. confined E (ro_path o') (\<lambda>p. reading (read_file p o'))) z
      else if name = ''write_file'' then
        with_args E name (write_args v) (\<lambda>(raw, c). confined E raw (\<lambda>p. changing (write_file p c) (\<lambda>_. ''wrote '' @ show_path p))) z
      else if name = ''edit_file'' then
        with_args E name (edit_args v) (\<lambda>o'. confined E (eo_path o') (\<lambda>p. changing (edit_file p o') id)) z
      else if name = ''delete_file'' then
        with_args E name (delete_args v) (\<lambda>raw. confined E raw (\<lambda>p. changing (delete_file p) (\<lambda>_. ''deleted '' @ show_path p))) z
      else if name = ''list_directory'' then
        with_args E name (list_args v) (\<lambda>(raw, n). confined E raw (\<lambda>p. reading (list_directory p n))) z
      else None)"

definition dispatch_search :: "tools_env \<Rightarrow> string \<Rightarrow> string json \<Rightarrow> tools_state \<Rightarrow> (string json \<times> tools_state) option" where
  "dispatch_search E name v z =
     (if name = ''find_files'' then
        with_args E name (find_args v) (\<lambda>(m, raw). confined E raw (\<lambda>p. reading (find_files (te_search E) m p))) z
      else if name = ''search'' then
        with_args E name (search_args v) (\<lambda>(m, raw, g). confined E raw (\<lambda>p. reading (search (te_search E) m g p))) z
      else None)"

text \<open>
  The Python environment is looked up before the directory is confined. The answer is \<open>None\<close> for
  another tool; \<open>Some (None, z)\<close> stands for a call that does not return.
\<close>

definition dispatch_command :: "tools_env \<Rightarrow> string \<Rightarrow> string json \<Rightarrow> tools_state
    \<Rightarrow> (string json option \<times> tools_state) option" where
  "dispatch_command E name v z =
     (if name \<noteq> ''execute_command'' then None
      else Some (case command_args v of
          Inl e \<Rightarrow> (Some (bad_args E name e), z)
        | Inr opts \<Rightarrow>
            (case venv_overlay (te_process E) (te_root E) (tz_world z) of
               (envs, w) \<Rightarrow>
                 (case confine_path (shape (fw_tree w)) (te_root E) (co_cwd opts) of
                    Inl e \<Rightarrow> (Some (err_result (sandbox_error_text (te_why E) e)), z\<lparr>tz_world := w\<rparr>)
                  | Inr p \<Rightarrow>
                      (case execute_command (te_process E) (co_command opts) (co_timeout opts) p envs w of
                         (None, w) \<Rightarrow> (None, z\<lparr>tz_world := w\<rparr>)
                       | (Some (Inl e), w) \<Rightarrow> (Some (err_result (tools_error_text e)), z\<lparr>tz_world := w\<rparr>)
                       | (Some (Inr text), w) \<Rightarrow> (Some (ok_result text), z\<lparr>tz_world := w\<rparr>))))))"

section \<open>The MCP server\<close>

record rpc_request =
  rq_id :: "string json option"
  rq_method :: string
  rq_params :: "string json"

datatype rpc_response =
    RpcOk "string json option" "string json"
  | RpcErr "string json option" int string

datatype http_answer = Accepted | Answer rpc_response

text \<open>The tools of other families, tried in turn, and what the program says of itself.\<close>

record mcp_env =
  me_tools :: tools_env
  me_others :: "string \<Rightarrow> string json \<Rightarrow> tools_state \<Rightarrow> (string json option \<times> tools_state) option"
  me_list :: "string json list"
  me_name :: string
  me_version :: string

text \<open>\<open>id: Option<Value>\<close> reads a null as absent.\<close>

definition request_id :: "string json \<Rightarrow> string json option" where
  "request_id v = (case jget ''id'' v of None \<Rightarrow> None | Some JNull \<Rightarrow> None | Some i \<Rightarrow> Some i)"

definition handle_initialize :: "mcp_env \<Rightarrow> string json option \<Rightarrow> rpc_response" where
  "handle_initialize M i = RpcOk i (JObj
     [(''capabilities'', JObj [(''tools'', JObj [])]), (''protocolVersion'', JStr ''2024-11-05''),
      (''serverInfo'', JObj [(''name'', JStr (me_name M)), (''version'', JStr (me_version M))])])"

definition handle_tools_list :: "mcp_env \<Rightarrow> string json option \<Rightarrow> rpc_response" where
  "handle_tools_list M i = RpcOk i (JObj [(''tools'', JArr (me_list M))])"

definition call_tool :: "mcp_env \<Rightarrow> string \<Rightarrow> string json \<Rightarrow> tools_state \<Rightarrow> (string json option \<times> tools_state) option" where
  "call_tool M name v z =
     (case dispatch_filesystem (me_tools M) name v z of
        Some (r, z) \<Rightarrow> Some (Some r, z)
      | None \<Rightarrow>
          (case dispatch_search (me_tools M) name v z of
             Some (r, z) \<Rightarrow> Some (Some r, z)
           | None \<Rightarrow>
               (case dispatch_command (me_tools M) name v z of
                  Some a \<Rightarrow> Some a
                | None \<Rightarrow> me_others M name v z)))"

definition handle_tools_call :: "mcp_env \<Rightarrow> string json option \<Rightarrow> string json \<Rightarrow> tools_state \<Rightarrow> rpc_response option \<times> tools_state" where
  "handle_tools_call M i params z =
     (case Option.bind (jget ''name'' params) as_str of
        None \<Rightarrow> (Some (RpcErr i (- 32602) ''Missing tool name in params''), z)
      | Some name \<Rightarrow>
          (case call_tool M name (case jget ''arguments'' params of None \<Rightarrow> JNull | Some v \<Rightarrow> v) z of
             None \<Rightarrow> (Some (RpcErr i (- 32602) (''Unknown tool: '' @ name)), z)
           | Some (None, z) \<Rightarrow> (None, z)
           | Some (Some r, z) \<Rightarrow> (Some (RpcOk i r), z)))"

text \<open>\<open>None\<close>: the call does not return.\<close>

definition handle :: "mcp_env \<Rightarrow> rpc_request \<Rightarrow> tools_state \<Rightarrow> http_answer option \<times> tools_state" where
  "handle M req z =
     (if rq_id req = None then (Some Accepted, z)
      else if rq_method req = ''initialize'' then (Some (Answer (handle_initialize M (rq_id req))), z)
      else if rq_method req = ''notifications/initialized'' then (Some Accepted, z)
      else if rq_method req = ''tools/list'' then (Some (Answer (handle_tools_list M (rq_id req))), z)
      else if rq_method req = ''tools/call'' then
        (case handle_tools_call M (rq_id req) (rq_params req) z of (r, z) \<Rightarrow> (map_option Answer r, z))
      else (Some (Answer (RpcErr (rq_id req) (- 32601) (''Method not found: '' @ rq_method req))), z))"

end
