(* ===== verification/ToolsFsProps.thy ===== *)
theory ToolsFsProps
  imports ToolsFs
begin

text \<open>
  Properties of the file tools: a crash or a failed call never leaves a half-written file, an
  edit changes nothing but its file, and reading tools change nothing.
\<close>

section \<open>Resolution beside one name\<close>

definition no_dir_link :: "node option \<Rightarrow> bool" where
  "no_dir_link n \<longleftrightarrow> n = None \<or> n = Some File"

text \<open>Changing what is no directory and no link leaves the way to a directory as it is.\<close>

lemma walk_e_beside:
  assumes "\<forall>x. x \<noteq> t \<longrightarrow> F' x = F x" "no_dir_link (F t)" "no_dir_link (F' t)"
  shows "walk_e F n cur xs = Inr d \<Longrightarrow> d = [] \<or> F d \<noteq> Some File \<Longrightarrow> walk_e F' n cur xs = Inr d"
  using assms
proof (induction F n cur xs rule: walk_e.induct)
  case (2 F n cur c cs)
  show ?case
  proof (cases "c = dotdot")
    case True
    then show ?thesis using 2 by (simp add: walk_e.simps(2))
  next
    case False
    have other: "F (cur @ [c]) = Some Dir \<or> (\<exists>ab tg. F (cur @ [c]) = Some (Link ab tg)) \<Longrightarrow> F' (cur @ [c]) = F (cur @ [c])"
    proof -
      assume "F (cur @ [c]) = Some Dir \<or> (\<exists>ab tg. F (cur @ [c]) = Some (Link ab tg))"
      then have "cur @ [c] \<noteq> t" using 2(7) by (auto simp: no_dir_link_def)
      then show "F' (cur @ [c]) = F (cur @ [c])" using 2(6) by simp
    qed
    show ?thesis
    proof (cases "F (cur @ [c])")
      case (Some nd)
      then show ?thesis
      proof (cases nd)
        case Dir
        then show ?thesis using 2(2) [OF False Some Dir] 2(4-8) False Some other by (simp add: walk_e.simps(2))
      next
        case File
        then show ?thesis using 2(4,5) False Some by (auto simp: walk_e.simps(2) split: if_splits)
      next
        case (Link ab tg)
        then obtain m where m: "n = Suc m" using 2(4) False Some by (cases n) (auto simp: walk_e.simps(2))
        then show ?thesis using 2(3) [OF False Some Link m] 2(4-8) False Some Link other by (simp add: walk_e.simps(2))
      qed
    qed (use 2(4) False in \<open>simp add: walk_e.simps(2)\<close>)
  qed
qed simp

lemma walk_e_snoc:
  assumes "x \<noteq> dotdot" "no_dir_link (F (d @ [x]))"
  shows "walk_e F n cur xs = Inr d \<Longrightarrow> d = [] \<or> F d \<noteq> Some File \<Longrightarrow>
    walk_e F n cur (xs @ [x]) = (if F (d @ [x]) = None then Inl enoent else Inr (d @ [x])) \<and>
    (F (d @ [x]) = None \<longrightarrow> create_at F n cur (xs @ [x]) = Some (d @ [x]))"
  using assms
proof (induction F n cur xs rule: walk_e.induct)
  case (1 F n cur)
  then show ?case by (auto simp: walk_e.simps(2) create_at.simps(2) no_dir_link_def)
next
  case (2 F n cur c cs)
  show ?case
  proof (cases "c = dotdot")
    case True
    then show ?thesis using 2 by (simp add: walk_e.simps(2) create_at.simps(2))
  next
    case False
    show ?thesis
    proof (cases "F (cur @ [c])")
      case (Some nd)
      then show ?thesis
      proof (cases nd)
        case Dir
        then show ?thesis using 2(2) [OF False Some Dir] 2(4-7) False Some
          by (simp add: walk_e.simps(2) create_at.simps(2))
      next
        case File
        then show ?thesis using 2(4,5) False Some by (auto simp: walk_e.simps(2) split: if_splits)
      next
        case (Link ab tg)
        then obtain m where m: "n = Suc m" using 2(4) False Some by (cases n) (auto simp: walk_e.simps(2))
        then show ?thesis using 2(3) [OF False Some Link m] 2(4-7) False Some Link
          by (simp add: walk_e.simps(2) create_at.simps(2))
      qed
    qed (use 2(4) False in \<open>simp add: walk_e.simps(2)\<close>)
  qed
qed

section \<open>Places beside a file\<close>

definition no_dir_link_at :: "tree \<Rightarrow> path \<Rightarrow> bool" where
  "no_dir_link_at T t \<longleftrightarrow> no_dir_link (shape T t)"

definition same_but :: "path \<Rightarrow> tree \<Rightarrow> tree \<Rightarrow> bool" where
  "same_but t T T' \<longleftrightarrow> (\<forall>x. x \<noteq> t \<longrightarrow> map_of T' x = map_of T x)"

lemma map_of_set_node [simp]: "map_of (set_node p n T) x = (if x = p then Some n else map_of T x)"
  by (auto simp: set_node_def map_of_eq_None_iff) (induction T, auto)

lemma map_of_del_node [simp]: "map_of (del_node p T) x = (if x = p then None else map_of T x)"
  by (induction T) (auto simp: del_node_def)

lemma no_dir_link_at_iff: "no_dir_link_at T t \<longleftrightarrow> map_of T t = None \<or> (\<exists>c m. map_of T t = Some (TFile c m))"
proof (cases "map_of T t")
  case (Some n)
  then show ?thesis by (cases n) (auto simp: no_dir_link_at_def no_dir_link_def shape_def)
qed (simp add: no_dir_link_at_def no_dir_link_def shape_def)

definition in_dir :: "tree \<Rightarrow> path \<Rightarrow> path \<Rightarrow> bool" where
  "in_dir T p d \<longleftrightarrow> stat T p = Inr (d, TDir)"

lemma in_dir_resolve:
  assumes "in_dir T p d"
  shows "resolve T p = Inr d" "d = [] \<or> shape T d \<noteq> Some File" "no_dir_link_at T t \<Longrightarrow> t \<noteq> [] \<Longrightarrow> d \<noteq> t"
proof -
  have r: "resolve T p = Inr d" and n: "node_at T d = Some TDir"
    using assms by (auto simp: in_dir_def stat_def split: sum.splits option.splits)
  show "resolve T p = Inr d" by (rule r)
  show "d = [] \<or> shape T d \<noteq> Some File" using n by (auto simp: node_at_def shape_def)
  show "no_dir_link_at T t \<Longrightarrow> t \<noteq> [] \<Longrightarrow> d \<noteq> t" using n by (auto simp: node_at_def no_dir_link_at_iff)
qed

text \<open>The temporary name: no directory and no link, in a directory that is found, whatever stands there.\<close>

lemma in_dir_beside:
  assumes "in_dir T p d" "same_but t T T'" "no_dir_link_at T t" "no_dir_link_at T' t" "t \<noteq> []"
  shows "in_dir T' p d"
proof -
  note r = in_dir_resolve [OF assms(1)]
  have s: "\<forall>x. x \<noteq> t \<longrightarrow> shape T' x = shape T x" using assms(2) by (simp add: same_but_def shape_def)
  have "resolve T' p = Inr d"
    using walk_e_beside [OF s assms(3,4) [unfolded no_dir_link_at_def], of MAXSYMLINKS "[]" p d] r(1,2)
    by (simp add: resolve_def)
  moreover have "node_at T' d = node_at T d"
    using assms(2) r(3) [OF assms(3,5)] by (simp add: node_at_def same_but_def)
  ultimately show ?thesis
    using assms(1) r(1) by (auto simp: in_dir_def stat_def split: option.splits)
qed

lemma place_in_dir: "in_dir T p d \<Longrightarrow> place T (p @ [x]) = Inr (d @ [x])"
  by (simp add: place_def in_dir_def)

lemma open_in_dir:
  assumes "in_dir T p d" "x \<noteq> dotdot" "no_dir_link_at T (d @ [x])"
  shows "open_place T (p @ [x]) = Inr (d @ [x])"
    "map_of T (d @ [x]) = Some n \<Longrightarrow> stat T (p @ [x]) = Inr (d @ [x], n)"
proof -
  note r = in_dir_resolve [OF assms(1)]
  have w: "resolve T (p @ [x]) = (if shape T (d @ [x]) = None then Inl enoent else Inr (d @ [x]))"
    "shape T (d @ [x]) = None \<longrightarrow> create_at (shape T) MAXSYMLINKS [] (p @ [x]) = Some (d @ [x])"
    using walk_e_snoc [of x "shape T" d MAXSYMLINKS "[]" p] assms(2,3) r(1,2)
    by (simp_all add: resolve_def no_dir_link_at_def)
  then show "open_place T (p @ [x]) = Inr (d @ [x])" by (auto simp: open_place_def)
  show "map_of T (d @ [x]) = Some n \<Longrightarrow> stat T (p @ [x]) = Inr (d @ [x], n)"
    using w(1) by (simp add: stat_def node_at_def shape_def)
qed

section \<open>What calls leave behind\<close>

text \<open>A call went through trees with a property, the last of which is the tree now.\<close>

definition via :: "(tree \<Rightarrow> bool) \<Rightarrow> fs_world \<Rightarrow> fs_world \<Rightarrow> bool" where
  "via G w w' \<longleftrightarrow> (\<exists>ts. fw_trail w' = ts @ fw_trail w \<and> (\<forall>T \<in> set ts. G T) \<and> fw_tree w' = hd (ts @ [fw_tree w]))
     \<and> fw_pid w' = fw_pid w"

lemma via_refl: "via G w w"
  by (simp add: via_def)

lemma via_trans: "via G w w1 \<Longrightarrow> via G w1 w2 \<Longrightarrow> via G w w2"
  unfolding via_def by (elim conjE exE, rule conjI, rule_tac x = "tsa @ ts" in exI) (auto simp: hd_append)

lemma via_mono: "via G w w' \<Longrightarrow> (\<And>T. G T \<Longrightarrow> H T) \<Longrightarrow> via H w w'"
  unfolding via_def by blast

lemma via_put: "G T \<Longrightarrow> via G w (put_tree T w)"
  by (simp add: via_def put_tree_def exI [of _ "[T]"])

lemma via_faults: "via G (w\<lparr>fw_faults := fs\<rparr>) w' \<Longrightarrow> via G w w'"
  by (simp add: via_def)

lemma via_tree: "via G w w' \<Longrightarrow> fw_tree w' = fw_tree w \<or> G (fw_tree w')"
  by (auto simp: via_def) (metis append_Nil hd_append hd_in_set list.sel(1))

lemma via_pid: "via G w w' \<Longrightarrow> fw_pid w' = fw_pid w"
  by (simp add: via_def)

text \<open>Nothing was changed at all.\<close>

definition untouched :: "fs_world \<Rightarrow> fs_world \<Rightarrow> bool" where
  "untouched w w' \<longleftrightarrow> fw_tree w' = fw_tree w \<and> fw_trail w' = fw_trail w \<and> fw_pid w' = fw_pid w"

lemma untouched_refl [simp]: "untouched w w"
  by (simp add: untouched_def)

lemma untouched_trans: "untouched w w1 \<Longrightarrow> untouched w1 w2 \<Longrightarrow> untouched w w2"
  by (simp add: untouched_def)

lemma untouched_via: "untouched w w' \<Longrightarrow> via G w w'"
  by (simp add: untouched_def via_def)

lemma untouched_faults [simp]: "untouched w (w\<lparr>fw_faults := fs\<rparr>)"
  by (simp add: untouched_def)

lemma syscall_cases:
  assumes "syscall act w = (r, w')"
  obtains (fault) e where "r = Inl e" "untouched w w'"
  | (act) fs where "act (w\<lparr>fw_faults := fs\<rparr>) = (r, w')"
proof (cases "fw_faults w")
  case Nil
  then have w: "w\<lparr>fw_faults := []\<rparr> = w" by (cases w) simp
  show ?thesis by (rule that(2) [of "[]"]) (use assms Nil in \<open>simp add: syscall_def w\<close>)
next
  case (Cons f fs)
  then show ?thesis
    using assms that(1) that(2) [of fs] by (cases f) (auto simp: syscall_def)
qed

lemma metadata_untouched: "metadata p w = (r, w') \<Longrightarrow> untouched w w'"
  unfolding metadata_def by (elim syscall_cases) auto

lemma read_to_string_untouched: "read_to_string p w = (r, w') \<Longrightarrow> untouched w w'"
  unfolding read_to_string_def by (elim syscall_cases) auto

lemma read_dir_untouched: "read_dir p w = (r, w') \<Longrightarrow> untouched w w'"
  unfolding read_dir_def by (elim syscall_cases) auto

lemma is_dir_untouched: "is_dir p w = (r, w') \<Longrightarrow> untouched w w'"
  by (auto simp: is_dir_def split: prod.splits dest: metadata_untouched)

text \<open>A temporary file in a directory: where its parent is found, and that nothing else is there.\<close>

definition tmp_spot :: "tree \<Rightarrow> path \<Rightarrow> path \<Rightarrow> string \<Rightarrow> bool" where
  "tmp_spot T p d x \<longleftrightarrow> in_dir T p d \<and> no_dir_link_at T (d @ [x]) \<and> x \<noteq> dotdot"

lemma tmp_spot_beside:
  assumes "tmp_spot T p d x" "same_but (d @ [x]) T T'" "no_dir_link_at T' (d @ [x])"
  shows "tmp_spot T' p d x"
  using assms in_dir_beside [of T p d "d @ [x]" T'] by (simp add: tmp_spot_def)

lemma same_but_set [simp]: "same_but t T T' \<Longrightarrow> same_but t T (set_node t n T')" "same_but t T T' \<Longrightarrow> same_but t T (del_node t T')"
  by (simp_all add: same_but_def)

lemma same_but_refl [simp]: "same_but t T T"
  by (simp add: same_but_def)

lemma no_dir_link_set [simp]: "no_dir_link_at (set_node t (TFile c m) T) t" "no_dir_link_at (del_node t T) t"
  by (simp_all add: no_dir_link_at_iff)

text \<open>What every change of the temporary file keeps.\<close>

definition only_tmp :: "path \<Rightarrow> tree \<Rightarrow> tree \<Rightarrow> bool" where
  "only_tmp t T T' \<longleftrightarrow> same_but t T T' \<and> no_dir_link_at T' t"

lemma put_all_via: "\<forall>T \<in> set Ts. G T \<Longrightarrow> via G w (put_all Ts w)"
proof (induction Ts arbitrary: w)
  case (Cons T Ts)
  then show ?case by (auto intro: via_trans via_put)
qed (simp add: via_refl)

lemma put_all_tree: "fw_tree (put_all Ts w) = (if Ts = [] then fw_tree w else last Ts)"
  by (induction Ts arbitrary: w) (auto simp: put_tree_def)

lemma write_bytes_tree: "fw_tree (write_bytes q c k w) = set_node q (TFile (take k c) (mode_at w q)) (fw_tree w)"
  by (simp add: write_bytes_def put_all_tree)

lemma write_bytes_via:
  assumes "only_tmp q T (fw_tree w)"
  shows "via (only_tmp q T) w (write_bytes q c k w)"
  unfolding write_bytes_def using assms by (intro put_all_via) (auto simp: only_tmp_def)

lemma write_call_tmp:
  assumes "tmp_spot (fw_tree w) p d x" "only_tmp (d @ [x]) T (fw_tree w)" "write_call (p @ [x]) c fault w = (r, w')"
  shows "via (only_tmp (d @ [x]) T) w w'"
    "r = Inr () \<Longrightarrow> map_of (fw_tree w') (d @ [x]) = Some (TFile c (mode_at w (d @ [x])))"
proof -
  have o: "open_place (fw_tree w) (p @ [x]) = Inr (d @ [x])" and n: "node_at (fw_tree w) (d @ [x]) \<noteq> Some TDir"
    using assms(1) open_in_dir(1) by (auto simp: tmp_spot_def node_at_def no_dir_link_at_iff)
  show "via (only_tmp (d @ [x]) T) w w'" "r = Inr () \<Longrightarrow> map_of (fw_tree w') (d @ [x]) = Some (TFile c (mode_at w (d @ [x])))"
    using assms(3) o n write_bytes_via [OF assms(2)]
    by (auto simp: write_call_def write_bytes_tree via_refl split: option.splits nat.splits)
qed

lemma write_file_call_tmp:
  assumes "tmp_spot (fw_tree w) p d x" "only_tmp (d @ [x]) T (fw_tree w)" "write_file_call (p @ [x]) c w = (r, w')"
  shows "via (only_tmp (d @ [x]) T) w w'"
    "r = Inr () \<Longrightarrow> \<exists>m. map_of (fw_tree w') (d @ [x]) = Some (TFile c m)"
proof -
  obtain f fs where f: "write_call (p @ [x]) c f (w\<lparr>fw_faults := fs\<rparr>) = (r, w')"
  proof (cases "fw_faults w")
    case Nil
    then have w: "w\<lparr>fw_faults := []\<rparr> = w" by (cases w) simp
    show ?thesis by (rule that [of None "[]"]) (use assms(3) Nil in \<open>simp add: write_file_call_def w\<close>)
  qed (use that assms(3) in \<open>auto simp: write_file_call_def\<close>)
  note w = write_call_tmp [of "w\<lparr>fw_faults := fs\<rparr>" p d x T c f r w']
  show "via (only_tmp (d @ [x]) T) w w'"
    using w(1) assms(1,2) f via_faults by simp
  show "r = Inr () \<Longrightarrow> \<exists>m. map_of (fw_tree w') (d @ [x]) = Some (TFile c m)"
    using w(2) assms(1,2) f by auto
qed

lemma set_permissions_tmp:
  assumes "tmp_spot (fw_tree w) p d x" "only_tmp (d @ [x]) T (fw_tree w)"
    "map_of (fw_tree w) (d @ [x]) = Some (TFile c m0)" "set_permissions (p @ [x]) m w = (r, w')"
  shows "via (only_tmp (d @ [x]) T) w w'" "\<exists>m1. map_of (fw_tree w') (d @ [x]) = Some (TFile c m1)"
proof -
  have s: "stat (fw_tree w) (p @ [x]) = Inr (d @ [x], TFile c m0)"
    using assms(1,3) open_in_dir(2) by (auto simp: tmp_spot_def)
  from assms(4) [unfolded set_permissions_def]
  have "via (only_tmp (d @ [x]) T) w w' \<and> (\<exists>m1. map_of (fw_tree w') (d @ [x]) = Some (TFile c m1))"
  proof (cases rule: syscall_cases)
    case (fault e)
    then show ?thesis using assms(3) by (simp add: untouched_via) (simp add: untouched_def)
  next
    case (act fs)
    then have "w' = put_tree (set_node (d @ [x]) (TFile c m) (fw_tree w)) (w\<lparr>fw_faults := fs\<rparr>)" using s by simp
    moreover have "only_tmp (d @ [x]) T (set_node (d @ [x]) (TFile c m) (fw_tree w))"
      using assms(2) by (simp add: only_tmp_def)
    ultimately show ?thesis
      using via_faults [OF via_put] by (auto simp: put_tree_def)
  qed
  then show "via (only_tmp (d @ [x]) T) w w'" "\<exists>m1. map_of (fw_tree w') (d @ [x]) = Some (TFile c m1)" by auto
qed

lemma rename_tmp:
  assumes "tmp_spot (fw_tree w) p d x" "map_of (fw_tree w) (d @ [x]) = Some (TFile c m)" "x \<noteq> f"
    "rename (p @ [x]) (p @ [f]) w = (r, w')"
  shows "case r of
      Inl e \<Rightarrow> untouched w w'
    | Inr _ \<Rightarrow> via (\<lambda>T. T = set_node (d @ [f]) (TFile c m) (del_node (d @ [x]) (fw_tree w))) w w' \<and>
        fw_tree w' = set_node (d @ [f]) (TFile c m) (del_node (d @ [x]) (fw_tree w)) \<and>
        map_of (fw_tree w) (d @ [f]) \<noteq> Some TDir"
proof -
  have pl: "place (fw_tree w) (p @ [x]) = Inr (d @ [x])" "place (fw_tree w) (p @ [f]) = Inr (d @ [f])"
    using assms(1) place_in_dir by (auto simp: tmp_spot_def)
  from assms(4) [unfolded rename_def] show ?thesis
  proof (cases rule: syscall_cases)
    case (act fs)
    then show ?thesis
      using pl assms(2,3) by (auto simp: Let_def via_def put_tree_def untouched_def split: if_splits intro: exI [of _ "[_]"])
  qed simp
qed

lemma remove_tmp:
  assumes "tmp_spot (fw_tree w) p d x" "only_tmp (d @ [x]) T (fw_tree w)" "remove_file_call (p @ [x]) w = (r, w')"
  shows "via (only_tmp (d @ [x]) T) w w'"
proof -
  have pl: "place (fw_tree w) (p @ [x]) = Inr (d @ [x])" using assms(1) place_in_dir by (auto simp: tmp_spot_def)
  from assms(3) [unfolded remove_file_call_def] show ?thesis
  proof (cases rule: syscall_cases)
    case (act fs)
    have "only_tmp (d @ [x]) T (del_node (d @ [x]) (fw_tree w))" using assms(2) by (simp add: only_tmp_def)
    then show ?thesis
      using act pl via_faults [OF via_put] by (auto split: option.splits if_splits simp: untouched_via)
  qed (rule untouched_via)
qed

lemma give_up_tmp:
  assumes "tmp_spot (fw_tree w) p d x" "only_tmp (d @ [x]) T (fw_tree w)" "give_up (p @ [x]) e w = (r, w')"
  shows "via (only_tmp (d @ [x]) T) w w'" "r = Inl e"
  using assms(3) remove_tmp [OF assms(1,2)] by (auto simp: give_up_def split: prod.splits)

section \<open>The atomic write\<close>

text \<open>
  The trees a replacement of \<open>q\<close> by \<open>c\<close> goes through: everything but the temporary name is as
  before, except that \<open>q\<close> may hold the new content, whole.
\<close>

definition old_or_new :: "path \<Rightarrow> path \<Rightarrow> string \<Rightarrow> tree \<Rightarrow> tree \<Rightarrow> bool" where
  "old_or_new t q c T T' \<longleftrightarrow>
     (\<forall>x. x \<noteq> t \<longrightarrow> map_of T' x = map_of T x \<or> (x = q \<and> (\<exists>m. map_of T' q = Some (TFile c m))))"

lemma only_tmp_old_or_new: "only_tmp t T T' \<Longrightarrow> old_or_new t q c T T'"
  by (simp add: only_tmp_def same_but_def old_or_new_def)

lemma via_only_tmp: "via (only_tmp t T) w w' \<Longrightarrow> via (old_or_new t q c T) w w'"
  by (erule via_mono) (rule only_tmp_old_or_new)

lemma tmp_name_props: "tmp_name n f \<noteq> f" "tmp_name n f \<noteq> dotdot"
proof -
  have "length (tmp_name n f) > length f" "length (tmp_name n f) > 2" by (simp_all add: tmp_name_def)
  then show "tmp_name n f \<noteq> f" "tmp_name n f \<noteq> dotdot" by (auto simp: dotdot_def)
qed

lemma atomic_write_steps:
  assumes spot: "tmp_spot (fw_tree w) p d x" and x: "x = tmp_name (fw_pid w) f"
    and run: "atomic_write (p @ [f]) c w = (r, w')"
  shows "via (old_or_new (d @ [x]) (d @ [f]) c (fw_tree w)) w w'"
    "r = Inl e \<Longrightarrow> only_tmp (d @ [x]) (fw_tree w) (fw_tree w')"
    "r = Inr () \<Longrightarrow> map_of (fw_tree w') (d @ [x]) = None \<and> (\<exists>m. map_of (fw_tree w') (d @ [f]) = Some (TFile c m))"
proof -
  let ?T = "fw_tree w" and ?t = "d @ [x]" and ?q = "d @ [f]"
  let ?G = "only_tmp ?t ?T" and ?H = "old_or_new ?t ?q c ?T"
  have xf: "x \<noteq> f" using x tmp_name_props by simp
  have G0: "?G ?T" using spot by (simp add: only_tmp_def tmp_spot_def)
  have keep: "?G (fw_tree v)" "tmp_spot (fw_tree v) p d x" if "via ?G w v" for v
  proof -
    show g: "?G (fw_tree v)" using via_tree [OF that] G0 by auto
    then show "tmp_spot (fw_tree v) p d x" using tmp_spot_beside [OF spot] by (simp add: only_tmp_def)
  qed
  have failed: "via ?H w w' \<and> ?G (fw_tree w') \<and> r \<noteq> Inr ()"
    if "via ?G w v" "give_up (p @ [x]) e0 v = (r, w')" for v e0
  proof -
    have "via ?G v w'" "r = Inl e0" using give_up_tmp [OF keep(2,1) [OF that(1)] that(2)] by auto
    then have "via ?G w w'" using via_trans that(1) by blast
    then show ?thesis using keep(1) via_only_tmp \<open>r = Inl e0\<close> by blast
  qed
  obtain r1 w1 where w1: "write_file_call (p @ [x]) c w = (r1, w1)" by fastforce
  note s1 = write_file_call_tmp [OF spot G0 w1]
  have all: "via ?H w w' \<and> (r = Inl e \<longrightarrow> ?G (fw_tree w')) \<and>
      (r = Inr () \<longrightarrow> map_of (fw_tree w') ?t = None \<and> (\<exists>m. map_of (fw_tree w') ?q = Some (TFile c m)))"
  proof (cases r1)
    case (Inl e1)
    then have "give_up (p @ [x]) e1 w1 = (r, w')" using run w1 by (simp add: atomic_write_def x Let_def)
    then show ?thesis using failed [OF s1(1), of e1] by auto
  next
    case (Inr u)
    then obtain m1 where c1: "map_of (fw_tree w1) ?t = Some (TFile c m1)" using s1(2) by auto
    obtain rm wm where meta: "metadata (p @ [f]) w1 = (rm, wm)" by fastforce
    note um = metadata_untouched [OF meta]
    obtain r2 w2 where w2: "(case rm of Inl e \<Rightarrow> (Inr (), wm) | Inr n \<Rightarrow> set_permissions (p @ [x]) (mode_of n) wm) = (r2, w2)"
      by fastforce
    have vm: "via ?G w wm" using s1(1) untouched_via [OF um] via_trans by blast
    have cm: "map_of (fw_tree wm) ?t = Some (TFile c m1)" using c1 um by (simp add: untouched_def)
    have s2: "via ?G wm w2" "\<exists>m. map_of (fw_tree w2) ?t = Some (TFile c m)"
      using w2 cm set_permissions_tmp [OF keep(2,1) [OF vm] cm] via_refl by (auto split: sum.splits)
    have v2: "via ?G w w2" using vm s2(1) via_trans by blast
    have step: "atomic_write (p @ [f]) c w = (case r2 of Inl e \<Rightarrow> give_up (p @ [x]) e w2
        | Inr _ \<Rightarrow> (case rename (p @ [x]) (p @ [f]) w2 of (Inl e, w) \<Rightarrow> give_up (p @ [x]) e w | (Inr _, w) \<Rightarrow> (Inr (), w)))"
      using w1 Inr meta w2 unfolding x by (auto simp: atomic_write_def Let_def split: sum.splits)
    show ?thesis
    proof (cases r2)
      case (Inl e2)
      then show ?thesis using failed [OF v2, of e2] run step by auto
    next
      case r2: (Inr u2)
      obtain m where cw: "map_of (fw_tree w2) ?t = Some (TFile c m)" using s2(2) by auto
      obtain r3 w3 where w3: "rename (p @ [x]) (p @ [f]) w2 = (r3, w3)" by fastforce
      note s3 = rename_tmp [OF keep(2) [OF v2] cw xf w3]
      show ?thesis
      proof (cases r3)
        case (Inl e3)
        then have "via ?G w w3" using s3 v2 untouched_via via_trans by fastforce
        moreover have "give_up (p @ [x]) e3 w3 = (r, w')" using run step r2 w3 Inl by simp
        ultimately show ?thesis using failed [of w3 e3] by auto
      next
        case r3: (Inr u3)
        let ?T2 = "set_node ?q (TFile c m) (del_node ?t (fw_tree w2))"
        have "?H ?T2" using keep(1) [OF v2] by (simp add: only_tmp_def same_but_def old_or_new_def)
        then have "via ?H w2 w3" using s3 r3 by (auto intro: via_mono)
        then have "via ?H w w3" using via_trans via_only_tmp [OF v2] by blast
        moreover have "r = Inr ()" "w' = w3" using run step r2 w3 r3 by simp_all
        ultimately show ?thesis using s3 r3 xf by simp
      qed
    qed
  qed
  then show "via ?H w w'" "r = Inl e \<Longrightarrow> ?G (fw_tree w')"
    "r = Inr () \<Longrightarrow> map_of (fw_tree w') ?t = None \<and> (\<exists>m. map_of (fw_tree w') ?q = Some (TFile c m))" by auto
qed

section \<open>Reading changes nothing\<close>

lemma file_not_found_hint_untouched: "file_not_found_hint p w = (h, w') \<Longrightarrow> untouched w w'"
  by (auto simp: file_not_found_hint_def split: if_splits prod.splits sum.splits dest: read_dir_untouched)

lemma look_untouched: "look p w = (r, w') \<Longrightarrow> untouched w w'"
  by (auto simp: look_def split: if_splits prod.splits sum.splits
      dest!: metadata_untouched file_not_found_hint_untouched intro: untouched_trans)

lemma read_content_untouched: "read_content p w = (r, w') \<Longrightarrow> untouched w w'"
  by (auto simp: read_content_def split: if_splits prod.splits sum.splits
      dest!: look_untouched read_to_string_untouched intro: untouched_trans)

lemma read_content_old:
  assumes "read_content p w = (Inr c, w')" "stat (fw_tree w) p = Inr (q, TFile old m)"
  shows "c = old"
proof -
  obtain n w1 where l: "look p w = (Inr n, w1)" "read_to_string p w1 = (Inr c, w')"
    using assms(1) by (auto simp: read_content_def split: if_splits prod.splits sum.splits)
  have "fw_tree w1 = fw_tree w" using look_untouched [OF l(1)] by (simp add: untouched_def)
  then show ?thesis
    using l(2) assms(2) unfolding read_to_string_def by (elim syscall_cases) (auto split: if_splits)
qed

lemma list_entry_untouched:
  assumes "\<And>f d s. sub = Some f \<Longrightarrow> untouched (snd s) (snd (f d s))"
  shows "untouched (snd s) (snd (list_entry sub dir indent name s))"
proof (cases s)
  case (Pair st w)
  obtain d w1 where d: "is_dir (dir @ [name]) w = (d, w1)" by fastforce
  note u = is_dir_untouched [OF d]
  define st1 where "st1 = st\<lparr>li_out := li_out st @ [replicate (2 * indent) CHR 0x20 @ name @ (if d then ''/'' else [])]\<rparr>"
  have e: "list_entry sub dir indent name s = (if li_full st then (st, w)
      else if LIST_MAX_ENTRIES \<le> length (li_out st1) then (st1\<lparr>li_full := True\<rparr>, w1)
      else (case sub of Some f \<Rightarrow> if d then f (dir @ [name]) (st1, w1) else (st1, w1) | None \<Rightarrow> (st1, w1)))"
    by (simp only: list_entry_def Pair prod.case d Let_def st1_def)
  show ?thesis
  proof (cases sub)
    case (Some f)
    have "untouched w (snd (f (dir @ [name]) (st1, w1)))"
      using untouched_trans [OF u] assms [OF Some, of "(st1, w1)"] by simp
    then show ?thesis unfolding e using u by (simp add: Pair Some)
  next
    case None
    show ?thesis unfolding e using u by (simp add: Pair None)
  qed
qed

lemma fold_untouched:
  assumes "\<And>x s. untouched (snd s) (snd (g x s))"
  shows "untouched (snd s) (snd (fold g xs s))"
proof (induction xs arbitrary: s)
  case (Cons x xs)
  show ?case using untouched_trans [OF assms [of s x] Cons [of "g x s"]] by simp
qed simp

lemma list_level_untouched:
  assumes "\<And>f d s. sub = Some f \<Longrightarrow> untouched (snd s) (snd (f d s))"
  shows "untouched (snd s) (snd (list_level sub dir indent s))"
proof (cases s)
  case (Pair st w)
  obtain r w1 where r: "read_dir dir w = (r, w1)" by fastforce
  note u = read_dir_untouched [OF r]
  show ?thesis
  proof (cases r)
    case (Inr ns)
    have "untouched w1 (snd (fold (list_entry sub dir indent) (sort ns) (st, w1)))"
      using fold_untouched [of "list_entry sub dir indent" "(st, w1)"] list_entry_untouched assms by simp
    then show ?thesis using untouched_trans [OF u] by (simp add: list_level_def Pair r Inr)
  qed (simp add: list_level_def Pair r u)
qed

lemma recurse_untouched: "untouched (snd s) (snd (recurse k indent dir s))"
proof (induction k arbitrary: indent dir s)
  case 0
  show ?case unfolding recurse.simps by (rule list_level_untouched) simp
next
  case (Suc k)
  show ?case unfolding recurse.simps by (rule list_level_untouched) (use Suc in \<open>auto split: if_splits\<close>)
qed

lemma read_file_untouched: "untouched w (snd (read_file p opts w))"
  by (auto simp: read_file_def split: prod.splits sum.splits dest: read_content_untouched)

lemma list_directory_untouched: "untouched w (snd (list_directory p depth w))"
proof -
  obtain r w1 where l: "look p w = (r, w1)" by fastforce
  note u = look_untouched [OF l]
  obtain st w2 where rec: "recurse (if depth = 0 then 1 else depth) 0 p (\<lparr>li_out = [], li_full = False\<rparr>, w1) = (st, w2)" by fastforce
  have "untouched w1 w2" using recurse_untouched [of "(\<lparr>li_out = [], li_full = False\<rparr>, w1)"] rec by (metis snd_conv)
  then have "untouched w w2" by (rule untouched_trans [OF u])
  then show ?thesis using u by (cases r) (simp_all add: list_directory_def l rec)
qed

text \<open>Reading a file and listing a directory change no file and no directory, whichever calls fail.\<close>

theorem reading_changes_nothing:
  "fw_tree (snd (read_file p opts w)) = fw_tree w \<and> fw_trail (snd (read_file p opts w)) = fw_trail w
   \<and> fw_tree (snd (list_directory p depth w)) = fw_tree w \<and> fw_trail (snd (list_directory p depth w)) = fw_trail w"
  using read_file_untouched [of w p opts] list_directory_untouched [of w p depth] by (simp add: untouched_def)

section \<open>Edits of files\<close>

text \<open>C13: An edit of a file, whichever calls fail and wherever a crash stops it: every tree it goes through holds the file with its old content or with all of the new one, which is the result of the replacement, and differs elsewhere at most in the temporary name; after an error the file is as before, after success it holds the replacement and the temporary name is gone.\<close>

theorem edit_is_atomic:
  assumes "tmp_spot (fw_tree w) p d (tmp_name (fw_pid w) f)"
    and "map_of (fw_tree w) (d @ [f]) = Some (TFile old m)" and "f \<noteq> dotdot"
    and "edit_file (p @ [f]) opts w = (r, w')"
  shows "\<exists>ts. fw_trail w' = ts @ fw_trail w
    \<and> (\<forall>T \<in> set ts. (\<forall>x. x \<noteq> d @ [tmp_name (fw_pid w) f] \<longrightarrow> x \<noteq> d @ [f] \<longrightarrow> map_of T x = map_of (fw_tree w) x)
        \<and> (map_of T (d @ [f]) = Some (TFile old m)
           \<or> (\<exists>new n m'. edit_text old (opts\<lparr>eo_path := show_path (p @ [f])\<rparr>) = Inr (new, n) \<and> map_of T (d @ [f]) = Some (TFile new m'))))
    \<and> (case r of
         Inl e \<Rightarrow> map_of (fw_tree w') (d @ [f]) = Some (TFile old m)
       | Inr msg \<Rightarrow> (\<exists>new n m'. edit_text old (opts\<lparr>eo_path := show_path (p @ [f])\<rparr>) = Inr (new, n)
           \<and> map_of (fw_tree w') (d @ [f]) = Some (TFile new m') \<and> map_of (fw_tree w') (d @ [tmp_name (fw_pid w) f]) = None
           \<and> msg = edited_message (show_path (p @ [f])) n))"
proof -
  let ?t = "d @ [tmp_name (fw_pid w) f]" and ?q = "d @ [f]" and ?o = "opts\<lparr>eo_path := show_path (p @ [f])\<rparr>"
  have st: "stat (fw_tree w) (p @ [f]) = Inr (?q, TFile old m)"
    using open_in_dir(2) [of "fw_tree w" p d f "TFile old m"] assms(1-3) by (simp add: tmp_spot_def no_dir_link_at_iff)
  obtain rc w1 where rc: "read_content (p @ [f]) w = (rc, w1)" by fastforce
  note u = read_content_untouched [OF rc]
  have quiet: ?thesis if "untouched w w'" "r = Inl e" for e
    using that assms(2) by (intro exI [of _ "[]"]) (auto simp: untouched_def)
  show ?thesis
  proof (cases "eo_old opts = []")
    case True
    then show ?thesis using assms(4) quiet by (auto simp: edit_file_def)
  next
    case False
    show ?thesis
    proof (cases rc)
      case (Inl e)
      then show ?thesis using False assms(4) rc u quiet by (auto simp: edit_file_def)
    next
      case (Inr c)
      have c: "c = old" using read_content_old [OF _ st] rc Inr by simp
      show ?thesis
      proof (cases "edit_text old ?o")
        case (Inl e)
        then show ?thesis using False assms(4) rc u quiet Inr c by (auto simp: edit_file_def)
      next
        case e: (Inr a)
        obtain new n where a: "a = (new, n)" by fastforce
        obtain ra w2 where aw: "atomic_write (p @ [f]) new w1 = (ra, w2)" by fastforce
        have spot: "tmp_spot (fw_tree w1) p d (tmp_name (fw_pid w) f)" "tmp_name (fw_pid w) f = tmp_name (fw_pid w1) f"
          using assms(1) u by (simp_all add: untouched_def)
        note s = atomic_write_steps [OF spot aw]
        have out: "w' = w2 \<and> (case ra of Inl e \<Rightarrow> \<exists>e'. r = Inl e' | Inr _ \<Rightarrow> r = Inr (edited_message (show_path (p @ [f])) n))"
          using False assms(4) rc Inr c e a aw by (auto simp: edit_file_def store_def split: sum.splits)
        from s(1) u obtain ts where ts: "fw_trail w2 = ts @ fw_trail w" "\<forall>T \<in> set ts. old_or_new ?t ?q new (fw_tree w) T"
          by (auto simp: via_def untouched_def)
        have each: "(\<forall>x. x \<noteq> ?t \<longrightarrow> x \<noteq> ?q \<longrightarrow> map_of T x = map_of (fw_tree w) x) \<and>
            (map_of T ?q = Some (TFile old m) \<or> (\<exists>m'. map_of T ?q = Some (TFile new m')))" if "old_or_new ?t ?q new (fw_tree w) T" for T
          using that assms(2) tmp_name_props(1) [of "fw_pid w" f] by (fastforce simp: old_or_new_def)
        have final: "case ra of Inl e \<Rightarrow> map_of (fw_tree w2) ?q = Some (TFile old m)
            | Inr _ \<Rightarrow> map_of (fw_tree w2) ?t = None \<and> (\<exists>m'. map_of (fw_tree w2) ?q = Some (TFile new m'))"
        proof (cases ra)
          case (Inl e)
          then show ?thesis using s(2) assms(2) u tmp_name_props(1) [of "fw_pid w" f]
            by (auto simp: only_tmp_def same_but_def untouched_def)
        next
          case (Inr x)
          then show ?thesis using s(3) by simp
        qed
        show ?thesis
          using out ts final e a each by (intro exI [of _ ts]) (cases ra; fastforce)
      qed
    qed
  qed
qed

definition sample_world :: fs_world where
  "sample_world = \<lparr>fw_tree = [([''w''], TDir), ([''w'', ''a''], TFile ''x.y'' 420)], fw_faults = [], fw_trail = [],
     fw_pid = 7, fw_new_mode = 420\<rparr>"

definition sample_edit :: edit_options where
  "sample_edit = \<lparr>eo_path = [], eo_old = ''.'', eo_new = ''-'', eo_all = False\<rparr>"

lemma sample_spot: "tmp_spot (fw_tree sample_world) [''w''] [''w''] (tmp_name (fw_pid sample_world) ''a'')"
  by (simp add: tmp_spot_def in_dir_def stat_def resolve_def node_at_def shape_def no_dir_link_at_iff sample_world_def
      walk_e.simps(2) dotdot_def tmp_name_def)

theorem edit_is_atomic_witness:
  "\<exists>r w'. edit_file ([''w''] @ [''a'']) sample_edit sample_world = (r, w') \<and>
    (case r of
       Inl e \<Rightarrow> map_of (fw_tree w') [''w'', ''a''] = Some (TFile ''x.y'' 420)
     | Inr msg \<Rightarrow> (\<exists>new n m'. edit_text ''x.y'' (sample_edit\<lparr>eo_path := show_path [''w'', ''a'']\<rparr>) = Inr (new, n)
         \<and> map_of (fw_tree w') [''w'', ''a''] = Some (TFile new m')))"
proof -
  obtain r w' where r: "edit_file ([''w''] @ [''a'']) sample_edit sample_world = (r, w')" by fastforce
  have "map_of (fw_tree sample_world) ([''w''] @ [''a'']) = Some (TFile ''x.y'' 420)" "''a'' \<noteq> dotdot"
    by (simp_all add: sample_world_def dotdot_def)
  from edit_is_atomic [OF sample_spot this r]
  show ?thesis using r by (auto split: sum.splits)
qed

section \<open>Two ways around it\<close>

text \<open>Writing through a name that is a link replaces the link; the file it leads to keeps its content.\<close>

lemma link_is_replaced:
  assumes "tmp_spot (fw_tree w) p d (tmp_name (fw_pid w) f)" "atomic_write (p @ [f]) c w = (Inr (), w')"
    "map_of (fw_tree w) (d @ [f]) = Some (TLink ab target)" "map_of (fw_tree w) other = Some (TFile old m)"
    "other \<noteq> d @ [tmp_name (fw_pid w) f]"
  shows "\<exists>m'. map_of (fw_tree w') (d @ [f]) = Some (TFile c m')" "map_of (fw_tree w') other = Some (TFile old m)"
proof -
  note s = atomic_write_steps [OF assms(1) refl assms(2)]
  show "\<exists>m'. map_of (fw_tree w') (d @ [f]) = Some (TFile c m')" using s(3) by simp
  have "other \<noteq> d @ [f]" using assms(3,4) by auto
  then show "map_of (fw_tree w') other = Some (TFile old m)"
    using via_tree [OF s(1)] assms(4,5) by (auto simp: old_or_new_def)
qed

text \<open>A link planted under the temporary name is followed: here the content lands in \<open>/e/p\<close>.\<close>

lemma planted_link_is_followed:
  assumes "fw_tree w = [([''w''], TDir), ([''e''], TDir), ([''w'', ''t''], TLink True [''e'', ''p''])]" "fw_faults w = []"
  shows "map_of (fw_tree (snd (write_file_call [''w'', ''t''] c w))) [''e'', ''p''] = Some (TFile c (fw_new_mode w))"
proof -
  have "open_place (fw_tree w) [''w'', ''t''] = Inr [''e'', ''p'']"
    by (simp add: open_place_def resolve_def assms(1) walk_e.simps(2) create_at.simps(2) shape_def dotdot_def MAXSYMLINKS_def numeral_eq_Suc)
  then show ?thesis
    by (simp add: write_file_call_def write_call_def assms node_at_def write_bytes_tree mode_at_def)
qed

section \<open>A listing is bounded\<close>

definition fits :: "listing \<Rightarrow> bool" where
  "fits st \<longleftrightarrow> length (li_out st) \<le> LIST_MAX_ENTRIES \<and> (li_full st \<or> length (li_out st) < LIST_MAX_ENTRIES)"

lemma list_entry_fits:
  assumes "\<And>f d s. sub = Some f \<Longrightarrow> fits (fst s) \<Longrightarrow> fits (fst (f d s))" "fits (fst s)"
  shows "fits (fst (list_entry sub dir indent name s))"
proof (cases s)
  case (Pair st w)
  obtain d w1 where d: "is_dir (dir @ [name]) w = (d, w1)" by fastforce
  define st1 where "st1 = st\<lparr>li_out := li_out st @ [replicate (2 * indent) CHR 0x20 @ name @ (if d then ''/'' else [])]\<rparr>"
  have e: "list_entry sub dir indent name s = (if li_full st then (st, w)
      else if LIST_MAX_ENTRIES \<le> length (li_out st1) then (st1\<lparr>li_full := True\<rparr>, w1)
      else (case sub of Some f \<Rightarrow> if d then f (dir @ [name]) (st1, w1) else (st1, w1) | None \<Rightarrow> (st1, w1)))"
    by (simp only: list_entry_def Pair prod.case d Let_def st1_def)
  have st: "fits st" using assms(2) Pair by simp
  then have 1: "\<not> li_full st \<Longrightarrow> fits (st1\<lparr>li_full := True\<rparr>)" by (auto simp: fits_def st1_def)
  have 2: "\<not> LIST_MAX_ENTRIES \<le> length (li_out st1) \<Longrightarrow> fits st1" by (simp add: fits_def)
  show ?thesis
  proof (cases sub)
    case (Some f)
    show ?thesis unfolding e using st 1 2 assms(1) [OF Some, of "(st1, w1)"] by (simp add: Some)
  next
    case None
    show ?thesis unfolding e using st 1 2 by (simp add: None)
  qed
qed

lemma list_level_fits:
  assumes "\<And>f d s. sub = Some f \<Longrightarrow> fits (fst s) \<Longrightarrow> fits (fst (f d s))" "fits (fst s)"
  shows "fits (fst (list_level sub dir indent s))"
proof (cases s)
  case (Pair st w)
  have f: "fits (fst z) \<Longrightarrow> fits (fst (fold (list_entry sub dir indent) ns z))" for ns z
  proof (induction ns arbitrary: z)
    case (Cons n ns)
    have "fits (fst (list_entry sub dir indent n z))" by (rule list_entry_fits) (use assms(1) Cons.prems in auto)
    then show ?case using Cons.IH by simp
  qed simp
  show ?thesis
    using assms(2) f [of "(st, snd (read_dir dir w))"] by (auto simp: list_level_def Pair split: prod.split sum.split)
qed

lemma recurse_fits: "fits (fst s) \<Longrightarrow> fits (fst (recurse k indent dir s))"
proof (induction k arbitrary: indent dir s)
  case 0
  show ?case unfolding recurse.simps by (rule list_level_fits) (use 0 in auto)
next
  case (Suc k)
  show ?case unfolding recurse.simps by (rule list_level_fits) (use Suc in \<open>auto split: if_splits\<close>)
qed

lemma listing_bounded:
  assumes "recurse k 0 p (\<lparr>li_out = [], li_full = False\<rparr>, w) = (st, w')"
  shows "length (li_out st) \<le> LIST_MAX_ENTRIES"
  using recurse_fits [of "(\<lparr>li_out = [], li_full = False\<rparr>, w)" k 0 p] assms by (simp add: fits_def LIST_MAX_ENTRIES_def)

end
