(* ===== verification/ToolsMcpProps.thy ===== *)
theory ToolsMcpProps
  imports ToolsMcp ToolsFsProps
begin

text \<open>
  Properties of the tools as they are called: what a call may change, when the health of the code
  is told of it, that commands with a limit return, and that requests are answered under their
  own identifier.
\<close>

section \<open>Trees without links\<close>

definition link_free :: "tree \<Rightarrow> bool" where
  "link_free T \<longleftrightarrow> (\<forall>e \<in> set T. case snd e of TLink ab t \<Rightarrow> False | _ \<Rightarrow> True)"

lemma link_free_shape: "link_free T \<Longrightarrow> shape T p \<noteq> Some (Link ab t)"
proof
  assume a: "link_free T" "shape T p = Some (Link ab t)"
  then obtain n where n: "map_of T p = Some n" "plain_node n = Link ab t" by (auto simp: shape_def)
  then have "(p, n) \<in> set T" by (auto dest: map_of_SomeD)
  then show False using a(1) n(2) by (cases n) (auto simp: link_free_def)
qed

lemma walk_e_plain:
  "(\<And>p ab t. F p \<noteq> Some (Link ab t)) \<Longrightarrow> dotdot \<notin> set xs \<Longrightarrow> walk_e F n cur xs = Inr q \<Longrightarrow> q = cur @ xs"
  by (induction F n cur xs rule: walk_e.induct)
    (auto simp: walk_e.simps(2) split: option.splits node.splits if_splits)

lemma create_at_plain:
  "(\<And>p ab t. F p \<noteq> Some (Link ab t)) \<Longrightarrow> dotdot \<notin> set xs \<Longrightarrow> create_at F n cur xs = Some q \<Longrightarrow> q = cur @ xs"
  by (induction F n cur xs rule: create_at.induct)
    (auto simp: create_at.simps(2) split: option.splits node.splits if_splits)

lemma stat_plain: "link_free T \<Longrightarrow> dotdot \<notin> set p \<Longrightarrow> stat T p = Inr (q, n) \<Longrightarrow> q = p"
  using walk_e_plain [of "shape T" p MAXSYMLINKS "[]" q] link_free_shape
  by (auto simp: stat_def resolve_def split: sum.splits option.splits)

lemma place_plain:
  assumes "link_free T" "dotdot \<notin> set p" "place T p = Inr q"
  shows "q = p"
proof -
  have d: "dotdot \<notin> set (butlast p)" using assms(2) by (auto dest: in_set_butlastD)
  obtain d where "stat T (butlast p) = Inr (d, TDir)" "q = d @ [last p]" "p \<noteq> []"
    using assms(3) by (auto simp: place_def split: if_splits sum.splits)
  then show ?thesis using stat_plain [OF assms(1) d] by simp
qed

lemma open_place_plain: "link_free T \<Longrightarrow> dotdot \<notin> set p \<Longrightarrow> open_place T p = Inr q \<Longrightarrow> q = p"
  using walk_e_plain [of "shape T" p MAXSYMLINKS "[]"] create_at_plain [of "shape T" p MAXSYMLINKS "[]"] link_free_shape
  by (auto simp: open_place_def resolve_def split: sum.splits option.splits)

section \<open>Changes inside a set of paths\<close>

text \<open>A set of paths with all that lies below them.\<close>

definition closed :: "path set \<Rightarrow> bool" where
  "closed S \<longleftrightarrow> (\<forall>x y. x \<in> S \<longrightarrow> x @ y \<in> S)"

definition within :: "path set \<Rightarrow> tree \<Rightarrow> tree \<Rightarrow> bool" where
  "within S T T' \<longleftrightarrow> link_free T' \<and> (\<forall>x. x \<notin> S \<longrightarrow> map_of T' x = map_of T x)"

lemma link_free_set: "link_free T \<Longrightarrow> n = TDir \<or> (\<exists>c m. n = TFile c m) \<Longrightarrow> link_free (set_node p n T)"
  by (auto simp: link_free_def set_node_def)

lemma link_free_del: "link_free T \<Longrightarrow> link_free (del_node p T)"
  by (auto simp: link_free_def del_node_def)

lemma within_set: "within S T T' \<Longrightarrow> p \<in> S \<Longrightarrow> n = TDir \<or> (\<exists>c m. n = TFile c m) \<Longrightarrow> within S T (set_node p n T')"
  using link_free_set [of T' n p] by (auto simp: within_def)

lemma within_del: "within S T T' \<Longrightarrow> p \<in> S \<Longrightarrow> within S T (del_node p T')"
  using link_free_del [of T' p] by (auto simp: within_def)

lemma within_move:
  assumes "within S T T'" "closed S" "a \<in> S" "b \<in> S"
  shows "within S T (move_tree a b T')"
proof -
  have "map_of (move_tree a b T') x = map_of T' x" if x: "x \<notin> S" for x
  proof -
    have k: "b @ y \<noteq> x" "\<not> prefix a x" for y
      using assms(2-4) x by (auto simp: closed_def prefix_def)
    have "map_of (map (\<lambda>(p, n). if prefix a p then (b @ drop (length a) p, n) else (p, n)) U) x = map_of U x" for U :: tree
    proof (induction U)
      case (Cons e U)
      obtain p n where e: "e = (p, n)" by fastforce
      then show ?case using Cons k(1) [of "drop (length a) p"] k(2) by (cases "prefix a p") auto
    qed simp
    then have "map_of (move_tree a b T') x = map_of (del_node b T') x" by (simp add: move_tree_def)
    then show ?thesis using k(1) [of "[]"] by simp
  qed
  moreover have "link_free (move_tree a b T')"
    using assms(1) by (fastforce simp: within_def link_free_def move_tree_def del_node_def split: if_splits)
  ultimately show ?thesis using assms(1) by (simp add: within_def)
qed

text \<open>A call that keeps to a set, from every tree that has kept to it so far.\<close>

definition keeps_to :: "path set \<Rightarrow> 'a os \<Rightarrow> bool" where
  "keeps_to S act \<longleftrightarrow> (\<forall>T w r w'. within S T (fw_tree w) \<longrightarrow> act w = (r, w') \<longrightarrow> via (within S T) w w')"

lemma keeps_toI: "(\<And>T w r w'. within S T (fw_tree w) \<Longrightarrow> act w = (r, w') \<Longrightarrow> via (within S T) w w') \<Longrightarrow> keeps_to S act"
  by (simp add: keeps_to_def)

lemma keeps_toD: "keeps_to S act \<Longrightarrow> within S T (fw_tree w) \<Longrightarrow> act w = (r, w') \<Longrightarrow> via (within S T) w w'"
  by (simp add: keeps_to_def)

lemma within_via: "via (within S T) w w' \<Longrightarrow> within S T (fw_tree w) \<Longrightarrow> within S T (fw_tree w')"
  using via_tree by metis

lemma keeps_to_syscall:
  assumes "keeps_to S act"
  shows "keeps_to S (syscall act)"
proof (rule keeps_toI)
  fix T w r w'
  assume w: "within S T (fw_tree w)" and run: "syscall act w = (r, w')"
  from run show "via (within S T) w w'"
  proof (cases rule: syscall_cases)
    case (act fs)
    then have "via (within S T) (w\<lparr>fw_faults := fs\<rparr>) w'" using keeps_toD [OF assms, of T "w\<lparr>fw_faults := fs\<rparr>"] w by simp
    then show ?thesis by (rule via_faults)
  qed (rule untouched_via)
qed

lemma keeps_to_quiet:
  assumes "\<And>w r w'. act w = (r, w') \<Longrightarrow> untouched w w'"
  shows "keeps_to S act"
  by (rule keeps_toI) (rule untouched_via, rule assms)

lemma within_link_free: "within S T T' \<Longrightarrow> link_free T'"
  by (simp add: within_def)

text \<open>A call that changes the node at a resolved place, or nothing.\<close>

inductive local_change :: "(tree \<Rightarrow> io_error + path \<times> 'n) \<Rightarrow> fs_world \<Rightarrow> fs_world \<Rightarrow> bool"
  for loc :: "tree \<Rightarrow> io_error + path \<times> 'n" and w :: fs_world where
  nothing: "local_change loc w w"
| new_dir: "loc (fw_tree w) = Inr (q, n) \<Longrightarrow> local_change loc w (put_tree (set_node q TDir (fw_tree w)) w)"
| new_file: "loc (fw_tree w) = Inr (q, n) \<Longrightarrow> local_change loc w (put_tree (set_node q (TFile c k) (fw_tree w)) w)"
| gone: "loc (fw_tree w) = Inr (q, n) \<Longrightarrow> local_change loc w (put_tree (del_node q (fw_tree w)) w)"

lemma keeps_to_at:
  assumes "\<And>T q n. link_free T \<Longrightarrow> loc T = Inr (q, n) \<Longrightarrow> q \<in> S"
    and "\<And>w r w'. act w = (r, w') \<Longrightarrow> local_change loc w w'"
  shows "keeps_to S act"
proof (rule keeps_toI)
  fix T w r w'
  assume w: "within S T (fw_tree w)" and run: "act w = (r, w')"
  note q = assms(1) [OF within_link_free [OF w]]
  from assms(2) [OF run] show "via (within S T) w w'"
    by (cases rule: local_change.cases) (auto intro!: via_refl via_put within_set [OF w] within_del [OF w] q)
qed

definition found_place :: "path \<Rightarrow> tree \<Rightarrow> io_error + path \<times> unit" where
  "found_place p T = map_sum id (\<lambda>q. (q, ())) (place T p)"

lemma found_placeI: "place T p = Inr q \<Longrightarrow> found_place p T = Inr (q, ())"
  by (simp add: found_place_def)

lemma found_place_in: "p \<in> S \<Longrightarrow> dotdot \<notin> set p \<Longrightarrow> link_free T \<Longrightarrow> found_place p T = Inr (q, n) \<Longrightarrow> q \<in> S"
  using place_plain [of T p] by (cases "place T p") (auto simp: found_place_def)

lemma make_dir_keeps:
  assumes "p \<in> S" "dotdot \<notin> set p"
  shows "keeps_to S (make_dir p)"
  unfolding make_dir_def
  by (rule keeps_to_syscall, rule keeps_to_at [where loc = "found_place p", OF found_place_in [OF assms]])
    (auto split: sum.splits if_splits intro: local_change.intros found_placeI)

lemma write_bytes_within: "within S T (fw_tree w) \<Longrightarrow> p \<in> S \<Longrightarrow> via (within S T) w (write_bytes p c k w)"
  unfolding write_bytes_def by (rule put_all_via) (auto intro!: within_set)

lemma write_call_keeps: "p \<in> S \<Longrightarrow> dotdot \<notin> set p \<Longrightarrow> keeps_to S (write_call p c f)"
proof (rule keeps_toI)
  fix T w r w'
  assume "p \<in> S" "dotdot \<notin> set p" and w: "within S T (fw_tree w)" and run: "write_call p c f w = (r, w')"
  then have q: "open_place (fw_tree w) p = Inr q \<Longrightarrow> q \<in> S" for q
    using open_place_plain [OF within_link_free [OF w]] by blast
  show "via (within S T) w w'"
    using run q write_bytes_within [OF w]
    by (auto simp: write_call_def via_refl split: option.splits nat.splits sum.splits if_splits)
qed

lemma write_file_call_keeps: "p \<in> S \<Longrightarrow> dotdot \<notin> set p \<Longrightarrow> keeps_to S (write_file_call p c)"
proof (rule keeps_toI)
  fix T w r w'
  assume a: "p \<in> S" "dotdot \<notin> set p" and w: "within S T (fw_tree w)" and run: "write_file_call p c w = (r, w')"
  show "via (within S T) w w'"
  proof (cases "fw_faults w")
    case Nil
    then show ?thesis using run keeps_toD [OF write_call_keeps [OF a] w] by (simp add: write_file_call_def)
  next
    case (Cons f fs)
    then have "write_call p c f (w\<lparr>fw_faults := fs\<rparr>) = (r, w')" using run by (simp add: write_file_call_def)
    then have "via (within S T) (w\<lparr>fw_faults := fs\<rparr>) w'"
      using keeps_toD [OF write_call_keeps [OF a], of T "w\<lparr>fw_faults := fs\<rparr>"] w by simp
    then show ?thesis by (rule via_faults)
  qed
qed

lemma set_permissions_keeps:
  assumes "p \<in> S" "dotdot \<notin> set p"
  shows "keeps_to S (set_permissions p m)"
proof -
  have "link_free T \<Longrightarrow> stat T p = Inr (q, n) \<Longrightarrow> q \<in> S" for T q n using stat_plain assms by blast
  then show ?thesis unfolding set_permissions_def
    by (rule keeps_to_syscall [OF keeps_to_at]) (auto split: sum.splits tnode.splits intro: local_change.intros)
qed

lemma remove_file_keeps:
  assumes "p \<in> S" "dotdot \<notin> set p"
  shows "keeps_to S (remove_file_call p)"
  unfolding remove_file_call_def
  by (rule keeps_to_syscall, rule keeps_to_at [where loc = "found_place p", OF found_place_in [OF assms]])
    (auto split: sum.splits if_splits option.splits intro: local_change.intros found_placeI)

lemma remove_dir_keeps:
  assumes "p \<in> S" "dotdot \<notin> set p"
  shows "keeps_to S (remove_dir_call p)"
  unfolding remove_dir_call_def
  by (rule keeps_to_syscall, rule keeps_to_at [where loc = "found_place p", OF found_place_in [OF assms]])
    (auto split: sum.splits if_splits option.splits intro: local_change.intros found_placeI)

lemma rename_keeps:
  assumes "closed S" "a \<in> S" "dotdot \<notin> set a" "b \<in> S" "dotdot \<notin> set b"
  shows "keeps_to S (rename a b)"
  unfolding rename_def
proof (rule keeps_to_syscall, rule keeps_toI)
  fix T w r w'
  assume w: "within S T (fw_tree w)"
    and run: "(let T = fw_tree w in
     case place T a of
       Inl e \<Rightarrow> (Inl e, w)
     | Inr q1 \<Rightarrow>
         (case place T b of
            Inl e \<Rightarrow> (Inl e, w)
          | Inr q2 \<Rightarrow>
              (case map_of T q1 of
                 None \<Rightarrow> (Inl enoent, w)
               | Some n \<Rightarrow>
                   if q1 = q2 then (Inr (), w)
                   else if n = TDir then
                     (if prefix q1 q2 then (Inl einval, w)
                      else if map_of T q2 \<noteq> None \<and> map_of T q2 \<noteq> Some TDir then (Inl enotdir, w)
                      else if children T q2 \<noteq> [] then (Inl enotempty, w)
                      else (Inr (), put_tree (move_tree q1 q2 T) w))
                   else if map_of T q2 = Some TDir then (Inl eisdir, w)
                   else (Inr (), put_tree (set_node q2 n (del_node q1 T)) w)))) = (r, w')"
  have q: "place (fw_tree w) a = Inr q1 \<Longrightarrow> q1 = a" "place (fw_tree w) b = Inr q2 \<Longrightarrow> q2 = b" for q1 q2
    using place_plain [OF within_link_free [OF w]] assms by blast+
  have m: "within S T (move_tree a b (fw_tree w))" using within_move [OF w assms(1,2,4)] .
  have n: "n \<noteq> TDir \<Longrightarrow> map_of (fw_tree w) a = Some n \<Longrightarrow> within S T (set_node b n (del_node a (fw_tree w)))" for n
  proof -
    assume n: "n \<noteq> TDir" "map_of (fw_tree w) a = Some n"
    then have "(a, n) \<in> set (fw_tree w)" by (simp add: map_of_SomeD)
    then have "\<exists>c m. n = TFile c m" using within_link_free [OF w] n(1) by (cases n) (auto simp: link_free_def)
    then show ?thesis by (intro within_set [OF within_del [OF w]] assms(2,4)) simp
  qed
  have "w' = w \<or> w' = put_tree (move_tree a b (fw_tree w)) w \<or>
      (\<exists>n. n \<noteq> TDir \<and> map_of (fw_tree w) a = Some n \<and> w' = put_tree (set_node b n (del_node a (fw_tree w))) w)"
    using run q by (auto simp: Let_def split: sum.splits option.splits if_splits)
  then show "via (within S T) w w'"
    using m n via_put [of "within S T"] via_refl by blast
qed

section \<open>The tools\<close>

text \<open>Calls in sequence.\<close>

lemma via_seq:
  assumes "keeps_to S act" "within S T (fw_tree w)" "act w = (r, w1)"
    "within S T (fw_tree w1) \<Longrightarrow> via (within S T) w1 w2"
  shows "via (within S T) w w2"
  using keeps_toD [OF assms(1-3)] within_via assms(2,4) via_trans by blast

lemma metadata_keeps: "keeps_to S (metadata p)"
  by (rule keeps_to_quiet) (rule metadata_untouched)

lemma is_dir_via: "is_dir p w = (b, w') \<Longrightarrow> via G w w'"
  by (rule untouched_via) (rule is_dir_untouched)

lemma give_up_keeps: "p \<in> S \<Longrightarrow> dotdot \<notin> set p \<Longrightarrow> keeps_to S (give_up p e)"
  using keeps_toD [OF remove_file_keeps] by (fastforce intro: keeps_toI simp: give_up_def split: prod.splits)

lemma atomic_write_via:
  assumes "closed S" "p \<in> S" "dotdot \<notin> set p" "p \<noteq> [] \<Longrightarrow> butlast p @ [tmp_name (fw_pid w) (last p)] \<in> S"
    and w: "within S T (fw_tree w)" and run: "atomic_write p c w = (r, w')"
  shows "via (within S T) w w'"
proof -
  let ?tmp = "butlast p @ [tmp_name (fw_pid w) (last p)]"
  show ?thesis
  proof (cases "p = []")
    case True
    then show ?thesis using run by (auto simp: atomic_write_def via_refl)
  next
    case False
    then have tmp: "?tmp \<in> S" "dotdot \<notin> set ?tmp"
      using assms(3,4) tmp_name_props(2) [of "fw_pid w" "last p"] by (auto dest: in_set_butlastD)
    obtain r1 w1 where w1: "write_file_call ?tmp c w = (r1, w1)" by fastforce
    obtain rm wm where wm: "metadata p w1 = (rm, wm)" by fastforce
    obtain r2 w2 where w2: "(case rm of Inl e \<Rightarrow> (Inr (), wm) | Inr n \<Rightarrow> set_permissions ?tmp (mode_of n) wm) = (r2, w2)"
      by fastforce
    obtain r3 w3 where w3: "rename ?tmp p w2 = (r3, w3)" by fastforce
    have step: "atomic_write p c w = (case r1 of Inl e \<Rightarrow> give_up ?tmp e w1 | Inr _ \<Rightarrow>
        (case r2 of Inl e \<Rightarrow> give_up ?tmp e w2 | Inr _ \<Rightarrow>
          (case r3 of Inl e \<Rightarrow> give_up ?tmp e w3 | Inr _ \<Rightarrow> (Inr (), w3))))"
      using False w1 wm w2 w3 by (auto simp: atomic_write_def Let_def split: sum.splits)
    note gu = keeps_toD [OF give_up_keeps [OF tmp]]
    have v1: "via (within S T) w w1" using keeps_toD [OF write_file_call_keeps [OF tmp]] w w1 by simp
    then have v1m: "via (within S T) w wm" using metadata_untouched [OF wm] untouched_via via_trans by blast
    have v2: "via (within S T) wm w2"
      using w2 keeps_toD [OF set_permissions_keeps [OF tmp]] within_via [OF v1m] w via_refl by (auto split: sum.splits)
    then have v2: "via (within S T) w w2" using v1m via_trans by blast
    have v3: "via (within S T) w w3"
      using keeps_toD [OF rename_keeps [OF assms(1) tmp assms(2,3)] within_via [OF v2 w] w3] v2 via_trans by blast
    have g: "via (within S T) w w'" if "give_up ?tmp e x = (r, w')" "via (within S T) w x" for e x
      using gu [OF within_via [OF that(2) w] that(1)] that(2) via_trans by blast
    show ?thesis
    proof (cases r1)
      case (Inl e)
      then show ?thesis using g [OF _ v1, of e] run step by simp
    next
      case r1: (Inr u)
      show ?thesis
      proof (cases r2)
        case (Inl e)
        then show ?thesis using g [OF _ v2, of e] run step r1 by simp
      next
        case r2: (Inr u2)
        then show ?thesis using g [OF _ v3] v3 run step r1 by (cases r3) simp_all
      qed
    qed
  qed
qed

text \<open>What a tool may touch: what lies below the root, and the temporary name beside the root.\<close>

definition domain :: "path \<Rightarrow> nat \<Rightarrow> path set" where
  "domain R pid = {x. prefix R x \<or> (R \<noteq> [] \<and> prefix (butlast R @ [tmp_name pid (last R)]) x)}"

lemma closed_domain: "closed (domain R pid)"
  by (auto simp: closed_def domain_def prefix_prefix)

lemma tmp_in_domain:
  assumes "prefix R p" "p \<noteq> []"
  shows "butlast p @ [tmp_name pid (last p)] \<in> domain R pid"
proof (cases "p = R")
  case True
  then show ?thesis using assms(2) by (simp add: domain_def)
next
  case False
  then obtain s where "p = R @ s" "s \<noteq> []" using assms(1) by (auto simp: prefix_def)
  then have "butlast p = R @ butlast s" by (simp add: butlast_append)
  then show ?thesis by (simp add: domain_def)
qed

lemma above_not_in_domain:
  assumes "prefix q R" "q \<noteq> R"
  shows "q \<notin> domain R pid"
proof -
  from assms have "length q < length R" by (auto simp: prefix_def)
  then show ?thesis by (auto simp: domain_def dest!: prefix_length_le)
qed

lemma prefix_butlast: "prefix R p \<Longrightarrow> prefix R (butlast p) \<or> p = R"
  by (auto simp: prefix_def butlast_append)

text \<open>Directories above the root stay what they are, so creating parents changes nothing there.\<close>

lemma make_dir_above:
  assumes "within (domain R pid) T (fw_tree w)" "prefix q R" "q \<noteq> R" "q = [] \<or> map_of T q = Some TDir" "dotdot \<notin> set q"
    "make_dir q w = (r, w')"
  shows "untouched w w'"
proof -
  have n: "q = [] \<or> map_of (fw_tree w) q = Some TDir"
    using assms(1,4) above_not_in_domain [OF assms(2,3)] by (auto simp: within_def)
  have pl: "place (fw_tree w) q = Inr y \<Longrightarrow> y = q \<and> q \<noteq> []" for y
    using place_plain [OF within_link_free [OF assms(1)] assms(5)] by (auto simp: place_def split: if_splits)
  from assms(6) [unfolded make_dir_def] show ?thesis
  proof (cases rule: syscall_cases)
    case (act fs)
    then show ?thesis using pl n by (auto split: sum.splits if_splits)
  qed
qed

lemma create_dir_all_via:
  assumes "within (domain R pid) T (fw_tree w)" "create_dir_all p w = (r, w')" "dotdot \<notin> set p"
    "prefix R p \<or> prefix p R" "\<forall>q. prefix q R \<longrightarrow> q \<noteq> R \<longrightarrow> q = [] \<or> map_of T q = Some TDir"
  shows "via (within (domain R pid) T) w w'"
  using assms
proof (induction p w arbitrary: r w' rule: create_dir_all.induct)
  case (1 p w)
  let ?V = "via (within (domain R pid) T)"
  have mk: "?V v v'" if "within (domain R pid) T (fw_tree v)" "make_dir p v = (x, v')" for v v' x
  proof (cases "prefix R p")
    case True
    then show ?thesis using keeps_toD [OF make_dir_keeps that] 1(4) by (simp add: domain_def)
  next
    case False
    then have "prefix p R" "p \<noteq> R" using 1(5) by auto
    then show ?thesis using make_dir_above [OF that(1) _ _ _ 1(4) that(2)] 1(6) untouched_via by blast
  qed
  obtain r1 w1 where w1: "make_dir p w = (r1, w1)" by fastforce
  have v1: "?V w w1" using mk [OF 1(2) w1] .
  obtain b1 w2 where w2: "is_dir p w1 = (b1, w2)" by fastforce
  have v2: "?V w w2" using v1 is_dir_via [OF w2] via_trans by blast
  note eq = 1(3) [unfolded create_dir_all.simps [of p w] mkdir_or_dir_def w1]
  show ?case
  proof (cases "\<exists>e. r1 = Inl e \<and> fst e = KNotFound \<and> p \<noteq> []")
    case False
    then show ?thesis using eq w2 v1 v2 by (auto split: sum.splits if_splits bool.splits)
  next
    case True
    then obtain e where e: "r1 = Inl e" "fst e = KNotFound" "p \<noteq> []" by blast
    obtain r3 w3 where w3: "create_dir_all (butlast p) w1 = (r3, w3)" by fastforce
    have "prefix R (butlast p) \<or> prefix (butlast p) R"
      using 1(5) prefix_butlast [of R p] prefix_order.trans [of "butlast p" p R] prefixeq_butlast [of p] by auto
    then have v3: "?V w1 w3"
      using 1(1) [OF e(3) within_via [OF v1 1(2)] w3] 1(4,6) by (auto dest: in_set_butlastD)
    then have v3: "?V w w3" using v1 via_trans by blast
    obtain r4 w4 where w4: "make_dir p w3 = (r4, w4)" by fastforce
    have v4: "?V w w4" using mk [OF within_via [OF v3 1(2)] w4] v3 via_trans by blast
    obtain b5 w5 where w5: "is_dir p w4 = (b5, w5)" by fastforce
    have v5: "?V w w5" using v4 is_dir_via [OF w5] via_trans by blast
    show ?thesis using eq e w3 w4 w5 v3 v4 v5 by (auto split: sum.splits bool.splits)
  qed
qed

text \<open>The setting of a call on a confined path.\<close>

definition setting :: "path \<Rightarrow> nat \<Rightarrow> tree \<Rightarrow> path \<Rightarrow> bool" where
  "setting R pid T p \<longleftrightarrow> prefix R p \<and> dotdot \<notin> set p \<and>
     (\<forall>q. prefix q R \<longrightarrow> q \<noteq> R \<longrightarrow> q = [] \<or> map_of T q = Some TDir)"

lemma store_via:
  assumes "setting R pid T p" "within (domain R pid) T (fw_tree w)" "fw_pid w = pid" "store p c w = (r, w')"
  shows "via (within (domain R pid) T) w w'"
proof -
  have a: "prefix R p" "dotdot \<notin> set p" using assms(1) by (simp_all add: setting_def)
  obtain ra wa where ra: "atomic_write p c w = (ra, wa)" by fastforce
  have "via (within (domain R pid) T) w wa"
  proof (rule atomic_write_via [OF closed_domain _ a(2) _ assms(2) ra])
    show "p \<in> domain R pid" using a(1) by (simp add: domain_def)
    show "p \<noteq> [] \<Longrightarrow> butlast p @ [tmp_name (fw_pid w) (last p)] \<in> domain R pid"
      using tmp_in_domain [OF a(1)] assms(3) by simp
  qed
  then show ?thesis using assms(4) ra by (auto simp: store_def split: sum.splits)
qed

lemma write_file_via:
  assumes "setting R pid T p" "within (domain R pid) T (fw_tree w)" "fw_pid w = pid" "write_file p c w = (r, w')"
  shows "via (within (domain R pid) T) w w'"
proof -
  let ?V = "via (within (domain R pid) T)"
  obtain r1 w1 where w1: "(if p = [] then (Inr (), w) else create_dir_all (butlast p) w) = (r1, w1)" by fastforce
  have a: "prefix R p" "dotdot \<notin> set (butlast p)" "\<forall>q. prefix q R \<longrightarrow> q \<noteq> R \<longrightarrow> q = [] \<or> map_of T q = Some TDir"
    using assms(1) by (auto simp: setting_def dest: in_set_butlastD)
  have "prefix R (butlast p) \<or> prefix (butlast p) R"
    using a(1) prefix_butlast [of R p] prefixeq_butlast [of p] by auto
  then have v1: "?V w w1"
    using w1 create_dir_all_via [OF assms(2) _ a(2) _ a(3)] via_refl by (auto split: if_splits)
  obtain r2 w2 where w2: "metadata p w1 = (r2, w2)" by fastforce
  have v2: "?V w w2" using v1 untouched_via [OF metadata_untouched [OF w2]] via_trans by blast
  obtain r3 w3 where w3: "store p c w2 = (r3, w3)" by fastforce
  have "?V w2 w3" using store_via [OF assms(1) within_via [OF v2 assms(2)] _ w3] via_pid [OF v2] assms(3) by simp
  then have v3: "?V w w3" using v2 via_trans by blast
  show ?thesis
    using assms(4) w1 w2 w3 v1 v2 v3 by (auto simp: write_file_def split: sum.splits tnode.splits)
qed

lemma edit_file_via:
  assumes "setting R pid T p" "within (domain R pid) T (fw_tree w)" "fw_pid w = pid" "edit_file p o' w = (r, w')"
  shows "via (within (domain R pid) T) w w'"
proof -
  let ?V = "via (within (domain R pid) T)"
  obtain r1 w1 where w1: "read_content p w = (r1, w1)" by fastforce
  have v1: "?V w w1" by (rule untouched_via) (rule read_content_untouched [OF w1])
  have s: "?V w w2" if "store p c w1 = (r2, w2)" for c r2 w2
    using store_via [OF assms(1) within_via [OF v1 assms(2)] _ that] via_pid [OF v1] assms(3) v1 via_trans by metis
  show ?thesis
    using assms(4) w1 v1 s via_refl by (auto simp: edit_file_def split: sum.splits prod.splits if_splits)
qed

lemma delete_file_via:
  assumes "setting R pid T p" "within (domain R pid) T (fw_tree w)" "delete_file p w = (r, w')"
  shows "via (within (domain R pid) T) w w'"
proof -
  let ?V = "via (within (domain R pid) T)"
  have p: "p \<in> domain R pid" "dotdot \<notin> set p" using assms(1) by (simp_all add: setting_def domain_def)
  obtain r1 w1 where w1: "look p w = (r1, w1)" by fastforce
  have v1: "?V w w1" by (rule untouched_via) (rule look_untouched [OF w1])
  have s: "?V w w2" if "remove_dir_call p w1 = (r2, w2) \<or> remove_file_call p w1 = (r2, w2)" for r2 w2
    using keeps_toD [OF remove_dir_keeps [OF p] within_via [OF v1 assms(2)]]
      keeps_toD [OF remove_file_keeps [OF p] within_via [OF v1 assms(2)]] that v1 via_trans by metis
  show ?thesis
    using assms(3) w1 v1 s by (auto simp: delete_file_def split: sum.splits prod.splits if_splits)
qed

section \<open>Dispatch\<close>

lemma ok_not_err [simp]: "ok_result s \<noteq> err_result t" "err_result t \<noteq> ok_result s"
  by (simp_all add: ok_result_def err_result_def result_json_def)

lemma bad_args_not_ok [simp]: "bad_args E name e \<noteq> ok_result t"
  by (simp add: bad_args_def)

lemma with_args_step:
  assumes "with_args E name a body z = Some (r, z')"
  shows "(z' = z \<and> (\<forall>t. r \<noteq> ok_result t)) \<or> (\<exists>x. a = Inr x \<and> body x z = (r, z'))"
  using assms by (auto simp: with_args_def split: sum.splits)

lemma confined_step:
  assumes "confined E raw body z = (r, z')"
  shows "(z' = z \<and> (\<forall>t. r \<noteq> ok_result t)) \<or>
    (\<exists>p. confine_path (shape (fw_tree (tz_world z))) (te_root E) raw = Inr p \<and> body p z = (r, z'))"
  using assms by (auto simp: confined_def split: sum.splits)

lemma reading_step:
  assumes "\<And>w. untouched w (snd (act w))" "reading act z = (r, z')"
  shows "untouched (tz_world z) (tz_world z') \<and> tz_notified z' = tz_notified z"
  using assms(2) assms(1) [of "tz_world z"] by (auto simp: reading_def split: prod.splits sum.splits)

lemma changing_step:
  assumes "changing act f z = (r, z')"
  shows "\<exists>x. act (tz_world z) = (x, tz_world z') \<and>
    tz_notified z' = tz_notified z + (if \<exists>t. r = ok_result t then 1 else 0)"
  using assms by (auto simp: changing_def split: prod.splits sum.splits)

lemma changing_call:
  assumes "with_args E name a (\<lambda>x. confined E (raw x) (\<lambda>p. changing (act x p) (f x p))) z = Some (r, z')"
  shows "(z' = z \<and> (\<forall>t. r \<noteq> ok_result t)) \<or>
    (\<exists>x p y. confine_path (shape (fw_tree (tz_world z))) (te_root E) (raw x) = Inr p \<and>
       act x p (tz_world z) = (y, tz_world z') \<and> tz_notified z' = tz_notified z + (if \<exists>t. r = ok_result t then 1 else 0))"
proof -
  from with_args_step [OF assms] show ?thesis
  proof (elim disjE exE conjE)
    fix x
    assume "confined E (raw x) (\<lambda>p. changing (act x p) (f x p)) z = (r, z')"
    from confined_step [OF this] show ?thesis
    proof (elim disjE exE conjE)
      fix p
      assume p: "confine_path (shape (fw_tree (tz_world z))) (te_root E) (raw x) = Inr p"
        and c: "changing (act x p) (f x p) z = (r, z')"
      from changing_step [OF c] p show ?thesis by blast
    qed (rule disjI1, rule conjI)
  qed (rule disjI1, rule conjI)
qed

lemma reading_call:
  assumes "with_args E name a (\<lambda>x. confined E (raw x) (\<lambda>p. reading (act x p))) z = Some (r, z')"
    and "\<And>x p w. untouched w (snd (act x p w))"
  shows "untouched (tz_world z) (tz_world z') \<and> tz_notified z' = tz_notified z"
proof -
  from with_args_step [OF assms(1)] show ?thesis
  proof (elim disjE exE conjE)
    fix x
    assume "confined E (raw x) (\<lambda>p. reading (act x p)) z = (r, z')"
    from confined_step [OF this] show ?thesis
    proof (elim disjE exE conjE)
      fix p
      assume "reading (act x p) z = (r, z')"
      then show ?thesis by (rule reading_step [OF assms(2)])
    qed simp
  qed simp
qed

definition changing_tools :: "string set" where
  "changing_tools = {''write_file'', ''edit_file'', ''delete_file''}"

definition reading_tools :: "string set" where
  "reading_tools = {''read_file'', ''list_directory''}"

text \<open>A call of the file tools: refused, a reading, or a change on a confined path.\<close>

definition change_on :: "path \<Rightarrow> fs_world \<Rightarrow> fs_world \<Rightarrow> bool" where
  "change_on p w w' \<longleftrightarrow>
     (\<exists>c x. write_file p c w = (x, w')) \<or> (\<exists>o' x. edit_file p o' w = (x, w')) \<or> (\<exists>x. delete_file p w = (x, w'))"

lemma dispatch_step:
  assumes "dispatch_filesystem E name v z = Some (r, z')"
  shows "(untouched (tz_world z) (tz_world z') \<and> tz_notified z' = tz_notified z \<and>
      (name \<in> changing_tools \<longrightarrow> (\<forall>t. r \<noteq> ok_result t)))
    \<or> (name \<in> changing_tools \<and>
       tz_notified z' = tz_notified z + (if \<exists>t. r = ok_result t then 1 else 0) \<and>
       (\<exists>raw p. confine_path (shape (fw_tree (tz_world z))) (te_root E) raw = Inr p \<and> change_on p (tz_world z) (tz_world z')))"
proof -
  consider (rd) "name = ''read_file''" | (wr) "name = ''write_file''" | (ed) "name = ''edit_file''"
    | (del) "name = ''delete_file''" | (ls) "name = ''list_directory''"
    using assms by (auto simp: dispatch_filesystem_def split: if_splits)
  then show ?thesis
  proof cases
    case rd
    from assms have "with_args E name (read_args v) (\<lambda>o'. confined E (ro_path o') (\<lambda>p. reading (read_file p o'))) z = Some (r, z')"
      by (simp add: dispatch_filesystem_def rd)
    from reading_call [OF this read_file_untouched] show ?thesis by (simp add: rd changing_tools_def)
  next
    case ls
    from assms have "with_args E name (list_args v) (\<lambda>x. confined E (fst x) (\<lambda>p. reading (list_directory p (snd x)))) z = Some (r, z')"
      by (simp add: dispatch_filesystem_def ls case_prod_beta')
    from reading_call [OF this list_directory_untouched] show ?thesis by (simp add: ls changing_tools_def)
  next
    case wr
    from assms have "with_args E name (write_args v)
        (\<lambda>x. confined E (fst x) (\<lambda>p. changing (write_file p (snd x)) (\<lambda>_. ''wrote '' @ show_path p))) z = Some (r, z')"
      by (simp add: dispatch_filesystem_def wr case_prod_beta')
    from changing_call [OF this] show ?thesis
      unfolding change_on_def by (elim disjE) (simp, use wr in \<open>unfold changing_tools_def, blast\<close>)
  next
    case ed
    from assms have "with_args E name (edit_args v)
        (\<lambda>o'. confined E (eo_path o') (\<lambda>p. changing (edit_file p o') id)) z = Some (r, z')"
      by (simp add: dispatch_filesystem_def ed)
    from changing_call [OF this] show ?thesis
      unfolding change_on_def by (elim disjE) (simp, use ed in \<open>unfold changing_tools_def, blast\<close>)
  next
    case del
    from assms have "with_args E name (delete_args v)
        (\<lambda>raw. confined E raw (\<lambda>p. changing (delete_file p) (\<lambda>_. ''deleted '' @ show_path p))) z = Some (r, z')"
      by (simp add: dispatch_filesystem_def del)
    from changing_call [OF this] show ?thesis
      unfolding change_on_def by (elim disjE) (simp, use del in \<open>unfold changing_tools_def, blast\<close>)
  qed
qed

lemma canonical_root_above:
  assumes "canonicalize (shape T) root = Some R" "prefix q R" "q \<noteq> R"
  shows "q = [] \<or> map_of T q = Some TDir"
proof (cases "q = []")
  case False
  have "real_path (shape T) R" using walk_real [of "shape T" MAXSYMLINKS "[]" root R] assms(1) by (simp add: canonicalize_def)
  moreover obtain r c where q: "q = r @ [c]" using False by (cases q rule: rev_cases) auto
  ultimately have "shape T q = Some Dir"
    using assms(2,3) unfolding real_path_def real_dir_def q by (auto simp: prefix_snoc)
  then show ?thesis by (auto simp: shape_def elim: plain_node.elims)
qed simp

text \<open>C12: In a tree without symbolic links a call of a file tool, whatever its arguments and whichever system calls fail, changes nothing outside the root of the sandbox, at no moment, but for the temporary name beside the root; the health of the code is told of a change exactly when a call that writes, edits or deletes has succeeded, and a call that reads changes nothing.\<close>

theorem dispatch_stays_below_root:
  assumes "link_free (fw_tree (tz_world z))" and "canonicalize (shape (fw_tree (tz_world z))) (te_root E) = Some R"
    and "dispatch_filesystem E name v z = Some (r, z')"
  shows "\<exists>ts. fw_trail (tz_world z') = ts @ fw_trail (tz_world z)
    \<and> (\<forall>T \<in> set (fw_tree (tz_world z') # ts). \<forall>x. \<not> prefix R x \<longrightarrow> \<not> prefix (butlast R @ [tmp_name (fw_pid (tz_world z)) (last R)]) x \<longrightarrow>
        map_of T x = map_of (fw_tree (tz_world z)) x)
    \<and> tz_notified z' = tz_notified z + (if name \<in> changing_tools \<and> (\<exists>t. r = ok_result t) then 1 else 0)
    \<and> (name \<in> reading_tools \<longrightarrow> ts = [] \<and> fw_tree (tz_world z') = fw_tree (tz_world z))"
proof -
  let ?w = "tz_world z" and ?w' = "tz_world z'" and ?T = "fw_tree (tz_world z)"
  let ?D = "domain R (fw_pid ?w)"
  from dispatch_step [OF assms(3)] show ?thesis
  proof (elim disjE conjE exE)
    assume u: "untouched ?w ?w'" "tz_notified z' = tz_notified z"
      "name \<in> changing_tools \<longrightarrow> (\<forall>t. r \<noteq> ok_result t)"
    then have "\<not> (name \<in> changing_tools \<and> (\<exists>t. r = ok_result t))" by blast
    then show ?thesis using u(1,2) by (intro exI [of _ "[]"]) (simp add: untouched_def)
  next
    fix raw p
    assume n: "name \<in> changing_tools"
      "tz_notified z' = tz_notified z + (if \<exists>t. r = ok_result t then 1 else 0)"
      and p: "confine_path (shape ?T) (te_root E) raw = Inr p" and c: "change_on p ?w ?w'"
    have s: "setting R (fw_pid ?w) ?T p"
      using confine_path_below_root [OF p] assms(2) canonical_root_above [OF assms(2)] by (auto simp: setting_def)
    have w: "within ?D ?T ?T" using assms(1) by (simp add: within_def)
    have "via (within ?D ?T) ?w ?w'"
      using c write_file_via [OF s w] edit_file_via [OF s w] delete_file_via [OF s w] by (auto simp: change_on_def)
    then obtain ts where ts: "fw_trail ?w' = ts @ fw_trail ?w" "\<forall>T \<in> set ts. within ?D ?T T" "fw_tree ?w' = hd (ts @ [?T])"
      by (auto simp: via_def)
    then have "\<forall>T \<in> set (fw_tree ?w' # ts). within ?D ?T T" using w by (cases ts) auto
    then have b: "\<forall>T \<in> set (fw_tree ?w' # ts). \<forall>x. \<not> prefix R x \<longrightarrow>
        \<not> prefix (butlast R @ [tmp_name (fw_pid ?w) (last R)]) x \<longrightarrow> map_of T x = map_of ?T x"
      unfolding within_def domain_def by blast
    have other: "name \<notin> reading_tools" using n(1) by (auto simp: reading_tools_def changing_tools_def)
    show ?thesis
    proof (intro exI [of _ ts] conjI)
      show "tz_notified z' = tz_notified z +
          (if name \<in> changing_tools \<and> (\<exists>t. r = ok_result t) then 1 else 0)"
        using n by presburger
      show "name \<in> reading_tools \<longrightarrow> ts = [] \<and> fw_tree ?w' = ?T"
        using other by blast
    qed (rule ts(1), rule b)
  qed
qed

definition sample_tools :: tools_env where
  "sample_tools = \<lparr>te_root = [''w''], te_search = \<lparr>se_walk = \<lambda>f p. [], se_glob = \<lambda>s. Inl s, se_regex = \<lambda>s. Inl s\<rparr>,
     te_process = \<lparr>pe_run = \<lambda>c d e. Endless, pe_path = []\<rparr>, te_arg_text = \<lambda>e. [], te_why = \<lambda>p. []\<rparr>"

definition sample_state :: tools_state where
  "sample_state = \<lparr>tz_world = sample_world, tz_notified = 0\<rparr>"

theorem dispatch_stays_below_root_witness:
  "\<exists>r z'. dispatch_filesystem sample_tools ''delete_file'' (JObj [(''path'', JStr ''a'')]) sample_state = Some (r, z') \<and>
    (\<forall>x. \<not> prefix [''w''] x \<longrightarrow> \<not> prefix [tmp_name 7 ''w''] x \<longrightarrow>
      map_of (fw_tree (tz_world z')) x = map_of (fw_tree sample_world) x)"
proof -
  obtain r z' where d: "dispatch_filesystem sample_tools ''delete_file'' (JObj [(''path'', JStr ''a'')]) sample_state = Some (r, z')"
    by (cases "dispatch_filesystem sample_tools ''delete_file'' (JObj [(''path'', JStr ''a'')]) sample_state")
      (auto simp: dispatch_filesystem_def with_args_def)
  have l: "link_free (fw_tree (tz_world sample_state))"
    by (simp add: link_free_def sample_state_def sample_world_def)
  have c: "canonicalize (shape (fw_tree (tz_world sample_state))) (te_root sample_tools) = Some [''w'']"
    by (simp add: canonicalize_def walk.simps(2) shape_def sample_state_def sample_world_def sample_tools_def dotdot_def)
  from dispatch_stays_below_root [OF l c d]
  have "\<forall>x. \<not> prefix [''w''] x \<longrightarrow> \<not> prefix (butlast [''w''] @ [tmp_name (fw_pid (tz_world sample_state)) (last [''w''])]) x \<longrightarrow>
      map_of (fw_tree (tz_world z')) x = map_of (fw_tree (tz_world sample_state)) x"
    by (elim exE conjE) simp
  then show ?thesis using d by (intro exI conjI) (assumption, simp add: sample_state_def sample_world_def)
qed

section \<open>Requests\<close>

lemma finish_command_None: "finish_command c n e = None \<Longrightarrow> n = 0"
  by (auto simp: finish_command_def split: process_end.splits if_splits)

lemma execute_command_None: "execute_command P c n d envs w = (None, w') \<Longrightarrow> n = 0"
  by (auto simp: execute_command_def split: if_splits prod.splits sum.splits dest: finish_command_None)

lemma dispatch_command_None:
  assumes "dispatch_command E name v z = Some (None, z')"
  shows "name = ''execute_command'' \<and> (\<exists>opts. command_args v = Inr opts \<and> co_timeout opts = 0)"
proof -
  have n: "name = ''execute_command''" using assms by (simp add: dispatch_command_def split: if_splits)
  obtain opts where o: "command_args v = Inr opts" using assms by (auto simp: dispatch_command_def split: if_splits sum.splits)
  obtain envs w where e: "venv_overlay (te_process E) (te_root E) (tz_world z) = (envs, w)" by fastforce
  obtain p where p: "confine_path (shape (fw_tree w)) (te_root E) (co_cwd opts) = Inr p"
    using assms o e by (auto simp: dispatch_command_def split: if_splits sum.splits)
  obtain a w1 where a: "execute_command (te_process E) (co_command opts) (co_timeout opts) p envs w = (a, w1)" by fastforce
  have "a = None" using assms n o e p a by (auto simp: dispatch_command_def split: option.splits sum.splits)
  then show ?thesis using n o a execute_command_None by blast
qed

lemma call_tool_None:
  assumes "call_tool M name v z = Some (None, z')"
  shows "(name = ''execute_command'' \<and> (\<exists>opts. command_args v = Inr opts \<and> co_timeout opts = 0))
    \<or> me_others M name v z = Some (None, z')"
  using assms dispatch_command_None [of "me_tools M" name v z z']
  by (auto simp: call_tool_def split: option.splits prod.splits)

fun answer_id :: "rpc_response \<Rightarrow> string json option" where
  "answer_id (RpcOk i r) = i"
| "answer_id (RpcErr i c m) = i"

definition called_name :: "string json \<Rightarrow> string option" where
  "called_name params = Option.bind (jget ''name'' params) as_str"

definition called_args :: "string json \<Rightarrow> string json" where
  "called_args params = (case jget ''arguments'' params of None \<Rightarrow> JNull | Some v \<Rightarrow> v)"

lemma handle_tools_call_answers:
  assumes "handle_tools_call M i params z = (Some resp, z')"
  shows "answer_id resp = i"
  using assms by (auto simp: handle_tools_call_def split: option.splits prod.splits)

lemma handle_tools_call_None:
  assumes "handle_tools_call M i params z = (None, z')"
  shows "\<exists>name. called_name params = Some name \<and> call_tool M name (called_args params) z = Some (None, z')"
  using assms unfolding handle_tools_call_def called_name_def [symmetric] called_args_def [symmetric]
  by (auto split: option.splits prod.splits)

text \<open>C23: A request to the MCP server without identifier is accepted and has no effect; any other, but for the notification that the client is ready, is answered under its own identifier; only a call of a tool changes anything; and a request goes unanswered only if the very call it makes does not return, which of the tools here is only a command that was given no limit (the default) and does not end.\<close>

theorem requests_are_answered:
  assumes "handle M req z = (a, z')"
  shows "(rq_id req = None \<longrightarrow> a = Some Accepted \<and> z' = z)
    \<and> (rq_id req \<noteq> None \<and> rq_method req \<noteq> ''notifications/initialized'' \<and> a \<noteq> None \<longrightarrow>
        (\<exists>resp. a = Some (Answer resp) \<and> answer_id resp = rq_id req))
    \<and> (rq_method req \<noteq> ''tools/call'' \<longrightarrow> a \<noteq> None \<and> z' = z)
    \<and> (a = None \<longrightarrow> (\<exists>name. called_name (rq_params req) = Some name \<and>
        (name = ''execute_command'' \<and> (\<exists>opts. command_args (called_args (rq_params req)) = Inr opts \<and> co_timeout opts = 0)
         \<or> me_others M name (called_args (rq_params req)) z = Some (None, z'))))"
proof (cases "rq_id req = None \<or> rq_method req \<noteq> ''tools/call''")
  case True
  then show ?thesis
    using assms by (auto simp: handle_def handle_initialize_def handle_tools_list_def split: if_splits)
next
  case False
  obtain resp z1 where t: "handle_tools_call M (rq_id req) (rq_params req) z = (resp, z1)" by fastforce
  have m: "rq_method req = ''tools/call''" "rq_id req \<noteq> None" using False by simp_all
  have "handle M req z = (map_option Answer resp, z1)" unfolding handle_def m(1) t using m(2) by auto
  then have a: "a = map_option Answer resp" "z' = z1" using assms by simp_all
  show ?thesis
  proof (cases resp)
    case (Some x)
    then show ?thesis using handle_tools_call_answers t a m by simp
  next
    case None
    then obtain name where "called_name (rq_params req) = Some name" "call_tool M name (called_args (rq_params req)) z = Some (None, z1)"
      using handle_tools_call_None t by blast
    with call_tool_None [OF this(2)] None a m show ?thesis by simp
  qed
qed

theorem requests_are_answered_witness:
  "handle \<lparr>me_tools = sample_tools, me_others = \<lambda>n v z. None, me_list = [], me_name = ''n'', me_version = ''v''\<rparr>
     \<lparr>rq_id = None, rq_method = ''tools/call'', rq_params = JNull\<rparr> sample_state = (Some Accepted, sample_state)"
proof -
  let ?M = "\<lparr>me_tools = sample_tools, me_others = \<lambda>n v z. None, me_list = [], me_name = ''n'', me_version = ''v''\<rparr>"
  let ?q = "\<lparr>rq_id = None, rq_method = ''tools/call'', rq_params = JNull\<rparr>"
  obtain a z' where h: "handle ?M ?q sample_state = (a, z')" by fastforce
  from requests_are_answered [OF h] show ?thesis using h by simp
qed

end
