(* ===== verification/ChatStream.thy ===== *)
theory ChatStream
  imports ChatEvent StrText
begin

text \<open>
  The stream of a turn (\<open>lib/src/event.rs\<close>): the accumulator that turns the items of the agent
  runtime into session events and into the result of the turn. The runtime (the crate rig) is
  not part of the repository: what it does is a tree that alternates items, calls of tools and
  the end of the stream, whose branches are the outcomes of the calls.
\<close>

section \<open>Items\<close>

datatype reasoning_content = ReasonText string | ReasonSummary string | ReasonOther

datatype result_content = TextPart string | ImagePart

datatype stream_item =
    AssistantText string
  | AssistantReasoningDelta string
  | AssistantReasoning "reasoning_content list"
  | AssistantToolCall string "string json" string \<comment> \<open>name, arguments, internal call id\<close>
  | UserToolResult "result_content list" string \<comment> \<open>contents, internal call id\<close>
  | CompletionCall "(u64 \<times> u64) option" \<comment> \<open>tokens of input and output\<close>
  | FinalResponse
  | OtherItem

fun reasoning_part :: "reasoning_content \<Rightarrow> string" where
  "reasoning_part (ReasonText s) = s"
| "reasoning_part (ReasonSummary s) = s"
| "reasoning_part ReasonOther = []"

definition reasoning_text :: "reasoning_content list \<Rightarrow> string" where
  "reasoning_text cs = concat (map reasoning_part cs)"

fun result_part :: "result_content \<Rightarrow> string" where
  "result_part (TextPart s) = s"
| "result_part ImagePart = []"

section \<open>The accumulator\<close>

record tool_call_record =
  tc_id :: string
  tc_name :: string
  tc_arguments :: "string json"
  tc_result :: "string option"

record accumulator =
  ac_text :: string
  ac_calls :: "tool_call_record list"
  ac_pending :: "string \<rightharpoonup> string"

definition new_accumulator :: accumulator where
  "new_accumulator = \<lparr>ac_text = [], ac_calls = [], ac_pending = Map.empty\<rparr>"

text \<open>The first record with the identifier gets the result.\<close>

fun set_result :: "string \<Rightarrow> string \<Rightarrow> tool_call_record list \<Rightarrow> tool_call_record list" where
  "set_result i r [] = []"
| "set_result i r (t # ts) = (if tc_id t = i then t\<lparr>tc_result := Some r\<rparr> # ts else t # set_result i r ts)"

text \<open>The events of an item, and whether it is the last.\<close>

fun acc_apply :: "stream_item \<Rightarrow> accumulator \<Rightarrow> (string chat_event list \<times> bool) \<times> accumulator" where
  "acc_apply (AssistantText s) a = (([Token s], False), a\<lparr>ac_text := ac_text a @ s\<rparr>)"
| "acc_apply (AssistantReasoningDelta s) a = (([ReasoningDelta s], False), a)"
| "acc_apply (AssistantReasoning cs) a =
     (let text = reasoning_text cs in ((if text = [] then [] else [ReasoningDelta text], False), a))"
| "acc_apply (AssistantToolCall name args i) a =
     (([ToolCallEv i name args], False),
      a\<lparr>ac_pending := (ac_pending a)(i \<mapsto> name),
        ac_calls := ac_calls a @ [\<lparr>tc_id = i, tc_name = name, tc_arguments = args, tc_result = None\<rparr>]\<rparr>)"
| "acc_apply (UserToolResult cs i) a =
     (let name = (case ac_pending a i of None \<Rightarrow> [] | Some n \<Rightarrow> n);
          result = concat (map result_part cs)
      in (([ToolResultEv i name result False], False),
          a\<lparr>ac_pending := (ac_pending a)(i := None), ac_calls := set_result i result (ac_calls a)\<rparr>))"
| "acc_apply (CompletionCall usage) a = ((case usage of None \<Rightarrow> [] | Some (n, m) \<Rightarrow> [UsageEv n m], False), a)"
| "acc_apply FinalResponse a = (([], True), a)"
| "acc_apply OtherItem a = (([], False), a)"

section \<open>The stream\<close>

text \<open>
  What the runtime does in a turn: it yields an item, calls a tool by name with arguments in
  JSON and goes on with its answer or its error, fails, or is at its end.
\<close>

datatype agent_run =
    Yields stream_item agent_run
  | Calls string string "string + string \<Rightarrow> agent_run"
  | Fails string
  | Ends

text \<open>
  Consuming it: events go to \<open>emit\<close>, calls of tools to \<open>call\<close>. The result is the error of the
  stream or the accumulator.
\<close>

primrec stream_agent_events ::
    "agent_run \<Rightarrow> (string chat_event \<Rightarrow> 'w \<Rightarrow> 'w) \<Rightarrow> (string \<Rightarrow> string \<Rightarrow> 'w \<Rightarrow> (string + string) \<times> 'w)
      \<Rightarrow> accumulator \<Rightarrow> 'w \<Rightarrow> (string + accumulator) \<times> 'w" where
  "stream_agent_events (Yields item rest) emit call a w =
     (case acc_apply item a of
        ((events, is_final), a) \<Rightarrow>
          let w = fold emit events w in
          if is_final then (Inr a, emit Done w) else stream_agent_events rest emit call a w)"
| "stream_agent_events (Calls name args k) emit call a w =
     (case call name args w of (r, w) \<Rightarrow> stream_agent_events (k r) emit call a w)"
| "stream_agent_events (Fails e) emit call a w = (Inl e, emit (ErrorEv ''VNL-LLM-001'' e) w)"
| "stream_agent_events Ends emit call a w = (Inr a, emit Done w)"

section \<open>The result of a turn is what its events tell\<close>

text \<open>What a client that only sees the events of a turn makes of them.\<close>

fun replay_event :: "string chat_event \<Rightarrow> string \<times> tool_call_record list \<Rightarrow> string \<times> tool_call_record list" where
  "replay_event (Token s) (text, calls) = (text @ s, calls)"
| "replay_event (ToolCallEv i name args) (text, calls) =
     (text, calls @ [\<lparr>tc_id = i, tc_name = name, tc_arguments = args, tc_result = None\<rparr>])"
| "replay_event (ToolResultEv i name result e) (text, calls) = (text, set_result i result calls)"
| "replay_event _ p = p"

definition replay :: "string chat_event list \<Rightarrow> string \<times> tool_call_record list" where
  "replay es = fold replay_event es ([], [])"

lemma replay_Nil [simp]: "replay [] = ([], [])" by (simp add: replay_def)

lemma replay_append: "replay (es @ fs) = fold replay_event fs (replay es)" by (simp add: replay_def)

definition result_of :: "accumulator \<Rightarrow> string \<times> tool_call_record list" where
  "result_of a = (ac_text a, ac_calls a)"

lemma result_of_new [simp]: "result_of new_accumulator = ([], [])"
  by (simp add: result_of_def new_accumulator_def)

lemma acc_apply_replays:
  "acc_apply item a = ((es, f), b) \<Longrightarrow> result_of b = fold replay_event es (result_of a)"
  by (cases item) (auto simp: result_of_def Let_def split: option.splits)

text \<open>Events of the stream itself: they neither end the turn nor tell of nested turns.\<close>

fun plain_event :: "string chat_event \<Rightarrow> bool" where
  "plain_event Done = False"
| "plain_event (ErrorEv c m) = False"
| "plain_event (SubagentStart i a p) = False"
| "plain_event (SubagentEvent i e) = False"
| "plain_event (SubagentEnd i r) = False"
| "plain_event _ = True"

lemma acc_apply_plain: "acc_apply item a = ((es, f), b) \<Longrightarrow> e \<in> set es \<Longrightarrow> plain_event e"
  by (cases item) (auto simp: Let_def split: option.splits if_splits)

end
