(* ===== verification/Session.thy ===== *)
theory Session
  imports ChatStream CfgStore ToolArgs
begin

text \<open>
  The session engine (\<open>lib/src/session.rs\<close>): from the name of an agent to the prompt, the model and
  the tools of a turn, the turn itself, and the turns of subagents inside it
  (\<open>lib/src/builtin/task.rs\<close>); the other built-in tools (\<open>lib/src/builtin/skill.rs\<close>, \<open>todo.rs\<close>), the
  tools of MCP servers (\<open>lib/src/prefixed_mcp.rs\<close>) and the parameters of a model
  (\<open>lib/src/model.rs\<close>). The configuration store is any that offers the reads of \<open>ConfigStore\<close>; the
  agent runtime, the connections to MCP servers, the tools of the host, matching of globs and
  reading of JSON are parameters.
\<close>

section \<open>Errors\<close>

text \<open>The errors of the library a turn can end with (\<open>lib/src/error.rs\<close>).\<close>

datatype turn_error =
    TurnConfig string
  | TurnDuplicate string string
  | TurnUnknown string string
  | TurnLlm string
  | TurnModelBuild string
  | TurnSse
  | TurnMcpConnect string string
  | TurnMcpTools string string

fun turn_error_text :: "turn_error \<Rightarrow> string" where
  "turn_error_text (TurnConfig m) = ''VNL-CFG-001: Configuration error: '' @ m"
| "turn_error_text (TurnDuplicate kind name) = ''VNL-CFG-002: Duplicate name '' @ squote name @ '' for '' @ kind"
| "turn_error_text (TurnUnknown kind name) = ''VNL-CFG-003: Unknown '' @ kind @ '' reference: '' @ squote name"
| "turn_error_text (TurnLlm m) = ''VNL-LLM-001: LLM provider error: '' @ m"
| "turn_error_text (TurnModelBuild m) = ''VNL-LLM-006: Cannot build model: '' @ m"
| "turn_error_text TurnSse = ''VNL-MCP-004: SSE transport not yet implemented''"
| "turn_error_text (TurnMcpConnect n m) = ''VNL-MCP-005: Cannot connect to '' @ n @ '': '' @ m"
| "turn_error_text (TurnMcpTools n m) = ''VNL-MCP-006: Cannot list tools from '' @ n @ '': '' @ m"

fun turn_error_of_cfg :: "cfg_error \<Rightarrow> turn_error" where
  "turn_error_of_cfg (Config m) = TurnConfig m"
| "turn_error_of_cfg (DuplicateName k n) = TurnDuplicate k n"
| "turn_error_of_cfg (UnknownReference k n) = TurnUnknown k n"
| "turn_error_of_cfg e = TurnConfig (cfg_error_display e)"

section \<open>The prompt\<close>

definition two_nl :: string where "two_nl = [nl, nl]"

definition resolve_skill_index :: "skill_selection \<Rightarrow> skill_meta list \<Rightarrow> skill_meta list" where
  "resolve_skill_index selection skills =
     (case selection of
        NoSkills \<Rightarrow> []
      | AutoSkills \<Rightarrow> skills
      | NamedSkills names \<Rightarrow> filter (\<lambda>s. sk_name s \<in> set names) skills)"

definition index_line :: "string \<Rightarrow> string \<Rightarrow> string" where
  "index_line name description = ''- '' @ name @ '' : '' @ description"

text \<open>The prompt of a toolset as the loop reads it: found, present, trimmed and not empty.\<close>

definition toolset_prompt :: "toolset list \<Rightarrow> string \<Rightarrow> string option" where
  "toolset_prompt toolsets name =
     Option.bind (List.find (\<lambda>t. ts_name t = name) toolsets) (\<lambda>t.
     Option.bind (ts_prompt t) (\<lambda>p. let p = str_trim p in if p = [] then None else Some p))"

fun toolset_sections :: "toolset list \<Rightarrow> string list \<Rightarrow> string \<Rightarrow> string" where
  "toolset_sections toolsets [] acc = acc"
| "toolset_sections toolsets (name # names) acc =
     (case toolset_prompt toolsets name of
        None \<Rightarrow> toolset_sections toolsets names acc
      | Some p \<Rightarrow> toolset_sections toolsets names ((if acc = [] then [] else acc @ two_nl) @ p))"

definition push_section :: "string \<Rightarrow> string list \<Rightarrow> string list" where
  "push_section s sections = (if s = [] then sections else sections @ [s])"

definition assemble_system_prompt :: "agent \<Rightarrow> toolset list \<Rightarrow> skill_meta list \<Rightarrow> string option \<Rightarrow> string" where
  "assemble_system_prompt a toolsets skills workspace_context =
     (let sections = push_section (str_trim (ag_system_prompt a)) [];
          sections = push_section (toolset_sections toolsets (ag_toolsets a) []) sections;
          selected = resolve_skill_index (ag_skills a) skills;
          sections = (if selected = [] then sections
                      else sections @ [join_with nl (map (\<lambda>s. index_line (sk_name s) (sk_description s)) selected)]);
          sections = (case workspace_context of None \<Rightarrow> sections | Some ctx \<Rightarrow> push_section (str_trim ctx) sections)
      in join_str two_nl sections)"

section \<open>Resolving a turn\<close>

text \<open>The reads of the trait \<open>ConfigStore\<close>, over the state of a store.\<close>

record 'c config_reads =
  cr_get_agent :: "'c \<Rightarrow> string \<Rightarrow> cfg_error + agent"
  cr_get_model :: "'c \<Rightarrow> string \<Rightarrow> cfg_error + model_profile"
  cr_get_provider :: "'c \<Rightarrow> string \<Rightarrow> cfg_error + provider"
  cr_get_toolset :: "'c \<Rightarrow> string \<Rightarrow> cfg_error + toolset"
  cr_get_mcp_server :: "'c \<Rightarrow> string \<Rightarrow> cfg_error + mcp_server"
  cr_list_skills :: "'c \<Rightarrow> cfg_error + skill_meta list"
  cr_list_agents :: "'c \<Rightarrow> cfg_error + agent list"
  cr_load_skill :: "'c \<Rightarrow> string \<Rightarrow> cfg_error + string"

text \<open>Those of the in-memory store.\<close>

definition memory_reads :: "cfg_store config_reads" where
  "memory_reads = \<lparr>cr_get_agent = get_agent, cr_get_model = get_model, cr_get_provider = get_provider, cr_get_toolset = get_toolset,
     cr_get_mcp_server = get_mcp_server, cr_list_skills = (\<lambda>s. Inr (cs_skills s)), cr_list_agents = (\<lambda>s. Inr (cs_agents s)),
     cr_load_skill = load_skill\<rparr>"

record resolved_turn =
  rt_profile :: model_profile
  rt_provider :: provider
  rt_toolsets :: "toolset list"
  rt_prompt :: string
  rt_skill_index :: "skill_meta list"

text \<open>\<open>?\<close> on an error of the store.\<close>

definition store_bind :: "cfg_error + 'a \<Rightarrow> ('a \<Rightarrow> turn_error + 'b) \<Rightarrow> turn_error + 'b" where
  "store_bind m f = (case m of Inl e \<Rightarrow> Inl (turn_error_of_cfg e) | Inr x \<Rightarrow> f x)"

fun get_toolsets :: "'c config_reads \<Rightarrow> 'c \<Rightarrow> string list \<Rightarrow> cfg_error + toolset list" where
  "get_toolsets R c [] = Inr []"
| "get_toolsets R c (name # names) =
     (case cr_get_toolset R c name of
        Inl e \<Rightarrow> Inl e
      | Inr t \<Rightarrow> (case get_toolsets R c names of Inl e \<Rightarrow> Inl e | Inr ts \<Rightarrow> Inr (t # ts)))"

definition resolve_turn_context ::
    "'c config_reads \<Rightarrow> string option \<Rightarrow> 'c \<Rightarrow> string \<Rightarrow> string option \<Rightarrow> turn_error + resolved_turn" where
  "resolve_turn_context R model_override c agent_name workspace_context =
     store_bind (cr_get_agent R c agent_name) (\<lambda>a.
     store_bind (cr_get_model R c (case model_override of Some name \<Rightarrow> name | None \<Rightarrow> ag_model a)) (\<lambda>profile.
     store_bind (cr_get_provider R c (mp_provider profile)) (\<lambda>provider.
     store_bind (get_toolsets R c (ag_toolsets a)) (\<lambda>toolsets.
     store_bind (cr_list_skills R c) (\<lambda>skills.
       Inr \<lparr>rt_profile = profile, rt_provider = provider, rt_toolsets = toolsets,
            rt_prompt = assemble_system_prompt a toolsets skills workspace_context,
            rt_skill_index = resolve_skill_index (ag_skills a) skills\<rparr>)))))"

definition available_subagents :: "agent list \<Rightarrow> agent list" where
  "available_subagents agents = filter (\<lambda>a. ag_mode a \<noteq> Primary) agents"

end
