(* ===== verification/SessionTurn.thy ===== *)
theory SessionTurn
  imports Session
begin

text \<open>
  A turn of the session engine: preparing its tools, the calls of tools, the stream, and the turns
  of subagents inside it (\<open>lib/src/session.rs\<close>, \<open>lib/src/prefixed_mcp.rs\<close>, \<open>lib/src/model.rs\<close>,
  \<open>lib/src/builtin\<close>).
\<close>

section \<open>Parameters and state\<close>

datatype tool =
    LocalTool string
  | McpTool mcp_server string \<comment> \<open>with the name the server gave\<close>
  | SkillBuiltin "skill_meta list"
  | TaskBuiltin nat "agent list" \<comment> \<open>with the depth of the turn\<close>
  | TodoWriteBuiltin
  | TodoReadBuiltin

fun tool_name :: "tool \<Rightarrow> string" where
  "tool_name (LocalTool name) = name"
| "tool_name (McpTool server name) = srv_name server @ ''/'' @ name"
| "tool_name (SkillBuiltin skills) = ''skill''"
| "tool_name (TaskBuiltin depth agents) = ''task''"
| "tool_name TodoWriteBuiltin = ''todowrite''"
| "tool_name TodoReadBuiltin = ''todoread''"

datatype raw_content =
    RawText string
  | RawImage string string
  | RawTextResource string "string option" string \<comment> \<open>uri, type, text\<close>
  | RawBlobResource string "string option" string
  | RawAudio
  | RawResourceLink string \<comment> \<open>its debug form\<close>

record mcp_result =
  mr_is_error :: "bool option"
  mr_content :: "raw_content list"

datatype connect_outcome = NoConnection string | NoListing string | ServerTools "string list"

record rig_agent =
  ra_type :: provider_type
  ra_base_url :: string
  ra_api_key :: "string option"
  ra_model :: string
  ra_preamble :: string
  ra_max_turns :: nat
  ra_temperature :: "string json option"
  ra_max_tokens :: "nat option"
  ra_additional :: "string json option"

text \<open>
  What is not in the repository: the reads of the store, globs (\<open>None\<close> for a malformed one), the
  outcome of a connection and of a call to a server, the tools of the host, the construction of a
  model client (an error or nothing), which of the tools a name calls (its place), JSON, fresh identifiers,
  and the agent runtime with the model behind it. A tool may change the configuration.
\<close>

record ('c, 'm) runtime =
  ru_reads :: "'c config_reads"
  ru_glob :: "string \<Rightarrow> string \<Rightarrow> bool option"
  ru_connect :: "nat \<Rightarrow> mcp_server \<Rightarrow> connect_outcome"
  ru_mcp_call :: "mcp_server \<Rightarrow> string \<Rightarrow> (string \<times> string json) list option \<Rightarrow> 'c \<Rightarrow> (string + mcp_result) \<times> 'c"
  ru_local :: "string \<Rightarrow> string \<Rightarrow> 'c \<Rightarrow> (string + string) \<times> 'c"
  ru_build :: "provider_type \<Rightarrow> string \<Rightarrow> string option \<Rightarrow> string option"
  ru_pick :: "string list \<Rightarrow> string \<Rightarrow> nat option"
  ru_no_tool :: "string \<Rightarrow> string"
  ru_parse :: "string \<Rightarrow> string + string json"
  ru_print :: "string json list \<Rightarrow> string"
  ru_arg_text :: "arg_error \<Rightarrow> string"
  ru_uuid :: "nat \<Rightarrow> string"
  ru_agent :: "nat \<Rightarrow> rig_agent \<Rightarrow> tool list \<Rightarrow> 'm list \<Rightarrow> string \<Rightarrow> agent_run"

text \<open>The sink of the host, and the one of a subagent around another.\<close>

datatype sink = HostSink | SubagentSink sink string

record session_context =
  sc_sink :: sink
  sc_local_tools :: "string list"
  sc_depth_max :: nat
  sc_extra_mcp :: "(mcp_server \<times> mcp_selection) list"
  sc_model_override :: "string option"

datatype net_event = Contacted string | Opened string | Cancelled string | Dropped string

record 'c turn_world =
  tw_store :: 'c
  tw_events :: "string chat_event list"
  tw_todo :: "string option"
  tw_net :: "net_event list"
  tw_ids :: nat
  tw_turns :: nat

primrec emit :: "sink \<Rightarrow> string chat_event \<Rightarrow> 'c turn_world \<Rightarrow> 'c turn_world" where
  "emit HostSink e w = w\<lparr>tw_events := tw_events w @ [e]\<rparr>"
| "emit (SubagentSink inner i) e w = emit inner (SubagentEvent i e) w"

definition net :: "net_event \<Rightarrow> 'c turn_world \<Rightarrow> 'c turn_world" where
  "net e w = w\<lparr>tw_net := tw_net w @ [e]\<rparr>"

section \<open>Tools of MCP servers\<close>

definition tool_matches :: "('c, 'm) runtime \<Rightarrow> string list \<Rightarrow> string \<Rightarrow> bool" where
  "tool_matches R patterns name \<longleftrightarrow> patterns = [] \<or> (\<exists>p \<in> set patterns. ru_glob R p name = Some True)"

fun selected_servers :: "mcp_selection list \<Rightarrow> mcp_server list \<Rightarrow> (mcp_selection \<times> mcp_server) list" where
  "selected_servers [] servers = []"
| "selected_servers (s # ss) servers =
     (case List.find (\<lambda>v. srv_name v = sel_server s) servers of
        None \<Rightarrow> selected_servers ss servers
      | Some v \<Rightarrow> (s, v) # selected_servers ss servers)"

text \<open>Connecting and listing; a connection whose listing fails is dropped.\<close>

definition connect_server :: "('c, 'm) runtime \<Rightarrow> mcp_server \<Rightarrow> 'c turn_world \<Rightarrow> (turn_error + string list) \<times> 'c turn_world" where
  "connect_server R server w =
     (case srv_transport server of
        Sse \<Rightarrow> (Inl TurnSse, w)
      | HttpStreamable \<Rightarrow>
          (let name = srv_name server; outcome = ru_connect R (length (tw_net w)) server; w = net (Contacted name) w in
           case outcome of
             NoConnection m \<Rightarrow> (Inl (TurnMcpConnect name m), w)
           | NoListing m \<Rightarrow> (Inl (TurnMcpTools name m), net (Dropped name) (net (Opened name) w))
           | ServerTools names \<Rightarrow> (Inr names, net (Opened name) w)))"

text \<open>What a turn has prepared so far: its tools, its connections, and the names already taken.\<close>

record prepared =
  pr_tools :: "tool list"
  pr_running :: "string list"
  pr_added :: "string set"
  pr_connected :: "string set"

definition nothing_prepared :: prepared where
  "nothing_prepared = \<lparr>pr_tools = [], pr_running = [], pr_added = {}, pr_connected = {}\<rparr>"

fun connect_pairs :: "('c, 'm) runtime \<Rightarrow> (mcp_selection \<times> mcp_server) list \<Rightarrow> prepared \<Rightarrow> 'c turn_world
    \<Rightarrow> (prepared \<times> (string \<times> string) list) \<times> 'c turn_world" where
  "connect_pairs R [] p w = ((p, []), w)"
| "connect_pairs R ((sel, server) # rest) p w =
     (case connect_server R server w of
        (Inl e, w) \<Rightarrow>
          (case connect_pairs R rest p w of
             ((p, fs), w) \<Rightarrow> ((p, (srv_name server, turn_error_text e) # fs), w))
      | (Inr names, w) \<Rightarrow>
          connect_pairs R rest (p\<lparr>pr_tools := pr_tools p @ map (McpTool server) (filter (tool_matches R (sel_tools sel)) names),
            pr_running := pr_running p @ [srv_name server]\<rparr>) w)"

text \<open>\<open>connect_mcp_servers_selected\<close> and the events for the servers that failed.\<close>

definition connect_selected :: "('c, 'm) runtime \<Rightarrow> session_context \<Rightarrow> mcp_selection list \<Rightarrow> mcp_server list \<Rightarrow> prepared
    \<Rightarrow> 'c turn_world \<Rightarrow> prepared \<times> 'c turn_world" where
  "connect_selected R ctx selections servers p w =
     (case connect_pairs R (selected_servers selections servers) p w of
        ((p, failed), w) \<Rightarrow> (p, fold (\<lambda>(server, reason). emit (sc_sink ctx) (ToolUnavailable server reason)) failed w))"

text \<open>The names or selections that are new, and all that are taken then.\<close>

fun dedupe_by :: "('a \<Rightarrow> string) \<Rightarrow> 'a list \<Rightarrow> string set \<Rightarrow> 'a list \<times> string set" where
  "dedupe_by f [] taken = ([], taken)"
| "dedupe_by f (x # xs) taken =
     (if f x \<in> taken then dedupe_by f xs taken
      else case dedupe_by f xs (insert (f x) taken) of (ys, taken) \<Rightarrow> (x # ys, taken))"

definition dedupe_local_tool_names :: "string list \<Rightarrow> string set \<Rightarrow> string list \<times> string set" where
  "dedupe_local_tool_names = dedupe_by id"

definition dedupe_mcp_selections :: "mcp_selection list \<Rightarrow> string set \<Rightarrow> mcp_selection list \<times> string set" where
  "dedupe_mcp_selections = dedupe_by sel_server"

definition select_local_tools :: "string list \<Rightarrow> string list \<Rightarrow> string list \<times> string list" where
  "select_local_tools requested available =
     (filter (\<lambda>n. n \<in> set available) requested, filter (\<lambda>n. n \<notin> set available) requested)"

section \<open>Preparing the tools of a turn\<close>

fun connect_extra :: "('c, 'm) runtime \<Rightarrow> session_context \<Rightarrow> (mcp_server \<times> mcp_selection) list \<Rightarrow> prepared \<Rightarrow> 'c turn_world
    \<Rightarrow> prepared \<times> 'c turn_world" where
  "connect_extra R ctx [] p w = (p, w)"
| "connect_extra R ctx ((server, selection) # rest) p w =
     (case dedupe_mcp_selections [selection] (pr_connected p) of
        (selections, taken) \<Rightarrow>
          (case (let p = p\<lparr>pr_connected := taken\<rparr> in
                 if selections = [] then (p, w) else connect_selected R ctx selections [server] p w) of
             (p, w) \<Rightarrow> connect_extra R ctx rest p w))"

fun known_servers :: "('c, 'm) runtime \<Rightarrow> 'c \<Rightarrow> mcp_selection list \<Rightarrow> mcp_server list" where
  "known_servers R c [] = []"
| "known_servers R c (s # ss) =
     (case cr_get_mcp_server (ru_reads R) c (sel_server s) of
        Inl e \<Rightarrow> known_servers R c ss
      | Inr v \<Rightarrow> v # known_servers R c ss)"

definition prepare_toolset :: "('c, 'm) runtime \<Rightarrow> session_context \<Rightarrow> toolset \<Rightarrow> prepared \<Rightarrow> 'c turn_world \<Rightarrow> prepared \<times> 'c turn_world" where
  "prepare_toolset R ctx t p w =
     (case select_local_tools (ts_local_tools t) (sc_local_tools ctx) of (found, missing) \<Rightarrow>
      case dedupe_local_tool_names found (pr_added p) of (found, added) \<Rightarrow>
      case dedupe_mcp_selections (ts_mcp t) (pr_connected p) of (selections, taken) \<Rightarrow>
        connect_selected R ctx selections (known_servers R (tw_store w) selections)
          (p\<lparr>pr_tools := pr_tools p @ map LocalTool found, pr_added := added, pr_connected := taken\<rparr>) w)"

fun prepare_toolsets :: "('c, 'm) runtime \<Rightarrow> session_context \<Rightarrow> toolset list \<Rightarrow> prepared \<Rightarrow> 'c turn_world \<Rightarrow> prepared \<times> 'c turn_world" where
  "prepare_toolsets R ctx [] p w = (p, w)"
| "prepare_toolsets R ctx (t # ts) p w =
     (case prepare_toolset R ctx t p w of (p, w) \<Rightarrow> prepare_toolsets R ctx ts p w)"

definition add_tools :: "tool list \<Rightarrow> prepared \<Rightarrow> prepared" where
  "add_tools ts p = p\<lparr>pr_tools := pr_tools p @ ts\<rparr>"

text \<open>The built-in tools; the list of agents is read only where the depth allows subagents.\<close>

definition add_builtins :: "('c, 'm) runtime \<Rightarrow> session_context \<Rightarrow> skill_meta list \<Rightarrow> nat \<Rightarrow> 'c \<Rightarrow> prepared \<Rightarrow> turn_error + prepared" where
  "add_builtins R ctx skills depth c p =
     (let p = (if skills = [] then p else add_tools [SkillBuiltin skills] p) in
      case (if depth < sc_depth_max ctx
            then store_bind (cr_list_agents (ru_reads R) c) (\<lambda>agents.
              let subagents = available_subagents agents in
              Inr (if subagents = [] then p else add_tools [TaskBuiltin depth subagents] p))
            else Inr p) of
        Inl e \<Rightarrow> Inl e
      | Inr p \<Rightarrow> Inr (add_tools [TodoWriteBuiltin, TodoReadBuiltin] p))"

section \<open>The model\<close>

definition DEFAULT_MAX_TURNS :: nat where "DEFAULT_MAX_TURNS = 100"

definition agent_additional :: "model_profile \<Rightarrow> string json option" where
  "agent_additional profile = (if mp_options profile = [] then None else Some (JObj (mp_options profile)))"

definition build_agent :: "('c, 'm) runtime \<Rightarrow> resolved_turn \<Rightarrow> turn_error + rig_agent" where
  "build_agent R t =
     (let v = rt_provider t; profile = rt_profile t;
          url = (case prov_type v of Ollama \<Rightarrow> prov_endpoint v | OpenaiCompatible \<Rightarrow> trim_slashes (prov_endpoint v) @ ''/v1'');
          key = (case prov_type v of
                   Ollama \<Rightarrow> prov_api_key v
                 | OpenaiCompatible \<Rightarrow> Some (case prov_api_key v of Some k \<Rightarrow> k | None \<Rightarrow> []))
      in case ru_build R (prov_type v) url key of
           Some e \<Rightarrow> Inl (TurnModelBuild e)
         | None \<Rightarrow> Inr \<lparr>ra_type = prov_type v, ra_base_url = url, ra_api_key = key, ra_model = mp_model profile,
             ra_preamble = rt_prompt t, ra_max_turns = DEFAULT_MAX_TURNS, ra_temperature = mp_temperature profile,
             ra_max_tokens = mp_max_tokens profile, ra_additional = agent_additional profile\<rparr>)"

section \<open>Calls of tools\<close>

text \<open>The call of a tool of an MCP server: arguments that are not an object are left out.\<close>

definition data_type :: "string option \<Rightarrow> string" where
  "data_type mime = (case mime of None \<Rightarrow> [] | Some m \<Rightarrow> ''data:'' @ m @ '';'')"

fun content_chunk :: "raw_content \<Rightarrow> string + string" where
  "content_chunk (RawText s) = Inr s"
| "content_chunk (RawImage mime d) = Inr (''data:'' @ mime @ '';base64,'' @ d)"
| "content_chunk (RawTextResource uri mime s) = Inr (data_type mime @ uri @ '':'' @ s)"
| "content_chunk (RawBlobResource uri mime b) = Inr (data_type mime @ uri @ '':'' @ b)"
| "content_chunk RawAudio = Inl ''MCP tool returned audio content (not supported)''"
| "content_chunk (RawResourceLink d) = Inl (''MCP tool returned unsupported content: '' @ d)"

fun content_text :: "raw_content list \<Rightarrow> string + string" where
  "content_text [] = Inr []"
| "content_text (c # cs) =
     (case content_chunk c of
        Inl e \<Rightarrow> Inl e
      | Inr s \<Rightarrow> (case content_text cs of Inl e \<Rightarrow> Inl e | Inr t \<Rightarrow> Inr (s @ t)))"

fun raw_as_text :: "raw_content \<Rightarrow> string option" where
  "raw_as_text (RawText s) = Some s"
| "raw_as_text _ = None"

definition mcp_tool_error :: "string \<Rightarrow> string" where
  "mcp_tool_error m = ''MCP tool call error: '' @ m"

definition mcp_answer :: "mcp_result \<Rightarrow> string + string" where
  "mcp_answer r =
     (if mr_is_error r = Some True then
        Inl (mcp_tool_error (case those (map raw_as_text (mr_content r)) of
               Some texts \<Rightarrow> join_with nl texts
             | None \<Rightarrow> ''MCP tool error (no message)''))
      else map_sum mcp_tool_error id (content_text (mr_content r)))"

definition mcp_call :: "('c, 'm) runtime \<Rightarrow> mcp_server \<Rightarrow> string \<Rightarrow> string \<Rightarrow> 'c turn_world \<Rightarrow> (string + string) \<times> 'c turn_world" where
  "mcp_call R server name args w =
     (let arguments = (case ru_parse R args of Inr (JObj ms) \<Rightarrow> Some ms | _ \<Rightarrow> None) in
      case ru_mcp_call R server name arguments (tw_store w) of
        (Inl e, c) \<Rightarrow> (Inl (mcp_tool_error e), w\<lparr>tw_store := c\<rparr>)
      | (Inr r, c) \<Rightarrow> (mcp_answer r, w\<lparr>tw_store := c\<rparr>))"

definition local_call :: "('c, 'm) runtime \<Rightarrow> string \<Rightarrow> string \<Rightarrow> 'c turn_world \<Rightarrow> (string + string) \<times> 'c turn_world" where
  "local_call R name args w = (case ru_local R name args (tw_store w) of (r, c) \<Rightarrow> (r, w\<lparr>tw_store := c\<rparr>))"

text \<open>The arguments of a built-in tool.\<close>

definition with_tool_args :: "('c, 'm) runtime \<Rightarrow> string \<Rightarrow> (string json \<Rightarrow> arg_error + 'a) \<Rightarrow> ('a \<Rightarrow> 'w \<Rightarrow> (string + string) \<times> 'w)
    \<Rightarrow> 'w \<Rightarrow> (string + string) \<times> 'w" where
  "with_tool_args R args read body w =
     (case ru_parse R args of
        Inl e \<Rightarrow> (Inl e, w)
      | Inr v \<Rightarrow> (case read v of Inl e \<Rightarrow> (Inl (ru_arg_text R e), w) | Inr a \<Rightarrow> body a w))"

definition skill_body :: "('c, 'm) runtime \<Rightarrow> session_context \<Rightarrow> skill_meta list \<Rightarrow> string \<Rightarrow> 'c turn_world
    \<Rightarrow> (string + string) \<times> 'c turn_world" where
  "skill_body R ctx available name w =
     (if \<not> (\<exists>s \<in> set available. sk_name s = name) then (Inl (turn_error_text (TurnUnknown ''skill'' name)), w)
      else case cr_load_skill (ru_reads R) (tw_store w) name of
          Inl e \<Rightarrow> (Inl (cfg_error_display e), w)
        | Inr body \<Rightarrow> (Inr body, emit (sc_sink ctx) (SkillLoaded name) w))"

definition skill_call :: "('c, 'm) runtime \<Rightarrow> session_context \<Rightarrow> skill_meta list \<Rightarrow> string \<Rightarrow> 'c turn_world
    \<Rightarrow> (string + string) \<times> 'c turn_world" where
  "skill_call R ctx available args =
     with_tool_args R args (\<lambda>v. obj_args [''name''] v (\<lambda>v. field_string v ''name'')) (skill_body R ctx available)"

definition field_array :: "string json \<Rightarrow> string \<Rightarrow> arg_error + string json list" where
  "field_array v k =
     (case jget k v of None \<Rightarrow> Inl (MissingField k) | Some (JArr xs) \<Rightarrow> Inr xs | Some x \<Rightarrow> Inl (WrongType k x))"

definition todo_write :: "('c, 'm) runtime \<Rightarrow> string \<Rightarrow> 'c turn_world \<Rightarrow> (string + string) \<times> 'c turn_world" where
  "todo_write R args =
     with_tool_args R args (\<lambda>v. obj_args [''todos''] v (\<lambda>v. field_array v ''todos'')) (\<lambda>todos w.
       (Inr (''todo list updated ('' @ show_nat (length todos) @ '' items)''), w\<lparr>tw_todo := Some (ru_print R todos)\<rparr>))"

definition todo_read :: "('c, 'm) runtime \<Rightarrow> string \<Rightarrow> 'c turn_world \<Rightarrow> (string + string) \<times> 'c turn_world" where
  "todo_read R args =
     with_tool_args R args Inr (\<lambda>v w. (Inr (case tw_todo w of Some json \<Rightarrow> json | None \<Rightarrow> ''no todo list yet''), w))"

record turn_result =
  tr_text :: string
  tr_calls :: "tool_call_record list"

type_synonym 'c turn_outcome = "(turn_error + turn_result) \<times> 'c turn_world"

definition depth_limit_text :: "nat \<Rightarrow> string" where
  "depth_limit_text n = ''subagent depth limit ('' @ show_nat n @ '') reached, cannot delegate further''"

definition primary_text :: "string \<Rightarrow> string" where
  "primary_text name = ''agent '' @ squote name @ '' is a primary agent and cannot be invoked as a subagent''"

text \<open>A subagent: \<open>nested\<close> runs its turn with a sink of its own, one level deeper.\<close>

definition run_subagent :: "('c, 'm) runtime \<Rightarrow> session_context \<Rightarrow> (sink \<Rightarrow> string \<Rightarrow> string \<Rightarrow> 'c turn_world \<Rightarrow> 'c turn_outcome)
    \<Rightarrow> string \<Rightarrow> string \<Rightarrow> 'c turn_world \<Rightarrow> (string + string) \<times> 'c turn_world" where
  "run_subagent R ctx nested name prompt w =
     (let i = ru_uuid R (tw_ids w);
          w = emit (sc_sink ctx) (SubagentStart i name prompt) (w\<lparr>tw_ids := tw_ids w + 1\<rparr>)
      in case nested (SubagentSink (sc_sink ctx) i) name prompt w of
           (Inr t, w) \<Rightarrow> (Inr (tr_text t), emit (sc_sink ctx) (SubagentEnd i (tr_text t)) w)
         | (Inl e, w) \<Rightarrow> (Inl (turn_error_text e), emit (sc_sink ctx) (SubagentEnd i (''Error: '' @ turn_error_text e)) w))"

definition task_body :: "('c, 'm) runtime \<Rightarrow> session_context \<Rightarrow> (sink \<Rightarrow> string \<Rightarrow> string \<Rightarrow> 'c turn_world \<Rightarrow> 'c turn_outcome) \<Rightarrow> nat
    \<Rightarrow> string \<times> string \<Rightarrow> 'c turn_world \<Rightarrow> (string + string) \<times> 'c turn_world" where
  "task_body R ctx nested depth a w =
     (if sc_depth_max ctx \<le> depth then (Inl (depth_limit_text (sc_depth_max ctx)), w)
      else case cr_get_agent (ru_reads R) (tw_store w) (fst a) of
          Inl e \<Rightarrow> (Inl (cfg_error_display e), w)
        | Inr target \<Rightarrow>
            (if ag_mode target = Primary then (Inl (primary_text (fst a)), w)
             else run_subagent R ctx nested (fst a) (snd a) w))"

definition task_args :: "string json \<Rightarrow> arg_error + string \<times> string" where
  "task_args v = obj_args [''agent'', ''prompt''] v (\<lambda>v.
     arg_bind (field_string v ''agent'') (\<lambda>a. arg_bind (field_string v ''prompt'') (\<lambda>p. Inr (a, p))))"

definition task_call :: "('c, 'm) runtime \<Rightarrow> session_context \<Rightarrow> (sink \<Rightarrow> string \<Rightarrow> string \<Rightarrow> 'c turn_world \<Rightarrow> 'c turn_outcome) \<Rightarrow> nat
    \<Rightarrow> string \<Rightarrow> 'c turn_world \<Rightarrow> (string + string) \<times> 'c turn_world" where
  "task_call R ctx nested depth args = with_tool_args R args task_args (task_body R ctx nested depth)"

text \<open>The call of a tool of the turn by its name.\<close>

definition tool_called :: "('c, 'm) runtime \<Rightarrow> tool list \<Rightarrow> string \<Rightarrow> tool option" where
  "tool_called R tools name =
     Option.bind (ru_pick R (map tool_name tools) name) (\<lambda>i. if i < length tools then Some (tools ! i) else None)"

definition call_turn_tool :: "('c, 'm) runtime \<Rightarrow> session_context \<Rightarrow> (sink \<Rightarrow> string \<Rightarrow> string \<Rightarrow> 'c turn_world \<Rightarrow> 'c turn_outcome)
    \<Rightarrow> tool list \<Rightarrow> string \<Rightarrow> string \<Rightarrow> 'c turn_world \<Rightarrow> (string + string) \<times> 'c turn_world" where
  "call_turn_tool R ctx nested tools name args w =
     (case tool_called R tools name of
        None \<Rightarrow> (Inl (ru_no_tool R name), w)
      | Some t \<Rightarrow>
          (case t of
             LocalTool n \<Rightarrow> local_call R n args w
           | McpTool server n \<Rightarrow> mcp_call R server n args w
           | SkillBuiltin available \<Rightarrow> skill_call R ctx available args w
           | TaskBuiltin depth agents \<Rightarrow> task_call R ctx nested depth args w
           | TodoWriteBuiltin \<Rightarrow> todo_write R args w
           | TodoReadBuiltin \<Rightarrow> todo_read R args w))"

section \<open>The turn\<close>

text \<open>On an early return the connections are dropped, at the end of the turn they are cancelled.\<close>

definition drop_all :: "prepared \<Rightarrow> 'c turn_world \<Rightarrow> 'c turn_world" where
  "drop_all p w = fold (\<lambda>n. net (Dropped n)) (pr_running p) w"

definition cancel_all :: "prepared \<Rightarrow> 'c turn_world \<Rightarrow> 'c turn_world" where
  "cancel_all p w = fold (\<lambda>n. net (Cancelled n)) (pr_running p) w"

definition prepare_turn :: "('c, 'm) runtime \<Rightarrow> session_context \<Rightarrow> resolved_turn \<Rightarrow> 'c turn_world \<Rightarrow> prepared \<times> 'c turn_world" where
  "prepare_turn R ctx t w =
     (case connect_extra R ctx (sc_extra_mcp ctx) nothing_prepared w of
        (p, w) \<Rightarrow> prepare_toolsets R ctx (rt_toolsets t) p w)"

definition run_stream :: "('c, 'm) runtime \<Rightarrow> session_context \<Rightarrow> (sink \<Rightarrow> string \<Rightarrow> string \<Rightarrow> 'c turn_world \<Rightarrow> 'c turn_outcome)
    \<Rightarrow> prepared \<Rightarrow> rig_agent \<Rightarrow> 'm list \<Rightarrow> string \<Rightarrow> 'c turn_world \<Rightarrow> 'c turn_outcome" where
  "run_stream R ctx nested p a history user_msg w =
     (case stream_agent_events (ru_agent R (tw_turns w) a (pr_tools p) history user_msg) (emit (sc_sink ctx))
         (call_turn_tool R ctx nested (pr_tools p)) new_accumulator (w\<lparr>tw_turns := tw_turns w + 1\<rparr>) of
        (Inl e, w) \<Rightarrow> (Inl (TurnLlm e), cancel_all p w)
      | (Inr acc, w) \<Rightarrow> (Inr \<lparr>tr_text = ac_text acc, tr_calls = ac_calls acc\<rparr>, cancel_all p w))"

definition turn_body :: "('c, 'm) runtime \<Rightarrow> session_context \<Rightarrow> (sink \<Rightarrow> string \<Rightarrow> string \<Rightarrow> 'c turn_world \<Rightarrow> 'c turn_outcome)
    \<Rightarrow> string \<Rightarrow> 'm list \<Rightarrow> string \<Rightarrow> string option \<Rightarrow> nat \<Rightarrow> 'c turn_world \<Rightarrow> 'c turn_outcome" where
  "turn_body R ctx nested agent_name history user_msg workspace_context depth w =
     (case resolve_turn_context (ru_reads R) (sc_model_override ctx) (tw_store w) agent_name workspace_context of
        Inl e \<Rightarrow> (Inl e, w)
      | Inr t \<Rightarrow>
          (case prepare_turn R ctx t w of
             (p, w) \<Rightarrow>
               (case add_builtins R ctx (rt_skill_index t) depth (tw_store w) p of
                  Inl e \<Rightarrow> (Inl e, drop_all p w)
                | Inr p \<Rightarrow>
                    (case build_agent R t of
                       Inl e \<Rightarrow> (Inl e, drop_all p w)
                     | Inr a \<Rightarrow> run_stream R ctx nested p a history user_msg w))))"

text \<open>
  The recursion through the tool \<open>task\<close>. The test of the depth is that of the tool, which is
  made before the nested turn starts: \<open>run_agent_turn_at_depth_eq\<close> is the equation without it.
\<close>

function run_agent_turn_at_depth :: "('c, 'm) runtime \<Rightarrow> session_context \<Rightarrow> string \<Rightarrow> 'm list \<Rightarrow> string \<Rightarrow> string option \<Rightarrow> nat
    \<Rightarrow> 'c turn_world \<Rightarrow> 'c turn_outcome" where
  "run_agent_turn_at_depth R ctx agent_name history user_msg workspace_context depth w =
     turn_body R ctx
       (\<lambda>s name prompt w.
          if depth < sc_depth_max ctx
          then run_agent_turn_at_depth R (ctx\<lparr>sc_sink := s\<rparr>) name [] prompt None (Suc depth) w
          else (Inl (TurnConfig []), w))
       agent_name history user_msg workspace_context depth w"
  by pat_completeness auto

termination by (relation "measure (\<lambda>(R, ctx, n, h, m, c, depth, w). sc_depth_max ctx - depth)") auto

declare run_agent_turn_at_depth.simps [simp del]

definition run_agent_turn :: "('c, 'm) runtime \<Rightarrow> session_context \<Rightarrow> string \<Rightarrow> 'm list \<Rightarrow> string \<Rightarrow> string option
    \<Rightarrow> 'c turn_world \<Rightarrow> 'c turn_outcome" where
  "run_agent_turn R ctx agent_name history user_msg workspace_context w =
     run_agent_turn_at_depth R ctx agent_name history user_msg workspace_context 0 w"

section \<open>What releasing leaves alone\<close>

lemma fold_net [simp]:
  "tw_events (fold (\<lambda>n. net (f n)) ns w) = tw_events w"
  "tw_net (fold (\<lambda>n. net (f n)) ns w) = tw_net w @ map f ns"
  by (induction ns arbitrary: w) (simp_all add: net_def)

lemma release_all [simp]:
  "tw_events (cancel_all p w) = tw_events w" "tw_net (cancel_all p w) = tw_net w @ map Cancelled (pr_running p)"
  "tw_events (drop_all p w) = tw_events w" "tw_net (drop_all p w) = tw_net w @ map Dropped (pr_running p)"
  by (simp_all add: cancel_all_def drop_all_def)

lemma tw_net_emit [simp]: "tw_net (emit s e w) = tw_net w"
  by (induction s arbitrary: e) auto

end
