(* ===== verification/SessionProps.thy ===== *)
theory SessionProps
  imports SessionTurn
begin

text \<open>
  What a turn tells its sink: a grammar of the events of a turn with those of its subagents, its
  result as what a client makes of the events, and the bound on the nesting of subagents; the
  connections of a turn; and its prompt and its resolution.
\<close>

section \<open>Sinks\<close>

primrec wrapped :: "sink \<Rightarrow> string chat_event \<Rightarrow> string chat_event" where
  "wrapped HostSink e = e"
| "wrapped (SubagentSink inner i) e = wrapped inner (SubagentEvent i e)"

lemma emit_wrapped: "emit s e w = w\<lparr>tw_events := tw_events w @ [wrapped s e]\<rparr>"
  by (induction s arbitrary: e) auto

text \<open>Going from one state to another has told the sink these events.\<close>

definition tells :: "sink \<Rightarrow> string chat_event list \<Rightarrow> 'c turn_world \<Rightarrow> 'c turn_world \<Rightarrow> bool" where
  "tells s es w w' \<longleftrightarrow> tw_events w' = tw_events w @ map (wrapped s) es"

lemma tells_refl [simp]: "tells s [] w w"
  by (simp add: tells_def)

lemma tells_trans: "tells s es w w1 \<Longrightarrow> tells s fs w1 w2 \<Longrightarrow> tells s (es @ fs) w w2"
  by (simp add: tells_def)

lemma tells_emit: "tells s [e] w (emit s e w)"
  by (simp add: tells_def emit_wrapped)

lemma tells_fold_emit: "tells s es w (fold (emit s) es w)"
  by (induction es arbitrary: w) (simp_all add: tells_def emit_wrapped)

lemma tells_quiet: "tw_events w' = tw_events w \<Longrightarrow> tells s [] w w'"
  by (simp add: tells_def)

lemma tells_inner: "tells (SubagentSink s i) es w w' \<Longrightarrow> tells s (map (SubagentEvent i) es) w w'"
  by (simp add: tells_def)

section \<open>The events of a turn\<close>

definition outcome_text :: "turn_error + turn_result \<Rightarrow> string" where
  "outcome_text r = (case r of Inl e \<Rightarrow> ''Error: '' @ turn_error_text e | Inr t \<Rightarrow> tr_text t)"

text \<open>
  \<open>turn_events n\<close>: while a turn goes on, with subagents nested at most \<open>n\<close> deep;
  \<open>turn_trace n r\<close>: all of a turn that ends with \<open>r\<close>.
\<close>

inductive turn_events :: "nat \<Rightarrow> string chat_event list \<Rightarrow> bool"
  and turn_trace :: "nat \<Rightarrow> turn_error + turn_result \<Rightarrow> string chat_event list \<Rightarrow> bool" where
  no_event: "turn_events n []"
| one_plain: "turn_events n es \<Longrightarrow> plain_event e \<Longrightarrow> turn_events n (es @ [e])"
| one_subagent: "turn_events (Suc n) es \<Longrightarrow> turn_trace n r fs \<Longrightarrow>
    turn_events (Suc n) (es @ SubagentStart i a p # map (SubagentEvent i) fs @ [SubagentEnd i (outcome_text r)])"
| turn_refused: "list_all (\<lambda>e. \<exists>s m. e = ToolUnavailable s m) es \<Longrightarrow> (\<forall>m. e \<noteq> TurnLlm m) \<Longrightarrow> turn_trace n (Inl e) es"
| turn_failed: "turn_events n es \<Longrightarrow> turn_trace n (Inl (TurnLlm m)) (es @ [ErrorEv ''VNL-LLM-001'' m])"
| turn_done: "turn_events n es \<Longrightarrow> replay es = (tr_text t, tr_calls t) \<Longrightarrow> turn_trace n (Inr t) (es @ [Done])"

lemma turn_events_append: "turn_events n fs \<Longrightarrow> turn_events n es \<Longrightarrow> turn_events n (es @ fs)"
proof (induction n fs rule: turn_events_turn_trace.inducts(1) [where ?P2.0 = "\<lambda>n r es. True"])
  case (one_plain n fs e)
  then show ?case using turn_events_turn_trace.one_plain [of n "es @ fs" e] by simp
next
  case (one_subagent n fs r gs i a p)
  then show ?case using turn_events_turn_trace.one_subagent [of n "es @ fs" r gs i a p] by simp
qed simp_all

lemma plain_turn_events: "list_all plain_event es \<Longrightarrow> turn_events n es"
proof (induction es rule: rev_induct)
  case (snoc e es)
  then show ?case by (auto intro: one_plain)
qed (simp add: no_event)

lemma unavailable_turn_events: "list_all (\<lambda>e. \<exists>s m. e = ToolUnavailable s m) es \<Longrightarrow> turn_events n es"
  by (rule plain_turn_events) (auto simp: list_all_iff)

text \<open>How deep an event is nested in subagents.\<close>

fun nesting :: "string chat_event \<Rightarrow> nat" where
  "nesting (SubagentEvent i e) = Suc (nesting e)"
| "nesting e = 0"

lemma plain_nesting: "plain_event e \<Longrightarrow> nesting e = 0"
  by (cases e) auto

lemma trace_nesting:
  "turn_events n es \<Longrightarrow> list_all (\<lambda>e. nesting e \<le> n) es"
  "turn_trace n r es \<Longrightarrow> list_all (\<lambda>e. nesting e \<le> n) es"
proof (induction rule: turn_events_turn_trace.inducts)
  case (turn_refused es e n)
  then show ?case by (auto simp: list_all_iff)
qed (auto simp: list_all_iff plain_nesting)

text \<open>Replaying ignores what is neither text nor a call or its result.\<close>

fun replay_silent :: "string chat_event \<Rightarrow> bool" where
  "replay_silent (Token s) = False"
| "replay_silent (ToolCallEv i n a) = False"
| "replay_silent (ToolResultEv i n r e) = False"
| "replay_silent e = True"

lemma replay_event_silent [simp]: "replay_silent e \<Longrightarrow> replay_event e p = p"
  by (cases p, cases e) auto

lemma fold_replay_silent: "list_all replay_silent es \<Longrightarrow> fold replay_event es p = p"
  by (induction es) auto

section \<open>Preparing\<close>

definition only_unavailable :: "session_context \<Rightarrow> 'c turn_world \<Rightarrow> 'c turn_world \<Rightarrow> bool" where
  "only_unavailable ctx w w' \<longleftrightarrow> (\<exists>es. tells (sc_sink ctx) es w w' \<and> list_all (\<lambda>e. \<exists>s m. e = ToolUnavailable s m) es)"

lemma only_unavailable_refl [simp]: "only_unavailable ctx w w"
  unfolding only_unavailable_def by (rule exI [of _ "[]"]) simp

lemma only_unavailable_trans: "only_unavailable ctx w w1 \<Longrightarrow> only_unavailable ctx w1 w2 \<Longrightarrow> only_unavailable ctx w w2"
  unfolding only_unavailable_def by (meson list_all_append tells_trans)

lemma connect_server_quiet: "connect_server R server w = (r, w') \<Longrightarrow> tw_events w' = tw_events w"
  by (auto simp: connect_server_def net_def Let_def split: mcp_transport.splits connect_outcome.splits)

lemma connect_pairs_quiet: "connect_pairs R ps p w = (x, w') \<Longrightarrow> tw_events w' = tw_events w"
proof (induction R ps p w arbitrary: x w' rule: connect_pairs.induct)
  case (2 R sel server rest p w)
  obtain r w1 where c: "connect_server R server w = (r, w1)" by fastforce
  show ?case
  proof (cases r)
    case (Inl e)
    obtain q fs w2 where n: "connect_pairs R rest p w1 = ((q, fs), w2)" by (metis surj_pair)
    have "w' = w2" using 2(3) by (simp add: c Inl n)
    then show ?thesis using 2(1) [OF c [symmetric] Inl n] connect_server_quiet [OF c] by simp
  next
    case (Inr names)
    then show ?thesis using 2(2) [OF c [symmetric] Inr] 2(3) connect_server_quiet [OF c] by (simp add: c)
  qed
qed simp

lemma fold_unavailable:
  "only_unavailable ctx w (fold (\<lambda>(server, reason). emit (sc_sink ctx) (ToolUnavailable server reason)) fs w)"
proof (induction fs arbitrary: w)
  case (Cons f fs)
  obtain s m where f: "f = (s, m)" by (cases f)
  have "only_unavailable ctx w (emit (sc_sink ctx) (ToolUnavailable s m) w)"
    unfolding only_unavailable_def by (rule exI [of _ "[ToolUnavailable s m]"]) (simp add: tells_emit)
  with Cons show ?case by (auto simp: f intro: only_unavailable_trans)
qed simp

lemma connect_selected_unavailable:
  assumes "connect_selected R ctx sels servers p w = (p', w')"
  shows "only_unavailable ctx w w'"
proof -
  obtain q fs w1 where c: "connect_pairs R (selected_servers sels servers) p w = ((q, fs), w1)"
    by (cases "connect_pairs R (selected_servers sels servers) p w") auto
  have "only_unavailable ctx w w1"
    unfolding only_unavailable_def by (rule exI [of _ "[]"]) (simp add: tells_quiet connect_pairs_quiet [OF c])
  moreover have "w' = fold (\<lambda>(server, reason). emit (sc_sink ctx) (ToolUnavailable server reason)) fs w1"
    using assms by (simp add: connect_selected_def c)
  ultimately show ?thesis using fold_unavailable only_unavailable_trans by blast
qed

lemma connect_extra_unavailable: "connect_extra R ctx ps p w = (p', w') \<Longrightarrow> only_unavailable ctx w w'"
proof (induction R ctx ps p w arbitrary: p' w' rule: connect_extra.induct)
  case (2 R ctx server selection rest p w)
  obtain sels taken where d: "dedupe_mcp_selections [selection] (pr_connected p) = (sels, taken)" by fastforce
  let ?p = "p\<lparr>pr_connected := taken\<rparr>"
  obtain q w1 where s: "(if sels = [] then (?p, w) else connect_selected R ctx sels [server] ?p w) = (q, w1)" by fastforce
  have u: "only_unavailable ctx w w1" using s connect_selected_unavailable by (auto split: if_splits)
  have "(q, w1) = (let p = ?p in if sels = [] then (p, w) else connect_selected R ctx sels [server] p w)"
    by (simp add: Let_def s)
  moreover have "connect_extra R ctx rest q w1 = (p', w')" using 2(2) by (simp add: d s Let_def)
  ultimately have "only_unavailable ctx w1 w'" using 2(1) [OF d [symmetric]] by blast
  with u show ?case by (rule only_unavailable_trans)
qed simp

lemma prepare_toolset_unavailable: "prepare_toolset R ctx t p w = (p', w') \<Longrightarrow> only_unavailable ctx w w'"
  by (auto simp: prepare_toolset_def split: prod.splits dest: connect_selected_unavailable)

lemma prepare_toolsets_unavailable: "prepare_toolsets R ctx ts p w = (p', w') \<Longrightarrow> only_unavailable ctx w w'"
proof (induction R ctx ts p w arbitrary: p' w' rule: prepare_toolsets.induct)
  case (2 R ctx t ts p w)
  then show ?case by (auto split: prod.splits dest: prepare_toolset_unavailable intro: only_unavailable_trans)
qed simp

lemma prepare_turn_unavailable: "prepare_turn R ctx t w = (p, w') \<Longrightarrow> only_unavailable ctx w w'"
  by (auto simp: prepare_turn_def split: prod.splits dest: connect_extra_unavailable prepare_toolsets_unavailable
      intro: only_unavailable_trans)

section \<open>Calls\<close>

text \<open>A call of a tool, as the events of the turn see it.\<close>

definition call_ok :: "session_context \<Rightarrow> nat \<Rightarrow> 'c turn_world \<Rightarrow> 'c turn_world \<Rightarrow> bool" where
  "call_ok ctx n w w' \<longleftrightarrow> (\<exists>es. tells (sc_sink ctx) es w w' \<and> turn_events n es \<and> list_all replay_silent es)"

definition nested_ok :: "nat \<Rightarrow> (sink \<Rightarrow> string \<Rightarrow> string \<Rightarrow> 'c turn_world \<Rightarrow> 'c turn_outcome) \<Rightarrow> bool" where
  "nested_ok n nested \<longleftrightarrow>
     (\<forall>s name prompt w. \<exists>es. tells s es w (snd (nested s name prompt w)) \<and> turn_trace n (fst (nested s name prompt w)) es)"

lemma call_ok_quiet: "tw_events w' = tw_events w \<Longrightarrow> call_ok ctx n w w'"
  unfolding call_ok_def by (rule exI [of _ "[]"]) (simp add: tells_quiet no_event)

lemma with_tool_args_cases:
  assumes "with_tool_args R args read body w = (r, w')"
  obtains "w' = w" | a where "body a w = (r, w')"
  using assms by (auto simp: with_tool_args_def split: sum.splits)

lemma skill_call_ok: "skill_call R ctx available args w = (r, w') \<Longrightarrow> call_ok ctx n w w'"
  unfolding skill_call_def
proof (erule with_tool_args_cases)
  fix name
  assume "skill_body R ctx available name w = (r, w')"
  then have "w' = w \<or> w' = emit (sc_sink ctx) (SkillLoaded name) w" by (auto simp: skill_body_def split: if_splits sum.splits)
  moreover have "call_ok ctx n w (emit (sc_sink ctx) (SkillLoaded name) w)"
    unfolding call_ok_def
    by (rule exI [of _ "[SkillLoaded name]"]) (simp add: tells_emit plain_turn_events)
  ultimately show "call_ok ctx n w w'" by (auto intro: call_ok_quiet)
qed (simp add: call_ok_quiet)

lemma todo_write_ok: "todo_write R args w = (r, w') \<Longrightarrow> call_ok ctx n w w'"
  unfolding todo_write_def by (erule with_tool_args_cases) (auto intro: call_ok_quiet)

lemma todo_read_ok: "todo_read R args w = (r, w') \<Longrightarrow> call_ok ctx n w w'"
  unfolding todo_read_def by (erule with_tool_args_cases) (auto intro: call_ok_quiet)

lemma mcp_call_ok: "mcp_call R server name args w = (r, w') \<Longrightarrow> call_ok ctx n w w'"
  by (auto simp: mcp_call_def Let_def split: prod.splits sum.splits intro!: call_ok_quiet)

lemma local_call_ok: "local_call R name args w = (r, w') \<Longrightarrow> call_ok ctx n w w'"
  by (auto simp: local_call_def split: prod.splits intro!: call_ok_quiet)

lemma run_subagent_ok:
  assumes "nested_ok m nested" and "run_subagent R ctx nested name prompt w = (r, w')"
  shows "call_ok ctx (Suc m) w w'"
proof -
  let ?s = "sc_sink ctx" and ?i = "ru_uuid R (tw_ids w)"
  let ?w = "emit ?s (SubagentStart ?i name prompt) (w\<lparr>tw_ids := tw_ids w + 1\<rparr>)"
  obtain x v where n: "nested (SubagentSink ?s ?i) name prompt ?w = (x, v)" by fastforce
  have w': "w' = emit ?s (SubagentEnd ?i (outcome_text x)) v"
    using assms(2) n by (auto simp: run_subagent_def Let_def outcome_text_def split: sum.splits)
  obtain fs where fs: "tells (SubagentSink ?s ?i) fs ?w v" "turn_trace m x fs"
    using assms(1) n unfolding nested_ok_def by (metis fst_conv snd_conv)
  let ?es = "SubagentStart ?i name prompt # map (SubagentEvent ?i) fs @ [SubagentEnd ?i (outcome_text x)]"
  have "tells ?s [SubagentStart ?i name prompt] w ?w" by (simp add: tells_def emit_wrapped)
  from tells_trans [OF this tells_trans [OF tells_inner [OF fs(1)] tells_emit]]
  have "tells ?s ?es w w'" by (simp add: w')
  moreover have "turn_events (Suc m) ?es" using one_subagent [OF no_event fs(2)] by simp
  moreover have "list_all replay_silent ?es" by (simp add: list_all_iff)
  ultimately show ?thesis unfolding call_ok_def by blast
qed

lemma task_call_ok:
  assumes "\<And>m. sc_depth_max ctx - depth = Suc m \<Longrightarrow> nested_ok m nested"
    and "task_call R ctx nested depth args w = (r, w')"
  shows "call_ok ctx (sc_depth_max ctx - depth) w w'"
  using assms(2) unfolding task_call_def
proof (rule with_tool_args_cases)
  fix a
  assume b: "task_body R ctx nested depth a w = (r, w')"
  show "call_ok ctx (sc_depth_max ctx - depth) w w'"
  proof (cases "w' = w")
    case False
    then have d: "depth < sc_depth_max ctx" and r: "run_subagent R ctx nested (fst a) (snd a) w = (r, w')"
      using b by (auto simp: task_body_def split: if_splits sum.splits)
    obtain m where m: "sc_depth_max ctx - depth = Suc m" using d by (metis Suc_diff_Suc)
    show ?thesis using run_subagent_ok [OF assms(1) [OF m] r] m by simp
  qed (simp add: call_ok_quiet)
qed (simp add: call_ok_quiet)

text \<open>The tools of a turn know its depth.\<close>

definition at_depth :: "nat \<Rightarrow> tool list \<Rightarrow> bool" where
  "at_depth depth tools \<longleftrightarrow> (\<forall>d agents. TaskBuiltin d agents \<in> set tools \<longrightarrow> d = depth)"

lemma tool_called_in: "tool_called R tools name = Some t \<Longrightarrow> t \<in> set tools"
  by (auto simp: tool_called_def bind_eq_Some_conv split: if_splits)

lemma call_turn_tool_ok:
  assumes "\<And>m. sc_depth_max ctx - depth = Suc m \<Longrightarrow> nested_ok m nested" and "at_depth depth tools"
    and "call_turn_tool R ctx nested tools name args w = (r, w')"
  shows "call_ok ctx (sc_depth_max ctx - depth) w w'"
proof (cases "tool_called R tools name")
  case None
  then show ?thesis using assms(3) by (auto simp: call_turn_tool_def intro: call_ok_quiet)
next
  case (Some t)
  have c: "(case t of
             LocalTool n \<Rightarrow> local_call R n args w
           | McpTool server n \<Rightarrow> mcp_call R server n args w
           | SkillBuiltin available \<Rightarrow> skill_call R ctx available args w
           | TaskBuiltin depth agents \<Rightarrow> task_call R ctx nested depth args w
           | TodoWriteBuiltin \<Rightarrow> todo_write R args w
           | TodoReadBuiltin \<Rightarrow> todo_read R args w) = (r, w')"
    using assms(3) Some by (simp add: call_turn_tool_def)
  show ?thesis
  proof (cases t)
    case (TaskBuiltin d agents)
    have "d = depth" using assms(2) tool_called_in [OF Some] by (auto simp: at_depth_def TaskBuiltin)
    then show ?thesis using c task_call_ok [OF assms(1)] by (simp add: TaskBuiltin)
  qed (use c in \<open>auto intro: local_call_ok mcp_call_ok skill_call_ok todo_write_ok todo_read_ok\<close>)
qed

section \<open>The stream\<close>

lemma stream_ok:
  assumes call: "\<And>name args w r w'. call name args w = (r, w') \<Longrightarrow> call_ok ctx n w w'"
    and "stream_agent_events run (emit (sc_sink ctx)) call a w = (r, w')"
    and "tells (sc_sink ctx) es v w" "turn_events n es" "replay es = result_of a"
  shows "\<exists>fs. tells (sc_sink ctx) fs v w' \<and>
    (case r of
       Inl m \<Rightarrow> turn_trace n (Inl (TurnLlm m)) fs
     | Inr b \<Rightarrow> turn_trace n (Inr \<lparr>tr_text = ac_text b, tr_calls = ac_calls b\<rparr>) fs)"
  using assms(2-)
proof (induction run arbitrary: a w es)
  case (Yields item rest)
  obtain evs fin b where ap: "acc_apply item a = ((evs, fin), b)" by (metis surj_pair)
  let ?w = "fold (emit (sc_sink ctx)) evs w"
  have t: "tells (sc_sink ctx) (es @ evs) v ?w" using Yields(3) tells_fold_emit tells_trans by blast
  have "turn_events n (es @ evs)"
    using acc_apply_plain [OF ap] by (intro turn_events_append [OF plain_turn_events Yields(4)]) (auto simp: list_all_iff)
  moreover have r: "replay (es @ evs) = result_of b"
    using Yields(5) acc_apply_replays [OF ap] by (simp add: replay_append)
  ultimately show ?case
  proof (cases fin)
    case True
    have "r = Inr b" "w' = emit (sc_sink ctx) Done ?w" using Yields(2) by (simp_all add: ap True Let_def)
    moreover have "turn_trace n (Inr \<lparr>tr_text = ac_text b, tr_calls = ac_calls b\<rparr>) ((es @ evs) @ [Done])"
      by (rule turn_done) (simp_all add: \<open>turn_events n (es @ evs)\<close> r result_of_def)
    ultimately show ?thesis using tells_trans [OF t tells_emit [of "sc_sink ctx" Done]] by auto
  next
    case False
    then show ?thesis
      using Yields(1) [OF _ t \<open>turn_events n (es @ evs)\<close> r] Yields(2) by (simp add: ap Let_def)
  qed
next
  case (Calls name args k)
  obtain x w1 where c: "call name args w = (x, w1)" by fastforce
  obtain evs where evs: "tells (sc_sink ctx) evs w w1" "turn_events n evs" "list_all replay_silent evs"
    using call [OF c] by (auto simp: call_ok_def)
  have "stream_agent_events (k x) (emit (sc_sink ctx)) call a w1 = (r, w')" using Calls(2) by (simp add: c)
  moreover have "replay (es @ evs) = result_of a" using Calls(5) evs(3) by (simp add: replay_append fold_replay_silent)
  ultimately show ?case
    using Calls(1) [OF _ _ tells_trans [OF Calls(3) evs(1)] turn_events_append [OF evs(2) Calls(4)]] by blast
next
  case (Fails m)
  then have "r = Inl m" "w' = emit (sc_sink ctx) (ErrorEv ''VNL-LLM-001'' m) w" by simp_all
  then show ?case using tells_trans [OF Fails(2) tells_emit] turn_failed [OF Fails(3)] by fastforce
next
  case Ends
  then have "r = Inr a" "w' = emit (sc_sink ctx) Done w" by simp_all
  moreover have "turn_trace n (Inr \<lparr>tr_text = ac_text a, tr_calls = ac_calls a\<rparr>) (es @ [Done])"
    using Ends by (intro turn_done) (simp_all add: result_of_def)
  ultimately show ?case using tells_trans [OF Ends(2) tells_emit [of "sc_sink ctx" Done]] by auto
qed

section \<open>Tools and their depth\<close>

definition no_task :: "tool list \<Rightarrow> bool" where
  "no_task tools \<longleftrightarrow> (\<forall>d agents. TaskBuiltin d agents \<notin> set tools)"

lemma connect_pairs_no_task:
  "connect_pairs R ps p w = ((p', fs), w') \<Longrightarrow> no_task (pr_tools p) \<Longrightarrow> no_task (pr_tools p')"
proof (induction R ps p w arbitrary: p' fs w' rule: connect_pairs.induct)
  case (2 R sel server rest p w)
  obtain r w1 where c: "connect_server R server w = (r, w1)" by fastforce
  show ?case
  proof (cases r)
    case (Inl e)
    obtain q gs w2 where n: "connect_pairs R rest p w1 = ((q, gs), w2)" by (metis surj_pair)
    show ?thesis using 2(1) [OF c [symmetric] Inl n] 2(3,4) by (simp add: c Inl n)
  next
    case (Inr names)
    show ?thesis
      by (rule 2(2) [OF c [symmetric] Inr]) (use 2(3,4) in \<open>auto simp: c Inr no_task_def\<close>)
  qed
qed simp

lemma connect_selected_no_task:
  "connect_selected R ctx sels servers p w = (p', w') \<Longrightarrow> no_task (pr_tools p) \<Longrightarrow> no_task (pr_tools p')"
  by (auto simp: connect_selected_def split: prod.splits dest: connect_pairs_no_task)

lemma connect_extra_no_task: "connect_extra R ctx ps p w = (p', w') \<Longrightarrow> no_task (pr_tools p) \<Longrightarrow> no_task (pr_tools p')"
proof (induction R ctx ps p w arbitrary: p' w' rule: connect_extra.induct)
  case (2 R ctx server selection rest p w)
  obtain sels taken where d: "dedupe_mcp_selections [selection] (pr_connected p) = (sels, taken)" by fastforce
  let ?p = "p\<lparr>pr_connected := taken\<rparr>"
  obtain q w1 where s: "(if sels = [] then (?p, w) else connect_selected R ctx sels [server] ?p w) = (q, w1)" by fastforce
  have u: "no_task (pr_tools q)"
    using s 2(3) connect_selected_no_task [of R ctx sels "[server]" ?p w q w1] by (auto split: if_splits)
  have "(q, w1) = (let p = ?p in if sels = [] then (p, w) else connect_selected R ctx sels [server] p w)"
    by (simp add: Let_def s)
  moreover have "connect_extra R ctx rest q w1 = (p', w')" using 2(2) by (simp add: d s Let_def)
  ultimately show ?case using 2(1) [OF d [symmetric]] u by blast
qed simp

lemma no_task_local: "no_task ts \<Longrightarrow> no_task (ts @ map LocalTool ns)"
  by (auto simp: no_task_def)

lemma prepare_toolset_no_task: "prepare_toolset R ctx t p w = (p', w') \<Longrightarrow> no_task (pr_tools p) \<Longrightarrow> no_task (pr_tools p')"
  by (auto simp: prepare_toolset_def no_task_local split: prod.splits dest!: connect_selected_no_task)

lemma prepare_toolsets_no_task: "prepare_toolsets R ctx ts p w = (p', w') \<Longrightarrow> no_task (pr_tools p) \<Longrightarrow> no_task (pr_tools p')"
proof (induction R ctx ts p w arbitrary: p' w' rule: prepare_toolsets.induct)
  case (2 R ctx t ts p w)
  then show ?case by (auto split: prod.splits dest: prepare_toolset_no_task)
qed simp

lemma prepare_turn_no_task: "prepare_turn R ctx t w = (p, w') \<Longrightarrow> no_task (pr_tools p)"
  by (auto simp: prepare_turn_def nothing_prepared_def split: prod.splits dest!: connect_extra_no_task
      dest: prepare_toolsets_no_task) (simp add: no_task_def)

lemma add_builtins_at_depth:
  "add_builtins R ctx skills depth c p = Inr p' \<Longrightarrow> no_task (pr_tools p) \<Longrightarrow> at_depth depth (pr_tools p')"
  by (auto simp: add_builtins_def add_tools_def no_task_def at_depth_def Let_def store_bind_def split: if_splits sum.splits)

section \<open>The turn\<close>

lemma tells_same: "tells s es v w \<Longrightarrow> tw_events w' = tw_events w \<Longrightarrow> tells s es v w'"
  by (simp add: tells_def)

lemma run_stream_tells:
  assumes "\<And>m. sc_depth_max ctx - depth = Suc m \<Longrightarrow> nested_ok m nested" and "at_depth depth (pr_tools p)"
    and "only_unavailable ctx v w" and "run_stream R ctx nested p a history msg w = (r, w')"
  shows "\<exists>es. tells (sc_sink ctx) es v w' \<and> turn_trace (sc_depth_max ctx - depth) r es"
proof -
  let ?w = "w\<lparr>tw_turns := tw_turns w + 1\<rparr>"
  obtain x w1 where st: "stream_agent_events (ru_agent R (tw_turns w) a (pr_tools p) history msg) (emit (sc_sink ctx))
      (call_turn_tool R ctx nested (pr_tools p)) new_accumulator ?w = (x, w1)" by fastforce
  obtain es where es: "tells (sc_sink ctx) es v ?w" "list_all (\<lambda>e. \<exists>s m. e = ToolUnavailable s m) es"
    using assms(3) unfolding only_unavailable_def tells_def by auto
  have "replay es = result_of new_accumulator"
    using fold_replay_silent [of es] es(2) by (force simp: replay_def list_all_iff)
  moreover have "call_ok ctx (sc_depth_max ctx - depth) w w'"
    if "call_turn_tool R ctx nested (pr_tools p) name args w = (r, w')" for name args w r w'
    using call_turn_tool_ok [OF assms(1,2)] that by blast
  ultimately obtain fs where fs: "tells (sc_sink ctx) fs v w1"
    "case x of Inl m \<Rightarrow> turn_trace (sc_depth_max ctx - depth) (Inl (TurnLlm m)) fs
     | Inr b \<Rightarrow> turn_trace (sc_depth_max ctx - depth) (Inr \<lparr>tr_text = ac_text b, tr_calls = ac_calls b\<rparr>) fs"
    using stream_ok [OF _ st es(1) unavailable_turn_events [OF es(2)]] by blast
  have "tells (sc_sink ctx) fs v w'"
    using assms(4) st fs(1) by (auto simp: run_stream_def split: sum.splits intro: tells_same)
  moreover have "turn_trace (sc_depth_max ctx - depth) r fs"
    using assms(4) st fs(2) by (auto simp: run_stream_def split: sum.splits)
  ultimately show ?thesis by blast
qed

lemma build_agent_error: "build_agent R t = Inl e \<Longrightarrow> e \<noteq> TurnLlm m"
  by (auto simp: build_agent_def Let_def split: option.splits)

lemma turn_error_of_cfg_not_llm [simp]: "turn_error_of_cfg e \<noteq> TurnLlm m" "TurnLlm m \<noteq> turn_error_of_cfg e"
  by (cases e; simp)+

lemma store_bind_error: "store_bind x f = Inl e \<Longrightarrow> (\<And>y. f y \<noteq> Inl (TurnLlm m)) \<Longrightarrow> e \<noteq> TurnLlm m"
  by (auto simp: store_bind_def split: sum.splits)

lemma resolve_error: "resolve_turn_context R ov c n ws = Inl e \<Longrightarrow> e \<noteq> TurnLlm m"
  by (auto simp: resolve_turn_context_def store_bind_def split: sum.splits)

lemma add_builtins_error: "add_builtins R ctx skills depth c p = Inl e \<Longrightarrow> e \<noteq> TurnLlm m"
  by (auto simp: add_builtins_def Let_def store_bind_def split: if_splits sum.splits)

lemma refused_tells:
  assumes "only_unavailable ctx v w" "tw_events w' = tw_events w" "\<And>m. e \<noteq> TurnLlm m"
  shows "\<exists>es. tells (sc_sink ctx) es v w' \<and> turn_trace n (Inl e) es"
proof -
  obtain es where "tells (sc_sink ctx) es v w" "list_all (\<lambda>e. \<exists>s m. e = ToolUnavailable s m) es"
    using assms(1) by (auto simp: only_unavailable_def)
  then show ?thesis using assms(2,3) tells_same turn_refused by blast
qed

lemma turn_body_tells:
  assumes "\<And>m. sc_depth_max ctx - depth = Suc m \<Longrightarrow> nested_ok m nested"
    and "turn_body R ctx nested name history msg ws depth w = (r, w')"
  shows "\<exists>es. tells (sc_sink ctx) es w w' \<and> turn_trace (sc_depth_max ctx - depth) r es"
proof (cases "resolve_turn_context (ru_reads R) (sc_model_override ctx) (tw_store w) name ws")
  case (Inl e)
  then have "r = Inl e" "w' = w" using assms(2) by (simp_all add: turn_body_def)
  then show ?thesis using refused_tells [OF only_unavailable_refl _ resolve_error [OF Inl]] by blast
next
  case (Inr t)
  obtain p w1 where p: "prepare_turn R ctx t w = (p, w1)" by fastforce
  note u = prepare_turn_unavailable [OF p]
  show ?thesis
  proof (cases "add_builtins R ctx (rt_skill_index t) depth (tw_store w1) p")
    case (Inl e)
    then have "r = Inl e" "w' = drop_all p w1" using assms(2) Inr p by (simp_all add: turn_body_def)
    then show ?thesis using refused_tells [OF u _ add_builtins_error [OF Inl]] by simp
  next
    case q: (Inr q)
    show ?thesis
    proof (cases "build_agent R t")
      case (Inl e)
      then have "r = Inl e" "w' = drop_all q w1" using assms(2) Inr p q by (simp_all add: turn_body_def)
      then show ?thesis using refused_tells [OF u _ build_agent_error [OF Inl]] by simp
    next
      case a: (Inr a)
      have "run_stream R ctx nested q a history msg w1 = (r, w')"
        using assms(2) Inr p q a by (simp add: turn_body_def)
      from run_stream_tells [OF assms(1) add_builtins_at_depth [OF q prepare_turn_no_task [OF p]] u this]
      show ?thesis .
    qed
  qed
qed

lemma turn_at_depth_tells:
  "\<exists>es. tells (sc_sink ctx) es w (snd (run_agent_turn_at_depth R ctx name history msg ws depth w))
    \<and> turn_trace (sc_depth_max ctx - depth) (fst (run_agent_turn_at_depth R ctx name history msg ws depth w)) es"
proof (induction R ctx name history msg ws depth w rule: run_agent_turn_at_depth.induct)
  case (1 R ctx name history msg ws depth w)
  let ?nested = "\<lambda>s name prompt w.
          if depth < sc_depth_max ctx
          then run_agent_turn_at_depth R (ctx\<lparr>sc_sink := s\<rparr>) name [] prompt None (Suc depth) w
          else (Inl (TurnConfig []), w)"
  have n: "nested_ok m ?nested" if m: "sc_depth_max ctx - depth = Suc m" for m
  proof -
    have d: "depth < sc_depth_max ctx" "sc_depth_max ctx - Suc depth = m" using m by auto
    show ?thesis
      unfolding nested_ok_def
    proof (intro allI)
      fix s name prompt w
      have "\<exists>es. tells (sc_sink (ctx\<lparr>sc_sink := s\<rparr>)) es w
          (snd (run_agent_turn_at_depth R (ctx\<lparr>sc_sink := s\<rparr>) name [] prompt None (Suc depth) w))
        \<and> turn_trace (sc_depth_max (ctx\<lparr>sc_sink := s\<rparr>) - Suc depth)
          (fst (run_agent_turn_at_depth R (ctx\<lparr>sc_sink := s\<rparr>) name [] prompt None (Suc depth) w)) es"
        by (rule 1 [OF d(1)])
      then show "\<exists>es. tells s es w (snd (?nested s name prompt w)) \<and> turn_trace m (fst (?nested s name prompt w)) es"
        by (simp add: d)
    qed
  qed
  obtain r w' where b: "turn_body R ctx ?nested name history msg ws depth w = (r, w')" by fastforce
  have "run_agent_turn_at_depth R ctx name history msg ws depth w = (r, w')"
    by (subst run_agent_turn_at_depth.simps) (rule b)
  then show ?case using turn_body_tells [OF n b] by simp
qed

text \<open>Without the test of the depth, which the tool makes itself.\<close>

lemma task_call_cong:
  "(depth < sc_depth_max ctx \<Longrightarrow> f = g) \<Longrightarrow> task_call R ctx f depth = task_call R ctx g depth"
proof (cases "depth < sc_depth_max ctx")
  case False
  then have "task_body R ctx f depth = task_body R ctx g depth" by (simp add: task_body_def fun_eq_iff)
  then show ?thesis by (intro ext) (simp add: task_call_def)
qed simp

lemma call_turn_tool_cong:
  assumes "depth < sc_depth_max ctx \<Longrightarrow> f = g" and "at_depth depth tools"
  shows "call_turn_tool R ctx f tools = call_turn_tool R ctx g tools"
proof (intro ext)
  fix name args w
  have "task_call R ctx f d args w = task_call R ctx g d args w"
    if "tool_called R tools name = Some (TaskBuiltin d agents)" for d agents
  proof -
    have "d = depth" using tool_called_in [OF that] assms(2) by (auto simp: at_depth_def)
    then show ?thesis using task_call_cong [of depth ctx f g R, OF assms(1)] by simp
  qed
  then show "call_turn_tool R ctx f tools name args w = call_turn_tool R ctx g tools name args w"
    by (simp add: call_turn_tool_def split: option.splits tool.splits)
qed

lemma run_agent_turn_at_depth_eq:
  "run_agent_turn_at_depth R ctx agent_name history user_msg workspace_context depth w =
     turn_body R ctx (\<lambda>s name prompt. run_agent_turn_at_depth R (ctx\<lparr>sc_sink := s\<rparr>) name [] prompt None (Suc depth))
       agent_name history user_msg workspace_context depth w" (is "_ = turn_body R ctx ?g _ _ _ _ _ _")
proof -
  let ?f = "\<lambda>s name prompt w. if depth < sc_depth_max ctx then ?g s name prompt w else (Inl (TurnConfig []), w)"
  have c: "call_turn_tool R ctx ?f tools = call_turn_tool R ctx ?g tools" if "at_depth depth tools" for tools
    by (rule call_turn_tool_cong [OF _ that]) (simp add: fun_eq_iff)
  have "run_stream R ctx ?f p a history user_msg w1 = run_stream R ctx ?g p a history user_msg w1"
    if "at_depth depth (pr_tools p)" for p a w1
    unfolding run_stream_def c [OF that] ..
  then have "turn_body R ctx ?f agent_name history user_msg workspace_context depth w =
      turn_body R ctx ?g agent_name history user_msg workspace_context depth w"
    unfolding turn_body_def
    by (auto split: sum.splits prod.splits dest!: add_builtins_at_depth [OF _ prepare_turn_no_task])
  then show ?thesis by (subst run_agent_turn_at_depth.simps)
qed

text \<open>C2: Whatever the model does and whatever fails, the events a turn tells its sink follow the grammar of turns: a turn ends with one final event, an end if it succeeds and an error if its stream fails, and without either if it is refused before; a subagent's turn lies between its start and its end, under its identifier, and the end tells how it went; subagents are nested no deeper than the limit; and the result of a turn is what a client makes of its events.\<close>

theorem turn_tells_its_story:
  "\<exists>es. tells (sc_sink ctx) es w (snd (run_agent_turn R ctx name history msg ws w))
    \<and> turn_trace (sc_depth_max ctx) (fst (run_agent_turn R ctx name history msg ws w)) es
    \<and> list_all (\<lambda>e. nesting e \<le> sc_depth_max ctx) es"
proof -
  obtain es where "tells (sc_sink ctx) es w (snd (run_agent_turn R ctx name history msg ws w))"
    "turn_trace (sc_depth_max ctx) (fst (run_agent_turn R ctx name history msg ws w)) es"
    using turn_at_depth_tells [of ctx w R name history msg ws 0] by (auto simp: run_agent_turn_def)
  then show ?thesis using trace_nesting(2) by blast
qed

end
