(* ===== verification/SessionTools.thy ===== *)
theory SessionTools
  imports SessionTurn "HOL-Library.Sublist"
begin

text \<open>
  The tools and connections of a turn: the agent gets the tools its toolsets select and no others,
  each server is contacted at most once while a turn is prepared, and every connection that was
  opened is released by the end of the turn, also of the turns of subagents.
\<close>

section \<open>Connections are released\<close>

text \<open>\<open>ns\<close> leaves open the connections \<open>rs\<close>.\<close>

definition leaves_open :: "string list \<Rightarrow> net_event list \<Rightarrow> bool" where
  "leaves_open rs ns \<longleftrightarrow>
     (\<forall>x. count_list ns (Opened x) = count_list ns (Cancelled x) + count_list ns (Dropped x) + count_list rs x)"

lemma leaves_open_Nil [simp]: "leaves_open [] []"
  by (simp add: leaves_open_def)

lemma leaves_open_append: "leaves_open rs ns \<Longrightarrow> leaves_open qs ms \<Longrightarrow> leaves_open (rs @ qs) (ns @ ms)"
  by (simp add: leaves_open_def)

lemma count_list_map_other [simp]: "(\<And>y. f y \<noteq> x) \<Longrightarrow> count_list (map f ys) x = 0"
  by (induction ys) auto

lemma count_list_map_inj: "inj f \<Longrightarrow> count_list (map f ys) (f x) = count_list ys x"
  by (induction ys) (auto simp: inj_eq)

lemma leaves_open_release:
  assumes "leaves_open rs ns"
  shows "leaves_open [] (ns @ map Cancelled rs)" "leaves_open [] (ns @ map Dropped rs)"
  using assms by (simp_all add: leaves_open_def count_list_map_inj inj_def)

definition settled :: "'c turn_world \<Rightarrow> 'c turn_world \<Rightarrow> bool" where
  "settled w w' \<longleftrightarrow> (\<exists>ns. tw_net w' = tw_net w @ ns \<and> leaves_open [] ns)"

lemma settled_same [simp]: "tw_net w' = tw_net w \<Longrightarrow> settled w w'"
  by (simp add: settled_def)

lemma settled_trans: "settled w w1 \<Longrightarrow> settled w1 w2 \<Longrightarrow> settled w w2"
  unfolding settled_def using leaves_open_append [of "[]" _ "[]"] by force

text \<open>While preparing, what is open is what is running.\<close>

definition opens :: "prepared \<Rightarrow> 'c turn_world \<Rightarrow> prepared \<Rightarrow> 'c turn_world \<Rightarrow> bool" where
  "opens p w p' w' \<longleftrightarrow>
     (\<exists>ns rs. tw_net w' = tw_net w @ ns \<and> pr_running p' = pr_running p @ rs \<and> leaves_open rs ns)"

lemma opens_same: "tw_net w' = tw_net w \<Longrightarrow> pr_running p' = pr_running p \<Longrightarrow> opens p w p' w'"
  by (simp add: opens_def)

lemma opens_trans: "opens p w p1 w1 \<Longrightarrow> opens p1 w1 p2 w2 \<Longrightarrow> opens p w p2 w2"
  unfolding opens_def using leaves_open_append by force

lemma connect_server_opens:
  assumes "connect_server R server w = (r, w')"
  shows "case r of Inl e \<Rightarrow> opens p w p w'
    | Inr names \<Rightarrow> opens p w (p\<lparr>pr_tools := ts, pr_running := pr_running p @ [srv_name server]\<rparr>) w'"
  using assms
  by (auto simp: connect_server_def net_def opens_def leaves_open_def Let_def split: mcp_transport.splits connect_outcome.splits)

lemma connect_pairs_opens: "connect_pairs R ps p w = ((p', fs), w') \<Longrightarrow> opens p w p' w'"
proof (induction R ps p w arbitrary: p' fs w' rule: connect_pairs.induct)
  case (2 R sel server rest p w)
  obtain r w1 where c: "connect_server R server w = (r, w1)" by fastforce
  show ?case
  proof (cases r)
    case (Inl e)
    obtain q gs w2 where n: "connect_pairs R rest p w1 = ((q, gs), w2)" by (metis surj_pair)
    have "opens p w p w1" using connect_server_opens [OF c] by (simp add: Inl)
    then show ?thesis using 2(1) [OF c [symmetric] Inl n] 2(3) by (auto simp: c Inl n intro: opens_trans)
  next
    case (Inr names)
    let ?q = "p\<lparr>pr_tools := pr_tools p @ map (McpTool server) (filter (tool_matches R (sel_tools sel)) names),
      pr_running := pr_running p @ [srv_name server]\<rparr>"
    have o': "opens p w ?q w1" using connect_server_opens [OF c] by (simp add: Inr)
    have "connect_pairs R rest ?q w1 = ((p', fs), w')" using 2(3) by (simp add: c Inr)
    with opens_trans [OF o' 2(2) [OF c [symmetric] Inr]] show ?thesis by blast
  qed
qed (simp add: opens_same)

lemma tw_net_fold_emit [simp]: "tw_net (fold (\<lambda>(server, reason). emit s (ToolUnavailable server reason)) fs w) = tw_net w"
  by (induction fs arbitrary: w) auto

lemma connect_selected_opens:
  assumes "connect_selected R ctx sels servers p w = (p', w')"
  shows "opens p w p' w'"
proof -
  obtain q fs w1 where c: "connect_pairs R (selected_servers sels servers) p w = ((q, fs), w1)" by (metis surj_pair)
  have "p' = q" "tw_net w' = tw_net w1" using assms by (auto simp: connect_selected_def c)
  then show ?thesis using connect_pairs_opens [OF c] by (simp add: opens_def)
qed

text \<open>The step of \<open>connect_extra\<close>.\<close>

definition extra_step :: "('c, 'm) runtime \<Rightarrow> session_context \<Rightarrow> mcp_server \<Rightarrow> mcp_selection \<Rightarrow> prepared \<Rightarrow> 'c turn_world
    \<Rightarrow> prepared \<times> 'c turn_world" where
  "extra_step R ctx server selection p w =
     (case dedupe_mcp_selections [selection] (pr_connected p) of
        (selections, taken) \<Rightarrow>
          let p = p\<lparr>pr_connected := taken\<rparr> in if selections = [] then (p, w) else connect_selected R ctx selections [server] p w)"

lemma connect_extra_step:
  "connect_extra R ctx ((server, selection) # rest) p w =
     (case extra_step R ctx server selection p w of (p, w) \<Rightarrow> connect_extra R ctx rest p w)"
  by (simp add: extra_step_def case_prod_beta' Let_def)

lemma connect_extra_opens: "connect_extra R ctx ps p w = (p', w') \<Longrightarrow> opens p w p' w'"
proof (induction ps arbitrary: p w)
  case (Cons x ps)
  obtain server selection where x: "x = (server, selection)" by fastforce
  obtain q w1 where s: "extra_step R ctx server selection p w = (q, w1)" by fastforce
  obtain sels taken where d: "dedupe_mcp_selections [selection] (pr_connected p) = (sels, taken)" by fastforce
  have "opens (p\<lparr>pr_connected := taken\<rparr>) w q w1"
    using s connect_selected_opens by (auto simp: extra_step_def d Let_def opens_same split: if_splits)
  then have "opens p w q w1" by (simp add: opens_def)
  moreover have "connect_extra R ctx ps q w1 = (p', w')"
    using Cons(2) unfolding x connect_extra_step s by simp
  ultimately show ?case using Cons(1) opens_trans by blast
qed (simp add: opens_same)

lemma prepare_toolset_opens: "prepare_toolset R ctx t p w = (p', w') \<Longrightarrow> opens p w p' w'"
  by (auto simp: prepare_toolset_def split: prod.splits dest!: connect_selected_opens) (simp add: opens_def)

lemma prepare_toolsets_opens: "prepare_toolsets R ctx ts p w = (p', w') \<Longrightarrow> opens p w p' w'"
proof (induction R ctx ts p w arbitrary: p' w' rule: prepare_toolsets.induct)
  case (2 R ctx t ts p w)
  then show ?case by (auto split: prod.splits dest: prepare_toolset_opens intro: opens_trans)
qed (simp add: opens_same)

lemma prepare_turn_opens: "prepare_turn R ctx t w = (p, w') \<Longrightarrow> opens nothing_prepared w p w'"
  by (auto simp: prepare_turn_def split: prod.splits dest: connect_extra_opens prepare_toolsets_opens intro: opens_trans)

lemma add_builtins_running: "add_builtins R ctx skills depth c p = Inr p' \<Longrightarrow> pr_running p' = pr_running p"
  by (auto simp: add_builtins_def add_tools_def Let_def store_bind_def split: if_splits sum.splits)

text \<open>Calls, the stream and the turns inside.\<close>

definition nested_settled :: "(sink \<Rightarrow> string \<Rightarrow> string \<Rightarrow> 'c turn_world \<Rightarrow> 'c turn_outcome) \<Rightarrow> bool" where
  "nested_settled nested \<longleftrightarrow> (\<forall>s name prompt w. settled w (snd (nested s name prompt w)))"

lemma with_tool_args_settled:
  assumes "\<And>a r w'. body a w = (r, w') \<Longrightarrow> settled w w'" and "with_tool_args R args read body w = (r, w')"
  shows "settled w w'"
  using assms by (auto simp: with_tool_args_def split: sum.splits)

lemma run_subagent_settled:
  assumes "nested_settled nested" "run_subagent R ctx nested name prompt w = (r, w')"
  shows "settled w w'"
proof -
  let ?s = "sc_sink ctx" and ?i = "ru_uuid R (tw_ids w)"
  let ?w = "emit ?s (SubagentStart ?i name prompt) (w\<lparr>tw_ids := tw_ids w + 1\<rparr>)"
  obtain x v where n: "nested (SubagentSink ?s ?i) name prompt ?w = (x, v)" by fastforce
  have "settled ?w v" using assms(1) n unfolding nested_settled_def by (metis snd_conv)
  moreover have "tw_net w' = tw_net v" using assms(2) n by (auto simp: run_subagent_def Let_def split: sum.splits)
  moreover have "tw_net ?w = tw_net w" by simp
  ultimately show ?thesis by (simp add: settled_def)
qed

lemma call_turn_tool_settled:
  assumes "nested_settled nested" "call_turn_tool R ctx nested tools name args w = (r, w')"
  shows "settled w w'"
proof -
  have "settled w w'" if "task_call R ctx nested d args w = (r, w')" for d
    using that unfolding task_call_def
    by (rule with_tool_args_settled [rotated])
      (auto simp: task_body_def split: if_splits sum.splits intro: run_subagent_settled [OF assms(1)])
  moreover have "settled w w'" if "skill_call R ctx av args w = (r, w')" for av
    using that unfolding skill_call_def
    by (rule with_tool_args_settled [rotated]) (auto simp: skill_body_def split: if_splits sum.splits)
  moreover have "settled w w'" if "todo_write R args w = (r, w')"
    using that unfolding todo_write_def by (rule with_tool_args_settled [rotated]) auto
  moreover have "settled w w'" if "todo_read R args w = (r, w')"
    using that unfolding todo_read_def by (rule with_tool_args_settled [rotated]) auto
  moreover have "settled w w'" if "local_call R n args w = (r, w')" for n
    using that by (auto simp: local_call_def split: prod.splits)
  moreover have "settled w w'" if "mcp_call R v n args w = (r, w')" for v n
    using that by (auto simp: mcp_call_def Let_def split: prod.splits sum.splits)
  ultimately show ?thesis
    using assms(2) by (auto simp: call_turn_tool_def split: option.splits tool.splits)
qed

lemma tw_net_fold [simp]: "tw_net (fold (emit s) es w) = tw_net w"
  by (induction es arbitrary: w) auto

lemma stream_settled:
  assumes "\<And>name args w r w'. call name args w = (r, w') \<Longrightarrow> settled w w'"
    and "stream_agent_events run (emit s) call a w = (r, w')"
  shows "settled w w'"
  using assms(2)
proof (induction run arbitrary: a w)
  case (Yields item rest)
  obtain evs fin b where ap: "acc_apply item a = ((evs, fin), b)" by (metis surj_pair)
  show ?case
  proof (cases fin)
    case False
    then have "settled (fold (emit s) evs w) w'" using Yields by (auto simp: ap Let_def)
    then show ?thesis by (simp add: settled_def)
  qed (use Yields(2) in \<open>auto simp: ap Let_def\<close>)
next
  case (Calls name args k)
  obtain x w1 where c: "call name args w = (x, w1)" by fastforce
  have "stream_agent_events (k x) (emit s) call a w1 = (r, w')" using Calls(2) by (simp add: c)
  then show ?case using Calls(1) settled_trans [OF assms(1) [OF c]] by blast
qed auto

lemma settled_by_release:
  assumes "opens nothing_prepared w p w1" "settled w1 w2"
    and "tw_net w' = tw_net w2 @ map Cancelled (pr_running p) \<or> tw_net w' = tw_net w2 @ map Dropped (pr_running p)"
  shows "settled w w'"
proof -
  obtain ns where ns: "tw_net w1 = tw_net w @ ns" "leaves_open (pr_running p) ns"
    using assms(1) by (auto simp: opens_def nothing_prepared_def)
  obtain ms where ms: "tw_net w2 = tw_net w1 @ ms" "leaves_open [] ms" using assms(2) by (auto simp: settled_def)
  have "leaves_open (pr_running p) (ns @ ms)" using leaves_open_append [OF ns(2) ms(2)] by simp
  then show ?thesis
    using assms(3) leaves_open_release unfolding settled_def ns(1) ms(1) by (metis append.assoc)
qed

lemma turn_body_settled:
  assumes "nested_settled nested" "turn_body R ctx nested name history msg ws depth w = (r, w')"
  shows "settled w w'"
proof (cases "resolve_turn_context (ru_reads R) (sc_model_override ctx) (tw_store w) name ws")
  case (Inr t)
  obtain p w1 where p: "prepare_turn R ctx t w = (p, w1)" by fastforce
  note o' = prepare_turn_opens [OF p]
  show ?thesis
  proof (cases "add_builtins R ctx (rt_skill_index t) depth (tw_store w1) p")
    case (Inl e)
    then have "w' = drop_all p w1" using assms(2) Inr p by (simp add: turn_body_def)
    then show ?thesis using settled_by_release [OF o' settled_same] by simp
  next
    case q: (Inr q)
    have o2: "opens nothing_prepared w q w1" using o' add_builtins_running [OF q] by (simp add: opens_def)
    show ?thesis
    proof (cases "build_agent R t")
      case (Inl e)
      then have "w' = drop_all q w1" using assms(2) Inr p q by (simp add: turn_body_def)
      then show ?thesis using settled_by_release [OF o2 settled_same] by simp
    next
      case a: (Inr a)
      let ?w = "w1\<lparr>tw_turns := tw_turns w1 + 1\<rparr>"
      obtain x w2 where st: "stream_agent_events (ru_agent R (tw_turns w1) a (pr_tools q) history msg) (emit (sc_sink ctx))
          (call_turn_tool R ctx nested (pr_tools q)) new_accumulator ?w = (x, w2)" by fastforce
      have "settled ?w w2" using stream_settled [OF call_turn_tool_settled [OF assms(1)] st] by simp
      then have "settled w1 w2" by (simp add: settled_def)
      moreover have "w' = cancel_all q w2"
        using assms(2) Inr p q a st by (auto simp: turn_body_def run_stream_def split: sum.splits)
      ultimately show ?thesis using settled_by_release [OF o2] by simp
    qed
  qed
qed (use assms(2) in \<open>simp add: turn_body_def\<close>)

lemma turn_at_depth_settled: "settled w (snd (run_agent_turn_at_depth R ctx name history msg ws depth w))"
proof (induction R ctx name history msg ws depth w rule: run_agent_turn_at_depth.induct)
  case (1 R ctx name history msg ws depth w)
  let ?nested = "\<lambda>s name prompt w.
          if depth < sc_depth_max ctx
          then run_agent_turn_at_depth R (ctx\<lparr>sc_sink := s\<rparr>) name [] prompt None (Suc depth) w
          else (Inl (TurnConfig []), w)"
  have n: "nested_settled ?nested"
    unfolding nested_settled_def using 1 by simp
  obtain r w' where b: "turn_body R ctx ?nested name history msg ws depth w = (r, w')" by fastforce
  have "run_agent_turn_at_depth R ctx name history msg ws depth w = (r, w')"
    by (subst run_agent_turn_at_depth.simps) (rule b)
  then show ?case using turn_body_settled [OF n b] by simp
qed


section \<open>Servers are contacted once\<close>

fun contacted :: "net_event list \<Rightarrow> string list" where
  "contacted [] = []"
| "contacted (Contacted x # ns) = x # contacted ns"
| "contacted (e # ns) = contacted ns"

lemma contacted_append [simp]: "contacted (ns @ ms) = contacted ns @ contacted ms"
proof (induction ns)
  case (Cons e ns)
  then show ?case by (cases e) auto
qed simp

text \<open>Going on contacts new servers of names that were not taken, each once, and takes their names.\<close>

definition contacts :: "string set \<Rightarrow> 'c turn_world \<Rightarrow> string set \<Rightarrow> 'c turn_world \<Rightarrow> bool" where
  "contacts A w B w' \<longleftrightarrow> A \<subseteq> B \<and> (\<exists>ns. tw_net w' = tw_net w @ ns \<and> distinct (contacted ns) \<and>
     set (contacted ns) \<subseteq> B - A)"

lemma contacts_trans: "contacts A w B v \<Longrightarrow> contacts B v C u \<Longrightarrow> contacts A w C u"
proof -
  assume a: "contacts A w B v" and b: "contacts B v C u"
  obtain ns ms where ns: "tw_net v = tw_net w @ ns" "distinct (contacted ns)" "set (contacted ns) \<subseteq> B - A"
    and ms: "tw_net u = tw_net v @ ms" "distinct (contacted ms)" "set (contacted ms) \<subseteq> C - B"
    and s: "A \<subseteq> B" "B \<subseteq> C"
    using a b unfolding contacts_def by blast
  have "tw_net u = tw_net w @ (ns @ ms)" "distinct (contacted (ns @ ms))" "set (contacted (ns @ ms)) \<subseteq> C - A"
    using ns ms s by auto
  then show ?thesis using s unfolding contacts_def by blast
qed

lemma contacts_none: "tw_net w' = tw_net w \<Longrightarrow> A \<subseteq> B \<Longrightarrow> contacts A w B w'"
  by (simp add: contacts_def)

lemma connect_server_contacted:
  "connect_server R server w = (r, w') \<Longrightarrow> \<exists>ns. tw_net w' = tw_net w @ ns \<and> contacted ns \<in> {[], [srv_name server]}"
  by (auto simp: connect_server_def net_def Let_def split: mcp_transport.splits connect_outcome.splits)

lemma connect_pairs_contacts:
  assumes "connect_pairs R ps p w = ((p', fs), w')" "distinct (map (\<lambda>q. srv_name (snd q)) ps)"
  shows "pr_connected p' = pr_connected p \<and> (\<exists>ns. tw_net w' = tw_net w @ ns \<and> distinct (contacted ns) \<and>
    set (contacted ns) \<subseteq> srv_name ` snd ` set ps)"
  using assms
proof (induction R ps p w arbitrary: p' fs w' rule: connect_pairs.induct)
  case (2 R sel server rest p w)
  obtain r w1 where c: "connect_server R server w = (r, w1)" by fastforce
  obtain ns where ns: "tw_net w1 = tw_net w @ ns" "contacted ns \<in> {[], [srv_name server]}"
    using connect_server_contacted [OF c] by auto
  have d: "distinct (map (\<lambda>q. srv_name (snd q)) rest)" "srv_name server \<notin> srv_name ` snd ` set rest" using 2(4) by auto
  obtain ms where ms: "pr_connected p' = pr_connected p" "tw_net w' = tw_net w1 @ ms" "distinct (contacted ms)"
      "set (contacted ms) \<subseteq> srv_name ` snd ` set rest"
  proof (cases r)
    case (Inl e)
    obtain q gs w2 where n: "connect_pairs R rest p w1 = ((q, gs), w2)" by (metis surj_pair)
    then have "p' = q" "w' = w2" using 2(3) by (simp_all add: c Inl)
    then show thesis using 2(1) [OF c [symmetric] Inl n d(1)] that by blast
  next
    case (Inr names)
    then show thesis using 2(2) [OF c [symmetric] Inr _ d(1)] 2(3) that by (simp add: c) blast
  qed
  show ?case
  proof (intro conjI exI [of _ "ns @ ms"])
    show "distinct (contacted (ns @ ms))" using ns(2) ms(3,4) d(2) by auto
    show "set (contacted (ns @ ms)) \<subseteq> srv_name ` snd ` set ((sel, server) # rest)" using ns(2) ms(4) by auto
  qed (simp_all add: ms ns)
qed simp

lemma find_SomeD: "List.find P xs = Some x \<Longrightarrow> x \<in> set xs \<and> P x"
  by (induction xs) (auto split: if_splits)

lemma selected_servers_names: "(s, v) \<in> set (selected_servers ss vs) \<Longrightarrow> s \<in> set ss \<and> v \<in> set vs \<and> srv_name v = sel_server s"
  by (induction ss vs rule: selected_servers.induct) (auto split: option.splits dest: find_SomeD)

lemma selected_servers_distinct:
  "distinct (map sel_server ss) \<Longrightarrow> distinct (map (\<lambda>q. srv_name (snd q)) (selected_servers ss vs))"
proof (induction ss vs rule: selected_servers.induct)
  case (2 s ss vs)
  then show ?case by (auto split: option.splits dest!: find_SomeD selected_servers_names) (metis image_eqI)
qed simp

lemma dedupe_by_spec:
  "dedupe_by f xs taken = (ys, taken') \<Longrightarrow>
     distinct (map f ys) \<and> (\<forall>y \<in> set ys. f y \<notin> taken) \<and> taken' = taken \<union> set (map f xs) \<and> set ys \<subseteq> set xs"
proof (induction f xs taken arbitrary: ys taken' rule: dedupe_by.induct)
  case (2 f x xs taken)
  show ?case
  proof (cases "f x \<in> taken")
    case False
    obtain zs t where z: "dedupe_by f xs (insert (f x) taken) = (zs, t)" by fastforce
    then show ?thesis using 2(2) [OF False z] 2(3) False by auto metis
  qed (use 2 in auto)
qed simp

lemma connect_selected_contacts:
  assumes "connect_selected R ctx sels vs p w = (p', w')" "dedupe_mcp_selections xs A = (sels, pr_connected p)"
  shows "pr_connected p' = pr_connected p \<and> contacts A w (pr_connected p) w'"
proof -
  obtain q fs w1 where c: "connect_pairs R (selected_servers sels vs) p w = ((q, fs), w1)" by (metis surj_pair)
  have d: "distinct (map sel_server sels)" "\<forall>y \<in> set sels. sel_server y \<notin> A" "pr_connected p = A \<union> set (map sel_server xs)"
      "set sels \<subseteq> set xs"
    using dedupe_by_spec assms(2) unfolding dedupe_mcp_selections_def by blast+
  obtain ns where ns: "pr_connected q = pr_connected p" "tw_net w1 = tw_net w @ ns" "distinct (contacted ns)"
      "set (contacted ns) \<subseteq> srv_name ` snd ` set (selected_servers sels vs)"
    using connect_pairs_contacts [OF c selected_servers_distinct [OF d(1)]] by blast
  have "p' = q" "tw_net w' = tw_net w1" using assms(1) by (auto simp: connect_selected_def c)
  moreover have "srv_name ` snd ` set (selected_servers sels vs) \<subseteq> sel_server ` set sels"
    by (force dest: selected_servers_names)
  moreover have "sel_server ` set sels \<subseteq> pr_connected p - A" using d(2-4) by auto
  ultimately have "tw_net w' = tw_net w @ ns" "set (contacted ns) \<subseteq> pr_connected p - A" "A \<subseteq> pr_connected p"
    using ns(2,4) d(3) by auto
  then show ?thesis using ns(1,3) \<open>p' = q\<close> unfolding contacts_def by blast
qed

lemma extra_step_contacts:
  assumes "extra_step R ctx server selection p w = (p', w')"
  shows "contacts (pr_connected p) w (pr_connected p') w'"
proof -
  obtain sels taken where d: "dedupe_mcp_selections [selection] (pr_connected p) = (sels, taken)" by fastforce
  let ?p = "p\<lparr>pr_connected := taken\<rparr>"
  show ?thesis
  proof (cases "sels = []")
    case True
    then have "p' = ?p" "w' = w" using assms by (simp_all add: extra_step_def d)
    moreover have "pr_connected p \<subseteq> taken" using dedupe_by_spec d unfolding dedupe_mcp_selections_def by blast
    ultimately show ?thesis by (simp add: contacts_none)
  next
    case False
    then have "connect_selected R ctx sels [server] ?p w = (p', w')" using assms by (simp add: extra_step_def d)
    from connect_selected_contacts [OF this] d show ?thesis by simp
  qed
qed

lemma connect_extra_contacts: "connect_extra R ctx ps p w = (p', w') \<Longrightarrow> contacts (pr_connected p) w (pr_connected p') w'"
proof (induction ps arbitrary: p w)
  case (Cons x ps)
  obtain server selection where x: "x = (server, selection)" by fastforce
  obtain q w1 where s: "extra_step R ctx server selection p w = (q, w1)" by fastforce
  have "connect_extra R ctx ps q w1 = (p', w')" using Cons(2) unfolding x connect_extra_step s by simp
  then show ?case using Cons(1) contacts_trans [OF extra_step_contacts [OF s]] by blast
qed (simp add: contacts_none)

lemma prepare_toolset_contacts:
  assumes "prepare_toolset R ctx t p w = (p', w')"
  shows "contacts (pr_connected p) w (pr_connected p') w'"
proof -
  obtain found missing where f: "select_local_tools (ts_local_tools t) (sc_local_tools ctx) = (found, missing)" by fastforce
  obtain ns added where a: "dedupe_local_tool_names found (pr_added p) = (ns, added)" by fastforce
  obtain sels taken where d: "dedupe_mcp_selections (ts_mcp t) (pr_connected p) = (sels, taken)" by fastforce
  let ?p = "p\<lparr>pr_tools := pr_tools p @ map LocalTool ns, pr_added := added, pr_connected := taken\<rparr>"
  have "connect_selected R ctx sels (known_servers R (tw_store w) sels) ?p w = (p', w')"
    using assms by (simp add: prepare_toolset_def f a d)
  from connect_selected_contacts [OF this] d show ?thesis by simp
qed

lemma prepare_toolsets_contacts: "prepare_toolsets R ctx ts p w = (p', w') \<Longrightarrow> contacts (pr_connected p) w (pr_connected p') w'"
proof (induction R ctx ts p w arbitrary: p' w' rule: prepare_toolsets.induct)
  case (2 R ctx t ts p w)
  obtain q w1 where s: "prepare_toolset R ctx t p w = (q, w1)" by fastforce
  then show ?case using 2(1) [OF s [symmetric]] 2(2) contacts_trans [OF prepare_toolset_contacts [OF s]] by simp
qed (simp add: contacts_none)

lemma prepare_turn_contacts:
  assumes "prepare_turn R ctx t w = (p, w')"
  shows "\<exists>ns. tw_net w' = tw_net w @ ns \<and> distinct (contacted ns)"
proof -
  obtain q w1 where q: "connect_extra R ctx (sc_extra_mcp ctx) nothing_prepared w = (q, w1)" by fastforce
  then have "prepare_toolsets R ctx (rt_toolsets t) q w1 = (p, w')" using assms by (simp add: prepare_turn_def)
  from contacts_trans [OF connect_extra_contacts [OF q] prepare_toolsets_contacts [OF this]]
  show ?thesis by (auto simp: contacts_def)
qed

section \<open>An agent gets what its toolsets select\<close>

definition mcp_selected :: "('c, 'm) runtime \<Rightarrow> mcp_selection list \<Rightarrow> mcp_server \<Rightarrow> string \<Rightarrow> bool" where
  "mcp_selected R sels v name \<longleftrightarrow> (\<exists>s \<in> set sels. sel_server s = srv_name v \<and> tool_matches R (sel_tools s) name)"

definition all_selections :: "session_context \<Rightarrow> toolset list \<Rightarrow> mcp_selection list" where
  "all_selections ctx ts = map snd (sc_extra_mcp ctx) @ concat (map ts_mcp ts)"

fun tool_selected :: "('c, 'm) runtime \<Rightarrow> session_context \<Rightarrow> toolset list \<Rightarrow> tool \<Rightarrow> bool" where
  "tool_selected R ctx ts (LocalTool n) \<longleftrightarrow> n \<in> set (sc_local_tools ctx) \<and> n \<in> set (concat (map ts_local_tools ts))"
| "tool_selected R ctx ts (McpTool v n) \<longleftrightarrow> mcp_selected R (all_selections ctx ts) v n"
| "tool_selected R ctx ts t \<longleftrightarrow> False"

fun local_name :: "tool \<Rightarrow> string option" where
  "local_name (LocalTool n) = Some n"
| "local_name t = None"

definition local_names :: "tool list \<Rightarrow> string list" where
  "local_names ts = List.map_filter local_name ts"

lemma local_names_simps [simp]:
  "local_names [] = []" "local_names (ts @ us) = local_names ts @ local_names us"
  "local_names (map LocalTool ns) = ns" "local_names (map (McpTool v) ns) = []"
  by (induction ns) (simp_all add: local_names_def List.map_filter_def)

text \<open>What holds while preparing: every tool is selected, and every local one is there once.\<close>

definition well_prepared :: "('c, 'm) runtime \<Rightarrow> session_context \<Rightarrow> toolset list \<Rightarrow> prepared \<Rightarrow> bool" where
  "well_prepared R ctx ts p \<longleftrightarrow> list_all (tool_selected R ctx ts) (pr_tools p) \<and>
     distinct (local_names (pr_tools p)) \<and> set (local_names (pr_tools p)) \<subseteq> pr_added p"

lemma connect_pairs_well_prepared:
  assumes "connect_pairs R ps p w = ((p', fs), w')" "well_prepared R ctx ts p"
    and "\<forall>(s, v) \<in> set ps. s \<in> set (all_selections ctx ts) \<and> srv_name v = sel_server s"
  shows "well_prepared R ctx ts p'"
  using assms
proof (induction R ps p w arbitrary: p' fs w' rule: connect_pairs.induct)
  case (2 R sel server rest p w)
  obtain r w1 where c: "connect_server R server w = (r, w1)" by fastforce
  show ?case
  proof (cases r)
    case (Inl e)
    obtain q gs w2 where n: "connect_pairs R rest p w1 = ((q, gs), w2)" by (metis surj_pair)
    then show ?thesis using 2(1) [OF c [symmetric] Inl n] 2(3-5) by (simp add: c Inl)
  next
    case (Inr names)
    let ?q = "p\<lparr>pr_tools := pr_tools p @ map (McpTool server) (filter (tool_matches R (sel_tools sel)) names),
      pr_running := pr_running p @ [srv_name server]\<rparr>"
    have "well_prepared R ctx ts ?q"
      using 2(4,5) by (auto simp: well_prepared_def list_all_iff mcp_selected_def)
    then show ?thesis using 2(2) [OF c [symmetric] Inr] 2(3,5) by (simp add: c Inr)
  qed
qed simp

lemma connect_selected_well_prepared:
  assumes "connect_selected R ctx sels vs p w = (p', w')" "well_prepared R ctx ts p" "set sels \<subseteq> set (all_selections ctx ts)"
  shows "well_prepared R ctx ts p'"
proof -
  obtain q fs w1 where c: "connect_pairs R (selected_servers sels vs) p w = ((q, fs), w1)" by (metis surj_pair)
  have "well_prepared R ctx ts q"
    by (rule connect_pairs_well_prepared [OF c assms(2)]) (use assms(3) selected_servers_names in fast)
  then show ?thesis using assms(1) by (simp add: connect_selected_def c)
qed

lemma extra_step_well_prepared:
  assumes "extra_step R ctx server selection p w = (p', w')" "well_prepared R ctx ts p" "(server, selection) \<in> set (sc_extra_mcp ctx)"
  shows "well_prepared R ctx ts p'"
proof -
  obtain sels taken where d: "dedupe_mcp_selections [selection] (pr_connected p) = (sels, taken)" by fastforce
  let ?p = "p\<lparr>pr_connected := taken\<rparr>"
  have p: "well_prepared R ctx ts ?p" using assms(2) by (simp add: well_prepared_def)
  have "set sels \<subseteq> set [selection]" using dedupe_by_spec [OF d [unfolded dedupe_mcp_selections_def]] by blast
  then have s: "set sels \<subseteq> set (all_selections ctx ts)" using assms(3) by (force simp: all_selections_def)
  show ?thesis
    using assms(1) p connect_selected_well_prepared [OF _ p s] by (auto simp: extra_step_def d Let_def split: if_splits)
qed

lemma connect_extra_well_prepared:
  "connect_extra R ctx ps p w = (p', w') \<Longrightarrow> well_prepared R ctx ts p \<Longrightarrow> set ps \<subseteq> set (sc_extra_mcp ctx) \<Longrightarrow> well_prepared R ctx ts p'"
proof (induction ps arbitrary: p w)
  case (Cons x ps)
  obtain server selection where x: "x = (server, selection)" by fastforce
  obtain q w1 where s: "extra_step R ctx server selection p w = (q, w1)" by fastforce
  have "connect_extra R ctx ps q w1 = (p', w')" using Cons(2) unfolding x connect_extra_step s by simp
  then show ?case using Cons(1) [OF _ extra_step_well_prepared [OF s Cons(3)]] Cons(4) by (simp add: x)
qed simp

lemma prepare_toolset_well_prepared:
  assumes "prepare_toolset R ctx t p w = (p', w')" "well_prepared R ctx ts p" "t \<in> set ts"
  shows "well_prepared R ctx ts p'"
proof -
  let ?found = "filter (\<lambda>n. n \<in> set (sc_local_tools ctx)) (ts_local_tools t)"
  obtain ns added where a: "dedupe_local_tool_names ?found (pr_added p) = (ns, added)" by fastforce
  obtain sels taken where d: "dedupe_mcp_selections (ts_mcp t) (pr_connected p) = (sels, taken)" by fastforce
  let ?p = "p\<lparr>pr_tools := pr_tools p @ map LocalTool ns, pr_added := added, pr_connected := taken\<rparr>"
  have n: "distinct ns" "\<forall>y \<in> set ns. y \<notin> pr_added p" "added = pr_added p \<union> set ?found" "set ns \<subseteq> set ?found"
    using dedupe_by_spec [OF a [unfolded dedupe_local_tool_names_def]] by simp_all
  have "list_all (tool_selected R ctx ts) (map LocalTool ns)" using n(4) assms(3) unfolding list_all_iff by fastforce
  moreover have "set (local_names (pr_tools p)) \<subseteq> pr_added p" "distinct (local_names (pr_tools p))"
    "list_all (tool_selected R ctx ts) (pr_tools p)" using assms(2) by (simp_all add: well_prepared_def)
  moreover have "set ns \<inter> set (local_names (pr_tools p)) = {}" "set ns \<subseteq> added" "pr_added p \<subseteq> added"
    using n(2-4) calculation(2) by blast+
  ultimately have p: "well_prepared R ctx ts ?p" using n(1) unfolding well_prepared_def by auto
  have "set sels \<subseteq> set (ts_mcp t)" using dedupe_by_spec d unfolding dedupe_mcp_selections_def by blast
  then have s: "set sels \<subseteq> set (all_selections ctx ts)" using assms(3) by (force simp: all_selections_def)
  have "connect_selected R ctx sels (known_servers R (tw_store w) sels) ?p w = (p', w')"
    using assms(1) by (simp add: prepare_toolset_def select_local_tools_def a d)
  from connect_selected_well_prepared [OF this p s] show ?thesis .
qed

lemma prepare_toolsets_well_prepared:
  "prepare_toolsets R ctx us p w = (p', w') \<Longrightarrow> well_prepared R ctx ts p \<Longrightarrow> set us \<subseteq> set ts \<Longrightarrow> well_prepared R ctx ts p'"
proof (induction R ctx us p w arbitrary: p' w' rule: prepare_toolsets.induct)
  case (2 R ctx t us p w)
  obtain q w1 where s: "prepare_toolset R ctx t p w = (q, w1)" by fastforce
  then show ?case using 2(1) [OF s [symmetric]] 2(2-4) prepare_toolset_well_prepared [OF s 2(3)] by simp
qed simp

lemma prepare_turn_well_prepared:
  assumes "prepare_turn R ctx t w = (p, w')"
  shows "well_prepared R ctx (rt_toolsets t) p"
proof -
  obtain q w1 where q: "connect_extra R ctx (sc_extra_mcp ctx) nothing_prepared w = (q, w1)" by fastforce
  have "well_prepared R ctx (rt_toolsets t) nothing_prepared" by (simp add: well_prepared_def nothing_prepared_def)
  from connect_extra_well_prepared [OF q this] have w: "well_prepared R ctx (rt_toolsets t) q" by simp
  have "prepare_toolsets R ctx (rt_toolsets t) q w1 = (p, w')" using assms q by (simp add: prepare_turn_def)
  from prepare_toolsets_well_prepared [OF this w] show ?thesis by simp
qed

text \<open>Of two selections of one server, though in one toolset, the second is ignored with its patterns.\<close>

lemma second_selection_ignored:
  "sel_server s = sel_server t \<Longrightarrow> fst (dedupe_mcp_selections [s, t] {}) = [s]"
  by (simp add: dedupe_mcp_selections_def)


end
