(* ===== verification/SessionPrompt.thy ===== *)
theory SessionPrompt
  imports Session CfgStoreSpec
begin

text \<open>
  What a turn resolves to on the in-memory store: the agent, its model, provider and toolsets, or
  the reference that leads nowhere; and the prompt as the sections that are not empty, in order.
\<close>

section \<open>The prompt, flat\<close>

lemma join_str_Cons: "xs \<noteq> [] \<Longrightarrow> join_str sep (x # xs) = x @ sep @ join_str sep xs"
  by (cases xs) auto

lemma join_str_append:
  "xs \<noteq> [] \<Longrightarrow> ys \<noteq> [] \<Longrightarrow> join_str sep (xs @ ys) = join_str sep xs @ sep @ join_str sep ys"
  by (induction sep xs rule: join_str.induct) (auto simp: join_str_Cons)

lemma join_str_nested:
  assumes "ys \<noteq> []"
  shows "join_str sep (xs @ join_str sep ys # zs) = join_str sep (xs @ ys @ zs)"
proof -
  have "join_str sep (join_str sep ys # zs) = join_str sep (ys @ zs)"
    using assms join_str_append [of ys zs sep] by (cases zs) (auto simp: join_str_Cons)
  then show ?thesis using assms join_str_append [of xs] by (cases xs) auto
qed

lemma join_str_Nil_iff: "list_all (\<lambda>x. x \<noteq> []) xs \<Longrightarrow> join_str sep xs = [] \<longleftrightarrow> xs = []"
  by (induction sep xs rule: join_str.induct) auto

text \<open>A section of the prompt, empty if there is none.\<close>

definition section_of :: "string option \<Rightarrow> string" where
  "section_of p = (case p of None \<Rightarrow> [] | Some s \<Rightarrow> str_trim s)"

definition skills_section :: "skill_selection \<Rightarrow> skill_meta list \<Rightarrow> string" where
  "skills_section selection skills =
     join_with nl (map (\<lambda>s. index_line (sk_name s) (sk_description s)) (resolve_skill_index selection skills))"

definition prompt_sections :: "agent \<Rightarrow> string list \<Rightarrow> skill_meta list \<Rightarrow> string option \<Rightarrow> string list" where
  "prompt_sections a toolset_prompts skills ctx =
     str_trim (ag_system_prompt a) # toolset_prompts @ [skills_section (ag_skills a) skills, section_of ctx]"

abbreviation present :: "string list \<Rightarrow> string list" where
  "present \<equiv> filter (\<lambda>s. s \<noteq> [])"

definition named_prompt :: "toolset list \<Rightarrow> string \<Rightarrow> string" where
  "named_prompt ts name = (case toolset_prompt ts name of None \<Rightarrow> [] | Some p \<Rightarrow> p)"

lemma toolset_prompt_nonempty: "toolset_prompt ts name \<noteq> Some []"
  by (auto simp: toolset_prompt_def bind_eq_Some_conv Let_def)

lemma toolset_sections_acc:
  "toolset_sections ts names acc =
     (if present (map (named_prompt ts) names) = [] then acc
      else (if acc = [] then [] else acc @ two_nl) @ join_str two_nl (present (map (named_prompt ts) names)))"
proof (induction ts names acc rule: toolset_sections.induct)
  case (2 ts name names acc)
  show ?case
  proof (cases "toolset_prompt ts name")
    case None
    then have "named_prompt ts name = []" by (simp add: named_prompt_def)
    then show ?thesis using 2(1) [OF None] None by simp
  next
    case (Some p)
    then have "p \<noteq> []" using toolset_prompt_nonempty by metis
    moreover have "named_prompt ts name = p" using Some by (simp add: named_prompt_def)
    ultimately show ?thesis using 2(2) [OF Some] Some by (simp add: join_str_Cons)
  qed
qed simp

lemma skills_section_Nil: "resolve_skill_index sel skills = [] \<longleftrightarrow> skills_section sel skills = []"
  by (cases "resolve_skill_index sel skills" rule: remdups_adj.cases)
    (simp_all add: skills_section_def index_line_def)

lemma assemble_flat:
  "assemble_system_prompt a ts skills ctx =
     join_str two_nl (present (prompt_sections a (map (named_prompt ts) (ag_toolsets a)) skills ctx))"
proof -
  let ?ps = "present (map (named_prompt ts) (ag_toolsets a))"
  let ?s = "present [str_trim (ag_system_prompt a)]" and ?k = "present [skills_section (ag_skills a) skills]"
    and ?c = "present [section_of ctx]"
  have t: "toolset_sections ts (ag_toolsets a) [] = join_str two_nl ?ps" by (simp add: toolset_sections_acc)
  have n: "join_str two_nl ?ps = [] \<longleftrightarrow> ?ps = []" by (intro join_str_Nil_iff) (simp add: list_all_iff)
  have "assemble_system_prompt a ts skills ctx =
      join_str two_nl (?s @ (if ?ps = [] then [] else [join_str two_nl ?ps]) @ ?k @ ?c)"
    unfolding assemble_system_prompt_def Let_def t
    by (simp add: push_section_def n skills_section_Nil section_of_def skills_section_def [symmetric] split: option.split)
  also have "\<dots> = join_str two_nl (?s @ ?ps @ ?k @ ?c)"
  proof (cases "?ps = []")
    case False
    then show ?thesis using join_str_nested [OF False, of two_nl ?s "?k @ ?c"] by (simp only: if_False append_Cons append_Nil)
  qed (simp only: simp_thms if_True append_Nil)
  finally show ?thesis by (simp add: prompt_sections_def)
qed

section \<open>Resolution on the in-memory store\<close>

lemma get_cases:
  assumes "store_ok s"
  shows "get_agent s n = Inl e \<Longrightarrow> e = UnknownReference ''agent'' n \<and> n \<notin> ag_name ` set (cs_agents s)"
    "get_model s n = Inl e \<Longrightarrow> e = UnknownReference ''model'' n \<and> n \<notin> mp_name ` set (cs_models s)"
    "get_provider s n = Inl e \<Longrightarrow> e = UnknownReference ''provider'' n \<and> n \<notin> prov_name ` set (cs_providers s)"
    "get_toolset s n = Inl e \<Longrightarrow> e = UnknownReference ''toolset'' n \<and> n \<notin> ts_name ` set (cs_toolsets s)"
proof -
  have n: "provs.names_ok s" "mods.names_ok s" "tsets.names_ok s" "ags.names_ok s"
    using assms by (simp_all add: store_ok_def)
  show "get_agent s n = Inl e \<Longrightarrow> e = UnknownReference ''agent'' n \<and> n \<notin> ag_name ` set (cs_agents s)"
    using ags.lookup_cases [OF n(4), of n] unfolding get_lookup by (auto split: if_splits)
  show "get_model s n = Inl e \<Longrightarrow> e = UnknownReference ''model'' n \<and> n \<notin> mp_name ` set (cs_models s)"
    using mods.lookup_cases [OF n(2), of n] unfolding get_lookup by (auto split: if_splits)
  show "get_provider s n = Inl e \<Longrightarrow> e = UnknownReference ''provider'' n \<and> n \<notin> prov_name ` set (cs_providers s)"
    using provs.lookup_cases [OF n(1), of n] unfolding get_lookup by (auto split: if_splits)
  show "get_toolset s n = Inl e \<Longrightarrow> e = UnknownReference ''toolset'' n \<and> n \<notin> ts_name ` set (cs_toolsets s)"
    using tsets.lookup_cases [OF n(3), of n] unfolding get_lookup by (auto split: if_splits)
qed

lemma resolve_by_name_Inr: "resolve_by_name nm xs k n = Inr x \<Longrightarrow> x \<in> set xs \<and> nm x = n"
proof -
  assume r: "resolve_by_name nm xs k n = Inr x"
  then have "filter (\<lambda>x. nm x = n) xs = [x]" by (auto simp: resolve_by_name_def split: list.splits)
  then have "x \<in> set (filter (\<lambda>x. nm x = n) xs)" by simp
  then show ?thesis by simp
qed

lemma get_toolsets_Inr:
  "get_toolsets memory_reads s names = Inr ts \<Longrightarrow> map ts_name ts = names \<and> list_all (\<lambda>t. get_toolset s (ts_name t) = Inr t) ts"
proof (induction "memory_reads" s names arbitrary: ts rule: get_toolsets.induct)
  case (2 s name names)
  then obtain t us where t: "get_toolset s name = Inr t" "get_toolsets memory_reads s names = Inr us" "ts = t # us"
    by (auto simp: memory_reads_def split: sum.splits)
  have "ts_name t = name" using t(1) by (auto simp: get_toolset_def dest: resolve_by_name_Inr)
  moreover have "map ts_name us = names \<and> list_all (\<lambda>t. get_toolset s (ts_name t) = Inr t) us"
    using 2(1) t by (simp add: memory_reads_def)
  ultimately show ?case using t by simp
qed simp

lemma get_toolsets_Inl:
  "get_toolsets memory_reads s names = Inl e \<Longrightarrow> \<exists>n \<in> set names. get_toolset s n = Inl e"
proof (induction "memory_reads" s names rule: get_toolsets.induct)
  case (2 s name names)
  then show ?case by (auto simp: memory_reads_def split: sum.splits)
qed simp

lemma named_prompt_resolved:
  assumes "list_all (\<lambda>t. get_toolset s (ts_name t) = Inr t) ts" "t \<in> set ts"
  shows "named_prompt ts (ts_name t) = section_of (ts_prompt t)"
proof -
  obtain u where u: "List.find (\<lambda>u. ts_name u = ts_name t) ts = Some u" "u \<in> set ts" "ts_name u = ts_name t"
    using assms(2) by (cases "List.find (\<lambda>u. ts_name u = ts_name t) ts")
      (auto simp: find_None_iff find_Some_iff)
  then have "get_toolset s (ts_name t) = Inr u" "get_toolset s (ts_name t) = Inr t"
    using assms unfolding list_all_iff by metis+
  then have "u = t" by simp
  then show ?thesis
    using u(1) by (simp add: named_prompt_def toolset_prompt_def section_of_def Let_def split: option.split)
qed

text \<open>The references of an agent that a turn follows, by kind.\<close>

definition missing_reference :: "cfg_store \<Rightarrow> string \<Rightarrow> string \<Rightarrow> bool" where
  "missing_reference s kind n \<longleftrightarrow>
     kind = ''agent'' \<and> n \<notin> ag_name ` set (cs_agents s) \<or> kind = ''model'' \<and> n \<notin> mp_name ` set (cs_models s) \<or>
     kind = ''provider'' \<and> n \<notin> prov_name ` set (cs_providers s) \<or> kind = ''toolset'' \<and> n \<notin> ts_name ` set (cs_toolsets s)"

lemma resolve_on_store:
  assumes "store_ok s"
  shows "case resolve_turn_context memory_reads ov s name ctx of
      Inl e \<Rightarrow> (\<exists>kind n. e = TurnUnknown kind n \<and> missing_reference s kind n)
    | Inr t \<Rightarrow> (\<exists>a. a \<in> set (cs_agents s) \<and> ag_name a = name
        \<and> rt_profile t \<in> set (cs_models s) \<and> mp_name (rt_profile t) = (case ov of None \<Rightarrow> ag_model a | Some m \<Rightarrow> m)
        \<and> rt_provider t \<in> set (cs_providers s) \<and> prov_name (rt_provider t) = mp_provider (rt_profile t)
        \<and> set (rt_toolsets t) \<subseteq> set (cs_toolsets s) \<and> map ts_name (rt_toolsets t) = ag_toolsets a
        \<and> rt_skill_index t = resolve_skill_index (ag_skills a) (cs_skills s)
        \<and> rt_prompt t = join_str two_nl (present
            (prompt_sections a (map (\<lambda>t. section_of (ts_prompt t)) (rt_toolsets t)) (cs_skills s) ctx)))"
proof (cases "get_agent s name")
  case (Inl e)
  then show ?thesis using get_cases(1) [OF assms Inl]
    by (auto simp: resolve_turn_context_def memory_reads_def store_bind_def missing_reference_def)
next
  case a: (Inr a)
  let ?m = "case ov of Some name \<Rightarrow> name | None \<Rightarrow> ag_model a"
  show ?thesis
  proof (cases "get_model s ?m")
    case (Inl e)
    then show ?thesis using get_cases(2) [OF assms Inl] a
      by (auto simp: resolve_turn_context_def memory_reads_def store_bind_def missing_reference_def)
  next
    case m: (Inr m)
    show ?thesis
    proof (cases "get_provider s (mp_provider m)")
      case (Inl e)
      then show ?thesis using get_cases(3) [OF assms Inl] a m
        by (auto simp: resolve_turn_context_def memory_reads_def store_bind_def missing_reference_def)
    next
      case v: (Inr v)
      show ?thesis
      proof (cases "get_toolsets memory_reads s (ag_toolsets a)")
        case (Inl e)
        obtain n where "e = UnknownReference ''toolset'' n" "n \<notin> ts_name ` set (cs_toolsets s)"
          using get_toolsets_Inl [OF Inl] get_cases(4) [OF assms] by blast
        then show ?thesis using Inl a m v
          by (auto simp: resolve_turn_context_def memory_reads_def store_bind_def missing_reference_def)
      next
        case ts: (Inr ts)
        note g = get_toolsets_Inr [OF ts]
        have p: "map (named_prompt ts) (ag_toolsets a) = map (\<lambda>t. section_of (ts_prompt t)) ts"
          using g named_prompt_resolved by (auto simp flip: conjunct1 [OF g])
        have r: "resolve_turn_context memory_reads ov s name ctx = Inr \<lparr>rt_profile = m, rt_provider = v, rt_toolsets = ts,
            rt_prompt = assemble_system_prompt a ts (cs_skills s) ctx, rt_skill_index = resolve_skill_index (ag_skills a) (cs_skills s)\<rparr>"
          using a m v ts by (simp add: resolve_turn_context_def memory_reads_def store_bind_def)
        have "set ts \<subseteq> set (cs_toolsets s)"
          using g by (auto simp: list_all_iff get_toolset_def dest: resolve_by_name_Inr)
        moreover have "a \<in> set (cs_agents s)" "ag_name a = name" "m \<in> set (cs_models s)" "mp_name m = ?m"
          "v \<in> set (cs_providers s)" "prov_name v = mp_provider m"
          using a m v resolve_by_name_Inr unfolding get_agent_def get_model_def get_provider_def by metis+
        ultimately show ?thesis using g p unfolding r by (auto simp: assemble_flat intro!: exI [of _ a] split: option.splits)
      qed
    qed
  qed
qed

text \<open>On a configuration made by any sequence of operations, an agent resolves to its own model (or the one the host asked for), that model's provider and its toolsets in their order, and its prompt is the sections that are not blank, trimmed and in order: its own prompt, those of its toolsets, the index of its skills and the context; or it does not, and then the error names a reference that does not exist.\<close>

theorem agents_resolve:
  "case resolve_turn_context memory_reads ov (cfg_exec ops cfg_new) name ctx of
      Inl e \<Rightarrow> (\<exists>kind n. e = TurnUnknown kind n \<and> missing_reference (cfg_exec ops cfg_new) kind n)
    | Inr t \<Rightarrow> (\<exists>a. a \<in> set (cs_agents (cfg_exec ops cfg_new)) \<and> ag_name a = name
        \<and> rt_profile t \<in> set (cs_models (cfg_exec ops cfg_new))
        \<and> mp_name (rt_profile t) = (case ov of None \<Rightarrow> ag_model a | Some m \<Rightarrow> m)
        \<and> rt_provider t \<in> set (cs_providers (cfg_exec ops cfg_new)) \<and> prov_name (rt_provider t) = mp_provider (rt_profile t)
        \<and> set (rt_toolsets t) \<subseteq> set (cs_toolsets (cfg_exec ops cfg_new)) \<and> map ts_name (rt_toolsets t) = ag_toolsets a
        \<and> rt_skill_index t = resolve_skill_index (ag_skills a) (cs_skills (cfg_exec ops cfg_new))
        \<and> rt_prompt t = join_str two_nl (present
            (prompt_sections a (map (\<lambda>t. section_of (ts_prompt t)) (rt_toolsets t)) (cs_skills (cfg_exec ops cfg_new)) ctx)))"
  by (rule resolve_on_store) (simp add: cfg_exec_ok cfg_new_ok)

end
