(* ===== verification/LspWire.thy ===== *)
theory LspWire
  imports NumText
begin

text \<open>
  The wire of a language server (\<open>sandbox/src/lsp.rs\<close>): messages framed by a \<open>Content-Length\<close>
  header, the incremental decoder of a stream that arrives in chunks, and what the decoder makes
  of the frames the encoder writes. Strings are byte strings.
\<close>

section \<open>Encoding\<close>

definition crlf2 :: string where
  "crlf2 = [cr, nl, cr, nl]"

definition encode_message :: "string \<Rightarrow> string" where
  "encode_message payload = ''Content-Length: '' @ show_nat (length payload) @ crlf2 @ payload"

section \<open>Decoding\<close>

text \<open>\<open>windows(n).position(|w| w == pat)\<close>.\<close>

fun window_position :: "'a list \<Rightarrow> 'a list \<Rightarrow> nat option" where
  "window_position pat [] = (if pat = [] then Some 0 else None)"
| "window_position pat (x # xs) =
     (if take (length pat) (x # xs) = pat then Some 0 else map_option Suc (window_position pat xs))"

text \<open>One line of a header: the length it announces, if it announces one.\<close>

definition header_length :: "string \<Rightarrow> nat option" where
  "header_length line =
     (case strip_prefix ''content-length:'' (map ascii_lower (str_trim line)) of
        None \<Rightarrow> None
      | Some v \<Rightarrow> parse_uint U64_MAX (str_trim v))"

text \<open>\<open>header.lines().find_map(...)\<close>.\<close>

fun find_map :: "('a \<Rightarrow> 'b option) \<Rightarrow> 'a list \<Rightarrow> 'b option" where
  "find_map f [] = None"
| "find_map f (x # xs) = (case f x of Some y \<Rightarrow> Some y | None \<Rightarrow> find_map f xs)"

definition content_length :: "string \<Rightarrow> nat option" where
  "content_length header = find_map header_length (str_lines header)"

record frame_reader =
  fr_buf :: string

definition new_reader :: frame_reader where
  "new_reader = \<lparr>fr_buf = []\<rparr>"

definition push :: "string \<Rightarrow> frame_reader \<Rightarrow> frame_reader" where
  "push chunk r = r\<lparr>fr_buf := fr_buf r @ chunk\<rparr>"

definition next_frame :: "frame_reader \<Rightarrow> string option \<times> frame_reader" where
  "next_frame r =
     (let buf = fr_buf r in
      case window_position crlf2 buf of
        None \<Rightarrow> (None, r)
      | Some pos \<Rightarrow>
          (let body_start = pos + 4 in
           case content_length (take pos buf) of
             None \<Rightarrow> (None, r)
           | Some n \<Rightarrow>
               if U64_MAX < body_start + n then (None, r)
               else if length buf < body_start + n then (None, r)
               else (Some (take n (drop body_start buf)), r\<lparr>fr_buf := drop (body_start + n) buf\<rparr>)))"

lemma next_frame_shrinks:
  assumes "next_frame r = (Some p, r')" shows "length (fr_buf r') < length (fr_buf r)"
  using assms by (auto simp: next_frame_def Let_def split: option.splits if_splits)

text \<open>The reader task after a chunk: \<open>while let Some(payload) = frame_reader.next_frame()\<close>.\<close>

function drain :: "frame_reader \<Rightarrow> string list \<times> frame_reader" where
  "drain r =
     (case next_frame r of
        (None, r') \<Rightarrow> ([], r')
      | (Some p, r') \<Rightarrow> (let (ps, r'') = drain r' in (p # ps, r'')))"
  by pat_completeness auto
termination
  by (relation "measure (\<lambda>r. length (fr_buf r))") (auto intro: next_frame_shrinks [OF sym])

declare drain.simps [simp del]

fun read_chunks :: "frame_reader \<Rightarrow> string list \<Rightarrow> string list \<times> frame_reader" where
  "read_chunks r [] = ([], r)"
| "read_chunks r (c # cs) =
     (let (ps, r') = drain (push c r); (qs, r'') = read_chunks r' cs in (ps @ qs, r''))"


section \<open>Chunks do not matter\<close>

lemma window_position_bound: "window_position pat s = Some n \<Longrightarrow> n + length pat \<le> length s"
proof (induction pat s arbitrary: n rule: window_position.induct)
  case (2 pat x xs)
  have "length pat \<le> length (x # xs)" if "take (length pat) (x # xs) = pat"
    using that by (metis length_take min.cobounded1)
  with 2 show ?case by (fastforce split: if_splits)
qed (auto split: if_splits)

lemma window_position_append:
  "window_position pat s = Some n \<Longrightarrow> window_position pat (s @ t) = Some n"
proof (induction pat s arbitrary: n rule: window_position.induct)
  case (2 pat x xs)
  from window_position_bound [OF 2(2)] have "length pat \<le> length (x # xs)" by simp
  then have "take (length pat) ((x # xs) @ t) = take (length pat) (x # xs)" by (cases "length pat") simp_all
  with 2 show ?case by (auto split: if_splits)
next
  case (1 pat)
  then show ?case by (cases t) (auto split: if_splits)
qed

lemma next_frame_push:
  assumes "next_frame r = (Some p, r')"
  shows "next_frame (push x r) = (Some p, push x r')"
proof -
  from assms obtain pos n where w: "window_position crlf2 (fr_buf r) = Some pos"
    and n: "content_length (take pos (fr_buf r)) = Some n" "pos + 4 + n \<le> U64_MAX" "pos + 4 + n \<le> length (fr_buf r)"
    and p: "p = take n (drop (pos + 4) (fr_buf r))" "r' = r\<lparr>fr_buf := drop (pos + 4 + n) (fr_buf r)\<rparr>"
    by (auto simp: next_frame_def Let_def split: option.splits if_splits)
  from n(3) have "pos \<le> length (fr_buf r)" by simp
  then show ?thesis
    using w n p by (auto simp: next_frame_def push_def Let_def window_position_append)
qed

lemma push_push [simp]: "push y (push x r) = push (x @ y) r"
  by (simp add: push_def)

lemma push_Nil [simp]: "push [] r = r"
  by (simp add: push_def)

lemma drain_push:
  "drain (push x r) = (let (ps, r') = drain r; (qs, r'') = drain (push x r') in (ps @ qs, r''))"
proof (induction r rule: drain.induct)
  case (1 r)
  show ?case
  proof (cases "next_frame r")
    case (Pair f r1)
    show ?thesis
    proof (cases f)
      case None
      then have "r1 = r" using Pair by (auto simp: next_frame_def Let_def split: option.splits if_splits)
      then have "drain r = ([], r)" using Pair None by (subst drain.simps) simp
      then show ?thesis by simp
    next
      case (Some p)
      with 1 [OF Pair [symmetric] Some] Pair next_frame_push [of r p r1 x] show ?thesis
        by (subst (1 2) drain.simps) (simp add: Let_def split: prod.splits)
    qed
  qed
qed

text \<open>The frames handed on, and what is kept for later, depend on the bytes only, not on how they arrive.\<close>

lemma read_chunks_concat:
  "drain r = ([], r) \<Longrightarrow> read_chunks r cs = drain (push (concat cs) r)"
proof (induction cs arbitrary: r)
  case (Cons c cs)
  obtain ps r' where d: "drain (push c r) = (ps, r')" by (cases "drain (push c r)")
  have e: "drain r' = ([], r')" using drain_push [of "[]" "push c r"] d by (simp add: split: prod.splits)
  show ?case using Cons(1) [OF e] d drain_push [of "concat cs" "push c r"] by (simp split: prod.splits)
qed simp

section \<open>Decoding what was encoded\<close>

lemma window_position_header: "cr \<notin> set h \<Longrightarrow> window_position crlf2 (h @ crlf2 @ s) = Some (length h)"
  by (induction h) (auto simp: crlf2_def)

lemma ascii_lower_digit: "is_digit c \<Longrightarrow> ascii_lower c = c"
  by (simp add: is_digit_def ascii_lower_def)

lemma map_ascii_lower_nat [simp]: "map ascii_lower (show_nat n) = show_nat n"
  using show_nat_digits [of n] by (simp add: ascii_lower_digit map_idI)

lemma header_prefix: "map ascii_lower ''Content-Length:'' = ''content-length:''"
  by code_simp

lemma str_trim_space:
  assumes "s \<noteq> []" "visible_ascii (hd s)" "visible_ascii (last s)"
  shows "str_trim (CHR 0x20 # s) = s"
proof -
  have "str_trim_start (CHR 0x20 # s) = str_trim_start s"
    unfolding str_trim_start_def by (subst trim_start_seqs.simps) (simp add: strip_any_space)
  then show ?thesis using str_trim_visible [OF assms] by (simp add: str_trim_def)
qed

lemma content_length_header:
  assumes "n \<le> U64_MAX" shows "content_length (''Content-Length: '' @ show_nat n) = Some n"
proof -
  let ?h = "''Content-Length: '' @ show_nat n"
  have v: "visible_ascii c" if "c \<in> set (show_nat n)" for c using that show_nat_visible by blast
  then have l: "visible_ascii (hd (show_nat n))" "visible_ascii (last (show_nat n))" by simp_all
  have h: "?h = ''Content-Length:'' @ CHR 0x20 # show_nat n" by simp
  have "str_trim ?h = ?h" using l(2) by (intro str_trim_visible) (simp_all add: visible_ascii_def)
  moreover have "nl \<notin> set ?h" using v [of nl] by (auto simp: visible_ascii_def)
  moreover have "map ascii_lower ?h = ''content-length:'' @ CHR 0x20 # show_nat n"
    unfolding h map_append header_prefix by (simp add: ascii_lower_def)
  moreover have "strip_prefix ''content-length:'' (''content-length:'' @ CHR 0x20 # show_nat n) = Some (CHR 0x20 # show_nat n)"
    by (rule strip_prefix_append)
  ultimately have "header_length ?h = Some n" using assms str_trim_space [OF _ l]
    by (simp only: header_length_def option.case parse_show_nat show_nat_nonempty not_False_eq_True if_True)
  then show ?thesis using \<open>nl \<notin> set ?h\<close> by (simp add: content_length_def str_lines_last)
qed

lemma next_frame_encoded:
  assumes "length (encode_message p) \<le> U64_MAX"
  shows "next_frame \<lparr>fr_buf = encode_message p @ s\<rparr> = (Some p, \<lparr>fr_buf = s\<rparr>)"
proof -
  let ?h = "''Content-Length: '' @ show_nat (length p)"
  have b: "encode_message p @ s = ?h @ crlf2 @ p @ s" by (simp add: encode_message_def)
  have "cr \<notin> set ?h" using show_nat_visible [of cr] by (auto simp: visible_ascii_def)
  then have w: "window_position crlf2 (encode_message p @ s) = Some (length ?h)"
    unfolding b by (rule window_position_header)
  have l: "length (encode_message p) = length ?h + 4 + length p" by (simp add: encode_message_def crlf2_def)
  with assms have c: "content_length ?h = Some (length p)" by (intro content_length_header) simp
  have t: "take (length ?h) (encode_message p @ s) = ?h" unfolding b by simp
  have d: "drop (length ?h + 4) (encode_message p @ s) = p @ s"
    unfolding b drop_drop [symmetric, of 4] add.commute [of "length ?h"] by (simp add: crlf2_def)
  have e: "drop (length ?h + 4 + length p) (encode_message p @ s) = s"
    using arg_cong [OF d, of "drop (length p)"] by (simp del: drop_append add: add.commute add.left_commute) simp
  show ?thesis using w c t d e assms l by (simp add: next_frame_def Let_def)
qed

lemma drain_encoded:
  assumes "\<forall>p \<in> set ps. length (encode_message p) \<le> U64_MAX"
  shows "drain \<lparr>fr_buf = concat (map encode_message ps)\<rparr> = (ps, new_reader)"
  using assms
proof (induction ps)
  case Nil
  show ?case by (subst drain.simps) (simp add: next_frame_def new_reader_def crlf2_def)
next
  case (Cons p ps)
  then show ?case by (subst drain.simps) (simp add: next_frame_encoded)
qed

lemma read_encoded:
  assumes "concat chunks = concat (map encode_message ps)"
    and "\<forall>p \<in> set ps. length (encode_message p) \<le> U64_MAX"
  shows "read_chunks new_reader chunks = (ps, new_reader)"
proof -
  have "drain new_reader = ([], new_reader)" using drain_encoded [of "[]"] by (simp add: new_reader_def)
  from read_chunks_concat [OF this] assms drain_encoded [of ps] show ?thesis
    by (simp add: push_def new_reader_def)
qed

text \<open>C28: The decoder gives back exactly the messages a writer framed, in their order, however the
  operating system cuts the stream into chunks, and keeps nothing: chunks may end inside a
  header, inside its terminator or inside a body, or hold several messages. Every framed message
  has to fit the address space.
\<close>

theorem frames_survive_chunking:
  assumes "concat chunks = concat (map encode_message ps)"
    and "\<forall>p \<in> set ps. length (encode_message p) \<le> U64_MAX"
  shows "read_chunks new_reader chunks = (ps, new_reader)"
  using assms by (rule read_encoded)

lemma frames_survive_chunking_witness:
  "read_chunks new_reader
     [''Content-Len'', ''gth: 2'' @ [cr], [nl, cr], [nl, CHR ''{'', CHR ''}''] @ ''Content-Length: 0'' @ [cr, nl], [cr, nl]]
   = ([''{}'', []], new_reader)"
proof (rule frames_survive_chunking)
  show "concat [''Content-Len'', ''gth: 2'' @ [cr], [nl, cr], [nl, CHR ''{'', CHR ''}''] @ ''Content-Length: 0'' @ [cr, nl], [cr, nl]]
    = concat (map encode_message [''{}'', []])"
    by code_simp
  show "\<forall>p \<in> set [''{}'', []]. length (encode_message p) \<le> U64_MAX"
    by (simp add: encode_message_def crlf2_def show_nat_small U64_MAX_def)
qed

section \<open>A header that announces no length\<close>

text \<open>
  A header without a readable length is never taken out of the buffer: whatever follows, the
  decoder hands on nothing more, and the buffer keeps growing.
\<close>

lemma bad_header_blocks:
  assumes "window_position crlf2 (fr_buf r) = Some pos" and "content_length (take pos (fr_buf r)) = None"
  shows "read_chunks r cs = ([], push (concat cs) r)"
proof -
  have d: "drain (push x r) = ([], push x r)" for x
  proof -
    have "pos \<le> length (fr_buf r)" using window_position_bound [OF assms(1)] by simp
    then have "next_frame (push x r) = (None, push x r)"
      using assms by (simp add: next_frame_def push_def Let_def window_position_append)
    then show ?thesis by (subst drain.simps) simp
  qed
  show ?thesis
    using read_chunks_concat [of r cs] d [of "[]"] d [of "concat cs"] by simp
qed

end
