(* ===== verification/LspMerge.thy ===== *)
theory LspMerge
  imports ToolArgs BTree
begin

text \<open>
  The pure part of the language-server multiplexer (\<open>sandbox/src/lsp.rs\<close>): the servers a
  toolchain consists of, which requests go to several of them, and how their answers become one.
  An answer of a server is \<open>Some\<close> of its result, or \<open>None\<close> when it failed or died. The
  warnings logged about answers of an unexpected form are not modelled.
\<close>

section \<open>Toolchains and roles\<close>

record lsp_aux =
  ax_role :: string
  ax_bin :: string
  ax_args :: "string list"
  ax_init_options :: "string json"

record lsp_toolchain =
  tc_name :: string
  tc_bin :: string
  tc_args :: "string list"
  tc_aux :: "lsp_aux list"

definition known_aux_roles :: "string list" where
  "known_aux_roles = [''tsserver-forward'', ''diagnostics-merge'']"

definition is_known_aux_role :: "string \<Rightarrow> bool" where
  "is_known_aux_role role \<longleftrightarrow> role \<in> set known_aux_roles"

definition aux_answers_requests :: "string \<Rightarrow> bool" where
  "aux_answers_requests role \<longleftrightarrow> role = ''tsserver-forward''"

text \<open>The list of toolchains as serde reads it.\<close>

fun arg_all :: "('a \<Rightarrow> arg_error + 'b) \<Rightarrow> 'a list \<Rightarrow> arg_error + 'b list" where
  "arg_all f [] = Inr []"
| "arg_all f (x # xs) = arg_bind (f x) (\<lambda>y. arg_bind (arg_all f xs) (\<lambda>ys. Inr (y # ys)))"

definition field_list :: "(string json \<Rightarrow> arg_error + 'a) \<Rightarrow> string json \<Rightarrow> string \<Rightarrow> arg_error + 'a list" where
  "field_list f v k =
     (case jget k v of
        None \<Rightarrow> Inl (MissingField k)
      | Some (JArr xs) \<Rightarrow> arg_all f xs
      | Some x \<Rightarrow> Inl (WrongType k x))"

definition item_string :: "string json \<Rightarrow> arg_error + string" where
  "item_string v = (case v of JStr s \<Rightarrow> Inr s | _ \<Rightarrow> Inl (WrongType [] v))"

definition json_aux :: "string json \<Rightarrow> arg_error + lsp_aux" where
  "json_aux v = obj_args [''role'', ''bin'', ''args'', ''initOptions''] v (\<lambda>v.
     arg_bind (field_string v ''role'') (\<lambda>r. arg_bind (field_string v ''bin'') (\<lambda>b.
     arg_bind (field_list item_string v ''args'') (\<lambda>a.
       Inr \<lparr>ax_role = r, ax_bin = b, ax_args = a,
         ax_init_options = (case jget ''initOptions'' v of None \<Rightarrow> JNull | Some j \<Rightarrow> j)\<rparr>))))"

definition json_toolchain :: "string json \<Rightarrow> arg_error + lsp_toolchain" where
  "json_toolchain v = obj_args [''name'', ''bin'', ''args'', ''aux''] v (\<lambda>v.
     arg_bind (field_string v ''name'') (\<lambda>n. arg_bind (field_string v ''bin'') (\<lambda>b.
     arg_bind (field_list item_string v ''args'') (\<lambda>a.
     arg_bind (if jget ''aux'' v = None then Inr [] else field_list json_aux v ''aux'') (\<lambda>xs.
       Inr \<lparr>tc_name = n, tc_bin = b, tc_args = a, tc_aux = xs\<rparr>)))))"

text \<open>The text is parsed by the JSON library, which also words the errors.\<close>

definition parse_lsp_toolchains ::
    "(string \<Rightarrow> string + string json) \<Rightarrow> (arg_error \<Rightarrow> string) \<Rightarrow> string \<Rightarrow> string + lsp_toolchain list" where
  "parse_lsp_toolchains parse show_err json =
     (case parse json of
        Inl e \<Rightarrow> Inl (''LSP toolchain parse error: '' @ e)
      | Inr (JArr xs) \<Rightarrow> map_sum (\<lambda>e. ''LSP toolchain parse error: '' @ show_err e) id (arg_all json_toolchain xs)
      | Inr v \<Rightarrow> Inl (''LSP toolchain parse error: '' @ show_err (WrongType [] v)))"

definition lsp_toolchains_from_env ::
    "(string \<Rightarrow> string + string json) \<Rightarrow> (arg_error \<Rightarrow> string) \<Rightarrow> string option \<Rightarrow> string + lsp_toolchain list" where
  "lsp_toolchains_from_env parse show_err var =
     (case var of
        None \<Rightarrow> Inr []
      | Some json \<Rightarrow> if json = [] then Inr [] else parse_lsp_toolchains parse show_err json)"

section \<open>Values\<close>

text \<open>
  \<open>value[key] = new\<close>: on an object the member is set, null becomes an object, anything else
  panics (\<open>None\<close>). Members of an object are kept in the order of their names.
\<close>

fun index_set :: "string \<Rightarrow> string json \<Rightarrow> string json \<Rightarrow> string json option" where
  "index_set k v (JObj ms) = Some (JObj (bt_insert k v ms))"
| "index_set k v JNull = Some (JObj [(k, v)])"
| "index_set k v _ = None"

text \<open>Where the code has just found the value to be an object.\<close>

definition jset :: "string \<Rightarrow> string json \<Rightarrow> string json \<Rightarrow> string json" where
  "jset k v j = (case index_set k v j of Some j' \<Rightarrow> j' | None \<Rightarrow> j)"

definition member_str :: "string \<Rightarrow> string json \<Rightarrow> string option" where
  "member_str k j = Option.bind (jget k j) as_str"

text \<open>\<open>as_object().cloned().unwrap_or_default()\<close>, the options of the toolchain winning.\<close>

definition merged_initialization_options :: "string json \<Rightarrow> string json \<Rightarrow> string json option" where
  "merged_initialization_options req spec_opts =
     (case as_obj spec_opts of
        None \<Rightarrow> None
      | Some spec_obj \<Rightarrow>
          (let own = (case Option.bind (Option.bind (jget ''params'' req) (jget ''initializationOptions'')) as_obj of
                        None \<Rightarrow> [] | Some ms \<Rightarrow> ms)
           in Some (JObj (bt_extend own spec_obj))))"

text \<open>\<open>params[0]\<close> of an array, its first, second and third element.\<close>

definition parse_tsserver_request :: "string json \<Rightarrow> (string json \<times> string \<times> string json) option" where
  "parse_tsserver_request msg =
     (case Option.bind (jget ''params'' msg) as_arr of
        Some (JArr (vue_id # JStr command # rest) # _) \<Rightarrow>
          Some (vue_id, command, case rest of [] \<Rightarrow> JNull | payload # _ \<Rightarrow> payload)
      | _ \<Rightarrow> None)"

section \<open>Diagnostics of several servers\<close>

text \<open>The parts of one document, by the index of the server; they are joined in the order of the indexes.\<close>

definition concat_diag_parts :: "(nat \<times> 'v list) list \<Rightarrow> 'v list" where
  "concat_diag_parts parts = concat (map (\<lambda>i. the (map_of parts i)) (sort (map fst parts)))"

section \<open>Routes\<close>

definition PRIMARY_PART :: nat where
  "PRIMARY_PART = 0"

datatype merge_route = ToPrimary | ToAll

definition merge_route_for_method :: "string \<Rightarrow> merge_route" where
  "merge_route_for_method m =
     (if m \<in> {''textDocument/hover'', ''textDocument/definition'', ''textDocument/typeDefinition'',
              ''textDocument/implementation'', ''textDocument/references'', ''textDocument/codeAction'',
              ''textDocument/prepareRename'', ''textDocument/rename'', ''textDocument/completion''}
      then ToAll else ToPrimary)"

section \<open>Merging hovers\<close>

definition is_markup_content :: "string json \<Rightarrow> bool" where
  "is_markup_content contents \<longleftrightarrow> member_str ''kind'' contents \<noteq> None \<and> member_str ''value'' contents \<noteq> None"

definition objects_of :: "string json option list \<Rightarrow> string json list" where
  "objects_of parts = concat (map (\<lambda>p. case p of Some (JObj ms) \<Rightarrow> [JObj ms] | _ \<Rightarrow> []) parts)"

definition hover_value :: "string json \<Rightarrow> string" where
  "hover_value hover =
     (case Option.bind (jget ''contents'' hover) (member_str ''value'') of None \<Rightarrow> [] | Some s \<Rightarrow> s)"

definition marked_strings :: "string json \<Rightarrow> string json list" where
  "marked_strings hover =
     (case jget ''contents'' hover of
        Some (JStr s) \<Rightarrow> [JStr s]
      | Some (JArr items) \<Rightarrow> items
      | Some (JObj ms) \<Rightarrow> [JObj ms]
      | _ \<Rightarrow> [])"

definition merge_hover :: "string json option list \<Rightarrow> string json" where
  "merge_hover parts =
     (case objects_of parts of
        [] \<Rightarrow> JNull
      | [h] \<Rightarrow> h
      | h # h2 # hs \<Rightarrow>
          (let present = h # h2 # hs in
           if list_all (\<lambda>x. case jget ''contents'' x of Some c \<Rightarrow> is_markup_content c | None \<Rightarrow> False) present
           then (case jget ''contents'' h of
                   Some c \<Rightarrow> jset ''contents''
                     (jset ''value'' (JStr (join_str [nl, nl, CHR ''-'', CHR ''-'', CHR ''-'', nl, nl] (map hover_value present))) c) h
                 | None \<Rightarrow> h)
           else jset ''contents'' (JArr (concat (map marked_strings present))) h))"

section \<open>Merging locations, actions and preparations\<close>

definition merge_locations :: "string json option list \<Rightarrow> string json" where
  "merge_locations parts =
     (let found = concat (map (\<lambda>p. case p of Some (JArr items) \<Rightarrow> [items] | Some (JObj ms) \<Rightarrow> [[JObj ms]] | _ \<Rightarrow> []) parts)
      in if found = [] then JNull else JArr (concat found))"

definition merge_code_actions :: "string json option list \<Rightarrow> string json" where
  "merge_code_actions parts = JArr (concat (map (\<lambda>p. case p of Some (JArr items) \<Rightarrow> items | _ \<Rightarrow> []) parts))"

definition merge_prepare_rename :: "string json option list \<Rightarrow> string json" where
  "merge_prepare_rename parts =
     (case filter (\<lambda>v. v \<noteq> JNull) (List.map_filter id parts) of [] \<Rightarrow> JNull | v # _ \<Rightarrow> v)"

section \<open>Merging renames\<close>

definition workspace_edit_variant :: "(string \<times> string json) list \<Rightarrow> string option" where
  "workspace_edit_variant edit =
     (if map_of edit ''changes'' \<noteq> None then Some ''changes''
      else if map_of edit ''documentChanges'' \<noteq> None then Some ''documentChanges''
      else None)"

definition add_changes :: "string \<times> string json \<Rightarrow> (string \<times> string json) list \<Rightarrow> (string \<times> string json) list" where
  "add_changes ue held =
     (case map_of held (fst ue) of
        Some (JArr old) \<Rightarrow> (case snd ue of JArr new \<Rightarrow> bt_insert (fst ue) (JArr (old @ new)) held | _ \<Rightarrow> held)
      | Some _ \<Rightarrow> held
      | None \<Rightarrow> bt_insert (fst ue) (snd ue) held)"

definition fold_workspace_edit ::
    "(string \<times> string json) list \<Rightarrow> (string \<times> string json) list \<Rightarrow> (string \<times> string json) list" where
  "fold_workspace_edit held incoming =
     (case (workspace_edit_variant held, workspace_edit_variant incoming) of
        (Some v, Some w) \<Rightarrow>
          (if v = w \<and> v = ''changes'' then
             (case (Option.bind (map_of held ''changes'') as_obj, Option.bind (map_of incoming ''changes'') as_obj) of
                (Some hc, Some ic) \<Rightarrow> bt_insert ''changes'' (JObj (fold add_changes ic hc)) held
              | _ \<Rightarrow> held)
           else if v = w then
             (case (Option.bind (map_of held ''documentChanges'') as_arr, Option.bind (map_of incoming ''documentChanges'') as_arr) of
                (Some hc, Some ic) \<Rightarrow> bt_insert ''documentChanges'' (JArr (hc @ ic)) held
              | _ \<Rightarrow> held)
           else held)
      | (None, Some w) \<Rightarrow> (case map_of incoming w of Some v \<Rightarrow> bt_insert w v held | None \<Rightarrow> held)
      | _ \<Rightarrow> held)"

definition rename_step ::
    "string json option \<Rightarrow> (string \<times> string json) list option \<Rightarrow> (string \<times> string json) list option" where
  "rename_step p acc =
     (case p of
        Some (JObj edit) \<Rightarrow> Some (case acc of None \<Rightarrow> edit | Some held \<Rightarrow> fold_workspace_edit held edit)
      | _ \<Rightarrow> acc)"

definition merge_rename :: "string json option list \<Rightarrow> string json" where
  "merge_rename parts = (case fold rename_step parts None of None \<Rightarrow> JNull | Some ms \<Rightarrow> JObj ms)"

section \<open>Merging completions\<close>

type_synonym item_key = "string \<times> int option"

definition completion_item_key :: "string json \<Rightarrow> item_key option" where
  "completion_item_key item =
     (case jget ''label'' item of
        Some (JStr s) \<Rightarrow> Some (s, Option.bind (jget ''kind'' item) as_i64)
      | Some (JObj ms) \<Rightarrow>
          (case member_str ''label'' (JObj ms) of
             Some s \<Rightarrow> Some (s, Option.bind (jget ''kind'' item) as_i64)
           | None \<Rightarrow> None)
      | _ \<Rightarrow> None)"

record completion_fold =
  cf_seen :: "item_key list"
  cf_kept :: "(nat \<times> string json) list"
  cf_incomplete :: bool
  cf_list :: bool

definition keep_item :: "nat \<Rightarrow> string json \<Rightarrow> completion_fold \<Rightarrow> completion_fold" where
  "keep_item i item f =
     (case completion_item_key item of
        None \<Rightarrow> f\<lparr>cf_kept := cf_kept f @ [(i, item)]\<rparr>
      | Some k \<Rightarrow>
          if k \<in> set (cf_seen f) then f
          else f\<lparr>cf_seen := k # cf_seen f, cf_kept := cf_kept f @ [(i, item)]\<rparr>)"

definition fold_part :: "nat \<times> string json option \<Rightarrow> completion_fold \<Rightarrow> completion_fold" where
  "fold_part ip f =
     (case snd ip of
        Some (JArr items) \<Rightarrow> fold (keep_item (fst ip)) items f
      | Some (JObj ms) \<Rightarrow>
          (case Option.bind (map_of ms ''items'') as_arr of
             None \<Rightarrow> f
           | Some items \<Rightarrow>
               fold (keep_item (fst ip)) items
                 (f\<lparr>cf_list := True,
                    cf_incomplete := (cf_incomplete f \<or> Option.bind (map_of ms ''isIncomplete'') as_bool = Some True)\<rparr>))
      | _ \<Rightarrow> f)"

definition merge_completion_parts :: "(nat \<times> string json option) list \<Rightarrow> completion_fold" where
  "merge_completion_parts parts =
     fold fold_part parts \<lparr>cf_seen = [], cf_kept = [], cf_incomplete = False, cf_list = False\<rparr>"

definition merge_completions :: "string json option list \<Rightarrow> string json" where
  "merge_completions parts =
     (let f = merge_completion_parts (zip [0..<length parts] parts); items = map snd (cf_kept f) in
      if cf_list f then JObj [(''isIncomplete'', JBool (cf_incomplete f)), (''items'', JArr items)]
      else JArr items)"

definition merge_result_for :: "string \<Rightarrow> string json option list \<Rightarrow> string json" where
  "merge_result_for m parts =
     (if m = ''textDocument/hover'' then merge_hover parts
      else if m \<in> {''textDocument/definition'', ''textDocument/typeDefinition'',
                   ''textDocument/implementation'', ''textDocument/references''} then merge_locations parts
      else if m = ''textDocument/codeAction'' then merge_code_actions parts
      else if m = ''textDocument/prepareRename'' then merge_prepare_rename parts
      else if m = ''textDocument/rename'' then merge_rename parts
      else if m = ''textDocument/completion'' then merge_completions parts
      else (case parts of Some v # _ \<Rightarrow> v | _ \<Rightarrow> JNull))"


section \<open>What a merged completion serves\<close>

definition part_items :: "string json option \<Rightarrow> string json list" where
  "part_items p =
     (case p of
        Some (JArr items) \<Rightarrow> items
      | Some (JObj ms) \<Rightarrow> (case Option.bind (map_of ms ''items'') as_arr of None \<Rightarrow> [] | Some items \<Rightarrow> items)
      | _ \<Rightarrow> [])"

text \<open>Everything the servers offer, in the order of the servers, with the server that offers it.\<close>

definition offered :: "(nat \<times> string json option) list \<Rightarrow> (nat \<times> string json) list" where
  "offered parts = concat (map (\<lambda>(i, p). map (Pair i) (part_items p)) parts)"

text \<open>The offers that come first under their key, and those without a key.\<close>

definition is_first :: "(nat \<times> string json) list \<Rightarrow> nat \<Rightarrow> bool" where
  "is_first xs n \<longleftrightarrow>
     (case completion_item_key (snd (xs ! n)) of
        None \<Rightarrow> True
      | Some k \<Rightarrow> list_all (\<lambda>x. completion_item_key (snd x) \<noteq> Some k) (take n xs))"

definition firsts :: "(nat \<times> string json) list \<Rightarrow> (nat \<times> string json) list" where
  "firsts xs = map (nth xs) (filter (is_first xs) [0..<length xs])"

lemma firsts_snoc: "firsts (xs @ [x]) = firsts xs @ (if is_first (xs @ [x]) (length xs) then [x] else [])"
proof -
  have "filter (is_first (xs @ [x])) [0..<length xs] = filter (is_first xs) [0..<length xs]"
    by (rule filter_cong) (auto simp: is_first_def nth_append split: option.splits)
  then have "map (nth (xs @ [x])) (filter (is_first (xs @ [x])) [0..<length xs]) = firsts xs"
    by (auto simp: firsts_def nth_append intro: map_cong)
  then show ?thesis by (simp add: firsts_def)
qed

definition fold_ok :: "(nat \<times> string json) list \<Rightarrow> completion_fold \<Rightarrow> bool" where
  "fold_ok xs f \<longleftrightarrow> cf_kept f = firsts xs \<and>
     (\<forall>k. k \<in> set (cf_seen f) \<longleftrightarrow> Some k \<in> (completion_item_key \<circ> snd) ` set xs)"

lemma fold_ok_keep: "fold_ok xs f \<Longrightarrow> fold_ok (xs @ [(i, item)]) (keep_item i item f)"
  by (auto simp: fold_ok_def keep_item_def firsts_snoc is_first_def list_all_iff split: option.splits)
    (metis comp_apply image_eqI snd_conv)+

lemma fold_ok_items: "fold_ok xs f \<Longrightarrow> fold_ok (xs @ map (Pair i) items) (fold (keep_item i) items f)"
proof (induction items arbitrary: xs f)
  case (Cons item items)
  from Cons(1) [OF fold_ok_keep [OF Cons(2)]] show ?case by simp
qed simp

lemma fold_ok_update [simp]: "fold_ok xs (f\<lparr>cf_list := b, cf_incomplete := c\<rparr>) = fold_ok xs f"
  by (simp add: fold_ok_def)

lemma fold_ok_part: "fold_ok xs f \<Longrightarrow> fold_ok (xs @ map (Pair (fst ip)) (part_items (snd ip))) (fold_part ip f)"
  by (auto simp: fold_part_def part_items_def intro!: fold_ok_items split: option.splits json.splits)

lemma fold_ok_parts: "fold_ok xs f \<Longrightarrow> fold_ok (xs @ offered parts) (fold fold_part parts f)"
proof (induction parts arbitrary: xs f)
  case (Cons ip parts)
  from Cons(1) [OF fold_ok_part [OF Cons(2), of ip]] show ?case
    by (simp add: offered_def case_prod_beta)
qed (simp add: offered_def)

lemma kept_are_firsts: "cf_kept (merge_completion_parts parts) = firsts (offered parts)"
  using fold_ok_parts [of "[]" "\<lparr>cf_seen = [], cf_kept = [], cf_incomplete = False, cf_list = False\<rparr>" parts]
  by (simp add: fold_ok_def merge_completion_parts_def firsts_def)

lemma set_firsts: "set (firsts xs) \<subseteq> set xs"
  by (auto simp: firsts_def)

section \<open>What a merged renaming edits\<close>

text \<open>The edits an answer asks for in one document, when it uses the \<open>changes\<close> form.\<close>

definition uri_edits :: "string \<Rightarrow> string json option \<Rightarrow> string json list" where
  "uri_edits uri p =
     (case Option.bind (Option.bind (Option.bind p (jget ''changes'')) (jget uri)) as_arr of None \<Rightarrow> [] | Some es \<Rightarrow> es)"

definition changes_ok :: "(string \<times> string json) list \<Rightarrow> bool" where
  "changes_ok cs \<longleftrightarrow> bt_ok cs \<and> list_all (\<lambda>ue. as_arr (snd ue) \<noteq> None) cs"

definition edit_ok :: "string json option \<Rightarrow> bool" where
  "edit_ok p =
     (case p of
        Some (JObj ms) \<Rightarrow> (case map_of ms ''changes'' of Some (JObj cs) \<Rightarrow> changes_ok cs | _ \<Rightarrow> False)
      | Some JNull \<Rightarrow> True
      | None \<Rightarrow> True
      | _ \<Rightarrow> False)"

definition listed :: "(string \<times> string json) list \<Rightarrow> string \<Rightarrow> string json list" where
  "listed cs uri = (case Option.bind (map_of cs uri) as_arr of None \<Rightarrow> [] | Some es \<Rightarrow> es)"

lemma uri_edits_changes: "map_of ms ''changes'' = Some (JObj cs) \<Longrightarrow> uri_edits uri (Some (JObj ms)) = listed cs uri"
  by (simp add: uri_edits_def listed_def)

lemma arrays_lookup:
  assumes "list_all (\<lambda>ue. as_arr (snd ue) \<noteq> None) cs" "map_of cs u = Some v" shows "\<exists>es. v = JArr es"
proof -
  from assms(2) have "(u, v) \<in> set cs" by (rule map_of_SomeD)
  with assms(1) have "as_arr v \<noteq> None" by (auto simp: list_all_iff)
  then show ?thesis by (cases v) auto
qed

lemma changes_ok_insert: "changes_ok cs \<Longrightarrow> changes_ok (bt_insert k (JArr es) cs)"
  using set_bt_insert [of k "JArr es" cs] by (fastforce simp: changes_ok_def list_all_iff)

lemma add_changes_ok:
  assumes "changes_ok hc" "as_arr v \<noteq> None"
  shows "changes_ok (add_changes (k, v) hc) \<and>
    listed (add_changes (k, v) hc) u = listed hc u @ (if u = k then the (as_arr v) else [])"
proof -
  obtain es where v: "v = JArr es" using assms(2) by (cases v) auto
  show ?thesis
  proof (cases "map_of hc k")
    case None
    then show ?thesis using assms(1) v by (simp add: add_changes_def changes_ok_insert listed_def)
  next
    case (Some w)
    have "list_all (\<lambda>ue. as_arr (snd ue) \<noteq> None) hc" using assms(1) by (simp add: changes_ok_def)
    from arrays_lookup [OF this Some] obtain old where "w = JArr old" ..
    then show ?thesis using assms(1) v Some by (simp add: add_changes_def changes_ok_insert listed_def)
  qed
qed

lemma fold_add_changes:
  assumes "changes_ok ic" "changes_ok hc"
  shows "changes_ok (fold add_changes ic hc) \<and> listed (fold add_changes ic hc) u = listed hc u @ listed ic u"
  using assms
proof (induction ic arbitrary: hc)
  case (Cons kv ic)
  obtain k v where kv: "kv = (k, v)" by (cases kv)
  from Cons(2) have ok: "changes_ok ic" "as_arr v \<noteq> None" "map_of ic k = None"
    by (auto simp: changes_ok_def kv map_of_eq_None_iff)
  let ?hc = "add_changes (k, v) hc"
  have step: "changes_ok ?hc" "listed ?hc u = listed hc u @ (if u = k then the (as_arr v) else [])"
    using add_changes_ok [OF Cons(3) ok(2)] by simp_all
  have here: "listed (kv # ic) u = (if u = k then the (as_arr v) else []) @ listed ic u"
    using ok(2,3) by (cases "u = k") (auto simp: listed_def kv)
  show ?case using Cons(1) [OF ok(1) step(1)] unfolding here by (simp add: kv step(2))
qed (simp add: listed_def)

definition rename_ok :: "(string \<times> string json) list option \<Rightarrow> bool" where
  "rename_ok acc =
     (case acc of
        None \<Rightarrow> True
      | Some ms \<Rightarrow> (case map_of ms ''changes'' of Some (JObj cs) \<Rightarrow> changes_ok cs | _ \<Rightarrow> False))"

lemma rename_step_ok:
  assumes "edit_ok p" "rename_ok acc"
  shows "rename_ok (rename_step p acc) \<and>
    uri_edits u (map_option JObj (rename_step p acc)) = uri_edits u (map_option JObj acc) @ uri_edits u p"
proof (cases "\<exists>ms. p = Some (JObj ms)")
  case True
  then obtain ms where ms: "p = Some (JObj ms)" by blast
  with assms(1) obtain ic where "map_of ms ''changes'' = Some (JObj ic)" "changes_ok ic"
    by (simp add: edit_ok_def split: option.splits json.splits)
  note ic = ms this
  show ?thesis
  proof (cases acc)
    case None
    then show ?thesis using ic by (simp add: rename_step_def rename_ok_def uri_edits_def)
  next
    case (Some held)
    then obtain hc where hc: "map_of held ''changes'' = Some (JObj hc)" "changes_ok hc"
      using assms(2) by (simp add: rename_ok_def split: option.splits json.splits)
    have "rename_step p acc = Some (bt_insert ''changes'' (JObj (fold add_changes ic hc)) held)"
      using ic hc Some by (simp add: rename_step_def fold_workspace_edit_def workspace_edit_variant_def)
    then show ?thesis using ic hc Some fold_add_changes [OF ic(3) hc(2), of u]
      by (simp add: rename_ok_def uri_edits_changes)
  qed
next
  case False
  with assms(1) have "p = None \<or> p = Some JNull" by (simp add: edit_ok_def split: option.splits json.splits)
  then have "rename_step p acc = acc" "uri_edits u p = []" by (auto simp: rename_step_def uri_edits_def)
  then show ?thesis using assms(2) by simp
qed

lemma fold_rename_ok:
  "list_all edit_ok parts \<Longrightarrow> rename_ok acc \<Longrightarrow>
    uri_edits u (map_option JObj (fold rename_step parts acc))
      = uri_edits u (map_option JObj acc) @ concat (map (uri_edits u) parts)"
proof (induction parts arbitrary: acc)
  case (Cons p parts)
  then show ?case using rename_step_ok [of p acc u] by simp
qed simp

lemma merge_rename_edits:
  "list_all edit_ok parts \<Longrightarrow> uri_edits u (Some (merge_rename parts)) = concat (map (uri_edits u) parts)"
  using fold_rename_ok [of parts None u]
  by (auto simp: rename_ok_def merge_rename_def uri_edits_def split: option.splits)


section \<open>What merged answers promise\<close>


text \<open>
  A merged renaming edits in every document what the servers' answers edit there, one after the
  other with the primary's edits first, when all answers use the \<open>changes\<close> form or are empty: no
  edit is lost and none is added.
\<close>

theorem renames_collect_edits:
  assumes "list_all edit_ok parts"
  shows "uri_edits u (Some (merge_rename parts)) = concat (map (uri_edits u) parts)"
  using assms by (rule merge_rename_edits)

lemma renames_collect_edits_witness:
  "uri_edits ''f'' (Some (merge_rename
     [Some (JObj [(''changes'', JObj [(''f'', JArr [JInt 1])])]), None,
      Some (JObj [(''changes'', JObj [(''e'', JArr [JInt 2]), (''f'', JArr [JInt 3])])])]))
   = concat (map (uri_edits ''f'')
     [Some (JObj [(''changes'', JObj [(''f'', JArr [JInt 1])])]), None,
      Some (JObj [(''changes'', JObj [(''e'', JArr [JInt 2]), (''f'', JArr [JInt 3])])])])"
  by (rule renames_collect_edits) code_simp

end
