(* ===== verification/LspTasks.thy ===== *)
theory LspTasks
  imports Main "HOL-Library.Multiset"
begin

text \<open>
  Concurrent tasks over one shared state: a task is a program of atomic steps, which may wait, and
  of acquisitions and releases of mutexes; a schedule says which task goes next. Two ways to
  reason about every schedule at once follow, which check one program at a time. The first keeps
  accounts: an invariant, claims the state and the tasks hold, and a fund that covers them. The
  second orders the mutexes, so that no set of tasks waits for its own locks.
\<close>

section \<open>Programs, tasks, schedules\<close>

text \<open>
  A task is done (\<open>Fin\<close>), has panicked (\<open>Dead\<close>), performs a step on the state when the step
  is possible (\<open>None\<close> waits), or takes or gives back a mutex. A mutex is not reentrant.
\<close>

datatype ('l, 's) prog =
    Fin
  | Dead
  | Act "'s \<Rightarrow> ('s \<times> ('l, 's) prog) option"
  | Lock 'l "('l, 's) prog"
  | Unlock 'l "('l, 's) prog"

type_synonym ('l, 's) task = "'l list \<times> ('l, 's) prog"
type_synonym ('l, 's) system = "'s \<times> ('l, 's) task list"

definition lock_free :: "'l \<Rightarrow> ('l, 's) task list \<Rightarrow> bool" where
  "lock_free l ts \<longleftrightarrow> list_all (\<lambda>t. l \<notin> set (fst t)) ts"

definition task_step :: "nat \<Rightarrow> ('l, 's) system \<Rightarrow> ('l, 's) system option" where
  "task_step i c =
     (if length (snd c) \<le> i then None
      else case snd c ! i of (held, p) \<Rightarrow>
        (case p of
           Fin \<Rightarrow> None
         | Dead \<Rightarrow> None
         | Act f \<Rightarrow> map_option (\<lambda>(s', k). (s', (snd c)[i := (held, k)])) (f (fst c))
         | Lock l k \<Rightarrow> if lock_free l (snd c) then Some (fst c, (snd c)[i := (l # held, k)]) else None
         | Unlock l k \<Rightarrow> Some (fst c, (snd c)[i := (removeAll l held, k)])))"

text \<open>A schedule names the tasks in the order of their steps; one that cannot go is passed over.\<close>

fun run_schedule :: "nat list \<Rightarrow> ('l, 's) system \<Rightarrow> ('l, 's) system" where
  "run_schedule [] c = c"
| "run_schedule (i # is) c = run_schedule is (case task_step i c of None \<Rightarrow> c | Some c' \<Rightarrow> c')"

definition start :: "('l, 's) prog list \<Rightarrow> ('l, 's) task list" where
  "start ps = map (Pair []) ps"

definition task_done :: "('l, 's) task \<Rightarrow> bool" where
  "task_done t \<longleftrightarrow> snd t = Fin \<or> snd t = Dead"

text \<open>A task that waits for something other than a mutex.\<close>

definition waits :: "'s \<Rightarrow> ('l, 's) task \<Rightarrow> bool" where
  "waits s t \<longleftrightarrow> (case snd t of Act f \<Rightarrow> f s = None | _ \<Rightarrow> False)"

text \<open>One step under a mutex.\<close>

definition with_lock :: "'l \<Rightarrow> ('s \<Rightarrow> 's \<times> ('l, 's) prog) \<Rightarrow> ('l, 's) prog" where
  "with_lock l f = Lock l (Act (\<lambda>s. Some (map_prod id (Unlock l) (f s))))"

lemma run_schedule_append: "run_schedule (is @ js) c = run_schedule js (run_schedule is c)"
  by (induction "is" arbitrary: c) auto

section \<open>Checking programs one at a time\<close>

text \<open>
  \<open>checked I bal fund ok p held M\<close>: holding the mutexes \<open>held\<close> and the claims \<open>M\<close>, the program
  keeps the invariant \<open>I\<close>; never creates claims, in the state or for itself, beyond what the fund
  grew by; takes a mutex only where \<open>ok\<close> allows it; waits for something else only when it holds
  none; and ends with none.
\<close>

primrec checked ::
    "('s \<Rightarrow> bool) \<Rightarrow> ('s \<Rightarrow> 'a multiset) \<Rightarrow> ('s \<Rightarrow> 'a multiset) \<Rightarrow> ('l list \<Rightarrow> 'l \<Rightarrow> bool)
     \<Rightarrow> ('l, 's) prog \<Rightarrow> 'l list \<Rightarrow> 'a multiset \<Rightarrow> bool" where
  "checked I bal fund ok Fin = (\<lambda>held M. held = [])"
| "checked I bal fund ok Dead = (\<lambda>held M. held = [])"
| "checked I bal fund ok (Act f) = (\<lambda>held M. \<forall>s. I s \<longrightarrow>
     (case map_option (map_prod id (checked I bal fund ok)) (f s) of
        None \<Rightarrow> held = []
      | Some (s', B) \<Rightarrow> I s' \<and> (\<exists>M'. bal s' + M' + fund s \<subseteq># bal s + M + fund s' \<and> B held M')))"
| "checked I bal fund ok (Lock l k) = (\<lambda>held M. ok held l \<and> checked I bal fund ok k (l # held) M)"
| "checked I bal fund ok (Unlock l k) = (\<lambda>held M. checked I bal fund ok k (removeAll l held) M)"

lemma checked_Act:
  "checked I bal fund ok (Act f) held M \<longleftrightarrow>
     (\<forall>s. I s \<longrightarrow> (f s = None \<longrightarrow> held = []) \<and>
       (\<forall>s' k. f s = Some (s', k) \<longrightarrow>
          I s' \<and> (\<exists>M'. bal s' + M' + fund s \<subseteq># bal s + M + fund s' \<and> checked I bal fund ok k held M')))"
  by (fastforce split: option.splits)

declare checked.simps(3) [simp del]

lemma checked_weaken:
  "checked I bal fund ok p held M \<Longrightarrow> M \<subseteq># N \<Longrightarrow> checked I bal fund ok p held N"
proof (induction p arbitrary: held M N)
  case (Act f)
  have "bal s' + M' + fund s \<subseteq># bal s + N + fund s'" if "bal s' + M' + fund s \<subseteq># bal s + M + fund s'" for s s' M'
    using that Act(3) by (meson subset_mset.add_left_mono subset_mset.add_right_mono subset_mset.order_trans)
  then show ?case using Act(2) unfolding checked_Act by blast
qed auto

text \<open>A system whose tasks are checked, with the claims they hold.\<close>

definition all_checked ::
    "('s \<Rightarrow> bool) \<Rightarrow> ('s \<Rightarrow> 'a multiset) \<Rightarrow> ('s \<Rightarrow> 'a multiset) \<Rightarrow> ('l list \<Rightarrow> 'l \<Rightarrow> bool)
     \<Rightarrow> ('l, 's) system \<Rightarrow> 'a multiset list \<Rightarrow> bool" where
  "all_checked I bal fund ok c Ms \<longleftrightarrow>
     I (fst c) \<and> list_all2 (\<lambda>t. checked I bal fund ok (snd t) (fst t)) (snd c) Ms"

lemma all_checked_start:
  assumes "I s" and "\<And>p. p \<in> set ps \<Longrightarrow> checked I bal fund ok p [] {#}"
  shows "all_checked I bal fund ok (s, start ps) (replicate (length ps) {#})"
  using assms by (auto simp: all_checked_def start_def list_all2_conv_all_nth)

lemma sum_list_update_mset:
  "i < length Ms \<Longrightarrow> sum_list (Ms[i := M']) + Ms ! i = sum_list Ms + M'" for M' :: "'a multiset"
  by (induction Ms arbitrary: i) (auto simp: ac_simps split: nat.splits)

lemma covered_trans:
  assumes "(a' :: 'a multiset) + f \<subseteq># a + f'" "a'' + f' \<subseteq># a' + f''" shows "a'' + f \<subseteq># a + f''"
proof -
  have "(a'' + f) + (a' + f') \<subseteq># (a + f'') + (a' + f')"
    using subset_mset.add_mono [OF assms] by (simp add: ac_simps)
  then show ?thesis by simp
qed

lemma checked_step:
  assumes "task_step i c = Some c'" and "all_checked I bal fund ok c Ms"
  shows "\<exists>Ms'. all_checked I bal fund ok c' Ms' \<and>
    bal (fst c') + sum_list Ms' + fund (fst c) \<subseteq># bal (fst c) + sum_list Ms + fund (fst c')"
proof -
  obtain s ts s' ts' where c: "c = (s, ts)" "c' = (s', ts')" by (cases c; cases c')
  from assms(2) have chk: "I s" "list_all2 (\<lambda>t. checked I bal fund ok (snd t) (fst t)) ts Ms"
    by (simp_all add: all_checked_def c)
  from assms(1) have i: "i < length ts" by (simp add: task_step_def c split: if_splits)
  then have len: "i < length Ms" using chk(2) by (simp add: list_all2_lengthD)
  obtain held p where t: "ts ! i = (held, p)" by (cases "ts ! i")
  have b: "checked I bal fund ok p held (Ms ! i)" using list_all2_nthD [OF chk(2) i] t by simp
  have upd: "all_checked I bal fund ok (s', ts[i := (h, k)]) (Ms[i := M'])"
    if "I s'" "checked I bal fund ok k h M'" for h k M'
    using chk(2) that by (simp add: all_checked_def list_all2_update_cong)
  show ?thesis
  proof (cases p)
    case (Act f)
    then obtain k where k: "f s = Some (s', k)" "ts' = ts[i := (held, k)]"
      using assms(1) i t c by (auto simp: task_step_def)
    from checked_Act [THEN iffD1, OF b [unfolded Act], rule_format, OF chk(1), THEN conjunct2, rule_format, OF k(1)]
    obtain M' where M': "I s'" "checked I bal fund ok k held M'"
      and le: "bal s' + M' + fund s \<subseteq># bal s + Ms ! i + fund s'" by blast
    have "(bal s' + sum_list (Ms[i := M']) + fund s) + Ms ! i = (bal s' + M' + fund s) + sum_list Ms"
      using sum_list_update_mset [OF len, of M'] by (simp add: ac_simps)
    also have "\<dots> \<subseteq># (bal s + sum_list Ms + fund s') + Ms ! i"
      using subset_mset.add_right_mono [OF le, of "sum_list Ms"] by (simp add: ac_simps)
    finally show ?thesis using upd [OF M'] k(2) c by auto
  next
    case (Lock l k)
    then have "s' = s" "ts' = ts[i := (l # held, k)]"
      using assms(1) i t c by (auto simp: task_step_def split: if_splits)
    then show ?thesis using upd [of k "l # held" "Ms ! i"] b Lock chk(1) c by auto
  next
    case (Unlock l k)
    then have "s' = s" "ts' = ts[i := (removeAll l held, k)]" using assms(1) i t c by (auto simp: task_step_def)
    then show ?thesis using upd [of k "removeAll l held" "Ms ! i"] b Unlock chk(1) c by auto
  qed (use assms(1) i t c in \<open>auto simp: task_step_def\<close>)
qed

text \<open>Whatever the schedule, the invariant holds and the claims stay covered.\<close>

lemma checked_run:
  "all_checked I bal fund ok c Ms \<Longrightarrow>
    \<exists>Ms'. all_checked I bal fund ok (run_schedule sched c) Ms' \<and>
      bal (fst (run_schedule sched c)) + sum_list Ms' + fund (fst c)
        \<subseteq># bal (fst c) + sum_list Ms + fund (fst (run_schedule sched c))"
proof (induction sched arbitrary: c Ms)
  case Nil
  then show ?case by auto
next
  case (Cons i sched)
  show ?case
  proof (cases "task_step i c")
    case None
    with Cons show ?thesis by simp
  next
    case (Some c1)
    from checked_step [OF Some Cons(2)] obtain Ms1 where 1: "all_checked I bal fund ok c1 Ms1"
      "bal (fst c1) + sum_list Ms1 + fund (fst c) \<subseteq># bal (fst c) + sum_list Ms + fund (fst c1)" by blast
    from Cons(1) [OF 1(1)] covered_trans [OF 1(2)] Some show ?thesis by fastforce
  qed
qed

lemma checked_run_inv:
  assumes "all_checked I bal fund ok c Ms" shows "I (fst (run_schedule sched c))"
  using checked_run [OF assms, of sched] by (auto simp: all_checked_def)

section \<open>Mutexes in a fixed order\<close>

text \<open>
  Where mutexes are taken in increasing rank only, a system in which nothing can go has no task
  that waits for a mutex.
\<close>

lemma ranked_progress:
  fixes rank :: "'l \<Rightarrow> nat"
  assumes "all_checked I bal fund ok (s, ts) Ms"
    and rank: "\<And>held l h. ok held l \<Longrightarrow> h \<in> set held \<Longrightarrow> rank h < rank l"
    and "\<And>i. task_step i (s, ts) = None" and "t \<in> set ts"
  shows "task_done t \<or> (waits s t \<and> fst t = [])"
proof -
  have "I s" using assms(1) by (simp add: all_checked_def)
  have chk: "\<exists>M. checked I bal fund ok (snd u) (fst u) M" if "u \<in> set ts" for u
    using assms(1) that by (auto simp: all_checked_def list_all2_conv_all_nth in_set_conv_nth)
  have stuck: "case snd u of Act f \<Rightarrow> f s = None | Lock l k \<Rightarrow> \<not> lock_free l ts | Unlock l k \<Rightarrow> False | _ \<Rightarrow> True"
    if "u \<in> set ts" for u
  proof -
    from that obtain i where "i < length ts" "ts ! i = u" by (auto simp: in_set_conv_nth)
    then show ?thesis using assms(3) [of i]
      by (cases u; cases "snd u") (auto simp: task_step_def split: if_splits)
  qed
  have empty: "fst u = []" if "u \<in> set ts" "\<And>l k. snd u \<noteq> Lock l k" for u
    using chk [OF that(1)] stuck [OF that(1)] that(2) \<open>I s\<close> by (cases "snd u") (auto simp: checked_Act)
  have no_lock: "snd u \<noteq> Lock l k" if "u \<in> set ts" for u l k
  proof
    assume u: "snd u = Lock l k"
    define R where "R = {rank m | v m n. v \<in> set ts \<and> snd v = Lock m n}"
    have "R \<subseteq> (\<lambda>v. case snd v of Lock m n \<Rightarrow> rank m | _ \<Rightarrow> 0) ` set ts"
    proof
      fix r assume "r \<in> R"
      then obtain v m n where "v \<in> set ts" "snd v = Lock m n" "r = rank m" by (auto simp: R_def)
      then show "r \<in> (\<lambda>v. case snd v of Lock m n \<Rightarrow> rank m | _ \<Rightarrow> 0) ` set ts"
        by (intro rev_image_eqI [of v]) simp_all
    qed
    then have "finite R" using finite_surj by blast
    moreover have "rank l \<in> R" using that u unfolding R_def by blast
    ultimately have "Max R \<in> R" by (intro Max_in) auto
    then obtain v m n where v: "v \<in> set ts" "snd v = Lock m n" "rank m = Max R" by (auto simp: R_def)
    with stuck [OF v(1)] obtain w where w: "w \<in> set ts" "m \<in> set (fst w)" by (auto simp: lock_free_def list_all_iff)
    then obtain m' n' where w': "snd w = Lock m' n'" using empty [OF w(1)] by fastforce
    with chk [OF w(1)] have "rank m < rank m'" using rank w(2) by auto
    moreover have "rank m' \<in> R" using w(1) w' unfolding R_def by blast
    ultimately show False using \<open>finite R\<close> v(3) Max_ge by fastforce
  qed
  show ?thesis
    using empty [OF assms(4) no_lock [OF assms(4)]] stuck [OF assms(4)] no_lock [OF assms(4)]
    by (cases "snd t") (auto simp: task_done_def waits_def)
qed

section \<open>Every run ends\<close>

definition part_of :: "(('l, 's) prog \<times> ('l, 's) prog) set" where
  "part_of = {(k, p). (\<exists>f s s'. p = Act f \<and> f s = Some (s', k)) \<or> (\<exists>l. p = Lock l k) \<or> (\<exists>l. p = Unlock l k)}"

lemma wf_part_of: "wf part_of"
proof (rule wfUNIVI)
  fix P :: "('l, 's) prog \<Rightarrow> bool" and p
  assume step: "\<forall>p. (\<forall>k. (k, p) \<in> part_of \<longrightarrow> P k) \<longrightarrow> P p"
  show "P p"
  proof (induction p)
    case (Act f)
    have "P k" if "f s = Some (s', k)" for s s' k
    proof (rule Act [of "f s" "(s', k)" k])
      show "f s \<in> range f" by simp
    qed (use that in \<open>auto simp: snds.simps\<close>)
    then show ?case by - (rule step [rule_format], auto simp: part_of_def)
  qed (rule step [rule_format], auto simp: part_of_def)+
qed


definition next_of :: "(('l, 's) system \<times> ('l, 's) system) set" where
  "next_of = {(c', c). \<exists>i. task_step i c = Some c'}"

lemma step_part_of:
  assumes "task_step i (s, ts) = Some (s', ts')"
  shows "\<exists>h k. ts' = ts[i := (h, k)] \<and> i < length ts \<and> (k, snd (ts ! i)) \<in> part_of"
  using assms by (auto simp: task_step_def part_of_def split: prod.splits prog.splits if_splits)

lemma wf_next_of: "wf next_of"
proof (rule wf_subset)
  show "wf (inv_image (mult part_of) (\<lambda>c. mset (map snd (snd c))))"
    by (intro wf_inv_image wf_mult wf_part_of)
  show "(next_of :: (('l, 's) system \<times> ('l, 's) system) set) \<subseteq> inv_image (mult part_of) (\<lambda>c. mset (map snd (snd c)))"
  proof clarsimp
    fix s' :: 's and ts' :: "('l, 's) task list" and s ts
    assume "((s', ts'), (s, ts)) \<in> next_of"
    then obtain i where "task_step i (s, ts) = Some (s', ts')" by (auto simp: next_of_def)
    from step_part_of [OF this] obtain h k where
      k: "ts' = ts[i := (h, k)]" "i < length ts" "(k, snd (ts ! i)) \<in> part_of" by blast
    define M where "M = mset (map snd ts) - {#snd (ts ! i)#}"
    have "snd (ts ! i) \<in># mset (map snd ts)" using k(2) by simp
    then have "mset (map snd ts) = add_mset (snd (ts ! i)) M" by (simp add: M_def)
    moreover have "mset (map snd ts') = add_mset k M"
      using k(1,2) by (simp add: M_def map_update mset_update)
    ultimately have "(mset (map snd ts'), mset (map snd ts)) \<in> mult1 part_of"
      using k(3) mult1I [of "mset (map snd ts)" "snd (ts ! i)" M "mset (map snd ts')" "{#k#}" part_of] by simp
    then show "(image_mset snd (mset ts'), image_mset snd (mset ts)) \<in> mult part_of"
      by (simp add: mult_def r_into_trancl)
  qed
qed

text \<open>Every system can be run until nothing can go.\<close>

lemma run_to_end: "\<exists>sched. \<forall>i. task_step i (run_schedule sched c) = None"
proof (induction c rule: wf_induct_rule [OF wf_next_of])
  case (1 c)
  show ?case
  proof (cases "\<forall>i. task_step i c = None")
    case True
    then show ?thesis by (intro exI [of _ "[]"]) simp
  next
    case False
    then obtain i c' where i: "task_step i c = Some c'" by auto
    then obtain sched where "\<forall>j. task_step j (run_schedule sched c') = None" using 1 [of c'] by (auto simp: next_of_def)
    then show ?thesis using i by (intro exI [of _ "i # sched"]) simp
  qed
qed

end
