(* ===== verification/LspMux.thy ===== *)
theory LspMux
  imports LspWire LspMerge LspTasks
begin

text \<open>
  The session of a language server (\<open>sandbox/src/lsp.rs\<close>): one primary process and auxiliary
  ones, shared by editors and tools. Reader tasks of the processes and calls of the clients run
  concurrently over the state below; each method of \<open>LspSession\<close> is a program of the
  scheduler, with the mutexes it takes. What is one step here is one atomic operation there, or
  several under one mutex. A continuation stands for what the caller does next.

  Histories, which the code does not keep: the frames handed to each client, and the requests
  \<open>send\<close> has taken on. Client and request numbers are natural numbers: they do not wrap.
\<close>

section \<open>State\<close>

text \<open>A frame on its way to a client or a process: bytes passed on as they came, with their value, or a value to be written as text.\<close>

datatype frame = Bytes string "string json" | Value "string json"

fun frame_json :: "frame \<Rightarrow> string json" where
  "frame_json (Bytes p v) = v"
| "frame_json (Value v) = v"

text \<open>The channel to a process: at most 64 frames wait, what has been written stays on record.\<close>

record chan =
  ch_queue :: "frame list"
  ch_open :: bool
  ch_written :: "frame list"

definition CHAN_CAP :: nat where
  "CHAN_CAP = 64"

datatype internal_pending =
    IpInitialize
  | IpTsserverForward "string json"
  | IpClientMerge nat
  | IpClientResolve nat int "string json"

record aux_child =
  ac_role :: string
  ac_init_options :: "string json"
  ac_chan :: chan
  ac_alive :: bool
  ac_next_req :: nat
  ac_pending :: "(nat \<times> internal_pending) list"
  ac_child :: bool

record pending_merge =
  pm_client :: nat
  pm_orig_id :: int
  pm_method :: string
  pm_params_uri :: "string option"
  pm_expected :: nat
  pm_parts :: "(nat \<times> string json option) list"

record mux =
  mx_cmd :: chan
  mx_pending :: "(nat \<times> nat \<times> int) list"
  mx_subs :: "nat list"
  mx_gone :: "nat list"
  mx_alive :: bool
  mx_child :: bool
  mx_next_client :: nat
  mx_next_req :: nat
  mx_initialized :: bool
  mx_outcome :: "(string json + string json) option"
  mx_open_uris :: "string list"
  mx_doc_versions :: "(string \<times> nat) list"
  mx_editor_uris :: "(string \<times> nat list) list"
  mx_cache :: "(string \<times> string json list) list"
  mx_diag_parts :: "(string \<times> (nat \<times> string json list) list) list"
  mx_aux :: "aux_child list"
  mx_merges :: "(nat \<times> pending_merge) list"
  mx_provenance :: "(string \<times> (item_key \<times> nat \<times> string json) list) list"
  mx_log :: "(nat \<times> frame) list"
  mx_asked :: "(nat \<times> int) list"

datatype mutex =
    LPending | LSubs | LMerges | LProvenance | LParts | LCache | LInternal nat | LEditor | LOpen | LVersions | LOutcome

type_synonym mprog = "(mutex, mux) prog"

text \<open>A hash map as the list of its entries; \<open>me_pick\<close> is the entry an iteration happens to meet first.\<close>

record mux_env =
  me_parse :: "string \<Rightarrow> string json option"
  me_pick :: "string list \<Rightarrow> nat"

definition hm_del :: "'k \<Rightarrow> ('k \<times> 'v) list \<Rightarrow> ('k \<times> 'v) list" where
  "hm_del k m = filter (\<lambda>e. fst e \<noteq> k) m"

definition hm_put :: "'k \<Rightarrow> 'v \<Rightarrow> ('k \<times> 'v) list \<Rightarrow> ('k \<times> 'v) list" where
  "hm_put k v m = (k, v) # hm_del k m"

definition hm_retain :: "('v \<Rightarrow> bool) \<Rightarrow> ('k \<times> 'v) list \<Rightarrow> ('k \<times> 'v) list" where
  "hm_retain P m = filter (\<lambda>e. P (snd e)) m"

lemma map_of_hm_del [simp]: "map_of (hm_del k m) = (map_of m)(k := None)"
  by (induction m) (auto simp: hm_del_def fun_eq_iff)

lemma map_of_hm_put [simp]: "map_of (hm_put k v m) = (map_of m)(k \<mapsto> v)"
  by (simp add: hm_put_def)

section \<open>Children\<close>

definition upd_aux :: "nat \<Rightarrow> (aux_child \<Rightarrow> aux_child) \<Rightarrow> mux \<Rightarrow> mux" where
  "upd_aux i f s = s\<lparr>mx_aux := (mx_aux s)[i - 1 := f (mx_aux s ! (i - 1))]\<rparr>"

text \<open>
  The child with index \<open>i\<close> (0 is the primary, which is not in the list). The list never changes its
  length, and the code only asks for children it has; what is no child is dead.
\<close>

definition no_child :: aux_child where
  "no_child = \<lparr>ac_role = [], ac_init_options = JNull, ac_chan = \<lparr>ch_queue = [], ch_open = False, ch_written = []\<rparr>,
     ac_alive = False, ac_next_req = 1, ac_pending = [], ac_child = False\<rparr>"

definition aux_at :: "nat \<Rightarrow> mux \<Rightarrow> aux_child" where
  "aux_at i s = (if i - 1 < length (mx_aux s) then mx_aux s ! (i - 1) else no_child)"

definition chan_push :: "frame \<Rightarrow> chan \<Rightarrow> chan" where
  "chan_push f ch = ch\<lparr>ch_queue := ch_queue ch @ [f]\<rparr>"

text \<open>\<open>try_send\<close> fails on a full or closed channel.\<close>

definition chan_ready :: "chan \<Rightarrow> bool" where
  "chan_ready ch \<longleftrightarrow> ch_open ch \<and> length (ch_queue ch) < CHAN_CAP"

definition try_send_aux :: "nat \<Rightarrow> frame \<Rightarrow> mux \<Rightarrow> mux option" where
  "try_send_aux i f s =
     (if chan_ready (ac_chan (aux_at i s))
      then Some (upd_aux i (\<lambda>a. a\<lparr>ac_chan := chan_push f (ac_chan a)\<rparr>) s) else None)"

text \<open>\<open>cmd_tx.send(frame).await\<close>: waits for room, fails when the channel is closed.\<close>

definition send_cmd :: "frame \<Rightarrow> (bool \<Rightarrow> mprog) \<Rightarrow> mprog" where
  "send_cmd f k = Act (\<lambda>s.
     if \<not> ch_open (mx_cmd s) then Some (s, k False)
     else if length (ch_queue (mx_cmd s)) < CHAN_CAP then Some (s\<lparr>mx_cmd := chan_push f (mx_cmd s)\<rparr>, k True)
     else None)"

text \<open>
  The writer task of a child: it takes frames from the channel and writes them, encoded, to the
  standard input of the process, until a write fails; \<open>outcomes\<close> says which writes succeed.
\<close>

definition child_chan :: "nat \<Rightarrow> mux \<Rightarrow> chan" where
  "child_chan i s = (if i = 0 then mx_cmd s else ac_chan (aux_at i s))"

definition upd_chan :: "nat \<Rightarrow> (chan \<Rightarrow> chan) \<Rightarrow> mux \<Rightarrow> mux" where
  "upd_chan i f s =
     (if i = 0 then s\<lparr>mx_cmd := f (mx_cmd s)\<rparr> else upd_aux i (\<lambda>a. a\<lparr>ac_chan := f (ac_chan a)\<rparr>) s)"

fun stdin_writer :: "nat \<Rightarrow> bool list \<Rightarrow> mprog" where
  "stdin_writer i [] = Fin"
| "stdin_writer i (ok # oks) = Act (\<lambda>s.
     case ch_queue (child_chan i s) of
       [] \<Rightarrow> None
     | f # fs \<Rightarrow>
         if ok then Some (upd_chan i (\<lambda>ch. ch\<lparr>ch_queue := fs, ch_written := ch_written ch @ [f]\<rparr>) s, stdin_writer i oks)
         else Some (upd_chan i (\<lambda>ch. ch\<lparr>ch_queue := [], ch_open := False\<rparr>) s, Fin))"

text \<open>The bytes a process reads: \<open>to_string()\<close> of values is the JSON library's.\<close>

definition frame_bytes :: "(string json \<Rightarrow> string) \<Rightarrow> frame \<Rightarrow> string" where
  "frame_bytes show_json f = (case f of Bytes p v \<Rightarrow> p | Value v \<Rightarrow> show_json v)"

definition stdin_bytes :: "(string json \<Rightarrow> string) \<Rightarrow> nat \<Rightarrow> mux \<Rightarrow> string" where
  "stdin_bytes show_json i s = concat (map (encode_message \<circ> frame_bytes show_json) (ch_written (child_chan i s)))"

section \<open>Messages\<close>

definition method_of :: "string json \<Rightarrow> string option" where
  "method_of msg = member_str ''method'' msg"

definition id_of :: "string json \<Rightarrow> int option" where
  "id_of msg = Option.bind (jget ''id'' msg) as_i64"

text \<open>\<open>id.cast_unsigned()\<close>.\<close>

definition cast_unsigned :: "int \<Rightarrow> nat" where
  "cast_unsigned i = nat (i mod 2 ^ 64)"

definition document_uri :: "string json \<Rightarrow> string option" where
  "document_uri msg = Option.bind (Option.bind (jget ''params'' msg) (jget ''textDocument'')) (member_str ''uri'')"

definition reply_result :: "int \<Rightarrow> string json \<Rightarrow> string json" where
  "reply_result i r = JObj [(''id'', JInt i), (''jsonrpc'', JStr ''2.0''), (''result'', r)]"

definition reply_error :: "int \<Rightarrow> string json \<Rightarrow> string json" where
  "reply_error i e = JObj [(''error'', e), (''id'', JInt i), (''jsonrpc'', JStr ''2.0'')]"

definition or_null :: "string json option \<Rightarrow> string json" where
  "or_null v = (case v of None \<Rightarrow> JNull | Some j \<Rightarrow> j)"

section \<open>Delivery\<close>

definition deliver :: "nat \<Rightarrow> frame \<Rightarrow> mux \<Rightarrow> mux" where
  "deliver c f s =
     (if c \<in> set (mx_subs s) \<and> c \<notin> set (mx_gone s) then s\<lparr>mx_log := mx_log s @ [(c, f)]\<rparr> else s)"

text \<open>What a client has received.\<close>

definition inbox :: "nat \<Rightarrow> mux \<Rightarrow> frame list" where
  "inbox c s = map snd (filter (\<lambda>e. fst e = c) (mx_log s))"

definition send_to_client :: "nat \<Rightarrow> string json \<Rightarrow> mprog \<Rightarrow> mprog" where
  "send_to_client c msg k = with_lock LSubs (\<lambda>s. (deliver c (Value msg) s, k))"

text \<open>
  The broadcast of a notification. The guard of \<open>subs\<close> lives to the end of the function: to
  remove clients whose receiver is gone, the mutex is taken once more.
\<close>

definition broadcast :: "frame \<Rightarrow> mprog \<Rightarrow> mprog" where
  "broadcast f k = Lock LSubs (Act (\<lambda>s.
     let s' = fold (\<lambda>c. deliver c f) (mx_subs s) s;
         dead = filter (\<lambda>c. c \<in> set (mx_gone s)) (mx_subs s)
     in Some (s',
        if dead = [] then Unlock LSubs k
        else Lock LSubs (Act (\<lambda>s. Some (s\<lparr>mx_subs := filter (\<lambda>c. c \<notin> set dead) (mx_subs s)\<rparr>,
               Unlock LSubs (Unlock LSubs k)))))))"

text \<open>The document and the diagnostics of a \<open>publishDiagnostics\<close>.\<close>

definition published :: "string json \<Rightarrow> (string \<times> string json list) option" where
  "published msg =
     (if method_of msg \<noteq> Some ''textDocument/publishDiagnostics'' then None
      else case jget ''params'' msg of
        None \<Rightarrow> None
      | Some params \<Rightarrow>
          (case (member_str ''uri'' params, Option.bind (jget ''diagnostics'' params) as_arr) of
             (Some uri, Some ds) \<Rightarrow> Some (uri, ds)
           | _ \<Rightarrow> None))"

definition parts_of :: "string \<Rightarrow> mux \<Rightarrow> (nat \<times> string json list) list" where
  "parts_of uri s = (case map_of (mx_diag_parts s) uri of None \<Rightarrow> [] | Some ps \<Rightarrow> ps)"

definition store_part :: "nat \<Rightarrow> string \<Rightarrow> string json list \<Rightarrow> mux \<Rightarrow> mux" where
  "store_part child uri ds s =
     (let ps = hm_put child ds (parts_of uri s) in
      s\<lparr>mx_diag_parts := hm_put uri ps (mx_diag_parts s), mx_cache := hm_put uri (concat_diag_parts ps) (mx_cache s)\<rparr>)"

definition with_diagnostics :: "string json list \<Rightarrow> string json \<Rightarrow> string json" where
  "with_diagnostics ds msg =
     (case jget ''params'' msg of None \<Rightarrow> msg | Some params \<Rightarrow> jset ''params'' (jset ''diagnostics'' (JArr ds) params) msg)"

definition dispatch_notification_frame :: "string json \<Rightarrow> string \<Rightarrow> nat \<Rightarrow> mprog \<Rightarrow> mprog" where
  "dispatch_notification_frame msg payload child k =
     (case published msg of
        None \<Rightarrow> broadcast (Bytes payload msg) k
      | Some (uri, ds) \<Rightarrow>
          Lock LParts (Lock LCache (Act (\<lambda>s.
            let s' = store_part child uri ds s; merged = concat_diag_parts (parts_of uri s');
                f = (if mx_aux s = [] then Bytes payload msg else Value (with_diagnostics merged msg))
            in Some (s', Unlock LCache (Unlock LParts (broadcast f k)))))))"

text \<open>The end of an auxiliary process takes its parts away; documents left without parts leave the cache.\<close>

definition remove_parts :: "nat \<Rightarrow> mux \<Rightarrow> mux" where
  "remove_parts child s =
     (let touched = filter (\<lambda>e. child \<in> fst ` set (snd e)) (mx_diag_parts s);
          rest = map (\<lambda>e. (fst e, hm_del child (snd e))) (mx_diag_parts s);
          cache = fold (\<lambda>e. if hm_del child (snd e) = [] then hm_del (fst e)
                            else hm_put (fst e) (concat_diag_parts (hm_del child (snd e)))) touched (mx_cache s)
      in s\<lparr>mx_diag_parts := filter (\<lambda>e. snd e \<noteq> []) rest, mx_cache := cache\<rparr>)"

definition drop_aux_parts :: "nat \<Rightarrow> mprog \<Rightarrow> mprog" where
  "drop_aux_parts child k =
     Lock LParts (Lock LCache (Act (\<lambda>s. Some (remove_parts child s, Unlock LCache (Unlock LParts k)))))"


section \<open>Merged requests\<close>

definition parts_in_order :: "pending_merge \<Rightarrow> (nat \<times> string json option) list" where
  "parts_in_order pm = map (\<lambda>i. (i, the (map_of (pm_parts pm) i))) (sort (map fst (pm_parts pm)))"

definition MAX_COMPLETION_PROVENANCE_URIS :: nat where
  "MAX_COMPLETION_PROVENANCE_URIS = 64"

text \<open>Where each served item came from; the entry evicted from a full table is the one the iteration meets first.\<close>

definition served_from :: "pending_merge \<Rightarrow> (item_key \<times> nat \<times> string json) list" where
  "served_from pm =
     fold (\<lambda>ci m. case completion_item_key (snd ci) of None \<Rightarrow> m | Some k \<Rightarrow> hm_put k ci m)
       (cf_kept (merge_completion_parts (parts_in_order pm))) []"

definition store_provenance :: "mux_env \<Rightarrow> string \<Rightarrow> (item_key \<times> nat \<times> string json) list \<Rightarrow> mux \<Rightarrow> mux" where
  "store_provenance E uri items s =
     (let prov = mx_provenance s; keys = map fst prov;
          kept = (if uri \<notin> set keys \<and> MAX_COMPLETION_PROVENANCE_URIS \<le> length prov \<and> keys \<noteq> []
                  then hm_del (keys ! (me_pick E keys mod length keys)) prov else prov)
      in s\<lparr>mx_provenance := hm_put uri items kept\<rparr>)"

definition record_completion_provenance :: "mux_env \<Rightarrow> pending_merge \<Rightarrow> mprog \<Rightarrow> mprog" where
  "record_completion_provenance E pm k =
     (case pm_params_uri pm of
        None \<Rightarrow> k
      | Some uri \<Rightarrow> with_lock LProvenance (\<lambda>s. (store_provenance E uri (served_from pm) s, k)))"

definition complete_merge :: "mux_env \<Rightarrow> pending_merge \<Rightarrow> mprog \<Rightarrow> mprog" where
  "complete_merge E pm k =
     (let answer = send_to_client (pm_client pm)
            (reply_result (pm_orig_id pm) (merge_result_for (pm_method pm) (map snd (parts_in_order pm)))) k
      in if pm_method pm = ''textDocument/completion'' then record_completion_provenance E pm answer else answer)"

text \<open>Putting a part; the merge is complete when there are as many parts as expected.\<close>

definition put_part :: "nat \<Rightarrow> string json option \<Rightarrow> pending_merge \<Rightarrow> pending_merge" where
  "put_part i p pm = pm\<lparr>pm_parts := hm_put i p (pm_parts pm)\<rparr>"

definition complete :: "pending_merge \<Rightarrow> bool" where
  "complete pm \<longleftrightarrow> pm_expected pm \<le> length (pm_parts pm)"

definition insert_merge_part :: "mux_env \<Rightarrow> nat \<Rightarrow> nat \<Rightarrow> string json option \<Rightarrow> mprog \<Rightarrow> mprog" where
  "insert_merge_part E i sid part k = with_lock LMerges (\<lambda>s.
     case map_of (mx_merges s) sid of
       None \<Rightarrow> (s, k)
     | Some pm \<Rightarrow>
         (let pm' = put_part i part pm in
          if complete pm' then (s\<lparr>mx_merges := hm_del sid (mx_merges s)\<rparr>, complete_merge E pm' k)
          else (s\<lparr>mx_merges := hm_put sid pm' (mx_merges s)\<rparr>, k)))"

definition try_complete_merge :: "mux_env \<Rightarrow> nat \<Rightarrow> mprog \<Rightarrow> mprog" where
  "try_complete_merge E sid k = with_lock LMerges (\<lambda>s.
     case map_of (mx_merges s) sid of
       None \<Rightarrow> (s, k)
     | Some pm \<Rightarrow>
         (if complete pm then (s\<lparr>mx_merges := hm_del sid (mx_merges s)\<rparr>, complete_merge E pm k) else (s, k)))"

definition abandon_merge_expectation :: "nat \<Rightarrow> mprog \<Rightarrow> mprog" where
  "abandon_merge_expectation sid k = with_lock LMerges (\<lambda>s.
     (case map_of (mx_merges s) sid of
        None \<Rightarrow> s
      | Some pm \<Rightarrow> s\<lparr>mx_merges := hm_put sid (pm\<lparr>pm_expected := pm_expected pm - 1\<rparr>) (mx_merges s)\<rparr>, k))"

text \<open>
  An answer of the primary to a merged request. The mutex of \<open>pending\<close> is taken under that of
  \<open>merges\<close>. \<open>otherwise\<close> is the way of a request that is not merged.
\<close>

definition primary_part :: "mux_env \<Rightarrow> nat \<Rightarrow> string json \<Rightarrow> pending_merge \<Rightarrow> mprog \<Rightarrow> mux \<Rightarrow> mux \<times> mprog" where
  "primary_part E sid msg pm k s =
     (let s = s\<lparr>mx_pending := hm_del sid (mx_pending s)\<rparr>;
          without = s\<lparr>mx_merges := hm_del sid (mx_merges s)\<rparr>;
          pm' = put_part PRIMARY_PART (jget ''result'' msg) pm
      in case jget ''error'' msg of
           Some e \<Rightarrow> (without, send_to_client (pm_client pm) (reply_error (pm_orig_id pm) e) k)
         | None \<Rightarrow>
             if complete pm' then (without, complete_merge E pm' k)
             else (s\<lparr>mx_merges := hm_put sid pm' (mx_merges s)\<rparr>, k))"

definition record_primary_merge_part :: "mux_env \<Rightarrow> nat \<Rightarrow> string json \<Rightarrow> mprog \<Rightarrow> mprog \<Rightarrow> mprog" where
  "record_primary_merge_part E sid msg otherwise k =
     Lock LMerges (Act (\<lambda>s.
       case map_of (mx_merges s) sid of
         None \<Rightarrow> Some (s, Unlock LMerges otherwise)
       | Some pm \<Rightarrow> Some (s, Lock LPending (Act (\<lambda>s.
           Some (case map_of (mx_merges s) sid of
                   None \<Rightarrow> (s, Unlock LPending (Unlock LMerges k))
                 | Some pm \<Rightarrow> map_prod id (\<lambda>k. Unlock LPending (Unlock LMerges k)) (primary_part E sid msg pm k s)))))))"

definition aux_part :: "string json \<Rightarrow> string json option" where
  "aux_part msg = (if jget ''error'' msg \<noteq> None then None else jget ''result'' msg)"

section \<open>Requests of the session to its children\<close>

text \<open>
  A request under a number of the child itself: the number is drawn, the request is built (which
  may panic), entered in the child's table, and offered to its channel; with \<open>recheck\<close>, the child
  must still be alive after that. A request that cannot get there is taken out again.
\<close>

definition take_out :: "nat \<Rightarrow> nat \<Rightarrow> mprog \<Rightarrow> mprog" where
  "take_out i n k = with_lock (LInternal i) (\<lambda>s. (upd_aux i (\<lambda>a. a\<lparr>ac_pending := hm_del n (ac_pending a)\<rparr>) s, k))"

definition offer :: "nat \<Rightarrow> nat \<Rightarrow> string json \<Rightarrow> bool \<Rightarrow> mprog \<Rightarrow> mprog \<Rightarrow> mprog" where
  "offer i n req recheck unreachable k = Act (\<lambda>s. Some (case try_send_aux i (Value req) s of
     None \<Rightarrow> (s, take_out i n unreachable)
   | Some s' \<Rightarrow> (s',
       if recheck then Act (\<lambda>s. Some (s, if ac_alive (aux_at i s) then k else take_out i n unreachable)) else k)))"

definition post_aux ::
    "nat \<Rightarrow> (nat \<Rightarrow> string json option) \<Rightarrow> internal_pending \<Rightarrow> bool \<Rightarrow> mprog \<Rightarrow> mprog \<Rightarrow> mprog \<Rightarrow> mprog" where
  "post_aux i mk entry recheck panicked unreachable k = Act (\<lambda>s.
     let n = ac_next_req (aux_at i s) in
     Some (upd_aux i (\<lambda>a. a\<lparr>ac_next_req := n + 1\<rparr>) s,
       case mk n of
         None \<Rightarrow> panicked
       | Some req \<Rightarrow> with_lock (LInternal i)
           (\<lambda>s. (upd_aux i (\<lambda>a. a\<lparr>ac_pending := hm_put n entry (ac_pending a)\<rparr>) s,
             offer i n req recheck unreachable k))))"

definition with_id :: "nat \<Rightarrow> string json \<Rightarrow> string json" where
  "with_id n msg = jset ''id'' (JInt (int n)) msg"

text \<open>The copies of \<open>initialize\<close>; injecting options into parameters that are neither an object nor null panics.\<close>

definition initialize_copy :: "string json \<Rightarrow> string json \<Rightarrow> nat \<Rightarrow> string json option" where
  "initialize_copy msg init n =
     (case merged_initialization_options msg init of
        None \<Rightarrow> Some (with_id n msg)
      | Some merged \<Rightarrow>
          (case index_set ''initializationOptions'' merged (or_null (jget ''params'' msg)) of
             None \<Rightarrow> None
           | Some params \<Rightarrow> Some (jset ''params'' params (with_id n msg))))"

fun fan_out_initialize :: "string json \<Rightarrow> nat list \<Rightarrow> mprog \<Rightarrow> mprog \<Rightarrow> mprog" where
  "fan_out_initialize msg [] panicked k = k"
| "fan_out_initialize msg (i # is) panicked k = Act (\<lambda>s. Some (s,
     let rest = fan_out_initialize msg is panicked k in
     if \<not> ac_alive (aux_at i s) then rest
     else post_aux i (initialize_copy msg (ac_init_options (aux_at i s))) IpInitialize False panicked rest rest))"

section \<open>The primary asks for the type checker\<close>

definition send_tsserver_response :: "string json \<Rightarrow> string json \<Rightarrow> mprog \<Rightarrow> mprog" where
  "send_tsserver_response vue_id body k = Act (\<lambda>s.
     let f = Value (JObj [(''jsonrpc'', JStr ''2.0''), (''method'', JStr ''tsserver/response''),
               (''params'', JArr [JArr [vue_id, body]])])
     in Some (if chan_ready (mx_cmd s) then s\<lparr>mx_cmd := chan_push f (mx_cmd s)\<rparr> else s, k))"

definition tsserver_command :: "string \<Rightarrow> string json \<Rightarrow> nat \<Rightarrow> string json" where
  "tsserver_command command payload n =
     JObj [(''id'', JInt (int n)), (''jsonrpc'', JStr ''2.0''), (''method'', JStr ''workspace/executeCommand''),
       (''params'', JObj [(''arguments'', JArr [JStr command, payload]), (''command'', JStr ''typescript.tsserverRequest'')])]"

definition child_indexes :: "mux \<Rightarrow> nat list" where
  "child_indexes s = [1..<Suc (length (mx_aux s))]"

definition handle_tsserver_request :: "string json \<Rightarrow> mprog \<Rightarrow> mprog" where
  "handle_tsserver_request msg k =
     (case parse_tsserver_request msg of
        None \<Rightarrow> k
      | Some (vue_id, command, payload) \<Rightarrow> Act (\<lambda>s. Some (s,
          case filter (\<lambda>i. ac_role (aux_at i s) = ''tsserver-forward'' \<and> ac_alive (aux_at i s)) (child_indexes s) of
            [] \<Rightarrow> send_tsserver_response vue_id JNull k
          | i # _ \<Rightarrow> post_aux i (\<lambda>n. Some (tsserver_command command payload n)) (IpTsserverForward vue_id) False k
                     (send_tsserver_response vue_id JNull k) k)))"


section \<open>The reader of the primary\<close>

text \<open>
  The way of a request that is not merged: the request leaves \<open>pending\<close> and its client gets the
  answer under its own number, with the mutex of \<open>pending\<close> held.
\<close>

definition answer_pending :: "nat \<Rightarrow> string json \<Rightarrow> mprog \<Rightarrow> mprog" where
  "answer_pending sid msg k =
     Lock LPending (Act (\<lambda>s.
       case map_of (mx_pending s) sid of
         None \<Rightarrow> Some (s, Unlock LPending k)
       | Some (c, orig) \<Rightarrow>
           Some (s\<lparr>mx_pending := hm_del sid (mx_pending s)\<rparr>,
             send_to_client c (jset ''id'' (JInt orig) msg) (Unlock LPending k))))"

definition primary_frame :: "mux_env \<Rightarrow> string \<Rightarrow> mprog \<Rightarrow> mprog" where
  "primary_frame E payload k =
     (case me_parse E payload of
        None \<Rightarrow> k
      | Some msg \<Rightarrow>
          (case id_of msg of
             Some i \<Rightarrow> record_primary_merge_part E (cast_unsigned i) msg (answer_pending (cast_unsigned i) msg k) k
           | None \<Rightarrow>
               if method_of msg = Some ''tsserver/request'' then handle_tsserver_request msg k
               else dispatch_notification_frame msg payload 0 k))"

fun handle_all :: "('a \<Rightarrow> mprog \<Rightarrow> mprog) \<Rightarrow> 'a list \<Rightarrow> mprog \<Rightarrow> mprog" where
  "handle_all f [] k = k"
| "handle_all f (x # xs) k = f x (handle_all f xs k)"

text \<open>
  The end of the primary: the clients lose their channels, and the auxiliary processes their
  handles. \<open>drop(child.kill())\<close> drops a future that has not been polled: no process is signalled.
\<close>

fun release_children :: "nat list \<Rightarrow> mprog \<Rightarrow> mprog" where
  "release_children [] k = k"
| "release_children (i # is) k =
     Act (\<lambda>s. Some (upd_aux i (\<lambda>a. a\<lparr>ac_alive := False\<rparr>) s,
       Act (\<lambda>s. Some (upd_aux i (\<lambda>a. a\<lparr>ac_child := False\<rparr>) s, release_children is k))))"

definition primary_eof :: "mprog \<Rightarrow> mprog" where
  "primary_eof k =
     Act (\<lambda>s. Some (s\<lparr>mx_alive := False\<rparr>,
       with_lock LSubs (\<lambda>s. (s\<lparr>mx_subs := []\<rparr>,
         Act (\<lambda>s. Some (s, release_children (child_indexes s) k))))))"

text \<open>The reader task: what the process writes, cut into chunks, and then the end of its output.\<close>

definition primary_reader :: "mux_env \<Rightarrow> string list \<Rightarrow> mprog" where
  "primary_reader E chunks = handle_all (primary_frame E) (fst (read_chunks new_reader chunks)) (primary_eof Fin)"

section \<open>The readers of the auxiliary processes\<close>

definition body_of :: "string json \<Rightarrow> string json" where
  "body_of msg = or_null (Option.bind (jget ''result'' msg) (jget ''body''))"

definition aux_answer :: "mux_env \<Rightarrow> nat \<Rightarrow> string json \<Rightarrow> internal_pending option \<Rightarrow> mprog \<Rightarrow> mprog" where
  "aux_answer E i msg entry k =
     (case entry of
        None \<Rightarrow> k
      | Some IpInitialize \<Rightarrow> k
      | Some (IpTsserverForward vue_id) \<Rightarrow> send_tsserver_response vue_id (body_of msg) k
      | Some (IpClientMerge sid) \<Rightarrow> insert_merge_part E i sid (aux_part msg) k
      | Some (IpClientResolve c orig item) \<Rightarrow>
          send_to_client c (reply_result orig (case jget ''result'' msg of Some r \<Rightarrow> r | None \<Rightarrow> item)) k)"

definition aux_frame :: "mux_env \<Rightarrow> nat \<Rightarrow> string \<Rightarrow> mprog \<Rightarrow> mprog" where
  "aux_frame E i payload k =
     (case me_parse E payload of
        None \<Rightarrow> k
      | Some msg \<Rightarrow>
          (case id_of msg of
             Some n \<Rightarrow> with_lock (LInternal i) (\<lambda>s.
               (upd_aux i (\<lambda>a. a\<lparr>ac_pending := hm_del (cast_unsigned n) (ac_pending a)\<rparr>) s,
                aux_answer E i msg (map_of (ac_pending (aux_at i s)) (cast_unsigned n)) k))
           | None \<Rightarrow> dispatch_notification_frame msg payload i k))"

text \<open>
  The end of an auxiliary process: its parts go, and what it still owed is settled without it.
  The responses to the primary are offered while the mutex of the child's table is held, the rest
  afterwards.
\<close>

definition tsserver_debts :: "(nat \<times> internal_pending) list \<Rightarrow> string json list" where
  "tsserver_debts es = List.map_filter (\<lambda>e. case snd e of IpTsserverForward v \<Rightarrow> Some v | _ \<Rightarrow> None) es"

definition merge_debts :: "(nat \<times> internal_pending) list \<Rightarrow> nat list" where
  "merge_debts es = List.map_filter (\<lambda>e. case snd e of IpClientMerge sid \<Rightarrow> Some sid | _ \<Rightarrow> None) es"

definition resolve_debts :: "(nat \<times> internal_pending) list \<Rightarrow> (nat \<times> int \<times> string json) list" where
  "resolve_debts es = List.map_filter (\<lambda>e. case snd e of IpClientResolve c i item \<Rightarrow> Some (c, i, item) | _ \<Rightarrow> None) es"

definition aux_eof :: "mux_env \<Rightarrow> nat \<Rightarrow> mprog \<Rightarrow> mprog" where
  "aux_eof E i k =
     Act (\<lambda>s. Some (upd_aux i (\<lambda>a. a\<lparr>ac_alive := False\<rparr>) s,
       drop_aux_parts i
         (Lock (LInternal i) (Act (\<lambda>s.
           let es = ac_pending (aux_at i s) in
           Some (upd_aux i (\<lambda>a. a\<lparr>ac_pending := []\<rparr>) s,
             handle_all (\<lambda>v. send_tsserver_response v JNull) (tsserver_debts es)
               (Unlock (LInternal i)
                 (handle_all (\<lambda>sid. insert_merge_part E i sid None) (merge_debts es)
                   (handle_all (\<lambda>(c, orig, item). send_to_client c (reply_result orig item)) (resolve_debts es) k)))))))))"

definition aux_reader :: "mux_env \<Rightarrow> nat \<Rightarrow> string list \<Rightarrow> mprog" where
  "aux_reader E i chunks = handle_all (aux_frame E i) (fst (read_chunks new_reader chunks)) (aux_eof E i Fin)"

section \<open>Clients come and go\<close>

definition subscribe :: "(nat \<Rightarrow> mprog) \<Rightarrow> mprog" where
  "subscribe k =
     Act (\<lambda>s. let c = mx_next_client s in
       Some (s\<lparr>mx_next_client := c + 1\<rparr>, with_lock LSubs (\<lambda>s. (s\<lparr>mx_subs := mx_subs s @ [c]\<rparr>, k c))))"

fun forget_resolves :: "nat \<Rightarrow> nat list \<Rightarrow> mprog \<Rightarrow> mprog" where
  "forget_resolves c [] k = k"
| "forget_resolves c (i # is) k = with_lock (LInternal i) (\<lambda>s.
     (upd_aux i (\<lambda>a. a\<lparr>ac_pending := hm_retain (\<lambda>e. case e of IpClientResolve d _ _ \<Rightarrow> d \<noteq> c | _ \<Rightarrow> True) (ac_pending a)\<rparr>) s,
      forget_resolves c is k))"

definition release_uris :: "nat \<Rightarrow> (string \<times> nat list) list \<Rightarrow> (string \<times> nat list) list" where
  "release_uris c m = filter (\<lambda>e. snd e \<noteq> []) (map (\<lambda>e. (fst e, removeAll c (snd e))) m)"

text \<open>The guard of \<open>pending\<close> lives to the end of the function, over the other mutexes.\<close>

definition unsubscribe :: "nat \<Rightarrow> mprog \<Rightarrow> mprog" where
  "unsubscribe c k =
     with_lock LSubs (\<lambda>s. (s\<lparr>mx_subs := removeAll c (mx_subs s)\<rparr>,
       Lock LPending (Act (\<lambda>s. Some (s\<lparr>mx_pending := hm_retain (\<lambda>e. fst e \<noteq> c) (mx_pending s)\<rparr>,
         with_lock LMerges (\<lambda>s. (s\<lparr>mx_merges := hm_retain (\<lambda>pm. pm_client pm \<noteq> c) (mx_merges s)\<rparr>,
           Act (\<lambda>s. Some (s, forget_resolves c (child_indexes s)
             (with_lock LEditor (\<lambda>s. (s\<lparr>mx_editor_uris := release_uris c (mx_editor_uris s)\<rparr>,
               Unlock LPending k))))))))))))"

section \<open>Sending\<close>

datatype outcome = Sent | SendError string | Panicked

definition err_invalid_json :: string where
  "err_invalid_json = ''VNL-SBX-LSP-001: invalid JSON payload''"

definition err_id :: string where
  "err_id = ''VNL-SBX-LSP-002: JSON-RPC id must be an integer, got non-integer''"

definition err_dead :: string where
  "err_dead = ''VNL-SBX-LSP-003: LSP process is dead''"

definition has_requesting_aux :: "mux \<Rightarrow> bool" where
  "has_requesting_aux s \<longleftrightarrow> list_ex (\<lambda>a. aux_answers_requests (ac_role a)) (mx_aux s)"

definition owners_of :: "item_key option \<Rightarrow> mux \<Rightarrow> nat list" where
  "owners_of key s =
     (case key of
        None \<Rightarrow> []
      | Some k \<Rightarrow> remdups (List.map_filter (\<lambda>e. map_option fst (map_of (snd e) k)) (mx_provenance s)))"

text \<open>
  A \<open>completionItem/resolve\<close> goes to the child that served the item: the primary (\<open>historic\<close>), an
  auxiliary process, or nobody, and then the item comes back as it is.
\<close>

definition route_completion_resolve :: "nat \<Rightarrow> string json \<Rightarrow> int \<Rightarrow> mprog \<Rightarrow> mprog \<Rightarrow> mprog" where
  "route_completion_resolve c msg orig historic k =
     (let item = or_null (jget ''params'' msg);
          fallback = send_to_client c (reply_result orig item) k;
          go = (\<lambda>owners. case owners of
             [i] \<Rightarrow>
               (if i = PRIMARY_PART then historic
                else Act (\<lambda>s. Some (s,
                  if length (mx_aux s) < i then fallback
                  else if \<not> ac_alive (aux_at i s) then fallback
                  else post_aux i (\<lambda>n. Some (with_id n msg)) (IpClientResolve c orig item) True fallback fallback k)))
           | _ \<Rightarrow> fallback)
      in case completion_item_key item of
           None \<Rightarrow> go []
         | Some key \<Rightarrow> with_lock LProvenance (\<lambda>s. (s, go (owners_of (Some key) s))))"

text \<open>The auxiliary processes alive among the given ones, asked one after the other.\<close>

fun alive_children :: "nat list \<Rightarrow> (nat list \<Rightarrow> mprog) \<Rightarrow> mprog" where
  "alive_children [] k = k []"
| "alive_children (i # is) k = Act (\<lambda>s. Some (s,
     alive_children is (\<lambda>js. k (if ac_alive (aux_at i s) then i # js else js))))"

fun fan_out_request :: "mux_env \<Rightarrow> string json \<Rightarrow> nat \<Rightarrow> nat list \<Rightarrow> mprog \<Rightarrow> mprog" where
  "fan_out_request E msg sid [] k = try_complete_merge E sid k"
| "fan_out_request E msg sid (i # is) k = Act (\<lambda>s. Some (s,
     let rest = fan_out_request E msg sid is k; without = abandon_merge_expectation sid rest in
     if \<not> ac_alive (aux_at i s) then without
     else post_aux i (\<lambda>n. Some (with_id n msg)) (IpClientMerge sid) True without without rest))"

definition send_request :: "mux_env \<Rightarrow> nat \<Rightarrow> string json \<Rightarrow> int \<Rightarrow> (outcome \<Rightarrow> mprog) \<Rightarrow> mprog" where
  "send_request E c msg orig k = Act (\<lambda>s.
     let sid = mx_next_req s; m = method_of msg;
         responders = filter (\<lambda>i. aux_answers_requests (ac_role (aux_at i s))) (child_indexes s);
         barrier = (responders \<noteq> [] \<and> map_option merge_route_for_method m = Some ToAll);
         initialize = (if m = Some ''initialize''
           then Act (\<lambda>s. Some (s, fan_out_initialize msg (child_indexes s) (k Panicked) (k Sent))) else k Sent);
         forward = (\<lambda>targets. send_cmd (Value (with_id sid msg)) (\<lambda>ok.
           if ok then (if barrier then fan_out_request E msg sid targets initialize else initialize)
           else if barrier then with_lock LMerges (\<lambda>s. (s\<lparr>mx_merges := hm_del sid (mx_merges s)\<rparr>, k (SendError err_dead)))
           else k (SendError err_dead)))
     in Some (s\<lparr>mx_next_req := sid + 1\<rparr>,
          with_lock LPending (\<lambda>s. (s\<lparr>mx_pending := hm_put sid (c, orig) (mx_pending s)\<rparr>,
            if barrier then alive_children responders (\<lambda>targets.
              with_lock LMerges (\<lambda>s. (s\<lparr>mx_merges := hm_put sid
                \<lparr>pm_client = c, pm_orig_id = orig, pm_method = the m, pm_params_uri = document_uri msg,
                 pm_expected = length targets + 1, pm_parts = []\<rparr> (mx_merges s)\<rparr>, forward targets)))
            else forward []))))"

fun fan_out_notification :: "frame \<Rightarrow> nat list \<Rightarrow> mprog \<Rightarrow> mprog" where
  "fan_out_notification f [] k = k"
| "fan_out_notification f (i # is) k = Act (\<lambda>s. Some (s,
     let rest = fan_out_notification f is k in
     if \<not> ac_alive (aux_at i s) then rest
     else Act (\<lambda>s. Some (case try_send_aux i f s of None \<Rightarrow> s | Some s' \<Rightarrow> s', rest))))"

definition send_notification :: "string \<Rightarrow> string json \<Rightarrow> (outcome \<Rightarrow> mprog) \<Rightarrow> mprog" where
  "send_notification payload msg k =
     (let f = Bytes payload msg;
          fan_out = Act (\<lambda>s. Some (s, fan_out_notification f (child_indexes s) (k Sent)))
      in Act (\<lambda>s. Some (s, send_cmd f (\<lambda>ok.
           if \<not> ok then k (SendError err_dead)
           else if mx_aux s = [] then k Sent
           else (case (method_of msg, document_uri msg) of
                   (Some m, Some uri) \<Rightarrow>
                     (if m = ''textDocument/didChange'' \<or> m = ''textDocument/didClose''
                      then with_lock LProvenance (\<lambda>s. (s\<lparr>mx_provenance := hm_del uri (mx_provenance s)\<rparr>, fan_out))
                      else fan_out)
                 | _ \<Rightarrow> fan_out)))))"

definition send :: "mux_env \<Rightarrow> nat \<Rightarrow> string \<Rightarrow> (outcome \<Rightarrow> mprog) \<Rightarrow> mprog" where
  "send E c payload k =
     (case me_parse E payload of
        None \<Rightarrow> k (SendError err_invalid_json)
      | Some msg \<Rightarrow>
          (case jget ''id'' msg of
             None \<Rightarrow> send_notification payload msg k
           | Some v \<Rightarrow>
               (case as_i64 v of
                  None \<Rightarrow> k (SendError err_id)
                | Some orig \<Rightarrow> Act (\<lambda>s. Some (s\<lparr>mx_asked := mx_asked s @ [(c, orig)]\<rparr>,
                    if has_requesting_aux s \<and> method_of msg = Some ''completionItem/resolve''
                    then route_completion_resolve c msg orig (send_request E c msg orig k) (k Sent)
                    else send_request E c msg orig k)))))"


section \<open>State shared by the clients\<close>

text \<open>The first caller may send \<open>initialize\<close>; the others wait for its outcome, at most thirty seconds.\<close>

definition try_mark_initialized :: "(bool \<Rightarrow> mprog) \<Rightarrow> mprog" where
  "try_mark_initialized k = Act (\<lambda>s. Some (s\<lparr>mx_initialized := True\<rparr>, k (\<not> mx_initialized s)))"

definition set_initialize_outcome :: "string json + string json \<Rightarrow> mprog \<Rightarrow> mprog" where
  "set_initialize_outcome r k = with_lock LOutcome (\<lambda>s. (s\<lparr>mx_outcome := Some r\<rparr>, k))"

text \<open>Either the outcome is there, or the wait ends at the time limit with what is there then.\<close>

definition wait_for_initialize_outcome :: "bool \<Rightarrow> ((string json + string json) option \<Rightarrow> mprog) \<Rightarrow> mprog" where
  "wait_for_initialize_outcome times_out k = with_lock LOutcome (\<lambda>s. (s,
     case mx_outcome s of
       Some r \<Rightarrow> k (Some r)
     | None \<Rightarrow>
         if times_out then with_lock LOutcome (\<lambda>s. (s, k (mx_outcome s)))
         else Act (\<lambda>s. case mx_outcome s of None \<Rightarrow> None | Some r \<Rightarrow> Some (s, with_lock LOutcome (\<lambda>s. (s, k (mx_outcome s)))))))"

definition try_mark_uri_open :: "string \<Rightarrow> (bool \<Rightarrow> mprog) \<Rightarrow> mprog" where
  "try_mark_uri_open uri k = with_lock LOpen (\<lambda>s.
     (s\<lparr>mx_open_uris := List.insert uri (mx_open_uris s)\<rparr>, k (uri \<notin> set (mx_open_uris s))))"

definition I32_MAX :: nat where
  "I32_MAX = 2 ^ 31 - 1"

definition next_doc_version :: "string \<Rightarrow> (nat \<Rightarrow> mprog) \<Rightarrow> mprog" where
  "next_doc_version uri k = with_lock LVersions (\<lambda>s.
     let next = sat_add I32_MAX (case map_of (mx_doc_versions s) uri of None \<Rightarrow> 1 | Some v \<Rightarrow> v) 1
     in (s\<lparr>mx_doc_versions := hm_put uri next (mx_doc_versions s)\<rparr>, k next))"

definition cached_diagnostics :: "string \<Rightarrow> (string json list option \<Rightarrow> mprog) \<Rightarrow> mprog" where
  "cached_diagnostics uri k = with_lock LCache (\<lambda>s. (s, k (map_of (mx_cache s) uri)))"

text \<open>The two maps are cleared one after the other, each under its own mutex.\<close>

definition invalidate_diagnostics :: "string \<Rightarrow> mprog \<Rightarrow> mprog" where
  "invalidate_diagnostics uri k =
     with_lock LCache (\<lambda>s. (s\<lparr>mx_cache := hm_del uri (mx_cache s)\<rparr>,
       with_lock LParts (\<lambda>s. (s\<lparr>mx_diag_parts := hm_del uri (mx_diag_parts s)\<rparr>, k))))"

text \<open>A wait for diagnostics: it ends when there are some, or at its time limit with what is there then.\<close>

definition wait_for_diagnostics :: "string \<Rightarrow> bool \<Rightarrow> (string json list option \<Rightarrow> mprog) \<Rightarrow> mprog" where
  "wait_for_diagnostics uri times_out k =
     cached_diagnostics uri (\<lambda>d.
       if d \<noteq> None then k d
       else if times_out then cached_diagnostics uri k
       else Act (\<lambda>s. case map_of (mx_cache s) uri of None \<Rightarrow> None | Some d \<Rightarrow> Some (s, k (Some d))))"

definition editors_of :: "string \<Rightarrow> mux \<Rightarrow> nat list" where
  "editors_of uri s = (case map_of (mx_editor_uris s) uri of None \<Rightarrow> [] | Some cs \<Rightarrow> cs)"

definition has_editor_client :: "string \<Rightarrow> (bool \<Rightarrow> mprog) \<Rightarrow> mprog" where
  "has_editor_client uri k = with_lock LEditor (\<lambda>s. (s, k (editors_of uri s \<noteq> [])))"

definition mark_editor_uri_open :: "string \<Rightarrow> nat \<Rightarrow> mprog \<Rightarrow> mprog" where
  "mark_editor_uri_open uri c k = with_lock LEditor (\<lambda>s.
     (s\<lparr>mx_editor_uris := hm_put uri (List.insert c (editors_of uri s)) (mx_editor_uris s)\<rparr>, k))"

definition mark_editor_uri_close :: "string \<Rightarrow> nat \<Rightarrow> mprog \<Rightarrow> mprog" where
  "mark_editor_uri_close uri c k = with_lock LEditor (\<lambda>s.
     (case map_of (mx_editor_uris s) uri of
        None \<Rightarrow> s
      | Some cs \<Rightarrow> s\<lparr>mx_editor_uris :=
          (if removeAll c cs = [] then hm_del uri (mx_editor_uris s) else hm_put uri (removeAll c cs) (mx_editor_uris s))\<rparr>, k))"

section \<open>A new session\<close>

definition new_chan :: chan where
  "new_chan = \<lparr>ch_queue = [], ch_open = True, ch_written = []\<rparr>"

text \<open>
  The auxiliary processes of known roles that start, in the order of the specification;
  \<open>spawns\<close> says which program can be started.
\<close>

definition new_aux :: "lsp_aux \<Rightarrow> aux_child" where
  "new_aux x = \<lparr>ac_role = ax_role x, ac_init_options = ax_init_options x, ac_chan = new_chan, ac_alive = True,
     ac_next_req = 1, ac_pending = [], ac_child = True\<rparr>"

definition spawn_session :: "(string \<Rightarrow> string list \<Rightarrow> string option) \<Rightarrow> lsp_toolchain \<Rightarrow> string + mux" where
  "spawn_session spawn_error spec =
     (case spawn_error (tc_bin spec) (tc_args spec) of
        Some e \<Rightarrow> Inl (''LSP spawn error for '' @ tc_name spec @ '': '' @ e)
      | None \<Rightarrow> Inr
         \<lparr>mx_cmd = new_chan, mx_pending = [], mx_subs = [], mx_gone = [], mx_alive = True, mx_child = True,
          mx_next_client = 1, mx_next_req = 1, mx_initialized = False, mx_outcome = None, mx_open_uris = [],
          mx_doc_versions = [], mx_editor_uris = [], mx_cache = [], mx_diag_parts = [],
          mx_aux = map new_aux (filter (\<lambda>x. is_known_aux_role (ax_role x) \<and> spawn_error (ax_bin x) (ax_args x) = None) (tc_aux spec)),
          mx_merges = [], mx_provenance = [], mx_log = [], mx_asked = []\<rparr>)"


section \<open>The tasks of a session\<close>

text \<open>What clients do with a session, in any order; a client whose call panics drops its receiver without a word.\<close>

datatype client_op =
    OpSend string
  | OpMarkInitialized
  | OpSetOutcome "string json + string json"
  | OpWaitOutcome bool
  | OpMarkUriOpen string
  | OpNextDocVersion string
  | OpCachedDiagnostics string
  | OpInvalidate string
  | OpWaitDiagnostics string bool
  | OpHasEditor string
  | OpEditorOpen string
  | OpEditorClose string

definition crash :: "nat \<Rightarrow> mprog" where
  "crash c = Act (\<lambda>s. Some (s\<lparr>mx_gone := c # mx_gone s\<rparr>, Dead))"

fun client_op_prog :: "mux_env \<Rightarrow> nat \<Rightarrow> client_op \<Rightarrow> mprog \<Rightarrow> mprog" where
  "client_op_prog E c (OpSend payload) k = send E c payload (\<lambda>r. if r = Panicked then crash c else k)"
| "client_op_prog E c OpMarkInitialized k = try_mark_initialized (\<lambda>_. k)"
| "client_op_prog E c (OpSetOutcome r) k = set_initialize_outcome r k"
| "client_op_prog E c (OpWaitOutcome t) k = wait_for_initialize_outcome t (\<lambda>_. k)"
| "client_op_prog E c (OpMarkUriOpen u) k = try_mark_uri_open u (\<lambda>_. k)"
| "client_op_prog E c (OpNextDocVersion u) k = next_doc_version u (\<lambda>_. k)"
| "client_op_prog E c (OpCachedDiagnostics u) k = cached_diagnostics u (\<lambda>_. k)"
| "client_op_prog E c (OpInvalidate u) k = invalidate_diagnostics u k"
| "client_op_prog E c (OpWaitDiagnostics u t) k = wait_for_diagnostics u t (\<lambda>_. k)"
| "client_op_prog E c (OpHasEditor u) k = has_editor_client u (\<lambda>_. k)"
| "client_op_prog E c (OpEditorOpen u) k = mark_editor_uri_open u c k"
| "client_op_prog E c (OpEditorClose u) k = mark_editor_uri_close u c k"

definition client :: "mux_env \<Rightarrow> client_op list \<Rightarrow> mprog" where
  "client E ops = subscribe (\<lambda>c. handle_all (client_op_prog E c) ops (unsubscribe c Fin))"

text \<open>
  A session under way: what the primary writes, what each auxiliary process writes, which writes
  to the children succeed, and the clients with their calls.
\<close>

record session_run =
  sr_primary :: "string list"
  sr_aux :: "string list list"
  sr_writes :: "bool list list"
  sr_clients :: "client_op list list"

definition session_tasks :: "mux_env \<Rightarrow> session_run \<Rightarrow> mprog list" where
  "session_tasks E r =
     primary_reader E (sr_primary r)
     # map (\<lambda>(i, chunks). aux_reader E i chunks) (zip [1..<Suc (length (sr_aux r))] (sr_aux r))
     @ map (\<lambda>(i, oks). stdin_writer i oks) (zip [0..<length (sr_writes r)] (sr_writes r))
     @ map (client E) (sr_clients r)"

definition run_session :: "mux_env \<Rightarrow> session_run \<Rightarrow> nat list \<Rightarrow> mux \<Rightarrow> (mutex, mux) system" where
  "run_session E r sched s = run_schedule sched (s, start (session_tasks E r))"

end
