(* ===== verification/LspMuxRules.thy ===== *)
theory LspMuxRules
  imports LspMux
begin

text \<open>
  One pass over the programs of a language-server session for every invariant: an interface says
  what an invariant has to allow for each kind of change of the state, and every program of the
  session then keeps it, whatever the schedule, and takes its mutexes as the interface allows.
\<close>

section \<open>The interface\<close>

text \<open>States that differ only in what no invariant speaks of.\<close>

definition same_core :: "mux \<Rightarrow> mux \<Rightarrow> bool" where
  "same_core s s' \<longleftrightarrow>
     mx_log s' = mx_log s \<and> mx_asked s' = mx_asked s \<and> mx_pending s' = mx_pending s \<and> mx_gone s' = mx_gone s \<and>
     mx_merges s' = mx_merges s \<and> mx_provenance s' = mx_provenance s \<and>
     mx_cache s' = mx_cache s \<and> mx_diag_parts s' = mx_diag_parts s \<and>
     map ac_role (mx_aux s') = map ac_role (mx_aux s) \<and> map ac_init_options (mx_aux s') = map ac_init_options (mx_aux s) \<and>
     map ac_pending (mx_aux s') = map ac_pending (mx_aux s)"

lemma map_upd_aux: "(\<And>a. g (f a) = g a) \<Longrightarrow> map g (mx_aux (upd_aux i f s)) = map g (mx_aux s)"
  by (cases "i - Suc 0 < length (mx_aux s)")
    (auto simp: upd_aux_def list_eq_iff_nth_eq nth_list_update list_update_beyond)

lemma upd_aux_fields [simp]:
  "mx_log (upd_aux i f s) = mx_log s" "mx_asked (upd_aux i f s) = mx_asked s" "mx_pending (upd_aux i f s) = mx_pending s"
  "mx_gone (upd_aux i f s) = mx_gone s" "mx_merges (upd_aux i f s) = mx_merges s" "mx_provenance (upd_aux i f s) = mx_provenance s"
  "mx_cache (upd_aux i f s) = mx_cache s" "mx_diag_parts (upd_aux i f s) = mx_diag_parts s" "mx_cmd (upd_aux i f s) = mx_cmd s"
  by (simp_all add: upd_aux_def)

lemma same_core_upd_aux:
  assumes "\<And>a. ac_role (f a) = ac_role a \<and> ac_init_options (f a) = ac_init_options a \<and> ac_pending (f a) = ac_pending a"
  shows "same_core s (upd_aux i f s)"
  using assms by (simp add: same_core_def map_upd_aux)

lemma same_core_refl [simp]: "same_core s s"
  by (simp add: same_core_def)

text \<open>Entries of a child's table for which no client waits.\<close>

definition plain :: "internal_pending \<Rightarrow> bool" where
  "plain e = (case e of IpClientMerge _ \<Rightarrow> False | IpClientResolve _ _ _ \<Rightarrow> False | _ \<Rightarrow> True)"

definition claim_of :: "(nat \<times> int \<Rightarrow> 'a multiset) \<Rightarrow> nat \<Rightarrow> string json \<Rightarrow> 'a multiset" where
  "claim_of cost c msg = (case id_of msg of None \<Rightarrow> {#} | Some i \<Rightarrow> cost (c, i))"

definition upd_pending :: "nat \<Rightarrow> ((nat \<times> internal_pending) list \<Rightarrow> (nat \<times> internal_pending) list) \<Rightarrow> mux \<Rightarrow> mux" where
  "upd_pending i f = upd_aux i (\<lambda>a. a\<lparr>ac_pending := f (ac_pending a)\<rparr>)"

locale mux_rules =
  fixes I :: "mux \<Rightarrow> bool"
    and bal :: "mux \<Rightarrow> 'a multiset"
    and fund :: "mux \<Rightarrow> 'a multiset"
    and ok :: "mutex list \<Rightarrow> mutex \<Rightarrow> bool"
    and cost :: "nat \<times> int \<Rightarrow> 'a multiset"
    and req :: bool
    and may_panic :: bool
  assumes zero: "req \<Longrightarrow> cost x = {#}"
    and core: "I s \<Longrightarrow> same_core s s' \<Longrightarrow> I s' \<and> bal s' = bal s \<and> fund s' = fund s"
    and ask: "I s \<Longrightarrow> I (s\<lparr>mx_asked := mx_asked s @ [(c, i)]\<rparr>) \<and>
      bal (s\<lparr>mx_asked := mx_asked s @ [(c, i)]\<rparr>) + cost (c, i) + fund s \<subseteq># bal s + fund (s\<lparr>mx_asked := mx_asked s @ [(c, i)]\<rparr>)"
    and handed: "I s \<Longrightarrow> I (deliver c fr s) \<and> fund (deliver c fr s) = fund s \<and>
      bal (deliver c fr s) \<subseteq># bal s + claim_of cost c (frame_json fr)"
    and pend_put: "I s \<Longrightarrow> I (s\<lparr>mx_pending := hm_put sid (c, i) (mx_pending s)\<rparr>) \<and>
      fund (s\<lparr>mx_pending := hm_put sid (c, i) (mx_pending s)\<rparr>) = fund s \<and>
      bal (s\<lparr>mx_pending := hm_put sid (c, i) (mx_pending s)\<rparr>) \<subseteq># bal s + cost (c, i)"
    and pend_take: "I s \<Longrightarrow> map_of (mx_pending s) sid = Some x \<Longrightarrow>
      bal (s\<lparr>mx_pending := hm_del sid (mx_pending s)\<rparr>) + cost x \<subseteq># bal s"
    and pend_filter: "I s \<Longrightarrow> I (s\<lparr>mx_pending := filter P (mx_pending s)\<rparr>) \<and>
      fund (s\<lparr>mx_pending := filter P (mx_pending s)\<rparr>) = fund s \<and>
      bal (s\<lparr>mx_pending := filter P (mx_pending s)\<rparr>) \<subseteq># bal s"
    and panics: "may_panic \<Longrightarrow> I s \<Longrightarrow> I (s\<lparr>mx_gone := c # mx_gone s\<rparr>) \<and>
      bal (s\<lparr>mx_gone := c # mx_gone s\<rparr>) = bal s \<and> fund (s\<lparr>mx_gone := c # mx_gone s\<rparr>) = fund s"
    and no_panic: "\<not> may_panic \<Longrightarrow> I s \<Longrightarrow> mx_gone s = [] \<and> list_all (\<lambda>a. as_obj (ac_init_options a) = None) (mx_aux s)"
    and no_req: "\<not> req \<Longrightarrow> I s \<Longrightarrow>
      mx_merges s = [] \<and> \<not> has_requesting_aux s \<and> list_all (\<lambda>a. list_all (\<lambda>e. plain (snd e)) (ac_pending a)) (mx_aux s)"
    and merges: "req \<Longrightarrow> I s \<Longrightarrow> I (s\<lparr>mx_merges := m\<rparr>) \<and> bal (s\<lparr>mx_merges := m\<rparr>) = bal s \<and> fund (s\<lparr>mx_merges := m\<rparr>) = fund s"
    and internal: "I s \<Longrightarrow> (\<And>es. set (f es) \<subseteq> set es \<union> {e. req \<or> plain (snd e)}) \<Longrightarrow>
      I (upd_pending j f s) \<and> bal (upd_pending j f s) = bal s \<and> fund (upd_pending j f s) = fund s"
    and store: "I s \<Longrightarrow> I (store_part j u ds s) \<and> bal (store_part j u ds s) = bal s \<and> fund (store_part j u ds s) = fund s"
    and remove: "I s \<Longrightarrow> I (remove_parts j s) \<and> bal (remove_parts j s) = bal s \<and> fund (remove_parts j s) = fund s"
    and uncache: "I s \<Longrightarrow> I (s\<lparr>mx_cache := hm_del u (mx_cache s)\<rparr>) \<and>
      bal (s\<lparr>mx_cache := hm_del u (mx_cache s)\<rparr>) = bal s \<and> fund (s\<lparr>mx_cache := hm_del u (mx_cache s)\<rparr>) = fund s"
    and unpart: "I s \<Longrightarrow> I (s\<lparr>mx_diag_parts := hm_del u (mx_diag_parts s)\<rparr>) \<and>
      bal (s\<lparr>mx_diag_parts := hm_del u (mx_diag_parts s)\<rparr>) = bal s \<and> fund (s\<lparr>mx_diag_parts := hm_del u (mx_diag_parts s)\<rparr>) = fund s"
    and provide: "I s \<Longrightarrow> I (store_provenance E u items s) \<and>
      bal (store_provenance E u items s) = bal s \<and> fund (store_provenance E u items s) = fund s"
    and unprovide: "I s \<Longrightarrow> I (s\<lparr>mx_provenance := hm_del u (mx_provenance s)\<rparr>) \<and>
      bal (s\<lparr>mx_provenance := hm_del u (mx_provenance s)\<rparr>) = bal s \<and>
      fund (s\<lparr>mx_provenance := hm_del u (mx_provenance s)\<rparr>) = fund s"
    and ok_first: "ok [] l"
    and ok_pending: "l \<noteq> LPending \<Longrightarrow> l \<noteq> LParts \<Longrightarrow> l \<noteq> LCache \<Longrightarrow> l \<noteq> LProvenance \<Longrightarrow> ok [LPending] l"
    and ok_parts: "ok [LParts] LCache"
    and ok_merges: "req \<Longrightarrow> ok [LMerges] LPending"
    and ok_subs: "may_panic \<Longrightarrow> ok [LSubs] LSubs"
begin

abbreviation chk :: "mprog \<Rightarrow> mutex list \<Rightarrow> 'a multiset \<Rightarrow> bool" where
  "chk \<equiv> checked I bal fund ok"

definition quiet :: "mux \<Rightarrow> mux \<Rightarrow> bool" where
  "quiet s s' \<longleftrightarrow> I s' \<and> bal s' = bal s \<and> fund s' = fund s"

lemma quiet_core: "I s \<Longrightarrow> same_core s s' \<Longrightarrow> quiet s s'"
  using core [of s s'] by (simp add: quiet_def)

lemma quiet_refl [simp]: "quiet s s = I s"
  by (simp add: quiet_def)

section \<open>Steps\<close>

lemma chk_do_claims:
  assumes "\<And>s. I s \<Longrightarrow> I (g s) \<and> (\<exists>N. bal (g s) + N + fund s \<subseteq># bal s + M + fund (g s) \<and> chk (h s) held N)"
  shows "chk (Act (\<lambda>s. Some (g s, h s))) held M"
  using assms by (simp add: checked_Act)

lemma chk_do:
  assumes "\<And>s. I s \<Longrightarrow> quiet s (g s) \<and> chk (h s) held M"
  shows "chk (Act (\<lambda>s. Some (g s, h s))) held M"
proof (rule chk_do_claims)
  fix s assume "I s"
  with assms show "I (g s) \<and> (\<exists>N. bal (g s) + N + fund s \<subseteq># bal s + M + fund (g s) \<and> chk (h s) held N)"
    by (intro conjI exI [of _ M]) (simp_all add: quiet_def)
qed

lemma chk_wait:
  assumes "\<And>s s' k. I s \<Longrightarrow> f s = Some (s', k) \<Longrightarrow> quiet s s' \<and> chk k [] M"
  shows "chk (Act f) [] M"
  unfolding checked_Act
proof (intro allI impI conjI)
  fix s s' k
  assume s: "I s" "f s = Some (s', k)"
  from assms [OF s] show "I s'" "\<exists>M'. bal s' + M' + fund s \<subseteq># bal s + M + fund s' \<and> chk k [] M'"
    by (auto simp: quiet_def intro!: exI [of _ M])
qed simp

lemma with_lock_Act: "with_lock l f = Lock l (Act (\<lambda>s. Some (fst (f s), Unlock l (snd (f s)))))"
  by (simp add: with_lock_def map_prod_def case_prod_beta)

lemma chk_with_lock:
  assumes "ok held l" "l \<notin> set held"
    and "\<And>s. I s \<Longrightarrow> I (fst (f s)) \<and>
      (\<exists>N. bal (fst (f s)) + N + fund s \<subseteq># bal s + M + fund (fst (f s)) \<and> chk (snd (f s)) held N)"
  shows "chk (with_lock l f) held M"
  unfolding with_lock_Act using assms by (auto intro!: chk_do_claims)

lemma chk_quiet_lock:
  assumes "ok held l" "l \<notin> set held" and "\<And>s. I s \<Longrightarrow> quiet s (fst (f s)) \<and> chk (snd (f s)) held M"
  shows "chk (with_lock l f) held M"
  unfolding with_lock_Act using assms by (auto intro!: chk_do)

section \<open>Delivery\<close>

lemma chk_send_to_client:
  assumes "chk k held M" "ok held LSubs" "LSubs \<notin> set held"
  shows "chk (send_to_client c msg k) held (M + claim_of cost c msg)"
  unfolding send_to_client_def
proof (rule chk_with_lock [OF assms(2,3)], unfold fst_conv snd_conv)
  fix s assume s: "I s"
  have "bal (deliver c (Value msg) s) + M + fund s \<subseteq># bal s + (M + claim_of cost c msg) + fund s"
    using handed [OF s, of c "Value msg"] by (simp add: ac_simps)
  then show "I (deliver c (Value msg) s) \<and> (\<exists>N. bal (deliver c (Value msg) s) + N + fund s
      \<subseteq># bal s + (M + claim_of cost c msg) + fund (deliver c (Value msg) s) \<and> chk k held N)"
    using handed [OF s, of c "Value msg"] assms(1) by (intro conjI exI [of _ M]) simp_all
qed

lemma fold_deliver:
  assumes "I s" "id_of (frame_json f) = None"
  shows "I (fold (\<lambda>c. deliver c f) cs s) \<and> fund (fold (\<lambda>c. deliver c f) cs s) = fund s \<and>
    bal (fold (\<lambda>c. deliver c f) cs s) \<subseteq># bal s"
  using assms(1)
proof (induction cs arbitrary: s)
  case (Cons c cs)
  have "I (deliver c f s)" "fund (deliver c f s) = fund s" "bal (deliver c f s) \<subseteq># bal s"
    using handed [OF Cons(2), of c f] assms(2) by (simp_all add: claim_of_def)
  with Cons(1) [of "deliver c f s"] show ?case by (auto intro: subset_mset.order_trans)
qed simp

lemma deliver_fields: "mx_gone (deliver c f s) = mx_gone s" "mx_subs (deliver c f s) = mx_subs s"
  by (simp_all add: deliver_def)

lemma chk_broadcast:
  assumes "chk k [] M" "id_of (frame_json f) = None"
  shows "chk (broadcast f k) [] M"
proof -
  have again: "chk (Lock LSubs (Act (\<lambda>s. Some (s\<lparr>mx_subs := g s\<rparr>, Unlock LSubs (Unlock LSubs k))))) [LSubs] M"
    if may_panic for g
    using that assms(1) by (auto intro!: chk_do quiet_core simp: ok_subs same_core_def)
  have gone: "may_panic \<or> filter (\<lambda>c. c \<in> set (mx_gone s)) cs = []" if "I s" for s cs
    using no_panic [OF _ that] by (cases may_panic) auto
  have "chk (Act (\<lambda>s.
     let s' = fold (\<lambda>c. deliver c f) (mx_subs s) s;
         dead = filter (\<lambda>c. c \<in> set (mx_gone s)) (mx_subs s)
     in Some (s',
        if dead = [] then Unlock LSubs k
        else Lock LSubs (Act (\<lambda>s. Some (s\<lparr>mx_subs := filter (\<lambda>c. c \<notin> set dead) (mx_subs s)\<rparr>,
               Unlock LSubs (Unlock LSubs k))))))) [LSubs] M"
    unfolding Let_def
  proof (rule chk_do_claims)
    fix s assume s: "I s"
    let ?s' = "fold (\<lambda>c. deliver c f) (mx_subs s) s" and ?dead = "filter (\<lambda>c. c \<in> set (mx_gone s)) (mx_subs s)"
    let ?k = "if ?dead = [] then Unlock LSubs k
      else Lock LSubs (Act (\<lambda>s. Some (s\<lparr>mx_subs := filter (\<lambda>c. c \<notin> set ?dead) (mx_subs s)\<rparr>, Unlock LSubs (Unlock LSubs k))))"
    have "chk ?k [LSubs] M" using again gone [OF s, of "mx_subs s"] assms(1) by auto
    then show "I ?s' \<and> (\<exists>N. bal ?s' + N + fund s \<subseteq># bal s + M + fund ?s' \<and> chk ?k [LSubs] N)"
      using fold_deliver [OF s assms(2)] by (intro conjI exI [of _ M]) simp_all
  qed
  then show ?thesis by (simp add: broadcast_def ok_first)
qed

lemma id_of_jset: "k \<noteq> ''id'' \<Longrightarrow> id_of (jset k v msg) = id_of msg"
  by (cases msg) (simp_all add: id_of_def jset_def)

lemma id_of_with_diagnostics: "id_of (with_diagnostics ds msg) = id_of msg"
  by (simp add: with_diagnostics_def id_of_jset split: option.split)

lemma chk_dispatch:
  assumes "chk k [] M" "id_of msg = None"
  shows "chk (dispatch_notification_frame msg payload child k) [] M"
proof -
  have b: "chk (broadcast (Bytes payload msg) k) [] M" "chk (broadcast (Value (with_diagnostics ds msg)) k) [] M" for ds
    using assms by (simp_all add: chk_broadcast id_of_with_diagnostics)
  show ?thesis
    unfolding dispatch_notification_frame_def Let_def
    by (auto simp: ok_first ok_parts quiet_def store b intro!: chk_do split: option.split)
qed

lemma chk_drop_aux_parts: "chk k [] M \<Longrightarrow> chk (drop_aux_parts child k) [] M"
  by (auto simp: drop_aux_parts_def ok_first ok_parts quiet_def remove intro!: chk_do)

section \<open>Merges\<close>

lemma claim_of_reply: "claim_of cost c (reply_result i r) \<subseteq># cost (c, i)"
  by (simp add: claim_of_def id_of_def reply_result_def)

lemma chk_reply:
  assumes "chk k [] M" shows "chk (send_to_client c (reply_result i r) k) [] (M + cost (c, i))"
  by (rule checked_weaken [OF chk_send_to_client [OF assms ok_first]]) (simp_all add: claim_of_reply)

lemma claim_of_zero: "req \<Longrightarrow> claim_of cost c msg = {#}"
  by (simp add: claim_of_def zero split: option.split)

lemma chk_send_req:
  assumes "req" "chk k [] M" shows "chk (send_to_client c msg k) [] M"
  using chk_send_to_client [OF assms(2) ok_first, of c msg] assms(1) by (simp add: claim_of_zero)

lemma chk_complete_merge:
  assumes "req" "chk k [] M" shows "chk (complete_merge E pm k) [] M"
  using assms by (auto simp: complete_merge_def Let_def record_completion_provenance_def ok_first quiet_def provide
      intro!: chk_send_req chk_quiet_lock split: option.split)

lemma merges_req: "I s \<Longrightarrow> map_of (mx_merges s) sid = Some pm \<Longrightarrow> req"
  using no_req [of s] by (cases req) auto

lemma quiet_merges: "req \<Longrightarrow> I s \<Longrightarrow> quiet s (s\<lparr>mx_merges := m\<rparr>)"
  using merges [of s m] by (simp add: quiet_def)

lemma chk_insert_merge_part: "chk k [] M \<Longrightarrow> chk (insert_merge_part E i sid p k) [] M"
  unfolding insert_merge_part_def Let_def
  by (rule chk_quiet_lock)
    (auto simp: ok_first intro: chk_complete_merge quiet_merges dest: merges_req split: option.split)

lemma chk_try_complete_merge: "chk k [] M \<Longrightarrow> chk (try_complete_merge E sid k) [] M"
  unfolding try_complete_merge_def
  by (rule chk_quiet_lock)
    (auto simp: ok_first intro: chk_complete_merge quiet_merges dest: merges_req split: option.split)

lemma chk_abandon: "chk k [] M \<Longrightarrow> chk (abandon_merge_expectation sid k) [] M"
  unfolding abandon_merge_expectation_def
  by (rule chk_quiet_lock) (auto simp: ok_first intro: quiet_merges dest: merges_req split: option.split)

lemma chk_unlocks: "chk k [] M \<Longrightarrow> chk (Unlock LPending (Unlock LMerges k)) [LPending, LMerges] M"
  by simp

lemma chk_primary_part:
  assumes "req" "I s" "chk k [] M"
  shows "I (fst (primary_part E sid msg pm k s)) \<and> chk (snd (primary_part E sid msg pm k s)) [] M \<and>
    bal (fst (primary_part E sid msg pm k s)) + M + fund s \<subseteq># bal s + M + fund (fst (primary_part E sid msg pm k s))"
proof -
  let ?s = "s\<lparr>mx_pending := hm_del sid (mx_pending s)\<rparr>"
  have p: "I ?s" "fund ?s = fund s" "bal ?s \<subseteq># bal s"
    using pend_filter [OF assms(2), of "\<lambda>e. fst e \<noteq> sid"] by (simp_all add: hm_del_def)
  have m: "I (?s\<lparr>mx_merges := m\<rparr>) \<and> bal (?s\<lparr>mx_merges := m\<rparr>) \<subseteq># bal s \<and> fund (?s\<lparr>mx_merges := m\<rparr>) = fund s" for m
    using merges [OF assms(1) p(1), of m] p(2,3) by simp
  have f: "\<exists>m. fst (primary_part E sid msg pm k s) = ?s\<lparr>mx_merges := m\<rparr>"
    by (auto simp: primary_part_def Let_def split: option.split)
  have "chk (snd (primary_part E sid msg pm k s)) [] M"
    using assms by (auto simp: primary_part_def Let_def intro!: chk_send_req chk_complete_merge split: option.split)
  with f m show ?thesis by fastforce
qed

lemma chk_record_primary:
  assumes "chk otherwise [] M" "chk k [] M"
  shows "chk (record_primary_merge_part E sid msg otherwise k) [] M"
proof -
  have inner: "chk (Act (\<lambda>s. Some (case map_of (mx_merges s) sid of
        None \<Rightarrow> (s, Unlock LPending (Unlock LMerges k))
      | Some pm \<Rightarrow> map_prod id (\<lambda>k. Unlock LPending (Unlock LMerges k)) (primary_part E sid msg pm k s))))
      [LPending, LMerges] M" if req
    unfolding checked_Act
  proof (intro allI impI conjI)
    fix s s' q
    assume s: "I s" "Some (case map_of (mx_merges s) sid of
        None \<Rightarrow> (s, Unlock LPending (Unlock LMerges k))
      | Some pm \<Rightarrow> map_prod id (\<lambda>k. Unlock LPending (Unlock LMerges k)) (primary_part E sid msg pm k s)) = Some (s', q)"
    have "I s' \<and> bal s' + M + fund s \<subseteq># bal s + M + fund s' \<and> chk q [LPending, LMerges] M"
    proof (cases "map_of (mx_merges s) sid")
      case None
      with s assms(2) show ?thesis by auto
    next
      case (Some pm)
      with s chk_primary_part [OF that s(1) assms(2), of E sid msg pm] show ?thesis
        by (cases "primary_part E sid msg pm k s") auto
    qed
    then show "I s'" "\<exists>M'. bal s' + M' + fund s \<subseteq># bal s + M + fund s' \<and> chk q [LPending, LMerges] M'" by blast+
  qed simp
  show ?thesis
    unfolding record_primary_merge_part_def checked.simps(4)
  proof (intro conjI ok_first)
    show "chk (Act (\<lambda>s. case map_of (mx_merges s) sid of
         None \<Rightarrow> Some (s, Unlock LMerges otherwise)
       | Some pm \<Rightarrow> Some (s, Lock LPending (Act (\<lambda>s.
           Some (case map_of (mx_merges s) sid of
                   None \<Rightarrow> (s, Unlock LPending (Unlock LMerges k))
                 | Some pm \<Rightarrow> map_prod id (\<lambda>k. Unlock LPending (Unlock LMerges k)) (primary_part E sid msg pm k s))))))) [LMerges] M"
      unfolding checked_Act
      using assms(1) inner merges_req ok_merges by (fastforce split: option.splits)
  qed
qed

section \<open>Requests to the children\<close>

lemma quiet_upd_aux:
  assumes "I s" "\<And>a. ac_role (f a) = ac_role a \<and> ac_init_options (f a) = ac_init_options a \<and> ac_pending (f a) = ac_pending a"
  shows "quiet s (upd_aux i f s)"
  using assms by (auto intro: quiet_core same_core_upd_aux)

lemma quiet_try_send: "I s \<Longrightarrow> try_send_aux i f s = Some s' \<Longrightarrow> quiet s s'"
  by (auto simp: try_send_aux_def intro!: quiet_upd_aux split: if_splits)

lemma quiet_upd_pending:
  assumes "I s" "\<And>es. set (f es) \<subseteq> set es \<union> {e. req \<or> plain (snd e)}"
  shows "quiet s (upd_aux i (\<lambda>a. a\<lparr>ac_pending := f (ac_pending a)\<rparr>) s)"
  using internal [OF assms(1), of f i] assms(2) by (simp add: quiet_def upd_pending_def)

lemma quiet_chan: "I s \<Longrightarrow> quiet s (s\<lparr>mx_cmd := ch\<rparr>)"
  by (rule quiet_core) (simp_all add: same_core_def)

lemma chk_take_out: "chk k [] M \<Longrightarrow> chk (take_out i n k) [] M"
  unfolding take_out_def by (rule chk_quiet_lock) (auto simp: ok_first hm_del_def intro!: quiet_upd_pending)

lemma chk_offer: "chk unreachable [] M \<Longrightarrow> chk k [] M \<Longrightarrow> chk (offer i n rq recheck unreachable k) [] M"
  unfolding offer_def
  by (rule chk_wait) (auto simp: chk_take_out intro: quiet_try_send intro!: chk_do split: option.splits)

lemma chk_enter:
  assumes "chk k [] M" "req \<or> plain entry"
  shows "chk (with_lock (LInternal i) (\<lambda>s. (upd_aux i (\<lambda>a. a\<lparr>ac_pending := hm_put n entry (ac_pending a)\<rparr>) s, k))) [] M"
  using assms by (intro chk_quiet_lock) (auto simp: ok_first hm_put_def hm_del_def intro!: quiet_upd_pending)

lemma chk_post_aux:
  assumes "\<And>n. mk n = None \<Longrightarrow> chk panicked [] M" "chk unreachable [] M" "chk k [] M" "req \<or> plain entry"
  shows "chk (post_aux i mk entry recheck panicked unreachable k) [] M"
  unfolding post_aux_def Let_def
  by (rule chk_do) (auto intro!: quiet_upd_aux chk_enter chk_offer assms dest: assms(1) split: option.split)

lemma initialize_copy_None: "initialize_copy msg init n = None \<Longrightarrow> as_obj init \<noteq> None"
  by (auto simp: initialize_copy_def merged_initialization_options_def split: option.splits)

lemma may_panic_init: "I s \<Longrightarrow> as_obj (ac_init_options (aux_at i s)) \<noteq> None \<Longrightarrow> may_panic"
  using no_panic [of s] by (cases may_panic) (auto simp: aux_at_def no_child_def list_all_iff split: if_splits)

lemma chk_fan_out_initialize:
  assumes "may_panic \<Longrightarrow> chk panicked [] M" "chk k [] M"
  shows "chk (fan_out_initialize msg is panicked k) [] M"
proof (induction "is")
  case (Cons i "is")
  show ?case
    unfolding fan_out_initialize.simps Let_def
  proof (rule chk_do, intro conjI)
    fix s assume s: "I s"
    have "chk (post_aux i (initialize_copy msg (ac_init_options (aux_at i s))) IpInitialize False panicked
        (fan_out_initialize msg is panicked k) (fan_out_initialize msg is panicked k)) [] M"
    proof (rule chk_post_aux [OF _ Cons Cons])
      fix n assume "initialize_copy msg (ac_init_options (aux_at i s)) n = None"
      then show "chk panicked [] M" using assms(1) may_panic_init [OF s] initialize_copy_None by blast
    qed (simp add: plain_def)
    then show "chk (if \<not> ac_alive (aux_at i s) then fan_out_initialize msg is panicked k
      else post_aux i (initialize_copy msg (ac_init_options (aux_at i s))) IpInitialize False panicked
        (fan_out_initialize msg is panicked k) (fan_out_initialize msg is panicked k)) [] M" using Cons by simp
  qed simp
qed (simp add: assms(2))

lemma chk_send_tsserver_response: "chk k [] M \<Longrightarrow> chk (send_tsserver_response v b k) [] M"
  unfolding send_tsserver_response_def Let_def by (rule chk_do) (auto intro: quiet_chan)

lemma chk_send_tsserver_held: "chk k held M \<Longrightarrow> chk (send_tsserver_response v b k) held M"
  unfolding send_tsserver_response_def Let_def by (rule chk_do) (auto intro: quiet_chan)

lemma chk_handle_tsserver: "chk k [] M \<Longrightarrow> chk (handle_tsserver_request msg k) [] M"
  unfolding handle_tsserver_request_def
  by (auto intro!: chk_do chk_post_aux chk_send_tsserver_response simp: plain_def split: option.split list.split)

section \<open>The readers\<close>

lemma chk_answer_pending:
  assumes "chk k [] M" shows "chk (answer_pending sid msg k) [] M"
proof -
  have give: "chk (send_to_client c (jset ''id'' (JInt i) msg) (Unlock LPending k)) [LPending] (M + cost (c, i))" for c i
  proof (rule checked_weaken [OF chk_send_to_client [of _ _ M]])
    show "M + claim_of cost c (jset ''id'' (JInt i) msg) \<subseteq># M + cost (c, i)"
      by (cases msg) (auto simp: claim_of_def id_of_def jset_def)
  qed (use assms in \<open>simp_all add: ok_pending\<close>)
  show ?thesis
    unfolding answer_pending_def checked.simps(4)
  proof (intro conjI ok_first)
    show "chk (Act (\<lambda>s. case map_of (mx_pending s) sid of
         None \<Rightarrow> Some (s, Unlock LPending k)
       | Some (c, orig) \<Rightarrow> Some (s\<lparr>mx_pending := hm_del sid (mx_pending s)\<rparr>,
             send_to_client c (jset ''id'' (JInt orig) msg) (Unlock LPending k)))) [LPending] M"
      unfolding checked_Act
    proof (intro allI impI conjI)
      fix s s' q
      assume s: "I s" and q: "(case map_of (mx_pending s) sid of
         None \<Rightarrow> Some (s, Unlock LPending k)
       | Some (c, orig) \<Rightarrow> Some (s\<lparr>mx_pending := hm_del sid (mx_pending s)\<rparr>,
             send_to_client c (jset ''id'' (JInt orig) msg) (Unlock LPending k))) = Some (s', q)"
      have "I s' \<and> (\<exists>N. bal s' + N + fund s \<subseteq># bal s + M + fund s' \<and> chk q [LPending] N)"
      proof (cases "map_of (mx_pending s) sid")
        case None
        with q s assms show ?thesis by (auto intro!: exI [of _ M])
      next
        case (Some ci)
        obtain c i where ci: "ci = (c, i)" by (cases ci)
        with q Some have s': "s' = s\<lparr>mx_pending := hm_del sid (mx_pending s)\<rparr>"
          "q = send_to_client c (jset ''id'' (JInt i) msg) (Unlock LPending k)" by auto
        have f: "I s'" "fund s' = fund s"
          using pend_filter [OF s, of "\<lambda>e. fst e \<noteq> sid"] by (simp_all add: s' hm_del_def)
        have "bal s' + cost (c, i) \<subseteq># bal s" using pend_take [OF s Some] by (simp add: s' ci)
        then have "bal s' + (M + cost (c, i)) + fund s \<subseteq># bal s + M + fund s'"
          using f(2) by (simp add: ac_simps)
        then show ?thesis using f(1) give [of c i] s'(2) by blast
      qed
      then show "I s'" "\<exists>N. bal s' + N + fund s \<subseteq># bal s + M + fund s' \<and> chk q [LPending] N" by blast+
    qed (auto split: option.splits)
  qed
qed

lemma chk_primary_frame: "chk k [] M \<Longrightarrow> chk (primary_frame E payload k) [] M"
  unfolding primary_frame_def
  by (auto intro!: chk_record_primary chk_answer_pending chk_handle_tsserver chk_dispatch split: option.split)

lemma chk_handle_all: "(\<And>x k. x \<in> set xs \<Longrightarrow> chk k held M \<Longrightarrow> chk (f x k) held M) \<Longrightarrow> chk k held M \<Longrightarrow> chk (handle_all f xs k) held M"
  by (induction xs) auto

lemma chk_release_children: "chk k [] M \<Longrightarrow> chk (release_children is k) [] M"
  by (induction "is") (auto intro!: chk_do quiet_upd_aux)

lemma quiet_subs: "I s \<Longrightarrow> quiet s (s\<lparr>mx_subs := x\<rparr>)"
  by (rule quiet_core) (simp_all add: same_core_def)

lemma chk_primary_eof: "chk k [] M \<Longrightarrow> chk (primary_eof k) [] M"
  unfolding primary_eof_def
  by (auto intro!: chk_do chk_quiet_lock chk_release_children quiet_subs quiet_core simp: ok_first same_core_def)

lemma chk_primary_reader: "chk (primary_reader E chunks) [] {#}"
  unfolding primary_reader_def by (rule chk_handle_all) (auto intro: chk_primary_frame chk_primary_eof)

lemma plain_at: "I s \<Longrightarrow> e \<in> set (ac_pending (aux_at i s)) \<Longrightarrow> req \<or> plain (snd e)"
  using no_req [of s] by (cases req) (auto simp: aux_at_def no_child_def list_all_iff split: if_splits)

lemma chk_aux_answer:
  assumes "chk k [] M" "\<And>e. entry = Some e \<Longrightarrow> req \<or> plain e"
  shows "chk (aux_answer E i msg entry k) [] M"
  using assms unfolding aux_answer_def
  by (auto simp: plain_def intro!: chk_send_tsserver_response chk_insert_merge_part chk_send_req
      split: option.split internal_pending.splits)

lemma chk_aux_frame:
  assumes "chk k [] M" shows "chk (aux_frame E i payload k) [] M"
proof -
  have "chk (with_lock (LInternal i) (\<lambda>s.
       (upd_aux i (\<lambda>a. a\<lparr>ac_pending := hm_del n (ac_pending a)\<rparr>) s,
        aux_answer E i msg (map_of (ac_pending (aux_at i s)) n) k))) [] M" for n msg
    using assms
    by (intro chk_quiet_lock) (auto simp: ok_first hm_del_def intro!: quiet_upd_pending chk_aux_answer dest!: map_of_SomeD dest: plain_at)
  then show ?thesis using assms by (auto simp: aux_frame_def intro: chk_dispatch split: option.split)
qed

lemma chk_aux_eof:
  assumes "chk k [] M" shows "chk (aux_eof E i k) [] M"
proof -
  have late: "chk (handle_all (\<lambda>sid. insert_merge_part E i sid None) ms
      (handle_all (\<lambda>(c, orig, item). send_to_client c (reply_result orig item)) rs k)) [] M"
    if "rs = [] \<or> req" for ms rs
  proof -
    have "chk (handle_all (\<lambda>(c, orig, item). send_to_client c (reply_result orig item)) rs k) [] M"
    proof (rule chk_handle_all [OF _ assms])
      fix x q assume "x \<in> set rs" "chk q [] M"
      from this(1) have req using that by auto
      moreover obtain c orig item where "x = (c, orig, item)" by (rule prod_cases3)
      ultimately show "chk ((case x of (c, orig, item) \<Rightarrow> send_to_client c (reply_result orig item)) q) [] M"
        using \<open>chk q [] M\<close> by (simp add: chk_send_req)
    qed
    then show ?thesis by (rule chk_handle_all [rotated]) (rule chk_insert_merge_part)
  qed
  have some: "resolve_debts es \<noteq> [] \<Longrightarrow> \<exists>e \<in> set es. \<not> plain (snd e)" for es
    by (induction es) (auto simp: resolve_debts_def List.map_filter_simps plain_def split: internal_pending.splits)
  have debts: "resolve_debts (ac_pending (aux_at i s)) = [] \<or> req" if "I s" for s
    using some plain_at [OF that] by blast
  have "chk (Lock (LInternal i) (Act (\<lambda>s. let es = ac_pending (aux_at i s) in
     Some (upd_aux i (\<lambda>a. a\<lparr>ac_pending := []\<rparr>) s,
       handle_all (\<lambda>v. send_tsserver_response v JNull) (tsserver_debts es)
         (Unlock (LInternal i)
           (handle_all (\<lambda>sid. insert_merge_part E i sid None) (merge_debts es)
             (handle_all (\<lambda>(c, orig, item). send_to_client c (reply_result orig item)) (resolve_debts es) k))))))) [] M"
    unfolding Let_def
    by (auto simp: ok_first intro!: chk_do quiet_upd_pending [of _ "\<lambda>_. []"] chk_handle_all [where held = "[LInternal i]"]
        chk_send_tsserver_held late debts dest: plain_at)
  then show ?thesis
    unfolding aux_eof_def by (auto intro!: chk_do quiet_upd_aux chk_drop_aux_parts)
qed

lemma chk_aux_reader: "chk (aux_reader E i chunks) [] {#}"
  unfolding aux_reader_def by (rule chk_handle_all) (auto intro: chk_aux_frame chk_aux_eof)

lemma chk_stdin_writer: "chk (stdin_writer i oks) [] {#}"
proof (induction oks)
  case (Cons okk oks)
  show ?case
    unfolding stdin_writer.simps
    by (rule chk_wait)
      (use Cons in \<open>auto simp: upd_chan_def intro!: quiet_chan quiet_upd_aux split: list.splits if_splits\<close>)
qed simp

section \<open>The clients\<close>

lemma quiet_eqI: "I s \<Longrightarrow> same_core s s' \<Longrightarrow> quiet s s'"
  by (rule quiet_core)

lemma chk_subscribe: "(\<And>c. chk (k c) [] M) \<Longrightarrow> chk (subscribe k) [] M"
  unfolding subscribe_def Let_def
  by (auto intro!: chk_do chk_quiet_lock quiet_eqI simp: ok_first same_core_def)

lemma chk_forget_resolves:
  "chk k [LPending] M \<Longrightarrow> chk (forget_resolves c is k) [LPending] M"
proof (induction "is")
  case (Cons i "is")
  show ?case
    unfolding forget_resolves.simps
    by (rule chk_quiet_lock) (use Cons in \<open>auto simp: ok_pending hm_retain_def intro!: quiet_upd_pending\<close>)
qed simp

lemma chk_unsubscribe:
  assumes "chk k [] M" shows "chk (unsubscribe c k) [] M"
proof -
  have editor: "chk (with_lock LEditor (\<lambda>s. (s\<lparr>mx_editor_uris := release_uris c (mx_editor_uris s)\<rparr>, Unlock LPending k))) [LPending] M"
    using assms by (intro chk_quiet_lock) (auto simp: ok_pending same_core_def intro!: quiet_eqI)
  have drop: "quiet s (s\<lparr>mx_merges := hm_retain P (mx_merges s)\<rparr>)" if "I s" for s P
    using that quiet_merges [of s] no_req [of s] by (cases req) (auto simp: hm_retain_def intro: quiet_eqI simp: same_core_def)
  have merged: "chk (with_lock LMerges (\<lambda>s. (s\<lparr>mx_merges := hm_retain (\<lambda>pm. pm_client pm \<noteq> c) (mx_merges s)\<rparr>,
       Act (\<lambda>s. Some (s, forget_resolves c (child_indexes s)
         (with_lock LEditor (\<lambda>s. (s\<lparr>mx_editor_uris := release_uris c (mx_editor_uris s)\<rparr>, Unlock LPending k)))))))) [LPending] M"
    by (rule chk_quiet_lock) (auto simp: ok_pending drop intro!: chk_do chk_forget_resolves editor)
  have pending: "chk (Act (\<lambda>s. Some (s\<lparr>mx_pending := hm_retain (\<lambda>e. fst e \<noteq> c) (mx_pending s)\<rparr>, q))) [LPending] M"
    if "chk q [LPending] M" for q
  proof (rule chk_do_claims)
    fix s assume "I s"
    from pend_filter [OF this, of "\<lambda>e. fst (snd e) \<noteq> c"] that
    show "I (s\<lparr>mx_pending := hm_retain (\<lambda>e. fst e \<noteq> c) (mx_pending s)\<rparr>) \<and>
      (\<exists>N. bal (s\<lparr>mx_pending := hm_retain (\<lambda>e. fst e \<noteq> c) (mx_pending s)\<rparr>) + N + fund s
        \<subseteq># bal s + M + fund (s\<lparr>mx_pending := hm_retain (\<lambda>e. fst e \<noteq> c) (mx_pending s)\<rparr>) \<and> chk q [LPending] N)"
      by (intro conjI exI [of _ M]) (simp_all add: hm_retain_def)
  qed
  show ?thesis
    unfolding unsubscribe_def by (rule chk_quiet_lock) (auto simp: ok_first quiet_subs intro!: pending merged)
qed

lemma chk_send_cmd: "(\<And>b. chk (k b) [] M) \<Longrightarrow> chk (send_cmd f k) [] M"
  unfolding send_cmd_def by (rule chk_wait) (auto intro: quiet_chan split: if_splits)

lemma chk_route:
  assumes "req" "chk historic [] M" "chk k [] M"
  shows "chk (route_completion_resolve c msg i historic k) [] M"
proof -
  note fallback = chk_send_req [OF assms(1,3)]
  have aux: "chk (Act (\<lambda>s. Some (s,
      if length (mx_aux s) < j then send_to_client c (reply_result i item) k
      else if \<not> ac_alive (aux_at j s) then send_to_client c (reply_result i item) k
      else post_aux j (\<lambda>n. Some (with_id n msg)) (IpClientResolve c i item) True
        (send_to_client c (reply_result i item) k) (send_to_client c (reply_result i item) k) k))) [] M" for j item
    using assms by (auto intro!: chk_do chk_post_aux fallback)
  show ?thesis
    unfolding route_completion_resolve_def Let_def
    using assms(2) by (auto intro!: fallback aux chk_quiet_lock simp: ok_first split: option.split list.split)
qed

lemma chk_alive_children: "(\<And>js. chk (k js) [] M) \<Longrightarrow> chk (alive_children is k) [] M"
  by (induction "is" arbitrary: k) (auto intro!: chk_do)

lemma chk_fan_out_request:
  assumes "req" "chk k [] M" shows "chk (fan_out_request E msg sid is k) [] M"
proof (induction "is")
  case (Cons i "is")
  then show ?case using assms(1) by (auto simp: Let_def intro!: chk_do chk_post_aux chk_abandon)
qed (simp add: chk_try_complete_merge assms(2))

lemma responders_req:
  assumes "I s" "filter (\<lambda>i. aux_answers_requests (ac_role (aux_at i s))) (child_indexes s) \<noteq> []" shows "req"
proof -
  from assms(2) obtain i where "aux_answers_requests (ac_role (aux_at i s))" by (auto simp: filter_empty_conv)
  moreover from this have "aux_at i s \<in> set (mx_aux s)"
    by (auto simp: aux_at_def no_child_def aux_answers_requests_def split: if_splits)
  ultimately have "has_requesting_aux s" by (auto simp: has_requesting_aux_def list_ex_iff)
  then show ?thesis using no_req [OF _ assms(1)] by (cases req) auto
qed

lemma chk_send_request:
  assumes "\<And>r. r \<noteq> Panicked \<Longrightarrow> chk (k r) [] M" "may_panic \<Longrightarrow> chk (k Panicked) [] M"
  shows "chk (send_request E c msg i k) [] (M + cost (c, i))"
proof -
  have init: "chk (Act (\<lambda>s. Some (s, fan_out_initialize msg (child_indexes s) (k Panicked) (k Sent)))) [] M"
    using assms by (auto intro!: chk_do chk_fan_out_initialize)
  have put: "chk (with_lock LPending (\<lambda>s. (s\<lparr>mx_pending := hm_put sid (c, i) (mx_pending s)\<rparr>, q))) [] (M + cost (c, i))"
    if "chk q [] M" for sid q
  proof (rule chk_with_lock, unfold fst_conv snd_conv)
    fix s assume s: "I s"
    let ?s = "s\<lparr>mx_pending := hm_put sid (c, i) (mx_pending s)\<rparr>"
    have "bal ?s + M + fund s \<subseteq># bal s + (M + cost (c, i)) + fund ?s"
      using pend_put [OF s, of sid c i] by (simp add: ac_simps)
    then show "I ?s \<and> (\<exists>N. bal ?s + N + fund s \<subseteq># bal s + (M + cost (c, i)) + fund ?s \<and> chk q [] N)"
      using pend_put [OF s, of sid c i] that by blast
  qed (simp_all add: ok_first)
  have enter: "chk (with_lock LMerges (\<lambda>s. (s\<lparr>mx_merges := g s\<rparr>, q))) [] M" if "req" "chk q [] M" for g q
    using that by (intro chk_quiet_lock) (auto simp: ok_first intro: quiet_merges)
  show ?thesis
    unfolding send_request_def Let_def
    by (rule chk_do)
      (auto intro!: put enter chk_alive_children chk_send_cmd chk_fan_out_request init assms(1) quiet_eqI
        dest: responders_req simp: same_core_def)
qed

lemma quiet_offer: "I s \<Longrightarrow> quiet s (case try_send_aux i f s of None \<Rightarrow> s | Some s' \<Rightarrow> s')"
  using quiet_try_send [of s i f] by (cases "try_send_aux i f s") simp_all

lemma chk_fan_out_notification: "chk k [] M \<Longrightarrow> chk (fan_out_notification f is k) [] M"
proof (induction "is")
  case (Cons i "is")
  then show ?case by (auto simp: Let_def intro!: chk_do quiet_offer)
qed simp

lemma chk_send_notification:
  assumes "\<And>r. r \<noteq> Panicked \<Longrightarrow> chk (k r) [] M"
  shows "chk (send_notification payload msg k) [] M"
proof -
  have fan: "chk (Act (\<lambda>s. Some (s, fan_out_notification (Bytes payload msg) (child_indexes s) (k Sent)))) [] M"
    using assms by (auto intro!: chk_do chk_fan_out_notification)
  show ?thesis
    unfolding send_notification_def Let_def
    by (auto intro!: chk_do chk_send_cmd chk_quiet_lock fan assms simp: ok_first quiet_def unprovide split: option.split)
qed

lemma chk_send:
  assumes "\<And>r. r \<noteq> Panicked \<Longrightarrow> chk (k r) [] M" "may_panic \<Longrightarrow> chk (k Panicked) [] M"
  shows "chk (send E c payload k) [] M"
proof -
  have weak: "chk q [] M \<Longrightarrow> chk q [] (M + cost (c, i))" for q i
    by (rule checked_weaken) (auto simp: subseteq_mset_def)
  have sent: "chk (send_request E c msg i k) [] (M + cost (c, i))" for msg i
    by (rule chk_send_request) (use assms in auto)
  have step: "chk (Act (\<lambda>s. Some (s\<lparr>mx_asked := mx_asked s @ [(c, i)]\<rparr>,
      if has_requesting_aux s \<and> P then route_completion_resolve c msg i (send_request E c msg i k) (k Sent)
      else send_request E c msg i k))) [] M" for i msg P
  proof (rule chk_do_claims)
    fix s assume s: "I s"
    let ?s = "s\<lparr>mx_asked := mx_asked s @ [(c, i)]\<rparr>"
    have "bal ?s + (M + cost (c, i)) + fund s \<subseteq># bal s + M + fund ?s"
      using ask [OF s, of c i] by (simp add: ac_simps)
    moreover have "chk (if has_requesting_aux s \<and> P then route_completion_resolve c msg i (send_request E c msg i k) (k Sent)
      else send_request E c msg i k) [] (M + cost (c, i))"
    proof (cases "has_requesting_aux s \<and> P")
      case True
      then have req using no_req [OF _ s] by (cases req) auto
      with sent [of msg i] have "chk (send_request E c msg i k) [] M" by (simp add: zero)
      with \<open>req\<close> True show ?thesis using assms(1) by (auto intro!: weak chk_route)
    next
      case False
      then show ?thesis using sent by auto
    qed
    ultimately show "I ?s \<and> (\<exists>N. bal ?s + N + fund s \<subseteq># bal s + M + fund ?s \<and>
      chk (if has_requesting_aux s \<and> P then route_completion_resolve c msg i (send_request E c msg i k) (k Sent)
      else send_request E c msg i k) [] N)" using ask [OF s, of c i] by blast
  qed
  show ?thesis
    unfolding send_def by (auto intro!: step chk_send_notification assms(1) split: option.split)
qed

lemma chk_crash: "may_panic \<Longrightarrow> chk (crash c) [] M"
  unfolding crash_def by (rule chk_do) (simp add: quiet_def panics)

lemma chk_client_op:
  assumes "chk k [] M" shows "chk (client_op_prog E c opn k) [] M"
proof (cases opn)
  case (OpSend payload)
  then show ?thesis using assms by (auto intro!: chk_send chk_crash)
next
  case (OpInvalidate u)
  then show ?thesis using assms
    by (auto simp: invalidate_diagnostics_def ok_first quiet_def uncache unpart intro!: chk_quiet_lock)
qed (use assms in \<open>auto simp: try_mark_initialized_def set_initialize_outcome_def wait_for_initialize_outcome_def
    try_mark_uri_open_def next_doc_version_def cached_diagnostics_def wait_for_diagnostics_def has_editor_client_def
    mark_editor_uri_open_def mark_editor_uri_close_def Let_def ok_first same_core_def
    intro!: chk_do chk_wait chk_quiet_lock quiet_eqI split: option.splits\<close>)

lemma chk_client: "chk (client E ops) [] {#}"
  unfolding client_def
  by (intro chk_subscribe chk_handle_all chk_client_op chk_unsubscribe) simp_all

lemma chk_session: "p \<in> set (session_tasks E r) \<Longrightarrow> chk p [] {#}"
  unfolding session_tasks_def
  by (auto intro: chk_primary_reader chk_aux_reader chk_stdin_writer chk_client)

text \<open>What holds of the state when a session starts, and of its accounts, holds whatever the schedule.\<close>

lemma session_keeps:
  assumes "I s" shows "I (fst (run_session E r sched s))"
  unfolding run_session_def by (rule checked_run_inv [OF all_checked_start [OF assms chk_session]])

lemma session_covered:
  assumes "I s"
  shows "bal (fst (run_session E r sched s)) + fund s \<subseteq># bal s + fund (fst (run_session E r sched s))"
proof -
  let ?ps = "session_tasks E r"
  from checked_run [OF all_checked_start [OF assms chk_session [where E = E and r = r]], where sched = sched] obtain Ms where
    "bal (fst (run_session E r sched s)) + sum_list Ms + fund s
      \<subseteq># bal s + sum_list (replicate (length ?ps) {#}) + fund (fst (run_session E r sched s))"
    by (auto simp: run_session_def)
  moreover have "sum_list (replicate n {#}) = ({#} :: 'a multiset)" for n by (induction n) simp_all
  ultimately have "bal (fst (run_session E r sched s)) + fund s + sum_list Ms \<subseteq># bal s + fund (fst (run_session E r sched s))"
    by (simp add: ac_simps)
  then show ?thesis by (rule subset_mset.order_trans [rotated]) simp
qed

lemma session_progress:
  assumes "I s" and "\<And>held l h. ok held l \<Longrightarrow> h \<in> set held \<Longrightarrow> rank h < (rank l :: nat)"
    and "\<And>i. task_step i (run_session E r sched s) = None" and "t \<in> set (snd (run_session E r sched s))"
  shows "task_done t \<or> (waits (fst (run_session E r sched s)) t \<and> fst t = [])"
proof -
  from checked_run [OF all_checked_start [OF assms(1) chk_session [where E = E and r = r]], where sched = sched] obtain Ms where
    "all_checked I bal fund ok (run_session E r sched s) Ms" by (auto simp: run_session_def)
  then show ?thesis
    using ranked_progress [of I bal fund ok "fst (run_session E r sched s)" "snd (run_session E r sched s)" Ms rank t] assms
    by simp
qed

end

end
