(* ===== verification/LspMuxProps.thy ===== *)
theory LspMuxProps
  imports LspMuxRules
begin

text \<open>
  What a language-server session promises under every schedule: clients get at most one answer
  per request, the session does not lock itself up, cached diagnostics are those of the servers,
  and the table of served completions stays small. The first two hold for toolchains whose
  auxiliary servers answer no requests; the runs at the end show what happens otherwise.
\<close>

section \<open>Sessions to run\<close>

text \<open>The messages of the runs, by the name of their text.\<close>

definition publish_msg :: "nat \<Rightarrow> string json" where
  "publish_msg n = JObj [(''method'', JStr ''textDocument/publishDiagnostics''),
     (''params'', JObj [(''diagnostics'', JArr [JInt (int n)]), (''uri'', JStr ''f'')])]"

definition demo_env :: mux_env where
  "demo_env = \<lparr>me_parse = map_of
     [(''ask'', JObj [(''id'', JInt 7), (''method'', JStr ''textDocument/hover'')]),
      (''tell'', JObj [(''id'', JInt 1), (''result'', JStr ''x'')]),
      (''request'', JObj [(''id'', JInt 1), (''method'', JStr ''workspace/configuration'')]),
      (''initialize'', JObj [(''id'', JInt 7), (''method'', JStr ''initialize''), (''params'', JArr [])]),
      (''publish0'', publish_msg 0), (''publish1'', publish_msg 1)],
     me_pick = (\<lambda>_. 0)\<rparr>"

text \<open>Sessions of a primary with the given auxiliary servers, and runs of one client.\<close>

definition demo_spec :: "(string \<times> string json) list \<Rightarrow> lsp_toolchain" where
  "demo_spec xs = \<lparr>tc_name = ''demo'', tc_bin = ''p'', tc_args = [],
     tc_aux = map (\<lambda>(role, init). \<lparr>ax_role = role, ax_bin = ''a'', ax_args = [], ax_init_options = init\<rparr>) xs\<rparr>"

definition demo_mux :: "(string \<times> string json) list \<Rightarrow> mux" where
  "demo_mux xs = projr (spawn_session (\<lambda>_ _. None) (demo_spec xs))"

lemma demo_mux: "spawn_session (\<lambda>_ _. None) (demo_spec xs) = Inr (demo_mux xs)"
  by (simp add: demo_mux_def spawn_session_def demo_spec_def)

definition demo_run :: "string list \<Rightarrow> string list list \<Rightarrow> client_op list \<Rightarrow> session_run" where
  "demo_run ps aux ops =
     \<lparr>sr_primary = [concat (map encode_message ps)], sr_aux = map (\<lambda>qs. [concat (map encode_message qs)]) aux,
      sr_writes = [], sr_clients = [ops]\<rparr>"

definition fits :: "string list \<Rightarrow> bool" where
  "fits ps \<longleftrightarrow> list_all (\<lambda>p. length (encode_message p) \<le> U64_MAX) ps"

lemma fits_short: "list_all (\<lambda>p. length p < 100) ps \<Longrightarrow> fits ps"
proof -
  have digits: "length (show_nat n) \<le> 2" if "n < 100" for n
    using that by (cases "n < 10") (simp_all add: show_nat_small show_nat_big)
  assume "list_all (\<lambda>p. length p < 100) ps"
  then show ?thesis
    unfolding fits_def list_all_iff
  proof (intro ballI)
    fix p assume "\<forall>p \<in> set ps. length p < 100" "p \<in> set ps"
    then have "length p < 100" by blast
    with digits [OF this] show "length (encode_message p) \<le> U64_MAX"
      by (simp add: encode_message_def crlf2_def U64_MAX_def)
  qed
qed

lemma demo_tasks:
  assumes "fits ps" "list_all fits aux"
  shows "session_tasks demo_env (demo_run ps aux ops) =
     handle_all (primary_frame demo_env) ps (primary_eof Fin)
     # map (\<lambda>(i, qs). handle_all (aux_frame demo_env i) qs (aux_eof demo_env i Fin)) (zip [1..<Suc (length aux)] aux)
     @ [client demo_env ops]"
proof -
  have one: "fst (read_chunks new_reader [concat (map encode_message qs)]) = qs" if "fits qs" for qs
    using read_encoded [of "[concat (map encode_message qs)]" qs] that by (simp add: fits_def list_all_iff)
  have "map (\<lambda>(i, chunks). aux_reader demo_env i chunks) (zip is (map (\<lambda>qs. [concat (map encode_message qs)]) aux))
      = map (\<lambda>(i, qs). handle_all (aux_frame demo_env i) qs (aux_eof demo_env i Fin)) (zip is aux)" for "is"
    using assms(2) by (auto simp: zip_map2 aux_reader_def one list_all_iff simp del: read_chunks.simps dest: set_zip_rightD)
  then show ?thesis
    using one [OF assms(1)] by (simp add: session_tasks_def demo_run_def primary_reader_def del: read_chunks.simps upt_Suc)
qed

definition demo_end :: "(string \<times> string json) list \<Rightarrow> string list \<Rightarrow> string list list \<Rightarrow> client_op list \<Rightarrow> nat list \<Rightarrow> (mutex, mux) system" where
  "demo_end xs ps aux ops sched = run_session demo_env (demo_run ps aux ops) sched (demo_mux xs)"

lemma demo_end:
  assumes "list_all (\<lambda>p. length p < 100) ps" "list_all (list_all (\<lambda>p. length p < 100)) aux"
  shows "demo_end xs ps aux ops sched = run_schedule sched (demo_mux xs, start (
     handle_all (primary_frame demo_env) ps (primary_eof Fin)
     # map (\<lambda>(i, qs). handle_all (aux_frame demo_env i) qs (aux_eof demo_env i Fin)) (zip [1..<Suc (length aux)] aux)
     @ [client demo_env ops]))"
proof -
  have "fits ps" "list_all fits aux" using assms by (auto simp: fits_short list_all_iff)
  then show ?thesis by (simp add: demo_end_def run_session_def demo_tasks)
qed

section \<open>Answers\<close>

definition answer_key :: "nat \<times> frame \<Rightarrow> (nat \<times> int) option" where
  "answer_key e = map_option (Pair (fst e)) (id_of (frame_json (snd e)))"

definition answers :: "mux \<Rightarrow> (nat \<times> int) multiset" where
  "answers s = mset (List.map_filter answer_key (mx_log s))"

definition owed :: "mux \<Rightarrow> (nat \<times> int) multiset" where
  "owed s = mset (map snd (mx_pending s))"

definition simple_aux :: "aux_child \<Rightarrow> bool" where
  "simple_aux a \<longleftrightarrow> \<not> aux_answers_requests (ac_role a) \<and> list_all (\<lambda>e. plain (snd e)) (ac_pending a)"

definition simple_session :: "mux \<Rightarrow> bool" where
  "simple_session s \<longleftrightarrow> mx_merges s = [] \<and> list_all simple_aux (mx_aux s)"

lemma answers_deliver: "answers (deliver c f s) \<subseteq># answers s + claim_of (\<lambda>x. {#x#}) c (frame_json f)"
  by (auto simp: deliver_def answers_def List.map_filter_def answer_key_def claim_of_def
      split: option.split)

lemma list_all_aux:
  assumes "map f xs = map f ys" "\<And>x y. f x = f y \<Longrightarrow> P x = P y" shows "list_all P xs = list_all P ys"
proof -
  have "length xs = length ys" using assms(1) by (rule map_eq_imp_length_eq)
  moreover have "P (xs ! n) = P (ys ! n)" if "n < length xs" for n
    using assms(1) that calculation by (intro assms(2)) (metis nth_map)
  ultimately show ?thesis by (simp add: list_all_length)
qed

lemma simple_core: "same_core s s' \<Longrightarrow> simple_session s' = simple_session s"
proof -
  assume c: "same_core s s'"
  have "map (\<lambda>a. (ac_role a, ac_pending a)) (mx_aux s') = map (\<lambda>a. (ac_role a, ac_pending a)) (mx_aux s)"
    using c by (simp add: same_core_def list_eq_iff_nth_eq)
  then have "list_all simple_aux (mx_aux s') = list_all simple_aux (mx_aux s)"
    by (rule list_all_aux) (simp add: simple_aux_def)
  then show ?thesis using c by (simp add: simple_session_def same_core_def)
qed

lemma list_all_upd_aux:
  "list_all P (mx_aux s) \<Longrightarrow> (\<And>a. a \<in> set (mx_aux s) \<Longrightarrow> P a \<Longrightarrow> P (f a)) \<Longrightarrow> list_all P (mx_aux (upd_aux i f s))"
  by (cases "i - Suc 0 < length (mx_aux s)") (auto simp: upd_aux_def list_all_length nth_list_update list_update_beyond)

lemma simple_pending:
  assumes "simple_session s" "\<And>es. set (f es) \<subseteq> set es \<union> {e. plain (snd e)}"
  shows "simple_session (upd_pending i f s)"
proof -
  have "list_all simple_aux (mx_aux (upd_pending i f s))"
    unfolding upd_pending_def
  proof (rule list_all_upd_aux)
    show "list_all simple_aux (mx_aux s)" using assms(1) by (simp add: simple_session_def)
  next
    fix a assume "simple_aux a"
    then show "simple_aux (a\<lparr>ac_pending := f (ac_pending a)\<rparr>)"
      using assms(2) [of "ac_pending a"] by (auto simp: simple_aux_def list_all_iff)
  qed
  then show ?thesis using assms(1) by (simp add: simple_session_def upd_pending_def)
qed

lemma simple_unchanged:
  "simple_session (s\<lparr>mx_asked := a\<rparr>) = simple_session s" "simple_session (deliver c f s) = simple_session s"
  "simple_session (s\<lparr>mx_pending := p\<rparr>) = simple_session s" "simple_session (s\<lparr>mx_gone := g\<rparr>) = simple_session s"
  "simple_session (store_part j u ds s) = simple_session s" "simple_session (remove_parts j s) = simple_session s"
  "simple_session (s\<lparr>mx_cache := x\<rparr>) = simple_session s" "simple_session (s\<lparr>mx_diag_parts := y\<rparr>) = simple_session s"
  "simple_session (store_provenance E u items s) = simple_session s" "simple_session (s\<lparr>mx_provenance := z\<rparr>) = simple_session s"
  by (simp_all add: simple_session_def deliver_def store_part_def remove_parts_def store_provenance_def Let_def)

lemma account_unchanged:
  "mx_log (store_part j u ds s) = mx_log s" "mx_pending (store_part j u ds s) = mx_pending s" "mx_asked (store_part j u ds s) = mx_asked s"
  "mx_log (remove_parts j s) = mx_log s" "mx_pending (remove_parts j s) = mx_pending s" "mx_asked (remove_parts j s) = mx_asked s"
  "mx_log (store_provenance E u items s) = mx_log s" "mx_pending (store_provenance E u items s) = mx_pending s"
  "mx_asked (store_provenance E u items s) = mx_asked s"
  "mx_pending (deliver c f s) = mx_pending s" "mx_asked (deliver c f s) = mx_asked s"
  "mx_log (upd_pending j g s) = mx_log s" "mx_pending (upd_pending j g s) = mx_pending s" "mx_asked (upd_pending j g s) = mx_asked s"
  by (simp_all add: deliver_def store_part_def remove_parts_def store_provenance_def Let_def upd_pending_def)

lemma mset_hm_del: "mset (map snd (hm_del k m)) \<subseteq># mset (map snd m)"
  unfolding hm_del_def by (simp add: image_mset_subseteq_mono)

lemma mset_hm_take: "map_of m k = Some v \<Longrightarrow> mset (map snd (hm_del k m)) + {#v#} \<subseteq># mset (map snd m)"
proof (induction m)
  case (Cons e m)
  show ?case
  proof (cases "fst e = k")
    case True
    then show ?thesis using Cons(2) mset_hm_del [of k m] by (auto simp: hm_del_def)
  next
    case False
    then show ?thesis using Cons by (auto simp: hm_del_def)
  qed
qed simp

lemma simple_no_req:
  "simple_session s \<Longrightarrow> mx_merges s = [] \<and> \<not> has_requesting_aux s \<and> list_all (\<lambda>a. list_all (\<lambda>e. plain (snd e)) (ac_pending a)) (mx_aux s)"
  by (auto simp: simple_session_def has_requesting_aux_def simple_aux_def list_ex_iff list_all_iff)

interpretation account: mux_rules simple_session "\<lambda>s. answers s + owed s" "\<lambda>s. mset (mx_asked s)" "\<lambda>_ _. True"
  "\<lambda>x. {#x#}" False True
proof (unfold_locales, goal_cases)
  case (2 s s')
  then show ?case using simple_core [of s s'] by (simp add: same_core_def answers_def owed_def)
next
  case (4 s c fr)
  then show ?case using answers_deliver [of c fr s] by (simp add: simple_unchanged account_unchanged owed_def ac_simps)
next
  case (5 s sid c i)
  have "owed (s\<lparr>mx_pending := hm_put sid (c, i) (mx_pending s)\<rparr>) \<subseteq># owed s + {#(c, i)#}"
    using mset_hm_del [of sid "mx_pending s"] by (simp add: owed_def hm_put_def)
  with 5 show ?case by (simp add: simple_unchanged answers_def ac_simps)
next
  case (6 s sid x)
  then show ?case using mset_hm_take [of "mx_pending s" sid x] by (simp add: answers_def owed_def ac_simps)
next
  case (7 s P)
  then show ?case by (simp add: simple_unchanged answers_def owed_def image_mset_subseteq_mono)
qed (auto simp: simple_unchanged account_unchanged answers_def owed_def ac_simps intro: simple_pending dest: simple_no_req)


text \<open>How many answers to its request \<open>i\<close> a client has received.\<close>

definition answers_to :: "nat \<Rightarrow> int \<Rightarrow> mux \<Rightarrow> nat" where
  "answers_to c i s = length (filter (\<lambda>f. id_of (frame_json f) = Some i) (inbox c s))"

text \<open>How many requests of it under this number \<open>send\<close> has taken on.\<close>

definition asked :: "nat \<Rightarrow> int \<Rightarrow> mux \<Rightarrow> nat" where
  "asked c i s = count_list (mx_asked s) (c, i)"

lemma count_answers: "count (answers s) (c, i) = answers_to c i s"
proof -
  have "count (mset (List.map_filter answer_key es)) (c, i)
      = length (filter (\<lambda>f. id_of (frame_json f) = Some i) (map snd (filter (\<lambda>e. fst e = c) es)))" for es
    by (induction es) (auto simp: List.map_filter_simps answer_key_def split: option.splits)
  then show ?thesis by (simp add: answers_def answers_to_def inbox_def)
qed

lemma spawn_simple:
  assumes "spawn_session spawn_error spec = Inr s" "list_all (\<lambda>x. \<not> aux_answers_requests (ax_role x)) (tc_aux spec)"
  shows "simple_session s"
  using assms by (auto simp: spawn_session_def simple_session_def simple_aux_def new_aux_def list_all_iff split: option.splits)

lemma spawn_fresh:
  assumes "spawn_session spawn_error spec = Inr s"
  shows "mx_log s = [] \<and> mx_asked s = [] \<and> mx_pending s = [] \<and> mx_gone s = [] \<and> mx_cache s = [] \<and>
    mx_diag_parts s = [] \<and> mx_provenance s = [] \<and> mx_merges s = []"
  using assms by (auto simp: spawn_session_def split: option.splits)

text \<open>C6: In a session whose auxiliary servers answer no requests (none at all, or linters that only
  publish diagnostics), no client ever receives more answers under a number than it has sent
  requests with it, and so never an answer to a question it has not asked: whatever the clients
  do, whatever the servers write, in what pieces, in whatever order the tasks run.
\<close>

theorem answers_at_most_once:
  assumes "spawn_session spawn_error spec = Inr s0"
    and "list_all (\<lambda>x. \<not> aux_answers_requests (ax_role x)) (tc_aux spec)"
  shows "answers_to c i (fst (run_session E r sched s0)) \<le> asked c i (fst (run_session E r sched s0))"
proof -
  let ?s = "fst (run_session E r sched s0)"
  have "answers s0 = {#}" "owed s0 = {#}" "mx_asked s0 = []"
    using spawn_fresh [OF assms(1)] by (simp_all add: answers_def owed_def List.map_filter_simps)
  with account.session_covered [OF spawn_simple [OF assms], of E r sched]
  have "answers ?s + owed ?s \<subseteq># mset (mx_asked ?s)" by simp
  then have "answers ?s \<subseteq># mset (mx_asked ?s)" by (metis mset_subset_eq_add_left subset_mset.order_trans)
  then have "count (answers ?s) (c, i) \<le> count (mset (mx_asked ?s)) (c, i)" by (rule mset_subset_eq_count)
  then show ?thesis by (simp only: count_answers asked_def count_mset)
qed

lemma answers_at_most_once_witness:
  "(let s = fst (demo_end [(''diagnostics-merge'', JNull)] [''tell'', ''tell''] [[]] [OpSend ''ask''] (replicate 9 2 @ replicate 30 0)) in
    answers_to 1 7 s \<le> asked 1 7 s)"
  unfolding demo_end_def Let_def by (rule answers_at_most_once [OF demo_mux]) code_simp

section \<open>No lock-up\<close>

definition calm_session :: "mux \<Rightarrow> bool" where
  "calm_session s \<longleftrightarrow> simple_session s \<and> mx_gone s = [] \<and> list_all (\<lambda>a. as_obj (ac_init_options a) = None) (mx_aux s)"

definition mutex_rank :: "mutex \<Rightarrow> nat" where
  "mutex_rank l = (if l = LPending \<or> l = LParts then 0 else 1)"

definition rank_ok :: "mutex list \<Rightarrow> mutex \<Rightarrow> bool" where
  "rank_ok held l \<longleftrightarrow> list_all (\<lambda>h. mutex_rank h < mutex_rank l) held"

lemma calm_core: "same_core s s' \<Longrightarrow> calm_session s' = calm_session s"
proof -
  assume c: "same_core s s'"
  then have "list_all (\<lambda>a. as_obj (ac_init_options a) = None) (mx_aux s') = list_all (\<lambda>a. as_obj (ac_init_options a) = None) (mx_aux s)"
    by (intro list_all_aux [where f = ac_init_options]) (simp_all add: same_core_def)
  then show ?thesis using simple_core [OF c] c by (simp add: calm_session_def same_core_def)
qed

lemma calm_unchanged:
  "calm_session (s\<lparr>mx_asked := a\<rparr>) = calm_session s" "calm_session (deliver c f s) = calm_session s"
  "calm_session (s\<lparr>mx_pending := p\<rparr>) = calm_session s"
  "calm_session (store_part j u ds s) = calm_session s" "calm_session (remove_parts j s) = calm_session s"
  "calm_session (s\<lparr>mx_cache := x\<rparr>) = calm_session s" "calm_session (s\<lparr>mx_diag_parts := y\<rparr>) = calm_session s"
  "calm_session (store_provenance E u items s) = calm_session s" "calm_session (s\<lparr>mx_provenance := z\<rparr>) = calm_session s"
  by (simp_all add: calm_session_def simple_unchanged)
    (simp_all add: deliver_def store_part_def remove_parts_def store_provenance_def Let_def)

lemma calm_pending:
  assumes "calm_session s" "\<And>es. set (f es) \<subseteq> set es \<union> {e. plain (snd e)}"
  shows "calm_session (upd_pending i f s)"
proof -
  have "list_all (\<lambda>a. as_obj (ac_init_options a) = None) (mx_aux (upd_pending i f s))"
    using assms(1) unfolding upd_pending_def by (intro list_all_upd_aux) (simp_all add: calm_session_def)
  then show ?thesis using simple_pending [OF _ assms(2)] assms(1) by (simp add: calm_session_def upd_pending_def)
qed

lemma calm_quiet: "calm_session s \<Longrightarrow> mx_gone s = [] \<and> list_all (\<lambda>a. as_obj (ac_init_options a) = None) (mx_aux s)"
  by (simp add: calm_session_def)

lemma calm_simple: "calm_session s \<Longrightarrow> simple_session s"
  by (simp add: calm_session_def)

interpretation calm: mux_rules calm_session "\<lambda>_. {#}" "\<lambda>_. {#} :: unit multiset" rank_ok "\<lambda>_. {#}" False False
proof (unfold_locales, goal_cases)
  case (2 s s')
  then show ?case using calm_core [of s s'] by simp
next
  case (9 s)
  show ?case by (rule calm_quiet [OF 9(2)])
next
  case (10 s)
  show ?case by (rule simple_no_req [OF calm_simple [OF 10(2)]])
qed (auto simp: calm_unchanged rank_ok_def mutex_rank_def claim_of_def intro: calm_pending split: option.split)

text \<open>No task can go.\<close>

definition stuck :: "(mutex, mux) system \<Rightarrow> bool" where
  "stuck c \<longleftrightarrow> list_all (\<lambda>i. task_step i c = None) [0..<length (snd c)]"

lemma stuck_iff: "stuck c \<longleftrightarrow> (\<forall>i. task_step i c = None)"
  by (auto simp: stuck_def list_all_iff task_step_def)

text \<open>C5: A session whose auxiliary servers answer no requests, and get no options injected, never locks
  itself up: it can always be run on until no task can go, and whenever none can, every task has
  ended or waits for its own input (a frame, room in a channel, diagnostics, the outcome of an
  initialization), holding no mutex. No task ever waits for a mutex for good.
\<close>

theorem session_never_locks_up:
  assumes "spawn_session spawn_error spec = Inr s0"
    and "list_all (\<lambda>x. \<not> aux_answers_requests (ax_role x) \<and> as_obj (ax_init_options x) = None) (tc_aux spec)"
  shows "(\<exists>rest. stuck (run_session E r (sched @ rest) s0)) \<and>
    (stuck (run_session E r sched s0) \<longrightarrow>
     list_all (\<lambda>t. task_done t \<or> (waits (fst (run_session E r sched s0)) t \<and> fst t = []))
       (snd (run_session E r sched s0)))"
proof (intro conjI impI)
  obtain rest where "\<forall>i. task_step i (run_schedule rest (run_session E r sched s0)) = None"
    using run_to_end by blast
  then show "\<exists>rest. stuck (run_session E r (sched @ rest) s0)"
    by (intro exI [of _ rest]) (simp add: run_session_def run_schedule_append stuck_iff)
next
  assume "stuck (run_session E r sched s0)"
  then have all: "task_step i (run_session E r sched s0) = None" for i by (simp add: stuck_iff)
  have "calm_session s0"
    using spawn_simple [OF assms(1)] spawn_fresh [OF assms(1)] assms
    by (auto simp: calm_session_def list_all_iff spawn_session_def new_aux_def split: option.splits)
  from calm.session_progress [OF this _ all, of mutex_rank]
  show "list_all (\<lambda>t. task_done t \<or> (waits (fst (run_session E r sched s0)) t \<and> fst t = [])) (snd (run_session E r sched s0))"
    by (auto simp: list_all_iff rank_ok_def)
qed

lemma session_never_locks_up_witness:
  "(\<exists>rest. stuck (demo_end [(''diagnostics-merge'', JNull)] [''tell''] [[''publish1'']] [OpSend ''ask''] (replicate 9 2 @ rest)))"
  unfolding demo_end_def by (rule session_never_locks_up [OF demo_mux, THEN conjunct1]) code_simp

section \<open>Diagnostics\<close>

text \<open>The cache of a document, when it has one, is what its servers last published, joined.\<close>

definition coherent :: "mux \<Rightarrow> bool" where
  "coherent s \<longleftrightarrow> distinct (map fst (mx_diag_parts s)) \<and>
     list_all (\<lambda>(u, ps). case map_of (mx_cache s) u of None \<Rightarrow> True | Some ds \<Rightarrow> ds = concat_diag_parts ps) (mx_diag_parts s)"

lemma coherent_iff:
  "coherent s \<longleftrightarrow> distinct (map fst (mx_diag_parts s)) \<and>
     (\<forall>u ps ds. map_of (mx_diag_parts s) u = Some ps \<longrightarrow> map_of (mx_cache s) u = Some ds \<longrightarrow> ds = concat_diag_parts ps)"
  by (fastforce simp: coherent_def list_all_iff split: option.splits dest: map_of_SomeD)

lemma coherent_fields:
  "mx_diag_parts s' = mx_diag_parts s \<Longrightarrow> mx_cache s' = mx_cache s \<Longrightarrow> coherent s' = coherent s"
  by (simp add: coherent_def)

lemma distinct_hm_del: "distinct (map fst m) \<Longrightarrow> distinct (map fst (hm_del k m))"
  by (simp add: hm_del_def distinct_map_filter)

lemma distinct_hm_put: "distinct (map fst m) \<Longrightarrow> distinct (map fst (hm_put k v m))"
  by (auto simp: hm_put_def distinct_hm_del) (auto simp: hm_del_def)

lemma coherent_store: "coherent s \<Longrightarrow> coherent (store_part j u ds s)"
  by (auto simp: coherent_iff store_part_def Let_def distinct_hm_put)

lemma coherent_uncache: "coherent s \<Longrightarrow> coherent (s\<lparr>mx_cache := hm_del u (mx_cache s)\<rparr>)"
  by (auto simp: coherent_iff)

lemma coherent_unpart: "coherent s \<Longrightarrow> coherent (s\<lparr>mx_diag_parts := hm_del u (mx_diag_parts s)\<rparr>)"
  by (auto simp: coherent_iff distinct_hm_del)

lemma map_of_filter_map:
  "distinct (map fst m) \<Longrightarrow> map_of (filter P (map (\<lambda>e. (fst e, f (snd e))) m)) u
    = (case map_of m u of None \<Rightarrow> None | Some v \<Rightarrow> if P (u, f v) then Some (f v) else None)"
  by (induction m) (auto simp: map_of_eq_None_iff image_iff split: option.splits)

lemma recache:
  assumes "distinct (map fst es)"
  shows "map_of (fold (\<lambda>e. if hm_del j (snd e) = [] then hm_del (fst e) else hm_put (fst e) (g (hm_del j (snd e)))) es cache) u
    = (case map_of es u of None \<Rightarrow> map_of cache u
       | Some ps \<Rightarrow> if hm_del j ps = [] then None else Some (g (hm_del j ps)))"
  using assms
proof (induction es arbitrary: cache)
  case (Cons e es)
  then have "map_of es (fst e) = None" by (simp add: map_of_eq_None_iff)
  with Cons show ?case by (cases "u = fst e") (auto split: option.splits)
qed simp

lemma hm_del_absent: "j \<notin> fst ` set ps \<Longrightarrow> hm_del j ps = ps"
  by (auto simp: hm_del_def filter_id_conv)

lemma coherent_remove:
  assumes "coherent s" shows "coherent (remove_parts j s)"
proof -
  have d: "distinct (map fst (mx_diag_parts s))" using assms by (simp add: coherent_iff)
  let ?touched = "filter (\<lambda>e. j \<in> fst ` set (snd e)) (mx_diag_parts s)"
  have t: "map_of ?touched u = (case map_of (mx_diag_parts s) u of None \<Rightarrow> None
      | Some ps \<Rightarrow> if j \<in> fst ` set ps then Some ps else None)" for u
    using map_of_filter_map [OF d, of "\<lambda>e. j \<in> fst ` set (snd e)" id u] by (simp split: option.split)
  have "distinct (map fst ?touched)" using d by (rule distinct_map_filter)
  note cache = recache [OF this, of j concat_diag_parts "mx_cache s"]
  show ?thesis
    unfolding coherent_iff
  proof (intro conjI allI impI)
    have "distinct (map fst (map (\<lambda>e. (fst e, hm_del j (snd e))) (mx_diag_parts s)))" using d by (simp add: comp_def)
    from distinct_map_filter [OF this] show "distinct (map fst (mx_diag_parts (remove_parts j s)))"
      by (simp add: remove_parts_def Let_def)
  next
    fix u ps ds
    assume p: "map_of (mx_diag_parts (remove_parts j s)) u = Some ps" and c: "map_of (mx_cache (remove_parts j s)) u = Some ds"
    from p obtain qs where q: "map_of (mx_diag_parts s) u = Some qs" "ps = hm_del j qs" "ps \<noteq> []"
      by (auto simp: remove_parts_def Let_def map_of_filter_map [OF d] split: option.splits if_splits)
    from c have "(case map_of ?touched u of None \<Rightarrow> map_of (mx_cache s) u
       | Some ps \<Rightarrow> if hm_del j ps = [] then None else Some (concat_diag_parts (hm_del j ps))) = Some ds"
      by (simp add: remove_parts_def Let_def cache)
    with q assms show "ds = concat_diag_parts ps"
      by (auto simp: t coherent_iff hm_del_absent split: if_splits)
  qed
qed

interpretation diagnostics: mux_rules coherent "\<lambda>_. {#}" "\<lambda>_. {#} :: unit multiset" "\<lambda>_ _. True" "\<lambda>_. {#}" True True
  by unfold_locales
    (auto simp: coherent_store coherent_remove coherent_uncache coherent_unpart deliver_def upd_pending_def
        store_provenance_def Let_def same_core_def cong: coherent_fields)




section \<open>Served completions\<close>

definition few_completions :: "mux \<Rightarrow> bool" where
  "few_completions s \<longleftrightarrow> distinct (map fst (mx_provenance s)) \<and> length (mx_provenance s) \<le> MAX_COMPLETION_PROVENANCE_URIS"

lemma length_hm_del: "length (hm_del k m) \<le> length m"
  by (simp add: hm_del_def)

lemma length_hm_del_less: "k \<in> fst ` set m \<Longrightarrow> length (hm_del k m) < length m"
  unfolding hm_del_def by (auto intro: length_filter_less)

lemma length_hm_put: "length (hm_put k v m) \<le> Suc (length m)"
  using length_hm_del [of k m] by (simp add: hm_put_def)

lemma length_hm_put_known: "k \<in> fst ` set m \<Longrightarrow> length (hm_put k v m) \<le> length m"
  using length_hm_del_less [of k m] by (simp add: hm_put_def)

lemma few_store: "few_completions s \<Longrightarrow> few_completions (store_provenance E u items s)"
proof -
  assume f: "few_completions s"
  let ?m = "mx_provenance s" and ?keys = "map fst (mx_provenance s)"
  consider (known) "u \<in> fst ` set ?m" | (room) "u \<notin> fst ` set ?m" "length ?m < MAX_COMPLETION_PROVENANCE_URIS"
    | (full) "u \<notin> fst ` set ?m" "MAX_COMPLETION_PROVENANCE_URIS \<le> length ?m" by linarith
  then show ?thesis
  proof cases
    case known
    then have "mx_provenance (store_provenance E u items s) = hm_put u items ?m"
      by (simp add: store_provenance_def Let_def)
    with f length_hm_put_known [OF known, of items] show ?thesis by (simp add: few_completions_def distinct_hm_put)
  next
    case room
    then have "mx_provenance (store_provenance E u items s) = hm_put u items ?m"
      by (simp add: store_provenance_def Let_def)
    with f room length_hm_put [of u items ?m] show ?thesis by (simp add: few_completions_def distinct_hm_put)
  next
    case full
    then have ne: "?keys \<noteq> []" by (auto simp: MAX_COMPLETION_PROVENANCE_URIS_def)
    then have "?keys ! (me_pick E ?keys mod length ?keys) \<in> set ?keys" by (intro nth_mem) simp
    then have k: "?keys ! (me_pick E ?keys mod length ?keys) \<in> fst ` set ?m" by simp
    let ?kept = "hm_del (?keys ! (me_pick E ?keys mod length ?keys)) ?m"
    have "length ?kept < length ?m" using k by (rule length_hm_del_less)
    moreover have "mx_provenance (store_provenance E u items s) = hm_put u items ?kept"
      using full ne by (simp add: store_provenance_def Let_def)
    ultimately show ?thesis
      using f length_hm_put [of u items ?kept] by (simp add: few_completions_def distinct_hm_put distinct_hm_del)
  qed
qed

lemma few_del: "few_completions s \<Longrightarrow> few_completions (s\<lparr>mx_provenance := hm_del u (mx_provenance s)\<rparr>)"
  using length_hm_del [of u "mx_provenance s"] by (auto simp: few_completions_def distinct_hm_del)

lemma few_fields: "mx_provenance s' = mx_provenance s \<Longrightarrow> few_completions s' = few_completions s"
  by (simp add: few_completions_def)

interpretation completions: mux_rules few_completions "\<lambda>_. {#}" "\<lambda>_. {#} :: unit multiset" "\<lambda>_ _. True" "\<lambda>_. {#}" True True
  by unfold_locales
    (auto simp: few_store few_del deliver_def upd_pending_def store_part_def remove_parts_def Let_def same_core_def cong: few_fields)

text \<open>
  The table of served completions never holds more than 64 documents, whatever the clients ask,
  however the tasks interleave and whichever entry is evicted.
\<close>

theorem completions_bounded:
  assumes "spawn_session spawn_error spec = Inr s0"
  shows "length (mx_provenance (fst (run_session E r sched s0))) \<le> MAX_COMPLETION_PROVENANCE_URIS"
proof -
  have "few_completions s0" using spawn_fresh [OF assms] by (simp add: few_completions_def)
  from completions.session_keeps [OF this, of E r sched] show ?thesis by (simp add: few_completions_def)
qed

lemma completions_bounded_witness:
  "length (mx_provenance (fst (demo_end [(''tsserver-forward'', JNull)] [''tell''] [[]] [OpSend ''ask''] (replicate 9 2 @ replicate 30 0))))
    \<le> MAX_COMPLETION_PROVENANCE_URIS"
  unfolding demo_end_def by (rule completions_bounded [OF demo_mux])

section \<open>Runs to beware of\<close>

text \<open>
  While the primary answers a merged request, its client leaves: the reader holds \<open>merges\<close> and wants
  \<open>pending\<close>, the client holds \<open>pending\<close> and wants \<open>merges\<close>. Nothing moves any more.
\<close>

lemma leaving_locks_up:
  "(let c = demo_end [(''tsserver-forward'', JNull)] [''tell''] [[]] [OpSend ''ask'']
      (replicate 29 2 @ replicate 2 0 @ replicate 20 1) in
    stuck c \<and> map fst (snd c) = [[LMerges], [], [LPending]] \<and>
    list_all (\<lambda>t. case snd t of Lock l _ \<Rightarrow> l \<in> {LPending, LMerges} | _ \<Rightarrow> False) (snd c))"
  by (subst demo_end) (code_simp, code_simp, code_simp)

text \<open>
  The auxiliary server dies between the entry of its request and the second look at it: its part is
  counted as missing twice, the merge completes without the primary, and the primary's answer goes
  out as a second one.
\<close>

lemma merged_request_answered_twice:
  "(let s = fst (demo_end [(''tsserver-forward'', JNull)] [''tell''] [[]] [OpSend ''ask'']
      (replicate 20 2 @ replicate 20 1 @ replicate 13 2 @ replicate 30 0)) in
    asked 1 7 s = 1 \<and> map frame_json (inbox 1 s) = [reply_result 7 JNull, JObj [(''id'', JInt 7), (''result'', JStr ''x'')]])"
  by (subst demo_end) (code_simp, code_simp, code_simp)

text \<open>
  A request of the server carries a number like an answer, and is taken for one: it uses up the
  client's request, and the true answer is dropped.
\<close>

lemma server_request_taken_for_answer:
  "(let s = fst (demo_end [] [''request'', ''tell''] [] [OpSend ''ask''] (replicate 9 1 @ replicate 30 0)) in
    asked 1 7 s = 1 \<and> map frame_json (inbox 1 s) = [JObj [(''id'', JInt 7), (''method'', JStr ''workspace/configuration'')]])"
  by (subst demo_end) (code_simp, code_simp, code_simp)

text \<open>
  A client asks to initialize with an array of parameters where options are to be injected: its call
  panics and its receiver goes without a word. The next notification locks the reader up with the
  mutex of the clients in its hand.
\<close>

lemma panic_locks_up:
  "(let c = demo_end [(''diagnostics-merge'', JObj [])] [''publish0''] [[]] [OpSend ''initialize''] (replicate 30 2 @ replicate 30 0) in
    (case snd (snd c ! 2) of Dead \<Rightarrow> True | _ \<Rightarrow> False) \<and> fst (snd c ! 0) = [LSubs] \<and> (case snd (snd c ! 0) of Lock l _ \<Rightarrow> l = LSubs | _ \<Rightarrow> False))"
  by (subst demo_end) (code_simp, code_simp, code_simp)

text \<open>
  Diagnostics published between the two halves of an invalidation: what another server had
  published before is in the cache again, and no part stands for it any more.
\<close>

lemma invalidation_leaves_stale_diagnostics:
  "(let s = fst (demo_end [(''diagnostics-merge'', JNull)] [''publish0''] [[''publish1'']] [OpInvalidate ''f'']
      (replicate 8 1 @ replicate 7 2 @ replicate 8 0 @ replicate 3 2)) in
    map_of (mx_cache s) ''f'' = Some [JInt 0, JInt 1] \<and> map_of (mx_diag_parts s) ''f'' = None)"
  by (subst demo_end) (code_simp, code_simp, code_simp)

end
