(* ===== verification/Spec2Isabelle.thy ===== *)
theory Spec2Isabelle
  imports EditorSpec EditorView TuiProps CfgPatch FsLayers FsFilesProps JobsProps HlParsers HlReportProps Confine LspText CodeHealthProps WfStepsProps WfGate AppOwners WfLaunch ToolsEditProps ToolsMcpProps SessionProps SessionTools SessionPrompt LspMuxProps
begin

text \<open>
  A model of vanyline, a development environment on Kubernetes in which agents work on the code of
  a project: the workspaces are sandboxes (pods) with a server that gives agents files, commands,
  language servers and checks of the code; an application server holds users, projects,
  conversations and workflows; a command-line client chats with agents in a terminal; and an engine
  shared by the server and the client runs the turns of agents against a configuration of
  providers, models, toolsets, skills and agents.

  The theories are shallow embeddings of the Rust sources under src/. Structures are records, enums
  are datatypes, errors are values of sums or options, state is passed explicitly, and whatever
  runs concurrently is a step relation or a sequence of steps in which every critical section, every
  request or every system call is one step. A definition bears the name of what it models
  wherever Isabelle allows it. What is not in the repository (the model providers and the runtime
  of agents, the cluster, the database, the workflow engine, parsers of JSON, YAML, dates and
  regular expressions, git, the compilers and linters) is a parameter: an argument of the
  definitions that use it, mostly a field of a record of such arguments.

  Text is a list of bytes where the code works on bytes and a list of Unicode scalar values where it
  works on characters (the input area). Unsigned integers of 64 bits are words in the session
  events and natural numbers with the bound written out elsewhere (\<open>U64_MAX\<close>, \<open>sat_add\<close>).

  \<^bold>\<open>Foundations.\<close> Prelude (splitting, joining and trimming of lists, infixes, JSON values), StrText
  (lines, white space, joining of byte strings), UText (characters), NumText (decimal numbers and
  their round trip, hexadecimal and percent encoding), BTree (ordered maps as sorted lists),
  ToolArgs (reading the arguments of a call as serde reads a record).

  \<^bold>\<open>Sessions of agents\<close> (lib/src). ChatEvent and ChatStream: the events and the accumulator of
  event.rs. Session: the prompt, the index of skills and the chain of references of session.rs.
  SessionTurn: the tools and connections of a turn, the calls of tools (builtin/task.rs, skill.rs,
  todo.rs, prefixed_mcp.rs), the client of the model (model.rs), and the recursion of turns through
  the tool that starts subagents; it terminates because the depth grows up to the limit of the
  context. The runtime of an agent is a finite tree of items and calls, one branch per outcome of a
  call. SessionProps: a grammar of the events of a turn with its subagents, whose nesting the limit
  bounds, and the result of a turn as what a client makes of its events. SessionTools: an agent gets
  the tools its toolsets select, servers are contacted once, connections are released. SessionPrompt:
  what an agent resolves to over the in-memory store, which joins the engine to the configuration.

  \<^bold>\<open>Configuration\<close> (cfgstore/src). CfgStore: types, errors, names (domain.rs, error.rs) and
  the in-memory store (store.rs); CfgStoreProps states the contract of a collection of named items
  as a locale and interprets it for the six kinds; CfgStoreSpec: consistency after any run of
  operations and the laws of lookups; CfgPatch: what a patch does. FsConfig, FsFiles: the store on
  disk (fs_store.rs, layers.rs), config.yaml as ordered maps of JSON objects, the other kinds one
  file each; FsConfigProps, FsLayers, FsFilesProps: failed operations write nothing, what was
  written can be read, the layers are merged by name, files round-trip. YAML is a parameter.

  \<^bold>\<open>Terminal client\<close> (cli/src/tui). Graphemes, Editor, EditorView: the input area (editor.rs);
  EditorSpec: the commands as edits of the text before and after the cursor. TuiState: the state and
  its update (state.rs); TuiInvariant, TuiProps: totality after any sequence of actions, the
  discipline of turns, the revision the view is cached by.

  \<^bold>\<open>Tools of a sandbox.\<close> Confine: the paths agents give, walked through symbolic links
  (sandbox/src/tools_impl.rs). ToolsRead: bounded output, reading and replacing
  (tools/src/output.rs, filesystem.rs). ToolsOs: the system calls on a tree, each of which may fail,
  with a trail of every tree; ToolsFs: the file tools and searches call by call (filesystem.rs,
  search.rs). ToolsMcp: commands (command.rs), the Python overlay (sandbox/src/venv.rs), the dispatch
  of calls and the MCP server (sandbox/src/mcp.rs). ToolsReadProps, ToolsEditProps, ToolsFsProps,
  ToolsMcpProps: reading page by page ends and shows every line, an edit is exact and atomic under
  faults and crashes, a call changes nothing outside of the root, requests are answered, the edit
  distance is least. LspText: the text side of the language-server tools.

  \<^bold>\<open>Language servers of a sandbox\<close> (sandbox/src/lsp.rs). LspWire: frames and their decoder, which
  gives back what was framed however the stream is cut. LspMerge: toolchains, the routing of methods
  and the merging of the answers of several servers. LspTasks: programs over a shared state with
  mutexes, run under a schedule; a check of one program at a time (an invariant, claims that must
  stay covered, an order of mutexes) that gives invariants and progress of the whole system; every
  system can be run until no task can go. LspMux: the state of a session, its reader and writer
  tasks and the calls of its clients as such programs. LspMuxRules: one walk through all of them, in
  a locale whose assumptions say what an invariant and a balance of claims must survive. LspMuxProps:
  its interpretations: no more answers than requests, no lock-up, diagnostics that are those of the
  servers, a bounded table of served completions; and the runs in which the code goes wrong.

  \<^bold>\<open>Jobs of a sandbox\<close> (sandbox/src/jobs.rs). Jobs: the registry and its critical sections; JobsEvict:
  eviction and log pages; JobsRun: requests and supervisors as a step relation; JobsApi: the HTTP
  view, and the contract of a job service as a locale; JobsProps: bounds, supervision, cancellation
  and finality in every interleaving.

  \<^bold>\<open>Health of the code\<close> (health/src, sandbox/src/health.rs). HlReport, HlParsers, HlLcov, HlDiff:
  reports, the four parsers of diagnostics (whose contract is a locale, HlParsers), coverage,
  changed lines; HlChecks, HlRunner: declared checks and the runner; HlSched, HlSchedLive: the
  scheduler as a step relation, mutual exclusion and absence of deadlock; HlDiffProps,
  HlRunnerProps, HlReportProps: exactness of the view of the new code, when a report is green, the
  end of a run. CodeHealth, CodeHealthProps: the state a sandbox keeps, as a state machine of a
  background task among writes and requests: fresh means current, a refresh is served.

  \<^bold>\<open>Workflows\<close> (app/src). WfRun: the context of a run (workflow/run_context.rs). WfSteps, WfGate: the
  steps shell and gate (workflow/steps); WfStepsProps runs the shell step over the job service of the
  sandbox, WfGate the gate over the state machine of code health. WfStatus, WfStatusProps: the
  queries to the engine (workflow/status.rs). WfApi, WfTables: the tables and their statements; WfApi,
  WfRunsApi: the routes (api/workflows.rs); WfApiProps, WfIsolation, WfLaunch: consistency of the
  tables, isolation of users, launching with its compensation. AppErrors: errors and statuses
  (error.rs). AppOwners: the Owner of a user (api/owners.rs).

  \<^bold>\<open>Termination and fuel.\<close> Loops are structural or have a measure, with these exceptions. The polling
  loops of the steps shell and gate take the answers of the sandbox from a stream and as much fuel
  as there are polls before the deadline; that this is enough is proved
  (\<open>shell_loop_ends\<close>, \<open>gate_ends\<close>). The walk of a path through symbolic links has the fuel of the
  kernel's limit on links, at which the kernel fails as well. Reading page by page is given as many
  calls as there are bytes and one more, which is enough (\<open>reading_through_ends\<close>). A command without a
  limit may not end; then its call has no answer (\<open>None\<close>), and \<open>requests_are_answered\<close> says
  that nothing else goes unanswered.

  \<^bold>\<open>Cases against the code.\<close> Lemmas without a claim show behaviour that is not what the comments or
  the purpose of the code say, among them: a blank last line is not shown (\<open>last_blank_line_lost\<close>),
  overlapping occurrences pass for unique (\<open>overlapping_taken_for_unique\<close>), writing through a link
  replaces the link (\<open>link_is_replaced\<close>), a second selection of a server is ignored
  (\<open>second_selection_ignored\<close>), two logins may share an Owner (AppOwners), a fresh state of the
  code that is not current (last section of CodeHealthProps), and a gate that judges the report of a
  former base (WfGate). The last section of LspMuxProps runs sessions of language servers that lock
  themselves up when a client leaves or panics, answer a request twice, take a request of the server
  for an answer, and keep diagnostics after their invalidation.

  \<^bold>\<open>Not modelled.\<close> The web frontend (TypeScript), manifests, images and toolchains. Of the
  application server: start, OpenID Connect, the routes that pass custom resources to the cluster,
  conversations and the chat socket, the configuration in the database, and the steps agent and
  script, all of which are calls of crates around data that is passed on. The controller, which
  builds Kubernetes objects. Of the sandbox: the clients of language servers and their bridge to
  browsers, sockets, telemetry, maintenance, git. Of the client: printing, the RPC dispatcher and the drawing of the state. Within
  the modelled parts: I/O failures of the configuration on disk, signals to process groups and the
  retries of a job's callback, the rendering of results of the language-server tools, and
  percentages, which are floating point.
\<close>

end
